(* ===== verification/Prelude.thy ===== *)
theory Prelude
  imports Main "HOL-Library.Sublist"
begin

text \<open>
  Shared vocabulary of the development: bytes, the bit operations the C++ sources apply to
  them, and the list facts that the string routines of several components use.

  A C++ \<open>std::string\<close> or \<open>std::string_view\<close> is a \<^typ>\<open>string\<close>, that is a list of
  bytes; \<open>static_cast<unsigned char>\<close> is \<^term>\<open>byte_of\<close> and \<open>static_cast<char>\<close> of an
  integer is \<^term>\<open>chr_of\<close>, which keeps the low eight bits.
\<close>

unbundle bit_operations_syntax

named_theorems bit_arith \<open>bit operations with constant masks, as arithmetic on \<open>nat\<close>\<close>
named_theorems loop_equiv \<open>chunked or indexed loops, as the list function they compute\<close>

section \<open>Bytes\<close>

abbreviation byte_of :: "char \<Rightarrow> nat" where
  "byte_of \<equiv> of_char"

abbreviation chr_of :: "nat \<Rightarrow> char" where
  "chr_of \<equiv> char_of"

type_synonym codepoint = nat

lemma byte_of_less [simp]: "byte_of c < 256"
proof -
  have "byte_of c \<in> range (of_char :: char \<Rightarrow> nat)" by simp
  then show ?thesis by (simp only: range_nat_of_char atLeastLessThan_iff)
qed

lemma byte_of_le [simp]: "byte_of c \<le> 255"
  using byte_of_less [of c] by linarith

lemma byte_of_chr_of: "n < 256 \<Longrightarrow> byte_of (chr_of n) = n"
  by (simp add: of_char_of)

lemma chr_of_eq_iff: "m < 256 \<Longrightarrow> n < 256 \<Longrightarrow> chr_of m = chr_of n \<longleftrightarrow> m = n"
  by (metis byte_of_chr_of)

lemma byte_of_eq_iff: "byte_of c = byte_of d \<longleftrightarrow> c = d"
  by (metis char_of_char)

text \<open>\<open>std::to_string\<close> of an unsigned integer.\<close>

fun to_string :: "nat \<Rightarrow> string" where
  "to_string n = (if n < 10 then [chr_of (48 + n)] else to_string (n div 10) @ [chr_of (48 + n mod 10)])"

declare to_string.simps [simp del]

section \<open>Bit operations with constant masks\<close>

lemma bit_nat_less: "(b::nat) < 2 ^ n \<Longrightarrow> n \<le> m \<Longrightarrow> \<not> bit b m"
  by (metis bit_take_bit_iff leD take_bit_nat_eq_self)

lemma or_shift_nat: "b < 2 ^ n \<Longrightarrow> (push_bit n a OR b :: nat) = a * 2 ^ n + b"
proof -
  assume b: "b < 2 ^ n"
  have "push_bit n a AND b = 0"
    by (rule bit_eqI) (use bit_nat_less [OF b] in \<open>auto simp: bit_simps\<close>)
  then show ?thesis
    by (simp add: push_bit_eq_mult flip: disjunctive_add_eq_or)
qed

lemma and_high_nat:
  assumes b: "b < 2 ^ n"
  shows "(b::nat) AND push_bit k (mask (n - k)) = (b div 2 ^ k) * 2 ^ k"
proof -
  have small: "m < n" if "bit b m" for m
    using bit_nat_less [OF b, of m] that by (meson not_le)
  have "b AND push_bit k (mask (n - k)) = push_bit k (drop_bit k b)"
  proof (rule bit_eqI)
    fix m
    show "bit (b AND push_bit k (mask (n - k))) m \<longleftrightarrow> bit (push_bit k (drop_bit k b)) m"
      using small [of m] by (auto simp: bit_simps)
  qed
  then show ?thesis by (simp add: push_bit_eq_mult drop_bit_eq_div)
qed

lemma and_low_nat: "(b::nat) AND mask n = b mod 2 ^ n"
  by (simp add: take_bit_eq_mod flip: take_bit_eq_mask)

lemma and_0x0F [bit_arith]: "(b::nat) AND 0x0F = b mod 16"
  using and_low_nat [of b 4] by (simp add: mask_eq_exp_minus_1)

lemma and_0x1F [bit_arith]: "(b::nat) AND 0x1F = b mod 32"
  using and_low_nat [of b 5] by (simp add: mask_eq_exp_minus_1)

lemma and_0x07 [bit_arith]: "(b::nat) AND 0x07 = b mod 8"
  using and_low_nat [of b 3] by (simp add: mask_eq_exp_minus_1)

lemma and_0x3F [bit_arith]: "(b::nat) AND 0x3F = b mod 64"
  using and_low_nat [of b 6] by (simp add: mask_eq_exp_minus_1)

lemma and_0xFF [bit_arith]: "(b::nat) AND 0xFF = b mod 256"
  using and_low_nat [of b 8] by (simp add: mask_eq_exp_minus_1)

lemma and_0xE0 [bit_arith]: "(b::nat) < 256 \<Longrightarrow> b AND 0xE0 = (b div 32) * 32"
  using and_high_nat [of b 8 5] by (simp add: mask_eq_exp_minus_1 push_bit_eq_mult)

lemma and_0xF0 [bit_arith]: "(b::nat) < 256 \<Longrightarrow> b AND 0xF0 = (b div 16) * 16"
  using and_high_nat [of b 8 4] by (simp add: mask_eq_exp_minus_1 push_bit_eq_mult)

lemma and_0xF8 [bit_arith]: "(b::nat) < 256 \<Longrightarrow> b AND 0xF8 = (b div 8) * 8"
  using and_high_nat [of b 8 3] by (simp add: mask_eq_exp_minus_1 push_bit_eq_mult)

lemma or_0xC0 [bit_arith]: "(b::nat) < 64 \<Longrightarrow> 0xC0 OR b = 0xC0 + b"
  using or_shift_nat [of b 6 3] by (simp add: push_bit_eq_mult)

lemma or_0x80 [bit_arith]: "(b::nat) < 128 \<Longrightarrow> 0x80 OR b = 0x80 + b"
  using or_shift_nat [of b 7 1] by (simp add: push_bit_eq_mult)

lemma or_0xE0 [bit_arith]: "(b::nat) < 32 \<Longrightarrow> 0xE0 OR b = 0xE0 + b"
  using or_shift_nat [of b 5 7] by (simp add: push_bit_eq_mult)

lemma or_0xF0 [bit_arith]: "(b::nat) < 16 \<Longrightarrow> 0xF0 OR b = 0xF0 + b"
  using or_shift_nat [of b 4 15] by (simp add: push_bit_eq_mult)

lemma push_bit_or_6 [bit_arith]: "(b::nat) < 64 \<Longrightarrow> push_bit 6 a OR b = a * 64 + b"
  using or_shift_nat [of b 6 a] by simp

lemma push_bit_or_12 [bit_arith]: "(b::nat) < 4096 \<Longrightarrow> push_bit 12 a OR b = a * 4096 + b"
  using or_shift_nat [of b 12 a] by simp

lemma push_bit_or_18 [bit_arith]: "(b::nat) < 262144 \<Longrightarrow> push_bit 18 a OR b = a * 262144 + b"
  using or_shift_nat [of b 18 a] by simp

section \<open>Lists\<close>

lemma nth_drop_0: "i < length xs \<Longrightarrow> drop i xs = xs ! i # drop (Suc i) xs"
  by (simp add: Cons_nth_drop_Suc)

lemma takeWhile_append_drop: "takeWhile P xs @ drop (length (takeWhile P xs)) xs = xs"
  by (metis append_take_drop_id takeWhile_eq_take)

text \<open>What stands before the first mark of a text is determined.\<close>

lemma append_mark_cancel:
  assumes "xs @ m # ys = us @ m # vs" "m \<notin> set xs" "m \<notin> set us"
  shows "xs = us \<and> ys = vs"
proof -
  have "takeWhile (\<lambda>c. c \<noteq> m) (xs @ m # ys) = xs" "takeWhile (\<lambda>c. c \<noteq> m) (us @ m # vs) = us"
    using assms(2,3) by (auto simp: takeWhile_append takeWhile_eq_all_conv)
  with assms(1) show ?thesis by simp
qed

end
