(* ===== verification/Unicode.thy ===== *)
theory Unicode
  imports Prelude
begin

text \<open>
  \<open>libs/Foundation/UnicodeConversion.cpp\<close>: the UTF-8 decoder and encoder, the validity
  check, the trimming of an incomplete tail, whitespace and case normalisation, and the
  choice between the two legacy Cyrillic code pages.

  Code points are natural numbers (every value the code computes stays below \<open>2 ^ 21\<close>). The
  out-parameters of \<open>TryDecodeUtf8CodePoint\<close> are the components of an option: no caller
  reads them when the function returns false. The cancellation checkpoints take no part
  in the results, and the definitions describe the runs in which no checkpoint throws.
\<close>

section \<open>Decoding and encoding one code point\<close>

definition TryDecodeUtf8CodePoint :: "string \<Rightarrow> nat \<Rightarrow> (codepoint \<times> nat) option" where
  "TryDecodeUtf8CodePoint value index =
    (let firstByte = byte_of (value ! index) in
     if firstByte < 0x80 then Some (firstByte, 1)
     else if firstByte AND 0xE0 = 0xC0 then
       (if index + 2 > length value then None
        else let secondByte = byte_of (value ! (index + 1)) in
          if firstByte < 0xC2 \<or> firstByte > 0xDF \<or> secondByte < 0x80 \<or> secondByte > 0xBF then None
          else Some (push_bit 6 (firstByte AND 0x1F) OR (secondByte AND 0x3F), 2))
     else if firstByte AND 0xF0 = 0xE0 then
       (if index + 3 > length value then None
        else let secondByte = byte_of (value ! (index + 1));
                 thirdByte = byte_of (value ! (index + 2));
                 isValidSequence =
                   (firstByte = 0xE0 \<and> secondByte \<ge> 0xA0 \<and> secondByte \<le> 0xBF
                      \<and> thirdByte \<ge> 0x80 \<and> thirdByte \<le> 0xBF)
                   \<or> (firstByte \<ge> 0xE1 \<and> firstByte \<le> 0xEC
                      \<and> secondByte \<ge> 0x80 \<and> secondByte \<le> 0xBF
                      \<and> thirdByte \<ge> 0x80 \<and> thirdByte \<le> 0xBF)
                   \<or> (firstByte = 0xED \<and> secondByte \<ge> 0x80 \<and> secondByte \<le> 0x9F
                      \<and> thirdByte \<ge> 0x80 \<and> thirdByte \<le> 0xBF)
                   \<or> (firstByte \<ge> 0xEE \<and> firstByte \<le> 0xEF
                      \<and> secondByte \<ge> 0x80 \<and> secondByte \<le> 0xBF
                      \<and> thirdByte \<ge> 0x80 \<and> thirdByte \<le> 0xBF) in
          if \<not> isValidSequence then None
          else Some (push_bit 12 (firstByte AND 0x0F)
                       OR (push_bit 6 (secondByte AND 0x3F) OR (thirdByte AND 0x3F)), 3))
     else if firstByte AND 0xF8 = 0xF0 then
       (if index + 4 > length value then None
        else let secondByte = byte_of (value ! (index + 1));
                 thirdByte = byte_of (value ! (index + 2));
                 fourthByte = byte_of (value ! (index + 3));
                 isValidSequence =
                   (firstByte = 0xF0 \<and> secondByte \<ge> 0x90 \<and> secondByte \<le> 0xBF
                      \<and> thirdByte \<ge> 0x80 \<and> thirdByte \<le> 0xBF
                      \<and> fourthByte \<ge> 0x80 \<and> fourthByte \<le> 0xBF)
                   \<or> (firstByte \<ge> 0xF1 \<and> firstByte \<le> 0xF3
                      \<and> secondByte \<ge> 0x80 \<and> secondByte \<le> 0xBF
                      \<and> thirdByte \<ge> 0x80 \<and> thirdByte \<le> 0xBF
                      \<and> fourthByte \<ge> 0x80 \<and> fourthByte \<le> 0xBF)
                   \<or> (firstByte = 0xF4 \<and> secondByte \<ge> 0x80 \<and> secondByte \<le> 0x8F
                      \<and> thirdByte \<ge> 0x80 \<and> thirdByte \<le> 0xBF
                      \<and> fourthByte \<ge> 0x80 \<and> fourthByte \<le> 0xBF) in
          if \<not> isValidSequence then None
          else Some (push_bit 18 (firstByte AND 0x07)
                       OR (push_bit 12 (secondByte AND 0x3F)
                       OR (push_bit 6 (thirdByte AND 0x3F) OR (fourthByte AND 0x3F))), 4))
     else None)"

definition AppendUtf8CodePoint :: "codepoint \<Rightarrow> string \<Rightarrow> string" where
  "AppendUtf8CodePoint codePoint result =
    (if codePoint \<le> 0x7F then result @ [chr_of codePoint]
     else if codePoint \<le> 0x7FF then
       result @ [chr_of (0xC0 OR (drop_bit 6 codePoint AND 0x1F)),
                 chr_of (0x80 OR (codePoint AND 0x3F))]
     else if codePoint \<le> 0xFFFF then
       result @ [chr_of (0xE0 OR (drop_bit 12 codePoint AND 0x0F)),
                 chr_of (0x80 OR (drop_bit 6 codePoint AND 0x3F)),
                 chr_of (0x80 OR (codePoint AND 0x3F))]
     else
       result @ [chr_of (0xF0 OR (drop_bit 18 codePoint AND 0x07)),
                 chr_of (0x80 OR (drop_bit 12 codePoint AND 0x3F)),
                 chr_of (0x80 OR (drop_bit 6 codePoint AND 0x3F)),
                 chr_of (0x80 OR (codePoint AND 0x3F))])"

definition ExpectedUtf8SequenceLength :: "nat \<Rightarrow> nat option" where
  "ExpectedUtf8SequenceLength firstByte =
    (if firstByte < 0x80 then Some 1
     else if firstByte \<ge> 0xC2 \<and> firstByte \<le> 0xDF then Some 2
     else if firstByte \<ge> 0xE0 \<and> firstByte \<le> 0xEF then Some 3
     else if firstByte \<ge> 0xF0 \<and> firstByte \<le> 0xF4 then Some 4
     else None)"

definition IsUtf8ContinuationByte :: "nat \<Rightarrow> bool" where
  "IsUtf8ContinuationByte value \<longleftrightarrow> value \<ge> 0x80 \<and> value \<le> 0xBF"

definition CanBeSecondUtf8Byte :: "nat \<Rightarrow> nat \<Rightarrow> bool" where
  "CanBeSecondUtf8Byte firstByte secondByte =
    (if firstByte = 0xE0 then secondByte \<ge> 0xA0 \<and> secondByte \<le> 0xBF
     else if firstByte = 0xED then secondByte \<ge> 0x80 \<and> secondByte \<le> 0x9F
     else if firstByte = 0xF0 then secondByte \<ge> 0x90 \<and> secondByte \<le> 0xBF
     else if firstByte = 0xF4 then secondByte \<ge> 0x80 \<and> secondByte \<le> 0x8F
     else IsUtf8ContinuationByte secondByte)"

definition IsTrailingIncompleteUtf8Sequence :: "string \<Rightarrow> nat \<Rightarrow> nat \<Rightarrow> bool" where
  "IsTrailingIncompleteUtf8Sequence value startIndex expectedLength =
    (let remainingBytes = length value - startIndex in
     if remainingBytes = 0 \<or> remainingBytes \<ge> expectedLength then False
     else if remainingBytes = 1 then True
     else if \<not> CanBeSecondUtf8Byte (byte_of (value ! startIndex)) (byte_of (value ! (startIndex + 1)))
       then False
     else (\<forall>offset \<in> set [2..<remainingBytes].
             IsUtf8ContinuationByte (byte_of (value ! (startIndex + offset)))))"

section \<open>The code point decoder against the encoder\<close>

text \<open>
  Unicode scalar values: the code points that UTF-8 encodes, which excludes the surrogates.
\<close>

definition scalar :: "codepoint \<Rightarrow> bool" where
  "scalar cp \<longleftrightarrow> cp < 0xD800 \<or> (0xE000 \<le> cp \<and> cp \<le> 0x10FFFF)"

abbreviation enc :: "codepoint \<Rightarrow> string" where
  "enc cp \<equiv> AppendUtf8CodePoint cp []"

definition utf8 :: "codepoint list \<Rightarrow> string" where
  "utf8 cps = concat (map enc cps)"

lemma Append_enc: "AppendUtf8CodePoint cp r = r @ enc cp"
  by (simp add: AppendUtf8CodePoint_def)

lemma utf8_simps [simp]:
  "utf8 [] = []"
  "utf8 (cp # cps) = enc cp @ utf8 cps"
  "utf8 (xs @ ys) = utf8 xs @ utf8 ys"
  by (simp_all add: utf8_def)

text \<open>The bit operations of the encoder and the decoder as arithmetic.\<close>

lemma enc_arith:
  "enc cp =
    (if cp < 128 then [chr_of cp]
     else if cp < 2048 then [chr_of (192 + cp div 64 mod 32), chr_of (128 + cp mod 64)]
     else if cp < 65536 then
       [chr_of (224 + cp div 4096 mod 16), chr_of (128 + cp div 64 mod 64), chr_of (128 + cp mod 64)]
     else [chr_of (240 + cp div 262144 mod 8), chr_of (128 + cp div 4096 mod 64),
           chr_of (128 + cp div 64 mod 64), chr_of (128 + cp mod 64)])"
proof -
  have b: "0xC0 OR (x mod 32) = 0xC0 + x mod 32" "0x80 OR (x mod 64) = 0x80 + x mod 64"
    "0xE0 OR (x mod 16) = 0xE0 + x mod 16" "0xF0 OR (x mod 8) = 0xF0 + x mod 8" for x :: nat
  proof -
    have "x mod 32 < 32" "x mod 64 < 64" "x mod 16 < 16" "x mod 8 < 8" by simp_all
    then have "x mod 32 < 64" "x mod 64 < 128" "x mod 16 < 32" "x mod 8 < 16" by linarith+
    then show "0xC0 OR (x mod 32) = 0xC0 + x mod 32" "0x80 OR (x mod 64) = 0x80 + x mod 64"
      "0xE0 OR (x mod 16) = 0xE0 + x mod 16" "0xF0 OR (x mod 8) = 0xF0 + x mod 8"
      by (simp_all only: bit_arith)
  qed
  have d: "drop_bit 6 cp = cp div 64" "drop_bit 12 cp = cp div 4096" "drop_bit 18 cp = cp div 262144"
    by (simp_all add: drop_bit_eq_div)
  have c: "cp \<le> 0x7F \<longleftrightarrow> cp < 128" "cp \<le> 0x7FF \<longleftrightarrow> cp < 2048" "cp \<le> 0xFFFF \<longleftrightarrow> cp < 65536"
    by auto
  show ?thesis
    unfolding AppendUtf8CodePoint_def and_0x0F and_0x1F and_0x07 and_0x3F b d c by simp
qed

lemma byte_of_chr_of_add [simp]:
  "byte_of (chr_of (192 + x mod 32)) = 192 + x mod 32"
  "byte_of (chr_of (224 + x mod 16)) = 224 + x mod 16"
  "byte_of (chr_of (240 + x mod 8)) = 240 + x mod 8"
  "byte_of (chr_of (128 + x mod 64)) = 128 + x mod 64"
proof -
  have "x mod 32 < 32" "x mod 64 < 64" "x mod 16 < 16" "x mod 8 < 8" by simp_all
  then show "byte_of (chr_of (192 + x mod 32)) = 192 + x mod 32"
    "byte_of (chr_of (224 + x mod 16)) = 224 + x mod 16"
    "byte_of (chr_of (240 + x mod 8)) = 240 + x mod 8"
    "byte_of (chr_of (128 + x mod 64)) = 128 + x mod 64"
    by (auto intro: byte_of_chr_of)
qed

lemma lead_2: "(b::nat) < 256 \<Longrightarrow> b AND 0xE0 = 0xC0 \<longleftrightarrow> 192 \<le> b \<and> b < 224"
  by (simp add: and_0xE0) arith

lemma lead_3: "(b::nat) < 256 \<Longrightarrow> b AND 0xF0 = 0xE0 \<longleftrightarrow> 224 \<le> b \<and> b < 240"
  by (simp add: and_0xF0) arith

lemma lead_4: "(b::nat) < 256 \<Longrightarrow> b AND 0xF8 = 0xF0 \<longleftrightarrow> 240 \<le> b \<and> b < 248"
  by (simp add: and_0xF8) arith

lemma join_arith:
  fixes a b c d :: nat
  shows "push_bit 6 (a AND 0x1F) OR (b AND 0x3F) = a mod 32 * 64 + b mod 64"
    "push_bit 12 (a AND 0x0F) OR (push_bit 6 (b AND 0x3F) OR (c AND 0x3F))
       = a mod 16 * 4096 + (b mod 64 * 64 + c mod 64)"
    "push_bit 18 (a AND 0x07) OR (push_bit 12 (b AND 0x3F) OR (push_bit 6 (c AND 0x3F) OR (d AND 0x3F)))
       = a mod 8 * 262144 + (b mod 64 * 4096 + (c mod 64 * 64 + d mod 64))"
proof -
  have m: "a mod 64 < 64" "b mod 64 < 64" "c mod 64 < 64" "d mod 64 < 64" by simp_all
  have two: "b mod 64 * 64 + c mod 64 < 4096" "c mod 64 * 64 + d mod 64 < 4096"
    using m by linarith+
  have three: "b mod 64 * 4096 + (c mod 64 * 64 + d mod 64) < 262144"
    using m by linarith
  note low = and_0x0F and_0x1F and_0x07 and_0x3F
  show "push_bit 6 (a AND 0x1F) OR (b AND 0x3F) = a mod 32 * 64 + b mod 64"
    unfolding low by (rule push_bit_or_6 [OF m(2)])
  have bc: "push_bit 6 (b mod 64) OR c mod 64 = b mod 64 * 64 + c mod 64"
    by (rule push_bit_or_6 [OF m(3)])
  show "push_bit 12 (a AND 0x0F) OR (push_bit 6 (b AND 0x3F) OR (c AND 0x3F))
       = a mod 16 * 4096 + (b mod 64 * 64 + c mod 64)"
    unfolding low bc by (rule push_bit_or_12 [OF two(1)])
  have cd: "push_bit 6 (c mod 64) OR d mod 64 = c mod 64 * 64 + d mod 64"
    by (rule push_bit_or_6 [OF m(4)])
  have bcd: "push_bit 12 (b mod 64) OR (c mod 64 * 64 + d mod 64) = b mod 64 * 4096 + (c mod 64 * 64 + d mod 64)"
    by (rule push_bit_or_12 [OF two(2)])
  show "push_bit 18 (a AND 0x07) OR (push_bit 12 (b AND 0x3F) OR (push_bit 6 (c AND 0x3F) OR (d AND 0x3F)))
       = a mod 8 * 262144 + (b mod 64 * 4096 + (c mod 64 * 64 + d mod 64))"
    unfolding low cd bcd by (rule push_bit_or_18 [OF three])
qed

lemma TryDecode_arith:
  "TryDecodeUtf8CodePoint v i =
    (let a = byte_of (v ! i); b = byte_of (v ! (i + 1)); c = byte_of (v ! (i + 2)); d = byte_of (v ! (i + 3)) in
     if a < 128 then Some (a, 1)
     else if 194 \<le> a \<and> a < 224 then
       (if i + 2 \<le> length v \<and> 128 \<le> b \<and> b < 192 then Some (a mod 32 * 64 + b mod 64, 2) else None)
     else if 224 \<le> a \<and> a < 240 then
       (if i + 3 \<le> length v \<and> CanBeSecondUtf8Byte a b \<and> 128 \<le> c \<and> c < 192
        then Some (a mod 16 * 4096 + (b mod 64 * 64 + c mod 64), 3) else None)
     else if 240 \<le> a \<and> a < 245 then
       (if i + 4 \<le> length v \<and> CanBeSecondUtf8Byte a b \<and> 128 \<le> c \<and> c < 192 \<and> 128 \<le> d \<and> d < 192
        then Some (a mod 8 * 262144 + (b mod 64 * 4096 + (c mod 64 * 64 + d mod 64)), 4) else None)
     else None)"
proof -
  define a b c d where abcd: "a = byte_of (v ! i)" "b = byte_of (v ! (i + 1))"
    "c = byte_of (v ! (i + 2))" "d = byte_of (v ! (i + 3))"
  have a: "a < 256" by (simp add: abcd)
  note lead = lead_2 [OF a] lead_3 [OF a] lead_4 [OF a]
  note u = TryDecodeUtf8CodePoint_def Let_def abcd [symmetric] lead join_arith
    CanBeSecondUtf8Byte_def IsUtf8ContinuationByte_def
  consider "a < 128" | "128 \<le> a" "a < 192" | "192 \<le> a" "a < 224" | "224 \<le> a" "a < 240"
    | "240 \<le> a" "a < 248" | "248 \<le> a"
    by linarith
  then show ?thesis
  proof cases
    case 4
    then have "a = 224 \<or> 225 \<le> a \<and> a \<le> 236 \<or> a = 237 \<or> 238 \<le> a \<and> a \<le> 239" by linarith
    with 4 show ?thesis unfolding u by (auto simp: not_le)
  next
    case 5
    then have "a = 240 \<or> 241 \<le> a \<and> a \<le> 243 \<or> a = 244 \<or> 245 \<le> a" by linarith
    with 5 show ?thesis unfolding u by (auto simp: not_le)
  qed (unfold u, auto simp: not_le)
qed

text \<open>The decoder looks only at the bytes from \<open>index\<close> on.\<close>

lemma TryDecode_drop:
  assumes "index < length value"
  shows "TryDecodeUtf8CodePoint value index = TryDecodeUtf8CodePoint (drop index value) 0"
proof -
  have n: "drop index value ! k = value ! (index + k)" for k
    using assms by simp
  have l: "k \<le> length (drop index value) \<longleftrightarrow> index + k \<le> length value" for k
    using assms by auto
  show ?thesis
    unfolding TryDecode_arith n l add_0 Nat.add_0_right ..
qed

text \<open>Digits in base 64, as the six-bit groups of the sequences are.\<close>

lemma digit_64:
  "(z::nat) < 64 \<Longrightarrow> (q * 64 + z) div 64 = q"
  "(z::nat) < 64 \<Longrightarrow> (q * 64 + z) mod 64 = z"
  by simp_all

lemma lead_mod:
  "(x::nat) < 32 \<Longrightarrow> (192 + x) mod 32 = x"
  "(x::nat) < 16 \<Longrightarrow> (224 + x) mod 16 = x"
  "(x::nat) < 8 \<Longrightarrow> (240 + x) mod 8 = x"
  "(x::nat) < 64 \<Longrightarrow> (128 + x) mod 64 = x"
  using mod_mult_self1 [of x 6 32] mod_mult_self1 [of x 14 16] mod_mult_self1 [of x 30 8]
    mod_mult_self1 [of x 2 64]
  by (simp_all add: add.commute)

lemma digits_3:
  assumes "(y::nat) < 64" "z < 64"
  shows "(x * 4096 + (y * 64 + z)) div 4096 = x"
    "(x * 4096 + (y * 64 + z)) div 64 mod 64 = y"
    "(x * 4096 + (y * 64 + z)) mod 64 = z"
proof -
  have e: "x * 4096 + (y * 64 + z) = (x * 64 + y) * 64 + z" by simp
  have d: "(x * 4096 + (y * 64 + z)) div 64 = x * 64 + y"
    unfolding e by (rule digit_64(1) [OF assms(2)])
  have "(x * 4096 + (y * 64 + z)) div (64 * 64) = x"
    unfolding div_mult2_eq d by (rule digit_64(1) [OF assms(1)])
  then show "(x * 4096 + (y * 64 + z)) div 4096 = x" by simp
  show "(x * 4096 + (y * 64 + z)) div 64 mod 64 = y"
    unfolding d by (rule digit_64(2) [OF assms(1)])
  show "(x * 4096 + (y * 64 + z)) mod 64 = z"
    unfolding e by (rule digit_64(2) [OF assms(2)])
qed

lemma digits_4:
  assumes "(y::nat) < 64" "z < 64" "t < 64"
  shows "(x * 262144 + (y * 4096 + (z * 64 + t))) div 262144 = x"
    "(x * 262144 + (y * 4096 + (z * 64 + t))) div 4096 mod 64 = y"
    "(x * 262144 + (y * 4096 + (z * 64 + t))) div 64 mod 64 = z"
    "(x * 262144 + (y * 4096 + (z * 64 + t))) mod 64 = t"
proof -
  have e: "x * 262144 + (y * 4096 + (z * 64 + t)) = (x * 64 + y) * 4096 + (z * 64 + t)" by simp
  have d: "(x * 262144 + (y * 4096 + (z * 64 + t))) div 4096 = x * 64 + y"
    unfolding e by (rule digits_3(1) [OF assms(2,3)])
  have "(x * 262144 + (y * 4096 + (z * 64 + t))) div (4096 * 64) = x"
    unfolding div_mult2_eq d by (rule digit_64(1) [OF assms(1)])
  then show "(x * 262144 + (y * 4096 + (z * 64 + t))) div 262144 = x" by simp
  show "(x * 262144 + (y * 4096 + (z * 64 + t))) div 4096 mod 64 = y"
    unfolding d by (rule digit_64(2) [OF assms(1)])
  show "(x * 262144 + (y * 4096 + (z * 64 + t))) div 64 mod 64 = z"
    "(x * 262144 + (y * 4096 + (z * 64 + t))) mod 64 = t"
    unfolding e by (rule digits_3(2,3) [OF assms(2,3)])+
qed

lemma split_3: "(n::nat) = n div 4096 * 4096 + (n div 64 mod 64 * 64 + n mod 64)"
proof -
  have "n div 4096 = n div 64 div 64" by (simp flip: div_mult2_eq)
  then show ?thesis
    using div_mult_mod_eq [of n 64] div_mult_mod_eq [of "n div 64" 64] by linarith
qed

lemma split_4: "(n::nat) = n div 262144 * 262144 + (n div 4096 mod 64 * 4096 + (n div 64 mod 64 * 64 + n mod 64))"
proof -
  have "n div 262144 = n div 4096 div 64" by (simp flip: div_mult2_eq)
  then show ?thesis
    using split_3 [of n] div_mult_mod_eq [of "n div 4096" 64] by linarith
qed

text \<open>Every encoded scalar value decodes to itself, whatever follows it.\<close>

lemma TryDecode_enc:
  assumes "scalar cp"
  shows "TryDecodeUtf8CodePoint (enc cp @ w) 0 = Some (cp, length (enc cp))"
proof -
  have cp: "cp \<le> 1114111" using assms by (auto simp: scalar_def)
  consider "cp < 128" | "128 \<le> cp" "cp < 2048" | "2048 \<le> cp" "cp < 65536" | "65536 \<le> cp"
    by linarith
  then show ?thesis
  proof cases
    case 1
    then show ?thesis by (simp add: enc_arith TryDecode_arith)
  next
    case 2
    define x z where xz: "x = cp div 64" "z = cp mod 64"
    have eq: "cp = x * 64 + z" and x: "2 \<le> x" "x < 32" and z: "z < 64"
      using 2 by (auto simp: xz)
    have e: "enc cp = [chr_of (192 + x), chr_of (128 + z)]"
      using 2 x by (simp add: enc_arith flip: xz)
    have "TryDecodeUtf8CodePoint (enc cp @ w) 0 = Some (x * 64 + z, length (enc cp))"
      using x z by (simp add: e TryDecode_arith byte_of_chr_of lead_mod)
    then show ?thesis using eq by simp
  next
    case 3
    define x y z where xyz: "x = cp div 4096" "y = cp div 64 mod 64" "z = cp mod 64"
    have eq: "cp = x * 4096 + (y * 64 + z)" unfolding xyz by (rule split_3)
    have y: "y < 64" and z: "z < 64" unfolding xyz by simp_all
    then have x: "x < 16" using 3 eq by linarith
    have e: "enc cp = [chr_of (224 + x), chr_of (128 + y), chr_of (128 + z)]"
      using 3 x by (simp add: enc_arith flip: xyz)
    have "CanBeSecondUtf8Byte (224 + x) (128 + y)"
      using 3 assms x y z eq unfolding scalar_def CanBeSecondUtf8Byte_def IsUtf8ContinuationByte_def by auto
    then have "TryDecodeUtf8CodePoint (enc cp @ w) 0 = Some (x * 4096 + (y * 64 + z), length (enc cp))"
      using x y z by (simp add: e TryDecode_arith byte_of_chr_of lead_mod)
    then show ?thesis using eq by simp
  next
    case 4
    define x y z t where xyzt: "x = cp div 262144" "y = cp div 4096 mod 64" "z = cp div 64 mod 64" "t = cp mod 64"
    have eq: "cp = x * 262144 + (y * 4096 + (z * 64 + t))" unfolding xyzt by (rule split_4)
    have b: "y < 64" "z < 64" "t < 64" unfolding xyzt by simp_all
    then have x: "x < 5" using cp eq by linarith
    have e: "enc cp = [chr_of (240 + x), chr_of (128 + y), chr_of (128 + z), chr_of (128 + t)]"
      using 4 x by (simp add: enc_arith flip: xyzt)
    have "CanBeSecondUtf8Byte (240 + x) (128 + y)"
      using 4 cp x b eq unfolding CanBeSecondUtf8Byte_def IsUtf8ContinuationByte_def by auto
    then have "TryDecodeUtf8CodePoint (enc cp @ w) 0
        = Some (x * 262144 + (y * 4096 + (z * 64 + t)), length (enc cp))"
      using x b by (simp add: e TryDecode_arith byte_of_chr_of lead_mod)
    then show ?thesis using eq by simp
  qed
qed

text \<open>Whatever the decoder accepts is the encoding of a scalar value.\<close>

lemma CanBeSecond_cont: "CanBeSecondUtf8Byte a b \<Longrightarrow> 128 \<le> b \<and> b < 192"
  by (auto simp: CanBeSecondUtf8Byte_def IsUtf8ContinuationByte_def split: if_splits)

lemma enc_3:
  assumes "224 \<le> a" "a < 240" "CanBeSecondUtf8Byte a b" "128 \<le> c" "c < 192"
    and cp: "cp = a mod 16 * 4096 + (b mod 64 * 64 + c mod 64)"
  shows "scalar cp \<and> enc cp = [chr_of a, chr_of b, chr_of c]"
proof -
  define x y z where xyz: "x = a - 224" "y = b - 128" "z = c - 128"
  have b: "128 \<le> b" "b < 192" using CanBeSecond_cont assms by auto
  have eqs: "a = 224 + x" "b = 128 + y" "c = 128 + z" and lt: "x < 16" "y < 64" "z < 64"
    using assms b unfolding xyz by auto
  have cp': "cp = x * 4096 + (y * 64 + z)" using lt by (simp add: cp eqs lead_mod)
  have ge: "2048 \<le> cp" "cp < 65536" and "scalar cp"
    using assms(3) lt unfolding cp' eqs CanBeSecondUtf8Byte_def IsUtf8ContinuationByte_def scalar_def
    by (auto split: if_splits)
  have "cp div 4096 = x" "cp div 64 mod 64 = y" "cp mod 64 = z"
    unfolding cp' by (rule digits_3 [OF lt(2,3)])+
  with ge \<open>scalar cp\<close> lt show ?thesis by (simp add: enc_arith eqs)
qed

lemma enc_4:
  assumes "240 \<le> a" "a < 245" "CanBeSecondUtf8Byte a b" "128 \<le> c" "c < 192" "128 \<le> d" "d < 192"
    and cp: "cp = a mod 8 * 262144 + (b mod 64 * 4096 + (c mod 64 * 64 + d mod 64))"
  shows "scalar cp \<and> enc cp = [chr_of a, chr_of b, chr_of c, chr_of d]"
proof -
  define x y z t where xyz: "x = a - 240" "y = b - 128" "z = c - 128" "t = d - 128"
  have b: "128 \<le> b" "b < 192" using CanBeSecond_cont assms by auto
  have eqs: "a = 240 + x" "b = 128 + y" "c = 128 + z" "d = 128 + t"
    and lt: "x < 5" "y < 64" "z < 64" "t < 64"
    using assms b unfolding xyz by auto
  have cp': "cp = x * 262144 + (y * 4096 + (z * 64 + t))" using lt by (simp add: cp eqs lead_mod)
  have ge: "65536 \<le> cp" and "scalar cp"
    using assms(3) lt unfolding cp' eqs CanBeSecondUtf8Byte_def IsUtf8ContinuationByte_def scalar_def
    by (auto split: if_splits)
  have "cp div 262144 = x" "cp div 4096 mod 64 = y" "cp div 64 mod 64 = z" "cp mod 64 = t"
    unfolding cp' by (rule digits_4 [OF lt(2-4)])+
  with ge \<open>scalar cp\<close> lt show ?thesis by (simp add: enc_arith eqs)
qed

lemma enc_2:
  assumes "194 \<le> a" "a < 224" "128 \<le> b" "b < 192" and cp: "cp = a mod 32 * 64 + b mod 64"
  shows "scalar cp \<and> enc cp = [chr_of a, chr_of b]"
proof -
  define x y where xy: "x = a - 192" "y = b - 128"
  have eqs: "a = 192 + x" "b = 128 + y" and lt: "2 \<le> x" "x < 32" "y < 64"
    using assms unfolding xy by auto
  have cp': "cp = x * 64 + y" using lt by (simp add: cp eqs lead_mod)
  have "cp div 64 = x" "cp mod 64 = y" using lt unfolding cp' by simp_all
  with lt show ?thesis by (simp add: enc_arith eqs cp' scalar_def)
qed

lemma TryDecode_sound:
  assumes "TryDecodeUtf8CodePoint v 0 = Some (cp, n)" "v \<noteq> []"
  shows "scalar cp \<and> take n v = enc cp \<and> n = length (enc cp)"
proof -
  have tk: "take 1 v = [v ! 0]" using assms(2) by (cases v) auto
  have tk2: "2 \<le> length v \<Longrightarrow> take 2 v = [v ! 0, v ! 1]"
    by (cases v; cases "tl v") (auto simp: numeral_2_eq_2)
  have tk3: "3 \<le> length v \<Longrightarrow> take 3 v = [v ! 0, v ! 1, v ! 2]"
    by (cases v; cases "tl v"; cases "tl (tl v)") (auto simp: numeral_3_eq_3 numeral_2_eq_2)
  have tk4: "4 \<le> length v \<Longrightarrow> take 4 v = [v ! 0, v ! 1, v ! 2, v ! 3]"
    by (cases v; cases "tl v"; cases "tl (tl v)"; cases "tl (tl (tl v))")
      (auto simp: eval_nat_numeral)
  let ?a = "byte_of (v ! 0)" and ?b = "byte_of (v ! 1)" and ?c = "byte_of (v ! 2)" and ?d = "byte_of (v ! 3)"
  from assms(1) consider
      (one) "?a < 128" "cp = ?a" "n = 1"
    | (two) "194 \<le> ?a" "?a < 224" "128 \<le> ?b" "?b < 192" "2 \<le> length v"
        "cp = ?a mod 32 * 64 + ?b mod 64" "n = 2"
    | (three) "224 \<le> ?a" "?a < 240" "CanBeSecondUtf8Byte ?a ?b" "128 \<le> ?c" "?c < 192" "3 \<le> length v"
        "cp = ?a mod 16 * 4096 + (?b mod 64 * 64 + ?c mod 64)" "n = 3"
    | (four) "240 \<le> ?a" "?a < 245" "CanBeSecondUtf8Byte ?a ?b" "128 \<le> ?c" "?c < 192" "128 \<le> ?d" "?d < 192"
        "4 \<le> length v"
        "cp = ?a mod 8 * 262144 + (?b mod 64 * 4096 + (?c mod 64 * 64 + ?d mod 64))" "n = 4"
    unfolding TryDecode_arith Let_def add_0 by (auto split: if_splits)
  then show ?thesis
  proof cases
    case one
    then show ?thesis using tk by (simp add: enc_arith scalar_def)
  next
    case two
    then show ?thesis using enc_2 [OF two(1-4,6)] tk2 by simp
  next
    case three
    then show ?thesis using enc_3 [OF three(1-5,7)] tk3 by simp
  next
    case four
    then show ?thesis using enc_4 [OF four(1-7,9)] tk4 by simp
  qed
qed

section \<open>The interface the text loops rely on\<close>

text \<open>
  A decoder step over byte strings and the encoder it inverts. The loops below, and the
  clients of the codec, use nothing else about the bytes.
\<close>

locale codepoint_codec =
  fixes decode :: "string \<Rightarrow> nat \<Rightarrow> (codepoint \<times> nat) option"
    and encode :: "codepoint \<Rightarrow> string"
    and valid :: "codepoint \<Rightarrow> bool"
  assumes decode_suffix: "i < length v \<Longrightarrow> decode v i = decode (drop i v) 0"
    and decode_encode: "valid cp \<Longrightarrow> decode (encode cp @ w) 0 = Some (cp, length (encode cp))"
    and decode_sound: "decode v 0 = Some (cp, n) \<Longrightarrow> v \<noteq> [] \<Longrightarrow>
      valid cp \<and> take n v = encode cp \<and> n = length (encode cp)"
    and encode_nonempty: "encode cp \<noteq> []"
begin

lemma decode_at:
  assumes "i < length v" "decode v i = Some (cp, n)"
  shows "valid cp" "drop i v = encode cp @ drop (i + n) v" "0 < n" "i + n \<le> length v"
proof -
  have d: "decode (drop i v) 0 = Some (cp, n)" "drop i v \<noteq> []"
    using assms(2) decode_suffix [OF assms(1)] assms(1) by simp_all
  from decode_sound [OF this] have *: "valid cp" "take n (drop i v) = encode cp" "n = length (encode cp)"
    by auto
  show "valid cp" by (rule *)
  have "drop i v = take n (drop i v) @ drop n (drop i v)" by (rule append_take_drop_id [symmetric])
  also have "\<dots> = encode cp @ drop (i + n) v" by (simp add: *(2) add.commute)
  finally show "drop i v = encode cp @ drop (i + n) v" .
  show "0 < n" using *(3) encode_nonempty by simp
  have "length (take n (drop i v)) = n" using *(2,3) by simp
  then show "i + n \<le> length v" using assms(1) by simp
qed

lemma decode_at_encode:
  assumes "valid cp" "drop i v = encode cp @ w"
  shows "i < length v" "decode v i = Some (cp, length (encode cp))" "drop (i + length (encode cp)) v = w"
proof -
  have "drop i v \<noteq> []" using assms(2) encode_nonempty by simp
  then show i: "i < length v" by simp
  show "decode v i = Some (cp, length (encode cp))"
    using decode_suffix [OF i] decode_encode [OF assms(1)] assms(2) by simp
  have "drop (length (encode cp)) (drop i v) = w" using assms(2) by simp
  then show "drop (i + length (encode cp)) v = w" by (simp add: add.commute)
qed

lemma encode_prefix_free:
  assumes "valid a" "valid b" "encode a @ u = encode b @ w"
  shows "a = b \<and> u = w"
proof -
  have "Some (a, length (encode a)) = Some (b, length (encode b))"
    using decode_encode [OF assms(1), of u] decode_encode [OF assms(2), of w] unfolding assms(3) by (rule trans [OF sym])
  with assms(3) show ?thesis by simp
qed

lemma encodings_unique:
  "list_all valid xs \<Longrightarrow> list_all valid ys \<Longrightarrow> concat (map encode xs) = concat (map encode ys) \<Longrightarrow> xs = ys"
proof (induction xs arbitrary: ys)
  case Nil
  then show ?case using encode_nonempty by (cases ys) auto
next
  case (Cons x xs)
  show ?case
  proof (cases ys)
    case Nil
    with Cons.prems(3) show ?thesis using encode_nonempty by simp
  next
    case (Cons y zs)
    have "x = y \<and> concat (map encode xs) = concat (map encode zs)"
      using Cons.prems Cons by (intro encode_prefix_free) simp_all
    with Cons.IH [of zs] Cons.prems Cons show ?thesis by simp
  qed
qed

end

interpretation utf8c: codepoint_codec TryDecodeUtf8CodePoint enc scalar
proof
  show "enc cp \<noteq> []" for cp by (simp add: enc_arith)
qed (fact TryDecode_drop TryDecode_enc TryDecode_sound)+

lemma TryDecode_pos: "TryDecodeUtf8CodePoint v i = Some (cp, n) \<Longrightarrow> 0 < n"
  unfolding TryDecode_arith Let_def by (simp split: if_splits)

section \<open>Validity\<close>

function IsValidUtf8_loop :: "string \<Rightarrow> nat \<Rightarrow> bool" where
  "IsValidUtf8_loop value index =
    (if index < length value then
       (case TryDecodeUtf8CodePoint value index of
          None \<Rightarrow> False
        | Some (codePoint, sequenceLength) \<Rightarrow> IsValidUtf8_loop value (index + sequenceLength))
     else True)"
  by pat_completeness auto
termination
  by (relation "measure (\<lambda>(v, i). length v - i)") (auto dest: TryDecode_pos)

declare IsValidUtf8_loop.simps [simp del]

definition IsValidUtf8 :: "string \<Rightarrow> bool" where
  "IsValidUtf8 value = IsValidUtf8_loop value 0"

text \<open>The code points of a byte string, as every loop of this file reads them.\<close>

function decode_from :: "string \<Rightarrow> nat \<Rightarrow> codepoint list option" where
  "decode_from v i =
    (if i < length v then
       (case TryDecodeUtf8CodePoint v i of
          None \<Rightarrow> None
        | Some (cp, n) \<Rightarrow> map_option ((#) cp) (decode_from v (i + n)))
     else Some [])"
  by pat_completeness auto
termination
  by (relation "measure (\<lambda>(v, i). length v - i)") (auto dest: TryDecode_pos)

declare decode_from.simps [simp del]

lemma decode_from_Some:
  "i \<le> length v \<Longrightarrow> decode_from v i = Some cps \<Longrightarrow> list_all scalar cps \<and> drop i v = utf8 cps"
proof (induction v i arbitrary: cps rule: decode_from.induct)
  case (1 v i)
  show ?case
  proof (cases "i < length v")
    case True
    with "1.prems"(2) obtain cp n cs where d: "TryDecodeUtf8CodePoint v i = Some (cp, n)"
      and r: "decode_from v (i + n) = Some cs" and cps: "cps = cp # cs"
      by (auto simp: decode_from.simps [of v i] split: option.splits)
    note at = utf8c.decode_at [OF True d]
    have "list_all scalar cs \<and> drop (i + n) v = utf8 cs"
      using "1.IH" [OF True d refl at(4) r] .
    with at(1,2) show ?thesis by (simp add: cps)
  next
    case False
    then have "decode_from v i = Some []" by (simp add: decode_from.simps [of v i])
    with False "1.prems"(2) show ?thesis by simp
  qed
qed

lemma decode_from_utf8:
  "list_all scalar cps \<Longrightarrow> drop i v = utf8 cps \<Longrightarrow> decode_from v i = Some cps"
proof (induction cps arbitrary: i)
  case Nil
  then show ?case by (simp add: decode_from.simps [of v i])
next
  case (Cons cp cps)
  then have d: "scalar cp" "drop i v = enc cp @ utf8 cps" by simp_all
  note at = utf8c.decode_at_encode [OF this]
  have "decode_from v (i + length (enc cp)) = Some cps"
    using Cons at(3) by simp
  then show ?case using at(1,2) by (simp add: decode_from.simps [of v i])
qed

lemma IsValidUtf8_loop_eq [loop_equiv]: "IsValidUtf8_loop v i \<longleftrightarrow> decode_from v i \<noteq> None"
  by (induction v i rule: decode_from.induct)
    (subst IsValidUtf8_loop.simps, subst decode_from.simps, auto split: option.splits)

lemma IsValidUtf8_decode: "IsValidUtf8 v \<longleftrightarrow> decode_from v 0 \<noteq> None"
  by (simp add: IsValidUtf8_def IsValidUtf8_loop_eq)

lemma IsValidUtf8_iff: "IsValidUtf8 v \<longleftrightarrow> (\<exists>cps. list_all scalar cps \<and> v = utf8 cps)"
  unfolding IsValidUtf8_decode using decode_from_Some [of 0 v] decode_from_utf8 [of _ 0 v] by auto

lemma IsValidUtf8_utf8 [simp]: "list_all scalar cps \<Longrightarrow> IsValidUtf8 (utf8 cps)"
  by (auto simp: IsValidUtf8_iff)

end
