(* ===== verification/Unicode_Text.thy ===== *)
theory Unicode_Text
  imports Unicode
begin

text \<open>
  \<open>libs/Foundation/UnicodeConversion.cpp\<close>: whitespace classes, case folding and the search
  key normalisation \<open>TryNormalizeUtf8WhitespaceAndCaseFold\<close>.
\<close>

definition IsUnicodeWhitespace :: "codepoint \<Rightarrow> bool" where
  "IsUnicodeWhitespace codePoint \<longleftrightarrow>
    codePoint \<in> set [0x0009, 0x000A, 0x000B, 0x000C, 0x000D, 0x0020, 0x0085, 0x00A0, 0x1680,
                     0x2028, 0x2029, 0x202F, 0x205F, 0x3000]
    \<or> (codePoint \<ge> 0x2000 \<and> codePoint \<le> 0x200A)"

text \<open>\<open>std::tolower\<close> on an ASCII code in the C locale, which the process never changes.\<close>

definition tolower_ascii :: "nat \<Rightarrow> nat" where
  "tolower_ascii c = (if 65 \<le> c \<and> c \<le> 90 then c + 32 else c)"

text \<open>The two \<open>switch\<close> tables of \<open>CaseFoldCodePoint\<close>.\<close>

definition case_fold_switch :: "codepoint \<rightharpoonup> codepoint" where
  "case_fold_switch = map_of
    [(0x0130, 105), (0x0178, 0x00FF), (0x01F1, 0x01F3), (0x01F2, 0x01F3), (0x0386, 0x03AC),
     (0x0388, 0x03AD), (0x0389, 0x03AE), (0x038A, 0x03AF), (0x038C, 0x03CC), (0x038E, 0x03CD),
     (0x038F, 0x03CE), (0x03C2, 0x03C3), (0x0401, 0x0435), (0x0451, 0x0435), (0x1E9E, 0x00DF)]"

definition case_fold_cyrillic_switch :: "codepoint \<rightharpoonup> codepoint" where
  "case_fold_cyrillic_switch = map_of
    [(0x0400, 0x0450), (0x0402, 0x0452), (0x0403, 0x0453), (0x0404, 0x0454), (0x0405, 0x0455),
     (0x0406, 0x0456), (0x0407, 0x0457), (0x0408, 0x0458), (0x0409, 0x0459), (0x040A, 0x045A),
     (0x040B, 0x045B), (0x040C, 0x045C), (0x040D, 0x045D), (0x040E, 0x045E), (0x040F, 0x045F)]"

text \<open>Its two range tests for alphabets whose capital and small letters alternate.\<close>

definition case_fold_even_upper :: "codepoint \<Rightarrow> bool" where
  "case_fold_even_upper codePoint \<longleftrightarrow>
    (codePoint \<ge> 0x0100 \<and> codePoint \<le> 0x012E \<and> codePoint mod 2 = 0)
    \<or> (codePoint \<ge> 0x0132 \<and> codePoint \<le> 0x0136 \<and> codePoint mod 2 = 0)
    \<or> (codePoint \<ge> 0x014A \<and> codePoint \<le> 0x0176 \<and> codePoint mod 2 = 0)
    \<or> (codePoint \<ge> 0x01DE \<and> codePoint \<le> 0x01EE \<and> codePoint mod 2 = 0)
    \<or> (codePoint \<ge> 0x01F8 \<and> codePoint \<le> 0x021E \<and> codePoint mod 2 = 0)
    \<or> (codePoint \<ge> 0x0222 \<and> codePoint \<le> 0x0232 \<and> codePoint mod 2 = 0)
    \<or> (codePoint \<ge> 0x0460 \<and> codePoint \<le> 0x04FE \<and> codePoint mod 2 = 0)
    \<or> (codePoint \<ge> 0x0500 \<and> codePoint \<le> 0x052E \<and> codePoint mod 2 = 0)"

definition case_fold_odd_upper :: "codepoint \<Rightarrow> bool" where
  "case_fold_odd_upper codePoint \<longleftrightarrow>
    (codePoint \<ge> 0x0139 \<and> codePoint \<le> 0x0148 \<and> codePoint mod 2 = 1)
    \<or> (codePoint \<ge> 0x0179 \<and> codePoint \<le> 0x017E \<and> codePoint mod 2 = 1)"

definition CaseFoldCodePoint :: "codepoint \<Rightarrow> codepoint" where
  "CaseFoldCodePoint codePoint =
    (if codePoint \<le> 0x7F then tolower_ascii codePoint
     else if codePoint \<ge> 0x00C0 \<and> codePoint \<le> 0x00D6 then codePoint + 0x20
     else if codePoint \<ge> 0x00D8 \<and> codePoint \<le> 0x00DE then codePoint + 0x20
     else if case_fold_even_upper codePoint then codePoint + 1
     else if case_fold_odd_upper codePoint then codePoint + 1
     else case case_fold_switch codePoint of
       Some folded \<Rightarrow> folded
     | None \<Rightarrow>
         if codePoint \<ge> 0x0391 \<and> codePoint \<le> 0x03A1 then codePoint + 0x20
         else if codePoint \<ge> 0x03A3 \<and> codePoint \<le> 0x03AB then codePoint + 0x20
         else if codePoint \<ge> 0x0410 \<and> codePoint \<le> 0x042F then codePoint + 0x20
         else if codePoint \<ge> 0x0400 \<and> codePoint \<le> 0x040F then
           (case case_fold_cyrillic_switch codePoint of Some folded \<Rightarrow> folded | None \<Rightarrow> codePoint)
         else codePoint)"

definition AppendCaseFoldedCodePoint :: "codepoint \<Rightarrow> string \<Rightarrow> string" where
  "AppendCaseFoldedCodePoint codePoint result =
    (let foldedCodePoint = CaseFoldCodePoint codePoint in
     if foldedCodePoint = 0x00DF then result @ ''ss''
     else AppendUtf8CodePoint foldedCodePoint result)"

function TryNormalize_loop :: "string \<Rightarrow> nat \<Rightarrow> string \<Rightarrow> bool \<Rightarrow> string option" where
  "TryNormalize_loop value index normalized previousWasWhitespace =
    (if index < length value then
       (case TryDecodeUtf8CodePoint value index of
          None \<Rightarrow> None
        | Some (codePoint, sequenceLength) \<Rightarrow>
            if IsUnicodeWhitespace codePoint then
              (if \<not> previousWasWhitespace
               then TryNormalize_loop value (index + sequenceLength) (normalized @ '' '') True
               else TryNormalize_loop value (index + sequenceLength) normalized previousWasWhitespace)
            else TryNormalize_loop value (index + sequenceLength)
                   (AppendCaseFoldedCodePoint codePoint normalized) False)
     else Some normalized)"
  by pat_completeness auto
termination
  by (relation "measure (\<lambda>(v, i, _). length v - i)") (auto dest: TryDecode_pos)

declare TryNormalize_loop.simps [simp del]

definition TryNormalizeUtf8WhitespaceAndCaseFold :: "string \<Rightarrow> string option" where
  "TryNormalizeUtf8WhitespaceAndCaseFold value =
    (case TryNormalize_loop value 0 [] True of
       None \<Rightarrow> None
     | Some normalized \<Rightarrow>
         Some (if normalized \<noteq> [] \<and> last normalized = CHR '' '' then butlast normalized else normalized))"

section \<open>Case folding\<close>

lemma case_fold_switch_Some:
  "case_fold_switch c = Some d \<Longrightarrow>
    d \<in> {105, 0xFF, 0x1F3, 0x3AC, 0x3AD, 0x3AE, 0x3AF, 0x3CC, 0x3CD, 0x3CE, 0x3C3, 0x435, 0xDF}"
  by (auto simp: case_fold_switch_def split: if_splits)

lemma case_fold_switch_None:
  "case_fold_switch c = None \<longleftrightarrow>
    c \<notin> {0x130, 0x178, 0x1F1, 0x1F2, 0x386, 0x388, 0x389, 0x38A, 0x38C, 0x38E, 0x38F, 0x3C2, 0x401, 0x451, 0x1E9E}"
  by (auto simp: case_fold_switch_def split: if_splits)

lemma case_fold_cyrillic_switch_Some:
  "case_fold_cyrillic_switch c = Some d \<Longrightarrow> 0x450 \<le> d \<and> d \<le> 0x45F \<and> d \<noteq> 0x451"
  by (auto simp: case_fold_cyrillic_switch_def split: if_splits)

text \<open>The code points that folding produces when it changes something.\<close>

definition fold_target :: "codepoint \<Rightarrow> bool" where
  "fold_target d \<longleftrightarrow>
    (97 \<le> d \<and> d \<le> 122) \<or> (0xDF \<le> d \<and> d \<le> 0xFF)
    \<or> (0x100 \<le> d \<and> d \<le> 0x137 \<and> d mod 2 = 1)
    \<or> (0x13A \<le> d \<and> d \<le> 0x148 \<and> d mod 2 = 0)
    \<or> (0x14B \<le> d \<and> d \<le> 0x177 \<and> d mod 2 = 1)
    \<or> (0x17A \<le> d \<and> d \<le> 0x17E \<and> d mod 2 = 0)
    \<or> (0x1DE \<le> d \<and> d \<le> 0x233 \<and> d mod 2 = 1 \<and> d \<noteq> 0x1F1)
    \<or> (0x3AC \<le> d \<and> d \<le> 0x3CE \<and> d \<noteq> 0x3C2)
    \<or> (0x430 \<le> d \<and> d \<le> 0x45F \<and> d \<noteq> 0x451)
    \<or> (0x460 \<le> d \<and> d \<le> 0x52F \<and> d mod 2 = 1)"

lemma odd_not_even: "(d::nat) mod 2 = Suc 0 \<Longrightarrow> d \<noteq> 0x130 \<and> d \<noteq> 0x1F2"
  by auto

lemma fold_target_fixed: "fold_target d \<Longrightarrow> CaseFoldCodePoint d = d"
  unfolding fold_target_def
  by (elim disjE conjE)
    (simp_all add: CaseFoldCodePoint_def case_fold_even_upper_def case_fold_odd_upper_def tolower_ascii_def
      case_fold_switch_None [THEN iffD2] odd_not_even)

lemma mod2_Suc: "(c::nat) mod 2 = 0 \<Longrightarrow> Suc c mod 2 = 1" "(c::nat) mod 2 = 1 \<Longrightarrow> Suc c mod 2 = 0"
  by presburger+

lemma fold_target_even_upper: "case_fold_even_upper c \<Longrightarrow> fold_target (c + 1)"
  unfolding case_fold_even_upper_def
  by (elim disjE conjE) (simp_all add: fold_target_def mod2_Suc)

lemma fold_target_odd_upper: "case_fold_odd_upper c \<Longrightarrow> fold_target (c + 1)"
  unfolding case_fold_odd_upper_def
proof (elim disjE conjE)
  assume "0x0139 \<le> c" "c \<le> 0x0148" "c mod 2 = 1"
  moreover from this have "c \<noteq> 0x0148" by auto
  ultimately show ?thesis by (simp add: fold_target_def mod2_Suc)
next
  assume "0x0179 \<le> c" "c \<le> 0x017E" "c mod 2 = 1"
  moreover from this have "c \<noteq> 0x017E" by auto
  ultimately show ?thesis by (simp add: fold_target_def mod2_Suc)
qed

lemma fold_target_switch: "case_fold_switch c = Some d \<Longrightarrow> fold_target d"
  by (drule case_fold_switch_Some, unfold insert_iff empty_iff, elim disjE FalseE)
    (simp_all add: fold_target_def)

lemma fold_target_cyrillic_switch: "case_fold_cyrillic_switch c = Some d \<Longrightarrow> fold_target d"
  by (drule case_fold_cyrillic_switch_Some) (simp add: fold_target_def)

lemma fold_target_shift:
  "65 \<le> c \<Longrightarrow> c \<le> 90 \<Longrightarrow> fold_target (c + 32)"
  "0xC0 \<le> c \<Longrightarrow> c \<le> 0xDE \<Longrightarrow> fold_target (c + 0x20)"
  "0x391 \<le> c \<Longrightarrow> c \<le> 0x3A1 \<Longrightarrow> fold_target (c + 0x20)"
  "0x3A3 \<le> c \<Longrightarrow> c \<le> 0x3AB \<Longrightarrow> fold_target (c + 0x20)"
  "0x410 \<le> c \<Longrightarrow> c \<le> 0x42F \<Longrightarrow> fold_target (c + 0x20)"
  by (simp_all add: fold_target_def)

lemma CaseFold_cases: "CaseFoldCodePoint c = c \<or> fold_target (CaseFoldCodePoint c)"
proof -
  have r: "case_fold_cyrillic_switch c = Some d \<Longrightarrow> fold_target d" for d by (rule fold_target_cyrillic_switch)
  show ?thesis
    unfolding CaseFoldCodePoint_def tolower_ascii_def
    using fold_target_switch [of c] r fold_target_even_upper [of c] fold_target_odd_upper [of c]
      fold_target_shift [of c]
    by (cases "case_fold_switch c"; cases "case_fold_cyrillic_switch c") (simp_all)
qed

lemma CaseFold_idem: "CaseFoldCodePoint (CaseFoldCodePoint c) = CaseFoldCodePoint c"
  using CaseFold_cases [of c] fold_target_fixed by metis

lemma fold_target_bounds: "fold_target d \<Longrightarrow> 97 \<le> d \<and> d \<le> 0x52F \<and> (122 < d \<longrightarrow> 0xDF \<le> d)"
  unfolding fold_target_def by (elim disjE conjE) simp_all

lemma fold_target_not_white: "fold_target d \<Longrightarrow> \<not> IsUnicodeWhitespace d"
  using fold_target_bounds [of d] by (auto simp: IsUnicodeWhitespace_def)

text \<open>The code points one folded code point contributes.\<close>

definition fold1 :: "codepoint \<Rightarrow> codepoint list" where
  "fold1 c = (if CaseFoldCodePoint c = 0xDF then [115, 115] else [CaseFoldCodePoint c])"

lemma AppendCaseFolded_fold1: "AppendCaseFoldedCodePoint c r = r @ utf8 (fold1 c)"
proof -
  have "enc 115 = ''s''" using char_of_char [of "CHR ''s''", where 'a = nat] by (simp add: enc_arith)
  then show ?thesis
    by (simp add: AppendCaseFoldedCodePoint_def fold1_def Let_def Append_enc [of _ r])
qed

lemma CaseFold_s: "CaseFoldCodePoint 115 = 115"
  by (rule fold_target_fixed) (simp add: fold_target_def)

lemma fold1_mem:
  assumes "scalar c" "\<not> IsUnicodeWhitespace c" "d \<in> set (fold1 c)"
  shows "scalar d" "\<not> IsUnicodeWhitespace d" "fold1 d = [d]"
proof -
  have "scalar d \<and> \<not> IsUnicodeWhitespace d \<and> fold1 d = [d]"
  proof (cases "CaseFoldCodePoint c = 0xDF")
    case True
    with assms(3) have "d = 115" by (simp add: fold1_def)
    then show ?thesis by (simp add: scalar_def IsUnicodeWhitespace_def fold1_def CaseFold_s)
  next
    case False
    with assms(3) have d: "d = CaseFoldCodePoint c" by (simp add: fold1_def)
    have "fold1 d = [d]" using False by (simp add: d fold1_def CaseFold_idem)
    moreover have "scalar d \<and> \<not> IsUnicodeWhitespace d"
      using CaseFold_cases [of c]
    proof
      assume "CaseFoldCodePoint c = c"
      with assms(1,2) show ?thesis by (simp add: d)
    next
      assume t: "fold_target (CaseFoldCodePoint c)"
      show ?thesis
        using fold_target_bounds [OF t] fold_target_not_white [OF t] by (simp add: d scalar_def)
    qed
    ultimately show ?thesis by simp
  qed
  then show "scalar d" "\<not> IsUnicodeWhitespace d" "fold1 d = [d]" by auto
qed

section \<open>Normalisation on code points\<close>

fun normc :: "bool \<Rightarrow> codepoint list \<Rightarrow> codepoint list" where
  "normc ws [] = []"
| "normc ws (c # cs) =
    (if IsUnicodeWhitespace c then (if ws then normc True cs else 32 # normc True cs)
     else fold1 c @ normc False cs)"

definition strip_space :: "codepoint list \<Rightarrow> codepoint list" where
  "strip_space cs = (if cs \<noteq> [] \<and> last cs = 32 then butlast cs else cs)"

lemma chr_of_space: "chr_of 32 = CHR '' ''"
  using char_of_char [of "CHR '' ''", where 'a = nat] by simp

lemma enc_space: "enc 32 = '' ''"
  by (simp add: enc_arith chr_of_space)

lemma TryNormalize_loop_eq [loop_equiv]:
  "TryNormalize_loop v i acc ws = map_option (\<lambda>cs. acc @ utf8 (normc ws cs)) (decode_from v i)"
proof (induction v i arbitrary: acc ws rule: decode_from.induct)
  case (1 v i)
  show ?case
  proof (cases "i < length v")
    case True
    show ?thesis
    proof (cases "TryDecodeUtf8CodePoint v i")
      case None
      then show ?thesis by (simp add: TryNormalize_loop.simps [of v i] decode_from.simps [of v i])
    next
      case (Some p)
      then obtain c n where d: "TryDecodeUtf8CodePoint v i = Some (c, n)" by (cases p) simp
      note IH = "1.IH" [OF True d refl]
      show ?thesis
        by (cases "decode_from v (i + n)")
          (simp_all add: TryNormalize_loop.simps [of v i] decode_from.simps [of v i] True d IH
            AppendCaseFolded_fold1 enc_space)
    qed
  next
    case False
    then show ?thesis by (simp add: TryNormalize_loop.simps [of v i] decode_from.simps [of v i])
  qed
qed

lemma normc_scalar: "list_all scalar cs \<Longrightarrow> list_all scalar (normc ws cs)"
proof (induction cs arbitrary: ws)
  case (Cons c cs)
  then show ?case using fold1_mem(1) [of c] by (auto simp: list_all_iff scalar_def)
qed simp

lemma last_enc_space: "scalar c \<Longrightarrow> last (enc c) = CHR '' '' \<longleftrightarrow> c = 32"
proof -
  have b: "byte_of (chr_of (128 + c mod 64)) = 128 + c mod 64" by simp
  have sp: "byte_of (CHR '' '') = (32::nat)" by simp
  show ?thesis
  proof (cases "c < 128")
    case True
    then have "last (enc c) = chr_of c" by (simp add: enc_arith)
    then show ?thesis using True chr_of_eq_iff [of c 32] by (simp add: chr_of_space)
  next
    case False
    then have "last (enc c) = chr_of (128 + c mod 64)" by (simp add: enc_arith)
    moreover have "chr_of (128 + c mod 64) \<noteq> CHR '' ''"
    proof
      assume "chr_of (128 + c mod 64) = CHR '' ''"
      then have "128 + c mod 64 = 32" using b sp by simp
      then show False by simp
    qed
    ultimately show ?thesis using False by auto
  qed
qed

lemma utf8_eq_Nil: "utf8 cs = [] \<longleftrightarrow> cs = []"
  using utf8c.encode_nonempty by (cases cs) auto

lemma strip_utf8:
  assumes "list_all scalar cs"
  shows "(if utf8 cs \<noteq> [] \<and> last (utf8 cs) = CHR '' '' then butlast (utf8 cs) else utf8 cs) = utf8 (strip_space cs)"
proof (cases cs rule: rev_cases)
  case Nil
  then show ?thesis by (simp add: strip_space_def)
next
  case (snoc ys y)
  with assms have y: "scalar y" by simp
  have l: "last (utf8 cs) = last (enc y)" using snoc utf8c.encode_nonempty [of y] by simp
  show ?thesis
    using l snoc last_enc_space [OF y] utf8c.encode_nonempty [of y]
    by (auto simp: strip_space_def enc_space butlast_append)
qed

lemma TryNormalize_eq:
  "TryNormalizeUtf8WhitespaceAndCaseFold v = map_option (\<lambda>cs. utf8 (strip_space (normc True cs))) (decode_from v 0)"
proof (cases "decode_from v 0")
  case None
  then show ?thesis by (simp add: TryNormalizeUtf8WhitespaceAndCaseFold_def TryNormalize_loop_eq)
next
  case (Some cs)
  have "list_all scalar (normc True cs)" using decode_from_Some [OF _ Some] normc_scalar by simp
  from strip_utf8 [OF this] Some show ?thesis
    by (simp add: TryNormalizeUtf8WhitespaceAndCaseFold_def TryNormalize_loop_eq)
qed

text \<open>The normal forms: single inner spaces, folded code points, no space at either end.\<close>

fun normal :: "bool \<Rightarrow> codepoint list \<Rightarrow> bool" where
  "normal ws [] = True"
| "normal ws (c # cs) =
    (if c = 32 then \<not> ws \<and> normal True cs
     else \<not> IsUnicodeWhitespace c \<and> fold1 c = [c] \<and> normal False cs)"

lemma white_space: "IsUnicodeWhitespace 32"
  by (simp add: IsUnicodeWhitespace_def)

lemma normal_append_folded:
  "(\<And>d. d \<in> set ds \<Longrightarrow> \<not> IsUnicodeWhitespace d \<and> fold1 d = [d]) \<Longrightarrow> ds \<noteq> [] \<Longrightarrow> normal False cs \<Longrightarrow>
    normal ws (ds @ cs)"
proof (induction ds arbitrary: ws)
  case (Cons d ds)
  then have "d \<noteq> 32" using white_space by auto
  with Cons show ?case by (cases ds) auto
qed simp

lemma fold1_nonempty: "fold1 c \<noteq> []"
  by (simp add: fold1_def)

lemma normal_normc: "list_all scalar cs \<Longrightarrow> normal ws (normc ws cs)"
proof (induction cs arbitrary: ws)
  case (Cons c cs)
  then have c: "scalar c" and IH: "normal b (normc b cs)" for b by auto
  have "normal ws (fold1 c @ normc False cs)" if "\<not> IsUnicodeWhitespace c"
    by (rule normal_append_folded) (use fold1_mem [OF c that] fold1_nonempty IH in blast)+
  then show ?case using IH by (simp add: white_space)
qed simp

lemma normal_strip: "normal ws cs \<Longrightarrow> normal ws (strip_space cs)"
proof -
  have init: "normal ws (ys @ [y]) \<Longrightarrow> normal ws ys" for y ys
    by (induction ys arbitrary: ws) (auto split: if_splits)
  assume "normal ws cs"
  then show ?thesis
    by (metis append_butlast_last_id init strip_space_def)
qed

lemma normc_normal: "normal ws cs \<Longrightarrow> normc ws cs = cs"
  by (induction ws cs rule: normal.induct) (auto simp: white_space split: if_splits)

lemma strip_strip: "normal ws cs \<Longrightarrow> strip_space (strip_space cs) = strip_space cs"
proof -
  have two: "\<not> normal ws (ys @ [32, 32])" for ys
    by (induction ys arbitrary: ws) auto
  assume n: "normal ws cs"
  show ?thesis
  proof (cases "cs \<noteq> [] \<and> last cs = 32 \<and> butlast cs \<noteq> [] \<and> last (butlast cs) = 32")
    case True
    then have "cs = butlast (butlast cs) @ [32, 32]"
      by (metis append.assoc append_Cons append_Nil append_butlast_last_id)
    with n two [of "butlast (butlast cs)"] show ?thesis by simp
  next
    case False
    then show ?thesis by (auto simp: strip_space_def)
  qed
qed

lemma strip_scalar: "list_all scalar cs \<Longrightarrow> list_all scalar (strip_space cs)"
  by (auto simp: strip_space_def list_all_iff dest: in_set_butlastD)

lemma TryNormalize_None_iff: "TryNormalizeUtf8WhitespaceAndCaseFold v = None \<longleftrightarrow> \<not> IsValidUtf8 v"
  by (simp add: TryNormalize_eq IsValidUtf8_decode)

lemma TryNormalize_Some:
  assumes "TryNormalizeUtf8WhitespaceAndCaseFold v = Some t"
  obtains ns where "list_all scalar ns" "normal True ns" "strip_space ns = ns" "t = utf8 ns"
proof -
  from assms obtain cs where cs: "decode_from v 0 = Some cs" and t: "t = utf8 (strip_space (normc True cs))"
    by (auto simp: TryNormalize_eq)
  have sc: "list_all scalar cs" using decode_from_Some [OF _ cs] by simp
  note n = normal_normc [OF sc, of True]
  show thesis
    using that [OF strip_scalar [OF normc_scalar [OF sc]] normal_strip [OF n] strip_strip [OF n] t] .
qed

lemma TryNormalize_fixed:
  "list_all scalar ns \<Longrightarrow> normal True ns \<Longrightarrow> strip_space ns = ns \<Longrightarrow>
    TryNormalizeUtf8WhitespaceAndCaseFold (utf8 ns) = Some (utf8 ns)"
  by (simp add: TryNormalize_eq decode_from_utf8 normc_normal)

lemma TryNormalize_idem:
  "TryNormalizeUtf8WhitespaceAndCaseFold v = Some t \<Longrightarrow>
    TryNormalizeUtf8WhitespaceAndCaseFold t = Some t \<and> IsValidUtf8 t"
  by (elim TryNormalize_Some) (simp add: TryNormalize_fixed)

lemma hd_enc_space: "scalar c \<Longrightarrow> hd (enc c) = CHR '' '' \<Longrightarrow> c = 32"
proof -
  assume c: "scalar c" "hd (enc c) = CHR '' ''"
  then have "enc c = '' '' @ tl (enc c)"
    using utf8c.encode_nonempty [of c] by (cases "enc c") simp_all
  then have "enc c @ [] = enc 32 @ tl (enc c)" by (simp add: enc_space)
  from utf8c.encode_prefix_free [OF c(1) _ this] show "c = 32" by (simp add: scalar_def)
qed

lemma TryNormalize_ends:
  assumes "TryNormalizeUtf8WhitespaceAndCaseFold v = Some t"
  shows "t = [] \<or> hd t \<noteq> CHR '' '' \<and> last t \<noteq> CHR '' ''"
proof -
  from assms obtain ns where ns: "list_all scalar ns" "normal True ns" "strip_space ns = ns" "t = utf8 ns"
    by (rule TryNormalize_Some)
  show ?thesis
  proof (cases ns rule: rev_cases)
    case Nil
    then show ?thesis using ns by simp
  next
    case (snoc ys y)
    have "y \<noteq> 32" using ns(3) snoc by (auto simp: strip_space_def)
    then have l: "last t \<noteq> CHR '' ''"
      using ns snoc last_enc_space [of y] utf8c.encode_nonempty [of y] by (simp add: last_append)
    obtain x xs where x: "ns = x # xs" using snoc by (metis append_is_Nil_conv list.exhaust not_Cons_self2)
    then have "x \<noteq> 32" using ns(2) by (auto split: if_splits)
    then have "hd t \<noteq> CHR '' ''"
      using ns x hd_enc_space [of x] utf8c.encode_nonempty [of x] by (simp add: hd_append) blast
    with l show ?thesis by simp
  qed
qed

end
