(* ===== verification/Unicode_Trim.thy ===== *)
theory Unicode_Trim
  imports Unicode
begin

text \<open>
  \<open>TryTrimTrailingIncompleteUtf8\<close> of \<open>libs/Foundation/UnicodeConversion.cpp\<close>: which strings
  it trims and to what, and that cutting valid UTF-8 at any byte is repaired by it.
\<close>

function TryTrim_loop :: "string \<Rightarrow> nat \<Rightarrow> string option" where
  "TryTrim_loop value index =
    (if index < length value then
       (case ExpectedUtf8SequenceLength (byte_of (value ! index)) of
          None \<Rightarrow> None
        | Some expectedLength \<Rightarrow>
            if IsTrailingIncompleteUtf8Sequence value index expectedLength
            then Some (take index value)
            else (case TryDecodeUtf8CodePoint value index of
                    None \<Rightarrow> None
                  | Some (codePoint, sequenceLength) \<Rightarrow> TryTrim_loop value (index + sequenceLength)))
     else None)"
  by pat_completeness auto
termination
  by (relation "measure (\<lambda>(v, i). length v - i)") (auto dest: TryDecode_pos)

declare TryTrim_loop.simps [simp del]

definition TryTrimTrailingIncompleteUtf8 :: "string \<Rightarrow> string option" where
  "TryTrimTrailingIncompleteUtf8 value = TryTrim_loop value 0"

text \<open>A proper, non-empty beginning of one encoded scalar value.\<close>

definition cut_of :: "codepoint \<Rightarrow> string \<Rightarrow> bool" where
  "cut_of cp t \<longleftrightarrow> scalar cp \<and> t \<noteq> [] \<and> strict_prefix t (enc cp)"

lemma Expected_enc:
  assumes "scalar cp"
  shows "ExpectedUtf8SequenceLength (byte_of (enc cp ! 0)) = Some (length (enc cp))"
proof -
  have "TryDecodeUtf8CodePoint (enc cp) 0 = Some (cp, length (enc cp))"
    using TryDecode_enc [OF assms, of "[]"] by simp
  then show ?thesis
    unfolding TryDecode_arith Let_def ExpectedUtf8SequenceLength_def by (auto split: if_splits)
qed

text \<open>An incomplete tail can be completed to an encoded scalar value.\<close>

definition fill :: "nat \<Rightarrow> string" where
  "fill a = [chr_of (if a = 0xE0 then 0xA0 else if a = 0xF0 then 0x90 else 0x80), chr_of 0x80, chr_of 0x80]"

lemma IsTrailing_drop:
  assumes "i < length v"
  shows "IsTrailingIncompleteUtf8Sequence v i L = IsTrailingIncompleteUtf8Sequence (drop i v) 0 L"
proof -
  have n: "drop i v ! k = v ! (i + k)" for k using assms by simp
  show ?thesis
    unfolding IsTrailingIncompleteUtf8Sequence_def n by (simp add: Let_def)
qed

lemma length_cases_lt4:
  assumes "0 < length t" "length t < 4"
  obtains a where "t = [a]" | a b where "t = [a, b]" | a b c where "t = [a, b, c]"
proof -
  from assms have "length t = 1 \<or> length t = 2 \<or> length t = 3" by linarith
  then show thesis
    using that by (auto simp: length_Suc_conv numeral_2_eq_2 numeral_3_eq_3)
qed

lemmas trim_defs = TryDecode_arith fill_def ExpectedUtf8SequenceLength_def CanBeSecondUtf8Byte_def
  IsUtf8ContinuationByte_def IsTrailingIncompleteUtf8Sequence_def Let_def byte_of_chr_of

lemma IsTrailing_cut:
  assumes e: "ExpectedUtf8SequenceLength (byte_of (t ! 0)) = Some L"
    and tr: "IsTrailingIncompleteUtf8Sequence t 0 L"
  shows "\<exists>cp. cut_of cp t"
proof -
  have L: "L \<le> 4" using e by (auto simp: ExpectedUtf8SequenceLength_def split: if_splits)
  have len: "0 < length t" "length t < L"
    using tr by (auto simp: IsTrailingIncompleteUtf8Sequence_def Let_def split: if_splits)
  let ?w = "t @ drop (length t - 1) (fill (byte_of (t ! 0)))"
  have "\<exists>cp. TryDecodeUtf8CodePoint ?w 0 = Some (cp, L)"
  proof (rule length_cases_lt4 [of t])
    show "0 < length t" "length t < 4" using len L by auto
  next
    fix a assume "t = [a]"
    with e len show ?thesis
      by (auto simp: trim_defs split: if_splits)
  next
    fix a b assume "t = [a, b]"
    with e len tr show ?thesis
      by (auto simp: trim_defs split: if_splits)
  next
    fix a b c assume "t = [a, b, c]"
    with e len tr show ?thesis
      by (auto simp: trim_defs split: if_splits)
  qed
  then obtain cp where d: "TryDecodeUtf8CodePoint ?w 0 = Some (cp, L)" ..
  have "?w \<noteq> []" using len by auto
  from TryDecode_sound [OF d this] have *: "scalar cp" "take L ?w = enc cp" "L = length (enc cp)" by auto
  have "prefix t (enc cp)"
    using *(2) len by (metis take_append take_all less_imp_le prefixI)
  with * len have "cut_of cp t" by (auto simp: cut_of_def strict_prefix_def)
  then show ?thesis ..
qed

lemma cut_IsTrailing:
  assumes "cut_of cp t"
  shows "ExpectedUtf8SequenceLength (byte_of (t ! 0)) = Some (length (enc cp))"
    "IsTrailingIncompleteUtf8Sequence t 0 (length (enc cp))"
proof -
  have sc: "scalar cp" and ne: "t \<noteq> []" and lt: "length t < length (enc cp)" and pre: "prefix t (enc cp)"
    using assms by (auto simp: cut_of_def strict_prefix_def prefix_length_less prefix_def)
  have nth: "enc cp ! k = t ! k" if "k < length t" for k
    using pre that by (auto simp: prefix_def nth_append)
  show "ExpectedUtf8SequenceLength (byte_of (t ! 0)) = Some (length (enc cp))"
    using Expected_enc [OF sc] nth [of 0] ne by simp
  have d: "TryDecodeUtf8CodePoint (enc cp) 0 = Some (cp, length (enc cp))"
    using TryDecode_enc [OF sc, of "[]"] by simp
  have le4: "length (enc cp) \<le> 4" by (simp add: enc_arith)
  consider "length t = 1" | "length t = 2" | "length t = 3"
    using lt le4 ne by (cases "length t") (auto, linarith)
  then show "IsTrailingIncompleteUtf8Sequence t 0 (length (enc cp))"
  proof cases
    case 1
    with lt show ?thesis by (simp add: IsTrailingIncompleteUtf8Sequence_def)
  next
    case 2
    then have "enc cp ! 0 = t ! 0" "enc cp ! 1 = t ! 1" using nth by auto
    with 2 d lt show ?thesis
      by (auto simp: TryDecode_arith Let_def IsTrailingIncompleteUtf8Sequence_def split: if_splits)
  next
    case 3
    then have "enc cp ! 0 = t ! 0" "enc cp ! 1 = t ! 1" "enc cp ! 2 = t ! 2" using nth by auto
    moreover have "[2..<3] = [2::nat]" by (simp add: upt_rec)
    ultimately show ?thesis using 3 d lt
      by (auto simp: TryDecode_arith Let_def IsTrailingIncompleteUtf8Sequence_def
          IsUtf8ContinuationByte_def numeral_2_eq_2 split: if_splits)
  qed
qed

lemma not_IsTrailing_enc:
  "drop i v = enc cp @ w \<Longrightarrow> \<not> IsTrailingIncompleteUtf8Sequence v i (length (enc cp))"
proof -
  assume d: "drop i v = enc cp @ w"
  have "length (enc cp) \<le> length (drop i v)" unfolding d by simp
  then show ?thesis by (simp add: IsTrailingIncompleteUtf8Sequence_def Let_def)
qed

lemma TryTrim_loop_Some:
  "i \<le> length v \<Longrightarrow> TryTrim_loop v i = Some t \<Longrightarrow>
    \<exists>cps cp u. list_all scalar cps \<and> cut_of cp u \<and> drop i v = utf8 cps @ u \<and> t = take i v @ utf8 cps"
proof (induction v i rule: TryTrim_loop.induct)
  case (1 v i)
  from "1.prems"(2) have i: "i < length v" and "\<exists>L. ExpectedUtf8SequenceLength (byte_of (v ! i)) = Some L"
    by (auto simp: TryTrim_loop.simps [of v i] split: if_splits option.splits)
  then obtain L where L: "ExpectedUtf8SequenceLength (byte_of (v ! i)) = Some L" by auto
  show ?case
  proof (cases "IsTrailingIncompleteUtf8Sequence v i L")
    case True
    have "ExpectedUtf8SequenceLength (byte_of (drop i v ! 0)) = Some L" using L i by simp
    moreover have "IsTrailingIncompleteUtf8Sequence (drop i v) 0 L"
      using True IsTrailing_drop [OF i] by simp
    ultimately obtain cp where "cut_of cp (drop i v)" using IsTrailing_cut by blast
    moreover have "t = take i v" using "1.prems"(2) i L True by (simp add: TryTrim_loop.simps [of v i])
    ultimately show ?thesis by (intro exI [of _ "[]"] exI [of _ cp] exI [of _ "drop i v"]) simp
  next
    case False
    with "1.prems"(2) i L obtain cp n where d: "TryDecodeUtf8CodePoint v i = Some (cp, n)"
      and r: "TryTrim_loop v (i + n) = Some t"
      by (auto simp: TryTrim_loop.simps [of v i] split: option.splits)
    note at = utf8c.decode_at [OF i d]
    from "1.IH" [OF i L False d refl at(4) r] obtain cps c u where
      r: "list_all scalar cps" "cut_of c u" "drop (i + n) v = utf8 cps @ u" "t = take (i + n) v @ utf8 cps"
      by auto
    have "n = length (enc cp)"
      using TryDecode_sound [of "drop i v" cp n] d TryDecode_drop [OF i] i by simp
    then have "take (i + n) v = take i v @ enc cp"
      using at(2) i by (simp add: take_add)
    then show ?thesis using r at(1,2)
      by (intro exI [of _ "cp # cps"] exI [of _ c] exI [of _ u]) simp
  qed
qed

lemma TryTrim_loop_cut:
  "list_all scalar cps \<Longrightarrow> cut_of cp u \<Longrightarrow> drop i v = utf8 cps @ u \<Longrightarrow>
    TryTrim_loop v i = Some (take i v @ utf8 cps)"
proof (induction cps arbitrary: i)
  case Nil
  then have u: "drop i v = u" "u \<noteq> []" by (auto simp: cut_of_def)
  then have i: "i < length v" by auto
  have "ExpectedUtf8SequenceLength (byte_of (v ! i)) = Some (length (enc cp))"
    "IsTrailingIncompleteUtf8Sequence v i (length (enc cp))"
    using cut_IsTrailing [OF Nil.prems(2)] unfolding IsTrailing_drop [OF i] u(1) [symmetric]
    using i by simp_all
  with i show ?case by (simp add: TryTrim_loop.simps [of v i])
next
  case (Cons c cps)
  then have d: "scalar c" "drop i v = enc c @ (utf8 cps @ u)" by simp_all
  note at = utf8c.decode_at_encode [OF d]
  have "v ! i = enc c ! 0"
  proof -
    have "v ! i = drop i v ! 0" using at(1) by simp
    also have "\<dots> = enc c ! 0" unfolding d(2) using utf8c.encode_nonempty [of c] by (simp add: nth_append)
    finally show ?thesis .
  qed
  then have e: "ExpectedUtf8SequenceLength (byte_of (v ! i)) = Some (length (enc c))"
    using Expected_enc [OF d(1)] by simp
  have "TryTrim_loop v (i + length (enc c)) = Some (take (i + length (enc c)) v @ utf8 cps)"
    using Cons.prems at(3) by (intro Cons.IH) simp_all
  moreover have "take (i + length (enc c)) v = take i v @ enc c"
    using d(2) by (simp add: take_add)
  ultimately show ?case
    using at e not_IsTrailing_enc [OF d(2)] by (simp add: TryTrim_loop.simps [of v i])
qed

lemma TryTrim_iff:
  "TryTrimTrailingIncompleteUtf8 v = Some t \<longleftrightarrow>
    (\<exists>cps cp u. list_all scalar cps \<and> cut_of cp u \<and> v = utf8 cps @ u \<and> t = utf8 cps)"
  unfolding TryTrimTrailingIncompleteUtf8_def
  using TryTrim_loop_Some [of 0 v t] TryTrim_loop_cut [of _ _ _ 0 v] by auto

lemma cut_of_length: "cut_of cp u \<Longrightarrow> length u \<le> 3"
proof -
  assume "cut_of cp u"
  then have "length u < length (enc cp)" by (auto simp: cut_of_def prefix_length_less)
  moreover have "length (enc cp) \<le> 4" by (simp add: enc_arith)
  ultimately show ?thesis by simp
qed

lemma TryTrim_valid:
  "TryTrimTrailingIncompleteUtf8 v = Some t \<Longrightarrow> IsValidUtf8 t \<and> strict_prefix t v \<and> length v \<le> length t + 3"
proof (unfold TryTrim_iff, elim exE conjE)
  fix cps cp u assume "list_all scalar cps" "cut_of cp u" "v = utf8 cps @ u" "t = utf8 cps"
  then show ?thesis using cut_of_length [of cp u] by (auto simp: cut_of_def strict_prefix_def)
qed

lemma take_utf8:
  "list_all scalar cps \<Longrightarrow>
    (\<exists>xs. list_all scalar xs \<and> take n (utf8 cps) = utf8 xs)
    \<or> (\<exists>xs cp u. list_all scalar xs \<and> cut_of cp u \<and> take n (utf8 cps) = utf8 xs @ u)"
proof (induction cps arbitrary: n)
  case Nil
  then show ?case by (intro disjI1 exI [of _ "[]"]) simp
next
  case (Cons c cps)
  consider "n = 0" | "0 < n" "n < length (enc c)" | "length (enc c) \<le> n" by linarith
  then show ?case
  proof cases
    case 1
    then show ?thesis by (intro disjI1 exI [of _ "[]"]) simp
  next
    case 2
    then have "cut_of c (take n (enc c))"
      using Cons.prems by (auto simp: cut_of_def strict_prefix_def take_is_prefix dest: arg_cong [where f = length])
    then show ?thesis using 2 by (intro disjI2 exI [of _ "[]"] exI [of _ c] exI [of _ "take n (enc c)"]) simp
  next
    case 3
    have t: "take n (utf8 (c # cps)) = enc c @ take (n - length (enc c)) (utf8 cps)" using 3 by simp
    have c: "scalar c" using Cons.prems by simp
    have "list_all scalar cps" using Cons.prems by simp
    from Cons.IH [OF this, of "n - length (enc c)"] show ?thesis
    proof (elim disjE exE conjE)
      fix xs assume "list_all scalar xs" "take (n - length (enc c)) (utf8 cps) = utf8 xs"
      then show ?thesis using t c by (intro disjI1 exI [of _ "c # xs"]) simp
    next
      fix xs cp u assume "list_all scalar xs" "cut_of cp u" "take (n - length (enc c)) (utf8 cps) = utf8 xs @ u"
      then show ?thesis using t c by (intro disjI2 exI [of _ "c # xs"] exI [of _ cp] exI [of _ u]) simp
    qed
  qed
qed

text \<open>
  Valid UTF-8 cut at any byte: either it is still valid, or the trim repairs it by dropping
  at most three bytes.
\<close>

lemma trim_repairs_cut:
  assumes "IsValidUtf8 s"
  shows "IsValidUtf8 (take n s) \<or>
    (\<exists>t. TryTrimTrailingIncompleteUtf8 (take n s) = Some t \<and> IsValidUtf8 t \<and> strict_prefix t (take n s)
       \<and> length (take n s) \<le> length t + 3)"
proof -
  from assms obtain cps where cps: "list_all scalar cps" "s = utf8 cps" by (auto simp: IsValidUtf8_iff)
  from take_utf8 [OF cps(1), of n] show ?thesis
    unfolding cps(2) by (metis IsValidUtf8_utf8 TryTrim_iff TryTrim_valid)
qed

end
