(* ===== verification/String_Utils.thy ===== *)
theory String_Utils
  imports Unicode_Trim
begin

text \<open>
  The small string helpers of \<open>libs/Foundation\<close>: \<open>StringUtils.cpp\<close> (ASCII case),
  \<open>FilenamePolicy.cpp\<close> (download file names) and the textual half of
  \<open>Sha256Fingerprint.cpp\<close>.
\<close>

section \<open>StringUtils.cpp\<close>

definition ToLowerAsciiCharacter :: "char \<Rightarrow> char" where
  "ToLowerAsciiCharacter character =
    (if byte_of character \<ge> byte_of (CHR ''A'') \<and> byte_of character \<le> byte_of (CHR ''Z'')
     then chr_of (byte_of character + (byte_of (CHR ''a'') - byte_of (CHR ''A''))) else character)"

definition ToLowerAscii :: "string \<Rightarrow> string" where
  "ToLowerAscii value = map ToLowerAsciiCharacter value"

definition EndsWithAsciiInsensitive :: "string \<Rightarrow> string \<Rightarrow> bool" where
  "EndsWithAsciiInsensitive value suffixText =
    (if length suffixText > length value then False
     else let offset = length value - length suffixText in
       (\<forall>index \<in> set [0..<length suffixText].
          ToLowerAsciiCharacter (value ! (offset + index)) = ToLowerAsciiCharacter (suffixText ! index)))"

lemma ToLower_idem [simp]: "ToLowerAsciiCharacter (ToLowerAsciiCharacter c) = ToLowerAsciiCharacter c"
  by (auto simp: ToLowerAsciiCharacter_def byte_of_chr_of)

lemma ToLowerAscii_idem [simp]: "ToLowerAscii (ToLowerAscii s) = ToLowerAscii s"
  by (simp add: ToLowerAscii_def)

lemma ToLowerAscii_simps [simp]:
  "ToLowerAscii [] = []"
  "ToLowerAscii (xs @ ys) = ToLowerAscii xs @ ToLowerAscii ys"
  "length (ToLowerAscii s) = length s"
  "ToLowerAscii s = [] \<longleftrightarrow> s = []"
  by (simp_all add: ToLowerAscii_def)

text \<open>The byte loop decides whether the value ends with the suffix up to ASCII case.\<close>

lemma EndsWith_iff:
  "EndsWithAsciiInsensitive v s \<longleftrightarrow> suffix (ToLowerAscii s) (ToLowerAscii v)"
proof (cases "length s > length v")
  case True
  then show ?thesis
    by (auto simp: EndsWithAsciiInsensitive_def dest: suffix_length_le)
next
  case False
  then have le: "length s \<le> length v" by simp
  let ?o = "length v - length s"
  have n: "ToLowerAscii x ! k = ToLowerAsciiCharacter (x ! k)" if "k < length x" for x k
    using that by (simp add: ToLowerAscii_def)
  have "EndsWithAsciiInsensitive v s \<longleftrightarrow>
      (\<forall>k < length s. drop ?o (ToLowerAscii v) ! k = ToLowerAscii s ! k)"
    using le by (simp add: EndsWithAsciiInsensitive_def Let_def n Ball_def)
  also have "\<dots> \<longleftrightarrow> drop ?o (ToLowerAscii v) = ToLowerAscii s"
    using le by (simp add: list_eq_iff_nth_eq)
  also have "\<dots> \<longleftrightarrow> suffix (ToLowerAscii s) (ToLowerAscii v)"
  proof
    assume "drop ?o (ToLowerAscii v) = ToLowerAscii s"
    then show "suffix (ToLowerAscii s) (ToLowerAscii v)" by (metis suffix_drop)
  next
    assume "suffix (ToLowerAscii s) (ToLowerAscii v)"
    then obtain zs where zs: "ToLowerAscii v = zs @ ToLowerAscii s" by (auto simp: suffix_def)
    then have "length v = length zs + length s" by (metis ToLowerAscii_simps(3) length_append)
    with zs show "drop ?o (ToLowerAscii v) = ToLowerAscii s" by simp
  qed
  finally show ?thesis .
qed

section \<open>FilenamePolicy.cpp\<close>

fun TrimTrailingFilenameWhitespace_rev :: "string \<Rightarrow> string" where
  "TrimTrailingFilenameWhitespace_rev [] = []"
| "TrimTrailingFilenameWhitespace_rev (c # cs) =
    (if c = CHR '' '' then TrimTrailingFilenameWhitespace_rev cs else c # cs)"

text \<open>\<open>pop_back\<close> while the last byte is a space: the loop runs over the reversed string.\<close>

definition TrimTrailingFilenameWhitespace :: "string \<Rightarrow> string" where
  "TrimTrailingFilenameWhitespace valueUtf8 = rev (TrimTrailingFilenameWhitespace_rev (rev valueUtf8))"

definition forbidden_filename_char :: "char \<Rightarrow> bool" where
  "forbidden_filename_char ch \<longleftrightarrow>
    ch = CHR 0x5C \<or> ch = CHR ''/'' \<or> ch = CHR '':'' \<or> ch = CHR ''*'' \<or> ch = CHR ''?'' \<or> ch = CHR 0x22
    \<or> ch = CHR ''<'' \<or> ch = CHR ''>'' \<or> ch = CHR ''|'' \<or> byte_of ch < 0x20"

definition SanitizeDownloadFilenameBaseUtf8 :: "string \<Rightarrow> nat \<Rightarrow> string \<Rightarrow> string" where
  "SanitizeDownloadFilenameBaseUtf8 valueUtf8 maxBaseNameBytes fallbackUtf8 =
    (let value1 = map (\<lambda>ch. if forbidden_filename_char ch then CHR ''_'' else ch) valueUtf8;
         value2 = TrimTrailingFilenameWhitespace value1 in
     if value2 = [] then fallbackUtf8
     else
       let value3 =
         (if maxBaseNameBytes > 0 \<and> length value2 > maxBaseNameBytes then
            let resized = take maxBaseNameBytes value2;
                trimmed = (case TryTrimTrailingIncompleteUtf8 resized of Some t \<Rightarrow> t | None \<Rightarrow> resized)
            in TrimTrailingFilenameWhitespace trimmed
          else value2) in
       if value3 = [] then fallbackUtf8 else value3)"

lemma Trim_rev_eq: "TrimTrailingFilenameWhitespace_rev s = dropWhile (\<lambda>c. c = CHR '' '') s"
  by (induction s) auto

lemma TrimTrailing_prefix: "prefix (TrimTrailingFilenameWhitespace s) s"
proof -
  have "suffix (TrimTrailingFilenameWhitespace_rev (rev s)) (rev s)"
    by (simp add: Trim_rev_eq suffix_dropWhile)
  then show ?thesis by (simp add: TrimTrailingFilenameWhitespace_def suffix_to_prefix)
qed

lemma TrimTrailing_last:
  "TrimTrailingFilenameWhitespace s \<noteq> [] \<Longrightarrow> last (TrimTrailingFilenameWhitespace s) \<noteq> CHR '' ''"
  using hd_dropWhile [of "\<lambda>c. c = CHR '' ''" "rev s"]
  by (simp add: TrimTrailingFilenameWhitespace_def Trim_rev_eq last_rev)

lemma TrimTrailing_snoc:
  "TrimTrailingFilenameWhitespace (s @ [c]) = (if c = CHR '' '' then TrimTrailingFilenameWhitespace s else s @ [c])"
  by (simp add: TrimTrailingFilenameWhitespace_def)

text \<open>Trimming spaces and replacing ASCII bytes keep a string valid UTF-8.\<close>

lemma enc_bytes:
  assumes "ch \<in> set (enc cp)" "128 \<le> cp"
  shows "128 \<le> byte_of ch"
  using assms by (auto simp: enc_arith split: if_splits)

lemma TrimTrailing_valid: "IsValidUtf8 s \<Longrightarrow> IsValidUtf8 (TrimTrailingFilenameWhitespace s)"
proof -
  have "list_all scalar cps \<Longrightarrow> IsValidUtf8 (TrimTrailingFilenameWhitespace (utf8 cps))" for cps
  proof (induction cps rule: rev_induct)
    case Nil
    then show ?case using IsValidUtf8_utf8 [of "[]"] by (simp add: TrimTrailingFilenameWhitespace_def)
  next
    case (snoc c cps)
    show ?case
    proof (cases "last (enc c) = CHR '' ''")
      case True
      have "c < 128"
      proof (rule ccontr)
        assume "\<not> c < 128"
        then have "128 \<le> byte_of (last (enc c))"
          using enc_bytes [of "last (enc c)" c] utf8c.encode_nonempty [of c] by simp
        with True show False by simp
      qed
      then have "enc c = [last (enc c)]" by (simp add: enc_arith)
      then have "utf8 (cps @ [c]) = utf8 cps @ [CHR '' '']" using True by simp
      with snoc show ?thesis by (simp add: TrimTrailing_snoc)
    next
      case False
      have "utf8 (cps @ [c]) = (utf8 cps @ butlast (enc c)) @ [last (enc c)]"
        using utf8c.encode_nonempty [of c] by simp
      then have "TrimTrailingFilenameWhitespace (utf8 (cps @ [c])) = utf8 (cps @ [c])"
        using False TrimTrailing_snoc by metis
      then show ?thesis using IsValidUtf8_utf8 [OF snoc.prems] by simp
    qed
  qed
  then show "IsValidUtf8 s \<Longrightarrow> IsValidUtf8 (TrimTrailingFilenameWhitespace s)"
    by (auto simp: IsValidUtf8_iff)
qed

lemma replace_valid:
  assumes "\<And>c. P c \<Longrightarrow> byte_of c < 128" "IsValidUtf8 s"
  shows "IsValidUtf8 (map (\<lambda>ch. if P ch then CHR ''_'' else ch) s)"
proof -
  let ?r = "\<lambda>ch. if P ch then CHR ''_'' else ch"
  have one: "\<exists>d. scalar d \<and> map ?r (enc c) = enc d" if "scalar c" for c
  proof (cases "c < 128")
    case True
    then have e: "enc c = [chr_of c]" by (simp add: enc_arith)
    show ?thesis
    proof (cases "P (chr_of c)")
      case True
      have "enc 95 = ''_''" using char_of_char [of "CHR ''_''", where 'a = nat] by (simp add: enc_arith)
      with True e show ?thesis by (intro exI [of _ 95]) (simp add: scalar_def)
    next
      case False
      with e that show ?thesis by (intro exI [of _ c]) simp
    qed
  next
    case False
    then have "\<not> P ch" if "ch \<in> set (enc c)" for ch
      using enc_bytes [OF that] assms(1) [of ch] by auto
    then have "map ?r (enc c) = enc c" by (simp add: map_idI)
    with that show ?thesis by blast
  qed
  have "list_all scalar cps \<Longrightarrow> \<exists>ds. list_all scalar ds \<and> map ?r (utf8 cps) = utf8 ds" for cps
  proof (induction cps)
    case Nil
    then show ?case by (intro exI [of _ "[]"]) simp
  next
    case (Cons c cps)
    then obtain ds where ds: "list_all scalar ds" "map ?r (utf8 cps) = utf8 ds" by auto
    moreover obtain d where "scalar d" "map ?r (enc c) = enc d" using one [of c] Cons.prems by auto
    ultimately show ?case by (intro exI [of _ "d # ds"]) simp
  qed
  then show ?thesis using assms(2) by (metis IsValidUtf8_iff)
qed

lemma forbidden_ascii: "forbidden_filename_char c \<Longrightarrow> byte_of c < 128"
  by (auto simp: forbidden_filename_char_def)

lemma forbidden_underscore: "\<not> forbidden_filename_char (CHR ''_'')"
  by (simp add: forbidden_filename_char_def)

text \<open>The name before the last emptiness test, and what holds of it on every path.\<close>

lemma Sanitize_cases:
  fixes v fb :: string and m :: nat
  defines "r \<equiv> SanitizeDownloadFilenameBaseUtf8 v m fb"
  defines "v2 \<equiv> TrimTrailingFilenameWhitespace (map (\<lambda>ch. if forbidden_filename_char ch then CHR ''_'' else ch) v)"
  shows "r = fb \<or> r \<noteq> [] \<and> prefix r v2 \<and> last r \<noteq> CHR '' '' \<and> (m > 0 \<longrightarrow> length r \<le> m)
    \<and> (IsValidUtf8 v2 \<longrightarrow> IsValidUtf8 r)"
proof -
  define t where "t = (case TryTrimTrailingIncompleteUtf8 (take m v2) of Some t \<Rightarrow> t | None \<Rightarrow> take m v2)"
  have t: "prefix t (take m v2)" and tv: "IsValidUtf8 v2 \<longrightarrow> IsValidUtf8 t"
    using TryTrim_valid [of "take m v2"] trim_repairs_cut [of v2 m]
    by (auto simp: t_def strict_prefix_def split: option.splits)
  have p: "prefix (TrimTrailingFilenameWhitespace t) v2"
    using TrimTrailing_prefix t take_is_prefix prefix_order.trans by metis
  have "length (TrimTrailingFilenameWhitespace t) \<le> m"
    using TrimTrailing_prefix [of t] t by (auto dest!: prefix_length_le)
  then show ?thesis
    using p tv TrimTrailing_last [of t] TrimTrailing_valid [of t] TrimTrailing_last
    unfolding r_def SanitizeDownloadFilenameBaseUtf8_def Let_def v2_def [symmetric] t_def [symmetric]
    by (auto simp: v2_def)
qed

end
