(* ===== verification/Unicode_Ascii.thy ===== *)
theory Unicode_Ascii
  imports Unicode_Text String_Utils
begin

text \<open>
  ASCII bytes inside UTF-8 text: an ASCII byte is always a code point of its own, so the
  byte-wise routines of the program (replace, split, trim, take while) act on code points
  and never cut through a multi-byte sequence.
\<close>

lemma enc_ascii: "cp < 128 \<Longrightarrow> enc cp = [chr_of cp]"
  by (simp add: enc_arith)

lemma byte_chr_ascii: "cp < 128 \<Longrightarrow> byte_of (chr_of cp) = cp"
  by (simp add: byte_of_chr_of)

lemma scalar_ascii: "cp < 128 \<Longrightarrow> scalar cp"
  by (simp add: scalar_def)

lemma map_utf8:
  assumes "\<And>c. 128 \<le> byte_of c \<Longrightarrow> f c = c" "\<And>c. byte_of c < 128 \<Longrightarrow> byte_of (f c) < 128"
  shows "map f (utf8 ns) = utf8 (map (\<lambda>n. if n < 128 then byte_of (f (chr_of n)) else n) ns)"
proof (induction ns)
  case (Cons n ns)
  have "map f (enc n) = enc (if n < 128 then byte_of (f (chr_of n)) else n)"
  proof (cases "n < 128")
    case True
    have "byte_of (f (chr_of n)) < 128" using assms(2) [of "chr_of n"] True by (simp add: byte_chr_ascii)
    then show ?thesis using True by (simp add: enc_ascii)
  next
    case False
    then have "f c = c" if "c \<in> set (enc n)" for c using assms(1) enc_bytes [OF that] by simp
    then show ?thesis using False by (simp add: map_idI)
  qed
  with Cons show ?case by simp
qed simp

lemma takeWhile_utf8:
  assumes "\<And>c. 128 \<le> byte_of c \<Longrightarrow> P c"
  shows "takeWhile P (utf8 ns) = utf8 (takeWhile (\<lambda>n. n < 128 \<longrightarrow> P (chr_of n)) ns)"
proof (induction ns)
  case (Cons n ns)
  show ?case
  proof (cases "n < 128")
    case True
    with Cons show ?thesis by (simp add: enc_ascii)
  next
    case False
    then have "\<forall>c \<in> set (enc n). P c" using assms enc_bytes by auto
    with False Cons show ?thesis by (simp add: takeWhile_append2)
  qed
qed simp

lemma dropWhile_utf8:
  assumes "\<And>c. P c \<Longrightarrow> byte_of c < 128"
  shows "dropWhile P (utf8 ns) = utf8 (dropWhile (\<lambda>n. n < 128 \<and> P (chr_of n)) ns)"
proof (induction ns)
  case (Cons n ns)
  show ?case
  proof (cases "n < 128")
    case True
    with Cons show ?thesis by (simp add: enc_ascii)
  next
    case False
    obtain c cs where e: "enc n = c # cs" using utf8c.encode_nonempty [of n] by (cases "enc n") auto
    then have "128 \<le> byte_of c" using enc_bytes [of c n] False by simp
    then have "\<not> P c" using assms [of c] by auto
    with False e show ?thesis by simp
  qed
qed simp

lemma dropWhile_rev_utf8:
  assumes "\<And>c. P c \<Longrightarrow> byte_of c < 128"
  shows "rev (dropWhile P (rev (utf8 ns))) = utf8 (rev (dropWhile (\<lambda>n. n < 128 \<and> P (chr_of n)) (rev ns)))"
proof (induction ns rule: rev_induct)
  case (snoc n ns)
  show ?case
  proof (cases "n < 128")
    case True
    with snoc show ?thesis by (simp add: enc_ascii)
  next
    case False
    obtain c cs where e: "rev (enc n) = c # cs" using utf8c.encode_nonempty [of n] by (cases "rev (enc n)") auto
    have "c \<in> set (rev (enc n))" unfolding e by simp
    then have "128 \<le> byte_of c" using enc_bytes [of c n] False by simp
    then have "\<not> P c" using assms [of c] by auto
    have "rev (utf8 (ns @ [n])) = c # cs @ rev (utf8 ns)" using e by simp
    with \<open>\<not> P c\<close> have "dropWhile P (rev (utf8 (ns @ [n]))) = rev (utf8 (ns @ [n]))" by simp
    with False show ?thesis by simp
  qed
qed simp

lemma valid_takeWhile:
  "IsValidUtf8 s \<Longrightarrow> (\<And>c. 128 \<le> byte_of c \<Longrightarrow> P c) \<Longrightarrow> IsValidUtf8 (takeWhile P s)"
  unfolding IsValidUtf8_iff
  by (metis takeWhile_utf8 list_all_iff set_takeWhileD)

lemma valid_dropWhile:
  "IsValidUtf8 s \<Longrightarrow> (\<And>c. P c \<Longrightarrow> byte_of c < 128) \<Longrightarrow> IsValidUtf8 (dropWhile P s)"
  unfolding IsValidUtf8_iff
  by (metis dropWhile_utf8 list_all_iff set_dropWhileD)

lemma valid_dropWhile_rev:
  assumes "IsValidUtf8 s" "\<And>c. P c \<Longrightarrow> byte_of c < 128"
  shows "IsValidUtf8 (rev (dropWhile P (rev s)))"
proof -
  obtain ns where "list_all scalar ns" "s = utf8 ns" using assms(1) by (auto simp: IsValidUtf8_iff)
  moreover have "list_all scalar (rev (dropWhile Q (rev ns)))" if "list_all scalar ns" for Q ns
    using that by (auto simp: list_all_iff dest: set_dropWhileD)
  ultimately show ?thesis using dropWhile_rev_utf8 [OF assms(2)] by simp
qed

lemma valid_append [intro]: "IsValidUtf8 s \<Longrightarrow> IsValidUtf8 t \<Longrightarrow> IsValidUtf8 (s @ t)"
  unfolding IsValidUtf8_iff by (metis list_all_append utf8_simps(3))

lemma valid_Nil [simp]: "IsValidUtf8 []"
  using IsValidUtf8_utf8 [of "[]"] by simp

lemma valid_ascii: "(\<And>c. c \<in> set s \<Longrightarrow> byte_of c < 128) \<Longrightarrow> IsValidUtf8 s"
proof (induction s)
  case (Cons c s)
  have "enc (byte_of c) = [c]" using Cons.prems by (simp add: enc_ascii)
  then have "IsValidUtf8 [c]"
    using IsValidUtf8_utf8 [of "[byte_of c]"] scalar_ascii [of "byte_of c"] Cons.prems by simp
  with Cons valid_append [of "[c]" s] show ?case by simp
qed simp

lemma valid_after_ascii:
  "byte_of c < 128 \<Longrightarrow> IsValidUtf8 (c # s) \<longleftrightarrow> IsValidUtf8 s"
proof
  assume c: "byte_of c < 128"
  have e: "enc (byte_of c) = [c]" using c by (simp add: enc_ascii)
  assume "IsValidUtf8 (c # s)"
  then obtain ns where ns: "list_all scalar ns" "c # s = utf8 ns" by (auto simp: IsValidUtf8_iff)
  then obtain n ms where ms: "ns = n # ms" by (cases ns) auto
  then have "enc (byte_of c) @ s = enc n @ utf8 ms" using ns e by simp
  then have "s = utf8 ms"
    using utf8c.encode_prefix_free [of "byte_of c" n s "utf8 ms"] scalar_ascii [OF c] ns ms by simp
  with ns ms show "IsValidUtf8 s" by simp
next
  assume c: "byte_of c < 128" and s: "IsValidUtf8 s"
  then have "IsValidUtf8 [c]" by (intro valid_ascii) simp
  with s valid_append [of "[c]" s] show "IsValidUtf8 (c # s)" by simp
qed

end
