(* ===== verification/Metadata_Normalization.thy ===== *)
theory Metadata_Normalization
  imports Unicode_Ascii
begin

text \<open>
  \<open>libs/Domain/MetadataNormalization.cpp\<close>: the search key of a text (\<open>NormalizeText\<close>) and the
  canonical form of an ISBN (\<open>NormalizeIsbn\<close>).
\<close>

section \<open>NormalizeText\<close>

definition InvalidUtf8Sentinel :: string where
  "InvalidUtf8Sentinel = [CHR 0xEE, CHR 0x80, CHR 0x80]"

definition InvalidUtf8Prefix :: string where
  "InvalidUtf8Prefix = ''invalid-utf8:''"

definition EscapeValidTextForNormalizationKey :: "string \<Rightarrow> string" where
  "EscapeValidTextForNormalizationKey normalized =
    (if \<not> prefix InvalidUtf8Sentinel normalized then normalized else InvalidUtf8Sentinel @ normalized)"

definition HexDigits :: string where
  "HexDigits = ''0123456789abcdef''"

definition EncodeInvalidUtf8ForNormalization :: "string \<Rightarrow> string" where
  "EncodeInvalidUtf8ForNormalization value =
    foldl (\<lambda>encoded ch. encoded @ [HexDigits ! drop_bit 4 (byte_of ch), HexDigits ! (byte_of ch AND 0x0F)])
      (InvalidUtf8Sentinel @ InvalidUtf8Prefix) value"

definition NormalizeText :: "string \<Rightarrow> string" where
  "NormalizeText value =
    (case TryNormalizeUtf8WhitespaceAndCaseFold value of
       Some normalized \<Rightarrow> EscapeValidTextForNormalizationKey normalized
     | None \<Rightarrow> EncodeInvalidUtf8ForNormalization value)"

section \<open>NormalizeIsbn\<close>

definition isdigit :: "char \<Rightarrow> bool" where
  "isdigit c \<longleftrightarrow> 48 \<le> byte_of c \<and> byte_of c \<le> 57"

text \<open>The loop of \<open>IsValidIsbn10Checksum\<close>; \<open>None\<close> is its early \<open>return false\<close>.\<close>

fun isbn10_sum :: "string \<Rightarrow> nat \<Rightarrow> nat list \<Rightarrow> nat option" where
  "isbn10_sum value acc [] = Some acc"
| "isbn10_sum value acc (index # rest) =
    (if index = length value - 1 \<and> value ! index = CHR ''X''
     then isbn10_sum value (acc + 10 * (10 - index)) rest
     else if isdigit (value ! index)
     then isbn10_sum value (acc + (byte_of (value ! index) - 48) * (10 - index)) rest
     else None)"

definition IsValidIsbn10Checksum :: "string \<Rightarrow> bool" where
  "IsValidIsbn10Checksum value =
    (if length value \<noteq> 10 then False
     else case isbn10_sum value 0 [0..<length value] of
            None \<Rightarrow> False
          | Some acc \<Rightarrow> acc mod 11 = 0)"

definition IsValidIsbn13Checksum :: "string \<Rightarrow> bool" where
  "IsValidIsbn13Checksum value =
    (if length value \<noteq> 13 \<or> \<not> list_all isdigit value then False
     else
       let weightedSum = foldl (\<lambda>acc index. acc + (byte_of (value ! index) - 48) * (if index mod 2 = 0 then 1 else 3))
                           0 [0..<12];
           expectedCheckDigit = (10 - weightedSum mod 10) mod 10
       in expectedCheckDigit = byte_of (value ! 12) - 48)"

definition isbn_filter :: "string \<Rightarrow> string" where
  "isbn_filter value =
    foldl (\<lambda>normalized ch.
        if isdigit ch then normalized @ [ch]
        else if ch = CHR ''x'' \<or> ch = CHR ''X'' then normalized @ ''X''
        else normalized)
      [] value"

definition NormalizeIsbn :: "string option \<Rightarrow> string option" where
  "NormalizeIsbn value =
    (case value of
       None \<Rightarrow> None
     | Some text \<Rightarrow>
         if \<not> IsValidUtf8 text then None
         else
           let normalized = isbn_filter text in
           if length normalized = 10 then
             (if IsValidIsbn10Checksum normalized then Some normalized else None)
           else if length normalized = 13 then
             (if IsValidIsbn13Checksum normalized then Some normalized else None)
           else None)"

section \<open>Search keys are injective on what they must keep apart\<close>

lemma hex_pair_inj:
  assumes "HexDigits ! drop_bit 4 (byte_of a) = HexDigits ! drop_bit 4 (byte_of b)"
    and "HexDigits ! (byte_of a AND 0x0F) = HexDigits ! (byte_of b AND 0x0F)"
  shows "a = b"
proof -
  have d: "distinct HexDigits" "length HexDigits = 16" by (simp_all add: HexDigits_def)
  have lt: "byte_of c div 16 < 16" for c using byte_of_less [of c] by linarith
  have "byte_of a div 16 = byte_of b div 16"
    using assms(1) d lt by (simp add: drop_bit_eq_div nth_eq_iff_index_eq)
  moreover have "byte_of a mod 16 = byte_of b mod 16"
    using assms(2) d by (simp add: and_0x0F nth_eq_iff_index_eq)
  ultimately have "byte_of a = byte_of b" by (metis div_mult_mod_eq)
  then show ?thesis by (simp add: byte_of_eq_iff)
qed

definition hexes :: "string \<Rightarrow> string" where
  "hexes v = concat (map (\<lambda>ch. [HexDigits ! drop_bit 4 (byte_of ch), HexDigits ! (byte_of ch AND 0x0F)]) v)"

lemma Encode_hexes: "EncodeInvalidUtf8ForNormalization v = InvalidUtf8Sentinel @ InvalidUtf8Prefix @ hexes v"
proof -
  have "foldl (\<lambda>e ch. e @ [HexDigits ! drop_bit 4 (byte_of ch), HexDigits ! (byte_of ch AND 0x0F)]) acc v
      = acc @ hexes v" for acc
    by (induction v arbitrary: acc) (simp_all add: hexes_def)
  then show ?thesis by (simp add: EncodeInvalidUtf8ForNormalization_def)
qed

lemma hexes_inj: "hexes a = hexes b \<Longrightarrow> a = b"
proof (induction a arbitrary: b)
  case Nil
  then show ?case by (cases b) (simp_all add: hexes_def)
next
  case (Cons x a)
  then obtain y b' where b: "b = y # b'" by (cases b) (auto simp: hexes_def)
  with Cons.prems have "x = y" "hexes a = hexes b'"
    by (auto simp: hexes_def intro: hex_pair_inj)
  with Cons.IH b show ?case by simp
qed

lemma Escape_inj: "EscapeValidTextForNormalizationKey a = EscapeValidTextForNormalizationKey b \<Longrightarrow> a = b"
  by (auto simp: EscapeValidTextForNormalizationKey_def split: if_splits)

text \<open>A key of valid text never looks like a key of invalid bytes.\<close>

lemma Escape_not_Encode: "EscapeValidTextForNormalizationKey a \<noteq> EncodeInvalidUtf8ForNormalization b"
proof
  assume e: "EscapeValidTextForNormalizationKey a = EncodeInvalidUtf8ForNormalization b"
  then have "prefix InvalidUtf8Sentinel (EscapeValidTextForNormalizationKey a)" by (simp add: Encode_hexes)
  then have p: "prefix InvalidUtf8Sentinel a"
    by (auto simp: EscapeValidTextForNormalizationKey_def split: if_splits)
  with e have "a = InvalidUtf8Prefix @ hexes b"
    by (simp add: EscapeValidTextForNormalizationKey_def Encode_hexes)
  with p show False by (simp add: InvalidUtf8Sentinel_def InvalidUtf8Prefix_def)
qed

lemma NormalizeText_eq_iff:
  "NormalizeText a = NormalizeText b \<longleftrightarrow>
    (IsValidUtf8 a \<and> IsValidUtf8 b \<and>
       TryNormalizeUtf8WhitespaceAndCaseFold a = TryNormalizeUtf8WhitespaceAndCaseFold b)
    \<or> (\<not> IsValidUtf8 a \<and> \<not> IsValidUtf8 b \<and> a = b)"
proof -
  have v: "IsValidUtf8 x \<longleftrightarrow> (\<exists>t. TryNormalizeUtf8WhitespaceAndCaseFold x = Some t)" for x
    using TryNormalize_None_iff [of x] by (metis not_None_eq)
  show ?thesis
  proof (cases "TryNormalizeUtf8WhitespaceAndCaseFold a"; cases "TryNormalizeUtf8WhitespaceAndCaseFold b")
    assume "TryNormalizeUtf8WhitespaceAndCaseFold a = None" "TryNormalizeUtf8WhitespaceAndCaseFold b = None"
    then show ?thesis using hexes_inj [of a b] by (auto simp: v NormalizeText_def Encode_hexes)
  next
    fix t assume "TryNormalizeUtf8WhitespaceAndCaseFold a = None" "TryNormalizeUtf8WhitespaceAndCaseFold b = Some t"
    then show ?thesis using Escape_not_Encode [of t a] by (auto simp: v NormalizeText_def)
  next
    fix t assume "TryNormalizeUtf8WhitespaceAndCaseFold a = Some t" "TryNormalizeUtf8WhitespaceAndCaseFold b = None"
    then show ?thesis using Escape_not_Encode [of t b] by (auto simp: v NormalizeText_def)
  next
    fix t u assume "TryNormalizeUtf8WhitespaceAndCaseFold a = Some t" "TryNormalizeUtf8WhitespaceAndCaseFold b = Some u"
    then show ?thesis using Escape_inj [of t u] by (auto simp: v NormalizeText_def)
  qed
qed

section \<open>ISBN check digits\<close>

definition isbn_digit :: "char \<Rightarrow> nat" where
  "isbn_digit c = byte_of c - 48"

lemma isbn_filter_eq: "isbn_filter v = map (\<lambda>c. if isdigit c then c else CHR ''X'')
    (filter (\<lambda>c. isdigit c \<or> c = CHR ''x'' \<or> c = CHR ''X'') v)"
proof -
  have "foldl (\<lambda>n ch. if isdigit ch then n @ [ch]
        else if ch = CHR ''x'' \<or> ch = CHR ''X'' then n @ ''X'' else n) acc v
      = acc @ map (\<lambda>c. if isdigit c then c else CHR ''X'')
          (filter (\<lambda>c. isdigit c \<or> c = CHR ''x'' \<or> c = CHR ''X'') v)" for acc
    by (induction v arbitrary: acc) auto
  then show ?thesis by (simp add: isbn_filter_def)
qed

lemma isdigit_X: "\<not> isdigit (CHR ''X'')"
  by (simp add: isdigit_def)

lemma isbn_filter_chars: "c \<in> set (isbn_filter v) \<Longrightarrow> isdigit c \<or> c = CHR ''X''"
  by (auto simp: isbn_filter_eq split: if_splits)

lemma isbn_filter_fixed: "(\<And>c. c \<in> set s \<Longrightarrow> isdigit c \<or> c = CHR ''X'') \<Longrightarrow> isbn_filter s = s"
  unfolding isbn_filter_eq by (induction s) (auto simp: isdigit_X)

lemma NormalizeIsbn_Some:
  assumes "NormalizeIsbn (Some v) = Some s"
  shows "s = isbn_filter v" "length s = 10 \<and> IsValidIsbn10Checksum s \<or> length s = 13 \<and> IsValidIsbn13Checksum s"
  using assms by (auto simp: NormalizeIsbn_def Let_def split: if_splits)

lemma NormalizeIsbn_canonical: "NormalizeIsbn (Some v) = Some s \<Longrightarrow> NormalizeIsbn (Some s) = Some s"
proof -
  assume n: "NormalizeIsbn (Some v) = Some s"
  have c: "isdigit c \<or> c = CHR ''X''" if "c \<in> set s" for c
    using that NormalizeIsbn_Some(1) [OF n] isbn_filter_chars by simp
  have f: "isbn_filter s = s" by (rule isbn_filter_fixed) (rule c)
  have "IsValidUtf8 s"
  proof (rule valid_ascii)
    fix x assume "x \<in> set s"
    from c [OF this] show "byte_of x < 128" by (elim disjE) (simp_all add: isdigit_def)
  qed
  with NormalizeIsbn_Some(2) [OF n] f show ?thesis by (auto simp: NormalizeIsbn_def)
qed

text \<open>A weighted checksum whose weights are coprime to the modulus detects one wrong digit.\<close>

lemma weighted_sum_detects:
  fixes f g w :: "nat \<Rightarrow> nat"
  assumes k: "k < n" and agree: "\<And>i. i \<noteq> k \<Longrightarrow> f i = g i" and cop: "coprime (w k) m"
    and lt: "f k < m" "g k < m"
    and f: "(\<Sum>i<n. w i * f i) mod m = 0" and g: "(\<Sum>i<n. w i * g i) mod m = 0"
  shows "f k = g k"
proof -
  define A where "A = (\<Sum>i \<in> {..<n} - {k}. w i * f i)"
  have A': "(\<Sum>i \<in> {..<n} - {k}. w i * g i) = A"
    unfolding A_def by (rule sum.cong) (simp_all add: agree)
  have fs: "(\<Sum>i<n. w i * f i) = w k * f k + A"
    unfolding A_def using k by (intro sum.remove) simp_all
  have gs: "(\<Sum>i<n. w i * g i) = w k * g k + A"
    unfolding A' [symmetric] using k by (intro sum.remove) simp_all
  have "m dvd w k * f k + A" "m dvd w k * g k + A"
    using f g unfolding fs gs by (simp_all only: mod_eq_0_iff_dvd)
  then have "int m dvd int (w k * f k + A)" "int m dvd int (w k * g k + A)"
    by (simp_all only: int_dvd_int_iff)
  then have "int m dvd int (w k * f k + A) - int (w k * g k + A)" by (rule dvd_diff)
  also have "int (w k * f k + A) - int (w k * g k + A) = int (w k) * (int (f k) - int (g k))"
    by (simp add: algebra_simps)
  finally have "int m dvd int (f k) - int (g k)"
    using cop by (simp only: coprime_dvd_mult_right_iff coprime_int_iff coprime_commute)
  then have "f k = g k \<or> int m \<le> \<bar>int (f k) - int (g k)\<bar>"
    using dvd_imp_le_int [of "int (f k) - int (g k)" "int m"] by linarith
  with lt show ?thesis by linarith
qed

definition isbn10_value :: "string \<Rightarrow> nat \<Rightarrow> nat" where
  "isbn10_value s i = (if i = length s - 1 \<and> s ! i = CHR ''X'' then 10 else isbn_digit (s ! i))"

lemma isbn10_sum_eq:
  "isbn10_sum s acc is = Some t \<longleftrightarrow>
    (\<forall>i \<in> set is. i = length s - 1 \<and> s ! i = CHR ''X'' \<or> isdigit (s ! i))
    \<and> t = acc + sum_list (map (\<lambda>i. (10 - i) * isbn10_value s i) is)"
  by (induction s acc "is" rule: isbn10_sum.induct)
    (auto simp: isbn10_value_def isbn_digit_def isdigit_X mult.commute)

lemma isbn10_iff:
  "IsValidIsbn10Checksum s \<longleftrightarrow> length s = 10
    \<and> (\<forall>i < 10. i = 9 \<and> s ! i = CHR ''X'' \<or> isdigit (s ! i))
    \<and> (\<Sum>i<10. (10 - i) * isbn10_value s i) mod 11 = 0"
proof (cases "length s = 10")
  case True
  have "sum_list (map (\<lambda>i. (10 - i) * isbn10_value s i) [0..<10]) = (\<Sum>i<10. (10 - i) * isbn10_value s i)"
    by (simp add: interv_sum_list_conv_sum_set_nat atLeast0LessThan)
  with True have iff: "isbn10_sum s 0 [0..<10] = Some t \<longleftrightarrow>
      (\<forall>i < 10. i = 9 \<and> s ! i = CHR ''X'' \<or> isdigit (s ! i)) \<and> t = (\<Sum>i<10. (10 - i) * isbn10_value s i)" for t
    using isbn10_sum_eq [of s 0 "[0..<10]" t] by (simp add: Ball_def)
  show ?thesis
  proof (cases "isbn10_sum s 0 [0..<10]")
    case None
    then have "\<not> (\<forall>i < 10. i = 9 \<and> s ! i = CHR ''X'' \<or> isdigit (s ! i))" using iff by fastforce
    with None True show ?thesis unfolding IsValidIsbn10Checksum_def by simp
  next
    case (Some t)
    then show ?thesis using iff [of t] True unfolding IsValidIsbn10Checksum_def by simp
  qed
qed (simp add: IsValidIsbn10Checksum_def)

lemma isbn_digit_lt: "isdigit c \<Longrightarrow> isbn_digit c < 10"
  unfolding isdigit_def isbn_digit_def by linarith

lemma isbn_digit_inj:
  assumes "isdigit c" "isdigit d" "isbn_digit c = isbn_digit d"
  shows "c = d"
proof -
  have "byte_of c = byte_of d" using assms unfolding isdigit_def isbn_digit_def by linarith
  then show ?thesis by (simp only: byte_of_eq_iff)
qed

lemma isbn10_value_lt:
  "i = length s - 1 \<and> s ! i = CHR ''X'' \<or> isdigit (s ! i) \<Longrightarrow> isbn10_value s i < 11"
  unfolding isbn10_value_def by (elim disjE conjE) (simp, use isbn_digit_lt [of "s ! i"] in simp)

lemma isbn10_value_inj:
  assumes l: "length s = length t"
    and s: "i = length s - 1 \<and> s ! i = CHR ''X'' \<or> isdigit (s ! i)"
    and t: "i = length t - 1 \<and> t ! i = CHR ''X'' \<or> isdigit (t ! i)"
    and e: "isbn10_value s i = isbn10_value t i"
  shows "s ! i = t ! i"
proof (cases "isdigit (s ! i)"; cases "isdigit (t ! i)")
  assume d: "isdigit (s ! i)" "isdigit (t ! i)"
  then have "s ! i \<noteq> CHR ''X''" "t ! i \<noteq> CHR ''X''" using isdigit_X by metis+
  then have "isbn_digit (s ! i) = isbn_digit (t ! i)" using e unfolding isbn10_value_def by simp
  with d show ?thesis by (rule isbn_digit_inj)
next
  assume d: "isdigit (s ! i)" "\<not> isdigit (t ! i)"
  then have "s ! i \<noteq> CHR ''X''" using isdigit_X by metis
  moreover from t d have "i = length t - 1" "t ! i = CHR ''X''" by blast+
  ultimately have "isbn_digit (s ! i) = 10" using e unfolding isbn10_value_def by simp
  then show ?thesis using isbn_digit_lt [OF d(1)] by simp
next
  assume d: "\<not> isdigit (s ! i)" "isdigit (t ! i)"
  then have "t ! i \<noteq> CHR ''X''" using isdigit_X by metis
  moreover from s d have "i = length s - 1" "s ! i = CHR ''X''" by blast+
  ultimately have "isbn_digit (t ! i) = 10" using e unfolding isbn10_value_def by simp
  then show ?thesis using isbn_digit_lt [OF d(2)] by simp
next
  assume "\<not> isdigit (s ! i)" "\<not> isdigit (t ! i)"
  with s t have "s ! i = CHR ''X''" "t ! i = CHR ''X''" by blast+
  then show ?thesis by simp
qed

lemma coprime_11: "k < 10 \<Longrightarrow> coprime (10 - k) (11::nat)"
proof -
  assume "k < 10"
  then have "k \<in> {0, 1, 2, 3, 4, 5, 6, 7, 8, 9}" by (auto simp: numeral_eq_Suc less_Suc_eq)
  then show ?thesis
    by (elim insertE emptyE) (simp_all add: coprime_iff_gcd_eq_1 gcd_nat.simps [of _ "Suc _"] gcd_nat.simps [of _ "numeral _"])
qed

lemma isbn10_detects_error:
  assumes "IsValidIsbn10Checksum s" "IsValidIsbn10Checksum (s[k := c])" "k < 10"
  shows "c = s ! k"
proof -
  define t where "t = s[k := c]"
  note s = assms(1) [unfolded isbn10_iff] and t = assms(2) [folded t_def, unfolded isbn10_iff]
  have l: "length s = 10" "length t = 10" using s t by blast+
  have "k = 9 \<and> s ! k = CHR ''X'' \<or> isdigit (s ! k)" "k = 9 \<and> t ! k = CHR ''X'' \<or> isdigit (t ! k)"
    using s t assms(3) by blast+
  then have ok: "k = length s - 1 \<and> s ! k = CHR ''X'' \<or> isdigit (s ! k)"
    "k = length t - 1 \<and> t ! k = CHR ''X'' \<or> isdigit (t ! k)"
    unfolding l by simp_all
  have "isbn10_value s k = isbn10_value t k"
  proof (rule weighted_sum_detects [where w = "\<lambda>i. 10 - i" and m = 11 and n = 10
        and f = "isbn10_value s" and g = "isbn10_value t"])
    show "isbn10_value s i = isbn10_value t i" if "i \<noteq> k" for i
      using that by (simp only: isbn10_value_def t_def nth_list_update_neq length_list_update not_False_eq_True)
    show "isbn10_value s k < 11" "isbn10_value t k < 11"
      using ok by (simp_all only: isbn10_value_lt)
    show "coprime (10 - k) (11::nat)" using assms(3) by (rule coprime_11)
    show "(\<Sum>i<10. (10 - i) * isbn10_value s i) mod 11 = 0" using s by blast
    show "(\<Sum>i<10. (10 - i) * isbn10_value t i) mod 11 = 0" using t by blast
  qed (rule assms(3))
  then have "s ! k = t ! k" using ok l by (intro isbn10_value_inj) simp_all
  then show ?thesis using assms(3) l by (simp add: t_def)
qed

definition isbn13_weight :: "nat \<Rightarrow> nat" where
  "isbn13_weight i = (if i mod 2 = 0 then 1 else 3)"

lemma check_digit_mod10:
  assumes "d < 10"
  shows "(10 - w mod 10) mod 10 = d \<longleftrightarrow> (w + d) mod 10 = (0::nat)"
proof -
  define r where "r = w mod 10"
  have "(w + d) mod 10 = (r + d) mod 10" unfolding r_def by (simp only: mod_add_left_eq)
  moreover have "r < 10" by (simp add: r_def)
  ultimately show ?thesis using assms unfolding r_def [symmetric]
    by (cases "r = 0"; cases "r + d < 10") (auto simp: le_mod_geq)
qed

lemma isbn13_iff:
  "IsValidIsbn13Checksum s \<longleftrightarrow> length s = 13 \<and> list_all isdigit s
    \<and> (\<Sum>i<13. isbn13_weight i * isbn_digit (s ! i)) mod 10 = 0"
proof (cases "length s = 13 \<and> list_all isdigit s")
  case True
  have f: "foldl (\<lambda>a i. a + g i) b is = b + sum_list (map g is)" for g :: "nat \<Rightarrow> nat" and b "is"
    by (induction "is" arbitrary: b) auto
  define w where "w = (\<Sum>i<12. isbn13_weight i * isbn_digit (s ! i))"
  have "foldl (\<lambda>acc i. acc + (byte_of (s ! i) - 48) * (if i mod 2 = 0 then 1 else 3)) 0 [0..<12] = w"
    by (simp only: f) (simp only: w_def interv_sum_list_conv_sum_set_nat atLeast0LessThan isbn13_weight_def
        isbn_digit_def add_0 mult.commute set_upt)
  moreover have "(\<Sum>i<13. isbn13_weight i * isbn_digit (s ! i)) = w + isbn_digit (s ! 12)"
    using sum.lessThan_Suc [of "\<lambda>i. isbn13_weight i * isbn_digit (s ! i)" 12]
    by (simp add: w_def isbn13_weight_def)
  moreover have "isbn_digit (s ! 12) < 10"
    using True by (intro isbn_digit_lt) (simp add: list_all_length)
  ultimately show ?thesis
    using True check_digit_mod10 [of "isbn_digit (s ! 12)" w]
    by (simp add: IsValidIsbn13Checksum_def isbn_digit_def)
qed (auto simp: IsValidIsbn13Checksum_def)

lemma isbn13_detects_error:
  assumes "IsValidIsbn13Checksum s" "IsValidIsbn13Checksum (s[k := c])" "k < 13"
  shows "c = s ! k"
proof -
  note s = assms(1) [unfolded isbn13_iff] and t = assms(2) [unfolded isbn13_iff]
  have ok: "isdigit (s ! k)" "isdigit (s[k := c] ! k)"
    using s t assms(3) by (simp_all only: list_all_length)
  have cop: "coprime (isbn13_weight k) (10::nat)"
    by (simp add: isbn13_weight_def coprime_iff_gcd_eq_1 gcd_nat.simps)
  have "isbn_digit (s ! k) = isbn_digit (s[k := c] ! k)"
    by (rule weighted_sum_detects [where w = isbn13_weight and m = 10 and n = 13
          and f = "\<lambda>i. isbn_digit (s ! i)" and g = "\<lambda>i. isbn_digit (s[k := c] ! i)"])
      (use s t assms(3) cop isbn_digit_lt [OF ok(1)] isbn_digit_lt [OF ok(2)] in simp_all)
  with ok have "s ! k = s[k := c] ! k" by (rule isbn_digit_inj)
  then show ?thesis using s assms(3) by simp
qed

end
