(* ===== verification/Language_Normalization.thy ===== *)
theory Language_Normalization
  imports Unicode_Ascii
begin

text \<open>
  \<open>libs/Domain/LanguageNormalization.cpp\<close>: the alias table, the known primary codes and
  \<open>NormalizeLanguage\<close>. String literals of the source that are not ASCII are written as their
  UTF-8 bytes.
\<close>

definition GLanguageAliases :: "(string \<times> string) list" where
  "GLanguageAliases =
    [('''', ''''), (''und'', ''''), (''ru'', ''ru''), (''rus'', ''ru''), (''russian'', ''ru''),
     ([CHR 0xD1, CHR 0x80, CHR 0xD1, CHR 0x83, CHR 0xD1, CHR 0x81, CHR 0xD1, CHR 0x81, CHR 0xD0, CHR 0xBA, CHR 0xD0, CHR 0xB8, CHR 0xD0, CHR 0xB9], ''ru''),
     ([CHR 0xD1, CHR 0x80, CHR 0xD1, CHR 0x83], ''ru''), (''en'', ''en''), (''eng'', ''en''),
     (''english'', ''en''), (''uk'', ''uk''), (''ukr'', ''uk''), (''ua'', ''uk''),
     (''ukrain'', ''uk''), (''ukrian'', ''uk''), (''urkain'', ''uk''), (''bg'', ''bg''),
     (''bul'', ''bg''),
     ([CHR 0xD0, CHR 0xB1, CHR 0xD1, CHR 0x8A, CHR 0xD0, CHR 0xBB, CHR 0xD0, CHR 0xB3, CHR 0xD0, CHR 0xB0, CHR 0xD1, CHR 0x80, CHR 0xD1, CHR 0x81, CHR 0xD0, CHR 0xBA, CHR 0xD0, CHR 0xB8], ''bg''),
     (''be'', ''be''), (''bel'', ''be''), (''es'', ''es''), (''spa'', ''es''), (''sp'', ''es''),
     (''fr'', ''fr''), (''fra'', ''fr''), (''fre'', ''fr''), (''de'', ''de''), (''deu'', ''de''),
     (''ger'', ''de''), (''it'', ''it''), (''ita'', ''it''), (''nl'', ''nl''), (''nld'', ''nl''),
     (''dut'', ''nl''), (''pl'', ''pl''), (''pol'', ''pl''), (''cs'', ''cs''), (''ces'', ''cs''),
     (''cze'', ''cs''), (''cz'', ''cs''), (''da'', ''da''), (''dan'', ''da''), (''zh'', ''zh''),
     (''zho'', ''zh''), (''chi'', ''zh''), (''chinese'', ''zh''), (''ja'', ''ja''),
     (''jpn'', ''ja''), (''jp'', ''ja''), (''id'', ''id''), (''ind'', ''id''), (''in'', ''id''),
     (''kk'', ''kk''), (''kaz'', ''kk''), (''kz'', ''kk''), (''pt'', ''pt''), (''por'', ''pt''),
     (''ro'', ''ro''), (''ron'', ''ro''), (''rum'', ''ro''), (''tk'', ''tk''), (''tuk'', ''tk''),
     (''turkmen'', ''tk''), (''pa'', ''pa''), (''pan'', ''pa''), (''pentjab'', ''pa'')]"

definition GKnownPrimaryCodes :: "string list" where
  "GKnownPrimaryCodes =
    [''ab'', ''ang'', ''ar'', ''as'', ''az'', ''ba'', ''be'', ''bg'', ''ca'', ''cs'', ''cu'',
     ''cv'', ''da'', ''de'', ''el'', ''en'', ''eo'', ''es'', ''et'', ''eu'', ''fa'', ''fi'',
     ''fr'', ''frm'', ''ga'', ''gd'', ''he'', ''hi'', ''hr'', ''hu'', ''hy'', ''ia'', ''id'',
     ''is'', ''it'', ''ja'', ''ka'', ''kk'', ''la'', ''lt'', ''lv'', ''mn'', ''nl'', ''no'',
     ''pa'', ''pl'', ''pt'', ''ro'', ''ru'', ''sa'', ''sh'', ''sk'', ''sq'', ''sr'', ''sv'',
     ''tg'', ''tk'', ''tr'', ''tt'', ''uk'', ''uz'', ''vi'', ''zh'']"

definition IsKnownPrimaryCode :: "string \<Rightarrow> bool" where
  "IsKnownPrimaryCode value \<longleftrightarrow> value \<in> set GKnownPrimaryCodes"

definition TryResolveAlias :: "string \<Rightarrow> string option" where
  "TryResolveAlias value = map_option snd (find (\<lambda>alias. fst alias = value) GLanguageAliases)"

definition ReplaceAscii :: "string \<Rightarrow> char \<Rightarrow> char \<Rightarrow> string" where
  "ReplaceAscii value old new = map (\<lambda>c. if c = old then new else c) value"

definition FirstListToken :: "string \<Rightarrow> string" where
  "FirstListToken value = takeWhile (\<lambda>c. c \<notin> set '',;/+'') value"

text \<open>The code after the second normalisation, on the normalised tag.\<close>

definition resolve_language :: "string \<Rightarrow> string" where
  "resolve_language normalized =
    (case TryResolveAlias normalized of
       Some alias \<Rightarrow> alias
     | None \<Rightarrow>
         if CHR ''-'' \<in> set normalized then
           (let primary = takeWhile (\<lambda>c. c \<noteq> CHR ''-'') normalized in
            case TryResolveAlias primary of
              Some alias \<Rightarrow> alias
            | None \<Rightarrow>
                if IsKnownPrimaryCode primary then primary
                else if IsKnownPrimaryCode normalized then normalized else normalized)
         else if IsKnownPrimaryCode normalized then normalized else normalized)"

definition NormalizeLanguage :: "string \<Rightarrow> string" where
  "NormalizeLanguage languageUtf8 =
    (case TryNormalizeUtf8WhitespaceAndCaseFold languageUtf8 of
       None \<Rightarrow> languageUtf8
     | Some normalized1 \<Rightarrow>
         let normalized2 = FirstListToken (ReplaceAscii normalized1 (CHR ''_'') (CHR ''-'')) in
         case TryNormalizeUtf8WhitespaceAndCaseFold normalized2 of
           None \<Rightarrow> languageUtf8
         | Some normalized3 \<Rightarrow> resolve_language (ReplaceAscii normalized3 (CHR ''_'') (CHR ''-'')))"

section \<open>Tags in normal form\<close>

definition tag_separators :: "codepoint list" where
  "tag_separators = [44, 59, 47, 43]"

definition clean_tag :: "string \<Rightarrow> bool" where
  "clean_tag x \<longleftrightarrow> (\<exists>ns. list_all scalar ns \<and> normal True ns \<and> strip_space ns = ns \<and> x = utf8 ns
     \<and> 95 \<notin> set ns \<and> set ns \<inter> set tag_separators = {})"

lemma chr_literals:
  "chr_of 95 = CHR ''_''" "chr_of 45 = CHR ''-''" "chr_of 44 = CHR '',''" "chr_of 59 = CHR '';''"
  "chr_of 47 = CHR ''/''" "chr_of 43 = CHR ''+''"
  using char_of_char [of "CHR ''_''", where 'a = nat] char_of_char [of "CHR ''-''", where 'a = nat]
    char_of_char [of "CHR '',''", where 'a = nat] char_of_char [of "CHR '';''", where 'a = nat]
    char_of_char [of "CHR ''/''", where 'a = nat] char_of_char [of "CHR ''+''", where 'a = nat]
  by simp_all

lemma chr_of_eq_literal:
  "n < 128 \<Longrightarrow> chr_of n = CHR ''_'' \<longleftrightarrow> n = 95"
  "n < 128 \<Longrightarrow> chr_of n \<in> set '',;/+'' \<longleftrightarrow> n \<in> set tag_separators"
  using chr_of_eq_iff [of n] by (auto simp: tag_separators_def simp flip: chr_literals)

lemma Replace_utf8:
  "ReplaceAscii (utf8 ns) (CHR ''_'') (CHR ''-'') = utf8 (map (\<lambda>n. if n = 95 then 45 else n) ns)"
proof -
  have "map (\<lambda>c. if c = CHR ''_'' then CHR ''-'' else c) (utf8 ns)
      = utf8 (map (\<lambda>n. if n < 128 then byte_of (if chr_of n = CHR ''_'' then CHR ''-'' else chr_of n) else n) ns)"
    by (rule map_utf8) auto
  also have "map (\<lambda>n. if n < 128 then byte_of (if chr_of n = CHR ''_'' then CHR ''-'' else chr_of n) else n) ns
      = map (\<lambda>n. if n = 95 then 45 else n) ns"
    by (rule map_cong) (auto simp: chr_of_eq_literal byte_chr_ascii)
  finally show ?thesis by (simp add: ReplaceAscii_def)
qed

lemma FirstListToken_utf8: "FirstListToken (utf8 ns) = utf8 (takeWhile (\<lambda>n. n \<notin> set tag_separators) ns)"
proof -
  have "takeWhile (\<lambda>c. c \<notin> set '',;/+'') (utf8 ns)
      = utf8 (takeWhile (\<lambda>n. n < 128 \<longrightarrow> chr_of n \<notin> set '',;/+'') ns)"
    by (rule takeWhile_utf8) auto
  also have "takeWhile (\<lambda>n. n < 128 \<longrightarrow> chr_of n \<notin> set '',;/+'') ns = takeWhile (\<lambda>n. n \<notin> set tag_separators) ns"
    by (rule takeWhile_cong) (auto simp: chr_of_eq_literal(2) simp del: set_simps, auto simp: tag_separators_def)
  finally show ?thesis by (simp add: FirstListToken_def)
qed

lemma fold_hyphen: "fold1 45 = [45]" "\<not> IsUnicodeWhitespace 45"
  by (simp_all add: fold1_def CaseFoldCodePoint_def tolower_ascii_def IsUnicodeWhitespace_def)

lemma normal_replace: "normal ws ns \<Longrightarrow> normal ws (map (\<lambda>n. if n = 95 then 45 else n) ns)"
  by (induction ws ns rule: normal.induct) (auto simp: fold_hyphen split: if_splits)

lemma normal_prefix: "normal ws (xs @ ys) \<Longrightarrow> normal ws xs"
  by (induction xs arbitrary: ws) (auto split: if_splits)

lemma normal_takeWhile: "normal ws ns \<Longrightarrow> normal ws (takeWhile P ns)"
  using normal_prefix [of ws "takeWhile P ns" "dropWhile P ns"] by simp

lemma TryNormalize_normal:
  "list_all scalar ns \<Longrightarrow> normal True ns \<Longrightarrow>
    TryNormalizeUtf8WhitespaceAndCaseFold (utf8 ns) = Some (utf8 (strip_space ns))"
  by (simp add: TryNormalize_eq decode_from_utf8 normc_normal)

lemma strip_subset: "set (strip_space ns) \<subseteq> set ns"
  by (auto simp: strip_space_def dest: in_set_butlastD)

lemma replace_none: "95 \<notin> set ns \<Longrightarrow> map (\<lambda>n. if n = 95 then 45 else n) ns = ns"
  by (induction ns) auto

lemma tag_pipeline:
  assumes "list_all scalar ns" "normal True ns"
  defines "k \<equiv> takeWhile (\<lambda>n. n \<notin> set tag_separators) (map (\<lambda>n. if n = 95 then 45 else n) ns)"
  shows "FirstListToken (ReplaceAscii (utf8 ns) (CHR ''_'') (CHR ''-'')) = utf8 k"
    "TryNormalizeUtf8WhitespaceAndCaseFold (utf8 k) = Some (utf8 (strip_space k))"
    "ReplaceAscii (utf8 (strip_space k)) (CHR ''_'') (CHR ''-'') = utf8 (strip_space k)"
    "clean_tag (utf8 (strip_space k))"
proof -
  have sc: "list_all scalar k"
    using assms(1) by (auto simp: k_def list_all_iff scalar_def dest!: set_takeWhileD)
  have nk: "normal True k" unfolding k_def by (intro normal_takeWhile normal_replace assms(2))
  have no: "95 \<notin> set k" "set k \<inter> set tag_separators = {}"
    by (auto simp: k_def dest!: set_takeWhileD)
  show "FirstListToken (ReplaceAscii (utf8 ns) (CHR ''_'') (CHR ''-'')) = utf8 k"
    by (simp add: Replace_utf8 FirstListToken_utf8 k_def)
  show "TryNormalizeUtf8WhitespaceAndCaseFold (utf8 k) = Some (utf8 (strip_space k))"
    by (rule TryNormalize_normal [OF sc nk])
  have "95 \<notin> set (strip_space k)" using no(1) strip_subset [of k] by auto
  then show "ReplaceAscii (utf8 (strip_space k)) (CHR ''_'') (CHR ''-'') = utf8 (strip_space k)"
    by (simp only: Replace_utf8 replace_none not_False_eq_True)
  show "clean_tag (utf8 (strip_space k))"
    unfolding clean_tag_def
    using strip_scalar [OF sc] normal_strip [OF nk] strip_strip [OF nk] no strip_subset [of k]
    by (intro exI [of _ "strip_space k"]) auto
qed

lemma NormalizeLanguage_clean: "clean_tag x \<Longrightarrow> NormalizeLanguage x = resolve_language x"
proof -
  assume "clean_tag x"
  then obtain ns where ns: "list_all scalar ns" "normal True ns" "strip_space ns = ns" "x = utf8 ns"
    and no: "95 \<notin> set ns" "set ns \<inter> set tag_separators = {}"
    by (auto simp: clean_tag_def)
  have k: "takeWhile (\<lambda>n. n \<notin> set tag_separators) (map (\<lambda>n. if n = 95 then 45 else n) ns) = ns"
    using no by (auto simp: replace_none takeWhile_eq_all_conv)
  note pipe = tag_pipeline [OF ns(1,2), unfolded k]
  have "TryNormalizeUtf8WhitespaceAndCaseFold x = Some x"
    using TryNormalize_fixed [OF ns(1-3)] ns(4) by simp
  then show ?thesis using pipe ns(3,4) by (simp add: NormalizeLanguage_def)
qed

lemma NormalizeLanguage_cases:
  "\<not> IsValidUtf8 s \<and> NormalizeLanguage s = s
   \<or> (\<exists>x. clean_tag x \<and> NormalizeLanguage s = resolve_language x)"
proof (cases "TryNormalizeUtf8WhitespaceAndCaseFold s")
  case None
  then have "\<not> IsValidUtf8 s" by (simp add: TryNormalize_None_iff)
  with None show ?thesis by (simp add: NormalizeLanguage_def)
next
  case (Some t)
  then obtain ns where ns: "list_all scalar ns" "normal True ns" "t = utf8 ns"
    by (elim TryNormalize_Some)
  from tag_pipeline [OF ns(1,2)] Some ns(3) show ?thesis
    by (auto simp: NormalizeLanguage_def)
qed

section \<open>The tables are consistent\<close>

definition ascii_lower :: "char \<Rightarrow> bool" where
  "ascii_lower c \<longleftrightarrow> 97 \<le> byte_of c \<and> byte_of c \<le> 122"

lemma alias_table_consistent:
  "list_all (\<lambda>(a, c). list_all ascii_lower c \<and> map_of GLanguageAliases c = Some c) GLanguageAliases"
  by (simp add: GLanguageAliases_def ascii_lower_def)

lemma primary_table_lower: "list_all (list_all ascii_lower) GKnownPrimaryCodes"
  by (simp add: GKnownPrimaryCodes_def ascii_lower_def)

lemma find_map_of: "map_option snd (find (\<lambda>p. fst p = k) ps) = map_of ps k"
  by (induction ps) auto

lemma Resolve_map_of: "TryResolveAlias v = map_of GLanguageAliases v"
  by (simp add: TryResolveAlias_def find_map_of)

lemma Resolve_canonical:
  assumes "TryResolveAlias v = Some c"
  shows "list_all ascii_lower c" "TryResolveAlias c = Some c"
proof -
  have "(v, c) \<in> set GLanguageAliases" using assms by (simp add: Resolve_map_of map_of_SomeD)
  then show "list_all ascii_lower c" "TryResolveAlias c = Some c"
    using alias_table_consistent by (auto simp: list_all_iff Resolve_map_of)
qed

lemma lower_fixed: "97 \<le> n \<Longrightarrow> n \<le> 122 \<Longrightarrow> fold1 n = [n] \<and> \<not> IsUnicodeWhitespace n"
  by (simp add: fold1_def CaseFoldCodePoint_def tolower_ascii_def IsUnicodeWhitespace_def)

lemma lower_clean: "list_all ascii_lower s \<Longrightarrow> clean_tag s"
proof -
  assume l: "list_all ascii_lower s"
  have u: "utf8 (map byte_of s) = s"
    using l by (induction s) (auto simp: ascii_lower_def enc_ascii)
  have n: "normal ws (map byte_of s)" for ws
    using l by (induction s arbitrary: ws) (auto simp: ascii_lower_def lower_fixed)
  have r: "\<forall>n \<in> set (map byte_of s). 97 \<le> n \<and> n \<le> 122"
    using l by (auto simp: list_all_iff ascii_lower_def)
  have "strip_space (map byte_of s) = map byte_of s"
    unfolding strip_space_def using r last_in_set [of "map byte_of s"] by fastforce
  moreover have "list_all scalar (map byte_of s)" using r by (auto simp: list_all_iff scalar_def)
  ultimately show ?thesis
    unfolding clean_tag_def using u n r
    by (intro exI [of _ "map byte_of s"]) (auto simp: tag_separators_def)
qed

lemma resolve_fixed:
  assumes "clean_tag x"
  shows "NormalizeLanguage (resolve_language x) = resolve_language x"
proof -
  have canon: "NormalizeLanguage c = c" if "TryResolveAlias v = Some c" for v c
    using Resolve_canonical [OF that] NormalizeLanguage_clean [OF lower_clean [of c]]
    by (simp add: resolve_language_def)
  have primary: "NormalizeLanguage p = p"
    if "IsKnownPrimaryCode p" "TryResolveAlias p = None" "CHR ''-'' \<notin> set p" for p
  proof -
    have "list_all ascii_lower p"
      using that(1) primary_table_lower by (auto simp: IsKnownPrimaryCode_def list_all_iff)
    from NormalizeLanguage_clean [OF lower_clean [OF this]] that show ?thesis
      by (simp add: resolve_language_def)
  qed
  let ?p = "takeWhile (\<lambda>c. c \<noteq> CHR ''-'') x"
  have np: "CHR ''-'' \<notin> set ?p" by (auto dest: set_takeWhileD)
  show ?thesis
  proof (cases "resolve_language x = x")
    case True
    then show ?thesis using NormalizeLanguage_clean [OF assms] by simp
  next
    case False
    then show ?thesis
      using canon primary [OF _ _ np]
      by (auto simp: resolve_language_def Let_def split: option.splits if_splits)
  qed
qed

end
