(* ===== verification/Legacy_Cyrillic.thy ===== *)
theory Legacy_Cyrillic
  imports Unicode
begin

text \<open>
  \<open>libs/Foundation/UnicodeConversion.cpp\<close>: the conversion of legacy Cyrillic bytes to
  UTF-8, with the score that decides between Windows-1251 and CP866.

  The argument \<open>convert_text value fromEncoding\<close> stands for the loop around \<open>iconv\<close>: the UTF-8
  text it returns, or \<open>None\<close> where it throws \<open>CTextConversionError\<close> (\<open>iconv\<close> is not
  code of this repository).
\<close>

section \<open>Data\<close>

datatype text_error = CTextConversionError string | TextRuntimeError string

type_synonym convert = "string \<Rightarrow> string \<Rightarrow> string option"

definition CodePageToIconvEncodings :: "nat \<Rightarrow> string list" where
  "CodePageToIconvEncodings codePage =
    (if codePage = 866 then [''CP866'', ''IBM866'']
     else if codePage = 1251 then [''WINDOWS-1251'', ''CP1251'']
     else if codePage = 65001 then [''UTF-8'']
     else if codePage = 1200 then [''UTF-16LE'']
     else if codePage = 1201 then [''UTF-16BE'']
     else [''CP'' @ to_string codePage])"

definition Windows1251HighControlBlock :: "codepoint list" where
  "Windows1251HighControlBlock =
    [0x0402, 0x0403, 0x201A, 0x0453, 0x201E, 0x2026, 0x2020, 0x2021,
     0x20AC, 0x2030, 0x0409, 0x2039, 0x040A, 0x040C, 0x040B, 0x040F,
     0x0452, 0x2018, 0x2019, 0x201C, 0x201D, 0x2022, 0x2013, 0x2014,
     0xFFFD, 0x2122, 0x0459, 0x203A, 0x045A, 0x045C, 0x045B, 0x045F,
     0x00A0, 0x040E, 0x045E, 0x0408, 0x00A4, 0x0490, 0x00A6, 0x00A7,
     0x0401, 0x00A9, 0x0404, 0x00AB, 0x00AC, 0x00AD, 0x00AE, 0x0407,
     0x00B0, 0x00B1, 0x0406, 0x0456, 0x0491, 0x00B5, 0x00B6, 0x00B7,
     0x0451, 0x2116, 0x0454, 0x00BB, 0x0458, 0x0405, 0x0455, 0x0457]"

section \<open>Operations\<close>

definition windows1251_codepoint :: "nat \<Rightarrow> codepoint" where
  "windows1251_codepoint b =
    (if b < 0x80 then b
     else if b \<ge> 0xC0 then 0x0410 + (b - 0xC0)
     else Windows1251HighControlBlock ! (b - 0x80))"

definition Windows1251ToUtf8Lossy :: "string \<Rightarrow> string" where
  "Windows1251ToUtf8Lossy value =
    foldl (\<lambda>result ch. AppendUtf8CodePoint (windows1251_codepoint (byte_of ch)) result) [] value"

fun first_conversion :: "convert \<Rightarrow> string \<Rightarrow> string list \<Rightarrow> string option" where
  "first_conversion convert_text value [] = None"
| "first_conversion convert_text value (encoding # rest) =
    (case convert_text value encoding of
       Some text \<Rightarrow> Some text
     | None \<Rightarrow> first_conversion convert_text value rest)"

definition CodePageToUtf8 :: "convert \<Rightarrow> string \<Rightarrow> nat \<Rightarrow> string \<Rightarrow> text_error + string" where
  "CodePageToUtf8 convert_text value codePage errorContext =
    (case first_conversion convert_text value (CodePageToIconvEncodings codePage) of
       Some text \<Rightarrow> Inr text
     | None \<Rightarrow> Inl (CTextConversionError errorContext))"

text \<open>The word state of \<open>ScoreLegacyCyrillicDecode\<close>: score, letters and vowels of the current word.\<close>

record score_state =
  score :: int
  cyrillicWordLength :: nat
  cyrillicVowelCount :: nat

definition finishCyrillicWord :: "score_state \<Rightarrow> score_state" where
  "finishCyrillicWord s =
    (let adjusted =
       (if cyrillicWordLength s \<ge> 3 then
          (if cyrillicVowelCount s = 0 then score s - 5
           else if cyrillicWordLength s \<ge> 5 \<and> cyrillicVowelCount s * 5 \<ge> cyrillicWordLength s
             then score s + 2
           else score s)
        else score s)
     in s\<lparr>score := adjusted, cyrillicWordLength := 0, cyrillicVowelCount := 0\<rparr>)"

definition cyrillic_vowels :: "codepoint list" where
  "cyrillic_vowels =
    [0x410, 0x430, 0x415, 0x435, 0x401, 0x451, 0x418, 0x438, 0x41E, 0x43E,
     0x423, 0x443, 0x42B, 0x44B, 0x42D, 0x44D, 0x42E, 0x44E, 0x42F, 0x44F]"

definition score_codepoint :: "codepoint \<Rightarrow> score_state \<Rightarrow> score_state" where
  "score_codepoint codePoint s =
    (if (codePoint \<ge> 0x410 \<and> codePoint \<le> 0x44F) \<or> codePoint = 0x401 \<or> codePoint = 0x451 then
       s\<lparr>score := score s + 4, cyrillicWordLength := cyrillicWordLength s + 1,
         cyrillicVowelCount := cyrillicVowelCount s + (if codePoint \<in> set cyrillic_vowels then 1 else 0)\<rparr>
     else if codePoint \<ge> 0x400 \<and> codePoint \<le> 0x52F then
       (let t = finishCyrillicWord s in t\<lparr>score := score t + 1\<rparr>)
     else if codePoint \<ge> 0x2500 \<and> codePoint \<le> 0x259F then
       (let t = finishCyrillicWord s in t\<lparr>score := score t - 9\<rparr>)
     else if codePoint = 0xFFFD \<or> (codePoint \<ge> 0x80 \<and> codePoint \<le> 0x9F) then
       (let t = finishCyrillicWord s in t\<lparr>score := score t - 6\<rparr>)
     else finishCyrillicWord s)"

text \<open>The loop; \<open>None\<close> is the early return of the least \<open>long long\<close> on undecodable text.\<close>

function ScoreLegacyCyrillic_loop :: "string \<Rightarrow> nat \<Rightarrow> score_state \<Rightarrow> int option" where
  "ScoreLegacyCyrillic_loop value index s =
    (if index < length value then
       (case TryDecodeUtf8CodePoint value index of
          None \<Rightarrow> None
        | Some (codePoint, sequenceLength) \<Rightarrow>
            ScoreLegacyCyrillic_loop value (index + sequenceLength) (score_codepoint codePoint s))
     else Some (score (finishCyrillicWord s)))"
  by pat_completeness auto
termination
  by (relation "measure (\<lambda>(v, i, _). length v - i)") (auto dest: TryDecode_pos)

declare ScoreLegacyCyrillic_loop.simps [simp del]

definition long_long_min :: int where
  "long_long_min = - (2 ^ 63)"

definition ScoreLegacyCyrillicDecode :: "string \<Rightarrow> int" where
  "ScoreLegacyCyrillicDecode value =
    (case ScoreLegacyCyrillic_loop value 0 \<lparr>score = 0, cyrillicWordLength = 0, cyrillicVowelCount = 0\<rparr> of
       None \<Rightarrow> long_long_min
     | Some s \<Rightarrow> s)"

definition DecodeLegacyCyrillicToUtf8 :: "convert \<Rightarrow> string \<Rightarrow> string \<Rightarrow> text_error + string" where
  "DecodeLegacyCyrillicToUtf8 convert_text value errorContext =
    (let windows1251 =
       (case CodePageToUtf8 convert_text value 1251 errorContext of
          Inr text \<Rightarrow> Some text
        | Inl _ \<Rightarrow> Some (Windows1251ToUtf8Lossy value));
         cp866 =
       (case CodePageToUtf8 convert_text value 866 errorContext of
          Inr text \<Rightarrow> Some text
        | Inl _ \<Rightarrow> None)
     in case (windows1251, cp866) of
          (None, None) \<Rightarrow> Inl (TextRuntimeError errorContext)
        | (None, Some c) \<Rightarrow> Inr c
        | (Some w, None) \<Rightarrow> Inr w
        | (Some w, Some c) \<Rightarrow>
            let cp866Score = ScoreLegacyCyrillicDecode c;
                windows1251Score = ScoreLegacyCyrillicDecode w in
            if cp866Score = windows1251Score \<and> c \<noteq> w
            then Inl (TextRuntimeError (errorContext
                   @ '': legacy Cyrillic encoding is ambiguous between Windows-1251 and CP866.''))
            else if cp866Score > windows1251Score then Inr c else Inr w)"

definition Utf16LeToUtf8 :: "convert \<Rightarrow> string \<Rightarrow> text_error + string" where
  "Utf16LeToUtf8 convert_text bytes =
    (let offset = (if length bytes \<ge> 2 \<and> byte_of (bytes ! 0) = 0xFF \<and> byte_of (bytes ! 1) = 0xFE then 2 else 0) in
     if (length bytes - offset) mod 2 \<noteq> 0
     then Inl (TextRuntimeError ''Failed to convert UTF-16 LE text to UTF-8: odd byte count.'')
     else case convert_text (drop offset bytes) ''UTF-16LE'' of
            Some text \<Rightarrow> Inr text
          | None \<Rightarrow> Inl (CTextConversionError ''Failed to convert UTF-16 LE text to UTF-8.''))"

definition Utf16BeToUtf8 :: "convert \<Rightarrow> string \<Rightarrow> text_error + string" where
  "Utf16BeToUtf8 convert_text bytes =
    (let offset = (if length bytes \<ge> 2 \<and> byte_of (bytes ! 0) = 0xFE \<and> byte_of (bytes ! 1) = 0xFF then 2 else 0) in
     if (length bytes - offset) mod 2 \<noteq> 0
     then Inl (TextRuntimeError ''Failed to convert UTF-16 BE text to UTF-8: odd byte count.'')
     else case convert_text (drop offset bytes) ''UTF-16BE'' of
            Some text \<Rightarrow> Inr text
          | None \<Rightarrow> Inl (CTextConversionError ''Failed to convert UTF-16 BE text to UTF-8.''))"

section \<open>Lemmas\<close>

lemma windows1251_block: "list_all scalar Windows1251HighControlBlock" "length Windows1251HighControlBlock = 64"
  by (simp_all add: Windows1251HighControlBlock_def scalar_def)

lemma windows1251_scalar: "b < 256 \<Longrightarrow> scalar (windows1251_codepoint b)"
proof (cases "b < 0x80 \<or> b \<ge> 0xC0")
  case True
  then show "b < 256 \<Longrightarrow> ?thesis" by (auto simp: windows1251_codepoint_def scalar_def)
next
  case False
  then have "b - 0x80 < length Windows1251HighControlBlock" unfolding windows1251_block by linarith
  with False show ?thesis
    using windows1251_block(1) by (simp add: windows1251_codepoint_def list_all_length)
qed

lemma Windows1251_utf8:
  "Windows1251ToUtf8Lossy v = utf8 (map (\<lambda>ch. windows1251_codepoint (byte_of ch)) v)"
proof -
  have "foldl (\<lambda>r ch. AppendUtf8CodePoint (windows1251_codepoint (byte_of ch)) r) acc v
      = acc @ utf8 (map (\<lambda>ch. windows1251_codepoint (byte_of ch)) v)" for acc
  proof (induction v arbitrary: acc)
    case (Cons ch v)
    then show ?case using Append_enc [of "windows1251_codepoint (byte_of ch)" acc] by simp
  qed simp
  from this [of "[]"] show ?thesis by (simp add: Windows1251ToUtf8Lossy_def)
qed

lemma Windows1251_valid: "IsValidUtf8 (Windows1251ToUtf8Lossy v)"
  unfolding Windows1251_utf8
  by (rule IsValidUtf8_utf8) (simp add: list_all_iff windows1251_scalar)

lemma first_conversion_Some:
  "first_conversion cv v encs = Some t \<Longrightarrow> \<exists>e \<in> set encs. cv v e = Some t"
  by (induction encs) (auto split: option.splits)

lemma ScoreLegacyCyrillic_loop_eq [loop_equiv]:
  "ScoreLegacyCyrillic_loop v i s
     = map_option (\<lambda>cps. score (finishCyrillicWord (fold score_codepoint cps s))) (decode_from v i)"
proof (induction v i arbitrary: s rule: decode_from.induct)
  case (1 v i)
  then show ?case
    by (cases "i < length v"; cases "TryDecodeUtf8CodePoint v i")
      (auto simp: ScoreLegacyCyrillic_loop.simps [of v i] decode_from.simps [of v i] option.map_comp comp_def
        split: option.splits)
qed

lemma DecodeLegacy_result:
  assumes "DecodeLegacyCyrillicToUtf8 cv v ctx = Inr t"
  shows "t = Windows1251ToUtf8Lossy v \<or> (\<exists>e. cv v e = Some t)"
  using assms
  by (auto simp: DecodeLegacyCyrillicToUtf8_def CodePageToUtf8_def Let_def dest: first_conversion_Some
      split: option.splits sum.splits if_splits)

lemma DecodeLegacy_valid:
  assumes "\<And>e u. cv v e = Some u \<Longrightarrow> IsValidUtf8 u" "DecodeLegacyCyrillicToUtf8 cv v ctx = Inr t"
  shows "IsValidUtf8 t"
  using DecodeLegacy_result [OF assms(2)] assms(1) Windows1251_valid by auto

text \<open>The candidates the two code pages give, Windows-1251 first.\<close>

definition legacy_candidates :: "convert \<Rightarrow> string \<Rightarrow> string list" where
  "legacy_candidates cv v =
    (case first_conversion cv v (CodePageToIconvEncodings 1251) of
       Some t \<Rightarrow> [t] | None \<Rightarrow> [Windows1251ToUtf8Lossy v])
    @ (case first_conversion cv v (CodePageToIconvEncodings 866) of Some t \<Rightarrow> [t] | None \<Rightarrow> [])"

lemma DecodeLegacy_Inl:
  assumes "DecodeLegacyCyrillicToUtf8 cv v ctx = Inl e"
  shows "\<exists>w c. legacy_candidates cv v = [w, c] \<and> w \<noteq> c
    \<and> ScoreLegacyCyrillicDecode w = ScoreLegacyCyrillicDecode c"
  using assms
  by (auto simp: DecodeLegacyCyrillicToUtf8_def CodePageToUtf8_def legacy_candidates_def Let_def
      split: option.splits if_splits)

lemma DecodeLegacy_Inr:
  assumes "DecodeLegacyCyrillicToUtf8 cv v ctx = Inr t"
  shows "t \<in> set (legacy_candidates cv v) \<and>
    list_all (\<lambda>u. ScoreLegacyCyrillicDecode u \<le> ScoreLegacyCyrillicDecode t) (legacy_candidates cv v)"
  using assms
  by (auto simp: DecodeLegacyCyrillicToUtf8_def CodePageToUtf8_def legacy_candidates_def Let_def
      split: option.splits if_splits)

end
