(* ===== verification/Text_Properties.thy ===== *)
theory Text_Properties
  imports Metadata_Normalization Language_Normalization Legacy_Cyrillic
begin

text \<open>
  The properties of the text components of \<open>libs/Foundation\<close> and \<open>libs/Domain\<close>: UTF-8
  validation and repair, case folding, search keys, language tags, ISBNs, download file names and
  legacy Cyrillic text.
\<close>

text \<open>C40: \<open>IsValidUtf8\<close> accepts exactly the concatenations of encodings of Unicode scalar values
  (no overlong form, no surrogate, nothing above U+10FFFF), and such a decomposition is unique.\<close>

theorem utf8_validity_exact:
  "IsValidUtf8 v = (\<exists>!cps. list_all scalar cps \<and> v = concat (map (\<lambda>cp. AppendUtf8CodePoint cp []) cps))"
  using IsValidUtf8_iff [of v] utf8c.encodings_unique by (auto simp: utf8_def)

text \<open>Decoding at the position where a scalar value was appended gives that value back and
  the number of bytes it took, whatever follows.\<close>

theorem utf8_append_decode:
  assumes "scalar cp"
  shows "TryDecodeUtf8CodePoint (AppendUtf8CodePoint cp before @ rest) (length before)
           = Some (cp, length (AppendUtf8CodePoint cp before) - length before)"
proof -
  have d: "drop (length before) (AppendUtf8CodePoint cp before @ rest) = enc cp @ rest"
    using Append_enc [of cp before] by simp
  from utf8c.decode_at_encode(2) [OF assms d] show ?thesis
    using Append_enc [of cp before] by simp
qed

theorem utf8_append_decode_witness:
  "scalar 0x44F
   \<and> TryDecodeUtf8CodePoint (AppendUtf8CodePoint 0x44F ''a'' @ ''b'') (length ''a'')
       = Some (0x44F, length (AppendUtf8CodePoint 0x44F ''a'') - length ''a'')"
proof -
  have s: "scalar 0x44F" by (simp add: scalar_def)
  from s utf8_append_decode [OF s, of "''a''" "''b''"] show ?thesis by blast
qed

text \<open>\<open>TryTrimTrailingIncompleteUtf8\<close> succeeds exactly on valid text followed by a proper,
  non-empty prefix of one encoding, and it then returns the valid text in front of that prefix.\<close>

theorem trim_incomplete_exact:
  "TryTrimTrailingIncompleteUtf8 v = Some t \<longleftrightarrow>
    (\<exists>cp rest. IsValidUtf8 t \<and> scalar cp \<and> v = t @ rest \<and> rest \<noteq> []
       \<and> strict_prefix rest (AppendUtf8CodePoint cp []))"
  unfolding TryTrim_iff cut_of_def IsValidUtf8_iff by blast

text \<open>Cutting valid text at any byte leaves valid text, or text that
  \<open>TryTrimTrailingIncompleteUtf8\<close> repairs by removing at most three bytes.\<close>

theorem cut_text_is_repairable:
  assumes "IsValidUtf8 s"
  shows "IsValidUtf8 (take n s) \<or>
    (\<exists>t. TryTrimTrailingIncompleteUtf8 (take n s) = Some t \<and> IsValidUtf8 t
       \<and> length (take n s) \<le> length t + 3)"
  using trim_repairs_cut [OF assms] TryTrim_valid by blast

theorem cut_text_is_repairable_witness:
  "IsValidUtf8 [CHR 0xD1, CHR 0x8F] \<and>
   (IsValidUtf8 (take 1 [CHR 0xD1, CHR 0x8F]) \<or>
    (\<exists>t. TryTrimTrailingIncompleteUtf8 (take 1 [CHR 0xD1, CHR 0x8F]) = Some t \<and> IsValidUtf8 t
       \<and> length (take 1 [CHR 0xD1, CHR 0x8F]) \<le> length t + 3))"
proof -
  have s: "IsValidUtf8 [CHR 0xD1, CHR 0x8F]" by code_simp
  from s cut_text_is_repairable [OF s, of 1] show ?thesis by blast
qed

text \<open>\<open>TryNormalizeUtf8WhitespaceAndCaseFold\<close> fails exactly on invalid text; its result is
  valid, a fixed point of the normalisation, and neither starts nor ends with a space.\<close>

theorem normalize_text_canonical:
  "case TryNormalizeUtf8WhitespaceAndCaseFold v of
     None \<Rightarrow> \<not> IsValidUtf8 v
   | Some t \<Rightarrow> IsValidUtf8 v \<and> IsValidUtf8 t \<and> TryNormalizeUtf8WhitespaceAndCaseFold t = Some t
       \<and> (t = [] \<or> hd t \<noteq> CHR '' '' \<and> last t \<noteq> CHR '' '')"
proof (cases "TryNormalizeUtf8WhitespaceAndCaseFold v")
  case None
  then have "\<not> IsValidUtf8 v" by (simp add: TryNormalize_None_iff)
  with None show ?thesis by simp
next
  case (Some t)
  have v: "IsValidUtf8 v" using Some TryNormalize_None_iff [of v] by (metis option.distinct(1))
  show ?thesis using Some TryNormalize_idem [OF Some] TryNormalize_ends [OF Some] v by simp
qed

text \<open>On code points U+04C1 to U+04CE, whose small letters are the even ones,
  \<open>CaseFoldCodePoint\<close> leaves the capital letter (U+04C1) as it is and sends its small letter
  (U+04C2) to a different capital (U+04C3), so the two cases of a letter keep different keys.\<close>

theorem case_fold_zhe_with_breve:
  "CaseFoldCodePoint 0x04C1 = 0x04C1 \<and> CaseFoldCodePoint 0x04C2 = 0x04C3 \<and> CaseFoldCodePoint 0x04C3 = 0x04C3"
  by (simp add: CaseFoldCodePoint_def case_fold_switch_def case_fold_even_upper_def
      case_fold_odd_upper_def case_fold_cyrillic_switch_def)

text \<open>two texts share a search key (\<open>NormalizeText\<close>) exactly if both are valid and normalise
  to the same text, or both are the same invalid bytes: keys of valid and of invalid text never collide.\<close>

theorem search_keys_exact:
  "NormalizeText a = NormalizeText b \<longleftrightarrow>
    (if IsValidUtf8 a \<and> IsValidUtf8 b
     then TryNormalizeUtf8WhitespaceAndCaseFold a = TryNormalizeUtf8WhitespaceAndCaseFold b
     else a = b)"
  unfolding NormalizeText_eq_iff by auto

text \<open>\<open>NormalizeLanguage\<close> is idempotent: a stored language tag is not changed by another scan.\<close>

theorem normalize_language_idempotent: "NormalizeLanguage (NormalizeLanguage s) = NormalizeLanguage s"
  using NormalizeLanguage_cases [of s] resolve_fixed by auto

text \<open>an accepted ISBN is in canonical form, with ten or thirteen characters and a valid check digit,
  and it is accepted again unchanged.\<close>

theorem isbn_canonical:
  assumes "NormalizeIsbn (Some v) = Some s"
  shows "NormalizeIsbn (Some s) = Some s
    \<and> (length s = 10 \<and> IsValidIsbn10Checksum s \<or> length s = 13 \<and> IsValidIsbn13Checksum s)"
  using NormalizeIsbn_canonical [OF assms] NormalizeIsbn_Some(2) [OF assms] by auto

theorem isbn_canonical_witness:
  "NormalizeIsbn (Some ''0-306-40615-2'') = Some ''0306406152''
   \<and> NormalizeIsbn (Some ''0306406152'') = Some ''0306406152''"
proof -
  have s: "NormalizeIsbn (Some ''0-306-40615-2'') = Some ''0306406152''" by code_simp
  from s isbn_canonical [OF s] show ?thesis by blast
qed

text \<open>the ISBN checks detect every error in one character: of two accepted numbers that differ in at most
  one position, both are the same.\<close>

theorem isbn_detects_single_error:
  assumes "IsValidIsbn10Checksum s \<and> IsValidIsbn10Checksum (s[k := c])
      \<or> IsValidIsbn13Checksum s \<and> IsValidIsbn13Checksum (s[k := c])"
  shows "s[k := c] = s"
proof (cases "k < length s")
  case True
  have "c = s ! k"
    using assms isbn10_detects_error [of s k c] isbn13_detects_error [of s k c] True
    by (auto simp: isbn10_iff isbn13_iff)
  then show ?thesis by simp
next
  case False
  then show ?thesis by (simp add: list_update_beyond)
qed

theorem isbn_detects_single_error_witness:
  "IsValidIsbn13Checksum ''9780306406157'' \<and> (''9780306406157'')[12 := CHR ''7''] = ''9780306406157''"
proof -
  have s: "IsValidIsbn13Checksum ''9780306406157''" "IsValidIsbn13Checksum ((''9780306406157'')[12 := CHR ''7''])"
    by code_simp+
  with isbn_detects_single_error [of "''9780306406157''" 12 "CHR ''7''"] show ?thesis by blast
qed

text \<open>a sanitised download file name is the given fallback, or it is not empty, has no character that is
  reserved in file names, does not end in a space, has at most the given number of bytes (if a
  limit is given) and is valid UTF-8 if the title was.\<close>

theorem sanitized_name_safe:
  "SanitizeDownloadFilenameBaseUtf8 v m fallback = fallback \<or>
   (let r = SanitizeDownloadFilenameBaseUtf8 v m fallback in
      r \<noteq> [] \<and> list_all (\<lambda>c. \<not> forbidden_filename_char c) r \<and> last r \<noteq> CHR '' ''
      \<and> (if m > 0 then length r \<le> m else True)
      \<and> (if IsValidUtf8 v then IsValidUtf8 r else True))"
proof -
  let ?m = "map (\<lambda>ch. if forbidden_filename_char ch then CHR ''_'' else ch) v"
  let ?r = "SanitizeDownloadFilenameBaseUtf8 v m fallback"
  have safe: "list_all (\<lambda>c. \<not> forbidden_filename_char c) ?m"
    by (auto simp: list_all_iff forbidden_underscore)
  have sub: "list_all (\<lambda>c. \<not> forbidden_filename_char c) r"
    if "prefix r (TrimTrailingFilenameWhitespace ?m)" for r
  proof -
    have "set r \<subseteq> set ?m" using that TrimTrailing_prefix [of ?m] by (meson prefix_order.trans set_mono_prefix)
    then show ?thesis using safe unfolding list_all_iff by blast
  qed
  have val: "IsValidUtf8 v \<Longrightarrow> IsValidUtf8 (TrimTrailingFilenameWhitespace ?m)"
    by (intro TrimTrailing_valid replace_valid forbidden_ascii)
  from Sanitize_cases [of v m fallback] show ?thesis
  proof (elim disjE conjE)
    assume r: "?r \<noteq> []" "prefix ?r (TrimTrailingFilenameWhitespace ?m)" "last ?r \<noteq> CHR '' ''"
      "m > 0 \<longrightarrow> length ?r \<le> m" "IsValidUtf8 (TrimTrailingFilenameWhitespace ?m) \<longrightarrow> IsValidUtf8 ?r"
    have "if m > 0 then length ?r \<le> m else True" "if IsValidUtf8 v then IsValidUtf8 ?r else True"
      using r(4,5) val by simp_all
    with r(1,3) sub [OF r(2)] show ?thesis unfolding Let_def by blast
  qed blast
qed

text \<open>\<open>DecodeLegacyCyrillicToUtf8\<close> always has the Windows-1251 candidate, so it reports an error
  only for a tie between two different candidates; otherwise it returns a candidate, no other candidate
  scores higher, and its text is valid UTF-8 if the converter's is.\<close>

theorem legacy_decode_best_candidate:
  assumes "\<And>e u. convert_text v e = Some u \<Longrightarrow> IsValidUtf8 u"
  shows "case DecodeLegacyCyrillicToUtf8 convert_text v ctx of
     Inl e \<Rightarrow> (\<exists>w c. legacy_candidates convert_text v = [w, c] \<and> w \<noteq> c
              \<and> ScoreLegacyCyrillicDecode w = ScoreLegacyCyrillicDecode c)
   | Inr t \<Rightarrow> t \<in> set (legacy_candidates convert_text v) \<and> IsValidUtf8 t
       \<and> list_all (\<lambda>u. ScoreLegacyCyrillicDecode u \<le> ScoreLegacyCyrillicDecode t) (legacy_candidates convert_text v)"
proof (cases "DecodeLegacyCyrillicToUtf8 convert_text v ctx")
  case (Inl e)
  then show ?thesis using DecodeLegacy_Inl [OF Inl] by simp
next
  case (Inr t)
  then show ?thesis using DecodeLegacy_Inr [OF Inr] DecodeLegacy_valid [OF assms Inr] by simp
qed

definition sample_convert :: convert where
  "sample_convert v e =
    (if e = ''CP866'' then Some [CHR 0xD0, CHR 0x9F] else if e = ''WINDOWS-1251'' then Some ''?'' else None)"

theorem legacy_decode_best_candidate_witness:
  "case DecodeLegacyCyrillicToUtf8 sample_convert [CHR 0x8F] ''ctx'' of
     Inl e \<Rightarrow> False
   | Inr t \<Rightarrow> t = [CHR 0xD0, CHR 0x9F] \<and> IsValidUtf8 t"
proof -
  have v: "IsValidUtf8 [CHR 0xD0, CHR 0x9F]" "IsValidUtf8 ''?''" by code_simp+
  have h: "sample_convert [CHR 0x8F] e = Some u \<Longrightarrow> IsValidUtf8 u" for e u
    using v by (auto simp: sample_convert_def split: if_splits)
  have sc: "ScoreLegacyCyrillicDecode [CHR 0xD0, CHR 0x9F] = 4" by code_simp
  have sc': "ScoreLegacyCyrillicDecode ''?'' = 0"
    by (simp add: ScoreLegacyCyrillicDecode_def ScoreLegacyCyrillic_loop.simps TryDecode_arith
        score_codepoint_def finishCyrillicWord_def)
  have r: "DecodeLegacyCyrillicToUtf8 sample_convert [CHR 0x8F] ''ctx'' = Inr [CHR 0xD0, CHR 0x9F]"
    by (simp add: DecodeLegacyCyrillicToUtf8_def CodePageToUtf8_def CodePageToIconvEncodings_def
        sample_convert_def sc sc')
  from legacy_decode_best_candidate [of sample_convert "[CHR 0x8F]" "''ctx''", OF h] r show ?thesis by simp
qed

end
