(* ===== verification/Domain_Types.thy ===== *)
theory Domain_Types
  imports Prelude
begin

text \<open>
  The value types of \<open>libs/Domain\<close> that cross component borders: book formats, error codes and
  search queries (\<open>BookFormat.cpp\<close>, \<open>DomainError.cpp\<close>, \<open>SearchQuery.hpp\<close>).
\<close>

datatype EBookFormat = Epub | Fb2

definition book_format_ToString :: "EBookFormat \<Rightarrow> string" where
  "book_format_ToString format = (case format of Epub \<Rightarrow> ''epub'' | Fb2 \<Rightarrow> ''fb2'')"

definition TryParseBookFormat :: "string \<Rightarrow> EBookFormat option" where
  "TryParseBookFormat value =
    (if value = ''epub'' \<or> value = ''.epub'' \<or> value = ''EPUB'' then Some Epub
     else if value = ''fb2'' \<or> value = ''.fb2'' \<or> value = ''FB2'' then Some Fb2
     else None)"

datatype EDomainErrorCode =
  Validation | ParserFailure | ConverterUnavailable | ConverterFailed | ConverterTimeout | Cancellation
  | CatalogSnapshotChanged | CatalogCursorExpired | CatalogCursorCapacityExceeded | CatalogCursorInvalid
  | IntegrityIssue | NotFound

definition domain_error_ToString :: "EDomainErrorCode \<Rightarrow> string" where
  "domain_error_ToString code = (case code of
      Validation \<Rightarrow> ''validation''
    | ParserFailure \<Rightarrow> ''parser_failure''
    | ConverterUnavailable \<Rightarrow> ''converter_unavailable''
    | ConverterFailed \<Rightarrow> ''converter_failed''
    | ConverterTimeout \<Rightarrow> ''converter_timeout''
    | Cancellation \<Rightarrow> ''cancellation''
    | CatalogSnapshotChanged \<Rightarrow> ''catalog_snapshot_changed''
    | CatalogCursorExpired \<Rightarrow> ''catalog_cursor_expired''
    | CatalogCursorCapacityExceeded \<Rightarrow> ''catalog_cursor_capacity_exceeded''
    | CatalogCursorInvalid \<Rightarrow> ''catalog_cursor_invalid''
    | IntegrityIssue \<Rightarrow> ''integrity_issue''
    | NotFound \<Rightarrow> ''not_found'')"

record SDomainError =
  Code :: EDomainErrorCode
  Message :: string

datatype ESortDirection = Ascending | Descending

datatype EBookSort = SortTitle | SortAuthor | SortDateAdded

record SSearchFieldScope =
  ScopeTitle :: bool
  ScopeAuthors :: bool
  ScopeDescription :: bool

definition HasAnyField :: "SSearchFieldScope \<Rightarrow> bool" where
  "HasAnyField scope \<longleftrightarrow> ScopeTitle scope \<or> ScopeAuthors scope \<or> ScopeDescription scope"

record SSearchCursor =
  SessionIdUtf8 :: string
  SourceFingerprintUtf8 :: string
  CatalogSnapshotIdUtf8 :: string
  Position :: nat

definition cursor_IsValid :: "SSearchCursor \<Rightarrow> bool" where
  "cursor_IsValid c \<longleftrightarrow>
    SessionIdUtf8 c \<noteq> [] \<and> SourceFingerprintUtf8 c \<noteq> [] \<and> CatalogSnapshotIdUtf8 c \<noteq> [] \<and> Position c > 0"

record SSearchQuery =
  TextUtf8 :: string
  SearchFields :: SSearchFieldScope
  QueryLanguages :: "string list"
  QueryGenresUtf8 :: "string list"
  SortBy :: "EBookSort option"
  SortDirection :: "ESortDirection option"
  Offset :: nat
  Limit :: nat
  Cursor :: "SSearchCursor option"

definition HasText :: "SSearchQuery \<Rightarrow> bool" where
  "HasText q \<longleftrightarrow> TextUtf8 q \<noteq> []"

lemma TryParseBookFormat_ToString [simp]: "TryParseBookFormat (book_format_ToString f) = Some f"
  by (cases f) (simp_all add: TryParseBookFormat_def book_format_ToString_def)

lemma domain_error_ToString_inj: "domain_error_ToString a = domain_error_ToString b \<Longrightarrow> a = b"
  by (cases a; cases b) (simp_all add: domain_error_ToString_def)

end
