(* ===== verification/Inpx_Text.thy ===== *)
theory Inpx_Text
  imports Unicode_Ascii String_Utils
begin

text \<open>
  The text helpers of \<open>libs/Inpx/InpxParser.cpp\<close>: copying, searching, trimming and splitting in
  chunks of 64 KiB, and the decimal integers of a record. A chunk boundary only calls the
  cancellation checkpoint, which returns without effect or throws out of the whole operation; it is
  left out here, and the loops keep their chunks.
\<close>

section \<open>Operations\<close>

definition GCancellationCheckpointIntervalBytes :: nat where
  "GCancellationCheckpointIntervalBytes = 64 * 1024"

lemma interval_pos [simp]: "0 < GCancellationCheckpointIntervalBytes"
  by (simp add: GCancellationCheckpointIntervalBytes_def)

definition substr :: "string \<Rightarrow> nat \<Rightarrow> nat \<Rightarrow> string" where
  "substr value start count = take count (drop start value)"

function copy_loop :: "string \<Rightarrow> string \<Rightarrow> nat \<Rightarrow> string" where
  "copy_loop value result offset =
    (if offset < length value then
       let chunkSize = min GCancellationCheckpointIntervalBytes (length value - offset) in
       copy_loop value (result @ substr value offset chunkSize) (offset + chunkSize)
     else result)"
  by pat_completeness auto
termination
  by (relation "measure (\<lambda>(v, _, i). length v - i)") (simp_all add: Let_def diff_less_mono2)

declare copy_loop.simps [simp del]

definition CopyTextWithCheckpoints :: "string \<Rightarrow> string" where
  "CopyTextWithCheckpoints value =
    (if length value \<le> GCancellationCheckpointIntervalBytes then value else copy_loop value [] 0)"

definition AppendTextWithCheckpoints :: "string \<Rightarrow> string \<Rightarrow> string" where
  "AppendTextWithCheckpoints destination value =
    (if length value \<le> GCancellationCheckpointIntervalBytes then destination @ value
     else copy_loop value destination 0)"

text \<open>\<open>std::string_view::find\<close> of one character; \<open>npos\<close> is \<open>None\<close>.\<close>

primrec find_char :: "char \<Rightarrow> string \<Rightarrow> nat option" where
  "find_char expected [] = None"
| "find_char expected (c # cs) = (if c = expected then Some 0 else map_option Suc (find_char expected cs))"

function find_byte_loop :: "string \<Rightarrow> char \<Rightarrow> nat \<Rightarrow> nat option" where
  "find_byte_loop value expected offset =
    (if offset < length value then
       let chunkSize = min GCancellationCheckpointIntervalBytes (length value - offset) in
       case find_char expected (substr value offset chunkSize) of
         Some relative \<Rightarrow> Some (offset + relative)
       | None \<Rightarrow> find_byte_loop value expected (offset + chunkSize)
     else None)"
  by pat_completeness auto
termination
  by (relation "measure (\<lambda>(v, _, i). length v - i)") (simp_all add: Let_def diff_less_mono2)

declare find_byte_loop.simps [simp del]

definition FindByteWithCheckpoints :: "string \<Rightarrow> char \<Rightarrow> nat \<Rightarrow> nat option" where
  "FindByteWithCheckpoints value expected start =
    (if start \<ge> length value then None
     else if length value - start \<le> GCancellationCheckpointIntervalBytes then
       (case find_char expected (drop start value) of
          None \<Rightarrow> None
        | Some relative \<Rightarrow> Some (start + relative))
     else find_byte_loop value expected start)"

definition ascii_space :: "char \<Rightarrow> bool" where
  "ascii_space c \<longleftrightarrow> byte_of c \<le> 0x20"

function trim_start :: "string \<Rightarrow> nat \<Rightarrow> nat \<Rightarrow> nat" where
  "trim_start value start end' =
    (if start < end' \<and> ascii_space (value ! start) then trim_start value (start + 1) end' else start)"
  by pat_completeness auto
termination
  by (relation "measure (\<lambda>(_, s, e). e - s)") auto

fun trim_end :: "string \<Rightarrow> nat \<Rightarrow> nat \<Rightarrow> nat" where
  "trim_end value start 0 = 0"
| "trim_end value start (Suc e) =
    (if Suc e > start \<and> ascii_space (value ! e) then trim_end value start e else Suc e)"

declare trim_start.simps [simp del] trim_end.simps [simp del]

definition TrimAsciiWhitespace :: "string \<Rightarrow> string" where
  "TrimAsciiWhitespace value =
    (let start = trim_start value 0 (length value);
         end' = trim_end value start (length value) in
     if length value \<le> GCancellationCheckpointIntervalBytes
     then substr value start (end' - start)
     else CopyTextWithCheckpoints (substr value start (end' - start)))"

section \<open>The chunked loops compute the plain operations\<close>

lemma substr_append_drop: "substr v i n @ drop (i + n) v = drop i v"
  by (metis append_take_drop_id drop_drop add.commute substr_def)

lemma copy_loop_eq [loop_equiv]: "copy_loop v r i = r @ drop i v"
proof (induction v r i rule: copy_loop.induct)
  case (1 v r i)
  then show ?case
    by (cases "i < length v")
      (simp_all add: copy_loop.simps [of v r i] Let_def substr_append_drop)
qed

lemma CopyText_eq [simp]: "CopyTextWithCheckpoints v = v"
  by (simp add: CopyTextWithCheckpoints_def copy_loop_eq)

lemma AppendText_eq [simp]: "AppendTextWithCheckpoints d v = d @ v"
  by (simp add: AppendTextWithCheckpoints_def copy_loop_eq)

lemma find_char_append:
  "find_char c (xs @ ys) =
    (case find_char c xs of Some i \<Rightarrow> Some i | None \<Rightarrow> map_option ((+) (length xs)) (find_char c ys))"
proof (induction xs)
  case (Cons x xs)
  then show ?case by (cases "find_char c xs"; cases "find_char c ys") auto
qed (cases "find_char c ys"; simp)

lemma find_byte_loop_eq [loop_equiv]:
  "find_byte_loop v c i = map_option ((+) i) (find_char c (drop i v))"
proof (induction v c i rule: find_byte_loop.induct)
  case (1 v c i)
  show ?case
  proof (cases "i < length v")
    case True
    let ?n = "min GCancellationCheckpointIntervalBytes (length v - i)"
    have len: "length (substr v i ?n) = ?n" by (simp add: substr_def)
    have "find_char c (drop i v) = find_char c (substr v i ?n @ drop (i + ?n) v)"
      by (simp only: substr_append_drop)
    with True "1.IH" [OF True refl] len show ?thesis
      by (auto simp: find_byte_loop.simps [of v c i] Let_def find_char_append option.map_comp comp_def
          add.assoc split: option.splits)
  next
    case False
    then show ?thesis by (simp add: find_byte_loop.simps [of v c i])
  qed
qed

lemma FindByte_eq: "FindByteWithCheckpoints v c i = map_option ((+) i) (find_char c (drop i v))"
  by (auto simp: FindByteWithCheckpoints_def find_byte_loop_eq split: option.splits)

lemma find_char_Some: "find_char c s = Some i \<longleftrightarrow> i < length s \<and> s ! i = c \<and> c \<notin> set (take i s)"
proof (induction s arbitrary: i)
  case (Cons x s)
  then show ?case by (cases i) auto
qed simp

lemma find_char_None: "find_char c s = None \<longleftrightarrow> c \<notin> set s"
  by (induction s) auto

lemma find_char_takeWhile:
  "find_char c s = (if c \<in> set s then Some (length (takeWhile (\<lambda>x. x \<noteq> c) s)) else None)"
  by (induction s) auto

lemma FindByte_ge: "FindByteWithCheckpoints v c i = Some e \<Longrightarrow> i \<le> e \<and> e < length v"
  by (auto simp: FindByte_eq find_char_Some)

text \<open>Trimming drops the bytes up to 0x20 at both ends.\<close>

lemma trim_start_eq: "trim_start v s (length v) = s + length (takeWhile ascii_space (drop s v))"
proof (induction v s "length v" rule: trim_start.induct)
  case (1 v s)
  show ?case
  proof (cases "s < length v")
    case True
    then have "drop s v = v ! s # drop (Suc s) v" by (simp add: Cons_nth_drop_Suc)
    with 1 True show ?thesis by (simp add: trim_start.simps [of v s])
  next
    case False
    then show ?thesis by (simp add: trim_start.simps [of v s])
  qed
qed

lemma trim_end_eq:
  "s \<le> e \<Longrightarrow> e \<le> length v \<Longrightarrow>
    trim_end v s e = s + length (dropWhile ascii_space (rev (take (e - s) (drop s v))))"
proof (induction v s e rule: trim_end.induct)
  case (1 v s)
  then show ?case by (simp add: trim_end.simps)
next
  case (2 v s e)
  show ?case
  proof (cases "s \<le> e")
    case True
    then have "take (Suc e - s) (drop s v) = take (e - s) (drop s v) @ [v ! e]"
      using "2.prems" by (simp add: Suc_diff_le take_Suc_conv_app_nth)
    with 2 True show ?thesis by (simp add: trim_end.simps)
  next
    case False
    with "2.prems" have "s = Suc e" by simp
    then show ?thesis by (simp add: trim_end.simps)
  qed
qed

definition trim :: "string \<Rightarrow> string" where
  "trim s = rev (dropWhile ascii_space (rev (dropWhile ascii_space s)))"

lemma dropWhile_take_len: "substr v 0 (length (dropWhile P (rev v))) = rev (dropWhile P (rev v))"
proof -
  have "rev v = takeWhile P (rev v) @ dropWhile P (rev v)" by simp
  then have "v = rev (dropWhile P (rev v)) @ rev (takeWhile P (rev v))" by (metis rev_append rev_rev_ident)
  then have "take (length (dropWhile P (rev v))) v = rev (dropWhile P (rev v))"
    by (metis append_eq_conv_conj length_rev)
  then show ?thesis by (simp add: substr_def)
qed

lemma TrimAscii_eq: "TrimAsciiWhitespace v = trim v"
proof -
  let ?s = "length (takeWhile ascii_space v)"
  have s: "trim_start v 0 (length v) = ?s" using trim_start_eq [of v 0] by simp
  have le: "?s \<le> length v" by (simp add: length_takeWhile_le)
  have d: "drop ?s v = dropWhile ascii_space v" by (simp add: dropWhile_eq_drop)
  have e: "trim_end v ?s (length v) = ?s + length (dropWhile ascii_space (rev (dropWhile ascii_space v)))"
    using trim_end_eq [OF le order_refl] unfolding d by (simp flip: d)
  have "substr v ?s (length (dropWhile ascii_space (rev (dropWhile ascii_space v)))) = trim v"
    using dropWhile_take_len [of "dropWhile ascii_space v" ascii_space] d by (simp add: substr_def trim_def)
  then show ?thesis by (simp add: TrimAsciiWhitespace_def s e Let_def)
qed

lemma trim_set: "set (trim s) \<subseteq> set s"
  unfolding trim_def by (metis set_dropWhileD set_rev subset_iff)

lemma trim_length: "length (trim s) \<le> length s"
  by (metis length_dropWhile_le length_rev order_trans trim_def)

lemma trim_ends: "trim s \<noteq> [] \<Longrightarrow> \<not> ascii_space (hd (trim s)) \<and> \<not> ascii_space (last (trim s))"
proof -
  assume ne: "trim s \<noteq> []"
  let ?d = "dropWhile ascii_space s"
  have l: "\<not> ascii_space (last (trim s))"
    using ne hd_dropWhile [of ascii_space "rev ?d"] by (simp add: trim_def last_rev)
  have "prefix (trim s) ?d"
    using suffix_dropWhile [of ascii_space "rev ?d"] by (simp add: trim_def suffix_to_prefix)
  then obtain zs where zs: "?d = trim s @ zs" by (rule prefixE)
  then have "?d \<noteq> []" "hd ?d = hd (trim s)" using ne by (simp_all only: append_is_Nil_conv hd_append2 not_False_eq_True simp_thms)
  then show ?thesis using l hd_dropWhile [of ascii_space s] by metis
qed

lemma trim_fixed: "s = [] \<or> \<not> ascii_space (hd s) \<and> \<not> ascii_space (last s) \<Longrightarrow> trim s = s"
proof (cases s)
  case (Cons a t)
  moreover assume "s = [] \<or> \<not> ascii_space (hd s) \<and> \<not> ascii_space (last s)"
  ultimately have a: "dropWhile ascii_space s = s" "\<not> ascii_space (last s)" "s \<noteq> []" by auto
  have "dropWhile ascii_space (rev s) = rev s"
    using a(2,3) by (cases "rev s") (simp_all add: hd_rev flip: hd_rev)
  then show ?thesis using a by (simp add: trim_def)
qed (simp add: trim_def)

lemma trim_trim [simp]: "trim (trim s) = trim s"
  using trim_fixed trim_ends by blast

lemma trim_valid: "IsValidUtf8 s \<Longrightarrow> IsValidUtf8 (trim s)"
  unfolding trim_def
  by (intro valid_dropWhile_rev valid_dropWhile) (auto simp: ascii_space_def)

end
