(* ===== verification/Inpx_Split.thy ===== *)
theory Inpx_Split
  imports Inpx_Text
begin

text \<open>
  Splitting a line into fields and lists, and the decimal integers of a record
  (\<open>SplitViews\<close>, \<open>SplitNonEmptyUtf8\<close>, \<open>TryParseInteger\<close> of
  \<open>libs/Inpx/InpxParser.cpp\<close>).
\<close>

section \<open>Operations\<close>

record SSplitResult =
  Parts :: "string list"
  ExceededLimit :: bool

function split_loop :: "string \<Rightarrow> char \<Rightarrow> nat \<Rightarrow> nat \<Rightarrow> string list \<Rightarrow> SSplitResult" where
  "split_loop value separator maxParts start parts =
    (if start \<le> length value then
       if length parts = maxParts then \<lparr>Parts = parts, ExceededLimit = True\<rparr>
       else case FindByteWithCheckpoints value separator start of
              None \<Rightarrow> \<lparr>Parts = parts @ [drop start value], ExceededLimit = False\<rparr>
            | Some end' \<Rightarrow>
                split_loop value separator maxParts (end' + 1) (parts @ [substr value start (end' - start)])
     else \<lparr>Parts = parts, ExceededLimit = False\<rparr>)"
  by pat_completeness auto
termination
  by (relation "measure (\<lambda>(v, _, _, i, _). Suc (length v) - i)") (auto dest: FindByte_ge)

declare split_loop.simps [simp del]

definition SplitViews :: "string \<Rightarrow> char \<Rightarrow> nat \<Rightarrow> SSplitResult" where
  "SplitViews value separator maxParts = split_loop value separator maxParts 0 []"

definition SplitNonEmptyUtf8 :: "string \<Rightarrow> char \<Rightarrow> nat \<Rightarrow> SSplitResult" where
  "SplitNonEmptyUtf8 value separator maxParts =
    (let split = SplitViews value separator maxParts in
     if ExceededLimit split then \<lparr>Parts = [], ExceededLimit = True\<rparr>
     else
       \<lparr>Parts = foldl (\<lambda>parts part.
            let trimmed = TrimAsciiWhitespace part in
            if trimmed \<noteq> [] then parts @ [trimmed] else parts) [] (Parts split),
        ExceededLimit = False\<rparr>)"

text \<open>
  \<open>std::from_chars\<close> in base ten for an integer type with the given least and greatest value: a
  minus sign is accepted for signed types only, no other sign and no space is, at least one digit is
  needed, and a value out of range is an error. The result is the value and the unread rest.
\<close>

definition digit_char :: "char \<Rightarrow> bool" where
  "digit_char c \<longleftrightarrow> 48 \<le> byte_of c \<and> byte_of c \<le> 57"

definition decimal :: "string \<Rightarrow> int" where
  "decimal ds = foldl (\<lambda>n c. n * 10 + (int (byte_of c) - 48)) 0 ds"

definition from_chars :: "int \<Rightarrow> int \<Rightarrow> string \<Rightarrow> (int \<times> string) option" where
  "from_chars least greatest s =
    (let negative = (least < 0 \<and> s \<noteq> [] \<and> hd s = CHR ''-'');
         t = (if negative then tl s else s);
         digits = takeWhile digit_char t;
         n = (if negative then - decimal digits else decimal digits) in
     if digits = [] then None
     else if n < least \<or> greatest < n then None
     else Some (n, dropWhile digit_char t))"

definition GMaxIntegerFieldBytes :: nat where
  "GMaxIntegerFieldBytes = 32"

definition TryParseInteger :: "int \<Rightarrow> int \<Rightarrow> string \<Rightarrow> int option" where
  "TryParseInteger least greatest value =
    (if value = [] \<or> length value > GMaxIntegerFieldBytes then None
     else case from_chars least greatest value of
            None \<Rightarrow> None
          | Some (parsed, rest) \<Rightarrow> if rest \<noteq> [] then None else Some parsed)"

abbreviation TryParseUint64 :: "string \<Rightarrow> int option" where
  "TryParseUint64 \<equiv> TryParseInteger 0 (2 ^ 64 - 1)"

abbreviation TryParseInt :: "string \<Rightarrow> int option" where
  "TryParseInt \<equiv> TryParseInteger (- (2 ^ 31)) (2 ^ 31 - 1)"

section \<open>Splitting\<close>

fun split_on :: "char \<Rightarrow> string \<Rightarrow> string list" where
  "split_on sep [] = [[]]"
| "split_on sep (c # cs) =
    (if c = sep then [] # split_on sep cs
     else case split_on sep cs of [] \<Rightarrow> [[c]] | p # ps \<Rightarrow> (c # p) # ps)"

fun join :: "char \<Rightarrow> string list \<Rightarrow> string" where
  "join sep [] = []"
| "join sep [p] = p"
| "join sep (p # q # ps) = p @ sep # join sep (q # ps)"

lemma split_on_ne [simp]: "split_on sep s \<noteq> []"
  by (cases s) (auto split: list.splits)

lemma split_on_no_sep: "sep \<notin> set p \<Longrightarrow> split_on sep p = [p]"
  by (induction p) auto

lemma split_on_append: "sep \<notin> set p \<Longrightarrow> split_on sep (p @ sep # s) = p # split_on sep s"
  by (induction p) auto

lemma join_split: "join sep (split_on sep s) = s"
proof (induction s)
  case (Cons c s)
  obtain p ps where "split_on sep s = p # ps" by (cases "split_on sep s") simp_all
  with Cons show ?case by (cases ps) simp_all
qed simp

lemma split_join: "ps \<noteq> [] \<Longrightarrow> list_all (\<lambda>p. sep \<notin> set p) ps \<Longrightarrow> split_on sep (join sep ps) = ps"
  by (induction sep ps rule: join.induct) (auto simp: split_on_no_sep split_on_append)

lemma split_on_parts: "p \<in> set (split_on sep s) \<Longrightarrow> sep \<notin> set p"
  by (induction s arbitrary: p) (auto split: list.splits if_splits)

lemma split_on_find:
  "split_on sep s = (case find_char sep s of None \<Rightarrow> [s] | Some i \<Rightarrow> take i s # split_on sep (drop (Suc i) s))"
proof (cases "find_char sep s")
  case None
  moreover from None have "sep \<notin> set s" by (simp only: find_char_None not_False_eq_True)
  ultimately show ?thesis by (simp add: split_on_no_sep)
next
  case (Some i)
  then have i: "i < length s" "s ! i = sep" "sep \<notin> set (take i s)" by (auto simp: find_char_Some)
  then have "s = take i s @ sep # drop (Suc i) s" by (metis id_take_nth_drop)
  with Some i(3) show ?thesis using split_on_append [of sep "take i s" "drop (Suc i) s"] by simp
qed

text \<open>\<open>SplitViews\<close> gives all parts, or reports that there are more than \<open>maxParts\<close> of them.\<close>

lemma split_loop_eq:
  "start \<le> length v \<Longrightarrow> length parts \<le> m \<Longrightarrow> split_loop v sep m start parts =
    (let all = parts @ split_on sep (drop start v) in
     if length all \<le> m then \<lparr>Parts = all, ExceededLimit = False\<rparr>
     else \<lparr>Parts = take m all, ExceededLimit = True\<rparr>)"
proof (induction v sep m start parts rule: split_loop.induct)
  case (1 v sep m start parts)
  have pos: "0 < length (split_on sep (drop start v))" by simp
  show ?case
  proof (cases "length parts = m")
    case True
    with "1.prems" pos show ?thesis by (simp add: split_loop.simps [of v sep m start] Let_def)
  next
    case False
    with "1.prems" have lt: "length parts < m" by simp
    show ?thesis
    proof (cases "FindByteWithCheckpoints v sep start")
      case None
      then have "split_on sep (drop start v) = [drop start v]"
        by (simp add: FindByte_eq find_char_None split_on_no_sep)
      with None False "1.prems" lt show ?thesis by (simp add: split_loop.simps [of v sep m start] Let_def)
    next
      case (Some e)
      then obtain i where i: "find_char sep (drop start v) = Some i" "e = start + i"
        by (auto simp: FindByte_eq)
      have sp: "split_on sep (drop start v) = substr v start (e - start) # split_on sep (drop (e + 1) v)"
        using i by (simp add: split_on_find [of sep "drop start v"] substr_def add.commute)
      have "split_loop v sep m start parts = split_loop v sep m (e + 1) (parts @ [substr v start (e - start)])"
        using Some False "1.prems" by (simp add: split_loop.simps [of v sep m start])
      also have "\<dots> = (let all = (parts @ [substr v start (e - start)]) @ split_on sep (drop (e + 1) v) in
          if length all \<le> m then \<lparr>Parts = all, ExceededLimit = False\<rparr>
          else \<lparr>Parts = take m all, ExceededLimit = True\<rparr>)"
        using FindByte_ge [OF Some] lt by (intro "1.IH" [OF "1.prems"(1) False Some]) simp_all
      finally show ?thesis by (simp add: sp)
    qed
  qed
qed

lemma SplitViews_eq:
  "SplitViews v sep m =
    (if length (split_on sep v) \<le> m then \<lparr>Parts = split_on sep v, ExceededLimit = False\<rparr>
     else \<lparr>Parts = take m (split_on sep v), ExceededLimit = True\<rparr>)"
  using split_loop_eq [of 0 v "[]" m sep] by (simp add: SplitViews_def Let_def)

lemma SplitNonEmpty_eq:
  "SplitNonEmptyUtf8 v sep m =
    (if length (split_on sep v) \<le> m
     then \<lparr>Parts = filter (\<lambda>p. p \<noteq> []) (map trim (split_on sep v)), ExceededLimit = False\<rparr>
     else \<lparr>Parts = [], ExceededLimit = True\<rparr>)"
proof -
  have "foldl (\<lambda>parts part. let t = TrimAsciiWhitespace part in if t \<noteq> [] then parts @ [t] else parts) acc ps
      = acc @ filter (\<lambda>p. p \<noteq> []) (map trim ps)" for acc ps
    by (induction ps arbitrary: acc) (auto simp: TrimAscii_eq Let_def)
  then show ?thesis by (simp add: SplitNonEmptyUtf8_def SplitViews_eq Let_def)
qed

lemma valid_append_iff: "IsValidUtf8 p \<Longrightarrow> IsValidUtf8 (p @ d) \<longleftrightarrow> IsValidUtf8 d"
proof
  assume "IsValidUtf8 p" and pd: "IsValidUtf8 (p @ d)"
  then obtain ps where ps: "list_all scalar ps" "p = utf8 ps" by (auto simp: IsValidUtf8_iff)
  obtain ns where "list_all scalar ns" "utf8 ps @ d = utf8 ns" using pd ps by (auto simp: IsValidUtf8_iff)
  then show "IsValidUtf8 d" using ps(1)
  proof (induction ps arbitrary: ns)
    case (Cons c ps)
    obtain n ms where ms: "ns = n # ms"
      using Cons.prems(2) utf8c.encode_nonempty [of c] by (cases ns) simp_all
    have "utf8 ps @ d = utf8 ms"
      using utf8c.encode_prefix_free [of c n "utf8 ps @ d" "utf8 ms"] Cons.prems ms by simp
    moreover have "list_all scalar ms" "list_all scalar ps" using Cons.prems ms by simp_all
    ultimately show ?case by (intro Cons.IH)
  qed simp
qed (rule valid_append)

lemma split_on_valid:
  assumes "byte_of sep < 128"
  shows "IsValidUtf8 s \<Longrightarrow> p \<in> set (split_on sep s) \<Longrightarrow> IsValidUtf8 p"
proof (induction "length s" arbitrary: s rule: less_induct)
  case less
  show ?case
  proof (cases "sep \<in> set s")
    case True
    define q where "q = takeWhile (\<lambda>c. c \<noteq> sep) s"
    obtain r where "dropWhile (\<lambda>c. c \<noteq> sep) s = sep # r"
      using True by (metis (mono_tags, lifting) dropWhile_eq_Nil_conv hd_dropWhile list.collapse)
    then have s: "s = q @ sep # r" using takeWhile_dropWhile_id [of "\<lambda>c. c \<noteq> sep" s] by (simp add: q_def)
    have np: "sep \<notin> set q" by (auto simp: q_def dest: set_takeWhileD)
    have vq: "IsValidUtf8 q" unfolding q_def using less.prems(1) assms by (intro valid_takeWhile) auto
    have "IsValidUtf8 (sep # r)" using less.prems(1) valid_append_iff [OF vq] s by simp
    then have vr: "IsValidUtf8 r" using assms by (simp add: valid_after_ascii)
    have "p = q \<or> p \<in> set (split_on sep r)"
      using less.prems(2) split_on_append [OF np, of r] s by simp
    then show ?thesis using vq less.hyps [of r] vr s by auto
  next
    case False
    then show ?thesis using less.prems by (simp add: split_on_no_sep)
  qed
qed

section \<open>Decimal integers\<close>

lemma TryParseInteger_range: "TryParseInteger lo hi v = Some n \<Longrightarrow> lo \<le> n \<and> n \<le> hi"
  by (auto simp: TryParseInteger_def from_chars_def Let_def split: if_splits option.splits)

lemma decimal_snoc: "decimal (ds @ [c]) = decimal ds * 10 + (int (byte_of c) - 48)"
  by (simp add: decimal_def)

lemma to_string_digits: "c \<in> set (to_string n) \<Longrightarrow> digit_char c"
proof (induction n rule: to_string.induct)
  case (1 n)
  have d: "digit_char (chr_of (48 + k))" if "k < 10" for k
    using that by (simp add: digit_char_def byte_of_chr_of)
  from 1 show ?case by (auto simp: to_string.simps [of n] d split: if_splits)
qed

lemma to_string_ne [simp]: "to_string n \<noteq> []"
  by (simp add: to_string.simps [of n])

lemma decimal_to_string: "decimal (to_string n) = int n"
proof (induction n rule: to_string.induct)
  case (1 n)
  show ?case
  proof (cases "n < 10")
    case True
    then show ?thesis by (simp add: to_string.simps [of n] decimal_def byte_of_chr_of)
  next
    case False
    then have "decimal (to_string n) = int (n div 10) * 10 + int (n mod 10)"
      using 1 by (simp add: to_string.simps [of n] decimal_snoc byte_of_chr_of)
    also have "\<dots> = int (n div 10 * 10 + n mod 10)" by (simp only: of_nat_add of_nat_mult of_nat_numeral)
    finally show ?thesis by (simp only: div_mult_mod_eq)
  qed
qed

lemma digit_not_space: "digit_char c \<Longrightarrow> \<not> ascii_space c"
  by (simp add: digit_char_def ascii_space_def)

lemma to_string_trim [simp]: "trim (to_string n) = to_string n"
  by (rule trim_fixed) (meson digit_not_space hd_in_set last_in_set to_string_digits to_string_ne)

text \<open>Printing a number with \<open>std::to_string\<close> and reading it gives the number back.\<close>

lemma TryParse_to_string:
  assumes "lo \<le> 0" "int n \<le> hi" "length (to_string n) \<le> GMaxIntegerFieldBytes"
  shows "TryParseInteger lo hi (to_string n) = Some (int n)"
proof -
  have h: "hd (to_string n) \<noteq> CHR ''-''"
    using to_string_digits [of "hd (to_string n)" n] by (auto simp: digit_char_def)
  have t: "takeWhile digit_char (to_string n) = to_string n" "dropWhile digit_char (to_string n) = []"
    by (auto simp: takeWhile_eq_all_conv dropWhile_eq_Nil_conv to_string_digits)
  show ?thesis
    using assms h by (simp add: TryParseInteger_def from_chars_def Let_def decimal_to_string t del: takeWhile_eq_all_conv dropWhile_eq_Nil_conv)
qed

end
