(* ===== verification/Inpx_Records.thy ===== *)
theory Inpx_Records
  imports Inpx_Split Legacy_Cyrillic
begin

text \<open>
  Records of an INP entry: \<open>ParseAuthor\<close>, \<open>ParseRecordLine\<close> and \<open>ParseSegment\<close> of
  \<open>libs/Inpx/InpxParser.cpp\<close> over the data of \<open>InpxRecord.hpp\<close>.

  The record and warning callbacks of the caller are the two output lists of \<open>parse_state\<close>, in
  the order of the calls.
\<close>

section \<open>Data\<close>

record SInpxAuthor =
  DisplayNameUtf8 :: string
  LastNameUtf8 :: string
  FirstNameUtf8 :: string
  MiddleNameUtf8 :: string

record SInpxRecord =
  Authors :: "SInpxAuthor list"
  GenresUtf8 :: "string list"
  KeywordsUtf8 :: "string list"
  TitleUtf8 :: string
  SeriesUtf8 :: "string option"
  SeriesNumber :: "int option"
  FileNameUtf8 :: string
  FileSizeBytes :: int
  LibId :: string
  Deleted :: bool
  FileExtensionUtf8 :: string
  DateAddedUtf8 :: "string option"
  LanguageUtf8 :: string
  InpEntryNameUtf8 :: string
  ArchiveNameUtf8 :: string
  EntryNameUtf8 :: string

record SInpxSegmentPayload =
  SegInpEntryNameUtf8 :: string
  SegArchiveNameUtf8 :: string
  SegFingerprintUtf8 :: string
  SegBytes :: string

record SInpxWarning =
  MessageUtf8 :: string
  WarnInpEntryNameUtf8 :: string
  LineNumber :: nat
  RecordSkipped :: bool

record SInpxParseSummary =
  InpEntryCount :: nat
  TotalRecords :: nat
  ParsedRecords :: nat
  SkippedRecords :: nat
  DeletedRecords :: nat
  WarningCount :: nat

record parse_state =
  Summary :: SInpxParseSummary
  Records :: "SInpxRecord list"
  Warnings :: "SInpxWarning list"

definition empty_summary :: SInpxParseSummary where
  "empty_summary = \<lparr>InpEntryCount = 0, TotalRecords = 0, ParsedRecords = 0, SkippedRecords = 0,
     DeletedRecords = 0, WarningCount = 0\<rparr>"

definition GFieldSeparator :: char where "GFieldSeparator = CHR 0x04"
definition GExpectedFieldCount :: nat where "GExpectedFieldCount = 15"
definition GMaxAuthorsPerRecord :: nat where "GMaxAuthorsPerRecord = 256"
definition GMaxAuthorNameParts :: nat where "GMaxAuthorNameParts = 3"
definition GMaxGenresPerRecord :: nat where "GMaxGenresPerRecord = 512"
definition GMaxKeywordsPerRecord :: nat where "GMaxKeywordsPerRecord = 512"
definition GMaxFileExtensionBytes :: nat where "GMaxFileExtensionBytes = 32"
definition GMaxInpRecordLineBytes :: nat where "GMaxInpRecordLineBytes = 1024 * 1024"

section \<open>Operations\<close>

definition EmitWarning :: "parse_state \<Rightarrow> string \<Rightarrow> nat \<Rightarrow> string \<Rightarrow> bool \<Rightarrow> parse_state" where
  "EmitWarning st inpEntryName lineNumber message recordSkipped =
    st\<lparr>Summary := (Summary st)\<lparr>WarningCount := WarningCount (Summary st) + 1\<rparr>,
       Warnings := Warnings st @ [\<lparr>MessageUtf8 = message, WarnInpEntryNameUtf8 = inpEntryName,
         LineNumber = lineNumber, RecordSkipped = recordSkipped\<rparr>]\<rparr>"

definition DecodeInpPayloadToUtf8 :: "convert \<Rightarrow> string \<Rightarrow> text_error + string" where
  "DecodeInpPayloadToUtf8 convert_text bytes =
    (if length bytes \<ge> 3 \<and> byte_of (bytes ! 0) = 0xEF \<and> byte_of (bytes ! 1) = 0xBB \<and> byte_of (bytes ! 2) = 0xBF
     then Inr (CopyTextWithCheckpoints (drop 3 bytes))
     else if length bytes \<ge> 2 \<and> byte_of (bytes ! 0) = 0xFF \<and> byte_of (bytes ! 1) = 0xFE
     then Utf16LeToUtf8 convert_text bytes
     else if length bytes \<ge> 2 \<and> byte_of (bytes ! 0) = 0xFE \<and> byte_of (bytes ! 1) = 0xFF
     then Utf16BeToUtf8 convert_text bytes
     else if IsValidUtf8 bytes then Inr (CopyTextWithCheckpoints bytes)
     else DecodeLegacyCyrillicToUtf8 convert_text bytes ''Failed to decode INP payload from CP1251 or CP866.'')"

definition BuildArchiveName :: "string \<Rightarrow> string" where
  "BuildArchiveName inpEntryName =
    (let fileName = rev (takeWhile (\<lambda>c. c \<notin> {CHR ''/'', CHR 0x5C}) (rev inpEntryName)) in
     if EndsWithAsciiInsensitive fileName ''.inp'' then take (length fileName - 4) fileName else fileName)"

definition append_name :: "string \<Rightarrow> string \<Rightarrow> string" where
  "append_name displayName name =
    (if name = [] then displayName
     else AppendTextWithCheckpoints (if displayName = [] then displayName else displayName @ '' '') name)"

definition ParseAuthor :: "string \<Rightarrow> SInpxAuthor option" where
  "ParseAuthor rawAuthor =
    (let split = SplitViews rawAuthor (CHR '','') GMaxAuthorNameParts in
     if ExceededLimit split then None
     else
       let parts = Parts split;
           lastName = (if parts \<noteq> [] then TrimAsciiWhitespace (parts ! 0) else []);
           firstName = (if length parts > 1 then TrimAsciiWhitespace (parts ! 1) else []);
           middleName = (if length parts > 2 then TrimAsciiWhitespace (parts ! 2) else []);
           displayName = append_name (append_name (append_name [] firstName) middleName) lastName in
       Some \<lparr>DisplayNameUtf8 = (if displayName = [] then TrimAsciiWhitespace rawAuthor else displayName),
             LastNameUtf8 = lastName, FirstNameUtf8 = firstName, MiddleNameUtf8 = middleName\<rparr>)"

fun parse_authors :: "string list \<Rightarrow> SInpxAuthor list \<Rightarrow> SInpxAuthor list option" where
  "parse_authors [] authors = Some authors"
| "parse_authors (authorRaw # rest) authors =
    (let trimmed = TrimAsciiWhitespace authorRaw in
     if trimmed = [] then parse_authors rest authors
     else case ParseAuthor trimmed of
            None \<Rightarrow> None
          | Some author \<Rightarrow> parse_authors rest (authors @ [author]))"

text \<open>The assembly of the record at the end of \<open>ParseRecordLine\<close>, without the series number.\<close>

definition optional_text :: "string \<Rightarrow> string option" where
  "optional_text s = (if s \<noteq> [] then Some s else None)"

definition assemble_record ::
    "string \<Rightarrow> string \<Rightarrow> string list \<Rightarrow> string \<Rightarrow> string \<Rightarrow> int \<Rightarrow> int \<Rightarrow> string \<Rightarrow>
     SInpxAuthor list \<Rightarrow> string list \<Rightarrow> string list \<Rightarrow> int option \<Rightarrow> SInpxRecord" where
  "assemble_record archiveName inpEntryName flds fileName libId fileSize deleted fileExtension authors genres
     keywords seriesNumber =
    (let extension = (if ToLowerAscii fileExtension = [] then ''fb2'' else ToLowerAscii fileExtension);
         title = TrimAsciiWhitespace (flds ! 2) in
     \<lparr>Authors = authors, GenresUtf8 = genres, KeywordsUtf8 = keywords,
      TitleUtf8 = (if title = [] then CopyTextWithCheckpoints fileName else title),
      SeriesUtf8 = optional_text (TrimAsciiWhitespace (flds ! 3)), SeriesNumber = seriesNumber,
      FileNameUtf8 = fileName, FileSizeBytes = fileSize, LibId = libId, Deleted = (deleted \<noteq> 0),
      FileExtensionUtf8 = extension, DateAddedUtf8 = optional_text (TrimAsciiWhitespace (flds ! 10)),
      LanguageUtf8 = TrimAsciiWhitespace (flds ! 11),
      InpEntryNameUtf8 = CopyTextWithCheckpoints inpEntryName,
      ArchiveNameUtf8 = CopyTextWithCheckpoints archiveName,
      EntryNameUtf8 = AppendTextWithCheckpoints [] fileName @ ''.'' @ extension\<rparr>)"

definition ParseRecordLine ::
    "(SInpxRecord \<Rightarrow> parse_state \<Rightarrow> parse_state) \<Rightarrow> string \<Rightarrow> string \<Rightarrow> nat \<Rightarrow> string \<Rightarrow> parse_state \<Rightarrow>
     bool \<times> parse_state" where
  "ParseRecordLine onRecord archiveName inpEntryName lineNumber line st =
    (let skip = (\<lambda>message. (False, EmitWarning st inpEntryName lineNumber message True));
         fieldSplit = SplitViews line GFieldSeparator GExpectedFieldCount;
         flds = Parts fieldSplit in
     if ExceededLimit fieldSplit \<or> length flds \<noteq> GExpectedFieldCount
     then skip ''Skipped malformed INPX record: expected 15 fields.''
     else
     let fileName = TrimAsciiWhitespace (flds ! 5); libId = TrimAsciiWhitespace (flds ! 7) in
     if fileName = [] \<or> libId = []
     then skip ''Skipped malformed INPX record: file name or LibId is empty.''
     else case TryParseUint64 (TrimAsciiWhitespace (flds ! 6)) of
       None \<Rightarrow> skip ''Skipped malformed INPX record: FileSize is not a valid integer.''
     | Some fileSize \<Rightarrow>
     let deletedRaw = TrimAsciiWhitespace (flds ! 8) in
     (case (if deletedRaw = [] then Some 0 else TryParseInt deletedRaw) of
       None \<Rightarrow> skip ''Skipped malformed INPX record: Deleted is not a valid integer.''
     | Some deleted \<Rightarrow>
     let fileExtension = TrimAsciiWhitespace (flds ! 9) in
     if length fileExtension > GMaxFileExtensionBytes
     then skip ''Skipped malformed INPX record: FileExt exceeds 32 bytes.''
     else
     let authorSplit = SplitViews (flds ! 0) (CHR '':'') GMaxAuthorsPerRecord in
     if ExceededLimit authorSplit
     then skip ''Skipped malformed INPX record: too many authors.''
     else case parse_authors (Parts authorSplit) [] of
       None \<Rightarrow> skip ''Skipped malformed INPX record: author has more than three name components.''
     | Some authors \<Rightarrow>
     let genres = SplitNonEmptyUtf8 (flds ! 1) (CHR '':'') GMaxGenresPerRecord in
     if ExceededLimit genres
     then skip ''Skipped malformed INPX record: too many genres.''
     else
     let keywords = SplitNonEmptyUtf8 (flds ! 13) (CHR '':'') GMaxKeywordsPerRecord in
     if ExceededLimit keywords
     then skip ''Skipped malformed INPX record: too many keywords.''
     else
     let seriesNumberRaw = TrimAsciiWhitespace (flds ! 4);
         seriesNumber = (if seriesNumberRaw = [] then None else TryParseInt seriesNumberRaw);
         st' = (if seriesNumberRaw \<noteq> [] \<and> seriesNumber = None
                then EmitWarning st inpEntryName lineNumber
                       ''INPX record has invalid SeriesNumber; value ignored.'' False
                else st)
     in (True, onRecord (assemble_record archiveName inpEntryName flds fileName libId fileSize deleted
                 fileExtension authors (Parts genres) (Parts keywords) seriesNumber) st')))"

text \<open>The record callback that \<open>ParseSegment\<close> passes, and its work on one line.\<close>

definition segment_onRecord :: "SInpxRecord \<Rightarrow> parse_state \<Rightarrow> parse_state" where
  "segment_onRecord record st =
    st\<lparr>Summary := (Summary st)\<lparr>ParsedRecords := ParsedRecords (Summary st) + 1,
         DeletedRecords := DeletedRecords (Summary st) + (if Deleted record then 1 else 0)\<rparr>,
       Records := Records st @ [record]\<rparr>"

definition line_limit_message :: "string \<Rightarrow> nat \<Rightarrow> string" where
  "line_limit_message entryName lineNumber =
    ''INP entry '' @ [CHR 0x27] @ entryName @ [CHR 0x27] @ '' line '' @ to_string lineNumber @ '' exceeds the ''
    @ to_string GMaxInpRecordLineBytes @ ''-byte record limit.''"

definition segment_line ::
    "SInpxSegmentPayload \<Rightarrow> nat \<Rightarrow> string \<Rightarrow> parse_state \<Rightarrow> text_error + parse_state" where
  "segment_line segment lineNumber rawLine st =
    (let line = (if rawLine \<noteq> [] \<and> last rawLine = CHR 0x0D then butlast rawLine else rawLine) in
     if line = [] then Inr st
     else if length line > GMaxInpRecordLineBytes
     then Inl (TextRuntimeError (line_limit_message (SegInpEntryNameUtf8 segment) lineNumber))
     else
       let st' = st\<lparr>Summary := (Summary st)\<lparr>TotalRecords := TotalRecords (Summary st) + 1\<rparr>\<rparr> in
       case ParseRecordLine segment_onRecord (SegArchiveNameUtf8 segment) (SegInpEntryNameUtf8 segment)
              lineNumber line st' of
         (True, st'') \<Rightarrow> Inr st''
       | (False, st'') \<Rightarrow>
           Inr (st''\<lparr>Summary := (Summary st'')\<lparr>SkippedRecords := SkippedRecords (Summary st'') + 1\<rparr>\<rparr>))"

function segment_loop ::
    "SInpxSegmentPayload \<Rightarrow> string \<Rightarrow> nat \<Rightarrow> nat \<Rightarrow> parse_state \<Rightarrow> text_error + parse_state" where
  "segment_loop segment text' start lineNumber st =
    (if start \<le> length text' then
       case FindByteWithCheckpoints text' (CHR 0x0A) start of
         None \<Rightarrow> segment_line segment (lineNumber + 1) (drop start text') st
       | Some end' \<Rightarrow>
           (case segment_line segment (lineNumber + 1) (substr text' start (end' - start)) st of
              Inl e \<Rightarrow> Inl e
            | Inr st' \<Rightarrow> segment_loop segment text' (end' + 1) (lineNumber + 1) st')
     else Inr st)"
  by pat_completeness auto
termination
  by (relation "measure (\<lambda>(_, t, i, _, _). Suc (length t) - i)") (auto dest: FindByte_ge)

declare segment_loop.simps [simp del]

definition ParseSegment ::
    "convert \<Rightarrow> SInpxSegmentPayload \<Rightarrow> SInpxRecord list \<Rightarrow> SInpxWarning list \<Rightarrow> text_error + parse_state" where
  "ParseSegment convert_text segment records warnings =
    (case DecodeInpPayloadToUtf8 convert_text (SegBytes segment) of
       Inl e \<Rightarrow> Inl e
     | Inr decodedText \<Rightarrow>
         segment_loop segment decodedText 0 0
           \<lparr>Summary = empty_summary\<lparr>InpEntryCount := 1\<rparr>, Records = records, Warnings = warnings\<rparr>)"

end
