(* ===== verification/Inpx_Correctness.thy ===== *)
theory Inpx_Correctness
  imports Inpx_Records
begin

text \<open>
  What the INP record parser guarantees: every record it reports is well formed, its counters
  agree with what it reported, and a printed record is read back.
\<close>

section \<open>Well-formed records\<close>

definition trimmed :: "string \<Rightarrow> bool" where
  "trimmed s \<longleftrightarrow> trim s = s"

definition wf_author :: "SInpxAuthor \<Rightarrow> bool" where
  "wf_author a \<longleftrightarrow> DisplayNameUtf8 a \<noteq> []
    \<and> trimmed (LastNameUtf8 a) \<and> trimmed (FirstNameUtf8 a) \<and> trimmed (MiddleNameUtf8 a)"

definition wf_record :: "SInpxRecord \<Rightarrow> bool" where
  "wf_record r \<longleftrightarrow>
    FileNameUtf8 r \<noteq> [] \<and> trimmed (FileNameUtf8 r) \<and> LibId r \<noteq> [] \<and> trimmed (LibId r)
    \<and> TitleUtf8 r \<noteq> [] \<and> trimmed (TitleUtf8 r)
    \<and> 0 \<le> FileSizeBytes r \<and> FileSizeBytes r < 2 ^ 64
    \<and> (case SeriesNumber r of None \<Rightarrow> True | Some n \<Rightarrow> - (2 ^ 31) \<le> n \<and> n < 2 ^ 31)
    \<and> SeriesUtf8 r \<noteq> Some [] \<and> DateAddedUtf8 r \<noteq> Some []
    \<and> FileExtensionUtf8 r \<noteq> [] \<and> length (FileExtensionUtf8 r) \<le> 32
    \<and> ToLowerAscii (FileExtensionUtf8 r) = FileExtensionUtf8 r
    \<and> EntryNameUtf8 r = FileNameUtf8 r @ ''.'' @ FileExtensionUtf8 r
    \<and> length (Authors r) \<le> 256 \<and> list_all wf_author (Authors r)
    \<and> length (GenresUtf8 r) \<le> 512 \<and> list_all (\<lambda>g. g \<noteq> [] \<and> trimmed g) (GenresUtf8 r)
    \<and> length (KeywordsUtf8 r) \<le> 512 \<and> list_all (\<lambda>k. k \<noteq> [] \<and> trimmed k) (KeywordsUtf8 r)"

text \<open>\<open>ParseRecordLine\<close> over the list of all fields, with the text helpers replaced by what they compute.\<close>

definition words_of :: "string \<Rightarrow> string list" where
  "words_of s = filter (\<lambda>p. p \<noteq> []) (map trim (split_on (CHR '':'') s))"

definition parse_fields ::
    "(SInpxRecord \<Rightarrow> parse_state \<Rightarrow> parse_state) \<Rightarrow> string \<Rightarrow> string \<Rightarrow> nat \<Rightarrow> string list \<Rightarrow> parse_state \<Rightarrow>
     bool \<times> parse_state" where
  "parse_fields onRecord a e n flds st =
    (let skip = (\<lambda>m. (False, EmitWarning st e n m True)) in
     if length flds \<noteq> 15 then skip ''Skipped malformed INPX record: expected 15 fields.''
     else if trim (flds ! 5) = [] \<or> trim (flds ! 7) = []
     then skip ''Skipped malformed INPX record: file name or LibId is empty.''
     else case TryParseUint64 (trim (flds ! 6)) of
       None \<Rightarrow> skip ''Skipped malformed INPX record: FileSize is not a valid integer.''
     | Some fsz \<Rightarrow>
     (case (if trim (flds ! 8) = [] then Some 0 else TryParseInt (trim (flds ! 8))) of
       None \<Rightarrow> skip ''Skipped malformed INPX record: Deleted is not a valid integer.''
     | Some del \<Rightarrow>
     if length (trim (flds ! 9)) > 32
     then skip ''Skipped malformed INPX record: FileExt exceeds 32 bytes.''
     else if length (split_on (CHR '':'') (flds ! 0)) > 256
     then skip ''Skipped malformed INPX record: too many authors.''
     else case parse_authors (split_on (CHR '':'') (flds ! 0)) [] of
       None \<Rightarrow> skip ''Skipped malformed INPX record: author has more than three name components.''
     | Some authors \<Rightarrow>
     if length (split_on (CHR '':'') (flds ! 1)) > 512
     then skip ''Skipped malformed INPX record: too many genres.''
     else if length (split_on (CHR '':'') (flds ! 13)) > 512
     then skip ''Skipped malformed INPX record: too many keywords.''
     else
     let sn = (if trim (flds ! 4) = [] then None else TryParseInt (trim (flds ! 4))) in
     (True, onRecord (assemble_record a e flds (trim (flds ! 5)) (trim (flds ! 7)) fsz del
                 (trim (flds ! 9)) authors (words_of (flds ! 1)) (words_of (flds ! 13)) sn)
        (if trim (flds ! 4) \<noteq> [] \<and> sn = None
         then EmitWarning st e n ''INPX record has invalid SeriesNumber; value ignored.'' False else st))))"

lemma ParseRecordLine_eq:
  "ParseRecordLine onRecord a e n line st = parse_fields onRecord a e n (split_on GFieldSeparator line) st"
proof (cases "length (split_on GFieldSeparator line) \<le> 15")
  case True
  have v: "Parts (SplitViews line GFieldSeparator 15) = split_on GFieldSeparator line"
    "ExceededLimit (SplitViews line GFieldSeparator 15) = False"
    using True by (simp_all add: SplitViews_eq)
  have x: "ExceededLimit (SplitViews s c m) \<longleftrightarrow> m < length (split_on c s)"
    "ExceededLimit (SplitNonEmptyUtf8 s c m) \<longleftrightarrow> m < length (split_on c s)" for s c m
    by (auto simp: SplitViews_eq SplitNonEmpty_eq)
  have p: "\<not> m < length (split_on c s) \<Longrightarrow> Parts (SplitViews s c m) = split_on c s"
    "\<not> m < length (split_on (CHR '':'') s) \<Longrightarrow> Parts (SplitNonEmptyUtf8 s (CHR '':'') m) = words_of s" for s c m
    by (simp_all add: SplitViews_eq SplitNonEmpty_eq words_of_def)
  show ?thesis
    unfolding ParseRecordLine_def parse_fields_def Let_def GExpectedFieldCount_def GMaxAuthorsPerRecord_def
      GMaxGenresPerRecord_def GMaxKeywordsPerRecord_def GMaxFileExtensionBytes_def TrimAscii_eq v
    by (simp only: p x simp_thms cong: if_cong option.case_cong)
next
  case False
  then show ?thesis
    by (simp add: ParseRecordLine_def parse_fields_def GExpectedFieldCount_def SplitViews_eq Let_def)
qed

text \<open>Everything a successful \<open>ParseRecordLine\<close> has checked.\<close>

lemma parse_fields_True:
  assumes "parse_fields onRecord a e n flds st = (True, st2)"
  obtains fsz del authors sn st' where
    "length flds = 15" "trim (flds ! 5) \<noteq> []" "trim (flds ! 7) \<noteq> []"
    "TryParseUint64 (trim (flds ! 6)) = Some fsz"
    "length (trim (flds ! 9)) \<le> 32"
    "length (split_on (CHR '':'') (flds ! 0)) \<le> 256"
    "parse_authors (split_on (CHR '':'') (flds ! 0)) [] = Some authors"
    "length (split_on (CHR '':'') (flds ! 1)) \<le> 512" "length (split_on (CHR '':'') (flds ! 13)) \<le> 512"
    "sn = (if trim (flds ! 4) = [] then None else TryParseInt (trim (flds ! 4)))"
    "st' = st \<or> (\<exists>m. st' = EmitWarning st e n m False)"
    "st2 = onRecord (assemble_record a e flds (trim (flds ! 5)) (trim (flds ! 7)) fsz del (trim (flds ! 9)) authors
        (words_of (flds ! 1)) (words_of (flds ! 13)) sn) st'"
proof -
  note A = assms [unfolded parse_fields_def Let_def]
  have l: "length flds = 15" using A by (rule contrapos_pp) simp
  have f: "\<not> (trim (flds ! 5) = [] \<or> trim (flds ! 7) = [])" using A by (rule contrapos_pp) (simp add: l)
  note A = A [unfolded l, unfolded if_not_P [OF f] simp_thms if_False]
  obtain fsz where fsz: "TryParseUint64 (trim (flds ! 6)) = Some fsz" using A by (cases "TryParseUint64 (trim (flds ! 6))") simp_all
  note A = A [unfolded fsz option.case]
  obtain del where del: "(if trim (flds ! 8) = [] then Some 0 else TryParseInt (trim (flds ! 8))) = Some del"
    using A by (cases "if trim (flds ! 8) = [] then Some 0 else TryParseInt (trim (flds ! 8))") simp_all
  note A = A [unfolded del option.case]
  have ext: "\<not> length (trim (flds ! 9)) > 32" using A by (rule contrapos_pn) simp
  note A = A [unfolded if_not_P [OF ext]]
  have na: "\<not> length (split_on (CHR '':'') (flds ! 0)) > 256" using A by (rule contrapos_pn) simp
  note A = A [unfolded if_not_P [OF na]]
  obtain authors where authors: "parse_authors (split_on (CHR '':'') (flds ! 0)) [] = Some authors"
    using A by (cases "parse_authors (split_on (CHR '':'') (flds ! 0)) []") simp_all
  note A = A [unfolded authors option.case]
  have ng: "\<not> length (split_on (CHR '':'') (flds ! 1)) > 512" using A by (rule contrapos_pn) simp
  note A = A [unfolded if_not_P [OF ng]]
  have nk: "\<not> length (split_on (CHR '':'') (flds ! 13)) > 512" using A by (rule contrapos_pn) simp
  note A = A [unfolded if_not_P [OF nk]]
  show thesis
  proof (rule that [OF l _ _ fsz _ _ authors _ _ refl])
    show "trim (flds ! 5) \<noteq> []" "trim (flds ! 7) \<noteq> []" using f by simp_all
    show "length (trim (flds ! 9)) \<le> 32" using ext by simp
    show "length (split_on (CHR '':'') (flds ! 0)) \<le> 256" using na by simp
    show "length (split_on (CHR '':'') (flds ! 1)) \<le> 512" "length (split_on (CHR '':'') (flds ! 13)) \<le> 512"
      using ng nk by simp_all
    let ?c = "trim (flds ! 4) \<noteq> [] \<and> (if trim (flds ! 4) = [] then None else TryParseInt (trim (flds ! 4))) = None"
    let ?w = "EmitWarning st e n ''INPX record has invalid SeriesNumber; value ignored.'' False"
    have or: "(if c then w m' else st) = st \<or> (\<exists>m. (if c then w m' else st) = w m)" for c m' and w :: "string \<Rightarrow> parse_state"
      by auto
    show "(if ?c then ?w else st) = st \<or> (\<exists>m. (if ?c then ?w else st) = EmitWarning st e n m False)"
      by (rule or)
  qed (rule sym [OF conjunct2 [OF A [unfolded prod.inject]]])
qed

definition reported :: "parse_state \<Rightarrow> string \<Rightarrow> nat \<Rightarrow> bool \<times> parse_state \<Rightarrow> bool" where
  "reported st e n res \<longleftrightarrow> fst res \<or> (\<exists>m. snd res = EmitWarning st e n m True)"

lemma reported_intros:
  "reported st e n (True, z)"
  "reported st e n (False, EmitWarning st e n m True)"
  "reported st e n x \<Longrightarrow> reported st e n y \<Longrightarrow> reported st e n (if c then x else y)"
  "reported st e n x \<Longrightarrow> (\<And>v. reported st e n (f v)) \<Longrightarrow> reported st e n (case opt of None \<Rightarrow> x | Some v \<Rightarrow> f v)"
  by (auto simp: reported_def split: option.splits)

lemma parse_fields_False:
  assumes "parse_fields onRecord a e n flds st = (False, st2)"
  shows "\<exists>m. st2 = EmitWarning st e n m True"
proof -
  have "reported st e n (parse_fields onRecord a e n flds st)"
    unfolding parse_fields_def Let_def by (intro reported_intros)
  with assms show ?thesis by (simp add: reported_def)
qed

lemma trim_Nil [simp]: "trim [] = []"
  by (simp add: trim_def)

lemma ParseAuthor_wf:
  assumes "ParseAuthor s = Some a" "trim s \<noteq> []"
  shows "wf_author a"
  using assms unfolding ParseAuthor_def Let_def TrimAscii_eq
  by (auto simp: wf_author_def trimmed_def split: if_splits)

lemma parse_authors_wf:
  "parse_authors raws acc = Some authors \<Longrightarrow> list_all wf_author acc \<Longrightarrow>
    list_all wf_author authors \<and> length authors \<le> length acc + length raws"
proof (induction raws acc rule: parse_authors.induct)
  case (2 raw rest acc)
  show ?case
  proof (cases "trim raw = []")
    case True
    then show ?thesis using 2 by (simp add: TrimAscii_eq Let_def)
  next
    case False
    with "2.prems"(1) obtain a where a: "ParseAuthor (trim raw) = Some a" "parse_authors rest (acc @ [a]) = Some authors"
      by (auto simp: TrimAscii_eq Let_def split: option.splits)
    have "wf_author a" using ParseAuthor_wf [OF a(1)] False by simp
    with "2.IH"(2) [of "trim raw" a] a False "2.prems"(2) show ?thesis by (simp add: TrimAscii_eq)
  qed
qed simp

lemma words_of_wf:
  "list_all (\<lambda>g. g \<noteq> [] \<and> trimmed g) (words_of s)"
  "length (words_of s) \<le> length (split_on (CHR '':'') s)"
  unfolding words_of_def trimmed_def by (auto simp: list_all_iff intro: le_trans [OF length_filter_le])

lemma assemble_wf:
  assumes "trim (flds ! 5) \<noteq> []" "trim (flds ! 7) \<noteq> []" "0 \<le> fsz" "fsz < 2 ^ 64"
    "length (trim (flds ! 9)) \<le> 32" "length authors \<le> 256" "list_all wf_author authors"
    "length (split_on (CHR '':'') (flds ! 1)) \<le> 512" "length (split_on (CHR '':'') (flds ! 13)) \<le> 512"
    "case sn of None \<Rightarrow> True | Some n \<Rightarrow> - (2 ^ 31) \<le> n \<and> n < 2 ^ 31"
  shows "wf_record (assemble_record a e flds (trim (flds ! 5)) (trim (flds ! 7)) fsz del (trim (flds ! 9)) authors
        (words_of (flds ! 1)) (words_of (flds ! 13)) sn)"
proof -
  have low: "ToLowerAscii ''fb2'' = ''fb2''" by (simp add: ToLowerAscii_def ToLowerAsciiCharacter_def)
  have "length (words_of (flds ! 1)) \<le> 512" "length (words_of (flds ! 13)) \<le> 512"
    using words_of_wf(2) assms(8,9) le_trans by blast+
  with assms low words_of_wf(1) show ?thesis
    unfolding wf_record_def assemble_record_def Let_def TrimAscii_eq
    by (simp add: trimmed_def optional_text_def)
qed

lemma ParseRecordLine_result:
  obtains (skipped) m where "ParseRecordLine onRecord a e n line st = (False, EmitWarning st e n m True)"
  | (parsed) r st' where "ParseRecordLine onRecord a e n line st = (True, onRecord r st')" "wf_record r"
      "st' = st \<or> (\<exists>m. st' = EmitWarning st e n m False)"
proof -
  obtain ok st2 where res: "ParseRecordLine onRecord a e n line st = (ok, st2)" by (cases "ParseRecordLine onRecord a e n line st")
  show thesis
  proof (cases ok)
    case False
    then obtain m where "st2 = EmitWarning st e n m True" using res parse_fields_False ParseRecordLine_eq by metis
    with res False skipped show thesis by simp
  next
    case True
    from res True have "parse_fields onRecord a e n (split_on GFieldSeparator line) st = (True, st2)"
      by (simp add: ParseRecordLine_eq)
    then show thesis
    proof (rule parse_fields_True)
      fix fsz del authors sn st'
      let ?flds = "split_on GFieldSeparator line"
      assume *: "trim (?flds ! 5) \<noteq> []" "trim (?flds ! 7) \<noteq> []" "TryParseUint64 (trim (?flds ! 6)) = Some fsz"
        "length (trim (?flds ! 9)) \<le> 32" "length (split_on (CHR '':'') (?flds ! 0)) \<le> 256"
        "parse_authors (split_on (CHR '':'') (?flds ! 0)) [] = Some authors"
        "length (split_on (CHR '':'') (?flds ! 1)) \<le> 512" "length (split_on (CHR '':'') (?flds ! 13)) \<le> 512"
        "sn = (if trim (?flds ! 4) = [] then None else TryParseInt (trim (?flds ! 4)))"
        and st': "st' = st \<or> (\<exists>m. st' = EmitWarning st e n m False)"
        and st2: "st2 = onRecord (assemble_record a e ?flds (trim (?flds ! 5)) (trim (?flds ! 7)) fsz del
          (trim (?flds ! 9)) authors (words_of (?flds ! 1)) (words_of (?flds ! 13)) sn) st'"
      have au: "list_all wf_author authors" "length authors \<le> 256"
        using parse_authors_wf [OF *(6)] *(5) by simp_all
      have fs: "0 \<le> fsz" "fsz < 2 ^ 64" using TryParseInteger_range [OF *(3)] by simp_all
      have sn: "case sn of None \<Rightarrow> True | Some n \<Rightarrow> - (2 ^ 31) \<le> n \<and> n < 2 ^ 31"
        using TryParseInteger_range [of "- (2 ^ 31)" "2 ^ 31 - 1" "trim (?flds ! 4)"] *(9)
        by (auto split: option.splits if_splits)
      show thesis
        by (rule parsed [OF _ assemble_wf [OF *(1,2) fs *(4) au(2,1) *(7,8) sn] st'])
          (use res True st2 in simp)
    qed
  qed
qed

section \<open>Lines of a segment\<close>

definition chomp :: "string \<Rightarrow> string" where
  "chomp l = (if l \<noteq> [] \<and> last l = CHR 0x0D then butlast l else l)"

fun run_lines :: "SInpxSegmentPayload \<Rightarrow> nat \<Rightarrow> string list \<Rightarrow> parse_state \<Rightarrow> text_error + parse_state" where
  "run_lines seg n [] st = Inr st"
| "run_lines seg n (l # ls) st =
    (case segment_line seg (n + 1) l st of Inl e \<Rightarrow> Inl e | Inr st' \<Rightarrow> run_lines seg (n + 1) ls st')"

lemma segment_loop_eq [loop_equiv]:
  "start \<le> length t \<Longrightarrow> segment_loop seg t start n st = run_lines seg n (split_on (CHR 0x0A) (drop start t)) st"
proof (induction seg t start n st rule: segment_loop.induct)
  case (1 seg t start n st)
  show ?case
  proof (cases "FindByteWithCheckpoints t (CHR 0x0A) start")
    case None
    then have "split_on (CHR 0x0A) (drop start t) = [drop start t]"
      by (simp add: FindByte_eq find_char_None split_on_no_sep)
    with None "1.prems" show ?thesis
      by (simp add: segment_loop.simps [of seg t start] split: sum.splits)
  next
    case (Some e)
    then obtain i where i: "find_char (CHR 0x0A) (drop start t) = Some i" "e = start + i"
      by (auto simp: FindByte_eq)
    have sp: "split_on (CHR 0x0A) (drop start t) = substr t start (e - start) # split_on (CHR 0x0A) (drop (e + 1) t)"
      using i by (simp add: split_on_find [of "CHR 0x0A" "drop start t"] substr_def add.commute)
    have "e + 1 \<le> length t" using FindByte_ge [OF Some] by simp
    then show ?thesis
      using Some "1.prems" "1.IH" [OF "1.prems" Some]
      by (simp add: segment_loop.simps [of seg t start] sp split: sum.splits)
  qed
qed

text \<open>The counters agree with what was reported since the segment began.\<close>

definition accounts :: "SInpxRecord list \<Rightarrow> SInpxWarning list \<Rightarrow> parse_state \<Rightarrow> bool" where
  "accounts rs ws st \<longleftrightarrow>
    (let s = Summary st in
     TotalRecords s = ParsedRecords s + SkippedRecords s
     \<and> ParsedRecords s = length rs \<and> DeletedRecords s = length (filter Deleted rs)
     \<and> WarningCount s = length ws \<and> SkippedRecords s = length (filter RecordSkipped ws)
     \<and> list_all wf_record rs)"

definition appended :: "parse_state \<Rightarrow> SInpxRecord list \<Rightarrow> SInpxWarning list \<Rightarrow> parse_state \<Rightarrow> bool" where
  "appended st rs ws st' \<longleftrightarrow> Records st' = Records st @ rs \<and> Warnings st' = Warnings st @ ws"

lemma segment_line_accounts:
  assumes "segment_line seg n l st = Inr st'" "accounts rs ws st"
  obtains rs' ws' where "appended st rs' ws' st'" "accounts (rs @ rs') (ws @ ws') st'"
    "TotalRecords (Summary st') = TotalRecords (Summary st) + (if chomp l = [] then 0 else 1)"
proof (cases "chomp l = []")
  case True
  then have "st' = st" using assms(1) by (simp add: segment_line_def chomp_def Let_def split: if_splits)
  then show thesis using that [of "[]" "[]"] assms(2) True by (simp add: appended_def)
next
  case False
  define st1 where "st1 = st\<lparr>Summary := (Summary st)\<lparr>TotalRecords := TotalRecords (Summary st) + 1\<rparr>\<rparr>"
  let ?p = "ParseRecordLine segment_onRecord (SegArchiveNameUtf8 seg) (SegInpEntryNameUtf8 seg) n (chomp l) st1"
  have st': "st' = (if fst ?p then snd ?p
      else (snd ?p)\<lparr>Summary := (Summary (snd ?p))\<lparr>SkippedRecords := SkippedRecords (Summary (snd ?p)) + 1\<rparr>\<rparr>)"
    using assms(1) [unfolded segment_line_def Let_def, folded chomp_def st1_def] False
    by (cases ?p) (simp split: if_splits bool.splits)
  show thesis
  proof (rule ParseRecordLine_result [of segment_onRecord "SegArchiveNameUtf8 seg" "SegInpEntryNameUtf8 seg" n "chomp l" st1])
    fix m assume p: "?p = (False, EmitWarning st1 (SegInpEntryNameUtf8 seg) n m True)"
    show thesis
      by (rule that [of "[]" "[\<lparr>MessageUtf8 = m, WarnInpEntryNameUtf8 = SegInpEntryNameUtf8 seg, LineNumber = n,
            RecordSkipped = True\<rparr>]"])
        (use assms(2) False in \<open>simp_all add: st' [unfolded p fst_conv snd_conv if_True if_False] EmitWarning_def st1_def appended_def accounts_def Let_def\<close>)
  next
    fix r st2 assume p: "?p = (True, segment_onRecord r st2)" and r: "wf_record r"
      and "st2 = st1 \<or> (\<exists>m. st2 = EmitWarning st1 (SegInpEntryNameUtf8 seg) n m False)"
    then consider "st2 = st1" | m where "st2 = EmitWarning st1 (SegInpEntryNameUtf8 seg) n m False" by blast
    then show thesis
    proof cases
      case 1
      show thesis
        by (rule that [of "[r]" "[]"])
          (use assms(2) False r 1 in \<open>simp_all add: st' [unfolded p fst_conv snd_conv if_True if_False] segment_onRecord_def st1_def appended_def accounts_def Let_def\<close>)
    next
      case (2 m)
      show thesis
        by (rule that [of "[r]" "[\<lparr>MessageUtf8 = m, WarnInpEntryNameUtf8 = SegInpEntryNameUtf8 seg, LineNumber = n,
              RecordSkipped = False\<rparr>]"])
          (use assms(2) False r 2 in \<open>simp_all add: st' [unfolded p fst_conv snd_conv if_True if_False] segment_onRecord_def EmitWarning_def st1_def appended_def
            accounts_def Let_def\<close>)
    qed
  qed
qed

lemma run_lines_accounts:
  "run_lines seg n ls st = Inr st' \<Longrightarrow> accounts rs ws st \<Longrightarrow>
    \<exists>rs' ws'. appended st rs' ws' st' \<and> accounts (rs @ rs') (ws @ ws') st'
      \<and> TotalRecords (Summary st') = TotalRecords (Summary st) + length (filter (\<lambda>l. chomp l \<noteq> []) ls)"
proof (induction ls arbitrary: n st rs ws)
  case Nil
  then show ?case by (intro exI [of _ "[]"]) (simp add: appended_def)
next
  case (Cons l ls)
  then obtain st1 where s1: "segment_line seg (n + 1) l st = Inr st1" "run_lines seg (n + 1) ls st1 = Inr st'"
    by (auto split: sum.splits)
  from segment_line_accounts [OF s1(1) Cons.prems(2)] obtain rs1 ws1 where
    a: "appended st rs1 ws1 st1" "accounts (rs @ rs1) (ws @ ws1) st1"
      "TotalRecords (Summary st1) = TotalRecords (Summary st) + (if chomp l = [] then 0 else 1)" by metis
  from Cons.IH [OF s1(2) a(2)] obtain rs2 ws2 where
    b: "appended st1 rs2 ws2 st'" "accounts ((rs @ rs1) @ rs2) ((ws @ ws1) @ ws2) st'"
      "TotalRecords (Summary st') = TotalRecords (Summary st1) + length (filter (\<lambda>l. chomp l \<noteq> []) ls)" by blast
  show ?case
    by (rule exI [of _ "rs1 @ rs2"], rule exI [of _ "ws1 @ ws2"]) (use a b in \<open>simp add: appended_def\<close>)
qed

lemma ParseSegment_accounts:
  assumes "ParseSegment cv seg rs0 ws0 = Inr st"
  obtains dec rs ws where "DecodeInpPayloadToUtf8 cv (SegBytes seg) = Inr dec"
    "Records st = rs0 @ rs" "Warnings st = ws0 @ ws" "accounts rs ws st"
    "TotalRecords (Summary st) = length (filter (\<lambda>l. chomp l \<noteq> []) (split_on (CHR 0x0A) dec))"
proof -
  let ?st0 = "\<lparr>Summary = empty_summary\<lparr>InpEntryCount := 1\<rparr>, Records = rs0, Warnings = ws0\<rparr>"
  from assms obtain dec where t: "DecodeInpPayloadToUtf8 cv (SegBytes seg) = Inr dec"
    "run_lines seg 0 (split_on (CHR 0x0A) dec) ?st0 = Inr st"
    by (auto simp: ParseSegment_def segment_loop_eq split: sum.splits)
  have "accounts [] [] ?st0" by (simp add: accounts_def empty_summary_def)
  from run_lines_accounts [OF t(2) this] show thesis
    by (auto intro!: that [OF t(1)] simp: appended_def empty_summary_def)
qed

end
