(* ===== verification/Inpx_Roundtrip.thy ===== *)
theory Inpx_Roundtrip
  imports Inpx_Correctness
begin

text \<open>
  Two more guarantees of the INP record parser: the texts of a record are valid UTF-8 if the line
  is, and a record printed in the documented 15-field format is read back as it was.
\<close>

section \<open>Valid texts\<close>

definition valid_author :: "SInpxAuthor \<Rightarrow> bool" where
  "valid_author a \<longleftrightarrow> IsValidUtf8 (DisplayNameUtf8 a) \<and> IsValidUtf8 (LastNameUtf8 a)
    \<and> IsValidUtf8 (FirstNameUtf8 a) \<and> IsValidUtf8 (MiddleNameUtf8 a)"

definition valid_record :: "SInpxRecord \<Rightarrow> bool" where
  "valid_record r \<longleftrightarrow>
    list_all valid_author (Authors r) \<and> list_all IsValidUtf8 (GenresUtf8 r) \<and> list_all IsValidUtf8 (KeywordsUtf8 r)
    \<and> IsValidUtf8 (TitleUtf8 r) \<and> pred_option IsValidUtf8 (SeriesUtf8 r) \<and> IsValidUtf8 (FileNameUtf8 r)
    \<and> IsValidUtf8 (LibId r) \<and> IsValidUtf8 (FileExtensionUtf8 r) \<and> pred_option IsValidUtf8 (DateAddedUtf8 r)
    \<and> IsValidUtf8 (LanguageUtf8 r) \<and> IsValidUtf8 (EntryNameUtf8 r)"

lemma ToLowerAscii_valid: "IsValidUtf8 s \<Longrightarrow> IsValidUtf8 (ToLowerAscii s)"
proof -
  have keep: "128 \<le> byte_of c \<Longrightarrow> ToLowerAsciiCharacter c = c" for c
    by (simp add: ToLowerAsciiCharacter_def)
  have low: "byte_of c < 128 \<Longrightarrow> byte_of (ToLowerAsciiCharacter c) < 128" for c
    by (auto simp: ToLowerAsciiCharacter_def byte_of_chr_of)
  assume "IsValidUtf8 s"
  then obtain ns where ns: "list_all scalar ns" "s = utf8 ns" by (auto simp: IsValidUtf8_iff)
  let ?ms = "map (\<lambda>n. if n < 128 then byte_of (ToLowerAsciiCharacter (chr_of n)) else n) ns"
  have "ToLowerAscii s = utf8 ?ms" using map_utf8 [OF keep low] ns(2) by (simp add: ToLowerAscii_def)
  moreover have "list_all scalar ?ms"
  proof (unfold list_all_iff, intro ballI)
    fix m assume "m \<in> set ?ms"
    then obtain n where n: "n \<in> set ns" "m = (if n < 128 then byte_of (ToLowerAsciiCharacter (chr_of n)) else n)" by auto
    show "scalar m"
    proof (cases "n < 128")
      case True
      then show ?thesis using n(2) low [of "chr_of n"] byte_chr_ascii [of n] scalar_ascii by simp
    next
      case False
      then show ?thesis using n ns(1) by (simp add: list_all_iff)
    qed
  qed
  ultimately show ?thesis by (simp add: IsValidUtf8_iff) blast
qed

lemma ascii_chars [simp]:
  "byte_of (CHR '':'') < 128" "byte_of (CHR '','') < 128" "byte_of (CHR '' '') < 128" "byte_of GFieldSeparator < 128"
  "byte_of (CHR 0x0A) < 128"
  by (simp_all add: GFieldSeparator_def)

lemma valid_nth_split: "IsValidUtf8 s \<Longrightarrow> byte_of c < 128 \<Longrightarrow> i < length (split_on c s) \<Longrightarrow> IsValidUtf8 (split_on c s ! i)"
  using split_on_valid nth_mem by blast

lemma append_name_valid: "IsValidUtf8 d \<Longrightarrow> IsValidUtf8 n \<Longrightarrow> IsValidUtf8 (append_name d n)"
proof -
  have "IsValidUtf8 '' ''" by (rule valid_ascii) simp
  then show "IsValidUtf8 d \<Longrightarrow> IsValidUtf8 n \<Longrightarrow> IsValidUtf8 (append_name d n)"
    using valid_append [of d "'' ''"] valid_append [of "d @ '' ''" n] valid_append [of d n]
    by (auto simp: append_name_def)
qed

definition author_part :: "string \<Rightarrow> nat \<Rightarrow> string" where
  "author_part s i = (if i < length (split_on (CHR '','') s) then trim (split_on (CHR '','') s ! i) else [])"

definition author_display :: "string \<Rightarrow> string \<Rightarrow> string \<Rightarrow> string" where
  "author_display lastName firstName middleName =
    append_name (append_name (append_name [] firstName) middleName) lastName"

lemma ParseAuthor_eq:
  "ParseAuthor s =
    (let display = author_display (author_part s 0) (author_part s 1) (author_part s 2) in
     if length (split_on (CHR '','') s) \<le> 3
     then Some \<lparr>DisplayNameUtf8 = (if display = [] then trim s else display),
         LastNameUtf8 = author_part s 0, FirstNameUtf8 = author_part s 1, MiddleNameUtf8 = author_part s 2\<rparr>
     else None)"
  unfolding ParseAuthor_def SplitViews_eq GMaxAuthorNameParts_def Let_def TrimAscii_eq author_part_def author_display_def
  by simp

lemma ParseAuthor_valid:
  assumes "ParseAuthor s = Some a" "IsValidUtf8 s"
  shows "valid_author a"
proof -
  have n: "IsValidUtf8 (author_part s i)" for i
    unfolding author_part_def using assms(2) valid_nth_split [of s "CHR '',''" i] trim_valid by simp
  have "IsValidUtf8 (author_display (author_part s 0) (author_part s 1) (author_part s 2))"
    unfolding author_display_def by (intro append_name_valid valid_Nil n)
  then show ?thesis
    using assms(1) n trim_valid [OF assms(2)] unfolding ParseAuthor_eq Let_def
    by (auto simp: valid_author_def split: if_splits)
qed

lemma parse_authors_valid:
  "parse_authors raws acc = Some authors \<Longrightarrow> list_all valid_author acc \<Longrightarrow> list_all IsValidUtf8 raws \<Longrightarrow>
    list_all valid_author authors"
proof (induction raws acc rule: parse_authors.induct)
  case (2 raw rest acc)
  show ?case
  proof (cases "trim raw = []")
    case True
    then show ?thesis using 2 by (simp add: TrimAscii_eq Let_def)
  next
    case False
    with "2.prems"(1) obtain a where a: "ParseAuthor (trim raw) = Some a" "parse_authors rest (acc @ [a]) = Some authors"
      by (auto simp: TrimAscii_eq Let_def split: option.splits)
    have "valid_author a" using ParseAuthor_valid [OF a(1)] "2.prems"(3) trim_valid by simp
    with "2.IH"(2) [of "trim raw" a] a False "2.prems"(2,3) show ?thesis by (simp add: TrimAscii_eq)
  qed
qed simp

lemma words_of_valid: "IsValidUtf8 s \<Longrightarrow> list_all IsValidUtf8 (words_of s)"
  using split_on_valid [of "CHR '':''" s] trim_valid by (auto simp: words_of_def list_all_iff)

lemma assemble_valid:
  assumes flds: "\<And>i. i < 15 \<Longrightarrow> IsValidUtf8 (flds ! i)" and authors: "list_all valid_author authors"
  shows "valid_record (assemble_record a e flds (trim (flds ! 5)) (trim (flds ! 7)) fsz del (trim (flds ! 9)) authors
        (words_of (flds ! 1)) (words_of (flds ! 13)) sn)"
proof -
  have t: "IsValidUtf8 (trim (flds ! i))" if "i < 15" for i using flds [OF that] by (rule trim_valid)
  have lit: "IsValidUtf8 ''fb2''" "IsValidUtf8 ''.''" by (rule valid_ascii; auto)+
  let ?x = "if ToLowerAscii (trim (flds ! 9)) = [] then ''fb2'' else ToLowerAscii (trim (flds ! 9))"
  have x: "IsValidUtf8 ?x" using lit ToLowerAscii_valid [OF t [of 9]] by simp
  have en: "IsValidUtf8 (trim (flds ! 5) @ ''.'' @ ?x)"
    using t [of 5] lit x by (intro valid_append) simp_all
  have o: "i < 15 \<Longrightarrow> pred_option IsValidUtf8 (optional_text (trim (flds ! i)))" for i
    using t by (simp add: optional_text_def)
  have w: "i < 15 \<Longrightarrow> list_all IsValidUtf8 (words_of (flds ! i))" for i
    using flds by (intro words_of_valid)
  have ti: "IsValidUtf8 (if trim (flds ! 2) = [] then trim (flds ! 5) else trim (flds ! 2))" using t by simp
  show ?thesis
    unfolding valid_record_def assemble_record_def Let_def TrimAscii_eq CopyText_eq AppendText_eq SInpxRecord.select_convs append_Nil
    by (intro conjI authors w ti o t x en) simp_all
qed

lemma ParseRecordLine_valid:
  assumes "ParseRecordLine onRecord a e n line st = (True, st2)" "IsValidUtf8 line"
  obtains r st' where "st2 = onRecord r st'" "valid_record r" "st' = st \<or> (\<exists>m. st' = EmitWarning st e n m False)"
proof -
  let ?flds = "split_on GFieldSeparator line"
  from assms(1) have "parse_fields onRecord a e n ?flds st = (True, st2)" by (simp add: ParseRecordLine_eq)
  then show thesis
  proof (rule parse_fields_True)
    fix fsz del authors sn st'
    assume l: "length ?flds = 15" and au: "parse_authors (split_on (CHR '':'') (?flds ! 0)) [] = Some authors"
      and st': "st' = st \<or> (\<exists>m. st' = EmitWarning st e n m False)"
      and st2: "st2 = onRecord (assemble_record a e ?flds (trim (?flds ! 5)) (trim (?flds ! 7)) fsz del
          (trim (?flds ! 9)) authors (words_of (?flds ! 1)) (words_of (?flds ! 13)) sn) st'"
    have v: "i < 15 \<Longrightarrow> IsValidUtf8 (?flds ! i)" for i using valid_nth_split [OF assms(2)] l by simp
    have "list_all IsValidUtf8 (split_on (CHR '':'') (?flds ! 0))"
      using split_on_valid [of "CHR '':''" "?flds ! 0"] v [of 0] by (simp add: list_all_iff)
    then have "list_all valid_author authors" using parse_authors_valid [OF au] by simp
    with v show thesis by (intro that [OF st2 _ st'] assemble_valid)
  qed
qed

lemma EmitWarning_Records [simp]: "Records (EmitWarning st e n m b) = Records st"
  by (simp add: EmitWarning_def)

lemma valid_butlast:
  assumes "IsValidUtf8 (b @ [c])" "byte_of c < 128"
  shows "IsValidUtf8 b"
proof -
  obtain ns where ns: "list_all scalar ns" "b @ [c] = utf8 ns" using assms(1) by (auto simp: IsValidUtf8_iff)
  then obtain ms n where ms: "ns = ms @ [n]" by (cases ns rule: rev_cases) auto
  have l: "last (enc n) = c"
    using ns(2) ms utf8c.encode_nonempty [of n] by (metis last_appendR last_snoc append_Nil2 utf8_simps(1-3))
  have "n < 128"
  proof (rule ccontr)
    assume "\<not> n < 128"
    then have "128 \<le> byte_of (last (enc n))"
      using enc_bytes [of "last (enc n)" n] utf8c.encode_nonempty [of n] by simp
    with l assms(2) show False by simp
  qed
  then have "enc n = [c]" using l by (simp add: enc_ascii)
  then have "b = utf8 ms" using ns(2) ms by simp
  then show ?thesis using ns(1) ms by simp
qed

lemma chomp_valid: "IsValidUtf8 l \<Longrightarrow> IsValidUtf8 (chomp l)"
proof -
  assume l: "IsValidUtf8 l"
  show ?thesis
  proof (cases "l \<noteq> [] \<and> last l = CHR 0x0D")
    case True
    then have "l = butlast l @ [CHR 0x0D]" by (metis append_butlast_last_id)
    then have "IsValidUtf8 (butlast l)" using l valid_butlast [of "butlast l" "CHR 0x0D"] by simp
    then show ?thesis using l by (simp add: chomp_def)
  next
    case False
    then have "chomp l = l" unfolding chomp_def by (rule if_not_P)
    then show ?thesis using l by simp
  qed
qed

lemma segment_line_valid:
  assumes "segment_line seg n l st = Inr st'" "IsValidUtf8 l" "list_all valid_record (Records st)"
  shows "list_all valid_record (Records st')"
proof (cases "chomp l = []")
  case True
  then show ?thesis using assms by (simp add: segment_line_def chomp_def Let_def split: if_splits)
next
  case False
  define st1 where "st1 = st\<lparr>Summary := (Summary st)\<lparr>TotalRecords := TotalRecords (Summary st) + 1\<rparr>\<rparr>"
  let ?p = "ParseRecordLine segment_onRecord (SegArchiveNameUtf8 seg) (SegInpEntryNameUtf8 seg) n (chomp l) st1"
  have st1: "list_all valid_record (Records st1)" using assms(3) by (simp add: st1_def)
  have r: "Records st' = Records (snd ?p)"
    using assms(1) [unfolded segment_line_def Let_def, folded chomp_def st1_def] False
    by (cases ?p) (auto split: if_splits bool.splits)
  obtain ok st2 where p: "?p = (ok, st2)" by (cases ?p)
  show ?thesis
  proof (cases ok)
    case False
    then obtain m where "st2 = EmitWarning st1 (SegInpEntryNameUtf8 seg) n m True"
      using p parse_fields_False ParseRecordLine_eq by metis
    then show ?thesis using r p st1 by simp
  next
    case True
    with p have t: "?p = (True, st2)" by simp
    from ParseRecordLine_valid [OF t chomp_valid [OF assms(2)]] obtain rc st3 where
      "st2 = segment_onRecord rc st3" "valid_record rc"
      "st3 = st1 \<or> (\<exists>m. st3 = EmitWarning st1 (SegInpEntryNameUtf8 seg) n m False)" by blast
    then show ?thesis using r p st1 by (auto simp: segment_onRecord_def)
  qed
qed

lemma run_lines_valid:
  "run_lines seg n ls st = Inr st' \<Longrightarrow> list_all IsValidUtf8 ls \<Longrightarrow> list_all valid_record (Records st) \<Longrightarrow>
    list_all valid_record (Records st')"
proof (induction ls arbitrary: n st)
  case (Cons l ls)
  then obtain st1 where s1: "segment_line seg (n + 1) l st = Inr st1" "run_lines seg (n + 1) ls st1 = Inr st'"
    by (auto split: sum.splits)
  with Cons segment_line_valid [OF s1(1)] show ?case by simp
qed simp

lemma ParseSegment_valid:
  assumes "ParseSegment cv seg [] ws0 = Inr st" "DecodeInpPayloadToUtf8 cv (SegBytes seg) = Inr dec" "IsValidUtf8 dec"
  shows "list_all valid_record (Records st)"
proof -
  have "list_all IsValidUtf8 (split_on (CHR 0x0A) dec)"
    unfolding list_all_iff by (intro ballI split_on_valid [OF ascii_chars(5) assms(3)])
  with assms show ?thesis
    by (auto simp: ParseSegment_def segment_loop_eq intro: run_lines_valid)
qed

text \<open>What decoding gives: valid text, except behind a UTF-8 byte order mark, which is not checked.\<close>

lemma Decode_valid:
  assumes cv: "\<And>v enc u. cv v enc = Some u \<Longrightarrow> IsValidUtf8 u"
    and d: "DecodeInpPayloadToUtf8 cv bytes = Inr dec"
    and bom: "prefix [CHR 0xEF, CHR 0xBB, CHR 0xBF] bytes \<Longrightarrow> IsValidUtf8 bytes"
  shows "IsValidUtf8 dec"
proof -
  have "Utf16LeToUtf8 cv bytes = Inr dec \<Longrightarrow> \<exists>v e. cv v e = Some dec"
    unfolding Utf16LeToUtf8_def Let_def by (simp split: if_split_asm option.split_asm) blast+
  moreover have "Utf16BeToUtf8 cv bytes = Inr dec \<Longrightarrow> \<exists>v e. cv v e = Some dec"
    unfolding Utf16BeToUtf8_def Let_def by (simp split: if_split_asm option.split_asm) blast+
  ultimately have u16: "Utf16LeToUtf8 cv bytes = Inr dec \<or> Utf16BeToUtf8 cv bytes = Inr dec \<Longrightarrow> ?thesis"
    using cv by blast
  show ?thesis
  proof (cases "length bytes \<ge> 3 \<and> byte_of (bytes ! 0) = 0xEF \<and> byte_of (bytes ! 1) = 0xBB \<and> byte_of (bytes ! 2) = 0xBF")
    case True
    obtain x y z r where r: "bytes = x # y # z # r"
      using True by (metis Suc_le_length_iff numeral_3_eq_3)
    have "byte_of x = byte_of (CHR 0xEF)" "byte_of y = byte_of (CHR 0xBB)" "byte_of z = byte_of (CHR 0xBF)"
      using True r by simp_all
    then have "x = CHR 0xEF" "y = CHR 0xBB" "z = CHR 0xBF" by (simp_all only: byte_of_eq_iff)
    then have b: "bytes = [CHR 0xEF, CHR 0xBB, CHR 0xBF] @ drop 3 bytes" using r by (simp add: numeral_3_eq_3)
    have "IsValidUtf8 [CHR 0xEF, CHR 0xBB, CHR 0xBF]"
      by (simp add: IsValidUtf8_def IsValidUtf8_loop.simps TryDecode_arith CanBeSecondUtf8Byte_def IsUtf8ContinuationByte_def)
    moreover have "IsValidUtf8 bytes" using bom b by (metis prefixI)
    ultimately have "IsValidUtf8 (drop 3 bytes)" using valid_append_iff b by metis
    then show ?thesis using d True by (simp add: DecodeInpPayloadToUtf8_def)
  next
    case False
    note d' = d [unfolded DecodeInpPayloadToUtf8_def if_not_P [OF False]]
    consider "Utf16LeToUtf8 cv bytes = Inr dec" | "Utf16BeToUtf8 cv bytes = Inr dec" | "IsValidUtf8 bytes" "dec = bytes"
      | "DecodeLegacyCyrillicToUtf8 cv bytes ''Failed to decode INP payload from CP1251 or CP866.'' = Inr dec"
      using d' by (simp split: if_splits)
    then show ?thesis
    proof cases
      case 4
      then show ?thesis using DecodeLegacy_valid [of cv bytes] cv by blast
    next
      case 3
      then show ?thesis by simp
    qed (use u16 in blast)+
  qed
qed

section \<open>Printing and reading back\<close>

text \<open>A record in the documented format: 15 fields, lists joined by colons, names by commas.\<close>

definition int_to_string :: "int \<Rightarrow> string" where
  "int_to_string n = (if n < 0 then CHR ''-'' # to_string (nat (- n)) else to_string (nat n))"

definition render_author :: "SInpxAuthor \<Rightarrow> string" where
  "render_author a = join (CHR '','') [LastNameUtf8 a, FirstNameUtf8 a, MiddleNameUtf8 a]"

definition render_fields :: "SInpxRecord \<Rightarrow> string list" where
  "render_fields r =
    [join (CHR '':'') (map render_author (Authors r)), join (CHR '':'') (GenresUtf8 r), TitleUtf8 r,
     (case SeriesUtf8 r of None \<Rightarrow> [] | Some s \<Rightarrow> s),
     (case SeriesNumber r of None \<Rightarrow> [] | Some n \<Rightarrow> int_to_string n),
     FileNameUtf8 r, int_to_string (FileSizeBytes r), LibId r, (if Deleted r then ''1'' else ''0''),
     FileExtensionUtf8 r, (case DateAddedUtf8 r of None \<Rightarrow> [] | Some d \<Rightarrow> d), LanguageUtf8 r, [],
     join (CHR '':'') (KeywordsUtf8 r), []]"

definition render_record :: "SInpxRecord \<Rightarrow> string" where
  "render_record r = join GFieldSeparator (render_fields r)"

text \<open>Records that the format can express: no text contains a separator, all texts are trimmed.\<close>

definition plain :: "string \<Rightarrow> bool" where
  "plain s \<longleftrightarrow> trimmed s \<and> GFieldSeparator \<notin> set s"

definition word :: "string \<Rightarrow> bool" where
  "word s \<longleftrightarrow> plain s \<and> s \<noteq> [] \<and> CHR '':'' \<notin> set s"

definition name :: "string \<Rightarrow> bool" where
  "name s \<longleftrightarrow> plain s \<and> CHR '':'' \<notin> set s \<and> CHR '','' \<notin> set s"

definition printable_author :: "SInpxAuthor \<Rightarrow> bool" where
  "printable_author a \<longleftrightarrow> name (LastNameUtf8 a) \<and> name (FirstNameUtf8 a) \<and> name (MiddleNameUtf8 a)
    \<and> DisplayNameUtf8 a \<noteq> []
    \<and> DisplayNameUtf8 a = author_display (LastNameUtf8 a) (FirstNameUtf8 a) (MiddleNameUtf8 a)"

definition printable :: "SInpxRecord \<Rightarrow> bool" where
  "printable r \<longleftrightarrow> wf_record r
    \<and> list_all printable_author (Authors r) \<and> list_all word (GenresUtf8 r) \<and> list_all word (KeywordsUtf8 r)
    \<and> plain (TitleUtf8 r) \<and> pred_option plain (SeriesUtf8 r) \<and> plain (FileNameUtf8 r) \<and> plain (LibId r)
    \<and> plain (FileExtensionUtf8 r) \<and> pred_option plain (DateAddedUtf8 r) \<and> plain (LanguageUtf8 r)"

lemma join_set: "set (join sep ps) \<subseteq> insert sep (\<Union> (set ` set ps))"
  by (induction sep ps rule: join.induct) auto

lemma to_string_length: "n < 10 ^ k \<Longrightarrow> 0 < k \<Longrightarrow> length (to_string n) \<le> k"
proof (induction k arbitrary: n)
  case (Suc k)
  show ?case
  proof (cases "n < 10")
    case False
    then have "k \<noteq> 0" using Suc.prems by (cases k) simp_all
    moreover have "n div 10 < 10 ^ k" using Suc.prems(1) by (simp add: less_mult_imp_div_less mult.commute)
    ultimately have "length (to_string (n div 10)) \<le> k" using Suc.IH by simp
    with False show ?thesis by (simp add: to_string.simps [of n])
  qed (simp add: to_string.simps [of n])
qed simp

lemma to_string_short: "n < 2 ^ 64 \<Longrightarrow> length (to_string n) \<le> 31"
  by (rule to_string_length) (auto elim: less_le_trans)

lemma parse_uint: "0 \<le> n \<Longrightarrow> n < 2 ^ 64 \<Longrightarrow> TryParseUint64 (int_to_string n) = Some n"
proof -
  assume n: "0 \<le> n" "n < 2 ^ 64"
  then have "nat n < 2 ^ 64" by (simp add: nat_less_iff)
  then have "length (to_string (nat n)) \<le> GMaxIntegerFieldBytes"
    using to_string_short [of "nat n"] by (simp add: GMaxIntegerFieldBytes_def)
  with n show ?thesis using TryParse_to_string [of 0 "nat n" "2 ^ 64 - 1"] by (simp add: int_to_string_def)
qed

lemma parse_int: "- (2 ^ 31) \<le> n \<Longrightarrow> n < 2 ^ 31 \<Longrightarrow> TryParseInt (int_to_string n) = Some n"
proof -
  assume n: "- (2 ^ 31) \<le> n" "n < 2 ^ 31"
  have len: "length (to_string k) \<le> 31" if "k \<le> 2 ^ 31" for k
    by (rule to_string_short) (rule le_less_trans [OF that], simp)
  show ?thesis
  proof (cases "n < 0")
    case True
    then have k: "nat (- n) \<le> 2 ^ 31" using n by (simp add: nat_le_iff)
    have d: "takeWhile digit_char (to_string (nat (- n))) = to_string (nat (- n))"
      "dropWhile digit_char (to_string (nat (- n))) = []"
      by (auto simp: takeWhile_eq_all_conv dropWhile_eq_Nil_conv to_string_digits)
    show ?thesis
      using len [OF k] True n
      by (simp add: int_to_string_def TryParseInteger_def from_chars_def Let_def d decimal_to_string
          GMaxIntegerFieldBytes_def del: takeWhile_eq_all_conv dropWhile_eq_Nil_conv)
  next
    case False
    then have "nat n \<le> 2 ^ 31" using n by (simp add: nat_le_iff)
    from len [OF this] have "length (to_string (nat n)) \<le> GMaxIntegerFieldBytes" by (simp add: GMaxIntegerFieldBytes_def)
    with n False show ?thesis using TryParse_to_string [of "- (2 ^ 31)" "nat n" "2 ^ 31 - 1"] by (simp add: int_to_string_def)
  qed
qed

lemma int_to_string_chars: "c \<in> set (int_to_string n) \<Longrightarrow> digit_char c \<or> c = CHR ''-''"
  by (auto simp: int_to_string_def dest: to_string_digits split: if_splits)

lemma int_to_string_plain: "plain (int_to_string n)" "int_to_string n \<noteq> []"
proof -
  show ne: "int_to_string n \<noteq> []" by (simp add: int_to_string_def)
  have c: "\<not> ascii_space c \<and> c \<noteq> GFieldSeparator" if "c \<in> set (int_to_string n)" for c
    using int_to_string_chars [OF that]
    by (auto simp: digit_char_def ascii_space_def GFieldSeparator_def)
  have "trim (int_to_string n) = int_to_string n"
    using c ne hd_in_set last_in_set by (intro trim_fixed) blast
  then show "plain (int_to_string n)" using c by (auto simp: plain_def trimmed_def)
qed

lemma words_of_join: "list_all word ws \<Longrightarrow> words_of (join (CHR '':'') ws) = ws"
proof (cases ws)
  case (Cons w ws')
  assume w: "list_all word ws"
  then have "split_on (CHR '':'') (join (CHR '':'') ws) = ws"
    using Cons by (intro split_join) (auto simp: word_def list_all_iff)
  moreover have "map trim ws = ws" "filter (\<lambda>p. p \<noteq> []) ws = ws"
    using w by (auto simp: word_def plain_def trimmed_def list_all_iff intro: map_idI)
  ultimately show ?thesis by (simp add: words_of_def)
qed (simp add: words_of_def)

lemma split_join_length:
  "list_all (\<lambda>p. sep \<notin> set p) ws \<Longrightarrow> length ws \<le> m \<Longrightarrow> 0 < m \<Longrightarrow> length (split_on sep (join sep ws)) \<le> m"
  by (cases ws) (simp_all add: split_join)

lemma trimmed_ends: "trimmed s \<Longrightarrow> s \<noteq> [] \<Longrightarrow> \<not> ascii_space (hd s) \<and> \<not> ascii_space (last s)"
  using trim_ends [of s] by (simp add: trimmed_def)

lemma render_author_split:
  assumes "printable_author a"
  shows "split_on (CHR '','') (render_author a) = [LastNameUtf8 a, FirstNameUtf8 a, MiddleNameUtf8 a]"
  using assms unfolding render_author_def by (intro split_join) (simp_all add: printable_author_def name_def)

lemma render_author_trim:
  assumes "printable_author a"
  shows "trim (render_author a) = render_author a" "render_author a \<noteq> []"
proof -
  have comma: "\<not> ascii_space (CHR '','')" by (simp add: ascii_space_def)
  have t: "trimmed (LastNameUtf8 a)" "trimmed (MiddleNameUtf8 a)"
    using assms by (simp_all add: printable_author_def name_def plain_def)
  show "render_author a \<noteq> []" by (simp add: render_author_def)
  have "\<not> ascii_space (hd (render_author a))"
    using trimmed_ends [OF t(1)] comma by (cases "LastNameUtf8 a") (simp_all add: render_author_def)
  moreover have "\<not> ascii_space (last (render_author a))"
    using trimmed_ends [OF t(2)] comma by (cases "MiddleNameUtf8 a = []") (simp_all add: render_author_def)
  ultimately show "trim (render_author a) = render_author a" by (intro trim_fixed) simp
qed

lemma ParseAuthor_render:
  assumes "printable_author a"
  shows "ParseAuthor (render_author a) = Some a"
proof -
  have t: "trim (LastNameUtf8 a) = LastNameUtf8 a" "trim (FirstNameUtf8 a) = FirstNameUtf8 a"
    "trim (MiddleNameUtf8 a) = MiddleNameUtf8 a"
    using assms by (simp_all add: printable_author_def name_def plain_def trimmed_def)
  have "author_part (render_author a) 0 = LastNameUtf8 a" "author_part (render_author a) 1 = FirstNameUtf8 a"
    "author_part (render_author a) 2 = MiddleNameUtf8 a"
    by (simp_all add: author_part_def render_author_split [OF assms] t)
  then show ?thesis
    using assms unfolding ParseAuthor_eq Let_def render_author_split [OF assms]
    by (simp add: printable_author_def) (metis (full_types) SInpxAuthor.surjective old.unit.exhaust)
qed

lemma parse_authors_map:
  "list_all printable_author as \<Longrightarrow> parse_authors (map render_author as) acc = Some (acc @ as)"
proof (induction as arbitrary: acc)
  case (Cons a as)
  then show ?case using render_author_trim [of a] ParseAuthor_render [of a] by (simp add: TrimAscii_eq Let_def)
qed simp

lemma render_author_no_colon: "printable_author a \<Longrightarrow> CHR '':'' \<notin> set (render_author a)"
  by (simp add: render_author_def printable_author_def name_def)

lemma parse_authors_render:
  assumes "list_all printable_author as"
  shows "parse_authors (split_on (CHR '':'') (join (CHR '':'') (map render_author as))) [] = Some as"
proof (cases as)
  case Nil
  then show ?thesis by (simp add: TrimAscii_eq Let_def)
next
  case (Cons a as')
  have "list_all (\<lambda>p. CHR '':'' \<notin> set p) (map render_author as)"
    using assms render_author_no_colon by (auto simp: list_all_iff)
  with Cons have "split_on (CHR '':'') (join (CHR '':'') (map render_author as)) = map render_author as"
    by (intro split_join) simp_all
  then show ?thesis using parse_authors_map [OF assms, of "[]"] by simp
qed

lemma render_author_plain: "printable_author a \<Longrightarrow> GFieldSeparator \<notin> set (render_author a)"
  by (auto simp: render_author_def printable_author_def name_def plain_def GFieldSeparator_def)

lemma join_no_separator:
  assumes "\<And>p. p \<in> set ps \<Longrightarrow> GFieldSeparator \<notin> set p"
  shows "GFieldSeparator \<notin> set (join (CHR '':'') ps)"
  using join_set [of "CHR '':''" ps] assms by (auto simp: GFieldSeparator_def)

lemma render_fields_plain: "printable r \<Longrightarrow> list_all (\<lambda>p. GFieldSeparator \<notin> set p) (render_fields r)"
proof -
  assume r: "printable r"
  have a: "GFieldSeparator \<notin> set (join (CHR '':'') (map render_author (Authors r)))"
    using r render_author_plain by (intro join_no_separator) (auto simp: printable_def list_all_iff)
  have w: "GFieldSeparator \<notin> set (join (CHR '':'') (GenresUtf8 r))" "GFieldSeparator \<notin> set (join (CHR '':'') (KeywordsUtf8 r))"
    using r by (auto intro!: join_no_separator simp: printable_def list_all_iff word_def plain_def)
  have d: "GFieldSeparator \<notin> set ''1''" "GFieldSeparator \<notin> set ''0''" by (simp_all add: GFieldSeparator_def)
  have o: "GFieldSeparator \<notin> set (case x of None \<Rightarrow> [] | Some s \<Rightarrow> s)" if "pred_option plain x" for x
    using that by (cases x) (simp_all add: plain_def)
  have n: "GFieldSeparator \<notin> set (case x of None \<Rightarrow> [] | Some k \<Rightarrow> int_to_string k)" for x
    using int_to_string_plain(1) by (cases x) (simp_all add: plain_def)
  have p: "plain x \<Longrightarrow> GFieldSeparator \<notin> set x" for x by (simp add: plain_def)
  have del: "GFieldSeparator \<notin> set (if Deleted r then ''1'' else ''0'')" using d by simp
  have nil: "GFieldSeparator \<notin> set []" by simp
  note r' = r [unfolded printable_def]
  show ?thesis
    unfolding render_fields_def list.pred_inject
    by (intro conjI TrueI a w o n del nil p int_to_string_plain(1) list.pred_inject(1)) (use r' in blast)+
qed

lemma parse_deleted: "TryParseInt ''1'' = Some 1" "TryParseInt ''0'' = Some 0"
  by (simp_all add: TryParseInteger_def from_chars_def digit_char_def decimal_def GMaxIntegerFieldBytes_def)

lemma trim_digit: "trim ''1'' = ''1''" "trim ''0'' = ''0''"
  by (simp_all add: trim_def ascii_space_def)

lemma render_nth:
  "render_fields r ! 0 = join (CHR '':'') (map render_author (Authors r))"
  "render_fields r ! 1 = join (CHR '':'') (GenresUtf8 r)"
  "render_fields r ! 2 = TitleUtf8 r"
  "render_fields r ! 3 = (case SeriesUtf8 r of None \<Rightarrow> [] | Some s \<Rightarrow> s)"
  "render_fields r ! 4 = (case SeriesNumber r of None \<Rightarrow> [] | Some n \<Rightarrow> int_to_string n)"
  "render_fields r ! 5 = FileNameUtf8 r"
  "render_fields r ! 6 = int_to_string (FileSizeBytes r)"
  "render_fields r ! 7 = LibId r"
  "render_fields r ! 8 = (if Deleted r then ''1'' else ''0'')"
  "render_fields r ! 9 = FileExtensionUtf8 r"
  "render_fields r ! 10 = (case DateAddedUtf8 r of None \<Rightarrow> [] | Some d \<Rightarrow> d)"
  "render_fields r ! 11 = LanguageUtf8 r"
  "render_fields r ! 13 = join (CHR '':'') (KeywordsUtf8 r)"
  "length (render_fields r) = 15"
  by (simp_all add: render_fields_def)

lemma assemble_render:
  assumes "printable r"
  shows "assemble_record (ArchiveNameUtf8 r) (InpEntryNameUtf8 r) (render_fields r) (FileNameUtf8 r) (LibId r)
      (FileSizeBytes r) (if Deleted r then 1 else 0) (FileExtensionUtf8 r) (Authors r) (GenresUtf8 r) (KeywordsUtf8 r)
      (SeriesNumber r) = r"
proof -
  note r = assms [unfolded printable_def wf_record_def]
  have o: "optional_text (trim (case x of None \<Rightarrow> [] | Some s \<Rightarrow> s)) = x" if "x \<noteq> Some []" "pred_option plain x" for x
    using that by (cases x) (auto simp: optional_text_def plain_def trimmed_def)
  have "trim (TitleUtf8 r) = TitleUtf8 r" "TitleUtf8 r \<noteq> []" "trim (LanguageUtf8 r) = LanguageUtf8 r"
    "ToLowerAscii (FileExtensionUtf8 r) = FileExtensionUtf8 r" "FileExtensionUtf8 r \<noteq> []"
    "FileNameUtf8 r @ ''.'' @ FileExtensionUtf8 r = EntryNameUtf8 r"
    using r by (simp_all add: plain_def trimmed_def)
  moreover have "optional_text (trim (case SeriesUtf8 r of None \<Rightarrow> [] | Some s \<Rightarrow> s)) = SeriesUtf8 r"
    "optional_text (trim (case DateAddedUtf8 r of None \<Rightarrow> [] | Some s \<Rightarrow> s)) = DateAddedUtf8 r"
    using r by (simp_all only: o simp_thms)
  ultimately show ?thesis
    by (cases r) (simp add: assemble_record_def TrimAscii_eq render_nth)
qed

lemma ParseRecordLine_render:
  assumes "printable r"
  shows "ParseRecordLine onRecord (ArchiveNameUtf8 r) (InpEntryNameUtf8 r) n (render_record r) st
    = (True, onRecord r st)"
proof -
  note r = assms [unfolded printable_def wf_record_def]
  have sp: "split_on GFieldSeparator (render_record r) = render_fields r"
    unfolding render_record_def
    by (rule split_join [OF _ render_fields_plain [OF assms]]) (simp add: render_fields_def)
  have tr: "trim (FileNameUtf8 r) = FileNameUtf8 r" "trim (LibId r) = LibId r" "FileNameUtf8 r \<noteq> []" "LibId r \<noteq> []"
    "trim (FileExtensionUtf8 r) = FileExtensionUtf8 r" "\<not> 32 < length (FileExtensionUtf8 r)"
    using r by (simp_all add: plain_def trimmed_def)
  have it: "trim (int_to_string k) = int_to_string k" "int_to_string k \<noteq> []" for k
    using int_to_string_plain [of k] by (simp_all add: plain_def trimmed_def)
  have fs: "TryParseUint64 (int_to_string (FileSizeBytes r)) = Some (FileSizeBytes r)" using r by (intro parse_uint) simp_all
  have dl: "(if trim (render_fields r ! 8) = [] then Some 0 else TryParseInt (trim (render_fields r ! 8)))
      = Some (if Deleted r then 1 else 0)"
    using parse_deleted by (simp add: render_nth trim_digit)
  have sn: "(if trim (render_fields r ! 4) = [] then None else TryParseInt (trim (render_fields r ! 4))) = SeriesNumber r"
    using r parse_int it by (auto simp: render_nth split: option.splits)
  have sn': "\<not> (trim (render_fields r ! 4) \<noteq> [] \<and> SeriesNumber r = None)"
    by (cases "SeriesNumber r") (simp_all add: render_nth)
  have la: "\<not> 256 < length (split_on (CHR '':'') (join (CHR '':'') (map render_author (Authors r))))"
    using r render_author_no_colon
    by (simp only: not_less) (intro split_join_length, auto simp: list_all_iff)
  have lg: "\<not> 512 < length (split_on (CHR '':'') (join (CHR '':'') (GenresUtf8 r)))"
    "\<not> 512 < length (split_on (CHR '':'') (join (CHR '':'') (KeywordsUtf8 r)))"
    using r by (simp_all only: not_less) (intro split_join_length; auto simp: list_all_iff word_def)+
  have ws: "words_of (join (CHR '':'') (GenresUtf8 r)) = GenresUtf8 r" "words_of (join (CHR '':'') (KeywordsUtf8 r)) = KeywordsUtf8 r"
    using r by (simp_all add: words_of_join)
  have au: "parse_authors (split_on (CHR '':'') (join (CHR '':'') (map render_author (Authors r)))) [] = Some (Authors r)"
    using r by (intro parse_authors_render) simp
  show ?thesis
    unfolding ParseRecordLine_eq sp parse_fields_def Let_def dl sn
    by (simp only: render_nth(1,2,6,7,8,10,13,14) tr it fs la lg ws au if_not_P [OF sn'] option.case simp_thms if_False
        assemble_render [OF assms])
qed

end
