(* ===== verification/Sha256.thy ===== *)
theory Sha256
  imports String_Utils
begin

text \<open>
  \<open>libs/Foundation/Sha256Fingerprint.cpp\<close>. The digest itself is OpenSSL's; its calls are the
  fields of \<^emph>\<open>evp\<close>, an argument of the definitions: a new context, an update (\<open>None\<close>: the call
  did not return 1), the final call with its digest and the size it reports, and the size of a
  SHA-256 digest.
\<close>

section \<open>Operations\<close>

record 'c evp =
  evp_new :: "'c option"
  evp_update :: "'c \<Rightarrow> string \<Rightarrow> 'c option"
  evp_final :: "'c \<Rightarrow> (string \<times> nat) option"
  evp_size :: nat

datatype sha_error = ShaRuntimeError string | ShaLogicError string | ShaInvalidArgument string

definition GSha256Prefix :: string where
  "GSha256Prefix = ''sha256:''"

definition GSha256HexDigitCount :: nat where
  "GSha256HexDigitCount = 64"

definition IsAsciiHexDigit :: "char \<Rightarrow> bool" where
  "IsAsciiHexDigit value \<longleftrightarrow>
    (byte_of value \<ge> 48 \<and> byte_of value \<le> 57) \<or> (byte_of value \<ge> 97 \<and> byte_of value \<le> 102)
    \<or> (byte_of value \<ge> 65 \<and> byte_of value \<le> 70)"

definition CreateContext :: "'c evp \<Rightarrow> sha_error + 'c" where
  "CreateContext e =
    (case evp_new e of None \<Rightarrow> Inl (ShaRuntimeError ''Could not initialize SHA-256.'') | Some c \<Rightarrow> Inr c)"

definition sha_Update :: "'c evp \<Rightarrow> 'c \<Rightarrow> string \<Rightarrow> sha_error + 'c" where
  "sha_Update e context bytes =
    (if length bytes > 0 then
       (case evp_update e context bytes of
          None \<Rightarrow> Inl (ShaRuntimeError ''Could not update SHA-256.'')
        | Some c \<Rightarrow> Inr c)
     else Inr context)"

definition hexDigits :: string where
  "hexDigits = ''0123456789abcdef''"

definition hex_of :: "string \<Rightarrow> string" where
  "hex_of digest = concat (map (\<lambda>c. [hexDigits ! drop_bit 4 (byte_of c), hexDigits ! (byte_of c AND 0x0F)]) digest)"

definition sha_Finalize :: "'c evp \<Rightarrow> 'c \<Rightarrow> sha_error + string" where
  "sha_Finalize e context =
    (case evp_final e context of
       None \<Rightarrow> Inl (ShaRuntimeError ''Could not finalize SHA-256.'')
     | Some (digest, digestSize) \<Rightarrow>
         if digestSize \<noteq> evp_size e then Inl (ShaRuntimeError ''Could not finalize SHA-256.'')
         else Inr (GSha256Prefix @ hex_of (take digestSize digest)))"

text \<open>The builder: a context and whether it was finalised; a moved-from builder is \<open>None\<close>.\<close>

record 'c CImpl =
  Context :: 'c
  Finalized :: bool

type_synonym 'c builder = "'c CImpl option"

definition builder_new :: "'c evp \<Rightarrow> sha_error + 'c builder" where
  "builder_new e = (case CreateContext e of Inl err \<Rightarrow> Inl err | Inr c \<Rightarrow> Inr (Some \<lparr>Context = c, Finalized = False\<rparr>))"

definition builder_Update :: "'c evp \<Rightarrow> 'c builder \<Rightarrow> string \<Rightarrow> sha_error + 'c builder" where
  "builder_Update e b bytes =
    (case b of
       None \<Rightarrow> Inl (ShaLogicError ''Cannot update a finalized SHA-256 fingerprint.'')
     | Some m_impl \<Rightarrow>
         if Finalized m_impl then Inl (ShaLogicError ''Cannot update a finalized SHA-256 fingerprint.'')
         else case sha_Update e (Context m_impl) bytes of
                Inl err \<Rightarrow> Inl err
              | Inr c \<Rightarrow> Inr (Some (m_impl\<lparr>Context := c\<rparr>)))"

definition builder_Finalize :: "'c evp \<Rightarrow> 'c builder \<Rightarrow> (sha_error + string) \<times> 'c builder" where
  "builder_Finalize e b =
    (case b of
       None \<Rightarrow> (Inl (ShaLogicError ''Cannot finalize a SHA-256 fingerprint more than once.''), b)
     | Some m_impl \<Rightarrow>
         if Finalized m_impl
         then (Inl (ShaLogicError ''Cannot finalize a SHA-256 fingerprint more than once.''), b)
         else (sha_Finalize e (Context m_impl), Some (m_impl\<lparr>Finalized := True\<rparr>)))"

definition ComputeBytes :: "'c evp \<Rightarrow> string \<Rightarrow> sha_error + string" where
  "ComputeBytes e bytes =
    (case CreateContext e of
       Inl err \<Rightarrow> Inl err
     | Inr c \<Rightarrow> (case sha_Update e c bytes of Inl err \<Rightarrow> Inl err | Inr c' \<Rightarrow> sha_Finalize e c'))"

text \<open>
  \<open>ComputeFile\<close>, over the buffers that the reads of the open file deliver (\<open>gcount\<close> bytes each)
  and whether the stream ended at the end of the file.
\<close>

fun update_all :: "'c evp \<Rightarrow> 'c \<Rightarrow> string list \<Rightarrow> sha_error + 'c" where
  "update_all e c [] = Inr c"
| "update_all e c (buffer # rest) =
    (case sha_Update e c buffer of Inl err \<Rightarrow> Inl err | Inr c' \<Rightarrow> update_all e c' rest)"

definition ComputeFile :: "'c evp \<Rightarrow> string \<Rightarrow> (string list \<times> bool) option \<Rightarrow> sha_error + string" where
  "ComputeFile e path file =
    (case file of
       None \<Rightarrow> Inl (ShaRuntimeError (''Could not open file for SHA-256: '' @ [CHR 0x27] @ path @ [CHR 0x27] @ ''.''))
     | Some (reads, eof) \<Rightarrow>
         (case CreateContext e of
            Inl err \<Rightarrow> Inl err
          | Inr c \<Rightarrow> (case update_all e c reads of
                Inl err \<Rightarrow> Inl err
              | Inr c' \<Rightarrow>
                  if \<not> eof
                  then Inl (ShaRuntimeError (''Could not read file for SHA-256: '' @ [CHR 0x27] @ path @ [CHR 0x27] @ ''.''))
                  else sha_Finalize e c')))"

definition sha_Normalize :: "string \<Rightarrow> sha_error + string" where
  "sha_Normalize fingerprint =
    (let value = (if prefix GSha256Prefix fingerprint then drop (length GSha256Prefix) fingerprint else fingerprint) in
     if length value \<noteq> GSha256HexDigitCount \<or> \<not> list_all IsAsciiHexDigit value
     then Inl (ShaInvalidArgument ''Expected a SHA-256 fingerprint.'')
     else Inr (GSha256Prefix @ ToLowerAscii value))"

section \<open>Lemmas\<close>

text \<open>What OpenSSL documents of a digest: updates concatenate, and a digest has the size of the algorithm.\<close>

definition evp_streams :: "'c evp \<Rightarrow> bool" where
  "evp_streams e \<longleftrightarrow>
    (\<forall>c a b. a \<noteq> [] \<longrightarrow> b \<noteq> [] \<longrightarrow>
       Option.bind (evp_update e c a) (\<lambda>c'. evp_update e c' b) = evp_update e c (a @ b))"

lemma update_append:
  assumes "evp_streams e"
  shows "(case sha_Update e c a of Inl err \<Rightarrow> Inl err | Inr c' \<Rightarrow> sha_Update e c' b) = sha_Update e c (a @ b)"
proof (cases "a = [] \<or> b = []")
  case True
  then show ?thesis by (auto simp: sha_Update_def split: option.splits sum.splits)
next
  case False
  then have ne: "a \<noteq> []" "b \<noteq> []" by simp_all
  with assms have "Option.bind (evp_update e c a) (\<lambda>c'. evp_update e c' b) = evp_update e c (a @ b)"
    unfolding evp_streams_def by blast
  then show ?thesis using ne by (cases "evp_update e c a") (simp_all add: sha_Update_def)
qed

lemma update_all_concat:
  assumes "evp_streams e"
  shows "update_all e c bs = sha_Update e c (concat bs)"
proof (induction bs arbitrary: c)
  case Nil
  then show ?case by (simp add: sha_Update_def)
next
  case (Cons b bs)
  then show ?case using update_append [OF assms, where c = c and a = b and b = "concat bs"] by (simp cong: sum.case_cong)
qed

lemma hex_digit: "n < 16 \<Longrightarrow> IsAsciiHexDigit (hexDigits ! n) \<and> ToLowerAsciiCharacter (hexDigits ! n) = hexDigits ! n"
proof -
  assume "n < 16"
  then have "hexDigits ! n \<in> set hexDigits" by (intro nth_mem) (simp add: hexDigits_def)
  moreover have "\<forall>c \<in> set hexDigits. IsAsciiHexDigit c \<and> ToLowerAsciiCharacter c = c"
    by (simp add: hexDigits_def IsAsciiHexDigit_def ToLowerAsciiCharacter_def)
  ultimately show ?thesis by blast
qed

lemma hex_of_props:
  "length (hex_of d) = 2 * length d" "list_all IsAsciiHexDigit (hex_of d)" "ToLowerAscii (hex_of d) = hex_of d"
proof -
  have lt: "drop_bit 4 (byte_of c) < 16" "byte_of c AND 0x0F < 16" for c
    using byte_of_less [of c] by (simp_all add: drop_bit_eq_div and_0x0F less_mult_imp_div_less)
  note h = hex_digit [OF lt(1)] hex_digit [OF lt(2)]
  show "length (hex_of d) = 2 * length d" by (induction d) (simp_all add: hex_of_def)
  show "list_all IsAsciiHexDigit (hex_of d)" using h by (induction d) (simp_all add: hex_of_def)
  show "ToLowerAscii (hex_of d) = hex_of d" using h by (induction d) (simp_all add: hex_of_def ToLowerAscii_def)
qed

lemma ToLower_hex: "IsAsciiHexDigit c \<Longrightarrow> IsAsciiHexDigit (ToLowerAsciiCharacter c)"
  by (auto simp: IsAsciiHexDigit_def ToLowerAsciiCharacter_def byte_of_chr_of)

lemma Normalize_Some:
  assumes "sha_Normalize f = Inr t"
  shows "sha_Normalize t = Inr t" "length t = length GSha256Prefix + 64"
proof -
  define v where "v = (if prefix GSha256Prefix f then drop (length GSha256Prefix) f else f)"
  have v: "length v = 64" "list_all IsAsciiHexDigit v" "t = GSha256Prefix @ ToLowerAscii v"
    using assms unfolding sha_Normalize_def Let_def v_def [symmetric] GSha256HexDigitCount_def
    by (simp_all split: if_splits)
  have "list_all IsAsciiHexDigit (ToLowerAscii v)"
    using v(2) by (induction v) (simp_all add: ToLowerAscii_def ToLower_hex)
  then show "sha_Normalize t = Inr t" "length t = length GSha256Prefix + 64"
    using v by (simp_all add: sha_Normalize_def GSha256HexDigitCount_def)
qed

lemma Finalize_Normalize:
  assumes "sha_Finalize e c = Inr f" "evp_size e = 32" "\<And>d n. evp_final e c = Some (d, n) \<Longrightarrow> n \<le> length d"
  shows "sha_Normalize f = Inr f"
proof -
  from assms obtain d where d: "f = GSha256Prefix @ hex_of (take 32 d)" "32 \<le> length d"
    by (auto simp: sha_Finalize_def split: option.splits if_splits)
  then show ?thesis
    using hex_of_props [of "take 32 d"] by (simp add: sha_Normalize_def GSha256HexDigitCount_def)
qed

end
