(* ===== verification/Inpx_Archive.thy ===== *)
theory Inpx_Archive
  imports Inpx_Roundtrip Sha256
begin

text \<open>
  The INPX archive: \<open>CZipArchive\<close>, \<open>ReadSegments\<close>, \<open>Parse\<close>, \<open>ParseAll\<close> and
  \<open>ReadArchiveNameSamples\<close> of \<open>libs/Inpx/InpxParser.cpp\<close>.

  libzip is an argument: the results of its calls on one open archive. A read is given the entry, the
  bytes of it consumed so far and the size of the buffer, and returns its count and the buffer.
  Exceptions are values of \<^typ>\<open>text_error\<close>; a callback is a function from the state of the caller.
\<close>

section \<open>Operations\<close>

record libzip =
  zip_open_error :: "string option"
  zip_num_entries :: int
  zip_stat_index :: "nat \<Rightarrow> (string option \<times> nat) option"
  zip_fopen_index :: "nat \<Rightarrow> bool"
  zip_fread :: "nat \<Rightarrow> nat \<Rightarrow> nat \<Rightarrow> int \<times> string"
  zip_fclose :: "nat \<Rightarrow> int"

definition GMaxInpEntryPayloadBytes :: nat where
  "GMaxInpEntryPayloadBytes = 128 * 1024 * 1024"

definition IsInpEntryPayloadSizeAllowed :: "nat \<Rightarrow> bool" where
  "IsInpEntryPayloadSizeAllowed sizeBytes \<longleftrightarrow> sizeBytes \<le> GMaxInpEntryPayloadBytes"

definition open_archive :: "libzip \<Rightarrow> text_error + unit" where
  "open_archive z =
    (case zip_open_error z of
       Some message \<Rightarrow> Inl (TextRuntimeError (''Failed to open INPX archive: '' @ message))
     | None \<Rightarrow> Inr ())"

definition EntryCount :: "libzip \<Rightarrow> text_error + nat" where
  "EntryCount z =
    (if zip_num_entries z < 0 then Inl (TextRuntimeError ''Failed to read INPX entry count.'')
     else Inr (nat (zip_num_entries z)))"

definition EntryName :: "libzip \<Rightarrow> nat \<Rightarrow> text_error + string" where
  "EntryName z index =
    (case zip_stat_index z index of
       Some (Some entry, _) \<Rightarrow> Inr entry
     | _ \<Rightarrow> Inl (TextRuntimeError ''Failed to read INPX entry name.''))"

definition EntrySize :: "libzip \<Rightarrow> nat \<Rightarrow> text_error + nat" where
  "EntrySize z index =
    (case zip_stat_index z index of
       None \<Rightarrow> Inl (TextRuntimeError ''Failed to stat INPX entry.'')
     | Some (_, sizeBytes) \<Rightarrow>
         if \<not> IsInpEntryPayloadSizeAllowed sizeBytes then Inl (TextRuntimeError ''INP entry too large.'')
         else Inr sizeBytes)"

function read_entry_loop :: "libzip \<Rightarrow> nat \<Rightarrow> nat \<Rightarrow> string \<Rightarrow> text_error + string" where
  "read_entry_loop z index remainingBytes bytes =
    (if remainingBytes > 0 then
       let bytesToRead = min GCancellationCheckpointIntervalBytes remainingBytes;
           readCount = fst (zip_fread z index (length bytes) bytesToRead);
           buffer = snd (zip_fread z index (length bytes) bytesToRead) in
       if readCount \<le> 0 \<or> nat readCount > bytesToRead
       then Inl (TextRuntimeError ''Failed to read INPX entry.'')
       else read_entry_loop z index (remainingBytes - nat readCount) (bytes @ take (nat readCount) buffer)
     else Inr bytes)"
  by pat_completeness auto
termination
  by (relation "measure (\<lambda>(_, _, r, _). r)") (simp_all add: Let_def)

declare read_entry_loop.simps [simp del]

definition ReadTextEntry :: "libzip \<Rightarrow> nat \<Rightarrow> nat \<Rightarrow> text_error + string" where
  "ReadTextEntry z index entrySize =
    (if \<not> zip_fopen_index z index then Inl (TextRuntimeError ''Failed to open INPX entry.'')
     else case read_entry_loop z index entrySize [] of
       Inl e \<Rightarrow> Inl e
     | Inr bytes \<Rightarrow>
         if fst (zip_fread z index (length bytes) 1) \<noteq> 0
         then Inl (TextRuntimeError ''Failed to validate INPX entry payload checksum and size.'')
         else if zip_fclose z index \<noteq> 0
         then Inl (TextRuntimeError ''Failed to close INPX entry after reading.'')
         else Inr bytes)"

function fingerprint_loop :: "'c evp \<Rightarrow> string \<Rightarrow> nat \<Rightarrow> 'c builder \<Rightarrow> sha_error + 'c builder" where
  "fingerprint_loop evp bytes offset fingerprint =
    (if offset < length bytes then
       let chunkSize = min GCancellationCheckpointIntervalBytes (length bytes - offset) in
       case builder_Update evp fingerprint (substr bytes offset chunkSize) of
         Inl e \<Rightarrow> Inl e
       | Inr fingerprint' \<Rightarrow> fingerprint_loop evp bytes (offset + chunkSize) fingerprint'
     else Inr fingerprint)"
  by pat_completeness auto
termination
  by (relation "measure (\<lambda>(_, v, i, _). length v - i)") (simp_all add: Let_def diff_less_mono2)

declare fingerprint_loop.simps [simp del]

definition ComputeFingerprintWithCheckpoints :: "'c evp \<Rightarrow> string \<Rightarrow> sha_error + string" where
  "ComputeFingerprintWithCheckpoints evp bytes =
    (case builder_new evp of
       Inl e \<Rightarrow> Inl e
     | Inr b \<Rightarrow> (case fingerprint_loop evp bytes 0 b of
           Inl e \<Rightarrow> Inl e
         | Inr b' \<Rightarrow> fst (builder_Finalize evp b')))"

fun sha_exception :: "sha_error \<Rightarrow> text_error" where
  "sha_exception (ShaRuntimeError m) = TextRuntimeError m"
| "sha_exception (ShaLogicError m) = TextRuntimeError m"
| "sha_exception (ShaInvalidArgument m) = TextRuntimeError m"

text \<open>Unsigned 64-bit subtraction, which wraps.\<close>

definition u64_sub :: "nat \<Rightarrow> nat \<Rightarrow> nat" where
  "u64_sub a b = (a + 2 ^ 64 - b) mod 2 ^ 64"

definition planning_limit_message :: "nat \<Rightarrow> string" where
  "planning_limit_message maxTotal =
    ''INPX metadata input exceeds the configured scan planning limit of '' @ to_string maxTotal @ '' bytes.''"

text \<open>The body of the loop of \<open>ReadSegments\<close> for one \<open>.inp\<close> entry: its bytes and the new total.\<close>

definition read_segment ::
    "'c evp \<Rightarrow> libzip \<Rightarrow> nat \<Rightarrow> nat \<Rightarrow> string \<Rightarrow> nat \<Rightarrow> text_error + (SInpxSegmentPayload \<times> nat)" where
  "read_segment evp z maxTotal index entryName totalInputBytes =
    (case EntrySize z index of
       Inl e \<Rightarrow> Inl e
     | Inr entrySize \<Rightarrow>
         if entrySize > u64_sub maxTotal totalInputBytes
         then Inl (TextRuntimeError (planning_limit_message maxTotal))
         else (case ReadTextEntry z index entrySize of
             Inl e \<Rightarrow> Inl e
           | Inr bytes \<Rightarrow>
               (case ComputeFingerprintWithCheckpoints evp bytes of
                  Inl e \<Rightarrow> Inl (sha_exception e)
                | Inr fingerprint \<Rightarrow>
                    Inr (\<lparr>SegInpEntryNameUtf8 = entryName, SegArchiveNameUtf8 = BuildArchiveName entryName,
                          SegFingerprintUtf8 = fingerprint, SegBytes = bytes\<rparr>,
                         totalInputBytes + entrySize))))"

fun read_segments_loop ::
    "'c evp \<Rightarrow> libzip \<Rightarrow> nat \<Rightarrow> (SInpxSegmentPayload \<Rightarrow> 's \<Rightarrow> text_error + 's) \<Rightarrow> nat list \<Rightarrow> nat \<Rightarrow> nat \<Rightarrow> 's \<Rightarrow>
     text_error + (nat \<times> 's)" where
  "read_segments_loop evp z maxTotal onSegment [] segmentCount totalInputBytes s = Inr (segmentCount, s)"
| "read_segments_loop evp z maxTotal onSegment (index # rest) segmentCount totalInputBytes s =
    (case EntryName z index of
       Inl e \<Rightarrow> Inl e
     | Inr entryName \<Rightarrow>
         if \<not> EndsWithAsciiInsensitive entryName ''.inp''
         then read_segments_loop evp z maxTotal onSegment rest segmentCount totalInputBytes s
         else (case read_segment evp z maxTotal index entryName totalInputBytes of
             Inl e \<Rightarrow> Inl e
           | Inr (segment, total') \<Rightarrow>
               (case onSegment segment s of
                  Inl e \<Rightarrow> Inl e
                | Inr s' \<Rightarrow> read_segments_loop evp z maxTotal onSegment rest (segmentCount + 1) total' s')))"

definition ReadSegments ::
    "'c evp \<Rightarrow> libzip \<Rightarrow> (SInpxSegmentPayload \<Rightarrow> 's \<Rightarrow> text_error + 's) \<Rightarrow> nat \<Rightarrow> 's \<Rightarrow> text_error + (nat \<times> 's)" where
  "ReadSegments evp z onSegment maxTotal s =
    (case open_archive z of
       Inl e \<Rightarrow> Inl e
     | Inr _ \<Rightarrow> (case EntryCount z of
           Inl e \<Rightarrow> Inl e
         | Inr count \<Rightarrow> read_segments_loop evp z maxTotal onSegment [0..<count] 0 0 s))"

text \<open>The segment callback of \<open>Parse\<close>: parse, then add the counters of the segment.\<close>

definition add_summary :: "SInpxParseSummary \<Rightarrow> SInpxParseSummary \<Rightarrow> SInpxParseSummary" where
  "add_summary s t =
    \<lparr>InpEntryCount = InpEntryCount s + 1, TotalRecords = TotalRecords s + TotalRecords t,
     ParsedRecords = ParsedRecords s + ParsedRecords t, SkippedRecords = SkippedRecords s + SkippedRecords t,
     DeletedRecords = DeletedRecords s + DeletedRecords t, WarningCount = WarningCount s + WarningCount t\<rparr>"

definition parse_onSegment :: "convert \<Rightarrow> SInpxSegmentPayload \<Rightarrow> parse_state \<Rightarrow> text_error + parse_state" where
  "parse_onSegment convert_text segment st =
    (case ParseSegment convert_text segment (Records st) (Warnings st) of
       Inl e \<Rightarrow> Inl e
     | Inr st' \<Rightarrow> Inr (st'\<lparr>Summary := add_summary (Summary st) (Summary st')\<rparr>))"

definition u64_max :: nat where
  "u64_max = 2 ^ 64 - 1"

text \<open>\<open>Parse\<close> with the collecting callbacks of \<open>ParseAll\<close>.\<close>

definition ParseAll :: "convert \<Rightarrow> 'c evp \<Rightarrow> libzip \<Rightarrow> text_error + parse_state" where
  "ParseAll convert_text evp z =
    (case ReadSegments evp z (parse_onSegment convert_text) u64_max
            \<lparr>Summary = empty_summary, Records = [], Warnings = []\<rparr> of
       Inl e \<Rightarrow> Inl e
     | Inr (_, st) \<Rightarrow> Inr st)"

fun samples_loop :: "libzip \<Rightarrow> nat \<Rightarrow> nat list \<Rightarrow> string list \<Rightarrow> text_error + string list" where
  "samples_loop z maxSamples [] archiveNames = Inr archiveNames"
| "samples_loop z maxSamples (index # rest) archiveNames =
    (if \<not> length archiveNames < maxSamples then Inr archiveNames
     else case EntryName z index of
       Inl e \<Rightarrow> Inl e
     | Inr entryName \<Rightarrow>
         if \<not> EndsWithAsciiInsensitive entryName ''.inp'' then samples_loop z maxSamples rest archiveNames
         else let archiveName = BuildArchiveName entryName in
           samples_loop z maxSamples rest
             (if archiveName \<in> set archiveNames then archiveNames else archiveNames @ [archiveName]))"

definition ReadArchiveNameSamples :: "libzip \<Rightarrow> nat \<Rightarrow> text_error + string list" where
  "ReadArchiveNameSamples z maxSamples =
    (case open_archive z of
       Inl e \<Rightarrow> Inl e
     | Inr _ \<Rightarrow> (case EntryCount z of
           Inl e \<Rightarrow> Inl e
         | Inr count \<Rightarrow> samples_loop z maxSamples [0..<count] []))"

section \<open>Reading one entry\<close>

text \<open>What libzip documents of reads: at most as many bytes as asked for, the next bytes of the
  entry, zero exactly at its end.\<close>

definition zip_serves :: "libzip \<Rightarrow> nat \<Rightarrow> string \<Rightarrow> bool" where
  "zip_serves z index content \<longleftrightarrow>
    (\<forall>pos n. pos \<le> length content \<longrightarrow> 0 < n \<longrightarrow>
       0 \<le> fst (zip_fread z index pos n) \<and> fst (zip_fread z index pos n) \<le> int n
       \<and> (fst (zip_fread z index pos n) = 0 \<longleftrightarrow> pos = length content)
       \<and> pos + nat (fst (zip_fread z index pos n)) \<le> length content
       \<and> take (nat (fst (zip_fread z index pos n))) (snd (zip_fread z index pos n))
           = take (nat (fst (zip_fread z index pos n))) (drop pos content))"

lemma zip_servesD:
  assumes "zip_serves z i c" "pos \<le> length c" "0 < n"
  shows "0 \<le> fst (zip_fread z i pos n)" "fst (zip_fread z i pos n) \<le> int n"
    "fst (zip_fread z i pos n) = 0 \<longleftrightarrow> pos = length c"
    "pos + nat (fst (zip_fread z i pos n)) \<le> length c"
    "take (nat (fst (zip_fread z i pos n))) (snd (zip_fread z i pos n))
       = take (nat (fst (zip_fread z i pos n))) (drop pos c)"
  using assms unfolding zip_serves_def by blast+

lemma read_entry_loop_serves:
  "zip_serves z i c \<Longrightarrow> bytes = take (length bytes) c \<Longrightarrow> length bytes \<le> length c \<Longrightarrow>
    read_entry_loop z i n bytes =
      (if length bytes + n \<le> length c then Inr (take (length bytes + n) c)
       else Inl (TextRuntimeError ''Failed to read INPX entry.''))"
proof (induction z i n bytes rule: read_entry_loop.induct)
  case (1 z i n bytes)
  let ?m = "min GCancellationCheckpointIntervalBytes n"
  let ?k = "fst (zip_fread z i (length bytes) ?m)"
  let ?b = "snd (zip_fread z i (length bytes) ?m)"
  show ?case
  proof (cases "n = 0")
    case True
    then show ?thesis using "1.prems"(2,3) by (simp add: read_entry_loop.simps [of z i 0 bytes])
  next
    case False
    then have n: "0 < n" "0 < ?m" by simp_all
    note sv = zip_servesD [OF "1.prems"(1,3) n(2)]
    show ?thesis
    proof (cases "length bytes = length c")
      case True
      then have "?k = 0" using sv(3) by simp
      then show ?thesis using n True by (simp add: read_entry_loop.simps [of z i n bytes] Let_def)
    next
      case False
      define k where "k = nat ?k"
      have k: "0 < k" "k \<le> ?m" "length bytes + k \<le> length c" "\<not> ?k \<le> 0" "\<not> k > ?m"
        using sv(1,2,3,4) False by (auto simp: k_def)
      have tb: "take k ?b = take k (drop (length bytes) c)" using sv(5) by (simp add: k_def)
      define b where "b = bytes @ take k ?b"
      have lb: "length b = length bytes + k" unfolding b_def tb using k(3) by simp
      have b: "b = take (length b) c"
      proof -
        have "b = take (length bytes) c @ take k (drop (length bytes) c)" using "1.prems"(2) by (simp add: b_def tb)
        also have "\<dots> = take (length bytes + k) c" by (simp only: take_add)
        finally show ?thesis unfolding lb .
      qed
      have "read_entry_loop z i n bytes = read_entry_loop z i (n - k) b"
        using n(1) k(4,5) by (simp add: read_entry_loop.simps [of z i n bytes] Let_def flip: k_def b_def)
      also have "\<dots> = (if length b + (n - k) \<le> length c then Inr (take (length b + (n - k)) c)
          else Inl (TextRuntimeError ''Failed to read INPX entry.''))"
        using "1.IH" [OF n(1) refl refl refl] k b lb "1.prems"(1) by (simp flip: k_def b_def)
      also have "length b + (n - k) = length bytes + n" using lb k by simp
      finally show ?thesis .
    qed
  qed
qed

lemma ReadTextEntry_serves:
  assumes "zip_serves z i c" "zip_fopen_index z i" "zip_fclose z i = 0"
  shows "ReadTextEntry z i n =
    (if n = length c then Inr c
     else Inl (TextRuntimeError (if n < length c then ''Failed to validate INPX entry payload checksum and size.''
                                 else ''Failed to read INPX entry.'')))"
proof -
  have r: "read_entry_loop z i n [] = (if n \<le> length c then Inr (take n c)
      else Inl (TextRuntimeError ''Failed to read INPX entry.''))"
    using read_entry_loop_serves [OF assms(1), of "[]" n] by simp
  show ?thesis
  proof (cases "n \<le> length c")
    case True
    have "fst (zip_fread z i n 1) = 0 \<longleftrightarrow> n = length c" using zip_servesD(3) [OF assms(1) True] by simp
    then show ?thesis using r True assms by (simp add: ReadTextEntry_def)
  next
    case False
    then show ?thesis using r assms by (simp add: ReadTextEntry_def)
  qed
qed

section \<open>Fingerprints\<close>

lemma fingerprint_loop_eq:
  assumes "evp_streams evp"
  shows "offset \<le> length bytes \<Longrightarrow> fingerprint_loop evp bytes offset (Some \<lparr>Context = c, Finalized = False\<rparr>) =
    (case sha_Update evp c (drop offset bytes) of
       Inl e \<Rightarrow> Inl e | Inr c' \<Rightarrow> Inr (Some \<lparr>Context = c', Finalized = False\<rparr>))"
proof (induction "length bytes - offset" arbitrary: offset c rule: less_induct)
  case less
  show ?case
  proof (cases "offset < length bytes")
    case True
    let ?n = "min GCancellationCheckpointIntervalBytes (length bytes - offset)"
    have le: "offset + ?n \<le> length bytes" and dec: "length bytes - (offset + ?n) < length bytes - offset"
      using True interval_pos by (simp_all add: diff_less_mono2)
    have d: "drop offset bytes = substr bytes offset ?n @ drop (offset + ?n) bytes"
      by (simp only: substr_append_drop)
    have u: "sha_Update evp c (drop offset bytes)
        = (case sha_Update evp c (substr bytes offset ?n) of Inl e \<Rightarrow> Inl e | Inr c' \<Rightarrow> sha_Update evp c' (drop (offset + ?n) bytes))"
      unfolding d by (rule update_append [OF assms, symmetric])
    have step: "fingerprint_loop evp bytes offset (Some \<lparr>Context = c, Finalized = False\<rparr>) =
        (case sha_Update evp c (substr bytes offset ?n) of Inl e \<Rightarrow> Inl e
         | Inr c' \<Rightarrow> fingerprint_loop evp bytes (offset + ?n) (Some \<lparr>Context = c', Finalized = False\<rparr>))"
      using True by (simp add: fingerprint_loop.simps [of evp bytes offset] Let_def builder_Update_def split: sum.splits)
    show ?thesis
      unfolding step u using less.hyps [OF dec le] by (simp split: sum.splits)
  next
    case False
    then have "offset = length bytes" using less.prems by simp
    then show ?thesis by (simp add: fingerprint_loop.simps [of evp bytes "length bytes"] sha_Update_def)
  qed
qed

lemma Fingerprint_eq:
  assumes "evp_streams evp"
  shows "ComputeFingerprintWithCheckpoints evp bytes = ComputeBytes evp bytes"
  using fingerprint_loop_eq [OF assms, of 0 bytes]
  by (auto simp: ComputeFingerprintWithCheckpoints_def ComputeBytes_def builder_new_def builder_Finalize_def
      split: sum.splits)

section \<open>Limits of the input\<close>

lemma u64_sub_eq: "b \<le> a \<Longrightarrow> a < 2 ^ 64 \<Longrightarrow> u64_sub a b = a - b"
proof -
  assume "b \<le> a" "a < 2 ^ 64"
  then have "a + 2 ^ 64 - b = 2 ^ 64 + (a - b)" "a - b < 2 ^ 64" by simp_all
  then show ?thesis unfolding u64_sub_def by (simp only: mod_add_self1 mod_less)
qed

text \<open>The segments that a run of the loop hands over, as a list.\<close>

abbreviation collect :: "SInpxSegmentPayload \<Rightarrow> SInpxSegmentPayload list \<Rightarrow> text_error + SInpxSegmentPayload list" where
  "collect \<equiv> \<lambda>seg segs. Inr (segs @ [seg])"

definition inp_entry :: "libzip \<Rightarrow> nat \<Rightarrow> bool" where
  "inp_entry z i \<longleftrightarrow> (case EntryName z i of Inl _ \<Rightarrow> False | Inr n \<Rightarrow> EndsWithAsciiInsensitive n ''.inp'')"

definition entry_bytes :: "libzip \<Rightarrow> nat \<Rightarrow> nat" where
  "entry_bytes z i = (case zip_stat_index z i of None \<Rightarrow> 0 | Some (_, n) \<Rightarrow> n)"

definition segment_of_entry :: "libzip \<Rightarrow> nat \<Rightarrow> SInpxSegmentPayload \<Rightarrow> bool" where
  "segment_of_entry z i seg \<longleftrightarrow>
    EntryName z i = Inr (SegInpEntryNameUtf8 seg)
    \<and> SegArchiveNameUtf8 seg = BuildArchiveName (SegInpEntryNameUtf8 seg)
    \<and> ReadTextEntry z i (entry_bytes z i) = Inr (SegBytes seg)
    \<and> entry_bytes z i \<le> GMaxInpEntryPayloadBytes"

lemma read_segment_Inr:
  assumes "read_segment evp z m i n tot = Inr (seg, tot')" "EntryName z i = Inr n" "tot \<le> m" "m < 2 ^ 64"
  shows "segment_of_entry z i seg" "tot' = tot + entry_bytes z i" "tot' \<le> m"
proof -
  from assms(1) obtain sz where sz: "EntrySize z i = Inr sz" by (auto simp: read_segment_def split: sum.splits)
  then have eb: "entry_bytes z i = sz" "sz \<le> GMaxInpEntryPayloadBytes"
    by (auto simp: EntrySize_def entry_bytes_def IsInpEntryPayloadSizeAllowed_def split: option.splits if_splits)
  have le: "\<not> sz > u64_sub m tot" using assms(1) sz by (auto simp: read_segment_def)
  note A = assms(1) [unfolded read_segment_def sz sum.case if_not_P [OF le]]
  from A obtain bytes where b: "ReadTextEntry z i sz = Inr bytes" by (auto split: sum.splits)
  from A b obtain fp where "ComputeFingerprintWithCheckpoints evp bytes = Inr fp" by (auto split: sum.splits)
  with A b have r: "seg = \<lparr>SegInpEntryNameUtf8 = n, SegArchiveNameUtf8 = BuildArchiveName n, SegFingerprintUtf8 = fp, SegBytes = bytes\<rparr>"
    "tot' = tot + sz" by simp_all
  show "segment_of_entry z i seg" using r(1) assms(2) b eb by (simp add: segment_of_entry_def)
  show "tot' = tot + entry_bytes z i" using r(2) eb by simp
  show "tot' \<le> m" using r(2) le u64_sub_eq [OF assms(3,4)] assms(3) by simp
qed

lemma read_segments_loop_collect:
  "read_segments_loop evp z m collect is k tot segs = Inr (k', segs') \<Longrightarrow> tot \<le> m \<Longrightarrow> m < 2 ^ 64 \<Longrightarrow>
    \<exists>new. segs' = segs @ new \<and> k' = k + length new
      \<and> list_all2 (segment_of_entry z) (filter (inp_entry z) is) new
      \<and> tot + sum_list (map (entry_bytes z) (filter (inp_entry z) is)) \<le> m"
proof (induction "is" arbitrary: k tot segs)
  case (Cons i "is")
  from Cons.prems(1) obtain n where n: "EntryName z i = Inr n" by (auto split: sum.splits)
  show ?case
  proof (cases "EndsWithAsciiInsensitive n ''.inp''")
    case False
    then have "\<not> inp_entry z i" using n by (simp add: inp_entry_def)
    with Cons False n show ?thesis by simp
  next
    case True
    then have ie: "inp_entry z i" using n by (simp add: inp_entry_def)
    from Cons.prems(1) n True obtain seg tot1 where s: "read_segment evp z m i n tot = Inr (seg, tot1)"
      "read_segments_loop evp z m collect is (k + 1) tot1 (segs @ [seg]) = Inr (k', segs')"
      by (auto split: sum.splits prod.splits)
    note r = read_segment_Inr [OF s(1) n Cons.prems(2,3)]
    from Cons.IH [OF s(2) r(3) Cons.prems(3)] obtain new where
      "segs' = (segs @ [seg]) @ new" "k' = k + 1 + length new"
      "list_all2 (segment_of_entry z) (filter (inp_entry z) is) new"
      "tot1 + sum_list (map (entry_bytes z) (filter (inp_entry z) is)) \<le> m" by blast
    then show ?thesis using r ie by (intro exI [of _ "seg # new"]) simp
  qed
qed simp

section \<open>Counters of the whole archive\<close>

lemma add_summary_accounts:
  assumes "accounts rs ws st" "accounts rs' ws' st'"
  shows "accounts (rs @ rs') (ws @ ws') (st'\<lparr>Summary := add_summary (Summary st) (Summary st')\<rparr>)"
  using assms by (simp add: accounts_def add_summary_def Let_def)

lemma read_segments_accounts:
  "read_segments_loop evp z m (parse_onSegment cv) is k tot st = Inr (k', st') \<Longrightarrow>
    accounts (Records st) (Warnings st) st \<Longrightarrow> InpEntryCount (Summary st) = k \<Longrightarrow>
    accounts (Records st') (Warnings st') st' \<and> InpEntryCount (Summary st') = k'"
proof (induction "is" arbitrary: k tot st)
  case (Cons i "is")
  from Cons.prems(1) obtain n where n: "EntryName z i = Inr n" by (auto split: sum.splits)
  show ?case
  proof (cases "EndsWithAsciiInsensitive n ''.inp''")
    case True
    from Cons.prems(1) n True obtain seg tot1 st1 where s: "parse_onSegment cv seg st = Inr st1"
      "read_segments_loop evp z m (parse_onSegment cv) is (k + 1) tot1 st1 = Inr (k', st')"
      by (auto split: sum.splits prod.splits)
    from s(1) obtain st2 where p: "ParseSegment cv seg (Records st) (Warnings st) = Inr st2"
      "st1 = st2\<lparr>Summary := add_summary (Summary st) (Summary st2)\<rparr>"
      by (auto simp: parse_onSegment_def split: sum.splits)
    from p(1) obtain rs ws where "Records st2 = Records st @ rs" "Warnings st2 = Warnings st @ ws" "accounts rs ws st2"
      by (elim ParseSegment_accounts) blast
    with add_summary_accounts [OF Cons.prems(2)] p(2)
    have "accounts (Records st1) (Warnings st1) st1" by simp
    moreover have "InpEntryCount (Summary st1) = k + 1" using p(2) Cons.prems(3) by (simp add: add_summary_def)
    ultimately show ?thesis using Cons.IH [OF s(2)] by blast
  qed (use Cons n in simp)
qed simp

lemma ParseAll_accounts:
  assumes "ParseAll cv evp z = Inr st"
  shows "accounts (Records st) (Warnings st) st"
proof -
  let ?st0 = "\<lparr>Summary = empty_summary, Records = [], Warnings = []\<rparr>"
  from assms obtain k where "read_segments_loop evp z u64_max (parse_onSegment cv) [0..<nat (zip_num_entries z)] 0 0 ?st0 = Inr (k, st)"
    by (auto simp: ParseAll_def ReadSegments_def EntryCount_def split: sum.splits if_splits)
  moreover have "accounts (Records ?st0) (Warnings ?st0) ?st0" "InpEntryCount (Summary ?st0) = 0"
    by (simp_all add: accounts_def empty_summary_def)
  ultimately show ?thesis using read_segments_accounts by blast
qed

section \<open>Archive name samples\<close>

lemma samples_loop_bounds:
  "samples_loop z m is acc = Inr names \<Longrightarrow> distinct acc \<Longrightarrow> length acc \<le> m \<Longrightarrow>
    distinct names \<and> length names \<le> m \<and> set names \<subseteq> set acc \<union>
      {BuildArchiveName n | n i. i \<in> set is \<and> EntryName z i = Inr n \<and> EndsWithAsciiInsensitive n ''.inp''}"
proof (induction z m "is" acc rule: samples_loop.induct)
  case (2 z m i "is" acc)
  show ?case
  proof (cases "length acc < m")
    case False
    then show ?thesis using "2.prems" by auto
  next
    case True
    with "2.prems"(1) obtain n where n: "EntryName z i = Inr n" by (auto split: sum.splits)
    show ?thesis
    proof (cases "EndsWithAsciiInsensitive n ''.inp''")
      case False
      have "samples_loop z m is acc = Inr names" using "2.prems"(1) True n False by simp
      from "2.IH"(1) [OF _ n False this "2.prems"(2,3)] True show ?thesis by fastforce
    next
      case inp: True
      let ?acc = "if BuildArchiveName n \<in> set acc then acc else acc @ [BuildArchiveName n]"
      have "samples_loop z m is ?acc = Inr names" using "2.prems"(1) True n inp by (simp add: Let_def)
      from "2.IH"(2) [OF _ n _ refl this] True inp "2.prems"(2,3) n show ?thesis
        by (fastforce split: if_splits)
    qed
  qed
qed auto

end
