(* ===== verification/Inpx_Properties.thy ===== *)
theory Inpx_Properties
  imports Inpx_Archive
begin

text \<open>
  The properties of the INPX parser (\<open>libs/Inpx/InpxParser.cpp\<close>), with sample inputs.
\<close>

section \<open>Sample inputs\<close>

definition sample_author :: SInpxAuthor where
  "sample_author = \<lparr>DisplayNameUtf8 = ''A B'', LastNameUtf8 = ''B'', FirstNameUtf8 = ''A'', MiddleNameUtf8 = []\<rparr>"

definition sample_record :: SInpxRecord where
  "sample_record = \<lparr>Authors = [sample_author], GenresUtf8 = [''sf'', ''det''], KeywordsUtf8 = [], TitleUtf8 = ''T'',
     SeriesUtf8 = None, SeriesNumber = Some (- 7), FileNameUtf8 = ''12'', FileSizeBytes = 345, LibId = ''12'', Deleted = False,
     FileExtensionUtf8 = ''fb2'', DateAddedUtf8 = Some ''2020-01-01'', LanguageUtf8 = ''ru'',
     InpEntryNameUtf8 = ''a.inp'', ArchiveNameUtf8 = ''a'', EntryNameUtf8 = ''12.fb2''\<rparr>"

definition sample_segment :: SInpxSegmentPayload where
  "sample_segment = \<lparr>SegInpEntryNameUtf8 = ''a.inp'', SegArchiveNameUtf8 = ''a'', SegFingerprintUtf8 = [],
     SegBytes = [CHR ''x'', CHR 0x0A, CHR 0x0A, CHR ''y'']\<rparr>"

definition sample_zip :: "string \<Rightarrow> libzip" where
  "sample_zip content = \<lparr>zip_open_error = None, zip_num_entries = 1,
     zip_stat_index = (\<lambda>i. if i = 0 then Some (Some ''a.inp'', length content) else None),
     zip_fopen_index = (\<lambda>i. i = 0),
     zip_fread = (\<lambda>i pos n. (int (min n (length content - pos)), take n (drop pos content))),
     zip_fclose = (\<lambda>i. 0)\<rparr>"

definition sample_evp :: "string evp" where
  "sample_evp = \<lparr>evp_new = Some [], evp_update = (\<lambda>c b. Some (c @ b)),
     evp_final = (\<lambda>c. Some (take 32 (c @ replicate 32 (CHR 0x00)), 32)), evp_size = 32\<rparr>"

definition no_convert :: convert where
  "no_convert v e = None"

lemma sample_zip_simps [simp]:
  "zip_open_error (sample_zip c) = None" "zip_num_entries (sample_zip c) = 1"
  "zip_stat_index (sample_zip c) 0 = Some (Some ''a.inp'', length c)"
  "zip_fopen_index (sample_zip c) 0" "zip_fclose (sample_zip c) 0 = 0"
  "zip_fread (sample_zip c) i pos n = (int (min n (length c - pos)), take n (drop pos c))"
  by (simp_all add: sample_zip_def)

lemma sample_zip_serves: "zip_serves (sample_zip c) 0 c"
proof (unfold zip_serves_def sample_zip_simps fst_conv snd_conv nat_int, intro allI impI conjI)
  fix pos n :: nat assume pos: "pos \<le> length c" "0 < n"
  show "int (min n (length c - pos)) = 0 \<longleftrightarrow> pos = length c" using pos by linarith
  show "pos + min n (length c - pos) \<le> length c" using pos by linarith
  show "take (min n (length c - pos)) (take n (drop pos c)) = take (min n (length c - pos)) (drop pos c)"
    by (simp add: min.assoc [symmetric] min.commute)
qed simp_all

lemma sample_evp_streams: "evp_streams sample_evp"
  by (simp add: evp_streams_def sample_evp_def)

lemma sample_decode: "DecodeInpPayloadToUtf8 no_convert (SegBytes sample_segment) = Inr (SegBytes sample_segment)"
proof -
  have "IsValidUtf8 (SegBytes sample_segment)"
    unfolding sample_segment_def by (rule valid_ascii) auto
  then show ?thesis by (simp add: DecodeInpPayloadToUtf8_def sample_segment_def)
qed

lemma sample_parse: "\<exists>st. ParseSegment no_convert sample_segment [] [] = Inr st"
  unfolding ParseSegment_def sample_decode
  by (simp add: segment_loop_eq sample_segment_def segment_line_def GMaxInpRecordLineBytes_def ParseRecordLine_eq
      parse_fields_def GFieldSeparator_def Let_def)

lemma sample_printable: "printable sample_record"
proof -
  have a: "printable_author sample_author" "wf_author sample_author"
    by (simp_all add: printable_author_def wf_author_def sample_author_def name_def plain_def trimmed_def trim_def
        ascii_space_def GFieldSeparator_def author_display_def append_name_def)
  have w: "wf_record sample_record"
    by (simp add: wf_record_def sample_record_def a trimmed_def trim_def ascii_space_def ToLowerAscii_def
        ToLowerAsciiCharacter_def)
  show ?thesis
    unfolding printable_def
    by (intro conjI w) (simp_all add: sample_record_def a word_def plain_def trimmed_def trim_def ascii_space_def GFieldSeparator_def)
qed

section \<open>Properties\<close>

text \<open>C36: the summary of a parsed segment agrees with its output: the non-empty lines of the decoded text are
  counted as records, each is parsed or skipped, every parsed record is reported once, the deleted
  ones are counted, every warning is reported and counted, and every skipped record has its warning.\<close>

theorem segment_summary_exact:
  assumes "ParseSegment convert_text segment [] [] = Inr st"
  shows "TotalRecords (Summary st) = ParsedRecords (Summary st) + SkippedRecords (Summary st)
    \<and> ParsedRecords (Summary st) = length (Records st)
    \<and> DeletedRecords (Summary st) = length (filter Deleted (Records st))
    \<and> WarningCount (Summary st) = length (Warnings st)
    \<and> SkippedRecords (Summary st) = length (filter RecordSkipped (Warnings st))
    \<and> (\<exists>decoded. DecodeInpPayloadToUtf8 convert_text (SegBytes segment) = Inr decoded
         \<and> TotalRecords (Summary st) = length (filter (\<lambda>l. chomp l \<noteq> []) (split_on (CHR 0x0A) decoded)))"
  using assms by (elim ParseSegment_accounts) (simp add: accounts_def Let_def)

theorem segment_summary_exact_witness:
  "\<exists>st. ParseSegment no_convert sample_segment [] [] = Inr st
    \<and> TotalRecords (Summary st) = 2 \<and> WarningCount (Summary st) = length (Warnings st)"
proof -
  obtain st where st: "ParseSegment no_convert sample_segment [] [] = Inr st" using sample_parse by blast
  have "length (filter (\<lambda>l. chomp l \<noteq> []) (split_on (CHR 0x0A) (SegBytes sample_segment))) = 2"
    by (simp add: sample_segment_def chomp_def)
  with st segment_summary_exact [OF st] sample_decode show ?thesis by auto
qed

text \<open>every record that a segment reports is well formed: file name, LibId and title are present and trimmed, the
  size fits 64 bits and the series number 32, the extension is lower case with 1 to 32 bytes, the entry name is built
  from both, and authors, genres and keywords keep their limits and contain no empty item.\<close>

theorem segment_records_well_formed:
  assumes "ParseSegment convert_text segment [] [] = Inr st"
  shows "list_all wf_record (Records st)"
  using assms by (elim ParseSegment_accounts) (simp add: accounts_def Let_def)

theorem segment_records_well_formed_witness:
  "\<exists>st. ParseSegment no_convert sample_segment [] [] = Inr st \<and> list_all wf_record (Records st)"
proof -
  obtain st where st: "ParseSegment no_convert sample_segment [] [] = Inr st" using sample_parse by blast
  with segment_records_well_formed [OF st] show ?thesis by blast
qed

text \<open>C37: a record printed in the 15-field format is parsed back to itself, without a warning, for every record whose
  texts are trimmed and free of the separators of the format.\<close>

theorem record_print_parse:
  assumes "printable r"
  shows "ParseRecordLine onRecord (ArchiveNameUtf8 r) (InpEntryNameUtf8 r) n (render_record r) st = (True, onRecord r st)"
  using assms by (rule ParseRecordLine_render)

theorem record_print_parse_witness:
  "printable sample_record
   \<and> ParseRecordLine segment_onRecord ''a'' ''a.inp'' 1 (render_record sample_record)
       \<lparr>Summary = empty_summary, Records = [], Warnings = []\<rparr>
     = (True, segment_onRecord sample_record \<lparr>Summary = empty_summary, Records = [], Warnings = []\<rparr>)"
  using record_print_parse [OF sample_printable, of segment_onRecord 1 "\<lparr>Summary = empty_summary, Records = [], Warnings = []\<rparr>"]
    sample_printable by (simp add: sample_record_def)

text \<open>the texts of all reported records are valid UTF-8 if the converter gives valid UTF-8 and a payload that starts
  with a UTF-8 byte order mark is valid.\<close>

theorem segment_records_utf8:
  assumes converter: "\<And>v encoding u. convert_text v encoding = Some u \<Longrightarrow> IsValidUtf8 u"
    and bom: "prefix [CHR 0xEF, CHR 0xBB, CHR 0xBF] (SegBytes segment) \<Longrightarrow> IsValidUtf8 (SegBytes segment)"
    and parsed: "ParseSegment convert_text segment [] [] = Inr st"
  shows "list_all valid_record (Records st)"
proof -
  from parsed obtain decoded where d: "DecodeInpPayloadToUtf8 convert_text (SegBytes segment) = Inr decoded"
    by (elim ParseSegment_accounts)
  have "IsValidUtf8 decoded" by (rule Decode_valid [OF converter d bom])
  with ParseSegment_valid [OF parsed d] show ?thesis by blast
qed

theorem segment_records_utf8_witness:
  "\<exists>st. ParseSegment no_convert sample_segment [] [] = Inr st \<and> list_all valid_record (Records st)"
proof -
  obtain st where st: "ParseSegment no_convert sample_segment [] [] = Inr st" using sample_parse by blast
  have "list_all valid_record (Records st)"
    by (rule segment_records_utf8 [OF _ _ st]) (simp_all add: no_convert_def sample_segment_def)
  with st show ?thesis by blast
qed

text \<open>behind a UTF-8 byte order mark the payload is taken over without a check, so invalid bytes reach the records.\<close>

theorem bom_payload_not_validated:
  "DecodeInpPayloadToUtf8 convert_text [CHR 0xEF, CHR 0xBB, CHR 0xBF, CHR 0xFF] = Inr [CHR 0xFF]
   \<and> \<not> IsValidUtf8 [CHR 0xFF]"
proof -
  have "\<not> IsValidUtf8 [CHR 0xFF]" by code_simp
  then show ?thesis by (simp add: DecodeInpPayloadToUtf8_def)
qed

text \<open>C38: \<open>ReadSegments\<close> hands over exactly the \<open>.inp\<close> entries in archive order, each with its archive name and bytes, each
  within 128 MiB, and their sizes together stay within the given limit (the unsigned subtraction never wraps).\<close>

theorem read_segments_within_limit:
  assumes "ReadSegments evp z (\<lambda>seg segs. Inr (segs @ [seg])) maxTotal [] = Inr (count, segments)" "maxTotal < 2 ^ 64"
  shows "count = length segments
    \<and> list_all2 (segment_of_entry z) (filter (inp_entry z) [0..<nat (zip_num_entries z)]) segments
    \<and> sum_list (map (entry_bytes z) (filter (inp_entry z) [0..<nat (zip_num_entries z)])) \<le> maxTotal"
proof -
  from assms(1) have "read_segments_loop evp z maxTotal collect [0..<nat (zip_num_entries z)] 0 0 [] = Inr (count, segments)"
    by (auto simp: ReadSegments_def EntryCount_def split: sum.splits if_splits)
  from read_segments_loop_collect [OF this _ assms(2)] show ?thesis by auto
qed

theorem read_segments_within_limit_witness:
  "\<exists>count segments. ReadSegments sample_evp (sample_zip ''ab'') (\<lambda>seg segs. Inr (segs @ [seg])) 2 [] = Inr (count, segments)
    \<and> count = length segments \<and> length segments = 1"
proof -
  have r: "ReadTextEntry (sample_zip ''ab'') 0 2 = Inr ''ab''"
    using ReadTextEntry_serves [OF sample_zip_serves, of "''ab''" 2] by simp
  obtain fp where fp: "ComputeFingerprintWithCheckpoints sample_evp ''ab'' = Inr fp"
    using Fingerprint_eq [OF sample_evp_streams, of "''ab''"]
    by (simp add: ComputeBytes_def CreateContext_def sha_Update_def sha_Finalize_def sample_evp_def)
  obtain count segments where
    e: "ReadSegments sample_evp (sample_zip ''ab'') (\<lambda>seg segs. Inr (segs @ [seg])) 2 [] = Inr (count, segments)"
    by (simp add: ReadSegments_def open_archive_def EntryCount_def EntryName_def EntrySize_def read_segment_def r [unfolded numeral_2_eq_2] fp
        u64_sub_def IsInpEntryPayloadSizeAllowed_def GMaxInpEntryPayloadBytes_def EndsWith_iff ToLowerAscii_def
        ToLowerAsciiCharacter_def suffix_def)
  have n: "inp_entry (sample_zip ''ab'') 0"
    by (simp add: inp_entry_def EntryName_def EndsWithAsciiInsensitive_def)
  show ?thesis
    using e read_segments_within_limit [OF e] n by (auto dest: list_all2_lengthD)
qed

text \<open>an entry is read exactly: whatever sizes the reads of the library have, the bytes are the whole content if the
  size in the directory is right; a shorter or longer entry is an error, never a truncated or padded payload.\<close>

theorem read_entry_exact:
  assumes "zip_serves z i content" "zip_fopen_index z i" "zip_fclose z i = 0"
  shows "ReadTextEntry z i entrySize =
    (if entrySize = length content then Inr content
     else Inl (TextRuntimeError (if entrySize < length content then ''Failed to validate INPX entry payload checksum and size.''
                                 else ''Failed to read INPX entry.'')))"
  using assms by (rule ReadTextEntry_serves)

theorem read_entry_exact_witness:
  "zip_serves (sample_zip ''ab'') 0 ''ab'' \<and> ReadTextEntry (sample_zip ''ab'') 0 2 = Inr ''ab''
   \<and> ReadTextEntry (sample_zip ''ab'') 0 3 = Inl (TextRuntimeError ''Failed to read INPX entry.'')"
proof -
  have o: "zip_fopen_index (sample_zip ''ab'') 0" "zip_fclose (sample_zip ''ab'') 0 = 0" by simp_all
  show ?thesis
    using sample_zip_serves read_entry_exact [OF sample_zip_serves o, of 2] read_entry_exact [OF sample_zip_serves o, of 3]
    by simp
qed

text \<open>The fingerprint of a segment, computed in chunks of 64 KiB, is the SHA-256 fingerprint of all its bytes.\<close>

theorem segment_fingerprint_whole:
  assumes "evp_streams evp"
  shows "ComputeFingerprintWithCheckpoints evp bytes = ComputeBytes evp bytes"
  using assms by (rule Fingerprint_eq)

theorem segment_fingerprint_whole_witness:
  "evp_streams sample_evp \<and> ComputeFingerprintWithCheckpoints sample_evp ''ab'' = ComputeBytes sample_evp ''ab''"
  using sample_evp_streams segment_fingerprint_whole [OF sample_evp_streams] by blast

text \<open>\<open>SplitViews\<close> returns the parts between the separators, which joined give the text back, or reports that there are
  more than the limit.\<close>

theorem split_views_exact:
  "SplitViews v sep m =
    (if length (split_on sep v) \<le> m then \<lparr>Parts = split_on sep v, ExceededLimit = False\<rparr>
     else \<lparr>Parts = take m (split_on sep v), ExceededLimit = True\<rparr>)
   \<and> join sep (split_on sep v) = v \<and> list_all (\<lambda>p. sep \<notin> set p) (split_on sep v)"
  using SplitViews_eq join_split split_on_parts by (auto simp: list_all_iff)

text \<open>the summary of \<open>ParseAll\<close> over the whole archive agrees with the records and warnings it collected.\<close>

theorem parse_all_summary_exact:
  assumes "ParseAll convert_text evp z = Inr st"
  shows "TotalRecords (Summary st) = ParsedRecords (Summary st) + SkippedRecords (Summary st)
    \<and> ParsedRecords (Summary st) = length (Records st)
    \<and> DeletedRecords (Summary st) = length (filter Deleted (Records st))
    \<and> WarningCount (Summary st) = length (Warnings st)
    \<and> SkippedRecords (Summary st) = length (filter RecordSkipped (Warnings st))
    \<and> list_all wf_record (Records st)"
  using ParseAll_accounts [OF assms] by (simp add: accounts_def Let_def)

theorem parse_all_summary_exact_witness:
  "\<exists>st. ParseAll no_convert sample_evp ((sample_zip [])\<lparr>zip_num_entries := 0\<rparr>) = Inr st \<and> Records st = []
    \<and> ParsedRecords (Summary st) = length (Records st)"
proof -
  obtain st where e: "ParseAll no_convert sample_evp ((sample_zip [])\<lparr>zip_num_entries := 0\<rparr>) = Inr st" "Records st = []"
    by (simp add: ParseAll_def ReadSegments_def open_archive_def EntryCount_def)
  from e parse_all_summary_exact [OF e(1)] show ?thesis by blast
qed

end
