(* ===== verification/Search_Sessions.thy ===== *)
theory Search_Sessions
  imports Domain_Types
begin

text \<open>
  The cursor sessions of \<open>libs/Database/SqliteBookQueryRepository.cpp\<close>: the materialised book ids
  behind a pagination cursor, with reservations, a capacity in ids, least-recently-used eviction, a
  time to live and one catalog generation at a time.

  \<open>Sessions\<close> is the \<open>unordered_map\<close> as an association list whose order stands for the iteration
  order. Every operation runs under the mutex, so it is one atomic function of the state; the clock,
  the catalog identity read from the database and the random session id are arguments. An exception
  leaves the state as it is at the throw, so an operation returns both; \<open>std::terminate\<close> is \<open>None\<close>
  of the helpers and \<open>Terminated\<close> of the operations.
\<close>

section \<open>Data\<close>

record SCriteria =
  FtsQueryUtf8 :: string
  CritLanguages :: "string list"
  CritGenresUtf8 :: "string list"
  CritSortBy :: EBookSort
  CritSortDirection :: ESortDirection

record SSession =
  BookIds :: "int list"
  Criteria :: SCriteria
  SesSourceFingerprintUtf8 :: string
  SesCatalogSnapshotIdUtf8 :: string
  FirstContinuationPosition :: nat
  LastAccess :: int

record SReservation =
  ResGenerationKey :: string
  ResIdCount :: nat

record SSearchSessionState =
  Sessions :: "(string \<times> SSession) list"
  Reservations :: "(nat \<times> SReservation) list"
  CurrentGenerationKey :: string
  AggregateIdCapacity :: nat
  PerSessionIdCapacity :: nat
  UsedIdCount :: nat
  ReservedIdCount :: nat
  NextReservationId :: nat

record SSearchSessionReservation =
  TokId :: nat
  TokGenerationKey :: string
  TokIdCount :: nat

record SCatalogIdentity =
  IdSourceFingerprintUtf8 :: string
  IdSnapshotIdUtf8 :: string

datatype session_error =
  CDomainException EDomainErrorCode string | SessionRuntimeError string | SessionLogicError string
  | SessionInvalidArgument string | Terminated

type_synonym 'a outcome = "(session_error + 'a) \<times> SSearchSessionState"

definition size_max :: nat where
  "size_max = 2 ^ 64 - 1"

definition GMaxSearchSessions :: nat where
  "GMaxSearchSessions = 8"

text \<open>Ten minutes in the nanoseconds of \<open>steady_clock\<close>.\<close>

definition GSearchSessionTtl :: int where
  "GSearchSessionTtl = 10 * 60 * 1000000000"

definition GSearchSessionBookIdAllowanceBytes :: nat where
  "GSearchSessionBookIdAllowanceBytes = 16"

section \<open>Operations\<close>

definition ResolvePerSessionIdCapacity :: "nat \<Rightarrow> nat" where
  "ResolvePerSessionIdCapacity aggregateIdCapacity =
    (let reservedForOtherSessions = aggregateIdCapacity div 4 + (if aggregateIdCapacity mod 4 = 0 then 0 else 1)
     in aggregateIdCapacity - reservedForOtherSessions)"

definition ResolveSearchSessionIdCapacity :: "nat \<Rightarrow> session_error + nat" where
  "ResolveSearchSessionIdCapacity budgetBytes =
    (if budgetBytes = 0 \<or> budgetBytes > size_max
     then Inl (SessionInvalidArgument ''Catalog cursor memory budget must fit size_t and be positive.'')
     else Inr (budgetBytes div GSearchSessionBookIdAllowanceBytes))"

definition new_state :: "nat \<Rightarrow> SSearchSessionState" where
  "new_state aggregateIdCapacity =
    \<lparr>Sessions = [], Reservations = [], CurrentGenerationKey = [], AggregateIdCapacity = aggregateIdCapacity,
     PerSessionIdCapacity = ResolvePerSessionIdCapacity aggregateIdCapacity, UsedIdCount = 0, ReservedIdCount = 0,
     NextReservationId = 1\<rparr>"

definition TryAddSize :: "nat \<Rightarrow> nat \<Rightarrow> nat option" where
  "TryAddSize left right = (if right > size_max - left then None else Some (left + right))"

definition RemoveSessionLocked :: "SSearchSessionState \<Rightarrow> string \<Rightarrow> SSearchSessionState option" where
  "RemoveSessionLocked state sessionId =
    (case map_of (Sessions state) sessionId of
       None \<Rightarrow> Some state
     | Some session \<Rightarrow>
         let idCount = length (BookIds session) in
         if idCount > UsedIdCount state then None
         else Some (state\<lparr>UsedIdCount := UsedIdCount state - idCount,
                         Sessions := filter (\<lambda>e. fst e \<noteq> sessionId) (Sessions state)\<rparr>))"

fun purge_loop :: "int \<Rightarrow> (string \<times> SSession) list \<Rightarrow> SSearchSessionState \<Rightarrow> SSearchSessionState option" where
  "purge_loop now [] state = Some state"
| "purge_loop now ((sessionId, session) # rest) state =
    (let expired = (now - LastAccess session \<ge> GSearchSessionTtl) in
     if \<not> expired then purge_loop now rest state
     else case RemoveSessionLocked state sessionId of
            None \<Rightarrow> None
          | Some state' \<Rightarrow> purge_loop now rest state')"

definition PurgeSessionsLocked :: "SSearchSessionState \<Rightarrow> int \<Rightarrow> SSearchSessionState option" where
  "PurgeSessionsLocked state now = purge_loop now (Sessions state) state"

definition BuildCatalogGenerationKey :: "SCatalogIdentity \<Rightarrow> string" where
  "BuildCatalogGenerationKey identity =
    to_string (length (IdSourceFingerprintUtf8 identity)) @ '':''
    @ IdSourceFingerprintUtf8 identity @ IdSnapshotIdUtf8 identity"

fun remove_all_loop :: "(string \<times> SSession) list \<Rightarrow> SSearchSessionState \<Rightarrow> SSearchSessionState option" where
  "remove_all_loop [] state = Some state"
| "remove_all_loop ((sessionId, _) # rest) state =
    (case RemoveSessionLocked state sessionId of None \<Rightarrow> None | Some state' \<Rightarrow> remove_all_loop rest state')"

definition RemoveAllSessionsLocked :: "SSearchSessionState \<Rightarrow> SSearchSessionState option" where
  "RemoveAllSessionsLocked state = remove_all_loop (Sessions state) state"

definition ActivateSearchSessionGenerationLocked :: "SSearchSessionState \<Rightarrow> string \<Rightarrow> SSearchSessionState option" where
  "ActivateSearchSessionGenerationLocked state generationKey =
    (if CurrentGenerationKey state = generationKey then Some state
     else case RemoveAllSessionsLocked (state\<lparr>CurrentGenerationKey := generationKey\<rparr>) of
            None \<Rightarrow> None
          | Some state' \<Rightarrow> Some (state'\<lparr>Reservations := [], ReservedIdCount := 0\<rparr>))"

text \<open>\<open>None\<close>: \<open>std::terminate\<close>; otherwise whether the reservation was there, and the state.\<close>

definition RemoveReservationLocked ::
    "SSearchSessionState \<Rightarrow> SSearchSessionReservation \<Rightarrow> (bool \<times> SSearchSessionState) option" where
  "RemoveReservationLocked state reservation =
    (case map_of (Reservations state) (TokId reservation) of
       None \<Rightarrow> Some (False, state)
     | Some r \<Rightarrow>
         if ResGenerationKey r \<noteq> TokGenerationKey reservation \<or> ResIdCount r \<noteq> TokIdCount reservation
            \<or> TokIdCount reservation > ReservedIdCount state
         then None
         else Some (True, state\<lparr>ReservedIdCount := ReservedIdCount state - TokIdCount reservation,
                               Reservations := filter (\<lambda>e. fst e \<noteq> TokId reservation) (Reservations state)\<rparr>))"

definition NextReservationIdLocked :: "SSearchSessionState \<Rightarrow> nat outcome" where
  "NextReservationIdLocked state =
    (let result = NextReservationId state in
     if result = 0 \<or> map_of (Reservations state) result \<noteq> None
     then (Inl (SessionRuntimeError ''Catalog cursor reservation id space is exhausted.''), state)
     else (Inr result, state\<lparr>NextReservationId := (if result = size_max then 1 else result + 1)\<rparr>))"

text \<open>\<open>std::ranges::min_element\<close> by the last access: the first of the least entries.\<close>

fun least_recent :: "(string \<times> SSession) list \<Rightarrow> (string \<times> SSession) option" where
  "least_recent [] = None"
| "least_recent (e # es) =
    (case least_recent es of
       None \<Rightarrow> Some e
     | Some b \<Rightarrow> if LastAccess (snd b) < LastAccess (snd e) then Some b else Some e)"

definition EvictLeastRecentlyUsedLocked :: "SSearchSessionState \<Rightarrow> SSearchSessionState option" where
  "EvictLeastRecentlyUsedLocked state =
    (case least_recent (Sessions state) of
       None \<Rightarrow> Some state
     | Some (sessionId, _) \<Rightarrow> RemoveSessionLocked state sessionId)"

definition ValidateCurrentCatalogIdentity :: "SCatalogIdentity \<Rightarrow> SCatalogIdentity \<Rightarrow> session_error + unit" where
  "ValidateCurrentCatalogIdentity current expectedIdentity =
    (if current \<noteq> expectedIdentity
     then Inl (CDomainException CatalogSnapshotChanged ''The catalog changed while materializing the cursor.'')
     else Inr ())"

definition capacity_exhausted :: session_error where
  "capacity_exhausted =
    CDomainException CatalogCursorCapacityExceeded ''The catalog cursor book-id capacity is exhausted.''"

definition result_too_large :: session_error where
  "result_too_large = CDomainException CatalogCursorCapacityExceeded
    ''The catalog result contains too many book ids for the configured cursor capacity.''"

text \<open>\<open>TryAddSize\<close> twice: the used ids, the given other reservations and the new ids.\<close>

definition required_ids :: "SSearchSessionState \<Rightarrow> nat \<Rightarrow> nat \<Rightarrow> nat option" where
  "required_ids state others idCount =
    (case TryAddSize (UsedIdCount state) others of None \<Rightarrow> None | Some occupied \<Rightarrow> TryAddSize occupied idCount)"

lemma least_recent_mem: "least_recent es = Some e \<Longrightarrow> e \<in> set es"
  by (induction es arbitrary: e) (auto split: option.splits if_splits)

lemma least_recent_ne: "least_recent es = None \<longleftrightarrow> es = []"
  by (cases es) (auto split: option.splits)

lemma Evict_shrinks:
  assumes "EvictLeastRecentlyUsedLocked st = Some st'" "Sessions st \<noteq> []"
  shows "length (Sessions st') < length (Sessions st)"
proof -
  from assms(2) obtain i s where e: "least_recent (Sessions st) = Some (i, s)"
    by (metis least_recent_ne not_None_eq surj_pair)
  then have mem: "(i, s) \<in> set (Sessions st)" by (rule least_recent_mem)
  then obtain s' where "map_of (Sessions st) i = Some s'" by (metis map_of_eq_None_iff not_None_eq imageI fst_conv)
  then have "Sessions st' = filter (\<lambda>e. fst e \<noteq> i) (Sessions st)"
    using assms(1) e by (auto simp: EvictLeastRecentlyUsedLocked_def RemoveSessionLocked_def Let_def split: if_splits)
  with mem show ?thesis by (simp add: length_filter_less)
qed

text \<open>The eviction loop that \<open>ReserveSearchSessionIds\<close> and \<open>PublishSearchSession\<close> share.\<close>

function evict_loop :: "nat \<Rightarrow> nat \<Rightarrow> nat \<Rightarrow> SSearchSessionState \<Rightarrow> nat outcome" where
  "evict_loop others idCount required state =
    (if Sessions state \<noteq> []
        \<and> (length (Sessions state) \<ge> GMaxSearchSessions \<or> required > AggregateIdCapacity state)
     then case EvictLeastRecentlyUsedLocked state of
            None \<Rightarrow> (Inl Terminated, state)
          | Some state' \<Rightarrow>
              (case required_ids state' others idCount of
                 None \<Rightarrow> (Inl capacity_exhausted, state')
               | Some required' \<Rightarrow> evict_loop others idCount required' state')
     else (Inr required, state))"
  by pat_completeness auto
termination
  by (relation "measure (\<lambda>(_, _, _, st). length (Sessions st))") (auto dest: Evict_shrinks)

declare evict_loop.simps [simp del]

text \<open>The end of \<open>ReserveSearchSessionIds\<close>, after the eviction loop, and the part after the activation.\<close>

definition commit_reservation :: "string \<Rightarrow> nat \<Rightarrow> nat \<Rightarrow> SSearchSessionState \<Rightarrow> SSearchSessionReservation outcome" where
  "commit_reservation generationKey idCount required state3 =
    (if required > AggregateIdCapacity state3 then (Inl capacity_exhausted, state3)
     else case TryAddSize (ReservedIdCount state3) idCount of
       None \<Rightarrow> (Inl capacity_exhausted, state3)
     | Some updatedReservedIdCount \<Rightarrow>
     (case NextReservationIdLocked state3 of
       (Inl e, state4) \<Rightarrow> (Inl e, state4)
     | (Inr resId, state4) \<Rightarrow>
     if map_of (Reservations state4) resId \<noteq> None
     then (Inl (SessionRuntimeError ''Catalog cursor reservation id collision.''), state4)
     else (Inr \<lparr>TokId = resId, TokGenerationKey = generationKey, TokIdCount = idCount\<rparr>,
           state4\<lparr>Reservations := Reservations state4 @ [(resId, \<lparr>ResGenerationKey = generationKey, ResIdCount = idCount\<rparr>)],
                  ReservedIdCount := updatedReservedIdCount\<rparr>)))"

definition reserve_activated :: "string \<Rightarrow> nat \<Rightarrow> SSearchSessionState \<Rightarrow> SSearchSessionReservation outcome" where
  "reserve_activated generationKey idCount state2 =
    (if idCount > PerSessionIdCapacity state2 then (Inl result_too_large, state2)
     else case required_ids state2 (ReservedIdCount state2) idCount of
       None \<Rightarrow> (Inl capacity_exhausted, state2)
     | Some required0 \<Rightarrow>
     (case evict_loop (ReservedIdCount state2) idCount required0 state2 of
       (Inl e, state3) \<Rightarrow> (Inl e, state3)
     | (Inr required, state3) \<Rightarrow> commit_reservation generationKey idCount required state3))"

definition ReserveSearchSessionIds ::
    "SSearchSessionState \<Rightarrow> SCatalogIdentity \<Rightarrow> int \<Rightarrow> SCatalogIdentity \<Rightarrow> nat \<Rightarrow> SSearchSessionReservation outcome" where
  "ReserveSearchSessionIds state0 current now identity idCount =
    (let generationKey = BuildCatalogGenerationKey identity in
     case ValidateCurrentCatalogIdentity current identity of
       Inl e \<Rightarrow> (Inl e, state0)
     | Inr _ \<Rightarrow>
     (case PurgeSessionsLocked state0 now of
       None \<Rightarrow> (Inl Terminated, state0)
     | Some state1 \<Rightarrow>
     (case ActivateSearchSessionGenerationLocked state1 generationKey of
       None \<Rightarrow> (Inl Terminated, state1)
     | Some state2 \<Rightarrow> reserve_activated generationKey idCount state2)))"

definition ReleaseSearchSessionReservation ::
    "SSearchSessionState \<Rightarrow> SSearchSessionReservation \<Rightarrow> unit outcome" where
  "ReleaseSearchSessionReservation state reservation =
    (case RemoveReservationLocked state reservation of
       None \<Rightarrow> (Inl Terminated, state)
     | Some (_, state') \<Rightarrow> (Inr (), state'))"

text \<open>The end of \<open>PublishSearchSession\<close>, after the eviction loop, and the part after the activation.\<close>

definition commit_session ::
    "string \<Rightarrow> SSession \<Rightarrow> SSearchCursor \<Rightarrow> SSearchSessionReservation \<Rightarrow> nat \<Rightarrow> SSearchSessionState \<Rightarrow> SSearchCursor outcome" where
  "commit_session sessionId session cursor reservation requiredIdCount state3 =
    (if requiredIdCount > AggregateIdCapacity state3 then (Inl capacity_exhausted, state3)
     else if map_of (Sessions state3) sessionId \<noteq> None
     then (Inl (SessionRuntimeError ''Catalog cursor session id collision.''), state3)
     else
     let state4 = state3\<lparr>Sessions := Sessions state3 @ [(sessionId, session)]\<rparr> in
     case RemoveReservationLocked state4 reservation of
       None \<Rightarrow> (Inl Terminated, state4)
     | Some (removed, state5) \<Rightarrow>
         if \<not> removed then (Inl Terminated, state5)
         else (Inr cursor, state5\<lparr>UsedIdCount := UsedIdCount state5 + length (BookIds session)\<rparr>))"

definition publish_checked ::
    "string \<Rightarrow> SSession \<Rightarrow> SSearchCursor \<Rightarrow> SSearchSessionReservation \<Rightarrow> SSearchSessionState \<Rightarrow> SSearchCursor outcome" where
  "publish_checked sessionId session cursor reservation state2 =
    (let sessionIdCount = length (BookIds session);
         otherReservations = ReservedIdCount state2 - TokIdCount reservation in
     case required_ids state2 otherReservations sessionIdCount of
       None \<Rightarrow> (Inl capacity_exhausted, state2)
     | Some required0 \<Rightarrow>
     (case evict_loop otherReservations sessionIdCount required0 state2 of
       (Inl e, state3) \<Rightarrow> (Inl e, state3)
     | (Inr requiredIdCount, state3) \<Rightarrow>
         commit_session sessionId session cursor reservation requiredIdCount state3))"

definition publish_activated ::
    "string \<Rightarrow> string \<Rightarrow> SSession \<Rightarrow> SSearchCursor \<Rightarrow> SSearchSessionReservation \<Rightarrow> SSearchSessionState \<Rightarrow> SSearchCursor outcome" where
  "publish_activated generationKey sessionId session cursor reservation state2 =
    (let sessionIdCount = length (BookIds session);
         snapshot_changed = (Inl (CDomainException CatalogSnapshotChanged
           ''The catalog changed while materializing the cursor.''), state2) in
     if sessionIdCount > PerSessionIdCapacity state2 then (Inl result_too_large, state2)
     else case map_of (Reservations state2) (TokId reservation) of
       None \<Rightarrow> snapshot_changed
     | Some r \<Rightarrow>
     if TokGenerationKey reservation \<noteq> generationKey then snapshot_changed
     else if ResGenerationKey r \<noteq> TokGenerationKey reservation \<or> ResIdCount r \<noteq> TokIdCount reservation
        \<or> TokIdCount reservation > ReservedIdCount state2
     then (Inl (SessionLogicError ''Catalog cursor reservation accounting is invalid.''), state2)
     else if sessionIdCount \<noteq> TokIdCount reservation
     then (Inl (SessionLogicError ''Catalog cursor reservation does not match the materialized book-id count.''), state2)
     else publish_checked sessionId session cursor reservation state2)"

definition PublishSearchSession ::
    "SSearchSessionState \<Rightarrow> SCatalogIdentity \<Rightarrow> int \<Rightarrow> string \<Rightarrow> int list \<Rightarrow> SCriteria \<Rightarrow> SCatalogIdentity \<Rightarrow> nat \<Rightarrow>
     SSearchSessionReservation \<Rightarrow> SSearchCursor outcome" where
  "PublishSearchSession state0 current now sessionId ids criteria identity nextPosition reservation =
    (let generationKey = BuildCatalogGenerationKey identity;
         session = \<lparr>BookIds = ids, Criteria = criteria, SesSourceFingerprintUtf8 = IdSourceFingerprintUtf8 identity,
           SesCatalogSnapshotIdUtf8 = IdSnapshotIdUtf8 identity, FirstContinuationPosition = nextPosition,
           LastAccess = now\<rparr>;
         cursor = \<lparr>SessionIdUtf8 = sessionId, SourceFingerprintUtf8 = IdSourceFingerprintUtf8 identity,
           CatalogSnapshotIdUtf8 = IdSnapshotIdUtf8 identity, Position = nextPosition\<rparr> in
     case ValidateCurrentCatalogIdentity current identity of
       Inl e \<Rightarrow> (Inl e, state0)
     | Inr _ \<Rightarrow>
     (case PurgeSessionsLocked state0 now of
       None \<Rightarrow> (Inl Terminated, state0)
     | Some state1 \<Rightarrow>
     (case ActivateSearchSessionGenerationLocked state1 generationKey of
       None \<Rightarrow> (Inl Terminated, state1)
     | Some state2 \<Rightarrow> publish_activated generationKey sessionId session cursor reservation state2)))"

definition RemoveSearchSession :: "SSearchSessionState \<Rightarrow> string \<Rightarrow> unit outcome" where
  "RemoveSearchSession state sessionId =
    (case map_of (Sessions state) sessionId of
       None \<Rightarrow> (Inr (), state)
     | Some _ \<Rightarrow> (case RemoveSessionLocked state sessionId of
           None \<Rightarrow> (Inl Terminated, state)
         | Some state' \<Rightarrow> (Inr (), state')))"

record SContinuationSlice =
  SliceIds :: "int list"
  SliceNextCursor :: "SSearchCursor option"

text \<open>The write of \<open>LastAccess\<close> through the reference into the map.\<close>

definition touch :: "SSearchSessionState \<Rightarrow> string \<Rightarrow> int \<Rightarrow> SSearchSessionState" where
  "touch state sessionId now =
    state\<lparr>Sessions := map (\<lambda>(i, s). if i = sessionId then (i, s\<lparr>LastAccess := now\<rparr>) else (i, s)) (Sessions state)\<rparr>"

definition session_slice :: "SSearchCursor \<Rightarrow> nat \<Rightarrow> SSession \<Rightarrow> SContinuationSlice" where
  "session_slice cursor limit session =
    (let remaining = length (BookIds session) - Position cursor;
         count = min limit remaining;
         end' = Position cursor + count in
     \<lparr>SliceIds = take count (drop (Position cursor) (BookIds session)),
      SliceNextCursor = (if end' < length (BookIds session) then Some (cursor\<lparr>Position := end'\<rparr>) else None)\<rparr>)"

text \<open>The locked part of \<open>ReadSearchSessionSlice\<close>, after the purge.\<close>

definition read_slice_locked ::
    "SSearchSessionState \<Rightarrow> int \<Rightarrow> nat \<Rightarrow> SSearchCursor \<Rightarrow> SCriteria \<Rightarrow> SCatalogIdentity \<Rightarrow> SContinuationSlice outcome" where
  "read_slice_locked state1 now limit cursor criteria identity =
    (case map_of (Sessions state1) (SessionIdUtf8 cursor) of
       None \<Rightarrow> (Inl (CDomainException CatalogCursorExpired
                ''The catalog cursor expired; restart pagination from the first page.''), state1)
     | Some session \<Rightarrow>
     if SesSourceFingerprintUtf8 session \<noteq> IdSourceFingerprintUtf8 identity
        \<or> SesCatalogSnapshotIdUtf8 session \<noteq> IdSnapshotIdUtf8 identity
     then (case RemoveSessionLocked state1 (SessionIdUtf8 cursor) of
             None \<Rightarrow> (Inl Terminated, state1)
           | Some state2 \<Rightarrow> (Inl (CDomainException CatalogSnapshotChanged
                 ''The catalog changed while loading the next page.''), state2))
     else if Criteria session \<noteq> criteria \<or> Position cursor < FirstContinuationPosition session
        \<or> Position cursor \<ge> length (BookIds session)
     then (Inl (CDomainException CatalogCursorInvalid ''The catalog cursor does not match this query.''), state1)
     else (Inr (session_slice cursor limit session), touch state1 (SessionIdUtf8 cursor) now))"

definition ReadSearchSessionSlice ::
    "SSearchSessionState \<Rightarrow> int \<Rightarrow> SSearchQuery \<Rightarrow> SCriteria \<Rightarrow> SCatalogIdentity \<Rightarrow> SContinuationSlice outcome" where
  "ReadSearchSessionSlice state0 now query criteria identity =
    (case Cursor query of
       None \<Rightarrow> (Inl (CDomainException CatalogCursorInvalid ''The catalog cursor is missing.''), state0)
     | Some cursor \<Rightarrow>
     if \<not> cursor_IsValid cursor
     then (Inl (CDomainException CatalogCursorInvalid ''The catalog cursor is invalid.''), state0)
     else if SourceFingerprintUtf8 cursor \<noteq> IdSourceFingerprintUtf8 identity
        \<or> CatalogSnapshotIdUtf8 cursor \<noteq> IdSnapshotIdUtf8 identity
     then (Inl (CDomainException CatalogSnapshotChanged ''The catalog changed while loading the next page.''), state0)
     else case PurgeSessionsLocked state0 now of
       None \<Rightarrow> (Inl Terminated, state0)
     | Some state1 \<Rightarrow> read_slice_locked state1 now (Limit query) cursor criteria identity)"

end
