(* ===== verification/Transition_Systems.thy ===== *)
theory Transition_Systems
  imports Main
begin

text \<open>
  The interface of the state machines of the development: initial states, a step relation and an
  invariant that both keep. The clients of a component use the reachability lemma; every component
  with a step relation interprets the locale.
\<close>

locale state_machine =
  fixes init :: "'s \<Rightarrow> bool" and step :: "'s \<Rightarrow> 's \<Rightarrow> bool" and inv :: "'s \<Rightarrow> bool"
  assumes init_inv: "init s \<Longrightarrow> inv s"
    and step_inv: "inv s \<Longrightarrow> step s t \<Longrightarrow> inv t"
begin

lemma steps_inv: "step\<^sup>*\<^sup>* s t \<Longrightarrow> inv s \<Longrightarrow> inv t"
  by (induction rule: rtranclp_induct) (auto intro: step_inv)

lemma reachable_inv: "init s \<Longrightarrow> step\<^sup>*\<^sup>* s t \<Longrightarrow> inv t"
  using steps_inv init_inv by blast

end

text \<open>A relation between an old and a new state that every step keeps holds over any number of steps.\<close>

locale monotone_machine = state_machine +
  fixes rel :: "'s \<Rightarrow> 's \<Rightarrow> bool"
  assumes rel_refl: "rel s s"
    and rel_trans: "rel s t \<Longrightarrow> rel t u \<Longrightarrow> rel s u"
    and step_rel: "inv s \<Longrightarrow> step s t \<Longrightarrow> rel s t"
begin

lemma steps_rel: "step\<^sup>*\<^sup>* s t \<Longrightarrow> inv s \<Longrightarrow> rel s t"
  by (induction rule: rtranclp_induct) (auto intro: rel_refl rel_trans step_rel steps_inv)

end

text \<open>A forward simulation: every step of the detailed machine is a step of the abstract one, or invisible to it.\<close>

locale simulation = state_machine +
  fixes abs_init :: "'a \<Rightarrow> bool" and abs_step :: "'a \<Rightarrow> 'a \<Rightarrow> bool" and abstraction :: "'s \<Rightarrow> 'a"
  assumes init_sim: "init s \<Longrightarrow> abs_init (abstraction s)"
    and step_sim: "inv s \<Longrightarrow> step s t \<Longrightarrow> abs_step (abstraction s) (abstraction t) \<or> abstraction t = abstraction s"
begin

lemma steps_sim: "step\<^sup>*\<^sup>* s t \<Longrightarrow> inv s \<Longrightarrow> abs_step\<^sup>*\<^sup>* (abstraction s) (abstraction t)"
proof (induction rule: rtranclp_induct)
  case (step t u)
  then show ?case using step_sim [OF steps_inv [OF step.hyps(1) step.prems] step.hyps(2)] by (auto intro: rtranclp.rtrancl_into_rtrancl)
qed simp

lemma reachable_sim: "init s \<Longrightarrow> step\<^sup>*\<^sup>* s t \<Longrightarrow> \<exists>a. abs_init a \<and> abs_step\<^sup>*\<^sup>* a (abstraction t)"
  using steps_sim init_inv init_sim by blast

end

text \<open>
  The contract of a bounded work queue: work is put at the end unless the queue is closed or refuses it,
  taken from the front, and what is pending when the queue closes can still be taken. A run of
  operations logs what was accepted and what was taken.
\<close>

datatype 'w queue_op = Put 'w | Take | Close

fun queue_run :: "('s \<Rightarrow> 'w \<Rightarrow> 's option) \<Rightarrow> ('s \<Rightarrow> ('w \<times> 's) option) \<Rightarrow> ('s \<Rightarrow> 's) \<Rightarrow> 'w queue_op list
    \<Rightarrow> 's \<times> 'w list \<times> 'w list \<Rightarrow> 's \<times> 'w list \<times> 'w list" where
  "queue_run put take_op close [] st = st"
| "queue_run put take_op close (Put w # ops) (s, accepted, taken) =
    (case put s w of
       None \<Rightarrow> queue_run put take_op close ops (s, accepted, taken)
     | Some s' \<Rightarrow> queue_run put take_op close ops (s', accepted @ [w], taken))"
| "queue_run put take_op close (Take # ops) (s, accepted, taken) =
    (case take_op s of
       None \<Rightarrow> queue_run put take_op close ops (s, accepted, taken)
     | Some (w, s') \<Rightarrow> queue_run put take_op close ops (s', accepted, taken @ [w]))"
| "queue_run put take_op close (Close # ops) (s, accepted, taken) = queue_run put take_op close ops (close s, accepted, taken)"

locale work_queue =
  fixes pending :: "'s \<Rightarrow> 'w list" and closed :: "'s \<Rightarrow> bool"
    and put :: "'s \<Rightarrow> 'w \<Rightarrow> 's option" and take_op :: "'s \<Rightarrow> ('w \<times> 's) option" and close :: "'s \<Rightarrow> 's"
  assumes put_pending: "put s w = Some s' \<Longrightarrow> \<not> closed s \<and> \<not> closed s' \<and> pending s' = pending s @ [w]"
    and take_pending: "take_op s = Some (w, s') \<Longrightarrow> closed s' = closed s \<and> pending s = w # pending s'"
    and take_enabled: "pending s \<noteq> [] \<Longrightarrow> take_op s \<noteq> None"
    and close_keeps: "closed (close s) \<and> pending (close s) = pending s"
begin

lemma fifo:
  "queue_run put take_op close ops (s, accepted, taken) = (s', accepted', taken') \<Longrightarrow> accepted = taken @ pending s
    \<Longrightarrow> accepted' = taken' @ pending s'"
proof (induction ops arbitrary: s accepted taken)
  case (Cons op ops)
  from Cons.prems show ?case
    by (cases op) (auto simp: close_keeps elim!: Cons.IH dest!: put_pending take_pending split: option.splits)
qed simp

lemma closed_accepts_nothing:
  "queue_run put take_op close ops (s, accepted, taken) = (s', accepted', taken') \<Longrightarrow> closed s \<Longrightarrow> accepted' = accepted \<and> closed s'"
proof (induction ops arbitrary: s accepted taken)
  case (Cons op ops)
  then show ?case
    by (cases op) (auto simp: close_keeps dest!: put_pending take_pending split: option.splits)
qed simp

lemma drain:
  "\<exists>s'. queue_run put take_op close (replicate (length (pending s)) Take) (s, accepted, taken) = (s', accepted, taken @ pending s) \<and> pending s' = []"
proof (induction "pending s" arbitrary: s taken)
  case (Cons w rest)
  have "take_op s \<noteq> None" using take_enabled [of s] by (simp flip: Cons.hyps(2))
  then obtain v s' where t: "take_op s = Some (v, s')" by auto
  have p: "v = w" "pending s' = rest" using take_pending [OF t] by (simp_all flip: Cons.hyps(2))
  show ?case using Cons.hyps(1) [of s' "taken @ [w]"] t p by (simp flip: Cons.hyps(2))
qed simp

end

end
