(* ===== verification/Search_Session_Invariants.thy ===== *)
theory Search_Session_Invariants
  imports Search_Sessions Transition_Systems
begin

text \<open>
  The invariant of the cursor sessions: the counters are the sums over the entries, they keep the
  capacities, and all entries belong to the current catalog generation. Every operation keeps it and
  none reaches \<open>std::terminate\<close>.
\<close>

section \<open>The invariant\<close>

definition used_ids :: "(string \<times> SSession) list \<Rightarrow> nat" where
  "used_ids es = sum_list (map (\<lambda>e. length (BookIds (snd e))) es)"

definition reserved_ids :: "(nat \<times> SReservation) list \<Rightarrow> nat" where
  "reserved_ids rs = sum_list (map (\<lambda>e. ResIdCount (snd e)) rs)"

definition session_identity :: "SSession \<Rightarrow> SCatalogIdentity" where
  "session_identity s =
    \<lparr>IdSourceFingerprintUtf8 = SesSourceFingerprintUtf8 s, IdSnapshotIdUtf8 = SesCatalogSnapshotIdUtf8 s\<rparr>"

definition acct :: "SSearchSessionState \<Rightarrow> bool" where
  "acct st \<longleftrightarrow>
    distinct (map fst (Sessions st)) \<and> UsedIdCount st = used_ids (Sessions st)
    \<and> distinct (map fst (Reservations st)) \<and> ReservedIdCount st = reserved_ids (Reservations st)
    \<and> UsedIdCount st + ReservedIdCount st \<le> AggregateIdCapacity st
    \<and> list_all (\<lambda>e. length (BookIds (snd e)) \<le> PerSessionIdCapacity st) (Sessions st)
    \<and> length (Sessions st) \<le> GMaxSearchSessions"

definition one_generation :: "SSearchSessionState \<Rightarrow> bool" where
  "one_generation st \<longleftrightarrow>
    list_all (\<lambda>e. BuildCatalogGenerationKey (session_identity (snd e)) = CurrentGenerationKey st) (Sessions st)
    \<and> list_all (\<lambda>e. ResGenerationKey (snd e) = CurrentGenerationKey st) (Reservations st)"

definition rest_same :: "SSearchSessionState \<Rightarrow> SSearchSessionState \<Rightarrow> bool" where
  "rest_same st st' \<longleftrightarrow>
    Reservations st' = Reservations st \<and> CurrentGenerationKey st' = CurrentGenerationKey st
    \<and> AggregateIdCapacity st' = AggregateIdCapacity st \<and> PerSessionIdCapacity st' = PerSessionIdCapacity st
    \<and> ReservedIdCount st' = ReservedIdCount st \<and> NextReservationId st' = NextReservationId st"

lemma rest_same_trans: "rest_same a b \<Longrightarrow> rest_same b c \<Longrightarrow> rest_same a c"
  by (simp add: rest_same_def)

lemma rest_same_refl [simp]: "rest_same a a"
  by (simp add: rest_same_def)

lemma used_ids_filter: "used_ids (filter P es) \<le> used_ids es"
  by (induction es) (auto simp: used_ids_def)

lemma used_ids_remove:
  "distinct (map fst es) \<Longrightarrow> map_of es i = Some s \<Longrightarrow>
    used_ids es = length (BookIds s) + used_ids (filter (\<lambda>e. fst e \<noteq> i) es)"
proof (induction es)
  case (Cons e es)
  have keep: "i \<notin> fst ` set es \<Longrightarrow> filter (\<lambda>e. fst e \<noteq> i) es = es" by (auto simp: filter_id_conv)
  show ?case
  proof (cases "fst e = i")
    case True
    then show ?thesis using Cons.prems keep by (cases e) (simp add: used_ids_def)
  next
    case False
    then show ?thesis using Cons by (cases e) (simp add: used_ids_def)
  qed
qed simp

lemma reserved_ids_remove:
  "distinct (map fst rs) \<Longrightarrow> map_of rs i = Some r \<Longrightarrow>
    reserved_ids rs = ResIdCount r + reserved_ids (filter (\<lambda>e. fst e \<noteq> i) rs)"
proof (induction rs)
  case (Cons e rs)
  have keep: "i \<notin> fst ` set rs \<Longrightarrow> filter (\<lambda>e. fst e \<noteq> i) rs = rs" by (auto simp: filter_id_conv)
  show ?case
  proof (cases "fst e = i")
    case True
    then show ?thesis using Cons.prems keep by (cases e) (simp add: reserved_ids_def)
  next
    case False
    then show ?thesis using Cons by (cases e) (simp add: reserved_ids_def)
  qed
qed simp

lemma distinct_fst_filter: "distinct (map fst es) \<Longrightarrow> distinct (map fst (filter P es))"
  by (induction es) auto

text \<open>Removing sessions keeps the accounting; it never terminates.\<close>

definition dropped :: "SSearchSessionState \<Rightarrow> ((string \<times> SSession) \<Rightarrow> bool) \<Rightarrow> SSearchSessionState \<Rightarrow> bool" where
  "dropped st P st' \<longleftrightarrow> acct st' \<and> rest_same st st' \<and> Sessions st' = filter P (Sessions st)"

lemma RemoveSession_ok:
  assumes "acct st"
  shows "\<exists>st'. RemoveSessionLocked st i = Some st' \<and> dropped st (\<lambda>e. fst e \<noteq> i) st'"
proof (cases "map_of (Sessions st) i")
  case None
  then have "filter (\<lambda>e. fst e \<noteq> i) (Sessions st) = Sessions st"
    by (auto simp: filter_id_conv map_of_eq_None_iff)
  with None assms show ?thesis by (simp add: RemoveSessionLocked_def dropped_def)
next
  case (Some s)
  from assms have d: "distinct (map fst (Sessions st))" "UsedIdCount st = used_ids (Sessions st)"
    by (simp_all add: acct_def)
  note u = used_ids_remove [OF d(1) Some]
  have l: "length (filter (\<lambda>e. fst e \<noteq> i) (Sessions st)) \<le> GMaxSearchSessions"
    using assms by (meson acct_def le_trans length_filter_le)
  show ?thesis
    using Some u d l assms distinct_fst_filter [OF d(1)]
    by (auto simp: RemoveSessionLocked_def dropped_def acct_def rest_same_def list_all_iff)
qed

definition expired :: "int \<Rightarrow> SSession \<Rightarrow> bool" where
  "expired now s \<longleftrightarrow> now - LastAccess s \<ge> GSearchSessionTtl"

lemma dropped_acct: "dropped st P st' \<Longrightarrow> acct st'"
  by (simp add: dropped_def)

lemma dropped_trans: "dropped a P b \<Longrightarrow> dropped b Q c \<Longrightarrow> dropped a (\<lambda>e. P e \<and> Q e) c"
  by (auto simp: dropped_def rest_same_def conj_commute)

lemma purge_loop_ok:
  "acct st \<Longrightarrow> \<exists>st'. purge_loop now es st = Some st'
    \<and> dropped st (\<lambda>e. \<not> (\<exists>s. (fst e, s) \<in> set es \<and> expired now s)) st'"
proof (induction es arbitrary: st)
  case Nil
  then show ?case by (simp add: dropped_def)
next
  case (Cons e es)
  obtain i s where e: "e = (i, s)" by (cases e)
  show ?case
  proof (cases "expired now s")
    case False
    with Cons.IH [OF Cons.prems] e show ?thesis
      by (auto simp: expired_def [symmetric] Let_def dropped_def intro!: filter_cong)
  next
    case True
    from RemoveSession_ok [OF Cons.prems, of i] obtain st1 where
      r: "RemoveSessionLocked st i = Some st1" "dropped st (\<lambda>e. fst e \<noteq> i) st1" by blast
    from Cons.IH [OF dropped_acct [OF r(2)]] obtain st2 where
      p: "purge_loop now es st1 = Some st2" "dropped st1 (\<lambda>e. \<not> (\<exists>s. (fst e, s) \<in> set es \<and> expired now s)) st2" by blast
    have eq: "(\<lambda>x. fst x \<noteq> i \<and> \<not> (\<exists>s. (fst x, s) \<in> set es \<and> expired now s))
        = (\<lambda>x. \<not> (\<exists>s. (fst x, s) \<in> set (e # es) \<and> expired now s))"
      using e True by (auto simp: fun_eq_iff)
    have "dropped st (\<lambda>x. \<not> (\<exists>s. (fst x, s) \<in> set (e # es) \<and> expired now s)) st2"
      using dropped_trans [OF r(2) p(2)] unfolding eq .
    moreover have "purge_loop now (e # es) st = Some st2"
      using e True r(1) p(1) by (simp add: expired_def [symmetric] Let_def)
    ultimately show ?thesis by blast
  qed
qed

lemma Purge_ok:
  assumes "acct st"
  shows "\<exists>st'. PurgeSessionsLocked st now = Some st' \<and> dropped st (\<lambda>e. \<not> expired now (snd e)) st'"
proof -
  have d: "distinct (map fst (Sessions st))" using assms by (simp add: acct_def)
  have "filter (\<lambda>e. \<not> (\<exists>s. (fst e, s) \<in> set (Sessions st) \<and> expired now s)) (Sessions st)
      = filter (\<lambda>e. \<not> expired now (snd e)) (Sessions st)"
  proof (rule filter_cong [OF refl])
    fix e assume e: "e \<in> set (Sessions st)"
    have "s = snd e" if "(fst e, s) \<in> set (Sessions st)" for s
      using d e that by (metis eq_key_imp_eq_value prod.collapse)
    with e show "(\<not> (\<exists>s. (fst e, s) \<in> set (Sessions st) \<and> expired now s)) = (\<not> expired now (snd e))"
      by (metis prod.collapse)
  qed
  with purge_loop_ok [OF assms, of now "Sessions st"] show ?thesis
    by (auto simp: PurgeSessionsLocked_def dropped_def)
qed

lemma remove_all_loop_ok:
  "acct st \<Longrightarrow> \<exists>st'. remove_all_loop es st = Some st' \<and> dropped st (\<lambda>e. fst e \<notin> fst ` set es) st'"
proof (induction es arbitrary: st)
  case Nil
  then show ?case by (simp add: dropped_def)
next
  case (Cons e es)
  obtain i s where e: "e = (i, s)" by (cases e)
  from RemoveSession_ok [OF Cons.prems, of i] obtain st1 where
    r: "RemoveSessionLocked st i = Some st1" "dropped st (\<lambda>e. fst e \<noteq> i) st1" by blast
  from Cons.IH [OF dropped_acct [OF r(2)]] obtain st2 where
    p: "remove_all_loop es st1 = Some st2" "dropped st1 (\<lambda>e. fst e \<notin> fst ` set es) st2" by blast
  have "(\<lambda>x. fst x \<noteq> i \<and> fst x \<notin> fst ` set es) = (\<lambda>x. fst x \<notin> fst ` set (e # es))"
    using e by (auto simp: fun_eq_iff)
  with dropped_trans [OF r(2) p(2)] show ?case using e r(1) p(1) by simp
qed

lemma RemoveAll_ok:
  assumes "acct st"
  shows "\<exists>st'. RemoveAllSessionsLocked st = Some st' \<and> acct st' \<and> rest_same st st' \<and> Sessions st' = []"
  using remove_all_loop_ok [OF assms, of "Sessions st"]
  by (auto simp: RemoveAllSessionsLocked_def dropped_def filter_empty_conv)

definition session_inv :: "SSearchSessionState \<Rightarrow> bool" where
  "session_inv st \<longleftrightarrow> acct st \<and> one_generation st"

lemma dropped_inv: "session_inv st \<Longrightarrow> dropped st P st' \<Longrightarrow> session_inv st'"
  by (auto simp: session_inv_def dropped_def one_generation_def rest_same_def list_all_iff)

definition capacities_same :: "SSearchSessionState \<Rightarrow> SSearchSessionState \<Rightarrow> bool" where
  "capacities_same st st' \<longleftrightarrow> AggregateIdCapacity st' = AggregateIdCapacity st
    \<and> PerSessionIdCapacity st' = PerSessionIdCapacity st"

lemma Activate_ok:
  assumes "session_inv st"
  shows "\<exists>st'. ActivateSearchSessionGenerationLocked st g = Some st' \<and> session_inv st' \<and> CurrentGenerationKey st' = g
    \<and> NextReservationId st' = NextReservationId st \<and> capacities_same st st'
    \<and> set (Sessions st') \<subseteq> set (Sessions st)
    \<and> (if g = CurrentGenerationKey st then st' = st else Sessions st' = [] \<and> Reservations st' = [])"
proof (cases "CurrentGenerationKey st = g")
  case True
  then show ?thesis using assms by (simp add: ActivateSearchSessionGenerationLocked_def capacities_same_def)
next
  case False
  have "acct (st\<lparr>CurrentGenerationKey := g\<rparr>)" using assms by (simp add: session_inv_def acct_def)
  from RemoveAll_ok [OF this] obtain st1 where
    r: "RemoveAllSessionsLocked (st\<lparr>CurrentGenerationKey := g\<rparr>) = Some st1" "acct st1"
      "rest_same (st\<lparr>CurrentGenerationKey := g\<rparr>) st1" "Sessions st1 = []" by blast
  have "session_inv (st1\<lparr>Reservations := [], ReservedIdCount := 0\<rparr>)"
    using r(2,3,4) by (simp add: session_inv_def acct_def one_generation_def reserved_ids_def)
  with r False show ?thesis
    by (simp add: ActivateSearchSessionGenerationLocked_def rest_same_def capacities_same_def)
qed

lemma Evict_ok:
  assumes "acct st" "Sessions st \<noteq> []"
  obtains i s st' where "EvictLeastRecentlyUsedLocked st = Some st'" "least_recent (Sessions st) = Some (i, s)"
    "dropped st (\<lambda>e. fst e \<noteq> i) st'"
proof -
  from assms(2) obtain i s where l: "least_recent (Sessions st) = Some (i, s)"
    by (metis least_recent_ne not_None_eq surj_pair)
  with RemoveSession_ok [OF assms(1), of i] that show thesis
    by (auto simp: EvictLeastRecentlyUsedLocked_def)
qed

lemma required_ids_Some: "required_ids st others c = Some r \<Longrightarrow> r = UsedIdCount st + others + c"
  by (auto simp: required_ids_def TryAddSize_def split: option.splits if_splits)

lemma evict_loop_ok:
  "acct st \<Longrightarrow> evict_loop others c req st = (res, st') \<Longrightarrow> req = UsedIdCount st + others + c \<Longrightarrow>
    (\<exists>P. dropped st P st') \<and> res \<noteq> Inl Terminated
    \<and> (\<forall>r. res = Inr r \<longrightarrow> r = UsedIdCount st' + others + c \<and>
         (Sessions st' = [] \<or> length (Sessions st') < GMaxSearchSessions \<and> r \<le> AggregateIdCapacity st'))"
proof (induction others c req st rule: evict_loop.induct)
  case (1 others c req st)
  show ?case
  proof (cases "Sessions st \<noteq> [] \<and> (length (Sessions st) \<ge> GMaxSearchSessions \<or> req > AggregateIdCapacity st)")
    case False
    have "dropped st (\<lambda>_. True) st" using "1.prems"(1) by (simp add: dropped_def)
    moreover have "evict_loop others c req st = (Inr req, st)"
      unfolding evict_loop.simps [of others c req st] by (rule if_not_P [OF False])
    then have "res = Inr req" "st' = st" using "1.prems"(2) by simp_all
    ultimately show ?thesis using False "1.prems"(3) by auto
  next
    case True
    then have ne: "Sessions st \<noteq> []" by blast
    obtain i s st1 where e: "EvictLeastRecentlyUsedLocked st = Some st1" "dropped st (\<lambda>e. fst e \<noteq> i) st1"
      by (rule Evict_ok [OF "1.prems"(1) ne])
    show ?thesis
    proof (cases "required_ids st1 others c")
      case None
      then have "res = Inl capacity_exhausted" "st' = st1"
        using "1.prems"(2) e(1) True by (simp_all add: evict_loop.simps [of others c req st])
      with e(2) show ?thesis by (auto simp: capacity_exhausted_def)
    next
      case (Some req')
      have "evict_loop others c req' st1 = (res, st')"
        using "1.prems"(2) e(1) True Some by (simp add: evict_loop.simps [of others c req st])
      from "1.IH" [OF True e(1) Some dropped_acct [OF e(2)] this required_ids_Some [OF Some]]
      show ?thesis using dropped_trans [OF e(2)] by blast
    qed
  qed
qed

section \<open>Every operation keeps the invariant\<close>

text \<open>What a step does to the reservations: it drops some and may add the one with the next id.\<close>

definition reservations_kept :: "SSearchSessionState \<Rightarrow> SSearchSessionState \<Rightarrow> bool" where
  "reservations_kept st st' \<longleftrightarrow>
    (\<forall>i r. map_of (Reservations st') i = Some r \<longrightarrow> map_of (Reservations st) i = Some r)"

lemma reservations_kept_refl [simp]: "reservations_kept st st"
  by (simp add: reservations_kept_def)

lemma reservations_kept_trans: "reservations_kept a b \<Longrightarrow> reservations_kept b c \<Longrightarrow> reservations_kept a c"
  by (simp add: reservations_kept_def)

lemma dropped_kept: "dropped a P b \<Longrightarrow> reservations_kept a b \<and> capacities_same a b \<and> NextReservationId b = NextReservationId a"
  by (simp add: dropped_def rest_same_def reservations_kept_def capacities_same_def)

lemma capacities_same_trans: "capacities_same a b \<Longrightarrow> capacities_same b c \<Longrightarrow> capacities_same a c"
  by (simp add: capacities_same_def)

text \<open>The common start of \<open>ReserveSearchSessionIds\<close> and \<open>PublishSearchSession\<close>: purge, then activate.\<close>

lemma purge_activate_ok:
  assumes "session_inv st"
  obtains st1 st2 where "PurgeSessionsLocked st now = Some st1" "ActivateSearchSessionGenerationLocked st1 g = Some st2"
    "session_inv st1" "session_inv st2" "CurrentGenerationKey st2 = g" "reservations_kept st st2"
    "capacities_same st st2" "NextReservationId st2 = NextReservationId st"
    "list_all (\<lambda>e. \<not> expired now (snd e)) (Sessions st2)"
proof -
  from assms Purge_ok [of st now] obtain st1 where
    p: "PurgeSessionsLocked st now = Some st1" "dropped st (\<lambda>e. \<not> expired now (snd e)) st1"
    by (auto simp: session_inv_def)
  have i1: "session_inv st1" using dropped_inv [OF assms p(2)] .
  from Activate_ok [OF i1, of g] obtain st2 where
    a: "ActivateSearchSessionGenerationLocked st1 g = Some st2" "session_inv st2" "CurrentGenerationKey st2 = g"
      "NextReservationId st2 = NextReservationId st1" "capacities_same st1 st2" "set (Sessions st2) \<subseteq> set (Sessions st1)"
      "if g = CurrentGenerationKey st1 then st2 = st1 else Sessions st2 = [] \<and> Reservations st2 = []" by blast
  have "reservations_kept st1 st2" using a(7) by (auto simp: reservations_kept_def split: if_splits)
  moreover have "list_all (\<lambda>e. \<not> expired now (snd e)) (Sessions st2)"
    using a(6) p(2) by (auto simp: list_all_iff dropped_def)
  ultimately show thesis
    using dropped_kept [OF p(2)] a reservations_kept_trans capacities_same_trans
    by (intro that [OF p(1) a(1) i1 a(2,3)]) auto
qed

lemma NextReservationId_cases:
  assumes "NextReservationIdLocked st = (res, st')"
  shows "(\<exists>m. res = Inl (SessionRuntimeError m) \<and> st' = st)
    \<or> res = Inr (NextReservationId st) \<and> NextReservationId st \<noteq> 0 \<and> map_of (Reservations st) (NextReservationId st) = None
      \<and> st' = st\<lparr>NextReservationId := (if NextReservationId st = size_max then 1 else NextReservationId st + 1)\<rparr>"
  using assms by (auto simp: NextReservationIdLocked_def Let_def split: if_splits)

definition reserve_post ::
    "SSearchSessionState \<Rightarrow> SCatalogIdentity \<Rightarrow> nat \<Rightarrow> session_error + SSearchSessionReservation \<Rightarrow> SSearchSessionState \<Rightarrow> bool" where
  "reserve_post st identity c res st' \<longleftrightarrow>
    session_inv st' \<and> capacities_same st st' \<and> res \<noteq> Inl Terminated \<and>
    (case res of
       Inl e \<Rightarrow> reservations_kept st st' \<and> NextReservationId st' = NextReservationId st
     | Inr tok \<Rightarrow>
         tok = \<lparr>TokId = NextReservationId st, TokGenerationKey = BuildCatalogGenerationKey identity, TokIdCount = c\<rparr>
         \<and> map_of (Reservations st') (TokId tok) = Some \<lparr>ResGenerationKey = TokGenerationKey tok, ResIdCount = c\<rparr>
         \<and> NextReservationId st \<noteq> 0 \<and> c \<le> PerSessionIdCapacity st
         \<and> NextReservationId st' = (if NextReservationId st = size_max then 1 else NextReservationId st + 1)
         \<and> (\<forall>i r. i \<noteq> TokId tok \<longrightarrow> map_of (Reservations st') i = Some r \<longrightarrow> map_of (Reservations st) i = Some r))"

lemma add_reservation_inv:
  assumes "session_inv st" "map_of (Reservations st) i = None" "CurrentGenerationKey st = g"
    "UsedIdCount st + ReservedIdCount st + c \<le> AggregateIdCapacity st"
  shows "session_inv (st\<lparr>NextReservationId := n,
      Reservations := Reservations st @ [(i, \<lparr>ResGenerationKey = g, ResIdCount = c\<rparr>)], ReservedIdCount := ReservedIdCount st + c\<rparr>)"
proof -
  have "i \<notin> fst ` set (Reservations st)" using assms(2) by (simp add: map_of_eq_None_iff)
  with assms show ?thesis by (simp add: session_inv_def acct_def one_generation_def reserved_ids_def)
qed

lemma reserve_post_Inl:
  "session_inv x \<Longrightarrow> reservations_kept st x \<Longrightarrow> capacities_same st x \<Longrightarrow> NextReservationId x = NextReservationId st \<Longrightarrow>
    e \<noteq> Terminated \<Longrightarrow> reserve_post st identity c (Inl e) x"
  by (simp add: reserve_post_def)

lemma reserve_post_trans:
  assumes "reserve_post x identity c res st'" "reservations_kept st x" "capacities_same st x" "NextReservationId x = NextReservationId st"
  shows "reserve_post st identity c res st'"
  using assms by (auto simp: reserve_post_def capacities_same_def reservations_kept_def split: sum.splits)

lemma domain_not_Terminated [simp]: "capacity_exhausted \<noteq> Terminated" "result_too_large \<noteq> Terminated"
  by (simp_all add: capacity_exhausted_def result_too_large_def)

lemma capacities_same_refl [simp]: "capacities_same st st"
  by (simp add: capacities_same_def)

lemma commit_reservation_ok:
  assumes inv: "session_inv st" and gen: "CurrentGenerationKey st = BuildCatalogGenerationKey identity"
    and req: "req = UsedIdCount st + ReservedIdCount st + c" and small: "c \<le> PerSessionIdCapacity st"
    and op: "commit_reservation (BuildCatalogGenerationKey identity) c req st = (res, st')"
  shows "reserve_post st identity c res st'"
proof -
  have inl: "reserve_post st identity c (Inl e) st" if "e \<noteq> Terminated" for e
    using inv that by (intro reserve_post_Inl) simp_all
  consider "req > AggregateIdCapacity st" | "TryAddSize (ReservedIdCount st) c = None"
    | upd where "\<not> req > AggregateIdCapacity st" "TryAddSize (ReservedIdCount st) c = Some upd" by fastforce
  then show ?thesis
  proof cases
    case (3 upd)
    then have upd: "upd = ReservedIdCount st + c" by (auto simp: TryAddSize_def split: if_splits)
    obtain nres st4 where n: "NextReservationIdLocked st = (nres, st4)" by fastforce
    from NextReservationId_cases [OF n] show ?thesis
    proof (elim disjE exE conjE)
      fix m assume "nres = Inl (SessionRuntimeError m)" "st4 = st"
      then show ?thesis using op 3 n inl [of "SessionRuntimeError m"] by (auto simp: commit_reservation_def)
    next
      assume new: "nres = Inr (NextReservationId st)" "NextReservationId st \<noteq> 0"
        and fresh: "map_of (Reservations st) (NextReservationId st) = None"
        and st4: "st4 = st\<lparr>NextReservationId := (if NextReservationId st = size_max then 1 else NextReservationId st + 1)\<rparr>"
      have res: "res = Inr \<lparr>TokId = NextReservationId st, TokGenerationKey = BuildCatalogGenerationKey identity, TokIdCount = c\<rparr>"
        "st' = st4\<lparr>Reservations := Reservations st @ [(NextReservationId st,
           \<lparr>ResGenerationKey = BuildCatalogGenerationKey identity, ResIdCount = c\<rparr>)], ReservedIdCount := ReservedIdCount st + c\<rparr>"
        using op 3 n new fresh st4 upd by (simp_all add: commit_reservation_def)
      have "session_inv st'"
        unfolding res st4 using add_reservation_inv [OF inv fresh gen] req 3(1) by simp
      then show ?thesis
        using res st4 fresh new small
        by (auto simp: reserve_post_def capacities_same_def map_add_def split: option.splits)
    qed
  qed (use op inl [of capacity_exhausted] in \<open>auto simp: commit_reservation_def split: option.splits\<close>)
qed

lemma reserve_activated_ok:
  assumes inv: "session_inv st" and gen: "CurrentGenerationKey st = BuildCatalogGenerationKey identity"
    and op: "reserve_activated (BuildCatalogGenerationKey identity) c st = (res, st')"
  shows "reserve_post st identity c res st'"
proof -
  have inl: "reserve_post st identity c (Inl e) st" if "e \<noteq> Terminated" for e
    using inv that by (intro reserve_post_Inl) simp_all
  show ?thesis
  proof (cases "c > PerSessionIdCapacity st \<or> required_ids st (ReservedIdCount st) c = None")
    case True
    then show ?thesis
      using op inl [of capacity_exhausted] inl [of result_too_large] by (auto simp: reserve_activated_def split: if_splits)
  next
    case False
    then obtain req0 where small: "\<not> c > PerSessionIdCapacity st" and req0: "required_ids st (ReservedIdCount st) c = Some req0"
      by blast
    obtain lres st3 where l: "evict_loop (ReservedIdCount st) c req0 st = (lres, st3)" by fastforce
    from inv evict_loop_ok [OF _ l required_ids_Some [OF req0]] obtain P where
      d: "dropped st P st3" "lres \<noteq> Inl Terminated" "\<And>r. lres = Inr r \<Longrightarrow> r = UsedIdCount st3 + ReservedIdCount st + c"
      by (auto simp: session_inv_def)
    note k = dropped_kept [OF d(1)] and i3 = dropped_inv [OF inv d(1)]
    show ?thesis
    proof (cases lres)
      case (Inl e)
      then show ?thesis
        using op small req0 l d(2) i3 k by (auto simp: reserve_activated_def intro!: reserve_post_Inl)
    next
      case (Inr req)
      have same: "ReservedIdCount st3 = ReservedIdCount st" "CurrentGenerationKey st3 = CurrentGenerationKey st"
        "PerSessionIdCapacity st3 = PerSessionIdCapacity st"
        using d(1) by (simp_all add: dropped_def rest_same_def)
      have cm: "commit_reservation (BuildCatalogGenerationKey identity) c req st3 = (res, st')"
        using op small req0 l Inr by (simp add: reserve_activated_def)
      have "reserve_post st3 identity c res st'"
        by (rule commit_reservation_ok [OF i3 _ _ _ cm]) (use d(3) [OF Inr] gen same small in simp_all)
      then show ?thesis by (rule reserve_post_trans) (use k in simp_all)
    qed
  qed
qed

lemma Reserve_ok:
  assumes inv: "session_inv st" and op: "ReserveSearchSessionIds st current now identity c = (res, st')"
  shows "reserve_post st identity c res st'"
proof (cases "current = identity")
  case False
  then show ?thesis
    using inv op by (auto simp: ReserveSearchSessionIds_def ValidateCurrentCatalogIdentity_def intro!: reserve_post_Inl)
next
  case True
  obtain st1 st2 where p: "PurgeSessionsLocked st now = Some st1"
      "ActivateSearchSessionGenerationLocked st1 (BuildCatalogGenerationKey identity) = Some st2"
    and i2: "session_inv st2" "CurrentGenerationKey st2 = BuildCatalogGenerationKey identity"
      "reservations_kept st st2" "capacities_same st st2" "NextReservationId st2 = NextReservationId st"
    by (rule purge_activate_ok [OF inv])
  have "reserve_activated (BuildCatalogGenerationKey identity) c st2 = (res, st')"
    using op True p by (simp add: ReserveSearchSessionIds_def ValidateCurrentCatalogIdentity_def)
  from reserve_activated_ok [OF i2(1,2) this] show ?thesis using i2(3,4,5) by (rule reserve_post_trans)
qed

section \<open>Publishing, releasing, removing and reading\<close>

definition token_ok :: "SSearchSessionState \<Rightarrow> SSearchSessionReservation \<Rightarrow> bool" where
  "token_ok st tok \<longleftrightarrow>
    (case map_of (Reservations st) (TokId tok) of
       None \<Rightarrow> True
     | Some r \<Rightarrow> ResGenerationKey r = TokGenerationKey tok \<and> ResIdCount r = TokIdCount tok)"

lemma token_ok_kept: "token_ok st tok \<Longrightarrow> reservations_kept st st' \<Longrightarrow> token_ok st' tok"
  by (auto simp: token_ok_def reservations_kept_def split: option.splits)

lemma reserved_member:
  assumes "acct st" "map_of (Reservations st) i = Some r"
  shows "ResIdCount r \<le> ReservedIdCount st"
  using assms reserved_ids_remove [of "Reservations st" i r] by (simp add: acct_def)

lemma map_of_filter_fst: "map_of (filter (\<lambda>e. fst e \<noteq> i) es) k = (if k = i then None else map_of es k)"
  by (induction es) auto

text \<open>Removing a reservation with its own token keeps the accounting.\<close>

lemma RemoveReservation_ok:
  assumes inv: "session_inv st" and tok: "token_ok st tok"
  obtains removed st' where "RemoveReservationLocked st tok = Some (removed, st')" "session_inv st'"
    "capacities_same st st'" "reservations_kept st st'" "NextReservationId st' = NextReservationId st"
    "Sessions st' = Sessions st" "removed = (map_of (Reservations st) (TokId tok) \<noteq> None)"
    "ReservedIdCount st = ReservedIdCount st' + (if removed then TokIdCount tok else 0)" "UsedIdCount st' = UsedIdCount st"
    "CurrentGenerationKey st' = CurrentGenerationKey st"
proof (cases "map_of (Reservations st) (TokId tok)")
  case None
  then show thesis using inv by (intro that [of False st]) (simp_all add: RemoveReservationLocked_def)
next
  case (Some r)
  let ?st = "st\<lparr>ReservedIdCount := ReservedIdCount st - TokIdCount tok,
     Reservations := filter (\<lambda>e. fst e \<noteq> TokId tok) (Reservations st)\<rparr>"
  have acct: "acct st" using inv by (simp add: session_inv_def)
  have r: "ResGenerationKey r = TokGenerationKey tok" "ResIdCount r = TokIdCount tok"
    using tok Some by (simp_all add: token_ok_def)
  have le: "TokIdCount tok \<le> ReservedIdCount st" using reserved_member [OF acct Some] r by simp
  have d: "distinct (map fst (Reservations st))" using acct by (simp add: acct_def)
  have "session_inv ?st"
    using inv reserved_ids_remove [OF d Some] r distinct_fst_filter [OF d]
    by (auto simp: session_inv_def acct_def one_generation_def list_all_iff)
  then show thesis
    using Some r le
    by (intro that [of True ?st])
      (simp_all add: RemoveReservationLocked_def capacities_same_def reservations_kept_def map_of_filter_fst split: if_splits)
qed

definition keeps :: "SSearchSessionState \<Rightarrow> session_error + 'a \<Rightarrow> SSearchSessionState \<Rightarrow> bool" where
  "keeps st res st' \<longleftrightarrow>
    session_inv st' \<and> capacities_same st st' \<and> reservations_kept st st'
    \<and> NextReservationId st' = NextReservationId st \<and> res \<noteq> Inl Terminated"

lemma keeps_refl: "session_inv st \<Longrightarrow> res \<noteq> Inl Terminated \<Longrightarrow> keeps st res st"
  by (simp add: keeps_def)

lemma keeps_trans:
  "keeps x res st' \<Longrightarrow> reservations_kept st x \<Longrightarrow> capacities_same st x \<Longrightarrow> NextReservationId x = NextReservationId st \<Longrightarrow>
    keeps st res st'"
  by (auto simp: keeps_def capacities_same_def reservations_kept_def)

lemma keeps_dropped: "session_inv st \<Longrightarrow> dropped st P st' \<Longrightarrow> res \<noteq> Inl Terminated \<Longrightarrow> keeps st res st'"
  using dropped_kept [of st P st'] dropped_inv [of st P st'] by (simp add: keeps_def)

lemma Release_ok:
  assumes "session_inv st" "token_ok st tok" "ReleaseSearchSessionReservation st tok = (res, st')"
  shows "keeps st res st' \<and> map_of (Reservations st') (TokId tok) = None"
proof -
  obtain removed st1 where r: "RemoveReservationLocked st tok = Some (removed, st1)" "session_inv st1"
    "capacities_same st st1" "reservations_kept st st1" "NextReservationId st1 = NextReservationId st"
    by (rule RemoveReservation_ok [OF assms(1,2)])
  then show ?thesis
    using assms(3)
    by (auto simp: ReleaseSearchSessionReservation_def keeps_def RemoveReservationLocked_def map_of_filter_fst
        split: option.splits if_splits)
qed

lemma add_session_inv:
  assumes "session_inv st" "map_of (Sessions st) i = None" "length (Sessions st) < GMaxSearchSessions"
    "length (BookIds s) \<le> PerSessionIdCapacity st" "BuildCatalogGenerationKey (session_identity s) = CurrentGenerationKey st"
    "UsedIdCount st + ReservedIdCount st + length (BookIds s) \<le> AggregateIdCapacity st"
  shows "session_inv (st\<lparr>Sessions := Sessions st @ [(i, s)], UsedIdCount := UsedIdCount st + length (BookIds s)\<rparr>)"
proof -
  have "i \<notin> fst ` set (Sessions st)" using assms(2) by (simp add: map_of_eq_None_iff)
  with assms show ?thesis by (simp add: session_inv_def acct_def one_generation_def used_ids_def)
qed

definition publish_post ::
    "SSearchSessionState \<Rightarrow> string \<Rightarrow> SSession \<Rightarrow> SSearchCursor \<Rightarrow> SSearchSessionReservation \<Rightarrow>
     session_error + SSearchCursor \<Rightarrow> SSearchSessionState \<Rightarrow> bool" where
  "publish_post st i s cursor tok res st' \<longleftrightarrow>
    keeps st res st' \<and>
    (case res of
       Inl e \<Rightarrow> True
     | Inr c \<Rightarrow> c = cursor \<and> map_of (Sessions st') i = Some s \<and> map_of (Reservations st') (TokId tok) = None)"

lemma publish_post_Inl: "keeps st (Inl e :: session_error + SSearchCursor) st' \<Longrightarrow> publish_post st i s cursor tok (Inl e) st'"
  by (simp add: publish_post_def)

lemma commit_session_ok:
  assumes inv: "session_inv st" and tok: "map_of (Reservations st) (TokId tok) = Some r"
      "ResGenerationKey r = TokGenerationKey tok" "ResIdCount r = TokIdCount tok"
    and gen: "BuildCatalogGenerationKey (session_identity s) = CurrentGenerationKey st"
    and fit: "length (BookIds s) \<le> PerSessionIdCapacity st" "length (BookIds s) = TokIdCount tok"
    and req: "req = UsedIdCount st + (ReservedIdCount st - TokIdCount tok) + length (BookIds s)"
    and room: "length (Sessions st) < GMaxSearchSessions"
    and op: "commit_session i s cursor tok req st = (res, st')"
  shows "publish_post st i s cursor tok res st'"
proof (cases "req > AggregateIdCapacity st \<or> map_of (Sessions st) i \<noteq> None")
  case True
  have "\<exists>e. res = Inl e \<and> e \<noteq> Terminated \<and> st' = st"
  proof (cases "req > AggregateIdCapacity st")
    case full: True
    then have "commit_session i s cursor tok req st = (Inl capacity_exhausted, st)" by (simp add: commit_session_def)
    then show ?thesis using op by auto
  next
    case False
    with True have "map_of (Sessions st) i \<noteq> None" by simp
    with False have "commit_session i s cursor tok req st
        = (Inl (SessionRuntimeError ''Catalog cursor session id collision.''), st)" by (simp add: commit_session_def)
    then show ?thesis using op by auto
  qed
  then show ?thesis using inv by (auto intro!: publish_post_Inl keeps_refl)
next
  case False
  have tk: "token_ok st tok" using tok by (simp add: token_ok_def)
  obtain removed st1 where r: "RemoveReservationLocked st tok = Some (removed, st1)" "session_inv st1"
    "capacities_same st st1" "reservations_kept st st1" "NextReservationId st1 = NextReservationId st" "Sessions st1 = Sessions st"
    "removed = (map_of (Reservations st) (TokId tok) \<noteq> None)"
    "ReservedIdCount st = ReservedIdCount st1 + (if removed then TokIdCount tok else 0)" "UsedIdCount st1 = UsedIdCount st"
    "CurrentGenerationKey st1 = CurrentGenerationKey st"
    by (rule RemoveReservation_ok [OF inv tk])
  have rm: "removed" "map_of (Reservations st1) (TokId tok) = None"
    using r(1,7) tok by (auto simp: RemoveReservationLocked_def map_of_filter_fst split: if_splits)
  have "RemoveReservationLocked (st\<lparr>Sessions := Sessions st @ [(i, s)]\<rparr>) tok = Some (True, st1\<lparr>Sessions := Sessions st @ [(i, s)]\<rparr>)"
    using r(1) rm(1) by (auto simp: RemoveReservationLocked_def split: option.splits if_splits)
  then have res: "res = Inr cursor" "st' = st1\<lparr>Sessions := Sessions st @ [(i, s)], UsedIdCount := UsedIdCount st1 + length (BookIds s)\<rparr>"
    using op False by (simp_all add: commit_session_def Let_def)
  have "UsedIdCount st1 + ReservedIdCount st1 + length (BookIds s) \<le> AggregateIdCapacity st1"
    using r(3,8,9) rm(1) req False by (simp add: capacities_same_def)
  then have "session_inv st'"
    using add_session_inv [OF r(2), of i s] r(3,6,10) room fit gen False res(2) by (simp add: capacities_same_def)
  then show ?thesis
    using res r rm False by (simp add: publish_post_def keeps_def capacities_same_def reservations_kept_def map_add_def)
qed

lemma publish_checked_ok:
  assumes inv: "session_inv st" and tok: "map_of (Reservations st) (TokId tok) = Some r"
      "ResGenerationKey r = TokGenerationKey tok" "ResIdCount r = TokIdCount tok"
    and gen: "BuildCatalogGenerationKey (session_identity s) = CurrentGenerationKey st"
    and fit: "length (BookIds s) \<le> PerSessionIdCapacity st" "length (BookIds s) = TokIdCount tok"
    and op: "publish_checked i s cursor tok st = (res, st')"
  shows "publish_post st i s cursor tok res st'"
proof -
  let ?n = "length (BookIds s)" and ?o = "ReservedIdCount st - TokIdCount tok"
  show ?thesis
  proof (cases "required_ids st ?o ?n")
    case None
    then have "res = Inl capacity_exhausted" "st' = st" using op by (simp_all add: publish_checked_def Let_def)
    then show ?thesis using inv by (simp add: publish_post_Inl keeps_refl)
  next
    case (Some req0)
    obtain lres st3 where l: "evict_loop ?o ?n req0 st = (lres, st3)" by fastforce
    have "acct st" using inv by (simp add: session_inv_def)
    from evict_loop_ok [OF this l required_ids_Some [OF Some]] obtain P where
      d: "dropped st P st3" "lres \<noteq> Inl Terminated" "\<And>q. lres = Inr q \<Longrightarrow> q = UsedIdCount st3 + ?o + ?n"
      and room: "\<And>q. lres = Inr q \<Longrightarrow> Sessions st3 = [] \<or> length (Sessions st3) < GMaxSearchSessions" by blast
    note k = dropped_kept [OF d(1)] and i3 = dropped_inv [OF inv d(1)]
    show ?thesis
    proof (cases lres)
      case (Inl e)
      then have "res = Inl e" "st' = st3" using op Some l by (simp_all add: publish_checked_def Let_def)
      then show ?thesis using d(2) Inl keeps_dropped [OF inv d(1)] by (auto intro!: publish_post_Inl)
    next
      case (Inr req)
      have same: "ReservedIdCount st3 = ReservedIdCount st" "CurrentGenerationKey st3 = CurrentGenerationKey st"
        "Reservations st3 = Reservations st" "PerSessionIdCapacity st3 = PerSessionIdCapacity st"
        using d(1) by (simp_all add: dropped_def rest_same_def)
      have cm: "commit_session i s cursor tok req st3 = (res, st')" using op Some l Inr by (simp add: publish_checked_def Let_def)
      have rm: "length (Sessions st3) < GMaxSearchSessions" using room [OF Inr] by (auto simp: GMaxSearchSessions_def)
      have "publish_post st3 i s cursor tok res st'"
        by (rule commit_session_ok [OF i3 _ tok(2,3) _ _ fit(2) _ rm cm]) (use d(3) [OF Inr] tok(1) gen fit same in simp_all)
      then show ?thesis using k by (auto simp: publish_post_def intro: keeps_trans)
    qed
  qed
qed

lemma publish_activated_ok:
  assumes inv: "session_inv st" and tk: "token_ok st tok"
    and gen: "CurrentGenerationKey st = g" "BuildCatalogGenerationKey (session_identity s) = g"
    and op: "publish_activated g i s cursor tok st = (res, st')"
  shows "publish_post st i s cursor tok res st'"
proof -
  have refused: "publish_post st i s cursor tok res st'"
    if "publish_activated g i s cursor tok st = (Inl e, st)" "e \<noteq> Terminated" for e
    using inv that op by (simp add: publish_post_Inl keeps_refl)
  show ?thesis
  proof (cases "map_of (Reservations st) (TokId tok)")
    case None
    then have "\<exists>e. publish_activated g i s cursor tok st = (Inl e, st) \<and> e \<noteq> Terminated"
      by (cases "length (BookIds s) > PerSessionIdCapacity st") (simp_all add: publish_activated_def)
    then show ?thesis using refused by blast
  next
    case (Some r)
    have r: "ResGenerationKey r = TokGenerationKey tok" "ResIdCount r = TokIdCount tok"
      using tk Some by (simp_all add: token_ok_def)
    show ?thesis
    proof (cases "length (BookIds s) \<le> PerSessionIdCapacity st \<and> length (BookIds s) = TokIdCount tok
        \<and> TokGenerationKey tok = g \<and> \<not> TokIdCount tok > ReservedIdCount st")
      case True
      then have "publish_checked i s cursor tok st = (res, st')"
        using op Some r by (simp add: publish_activated_def Let_def)
      then show ?thesis using True gen by (intro publish_checked_ok [OF inv Some r]) simp_all
    next
      case False
      then consider "length (BookIds s) > PerSessionIdCapacity st"
        | "\<not> length (BookIds s) > PerSessionIdCapacity st" "TokGenerationKey tok \<noteq> g"
        | "\<not> length (BookIds s) > PerSessionIdCapacity st" "TokGenerationKey tok = g" "TokIdCount tok > ReservedIdCount st"
        | "\<not> length (BookIds s) > PerSessionIdCapacity st" "TokGenerationKey tok = g" "\<not> TokIdCount tok > ReservedIdCount st"
          "length (BookIds s) \<noteq> TokIdCount tok" by linarith
      then have "\<exists>e. publish_activated g i s cursor tok st = (Inl e, st) \<and> e \<noteq> Terminated"
        by cases (use Some r in \<open>simp_all add: publish_activated_def\<close>)
      then show ?thesis using refused by blast
    qed
  qed
qed

definition published_session :: "int list \<Rightarrow> SCriteria \<Rightarrow> SCatalogIdentity \<Rightarrow> nat \<Rightarrow> int \<Rightarrow> SSession" where
  "published_session ids criteria identity nextPosition now =
    \<lparr>BookIds = ids, Criteria = criteria, SesSourceFingerprintUtf8 = IdSourceFingerprintUtf8 identity,
     SesCatalogSnapshotIdUtf8 = IdSnapshotIdUtf8 identity, FirstContinuationPosition = nextPosition, LastAccess = now\<rparr>"

definition published_cursor :: "string \<Rightarrow> SCatalogIdentity \<Rightarrow> nat \<Rightarrow> SSearchCursor" where
  "published_cursor sessionId identity nextPosition =
    \<lparr>SessionIdUtf8 = sessionId, SourceFingerprintUtf8 = IdSourceFingerprintUtf8 identity,
     CatalogSnapshotIdUtf8 = IdSnapshotIdUtf8 identity, Position = nextPosition\<rparr>"

lemma published_identity [simp]: "session_identity (published_session ids cr identity pos now) = identity"
  by (simp add: session_identity_def published_session_def)

lemma Publish_ok:
  assumes inv: "session_inv st" and tk: "token_ok st tok"
    and op: "PublishSearchSession st current now i ids cr identity pos tok = (res, st')"
  shows "publish_post st i (published_session ids cr identity pos now) (published_cursor i identity pos) tok res st'"
proof (cases "current = identity")
  case False
  then have "st' = st" "\<exists>e. res = Inl e \<and> e \<noteq> Terminated"
    using op by (auto simp: PublishSearchSession_def ValidateCurrentCatalogIdentity_def)
  then show ?thesis using inv by (auto intro!: publish_post_Inl keeps_refl)
next
  case True
  let ?g = "BuildCatalogGenerationKey identity"
  obtain st1 st2 where p: "PurgeSessionsLocked st now = Some st1" "ActivateSearchSessionGenerationLocked st1 ?g = Some st2"
    and i2: "session_inv st2" "CurrentGenerationKey st2 = ?g" "reservations_kept st st2" "capacities_same st st2"
      "NextReservationId st2 = NextReservationId st"
    by (rule purge_activate_ok [OF inv])
  have "publish_activated ?g i (published_session ids cr identity pos now) (published_cursor i identity pos) tok st2 = (res, st')"
    using op True p
    by (simp add: PublishSearchSession_def ValidateCurrentCatalogIdentity_def published_session_def published_cursor_def)
  from publish_activated_ok [OF i2(1) token_ok_kept [OF tk i2(3)] i2(2) _ this]
  have "publish_post st2 i (published_session ids cr identity pos now) (published_cursor i identity pos) tok res st'" by simp
  then show ?thesis using i2(3,4,5) by (auto simp: publish_post_def intro: keeps_trans)
qed

lemma RemoveSearchSession_ok:
  assumes "session_inv st" "RemoveSearchSession st i = (res, st')"
  shows "keeps st res st' \<and> map_of (Sessions st') i = None"
proof (cases "map_of (Sessions st) i")
  case None
  then show ?thesis using assms by (auto simp: RemoveSearchSession_def keeps_refl)
next
  case (Some s)
  from assms(1) RemoveSession_ok [of st i] obtain st1 where
    r: "RemoveSessionLocked st i = Some st1" "dropped st (\<lambda>e. fst e \<noteq> i) st1" by (auto simp: session_inv_def)
  then have e: "res = Inr ()" "st' = st1" using assms(2) Some by (simp_all add: RemoveSearchSession_def)
  show ?thesis
    unfolding e using keeps_dropped [OF assms(1) r(2), of "Inr () :: session_error + unit"] r(2)
    by (simp add: dropped_def map_of_filter_fst)
qed

lemma touch_inv: "session_inv st \<Longrightarrow> keeps st (Inr x) (touch st i now)"
proof -
  assume inv: "session_inv st"
  let ?f = "\<lambda>(k, s). if k = i then (k, s\<lparr>LastAccess := now\<rparr>) else (k, s)"
  have f: "fst (?f e) = fst e" "BookIds (snd (?f e)) = BookIds (snd e)"
    "session_identity (snd (?f e)) = session_identity (snd e)" for e :: "string \<times> SSession"
    by (auto simp: session_identity_def split: prod.split)
  have m: "map fst (map ?f es) = map fst es" "used_ids (map ?f es) = used_ids es" for es
    by (simp_all add: used_ids_def comp_def f)
  have "session_inv (touch st i now)"
    using inv unfolding session_inv_def acct_def one_generation_def touch_def
    by (simp add: m list_all_iff f del: map_map)
  then show ?thesis by (simp add: keeps_def touch_def capacities_same_def reservations_kept_def)
qed

lemma read_slice_locked_ok:
  assumes inv: "session_inv st" and op: "read_slice_locked st now n c cr identity = (res, st')"
  shows "keeps st res st'"
proof (cases "map_of (Sessions st) (SessionIdUtf8 c)")
  case None
  then have "st' = st" "res \<noteq> Inl Terminated" using op by (auto simp: read_slice_locked_def)
  then show ?thesis using keeps_refl [OF inv, of res] by simp
next
  case (Some s)
  have "acct st" using inv by (simp add: session_inv_def)
  from RemoveSession_ok [OF this, of "SessionIdUtf8 c"] obtain st2 where
    r: "RemoveSessionLocked st (SessionIdUtf8 c) = Some st2" "dropped st (\<lambda>e. fst e \<noteq> SessionIdUtf8 c) st2" by blast
  consider e where "res = Inl e" "e \<noteq> Terminated" "st' = st2" | e where "res = Inl e" "e \<noteq> Terminated" "st' = st"
    | x where "res = Inr x" "st' = touch st (SessionIdUtf8 c) now"
    using op Some r(1) by (simp add: read_slice_locked_def split: if_splits) blast+
  then show ?thesis
  proof cases
    case 1
    then show ?thesis using keeps_dropped [OF inv r(2), of res] by simp
  next
    case 2
    then show ?thesis using keeps_refl [OF inv, of res] by simp
  next
    case 3
    then show ?thesis using touch_inv [OF inv] by simp
  qed
qed

lemma ReadSlice_ok:
  assumes inv: "session_inv st" and op: "ReadSearchSessionSlice st now q cr identity = (res, st')"
  shows "keeps st res st'"
proof -
  have "acct st" using inv by (simp add: session_inv_def)
  from Purge_ok [OF this, of now] obtain st1 where
    p: "PurgeSessionsLocked st now = Some st1" "dropped st (\<lambda>e. \<not> expired now (snd e)) st1" by blast
  consider e where "res = Inl e" "e \<noteq> Terminated" "st' = st"
    | c where "read_slice_locked st1 now (Limit q) c cr identity = (res, st')"
    using op p(1) by (cases "Cursor q") (auto simp: ReadSearchSessionSlice_def split: if_splits)
  then show ?thesis
  proof cases
    case (1 e)
    then show ?thesis using keeps_refl [OF inv, of res] by simp
  next
    case (2 c)
    from read_slice_locked_ok [OF dropped_inv [OF inv p(2)] 2] show ?thesis
      using dropped_kept [OF p(2)] by (blast intro: keeps_trans)
  qed
qed

end
