(* ===== verification/Search_Session_System.thy ===== *)
theory Search_Session_System
  imports Search_Session_Invariants
begin

text \<open>
  The cursor sessions under any interleaving of requests. A first-page request reserves ids, works
  on the database without the lock, then publishes or releases its reservation; continuation
  requests read slices; a request whose catalog changed removes its session. The requests in flight
  are the tokens they hold. A call that reaches \<open>std::terminate\<close> sets \<open>Crashed\<close>.
\<close>

section \<open>The system\<close>

record session_system =
  SysState :: SSearchSessionState
  Tokens :: "SSearchSessionReservation list"
  Crashed :: bool

datatype session_call =
  ReserveCall SCatalogIdentity int SCatalogIdentity nat
  | ReleaseCall SSearchSessionReservation
  | PublishCall SCatalogIdentity int string "int list" SCriteria SCatalogIdentity nat SSearchSessionReservation
  | RemoveCall string
  | ReadCall int SSearchQuery SCriteria SCatalogIdentity

text \<open>Only the holder of a token uses it; the counter of reservation ids has not come round.\<close>

fun call_enabled :: "session_system \<Rightarrow> session_call \<Rightarrow> bool" where
  "call_enabled sys (ReserveCall _ _ _ _) \<longleftrightarrow> NextReservationId (SysState sys) < size_max"
| "call_enabled sys (ReleaseCall tok) \<longleftrightarrow> tok \<in> set (Tokens sys)"
| "call_enabled sys (PublishCall _ _ _ _ _ _ _ tok) \<longleftrightarrow> tok \<in> set (Tokens sys)"
| "call_enabled sys (RemoveCall _) \<longleftrightarrow> True"
| "call_enabled sys (ReadCall _ _ _ _) \<longleftrightarrow> True"

definition after_call :: "session_system \<Rightarrow> 'a outcome \<Rightarrow> ('a \<Rightarrow> SSearchSessionReservation list) \<Rightarrow> session_system" where
  "after_call sys out held =
    \<lparr>SysState = snd out, Tokens = (case fst out of Inl _ \<Rightarrow> Tokens sys | Inr x \<Rightarrow> held x),
     Crashed = (Crashed sys \<or> fst out = Inl Terminated)\<rparr>"

definition without :: "SSearchSessionReservation \<Rightarrow> session_system \<Rightarrow> SSearchSessionReservation list" where
  "without tok sys = filter (\<lambda>t. t \<noteq> tok) (Tokens sys)"

fun do_call :: "session_system \<Rightarrow> session_call \<Rightarrow> session_system" where
  "do_call sys (ReserveCall current now identity c) =
    after_call sys (ReserveSearchSessionIds (SysState sys) current now identity c) (\<lambda>tok. tok # Tokens sys)"
| "do_call sys (ReleaseCall tok) =
    after_call sys (ReleaseSearchSessionReservation (SysState sys) tok) (\<lambda>_. without tok sys)"
| "do_call sys (PublishCall current now i ids cr identity pos tok) =
    after_call sys (PublishSearchSession (SysState sys) current now i ids cr identity pos tok) (\<lambda>_. without tok sys)"
| "do_call sys (RemoveCall i) = after_call sys (RemoveSearchSession (SysState sys) i) (\<lambda>_. Tokens sys)"
| "do_call sys (ReadCall now q cr identity) =
    after_call sys (ReadSearchSessionSlice (SysState sys) now q cr identity) (\<lambda>_. Tokens sys)"

inductive session_step :: "session_system \<Rightarrow> session_system \<Rightarrow> bool" where
  call: "call_enabled sys c \<Longrightarrow> \<not> Crashed sys \<Longrightarrow> session_step sys (do_call sys c)"

inductive_cases session_stepE: "session_step sys sys'"

definition session_start :: "nat \<Rightarrow> session_system \<Rightarrow> bool" where
  "session_start cap sys \<longleftrightarrow> sys = \<lparr>SysState = new_state cap, Tokens = [], Crashed = False\<rparr>"

section \<open>The invariant of the system\<close>

definition tokens_ok :: "SSearchSessionState \<Rightarrow> SSearchSessionReservation list \<Rightarrow> bool" where
  "tokens_ok st toks \<longleftrightarrow>
    0 < NextReservationId st \<and> (\<forall>tok \<in> set toks. token_ok st tok \<and> TokId tok < NextReservationId st)
    \<and> (\<forall>i r. map_of (Reservations st) i = Some r \<longrightarrow> (\<exists>tok \<in> set toks. TokId tok = i))"

definition system_inv :: "nat \<Rightarrow> session_system \<Rightarrow> bool" where
  "system_inv cap sys \<longleftrightarrow>
    session_inv (SysState sys) \<and> tokens_ok (SysState sys) (Tokens sys) \<and> \<not> Crashed sys
    \<and> AggregateIdCapacity (SysState sys) = cap
    \<and> PerSessionIdCapacity (SysState sys) = ResolvePerSessionIdCapacity cap"

lemma new_state_inv: "session_inv (new_state cap)"
  by (simp add: session_inv_def acct_def one_generation_def used_ids_def reserved_ids_def new_state_def)

lemma start_inv: "session_start cap sys \<Longrightarrow> system_inv cap sys"
  by (simp add: session_start_def system_inv_def new_state_inv) (simp add: new_state_def tokens_ok_def)

lemma tokens_ok_keeps: "tokens_ok st toks \<Longrightarrow> keeps st res st' \<Longrightarrow> tokens_ok st' toks"
  by (auto simp: tokens_ok_def keeps_def reservations_kept_def intro: token_ok_kept)

lemma tokens_ok_without:
  assumes "tokens_ok st (Tokens sys)" "keeps st res st'" "map_of (Reservations st') (TokId tok) = None"
  shows "tokens_ok st' (without tok sys)"
  using tokens_ok_keeps [OF assms(1,2)] assms(3) by (fastforce simp: tokens_ok_def without_def)

lemma system_inv_after:
  assumes "system_inv cap sys" "keeps (SysState sys) res st'" "\<And>x. res = Inr x \<Longrightarrow> tokens_ok st' (held x)"
  shows "system_inv cap (after_call sys (res, st') held)"
  using assms tokens_ok_keeps [of "SysState sys" "Tokens sys" res st']
  by (auto simp: system_inv_def after_call_def keeps_def capacities_same_def split: sum.splits)

lemma reserve_inv:
  assumes inv: "system_inv cap sys" and en: "NextReservationId (SysState sys) < size_max"
    and post: "reserve_post (SysState sys) identity c res st'"
  shows "system_inv cap (after_call sys (res, st') (\<lambda>tok. tok # Tokens sys))"
proof (cases res)
  case (Inl e)
  then have "keeps (SysState sys) res st'" using post by (simp add: keeps_def reserve_post_def)
  then show ?thesis using Inl by (intro system_inv_after [OF inv]) simp_all
next
  case (Inr tok)
  let ?st = "SysState sys"
  have p: "tok = \<lparr>TokId = NextReservationId ?st, TokGenerationKey = BuildCatalogGenerationKey identity, TokIdCount = c\<rparr>"
    "map_of (Reservations st') (TokId tok) = Some \<lparr>ResGenerationKey = TokGenerationKey tok, ResIdCount = c\<rparr>"
    "NextReservationId st' = NextReservationId ?st + 1"
    "\<And>i r. i \<noteq> TokId tok \<Longrightarrow> map_of (Reservations st') i = Some r \<Longrightarrow> map_of (Reservations ?st) i = Some r"
    using post Inr en by (auto simp: reserve_post_def)
  have old: "tokens_ok ?st (Tokens sys)" using inv by (simp add: system_inv_def)
  have "token_ok st' t \<and> TokId t < NextReservationId st'" if "t \<in> set (tok # Tokens sys)" for t
  proof (cases "t \<in> set (Tokens sys)")
    case True
    then have t: "token_ok ?st t" "TokId t < NextReservationId ?st" using old by (simp_all add: tokens_ok_def)
    then have "TokId t \<noteq> TokId tok" using p(1) by simp
    then show ?thesis using t p(3,4) by (auto simp: token_ok_def split: option.splits)
  next
    case False
    then show ?thesis using that p(1,2,3) by (simp add: token_ok_def)
  qed
  moreover have "\<exists>t \<in> set (tok # Tokens sys). TokId t = i" if "map_of (Reservations st') i = Some r" for i r
    using old p(4) [OF _ that] by (cases "i = TokId tok") (auto simp: tokens_ok_def)
  moreover have "0 < NextReservationId st'" using p(3) by simp
  ultimately have "tokens_ok st' (tok # Tokens sys)" unfolding tokens_ok_def by blast
  then show ?thesis
    using inv post Inr by (simp add: system_inv_def after_call_def reserve_post_def capacities_same_def)
qed

lemma do_call_inv:
  assumes inv: "system_inv cap sys" and en: "call_enabled sys c"
  shows "system_inv cap (do_call sys c)"
proof -
  let ?st = "SysState sys"
  have s: "session_inv ?st" "tokens_ok ?st (Tokens sys)" using inv by (simp_all add: system_inv_def)
  have tk: "token_ok ?st tok" if "tok \<in> set (Tokens sys)" for tok using that s(2) by (simp add: tokens_ok_def)
  show ?thesis
  proof (cases c)
    case (ReserveCall current now identity n)
    obtain res st' where o: "ReserveSearchSessionIds ?st current now identity n = (res, st')" by fastforce
    show ?thesis using reserve_inv [OF inv _ Reserve_ok [OF s(1) o]] en o ReserveCall by simp
  next
    case (ReleaseCall tok)
    obtain res st' where o: "ReleaseSearchSessionReservation ?st tok = (res, st')" by fastforce
    from Release_ok [OF s(1) tk o] en ReleaseCall
    have k: "keeps ?st res st'" "map_of (Reservations st') (TokId tok) = None" by simp_all
    show ?thesis using system_inv_after [OF inv k(1)] tokens_ok_without [OF s(2) k] o ReleaseCall by simp
  next
    case (PublishCall current now i ids cr identity pos tok)
    obtain res st' where o: "PublishSearchSession ?st current now i ids cr identity pos tok = (res, st')" by fastforce
    from Publish_ok [OF s(1) tk o] en PublishCall
    have k: "keeps ?st res st'" "\<And>x. res = Inr x \<Longrightarrow> map_of (Reservations st') (TokId tok) = None"
      by (auto simp: publish_post_def)
    show ?thesis using system_inv_after [OF inv k(1)] tokens_ok_without [OF s(2) k(1)] k(2) o PublishCall by simp
  next
    case (RemoveCall i)
    obtain res st' where o: "RemoveSearchSession ?st i = (res, st')" by fastforce
    from RemoveSearchSession_ok [OF s(1) o] have k: "keeps ?st res st'" by simp
    show ?thesis using system_inv_after [OF inv k] tokens_ok_keeps [OF s(2) k] o RemoveCall by simp
  next
    case (ReadCall now q cr identity)
    obtain res st' where o: "ReadSearchSessionSlice ?st now q cr identity = (res, st')" by fastforce
    note k = ReadSlice_ok [OF s(1) o]
    show ?thesis using system_inv_after [OF inv k] tokens_ok_keeps [OF s(2) k] o ReadCall by simp
  qed
qed

interpretation sessions: state_machine "session_start cap" session_step "system_inv cap" for cap
  by unfold_locales (auto elim!: session_stepE intro: start_inv do_call_inv)

end
