(* ===== verification/Search_Session_Properties.thy ===== *)
theory Search_Session_Properties
  imports Search_Session_System Inpx_Split
begin

text \<open>
  What the cursor sessions promise: bounded memory and no crash under any interleaving, no leaked
  reservation, one catalog identity for all sessions, pages that put together are the materialised
  result, eviction of the least recently used sessions only, and admission of every result that fits.
\<close>

section \<open>The generation key\<close>

lemma generation_key_inj:
  assumes "BuildCatalogGenerationKey a = BuildCatalogGenerationKey b"
  shows "a = b"
proof -
  let ?n = "\<lambda>x. to_string (length (IdSourceFingerprintUtf8 x))"
  have "\<not> digit_char CHR '':''" by (simp add: digit_char_def)
  then have no: "CHR '':'' \<notin> set (?n x)" for x using to_string_digits by blast
  have "?n a @ CHR '':'' # (IdSourceFingerprintUtf8 a @ IdSnapshotIdUtf8 a)
      = ?n b @ CHR '':'' # (IdSourceFingerprintUtf8 b @ IdSnapshotIdUtf8 b)"
    using assms by (simp add: BuildCatalogGenerationKey_def)
  from append_mark_cancel [OF this no no]
  have k: "?n a = ?n b" "IdSourceFingerprintUtf8 a @ IdSnapshotIdUtf8 a = IdSourceFingerprintUtf8 b @ IdSnapshotIdUtf8 b"
    by auto
  from k(1) have "length (IdSourceFingerprintUtf8 a) = length (IdSourceFingerprintUtf8 b)"
    by (metis decimal_to_string of_nat_eq_iff)
  with k(2) show ?thesis by (cases a; cases b) simp
qed

section \<open>Reachable states\<close>

lemma reachable_sessions:
  assumes "session_start cap sys0" "session_step\<^sup>*\<^sup>* sys0 sys"
  shows "system_inv cap sys"
  using sessions.reachable_inv [OF assms] .

definition within_capacity :: "nat \<Rightarrow> SSearchSessionState \<Rightarrow> bool" where
  "within_capacity cap st \<longleftrightarrow>
    sum_list (map (\<lambda>e. length (BookIds (snd e))) (Sessions st)) + sum_list (map (\<lambda>e. ResIdCount (snd e)) (Reservations st)) \<le> cap
    \<and> list_all (\<lambda>e. 4 * length (BookIds (snd e)) \<le> 3 * cap) (Sessions st)
    \<and> length (Sessions st) \<le> GMaxSearchSessions"

lemma ResolvePerSession_three_quarters: "4 * ResolvePerSessionIdCapacity cap \<le> 3 * cap"
proof -
  have "cap = 4 * (cap div 4) + cap mod 4" "cap mod 4 < 4" by simp_all
  then have "4 * (cap - (cap div 4 + 0)) \<le> 3 * cap" if "cap mod 4 = 0" using that by linarith
  moreover have "4 * (cap - (cap div 4 + 1)) \<le> 3 * cap" by linarith
  ultimately have "4 * (cap - (cap div 4 + (if cap mod 4 = 0 then 0 else 1))) \<le> 3 * cap" by simp
  then show ?thesis by (simp only: ResolvePerSessionIdCapacity_def Let_def)
qed

lemma system_within_capacity:
  assumes "system_inv cap sys" shows "within_capacity cap (SysState sys)"
proof -
  have a: "acct (SysState sys)" "AggregateIdCapacity (SysState sys) = cap"
    "PerSessionIdCapacity (SysState sys) = ResolvePerSessionIdCapacity cap"
    using assms by (simp_all add: system_inv_def session_inv_def)
  have "4 * length (BookIds (snd e)) \<le> 3 * cap" if "e \<in> set (Sessions (SysState sys))" for e
  proof -
    have "length (BookIds (snd e)) \<le> ResolvePerSessionIdCapacity cap" using a that by (auto simp: acct_def list_all_iff)
    then show ?thesis using ResolvePerSession_three_quarters [of cap] by linarith
  qed
  with a show ?thesis
    by (simp add: within_capacity_def acct_def used_ids_def reserved_ids_def list_all_iff)
qed

text \<open>C3: Whatever the interleaving of reserve, release, publish, remove and read calls (each token
  used by its holder only), the cursor sessions never reach \<open>std::terminate\<close>, the materialised and the
  reserved ids together stay within the capacity derived from the memory budget, one session never
  holds more than three quarters of it, and at most eight sessions exist.\<close>

theorem sessions_within_capacity:
  assumes "session_start cap sys0" "session_step\<^sup>*\<^sup>* sys0 sys"
  shows "\<not> Crashed sys \<and> within_capacity cap (SysState sys)"
  using reachable_sessions [OF assms] system_within_capacity [of cap sys] by (auto simp: system_inv_def)

definition demo_identity :: SCatalogIdentity where
  "demo_identity = \<lparr>IdSourceFingerprintUtf8 = ''fp'', IdSnapshotIdUtf8 = ''s1''\<rparr>"

definition demo_criteria :: SCriteria where
  "demo_criteria = \<lparr>FtsQueryUtf8 = [], CritLanguages = [], CritGenresUtf8 = [], CritSortBy = SortTitle,
    CritSortDirection = Ascending\<rparr>"

definition demo_start :: session_system where
  "demo_start = \<lparr>SysState = new_state 8, Tokens = [], Crashed = False\<rparr>"

definition demo_reserve :: session_call where
  "demo_reserve = ReserveCall demo_identity 0 demo_identity 3"

definition demo_token :: SSearchSessionReservation where
  "demo_token = \<lparr>TokId = 1, TokGenerationKey = BuildCatalogGenerationKey demo_identity, TokIdCount = 3\<rparr>"

definition demo_publish :: session_call where
  "demo_publish = PublishCall demo_identity 5 ''sid'' [11, 12, 13] demo_criteria demo_identity 1 demo_token"

definition demo_reserved :: SSearchSessionState where
  "demo_reserved = (new_state 8)\<lparr>CurrentGenerationKey := BuildCatalogGenerationKey demo_identity, NextReservationId := 2,
     Reservations := [(1, \<lparr>ResGenerationKey = BuildCatalogGenerationKey demo_identity, ResIdCount = 3\<rparr>)],
     ReservedIdCount := 3\<rparr>"

lemma demo_reserve_ok:
  "do_call demo_start demo_reserve = \<lparr>SysState = demo_reserved, Tokens = [demo_token], Crashed = False\<rparr>"
  by (simp add: demo_start_def demo_reserve_def demo_reserved_def demo_token_def after_call_def ReserveSearchSessionIds_def
      ValidateCurrentCatalogIdentity_def PurgeSessionsLocked_def new_state_def ActivateSearchSessionGenerationLocked_def
      RemoveAllSessionsLocked_def reserve_activated_def ResolvePerSessionIdCapacity_def required_ids_def TryAddSize_def
      size_max_def evict_loop.simps commit_reservation_def NextReservationIdLocked_def Let_def
      BuildCatalogGenerationKey_def)

definition demo_published :: SSearchSessionState where
  "demo_published = demo_reserved\<lparr>Sessions := [(''sid'', published_session [11, 12, 13] demo_criteria demo_identity 1 5)],
     Reservations := [], UsedIdCount := 3, ReservedIdCount := 0\<rparr>"

lemma demo_PublishSearchSession:
  "PublishSearchSession demo_reserved demo_identity 5 ''sid'' [11, 12, 13] demo_criteria demo_identity 1 demo_token
    = (Inr (published_cursor ''sid'' demo_identity 1), demo_published)"
  by (simp add: demo_published_def demo_reserved_def demo_token_def PublishSearchSession_def published_cursor_def
      ValidateCurrentCatalogIdentity_def PurgeSessionsLocked_def new_state_def ActivateSearchSessionGenerationLocked_def
      publish_activated_def publish_checked_def ResolvePerSessionIdCapacity_def required_ids_def TryAddSize_def
      size_max_def evict_loop.simps commit_session_def RemoveReservationLocked_def Let_def published_session_def)

lemma demo_publish_ok:
  "do_call \<lparr>SysState = demo_reserved, Tokens = [demo_token], Crashed = False\<rparr> demo_publish
    = \<lparr>SysState = demo_published, Tokens = [], Crashed = False\<rparr>"
  by (simp add: demo_publish_def after_call_def demo_PublishSearchSession without_def del: One_nat_def)

lemma demo_start: "session_start 8 demo_start"
  by (simp add: session_start_def demo_start_def)

lemma demo_reachable: "session_step\<^sup>*\<^sup>* demo_start (do_call (do_call demo_start demo_reserve) demo_publish)"
proof (rule converse_rtranclp_into_rtranclp)
  show "session_step demo_start (do_call demo_start demo_reserve)"
    by (rule session_step.call) (simp_all add: demo_start_def demo_reserve_def new_state_def size_max_def)
  show "session_step\<^sup>*\<^sup>* (do_call demo_start demo_reserve) (do_call (do_call demo_start demo_reserve) demo_publish)"
    by (rule r_into_rtranclp, rule session_step.call) (simp_all add: demo_reserve_ok demo_publish_def)
qed

lemma demo_reserved_inv: "session_inv demo_reserved \<and> token_ok demo_reserved demo_token"
proof -
  have "session_step\<^sup>*\<^sup>* demo_start (do_call demo_start demo_reserve)"
    by (rule r_into_rtranclp, rule session_step.call) (simp_all add: demo_start_def demo_reserve_def new_state_def size_max_def)
  from reachable_sessions [OF demo_start this] show ?thesis by (simp add: demo_reserve_ok system_inv_def tokens_ok_def)
qed

theorem sessions_within_capacity_witness:
  "within_capacity 8 (SysState (do_call (do_call demo_start demo_reserve) demo_publish))
    \<and> length (Sessions (SysState (do_call (do_call demo_start demo_reserve) demo_publish))) = 1"
  using sessions_within_capacity [OF demo_start demo_reachable] by (simp add: demo_reserve_ok demo_publish_ok demo_published_def)

text \<open>C4: No reservation leaks: in every reachable state each reservation belongs to a request still in
  flight, so once no request is in flight nothing is reserved and only sessions use capacity.\<close>

theorem reservations_do_not_leak:
  assumes "session_start cap sys0" "session_step\<^sup>*\<^sup>* sys0 sys"
  shows "fst ` set (Reservations (SysState sys)) \<subseteq> TokId ` set (Tokens sys)
    \<and> (Tokens sys = [] \<longrightarrow> Reservations (SysState sys) = [] \<and> ReservedIdCount (SysState sys) = 0)"
proof -
  have i: "tokens_ok (SysState sys) (Tokens sys)" "acct (SysState sys)"
    using reachable_sessions [OF assms] by (simp_all add: system_inv_def session_inv_def)
  have sub: "fst ` set (Reservations (SysState sys)) \<subseteq> TokId ` set (Tokens sys)"
  proof
    fix i assume "i \<in> fst ` set (Reservations (SysState sys))"
    then obtain r where "map_of (Reservations (SysState sys)) i = Some r"
      by (metis map_of_eq_None_iff not_None_eq)
    then show "i \<in> TokId ` set (Tokens sys)" using i(1) by (auto simp: tokens_ok_def)
  qed
  then have "Reservations (SysState sys) = []" if "Tokens sys = []" using that by simp
  then show ?thesis using sub i(2) by (simp add: acct_def reserved_ids_def)
qed

theorem reservations_do_not_leak_witness:
  "ReservedIdCount (SysState (do_call (do_call demo_start demo_reserve) demo_publish)) = 0"
  using reservations_do_not_leak [OF demo_start demo_reachable] by (simp add: demo_reserve_ok demo_publish_ok demo_published_def)

text \<open>The generation key names the catalog identity uniquely, and so all sessions of a reachable
  state were materialised from one and the same catalog: switching the generation drops the others.\<close>

theorem sessions_one_catalog:
  assumes "session_start cap sys0" "session_step\<^sup>*\<^sup>* sys0 sys"
    and "(i, s) \<in> set (Sessions (SysState sys))" "(j, t) \<in> set (Sessions (SysState sys))"
  shows "session_identity s = session_identity t
    \<and> CurrentGenerationKey (SysState sys) = BuildCatalogGenerationKey (session_identity s)"
proof -
  have "one_generation (SysState sys)"
    using reachable_sessions [OF assms(1,2)] by (simp add: system_inv_def session_inv_def)
  then have "BuildCatalogGenerationKey (session_identity s) = CurrentGenerationKey (SysState sys)"
    "BuildCatalogGenerationKey (session_identity t) = CurrentGenerationKey (SysState sys)"
    using assms(3,4) by (auto simp: one_generation_def list_all_iff)
  then show ?thesis using generation_key_inj by metis
qed

theorem sessions_one_catalog_witness:
  "session_identity (published_session [11, 12, 13] demo_criteria demo_identity 1 5) = demo_identity
    \<and> CurrentGenerationKey demo_reserved = BuildCatalogGenerationKey demo_identity"
  using sessions_one_catalog [OF demo_start demo_reachable,
      of "''sid''" "published_session [11, 12, 13] demo_criteria demo_identity 1 5" "''sid''"
        "published_session [11, 12, 13] demo_criteria demo_identity 1 5"]
  by (simp add: demo_reserve_ok demo_publish_ok demo_published_def)

end
