(* ===== verification/Sql_Query.thy ===== *)
theory Sql_Query
  imports Search_Sessions Metadata_Normalization "HOL-Library.List_Lexorder" "HOL-Library.Char_ord"
begin

text \<open>
  The queries of \<open>libs/Database/SqliteBookQueryRepository.cpp\<close>: the FTS5 expression of a search text,
  the filtered SQL statements with their parameters, and the canonical criteria of a session
  (\<open>BuildIdInClause\<close> is in \<open>SqliteEntityHelpers.cpp\<close>). The \<open>unicode61\<close> tokenizer is a parameter.
\<close>

section \<open>FTS5 expressions\<close>

abbreviation dquote :: char where
  "dquote \<equiv> CHR 0x22"

abbreviation squote :: char where
  "squote \<equiv> CHR 0x27"

definition and_then :: "'e + 'a \<Rightarrow> ('a \<Rightarrow> 'e + 'b) \<Rightarrow> 'e + 'b" where
  "and_then m f = (case m of Inl e \<Rightarrow> Inl e | Inr x \<Rightarrow> f x)"

lemma and_then_simps [simp]: "and_then (Inl e) f = Inl e" "and_then (Inr x) f = f x"
  by (simp_all add: and_then_def)

lemma and_then_Inr: "and_then m f = Inr y \<longleftrightarrow> (\<exists>x. m = Inr x \<and> f x = Inr y)"
  by (cases m) simp_all

definition int_max :: nat where
  "int_max = 2 ^ 31 - 1"

text \<open>The tokens the callback receives, or the message of a failing SQLite call.\<close>

type_synonym fts_tokenizer = "string \<Rightarrow> string + string list"

definition CollectFtsToken :: "string list \<Rightarrow> string \<Rightarrow> string list" where
  "CollectFtsToken tokens token = (if length token > 0 then tokens @ [token] else tokens)"

definition TokenizeFtsQuery :: "fts_tokenizer \<Rightarrow> string \<Rightarrow> session_error + string list" where
  "TokenizeFtsQuery tokenizer textUtf8 =
    (if length textUtf8 > int_max then Inl (SessionInvalidArgument ''Search text exceeds the FTS5 input limit.'')
     else case tokenizer textUtf8 of
            Inl message \<Rightarrow> Inl (SessionRuntimeError message)
          | Inr tokens \<Rightarrow> Inr (foldl CollectFtsToken [] tokens))"

definition AppendColumnScope :: "string \<times> bool \<Rightarrow> string \<Rightarrow> string \<times> bool" where
  "AppendColumnScope scope_first column =
    (case scope_first of (scope, first) \<Rightarrow> ((if first then scope else scope @ '' '') @ column, False))"

fun append_quoted_loop :: "string \<Rightarrow> string \<Rightarrow> string" where
  "append_quoted_loop target [] = target"
| "append_quoted_loop target (character # rest) =
    append_quoted_loop (if character = dquote then target @ [character, dquote] else target @ [character]) rest"

definition AppendQuotedFtsToken :: "string \<Rightarrow> string \<Rightarrow> string" where
  "AppendQuotedFtsToken target token = append_quoted_loop (target @ [dquote]) token @ [dquote, CHR ''*'']"

definition build_scope :: "SSearchFieldScope \<Rightarrow> string" where
  "build_scope searchFields =
    (let fields = (if HasAnyField searchFields then searchFields
                   else \<lparr>ScopeTitle = True, ScopeAuthors = True, ScopeDescription = True\<rparr>);
         s0 = (''{'', True);
         s1 = (if ScopeTitle fields then AppendColumnScope s0 ''title'' else s0);
         s2 = (if ScopeAuthors fields then AppendColumnScope s1 ''authors'' else s1);
         s3 = (if ScopeDescription fields then AppendColumnScope s2 ''description'' else s2)
     in fst s3 @ ''} : '')"

fun fts_loop :: "string \<Rightarrow> string \<Rightarrow> string list \<Rightarrow> string" where
  "fts_loop scope result [] = result"
| "fts_loop scope result (token # rest) =
    fts_loop scope (AppendQuotedFtsToken ((if result \<noteq> [] then result @ '' '' else result) @ scope) token) rest"

definition BuildFtsQuery :: "fts_tokenizer \<Rightarrow> SSearchQuery \<Rightarrow> session_error + string" where
  "BuildFtsQuery tokenizer query =
    (if \<not> HasText query then Inr []
     else
       let scope = build_scope (SearchFields query) in
       and_then (TokenizeFtsQuery tokenizer (NormalizeText (TextUtf8 query)))
         (\<lambda>tokens. Inr (if tokens = [] then scope @ [dquote, dquote] else fts_loop scope [] tokens)))"

section \<open>SQL statements\<close>

fun in_clause_loop :: "nat \<Rightarrow> nat \<Rightarrow> string \<Rightarrow> string" where
  "in_clause_loop count 0 sql = sql"
| "in_clause_loop count (Suc left) sql =
    in_clause_loop count left ((if count - Suc left > 0 then sql @ '', '' else sql) @ ''?'')"

definition BuildIdInClause :: "nat \<Rightarrow> string" where
  "BuildIdInClause count = in_clause_loop count count ''('' @ '')''"

record SFilteredFrom =
  Sql :: string
  TextParameters :: "string list"

definition append_fts_filter :: "SFilteredFrom \<Rightarrow> string \<Rightarrow> SFilteredFrom" where
  "append_fts_filter filtered ftsQuery =
    (if ftsQuery \<noteq> [] then \<lparr>Sql = Sql filtered @ ''AND search_index MATCH ? '',
                          TextParameters = TextParameters filtered @ [ftsQuery]\<rparr>
     else filtered)"

definition append_language_filter :: "SFilteredFrom \<Rightarrow> string list \<Rightarrow> SFilteredFrom" where
  "append_language_filter filtered languages =
    (if languages \<noteq> []
     then \<lparr>Sql = Sql filtered @ ''AND b.language IN '' @ BuildIdInClause (length languages) @ '' '',
           TextParameters = TextParameters filtered @ languages\<rparr>
     else filtered)"

definition append_genre_filter :: "SFilteredFrom \<Rightarrow> string list \<Rightarrow> SFilteredFrom" where
  "append_genre_filter filtered genres =
    (if genres \<noteq> []
     then \<lparr>Sql = Sql filtered @ ''AND EXISTS (SELECT 1 FROM book_genres bg_filter ''
             @ ''INNER JOIN genres g_filter ON g_filter.id = bg_filter.genre_id ''
             @ ''WHERE bg_filter.book_id = b.id AND g_filter.normalized_name IN ''
             @ BuildIdInClause (length genres) @ '') '',
           TextParameters = TextParameters filtered @ map NormalizeText genres\<rparr>
     else filtered)"

definition AppendFilters :: "SFilteredFrom \<Rightarrow> SSearchQuery \<Rightarrow> bool \<Rightarrow> bool \<Rightarrow> string \<Rightarrow> SFilteredFrom" where
  "AppendFilters filtered query includeLanguages includeGenres ftsQuery =
    (let f1 = append_fts_filter filtered ftsQuery;
         f2 = (if includeLanguages then append_language_filter f1 (QueryLanguages query) else f1)
     in if includeGenres then append_genre_filter f2 (QueryGenresUtf8 query) else f2)"

definition sort_key :: "SSearchQuery \<Rightarrow> EBookSort" where
  "sort_key query = (case SortBy query of None \<Rightarrow> SortTitle | Some s \<Rightarrow> s)"

definition AppendSort :: "string \<Rightarrow> SSearchQuery \<Rightarrow> string" where
  "AppendSort sql query =
    (let direction = (if SortDirection query = Some Descending then ''DESC'' else ''ASC'') in
     sql @ (case sort_key query of
        SortTitle \<Rightarrow> ''ORDER BY b.normalized_title '' @ direction @ '', b.title ASC, b.id ASC ''
      | SortAuthor \<Rightarrow> ''ORDER BY author_sort.normalized_name '' @ direction @ '', b.normalized_title ASC, b.id ASC ''
      | SortDateAdded \<Rightarrow> ''ORDER BY b.added_at_utc '' @ direction @ '', b.normalized_title ASC, b.id ASC ''))"

definition UsesAuthorSort :: "SSearchQuery \<Rightarrow> bool" where
  "UsesAuthorSort query \<longleftrightarrow> sort_key query = SortAuthor"

definition search_index_join :: "string \<Rightarrow> string" where
  "search_index_join ftsQuery =
    (if ftsQuery \<noteq> [] then ''INNER JOIN search_index ON search_index.rowid = b.id '' else [])"

definition BuildFilteredFrom :: "SSearchQuery \<Rightarrow> string \<Rightarrow> bool \<Rightarrow> bool \<Rightarrow> bool \<Rightarrow> SFilteredFrom" where
  "BuildFilteredFrom query ftsQuery includeLanguages includeGenres includeAuthorSort =
    (let sql = '' FROM inpx_books b INNER JOIN inpx_book_locations l_catalog ON l_catalog.book_id = b.id ''
           @ search_index_join ftsQuery
           @ (if includeAuthorSort
              then ''LEFT JOIN (SELECT ba.book_id, MIN(a.normalized_name) AS normalized_name FROM book_authors ba ''
                @ ''INNER JOIN authors a ON a.id = ba.author_id GROUP BY ba.book_id) author_sort ON author_sort.book_id = b.id ''
              else [])
           @ ''WHERE 1 = 1 ''
     in AppendFilters \<lparr>Sql = sql, TextParameters = []\<rparr> query includeLanguages includeGenres ftsQuery)"

definition int64_max :: nat where
  "int64_max = 2 ^ 63 - 1"

definition ToSqlitePaginationValue :: "nat \<Rightarrow> string \<Rightarrow> session_error + int" where
  "ToSqlitePaginationValue n fieldName =
    (if n > int64_max then Inl (SessionInvalidArgument (fieldName @ '' exceeds the SQLite int64 range.''))
     else Inr (int n))"

datatype sql_param = BindText string | BindInt64 int

definition BindTextParameters :: "string list \<Rightarrow> sql_param list" where
  "BindTextParameters parameters = map BindText parameters"

text \<open>The statements of the five readers: the text and the text parameters; \<open>SearchBooks\<close> binds its
  limit and offset behind them.\<close>

definition search_books_statement :: "SSearchQuery \<Rightarrow> string \<Rightarrow> string \<times> sql_param list" where
  "search_books_statement query ftsQuery =
    (let filtered = BuildFilteredFrom query ftsQuery True True (UsesAuthorSort query) in
     (AppendSort (''SELECT b.id'' @ Sql filtered) query @ ''LIMIT ? OFFSET ?;'',
      BindTextParameters (TextParameters filtered)))"

definition search_ids_statement :: "SSearchQuery \<Rightarrow> string \<Rightarrow> string \<times> sql_param list" where
  "search_ids_statement query ftsQuery =
    (let filtered = BuildFilteredFrom query ftsQuery True True (UsesAuthorSort query) in
     (AppendSort (''SELECT b.id'' @ Sql filtered) query @ '';'', BindTextParameters (TextParameters filtered)))"

definition count_statement :: "SSearchQuery \<Rightarrow> string \<Rightarrow> string \<times> sql_param list" where
  "count_statement query ftsQuery =
    (let filtered = BuildFilteredFrom query ftsQuery True True False in
     (''SELECT COUNT(*)'' @ Sql filtered @ '';'', BindTextParameters (TextParameters filtered)))"

definition languages_statement :: "SSearchQuery \<Rightarrow> string \<Rightarrow> string \<times> sql_param list" where
  "languages_statement query ftsQuery =
    (let filtered = BuildFilteredFrom query ftsQuery False True False in
     (''SELECT b.language, COUNT(*)'' @ Sql filtered
      @ ''AND b.language <> '' @ [squote, squote] @ '' GROUP BY b.language ORDER BY b.language COLLATE NOCASE;'',
      BindTextParameters (TextParameters filtered)))"

definition genres_statement :: "SSearchQuery \<Rightarrow> string \<Rightarrow> string \<times> sql_param list" where
  "genres_statement query ftsQuery =
    (let sql = ''SELECT g.display_name, COUNT(DISTINCT b.id) FROM inpx_books b ''
           @ ''INNER JOIN inpx_book_locations l_catalog ON l_catalog.book_id = b.id ''
           @ ''INNER JOIN book_genres bg ON bg.book_id = b.id INNER JOIN genres g ON g.id = bg.genre_id ''
           @ search_index_join ftsQuery @ ''WHERE 1 = 1 '';
         filtered = AppendFilters \<lparr>Sql = sql, TextParameters = []\<rparr> query True False ftsQuery
     in (Sql filtered @ ''GROUP BY g.id, g.display_name ORDER BY g.display_name COLLATE NOCASE;'',
         BindTextParameters (TextParameters filtered)))"

section \<open>Session criteria\<close>

definition CanonicalizeValues :: "string list \<Rightarrow> bool \<Rightarrow> string list" where
  "CanonicalizeValues values doNormalize =
    remdups_adj (sort (if doNormalize then map NormalizeText values else values))"

definition BuildSessionCriteria :: "SSearchQuery \<Rightarrow> string \<Rightarrow> SCriteria" where
  "BuildSessionCriteria query ftsQuery =
    \<lparr>FtsQueryUtf8 = ftsQuery,
     CritLanguages = CanonicalizeValues (QueryLanguages query) False,
     CritGenresUtf8 = CanonicalizeValues (QueryGenresUtf8 query) True,
     CritSortBy = sort_key query,
     CritSortDirection = (case SortDirection query of None \<Rightarrow> Ascending | Some d \<Rightarrow> d)\<rparr>"

section \<open>Lemmas\<close>

lemma append_quoted_loop_eq:
  "append_quoted_loop target token = target @ concat (map (\<lambda>c. if c = dquote then [c, dquote] else [c]) token)"
  by (induction token arbitrary: target) simp_all

definition quoted_token :: "string \<Rightarrow> string" where
  "quoted_token token = [dquote] @ concat (map (\<lambda>c. if c = dquote then [c, dquote] else [c]) token) @ [dquote]"

lemma AppendQuotedFtsToken_eq: "AppendQuotedFtsToken target token = target @ quoted_token token @ [CHR ''*'']"
  by (simp add: AppendQuotedFtsToken_def append_quoted_loop_eq quoted_token_def)

lemma foldl_CollectFtsToken: "foldl CollectFtsToken acc tokens = acc @ filter (\<lambda>t. t \<noteq> []) tokens"
  by (induction tokens arbitrary: acc) (simp_all add: CollectFtsToken_def)

lemma fts_loop_eq:
  "result \<noteq> [] \<Longrightarrow>
    fts_loop scope result tokens = result @ concat (map (\<lambda>t. '' '' @ scope @ quoted_token t @ [CHR ''*'']) tokens)"
  by (induction tokens arbitrary: result) (simp_all add: AppendQuotedFtsToken_eq)

lemma fts_loop_first:
  "fts_loop scope [] (t # ts) = scope @ quoted_token t @ [CHR ''*'']
    @ concat (map (\<lambda>t. '' '' @ scope @ quoted_token t @ [CHR ''*'']) ts)"
  by (simp add: AppendQuotedFtsToken_eq fts_loop_eq)

text \<open>The reader of an FTS5 string: a doubled quote stands for one, a single quote ends it.\<close>

fun fts_read_string :: "string \<Rightarrow> string \<Rightarrow> (string \<times> string) option" where
  "fts_read_string acc [] = None"
| "fts_read_string acc (c # cs) =
    (if c \<noteq> dquote then fts_read_string (acc @ [c]) cs
     else case cs of
            [] \<Rightarrow> Some (acc, [])
          | d # ds \<Rightarrow> if d = dquote then fts_read_string (acc @ [dquote]) ds else Some (acc, cs))"

lemma fts_read_quoted:
  "rest = [] \<or> hd rest \<noteq> dquote \<Longrightarrow>
    fts_read_string acc (concat (map (\<lambda>c. if c = dquote then [c, dquote] else [c]) token) @ dquote # rest)
      = Some (acc @ token, rest)"
  by (induction token arbitrary: acc) (auto split: list.splits)

text \<open>The reader of a whole expression: scope, string and star, separated by blanks.\<close>

function fts_read_terms :: "string \<Rightarrow> string \<Rightarrow> string list option" where
  "fts_read_terms scope s =
    (if take (length scope + 1) s \<noteq> scope @ [dquote] then None
     else case fts_read_string [] (drop (length scope + 1) s) of
            None \<Rightarrow> None
          | Some (token, rest) \<Rightarrow>
              if rest = ''*'' then Some [token]
              else if take 2 rest = ''* '' \<and> length rest < length s
              then map_option (\<lambda>ts. token # ts) (fts_read_terms scope (drop 2 rest))
              else None)"
  by pat_completeness auto
termination
  by (relation "measure (\<lambda>(_, s). length s)") auto

declare fts_read_terms.simps [simp del]

lemma fts_read_terms_ok:
  "fts_read_terms scope (scope @ quoted_token t @ [CHR ''*''] @ concat (map (\<lambda>t. '' '' @ scope @ quoted_token t @ [CHR ''*'']) ts))
    = Some (t # ts)"
proof (induction ts arbitrary: t)
  case Nil
  then show ?case
    using fts_read_quoted [of "''*''" "[]" t] by (simp add: fts_read_terms.simps quoted_token_def)
next
  case (Cons u us)
  let ?more = "concat (map (\<lambda>t. '' '' @ scope @ quoted_token t @ [CHR ''*'']) (u # us))"
  have "fts_read_string [] (concat (map (\<lambda>c. if c = dquote then [c, dquote] else [c]) t) @ dquote # CHR ''*'' # ?more)
      = Some (t, CHR ''*'' # ?more)"
    using fts_read_quoted [of "CHR ''*'' # ?more" "[]" t] by simp
  with Cons.IH [of u] show ?case
    by (simp add: fts_read_terms.simps [of scope "_ @ _"] quoted_token_def)
qed

definition marks :: "string \<Rightarrow> nat" where
  "marks sql = count_list sql CHR ''?''"

lemma marks_append [simp]: "marks (a @ b) = marks a + marks b"
  by (simp add: marks_def)

lemma in_clause_marks: "marks (in_clause_loop count left sql) = marks sql + left"
  by (induction left arbitrary: sql) (simp_all add: marks_def)

lemma BuildIdInClause_marks [simp]: "marks (BuildIdInClause n) = n"
  by (simp add: BuildIdInClause_def in_clause_marks) (simp add: marks_def)

definition balanced :: "SFilteredFrom \<Rightarrow> bool" where
  "balanced f \<longleftrightarrow> marks (Sql f) = length (TextParameters f)"

lemma filters_balanced:
  "balanced f \<Longrightarrow> balanced (append_fts_filter f q)"
  "balanced f \<Longrightarrow> balanced (append_language_filter f ls)"
  "balanced f \<Longrightarrow> balanced (append_genre_filter f ls)"
  by (simp_all add: balanced_def append_fts_filter_def append_language_filter_def append_genre_filter_def)
    (simp_all add: marks_def BuildIdInClause_marks [unfolded marks_def])

lemma AppendFilters_balanced: "balanced f \<Longrightarrow> balanced (AppendFilters f q a b s)"
  by (simp add: AppendFilters_def filters_balanced Let_def)

lemma BuildFilteredFrom_marks: "marks (Sql (BuildFilteredFrom q s a b c)) = length (TextParameters (BuildFilteredFrom q s a b c))"
proof -
  have "balanced (BuildFilteredFrom q s a b c)"
    unfolding BuildFilteredFrom_def Let_def
    by (rule AppendFilters_balanced) (simp add: balanced_def marks_def search_index_join_def)
  then show ?thesis by (simp add: balanced_def)
qed

lemma AppendSort_marks: "marks (AppendSort sql q) = marks sql"
  by (simp add: AppendSort_def Let_def split: EBookSort.split) (simp add: marks_def)

lemma distinct_remdups_adj_sorted: "sorted xs \<Longrightarrow> distinct (remdups_adj xs)"
  by (induction xs rule: remdups_adj.induct) (auto simp: less_le)

lemma CanonicalizeValues_canonical:
  "sorted (CanonicalizeValues vs n) \<and> distinct (CanonicalizeValues vs n)
    \<and> set (CanonicalizeValues vs n) = (if n then NormalizeText ` set vs else set vs)"
  by (simp add: CanonicalizeValues_def sorted_remdups_adj distinct_remdups_adj_sorted)

lemma CanonicalizeValues_eq_iff:
  "CanonicalizeValues vs n = CanonicalizeValues ws n \<longleftrightarrow>
    (if n then NormalizeText ` set vs = NormalizeText ` set ws else set vs = set ws)"
  using CanonicalizeValues_canonical [of vs n] CanonicalizeValues_canonical [of ws n]
  by (metis sorted_distinct_set_unique)

end
