(* ===== verification/Time_Point.thy ===== *)
theory Time_Point
  imports Inpx_Split
begin

text \<open>
  The timestamps of the database, \<open>libs/Database/SqliteTimePoint.cpp\<close>. A time point of
  \<open>system_clock\<close>, floored to seconds, is the count of seconds since 1970; the proleptic Gregorian
  calendar of \<open>std::chrono\<close> is written out for the years from 0 on, with days counted from the first
  of January of year 0.
\<close>

section \<open>The calendar\<close>

definition is_leap :: "nat \<Rightarrow> bool" where
  "is_leap y \<longleftrightarrow> y mod 4 = 0 \<and> (y mod 100 \<noteq> 0 \<or> y mod 400 = 0)"

definition last_day :: "nat \<Rightarrow> nat \<Rightarrow> nat" where
  "last_day y m = (if m = 2 then (if is_leap y then 29 else 28) else if m \<in> {4, 6, 9, 11} then 30 else 31)"

text \<open>\<open>std::chrono::year_month_day::ok\<close>.\<close>

definition ymd_ok :: "nat \<Rightarrow> nat \<Rightarrow> nat \<Rightarrow> bool" where
  "ymd_ok y m d \<longleftrightarrow> 1 \<le> m \<and> m \<le> 12 \<and> 1 \<le> d \<and> d \<le> last_day y m"

definition days_before_year :: "nat \<Rightarrow> nat" where
  "days_before_year y = 365 * y + (y + 3) div 4 + (y + 399) div 400 - (y + 99) div 100"

fun days_before_month :: "nat \<Rightarrow> nat \<Rightarrow> nat" where
  "days_before_month y 0 = 0"
| "days_before_month y (Suc m) = (if m = 0 then 0 else days_before_month y m + last_day y m)"

definition day_number :: "nat \<Rightarrow> nat \<Rightarrow> nat \<Rightarrow> nat" where
  "day_number y m d = days_before_year y + days_before_month y m + (d - 1)"

definition epoch_day :: nat where
  "epoch_day = 719528"

text \<open>The date of a day: an estimate of the year by its mean length, corrected by at most one.\<close>

definition year_of_day :: "nat \<Rightarrow> nat" where
  "year_of_day n =
    (let e = 400 * n div 146097 in
     if n < days_before_year e then e - 1 else if n \<ge> days_before_year (e + 1) then e + 1 else e)"

fun month_of_day :: "nat \<Rightarrow> nat \<Rightarrow> nat \<Rightarrow> nat" where
  "month_of_day y r 0 = 1"
| "month_of_day y r (Suc m) = (if days_before_month y (Suc m) \<le> r then Suc m else month_of_day y r m)"

section \<open>The code\<close>

definition timestamp_error :: "string \<Rightarrow> string" where
  "timestamp_error value = ''Failed to parse sqlite timestamp: '' @ value"

definition ParseIntComponent :: "string \<Rightarrow> nat \<Rightarrow> nat \<Rightarrow> string + int" where
  "ParseIntComponent value offset len =
    (case from_chars (- (2 ^ 31)) (2 ^ 31 - 1) (take len (drop offset value)) of
       None \<Rightarrow> Inl (timestamp_error value)
     | Some (component, rest) \<Rightarrow> if rest \<noteq> [] then Inl (timestamp_error value) else Inr component)"

definition ValidateTimestampShape :: "string \<Rightarrow> bool" where
  "ValidateTimestampShape value \<longleftrightarrow>
    \<not> (length value \<noteq> 20 \<or> value ! 4 \<noteq> CHR ''-'' \<or> value ! 7 \<noteq> CHR ''-'' \<or> value ! 10 \<noteq> CHR ''T''
       \<or> value ! 13 \<noteq> CHR '':'' \<or> value ! 16 \<noteq> CHR '':'' \<or> value ! 19 \<noteq> CHR ''Z'')
    \<and> list_all (\<lambda>i. i \<in> {4, 7, 10, 13, 16, 19} \<or> digit_char (value ! i)) [0..<20]"

text \<open>The checks and the sum behind the six components.\<close>

definition time_of_parts :: "string \<Rightarrow> int \<Rightarrow> int \<Rightarrow> int \<Rightarrow> int \<Rightarrow> int \<Rightarrow> int \<Rightarrow> string + int" where
  "time_of_parts value year month day hour minute sec =
    (if \<not> ymd_ok (nat year) (nat month) (nat day)
        \<or> hour < 0 \<or> hour > 23 \<or> minute < 0 \<or> minute > 59 \<or> sec < 0 \<or> sec > 59
     then Inl (timestamp_error value)
     else Inr ((int (day_number (nat year) (nat month) (nat day)) - int epoch_day) * 86400
               + hour * 3600 + minute * 60 + sec))"

definition ParseTimePoint :: "string \<Rightarrow> string + int" where
  "ParseTimePoint value =
    (if \<not> ValidateTimestampShape value then Inl (timestamp_error value)
     else case ParseIntComponent value 0 4 of Inl e \<Rightarrow> Inl e | Inr year \<Rightarrow>
     (case ParseIntComponent value 5 2 of Inl e \<Rightarrow> Inl e | Inr month \<Rightarrow>
     (case ParseIntComponent value 8 2 of Inl e \<Rightarrow> Inl e | Inr day \<Rightarrow>
     (case ParseIntComponent value 11 2 of Inl e \<Rightarrow> Inl e | Inr hour \<Rightarrow>
     (case ParseIntComponent value 14 2 of Inl e \<Rightarrow> Inl e | Inr minute \<Rightarrow>
     (case ParseIntComponent value 17 2 of Inl e \<Rightarrow> Inl e | Inr sec \<Rightarrow>
        time_of_parts value year month day hour minute sec))))))"

fun padded :: "nat \<Rightarrow> nat \<Rightarrow> string" where
  "padded 0 n = []"
| "padded (Suc k) n = padded k (n div 10) @ [chr_of (48 + n mod 10)]"

text \<open>\<open>std::format\<close> of the time point, for the years 0 to 9999, which have four digits.\<close>

definition SerializeTimePoint :: "int \<Rightarrow> string" where
  "SerializeTimePoint t =
    (let n = nat (t div 86400 + int epoch_day);
         s = nat (t mod 86400);
         y = year_of_day n;
         r = n - days_before_year y;
         m = month_of_day y r 12
     in padded 4 y @ ''-'' @ padded 2 m @ ''-'' @ padded 2 (r - days_before_month y m + 1) @ ''T''
        @ padded 2 (s div 3600) @ '':'' @ padded 2 (s div 60 mod 60) @ '':'' @ padded 2 (s mod 60) @ ''Z'')"

section \<open>The calendar is consistent\<close>

lemma div_step: "0 < k \<Longrightarrow> (Suc n + (k - 1)) div k = (n + (k - 1)) div k + (if n mod k = 0 then 1 else 0)" for k n :: nat
proof -
  assume k: "0 < k"
  then have "Suc n + (k - 1) = n + k" by simp
  then have "(Suc n + (k - 1)) div k = n div k + 1" using k by (simp only: div_add_self2 Suc_eq_plus1)
  moreover have "(n + (k - 1)) div k = n div k + (if n mod k = 0 then 0 else 1)"
  proof -
    have "n + (k - 1) = k * (n div k) + (n mod k + (k - 1))" by simp
    then have "(n + (k - 1)) div k = n div k + (n mod k + (k - 1)) div k" using k by (metis div_mult_self4 less_numeral_extra(3))
    moreover have "(n mod k + (k - 1)) div k = (if n mod k = 0 then 0 else 1)"
      using k mod_less_divisor [OF k, of n] by (auto simp: div_if)
    ultimately show ?thesis by simp
  qed
  ultimately show ?thesis by simp
qed

lemma div_bounds: "0 < k \<Longrightarrow> k * (n div k) \<le> n \<and> n < k * (n div k) + k" for k n :: nat
  using mult_div_mod_eq [of k n] mod_less_divisor [of k n] by linarith

lemma leap_days_le: "(y + 99) div 100 \<le> y" for y :: nat
proof -
  have "100 * ((y + 99) div 100) \<le> y + 99" using div_bounds [of 100 "y + 99"] by simp
  then show ?thesis by linarith
qed

lemma days_before_year_eq:
  "days_before_year k + (k + 99) div 100 = 365 * k + (k + 3) div 4 + (k + 399) div 400"
  unfolding days_before_year_def using leap_days_le [of k] by simp

lemma year_length: "days_before_year (Suc y) = days_before_year y + (if is_leap y then 366 else 365)"
proof -
  have a: "(Suc y + 3) div 4 = (y + 3) div 4 + (if y mod 4 = 0 then 1 else 0)" using div_step [of 4 y] by simp
  have b: "(Suc y + 99) div 100 = (y + 99) div 100 + (if y mod 100 = 0 then 1 else 0)" using div_step [of 100 y] by simp
  have c: "(Suc y + 399) div 400 = (y + 399) div 400 + (if y mod 400 = 0 then 1 else 0)" using div_step [of 400 y] by simp
  have d: "y mod 400 = 0 \<Longrightarrow> y mod 100 = 0" "y mod 100 = 0 \<Longrightarrow> y mod 4 = 0"
    using dvd_trans [of 100 400 y] dvd_trans [of 4 100 y] by (simp_all add: mod_eq_0_iff_dvd)
  have leap: "(if y mod 4 = 0 then 1 else 0) + (if y mod 400 = 0 then 1 else 0)
      = (if is_leap y then 1 else 0) + (if y mod 100 = 0 then 1 else (0::nat))"
    using d by (cases "y mod 4 = 0"; cases "y mod 100 = 0"; cases "y mod 400 = 0") (simp_all add: is_leap_def)
  have len: "(if is_leap y then 366 else 365) = 365 + (if is_leap y then 1 else (0::nat))" by simp
  have lin: "D' = D + (365 + l)"
    if "D + B = 365 * y + A + C" "D' + (B + b) = 365 * Suc y + (A + a) + (C + c)" "a + c = l + b" for A B C D D' a b c l :: nat
    using that by simp
  show ?thesis
    unfolding len by (rule lin [OF days_before_year_eq days_before_year_eq [of "Suc y", unfolded a b c] leap])
qed

lemma days_before_year_mono: "y \<le> y' \<Longrightarrow> days_before_year y \<le> days_before_year y'"
  by (rule lift_Suc_mono_le [of days_before_year]) (simp_all add: year_length)

lemma days_before_year_bounds: "400 * days_before_year k \<le> 146097 * k + 1200" "146097 * k \<le> 400 * days_before_year k + 1200"
proof -
  have "4 * ((k + 3) div 4) \<le> k + 3" "k + 3 < 4 * ((k + 3) div 4) + 4" using div_bounds [of 4 "k + 3"] by simp_all
  moreover have "100 * ((k + 99) div 100) \<le> k + 99" "k + 99 < 100 * ((k + 99) div 100) + 100"
    using div_bounds [of 100 "k + 99"] by simp_all
  moreover have "400 * ((k + 399) div 400) \<le> k + 399" "k + 399 < 400 * ((k + 399) div 400) + 400"
    using div_bounds [of 400 "k + 399"] by simp_all
  moreover note days_before_year_eq [of k]
  ultimately show "400 * days_before_year k \<le> 146097 * k + 1200" "146097 * k \<le> 400 * days_before_year k + 1200"
    by linarith+
qed

lemma year_of_day_unique:
  assumes "days_before_year y \<le> n" "n < days_before_year (Suc y)"
  shows "year_of_day n = y"
proof -
  define e where "e = 400 * n div 146097"
  have e: "146097 * e \<le> 400 * n" "400 * n < 146097 * e + 146097"
    using div_bounds [of 146097 "400 * n"] by (simp_all add: e_def)
  note b = days_before_year_bounds
  have "y \<le> e + 1" using assms(1) b(2) [of y] e(2) by linarith
  moreover have "400 * n + 400 \<le> 400 * days_before_year (Suc y)" using assms(2) by linarith
  then have "146097 * e + 400 \<le> 146097 * (y + 1) + 1200" using b(1) [of "Suc y"] e(1) by simp
  then have "146097 * e < 146097 * (y + 2)" by simp
  then have "e \<le> y + 1" by simp
  ultimately consider "e = y" | "e = y + 1" | "y = e + 1" by linarith
  then show ?thesis
  proof cases
    case 1
    then show ?thesis using assms by (simp add: year_of_day_def Let_def flip: e_def)
  next
    case 2
    then show ?thesis using assms by (simp add: year_of_day_def Let_def flip: e_def)
  next
    case 3
    then have "\<not> n < days_before_year e" using assms(1) days_before_year_mono [of e y] by simp
    then show ?thesis using assms 3 by (simp add: year_of_day_def Let_def flip: e_def)
  qed
qed

lemma days_before_month_mono: "m \<le> m' \<Longrightarrow> days_before_month y m \<le> days_before_month y m'"
  by (rule lift_Suc_mono_le [of "days_before_month y"]) simp_all

lemma month_of_day_unique:
  "1 \<le> m \<Longrightarrow> m \<le> k \<Longrightarrow> days_before_month y m \<le> r \<Longrightarrow> r < days_before_month y (Suc m) \<Longrightarrow> month_of_day y r k = m"
proof (induction k)
  case (Suc k)
  show ?case
  proof (cases "m = Suc k")
    case True
    then show ?thesis using Suc.prems by simp
  next
    case False
    then have "days_before_month y (Suc m) \<le> days_before_month y (Suc k)"
      using Suc.prems(2) by (intro days_before_month_mono) simp
    then have "month_of_day y r (Suc k) = month_of_day y r k" using Suc.prems(4) by simp
    then show ?thesis using Suc False by simp
  qed
qed simp

lemma year_has_months: "days_before_month y 13 = (if is_leap y then 366 else 365)"
  by (simp add: eval_nat_numeral last_day_def)

lemma day_in_month: "ymd_ok y m d \<Longrightarrow> days_before_month y (Suc m) = days_before_month y m + last_day y m"
  by (simp add: ymd_ok_def)

lemma day_in_year:
  assumes "ymd_ok y m d"
  shows "days_before_year y \<le> day_number y m d \<and> day_number y m d < days_before_year (Suc y)"
proof -
  have "days_before_month y (Suc m) \<le> days_before_month y 13"
    using assms by (intro days_before_month_mono) (simp add: ymd_ok_def)
  moreover have "days_before_month y m + (d - 1) < days_before_month y (Suc m)"
    using assms day_in_month [OF assms] unfolding ymd_ok_def by linarith
  ultimately show ?thesis unfolding day_number_def year_length year_has_months by linarith
qed

text \<open>The date is computed back from the day, and every day has a date.\<close>

lemma date_of_day:
  assumes "ymd_ok y m d"
  defines "n \<equiv> day_number y m d"
  shows "year_of_day n = y \<and> month_of_day y (n - days_before_year y) 12 = m
    \<and> n - days_before_year y - days_before_month y m + 1 = d"
proof -
  have "year_of_day n = y" using day_in_year [OF assms(1)] by (intro year_of_day_unique) (simp_all add: n_def)
  moreover have "month_of_day y (n - days_before_year y) 12 = m"
  proof (rule month_of_day_unique)
    have r: "n - days_before_year y = days_before_month y m + (d - 1)" by (simp add: n_def day_number_def)
    show "1 \<le> m" "m \<le> 12" using assms(1) by (simp_all add: ymd_ok_def)
    show "days_before_month y m \<le> n - days_before_year y" unfolding r by simp
    show "n - days_before_year y < days_before_month y (Suc m)"
      unfolding r day_in_month [OF assms(1)] using assms(1) unfolding ymd_ok_def by linarith
  qed
  ultimately show ?thesis using assms(1) by (simp add: n_def day_number_def ymd_ok_def)
qed

lemma bracket: "f 0 \<le> n \<Longrightarrow> n < f k \<Longrightarrow> \<exists>i < k. f i \<le> n \<and> n < f (Suc i)" for f :: "nat \<Rightarrow> nat"
proof (induction k)
  case (Suc k)
  then show ?case by (cases "n < f k") (auto simp: less_Suc_eq)
qed simp

lemma day_has_date:
  assumes "n < days_before_year 10000"
  obtains y m d where "y < 10000" "ymd_ok y m d" "n = day_number y m d"
proof -
  have "days_before_year 0 \<le> n" by (simp add: days_before_year_def)
  from bracket [OF this assms] obtain y where
    y: "y < 10000" "days_before_year y \<le> n" "n < days_before_year (Suc y)" by blast
  let ?r = "n - days_before_year y"
  have "?r < days_before_month y (Suc 12)" using y(2,3) year_has_months [of y] by (simp add: year_length)
  from bracket [of "\<lambda>m. days_before_month y (Suc m)" ?r 12] this obtain m where
    m: "m < 12" "days_before_month y (Suc m) \<le> ?r" "?r < days_before_month y (Suc (Suc m))" by (auto simp del: Suc_eq_plus1)
  let ?d = "?r - days_before_month y (Suc m) + 1"
  have "ymd_ok y (Suc m) ?d" using m by (simp add: ymd_ok_def)
  moreover have "n = day_number y (Suc m) ?d" using m(2) y(2) by (simp add: day_number_def)
  ultimately show thesis using y(1) that by blast
qed

section \<open>Printed numbers\<close>

lemma length_padded [simp]: "length (padded k n) = k"
  by (induction k arbitrary: n) simp_all

lemma padded_digits: "c \<in> set (padded k n) \<Longrightarrow> digit_char c"
  by (induction k arbitrary: n) (auto simp: digit_char_def byte_of_chr_of)

lemma decimal_padded: "n < 10 ^ k \<Longrightarrow> decimal (padded k n) = int n"
proof (induction k arbitrary: n)
  case (Suc k)
  then have "n div 10 < 10 ^ k" by (simp add: less_mult_imp_div_less)
  with Suc.IH have "decimal (padded (Suc k) n) = int (n div 10) * 10 + int (n mod 10)"
    by (simp add: decimal_snoc byte_of_chr_of)
  also have "\<dots> = int (n div 10 * 10 + n mod 10)" by (simp only: of_nat_add of_nat_mult of_nat_numeral)
  finally show ?case by (simp only: div_mult_mod_eq)
qed (simp add: decimal_def)

lemma parse_padded:
  assumes "take len (drop off v) = padded len n" "n < 10 ^ len" "0 < len" "n < 10 ^ 4"
  shows "ParseIntComponent v off len = Inr (int n)"
proof -
  have ne: "padded len n \<noteq> []" using assms(3) by (metis length_padded length_greater_0_conv)
  have h: "hd (padded len n) \<noteq> CHR ''-''"
    using padded_digits [OF hd_in_set [OF ne]] by (auto simp: digit_char_def)
  have t: "takeWhile digit_char (padded len n) = padded len n" "dropWhile digit_char (padded len n) = []"
    by (auto simp: takeWhile_eq_all_conv dropWhile_eq_Nil_conv padded_digits)
  have "from_chars (- (2 ^ 31)) (2 ^ 31 - 1) (padded len n) = Some (int n, [])"
    using assms(4) ne h by (simp add: from_chars_def Let_def decimal_padded [OF assms(2)] t del: takeWhile_eq_all_conv dropWhile_eq_Nil_conv)
  then show ?thesis by (simp add: ParseIntComponent_def assms(1))
qed

lemma padded_2: "\<exists>a b. padded 2 n = [a, b] \<and> digit_char a \<and> digit_char b"
proof -
  have "length (padded 2 n) = Suc (Suc 0)" by simp
  then obtain a b where "padded 2 n = [a, b]" by (auto simp: length_Suc_conv simp del: length_padded)
  then show ?thesis using padded_digits [of _ 2 n] by simp
qed

lemma padded_4: "\<exists>a b c d. padded 4 n = [a, b, c, d] \<and> digit_char a \<and> digit_char b \<and> digit_char c \<and> digit_char d"
proof -
  have "length (padded 4 n) = Suc (Suc (Suc (Suc 0)))" by simp
  then obtain a b c d where "padded 4 n = [a, b, c, d]" by (auto simp: length_Suc_conv simp del: length_padded)
  then show ?thesis using padded_digits [of _ 4 n] by simp
qed

definition timestamp :: "nat \<Rightarrow> nat \<Rightarrow> nat \<Rightarrow> nat \<Rightarrow> nat \<Rightarrow> nat \<Rightarrow> string" where
  "timestamp y m d h i s = padded 4 y @ ''-'' @ padded 2 m @ ''-'' @ padded 2 d @ ''T'' @ padded 2 h @ '':''
     @ padded 2 i @ '':'' @ padded 2 s @ ''Z''"

lemma timestamp_shape: "ValidateTimestampShape (timestamp y m d h i s)"
proof -
  obtain a b c e where y: "padded 4 y = [a, b, c, e]" "digit_char a" "digit_char b" "digit_char c" "digit_char e"
    using padded_4 by blast
  obtain m1 m2 where m: "padded 2 m = [m1, m2]" "digit_char m1" "digit_char m2" using padded_2 by blast
  obtain d1 d2 where d: "padded 2 d = [d1, d2]" "digit_char d1" "digit_char d2" using padded_2 by blast
  obtain h1 h2 where h: "padded 2 h = [h1, h2]" "digit_char h1" "digit_char h2" using padded_2 by blast
  obtain i1 i2 where i: "padded 2 i = [i1, i2]" "digit_char i1" "digit_char i2" using padded_2 by blast
  obtain s1 s2 where s: "padded 2 s = [s1, s2]" "digit_char s1" "digit_char s2" using padded_2 by blast
  show ?thesis
    using y m d h i s by (simp add: ValidateTimestampShape_def timestamp_def upt_rec)
qed

lemma timestamp_components:
  "take 4 (drop 0 (timestamp y m d h i s)) = padded 4 y" "take 2 (drop 5 (timestamp y m d h i s)) = padded 2 m"
  "take 2 (drop 8 (timestamp y m d h i s)) = padded 2 d" "take 2 (drop 11 (timestamp y m d h i s)) = padded 2 h"
  "take 2 (drop 14 (timestamp y m d h i s)) = padded 2 i" "take 2 (drop 17 (timestamp y m d h i s)) = padded 2 s"
  by (simp_all add: timestamp_def)

lemma ymd_ok_small: "ymd_ok y m d \<Longrightarrow> m < 100 \<and> d < 100"
  by (auto simp: ymd_ok_def last_day_def split: if_splits)

lemma ParseTimePoint_timestamp:
  assumes "y < 10000" "ymd_ok y m d" "h < 24" "i < 60" "s < 60"
  shows "ParseTimePoint (timestamp y m d h i s)
    = Inr ((int (day_number y m d) - int epoch_day) * 86400 + int h * 3600 + int i * 60 + int s)"
  using assms ymd_ok_small [OF assms(2)] timestamp_shape [of y m d h i s]
  by (simp add: ParseTimePoint_def time_of_parts_def parse_padded [OF timestamp_components(1)]
      parse_padded [OF timestamp_components(2)] parse_padded [OF timestamp_components(3)]
      parse_padded [OF timestamp_components(4)] parse_padded [OF timestamp_components(5)]
      parse_padded [OF timestamp_components(6)])

lemma SerializeTimePoint_timestamp:
  assumes "ymd_ok y m d" "h < 24" "i < 60" "s < 60"
  shows "SerializeTimePoint ((int (day_number y m d) - int epoch_day) * 86400 + int h * 3600 + int i * 60 + int s)
    = timestamp y m d h i s"
proof -
  let ?k = "h * 3600 + i * 60 + s"
  let ?t = "(int (day_number y m d) - int epoch_day) * 86400 + int ?k"
  have k: "?k < 86400" using assms(2-4) by linarith
  have dm: "(a * 86400 + r) div 86400 = a" "(a * 86400 + r) mod 86400 = r" if "0 \<le> r" "r < 86400" for a r :: int
    using that by simp_all
  have b: "0 \<le> int ?k" "int ?k < 86400" using k by linarith+
  note t = dm [OF b, of "int (day_number y m d) - int epoch_day"]
  have p: "?k div 3600 = h" "?k div 60 mod 60 = i" "?k mod 60 = s"
  proof -
    have a: "?k = 3600 * h + (60 * i + s)" and b: "?k = 60 * (60 * h + i) + s" by simp_all
    show "?k div 3600 = h" unfolding a using assms(3,4) by simp
    show "?k mod 60 = s" unfolding b using assms(4) by (simp only: mod_mult_self4 mod_less)
    have "?k div 60 = 60 * h + i" unfolding b using assms(4) by simp
    then show "?k div 60 mod 60 = i" using assms(3) by simp
  qed
  have "SerializeTimePoint ?t = timestamp y m d h i s"
    unfolding SerializeTimePoint_def t Let_def timestamp_def using date_of_day [OF assms(1)] p by (simp del: of_nat_add of_nat_mult)
  then show ?thesis by (simp add: algebra_simps)
qed

lemma seconds_split:
  assumes "k < 86400"
  obtains h i s :: nat where "h < 24" "i < 60" "s < 60" "int k = int h * 3600 + int i * 60 + int s"
proof
  show "k div 60 div 60 < 24" "k div 60 mod 60 < 60" "k mod 60 < 60"
    using assms by (simp_all add: less_mult_imp_div_less)
  have "k = k div 60 div 60 * 3600 + k div 60 mod 60 * 60 + k mod 60"
    using mult_div_mod_eq [of 60 k] mult_div_mod_eq [of 60 "k div 60"] by linarith
  then have "int k = int (k div 60 div 60 * 3600 + k div 60 mod 60 * 60 + k mod 60)" by (rule arg_cong)
  then show "int k = int (k div 60 div 60) * 3600 + int (k div 60 mod 60) * 60 + int (k mod 60)"
    by (simp only: of_nat_add of_nat_mult of_nat_numeral)
qed

text \<open>Every time of the years 0 to 9999, in whole seconds, is written in the twenty-character form that
  the reader accepts, and reading it gives the time back; the reader's own checks of the shape and of
  the calendar never refuse what the writer wrote.\<close>

theorem time_point_round_trip:
  assumes "-62167219200 \<le> t" "t < 253402300800"
  shows "ParseTimePoint (SerializeTimePoint t) = Inr t \<and> length (SerializeTimePoint t) = 20"
proof -
  have t: "0 \<le> t mod 86400" "t mod 86400 < 86400" "t = 86400 * (t div 86400) + t mod 86400" by simp_all
  let ?n = "nat (t div 86400 + int epoch_day)" and ?k = "nat (t mod 86400)"
  have b: "0 \<le> t div 86400 + int epoch_day" using assms(1) t by (simp add: epoch_day_def)
  have "t div 86400 + int epoch_day < 3652425" using assms(2) t by (simp add: epoch_day_def)
  then have "?n < days_before_year 10000" by (simp add: days_before_year_def nat_less_iff)
  from day_has_date [OF this] obtain y m d where d: "y < 10000" "ymd_ok y m d" "?n = day_number y m d" .
  have "?k < 86400" using t(2) by simp
  from seconds_split [OF this] obtain h i s where
    k: "h < 24" "i < 60" "s < 60" "int ?k = int h * 3600 + int i * 60 + int s" .
  have r: "t mod 86400 = int h * 3600 + int i * 60 + int s" using t(1) k(4) by simp
  have q: "t div 86400 = int (day_number y m d) - int epoch_day" using b by (simp flip: d(3))
  have "t = (int (day_number y m d) - int epoch_day) * 86400 + int h * 3600 + int i * 60 + int s"
    using t(3) unfolding q r by simp
  then show ?thesis
    using ParseTimePoint_timestamp [OF d(1,2) k(1-3)] SerializeTimePoint_timestamp [OF d(2) k(1-3)]
    by (simp add: timestamp_def)
qed

theorem time_point_round_trip_witness:
  "SerializeTimePoint 1709208000 = timestamp 2024 2 29 12 0 0 \<and> ParseTimePoint (timestamp 2024 2 29 12 0 0) = Inr 1709208000"
proof -
  have "days_before_month 2024 2 = 31" by (simp add: numeral_2_eq_2 last_day_def)
  then have d: "day_number 2024 2 29 = 739310" by (simp add: day_number_def days_before_year_def)
  have "SerializeTimePoint 1709208000 = timestamp 2024 2 29 12 0 0"
    using SerializeTimePoint_timestamp [of 2024 2 29 12 0 0] by (simp add: d ymd_ok_def last_day_def is_leap_def epoch_day_def)
  then show ?thesis using time_point_round_trip [of 1709208000] by simp
qed

end
