(* ===== verification/Catalog_Search.thy ===== *)
theory Catalog_Search
  imports Sql_Query Time_Point Search_Sessions Sha256
begin

text \<open>
  Reading the catalog: the books behind a list of ids (\<open>ReadBooks\<close> with its three batch reads of
  \<open>SqliteEntityHelpers.cpp\<close>), the queries of a search, and \<open>SearchPage\<close>, which answers a first page
  and publishes a cursor session for the rest, or answers a continuation from such a session.

  SQLite is a parameter: \<open>open_failure\<close>, \<open>exec_failure\<close> and \<open>prepare_failure\<close> are the error messages of
  \<open>sqlite3_open_v2\<close>, \<open>sqlite3_exec\<close> and \<open>sqlite3_prepare_v2\<close>, \<open>rows_of\<close> gives all rows of a statement with
  its bound parameters or the failure of a bind or a step, and the column readers give the converted
  column of a row. One read transaction sees one state of the database, so within a request these are
  functions.
\<close>

section \<open>Books\<close>

type_synonym float64 = nat

record SBookMetadata =
  MetaTitleUtf8 :: string
  MetaAuthorsUtf8 :: "string list"
  MetaLanguage :: string
  MetaSeriesUtf8 :: "string option"
  MetaSeriesIndex :: "float64 option"
  MetaPublisherUtf8 :: "string option"
  MetaYear :: "int option"
  MetaIsbn :: "string option"
  MetaTagsUtf8 :: "string list"
  MetaGenresUtf8 :: "string list"
  MetaDescriptionUtf8 :: "string option"
  MetaIdentifier :: "string option"

record SBookFileInfo =
  InfoFormat :: EBookFormat
  InfoSizeBytes :: nat

record SBook =
  BookId :: int
  BookMetadata :: SBookMetadata
  BookFile :: SBookFileInfo
  CoverPathUtf8 :: "string option"
  AddedAtUtc :: int
  IsAvailable :: bool

record SFacetItem =
  FacetValue :: string
  FacetCount :: nat

datatype EInpxBookAvailability = Available | MissingFromIndex

definition availability_ToString :: "EInpxBookAvailability \<Rightarrow> string" where
  "availability_ToString a = (case a of Available \<Rightarrow> ''available'' | MissingFromIndex \<Rightarrow> ''missing_from_index'')"

definition IsInpxBookAvailable :: "string \<Rightarrow> bool" where
  "IsInpxBookAvailable availability \<longleftrightarrow> availability = availability_ToString Available"

section \<open>SQLite\<close>

datatype sql_failure = BindFailure sql_param string | StepFailure string

record 'row sqlite =
  open_failure :: "string option"
  exec_failure :: "string \<Rightarrow> string option"
  prepare_failure :: "string \<Rightarrow> string option"
  rows_of :: "string \<Rightarrow> sql_param list \<Rightarrow> sql_failure + 'row list"
  column_int :: "'row \<Rightarrow> nat \<Rightarrow> int"
  column_int64 :: "'row \<Rightarrow> nat \<Rightarrow> int"
  column_double :: "'row \<Rightarrow> nat \<Rightarrow> float64"
  column_text :: "'row \<Rightarrow> nat \<Rightarrow> string option"
  column_is_null :: "'row \<Rightarrow> nat \<Rightarrow> bool"

definition fail_if :: "string \<Rightarrow> string option \<Rightarrow> session_error + unit" where
  "fail_if what failure =
    (case failure of None \<Rightarrow> Inr () | Some message \<Rightarrow> Inl (SessionRuntimeError (what @ message)))"

definition Execute :: "'row sqlite \<Rightarrow> string \<Rightarrow> session_error + unit" where
  "Execute db sql = fail_if ''Failed to execute sqlite statement: '' (exec_failure db sql)"

definition CSqliteConnection :: "'row sqlite \<Rightarrow> session_error + unit" where
  "CSqliteConnection db =
    and_then (fail_if ''Failed to open sqlite database: '' (open_failure db)) (\<lambda>_.
    and_then (Execute db ''PRAGMA foreign_keys = ON;'') (\<lambda>_.
    and_then (Execute db ''PRAGMA busy_timeout = 5000;'') (\<lambda>_.
    Execute db ''PRAGMA cache_size = -32768;'')))"

datatype ESqliteTransactionMode = Immediate | Deferred

definition CSqliteTransaction :: "'row sqlite \<Rightarrow> ESqliteTransactionMode \<Rightarrow> session_error + unit" where
  "CSqliteTransaction db mode = Execute db (if mode = Immediate then ''BEGIN IMMEDIATE;'' else ''BEGIN;'')"

definition Commit :: "'row sqlite \<Rightarrow> session_error + unit" where
  "Commit db = Execute db ''COMMIT;''"

definition GetColumnText :: "'row sqlite \<Rightarrow> 'row \<Rightarrow> nat \<Rightarrow> string" where
  "GetColumnText db row index = (case column_text db row index of None \<Rightarrow> [] | Some s \<Rightarrow> s)"

definition CSqliteStatement :: "'row sqlite \<Rightarrow> string \<Rightarrow> session_error + unit" where
  "CSqliteStatement db sql = fail_if ''Failed to prepare sqlite statement: '' (prepare_failure db sql)"

definition failure_message :: "sql_failure \<Rightarrow> string" where
  "failure_message failure =
    (case failure of
       BindFailure (BindText _) message \<Rightarrow> ''Failed to bind sqlite text parameter: '' @ message
     | BindFailure (BindInt64 _) message \<Rightarrow> ''Failed to bind sqlite int64 parameter: '' @ message
     | StepFailure message \<Rightarrow> ''Failed to step sqlite statement: '' @ message)"

text \<open>Preparing a statement, binding the parameters and stepping to the end.\<close>

definition run_statement :: "'row sqlite \<Rightarrow> string \<times> sql_param list \<Rightarrow> session_error + 'row list" where
  "run_statement db statement =
    and_then (CSqliteStatement db (fst statement)) (\<lambda>_.
      case rows_of db (fst statement) (snd statement) of
        Inl failure \<Rightarrow> Inl (SessionRuntimeError (failure_message failure))
      | Inr rows \<Rightarrow> Inr rows)"

definition uint32 :: "int \<Rightarrow> nat" where
  "uint32 n = nat (n mod 2 ^ 32)"

definition uint64 :: "int \<Rightarrow> nat" where
  "uint64 n = nat (n mod 2 ^ 64)"

section \<open>Reading books\<close>

fun push_name :: "int \<Rightarrow> string \<Rightarrow> (int \<times> string list) list \<Rightarrow> (int \<times> string list) list" where
  "push_name k name [] = [(k, [name])]"
| "push_name k name ((k', names) # rest) =
    (if k' = k then (k, names @ [name]) # rest else (k', names) # push_name k name rest)"

text \<open>The template has one placeholder \<open>{}\<close>, given as the text before and behind it.\<close>

definition ReadRelatedEntityNamesBatch ::
    "'row sqlite \<Rightarrow> string \<times> string \<Rightarrow> int list \<Rightarrow> session_error + (int \<times> string list) list" where
  "ReadRelatedEntityNamesBatch db sqlTemplate bookIds =
    (if bookIds = [] then Inr []
     else and_then (run_statement db (fst sqlTemplate @ BuildIdInClause (length bookIds) @ snd sqlTemplate, map BindInt64 bookIds))
       (\<lambda>rows. Inr (foldl (\<lambda>names row. push_name (column_int64 db row 0) (GetColumnText db row 1) names) [] rows)))"

definition ReadAuthors :: "'row sqlite \<Rightarrow> int list \<Rightarrow> session_error + (int \<times> string list) list" where
  "ReadAuthors db ids = ReadRelatedEntityNamesBatch db
    (''SELECT ba.book_id, a.display_name FROM book_authors ba INNER JOIN authors a ON a.id = ba.author_id WHERE ba.book_id IN '',
     '' ORDER BY ba.book_id, ba.author_order;'') ids"

definition ReadTags :: "'row sqlite \<Rightarrow> int list \<Rightarrow> session_error + (int \<times> string list) list" where
  "ReadTags db ids = ReadRelatedEntityNamesBatch db
    (''SELECT bt.book_id, t.display_name FROM book_tags bt INNER JOIN tags t ON t.id = bt.tag_id WHERE bt.book_id IN '',
     '' ORDER BY bt.book_id, t.display_name COLLATE NOCASE;'') ids"

definition ReadGenres :: "'row sqlite \<Rightarrow> int list \<Rightarrow> session_error + (int \<times> string list) list" where
  "ReadGenres db ids = ReadRelatedEntityNamesBatch db
    (''SELECT bg.book_id, g.display_name FROM book_genres bg INNER JOIN genres g ON g.id = bg.genre_id WHERE bg.book_id IN '',
     '' ORDER BY bg.book_id, g.display_name COLLATE NOCASE;'') ids"

definition nullable :: "'row sqlite \<Rightarrow> 'row \<Rightarrow> nat \<Rightarrow> 'a \<Rightarrow> 'a option" where
  "nullable db row index x = (if column_is_null db row index then None else Some x)"

definition names_of :: "(int \<times> string list) list \<Rightarrow> int \<Rightarrow> string list" where
  "names_of names i = (case map_of names i of None \<Rightarrow> [] | Some ns \<Rightarrow> ns)"

definition read_metadata ::
    "'row sqlite \<Rightarrow> 'row \<Rightarrow> string list \<Rightarrow> string list \<Rightarrow> string list \<Rightarrow> SBookMetadata" where
  "read_metadata db row authors tags genres =
    \<lparr>MetaTitleUtf8 = GetColumnText db row 1, MetaAuthorsUtf8 = authors, MetaLanguage = GetColumnText db row 2,
     MetaSeriesUtf8 = nullable db row 3 (GetColumnText db row 3),
     MetaSeriesIndex = nullable db row 4 (column_double db row 4),
     MetaPublisherUtf8 = nullable db row 5 (GetColumnText db row 5),
     MetaYear = nullable db row 6 (column_int db row 6),
     MetaIsbn = nullable db row 7 (GetColumnText db row 7),
     MetaTagsUtf8 = tags, MetaGenresUtf8 = genres,
     MetaDescriptionUtf8 = nullable db row 8 (GetColumnText db row 8),
     MetaIdentifier = nullable db row 9 (GetColumnText db row 9)\<rparr>"

definition read_book ::
    "'row sqlite \<Rightarrow> (int \<times> string list) list \<Rightarrow> (int \<times> string list) list \<Rightarrow> (int \<times> string list) list \<Rightarrow> 'row \<Rightarrow>
     session_error + SBook" where
  "read_book db authors tags genres row =
    (case TryParseBookFormat (GetColumnText db row 12) of
       None \<Rightarrow> Inl (SessionRuntimeError ''Stored INPX book format is invalid.'')
     | Some format \<Rightarrow>
         let i = column_int64 db row 0 in
         case ParseTimePoint (GetColumnText db row 11) of
           Inl message \<Rightarrow> Inl (SessionRuntimeError message)
         | Inr added \<Rightarrow>
             Inr \<lparr>BookId = i, BookMetadata = read_metadata db row (names_of authors i) (names_of tags i) (names_of genres i),
                  BookFile = \<lparr>InfoFormat = format, InfoSizeBytes = uint64 (column_int64 db row 13)\<rparr>,
                  CoverPathUtf8 = nullable db row 10 (GetColumnText db row 10),
                  AddedAtUtc = added, IsAvailable = IsInpxBookAvailable (GetColumnText db row 14)\<rparr>)"

text \<open>The map of the books by id: \<open>emplace\<close> keeps an entry that is already there.\<close>

fun collect_books ::
    "'row sqlite \<Rightarrow> (int \<times> string list) list \<Rightarrow> (int \<times> string list) list \<Rightarrow> (int \<times> string list) list \<Rightarrow>
     (int \<times> SBook) list \<Rightarrow> 'row list \<Rightarrow> session_error + (int \<times> SBook) list" where
  "collect_books db authors tags genres byId [] = Inr byId"
| "collect_books db authors tags genres byId (row # rows) =
    and_then (read_book db authors tags genres row) (\<lambda>book.
      collect_books db authors tags genres
        (if map_of byId (BookId book) = None then byId @ [(BookId book, book)] else byId) rows)"

definition read_books_sql :: "nat \<Rightarrow> string" where
  "read_books_sql count =
    ''SELECT b.id, b.title, b.language, b.series, b.series_index, b.publisher, b.year, ''
    @ ''b.isbn, b.description, b.identifier, b.cover_path, b.added_at_utc, ''
    @ ''l.format, l.file_size_bytes, l.availability FROM inpx_books b ''
    @ ''INNER JOIN inpx_book_locations l ON l.book_id = b.id WHERE b.id IN '' @ BuildIdInClause count @ '';''"

text \<open>The ids are keys of one table and so distinct: the move out of the map happens once per id.\<close>

definition ReadBooks :: "'row sqlite \<Rightarrow> int list \<Rightarrow> session_error + SBook list" where
  "ReadBooks db ids =
    (if ids = [] then Inr []
     else and_then (ReadAuthors db ids) (\<lambda>authors.
          and_then (ReadTags db ids) (\<lambda>tags.
          and_then (ReadGenres db ids) (\<lambda>genres.
          and_then (run_statement db (read_books_sql (length ids), map BindInt64 ids)) (\<lambda>rows.
          and_then (collect_books db authors tags genres [] rows) (\<lambda>byId.
          Inr (List.map_filter (map_of byId) ids)))))))"

section \<open>Searching\<close>

definition row_ids :: "'row sqlite \<Rightarrow> 'row list \<Rightarrow> int list" where
  "row_ids db rows = map (\<lambda>row. column_int64 db row 0) rows"

definition SearchBooks :: "'row sqlite \<Rightarrow> SSearchQuery \<Rightarrow> string \<Rightarrow> session_error + SBook list" where
  "SearchBooks db query ftsQuery =
    (let statement = search_books_statement query ftsQuery in
     and_then (CSqliteStatement db (fst statement)) (\<lambda>_.
     and_then (ToSqlitePaginationValue (Limit query) ''Search limit'') (\<lambda>lim.
     and_then (ToSqlitePaginationValue (Offset query) ''Search offset'') (\<lambda>off.
     and_then (run_statement db (fst statement, snd statement @ [BindInt64 lim, BindInt64 off])) (\<lambda>rows.
     ReadBooks db (row_ids db rows))))))"

definition SearchBookIds :: "'row sqlite \<Rightarrow> SSearchQuery \<Rightarrow> string \<Rightarrow> nat \<Rightarrow> session_error + int list" where
  "SearchBookIds db query ftsQuery expectedCount =
    and_then (run_statement db (search_ids_statement query ftsQuery)) (\<lambda>rows.
      let ids = row_ids db rows in
      if length ids \<noteq> expectedCount
      then Inl (SessionRuntimeError ''Catalog search count changed inside one read transaction.'')
      else Inr ids)"

definition CountSearchResults :: "'row sqlite \<Rightarrow> SSearchQuery \<Rightarrow> string \<Rightarrow> session_error + nat" where
  "CountSearchResults db query ftsQuery =
    and_then (run_statement db (count_statement query ftsQuery)) (\<lambda>rows.
      Inr (case rows of [] \<Rightarrow> 0 | row # _ \<Rightarrow> uint64 (column_int64 db row 0)))"

definition facet_rows :: "'row sqlite \<Rightarrow> 'row list \<Rightarrow> SFacetItem list" where
  "facet_rows db rows =
    map (\<lambda>row. \<lparr>FacetValue = GetColumnText db row 0, FacetCount = uint32 (column_int64 db row 1)\<rparr>) rows"

definition ListAvailableLanguages :: "'row sqlite \<Rightarrow> SSearchQuery \<Rightarrow> string \<Rightarrow> session_error + SFacetItem list" where
  "ListAvailableLanguages db query ftsQuery =
    and_then (run_statement db (languages_statement query ftsQuery)) (\<lambda>rows. Inr (facet_rows db rows))"

definition ListAvailableGenres :: "'row sqlite \<Rightarrow> SSearchQuery \<Rightarrow> string \<Rightarrow> session_error + SFacetItem list" where
  "ListAvailableGenres db query ftsQuery =
    and_then (run_statement db (genres_statement query ftsQuery)) (\<lambda>rows. Inr (facet_rows db rows))"

definition ReadCatalogIdentity :: "'row sqlite \<Rightarrow> session_error + SCatalogIdentity" where
  "ReadCatalogIdentity db =
    and_then (run_statement db (''SELECT source_fingerprint, last_seen_snapshot_id FROM inpx_sources WHERE id = 1;'', []))
      (\<lambda>rows. case rows of
         [] \<Rightarrow> Inl (SessionRuntimeError ''INPX cache source metadata is missing.'')
       | row # _ \<Rightarrow> Inr \<lparr>IdSourceFingerprintUtf8 = GetColumnText db row 0,
                       IdSnapshotIdUtf8 = (if column_is_null db row 1 then [] else GetColumnText db row 1)\<rparr>)"

section \<open>One page\<close>

record SSearchPage =
  PageBooks :: "SBook list"
  TotalCount :: "nat option"
  AvailableLanguages :: "SFacetItem list"
  AvailableGenres :: "SFacetItem list"
  PageSourceFingerprintUtf8 :: string
  PageCatalogSnapshotIdUtf8 :: string
  NextCursor :: "SSearchCursor option"

text \<open>
  What a request meets besides its read transaction: the identity that a second connection reads (or
  the error it meets) when the ids are reserved, when the session is published and when it is
  validated afterwards, the clock at these calls, and the sixteen random bytes of the session id.
\<close>

record search_env =
  ReserveIdentity :: "session_error + SCatalogIdentity"
  ReserveNow :: int
  RandomBytes :: "session_error + nat list"
  PublishIdentity :: "session_error + SCatalogIdentity"
  PublishNow :: int
  ValidateIdentity :: "session_error + SCatalogIdentity"

definition MakeUnpredictableSessionId :: "nat list \<Rightarrow> string" where
  "MakeUnpredictableSessionId bytes =
    concat (map (\<lambda>byte. [hexDigits ! drop_bit 4 byte, hexDigits ! (byte AND 0x0F)]) bytes)"

definition continuation_page ::
    "'row sqlite \<Rightarrow> SSearchSessionState \<Rightarrow> int \<Rightarrow> SSearchQuery \<Rightarrow> SCriteria \<Rightarrow> SCatalogIdentity \<Rightarrow> SSearchPage outcome" where
  "continuation_page db st now query criteria identity =
    (case ReadSearchSessionSlice st now query criteria identity of
       (Inl e, st') \<Rightarrow> (Inl e, st')
     | (Inr slice, st') \<Rightarrow>
         (and_then (ReadBooks db (SliceIds slice)) (\<lambda>books.
            if length books \<noteq> length (SliceIds slice)
            then Inl (CDomainException IntegrityIssue ''A catalog cursor referenced missing book rows.'')
            else and_then (Commit db) (\<lambda>_.
              Inr \<lparr>PageBooks = books, TotalCount = None, AvailableLanguages = [], AvailableGenres = [],
                      PageSourceFingerprintUtf8 = IdSourceFingerprintUtf8 identity,
                      PageCatalogSnapshotIdUtf8 = IdSnapshotIdUtf8 identity, NextCursor = SliceNextCursor slice\<rparr>)),
          st'))"

text \<open>The body of the \<open>try\<close>: the ids and the books of the first page, still inside the transaction.\<close>

definition materialize ::
    "'row sqlite \<Rightarrow> SSearchQuery \<Rightarrow> string \<Rightarrow> nat \<Rightarrow> nat \<Rightarrow> nat \<Rightarrow> session_error + int list \<times> SBook list" where
  "materialize db query ftsQuery totalSize pageStart pageEnd =
    and_then (SearchBookIds db query ftsQuery totalSize) (\<lambda>ids.
      let pageIds = take (pageEnd - pageStart) (drop pageStart ids) in
      and_then (ReadBooks db pageIds) (\<lambda>books.
        if length books \<noteq> length pageIds
        then Inl (CDomainException IntegrityIssue ''A materialized catalog cursor referenced missing book rows.'')
        else and_then (Commit db) (\<lambda>_. Inr (ids, books))))"

text \<open>The publication with what precedes the lock, and the second read of the identity.\<close>

definition publish_with_env ::
    "search_env \<Rightarrow> SSearchSessionState \<Rightarrow> int list \<Rightarrow> SCriteria \<Rightarrow> SCatalogIdentity \<Rightarrow> nat \<Rightarrow> SSearchSessionReservation \<Rightarrow>
     SSearchCursor outcome" where
  "publish_with_env env st ids criteria identity pageEnd reservation =
    (case RandomBytes env of Inl e \<Rightarrow> (Inl e, st) | Inr bytes \<Rightarrow>
    (case PublishIdentity env of Inl e \<Rightarrow> (Inl e, st) | Inr current \<Rightarrow>
      PublishSearchSession st current (PublishNow env) (MakeUnpredictableSessionId bytes) ids criteria identity pageEnd
        reservation))"

definition validate_with_env :: "search_env \<Rightarrow> SCatalogIdentity \<Rightarrow> session_error + unit" where
  "validate_with_env env identity =
    and_then (ValidateIdentity env) (\<lambda>current. ValidateCurrentCatalogIdentity current identity)"

text \<open>From the reservation on: publish, validate, and on any failure remove or release.\<close>

definition publish_page ::
    "search_env \<Rightarrow> SSearchSessionState \<Rightarrow> SCriteria \<Rightarrow> SCatalogIdentity \<Rightarrow> nat \<Rightarrow> SSearchSessionReservation \<Rightarrow>
     session_error + int list \<times> SBook list \<Rightarrow> (SBook list \<times> SSearchCursor) outcome" where
  "publish_page env st criteria identity pageEnd reservation materialized =
    (case materialized of
       Inl e \<Rightarrow> (Inl e, snd (ReleaseSearchSessionReservation st reservation))
     | Inr (ids, books) \<Rightarrow>
         (case publish_with_env env st ids criteria identity pageEnd reservation of
            (Inl e, st') \<Rightarrow> (Inl e, snd (ReleaseSearchSessionReservation st' reservation))
          | (Inr cursor, st') \<Rightarrow>
              (case validate_with_env env identity of
                 Inl e \<Rightarrow> (Inl e, snd (RemoveSearchSession st' (SessionIdUtf8 cursor)))
               | Inr _ \<Rightarrow> (Inr (books, cursor), st'))))"

definition reserve_with_env :: "search_env \<Rightarrow> SSearchSessionState \<Rightarrow> SCatalogIdentity \<Rightarrow> nat \<Rightarrow> SSearchSessionReservation outcome" where
  "reserve_with_env env st identity totalSize =
    (case ReserveIdentity env of Inl e \<Rightarrow> (Inl e, st) | Inr current \<Rightarrow>
      ReserveSearchSessionIds st current (ReserveNow env) identity totalSize)"

text \<open>The part of \<open>SearchPage\<close> without a cursor, after the counting.\<close>

definition first_page ::
    "'row sqlite \<Rightarrow> search_env \<Rightarrow> SSearchSessionState \<Rightarrow> SSearchQuery \<Rightarrow> string \<Rightarrow> SCriteria \<Rightarrow> SCatalogIdentity \<Rightarrow>
     nat \<Rightarrow> SSearchPage \<Rightarrow> SSearchPage outcome" where
  "first_page db env st query ftsQuery criteria identity totalSize result =
    (let pageStart = min (Offset query) totalSize;
         pageLength = min (Limit query) (totalSize - pageStart);
         pageEnd = pageStart + pageLength in
     if pageEnd \<ge> totalSize
     then (and_then (SearchBooks db query ftsQuery) (\<lambda>books.
             and_then (Commit db) (\<lambda>_. Inr (result\<lparr>PageBooks := books\<rparr>))), st)
     else case reserve_with_env env st identity totalSize of
       (Inl e, st1) \<Rightarrow> (Inl e, st1)
     | (Inr reservation, st1) \<Rightarrow>
         (case publish_page env st1 criteria identity pageEnd reservation
                 (materialize db query ftsQuery totalSize pageStart pageEnd) of
            (Inl e, st2) \<Rightarrow> (Inl e, st2)
          | (Inr (books, cursor), st2) \<Rightarrow> (Inr (result\<lparr>PageBooks := books, NextCursor := Some cursor\<rparr>), st2)))"

definition facets_if :: "bool \<Rightarrow> session_error + SFacetItem list \<Rightarrow> session_error + SFacetItem list" where
  "facets_if include facets = (if include then facets else Inr [])"

definition count_and_facets ::
    "'row sqlite \<Rightarrow> SSearchQuery \<Rightarrow> string \<Rightarrow> SCatalogIdentity \<Rightarrow> bool \<Rightarrow> bool \<Rightarrow> session_error + nat \<times> SSearchPage" where
  "count_and_facets db query ftsQuery identity includeLanguageFacets includeGenreFacets =
    and_then (CountSearchResults db query ftsQuery) (\<lambda>totalCount.
    if totalCount > size_max
    then Inl (CDomainException CatalogCursorCapacityExceeded ''The catalog result cannot be represented by this server.'')
    else
    and_then (facets_if includeLanguageFacets (ListAvailableLanguages db (query\<lparr>QueryLanguages := []\<rparr>) ftsQuery)) (\<lambda>languages.
    and_then (facets_if includeGenreFacets (ListAvailableGenres db (query\<lparr>QueryGenresUtf8 := []\<rparr>) ftsQuery)) (\<lambda>genres.
    Inr (totalCount, \<lparr>PageBooks = [], TotalCount = Some totalCount, AvailableLanguages = languages, AvailableGenres = genres,
      PageSourceFingerprintUtf8 = IdSourceFingerprintUtf8 identity, PageCatalogSnapshotIdUtf8 = IdSnapshotIdUtf8 identity,
      NextCursor = None\<rparr>))))"

text \<open>The connection and the deferred transaction of a reader.\<close>

definition open_transaction :: "'row sqlite \<Rightarrow> session_error + unit" where
  "open_transaction db = and_then (CSqliteConnection db) (\<lambda>_. CSqliteTransaction db Deferred)"

definition SearchPage ::
    "'row sqlite \<Rightarrow> fts_tokenizer \<Rightarrow> search_env \<Rightarrow> SSearchSessionState \<Rightarrow> SSearchQuery \<Rightarrow> bool \<Rightarrow> bool \<Rightarrow> SSearchPage outcome" where
  "SearchPage db tokenizer env st query includeLanguageFacets includeGenreFacets =
    (case open_transaction db of Inl e \<Rightarrow> (Inl e, st) | Inr _ \<Rightarrow>
    (case ReadCatalogIdentity db of Inl e \<Rightarrow> (Inl e, st) | Inr identity \<Rightarrow>
    (case BuildFtsQuery tokenizer query of Inl e \<Rightarrow> (Inl e, st) | Inr ftsQuery \<Rightarrow>
      let criteria = BuildSessionCriteria query ftsQuery in
      if Cursor query \<noteq> None then continuation_page db st (ReserveNow env) query criteria identity
      else case count_and_facets db query ftsQuery identity includeLanguageFacets includeGenreFacets of
             Inl e \<Rightarrow> (Inl e, st)
           | Inr (totalSize, result) \<Rightarrow> first_page db env st query ftsQuery criteria identity totalSize result)))"

definition Search :: "'row sqlite \<Rightarrow> fts_tokenizer \<Rightarrow> SSearchQuery \<Rightarrow> session_error + SBook list" where
  "Search db tokenizer query =
    and_then (open_transaction db) (\<lambda>_.
    and_then (BuildFtsQuery tokenizer query) (\<lambda>ftsQuery.
    and_then (SearchBooks db query ftsQuery) (\<lambda>result.
    and_then (Commit db) (\<lambda>_. Inr result))))"

definition GetById :: "'row sqlite \<Rightarrow> int \<Rightarrow> session_error + SBook option" where
  "GetById db i =
    and_then (open_transaction db) (\<lambda>_.
    and_then (ReadBooks db [i]) (\<lambda>books.
    and_then (Commit db) (\<lambda>_.
    Inr (case books of [] \<Rightarrow> None | b # _ \<Rightarrow> Some b))))"

definition repository_CountSearchResults :: "'row sqlite \<Rightarrow> fts_tokenizer \<Rightarrow> SSearchQuery \<Rightarrow> session_error + nat" where
  "repository_CountSearchResults db tokenizer query =
    and_then (CSqliteConnection db) (\<lambda>_. and_then (BuildFtsQuery tokenizer query) (CountSearchResults db query))"

definition repository_ListAvailableLanguages ::
    "'row sqlite \<Rightarrow> fts_tokenizer \<Rightarrow> SSearchQuery \<Rightarrow> session_error + SFacetItem list" where
  "repository_ListAvailableLanguages db tokenizer query =
    and_then (CSqliteConnection db) (\<lambda>_. and_then (BuildFtsQuery tokenizer query) (ListAvailableLanguages db query))"

definition repository_ListAvailableGenres ::
    "'row sqlite \<Rightarrow> fts_tokenizer \<Rightarrow> SSearchQuery \<Rightarrow> session_error + SFacetItem list" where
  "repository_ListAvailableGenres db tokenizer query =
    and_then (CSqliteConnection db) (\<lambda>_. and_then (BuildFtsQuery tokenizer query) (ListAvailableGenres db query))"

text \<open>The read of the identity over a connection of its own, as \<open>search_env\<close> records it.\<close>

definition ReadCurrentCatalogIdentity :: "'row sqlite \<Rightarrow> session_error + SCatalogIdentity" where
  "ReadCurrentCatalogIdentity db = and_then (CSqliteConnection db) (\<lambda>_. ReadCatalogIdentity db)"

definition CSqliteBookQueryRepository :: "nat \<Rightarrow> session_error + SSearchSessionState" where
  "CSqliteBookQueryRepository searchSessionMemoryBudgetBytes =
    and_then (ResolveSearchSessionIdCapacity searchSessionMemoryBudgetBytes) (\<lambda>capacity. Inr (new_state capacity))"

end
