(* ===== verification/Search_Paging.thy ===== *)
theory Search_Paging
  imports Search_Session_Properties Catalog_Search
begin

text \<open>
  Paging over the cursor sessions: reading slices one after the other gives the materialised ids,
  expired sessions are refused, eviction takes the least recently used session and a result that fits
  beside the reservations of others is always admitted.
\<close>

section \<open>Slices\<close>

lemma touch_lookup:
  "map_of (Sessions (touch st i now)) i = map_option (\<lambda>s. s\<lparr>LastAccess := now\<rparr>) (map_of (Sessions st) i)"
proof -
  have "map_of (map (\<lambda>(k, s). if k = i then (k, s\<lparr>LastAccess := now\<rparr>) else (k, s)) es) i
      = map_option (\<lambda>s. s\<lparr>LastAccess := now\<rparr>) (map_of es i)" for es :: "(string \<times> SSession) list"
    by (induction es) auto
  then show ?thesis by (simp add: touch_def)
qed

lemma map_of_filter_snd:
  "distinct (map fst es) \<Longrightarrow> map_of es i = Some s \<Longrightarrow> P s \<Longrightarrow> map_of (filter (\<lambda>e. P (snd e)) es) i = Some s"
  by (induction es) (auto dest: map_of_SomeD)

text \<open>A read of a live session with a matching cursor: the slice, and the session touched.\<close>

lemma read_slice_exact:
  assumes inv: "session_inv st" and live: "map_of (Sessions st) (SessionIdUtf8 c) = Some s" "\<not> expired now s"
    and cur: "Cursor q = Some c" "cursor_IsValid c" "SourceFingerprintUtf8 c = IdSourceFingerprintUtf8 identity"
      "CatalogSnapshotIdUtf8 c = IdSnapshotIdUtf8 identity"
    and ses: "session_identity s = identity" "Criteria s = cr"
      "FirstContinuationPosition s \<le> Position c" "Position c < length (BookIds s)"
  obtains st' where "ReadSearchSessionSlice st now q cr identity = (Inr (session_slice c (Limit q) s), st')"
    "session_inv st'" "map_of (Sessions st') (SessionIdUtf8 c) = Some (s\<lparr>LastAccess := now\<rparr>)"
proof -
  have a: "acct st" using inv by (simp add: session_inv_def)
  from Purge_ok [OF a, of now] obtain st1 where
    p: "PurgeSessionsLocked st now = Some st1" "dropped st (\<lambda>e. \<not> expired now (snd e)) st1" by blast
  have s1: "map_of (Sessions st1) (SessionIdUtf8 c) = Some s"
    using p(2) a map_of_filter_snd [OF _ live(1), of "\<lambda>s. \<not> expired now s"] live(2) by (simp add: dropped_def acct_def)
  have same: "SesSourceFingerprintUtf8 s = IdSourceFingerprintUtf8 identity" "SesCatalogSnapshotIdUtf8 s = IdSnapshotIdUtf8 identity"
    using ses(1) by (auto simp: session_identity_def)
  have r: "ReadSearchSessionSlice st now q cr identity = (Inr (session_slice c (Limit q) s), touch st1 (SessionIdUtf8 c) now)"
    using cur ses(2-4) p(1) s1 same by (simp add: ReadSearchSessionSlice_def read_slice_locked_def)
  from ReadSlice_ok [OF inv r] have "session_inv (touch st1 (SessionIdUtf8 c) now)" by (simp add: keeps_def)
  moreover have "map_of (Sessions (touch st1 (SessionIdUtf8 c) now)) (SessionIdUtf8 c) = Some (s\<lparr>LastAccess := now\<rparr>)"
    by (simp add: touch_lookup s1)
  ultimately show thesis using r by (intro that)
qed

text \<open>A client that reads page after page, at the given times, until there is no next cursor.\<close>

fun follow_pages ::
    "SSearchSessionState \<Rightarrow> int list \<Rightarrow> SSearchQuery \<Rightarrow> SCriteria \<Rightarrow> SCatalogIdentity \<Rightarrow> SSearchCursor option \<Rightarrow>
     session_error + int list list \<times> SSearchCursor option" where
  "follow_pages st ts q cr identity None = Inr ([], None)"
| "follow_pages st [] q cr identity (Some c) = Inr ([], Some c)"
| "follow_pages st (now # ts) q cr identity (Some c) =
    (case ReadSearchSessionSlice st now (q\<lparr>Cursor := Some c\<rparr>) cr identity of
       (Inl e, st') \<Rightarrow> Inl e
     | (Inr slice, st') \<Rightarrow>
         (case follow_pages st' ts q cr identity (SliceNextCursor slice) of
            Inl e \<Rightarrow> Inl e
          | Inr (pages, c') \<Rightarrow> Inr (SliceIds slice # pages, c')))"

definition cursor_of :: "SSearchCursor \<Rightarrow> SSession \<Rightarrow> SCatalogIdentity \<Rightarrow> SCriteria \<Rightarrow> bool" where
  "cursor_of c s identity cr \<longleftrightarrow>
    cursor_IsValid c \<and> SourceFingerprintUtf8 c = IdSourceFingerprintUtf8 identity
    \<and> CatalogSnapshotIdUtf8 c = IdSnapshotIdUtf8 identity \<and> session_identity s = identity \<and> Criteria s = cr
    \<and> FirstContinuationPosition s \<le> Position c \<and> Position c < length (BookIds s)"

lemma cursor_of_touched [simp]: "cursor_of c (s\<lparr>LastAccess := t\<rparr>) identity cr = cursor_of c s identity cr"
  by (simp add: cursor_of_def session_identity_def)

lemma follow_pages_all:
  "session_inv st \<Longrightarrow> map_of (Sessions st) (SessionIdUtf8 c) = Some s \<Longrightarrow> cursor_of c s identity cr \<Longrightarrow>
    successively (\<lambda>a b. b - a < GSearchSessionTtl) (LastAccess s # ts) \<Longrightarrow> 0 < Limit q \<Longrightarrow>
    length (BookIds s) - Position c \<le> length ts * Limit q \<Longrightarrow>
    \<exists>pages. follow_pages st ts q cr identity (Some c) = Inr (pages, None) \<and> concat pages = drop (Position c) (BookIds s)
      \<and> list_all (\<lambda>p. length p = Limit q) (butlast pages)"
proof (induction ts arbitrary: st c s)
  case Nil
  then show ?case by (simp add: cursor_of_def)
next
  case (Cons now ts)
  let ?n = "min (Limit q) (length (BookIds s) - Position c)" and ?s = "s\<lparr>LastAccess := now\<rparr>"
  have live: "\<not> expired now s" using Cons.prems(4) by (simp add: expired_def)
  obtain st' where r: "ReadSearchSessionSlice st now (q\<lparr>Cursor := Some c\<rparr>) cr identity = (Inr (session_slice c (Limit q) s), st')"
    and i': "session_inv st'" "map_of (Sessions st') (SessionIdUtf8 c) = Some ?s"
    by (rule read_slice_exact [OF Cons.prems(1,2) live, of "q\<lparr>Cursor := Some c\<rparr>" identity cr])
      (use Cons.prems(3) in \<open>simp_all add: cursor_of_def\<close>)
  have ids: "SliceIds (session_slice c (Limit q) s) = take ?n (drop (Position c) (BookIds s))"
    by (simp add: session_slice_def Let_def)
  show ?case
  proof (cases "Position c + ?n < length (BookIds s)")
    case False
    then have next': "SliceNextCursor (session_slice c (Limit q) s) = None" by (simp add: session_slice_def Let_def)
    have "length (BookIds s) - Position c \<le> ?n" using False by linarith
    then show ?thesis using r ids next' by simp
  next
    case True
    let ?c = "c\<lparr>Position := Position c + ?n\<rparr>"
    have n: "?n = Limit q" using True by linarith
    have next': "SliceNextCursor (session_slice c (Limit q) s) = Some ?c" using True by (simp add: session_slice_def Let_def)
    have c: "cursor_of ?c ?s identity cr" 
      using Cons.prems(3) True by (auto simp: cursor_of_def cursor_IsValid_def session_identity_def)
    have su: "successively (\<lambda>a b. b - a < GSearchSessionTtl) (LastAccess ?s # ts)"
      using Cons.prems(4) by (cases ts) simp_all
    have left: "length (BookIds ?s) - Position ?c \<le> length ts * Limit q" using Cons.prems(6) n by simp
    have lk: "map_of (Sessions st') (SessionIdUtf8 ?c) = Some ?s" using i'(2) by simp
    from Cons.IH [OF i'(1) lk c su Cons.prems(5) left] obtain pages where
      p: "follow_pages st' ts q cr identity (Some ?c) = Inr (pages, None)"
        "concat pages = drop (Position ?c) (BookIds s)" "list_all (\<lambda>p. length p = Limit q) (butlast pages)" by auto
    have "take ?n (drop (Position c) (BookIds s)) @ drop (Position c + ?n) (BookIds s) = drop (Position c) (BookIds s)"
      using append_take_drop_id [of ?n "drop (Position c) (BookIds s)"] by (simp only: drop_drop add.commute)
    moreover have "length (take ?n (drop (Position c) (BookIds s))) = Limit q" using n True by simp
    ultimately show ?thesis using r ids next' p by simp
  qed
qed

text \<open>C5: A published session serves its cursor completely: reading page after page with a positive
  limit, each read less than the time to live after the one before, and with enough reads, ends without
  an error and without a next cursor, the pages put together are exactly the ids behind the first page,
  and every page but the last is full.\<close>

theorem published_pages_complete:
  assumes "session_inv st" "token_ok st tok"
    and "PublishSearchSession st current t0 sid ids cr identity pos tok = (Inr c, st')"
    and "sid \<noteq> []" "IdSourceFingerprintUtf8 identity \<noteq> []" "IdSnapshotIdUtf8 identity \<noteq> []" "0 < pos" "pos < length ids"
    and "0 < Limit q" "successively (\<lambda>a b. b - a < GSearchSessionTtl) (t0 # ts)" "length ids - pos \<le> length ts * Limit q"
  shows "\<exists>pages. follow_pages st' ts q cr identity (Some c) = Inr (pages, None) \<and> concat pages = drop pos ids
    \<and> list_all (\<lambda>p. length p = Limit q) (butlast pages)"
proof -
  let ?s = "published_session ids cr identity pos t0"
  from Publish_ok [OF assms(1-3)]
  have p: "c = published_cursor sid identity pos" "map_of (Sessions st') sid = Some ?s" "session_inv st'"
    by (simp_all add: publish_post_def keeps_def)
  have c: "cursor_of c ?s identity cr"
    using assms(4-8) p(1) by (simp add: cursor_of_def cursor_IsValid_def published_cursor_def published_session_def session_identity_def)
  have "map_of (Sessions st') (SessionIdUtf8 c) = Some ?s" "Position c = pos" "BookIds ?s = ids" "LastAccess ?s = t0"
    using p by (simp_all add: published_cursor_def published_session_def)
  with follow_pages_all [OF p(3) _ c, of ts q] assms(9-11) show ?thesis by simp
qed

definition demo_query :: SSearchQuery where
  "demo_query = \<lparr>TextUtf8 = [], SearchFields = \<lparr>ScopeTitle = True, ScopeAuthors = True, ScopeDescription = True\<rparr>,
     QueryLanguages = [], QueryGenresUtf8 = [], SortBy = None, SortDirection = None, Offset = 0, Limit = 1, Cursor = None\<rparr>"

theorem published_pages_complete_witness:
  "\<exists>pages. follow_pages demo_published [6, 7] demo_query demo_criteria demo_identity
      (Some (published_cursor ''sid'' demo_identity 1)) = Inr (pages, None) \<and> concat pages = [12, 13]"
  using published_pages_complete [OF _ _ demo_PublishSearchSession, of demo_query "[6, 7]"] demo_reserved_inv
  by (auto simp: demo_identity_def demo_query_def GSearchSessionTtl_def)

section \<open>Expiry and eviction\<close>

text \<open>A valid cursor of the current catalog whose session is gone or was not read for ten minutes is
  answered with the error that tells the client to restart, and that read itself drops every session
  that has expired.\<close>

theorem expired_cursor_refused:
  assumes "session_inv st" "Cursor q = Some c" "cursor_IsValid c"
    and "SourceFingerprintUtf8 c = IdSourceFingerprintUtf8 identity" "CatalogSnapshotIdUtf8 c = IdSnapshotIdUtf8 identity"
    and "\<forall>s. map_of (Sessions st) (SessionIdUtf8 c) = Some s \<longrightarrow> now - LastAccess s \<ge> GSearchSessionTtl"
  shows "\<exists>st'. ReadSearchSessionSlice st now q cr identity
      = (Inl (CDomainException CatalogCursorExpired ''The catalog cursor expired; restart pagination from the first page.''), st')
    \<and> Sessions st' = filter (\<lambda>e. now - LastAccess (snd e) < GSearchSessionTtl) (Sessions st)"
proof -
  have a: "acct st" using assms(1) by (simp add: session_inv_def)
  from Purge_ok [OF a, of now] obtain st1 where
    p: "PurgeSessionsLocked st now = Some st1" "dropped st (\<lambda>e. \<not> expired now (snd e)) st1" by blast
  have s1: "Sessions st1 = filter (\<lambda>e. now - LastAccess (snd e) < GSearchSessionTtl) (Sessions st)"
    using p(2) by (simp add: dropped_def expired_def not_le)
  have "map_of (Sessions st1) (SessionIdUtf8 c) = None"
  proof (rule ccontr)
    assume "map_of (Sessions st1) (SessionIdUtf8 c) \<noteq> None"
    then obtain s where "(SessionIdUtf8 c, s) \<in> set (Sessions st1)" by (auto dest: map_of_SomeD)
    then have s: "(SessionIdUtf8 c, s) \<in> set (Sessions st)" "now - LastAccess s < GSearchSessionTtl" using s1 by simp_all
    then have "map_of (Sessions st) (SessionIdUtf8 c) = Some s" using a by (simp add: acct_def map_of_is_SomeI)
    then show False using assms(6) s(2) by fastforce
  qed
  then show ?thesis
    using assms(2-5) p(1) s1 by (simp add: ReadSearchSessionSlice_def read_slice_locked_def)
qed

theorem expired_cursor_refused_witness:
  "\<exists>st'. ReadSearchSessionSlice (new_state 8) 0 (demo_query\<lparr>Cursor := Some (published_cursor ''sid'' demo_identity 1)\<rparr>)
      demo_criteria demo_identity
    = (Inl (CDomainException CatalogCursorExpired ''The catalog cursor expired; restart pagination from the first page.''), st')"
  using expired_cursor_refused [OF new_state_inv, of "demo_query\<lparr>Cursor := Some (published_cursor ''sid'' demo_identity 1)\<rparr>"
      "published_cursor ''sid'' demo_identity 1" demo_identity 8 0 demo_criteria]
  by (auto simp: new_state_def cursor_IsValid_def published_cursor_def demo_identity_def)

lemma least_recent_least:
  "least_recent es = Some e \<Longrightarrow> x \<in> set es \<Longrightarrow> LastAccess (snd e) \<le> LastAccess (snd x)"
  by (induction es arbitrary: e) (auto simp: least_recent_ne split: option.splits if_splits)

lemma evict_loop_lru:
  "acct st \<Longrightarrow> evict_loop others c req st = (res, st') \<Longrightarrow> x \<in> set (Sessions st) - set (Sessions st') \<Longrightarrow>
    y \<in> set (Sessions st') \<Longrightarrow> LastAccess (snd x) \<le> LastAccess (snd y) \<and> y \<in> set (Sessions st)"
proof (induction others c req st rule: evict_loop.induct)
  case (1 others c req st)
  show ?case
  proof (cases "Sessions st \<noteq> [] \<and> (length (Sessions st) \<ge> GMaxSearchSessions \<or> req > AggregateIdCapacity st)")
    case False
    have "evict_loop others c req st = (Inr req, st)"
      unfolding evict_loop.simps [of others c req st] by (rule if_not_P [OF False])
    then show ?thesis using "1.prems" by simp
  next
    case True
    then have ne: "Sessions st \<noteq> []" by blast
    obtain i s st1 where e: "EvictLeastRecentlyUsedLocked st = Some st1" "least_recent (Sessions st) = Some (i, s)"
        "dropped st (\<lambda>e. fst e \<noteq> i) st1" by (rule Evict_ok [OF "1.prems"(1) ne])
    have ses: "Sessions st1 = filter (\<lambda>e. fst e \<noteq> i) (Sessions st)" using e(3) by (simp add: dropped_def)
    have first: "LastAccess s \<le> LastAccess (snd z)" if "z \<in> set (Sessions st)" for z
      using least_recent_least [OF e(2) that] by simp
    have out: "z = (i, s)" if "z \<in> set (Sessions st)" "fst z = i" for z
      using "1.prems"(1) that least_recent_mem [OF e(2)] by (metis acct_def eq_key_imp_eq_value prod.collapse)
    consider "st' = st1" | req' where "required_ids st1 others c = Some req'" "evict_loop others c req' st1 = (res, st')"
      using "1.prems"(2) e(1) True
      by (cases "required_ids st1 others c") (simp_all add: evict_loop.simps [of others c req st])
    then show ?thesis
    proof cases
      case 1
      then have "fst x = i" "y \<in> set (Sessions st)" using "1.prems"(3,4) ses by auto
      then show ?thesis using out [of x] first [of y] "1.prems"(3) by auto
    next
      case (2 req')
      have y: "y \<in> set (Sessions st1)"
        using evict_loop_ok [OF dropped_acct [OF e(3)] 2(2) required_ids_Some [OF 2(1)]] "1.prems"(4) by (auto simp: dropped_def)
      then have ys: "y \<in> set (Sessions st)" using ses by simp
      show ?thesis
      proof (cases "fst x = i")
        case True
        then show ?thesis using out [of x] first [of y] ys "1.prems"(3) by auto
      next
        case False
        then have "x \<in> set (Sessions st1) - set (Sessions st')" using "1.prems"(3) ses by simp
        from "1.IH" [OF True e(1) 2(1) dropped_acct [OF e(3)] 2(2) this "1.prems"(4)] ys show ?thesis by simp
      qed
    qed
  qed
qed

text \<open>The eviction loop that makes room for new ids is least-recently-used: every session it drops was
  last read no later than every session it keeps, it invents none, and it always ends.\<close>

theorem eviction_least_recently_used:
  assumes "session_inv st" "evict_loop others c (UsedIdCount st + others + c) st = (res, st')"
    and "x \<in> set (Sessions st)" "x \<notin> set (Sessions st')" "y \<in> set (Sessions st')"
  shows "LastAccess (snd x) \<le> LastAccess (snd y) \<and> y \<in> set (Sessions st)"
  using evict_loop_lru [of st others c _ res st' x y] assms by (simp add: session_inv_def)

definition demo_session :: "int \<Rightarrow> SSession" where
  "demo_session t = published_session [7] demo_criteria demo_identity 1 t"

definition demo_two :: SSearchSessionState where
  "demo_two = (new_state 4)\<lparr>Sessions := [(''a'', demo_session 2), (''b'', demo_session 1)], UsedIdCount := 2,
     CurrentGenerationKey := BuildCatalogGenerationKey demo_identity\<rparr>"

definition demo_one :: SSearchSessionState where
  "demo_one = demo_two\<lparr>Sessions := [(''a'', demo_session 2)], UsedIdCount := 1\<rparr>"

lemma demo_two_inv: "session_inv demo_two"
  by (simp add: session_inv_def acct_def one_generation_def used_ids_def reserved_ids_def demo_two_def new_state_def
      demo_session_def ResolvePerSessionIdCapacity_def GMaxSearchSessions_def del: published_identity)
    (simp add: published_session_def session_identity_def demo_identity_def)

lemma demo_evict: "evict_loop 0 3 (UsedIdCount demo_two + 0 + 3) demo_two = (Inr 4, demo_one)"
  by (simp add: demo_two_def demo_one_def new_state_def demo_session_def published_session_def evict_loop.simps
      EvictLeastRecentlyUsedLocked_def RemoveSessionLocked_def GMaxSearchSessions_def required_ids_def TryAddSize_def
      size_max_def Let_def)

theorem eviction_least_recently_used_witness:
  "LastAccess (demo_session 1) \<le> LastAccess (demo_session 2)"
  using eviction_least_recently_used [OF demo_two_inv demo_evict, of "(''b'', demo_session 1)" "(''a'', demo_session 2)"]
  by (simp add: demo_two_def demo_one_def)

section \<open>Admission\<close>

lemma dropped_used: "dropped st P st' \<Longrightarrow> acct st \<Longrightarrow> UsedIdCount st' \<le> UsedIdCount st"
  using used_ids_filter [of P "Sessions st"] by (simp add: dropped_def acct_def)

lemma TryAddSize_fits: "a + b \<le> size_max \<Longrightarrow> TryAddSize a b = Some (a + b)"
  unfolding TryAddSize_def by (rule if_not_P) linarith

lemma required_ids_fits: "UsedIdCount st + others + c \<le> size_max \<Longrightarrow> required_ids st others c = Some (UsedIdCount st + others + c)"
  by (simp add: required_ids_def TryAddSize_fits)

lemma evict_loop_returns:
  "acct st \<Longrightarrow> UsedIdCount st + others + c \<le> size_max \<Longrightarrow> \<exists>r st'. evict_loop others c req st = (Inr r, st')"
proof (induction others c req st rule: evict_loop.induct)
  case (1 others c req st)
  show ?case
  proof (cases "Sessions st \<noteq> [] \<and> (length (Sessions st) \<ge> GMaxSearchSessions \<or> req > AggregateIdCapacity st)")
    case False
    then show ?thesis unfolding evict_loop.simps [of others c req st] by (simp only: if_False) blast
  next
    case True
    then have ne: "Sessions st \<noteq> []" by blast
    obtain i s st1 where e: "EvictLeastRecentlyUsedLocked st = Some st1" "dropped st (\<lambda>e. fst e \<noteq> i) st1"
      by (rule Evict_ok [OF "1.prems"(1) ne])
    have fit: "UsedIdCount st1 + others + c \<le> size_max" using dropped_used [OF e(2) "1.prems"(1)] "1.prems"(2) by simp
    from "1.IH" [OF True e(1) required_ids_fits [OF fit] dropped_acct [OF e(2)] fit] show ?thesis
      unfolding evict_loop.simps [of others c req st] using True e(1) required_ids_fits [OF fit] by simp
  qed
qed

lemma reserve_activated_admits:
  assumes inv: "session_inv st" and small: "c \<le> PerSessionIdCapacity st" and fit: "ReservedIdCount st + c \<le> AggregateIdCapacity st"
    and cap: "2 * AggregateIdCapacity st \<le> size_max"
    and fresh: "0 < NextReservationId st" "map_of (Reservations st) (NextReservationId st) = None"
  shows "\<exists>tok st'. reserve_activated g c st = (Inr tok, st')"
proof -
  have a: "acct st" using inv by (simp add: session_inv_def)
  have sz: "UsedIdCount st + ReservedIdCount st + c \<le> size_max" using a fit cap unfolding acct_def by linarith
  obtain req st3 where l: "evict_loop (ReservedIdCount st) c (UsedIdCount st + ReservedIdCount st + c) st = (Inr req, st3)"
    using evict_loop_returns [OF a sz] by blast
  from evict_loop_ok [OF a l refl] obtain P where d: "dropped st P st3" "req = UsedIdCount st3 + ReservedIdCount st + c"
    "Sessions st3 = [] \<or> req \<le> AggregateIdCapacity st3" by blast
  have same: "ReservedIdCount st3 = ReservedIdCount st" "AggregateIdCapacity st3 = AggregateIdCapacity st"
    "NextReservationId st3 = NextReservationId st" "Reservations st3 = Reservations st"
    using d(1) by (simp_all add: dropped_def rest_same_def)
  have "req \<le> AggregateIdCapacity st3"
    using d fit same(2) dropped_acct [OF d(1)] by (auto simp: acct_def used_ids_def)
  then have "\<exists>tok st'. commit_reservation g c req st3 = (Inr tok, st')"
    using same fresh TryAddSize_fits [of "ReservedIdCount st" c] sz
    by (simp add: commit_reservation_def NextReservationIdLocked_def Let_def)
  then show ?thesis using small required_ids_fits [OF sz] l by (simp add: reserve_activated_def)
qed

text \<open>C13: A result that fits is admitted: in every reachable state, with the cursor capacity derived from
  the configured budget, reserving a result of at most the per-session capacity that fits beside the
  reservations of the requests in flight (none of them when the catalog changed) succeeds, whatever
  finished sessions occupy; they are evicted.\<close>

theorem reservation_admitted:
  assumes "ResolveSearchSessionIdCapacity budget = Inr cap" "session_start cap sys0" "session_step\<^sup>*\<^sup>* sys0 sys"
    and "NextReservationId (SysState sys) < size_max" "c \<le> ResolvePerSessionIdCapacity cap"
    and "(if CurrentGenerationKey (SysState sys) = BuildCatalogGenerationKey identity
          then ReservedIdCount (SysState sys) else 0) + c \<le> cap"
  shows "\<exists>tok st'. ReserveSearchSessionIds (SysState sys) identity now identity c = (Inr tok, st')"
proof -
  let ?st = "SysState sys" and ?g = "BuildCatalogGenerationKey identity"
  have inv: "system_inv cap sys" by (rule reachable_sessions [OF assms(2,3)])
  then have si: "session_inv ?st" "tokens_ok ?st (Tokens sys)" "AggregateIdCapacity ?st = cap"
    "PerSessionIdCapacity ?st = ResolvePerSessionIdCapacity cap" by (simp_all add: system_inv_def)
  have a: "acct ?st" using si(1) by (simp add: session_inv_def)
  from Purge_ok [OF a, of now] obtain st1 where
    p: "PurgeSessionsLocked ?st now = Some st1" "dropped ?st (\<lambda>e. \<not> expired now (snd e)) st1" by blast
  from Activate_ok [OF dropped_inv [OF si(1) p(2)], of ?g] obtain st2 where
    s2: "ActivateSearchSessionGenerationLocked st1 ?g = Some st2" "session_inv st2"
      "NextReservationId st2 = NextReservationId st1" "capacities_same st1 st2"
      "if ?g = CurrentGenerationKey st1 then st2 = st1 else Sessions st2 = [] \<and> Reservations st2 = []" by blast
  have r: "rest_same ?st st1" using p(2) by (simp add: dropped_def)
  have res: "ReservedIdCount st2 = (if CurrentGenerationKey ?st = ?g then ReservedIdCount ?st else 0)"
    using s2(2,5) r by (auto simp: rest_same_def session_inv_def acct_def reserved_ids_def split: if_splits)
  have sub: "map_of (Reservations ?st) i = None \<Longrightarrow> map_of (Reservations st2) i = None" for i
    using s2(5) r by (auto simp: rest_same_def split: if_splits)
  have "map_of (Reservations ?st) (NextReservationId ?st) = None"
  proof (rule ccontr)
    assume "map_of (Reservations ?st) (NextReservationId ?st) \<noteq> None"
    then obtain tok where "tok \<in> set (Tokens sys)" "TokId tok = NextReservationId ?st"
      using si(2) unfolding tokens_ok_def by fast
    then show False using si(2) unfolding tokens_ok_def by fastforce
  qed
  moreover have "16 * cap \<le> size_max"
    using assms(1) by (auto simp: ResolveSearchSessionIdCapacity_def GSearchSessionBookIdAllowanceBytes_def split: if_splits)
  ultimately have "\<exists>tok st'. reserve_activated ?g c st2 = (Inr tok, st')"
    using s2(3,4) r si(2-4) assms(5,6) res sub
    by (intro reserve_activated_admits [OF s2(2)]) (simp_all add: rest_same_def capacities_same_def tokens_ok_def)
  then show ?thesis using p(1) s2(1) by (simp add: ReserveSearchSessionIds_def ValidateCurrentCatalogIdentity_def)
qed

theorem reservation_admitted_witness:
  "\<exists>tok st'. ReserveSearchSessionIds demo_published demo_identity 0 demo_identity 6 = (Inr tok, st')"
proof -
  have reach: "session_step\<^sup>*\<^sup>* demo_start \<lparr>SysState = demo_published, Tokens = [], Crashed = False\<rparr>"
    using demo_reachable by (simp only: demo_reserve_ok demo_publish_ok)
  show ?thesis
    using reservation_admitted [OF _ demo_start reach, of 128 6 demo_identity 0]
    by (simp add: demo_published_def demo_reserved_def new_state_def size_max_def
        ResolveSearchSessionIdCapacity_def ResolvePerSessionIdCapacity_def GSearchSessionBookIdAllowanceBytes_def)
qed

end
