(* ===== verification/Search_Page_Properties.thy ===== *)
theory Search_Page_Properties
  imports Search_Paging
begin

text \<open>
  The queries and pages of a search: statements and their parameters match, the words of the user
  stay inside their quotes, equivalent queries have equal criteria, and a page, its cursor and the
  session behind it agree.
\<close>

section \<open>Queries\<close>

lemma search_statements_marks:
  "marks (fst (search_books_statement q f)) = length (snd (search_books_statement q f)) + 2
    \<and> marks (fst (search_ids_statement q f)) = length (snd (search_ids_statement q f))
    \<and> marks (fst (count_statement q f)) = length (snd (count_statement q f))
    \<and> marks (fst (languages_statement q f)) = length (snd (languages_statement q f))
    \<and> marks (fst (genres_statement q f)) = length (snd (genres_statement q f))
    \<and> marks (read_books_sql n) = n"
proof -
  have lits: "marks ''LIMIT ? OFFSET ?;'' = 2" "marks '';'' = 0" "marks ''SELECT b.id'' = 0" "marks ''SELECT COUNT(*)'' = 0"
    "marks ''SELECT b.language, COUNT(*)'' = 0" "marks ''AND b.language <> '' = 0" "marks [squote, squote] = 0"
    "marks '' GROUP BY b.language ORDER BY b.language COLLATE NOCASE;'' = 0"
    by (simp_all add: marks_def)
  have "balanced (AppendFilters \<lparr>Sql = ''SELECT g.display_name, COUNT(DISTINCT b.id) FROM inpx_books b ''
           @ ''INNER JOIN inpx_book_locations l_catalog ON l_catalog.book_id = b.id ''
           @ ''INNER JOIN book_genres bg ON bg.book_id = b.id INNER JOIN genres g ON g.id = bg.genre_id ''
           @ search_index_join f @ ''WHERE 1 = 1 '', TextParameters = []\<rparr> q True False f)"
    by (rule AppendFilters_balanced) (simp add: balanced_def marks_def search_index_join_def)
  then have g: "marks (fst (genres_statement q f)) = length (snd (genres_statement q f))"
    by (simp add: genres_statement_def balanced_def BindTextParameters_def Let_def) (simp add: marks_def)
  have r: "marks (read_books_sql n) = n"
    by (simp only: read_books_sql_def marks_append BuildIdInClause_marks) (simp add: marks_def)
  have "marks (fst (search_books_statement q f)) = length (snd (search_books_statement q f)) + 2"
    "marks (fst (search_ids_statement q f)) = length (snd (search_ids_statement q f))"
    "marks (fst (count_statement q f)) = length (snd (count_statement q f))"
    "marks (fst (languages_statement q f)) = length (snd (languages_statement q f))"
    unfolding search_books_statement_def search_ids_statement_def count_statement_def languages_statement_def
      Let_def fst_conv snd_conv marks_append AppendSort_marks BuildFilteredFrom_marks lits BindTextParameters_def length_map
    by simp_all
  with g r show ?thesis by blast
qed

text \<open>A database that refuses every statement whose placeholders are not exactly the parameters bound to it.\<close>

definition strict_binding :: "'row sqlite \<Rightarrow> 'row sqlite" where
  "strict_binding db = db\<lparr>rows_of := (\<lambda>sql params.
     if marks sql = length params then rows_of db sql params else Inl (StepFailure ''parameters''))\<rparr>"

lemma strict_binding_simps [simp]:
  "Execute (strict_binding db) = Execute db" "CSqliteStatement (strict_binding db) = CSqliteStatement db" "Commit (strict_binding db) = Commit db"
  "CSqliteConnection (strict_binding db) = CSqliteConnection db" "open_transaction (strict_binding db) = open_transaction db"
  "column_int (strict_binding db) = column_int db" "column_double (strict_binding db) = column_double db"
  "column_int64 (strict_binding db) = column_int64 db" "column_is_null (strict_binding db) = column_is_null db"
  "GetColumnText (strict_binding db) = GetColumnText db" "row_ids (strict_binding db) = row_ids db" "facet_rows (strict_binding db) = facet_rows db"
  by (simp_all add: fun_eq_iff Execute_def CSqliteStatement_def Commit_def CSqliteConnection_def open_transaction_def CSqliteTransaction_def
      strict_binding_def GetColumnText_def row_ids_def facet_rows_def)

lemma strict_collect [simp]: "collect_books (strict_binding db) a t g byId rows = collect_books db a t g byId rows"
proof -
  have r: "read_book (strict_binding db) a t g row = read_book db a t g row" for row
    unfolding read_book_def read_metadata_def nullable_def strict_binding_simps by (rule refl)
  show ?thesis by (induction rows arbitrary: byId) (simp_all add: r and_then_def split: sum.split)
qed

lemma strict_statement: "marks (fst st) = length (snd st) \<Longrightarrow> run_statement (strict_binding db) st = run_statement db st"
  by (simp add: run_statement_def) (simp add: strict_binding_def)

lemma strict_batch:
  "marks (fst t) = 0 \<Longrightarrow> marks (snd t) = 0 \<Longrightarrow> ReadRelatedEntityNamesBatch (strict_binding db) t ids = ReadRelatedEntityNamesBatch db t ids"
  by (simp add: ReadRelatedEntityNamesBatch_def strict_statement marks_append BuildIdInClause_marks)

lemma strict_ReadBooks: "ReadBooks (strict_binding db) ids = ReadBooks db ids"
proof -
  have "ReadAuthors (strict_binding db) ids = ReadAuthors db ids" "ReadTags (strict_binding db) ids = ReadTags db ids"
    "ReadGenres (strict_binding db) ids = ReadGenres db ids"
    unfolding ReadAuthors_def ReadTags_def ReadGenres_def by (rule strict_batch; simp add: marks_def)+
  moreover have "run_statement (strict_binding db) (read_books_sql (length ids), map BindInt64 ids) = run_statement db (read_books_sql (length ids), map BindInt64 ids)"
    by (rule strict_statement) (simp add: search_statements_marks)
  ultimately show ?thesis by (simp add: ReadBooks_def)
qed

lemma strict_searches:
  "SearchBooks (strict_binding db) q f = SearchBooks db q f" "SearchBookIds (strict_binding db) q f n = SearchBookIds db q f n"
  "CountSearchResults (strict_binding db) q f = CountSearchResults db q f"
  "ListAvailableLanguages (strict_binding db) q f = ListAvailableLanguages db q f"
  "ListAvailableGenres (strict_binding db) q f = ListAvailableGenres db q f" "ReadCatalogIdentity (strict_binding db) = ReadCatalogIdentity db"
proof -
  have b: "run_statement (strict_binding db) (fst (search_books_statement q f), snd (search_books_statement q f) @ [BindInt64 l, BindInt64 k])
      = run_statement db (fst (search_books_statement q f), snd (search_books_statement q f) @ [BindInt64 l, BindInt64 k])" for l k
    by (rule strict_statement) (simp add: search_statements_marks)
  show "SearchBooks (strict_binding db) q f = SearchBooks db q f" by (simp add: SearchBooks_def Let_def b strict_ReadBooks)
  have i: "run_statement (strict_binding db) (sql, []) = run_statement db (sql, [])" if "marks sql = 0" for sql
    by (rule strict_statement) (simp add: that)
  show "ReadCatalogIdentity (strict_binding db) = ReadCatalogIdentity db"
    unfolding ReadCatalogIdentity_def strict_binding_simps by (subst i) (simp_all add: marks_def)
  show "CountSearchResults (strict_binding db) q f = CountSearchResults db q f"
    unfolding CountSearchResults_def strict_binding_simps by (simp add: strict_statement search_statements_marks)
qed (simp_all add: SearchBookIds_def ListAvailableLanguages_def ListAvailableGenres_def strict_statement search_statements_marks)

text \<open>Every statement of a search binds exactly as many parameters as it has placeholders: the page, the search without a
  cursor, the read of one book and the counts and facets, errors included, are the same over a database that refuses every
  statement whose placeholders and parameters differ in number, whatever the query, its filters and the books are.\<close>

theorem placeholders_match_parameters:
  "SearchPage (strict_binding db) tokenizer env st q languages genres = SearchPage db tokenizer env st q languages genres
    \<and> Search (strict_binding db) tokenizer q = Search db tokenizer q \<and> GetById (strict_binding db) i = GetById db i
    \<and> repository_CountSearchResults (strict_binding db) tokenizer q = repository_CountSearchResults db tokenizer q
    \<and> repository_ListAvailableLanguages (strict_binding db) tokenizer q = repository_ListAvailableLanguages db tokenizer q
    \<and> repository_ListAvailableGenres (strict_binding db) tokenizer q = repository_ListAvailableGenres db tokenizer q
    \<and> ReadCurrentCatalogIdentity (strict_binding db) = ReadCurrentCatalogIdentity db"
proof -
  note reads = strict_ReadBooks strict_searches
  have "SearchPage (strict_binding db) tokenizer env st q languages genres = SearchPage db tokenizer env st q languages genres"
    unfolding SearchPage_def continuation_page_def count_and_facets_def first_page_def materialize_def reads strict_binding_simps
    by (rule refl)
  moreover have "CountSearchResults (strict_binding db) q = CountSearchResults db q"
    "ListAvailableLanguages (strict_binding db) q = ListAvailableLanguages db q" "ListAvailableGenres (strict_binding db) q = ListAvailableGenres db q"
    by (simp_all add: fun_eq_iff reads)
  ultimately show ?thesis
    by (simp add: Search_def GetById_def repository_CountSearchResults_def repository_ListAvailableLanguages_def
        repository_ListAvailableGenres_def ReadCurrentCatalogIdentity_def reads)
qed

text \<open>C39: The words of a search text cannot leave their quotes: reading the FTS5 expression of a query back
  with the scope it was built with gives exactly the non-empty tokens of the normalised text, whatever
  characters they have.\<close>

theorem fts_query_reads_back:
  assumes "HasText q" "length (NormalizeText (TextUtf8 q)) \<le> int_max" "tokenizer (NormalizeText (TextUtf8 q)) = Inr tokens"
    and "filter (\<lambda>t. t \<noteq> []) tokens = t # ts"
  shows "\<exists>f. BuildFtsQuery tokenizer q = Inr f \<and> fts_read_terms (build_scope (SearchFields q)) f = Some (t # ts)"
proof -
  have "TokenizeFtsQuery tokenizer (NormalizeText (TextUtf8 q)) = Inr (t # ts)"
    using assms by (simp add: TokenizeFtsQuery_def foldl_CollectFtsToken not_less)
  then have "BuildFtsQuery tokenizer q = Inr (fts_loop (build_scope (SearchFields q)) [] (t # ts))"
    using assms(1) by (simp add: BuildFtsQuery_def Let_def del: fts_loop.simps)
  moreover have "fts_read_terms (build_scope (SearchFields q)) (fts_loop (build_scope (SearchFields q)) [] (t # ts)) = Some (t # ts)"
    by (simp only: fts_loop_first fts_read_terms_ok)
  ultimately show ?thesis by blast
qed

theorem fts_query_reads_back_witness:
  "\<exists>f. BuildFtsQuery (\<lambda>_. Inr [[dquote, CHR ''x''], [], ''b'']) (demo_query\<lparr>TextUtf8 := [CHR 0xFF]\<rparr>) = Inr f
    \<and> fts_read_terms (build_scope (SearchFields demo_query)) f = Some [[dquote, CHR ''x''], ''b'']"
proof -
  have "\<not> IsValidUtf8 [CHR 0xFF]" by code_simp
  then have "TryNormalizeUtf8WhitespaceAndCaseFold [CHR 0xFF] = None" using TryNormalize_None_iff by blast
  then have n: "length (NormalizeText [CHR 0xFF]) \<le> int_max"
    by (simp add: NormalizeText_def EncodeInvalidUtf8ForNormalization_def InvalidUtf8Sentinel_def InvalidUtf8Prefix_def int_max_def)
  show ?thesis
    using fts_query_reads_back [of "demo_query\<lparr>TextUtf8 := [CHR 0xFF]\<rparr>" "\<lambda>_. Inr [[dquote, CHR ''x''], [], ''b'']"
        "[[dquote, CHR ''x''], [], ''b'']" "[dquote, CHR ''x'']" "[''b'']"] n
    by (simp add: demo_query_def HasText_def)
qed

text \<open>The criteria that a continuation must repeat identify a query up to what does not change its result:
  the order and repetition of its languages, the order, repetition and spelling of its genres up to
  normalisation, and defaults left out or written down.\<close>

theorem criteria_identify_queries:
  "BuildSessionCriteria q f = BuildSessionCriteria q' f' \<longleftrightarrow>
    f = f' \<and> set (QueryLanguages q) = set (QueryLanguages q')
    \<and> NormalizeText ` set (QueryGenresUtf8 q) = NormalizeText ` set (QueryGenresUtf8 q')
    \<and> (case SortBy q of None \<Rightarrow> SortTitle | Some s \<Rightarrow> s) = (case SortBy q' of None \<Rightarrow> SortTitle | Some s \<Rightarrow> s)
    \<and> (SortDirection q = Some Descending \<longleftrightarrow> SortDirection q' = Some Descending)"
proof -
  have d: "(case d of None \<Rightarrow> Ascending | Some d \<Rightarrow> d) = (case e of None \<Rightarrow> Ascending | Some e \<Rightarrow> e)
      \<longleftrightarrow> (d = Some Descending \<longleftrightarrow> e = Some Descending)" for d e :: "ESortDirection option"
    by (cases d; cases e; (cases "the d")?; (cases "the e")?) simp_all
  show ?thesis unfolding BuildSessionCriteria_def by (simp add: CanonicalizeValues_eq_iff sort_key_def d)
qed

section \<open>Books of a page\<close>

lemma collect_books_keyed:
  "collect_books db a t g byId rows = Inr res \<Longrightarrow> list_all (\<lambda>(k, b). BookId b = k) byId \<Longrightarrow> list_all (\<lambda>(k, b). BookId b = k) res"
  by (induction rows arbitrary: byId) (auto simp: and_then_Inr)

lemma map_filter_complete:
  assumes "length (List.map_filter f xs) = length xs" "\<And>x y. f x = Some y \<Longrightarrow> k y = x"
  shows "map k (List.map_filter f xs) = xs"
  using assms(1)
proof (induction xs)
  case (Cons x xs)
  have le: "length (List.map_filter f xs) \<le> length xs" by (simp add: List.map_filter_def)
  show ?case
  proof (cases "f x")
    case None
    then show ?thesis using Cons.prems le by simp
  next
    case (Some y)
    then show ?thesis using Cons assms(2) [OF Some] by simp
  qed
qed simp

text \<open>When no row is missing, the books are those of the ids, in their order.\<close>

lemma ReadBooks_ids:
  assumes "ReadBooks db ids = Inr books" "length books = length ids"
  shows "map BookId books = ids"
proof (cases "ids = []")
  case False
  then obtain a t g rows byId where c: "collect_books db a t g [] rows = Inr byId" "books = List.map_filter (map_of byId) ids"
    using assms(1) by (auto simp: ReadBooks_def and_then_Inr)
  have "BookId b = i" if "map_of byId i = Some b" for i b
    using collect_books_keyed [OF c(1)] map_of_SomeD [OF that] by (auto simp: list_all_iff)
  then show ?thesis using assms(2) c(2) map_filter_complete [of "map_of byId" ids BookId] by simp
qed (use assms in \<open>simp add: ReadBooks_def\<close>)

lemma materialize_books:
  assumes "materialize db q f tot start stop = Inr (ids, books)"
  shows "length ids = tot \<and> map BookId books = take (stop - start) (drop start ids)"
  using assms by (auto simp: materialize_def SearchBookIds_def and_then_Inr Let_def split: if_splits dest: ReadBooks_ids)

section \<open>Sessions of a page\<close>

lemma publish_with_env_ok:
  assumes "session_inv st" "token_ok st tok" "publish_with_env env st ids cr identity pos tok = (res, st')"
    and "\<And>e. RandomBytes env = Inl e \<Longrightarrow> e \<noteq> Terminated" "\<And>e. PublishIdentity env = Inl e \<Longrightarrow> e \<noteq> Terminated"
  shows "keeps st res st' \<and> (\<forall>c. res = Inr c \<longrightarrow>
    map_of (Reservations st') (TokId tok) = None \<and> Position c = pos
    \<and> map_of (Sessions st') (SessionIdUtf8 c) = Some (published_session ids cr identity pos (PublishNow env)))"
proof -
  consider e where "res = Inl e" "e \<noteq> Terminated" "st' = st"
    | bytes current where "PublishSearchSession st current (PublishNow env) (MakeUnpredictableSessionId bytes) ids cr identity pos tok = (res, st')"
    using assms(3-5) by (cases "RandomBytes env"; cases "PublishIdentity env") (auto simp: publish_with_env_def)
  then show ?thesis
  proof cases
    case 1
    then show ?thesis using keeps_refl [OF assms(1), of res] by simp
  next
    case 2
    from Publish_ok [OF assms(1,2) 2] show ?thesis
      by (auto simp: publish_post_def published_cursor_def split: sum.splits)
  qed
qed

definition env_ok :: "search_env \<Rightarrow> bool" where
  "env_ok env \<longleftrightarrow> ReserveIdentity env \<noteq> Inl Terminated \<and> RandomBytes env \<noteq> Inl Terminated
    \<and> PublishIdentity env \<noteq> Inl Terminated"

lemma publish_page_ok:
  assumes inv: "session_inv st" and tok: "token_ok st tok" and env: "env_ok env"
    and op: "publish_page env st cr identity pos tok m = (res, st')"
  shows "session_inv st' \<and> reservations_kept st st' \<and> map_of (Reservations st') (TokId tok) = None
    \<and> (\<forall>books c. res = Inr (books, c) \<longrightarrow> (\<exists>ids. m = Inr (ids, books) \<and> Position c = pos
        \<and> map_of (Sessions st') (SessionIdUtf8 c) = Some (published_session ids cr identity pos (PublishNow env))))"
proof -
  have rel: "session_inv (snd (ReleaseSearchSessionReservation x tok)) \<and> reservations_kept st (snd (ReleaseSearchSessionReservation x tok))
      \<and> map_of (Reservations (snd (ReleaseSearchSessionReservation x tok))) (TokId tok) = None"
    if "keeps st (r :: session_error + SSearchCursor) x" for x r
  proof -
    have x: "session_inv x" "token_ok x tok" "reservations_kept st x" using that token_ok_kept [OF tok] by (simp_all add: keeps_def)
    obtain a b where o: "ReleaseSearchSessionReservation x tok = (a, b)" by fastforce
    from Release_ok [OF x(1,2) o] x(3) show ?thesis by (auto simp: o keeps_def intro: reservations_kept_trans)
  qed
  show ?thesis
  proof (cases m)
    case (Inl e)
    have "keeps st (Inl capacity_exhausted :: session_error + SSearchCursor) st"
      using keeps_refl [OF inv, of "Inl capacity_exhausted :: session_error + SSearchCursor"] by simp
    from rel [OF this] show ?thesis using op Inl by (auto simp: publish_page_def)
  next
    case (Inr p)
    obtain ids books where p: "p = (ids, books)" by fastforce
    obtain pres st1 where pub: "publish_with_env env st ids cr identity pos tok = (pres, st1)" by fastforce
    note k = publish_with_env_ok [OF inv tok pub]
    have k: "keeps st pres st1" "\<And>c. pres = Inr c \<Longrightarrow> map_of (Reservations st1) (TokId tok) = None \<and> Position c = pos
        \<and> map_of (Sessions st1) (SessionIdUtf8 c) = Some (published_session ids cr identity pos (PublishNow env))"
      using publish_with_env_ok [OF inv tok pub] env by (auto simp: env_ok_def)
    show ?thesis
    proof (cases pres)
      case (Inl e)
      then show ?thesis using rel [OF k(1)] op Inr p pub by (auto simp: publish_page_def)
    next
      case c: (Inr c)
      show ?thesis
      proof (cases "validate_with_env env identity")
        case (Inl e)
        obtain a b where o: "RemoveSearchSession st1 (SessionIdUtf8 c) = (a, b)" by fastforce
        have s1: "session_inv st1" "reservations_kept st st1" using k(1) by (simp_all add: keeps_def)
        have b: "st' = b" "res = Inl e" using op Inr p pub c Inl o by (simp_all add: publish_page_def)
        from RemoveSearchSession_ok [OF s1(1) o] have "keeps st1 a b" by simp
        then have "session_inv b" "reservations_kept st1 b" by (simp_all add: keeps_def)
        moreover have "map_of (Reservations b) (TokId tok) = None"
          using k(2) [OF c] \<open>reservations_kept st1 b\<close> by (cases "map_of (Reservations b) (TokId tok)") (auto simp: reservations_kept_def)
        ultimately show ?thesis using b reservations_kept_trans [OF s1(2)] by simp
      next
        case v: (Inr u)
        then have "res = Inr (books, c)" "st' = st1" using op Inr p pub c by (simp_all add: publish_page_def)
        then show ?thesis using k(1) k(2) [OF c] Inr p by (simp add: keeps_def)
      qed
    qed
  qed
qed

lemma reserve_with_env_ok:
  assumes "session_inv st" "env_ok env" "reserve_with_env env st identity n = (res, st')"
  shows "reserve_post st identity n res st'"
proof (cases "ReserveIdentity env")
  case (Inl e)
  then show ?thesis using assms by (auto simp: reserve_with_env_def env_ok_def intro!: reserve_post_Inl)
next
  case (Inr current)
  then show ?thesis using assms by (intro Reserve_ok [OF assms(1)]) (simp add: reserve_with_env_def)
qed

lemma reserve_then_release:
  assumes "reserve_post st identity n (Inr tok) st1" "reservations_kept st1 st2" "map_of (Reservations st2) (TokId tok) = None"
  shows "reservations_kept st st2"
  unfolding reservations_kept_def
proof (intro allI impI)
  fix i r assume i: "map_of (Reservations st2) i = Some r"
  then have "map_of (Reservations st1) i = Some r" "i \<noteq> TokId tok" using assms(2,3) by (auto simp: reservations_kept_def)
  then show "map_of (Reservations st) i = Some r" using assms(1) by (simp add: reserve_post_def)
qed

definition page_start :: "SSearchQuery \<Rightarrow> nat \<Rightarrow> nat" where
  "page_start q tot = min (Offset q) tot"

definition page_end :: "SSearchQuery \<Rightarrow> nat \<Rightarrow> nat" where
  "page_end q tot = page_start q tot + min (Limit q) (tot - page_start q tot)"

lemma first_page_unfold:
  "first_page db env st q f cr identity tot result =
    (if page_end q tot \<ge> tot
     then (and_then (SearchBooks db q f) (\<lambda>books. and_then (Commit db) (\<lambda>_. Inr (result\<lparr>PageBooks := books\<rparr>))), st)
     else case reserve_with_env env st identity tot of
       (Inl e, st1) \<Rightarrow> (Inl e, st1)
     | (Inr tok, st1) \<Rightarrow>
         (case publish_page env st1 cr identity (page_end q tot) tok (materialize db q f tot (page_start q tot) (page_end q tot)) of
            (Inl e, st2) \<Rightarrow> (Inl e, st2)
          | (Inr (books, c), st2) \<Rightarrow> (Inr (result\<lparr>PageBooks := books, NextCursor := Some c\<rparr>), st2)))"
  unfolding first_page_def Let_def page_end_def page_start_def ..

lemma first_page_ok:
  assumes inv: "session_inv st" and env: "env_ok env"
    and op: "first_page db env st q f cr identity tot result = (res, st')" and new: "NextCursor result = None"
  shows "session_inv st' \<and> reservations_kept st st'
    \<and> (\<forall>page c. res = Inr page \<longrightarrow> NextCursor page = Some c \<longrightarrow>
        (\<exists>ids. map_of (Sessions st') (SessionIdUtf8 c) = Some (published_session ids cr identity (Position c) (PublishNow env))
          \<and> length ids = tot \<and> Position c = page_end q tot \<and> page_end q tot < tot
          \<and> map BookId (PageBooks page) = take (page_end q tot - page_start q tot) (drop (page_start q tot) ids)
          \<and> TotalCount page = TotalCount result))"
proof (cases "page_end q tot \<ge> tot")
  case True
  then have r: "st' = st" "res = and_then (SearchBooks db q f) (\<lambda>books. and_then (Commit db) (\<lambda>_. Inr (result\<lparr>PageBooks := books\<rparr>)))"
    using op by (simp_all add: first_page_unfold)
  then show ?thesis using inv new by (auto simp: and_then_Inr)
next
  case False
  obtain rres st1 where r: "reserve_with_env env st identity tot = (rres, st1)" by fastforce
  note post = reserve_with_env_ok [OF inv env r]
  show ?thesis
  proof (cases rres)
    case (Inl e)
    then have "res = Inl e" "st' = st1"
      using op r False by (simp_all add: first_page_unfold)
    then show ?thesis using post Inl by (simp add: reserve_post_def)
  next
    case (Inr tok)
    have t: "session_inv st1" "token_ok st1 tok" using post Inr by (auto simp: reserve_post_def token_ok_def)
    let ?m = "materialize db q f tot (page_start q tot) (page_end q tot)"
    obtain pres st2 where p: "publish_page env st1 cr identity (page_end q tot) tok ?m = (pres, st2)" by fastforce
    note k = publish_page_ok [OF t env p]
    have s: "session_inv st2" "reservations_kept st st2"
      using k reserve_then_release [OF post [unfolded Inr]] by auto
    show ?thesis
    proof (cases pres)
      case e: (Inl e)
      then have "res = Inl e" "st' = st2"
        using op r Inr p False by (simp_all add: first_page_unfold)
      then show ?thesis using s by simp
    next
      case b: (Inr bc)
      obtain books c where bc: "bc = (books, c)" by fastforce
      have res: "res = Inr (result\<lparr>PageBooks := books, NextCursor := Some c\<rparr>)" "st' = st2"
        using op r Inr p b bc False by (simp_all add: first_page_unfold)
      from k b bc obtain ids where m: "?m = Inr (ids, books)" "Position c = page_end q tot"
        "map_of (Sessions st2) (SessionIdUtf8 c) = Some (published_session ids cr identity (page_end q tot) (PublishNow env))" by blast
      from materialize_books [OF m(1)] m(2,3) s res False show ?thesis by (auto intro!: exI [of _ ids])
    qed
  qed
qed

lemma count_and_facets_Inr:
  "count_and_facets db q f identity l g = Inr (tot, result) \<Longrightarrow> NextCursor result = None \<and> TotalCount result = Some tot"
  by (auto simp: count_and_facets_def and_then_Inr split: if_splits)

lemma SearchPage_cases:
  assumes op: "SearchPage db tok env st q l g = (res, st')"
  obtains e where "res = Inl e" "st' = st"
  | identity f where "BuildFtsQuery tok q = Inr f" "Cursor q \<noteq> None"
      "continuation_page db st (ReserveNow env) q (BuildSessionCriteria q f) identity = (res, st')"
  | identity f tot result where "BuildFtsQuery tok q = Inr f" "Cursor q = None" "NextCursor result = None" "TotalCount result = Some tot"
      "first_page db env st q f (BuildSessionCriteria q f) identity tot result = (res, st')"
proof (cases "open_transaction db")
  case (Inl e)
  then show thesis using op that(1) [of e] by (simp add: SearchPage_def)
next
  case t: (Inr u)
  show thesis
  proof (cases "ReadCatalogIdentity db")
    case (Inl e)
    then show thesis using op t that(1) [of e] by (simp add: SearchPage_def)
  next
    case i: (Inr identity)
    show thesis
    proof (cases "BuildFtsQuery tok q")
      case (Inl e)
      then show thesis using op t i that(1) [of e] by (simp add: SearchPage_def)
    next
      case f: (Inr f)
      show thesis
      proof (cases "Cursor q = None")
        case False
        then show thesis using op t i f that(2) [of f identity] by (simp add: SearchPage_def Let_def)
      next
        case True
        show thesis
        proof (cases "count_and_facets db q f identity l g")
          case (Inl e)
          then show thesis using op t i f True that(1) [of e] by (simp add: SearchPage_def Let_def)
        next
          case (Inr x)
          obtain tot result where x: "x = (tot, result)" by fastforce
          then have "first_page db env st q f (BuildSessionCriteria q f) identity tot result = (res, st')"
            using op t i f True Inr by (simp add: SearchPage_def Let_def)
          then show thesis using f True count_and_facets_Inr Inr x that(3) by blast
        qed
      qed
    qed
  qed
qed

section \<open>A small catalog\<close>

text \<open>A database with two books, whose rows are the ids, used to exercise the properties of a page.\<close>

definition demo_rows :: "string \<Rightarrow> sql_param list \<Rightarrow> sql_failure + int list" where
  "demo_rows sql params =
    (let what = take 5 (drop 7 sql) in
     if what = ''sourc'' then Inr [0]
     else if what = ''COUNT'' then Inr [2]
     else if what = ''b.id '' then Inr [1, 2]
     else if what = ''b.id,'' then Inr (List.map_filter (\<lambda>p. case p of BindInt64 i \<Rightarrow> Some i | _ \<Rightarrow> None) params)
     else Inr [])"

definition demo_db :: "int sqlite" where
  "demo_db = \<lparr>open_failure = None, exec_failure = (\<lambda>_. None), prepare_failure = (\<lambda>_. None), rows_of = demo_rows,
     column_int = (\<lambda>row _. row), column_int64 = (\<lambda>row _. row), column_double = (\<lambda>_ _. 0),
     column_text = (\<lambda>_ i. Some (if i = 0 then ''fp'' else if i = 1 then ''s1'' else if i = 11 then timestamp 2024 2 29 12 0 0
       else if i = 12 then ''fb2'' else [])),
     column_is_null = (\<lambda>_ i. i \<noteq> 1)\<rparr>"

definition demo_env :: search_env where
  "demo_env = \<lparr>ReserveIdentity = Inr demo_identity, ReserveNow = 0, RandomBytes = Inr (replicate 16 255),
     PublishIdentity = Inr demo_identity, PublishNow = 5, ValidateIdentity = Inr demo_identity\<rparr>"

lemma demo_exec [simp]: "Execute demo_db sql = Inr ()" "open_transaction demo_db = Inr ()" "Commit demo_db = Inr ()"
  "run_statement demo_db st = (case demo_rows (fst st) (snd st) of Inl e \<Rightarrow> Inl (SessionRuntimeError (failure_message e)) | Inr r \<Rightarrow> Inr r)"
  by (simp_all add: demo_db_def Execute_def fail_if_def open_transaction_def CSqliteConnection_def CSqliteTransaction_def
      Commit_def run_statement_def CSqliteStatement_def)

lemma demo_identity_read: "ReadCatalogIdentity demo_db = Inr demo_identity"
  by (simp add: ReadCatalogIdentity_def demo_rows_def Let_def) (simp add: demo_db_def GetColumnText_def demo_identity_def)

lemma demo_count: "CountSearchResults demo_db demo_query [] = Inr 2"
  by (simp add: CountSearchResults_def count_statement_def demo_rows_def Let_def) (simp add: demo_db_def uint64_def)

lemma demo_ids: "SearchBookIds demo_db demo_query [] 2 = Inr [1, 2]"
  by (simp add: SearchBookIds_def search_ids_statement_def BuildFilteredFrom_def AppendSort_def AppendFilters_def append_fts_filter_def
      append_language_filter_def append_genre_filter_def search_index_join_def demo_query_def demo_rows_def Let_def sort_key_def
      UsesAuthorSort_def row_ids_def) (simp add: demo_db_def)

lemma demo_time: "\<exists>t. ParseTimePoint (timestamp 2024 2 29 12 0 0) = Inr t"
  using ParseTimePoint_timestamp [of 2024 2 29 12 0 0] by (simp add: ymd_ok_def last_day_def is_leap_def)

lemma demo_names: "ReadAuthors demo_db [1] = Inr []" "ReadTags demo_db [1] = Inr []" "ReadGenres demo_db [1] = Inr []"
  by (simp_all add: ReadAuthors_def ReadTags_def ReadGenres_def ReadRelatedEntityNamesBatch_def demo_rows_def Let_def)

lemma demo_book: "\<exists>b. read_book demo_db [] [] [] 1 = Inr b \<and> BookId b = 1"
  using demo_time by (auto simp: read_book_def demo_db_def GetColumnText_def TryParseBookFormat_def Let_def)

lemma demo_books: "\<exists>b. ReadBooks demo_db [1] = Inr [b] \<and> BookId b = 1"
proof -
  have "demo_rows (read_books_sql 1) [BindInt64 1] = Inr [1]"
    by (simp add: demo_rows_def read_books_sql_def Let_def List.map_filter_def)
  then show ?thesis using demo_book by (auto simp: ReadBooks_def demo_names)
qed

lemma demo_materialize: "\<exists>books. materialize demo_db demo_query [] 2 0 1 = Inr ([1, 2], books) \<and> map BookId books = [1]"
  using demo_books by (auto simp: materialize_def demo_ids)

definition demo_token2 :: SSearchSessionReservation where
  "demo_token2 = \<lparr>TokId = 1, TokGenerationKey = BuildCatalogGenerationKey demo_identity, TokIdCount = 2\<rparr>"

definition demo_reserved2 :: SSearchSessionState where
  "demo_reserved2 = (new_state 8)\<lparr>CurrentGenerationKey := BuildCatalogGenerationKey demo_identity, NextReservationId := 2,
     Reservations := [(1, \<lparr>ResGenerationKey = BuildCatalogGenerationKey demo_identity, ResIdCount = 2\<rparr>)],
     ReservedIdCount := 2\<rparr>"

lemma demo_reserve2: "reserve_with_env demo_env (new_state 8) demo_identity 2 = (Inr demo_token2, demo_reserved2)"
  by (simp add: reserve_with_env_def demo_env_def demo_reserved2_def demo_token2_def ReserveSearchSessionIds_def
      ValidateCurrentCatalogIdentity_def PurgeSessionsLocked_def new_state_def ActivateSearchSessionGenerationLocked_def
      RemoveAllSessionsLocked_def reserve_activated_def ResolvePerSessionIdCapacity_def required_ids_def TryAddSize_def
      size_max_def evict_loop.simps commit_reservation_def NextReservationIdLocked_def Let_def
      BuildCatalogGenerationKey_def)

lemma demo_publish2:
  "\<exists>c st'. publish_with_env demo_env demo_reserved2 [1, 2] cr demo_identity 1 demo_token2 = (Inr c, st')"
  by (simp add: publish_with_env_def demo_env_def demo_reserved2_def demo_token2_def PublishSearchSession_def
      ValidateCurrentCatalogIdentity_def PurgeSessionsLocked_def new_state_def ActivateSearchSessionGenerationLocked_def
      publish_activated_def publish_checked_def ResolvePerSessionIdCapacity_def required_ids_def TryAddSize_def
      size_max_def evict_loop.simps commit_session_def RemoveReservationLocked_def Let_def)

lemma demo_page:
  obtains page c st' where "SearchPage demo_db (\<lambda>_. Inr []) demo_env (new_state 8) demo_query False False = (Inr page, st')"
    "NextCursor page = Some c"
proof -
  let ?cr = "BuildSessionCriteria demo_query []"
  obtain books where m: "materialize demo_db demo_query [] 2 0 1 = Inr ([1, 2], books)" using demo_materialize by blast
  obtain c st' where p: "publish_with_env demo_env demo_reserved2 [1, 2] ?cr demo_identity 1 demo_token2 = (Inr c, st')"
    using demo_publish2 by blast
  have v: "validate_with_env demo_env demo_identity = Inr ()"
    by (simp add: validate_with_env_def demo_env_def ValidateCurrentCatalogIdentity_def)
  have pp: "publish_page demo_env demo_reserved2 ?cr demo_identity 1 demo_token2 (Inr ([1, 2], books)) = (Inr (books, c), st')"
    unfolding publish_page_def using p v by (simp del: One_nat_def)
  have b: "page_end demo_query 2 = 1" "page_start demo_query 2 = 0" by (simp_all add: page_end_def page_start_def demo_query_def)
  have f: "first_page demo_db demo_env (new_state 8) demo_query [] ?cr demo_identity 2 result
      = (Inr (result\<lparr>PageBooks := books, NextCursor := Some c\<rparr>), st')" for result
    unfolding first_page_unfold b demo_reserve2 by (simp add: m pp del: One_nat_def)
  have "BuildFtsQuery (\<lambda>_. Inr []) demo_query = Inr []" "Cursor demo_query = None"
    by (simp_all add: BuildFtsQuery_def HasText_def demo_query_def)
  then have "\<exists>result. SearchPage demo_db (\<lambda>_. Inr []) demo_env (new_state 8) demo_query False False
      = first_page demo_db demo_env (new_state 8) demo_query [] ?cr demo_identity 2 result"
    by (simp add: SearchPage_def demo_identity_read count_and_facets_def demo_count size_max_def facets_if_def Let_def) blast
  then show thesis using f that by fastforce
qed

lemma demo_env_ok: "env_ok demo_env"
  by (simp add: env_ok_def demo_env_def)

text \<open>C6: Whatever a search request meets (errors of the database, a catalog that changes between its steps, a
  full cursor capacity), it leaves the cursor sessions with their accounting intact and leaves no
  reservation of its own behind.\<close>

theorem search_page_leaves_no_reservation:
  assumes "session_inv st" "env_ok env" "SearchPage db tok env st q l g = (res, st')"
  shows "session_inv st' \<and> (\<forall>i r. map_of (Reservations st') i = Some r \<longrightarrow> map_of (Reservations st) i = Some r)"
  using assms(3)
proof (cases rule: SearchPage_cases)
  case (1 e)
  then show ?thesis using assms(1) by simp
next
  case (2 identity f)
  obtain sres where "ReadSearchSessionSlice st (ReserveNow env) q (BuildSessionCriteria q f) identity = (sres, st')"
    using 2(3) by (auto simp: continuation_page_def split: prod.splits sum.splits)
  from ReadSlice_ok [OF assms(1) this] show ?thesis by (simp add: keeps_def reservations_kept_def)
next
  case (3 identity f tot result)
  from first_page_ok [OF assms(1,2) 3(5,3)] show ?thesis by (simp add: reservations_kept_def)
qed

theorem search_page_leaves_no_reservation_witness:
  "\<exists>res st'. SearchPage demo_db (\<lambda>_. Inr []) demo_env (new_state 8) demo_query False False = (Inr res, st')
    \<and> session_inv st' \<and> (\<forall>i. map_of (Reservations st') i = None)"
proof -
  obtain page c st' where p: "SearchPage demo_db (\<lambda>_. Inr []) demo_env (new_state 8) demo_query False False = (Inr page, st')"
    by (rule demo_page)
  from search_page_leaves_no_reservation [OF new_state_inv demo_env_ok p]
  have s: "session_inv st'" "\<And>i r. map_of (Reservations st') i = Some r \<Longrightarrow> False" by (simp_all add: new_state_def)
  then have "map_of (Reservations st') i = None" for i by (cases "map_of (Reservations st') i") auto
  with p s(1) show ?thesis by blast
qed

text \<open>C14: A first page with a next cursor is consistent with the session behind the cursor: the session holds
  as many ids as the reported total, the books of the page are those of its ids from the offset on (in
  order, at most the limit), the cursor stands right behind them, and a continuation of the same query
  matches the criteria stored with it.\<close>

theorem first_page_matches_session:
  assumes "session_inv st" "env_ok env" "SearchPage db tok env st q l g = (Inr page, st')"
    and "Cursor q = None" "NextCursor page = Some c"
  shows "\<exists>s f. map_of (Sessions st') (SessionIdUtf8 c) = Some s \<and> TotalCount page = Some (length (BookIds s))
    \<and> map BookId (PageBooks page) = take (Limit q) (drop (Offset q) (BookIds s))
    \<and> Position c = Offset q + Limit q \<and> Position c < length (BookIds s) \<and> FirstContinuationPosition s = Position c
    \<and> BuildFtsQuery tok q = Inr f \<and> Criteria s = BuildSessionCriteria q f"
  using assms(3)
proof (cases rule: SearchPage_cases)
  case (1 e)
  then show ?thesis by simp
next
  case (2 identity f)
  then show ?thesis using assms(4) by simp
next
  case (3 identity f tot result)
  from first_page_ok [OF assms(1,2) 3(5,3)] assms(5) obtain ids where
    p: "map_of (Sessions st') (SessionIdUtf8 c) = Some (published_session ids (BuildSessionCriteria q f) identity (Position c) (PublishNow env))"
      "length ids = tot" "Position c = page_end q tot" "page_end q tot < tot"
      "map BookId (PageBooks page) = take (page_end q tot - page_start q tot) (drop (page_start q tot) ids)"
      "TotalCount page = TotalCount result" by blast
  have "page_start q tot = Offset q" "page_end q tot = Offset q + Limit q"
    using p(4) unfolding page_end_def page_start_def by linarith+
  then show ?thesis using p 3(1,4) by (auto simp: published_session_def)
qed

theorem first_page_matches_session_witness:
  "\<exists>page (c :: SSearchCursor) (s :: SSession) st'. SearchPage demo_db (\<lambda>_. Inr []) demo_env (new_state 8) demo_query False False = (Inr page, st')
    \<and> map_of (Sessions st') (SessionIdUtf8 c) = Some s \<and> Position c = 1 \<and> TotalCount page = Some (length (BookIds s))"
proof -
  obtain page c st' where p: "SearchPage demo_db (\<lambda>_. Inr []) demo_env (new_state 8) demo_query False False = (Inr page, st')"
    "NextCursor page = Some c" by (rule demo_page)
  have q: "Cursor demo_query = None" "Offset demo_query + Limit demo_query = 1" by (simp_all add: demo_query_def)
  from first_page_matches_session [OF new_state_inv demo_env_ok p(1) q(1) p(2)] obtain s where
    "map_of (Sessions st') (SessionIdUtf8 c) = Some s" "TotalCount page = Some (length (BookIds s))"
    "Position c = Offset demo_query + Limit demo_query" by blast
  then show ?thesis using p(1) q(2) by auto
qed

text \<open>C15: A continuation page has exactly the books of its slice of the session's ids, in order, and the
  cursor of the next slice; a missing row is an integrity error, never a shorter page.\<close>

theorem continuation_page_exact:
  assumes "continuation_page db st now q cr identity = (Inr page, st')"
  shows "\<exists>slice. ReadSearchSessionSlice st now q cr identity = (Inr slice, st')
    \<and> map BookId (PageBooks page) = SliceIds slice \<and> NextCursor page = SliceNextCursor slice \<and> TotalCount page = None"
  using assms
  by (auto simp: continuation_page_def and_then_Inr split: prod.splits sum.splits if_splits dest: ReadBooks_ids)

lemma demo_slice:
  "\<exists>st'. ReadSearchSessionSlice (demo_published\<lparr>Sessions := [(''sid'', published_session [9, 1] demo_criteria demo_identity 1 5)]\<rparr>) 6
     (demo_query\<lparr>Cursor := Some (published_cursor ''sid'' demo_identity 1)\<rparr>) demo_criteria demo_identity
    = (Inr \<lparr>SliceIds = [1], SliceNextCursor = None\<rparr>, st')"
  by (simp add: ReadSearchSessionSlice_def read_slice_locked_def PurgeSessionsLocked_def demo_published_def demo_query_def
      published_cursor_def published_session_def demo_identity_def cursor_IsValid_def GSearchSessionTtl_def session_slice_def)

theorem continuation_page_exact_witness:
  "\<exists>page st'. continuation_page demo_db (demo_published\<lparr>Sessions := [(''sid'', published_session [9, 1] demo_criteria demo_identity 1 5)]\<rparr>) 6
      (demo_query\<lparr>Cursor := Some (published_cursor ''sid'' demo_identity 1)\<rparr>) demo_criteria demo_identity = (Inr page, st')
    \<and> map BookId (PageBooks page) = [1] \<and> NextCursor page = None"
proof -
  let ?st = "demo_published\<lparr>Sessions := [(''sid'', published_session [9, 1] demo_criteria demo_identity 1 5)]\<rparr>"
    and ?q = "demo_query\<lparr>Cursor := Some (published_cursor ''sid'' demo_identity 1)\<rparr>"
  obtain st' where s: "ReadSearchSessionSlice ?st 6 ?q demo_criteria demo_identity = (Inr \<lparr>SliceIds = [1], SliceNextCursor = None\<rparr>, st')"
    using demo_slice by blast
  obtain b where "ReadBooks demo_db [1] = Inr [b]" using demo_books by blast
  then obtain page where p: "continuation_page demo_db ?st 6 ?q demo_criteria demo_identity = (Inr page, st')"
    using s by (simp add: continuation_page_def)
  from continuation_page_exact [OF p] s p show ?thesis by auto
qed

end
