(* ===== verification/Base64_Url.thy ===== *)
theory Base64_Url
  imports Prelude
begin

text \<open>
  The base64url coding of catalog cursors, \<open>libs/Server/BookListCursor.cpp\<close>: the two bit-buffer loops
  over a 32-bit \<open>buffer\<close>, whose high bits wrap, and their equality with a definition by groups.
\<close>

section \<open>The code\<close>

definition GMaxEncodedCursorBytes :: nat where
  "GMaxEncodedCursorBytes = 8192"

definition GBase64UrlAlphabet :: string where
  "GBase64UrlAlphabet = ''ABCDEFGHIJKLMNOPQRSTUVWXYZabcdefghijklmnopqrstuvwxyz0123456789-_''"

text \<open>\<open>(buffer << k) | b\<close> on \<open>std::uint32_t\<close>.\<close>

definition shift_in :: "nat \<Rightarrow> nat \<Rightarrow> nat \<Rightarrow> nat" where
  "shift_in k buffer b = take_bit 32 (push_bit k buffer) OR b"

fun encode_drain :: "nat \<Rightarrow> nat \<Rightarrow> string \<Rightarrow> nat \<times> string" where
  "encode_drain buffer bitCount result =
    (if bitCount \<ge> 6
     then encode_drain buffer (bitCount - 6) (result @ [GBase64UrlAlphabet ! (drop_bit (bitCount - 6) buffer AND 0x3F)])
     else (bitCount, result))"

declare encode_drain.simps [simp del]

fun encode_loop :: "string \<Rightarrow> nat \<Rightarrow> nat \<Rightarrow> string \<Rightarrow> nat \<times> nat \<times> string" where
  "encode_loop [] buffer bitCount result = (buffer, bitCount, result)"
| "encode_loop (byte # bytes) buffer bitCount result =
    (let buffer' = shift_in 8 buffer (byte_of byte);
         (bitCount', result') = encode_drain buffer' (bitCount + 8) result
     in encode_loop bytes buffer' bitCount' result')"

definition EncodeBase64Url :: "string \<Rightarrow> string" where
  "EncodeBase64Url bytes =
    (let (buffer, bitCount, result) = encode_loop bytes 0 0 [] in
     if bitCount > 0 then result @ [GBase64UrlAlphabet ! (take_bit 32 (push_bit (6 - bitCount) buffer) AND 0x3F)] else result)"

text \<open>The signed result of \<open>DecodeBase64UrlCharacter\<close>, with \<open>None\<close> for \<open>-1\<close>.\<close>

definition DecodeBase64UrlCharacter :: "char \<Rightarrow> nat option" where
  "DecodeBase64UrlCharacter value =
    (let c = byte_of value in
     if 65 \<le> c \<and> c \<le> 90 then Some (c - 65)
     else if 97 \<le> c \<and> c \<le> 122 then Some (c - 97 + 26)
     else if 48 \<le> c \<and> c \<le> 57 then Some (c - 48 + 52)
     else if value = CHR ''-'' then Some 62
     else if value = CHR ''_'' then Some 63
     else None)"

fun decode_loop :: "string \<Rightarrow> nat \<Rightarrow> nat \<Rightarrow> string \<Rightarrow> (nat \<times> nat \<times> string) option" where
  "decode_loop [] buffer bitCount result = Some (buffer, bitCount, result)"
| "decode_loop (character # rest) buffer bitCount result =
    (case DecodeBase64UrlCharacter character of
       None \<Rightarrow> None
     | Some v \<Rightarrow>
         let buffer' = shift_in 6 buffer v; bitCount' = bitCount + 6 in
         if bitCount' \<ge> 8
         then decode_loop rest buffer' (bitCount' - 8) (result @ [chr_of (drop_bit (bitCount' - 8) buffer' AND 0xFF)])
         else decode_loop rest buffer' bitCount' result)"

text \<open>\<open>None\<close>: \<open>std::invalid_argument("Catalog cursor encoding is invalid.")\<close>.\<close>

definition DecodeBase64Url :: "string \<Rightarrow> string option" where
  "DecodeBase64Url encoded =
    (if encoded = [] \<or> length encoded > GMaxEncodedCursorBytes \<or> length encoded mod 4 = 1 then None
     else case decode_loop encoded 0 0 [] of
            None \<Rightarrow> None
          | Some (buffer, bitCount, result) \<Rightarrow>
              if bitCount > 0 \<and> buffer AND (2 ^ bitCount - 1) \<noteq> 0 then None else Some result)"

section \<open>Groups\<close>

fun sextets :: "nat list \<Rightarrow> nat list" where
  "sextets [] = []"
| "sextets [a] = [a div 4, a mod 4 * 16]"
| "sextets [a, b] = [a div 4, a mod 4 * 16 + b div 16, b mod 16 * 4]"
| "sextets (a # b # c # rest) = a div 4 # (a mod 4 * 16 + b div 16) # (b mod 16 * 4 + c div 64) # c mod 64 # sextets rest"

fun octets :: "nat list \<Rightarrow> nat list option" where
  "octets [] = Some []"
| "octets [u] = None"
| "octets [u, v] = (if v mod 16 = 0 then Some [u * 4 + v div 16] else None)"
| "octets [u, v, w] = (if w mod 4 = 0 then Some [u * 4 + v div 16, v mod 16 * 16 + w div 4] else None)"
| "octets (u # v # w # x # rest) =
    map_option (\<lambda>bs. (u * 4 + v div 16) # (v mod 16 * 16 + w div 4) # (w mod 4 * 64 + x) # bs) (octets rest)"

lemma octets_sextets: "list_all (\<lambda>b. b < 256) bs \<Longrightarrow> octets (sextets bs) = Some bs"
proof (induction bs rule: sextets.induct)
  case (2 a)
  have "a div 4 * 4 + a mod 4 = a" by simp
  then show ?case by simp
next
  case (3 a b)
  have b: "b div 16 < 16" using 3 by (simp add: less_mult_imp_div_less)
  have "a div 4 * 4 + a mod 4 = a" "b div 16 * 16 + b mod 16 = b" by simp_all
  then show ?case using b by simp
next
  case (4 a b c rest)
  have b: "b div 16 < 16" "c div 64 < 4" using 4 by (simp_all add: less_mult_imp_div_less)
  have "a div 4 * 4 + a mod 4 = a" "b div 16 * 16 + b mod 16 = b" "c div 64 * 64 + c mod 64 = c" by simp_all
  then show ?case using b 4 by simp
qed simp

lemma sextets_octets: "octets vs = Some bs \<Longrightarrow> list_all (\<lambda>v. v < 64) vs \<Longrightarrow> sextets bs = vs \<and> list_all (\<lambda>b. b < 256) bs"
proof (induction vs arbitrary: bs rule: octets.induct)
  case (3 u v)
  have v: "v div 16 < 4" using 3 by (simp add: less_mult_imp_div_less)
  have "v div 16 * 16 + v mod 16 = v" by simp
  then show ?case using 3 v by (auto split: if_splits)
next
  case (4 u v w)
  have v: "v div 16 < 4" "w div 4 < 16" using 4 by (simp_all add: less_mult_imp_div_less)
  have "v div 16 * 16 + v mod 16 = v" "w div 4 * 4 + w mod 4 = w" by simp_all
  moreover have "v mod 16 < 16" by simp
  ultimately show ?case using 4 v by (auto split: if_splits)
next
  case (5 u v w x rest)
  then obtain cs where cs: "octets rest = Some cs"
    "bs = (u * 4 + v div 16) # (v mod 16 * 16 + w div 4) # (w mod 4 * 64 + x) # cs" by auto
  have v: "v div 16 < 4" "w div 4 < 16" using 5 by (simp_all add: less_mult_imp_div_less)
  have e: "v div 16 * 16 + v mod 16 = v" "w div 4 * 4 + w mod 4 = w" and m: "v mod 16 < 16" "w mod 4 < 4" by simp_all
  have "v mod 16 * 16 + w div 4 < 256" "w mod 4 * 64 + x < 256" using m v 5(3) by (simp_all, linarith+)
  then show ?case using 5 cs v e by simp
qed auto

section \<open>The loops compute the groups\<close>

lemma shift_in_eq: "b < 2 ^ k \<Longrightarrow> k \<le> 32 \<Longrightarrow> shift_in k x b = take_bit (32 - k) x * 2 ^ k + b"
  by (simp add: shift_in_def take_bit_push_bit or_shift_nat)

lemma low_bits: "n \<le> k \<Longrightarrow> take_bit k x mod 2 ^ n = (x :: nat) mod 2 ^ n"
  by (simp add: take_bit_eq_mod mod_mod_cancel le_imp_power_dvd)

lemma shifted_bits: "(x * 2 ^ (j + n) + b) div 2 ^ j mod 2 ^ m = (x mod 2 ^ (m - n)) * 2 ^ n + b div 2 ^ j"
  if "b < 2 ^ (j + n)" "n \<le> m" for x b :: nat
proof -
  have b: "b div 2 ^ j < 2 ^ n" using that(1) by (simp add: less_mult_imp_div_less power_add mult.commute)
  have "(x * 2 ^ (j + n) + b) div 2 ^ j = x * 2 ^ n + b div 2 ^ j"
    by (simp add: power_add mult.assoc) (metis add.commute div_mult_self4 mult.commute mult.left_commute power_not_zero zero_neq_numeral)
  moreover have "(x * 2 ^ n + b div 2 ^ j) mod 2 ^ m = (x mod 2 ^ (m - n)) * 2 ^ n + b div 2 ^ j"
  proof -
    have m: "2 ^ m = (2::nat) ^ n * 2 ^ (m - n)" using that(2) by (simp flip: power_add)
    have "(x * 2 ^ n + b div 2 ^ j) div 2 ^ n = x" "(x * 2 ^ n + b div 2 ^ j) mod 2 ^ n = b div 2 ^ j" using b by simp_all
    then show ?thesis unfolding m mod_mult2_eq by (simp add: mult.commute)
  qed
  ultimately show ?thesis by simp
qed

lemma drain_6: "encode_drain x 8 r = (2, r @ [GBase64UrlAlphabet ! (x div 4 mod 64)])"
  "encode_drain x 10 r = (4, r @ [GBase64UrlAlphabet ! (x div 16 mod 64)])"
  "encode_drain x 12 r = (0, r @ [GBase64UrlAlphabet ! (x div 64 mod 64), GBase64UrlAlphabet ! (x mod 64)])"
  by (simp_all add: encode_drain.simps drop_bit_eq_div and_0x3F)

text \<open>One step of the encoder on each of the three positions in a group, for any contents of the high bits.\<close>

lemma encode_byte:
  "shift_in 8 x (byte_of c) div 4 mod 64 = byte_of c div 4" "shift_in 8 x (byte_of c) div 16 mod 64 = x mod 4 * 16 + byte_of c div 16"
  "shift_in 8 x (byte_of c) div 64 mod 64 = x mod 16 * 4 + byte_of c div 64" "shift_in 8 x (byte_of c) mod 64 = byte_of c mod 64"
  "shift_in 8 x (byte_of c) mod 4 = byte_of c mod 4" "shift_in 8 x (byte_of c) mod 16 = byte_of c mod 16"
proof -
  have b: "byte_of c < (2::nat) ^ 8" by simp
  have e: "shift_in 8 x (byte_of c) = take_bit 24 x * 2 ^ 8 + byte_of c" using shift_in_eq [OF b] by simp
  have l: "take_bit 24 x mod 4 = x mod 4" "take_bit 24 x mod 16 = x mod 16"
    using low_bits [of 2 24 x] low_bits [of 4 24 x] by simp_all
  show "shift_in 8 x (byte_of c) div 4 mod 64 = byte_of c div 4"
    using shifted_bits [of "byte_of c" 2 6 6 "take_bit 24 x"] by (simp add: e)
  show "shift_in 8 x (byte_of c) div 16 mod 64 = x mod 4 * 16 + byte_of c div 16"
    using shifted_bits [of "byte_of c" 4 4 6 "take_bit 24 x"] l by (simp add: e)
  show "shift_in 8 x (byte_of c) div 64 mod 64 = x mod 16 * 4 + byte_of c div 64"
    using shifted_bits [of "byte_of c" 6 2 6 "take_bit 24 x"] l by (simp add: e)
  have "(y * 256 + z) mod 64 = z mod 64" "(y * 256 + z) mod 4 = z mod 4" "(y * 256 + z) mod 16 = z mod 16" for y z :: nat
    using mod_mult_self3 [of "y * 4" 64 z] mod_mult_self3 [of "y * 64" 4 z] mod_mult_self3 [of "y * 16" 16 z]
    by (simp_all add: mult.assoc)
  then show "shift_in 8 x (byte_of c) mod 64 = byte_of c mod 64" "shift_in 8 x (byte_of c) mod 4 = byte_of c mod 4"
    "shift_in 8 x (byte_of c) mod 16 = byte_of c mod 16" by (simp_all add: e)
qed

lemma flush_bits: "take_bit 32 (push_bit 4 y) AND 0x3F = y mod 4 * 16" "take_bit 32 (push_bit 2 y) AND 0x3F = y mod 16 * 4" for y :: nat
  using mult_mod_right [of 16 y 4] low_bits [of 6 32 "push_bit 4 y"] mult_mod_right [of 4 y 16] low_bits [of 6 32 "push_bit 2 y"]
  by (simp_all add: and_0x3F push_bit_eq_mult mult.commute)

lemma encode_loop_groups:
  "encode_loop s x 0 r = (x', n, r') \<Longrightarrow>
    (if n > 0 then r' @ [GBase64UrlAlphabet ! (take_bit 32 (push_bit (6 - n) x') AND 0x3F)] else r')
      = r @ map (\<lambda>v. GBase64UrlAlphabet ! v) (sextets (map byte_of s))"
proof (induction "map byte_of s :: nat list" arbitrary: s x r rule: sextets.induct)
  case 1
  then show ?case by simp
next
  case (2 a)
  then obtain c where s: "s = [c]" by auto
  then have x: "x' = shift_in 8 x (byte_of c)" and n: "n = 2" "r' = r @ [GBase64UrlAlphabet ! (byte_of c div 4)]"
    using 2 by (simp_all add: drain_6 encode_byte Let_def)
  have "x' mod 4 = byte_of c mod 4" unfolding x by (rule encode_byte)
  then show ?case using s n by (simp add: flush_bits)
next
  case (3 a b)
  then obtain c d where s: "s = [c, d]" by auto
  then have x: "x' = shift_in 8 (shift_in 8 x (byte_of c)) (byte_of d)" and n: "n = 4"
      "r' = r @ [GBase64UrlAlphabet ! (byte_of c div 4), GBase64UrlAlphabet ! (byte_of c mod 4 * 16 + byte_of d div 16)]"
    using 3 by (simp_all add: drain_6 encode_byte Let_def)
  have "x' mod 16 = byte_of d mod 16" unfolding x by (rule encode_byte)
  then show ?case using s n by (simp add: flush_bits)
next
  case (4 a b c rest)
  then obtain p q t s' where s: "s = p # q # t # s'" by (auto simp: Cons_eq_map_conv)
  then show ?case using 4 by (simp add: drain_6 encode_byte Let_def)
qed

lemma EncodeBase64Url_groups: "EncodeBase64Url s = map (\<lambda>v. GBase64UrlAlphabet ! v) (sextets (map byte_of s))"
  using encode_loop_groups [of s 0 "[]"] by (simp add: EncodeBase64Url_def split: prod.splits)

lemma alphabet_map: "GBase64UrlAlphabet = map chr_of ([65..<91] @ [97..<123] @ [48..<58] @ [45, 95])"
proof -
  have "map byte_of GBase64UrlAlphabet = [65..<91] @ [97..<123] @ [48..<58] @ [45, 95 :: nat]"
    by (simp add: GBase64UrlAlphabet_def)
  moreover have "map chr_of (map byte_of GBase64UrlAlphabet :: nat list) = GBase64UrlAlphabet" by (simp add: comp_def)
  ultimately show ?thesis by simp
qed

lemma alphabet_nth:
  "v < 26 \<Longrightarrow> GBase64UrlAlphabet ! v = chr_of (65 + v)" "26 \<le> v \<Longrightarrow> v < 52 \<Longrightarrow> GBase64UrlAlphabet ! v = chr_of (71 + v)"
  "d < 10 \<Longrightarrow> GBase64UrlAlphabet ! (52 + d) = chr_of (48 + d)"
  "GBase64UrlAlphabet ! 62 = chr_of 45" "GBase64UrlAlphabet ! 63 = chr_of 95"
  unfolding alphabet_map map_append by (simp_all add: nth_append del: upt_rec_numeral)

lemma mark_chars: "CHR ''-'' = chr_of (45::nat)" "CHR ''_'' = chr_of (95::nat)"
  using char_of_char [of "CHR ''-''", where 'a = nat] char_of_char [of "CHR ''_''", where 'a = nat] by (simp_all del: char_of_char)

lemma decode_alphabet:
  assumes "v < 64" shows "DecodeBase64UrlCharacter (GBase64UrlAlphabet ! v) = Some v"
proof -
  consider "v < 26" | "26 \<le> v" "v < 52" | "52 \<le> v" "v < 62" | "v = 62" | "v = 63" using assms by linarith
  then show ?thesis
  proof cases
    case 3
    then obtain d where d: "v = 52 + d" using le_Suc_ex by blast
    then have "d < 10" using 3(2) by simp
    with d show ?thesis by (simp add: alphabet_nth DecodeBase64UrlCharacter_def byte_of_chr_of Let_def mark_chars)
  qed (simp_all add: alphabet_nth DecodeBase64UrlCharacter_def byte_of_chr_of Let_def mark_chars)
qed

lemma decode_character_Some:
  assumes "DecodeBase64UrlCharacter c = Some v" shows "v < 64 \<and> GBase64UrlAlphabet ! v = c"
proof -
  let ?c = "byte_of c :: nat"
  consider "65 \<le> ?c" "?c \<le> 90" "v = ?c - 65" | "97 \<le> ?c" "?c \<le> 122" "v = ?c - 71" | "48 \<le> ?c" "?c \<le> 57" "v = 52 + (?c - 48)"
    | "c = chr_of 45" "v = 62" | "c = chr_of 95" "v = 63"
    using assms unfolding DecodeBase64UrlCharacter_def Let_def mark_chars by (auto split: if_splits)
  then show ?thesis
  proof cases
    case 3
    then have "GBase64UrlAlphabet ! (52 + (?c - 48)) = chr_of (48 + (?c - 48))" by (intro alphabet_nth) linarith
    then show ?thesis using 3 by simp
  qed (simp_all add: alphabet_nth)
qed

text \<open>One step of the decoder on the positions of a group.\<close>

lemma decode_sextet:
  assumes v: "v < 64"
  shows "drop_bit 4 (shift_in 6 x v) AND 0xFF = x mod 64 * 4 + v div 16" "drop_bit 2 (shift_in 6 x v) AND 0xFF = x mod 16 * 16 + v div 4"
    "shift_in 6 x v AND 0xFF = x mod 4 * 64 + v"
    "shift_in 6 x v mod 64 = v" "shift_in 6 x v mod 16 = v mod 16" "shift_in 6 x v mod 4 = v mod 4"
proof -
  have b: "v < (2::nat) ^ 6" using v by simp
  have e: "shift_in 6 x v = take_bit 26 x * 2 ^ 6 + v" using shift_in_eq [OF b] by simp
  have l: "take_bit 26 x mod 64 = x mod 64" "take_bit 26 x mod 16 = x mod 16" "take_bit 26 x mod 4 = x mod 4"
    using low_bits [of 6 26 x] low_bits [of 4 26 x] low_bits [of 2 26 x] by simp_all
  show "drop_bit 4 (shift_in 6 x v) AND 0xFF = x mod 64 * 4 + v div 16"
    using shifted_bits [of v 4 2 8 "take_bit 26 x"] v l by (simp add: e drop_bit_eq_div and_0xFF)
  show "drop_bit 2 (shift_in 6 x v) AND 0xFF = x mod 16 * 16 + v div 4"
    using shifted_bits [of v 2 4 8 "take_bit 26 x"] v l by (simp add: e drop_bit_eq_div and_0xFF)
  show "shift_in 6 x v AND 0xFF = x mod 4 * 64 + v"
    using shifted_bits [of v 0 6 8 "take_bit 26 x"] v l by (simp add: e and_0xFF)
  have "(y * 64 + z) mod 16 = z mod 16" "(y * 64 + z) mod 4 = z mod 4" for y z :: nat
    using mod_mult_self3 [of "y * 4" 16 z] mod_mult_self3 [of "y * 16" 4 z] by (simp_all add: mult.assoc)
  then show "shift_in 6 x v mod 64 = v" "shift_in 6 x v mod 16 = v mod 16" "shift_in 6 x v mod 4 = v mod 4"
    using v by (simp_all add: e)
qed

lemma decode_step:
  assumes "DecodeBase64UrlCharacter c = Some v"
  shows "decode_loop (c # cs) x 0 r = decode_loop cs (shift_in 6 x v) 6 r"
    "decode_loop (c # cs) x 6 r = decode_loop cs (shift_in 6 x v) 4 (r @ [chr_of (x mod 64 * 4 + v div 16)])"
    "decode_loop (c # cs) x 4 r = decode_loop cs (shift_in 6 x v) 2 (r @ [chr_of (x mod 16 * 16 + v div 4)])"
    "decode_loop (c # cs) x 2 r = decode_loop cs (shift_in 6 x v) 0 (r @ [chr_of (x mod 4 * 64 + v)])"
  using assms decode_character_Some [OF assms] by (simp_all add: decode_sextet Let_def)

definition sextet_values :: "string \<Rightarrow> nat list \<Rightarrow> bool" where
  "sextet_values cs vs \<longleftrightarrow> map DecodeBase64UrlCharacter cs = map Some vs"

lemma sextet_values_small: "sextet_values cs vs \<Longrightarrow> list_all (\<lambda>v. v < 64) vs \<and> map (\<lambda>v. GBase64UrlAlphabet ! v) vs = cs"
  by (induction vs arbitrary: cs) (auto simp: sextet_values_def Cons_eq_map_conv dest: decode_character_Some)

definition finish_decode :: "(nat \<times> nat \<times> string) option \<Rightarrow> string option" where
  "finish_decode m = (case m of
      None \<Rightarrow> None
    | Some (buffer, bitCount, result) \<Rightarrow> if bitCount > 0 \<and> buffer AND (2 ^ bitCount - 1) \<noteq> 0 then None else Some result)"

lemma decode_loop_groups:
  "sextet_values cs vs \<Longrightarrow> length vs mod 4 \<noteq> 1 \<Longrightarrow>
    finish_decode (decode_loop cs x 0 r) = map_option (\<lambda>bs. r @ map chr_of bs) (octets vs)"
proof (induction vs arbitrary: cs x r rule: octets.induct)
  case 1
  then show ?case by (simp add: sextet_values_def finish_decode_def)
next
  case (2 u)
  then show ?case by simp
next
  case (3 u v)
  then obtain c d where s: "cs = [c, d]" "DecodeBase64UrlCharacter c = Some u" "DecodeBase64UrlCharacter d = Some v"
    by (auto simp: sextet_values_def map_eq_Cons_conv)
  note small = decode_character_Some [OF s(2)] decode_character_Some [OF s(3)]
  have "y AND 15 = y mod 16" for y :: nat by (simp add: and_0x0F)
  then show ?case using s small by (simp add: decode_step decode_sextet finish_decode_def)
next
  case (4 u v w)
  then obtain c d e where s: "cs = [c, d, e]" "DecodeBase64UrlCharacter c = Some u" "DecodeBase64UrlCharacter d = Some v"
      "DecodeBase64UrlCharacter e = Some w" by (auto simp: sextet_values_def map_eq_Cons_conv)
  note small = decode_character_Some [OF s(2)] decode_character_Some [OF s(3)] decode_character_Some [OF s(4)]
  have "y AND 3 = y mod 4" for y :: nat using and_low_nat [of y 2] by (simp add: mask_eq_exp_minus_1)
  then show ?case using s small by (simp add: decode_step decode_sextet finish_decode_def)
next
  case (5 u v w y rest)
  then obtain c d e f cs' where s: "cs = c # d # e # f # cs'" "DecodeBase64UrlCharacter c = Some u" "DecodeBase64UrlCharacter d = Some v"
      "DecodeBase64UrlCharacter e = Some w" "DecodeBase64UrlCharacter f = Some y" and r: "sextet_values cs' rest"
    by (auto simp: sextet_values_def map_eq_Cons_conv)
  note small = decode_character_Some [OF s(2)] decode_character_Some [OF s(3)] decode_character_Some [OF s(4)] decode_character_Some [OF s(5)]
  have "length rest mod 4 \<noteq> 1" using 5(3) by (simp add: mod_Suc split: if_splits)
  then show ?case using 5(1) [OF r] s small by (simp add: decode_step decode_sextet option.map_comp comp_def)
qed

lemma decode_loop_None: "\<not> (\<exists>vs. sextet_values cs vs) \<Longrightarrow> decode_loop cs x n r = None"
proof (induction cs arbitrary: x n r)
  case Nil
  then show ?case by (simp add: sextet_values_def)
next
  case (Cons c cs)
  show ?case
  proof (cases "DecodeBase64UrlCharacter c")
    case (Some v)
    have "\<not> (\<exists>vs. sextet_values cs vs)"
    proof
      assume "\<exists>vs. sextet_values cs vs"
      then obtain vs where "sextet_values cs vs" by blast
      then have "sextet_values (c # cs) (v # vs)" using Some by (simp add: sextet_values_def)
      then show False using Cons.prems by blast
    qed
    then show ?thesis using Cons.IH Some by (simp add: Let_def)
  qed simp
qed

lemma DecodeBase64Url_groups:
  "DecodeBase64Url cs = Some bytes \<longleftrightarrow>
    cs \<noteq> [] \<and> length cs \<le> GMaxEncodedCursorBytes
    \<and> (\<exists>vs bs. sextet_values cs vs \<and> length vs mod 4 \<noteq> 1 \<and> octets vs = Some bs \<and> bytes = map chr_of bs)"
proof (cases "\<exists>vs. sextet_values cs vs")
  case False
  then show ?thesis using decode_loop_None [of cs 0 0 "[]"] by (simp add: DecodeBase64Url_def)
next
  case True
  then obtain vs where v: "sextet_values cs vs" by blast
  then have u: "sextet_values cs ws \<longleftrightarrow> ws = vs" for ws by (auto simp: sextet_values_def)
  have l: "length vs = length cs" using v unfolding sextet_values_def by (metis length_map)
  have f: "DecodeBase64Url cs = (if cs = [] \<or> length cs > GMaxEncodedCursorBytes \<or> length cs mod 4 = 1 then None
      else finish_decode (decode_loop cs 0 0 []))" by (simp add: DecodeBase64Url_def finish_decode_def)
  show ?thesis unfolding f u using decode_loop_groups [OF v, of 0 "[]"] l by auto
qed

lemma length_sextets: "length (sextets bs) = (4 * length bs + 2) div 3 \<and> length (sextets bs) mod 4 \<noteq> 1"
  by (induction bs rule: sextets.induct) (auto simp: mod_Suc)

lemma sextets_small: "list_all (\<lambda>b. b < 256) bs \<Longrightarrow> list_all (\<lambda>v. v < 64) (sextets bs)"
proof (induction bs rule: sextets.induct)
  case (3 a b)
  have "a mod 4 < 4" "b mod 16 < 16" by simp_all
  moreover have d: "a div 4 < 64" "b div 16 < 16" using 3 by (simp_all add: less_mult_imp_div_less)
  ultimately have "a mod 4 * 16 + b div 16 < 64" "b mod 16 * 4 < 64" by linarith+
  then show ?case using d by simp
next
  case (4 a b c rest)
  have "a mod 4 < 4" "b mod 16 < 16" by simp_all
  moreover have d: "a div 4 < 64" "b div 16 < 16" "c div 64 < 4" using 4 by (simp_all add: less_mult_imp_div_less)
  ultimately have "a mod 4 * 16 + b div 16 < 64" "b mod 16 * 4 + c div 64 < 64" by linarith+
  then show ?case using 4 d by simp
qed (auto simp: less_mult_imp_div_less)

text \<open>The decoder accepts exactly the encodings within its limit, and decodes each to what was encoded.\<close>

lemma base64url_exact:
  "DecodeBase64Url s = Some bytes \<longleftrightarrow> s = EncodeBase64Url bytes \<and> s \<noteq> [] \<and> length s \<le> GMaxEncodedCursorBytes"
proof
  assume "DecodeBase64Url s = Some bytes"
  then obtain vs bs where d: "s \<noteq> []" "length s \<le> GMaxEncodedCursorBytes" "sextet_values s vs" "octets vs = Some bs"
    "bytes = map chr_of bs" by (auto simp: DecodeBase64Url_groups)
  note small = sextet_values_small [OF d(3)]
  from sextets_octets [OF d(4)] small have b: "sextets bs = vs" "list_all (\<lambda>b. b < 256) bs" by simp_all
  then have "map byte_of bytes = bs" using d(5) by (auto simp: list_all_iff byte_of_chr_of intro: map_idI)
  then show "s = EncodeBase64Url bytes \<and> s \<noteq> [] \<and> length s \<le> GMaxEncodedCursorBytes"
    using b(1) small d(1,2) by (simp add: EncodeBase64Url_groups)
next
  assume s: "s = EncodeBase64Url bytes \<and> s \<noteq> [] \<and> length s \<le> GMaxEncodedCursorBytes"
  let ?vs = "sextets (map byte_of bytes)"
  have b: "list_all (\<lambda>b. b < 256) (map byte_of bytes)" by (simp add: list_all_iff)
  have "sextet_values s ?vs"
    using s sextets_small [OF b] by (simp add: sextet_values_def EncodeBase64Url_groups list_all_iff decode_alphabet)
  moreover have "octets ?vs = Some (map byte_of bytes)" by (rule octets_sextets [OF b])
  moreover have "length ?vs mod 4 \<noteq> 1" using length_sextets by blast
  moreover have "map chr_of (map byte_of bytes :: nat list) = bytes" by (simp add: comp_def)
  ultimately show "DecodeBase64Url s = Some bytes" unfolding DecodeBase64Url_groups using s by metis
qed

end
