(* ===== verification/Book_List_Cursor.thy ===== *)
theory Book_List_Cursor
  imports Base64_Url Sql_Query Sha256
begin

text \<open>
  The cursors that clients hold, \<open>libs/Server/BookListCursor.cpp\<close>: a JSON object with the session, the
  catalog, the position and a fingerprint of the query, in base64url. nlohmann's JSON is a parameter
  (parsing, printing and the checked accessors, \<open>None\<close> for an exception) and so is OpenSSL's SHA-256.
\<close>

section \<open>Data\<close>

record SBookListRequest =
  ReqTextUtf8 :: string
  ReqSearchFields :: SSearchFieldScope
  ReqLanguages :: "string list"
  ReqGenresUtf8 :: "string list"
  ReqSortBy :: "EBookSort option"
  ReqSortDirection :: "ESortDirection option"
  ReqOffset :: nat
  ReqLimit :: nat
  ReqCursor :: "SSearchCursor option"
  IncludeFacets :: bool
  IncludeLanguageFacets :: bool
  IncludeGenreFacets :: bool

datatype json = JBool bool | JInt int | JString string | JArray "json list" | JObject "(string \<times> json) list"

record 'j json_lib =
  json_parse :: "string \<Rightarrow> 'j option"
  json_dump :: "json \<Rightarrow> string option"
  json_is_object :: "'j \<Rightarrow> bool"
  json_size :: "'j \<Rightarrow> nat"
  json_at :: "'j \<Rightarrow> string \<Rightarrow> 'j option"
  json_get_int :: "'j \<Rightarrow> int option"
  json_get_string :: "'j \<Rightarrow> string option"
  json_get_size :: "'j \<Rightarrow> nat option"

text \<open>\<open>CursorOther\<close> is any exception other than \<open>std::invalid_argument\<close>.\<close>

datatype cursor_error = CursorInvalidArgument string | CursorOther

section \<open>The code\<close>

definition cursor_CanonicalizeValues :: "string list \<Rightarrow> bool \<Rightarrow> string list" where
  "cursor_CanonicalizeValues values doNormalize =
    remdups_adj (sort (if doNormalize then map NormalizeText values else values))"

definition sort_number :: "EBookSort \<Rightarrow> int" where
  "sort_number s = (case s of SortTitle \<Rightarrow> 0 | SortAuthor \<Rightarrow> 1 | SortDateAdded \<Rightarrow> 2)"

definition direction_number :: "ESortDirection \<Rightarrow> int" where
  "direction_number d = (case d of Ascending \<Rightarrow> 0 | Descending \<Rightarrow> 1)"

definition canonical_query :: "SBookListRequest \<Rightarrow> json" where
  "canonical_query request =
    (let fields = (if HasAnyField (ReqSearchFields request) then ReqSearchFields request
                   else \<lparr>ScopeTitle = True, ScopeAuthors = True, ScopeDescription = True\<rparr>);
         sort' = (case ReqSortBy request of None \<Rightarrow> SortTitle | Some s \<Rightarrow> s);
         direction = (case ReqSortDirection request of None \<Rightarrow> Ascending | Some d \<Rightarrow> d) in
     JObject [(''text'', JString (NormalizeText (ReqTextUtf8 request))),
       (''fields'', JObject [(''title'', JBool (ScopeTitle fields)), (''authors'', JBool (ScopeAuthors fields)),
          (''description'', JBool (ScopeDescription fields))]),
       (''languages'', JArray (map JString (cursor_CanonicalizeValues (ReqLanguages request) False))),
       (''genres'', JArray (map JString (cursor_CanonicalizeValues (ReqGenresUtf8 request) True))),
       (''sort'', JInt (sort_number sort')), (''direction'', JInt (direction_number direction))])"

text \<open>\<open>None\<close>: printing or hashing threw.\<close>

definition BuildQueryFingerprint :: "'j json_lib \<Rightarrow> 'c evp \<Rightarrow> SBookListRequest \<Rightarrow> string option" where
  "BuildQueryFingerprint lib evp request =
    (case json_dump lib (canonical_query request) of
       None \<Rightarrow> None
     | Some printed \<Rightarrow> (case ComputeBytes evp printed of Inl _ \<Rightarrow> None | Inr fingerprint \<Rightarrow> Some fingerprint))"

definition IsSessionId :: "string \<Rightarrow> bool" where
  "IsSessionId value \<longleftrightarrow> length value = 32 \<and> list_all IsAsciiHexDigit value"

definition cursor_fields :: "SSearchCursor \<Rightarrow> string \<Rightarrow> (string \<times> json) list" where
  "cursor_fields cursor fingerprint =
    [(''version'', JInt 1), (''session'', JString (SessionIdUtf8 cursor)), (''source'', JString (SourceFingerprintUtf8 cursor)),
     (''snapshot'', JString (CatalogSnapshotIdUtf8 cursor)), (''position'', JInt (int (Position cursor))),
     (''query'', JString fingerprint)]"

definition cursor_Encode :: "'j json_lib \<Rightarrow> 'c evp \<Rightarrow> SSearchCursor \<Rightarrow> SBookListRequest \<Rightarrow> cursor_error + string" where
  "cursor_Encode lib evp cursor request =
    (if \<not> cursor_IsValid cursor \<or> \<not> IsSessionId (SessionIdUtf8 cursor)
     then Inl (CursorInvalidArgument ''Catalog cursor state is invalid.'')
     else case BuildQueryFingerprint lib evp request of
       None \<Rightarrow> Inl CursorOther
     | Some fingerprint \<Rightarrow>
     (case json_dump lib (JObject (cursor_fields cursor fingerprint)) of
       None \<Rightarrow> Inl CursorOther
     | Some printed \<Rightarrow> Inr (EncodeBase64Url printed)))"

definition cursor_invalid :: "cursor_error + SSearchCursor" where
  "cursor_invalid = Inl (CursorInvalidArgument ''Catalog cursor is invalid.'')"

definition cursor_mismatch :: "cursor_error + SSearchCursor" where
  "cursor_mismatch = Inl (CursorInvalidArgument ''Catalog cursor does not match this query.'')"

definition string_field :: "'j json_lib \<Rightarrow> 'j \<Rightarrow> string \<Rightarrow> string option" where
  "string_field lib payload key = Option.bind (json_at lib payload key) (json_get_string lib)"

text \<open>The part of \<open>Decode\<close> behind the check of version and query.\<close>

definition decode_state :: "'j json_lib \<Rightarrow> 'j \<Rightarrow> cursor_error + SSearchCursor" where
  "decode_state lib payload =
    (case (string_field lib payload ''session'', string_field lib payload ''source'', string_field lib payload ''snapshot'',
           Option.bind (json_at lib payload ''position'') (json_get_size lib)) of
       (Some session, Some source, Some snapshot, Some position) \<Rightarrow>
         let cursor = \<lparr>SessionIdUtf8 = session, SourceFingerprintUtf8 = source, CatalogSnapshotIdUtf8 = snapshot,
               Position = position\<rparr> in
         if \<not> cursor_IsValid cursor \<or> \<not> IsSessionId (SessionIdUtf8 cursor)
            \<or> length (SourceFingerprintUtf8 cursor) > 256 \<or> length (CatalogSnapshotIdUtf8 cursor) > 256
         then Inl (CursorInvalidArgument ''Catalog cursor state is invalid.'')
         else Inr cursor
     | _ \<Rightarrow> cursor_invalid)"

definition decode_payload :: "'j json_lib \<Rightarrow> 'c evp \<Rightarrow> SBookListRequest \<Rightarrow> 'j \<Rightarrow> cursor_error + SSearchCursor" where
  "decode_payload lib evp request payload =
    (if \<not> json_is_object lib payload \<or> json_size lib payload \<noteq> 6 then cursor_mismatch
     else case Option.bind (json_at lib payload ''version'') (json_get_int lib) of
       None \<Rightarrow> cursor_invalid
     | Some version \<Rightarrow>
     if version \<noteq> 1 then cursor_mismatch
     else (case (string_field lib payload ''query'', BuildQueryFingerprint lib evp request) of
       (Some query, Some fingerprint) \<Rightarrow> if query \<noteq> fingerprint then cursor_mismatch else decode_state lib payload
     | _ \<Rightarrow> cursor_invalid))"

definition cursor_Decode :: "'j json_lib \<Rightarrow> 'c evp \<Rightarrow> string \<Rightarrow> SBookListRequest \<Rightarrow> cursor_error + SSearchCursor" where
  "cursor_Decode lib evp encodedCursor request =
    (case DecodeBase64Url encodedCursor of
       None \<Rightarrow> Inl (CursorInvalidArgument ''Catalog cursor encoding is invalid.'')
     | Some text' \<Rightarrow>
     (case json_parse lib text' of
       None \<Rightarrow> cursor_invalid
     | Some payload \<Rightarrow> decode_payload lib evp request payload))"

section \<open>What is relied on of the JSON library\<close>

text \<open>A printed object is parsed to an object with as many members, whose members read back as what was
  stored, integers within the ranges of the accessors.\<close>

definition json_reads_back :: "'j json_lib \<Rightarrow> (string \<times> json) list \<Rightarrow> bool" where
  "json_reads_back lib members \<longleftrightarrow>
    (\<forall>s. json_dump lib (JObject members) = Some s \<longrightarrow> s \<noteq> [] \<and>
      (\<exists>j. json_parse lib s = Some j \<and> json_is_object lib j \<and> json_size lib j = length members
        \<and> list_all (\<lambda>(k, v). \<exists>e. json_at lib j k = Some e \<and>
            (case v of
               JString t \<Rightarrow> json_get_string lib e = Some t
             | JInt n \<Rightarrow> (-(2 ^ 31) \<le> n \<and> n < 2 ^ 31 \<longrightarrow> json_get_int lib e = Some n)
                       \<and> (0 \<le> n \<and> n < 2 ^ 64 \<longrightarrow> json_get_size lib e = Some (nat n))
             | _ \<Rightarrow> True)) members))"

lemma EncodeBase64Url_ne: "s \<noteq> [] \<Longrightarrow> EncodeBase64Url s \<noteq> []"
  unfolding EncodeBase64Url_groups by (cases "map byte_of s :: nat list" rule: sextets.cases) auto

text \<open>What the encoder of cursor bytes writes is exactly what the decoder accepts, within its limit of 8192
  characters: every accepted text is the encoding of its bytes (there are no two spellings of a cursor,
  stray bits and bad characters are refused), and encoding loses nothing.\<close>

theorem cursor_bytes_exact:
  "DecodeBase64Url s = Some bytes \<longleftrightarrow> s = EncodeBase64Url bytes \<and> s \<noteq> [] \<and> length s \<le> GMaxEncodedCursorBytes"
  by (rule base64url_exact)

text \<open>C30: A cursor handed to a client comes back unchanged with a query of the same fingerprint and is refused
  with any other query, as long as it fits the limits of the decoder.\<close>

theorem cursor_round_trip:
  assumes "cursor_Encode lib evp c request = Inr s" "length s \<le> GMaxEncodedCursorBytes"
    and "BuildQueryFingerprint lib evp request = Some f" "json_reads_back lib (cursor_fields c f)"
    and "length (SourceFingerprintUtf8 c) \<le> 256" "length (CatalogSnapshotIdUtf8 c) \<le> 256" "Position c < 2 ^ 64"
    and "BuildQueryFingerprint lib evp request' = Some f'"
  shows "cursor_Decode lib evp s request' = (if f' = f then Inr c else cursor_mismatch)"
proof -
  have v: "cursor_IsValid c" "IsSessionId (SessionIdUtf8 c)"
    using assms(1) by (auto simp: cursor_Encode_def split: if_splits)
  obtain p where p: "json_dump lib (JObject (cursor_fields c f)) = Some p" "s = EncodeBase64Url p"
    using assms(1,3) v by (auto simp: cursor_Encode_def split: option.splits)
  from assms(4) p(1) obtain j where j: "p \<noteq> []" "json_parse lib p = Some j" "json_is_object lib j" "json_size lib j = 6"
    and m: "list_all (\<lambda>(k, v). \<exists>e. json_at lib j k = Some e \<and>
            (case v of
               JString t \<Rightarrow> json_get_string lib e = Some t
             | JInt n \<Rightarrow> (-(2 ^ 31) \<le> n \<and> n < 2 ^ 31 \<longrightarrow> json_get_int lib e = Some n)
                       \<and> (0 \<le> n \<and> n < 2 ^ 64 \<longrightarrow> json_get_size lib e = Some (nat n))
             | _ \<Rightarrow> True)) (cursor_fields c f)"
    by (auto simp: json_reads_back_def cursor_fields_def)
  have d: "DecodeBase64Url s = Some p"
    using p(2) assms(2) EncodeBase64Url_ne [OF j(1)] by (simp add: base64url_exact)
  have f: "Option.bind (json_at lib j ''version'') (json_get_int lib) = Some 1"
    "string_field lib j ''session'' = Some (SessionIdUtf8 c)" "string_field lib j ''source'' = Some (SourceFingerprintUtf8 c)"
    "string_field lib j ''snapshot'' = Some (CatalogSnapshotIdUtf8 c)" "string_field lib j ''query'' = Some f"
    "Option.bind (json_at lib j ''position'') (json_get_size lib) = Some (Position c)"
    using m assms(7) by (auto simp: cursor_fields_def string_field_def)
  have "decode_state lib j = Inr c" using f v assms(5,6) by (cases c) (simp add: decode_state_def)
  then show ?thesis using d j f assms(8) by (auto simp: cursor_Decode_def decode_payload_def)
qed

text \<open>A library that knows one document, and a digest that is constant.\<close>

definition demo_digest :: "unit evp" where
  "demo_digest = \<lparr>evp_new = Some (), evp_update = (\<lambda>_ _. Some ()), evp_final = (\<lambda>_. Some (''ab'', 2)), evp_size = 2\<rparr>"

definition demo_fingerprint :: string where
  "demo_fingerprint = GSha256Prefix @ hex_of ''ab''"

definition demo_cursor :: SSearchCursor where
  "demo_cursor = \<lparr>SessionIdUtf8 = replicate 32 CHR ''a'', SourceFingerprintUtf8 = ''fp'', CatalogSnapshotIdUtf8 = ''s'', Position = 1\<rparr>"

definition demo_json :: "json json_lib" where
  "demo_json = \<lparr>json_parse = (\<lambda>_. Some (JObject (cursor_fields demo_cursor demo_fingerprint))), json_dump = (\<lambda>_. Some ''{}''),
     json_is_object = (\<lambda>_. True), json_size = (\<lambda>_. 6),
     json_at = (\<lambda>j k. case j of JObject members \<Rightarrow> map_of members k | _ \<Rightarrow> None),
     json_get_int = (\<lambda>j. case j of JInt n \<Rightarrow> Some n | _ \<Rightarrow> None),
     json_get_string = (\<lambda>j. case j of JString t \<Rightarrow> Some t | _ \<Rightarrow> None),
     json_get_size = (\<lambda>j. case j of JInt n \<Rightarrow> Some (nat n) | _ \<Rightarrow> None)\<rparr>"

definition demo_request :: SBookListRequest where
  "demo_request = \<lparr>ReqTextUtf8 = [], ReqSearchFields = \<lparr>ScopeTitle = True, ScopeAuthors = True, ScopeDescription = True\<rparr>,
     ReqLanguages = [], ReqGenresUtf8 = [], ReqSortBy = None, ReqSortDirection = None, ReqOffset = 0, ReqLimit = 50,
     ReqCursor = None, IncludeFacets = True, IncludeLanguageFacets = True, IncludeGenreFacets = True\<rparr>"

lemma demo_query_fingerprint: "BuildQueryFingerprint demo_json demo_digest request = Some demo_fingerprint"
  by (simp add: BuildQueryFingerprint_def demo_json_def demo_digest_def demo_fingerprint_def ComputeBytes_def CreateContext_def
      sha_Update_def sha_Finalize_def)

lemma demo_reads_back: "json_reads_back demo_json (cursor_fields demo_cursor demo_fingerprint)"
  by (simp add: json_reads_back_def demo_json_def cursor_fields_def)

theorem cursor_round_trip_witness:
  "cursor_Decode demo_json demo_digest (EncodeBase64Url ''{}'') demo_request = Inr demo_cursor"
proof -
  have e: "cursor_Encode demo_json demo_digest demo_cursor demo_request = Inr (EncodeBase64Url ''{}'')"
    using demo_query_fingerprint [of demo_request]
    by (simp add: cursor_Encode_def cursor_IsValid_def IsSessionId_def demo_cursor_def IsAsciiHexDigit_def list_all_iff)
      (simp add: demo_json_def)
  have l: "length (EncodeBase64Url ''{}'') \<le> GMaxEncodedCursorBytes"
    by (simp add: EncodeBase64Url_groups GMaxEncodedCursorBytes_def)
  from cursor_round_trip [OF e l demo_query_fingerprint demo_reads_back _ _ _ demo_query_fingerprint, of demo_request]
  show ?thesis by (simp add: demo_cursor_def)
qed

end
