(* ===== verification/Http_Requests.thy ===== *)
theory Http_Requests
  imports Book_List_Cursor String_Utils Inpx_Split
begin

text \<open>
  The edge of the HTTP server: errors and their mapping (\<open>libs/Server/HttpError.cpp\<close>, \<open>MapDomainError\<close>),
  bearer authentication (\<open>libs/Server/AuthMiddleware.cpp\<close>) and the parsing of query parameters of
  \<open>libs/Server/HttpServer.cpp\<close>. A request of cpp-httplib is its decoded query parameters, in order, and
  its body.
\<close>

section \<open>Errors\<close>

record SHttpError =
  Status :: nat
  CodeUtf8 :: string
  HttpMessageUtf8 :: string

definition BadRequest :: "string \<Rightarrow> SHttpError" where
  "BadRequest message = \<lparr>Status = 400, CodeUtf8 = ''bad_request'', HttpMessageUtf8 = message\<rparr>"

definition Unauthorized :: "string \<Rightarrow> SHttpError" where
  "Unauthorized message = \<lparr>Status = 401, CodeUtf8 = ''unauthorized'', HttpMessageUtf8 = message\<rparr>"

definition NotFoundError :: "string \<Rightarrow> SHttpError" where
  "NotFoundError message = \<lparr>Status = 404, CodeUtf8 = ''not_found'', HttpMessageUtf8 = message\<rparr>"

definition Conflict :: "string \<Rightarrow> SHttpError" where
  "Conflict message = \<lparr>Status = 409, CodeUtf8 = ''conflict'', HttpMessageUtf8 = message\<rparr>"

definition PayloadTooLarge :: "string \<Rightarrow> SHttpError" where
  "PayloadTooLarge message = \<lparr>Status = 413, CodeUtf8 = ''payload_too_large'', HttpMessageUtf8 = message\<rparr>"

definition TooManyRequests :: "string \<Rightarrow> SHttpError" where
  "TooManyRequests message = \<lparr>Status = 429, CodeUtf8 = ''too_many_requests'', HttpMessageUtf8 = message\<rparr>"

definition BackendNotReady :: SHttpError where
  "BackendNotReady = \<lparr>Status = 503, CodeUtf8 = ''backend_not_ready'', HttpMessageUtf8 = ''The catalog service is not ready yet.''\<rparr>"

definition InternalServerError :: SHttpError where
  "InternalServerError = \<lparr>Status = 500, CodeUtf8 = ''internal_error'', HttpMessageUtf8 = ''Internal server error.''\<rparr>"

definition MapDomainError :: "EDomainErrorCode \<Rightarrow> string \<Rightarrow> SHttpError" where
  "MapDomainError code what =
    (case code of
       Validation \<Rightarrow> BadRequest what
     | NotFound \<Rightarrow> NotFoundError what
     | ConverterUnavailable \<Rightarrow> Conflict what
     | Cancellation \<Rightarrow> Conflict what
     | ConverterTimeout \<Rightarrow> \<lparr>Status = 504, CodeUtf8 = ''converter_timeout'', HttpMessageUtf8 = what\<rparr>
     | CatalogSnapshotChanged \<Rightarrow> \<lparr>Status = 409, CodeUtf8 = ''catalog_snapshot_changed'', HttpMessageUtf8 = what\<rparr>
     | CatalogCursorExpired \<Rightarrow> \<lparr>Status = 409, CodeUtf8 = ''catalog_cursor_expired'', HttpMessageUtf8 = what\<rparr>
     | CatalogCursorCapacityExceeded \<Rightarrow> \<lparr>Status = 409, CodeUtf8 = ''catalog_cursor_capacity_exceeded'', HttpMessageUtf8 = what\<rparr>
     | CatalogCursorInvalid \<Rightarrow> \<lparr>Status = 400, CodeUtf8 = ''invalid_cursor'', HttpMessageUtf8 = what\<rparr>
     | ParserFailure \<Rightarrow> InternalServerError
     | ConverterFailed \<Rightarrow> InternalServerError
     | IntegrityIssue \<Rightarrow> InternalServerError)"

section \<open>Authentication\<close>

record SAuthResult =
  Authorized :: bool
  AuthErrorCodeUtf8 :: string
  AuthMessageUtf8 :: string

definition byte_at :: "string \<Rightarrow> nat \<Rightarrow> nat" where
  "byte_at s index = (if index < length s then byte_of (s ! index) else 0)"

fun constant_time_loop :: "string \<Rightarrow> string \<Rightarrow> nat list \<Rightarrow> nat \<Rightarrow> nat" where
  "constant_time_loop left right [] difference = difference"
| "constant_time_loop left right (index # rest) difference =
    constant_time_loop left right rest (difference OR (byte_at left index XOR byte_at right index))"

definition ConstantTimeEquals :: "string \<Rightarrow> string \<Rightarrow> bool" where
  "ConstantTimeEquals left right \<longleftrightarrow>
    constant_time_loop left right [0..<max (length left) (length right)] (length left XOR length right) = 0"

definition Authorize :: "string \<Rightarrow> string option \<Rightarrow> SAuthResult" where
  "Authorize tokenUtf8 authorizationHeader =
    (if tokenUtf8 = [] then \<lparr>Authorized = True, AuthErrorCodeUtf8 = [], AuthMessageUtf8 = []\<rparr>
     else case authorizationHeader of
       None \<Rightarrow> \<lparr>Authorized = False, AuthErrorCodeUtf8 = ''unauthorized'', AuthMessageUtf8 = ''Authentication is required.''\<rparr>
     | Some header \<Rightarrow>
         if \<not> ConstantTimeEquals header (''Bearer '' @ tokenUtf8)
         then \<lparr>Authorized = False, AuthErrorCodeUtf8 = ''unauthorized'', AuthMessageUtf8 = ''Authentication failed.''\<rparr>
         else \<lparr>Authorized = True, AuthErrorCodeUtf8 = [], AuthMessageUtf8 = []\<rparr>)"

section \<open>Query parameters\<close>

record http_request =
  Params :: "(string \<times> string) list"
  Body :: string

definition values_of :: "http_request \<Rightarrow> string \<Rightarrow> string list" where
  "values_of request name = map snd (filter (\<lambda>p. fst p = name) (Params request))"

fun split_csv_loop :: "string \<Rightarrow> string \<Rightarrow> string list \<Rightarrow> string list" where
  "split_csv_loop [] current result = (if current \<noteq> [] then result @ [current] else result)"
| "split_csv_loop (ch # rest) current result =
    (if ch = CHR '','' then split_csv_loop rest [] (if current \<noteq> [] then result @ [current] else result)
     else split_csv_loop rest (current @ [ch]) result)"

definition SplitCsvValues :: "string \<Rightarrow> string list" where
  "SplitCsvValues valueUtf8 = split_csv_loop valueUtf8 [] []"

definition ReadCsvQueryValues :: "http_request \<Rightarrow> string \<Rightarrow> string list" where
  "ReadCsvQueryValues request name = concat (map SplitCsvValues (values_of request name))"

definition ReadSingleQueryValue :: "http_request \<Rightarrow> string \<Rightarrow> SHttpError + string option" where
  "ReadSingleQueryValue request name =
    (case values_of request name of
       [] \<Rightarrow> Inr None
     | [v] \<Rightarrow> Inr (Some v)
     | _ \<Rightarrow> Inl (BadRequest (''Query parameter '' @ [squote] @ name @ [squote] @ '' must appear at most once.'')))"

definition parameter_error :: "string \<Rightarrow> string \<Rightarrow> SHttpError" where
  "parameter_error name what = BadRequest (''Query parameter '' @ [squote] @ name @ [squote] @ what)"

definition ParseSizeQueryValue :: "string \<Rightarrow> string \<Rightarrow> SHttpError + nat" where
  "ParseSizeQueryValue valueUtf8 fieldName =
    (if valueUtf8 = [] \<or> hd valueUtf8 = CHR ''-'' then Inl (parameter_error fieldName '' must be a non-negative integer.'')
     else case from_chars 0 (2 ^ 64 - 1) valueUtf8 of
       None \<Rightarrow> Inl (parameter_error fieldName '' must be a non-negative integer.'')
     | Some (n, rest) \<Rightarrow>
         if rest \<noteq> [] then Inl (parameter_error fieldName '' must be a non-negative integer.'') else Inr (nat n))"

definition ParseBoolQueryValue :: "string \<Rightarrow> string \<Rightarrow> SHttpError + bool" where
  "ParseBoolQueryValue valueUtf8 fieldName =
    (let v = ToLowerAscii valueUtf8 in
     if v = ''true'' \<or> v = ''1'' \<or> v = ''yes'' then Inr True
     else if v = ''false'' \<or> v = ''0'' \<or> v = ''no'' then Inr False
     else Inl (parameter_error fieldName '' must be true or false.''))"

fun search_fields_loop :: "string list \<Rightarrow> SSearchFieldScope \<Rightarrow> SHttpError + SSearchFieldScope" where
  "search_fields_loop [] scope = Inr scope"
| "search_fields_loop (field # rest) scope =
    (let normalized = ToLowerAscii field in
     if normalized = ''title'' then search_fields_loop rest (scope\<lparr>ScopeTitle := True\<rparr>)
     else if normalized = ''authors'' \<or> normalized = ''author'' then search_fields_loop rest (scope\<lparr>ScopeAuthors := True\<rparr>)
     else if normalized = ''annotation'' \<or> normalized = ''description'' then search_fields_loop rest (scope\<lparr>ScopeDescription := True\<rparr>)
     else Inl (parameter_error ''fields'' '' contains an unsupported field.''))"

definition all_fields :: SSearchFieldScope where
  "all_fields = \<lparr>ScopeTitle = True, ScopeAuthors = True, ScopeDescription = True\<rparr>"

definition ParseSearchFields :: "http_request \<Rightarrow> SHttpError + SSearchFieldScope" where
  "ParseSearchFields request =
    and_then (ReadSingleQueryValue request ''fields'') (\<lambda>v. case v of
       None \<Rightarrow> Inr all_fields
     | Some chosen \<Rightarrow>
         and_then (search_fields_loop (SplitCsvValues chosen) \<lparr>ScopeTitle = False, ScopeAuthors = False, ScopeDescription = False\<rparr>)
           (\<lambda>scope. if \<not> HasAnyField scope then Inl (parameter_error ''fields'' '' must select at least one field.'') else Inr scope))"

definition ParseBookSort :: "http_request \<Rightarrow> SHttpError + EBookSort option" where
  "ParseBookSort request =
    and_then (ReadSingleQueryValue request ''sort'') (\<lambda>v. case v of
       None \<Rightarrow> Inr None
     | Some s \<Rightarrow>
         if s = [] then Inr None
         else let normalized = ToLowerAscii s in
           if normalized = ''title'' then Inr (Some SortTitle)
           else if normalized = ''author'' \<or> normalized = ''authors'' then Inr (Some SortAuthor)
           else if normalized = ''added'' \<or> normalized = ''dateadded'' then Inr (Some SortDateAdded)
           else Inl (parameter_error ''sort'' '' is unsupported.''))"

definition ParseSortDirection :: "http_request \<Rightarrow> SHttpError + ESortDirection option" where
  "ParseSortDirection request =
    and_then (ReadSingleQueryValue request ''direction'') (\<lambda>v. case v of
       None \<Rightarrow> Inr None
     | Some s \<Rightarrow>
         if s = [] then Inr None
         else let normalized = ToLowerAscii s in
           if normalized = ''asc'' \<or> normalized = ''ascending'' then Inr (Some Ascending)
           else if normalized = ''desc'' \<or> normalized = ''descending'' then Inr (Some Descending)
           else Inl (parameter_error ''direction'' ('' must be '' @ [squote] @ ''asc'' @ [squote] @ '' or '' @ [squote] @ ''desc'' @ [squote] @ ''.'')))"

definition ParseOptionalInt64Param :: "http_request \<Rightarrow> string \<Rightarrow> SHttpError + int option" where
  "ParseOptionalInt64Param request name =
    and_then (ReadSingleQueryValue request name) (\<lambda>v. case v of
       None \<Rightarrow> Inr None
     | Some s \<Rightarrow>
         if s = [] then Inr None
         else case from_chars (- (2 ^ 63)) (2 ^ 63 - 1) s of
           None \<Rightarrow> Inl (parameter_error name '' must be an integer.'')
         | Some (n, rest) \<Rightarrow> if rest \<noteq> [] then Inl (parameter_error name '' must be an integer.'') else Inr (Some n))"

text \<open>\<open>std::clamp\<close> and \<open>std::min\<close>.\<close>

definition clamp :: "nat \<Rightarrow> nat \<Rightarrow> nat \<Rightarrow> nat" where
  "clamp v lo hi = (if v < lo then lo else if hi < v then hi else v)"

definition parse_offset :: "string option \<Rightarrow> SHttpError + nat" where
  "parse_offset offset =
    (case offset of
       None \<Rightarrow> Inr 0
     | Some v \<Rightarrow> and_then (ParseSizeQueryValue v ''offset'') (\<lambda>n.
         if n > int64_max then Inl (parameter_error ''offset'' '' exceeds the supported SQLite range.'') else Inr n))"

definition parse_limit :: "string option \<Rightarrow> nat \<Rightarrow> SHttpError + nat" where
  "parse_limit limit maxPageSize =
    (case limit of
       None \<Rightarrow> Inr (min 50 maxPageSize)
     | Some v \<Rightarrow> and_then (ParseSizeQueryValue v ''limit'') (\<lambda>n. Inr (clamp n 1 maxPageSize)))"

text \<open>\<open>Decode\<close> turns every exception into \<open>std::invalid_argument\<close>; another one would be an internal error.\<close>

definition parse_cursor ::
    "'j json_lib \<Rightarrow> 'c evp \<Rightarrow> string option \<Rightarrow> string option \<Rightarrow> SBookListRequest \<Rightarrow> SHttpError + SBookListRequest" where
  "parse_cursor lib evp cursor offset result =
    (case cursor of
       None \<Rightarrow> Inr result
     | Some c \<Rightarrow>
         if offset \<noteq> None
         then Inl (BadRequest (''Query parameters '' @ [squote] @ ''cursor'' @ [squote] @ '' and '' @ [squote] @ ''offset'' @ [squote]
           @ '' cannot be combined.''))
         else case cursor_Decode lib evp c result of
           Inl (CursorInvalidArgument message) \<Rightarrow> Inl \<lparr>Status = 400, CodeUtf8 = ''invalid_cursor'', HttpMessageUtf8 = message\<rparr>
         | Inl CursorOther \<Rightarrow> Inl InternalServerError
         | Inr decoded \<Rightarrow> Inr (result\<lparr>ReqCursor := Some decoded\<rparr>))"

definition ParseBookListRequest :: "'j json_lib \<Rightarrow> 'c evp \<Rightarrow> http_request \<Rightarrow> nat \<Rightarrow> SHttpError + SBookListRequest" where
  "ParseBookListRequest lib evp request maxPageSize =
    and_then (ReadSingleQueryValue request ''text'') (\<lambda>textValue.
    and_then (ParseSearchFields request) (\<lambda>fields.
    and_then (ParseBookSort request) (\<lambda>sortBy.
    and_then (ParseSortDirection request) (\<lambda>direction.
    and_then (ReadSingleQueryValue request ''offset'') (\<lambda>offsetValue.
    and_then (parse_offset offsetValue) (\<lambda>offset.
    and_then (ReadSingleQueryValue request ''limit'') (\<lambda>limitValue.
    and_then (parse_limit limitValue maxPageSize) (\<lambda>limit.
    and_then (ReadSingleQueryValue request ''includeFacets'') (\<lambda>facetsValue.
    and_then (case facetsValue of None \<Rightarrow> Inr True | Some v \<Rightarrow> ParseBoolQueryValue v ''includeFacets'') (\<lambda>facets.
    and_then (ReadSingleQueryValue request ''cursor'') (\<lambda>cursorValue.
    parse_cursor lib evp cursorValue offsetValue
      \<lparr>ReqTextUtf8 = (case textValue of None \<Rightarrow> [] | Some t \<Rightarrow> t), ReqSearchFields = fields,
       ReqLanguages = ReadCsvQueryValues request ''languages'', ReqGenresUtf8 = ReadCsvQueryValues request ''genres'',
       ReqSortBy = sortBy, ReqSortDirection = direction, ReqOffset = offset, ReqLimit = limit, ReqCursor = None,
       IncludeFacets = facets, IncludeLanguageFacets = facets, IncludeGenreFacets = facets\<rparr>)))))))))))"

definition ParseBookId :: "string \<Rightarrow> SHttpError + int" where
  "ParseBookId value =
    (if value = [] \<or> hd value = CHR ''-'' then Inl (BadRequest ''Book id must be a positive integer.'')
     else case from_chars (- (2 ^ 63)) (2 ^ 63 - 1) value of
       None \<Rightarrow> Inl (BadRequest ''Book id must be a positive integer.'')
     | Some (n, rest) \<Rightarrow>
         if rest \<noteq> [] \<or> n \<le> 0 then Inl (BadRequest ''Book id must be a positive integer.'') else Inr n)"

datatype EServerDownloadFormat = OriginalDownload | EpubDownload

definition ParseDownloadFormat :: "http_request \<Rightarrow> SHttpError + EServerDownloadFormat" where
  "ParseDownloadFormat request =
    and_then (ReadSingleQueryValue request ''format'') (\<lambda>v.
      let s = ToLowerAscii (case v of None \<Rightarrow> ''original'' | Some s \<Rightarrow> s) in
      if s = ''original'' then Inr OriginalDownload
      else if s = ''epub'' then Inr EpubDownload
      else Inl (parameter_error ''format'' ('' must be '' @ [squote] @ ''original'' @ [squote] @ '' or '' @ [squote] @ ''epub'' @ [squote] @ ''.'')))"

definition MebibytesToBytes :: "nat \<Rightarrow> nat" where
  "MebibytesToBytes n = (if n > size_max div (1024 * 1024) then size_max else n * (1024 * 1024))"

end
