(* ===== verification/Path_Safety.thy ===== *)
theory Path_Safety
  imports Http_Requests
begin

text \<open>
  Paths under a root, \<open>libs/Storage/PathSafety.cpp\<close> and \<open>IsSafeRelativePath\<close> of
  \<open>libs/Foundation/FileSystemUtils.cpp\<close>, and the static assets and download headers of
  \<open>libs/Server/HttpServer.cpp\<close>. A POSIX \<open>std::filesystem::path\<close> is whether it is absolute and its
  components, without the empty component of a trailing slash; \<open>lexically_normal\<close> removes dots and folds
  dot-dots, and gives \<open>.\<close> where the components of a relative path cancel. The file system is a parameter: \<open>weakly_canonical\<close>, \<open>exists\<close> and \<open>is_regular_file\<close>.
\<close>

section \<open>Paths\<close>

record path =
  Absolute :: bool
  Parts :: "string list"

definition append_part :: "bool \<Rightarrow> string list \<Rightarrow> string \<Rightarrow> string list" where
  "append_part absolute done part =
    (if part = ''.'' \<or> part = [] then done
     else if part = ''..'' then
       (if done \<noteq> [] \<and> last done \<noteq> ''..'' then butlast done else if absolute then done else done @ [part])
     else done @ [part])"

definition lexically_normal :: "path \<Rightarrow> path" where
  "lexically_normal p =
    (let parts = foldl (append_part (Absolute p)) [] (Parts p) in
     p\<lparr>Parts := if parts = [] \<and> Parts p \<noteq> [] \<and> \<not> Absolute p then [''.''] else parts\<rparr>)"

definition path_join :: "path \<Rightarrow> path \<Rightarrow> path" where
  "path_join a b = (if Absolute b then b else a\<lparr>Parts := Parts a @ Parts b\<rparr>)"

definition relative :: "string list \<Rightarrow> path" where
  "relative parts = \<lparr>Absolute = False, Parts = parts\<rparr>"

record filesystem =
  weakly_canonical :: "path \<Rightarrow> path option"
  exists_path :: "path \<Rightarrow> bool option"
  is_regular_file :: "path \<Rightarrow> bool option"

text \<open>On POSIX a path has no root name, and a root directory exactly when it is absolute; the normal form of a path that is
  not empty is not empty.\<close>

definition IsSafeRelativePath :: "path \<Rightarrow> bool" where
  "IsSafeRelativePath p =
    (if Parts p = [] \<or> Absolute p then False else \<not> list_ex (\<lambda>part. part = ''..'') (Parts (lexically_normal p)))"

definition CanonicalizeExistingPath :: "filesystem \<Rightarrow> path \<Rightarrow> string \<Rightarrow> string + path" where
  "CanonicalizeExistingPath fs p errorMessage =
    (case weakly_canonical fs p of None \<Rightarrow> Inl errorMessage | Some c \<Rightarrow> Inr (lexically_normal c))"

definition BuildValidatedCandidatePath :: "path \<Rightarrow> path \<Rightarrow> string \<Rightarrow> string + path" where
  "BuildValidatedCandidatePath root p unsafePathMessage =
    (let normalizedPath = lexically_normal p in
     if Absolute normalizedPath then Inr normalizedPath
     else if \<not> IsSafeRelativePath normalizedPath then Inl unsafePathMessage
     else Inr (lexically_normal (path_join root normalizedPath)))"

fun within_loop :: "string list \<Rightarrow> string list \<Rightarrow> bool" where
  "within_loop [] candidate = True"
| "within_loop (r # root) [] = False"
| "within_loop (r # root) (c # candidate) = (if r \<noteq> c then False else within_loop root candidate)"

text \<open>The first component that the iteration of an absolute path visits is its root directory.\<close>

definition IsPathWithinRoot :: "path \<Rightarrow> path \<Rightarrow> bool" where
  "IsPathWithinRoot root candidate =
    (let iterate = (\<lambda>p. (if Absolute p then [''/''] else []) @ Parts (lexically_normal p)) in
     within_loop (iterate root) (iterate candidate))"

definition TryResolvePathWithinCanonicalRoot ::
    "filesystem \<Rightarrow> path \<Rightarrow> path \<Rightarrow> string \<Rightarrow> string \<Rightarrow> string + path option" where
  "TryResolvePathWithinCanonicalRoot fs canonicalRoot p unsafePathMessage canonicalizationErrorMessage =
    and_then (BuildValidatedCandidatePath canonicalRoot p unsafePathMessage) (\<lambda>candidatePath.
    and_then (CanonicalizeExistingPath fs candidatePath canonicalizationErrorMessage) (\<lambda>canonicalCandidate.
    if \<not> IsPathWithinRoot canonicalRoot canonicalCandidate then Inl unsafePathMessage
    else case exists_path fs candidatePath of
           None \<Rightarrow> Inl ''filesystem error: cannot get file status''
         | Some present \<Rightarrow> Inr (if present then Some canonicalCandidate else None)))"

definition TryResolvePathWithinRoot :: "filesystem \<Rightarrow> path \<Rightarrow> path \<Rightarrow> string \<Rightarrow> string \<Rightarrow> string + path option" where
  "TryResolvePathWithinRoot fs root p unsafePathMessage canonicalizationErrorMessage =
    and_then (CanonicalizeExistingPath fs root canonicalizationErrorMessage) (\<lambda>canonicalRoot.
    TryResolvePathWithinCanonicalRoot fs canonicalRoot p unsafePathMessage canonicalizationErrorMessage)"

section \<open>Static assets\<close>

definition HexValue :: "char \<Rightarrow> nat option" where
  "HexValue ch =
    (let c = byte_of ch in
     if 48 \<le> c \<and> c \<le> 57 then Some (c - 48)
     else if 65 \<le> c \<and> c \<le> 70 then Some (c - 65 + 10)
     else if 97 \<le> c \<and> c \<le> 102 then Some (c - 97 + 10)
     else None)"

definition static_path_invalid :: SHttpError where
  "static_path_invalid = BadRequest ''Static asset path is invalid.''"

fun decode_segment_loop :: "string \<Rightarrow> string \<Rightarrow> SHttpError + string" where
  "decode_segment_loop [] result = Inr result"
| "decode_segment_loop (ch # rest) result =
    (if ch \<noteq> CHR ''%'' then decode_segment_loop rest (result @ [ch])
     else case rest of
       h # l # rest' \<Rightarrow>
         (case (HexValue h, HexValue l) of
            (Some high, Some low) \<Rightarrow> decode_segment_loop rest' (result @ [chr_of (push_bit 4 high OR low)])
          | _ \<Rightarrow> Inl static_path_invalid)
     | _ \<Rightarrow> Inl static_path_invalid)"

definition DecodeStaticPathSegment :: "string \<Rightarrow> SHttpError + string" where
  "DecodeStaticPathSegment value = decode_segment_loop value []"

definition IsUnsafeStaticSegment :: "string \<Rightarrow> bool" where
  "IsUnsafeStaticSegment segment \<longleftrightarrow>
    segment = [] \<or> segment = ''.'' \<or> segment = ''..'' \<or> hd segment = CHR ''.'' \<or> CHR ''/'' \<in> set segment
    \<or> CHR 0x5C \<in> set segment \<or> CHR '':'' \<in> set segment"

text \<open>\<open>find_last_of\<close>: the position of the last occurrence.\<close>

definition find_last :: "char \<Rightarrow> string \<Rightarrow> nat option" where
  "find_last c s = (if c \<in> set s then Some (length s - 1 - length (takeWhile (\<lambda>x. x \<noteq> c) (rev s))) else None)"

definition HasRequestedFileExtension :: "string \<Rightarrow> bool" where
  "HasRequestedFileExtension requestPath =
    (let segmentStart = (case find_last CHR ''/'' requestPath of None \<Rightarrow> 0 | Some slash \<Rightarrow> slash + 1) in
     case find_last CHR ''.'' requestPath of None \<Rightarrow> False | Some dot \<Rightarrow> dot \<ge> segmentStart + 1)"

definition TryResolveStaticFileWithinRoot :: "filesystem \<Rightarrow> path \<Rightarrow> path \<Rightarrow> path option" where
  "TryResolveStaticFileWithinRoot fs root candidate =
    (case TryResolvePathWithinRoot fs root candidate ''Static asset path escaped the configured root.''
            ''Static asset path could not be canonicalized.'' of
       Inl _ \<Rightarrow> None
     | Inr None \<Rightarrow> None
     | Inr (Some resolved) \<Rightarrow> if is_regular_file fs resolved = Some True then Some resolved else None)"

text \<open>The loop over the segments behind the leading slash: \<open>segmentStart\<close> is always behind a slash, so the rest
  of the path from there is the state; the result are the decoded segments in order.\<close>

function segments_loop :: "string \<Rightarrow> string list \<Rightarrow> SHttpError + string list" where
  "segments_loop rest done =
    (let raw = takeWhile (\<lambda>c. c \<noteq> CHR ''/'') rest;
         continue = (\<lambda>done'. if CHR ''/'' \<in> set rest then segments_loop (drop (length raw + 1) rest) done' else Inr done') in
     if raw \<noteq> [] then
       and_then (DecodeStaticPathSegment raw) (\<lambda>decoded.
         if IsUnsafeStaticSegment decoded then Inl static_path_invalid else continue (done @ [decoded]))
     else continue done)"
  by pat_completeness auto
termination
  by (relation "measure (\<lambda>(rest, _). length rest)") (auto dest: length_pos_if_in_set intro!: diff_less)

declare segments_loop.simps [simp del]

definition GuessStaticContentType :: "string \<Rightarrow> string" where
  "GuessStaticContentType extension =
    (let e = ToLowerAscii extension in
     if e = ''.html'' \<or> e = ''.htm'' then ''text/html; charset=utf-8''
     else if e = ''.js'' \<or> e = ''.mjs'' then ''text/javascript; charset=utf-8''
     else if e = ''.css'' then ''text/css; charset=utf-8''
     else if e = ''.json'' \<or> e = ''.map'' then ''application/json; charset=utf-8''
     else if e = ''.svg'' then ''image/svg+xml''
     else if e = ''.png'' then ''image/png''
     else if e = ''.jpg'' \<or> e = ''.jpeg'' then ''image/jpeg''
     else if e = ''.webp'' then ''image/webp''
     else if e = ''.ico'' then ''image/x-icon''
     else if e = ''.woff2'' then ''font/woff2''
     else if e = ''.txt'' then ''text/plain; charset=utf-8''
     else ''application/octet-stream'')"

text \<open>\<open>path::extension\<close> of a component list.\<close>

definition path_extension :: "path \<Rightarrow> string" where
  "path_extension p =
    (if Parts p = [] \<or> last (Parts p) = ''..'' then []
     else case find_last CHR ''.'' (last (Parts p)) of None \<Rightarrow> [] | Some dot \<Rightarrow> if dot = 0 then [] else drop dot (last (Parts p)))"

record SStaticAssetResponse =
  AssetPath :: path
  ContentTypeUtf8 :: string

definition asset_response :: "path \<Rightarrow> SStaticAssetResponse" where
  "asset_response p = \<lparr>AssetPath = p, ContentTypeUtf8 = GuessStaticContentType (path_extension p)\<rparr>"

definition ResolveStaticAsset :: "filesystem \<Rightarrow> path \<Rightarrow> string \<Rightarrow> SHttpError + SStaticAssetResponse" where
  "ResolveStaticAsset fs root requestPath =
    and_then (if requestPath = [] then Inr [] else segments_loop (drop 1 requestPath) []) (\<lambda>segments.
      let candidate = path_join root (relative (if segments = [] then [''index.html''] else segments)) in
      case TryResolveStaticFileWithinRoot fs root candidate of
        Some resolved \<Rightarrow> Inr (asset_response resolved)
      | None \<Rightarrow>
          if HasRequestedFileExtension requestPath then Inl (NotFoundError ''Static asset was not found.'')
          else case TryResolveStaticFileWithinRoot fs root (path_join root (relative [''index.html''])) of
                 None \<Rightarrow> Inl (NotFoundError ''Static asset was not found.'')
               | Some resolved \<Rightarrow> Inr (asset_response resolved))"

section \<open>Download headers\<close>

definition attr_marks :: string where
  "attr_marks = ''!#$&+-.^_`|~''"

definition IsHeaderAttrChar :: "char \<Rightarrow> bool" where
  "IsHeaderAttrChar ch \<longleftrightarrow>
    (48 \<le> byte_of ch \<and> byte_of ch \<le> 57) \<or> (65 \<le> byte_of ch \<and> byte_of ch \<le> 90) \<or> (97 \<le> byte_of ch \<and> byte_of ch \<le> 122)
    \<or> ch \<in> set attr_marks"

definition header_digits :: string where
  "header_digits = ''0123456789ABCDEF''"

definition PercentEncodeHeaderValue :: "string \<Rightarrow> string" where
  "PercentEncodeHeaderValue valueUtf8 =
    foldl (\<lambda>result ch. if IsHeaderAttrChar ch then result @ [ch]
      else result @ [CHR ''%'', header_digits ! (drop_bit 4 (byte_of ch) AND 0x0F), header_digits ! (byte_of ch AND 0x0F)]) [] valueUtf8"

definition plain_filename_char :: "char \<Rightarrow> bool" where
  "plain_filename_char ch \<longleftrightarrow>
    (48 \<le> byte_of ch \<and> byte_of ch \<le> 57) \<or> (65 \<le> byte_of ch \<and> byte_of ch \<le> 90) \<or> (97 \<le> byte_of ch \<and> byte_of ch \<le> 122)
    \<or> ch = CHR ''.'' \<or> ch = CHR ''-'' \<or> ch = CHR ''_''"

definition BuildAsciiFilenameFallback :: "string \<Rightarrow> string" where
  "BuildAsciiFilenameFallback valueUtf8 =
    (let result = foldl (\<lambda>result ch. result @ [if plain_filename_char ch then ch else CHR ''_'']) [] valueUtf8
     in if result = [] then ''book'' else result)"

definition BuildContentDisposition :: "string \<Rightarrow> string" where
  "BuildContentDisposition fileNameUtf8 =
    ''attachment; filename='' @ [dquote] @ BuildAsciiFilenameFallback fileNameUtf8 @ [dquote]
    @ ''; filename*=UTF-8'' @ [squote, squote] @ PercentEncodeHeaderValue fileNameUtf8"

end
