(* ===== verification/Http_Properties.thy ===== *)
theory Http_Properties
  imports Path_Safety
begin

text \<open>
  What the edge of the server guarantees: exact authentication, validated page requests, static assets
  that stay below their root and download headers that carry any file name safely.
\<close>

section \<open>Authentication\<close>

lemma or_zero_iff: "(a OR b = 0) \<longleftrightarrow> a = 0 \<and> b = 0" for a b :: nat
  by (auto simp: bit_eq_iff bit_simps)

lemma xor_zero_iff: "(a XOR b = 0) \<longleftrightarrow> a = b" for a b :: nat
  by (auto simp: bit_eq_iff bit_simps)

lemma constant_time_loop_zero:
  "constant_time_loop l r is d = 0 \<longleftrightarrow> d = 0 \<and> list_all (\<lambda>i. byte_at l i = byte_at r i) is"
  by (induction "is" arbitrary: d) (auto simp: or_zero_iff xor_zero_iff)

lemma ConstantTimeEquals_iff: "ConstantTimeEquals l r \<longleftrightarrow> l = r"
proof
  assume "ConstantTimeEquals l r"
  then have len: "length l = length r" and b: "list_all (\<lambda>i. byte_at l i = byte_at r i) [0..<length l]"
    by (auto simp: ConstantTimeEquals_def constant_time_loop_zero xor_zero_iff)
  show "l = r"
  proof (rule nth_equalityI [OF len])
    fix i assume "i < length l"
    then show "l ! i = r ! i" using b len by (auto simp: list_all_iff byte_at_def byte_of_eq_iff)
  qed
qed (simp add: ConstantTimeEquals_def constant_time_loop_zero xor_zero_iff list_all_iff)

text \<open>With a token configured, a request is authorised exactly when its header is the bearer header of that
  token, byte for byte; the comparison that looks at every byte decides equality, also for texts of
  different lengths and with zero bytes. Without a token every request is authorised.\<close>

theorem authorize_exact:
  "Authorized (Authorize token header) \<longleftrightarrow> token = [] \<or> header = Some (''Bearer '' @ token)"
  by (cases header) (auto simp: Authorize_def ConstantTimeEquals_iff)

section \<open>Page requests\<close>

lemma ReadSingle_at_most_once: "ReadSingleQueryValue r n = Inr v \<Longrightarrow> length (values_of r n) \<le> 1 \<and> (v = None \<longleftrightarrow> values_of r n = [])"
  by (auto simp: ReadSingleQueryValue_def split: list.splits)

lemmas ReadSingle_once = ReadSingle_at_most_once [THEN conjunct1]

lemma ParseSearchFields_any: "ParseSearchFields r = Inr f \<Longrightarrow> HasAnyField f"
  by (auto simp: ParseSearchFields_def and_then_Inr all_fields_def HasAnyField_def split: option.splits if_splits)

lemma parse_limit_bounds: "parse_limit v m = Inr n \<Longrightarrow> 1 \<le> m \<Longrightarrow> 1 \<le> n \<and> n \<le> m"
  by (auto simp: parse_limit_def and_then_Inr clamp_def split: option.splits if_splits)

lemma parse_offset_bounds: "parse_offset v = Inr n \<Longrightarrow> n \<le> int64_max \<and> (v = None \<longrightarrow> n = 0)"
  by (auto simp: parse_offset_def and_then_Inr split: option.splits if_splits)

lemma decoded_cursor_valid:
  assumes "cursor_Decode lib evp s r = Inr c"
  shows "cursor_IsValid c \<and> IsSessionId (SessionIdUtf8 c)"
proof -
  from assms obtain j where "decode_state lib j = Inr c"
    by (auto simp: cursor_Decode_def decode_payload_def cursor_invalid_def cursor_mismatch_def split: option.splits if_splits)
  then show ?thesis
    by (auto simp: decode_state_def Let_def cursor_invalid_def split: option.splits if_splits)
qed

text \<open>What a parsed page request promises.\<close>

definition request_ok :: "http_request \<Rightarrow> nat \<Rightarrow> SBookListRequest \<Rightarrow> bool" where
  "request_ok request maxPageSize r \<longleftrightarrow>
    1 \<le> ReqLimit r \<and> ReqLimit r \<le> maxPageSize \<and> ReqOffset r \<le> int64_max \<and> HasAnyField (ReqSearchFields r)
    \<and> (\<forall>c. ReqCursor r = Some c \<longrightarrow> cursor_IsValid c \<and> IsSessionId (SessionIdUtf8 c) \<and> ReqOffset r = 0
         \<and> values_of request ''offset'' = [])
    \<and> list_all (\<lambda>n. length (values_of request n) \<le> 1)
        [''text'', ''fields'', ''sort'', ''direction'', ''offset'', ''limit'', ''includeFacets'', ''cursor'']"

lemma parse_cursor_ok:
  assumes "parse_cursor lib evp cv ov r = Inr r'" "ReqCursor r = None"
  shows "\<exists>c. r' = r\<lparr>ReqCursor := c\<rparr> \<and> (\<forall>x. c = Some x \<longrightarrow> cursor_IsValid x \<and> IsSessionId (SessionIdUtf8 x) \<and> ov = None)"
proof (cases cv)
  case None
  then show ?thesis using assms by (intro exI [of _ None]) (simp add: parse_cursor_def)
next
  case (Some s)
  then obtain x where "cursor_Decode lib evp s r = Inr x" "r' = r\<lparr>ReqCursor := Some x\<rparr>" "ov = None"
    using assms by (auto simp: parse_cursor_def split: if_splits sum.splits cursor_error.splits)
  then show ?thesis using decoded_cursor_valid by blast
qed

lemma ParseBookListRequest_parts:
  assumes "ParseBookListRequest lib evp request maxPageSize = Inr r"
  obtains tv fs sb dr ov off lv lim fv cv r0 where
    "ReadSingleQueryValue request ''text'' = Inr tv" "ParseSearchFields request = Inr fs" "ParseBookSort request = Inr sb"
    "ParseSortDirection request = Inr dr" "ReadSingleQueryValue request ''offset'' = Inr ov" "parse_offset ov = Inr off"
    "ReadSingleQueryValue request ''limit'' = Inr lv" "parse_limit lv maxPageSize = Inr lim"
    "ReadSingleQueryValue request ''includeFacets'' = Inr fv" "ReadSingleQueryValue request ''cursor'' = Inr cv"
    "parse_cursor lib evp cv ov r0 = Inr r" "ReqCursor r0 = None" "ReqLimit r0 = lim" "ReqOffset r0 = off" "ReqSearchFields r0 = fs"
  using assms unfolding ParseBookListRequest_def and_then_Inr
  apply (elim exE conjE)
  subgoal premises p for tv fs sb dr ov off lv lim fv fc cv
    by (rule that [OF p(2-10,12,13)]) simp_all
  done

text \<open>A page request that the server accepts is within its bounds: the limit between one and the maximum, the
  offset within what SQLite takes, at least one field to search, every single-valued parameter given at
  most once, and a cursor only if it decodes to a valid one and no offset is given.\<close>

theorem accepted_request_within_bounds:
  assumes "ParseBookListRequest lib evp request maxPageSize = Inr r" "1 \<le> maxPageSize"
  shows "request_ok request maxPageSize r"
proof -
  obtain tv fs sb dr ov off lv lim fv cv r0 where
    p: "ReadSingleQueryValue request ''text'' = Inr tv" "ParseSearchFields request = Inr fs" "ParseBookSort request = Inr sb"
      "ParseSortDirection request = Inr dr" "ReadSingleQueryValue request ''offset'' = Inr ov" "parse_offset ov = Inr off"
      "ReadSingleQueryValue request ''limit'' = Inr lv" "parse_limit lv maxPageSize = Inr lim"
      "ReadSingleQueryValue request ''includeFacets'' = Inr fv" "ReadSingleQueryValue request ''cursor'' = Inr cv"
    and r: "parse_cursor lib evp cv ov r0 = Inr r" "ReqCursor r0 = None" "ReqLimit r0 = lim" "ReqOffset r0 = off" "ReqSearchFields r0 = fs"
    by (rule ParseBookListRequest_parts [OF assms(1)])
  obtain fq sq dq where q: "ReadSingleQueryValue request ''fields'' = Inr fq" "ReadSingleQueryValue request ''sort'' = Inr sq"
    "ReadSingleQueryValue request ''direction'' = Inr dq"
    using p(2,3,4) by (auto simp: ParseSearchFields_def ParseBookSort_def ParseSortDirection_def and_then_Inr)
  from parse_cursor_ok [OF r(1,2)] obtain c where
    c: "r = r0\<lparr>ReqCursor := c\<rparr>" "\<And>x. c = Some x \<Longrightarrow> cursor_IsValid x \<and> IsSessionId (SessionIdUtf8 x) \<and> ov = None" by blast
  have once: "list_all (\<lambda>n. length (values_of request n) \<le> 1)
      [''text'', ''fields'', ''sort'', ''direction'', ''offset'', ''limit'', ''includeFacets'', ''cursor'']"
    by (simp only: list.pred_inject simp_thms p(1,5,7,9,10) [THEN ReadSingle_once] q [THEN ReadSingle_once])
  have cur: "cursor_IsValid x \<and> IsSessionId (SessionIdUtf8 x) \<and> ReqOffset r = 0 \<and> values_of request ''offset'' = []"
    if "ReqCursor r = Some x" for x
    using c that r(4) parse_offset_bounds [OF p(6)] ReadSingle_at_most_once [OF p(5)] by simp
  have "1 \<le> ReqLimit r \<and> ReqLimit r \<le> maxPageSize" "ReqOffset r \<le> int64_max" "HasAnyField (ReqSearchFields r)"
    using c(1) r(3-5) parse_limit_bounds [OF p(8) assms(2)] parse_offset_bounds [OF p(6)] ParseSearchFields_any [OF p(2)] by simp_all
  with cur once show ?thesis unfolding request_ok_def by blast
qed

definition demo_http :: http_request where
  "demo_http = \<lparr>Params = [(''text'', ''war''), (''fields'', ''title,author''), (''limit'', ''900''), (''languages'', ''ru'')], Body = []\<rparr>"

theorem accepted_request_within_bounds_witness:
  "\<exists>r. ParseBookListRequest demo_json demo_digest demo_http 100 = Inr r \<and> ReqLimit r = 100 \<and> request_ok demo_http 100 r"
proof -
  have "\<exists>r. ParseBookListRequest demo_json demo_digest demo_http 100 = Inr r \<and> ReqLimit r = 100"
    by (simp add: ParseBookListRequest_def demo_http_def ReadSingleQueryValue_def values_of_def ParseSearchFields_def SplitCsvValues_def
        ToLowerAscii_def HasAnyField_def ParseBookSort_def ParseSortDirection_def parse_offset_def parse_limit_def ParseSizeQueryValue_def
        parse_cursor_def clamp_def ToLowerAsciiCharacter_def from_chars_def digit_char_def decimal_def)
  then show ?thesis using accepted_request_within_bounds [of demo_json demo_digest demo_http 100] by auto
qed

section \<open>Static assets\<close>

text \<open>A normal form: no dots, no empty component, and in an absolute path no dot-dot.\<close>

definition tidy_parts :: "bool \<Rightarrow> string list \<Rightarrow> bool" where
  "tidy_parts absolute parts \<longleftrightarrow> ''.'' \<notin> set parts \<and> [] \<notin> set parts \<and> (absolute \<longrightarrow> ''..'' \<notin> set parts)"

lemma append_part_tidy: "tidy_parts a done \<Longrightarrow> tidy_parts a (append_part a done part)"
  by (auto simp: tidy_parts_def append_part_def dest: in_set_butlastD)

lemma foldl_append_part_tidy: "tidy_parts a done \<Longrightarrow> tidy_parts a (foldl (append_part a) done parts)"
  by (induction parts arbitrary: "done") (auto intro: append_part_tidy)

lemma lexically_normal_tidy: "Absolute p \<Longrightarrow> tidy_parts True (Parts (lexically_normal p))"
  using foldl_append_part_tidy [of True "[]"] by (simp add: lexically_normal_def tidy_parts_def Let_def)

lemma foldl_append_part_plain:
  "''.'' \<notin> set parts \<Longrightarrow> [] \<notin> set parts \<Longrightarrow> ''..'' \<notin> set parts \<Longrightarrow> foldl (append_part a) done parts = done @ parts"
  by (induction parts arbitrary: "done") (auto simp: append_part_def)

lemma lexically_normal_Absolute [simp]: "Absolute (lexically_normal p) = Absolute p"
  by (simp add: lexically_normal_def Let_def)

lemma lexically_normal_idem: "Absolute p \<Longrightarrow> lexically_normal (lexically_normal p) = lexically_normal p"
  using lexically_normal_tidy [of p] by (simp add: lexically_normal_def tidy_parts_def foldl_append_part_plain Let_def)

lemma within_loop_iff: "within_loop root candidate \<longleftrightarrow> (\<exists>below. candidate = root @ below)"
  by (induction root candidate rule: within_loop.induct) auto

lemma segments_loop_safe:
  "segments_loop rest done = Inr segments \<Longrightarrow> list_all (\<lambda>s. \<not> IsUnsafeStaticSegment s) done
    \<Longrightarrow> list_all (\<lambda>s. \<not> IsUnsafeStaticSegment s) segments"
proof (induction rest "done" arbitrary: segments rule: segments_loop.induct)
  case (1 rest "done")
  from "1.prems" show ?case
    by (subst (asm) segments_loop.simps)
      (auto simp: Let_def and_then_Inr dest!: "1.IH" [rotated] split: if_splits)
qed

text \<open>The file a candidate path below the root stands for.\<close>

definition resolves_to :: "filesystem \<Rightarrow> path \<Rightarrow> string list \<Rightarrow> path \<Rightarrow> bool" where
  "resolves_to fs root parts target \<longleftrightarrow>
    (case weakly_canonical fs (lexically_normal (path_join root (relative parts))) of
       None \<Rightarrow> False | Some q \<Rightarrow> target = lexically_normal q)"

lemma resolve_within_root:
  assumes "TryResolvePathWithinRoot fs root candidate m1 m2 = Inr (Some target)" "Absolute candidate"
  obtains c q where "weakly_canonical fs root = Some c" "weakly_canonical fs (lexically_normal candidate) = Some q"
    "target = lexically_normal q" "IsPathWithinRoot (lexically_normal c) target"
  using assms
  by (auto simp: TryResolvePathWithinRoot_def TryResolvePathWithinCanonicalRoot_def BuildValidatedCandidatePath_def
      CanonicalizeExistingPath_def and_then_Inr Let_def split: option.splits if_splits)

lemma static_file_within_root:
  assumes "TryResolveStaticFileWithinRoot fs root (path_join root (relative parts)) = Some target" "Absolute root"
    and canonical: "\<And>p q. Absolute p \<Longrightarrow> weakly_canonical fs p = Some q \<Longrightarrow> Absolute q"
  obtains c below where "weakly_canonical fs root = Some c" "Absolute target" "Parts target = Parts (lexically_normal c) @ below"
    "''..'' \<notin> set (Parts target)" "is_regular_file fs target = Some True" "resolves_to fs root parts target"
proof -
  have abs: "Absolute (path_join root (relative parts))" using assms(2) by (simp add: path_join_def relative_def)
  from assms(1) have r: "TryResolvePathWithinRoot fs root (path_join root (relative parts))
      ''Static asset path escaped the configured root.'' ''Static asset path could not be canonicalized.'' = Inr (Some target)"
    and reg: "is_regular_file fs target = Some True"
    by (auto simp: TryResolveStaticFileWithinRoot_def split: sum.splits option.splits if_splits)
  from resolve_within_root [OF r abs] obtain c q where
    c: "weakly_canonical fs root = Some c" and q: "weakly_canonical fs (lexically_normal (path_join root (relative parts))) = Some q"
    and t: "target = lexically_normal q" and w: "IsPathWithinRoot (lexically_normal c) target" .
  have ac: "Absolute c" "Absolute q" using canonical [OF _ c] canonical [OF _ q] assms(2) abs by simp_all
  then obtain below where "Parts target = Parts (lexically_normal c) @ below"
    using w by (auto simp: IsPathWithinRoot_def Let_def within_loop_iff lexically_normal_idem t)
  moreover have "Absolute target" using ac t by simp
  moreover have "''..'' \<notin> set (Parts target)" using lexically_normal_tidy [of q] ac t by (simp add: tidy_parts_def)
  moreover have "resolves_to fs root parts target" using q t by (simp add: resolves_to_def)
  ultimately show ?thesis using that c reg by blast
qed

text \<open>C29: Whatever path a client asks for, a static asset that is served is a regular file at or below the canonical
  static root, without dot-dot components; it is what decoded, safe segments of the request (or the
  application's \<open>index.html\<close>) stand for below the root. The file system's canonical form of an absolute
  path is assumed to be absolute.\<close>

theorem static_assets_stay_below_root:
  assumes "ResolveStaticAsset fs root requestPath = Inr asset" "Absolute root"
    and canonical: "\<And>p q. Absolute p \<Longrightarrow> weakly_canonical fs p = Some q \<Longrightarrow> Absolute q"
  shows "\<exists>c below segments. weakly_canonical fs root = Some c \<and> Absolute (AssetPath asset)
    \<and> Parts (AssetPath asset) = Parts (lexically_normal c) @ below \<and> ''..'' \<notin> set (Parts (AssetPath asset))
    \<and> is_regular_file fs (AssetPath asset) = Some True
    \<and> list_all (\<lambda>s. \<not> IsUnsafeStaticSegment s) segments \<and> resolves_to fs root segments (AssetPath asset)"
proof -
  have index: "list_all (\<lambda>s. \<not> IsUnsafeStaticSegment s) [''index.html'']" by (simp add: IsUnsafeStaticSegment_def)
  from assms(1) obtain segments where s: "(if requestPath = [] then Inr [] else segments_loop (drop 1 requestPath) []) = Inr segments"
    and r: "\<exists>parts \<in> {segments, [''index.html'']}. TryResolveStaticFileWithinRoot fs root (path_join root (relative parts)) = Some (AssetPath asset)"
    unfolding ResolveStaticAsset_def and_then_Inr Let_def
    by (auto simp: asset_response_def split: option.splits if_splits)
  have "list_all (\<lambda>s. \<not> IsUnsafeStaticSegment s) segments"
    using s segments_loop_safe by (auto split: if_splits)
  with r index obtain parts where p: "list_all (\<lambda>s. \<not> IsUnsafeStaticSegment s) parts"
    "TryResolveStaticFileWithinRoot fs root (path_join root (relative parts)) = Some (AssetPath asset)" by blast
  show ?thesis by (rule static_file_within_root [OF p(2) assms(2) canonical]) (use p(1) in blast)+
qed

definition demo_root :: path where
  "demo_root = \<lparr>Absolute = True, Parts = [''srv'', ''web'']\<rparr>"

definition demo_fs :: filesystem where
  "demo_fs = \<lparr>weakly_canonical = Some, exists_path = (\<lambda>p. Some (Parts p = [''srv'', ''web'', ''a b.js''])),
     is_regular_file = (\<lambda>p. Some (Parts p = [''srv'', ''web'', ''a b.js'']))\<rparr>"

lemma chr_of_32: "chr_of 32 = CHR '' ''"
  by (simp add: byte_of_eq_iff [symmetric])

theorem static_assets_stay_below_root_witness:
  "ResolveStaticAsset demo_fs demo_root ''/a%20b.js'' =
     Inr \<lparr>AssetPath = \<lparr>Absolute = True, Parts = [''srv'', ''web'', ''a b.js'']\<rparr>, ContentTypeUtf8 = ''text/javascript; charset=utf-8''\<rparr>
   \<and> (\<exists>segments. list_all (\<lambda>s. \<not> IsUnsafeStaticSegment s) segments
        \<and> resolves_to demo_fs demo_root segments \<lparr>Absolute = True, Parts = [''srv'', ''web'', ''a b.js'']\<rparr>)"
proof -
  have r: "ResolveStaticAsset demo_fs demo_root ''/a%20b.js'' =
     Inr \<lparr>AssetPath = \<lparr>Absolute = True, Parts = [''srv'', ''web'', ''a b.js'']\<rparr>, ContentTypeUtf8 = ''text/javascript; charset=utf-8''\<rparr>"
    using chr_of_32
    by (simp add: ResolveStaticAsset_def demo_root_def segments_loop.simps [of "''a%20b.js''"] DecodeStaticPathSegment_def HexValue_def
        IsUnsafeStaticSegment_def Let_def TryResolveStaticFileWithinRoot_def TryResolvePathWithinRoot_def CanonicalizeExistingPath_def
        TryResolvePathWithinCanonicalRoot_def BuildValidatedCandidatePath_def lexically_normal_def append_part_def path_join_def
        relative_def IsPathWithinRoot_def demo_fs_def asset_response_def path_extension_def find_last_def GuessStaticContentType_def
        ToLowerAscii_def ToLowerAsciiCharacter_def)
  from static_assets_stay_below_root [OF r] r show ?thesis by (auto simp: demo_root_def demo_fs_def)
qed

section \<open>Download headers\<close>

definition header_bytes :: "char \<Rightarrow> string" where
  "header_bytes ch = (if IsHeaderAttrChar ch then [ch]
     else [CHR ''%'', header_digits ! (drop_bit 4 (byte_of ch) AND 0x0F), header_digits ! (byte_of ch AND 0x0F)])"

lemma PercentEncode_concat: "PercentEncodeHeaderValue v = concat (map header_bytes v)"
proof -
  have "foldl (\<lambda>result ch. if IsHeaderAttrChar ch then result @ [ch]
      else result @ [CHR ''%'', header_digits ! (drop_bit 4 (byte_of ch) AND 0x0F), header_digits ! (byte_of ch AND 0x0F)]) r v
      = r @ concat (map header_bytes v)" for r
    by (induction v arbitrary: r) (simp_all add: header_bytes_def)
  then show ?thesis by (simp add: PercentEncodeHeaderValue_def)
qed

lemma HexValue_digit: "n < 16 \<Longrightarrow> HexValue (header_digits ! n) = Some n"
proof -
  have "list_all (\<lambda>n. HexValue (header_digits ! n) = Some n) [0..<16]"
    by code_simp
  then show "n < 16 \<Longrightarrow> HexValue (header_digits ! n) = Some n" by (simp add: list_all_iff)
qed

lemma nibbles: "push_bit 4 (drop_bit 4 b AND 0x0F) OR (b AND 0x0F) = b" if "b < 256" for b :: nat
proof -
  have "drop_bit 4 b AND 0x0F = b div 16" using that by (simp add: and_0x0F drop_bit_eq_div)
  then have "push_bit 4 (drop_bit 4 b AND 0x0F) OR (b AND 0x0F) = push_bit 4 (drop_bit 4 b) OR take_bit 4 b"
    by (simp add: and_0x0F take_bit_eq_mod drop_bit_eq_div)
  also have "\<dots> = b" by (auto simp: bit_eq_iff bit_simps)
  finally show ?thesis .
qed

lemma nibble_less: "b AND 0x0F < 16" for b :: nat
  by (simp add: and_0x0F)

lemma decode_header_bytes: "decode_segment_loop (header_bytes ch @ rest) result = decode_segment_loop rest (result @ [ch])"
proof (cases "IsHeaderAttrChar ch")
  case True
  then have "ch \<noteq> CHR ''%''" by (auto simp: IsHeaderAttrChar_def attr_marks_def)
  with True show ?thesis by (simp add: header_bytes_def)
next
  case False
  then show ?thesis
    using nibbles [of "byte_of ch"] by (simp add: header_bytes_def HexValue_digit nibble_less)
qed

lemma decode_percent_encode: "DecodeStaticPathSegment (PercentEncodeHeaderValue v) = Inr v"
proof -
  have "decode_segment_loop (concat (map header_bytes v)) r = Inr (r @ v)" for r
    by (induction v arbitrary: r) (simp_all add: decode_header_bytes)
  then show ?thesis by (simp add: DecodeStaticPathSegment_def PercentEncode_concat)
qed

definition header_safe :: "char \<Rightarrow> bool" where
  "header_safe ch \<longleftrightarrow> 32 \<le> byte_of ch \<and> byte_of ch < 127"

lemma PercentEncode_safe: "list_all header_safe (PercentEncodeHeaderValue v)"
proof -
  have d: "n < 16 \<Longrightarrow> header_safe (header_digits ! n)" for n
  proof -
    have "list_all (\<lambda>n. header_safe (header_digits ! n)) [0..<16]" by code_simp
    then show "n < 16 \<Longrightarrow> header_safe (header_digits ! n)" by (simp add: list_all_iff)
  qed
  have a: "IsHeaderAttrChar c \<Longrightarrow> header_safe c" for c
    by (auto simp: IsHeaderAttrChar_def header_safe_def attr_marks_def)
  have p: "header_safe CHR ''%''" by (simp add: header_safe_def)
  have "list_all header_safe (header_bytes c)" for c
    using a p d nibble_less by (simp add: header_bytes_def)
  then show ?thesis by (simp add: PercentEncode_concat list_all_iff)
qed

lemma fallback_map: "BuildAsciiFilenameFallback v = (if v = [] then ''book'' else map (\<lambda>c. if plain_filename_char c then c else CHR ''_'') v)"
proof -
  have "foldl (\<lambda>result ch. result @ [if plain_filename_char ch then ch else CHR ''_'']) r v
    = r @ map (\<lambda>c. if plain_filename_char c then c else CHR ''_'') v" for r
    by (induction v arbitrary: r) simp_all
  then show ?thesis by (simp add: BuildAsciiFilenameFallback_def Let_def)
qed

lemma fallback_plain: "list_all plain_filename_char (BuildAsciiFilenameFallback v)"
  by (auto simp: fallback_map list_all_iff plain_filename_char_def)

text \<open>Reading the header as a client does: the parameters between semicolons, the name up to the equals sign, and the
  extended value behind its character set and its empty language.\<close>

definition header_parameters :: "string \<Rightarrow> (string \<times> string) list" where
  "header_parameters header =
    map (\<lambda>part. (dropWhile (\<lambda>c. c = CHR '' '') (takeWhile (\<lambda>c. c \<noteq> CHR ''='') part), drop 1 (dropWhile (\<lambda>c. c \<noteq> CHR ''='') part)))
      (tl (split_on (CHR '';'') header))"

definition extended_charset :: string where
  "extended_charset = ''UTF-8'' @ [squote, squote]"

definition extended_file_name :: "string \<Rightarrow> string option" where
  "extended_file_name header =
    (case map_of (header_parameters header) ''filename*'' of
       None \<Rightarrow> None
     | Some v \<Rightarrow>
         if \<not> prefix extended_charset v then None
         else case DecodeStaticPathSegment (drop (length extended_charset) v) of Inl _ \<Rightarrow> None | Inr n \<Rightarrow> Some n)"

lemma no_semicolon: "list_all (\<lambda>c. c \<noteq> CHR '';'') (PercentEncodeHeaderValue v)" "list_all (\<lambda>c. c \<noteq> CHR '';'') (BuildAsciiFilenameFallback v)"
proof -
  have d: "n < 16 \<Longrightarrow> header_digits ! n \<noteq> CHR '';''" for n
  proof -
    have "list_all (\<lambda>n. header_digits ! n \<noteq> CHR '';'') [0..<16]" by code_simp
    then show "n < 16 \<Longrightarrow> header_digits ! n \<noteq> CHR '';''" by (simp add: list_all_iff)
  qed
  have "\<not> IsHeaderAttrChar CHR '';''" by (simp add: IsHeaderAttrChar_def attr_marks_def)
  then have "list_all (\<lambda>c. c \<noteq> CHR '';'') (header_bytes c)" for c using d nibble_less by (auto simp: header_bytes_def)
  then show "list_all (\<lambda>c. c \<noteq> CHR '';'') (PercentEncodeHeaderValue v)" by (simp add: PercentEncode_concat list_all_iff)
  show "list_all (\<lambda>c. c \<noteq> CHR '';'') (BuildAsciiFilenameFallback v)"
    using fallback_plain [of v] by (auto simp: list_all_iff plain_filename_char_def)
qed

lemma split_three: "sep \<notin> set a \<Longrightarrow> sep \<notin> set b \<Longrightarrow> sep \<notin> set c \<Longrightarrow> split_on sep (a @ sep # b @ sep # c) = [a, b, c]"
  by (simp add: split_on_append split_on_no_sep)

lemma disposition_parts:
  "split_on (CHR '';'') (BuildContentDisposition v) =
    [''attachment'', '' filename='' @ [dquote] @ BuildAsciiFilenameFallback v @ [dquote], '' filename*='' @ extended_charset @ PercentEncodeHeaderValue v]"
proof -
  let ?f = "'' filename='' @ [dquote] @ BuildAsciiFilenameFallback v @ [dquote]"
  let ?e = "'' filename*='' @ extended_charset @ PercentEncodeHeaderValue v"
  have "BuildContentDisposition v = ''attachment'' @ CHR '';'' # ?f @ CHR '';'' # ?e"
    by (simp add: BuildContentDisposition_def extended_charset_def)
  moreover have "CHR '';'' \<notin> set ''attachment''" by simp
  moreover have "CHR '';'' \<notin> set ?f" using no_semicolon(2) [of v] by (auto simp: list_all_iff)
  moreover have "CHR '';'' \<notin> set ?e" using no_semicolon(1) [of v] by (auto simp: list_all_iff extended_charset_def)
  ultimately show ?thesis using split_three [of "CHR '';''" "''attachment''" ?f ?e] by simp
qed

lemma disposition_parameters:
  "header_parameters (BuildContentDisposition v) =
    [(''filename'', [dquote] @ BuildAsciiFilenameFallback v @ [dquote]), (''filename*'', extended_charset @ PercentEncodeHeaderValue v)]"
  unfolding header_parameters_def disposition_parts by simp

lemma disposition_name: "extended_file_name (BuildContentDisposition v) = Some v"
  by (simp add: extended_file_name_def disposition_parameters decode_percent_encode)

text \<open>C31: The download header of any file name, whatever bytes it has, is printable ASCII; reading it as a client does gives the
  disposition \<open>attachment\<close>, a quoted fallback that is not empty and has only letters, digits, dot, dash and underscore (so it
  cannot end the quotes), and an extended parameter that decodes to the file name, byte for byte.\<close>

theorem content_disposition_safe:
  "list_all header_safe (BuildContentDisposition fileName)
   \<and> BuildAsciiFilenameFallback fileName \<noteq> [] \<and> list_all plain_filename_char (BuildAsciiFilenameFallback fileName)
   \<and> DecodeStaticPathSegment (PercentEncodeHeaderValue fileName) = Inr fileName
   \<and> hd (split_on (CHR '';'') (BuildContentDisposition fileName)) = ''attachment''
   \<and> map fst (header_parameters (BuildContentDisposition fileName)) = [''filename'', ''filename*'']
   \<and> map_of (header_parameters (BuildContentDisposition fileName)) ''filename''
       = Some ([dquote] @ BuildAsciiFilenameFallback fileName @ [dquote])
   \<and> extended_file_name (BuildContentDisposition fileName) = Some fileName"
proof (intro conjI)
  have f: "list_all header_safe (BuildAsciiFilenameFallback fileName)"
    using fallback_plain [of fileName] by (auto simp: list_all_iff plain_filename_char_def header_safe_def)
  show "list_all header_safe (BuildContentDisposition fileName)"
    unfolding BuildContentDisposition_def list_all_append
    by (intro conjI f PercentEncode_safe) (simp_all add: header_safe_def)
  show "BuildAsciiFilenameFallback fileName \<noteq> []" by (simp add: fallback_map)
qed (simp_all add: fallback_plain decode_percent_encode disposition_parts disposition_parameters disposition_name)

end
