(* ===== verification/Backend_Executor.thy ===== *)
theory Backend_Executor
  imports Prelude Transition_Systems
begin

text \<open>
  The executor that serialises the operations of the backend, \<open>libs/Server/BackendExecutor.hpp\<close> and
  \<open>.cpp\<close>. Every operation of the class runs under its mutex, so it is a function on the state; one worker
  thread runs the loop of \<open>Run\<close>. The step relation interleaves clients, the worker and the destructor.
  A task is a packaged task: its exception goes to its future, so running it always returns to the
  loop. The lists of accepted, started and finished tasks record the history.
\<close>

section \<open>The executor\<close>

record 'w executor =
  m_maxQueueDepth :: nat
  m_tasks :: "'w list"
  m_stopping :: bool
  m_activeOperations :: nat

record SBackendExecutorMetrics =
  ActiveOperations :: nat
  QueuedOperations :: nat
  MaxQueueDepth :: nat

datatype executor_error = ExecutorInvalidArgument | ExecutorStopped | BackendOverload

definition new_executor :: "nat \<Rightarrow> executor_error + 'w executor" where
  "new_executor maxQueueDepth =
    (if maxQueueDepth = 0 then Inl ExecutorInvalidArgument
     else Inr \<lparr>m_maxQueueDepth = maxQueueDepth, m_tasks = [], m_stopping = False, m_activeOperations = 0\<rparr>)"

definition Submit :: "'w executor \<Rightarrow> 'w \<Rightarrow> executor_error + 'w executor" where
  "Submit e task =
    (if m_stopping e then Inl ExecutorStopped
     else if length (m_tasks e) \<ge> m_maxQueueDepth e then Inl BackendOverload
     else Inr (e\<lparr>m_tasks := m_tasks e @ [task]\<rparr>))"

definition GetMetrics :: "'w executor \<Rightarrow> SBackendExecutorMetrics" where
  "GetMetrics e =
    \<lparr>ActiveOperations = m_activeOperations e, QueuedOperations = length (m_tasks e), MaxQueueDepth = m_maxQueueDepth e\<rparr>"

text \<open>The destructor's critical section; it then joins the worker.\<close>

definition request_stop :: "'w executor \<Rightarrow> 'w executor" where
  "request_stop e = e\<lparr>m_stopping := True\<rparr>"

datatype 'w worker = Waiting | Running 'w | Exited

text \<open>The first critical section of the loop, up to taking a task: \<open>None\<close> while the wait predicate is false.\<close>

definition run_begin :: "'w executor \<Rightarrow> ('w worker \<times> 'w executor) option" where
  "run_begin e =
    (if \<not> (m_stopping e \<or> m_tasks e \<noteq> []) then None
     else if m_stopping e \<and> m_tasks e = [] then Some (Exited, e)
     else Some (Running (hd (m_tasks e)), e\<lparr>m_tasks := tl (m_tasks e), m_activeOperations := m_activeOperations e + 1\<rparr>))"

text \<open>The critical section behind a task.\<close>

definition run_end :: "'w executor \<Rightarrow> 'w executor" where
  "run_end e = (if m_activeOperations e > 0 then e\<lparr>m_activeOperations := m_activeOperations e - 1\<rparr> else e)"

lemma new_executor_Inr:
  "new_executor depth = Inr e \<longleftrightarrow>
    0 < depth \<and> e = \<lparr>m_maxQueueDepth = depth, m_tasks = [], m_stopping = False, m_activeOperations = 0\<rparr>"
  by (auto simp: new_executor_def)

section \<open>The threads around it\<close>

record 'w executor_world =
  Exec :: "'w executor"
  Worker :: "'w worker"
  Accepted :: "'w list"
  Finished :: "'w list"

definition executor_init :: "nat \<Rightarrow> 'w executor_world \<Rightarrow> bool" where
  "executor_init maxQueueDepth w \<longleftrightarrow>
    new_executor maxQueueDepth = Inr (Exec w) \<and> Worker w = Waiting \<and> Accepted w = [] \<and> Finished w = []"

inductive executor_step :: "'w executor_world \<Rightarrow> 'w executor_world \<Rightarrow> bool" where
  submit: "Submit (Exec w) t = Inr e \<Longrightarrow> executor_step w (w\<lparr>Exec := e, Accepted := Accepted w @ [t]\<rparr>)"
| reject: "Submit (Exec w) t = Inl err \<Longrightarrow> executor_step w w"
| begin_task: "Worker w = Waiting \<Longrightarrow> run_begin (Exec w) = Some (k, e) \<Longrightarrow> executor_step w (w\<lparr>Exec := e, Worker := k\<rparr>)"
| end_task: "Worker w = Running t \<Longrightarrow>
    executor_step w (w\<lparr>Exec := run_end (Exec w), Worker := Waiting, Finished := Finished w @ [t]\<rparr>)"
| stop: "executor_step w (w\<lparr>Exec := request_stop (Exec w)\<rparr>)"

inductive_cases executor_stepE: "executor_step w v"

fun in_progress :: "'w worker \<Rightarrow> 'w list" where
  "in_progress (Running t) = [t]"
| "in_progress _ = []"

definition executor_ok :: "nat \<Rightarrow> 'w executor_world \<Rightarrow> bool" where
  "executor_ok depth w \<longleftrightarrow>
    m_maxQueueDepth (Exec w) = depth \<and> 0 < depth \<and> length (m_tasks (Exec w)) \<le> depth
    \<and> m_activeOperations (Exec w) = length (in_progress (Worker w))
    \<and> Accepted w = Finished w @ in_progress (Worker w) @ m_tasks (Exec w)
    \<and> (Worker w = Exited \<longrightarrow> m_stopping (Exec w) \<and> m_tasks (Exec w) = [])"

lemmas executor_defs = executor_ok_def Submit_def run_begin_def run_end_def request_stop_def

interpretation executor: state_machine "executor_init depth" executor_step "executor_ok depth" for depth
proof
  fix w :: "'w executor_world"
  assume "executor_init depth w"
  then show "executor_ok depth w" by (auto simp: executor_init_def executor_ok_def new_executor_Inr)
next
  fix w v :: "'w executor_world"
  assume "executor_ok depth w" "executor_step w v"
  then show "executor_ok depth v"
    by (elim executor_stepE) (auto simp: executor_defs split: if_splits)
qed

text \<open>The executor is a bounded work queue.\<close>

definition executor_put :: "'w executor \<Rightarrow> 'w \<Rightarrow> 'w executor option" where
  "executor_put e task = (case Submit e task of Inl _ \<Rightarrow> None | Inr e' \<Rightarrow> Some e')"

definition executor_take :: "'w executor \<Rightarrow> ('w \<times> 'w executor) option" where
  "executor_take e = (case run_begin e of Some (Running t, e') \<Rightarrow> Some (t, e') | _ \<Rightarrow> None)"

interpretation executor_queue: work_queue m_tasks m_stopping executor_put executor_take request_stop
  by unfold_locales (auto simp: executor_put_def executor_take_def Submit_def run_begin_def request_stop_def split: if_splits)

section \<open>The sequential service it implements\<close>

text \<open>A service that accepts operations and completes them one at a time, in order; the queue and the worker are hidden.\<close>

record 'w service =
  Unfinished :: "'w list"
  Completed :: "'w list"
  Closed :: bool

definition service_init :: "'w service \<Rightarrow> bool" where
  "service_init s \<longleftrightarrow> s = \<lparr>Unfinished = [], Completed = [], Closed = False\<rparr>"

inductive service_step :: "nat \<Rightarrow> 'w service \<Rightarrow> 'w service \<Rightarrow> bool" for bound where
  accept: "\<not> Closed s \<Longrightarrow> length (Unfinished s) < bound \<Longrightarrow> service_step bound s (s\<lparr>Unfinished := Unfinished s @ [t]\<rparr>)"
| complete: "Unfinished s = t # rest \<Longrightarrow> service_step bound s (s\<lparr>Unfinished := rest, Completed := Completed s @ [t]\<rparr>)"
| shut: "service_step bound s (s\<lparr>Closed := True\<rparr>)"

definition service_of :: "'w executor_world \<Rightarrow> 'w service" where
  "service_of w = \<lparr>Unfinished = in_progress (Worker w) @ m_tasks (Exec w), Completed = Finished w, Closed = m_stopping (Exec w)\<rparr>"

lemma executor_step_simulates:
  assumes "executor_ok depth w" "executor_step w v"
  shows "service_step (depth + 1) (service_of w) (service_of v) \<or> service_of v = service_of w"
  using assms(2)
proof cases
  case (submit t e)
  then have "service_of v = (service_of w)\<lparr>Unfinished := Unfinished (service_of w) @ [t]\<rparr>"
    and "length (Unfinished (service_of w)) < depth + 1" "\<not> Closed (service_of w)"
    using assms(1) by (cases "Worker w"; auto simp: service_of_def executor_defs split: if_splits)+
  then show ?thesis by (metis service_step.accept)
next
  case (begin_task k e)
  then show ?thesis by (auto simp: service_of_def run_begin_def split: if_splits)
next
  case (end_task t)
  have "service_step (depth + 1) (service_of w) ((service_of w)\<lparr>Unfinished := m_tasks (Exec w), Completed := Completed (service_of w) @ [t]\<rparr>)"
    by (rule service_step.complete) (simp add: service_of_def end_task)
  then show ?thesis by (simp add: service_of_def end_task run_end_def)
next
  case stop
  have "service_step (depth + 1) (service_of w) ((service_of w)\<lparr>Closed := True\<rparr>)" by (rule service_step.shut)
  then show ?thesis by (simp add: service_of_def stop request_stop_def)
qed simp

interpretation executor_service: simulation "executor_init depth" executor_step "executor_ok depth" service_init "service_step (depth + 1)" service_of
  for depth
  by unfold_locales (simp_all only: executor_step_simulates,
    simp add: executor_init_def service_init_def service_of_def new_executor_Inr)

section \<open>What it guarantees\<close>

text \<open>C25: Whatever the interleaving of its clients, its worker and its destructor, the executor implements a
  service that completes the operations one at a time, in the order in which it accepted them, with at most
  one operation more unfinished than its queue holds, and accepts none once it is closed: every run of
  it is a run of that service.\<close>

theorem executor_refines_sequential_service:
  assumes "executor_init depth w" "executor_step\<^sup>*\<^sup>* w v"
  shows "(service_step (depth + 1))\<^sup>*\<^sup>* \<lparr>Unfinished = [], Completed = [], Closed = False\<rparr> (service_of v)"
  using executor_service.reachable_sim [OF assms] by (auto simp: service_init_def)

definition demo_world :: "nat executor_world" where
  "demo_world = \<lparr>Exec = \<lparr>m_maxQueueDepth = 1, m_tasks = [], m_stopping = False, m_activeOperations = 0\<rparr>, Worker = Waiting,
     Accepted = [], Finished = []\<rparr>"

definition demo_world_busy :: "nat executor_world" where
  "demo_world_busy = \<lparr>Exec = \<lparr>m_maxQueueDepth = 1, m_tasks = [8], m_stopping = True, m_activeOperations = 1\<rparr>, Worker = Running 7,
     Accepted = [7, 8], Finished = []\<rparr>"

lemma demo_world_steps: "executor_step\<^sup>*\<^sup>* demo_world demo_world_busy"
proof -
  let ?w1 = "demo_world\<lparr>Exec := (Exec demo_world)\<lparr>m_tasks := [7]\<rparr>, Accepted := [7]\<rparr>"
  let ?w2 = "?w1\<lparr>Exec := (Exec demo_world)\<lparr>m_activeOperations := 1\<rparr>, Worker := Running 7\<rparr>"
  let ?w3 = "?w2\<lparr>Exec := (Exec ?w2)\<lparr>m_tasks := [8]\<rparr>, Accepted := [7, 8]\<rparr>"
  have "executor_step demo_world ?w1"
    using executor_step.submit [of demo_world 7] by (simp add: demo_world_def Submit_def)
  moreover have "executor_step ?w1 ?w2"
    using executor_step.begin_task [of ?w1] by (simp add: demo_world_def run_begin_def)
  moreover have "executor_step ?w2 ?w3"
    using executor_step.submit [of ?w2 8] by (simp add: demo_world_def Submit_def)
  moreover have "executor_step ?w3 demo_world_busy"
    using executor_step.stop [of ?w3] by (simp add: demo_world_def demo_world_busy_def request_stop_def)
  ultimately show ?thesis by (meson converse_rtranclp_into_rtranclp rtranclp.rtrancl_refl)
qed

lemma demo_world_init: "executor_init 1 demo_world"
  by (simp add: executor_init_def demo_world_def new_executor_def)

theorem executor_refines_sequential_service_witness:
  "(service_step 2)\<^sup>*\<^sup>* \<lparr>Unfinished = [], Completed = [], Closed = False\<rparr>
     \<lparr>Unfinished = [7 :: nat, 8], Completed = [], Closed = True\<rparr>"
  using executor_refines_sequential_service [OF demo_world_init demo_world_steps]
  by (simp add: service_of_def demo_world_busy_def numeral_2_eq_2)

text \<open>The worker's turns that are left once the executor is stopping.\<close>

definition turns_left :: "'w executor_world \<Rightarrow> nat" where
  "turns_left w = 2 * length (m_tasks (Exec w)) + (case Worker w of Waiting \<Rightarrow> 1 | Running _ \<Rightarrow> 2 | Exited \<Rightarrow> 0)"

lemma stopping_step:
  assumes "m_stopping (Exec w)" "executor_step w v"
  shows "v = w \<or> turns_left v < turns_left w" "m_stopping (Exec v)" "Accepted v = Accepted w"
  using assms(2,1)
  by (cases rule: executor_step.cases; auto simp: Submit_def run_begin_def run_end_def request_stop_def turns_left_def neq_Nil_conv split: if_splits)+

lemma stopping_enabled:
  assumes "m_stopping (Exec w)" "Worker w \<noteq> Exited"
  shows "\<exists>v. executor_step w v \<and> turns_left v < turns_left w"
proof (cases "Worker w")
  case Waiting
  obtain k e where b: "run_begin (Exec w) = Some (k, e)" using assms(1) by (cases "m_tasks (Exec w)") (auto simp: run_begin_def)
  have "turns_left (w\<lparr>Exec := e, Worker := k\<rparr>) < turns_left w"
    using b Waiting assms(1) by (auto simp: run_begin_def turns_left_def neq_Nil_conv split: if_splits)
  then show ?thesis using executor_step.begin_task [OF Waiting b] by blast
next
  case (Running t)
  have "turns_left (w\<lparr>Exec := run_end (Exec w), Worker := Waiting, Finished := Finished w @ [t]\<rparr>) < turns_left w"
    by (simp add: turns_left_def run_end_def Running)
  then show ?thesis using executor_step.end_task [OF Running] by blast
qed (use assms in simp)

lemma stopping_drains:
  "m_stopping (Exec w) \<Longrightarrow> \<exists>v. executor_step\<^sup>*\<^sup>* w v \<and> Worker v = Exited \<and> Accepted v = Accepted w"
proof (induction "turns_left w" arbitrary: w rule: less_induct)
  case less
  show ?case
  proof (cases "Worker w = Exited")
    case False
    then obtain v where v: "executor_step w v" "turns_left v < turns_left w" using stopping_enabled [OF less.prems] by blast
    with less.hyps [OF v(2) stopping_step(2) [OF less.prems v(1)]] stopping_step(3) [OF less.prems v(1)]
    show ?thesis by (metis converse_rtranclp_into_rtranclp)
  qed blast
qed

text \<open>C26: The destructor returns and loses no accepted operation. Once the executor is stopping, every step changes
  nothing or brings the worker nearer to its exit, and until then the worker can take a step; it exits,
  and at that moment exactly the accepted operations have run, in their order.\<close>

theorem executor_stops_after_accepted_work:
  assumes "executor_init depth w0" "executor_step\<^sup>*\<^sup>* w0 w" "m_stopping (Exec w)"
  shows "(\<exists>v. executor_step\<^sup>*\<^sup>* w v \<and> Worker v = Exited \<and> Finished v = Accepted w)
    \<and> (\<forall>v. executor_step w v \<longrightarrow> v = w \<or> turns_left v < turns_left w)
    \<and> (Worker w \<noteq> Exited \<longrightarrow> (\<exists>v. executor_step w v \<and> turns_left v < turns_left w))"
proof -
  have ok: "executor_ok depth w" using executor.reachable_inv [OF assms(1,2)] .
  obtain v where v: "executor_step\<^sup>*\<^sup>* w v" "Worker v = Exited" "Accepted v = Accepted w" using stopping_drains [OF assms(3)] by blast
  have "executor_ok depth v" using executor.steps_inv [OF v(1) ok] .
  then have "Finished v = Accepted w" using v by (auto simp: executor_ok_def)
  then show ?thesis using v(1,2) stopping_step(1) [OF assms(3)] stopping_enabled [OF assms(3)] by blast
qed

theorem executor_stops_after_accepted_work_witness:
  "\<exists>v. executor_step\<^sup>*\<^sup>* demo_world_busy v \<and> Worker v = Exited \<and> Finished v = [7, 8]"
  using executor_stops_after_accepted_work [OF demo_world_init demo_world_steps] by (simp add: demo_world_busy_def)

text \<open>At every moment the executor's counters are true: the queue holds at most the configured number of tasks,
  one operation is active exactly while the worker runs one (so the guard on the counter never fails), and
  the accepted operations are those finished, in progress and queued, in this order.\<close>

theorem executor_metrics_true:
  assumes "executor_init depth w0" "executor_step\<^sup>*\<^sup>* w0 w"
  shows "QueuedOperations (GetMetrics (Exec w)) \<le> MaxQueueDepth (GetMetrics (Exec w))
    \<and> MaxQueueDepth (GetMetrics (Exec w)) = depth
    \<and> ActiveOperations (GetMetrics (Exec w)) = (case Worker w of Running _ \<Rightarrow> 1 | _ \<Rightarrow> 0)
    \<and> Accepted w = Finished w @ in_progress (Worker w) @ m_tasks (Exec w)"
  using executor.reachable_inv [OF assms] by (auto simp: executor_ok_def GetMetrics_def split: worker.splits)

theorem executor_metrics_true_witness:
  "ActiveOperations (GetMetrics (Exec demo_world_busy)) = 1 \<and> QueuedOperations (GetMetrics (Exec demo_world_busy)) \<le> 1"
  using executor_metrics_true [OF demo_world_init demo_world_steps] by (simp add: demo_world_busy_def GetMetrics_def)

end
