(* ===== verification/Http_Task_Queue.thy ===== *)
theory Http_Task_Queue
  imports Backend_Executor "HOL-Library.Multiset"
begin

text \<open>
  The request queue of the HTTP server, \<open>CHttpTaskQueue\<close> of \<open>libs/Server/HttpServer.cpp\<close>: a bounded queue
  served by a fixed number of workers, and one more worker with a single slot for a request that comes while the
  queue is full, which it answers with the overload error. Every critical section is a function on the state
  under the mutex; the step relation interleaves the connections, the workers and the shutdown. A job whose
  exception leaves the worker ends the process, as does an exception that leaves a thread.
\<close>

section \<open>The queue\<close>

record 'w http_queue =
  MaxWorkers :: nat
  MaxQueuedRequests :: nat
  QueuedRequests :: nat
  ActiveWorkers :: nat
  m_jobs :: "'w list"
  m_overloadJob :: "'w option"
  q_stopping :: bool

definition new_queue :: "nat \<Rightarrow> nat \<Rightarrow> 'w http_queue option" where
  "new_queue maxWorkers maxQueuedRequests =
    (if maxWorkers = 0 then None
     else Some \<lparr>MaxWorkers = maxWorkers, MaxQueuedRequests = maxQueuedRequests, QueuedRequests = 0, ActiveWorkers = 0,
       m_jobs = [], m_overloadJob = None, q_stopping = False\<rparr>)"

definition enqueue :: "'w http_queue \<Rightarrow> 'w \<Rightarrow> bool \<times> 'w http_queue" where
  "enqueue q fn =
    (if q_stopping q then (False, q)
     else if MaxQueuedRequests q > 0 \<and> length (m_jobs q) \<ge> MaxQueuedRequests q then
       (if m_overloadJob q \<noteq> None then (False, q) else (True, q\<lparr>m_overloadJob := Some fn\<rparr>))
     else let jobs = m_jobs q @ [fn] in (True, q\<lparr>m_jobs := jobs, QueuedRequests := length jobs\<rparr>))"

definition begin_shutdown :: "'w http_queue \<Rightarrow> 'w http_queue" where
  "begin_shutdown q = (if q_stopping q then q else q\<lparr>q_stopping := True\<rparr>)"

definition worker_begin :: "'w http_queue \<Rightarrow> ('w worker \<times> 'w http_queue) option" where
  "worker_begin q =
    (if \<not> (q_stopping q \<or> m_jobs q \<noteq> []) then None
     else if q_stopping q \<and> m_jobs q = [] then Some (Exited, q)
     else let rest = tl (m_jobs q) in
       Some (Running (hd (m_jobs q)), q\<lparr>m_jobs := rest, QueuedRequests := length rest, ActiveWorkers := ActiveWorkers q + 1\<rparr>))"

definition worker_end :: "'w http_queue \<Rightarrow> 'w http_queue" where
  "worker_end q = q\<lparr>ActiveWorkers := (if ActiveWorkers q = 0 then 2 ^ 64 - 1 else ActiveWorkers q - 1)\<rparr>"

definition overload_begin :: "'w http_queue \<Rightarrow> ('w worker \<times> 'w http_queue) option" where
  "overload_begin q =
    (if \<not> (q_stopping q \<or> m_overloadJob q \<noteq> None) then None
     else case m_overloadJob q of
       None \<Rightarrow> Some (Exited, q)
     | Some job \<Rightarrow> Some (Running job, q\<lparr>m_overloadJob := None\<rparr>))"

section \<open>The threads around it\<close>

text \<open>The history: the requests given to the queue and to the overload slot, and those that a worker answered
  and that the overload worker refused.\<close>

record 'w http_world =
  Queue :: "'w http_queue"
  Workers :: "'w worker list"
  OverloadWorker :: "'w worker"
  Terminated :: bool
  QueuedIn :: "'w list"
  StartedBy :: "'w list"
  OverloadedIn :: "'w list"
  Answered :: "'w list"
  Refused :: "'w list"

definition http_init :: "nat \<Rightarrow> nat \<Rightarrow> 'w http_world \<Rightarrow> bool" where
  "http_init maxWorkers maxQueued w \<longleftrightarrow>
    new_queue maxWorkers maxQueued = Some (Queue w) \<and> Workers w = replicate maxWorkers Waiting \<and> OverloadWorker w = Waiting
    \<and> \<not> Terminated w \<and> QueuedIn w = [] \<and> StartedBy w = [] \<and> OverloadedIn w = [] \<and> Answered w = [] \<and> Refused w = []"

inductive http_step :: "'w http_world \<Rightarrow> 'w http_world \<Rightarrow> bool" where
  queued: "\<not> Terminated w \<Longrightarrow> enqueue (Queue w) job = (True, q) \<Longrightarrow> m_overloadJob q = m_overloadJob (Queue w) \<Longrightarrow>
    http_step w (w\<lparr>Queue := q, QueuedIn := QueuedIn w @ [job]\<rparr>)"
| overload_slot: "\<not> Terminated w \<Longrightarrow> enqueue (Queue w) job = (True, q) \<Longrightarrow> m_overloadJob q \<noteq> m_overloadJob (Queue w) \<Longrightarrow>
    http_step w (w\<lparr>Queue := q, OverloadedIn := OverloadedIn w @ [job]\<rparr>)"
| not_taken: "\<not> Terminated w \<Longrightarrow> enqueue (Queue w) job = (False, q) \<Longrightarrow> http_step w (w\<lparr>Queue := q\<rparr>)"
| take_job: "\<not> Terminated w \<Longrightarrow> i < length (Workers w) \<Longrightarrow> Workers w ! i = Waiting \<Longrightarrow> worker_begin (Queue w) = Some (k, q) \<Longrightarrow>
    http_step w (w\<lparr>Queue := q, Workers := (Workers w)[i := k], StartedBy := StartedBy w @ in_progress k\<rparr>)"
| answer: "\<not> Terminated w \<Longrightarrow> i < length (Workers w) \<Longrightarrow> Workers w ! i = Running job \<Longrightarrow>
    http_step w (w\<lparr>Queue := worker_end (Queue w), Workers := (Workers w)[i := Waiting], Answered := Answered w @ [job]\<rparr>)"
| job_throws: "\<not> Terminated w \<Longrightarrow> i < length (Workers w) \<Longrightarrow> Workers w ! i = Running job \<Longrightarrow>
    http_step w (w\<lparr>Queue := worker_end (Queue w), Workers := (Workers w)[i := Waiting], Answered := Answered w @ [job], Terminated := True\<rparr>)"
| take_overload: "\<not> Terminated w \<Longrightarrow> OverloadWorker w = Waiting \<Longrightarrow> overload_begin (Queue w) = Some (k, q) \<Longrightarrow>
    http_step w (w\<lparr>Queue := q, OverloadWorker := k\<rparr>)"
| refuse: "\<not> Terminated w \<Longrightarrow> OverloadWorker w = Running job \<Longrightarrow>
    http_step w (w\<lparr>OverloadWorker := Waiting, Refused := Refused w @ [job]\<rparr>)"
| overload_throws: "\<not> Terminated w \<Longrightarrow> OverloadWorker w = Running job \<Longrightarrow>
    http_step w (w\<lparr>OverloadWorker := Waiting, Refused := Refused w @ [job], Terminated := True\<rparr>)"
| shutdown: "\<not> Terminated w \<Longrightarrow> http_step w (w\<lparr>Queue := begin_shutdown (Queue w)\<rparr>)"

inductive_cases http_stepE: "http_step w v"

definition running_jobs :: "'w worker list \<Rightarrow> 'w list" where
  "running_jobs ws = concat (map in_progress ws)"

definition slot :: "'w option \<Rightarrow> 'w list" where
  "slot job = (case job of None \<Rightarrow> [] | Some j \<Rightarrow> [j])"

definition http_ok :: "nat \<Rightarrow> nat \<Rightarrow> 'w http_world \<Rightarrow> bool" where
  "http_ok maxWorkers maxQueued w \<longleftrightarrow>
    MaxWorkers (Queue w) = maxWorkers \<and> MaxQueuedRequests (Queue w) = maxQueued
    \<and> length (Workers w) = maxWorkers \<and> 0 < maxWorkers
    \<and> (0 < maxQueued \<longrightarrow> length (m_jobs (Queue w)) \<le> maxQueued)
    \<and> QueuedRequests (Queue w) = length (m_jobs (Queue w))
    \<and> ActiveWorkers (Queue w) = length (running_jobs (Workers w))
    \<and> QueuedIn w = StartedBy w @ m_jobs (Queue w)
    \<and> mset (StartedBy w) = mset (Answered w) + mset (running_jobs (Workers w))
    \<and> OverloadedIn w = Refused w @ in_progress (OverloadWorker w) @ slot (m_overloadJob (Queue w))
    \<and> (Exited \<in> set (Workers w) \<longrightarrow> q_stopping (Queue w) \<and> m_jobs (Queue w) = [])
    \<and> (OverloadWorker w = Exited \<longrightarrow> q_stopping (Queue w) \<and> m_overloadJob (Queue w) = None)"

lemma running_jobs_update:
  "i < length ws \<Longrightarrow> mset (running_jobs (ws[i := k])) + mset (in_progress (ws ! i)) = mset (running_jobs ws) + mset (in_progress k)"
proof (induction ws arbitrary: i)
  case (Cons a ws)
  then show ?case by (cases i) (simp_all add: running_jobs_def add.commute add.left_commute)
qed simp

lemma running_jobs_start: "i < length ws \<Longrightarrow> ws ! i = Waiting \<Longrightarrow> mset (running_jobs (ws[i := k])) = mset (running_jobs ws) + mset (in_progress k)"
  using running_jobs_update [of i ws k] by simp

lemma running_jobs_finish: "i < length ws \<Longrightarrow> ws ! i = Running job \<Longrightarrow> mset (running_jobs ws) = add_mset job (mset (running_jobs (ws[i := Waiting])))"
  using running_jobs_update [of i ws Waiting] by simp

lemmas running_jobs_length =
  running_jobs_start [THEN arg_cong [where f = size], simplified]
  running_jobs_finish [THEN arg_cong [where f = size], simplified]

lemma http_ok_Terminated [simp]: "http_ok mw mq (w\<lparr>Terminated := t\<rparr>) = http_ok mw mq w"
  by (simp add: http_ok_def)

lemma enqueue_stopping: "enqueue q job = (True, q') \<Longrightarrow> \<not> q_stopping q"
  by (auto simp: enqueue_def split: if_splits)

lemma Exited_in_update: "Exited \<in> set (ws[i := k]) \<Longrightarrow> Exited \<in> set ws \<or> k = Exited"
  using set_update_subset_insert [of ws i k] by auto

lemma http_ok_enqueue:
  assumes ok: "http_ok mw mq w" and e: "enqueue (Queue w) job = (True, q)"
  shows "m_overloadJob q = m_overloadJob (Queue w) \<Longrightarrow> http_ok mw mq (w\<lparr>Queue := q, QueuedIn := QueuedIn w @ [job]\<rparr>)"
    and "m_overloadJob q \<noteq> m_overloadJob (Queue w) \<Longrightarrow> http_ok mw mq (w\<lparr>Queue := q, OverloadedIn := OverloadedIn w @ [job]\<rparr>)"
  using ok enqueue_stopping [OF e] e by (auto simp: http_ok_def enqueue_def slot_def Let_def split: if_splits)

lemma http_ok_take:
  assumes ok: "http_ok mw mq w" and i: "i < length (Workers w)" "Workers w ! i = Waiting" and b: "worker_begin (Queue w) = Some (k, q)"
  shows "http_ok mw mq (w\<lparr>Queue := q, Workers := (Workers w)[i := k], StartedBy := StartedBy w @ in_progress k\<rparr>)"
proof (cases "m_jobs (Queue w)")
  case Nil
  then have "k = Exited" "q = Queue w" "q_stopping (Queue w)" using b by (auto simp: worker_begin_def split: if_splits)
  then show ?thesis
    using ok i Nil running_jobs_start [OF i, of k] running_jobs_length(1) [OF i, of k] by (simp add: http_ok_def)
next
  case (Cons job rest)
  then have k: "k = Running job"
    "q = (Queue w)\<lparr>m_jobs := rest, QueuedRequests := length rest, ActiveWorkers := ActiveWorkers (Queue w) + 1\<rparr>"
    using b by (auto simp: worker_begin_def Let_def split: if_splits)
  have "Exited \<notin> set ((Workers w)[i := k])" using ok Cons k Exited_in_update [of "Workers w" i k] by (auto simp: http_ok_def)
  then show ?thesis
    using ok i Cons k running_jobs_start [OF i, of k] running_jobs_length(1) [OF i, of k] by (auto simp: http_ok_def)
qed

lemma http_ok_end:
  assumes ok: "http_ok mw mq w" and i: "i < length (Workers w)" "Workers w ! i = Running job"
  shows "http_ok mw mq (w\<lparr>Queue := worker_end (Queue w), Workers := (Workers w)[i := Waiting], Answered := Answered w @ [job]\<rparr>)"
  using ok i running_jobs_finish [OF i] running_jobs_length(2) [OF i] Exited_in_update [of "Workers w" i Waiting]
  by (auto simp: http_ok_def worker_end_def)

lemma http_ok_overload:
  assumes ok: "http_ok mw mq w"
  shows "OverloadWorker w = Waiting \<Longrightarrow> overload_begin (Queue w) = Some (k, q) \<Longrightarrow> http_ok mw mq (w\<lparr>Queue := q, OverloadWorker := k\<rparr>)"
    and "OverloadWorker w = Running job \<Longrightarrow> http_ok mw mq (w\<lparr>OverloadWorker := Waiting, Refused := Refused w @ [job]\<rparr>)"
  using ok by (auto simp: http_ok_def overload_begin_def slot_def split: if_splits option.splits)

lemma http_ok_keep: "http_ok mw mq w \<Longrightarrow> enqueue (Queue w) job = (False, q) \<Longrightarrow> http_ok mw mq (w\<lparr>Queue := q\<rparr>)"
  "http_ok mw mq w \<Longrightarrow> http_ok mw mq (w\<lparr>Queue := begin_shutdown (Queue w)\<rparr>)"
  by (auto simp: http_ok_def enqueue_def begin_shutdown_def Let_def split: if_splits)

lemma http_ok_step: "http_step w v \<Longrightarrow> http_ok mw mq w \<Longrightarrow> http_ok mw mq v"
  by (induction rule: http_step.induct)
    (simp_all add: http_ok_enqueue http_ok_take http_ok_end http_ok_overload http_ok_keep)

lemma new_queue_Some:
  "new_queue mw mq = Some q \<longleftrightarrow> 0 < mw \<and> q = \<lparr>MaxWorkers = mw, MaxQueuedRequests = mq, QueuedRequests = 0, ActiveWorkers = 0,
     m_jobs = [], m_overloadJob = None, q_stopping = False\<rparr>"
  by (auto simp: new_queue_def)

lemma running_jobs_none: "running_jobs (replicate n Waiting) = []"
  by (simp add: running_jobs_def)

interpretation http_pool: state_machine "http_init mw mq" http_step "http_ok mw mq" for mw mq
proof
  show "http_ok mw mq w" if "http_init mw mq w" for w :: "'w http_world"
    using that by (simp add: http_init_def http_ok_def new_queue_Some running_jobs_none slot_def)
qed (rule http_ok_step)

text \<open>The bounded queue is a work queue; the overload slot is beside it.\<close>

definition queue_put :: "'w http_queue \<Rightarrow> 'w \<Rightarrow> 'w http_queue option" where
  "queue_put q job = (case enqueue q job of (taken, q') \<Rightarrow> if taken \<and> m_overloadJob q' = m_overloadJob q then Some q' else None)"

definition queue_take :: "'w http_queue \<Rightarrow> ('w \<times> 'w http_queue) option" where
  "queue_take q = (case worker_begin q of Some (Running job, q') \<Rightarrow> Some (job, q') | _ \<Rightarrow> None)"

interpretation http_queue: work_queue m_jobs q_stopping queue_put queue_take begin_shutdown
  by unfold_locales
    (auto simp: queue_put_def queue_take_def enqueue_def worker_begin_def begin_shutdown_def Let_def split: if_splits)

section \<open>What it guarantees\<close>

text \<open>The request queue never holds more than the configured number of requests and never runs more than the
  configured number of workers, and its counters say exactly how many requests wait and how many workers
  are busy: in particular the counter of busy workers does not pass below zero.\<close>

theorem http_queue_bounded:
  assumes "http_init maxWorkers maxQueued w0" "http_step\<^sup>*\<^sup>* w0 w"
  shows "(0 < maxQueued \<longrightarrow> QueuedRequests (Queue w) \<le> maxQueued) \<and> QueuedRequests (Queue w) = length (m_jobs (Queue w))
    \<and> ActiveWorkers (Queue w) \<le> maxWorkers \<and> ActiveWorkers (Queue w) = length (running_jobs (Workers w))"
proof -
  have "length (running_jobs ws) \<le> length ws" for ws :: "'a worker list"
  proof (induction ws)
    case (Cons k ws)
    then show ?case by (cases k) (simp_all add: running_jobs_def)
  qed (simp add: running_jobs_def)
  then show ?thesis using http_pool.reachable_inv [OF assms] unfolding http_ok_def by metis
qed

text \<open>C27: Requests are started in the order in which the queue accepted them, and each accepted request is in
  exactly one place: answered, being answered or waiting; a request that found the queue full is refused by
  the overload worker, never dropped. When all workers have exited after a shutdown, every accepted request has
  been answered and every other one refused.\<close>

theorem http_queue_answers_each_request_once:
  assumes "http_init maxWorkers maxQueued w0" "http_step\<^sup>*\<^sup>* w0 w"
  shows "QueuedIn w = StartedBy w @ m_jobs (Queue w)
    \<and> mset (QueuedIn w) = mset (Answered w) + mset (running_jobs (Workers w)) + mset (m_jobs (Queue w))
    \<and> OverloadedIn w = Refused w @ in_progress (OverloadWorker w) @ slot (m_overloadJob (Queue w))
    \<and> (Workers w = replicate maxWorkers Exited \<and> OverloadWorker w = Exited \<longrightarrow>
         mset (Answered w) = mset (QueuedIn w) \<and> StartedBy w = QueuedIn w \<and> Refused w = OverloadedIn w)"
proof -
  have "running_jobs (replicate n Exited) = []" for n by (simp add: running_jobs_def)
  then show ?thesis using http_pool.reachable_inv [OF assms] by (auto simp: http_ok_def slot_def)
qed

definition demo_pool :: "nat http_world" where
  "demo_pool = \<lparr>Queue = \<lparr>MaxWorkers = 1, MaxQueuedRequests = 1, QueuedRequests = 0, ActiveWorkers = 0, m_jobs = [],
       m_overloadJob = None, q_stopping = False\<rparr>, Workers = [Waiting], OverloadWorker = Waiting, Terminated = False,
     QueuedIn = [], StartedBy = [], OverloadedIn = [], Answered = [], Refused = []\<rparr>"

definition demo_pool_full :: "nat http_world" where
  "demo_pool_full = demo_pool\<lparr>Queue := (Queue demo_pool)\<lparr>m_jobs := [4], QueuedRequests := 1, m_overloadJob := Some 5\<rparr>,
     QueuedIn := [4], OverloadedIn := [5]\<rparr>"

lemma demo_pool_init: "http_init 1 1 demo_pool"
  by (simp add: http_init_def demo_pool_def new_queue_def)

lemma demo_pool_steps: "http_step\<^sup>*\<^sup>* demo_pool demo_pool_full"
proof -
  let ?w = "demo_pool\<lparr>Queue := (Queue demo_pool)\<lparr>m_jobs := [4], QueuedRequests := 1\<rparr>, QueuedIn := [4]\<rparr>"
  have "http_step demo_pool ?w"
    using http_step.queued [of demo_pool 4] by (simp add: demo_pool_def enqueue_def)
  moreover have "http_step ?w demo_pool_full"
    using http_step.overload_slot [of ?w 5] by (simp add: demo_pool_def demo_pool_full_def enqueue_def)
  ultimately show ?thesis by (meson converse_rtranclp_into_rtranclp rtranclp.rtrancl_refl)
qed

theorem http_queue_bounded_witness:
  "QueuedRequests (Queue demo_pool_full) = 1 \<and> QueuedRequests (Queue demo_pool_full) \<le> 1"
  using http_queue_bounded [OF demo_pool_init demo_pool_steps] by (simp add: demo_pool_full_def)

theorem http_queue_answers_each_request_once_witness:
  "OverloadedIn demo_pool_full = [5] \<and> slot (m_overloadJob (Queue demo_pool_full)) = [5]"
  using http_queue_answers_each_request_once [OF demo_pool_init demo_pool_steps]
  by (simp add: demo_pool_full_def demo_pool_def slot_def)

end
