(* ===== verification/Download_Gate.thy ===== *)
theory Download_Gate
  imports Prelude Transition_Systems
begin

text \<open>
  The limit on concurrent downloads, \<open>CDownloadGate\<close> and its leases, of \<open>libs/Server/HttpServer.cpp\<close>. A lease
  is whether it still holds its gate (\<open>m_gate\<close> is not null); moving from a lease leaves it empty. The step
  relation lets any holder acquire, release, move, assign and destroy leases in any order.
\<close>

section \<open>The gate and its leases\<close>

record download_gate =
  m_maxConcurrentDownloads :: nat
  m_activeDownloads :: nat

record SServerDownloadRuntimeStatus =
  DownloadsActive :: nat
  DownloadsMaxConcurrent :: nat

type_synonym lease = bool

definition new_gate :: "nat \<Rightarrow> download_gate" where
  "new_gate maxConcurrentDownloads = \<lparr>m_maxConcurrentDownloads = maxConcurrentDownloads, m_activeDownloads = 0\<rparr>"

definition TryAcquire :: "download_gate \<Rightarrow> lease option \<times> download_gate" where
  "TryAcquire gate =
    (if m_activeDownloads gate \<ge> m_maxConcurrentDownloads gate then (None, gate)
     else (Some True, gate\<lparr>m_activeDownloads := m_activeDownloads gate + 1\<rparr>))"

definition GetStatus :: "download_gate \<Rightarrow> SServerDownloadRuntimeStatus" where
  "GetStatus gate = \<lparr>DownloadsActive = m_activeDownloads gate, DownloadsMaxConcurrent = m_maxConcurrentDownloads gate\<rparr>"

definition gate_Release :: "download_gate \<Rightarrow> download_gate" where
  "gate_Release gate = (if m_activeDownloads gate > 0 then gate\<lparr>m_activeDownloads := m_activeDownloads gate - 1\<rparr> else gate)"

definition lease_Release :: "lease \<Rightarrow> download_gate \<Rightarrow> lease \<times> download_gate" where
  "lease_Release held gate = (if held then (False, gate_Release gate) else (held, gate))"

text \<open>Move construction: the new lease and what is left of the other.\<close>

definition lease_move :: "lease \<Rightarrow> lease \<times> lease" where
  "lease_move other = (other, False)"

text \<open>Move assignment from another lease; from itself it does nothing.\<close>

definition lease_assign :: "lease \<Rightarrow> lease \<Rightarrow> download_gate \<Rightarrow> lease \<times> lease \<times> download_gate" where
  "lease_assign this other gate = (case lease_Release this gate of (_, gate') \<Rightarrow> (other, False, gate'))"

section \<open>The leases in use\<close>

record gate_world =
  Gate :: download_gate
  Leases :: "lease list"

definition gate_init :: "nat \<Rightarrow> gate_world \<Rightarrow> bool" where
  "gate_init limit w \<longleftrightarrow> w = \<lparr>Gate = new_gate limit, Leases = []\<rparr>"

inductive gate_step :: "gate_world \<Rightarrow> gate_world \<Rightarrow> bool" where
  acquire: "TryAcquire (Gate w) = (Some l, g) \<Longrightarrow> gate_step w (w\<lparr>Gate := g, Leases := Leases w @ [l]\<rparr>)"
| full: "TryAcquire (Gate w) = (None, g) \<Longrightarrow> gate_step w (w\<lparr>Gate := g\<rparr>)"
| release: "i < length (Leases w) \<Longrightarrow> lease_Release (Leases w ! i) (Gate w) = (l, g) \<Longrightarrow>
    gate_step w (w\<lparr>Gate := g, Leases := (Leases w)[i := l]\<rparr>)"
| move: "i < length (Leases w) \<Longrightarrow> lease_move (Leases w ! i) = (l, other) \<Longrightarrow>
    gate_step w (w\<lparr>Leases := (Leases w)[i := other] @ [l]\<rparr>)"
| assign: "i < length (Leases w) \<Longrightarrow> j < length (Leases w) \<Longrightarrow> i \<noteq> j \<Longrightarrow> lease_assign (Leases w ! i) (Leases w ! j) (Gate w) = (l, other, g) \<Longrightarrow>
    gate_step w (w\<lparr>Gate := g, Leases := (Leases w)[i := l, j := other]\<rparr>)"
| destroy: "i < length (Leases w) \<Longrightarrow> lease_Release (Leases w ! i) (Gate w) = (l, g) \<Longrightarrow>
    gate_step w (w\<lparr>Gate := g, Leases := take i (Leases w) @ drop (Suc i) (Leases w)\<rparr>)"

definition held_leases :: "lease list \<Rightarrow> nat" where
  "held_leases ls = length (filter (\<lambda>held. held) ls)"

definition gate_ok :: "nat \<Rightarrow> gate_world \<Rightarrow> bool" where
  "gate_ok limit w \<longleftrightarrow> m_maxConcurrentDownloads (Gate w) = limit \<and> m_activeDownloads (Gate w) \<le> limit
    \<and> m_activeDownloads (Gate w) = held_leases (Leases w)"

lemma held_leases_simps [simp]: "held_leases [] = 0" "held_leases (ls @ ms) = held_leases ls + held_leases ms"
  "held_leases (l # ls) = (if l then 1 else 0) + held_leases ls"
  by (simp_all add: held_leases_def)

lemma held_leases_split: "i < length ls \<Longrightarrow> held_leases ls = held_leases (take i ls) + (if ls ! i then 1 else 0) + held_leases (drop (Suc i) ls)"
  by (metis Cons_nth_drop_Suc append_take_drop_id held_leases_simps(2,3) add.assoc)

lemma held_leases_update: "i < length ls \<Longrightarrow> held_leases (ls[i := l]) + (if ls ! i then 1 else 0) = held_leases ls + (if l then 1 else 0)"
  using held_leases_split [of i ls] by (simp add: upd_conv_take_nth_drop)

lemma gate_ok_Release:
  assumes "lease_Release (Leases w ! i) (Gate w) = (l, g)" "i < length (Leases w)" "gate_ok limit w"
  shows "\<not> l" "m_maxConcurrentDownloads g = limit" "m_activeDownloads g + (if Leases w ! i then 1 else 0) = m_activeDownloads (Gate w)"
  using assms held_leases_split [OF assms(2)] by (auto simp: lease_Release_def gate_Release_def gate_ok_def split: if_splits)

lemma gate_ok_step: "gate_step w v \<Longrightarrow> gate_ok limit w \<Longrightarrow> gate_ok limit v"
proof (induction rule: gate_step.induct)
  case (acquire w l g)
  then show ?case by (auto simp: TryAcquire_def gate_ok_def split: if_splits)
next
  case (full w g)
  then show ?case by (auto simp: TryAcquire_def gate_ok_def split: if_splits)
next
  case (release i w l g)
  then show ?case using gate_ok_Release [OF release(2,1,3)] held_leases_update [OF release(1), of l] by (simp add: gate_ok_def)
next
  case (move i w l other)
  then show ?case using held_leases_update [OF move(1), of False] by (simp add: lease_move_def gate_ok_def)
next
  case (assign i w j l other g)
  obtain l' where r: "lease_Release (Leases w ! i) (Gate w) = (l', g)" and lo: "l = Leases w ! j" "\<not> other"
    using assign(4) by (auto simp: lease_assign_def split: prod.splits)
  show ?case
    using gate_ok_Release [OF r assign(1,5)] held_leases_update [OF assign(1), of l] assign(1-3,5) lo
      held_leases_update [of j "(Leases w)[i := l]" other] by (simp add: gate_ok_def)
next
  case (destroy i w l g)
  then show ?case using gate_ok_Release [OF destroy(2,1,3)] held_leases_split [OF destroy(1)] by (simp add: gate_ok_def)
qed

interpretation gate: state_machine "gate_init limit" gate_step "gate_ok limit" for limit
proof
  show "gate_ok limit w" if "gate_init limit w" for w
    using that by (simp add: gate_init_def gate_ok_def new_gate_def)
qed (rule gate_ok_step)

section \<open>What the gate guarantees\<close>

text \<open>C28: However leases are acquired, released, moved, assigned and destroyed, the gate's count is the number of
  leases that hold it and never exceeds the limit, and a lease is given exactly while that number is below the
  limit: no download slot leaks and none is freed twice.\<close>

theorem download_gate_exact:
  assumes "gate_init limit w0" "gate_step\<^sup>*\<^sup>* w0 w"
  shows "DownloadsActive (GetStatus (Gate w)) = held_leases (Leases w) \<and> held_leases (Leases w) \<le> limit
    \<and> (fst (TryAcquire (Gate w)) = Some True \<longleftrightarrow> held_leases (Leases w) < limit)"
  using gate.reachable_inv [OF assms] by (auto simp: gate_ok_def GetStatus_def TryAcquire_def)

theorem download_gate_exact_witness:
  "fst (TryAcquire (new_gate 1)) = Some True \<and> fst (TryAcquire (snd (TryAcquire (new_gate 1)))) = None"
proof -
  let ?w0 = "\<lparr>Gate = new_gate 1, Leases = []\<rparr>"
  let ?w1 = "\<lparr>Gate = snd (TryAcquire (new_gate 1)), Leases = [True]\<rparr>"
  have i: "gate_init 1 ?w0" by (simp add: gate_init_def)
  have "gate_step ?w0 ?w1" using gate_step.acquire [of ?w0] by (simp add: TryAcquire_def new_gate_def)
  then show ?thesis
    using download_gate_exact [OF i, of ?w0] download_gate_exact [OF i, of ?w1] by (auto simp: TryAcquire_def new_gate_def)
qed

end
