(* ===== verification/Scan_Jobs.thy ===== *)
theory Scan_Jobs
  imports Domain_Types Transition_Systems
begin

text \<open>
  The registry of scan jobs, \<open>CInpxScanJobService\<close> of \<open>libs/App/InpxScanJobService.hpp\<close> and \<open>.cpp\<close>. A job
  is a record with a snapshot for the clients, a result once its thread is done, and its thread. The operations
  run under the mutexes, so each is a function on the registry; \<open>Start\<close> takes three critical sections, and the
  thread of a job publishes snapshots, computes its result and stores it, in steps of its own. What a scan does
  to the catalog is in the other scan theories: here a scan is what it publishes and how it ends.
\<close>

section \<open>Jobs\<close>

datatype EInpxScanMode = InitialScan | Rescan

datatype EInpxScanJobStatus = JobPending | JobRunning | JobCompleted | JobFailed | JobCancelled | JobCancelling

record SInpxScanRequest =
  Mode :: EInpxScanMode
  WarningLimit :: nat

definition default_scan_request :: SInpxScanRequest where
  "default_scan_request = \<lparr>Mode = InitialScan, WarningLimit = 50\<rparr>"

record SInpxScanJobSnapshot =
  JobId :: nat
  JobStatus :: EInpxScanJobStatus
  Percent :: nat
  SnapMessage :: string
  ScanWarnings :: "string list"
  SnapTotalRecords :: nat
  ScannedRecords :: nat
  ParsedFb2Records :: nat
  AddedRecords :: nat
  UpdatedRecords :: nat
  MarkedUnavailableRecords :: nat
  SnapSkippedRecords :: nat
  ReusedRecords :: nat
  SegmentsTotal :: nat
  SegmentsUnchanged :: nat
  SegmentsAdded :: nat
  SegmentsChanged :: nat
  SegmentsRemoved :: nat
  ArchivesSkipped :: nat
  ArchivesOpened :: nat
  ArchiveBytesRead :: nat
  CurrentArchiveNameUtf8 :: string
  CurrentEntryNameUtf8 :: string

definition initial_snapshot :: "nat \<Rightarrow> SInpxScanJobSnapshot" where
  "initial_snapshot jobId =
    \<lparr>JobId = jobId, JobStatus = JobPending, Percent = 0, SnapMessage = [], ScanWarnings = [], SnapTotalRecords = 0, ScannedRecords = 0,
     ParsedFb2Records = 0, AddedRecords = 0, UpdatedRecords = 0, MarkedUnavailableRecords = 0, SnapSkippedRecords = 0,
     ReusedRecords = 0, SegmentsTotal = 0, SegmentsUnchanged = 0, SegmentsAdded = 0, SegmentsChanged = 0, SegmentsRemoved = 0,
     ArchivesSkipped = 0, ArchivesOpened = 0, ArchiveBytesRead = 0, CurrentArchiveNameUtf8 = [], CurrentEntryNameUtf8 = []\<rparr>"

definition IsTerminal :: "SInpxScanJobSnapshot \<Rightarrow> bool" where
  "IsTerminal s \<longleftrightarrow> JobStatus s = JobCompleted \<or> JobStatus s = JobFailed \<or> JobStatus s = JobCancelled"

record SInpxScanResult =
  ResultWarningCount :: nat
  ParserWarningCount :: nat
  CoverWarningCount :: nat
  MetadataFallbackCount :: nat
  TitleFallbackCount :: nat
  AuthorFallbackCount :: nat
  LanguageFallbackCount :: nat

record SInpxScanJobResult =
  ResultSnapshot :: SInpxScanJobSnapshot
  ScanResult :: "SInpxScanResult option"
  ScanError :: "SDomainError option"

section \<open>How a scan ends\<close>

text \<open>What \<open>RunScan\<close> leaves: a result and its completion message, the cancellation exception, another exception
  with its text, or one that is no \<open>std::exception\<close>.\<close>

datatype scan_end = ScanDone string SInpxScanResult | ScanCancelled | ScanFailed string | ScanFailedUnknown

definition scan_error :: "SInpxScanJobSnapshot \<Rightarrow> EInpxScanJobStatus \<Rightarrow> EDomainErrorCode \<Rightarrow> string \<Rightarrow> SInpxScanJobResult" where
  "scan_error snapshot status code message =
    \<lparr>ResultSnapshot = snapshot\<lparr>JobStatus := status, SnapMessage := message\<rparr>, ScanResult = None,
     ScanError = Some \<lparr>Code = code, Message = message\<rparr>\<rparr>"

fun job_result :: "SInpxScanJobSnapshot \<Rightarrow> scan_end \<Rightarrow> SInpxScanJobResult" where
  "job_result snapshot (ScanDone message counts) =
    \<lparr>ResultSnapshot = snapshot\<lparr>JobStatus := JobCompleted, Percent := 100, SnapMessage := message\<rparr>, ScanResult = Some counts,
     ScanError = None\<rparr>"
| "job_result snapshot ScanCancelled = scan_error snapshot JobCancelled Cancellation ''INPX scan cancelled.''"
| "job_result snapshot (ScanFailed message) = scan_error snapshot JobFailed ParserFailure message"
| "job_result snapshot ScanFailedUnknown =
    scan_error snapshot JobFailed ParserFailure ''INPX scan failed with a non-standard exception.''"

section \<open>The registry\<close>

text \<open>A job's thread: not there yet, scanning (with its stop flag), holding the result it is about to store, or
  returned and waiting to be joined.\<close>

datatype job_thread = NoThread | Scanning bool | Storing SInpxScanJobResult | Returned

record SJobRecord =
  Snapshot :: SInpxScanJobSnapshot
  Result :: "SInpxScanJobResult option"
  Thread :: job_thread

record scan_service =
  m_jobs :: "nat \<rightharpoonup> SJobRecord"
  m_nextJobId :: nat

datatype scan_service_error = ScanAlreadyRunning | ScanWorkspaceFailed string | ScanThreadFailed

definition new_service :: scan_service where
  "new_service = \<lparr>m_jobs = Map.empty, m_nextJobId = 1\<rparr>"

definition new_record :: "nat \<Rightarrow> SJobRecord" where
  "new_record jobId = \<lparr>Snapshot = initial_snapshot jobId, Result = None, Thread = NoThread\<rparr>"

definition job_active :: "SJobRecord \<Rightarrow> bool" where
  "job_active r \<longleftrightarrow> \<not> IsTerminal (Snapshot r)"

definition any_active :: "scan_service \<Rightarrow> bool" where
  "any_active s \<longleftrightarrow> (\<exists>j r. m_jobs s j = Some r \<and> job_active r)"

text \<open>The first critical section of \<open>Start\<close>: 64-bit identifiers do not run out.\<close>

definition start_register :: "scan_service \<Rightarrow> scan_service_error + nat \<times> scan_service" where
  "start_register s =
    (if any_active s then Inl ScanAlreadyRunning
     else let jobId = m_nextJobId s in
       Inr (jobId, s\<lparr>m_nextJobId := jobId + 1, m_jobs := (m_jobs s)(jobId \<mapsto> new_record jobId)\<rparr>))"

definition erase_job :: "nat \<Rightarrow> scan_service \<Rightarrow> scan_service" where
  "erase_job jobId s = s\<lparr>m_jobs := (m_jobs s)(jobId := None)\<rparr>"

definition update_job :: "nat \<Rightarrow> (SJobRecord \<Rightarrow> SJobRecord) \<Rightarrow> scan_service \<Rightarrow> scan_service" where
  "update_job jobId f s =
    (case m_jobs s jobId of None \<Rightarrow> s | Some r \<Rightarrow> s\<lparr>m_jobs := (m_jobs s)(jobId \<mapsto> f r)\<rparr>)"

definition start_thread :: "nat \<Rightarrow> scan_service \<Rightarrow> scan_service" where
  "start_thread jobId = update_job jobId (\<lambda>r. r\<lparr>Thread := Scanning False\<rparr>)"

text \<open>\<open>Start\<close> as a whole, with no other call between its critical sections: whether the job's directory can be
  created and the thread started are arguments.\<close>

definition Start :: "string option \<Rightarrow> bool \<Rightarrow> scan_service \<Rightarrow> (scan_service_error + nat) \<times> scan_service" where
  "Start workspaceError threadStarts s =
    (case start_register s of
       Inl e \<Rightarrow> (Inl e, s)
     | Inr (jobId, s') \<Rightarrow>
         (case workspaceError of
            Some m \<Rightarrow> (Inl (ScanWorkspaceFailed (''INPX scan workspace could not be created: '' @ m)), erase_job jobId s')
          | None \<Rightarrow> if threadStarts then (Inr jobId, start_thread jobId s') else (Inl ScanThreadFailed, erase_job jobId s')))"

definition TryGetSnapshot :: "nat \<Rightarrow> scan_service \<Rightarrow> SInpxScanJobSnapshot option" where
  "TryGetSnapshot jobId s = map_option Snapshot (m_jobs s jobId)"

definition TryGetResult :: "nat \<Rightarrow> scan_service \<Rightarrow> SInpxScanJobResult option" where
  "TryGetResult jobId s = (case m_jobs s jobId of None \<Rightarrow> None | Some r \<Rightarrow> Result r)"

fun request_thread_stop :: "job_thread \<Rightarrow> job_thread" where
  "request_thread_stop (Scanning _) = Scanning True"
| "request_thread_stop t = t"

definition cancel_record :: "SJobRecord \<Rightarrow> SJobRecord" where
  "cancel_record r =
    r\<lparr>Snapshot := (Snapshot r)\<lparr>JobStatus := JobCancelling, SnapMessage := ''Cancelling INPX scan.''\<rparr>,
      Thread := request_thread_stop (Thread r)\<rparr>"

definition Cancel :: "nat \<Rightarrow> scan_service \<Rightarrow> bool \<times> scan_service" where
  "Cancel jobId s =
    (case m_jobs s jobId of
       None \<Rightarrow> (False, s)
     | Some r \<Rightarrow> if IsTerminal (Snapshot r) then (False, s) else (True, update_job jobId cancel_record s))"

text \<open>What \<open>Wait\<close> returns when it is woken or its time is over.\<close>

definition wait_returns :: "nat \<Rightarrow> scan_service \<Rightarrow> bool" where
  "wait_returns jobId s = (case m_jobs s jobId of None \<Rightarrow> False | Some r \<Rightarrow> IsTerminal (Snapshot r))"

text \<open>\<open>Remove\<close> joins the thread of a job that has its result.\<close>

definition Remove :: "nat \<Rightarrow> scan_service \<Rightarrow> bool \<times> scan_service" where
  "Remove jobId s =
    (case m_jobs s jobId of
       None \<Rightarrow> (False, s)
     | Some r \<Rightarrow> if Result r = None then (False, s) else (True, erase_job jobId s))"

text \<open>The destructor requests every thread to stop before it joins them.\<close>

definition stop_all :: "scan_service \<Rightarrow> scan_service" where
  "stop_all s = s\<lparr>m_jobs := (\<lambda>j. map_option (\<lambda>r. r\<lparr>Thread := request_thread_stop (Thread r)\<rparr>) (m_jobs s j))\<rparr>"

section \<open>The thread of a job\<close>

definition PublishSnapshot :: "nat \<Rightarrow> (SInpxScanJobSnapshot \<Rightarrow> SInpxScanJobSnapshot) \<Rightarrow> scan_service \<Rightarrow> scan_service" where
  "PublishSnapshot jobId f = update_job jobId (\<lambda>r. r\<lparr>Snapshot := f (Snapshot r)\<rparr>)"

text \<open>The snapshots that a scan publishes: \<open>Running\<close> or \<open>Cancelling\<close>, or the status as it is; never another
  job's identifier.\<close>

definition scan_publishes :: "(SInpxScanJobSnapshot \<Rightarrow> SInpxScanJobSnapshot) \<Rightarrow> bool" where
  "scan_publishes f \<longleftrightarrow> (\<forall>s. JobId (f s) = JobId s \<and> JobStatus (f s) \<in> {JobStatus s, JobRunning, JobCancelling})"

definition store_result :: "nat \<Rightarrow> SInpxScanJobResult \<Rightarrow> scan_service \<Rightarrow> scan_service" where
  "store_result jobId result = update_job jobId (\<lambda>r. r\<lparr>Snapshot := ResultSnapshot result, Result := Some result, Thread := Returned\<rparr>)"

inductive job_step :: "scan_service \<Rightarrow> scan_service \<Rightarrow> bool" where
  register: "start_register s = Inr (j, s') \<Longrightarrow> job_step s s'"
| start_fails: "m_jobs s j = Some r \<Longrightarrow> Thread r = NoThread \<Longrightarrow> job_step s (erase_job j s)"
| thread_starts: "m_jobs s j = Some r \<Longrightarrow> Thread r = NoThread \<Longrightarrow> job_step s (start_thread j s)"
| cancel: "Cancel j s = (True, s') \<Longrightarrow> job_step s s'"
| remove: "Remove j s = (True, s') \<Longrightarrow> job_step s s'"
| destroy: "job_step s (stop_all s)"
| publish: "m_jobs s j = Some r \<Longrightarrow> Thread r = Scanning stop \<Longrightarrow> scan_publishes f \<Longrightarrow> job_step s (PublishSnapshot j f s)"
| scan_ends: "m_jobs s j = Some r \<Longrightarrow> Thread r = Scanning stop \<Longrightarrow> e = ScanCancelled \<longrightarrow> stop \<Longrightarrow>
    job_step s (update_job j (\<lambda>r. r\<lparr>Thread := Storing (job_result (Snapshot r) e)\<rparr>) s)"
| store: "m_jobs s j = Some r \<Longrightarrow> Thread r = Storing result \<Longrightarrow> job_step s (store_result j result s)"

inductive_cases job_stepE: "job_step s t"

section \<open>The invariant of the registry\<close>

definition result_ok :: "nat \<Rightarrow> SInpxScanJobResult \<Rightarrow> bool" where
  "result_ok j result \<longleftrightarrow> JobId (ResultSnapshot result) = j \<and> IsTerminal (ResultSnapshot result)
    \<and> (ScanResult result \<noteq> None \<longleftrightarrow> JobStatus (ResultSnapshot result) = JobCompleted)
    \<and> (ScanError result = None \<longleftrightarrow> JobStatus (ResultSnapshot result) = JobCompleted)
    \<and> (JobStatus (ResultSnapshot result) = JobCompleted \<longrightarrow> Percent (ResultSnapshot result) = 100)"

definition record_ok :: "nat \<Rightarrow> SJobRecord \<Rightarrow> bool" where
  "record_ok j r \<longleftrightarrow> JobId (Snapshot r) = j \<and>
    (case Thread r of
       Storing result \<Rightarrow> Result r = None \<and> \<not> IsTerminal (Snapshot r) \<and> result_ok j result
     | Returned \<Rightarrow> (case Result r of None \<Rightarrow> False | Some result \<Rightarrow> result_ok j result \<and> Snapshot r = ResultSnapshot result)
     | _ \<Rightarrow> Result r = None \<and> \<not> IsTerminal (Snapshot r))"

definition jobs_ok :: "scan_service \<Rightarrow> bool" where
  "jobs_ok s \<longleftrightarrow>
    (\<forall>j r. m_jobs s j = Some r \<longrightarrow> 1 \<le> j \<and> j < m_nextJobId s \<and> record_ok j r)
    \<and> (\<forall>i j q r. m_jobs s i = Some q \<longrightarrow> m_jobs s j = Some r \<longrightarrow> job_active q \<longrightarrow> job_active r \<longrightarrow> i = j) \<and> 1 \<le> m_nextJobId s"

lemma record_ok_active: "record_ok j r \<Longrightarrow> job_active r \<longleftrightarrow> Result r = None"
  by (cases "Thread r"; cases "Result r"; simp add: record_ok_def job_active_def result_ok_def)

lemma job_result_ok: "JobId s = j \<Longrightarrow> result_ok j (job_result s e)"
  by (cases e) (auto simp: result_ok_def scan_error_def IsTerminal_def)

lemma jobs_ok_update:
  assumes ok: "jobs_ok s" and r: "m_jobs s j = Some r" and f: "record_ok j (f r)" "job_active (f r) \<longrightarrow> job_active r"
  shows "jobs_ok (update_job j f s)"
proof -
  have 1: "record_ok k q \<and> 1 \<le> k \<and> k < m_nextJobId s" if "((m_jobs s)(j \<mapsto> f r)) k = Some q" for k q
    using that ok r f by (auto simp: jobs_ok_def split: if_splits)
  have 2: "\<exists>q'. m_jobs s k = Some q' \<and> job_active q'" if "((m_jobs s)(j \<mapsto> f r)) k = Some q" "job_active q" for k q
    using that r f by (auto split: if_splits)
  have "i = k"
    if m: "((m_jobs s)(j \<mapsto> f r)) i = Some q" "job_active q" "((m_jobs s)(j \<mapsto> f r)) k = Some p" "job_active p" for i k p q
  proof -
    obtain q' p' where "m_jobs s i = Some q'" "job_active q'" "m_jobs s k = Some p'" "job_active p'"
      using 2 [OF m(1,2)] 2 [OF m(3,4)] by blast
    then show "i = k" using ok unfolding jobs_ok_def by blast
  qed
  moreover have "m_jobs (update_job j f s) = (m_jobs s)(j \<mapsto> f r)" "m_nextJobId (update_job j f s) = m_nextJobId s" "1 \<le> m_nextJobId s"
    using r ok by (simp_all add: update_job_def jobs_ok_def)
  ultimately show ?thesis unfolding jobs_ok_def using 1 by metis
qed

lemma jobs_ok_record: "jobs_ok s \<Longrightarrow> m_jobs s j = Some r \<Longrightarrow> j < m_nextJobId s \<and> record_ok j r"
  unfolding jobs_ok_def by blast

lemma jobs_ok_fresh: "jobs_ok s \<Longrightarrow> m_jobs s (m_nextJobId s) = None"
  using jobs_ok_record [of s "m_nextJobId s"] by (cases "m_jobs s (m_nextJobId s)") auto

lemma jobs_ok_erase: "jobs_ok s \<Longrightarrow> jobs_ok (erase_job j s)"
  unfolding jobs_ok_def erase_job_def by auto

lemma jobs_ok_register:
  assumes ok: "jobs_ok s" and s': "start_register s = Inr (j, s')"
  shows "jobs_ok s'"
proof -
  have n: "j = m_nextJobId s" "s' = s\<lparr>m_nextJobId := j + 1, m_jobs := (m_jobs s)(j \<mapsto> new_record j)\<rparr>" "\<not> any_active s"
    using s' by (auto simp: start_register_def Let_def split: if_splits)
  have "record_ok j (new_record j)" by (simp add: record_ok_def new_record_def initial_snapshot_def IsTerminal_def)
  then show ?thesis using ok n by (auto simp: jobs_ok_def any_active_def less_SucI)
qed

lemma request_stop_ok: "record_ok j r \<Longrightarrow> record_ok j (r\<lparr>Thread := request_thread_stop (Thread r)\<rparr>)"
  by (cases "Thread r"; cases "Result r"; clarsimp simp: record_ok_def)

lemma IsTerminal_update [simp]: "IsTerminal (s\<lparr>JobStatus := JobCancelling, SnapMessage := m\<rparr>) = False"
  by (simp add: IsTerminal_def)

lemma cancel_record_ok: "record_ok j r \<Longrightarrow> job_active r \<Longrightarrow> record_ok j (cancel_record r) \<and> job_active (cancel_record r)"
  by (cases "Thread r"; cases "Result r"; simp add: record_ok_def cancel_record_def job_active_def result_ok_def)

lemma publish_ok:
  assumes "scan_publishes f" "\<not> IsTerminal s"
  shows "JobId (f s) = JobId s" "\<not> IsTerminal (f s)"
proof -
  have p: "JobId (f s) = JobId s" "JobStatus (f s) \<in> {JobStatus s, JobRunning, JobCancelling}"
    using assms(1) unfolding scan_publishes_def by blast+
  then show "JobId (f s) = JobId s" by blast
  show "\<not> IsTerminal (f s)" using p(2) assms(2) by (auto simp: IsTerminal_def)
qed

lemma jobs_ok_step: "job_step s t \<Longrightarrow> jobs_ok s \<Longrightarrow> jobs_ok t"
proof (induction rule: job_step.induct)
  case (register s j s')
  then show ?case using jobs_ok_register by blast
next
  case (start_fails s j r)
  then show ?case using jobs_ok_erase by blast
next
  case (thread_starts s j r)
  then have "record_ok j r" by (simp add: jobs_ok_def)
  with thread_starts show ?case
    unfolding start_thread_def by (intro jobs_ok_update) (auto simp: record_ok_def job_active_def)
next
  case (cancel j s s')
  then obtain r where r: "m_jobs s j = Some r" "job_active r" "s' = update_job j cancel_record s"
    by (auto simp: Cancel_def job_active_def split: option.splits if_splits)
  then have "record_ok j r" using cancel by (simp add: jobs_ok_def)
  with r cancel show ?case using cancel_record_ok jobs_ok_update by blast
next
  case (remove j s s')
  then show ?case using jobs_ok_erase by (auto simp: Remove_def split: option.splits if_splits)
next
  case (destroy s)
  then show ?case
    by (auto simp: jobs_ok_def stop_all_def job_active_def intro!: request_stop_ok)
next
  case (publish s j r stop f)
  then have "record_ok j r" by (simp add: jobs_ok_def)
  with publish show ?case
    unfolding PublishSnapshot_def by (intro jobs_ok_update) (auto simp: record_ok_def job_active_def publish_ok)
next
  case (scan_ends s j r stop e)
  then have "record_ok j r" by (simp add: jobs_ok_def)
  with scan_ends show ?case
    by (intro jobs_ok_update) (auto simp: record_ok_def job_active_def intro: job_result_ok)
next
  case (store s j r result)
  then have "record_ok j r" by (simp add: jobs_ok_def)
  with store show ?case
    unfolding store_result_def by (intro jobs_ok_update) (auto simp: record_ok_def job_active_def result_ok_def)
qed

interpretation scan_jobs: state_machine "\<lambda>s. s = new_service" job_step jobs_ok
  by unfold_locales (simp add: new_service_def jobs_ok_def, rule jobs_ok_step)

section \<open>What the registry guarantees\<close>

text \<open>C11: Whatever the interleaving of starts, cancellations, removals and scan threads, at most one scan is active; a
  start is refused exactly while one is, otherwise it takes a fresh identifier; and a job has a result exactly when
  its snapshot is terminal, and then the result holds that snapshot, counts exactly when it completed and an error
  exactly when it did not.\<close>

theorem at_most_one_scan_active:
  assumes "job_step\<^sup>*\<^sup>* new_service s"
  shows "(\<forall>i j q r. m_jobs s i = Some q \<and> m_jobs s j = Some r \<and> job_active q \<and> job_active r \<longrightarrow> i = j)
    \<and> (start_register s = Inl ScanAlreadyRunning \<longleftrightarrow> any_active s)
    \<and> (\<forall>j s'. start_register s = Inr (j, s') \<longrightarrow> m_jobs s j = None)
    \<and> (\<forall>j r. m_jobs s j = Some r \<longrightarrow>
        (case Result r of None \<Rightarrow> \<not> IsTerminal (Snapshot r) | Some result \<Rightarrow> result_ok j result \<and> Snapshot r = ResultSnapshot result))"
proof -
  have ok: "jobs_ok s" using scan_jobs.reachable_inv [OF refl assms] .
  have "case Result r of None \<Rightarrow> \<not> IsTerminal (Snapshot r) | Some result \<Rightarrow> result_ok j result \<and> Snapshot r = ResultSnapshot result"
    if "record_ok j r" for j r
    using that by (cases "Thread r"; cases "Result r"; simp add: record_ok_def)
  moreover note jobs_ok_fresh [OF ok]
  ultimately show ?thesis
    using ok unfolding jobs_ok_def by (auto simp: start_register_def Let_def split: if_splits)
qed

text \<open>Once a job has its result, no step changes it: it stays or is removed, and its identifier never comes back.\<close>

definition keeps_results :: "scan_service \<Rightarrow> scan_service \<Rightarrow> bool" where
  "keeps_results s t \<longleftrightarrow> m_nextJobId s \<le> m_nextJobId t \<and>
    (\<forall>j. j < m_nextJobId s \<longrightarrow>
      (case m_jobs s j of
         None \<Rightarrow> m_jobs t j = None
       | Some r \<Rightarrow> Result r \<noteq> None \<longrightarrow> m_jobs t j = None \<or> m_jobs t j = Some r))"

lemma keeps_results_update:
  "(\<And>r. m_jobs s j = Some r \<Longrightarrow> Result r = None) \<Longrightarrow> keeps_results s (update_job j f s)"
  by (auto simp: keeps_results_def update_job_def split: option.splits)

lemma keeps_results_erase: "keeps_results s (erase_job j s)"
  by (auto simp: keeps_results_def erase_job_def split: option.splits)

lemma record_without_result: "jobs_ok s \<Longrightarrow> m_jobs s j = Some r \<Longrightarrow> Thread r \<noteq> Returned \<Longrightarrow> Result r = None"
  using jobs_ok_record [of s j r] by (cases "Thread r"; simp add: record_ok_def)

lemma keeps_results_step: "job_step s t \<Longrightarrow> jobs_ok s \<Longrightarrow> keeps_results s t"
proof (induction rule: job_step.induct)
  case (register s j s')
  then show ?case
    by (auto simp: start_register_def Let_def keeps_results_def split: if_splits option.splits)
next
  case (cancel j s s')
  then obtain r where r: "m_jobs s j = Some r" "job_active r" "s' = update_job j cancel_record s"
    by (auto simp: Cancel_def job_active_def split: option.splits if_splits)
  then have "Result r = None" using cancel record_ok_active by (auto simp: jobs_ok_def)
  with r show ?case by (auto intro: keeps_results_update)
next
  case (remove j s s')
  then show ?case by (auto simp: Remove_def keeps_results_erase split: option.splits if_splits)
next
  case (destroy s)
  have "r\<lparr>Thread := request_thread_stop (Thread r)\<rparr> = r" if "m_jobs s j = Some r" "Result r \<noteq> None" for j r
    using record_without_result [OF destroy that(1)] that(2) by (cases "Thread r") auto
  then show ?case by (auto simp: keeps_results_def stop_all_def split: option.splits)
qed (auto simp: keeps_results_erase start_thread_def PublishSnapshot_def store_result_def intro!: keeps_results_update dest: record_without_result)

lemma keeps_results_refl: "keeps_results s s"
  by (auto simp: keeps_results_def split: option.splits)

lemma keeps_results_trans:
  assumes st: "keeps_results s t" and tu: "keeps_results t u"
  shows "keeps_results s u"
proof -
  have "case m_jobs s j of None \<Rightarrow> m_jobs u j = None | Some r \<Rightarrow> Result r \<noteq> None \<longrightarrow> m_jobs u j = None \<or> m_jobs u j = Some r"
    if j: "j < m_nextJobId s" for j
  proof -
    have "j < m_nextJobId t" using j st by (simp add: keeps_results_def)
    then have s: "case m_jobs s j of None \<Rightarrow> m_jobs t j = None | Some r \<Rightarrow> Result r \<noteq> None \<longrightarrow> m_jobs t j = None \<or> m_jobs t j = Some r"
      and t: "case m_jobs t j of None \<Rightarrow> m_jobs u j = None | Some r \<Rightarrow> Result r \<noteq> None \<longrightarrow> m_jobs u j = None \<or> m_jobs u j = Some r"
      using j st tu unfolding keeps_results_def by blast+
    from s t show ?thesis by (cases "m_jobs s j"; cases "m_jobs t j"; simp) blast+
  qed
  then show ?thesis using st tu unfolding keeps_results_def by auto
qed

interpretation scan_results: monotone_machine "\<lambda>s. s = new_service" job_step jobs_ok keeps_results
  by unfold_locales (rule keeps_results_refl, erule (1) keeps_results_trans, erule (1) keeps_results_step [rotated])

text \<open>A result is final. From the moment a job has its result, every later state shows the same snapshot and result,
  or the job has been removed; and an identifier that has been removed, or whose start failed, is never used again.\<close>

theorem scan_results_final:
  assumes "job_step\<^sup>*\<^sup>* new_service s" "job_step\<^sup>*\<^sup>* s t" "j < m_nextJobId s"
  shows "(m_jobs s j = None \<longrightarrow> m_jobs t j = None)
    \<and> (TryGetResult j s \<noteq> None \<longrightarrow>
         m_jobs t j = None \<or> TryGetResult j t = TryGetResult j s \<and> TryGetSnapshot j t = TryGetSnapshot j s)"
proof -
  have "keeps_results s t" using scan_results.steps_rel [OF assms(2) scan_jobs.reachable_inv [OF refl assms(1)]] .
  then show ?thesis
    using assms(3) by (auto simp: keeps_results_def TryGetResult_def TryGetSnapshot_def split: option.splits)
qed

text \<open>A job that is started, cancelled and ends; then a second one.\<close>

definition demo_started :: scan_service where
  "demo_started = start_thread 1 (snd (projr (start_register new_service)))"

definition demo_cancelled :: scan_service where
  "demo_cancelled = snd (Cancel 1 demo_started)"

definition demo_result :: SInpxScanJobResult where
  "demo_result = job_result (the (TryGetSnapshot 1 demo_cancelled)) ScanCancelled"

definition demo_ended :: scan_service where
  "demo_ended = store_result 1 demo_result (update_job 1 (\<lambda>r. r\<lparr>Thread := Storing demo_result\<rparr>) demo_cancelled)"

definition demo_second :: scan_service where
  "demo_second = snd (projr (start_register demo_ended))"

lemmas demo_service_defs = demo_started_def demo_cancelled_def demo_result_def demo_ended_def demo_second_def new_service_def
  start_register_def start_thread_def update_job_def any_active_def Cancel_def cancel_record_def new_record_def initial_snapshot_def
  IsTerminal_def TryGetSnapshot_def TryGetResult_def store_result_def scan_error_def job_active_def Let_def

lemma demo_steps: "job_step\<^sup>*\<^sup>* new_service demo_ended" "job_step demo_ended demo_second"
proof -
  let ?s1 = "snd (projr (start_register new_service))"
  let ?s4 = "update_job 1 (\<lambda>r. r\<lparr>Thread := Storing demo_result\<rparr>) demo_cancelled"
  have "job_step new_service ?s1"
    by (rule job_step.register [of _ 1]) (simp add: demo_service_defs)
  moreover have "job_step ?s1 demo_started"
    unfolding demo_started_def by (rule job_step.thread_starts [of _ _ "new_record 1"]) (simp_all add: demo_service_defs)
  moreover have "job_step demo_started demo_cancelled"
    unfolding demo_cancelled_def by (rule job_step.cancel [of 1]) (simp add: demo_service_defs)
  moreover have "job_step demo_cancelled ?s4"
    using job_step.scan_ends [of demo_cancelled 1 "the (m_jobs demo_cancelled 1)" True ScanCancelled]
    by (simp add: demo_service_defs)
  moreover have "job_step ?s4 demo_ended"
    unfolding demo_ended_def by (rule job_step.store [of _ _ "the (m_jobs ?s4 1)"]) (simp_all add: demo_service_defs)
  ultimately show "job_step\<^sup>*\<^sup>* new_service demo_ended" by (meson converse_rtranclp_into_rtranclp rtranclp.rtrancl_refl)
  show "job_step demo_ended demo_second"
    by (rule job_step.register [of _ 2]) (simp add: demo_service_defs)
qed

theorem at_most_one_scan_active_witness:
  "start_register demo_ended = Inr (2, demo_second) \<and> \<not> any_active demo_ended"
proof -
  have "start_register demo_ended = Inr (2, demo_second)" by (simp add: demo_service_defs)
  moreover have "start_register demo_ended = Inl ScanAlreadyRunning \<longleftrightarrow> any_active demo_ended"
    using at_most_one_scan_active [OF demo_steps(1)] by blast
  ultimately show ?thesis by simp
qed

theorem scan_results_final_witness:
  "TryGetResult 1 demo_ended = Some demo_result \<and> (m_jobs demo_second 1 = None \<or> TryGetResult 1 demo_second = Some demo_result)"
proof -
  have n: "1 < m_nextJobId demo_ended" and r: "TryGetResult 1 demo_ended = Some demo_result" by (simp_all add: demo_service_defs)
  have "job_step\<^sup>*\<^sup>* demo_ended demo_second" by (rule r_into_rtranclp) (rule demo_steps(2))
  from scan_results_final [OF demo_steps(1) this n] r show ?thesis by force
qed

end
