(* ===== verification/Scan_Coordinator.thy ===== *)
theory Scan_Coordinator
  imports Scan_Jobs Http_Requests
begin

text \<open>
  The server's scan coordinator, \<open>libs/Server/ServerScanCoordinator.cpp\<close>, on top of the job registry. Its
  operations run under its mutex, but between two calls of the application host the scan thread moves on, and
  any call can fail (the backend's queue is full, the source is unavailable). An oracle says, for each call in
  turn, how far the thread moves before it and whether it fails; the properties hold for every oracle.
\<close>

section \<open>The application host\<close>

record host_event =
  Moves :: "scan_service \<Rightarrow> scan_service"
  Fails :: "SHttpError option"
  WorkspaceError :: "string option"
  ThreadStarts :: bool

record scan_host =
  Service :: scan_service
  Oracle :: "host_event list"

definition calm_event :: host_event where
  "calm_event = \<lparr>Moves = (\<lambda>s. s), Fails = None, WorkspaceError = None, ThreadStarts = True\<rparr>"

text \<open>\<open>SubmitWithOpenApplication\<close>: a call that fails does so before its operation runs.\<close>

definition host_call :: "(host_event \<Rightarrow> scan_service \<Rightarrow> (SHttpError + 'r) \<times> scan_service) \<Rightarrow> scan_host \<Rightarrow> (SHttpError + 'r) \<times> scan_host" where
  "host_call operation h =
    (let event = (case Oracle h of [] \<Rightarrow> calm_event | e # _ \<Rightarrow> e);
         s = Moves event (Service h) in
     case Fails event of
       Some err \<Rightarrow> (Inl err, \<lparr>Service = s, Oracle = tl (Oracle h)\<rparr>)
     | None \<Rightarrow> (case operation event s of (r, s') \<Rightarrow> (r, \<lparr>Service = s', Oracle = tl (Oracle h)\<rparr>)))"

definition StartInpxScan :: "scan_host \<Rightarrow> (SHttpError + nat) \<times> scan_host" where
  "StartInpxScan = host_call (\<lambda>event s.
    case Start (WorkspaceError event) (ThreadStarts event) s of
      (Inl _, s') \<Rightarrow> (Inl InternalServerError, s')
    | (Inr jobId, s') \<Rightarrow> (Inr jobId, s'))"

definition GetInpxScanJobSnapshot :: "nat \<Rightarrow> scan_host \<Rightarrow> (SHttpError + SInpxScanJobSnapshot option) \<times> scan_host" where
  "GetInpxScanJobSnapshot jobId = host_call (\<lambda>_ s. (Inr (TryGetSnapshot jobId s), s))"

definition GetInpxScanJobResult :: "nat \<Rightarrow> scan_host \<Rightarrow> (SHttpError + SInpxScanJobResult option) \<times> scan_host" where
  "GetInpxScanJobResult jobId = host_call (\<lambda>_ s. (Inr (TryGetResult jobId s), s))"

definition CancelInpxScanJob :: "nat \<Rightarrow> scan_host \<Rightarrow> (SHttpError + bool) \<times> scan_host" where
  "CancelInpxScanJob jobId = host_call (\<lambda>_ s. case Cancel jobId s of (r, s') \<Rightarrow> (Inr r, s'))"

definition RemoveInpxScanJob :: "nat \<Rightarrow> scan_host \<Rightarrow> (SHttpError + bool) \<times> scan_host" where
  "RemoveInpxScanJob jobId = host_call (\<lambda>_ s. case Remove jobId s of (r, s') \<Rightarrow> (Inr r, s'))"

section \<open>The coordinator\<close>

record SServerScanProgress =
  ProgressSnapshot :: "SInpxScanJobSnapshot option"
  ProgressResult :: "SInpxScanJobResult option"

record coordinator =
  m_activeJobId :: "nat option"
  m_lastProgress :: SServerScanProgress

definition no_progress :: SServerScanProgress where
  "no_progress = \<lparr>ProgressSnapshot = None, ProgressResult = None\<rparr>"

definition new_coordinator :: coordinator where
  "new_coordinator = \<lparr>m_activeJobId = None, m_lastProgress = no_progress\<rparr>"

record SServerScanRuntimeStatus =
  ScanActive :: bool
  ActiveJobs :: nat
  MaxConcurrentJobs :: nat
  ScanActiveWorkers :: nat
  ScanMaxWorkers :: nat

definition HasActiveScanLocked :: "coordinator \<Rightarrow> bool" where
  "HasActiveScanLocked c \<longleftrightarrow> m_activeJobId c \<noteq> None
    \<and> (case ProgressSnapshot (m_lastProgress c) of None \<Rightarrow> True | Some s \<Rightarrow> \<not> IsTerminal s)"

text \<open>Every operation returns what it returns or throws, and leaves the coordinator and the host.\<close>

type_synonym 'r coordinated = "(SHttpError + 'r) \<times> coordinator \<times> scan_host"

definition finish_job :: "nat \<Rightarrow> coordinator \<Rightarrow> scan_host \<Rightarrow> SServerScanProgress coordinated" where
  "finish_job jobId c h =
    (case GetInpxScanJobResult jobId h of
       (Inl e, h1) \<Rightarrow> (Inl e, c, h1)
     | (Inr result, h1) \<Rightarrow>
         let c' = c\<lparr>m_lastProgress := (m_lastProgress c)\<lparr>ProgressResult := result\<rparr>\<rparr> in
         case RemoveInpxScanJob jobId h1 of
           (Inl e, h2) \<Rightarrow> (Inl e, c', h2)
         | (Inr _, h2) \<Rightarrow> (Inr (m_lastProgress c'), c'\<lparr>m_activeJobId := None\<rparr>, h2))"

definition PollProgressLocked :: "coordinator \<Rightarrow> scan_host \<Rightarrow> SServerScanProgress coordinated" where
  "PollProgressLocked c h =
    (case m_activeJobId c of
       None \<Rightarrow> (Inr (m_lastProgress c), c, h)
     | Some jobId \<Rightarrow>
         (case GetInpxScanJobSnapshot jobId h of
            (Inl e, h1) \<Rightarrow> (Inl e, c, h1)
          | (Inr None, h1) \<Rightarrow> (Inr no_progress, \<lparr>m_activeJobId = None, m_lastProgress = no_progress\<rparr>, h1)
          | (Inr (Some s), h1) \<Rightarrow>
              let c1 = c\<lparr>m_lastProgress := (m_lastProgress c)\<lparr>ProgressSnapshot := Some s\<rparr>\<rparr> in
              if \<not> IsTerminal s then
                let c2 = c1\<lparr>m_lastProgress := (m_lastProgress c1)\<lparr>ProgressResult := None\<rparr>\<rparr> in (Inr (m_lastProgress c2), c2, h1)
              else finish_job jobId c1 h1))"

text \<open>\<open>m_lastProgress = progress\<close> after a poll changes nothing: it is what the poll left there.\<close>

definition start_job :: "coordinator \<Rightarrow> scan_host \<Rightarrow> (nat \<times> SServerScanProgress) coordinated" where
  "start_job c h =
    (case StartInpxScan h of
       (Inl e, h1) \<Rightarrow> (Inl e, c, h1)
     | (Inr jobId, h1) \<Rightarrow>
         (case PollProgressLocked (c\<lparr>m_activeJobId := Some jobId\<rparr>) h1 of
            (Inl e, c2, h2) \<Rightarrow> (Inl e, c2, h2)
          | (Inr progress, c2, h2) \<Rightarrow> (Inr (jobId, progress), c2\<lparr>m_lastProgress := progress\<rparr>, h2)))"

definition StartScan :: "coordinator \<Rightarrow> scan_host \<Rightarrow> (nat \<times> SServerScanProgress) coordinated" where
  "StartScan c h =
    (if m_activeJobId c \<noteq> None then
       (case PollProgressLocked c h of
          (Inl e, c1, h1) \<Rightarrow> (Inl e, c1, h1)
        | (Inr progress, c1, h1) \<Rightarrow>
            if HasActiveScanLocked c1 then (Inl (Conflict ''An INPX scan is already running.''), c1, h1)
            else start_job (c1\<lparr>m_lastProgress := progress\<rparr>) h1)
     else start_job c h)"

definition PollProgress :: "coordinator \<Rightarrow> scan_host \<Rightarrow> SServerScanProgress coordinated" where
  "PollProgress = PollProgressLocked"

definition GetRuntimeStatus :: "coordinator \<Rightarrow> nat \<Rightarrow> SServerScanRuntimeStatus" where
  "GetRuntimeStatus c maxWorkers =
    (let active = HasActiveScanLocked c in
     \<lparr>ScanActive = active, ActiveJobs = (if active then 1 else 0), MaxConcurrentJobs = 1,
      ScanActiveWorkers = (if active then maxWorkers else 0), ScanMaxWorkers = maxWorkers\<rparr>)"

definition no_scan_running :: SHttpError where
  "no_scan_running = NotFoundError ''No active INPX scan is running.''"

definition CancelActiveScan :: "coordinator \<Rightarrow> scan_host \<Rightarrow> (bool \<times> SServerScanProgress) coordinated" where
  "CancelActiveScan c h =
    (case m_activeJobId c of
       None \<Rightarrow> (Inl no_scan_running, c, h)
     | Some jobId \<Rightarrow>
         (case CancelInpxScanJob jobId h of
            (Inl e, h1) \<Rightarrow> (Inl e, c, h1)
          | (Inr accepted, h1) \<Rightarrow>
              (case PollProgressLocked c h1 of
                 (Inl e, c2, h2) \<Rightarrow> (Inl e, c2, h2)
               | (Inr progress, c2, h2) \<Rightarrow>
                   let c3 = c2\<lparr>m_lastProgress := progress\<rparr> in
                   if \<not> accepted \<and> \<not> HasActiveScanLocked c3 then (Inl no_scan_running, c3, h2)
                   else (Inr (accepted, m_lastProgress c3), c3, h2))))"

section \<open>What happens between its calls\<close>

text \<open>The steps of a scan's thread.\<close>

inductive thread_step :: "scan_service \<Rightarrow> scan_service \<Rightarrow> bool" where
  publishes: "m_jobs s j = Some r \<Longrightarrow> Thread r = Scanning stop \<Longrightarrow> scan_publishes f \<Longrightarrow> thread_step s (PublishSnapshot j f s)"
| ends: "m_jobs s j = Some r \<Longrightarrow> Thread r = Scanning stop \<Longrightarrow> e = ScanCancelled \<longrightarrow> stop \<Longrightarrow>
    thread_step s (update_job j (\<lambda>r. r\<lparr>Thread := Storing (job_result (Snapshot r) e)\<rparr>) s)"
| stores: "m_jobs s j = Some r \<Longrightarrow> Thread r = Storing result \<Longrightarrow> thread_step s (store_result j result s)"

definition thread_moves :: "host_event list \<Rightarrow> bool" where
  "thread_moves events \<longleftrightarrow> list_all (\<lambda>e. \<forall>s. thread_step\<^sup>*\<^sup>* s (Moves e s)) events"

record coordinated_system =
  Coordinator :: coordinator
  Registry :: scan_service

inductive coordinator_step :: "coordinated_system \<Rightarrow> coordinated_system \<Rightarrow> bool" where
  thread: "thread_step (Registry w) s \<Longrightarrow> coordinator_step w (w\<lparr>Registry := s\<rparr>)"
| start: "thread_moves events \<Longrightarrow> StartScan (Coordinator w) \<lparr>Service = Registry w, Oracle = events\<rparr> = (r, c, h) \<Longrightarrow>
    coordinator_step w \<lparr>Coordinator = c, Registry = Service h\<rparr>"
| poll: "thread_moves events \<Longrightarrow> PollProgress (Coordinator w) \<lparr>Service = Registry w, Oracle = events\<rparr> = (r, c, h) \<Longrightarrow>
    coordinator_step w \<lparr>Coordinator = c, Registry = Service h\<rparr>"
| cancel: "thread_moves events \<Longrightarrow> CancelActiveScan (Coordinator w) \<lparr>Service = Registry w, Oracle = events\<rparr> = (r', c, h) \<Longrightarrow>
    coordinator_step w \<lparr>Coordinator = c, Registry = Service h\<rparr>"

definition coordinated_init :: "coordinated_system \<Rightarrow> bool" where
  "coordinated_init w \<longleftrightarrow> w = \<lparr>Coordinator = new_coordinator, Registry = new_service\<rparr>"

text \<open>With no scan tracked, the last progress is none at all or that of a scan with its final result.\<close>

definition progress_final :: "SServerScanProgress \<Rightarrow> bool" where
  "progress_final p \<longleftrightarrow>
    (case ProgressSnapshot p of
       None \<Rightarrow> ProgressResult p = None
     | Some s \<Rightarrow> IsTerminal s \<and> map_option ResultSnapshot (ProgressResult p) = Some s)"

definition coordinated_ok :: "coordinator \<Rightarrow> scan_service \<Rightarrow> bool" where
  "coordinated_ok c s \<longleftrightarrow> jobs_ok s \<and> dom (m_jobs s) \<subseteq> set_option (m_activeJobId c)
    \<and> (case m_activeJobId c of None \<Rightarrow> progress_final (m_lastProgress c) | Some j \<Rightarrow> j < m_nextJobId s)"

text \<open>A registry that threads have moved on.\<close>

definition moved :: "scan_service \<Rightarrow> scan_service \<Rightarrow> bool" where
  "moved s t \<longleftrightarrow> jobs_ok t \<and> dom (m_jobs t) = dom (m_jobs s) \<and> keeps_results s t \<and> m_nextJobId t = m_nextJobId s"

lemma thread_step_job_step: "thread_step s t \<Longrightarrow> job_step s t"
  by (induction rule: thread_step.induct) (auto intro: job_step.intros)

lemma update_job_dom [simp]: "dom (m_jobs (update_job j f s)) = dom (m_jobs s)" "m_nextJobId (update_job j f s) = m_nextJobId s"
  by (auto simp: update_job_def split: option.splits)

lemma thread_step_dom: "thread_step s t \<Longrightarrow> dom (m_jobs t) = dom (m_jobs s) \<and> m_nextJobId t = m_nextJobId s"
  by (induction rule: thread_step.induct) (simp_all add: PublishSnapshot_def store_result_def)

lemma thread_steps_moved: "thread_step\<^sup>*\<^sup>* s t \<Longrightarrow> jobs_ok s \<Longrightarrow> moved s t"
proof (induction rule: rtranclp_induct)
  case base
  then show ?case by (simp add: moved_def keeps_results_refl)
next
  case (step t u)
  then have t: "moved s t" by blast
  have j: "job_step t u" using step.hyps(2) by (rule thread_step_job_step)
  from t have ok: "jobs_ok t" by (simp add: moved_def)
  show ?case
    using t jobs_ok_step [OF j ok] keeps_results_trans [OF _ keeps_results_step [OF j ok]] thread_step_dom [OF step.hyps(2)]
    by (simp add: moved_def)
qed

lemma host_call_cases:
  assumes "host_call f h = (r, h')" "thread_moves (Oracle h)" "jobs_ok (Service h)"
  obtains (fails) e where "r = Inl e" "moved (Service h) (Service h')" "thread_moves (Oracle h')"
  | (runs) event s where "moved (Service h) s" "f event s = (r, Service h')" "thread_moves (Oracle h')"
proof -
  define event where "event = (case Oracle h of [] \<Rightarrow> calm_event | e # _ \<Rightarrow> e)"
  have "thread_step\<^sup>*\<^sup>* (Service h) (Moves event (Service h))"
    using assms(2) by (cases "Oracle h") (simp_all add: event_def calm_event_def thread_moves_def)
  then have m: "moved (Service h) (Moves event (Service h))" using assms(3) by (rule thread_steps_moved)
  have o: "thread_moves (tl (Oracle h))" using assms(2) by (cases "Oracle h") (simp_all add: thread_moves_def)
  show ?thesis
  proof (cases "Fails event")
    case None
    obtain r1 s1 where f: "f event (Moves event (Service h)) = (r1, s1)" by (cases "f event (Moves event (Service h))")
    with assms(1) None have "r = r1" "h' = \<lparr>Service = s1, Oracle = tl (Oracle h)\<rparr>"
      by (simp_all add: host_call_def Let_def event_def)
    then show ?thesis using runs [OF m] f o by simp
  next
    case (Some e)
    with assms(1) have "r = Inl e" "h' = \<lparr>Service = Moves event (Service h), Oracle = tl (Oracle h)\<rparr>"
      by (simp_all add: host_call_def Let_def event_def)
    then show ?thesis using fails [of e] m o by simp
  qed
qed

section \<open>The operations keep the invariant\<close>

lemma snapshot_call:
  assumes "GetInpxScanJobSnapshot j h = (r, h')" "thread_moves (Oracle h)" "jobs_ok (Service h)"
  shows "moved (Service h) (Service h')" "thread_moves (Oracle h')" "r = Inr x \<Longrightarrow> x = TryGetSnapshot j (Service h')"
  by (rule host_call_cases [OF assms(1) [unfolded GetInpxScanJobSnapshot_def] assms(2,3)]; simp)+

lemma result_call:
  assumes "GetInpxScanJobResult j h = (r, h')" "thread_moves (Oracle h)" "jobs_ok (Service h)"
  shows "moved (Service h) (Service h')" "thread_moves (Oracle h')" "r = Inr x \<Longrightarrow> x = TryGetResult j (Service h')"
  by (rule host_call_cases [OF assms(1) [unfolded GetInpxScanJobResult_def] assms(2,3)]; simp)+

text \<open>A job that is done, as every later call sees it.\<close>

definition job_done :: "nat \<Rightarrow> SInpxScanJobSnapshot \<Rightarrow> scan_service \<Rightarrow> bool" where
  "job_done j s service \<longleftrightarrow> IsTerminal s \<and> TryGetSnapshot j service = Some s
    \<and> map_option ResultSnapshot (TryGetResult j service) = Some s"

lemma terminal_job_done: "jobs_ok service \<Longrightarrow> TryGetSnapshot j service = Some s \<Longrightarrow> IsTerminal s \<Longrightarrow> job_done j s service"
proof -
  assume ok: "jobs_ok service" and s: "TryGetSnapshot j service = Some s" "IsTerminal s"
  then obtain r where r: "m_jobs service j = Some r" "Snapshot r = s" by (auto simp: TryGetSnapshot_def)
  then have "record_ok j r" using jobs_ok_record [OF ok] by blast
  then have "map_option ResultSnapshot (Result r) = Some s" using r s by (cases "Thread r"; cases "Result r"; simp add: record_ok_def)
  then show ?thesis using r s by (simp add: job_done_def TryGetResult_def)
qed

lemma job_done_moved:
  assumes "job_done j s service" "moved service t" "jobs_ok service"
  shows "job_done j s t"
proof -
  obtain r where r: "m_jobs service j = Some r" "Result r \<noteq> None" using assms(1) by (auto simp: job_done_def TryGetResult_def split: option.splits)
  have "j < m_nextJobId service" using jobs_ok_record [OF assms(3) r(1)] by simp
  then have "m_jobs t j = None \<or> m_jobs t j = Some r" using assms(2) r by (auto simp: moved_def keeps_results_def split: option.splits)
  moreover have "j \<in> dom (m_jobs t)" using assms(2) r(1) by (auto simp: moved_def)
  ultimately have "m_jobs t j = Some r" by auto
  then show ?thesis using assms(1) r by (simp add: job_done_def TryGetSnapshot_def TryGetResult_def)
qed

lemma remove_call:
  assumes "RemoveInpxScanJob j h = (r, h')" "thread_moves (Oracle h)" "jobs_ok (Service h)" "job_done j s (Service h)"
  shows "thread_moves (Oracle h')" "jobs_ok (Service h')" "m_nextJobId (Service h') = m_nextJobId (Service h)"
    and "dom (m_jobs (Service h')) = (if isl r then dom (m_jobs (Service h)) else dom (m_jobs (Service h)) - {j})"
proof -
  have "thread_moves (Oracle h') \<and> jobs_ok (Service h') \<and> m_nextJobId (Service h') = m_nextJobId (Service h)
    \<and> dom (m_jobs (Service h')) = (if isl r then dom (m_jobs (Service h)) else dom (m_jobs (Service h)) - {j})"
  proof (rule host_call_cases [OF assms(1) [unfolded RemoveInpxScanJob_def] assms(2,3)])
    fix event t
    assume m: "moved (Service h) t" and f: "(case Remove j t of (r, s') \<Rightarrow> (Inr r, s')) = (r, Service h')" and o: "thread_moves (Oracle h')"
    have "job_done j s t" using job_done_moved [OF assms(4) m assms(3)] .
    then obtain q where "m_jobs t j = Some q" "Result q \<noteq> None" by (auto simp: job_done_def TryGetResult_def split: option.splits)
    then have "Service h' = erase_job j t" "\<not> isl r" using f by (auto simp: Remove_def)
    then show ?thesis using m o jobs_ok_erase [of t j] by (simp add: moved_def) (simp add: erase_job_def)
  qed (simp add: moved_def)
  then show "thread_moves (Oracle h')" "jobs_ok (Service h')" "m_nextJobId (Service h') = m_nextJobId (Service h)"
    "dom (m_jobs (Service h')) = (if isl r then dom (m_jobs (Service h)) else dom (m_jobs (Service h)) - {j})" by blast+
qed

text \<open>What a poll leaves, whether it returns or throws.\<close>

definition polled :: "(SHttpError + SServerScanProgress) \<Rightarrow> coordinator \<Rightarrow> scan_host \<Rightarrow> bool" where
  "polled r c h \<longleftrightarrow> coordinated_ok c (Service h) \<and> thread_moves (Oracle h)
    \<and> (case r of Inl _ \<Rightarrow> True
       | Inr p \<Rightarrow> m_lastProgress c = p \<and> (m_activeJobId c \<noteq> None \<longrightarrow> HasActiveScanLocked c \<and> ProgressResult p = None))"

lemma finish_job_polled:
  assumes "finish_job j c h = (r, c', h')" "thread_moves (Oracle h)" "jobs_ok (Service h)" "job_done j s (Service h)"
    and "m_activeJobId c = Some j" "ProgressSnapshot (m_lastProgress c) = Some s" "dom (m_jobs (Service h)) \<subseteq> {j}"
  shows "polled r c' h'"
proof -
  obtain r1 h1 where g: "GetInpxScanJobResult j h = (r1, h1)" by (cases "GetInpxScanJobResult j h")
  note m = result_call [OF g assms(2,3)]
  have ok1: "jobs_ok (Service h1)" "dom (m_jobs (Service h1)) \<subseteq> {j}" using m(1) assms(7) by (auto simp: moved_def)
  have d1: "job_done j s (Service h1)" using job_done_moved [OF assms(4) m(1) assms(3)] .
  have lt: "j < m_nextJobId (Service h1)" using d1 jobs_ok_record [OF ok1(1)] by (auto simp: job_done_def TryGetSnapshot_def)
  show ?thesis
  proof (cases r1)
    case (Inl e)
    then show ?thesis using assms(1,5) g m(2) ok1 lt by (auto simp: finish_job_def polled_def coordinated_ok_def)
  next
    case (Inr result)
    then have res: "map_option ResultSnapshot result = Some s" using m(3) d1 by (simp add: job_done_def)
    obtain r2 h2 where rm: "RemoveInpxScanJob j h1 = (r2, h2)" by (cases "RemoveInpxScanJob j h1")
    note q = remove_call [OF rm m(2) ok1(1) d1]
    have "IsTerminal s" using d1 by (simp add: job_done_def)
    then show ?thesis
      using assms(1,5,6) g Inr rm q ok1(2) lt res
      by (cases r2) (auto simp: finish_job_def polled_def coordinated_ok_def progress_final_def Let_def)
  qed
qed

lemma PollProgressLocked_polled:
  assumes "PollProgressLocked c h = (r, c', h')" "thread_moves (Oracle h)" "coordinated_ok c (Service h)"
  shows "polled r c' h'"
proof (cases "m_activeJobId c")
  case None
  then show ?thesis using assms by (auto simp: PollProgressLocked_def polled_def)
next
  case (Some j)
  have ok: "jobs_ok (Service h)" "dom (m_jobs (Service h)) \<subseteq> {j}" "j < m_nextJobId (Service h)"
    using assms(3) Some by (auto simp: coordinated_ok_def)
  obtain r1 h1 where g: "GetInpxScanJobSnapshot j h = (r1, h1)" by (cases "GetInpxScanJobSnapshot j h")
  note m = snapshot_call [OF g assms(2) ok(1)]
  have ok1: "jobs_ok (Service h1)" "dom (m_jobs (Service h1)) \<subseteq> {j}" "j < m_nextJobId (Service h1)"
    using m(1) ok by (auto simp: moved_def)
  show ?thesis
  proof (cases r1)
    case (Inl e)
    then show ?thesis using assms(1) Some g m(2) ok1 by (auto simp: PollProgressLocked_def polled_def coordinated_ok_def)
  next
    case (Inr x)
    note x = m(3) [OF Inr]
    show ?thesis
    proof (cases x)
      case None
      then have "m_jobs (Service h1) j = None" using x by (simp add: TryGetSnapshot_def)
      then show ?thesis using assms(1) Some g Inr None m(2) ok1
        by (auto simp: PollProgressLocked_def polled_def coordinated_ok_def progress_final_def no_progress_def)
    next
      case s: (Some s)
      show ?thesis
      proof (cases "IsTerminal s")
        case True
        have "job_done j s (Service h1)" using terminal_job_done [OF ok1(1)] x s True by simp
        then show ?thesis
          using assms(1) Some g Inr s True ok1 m(2) finish_job_polled [of j "c\<lparr>m_lastProgress := (m_lastProgress c)\<lparr>ProgressSnapshot := Some s\<rparr>\<rparr>" h1 r c' h' s]
          by (simp add: PollProgressLocked_def Let_def)
      next
        case False
        then show ?thesis using assms(1) Some g Inr s m(2) ok1
          by (auto simp: PollProgressLocked_def polled_def coordinated_ok_def Let_def HasActiveScanLocked_def)
      qed
    qed
  qed
qed

lemma Start_registry:
  assumes "Start we ts s = (r, t)" "jobs_ok s" "dom (m_jobs s) = {}"
  shows "jobs_ok t" "case r of Inl _ \<Rightarrow> dom (m_jobs t) = {} | Inr j \<Rightarrow> dom (m_jobs t) = {j} \<and> j < m_nextJobId t \<and> m_nextJobId s \<le> j"
proof -
  have "\<not> any_active s" using assms(3) by (auto simp: any_active_def)
  then obtain j s' where reg: "start_register s = Inr (j, s')" and j: "j = m_nextJobId s" "m_nextJobId s' = j + 1" "dom (m_jobs s') = {j}"
    using assms(3) by (auto simp: start_register_def Let_def)
  have ok: "jobs_ok s'" using jobs_ok_register [OF assms(2) reg] .
  have n: "m_jobs s' j = Some (new_record j)" using reg by (auto simp: start_register_def Let_def split: if_splits)
  have "jobs_ok (start_thread j s')"
    by (rule jobs_ok_step [OF job_step.thread_starts [OF n] ok]) (simp add: new_record_def)
  then show "jobs_ok t" using assms(1) reg jobs_ok_erase [OF ok] ok by (auto simp: Start_def split: option.splits if_splits)
  show "case r of Inl _ \<Rightarrow> dom (m_jobs t) = {} | Inr j \<Rightarrow> dom (m_jobs t) = {j} \<and> j < m_nextJobId t \<and> m_nextJobId s \<le> j"
    using assms(1) reg j by (auto simp: Start_def start_thread_def erase_job_def split: option.splits if_splits)
qed

lemma start_call:
  assumes "StartInpxScan h = (r, h')" "thread_moves (Oracle h)" "jobs_ok (Service h)" "dom (m_jobs (Service h)) = {}"
  shows "thread_moves (Oracle h')" "jobs_ok (Service h')"
    "case r of Inl _ \<Rightarrow> dom (m_jobs (Service h')) = {}
     | Inr j \<Rightarrow> dom (m_jobs (Service h')) = {j} \<and> j < m_nextJobId (Service h') \<and> m_nextJobId (Service h) \<le> j"
proof -
  have "thread_moves (Oracle h') \<and> jobs_ok (Service h') \<and>
    (case r of Inl _ \<Rightarrow> dom (m_jobs (Service h')) = {}
     | Inr j \<Rightarrow> dom (m_jobs (Service h')) = {j} \<and> j < m_nextJobId (Service h') \<and> m_nextJobId (Service h) \<le> j)"
  proof (rule host_call_cases [OF assms(1) [unfolded StartInpxScan_def] assms(2,3)])
    fix event t
    assume m: "moved (Service h) t" and o: "thread_moves (Oracle h')"
      and f: "(case Start (WorkspaceError event) (ThreadStarts event) t of
        (Inl _, s') \<Rightarrow> (Inl InternalServerError, s') | (Inr jobId, s') \<Rightarrow> (Inr jobId, s')) = (r, Service h')"
    obtain r1 where s: "Start (WorkspaceError event) (ThreadStarts event) t = (r1, Service h')"
      and r: "case r1 of Inl _ \<Rightarrow> r = Inl InternalServerError | Inr j \<Rightarrow> r = Inr j"
      using f by (auto split: prod.splits sum.splits)
    have t: "jobs_ok t" "dom (m_jobs t) = {}" "m_nextJobId t = m_nextJobId (Service h)" using m assms(4) by (simp_all add: moved_def)
    show ?thesis using Start_registry [OF s t(1,2)] r o t(3) by (cases r1) auto
  qed (simp add: moved_def assms(4))
  then show "thread_moves (Oracle h')" "jobs_ok (Service h')"
    "case r of Inl _ \<Rightarrow> dom (m_jobs (Service h')) = {}
     | Inr j \<Rightarrow> dom (m_jobs (Service h')) = {j} \<and> j < m_nextJobId (Service h') \<and> m_nextJobId (Service h) \<le> j" by blast+
qed

lemma start_job_ok:
  assumes "start_job c h = (r, c', h')" "thread_moves (Oracle h)" "coordinated_ok c (Service h)" "m_activeJobId c = None"
  shows "coordinated_ok c' (Service h') \<and> (\<forall>j p. r = Inr (j, p) \<longrightarrow> m_lastProgress c' = p \<and> m_jobs (Service h) j = None)"
proof -
  have ok: "jobs_ok (Service h)" "dom (m_jobs (Service h)) = {}" using assms(3,4) by (auto simp: coordinated_ok_def)
  obtain r1 h1 where g: "StartInpxScan h = (r1, h1)" by (cases "StartInpxScan h")
  note m = start_call [OF g assms(2) ok]
  show ?thesis
  proof (cases r1)
    case (Inl e)
    then show ?thesis using assms(1,3,4) g m by (auto simp: start_job_def coordinated_ok_def)
  next
    case (Inr j)
    let ?c = "c\<lparr>m_activeJobId := Some j\<rparr>"
    obtain r2 c2 h2 where p: "PollProgressLocked ?c h1 = (r2, c2, h2)" by (cases "PollProgressLocked ?c h1")
    have "coordinated_ok ?c (Service h1)" using m Inr by (simp add: coordinated_ok_def)
    with PollProgressLocked_polled [OF p m(1)] have "polled r2 c2 h2" .
    then show ?thesis using assms(1) g Inr p ok(2) by (cases r2) (auto simp: start_job_def polled_def)
  qed
qed

lemma polled_idle: "polled (Inr p) c h \<Longrightarrow> \<not> HasActiveScanLocked c \<Longrightarrow> m_activeJobId c = None \<and> m_lastProgress c = p"
  by (auto simp: polled_def)

lemma StartScan_ok:
  assumes "StartScan c h = (r, c', h')" "thread_moves (Oracle h)" "coordinated_ok c (Service h)"
  shows "coordinated_ok c' (Service h')"
proof (cases "m_activeJobId c")
  case None
  then show ?thesis using assms start_job_ok by (simp add: StartScan_def)
next
  case (Some j)
  obtain r1 c1 h1 where p: "PollProgressLocked c h = (r1, c1, h1)" by (cases "PollProgressLocked c h")
  have q: "polled r1 c1 h1" using PollProgressLocked_polled [OF p assms(2,3)] .
  show ?thesis
  proof (cases r1)
    case (Inl e)
    then show ?thesis using assms(1) Some p q by (simp add: StartScan_def polled_def)
  next
    case (Inr pr)
    show ?thesis
    proof (cases "HasActiveScanLocked c1")
      case True
      then show ?thesis using assms(1) Some p q Inr by (simp add: StartScan_def polled_def)
    next
      case False
      then have i: "m_activeJobId c1 = None" "m_lastProgress c1 = pr" using polled_idle q Inr by auto
      then have e: "c1\<lparr>m_lastProgress := pr\<rparr> = c1" by simp
      then have "start_job c1 h1 = (r, c', h')" using assms(1) Some p Inr False by (simp add: StartScan_def)
      then show ?thesis using start_job_ok [of c1 h1 r c' h'] i q by (simp add: polled_def)
    qed
  qed
qed

lemma cancel_call:
  assumes "CancelInpxScanJob j h = (r, h')" "thread_moves (Oracle h)" "jobs_ok (Service h)"
  shows "thread_moves (Oracle h') \<and> jobs_ok (Service h') \<and> dom (m_jobs (Service h')) = dom (m_jobs (Service h))
    \<and> m_nextJobId (Service h') = m_nextJobId (Service h)"
proof (rule host_call_cases [OF assms(1) [unfolded CancelInpxScanJob_def] assms(2,3)])
  fix event t
  assume m: "moved (Service h) t" and f: "(case Cancel j t of (r, s') \<Rightarrow> (Inr r, s')) = (r, Service h')" and o: "thread_moves (Oracle h')"
  obtain b where c: "Cancel j t = (b, Service h')" using f by (auto split: prod.splits)
  have t: "jobs_ok t" using m by (simp add: moved_def)
  have "jobs_ok (Service h')"
  proof (cases b)
    case True
    then show ?thesis using jobs_ok_step [OF job_step.cancel t] c by simp
  next
    case False
    then show ?thesis using c t by (auto simp: Cancel_def split: option.splits if_splits)
  qed
  moreover have "Service h' = t \<or> Service h' = update_job j cancel_record t"
    using c by (auto simp: Cancel_def split: option.splits if_splits)
  then have "dom (m_jobs (Service h')) = dom (m_jobs t) \<and> m_nextJobId (Service h') = m_nextJobId t" by (elim disjE) simp_all
  ultimately show ?thesis using m o by (simp add: moved_def)
qed (simp add: moved_def)

lemma CancelActiveScan_ok:
  assumes "CancelActiveScan c h = (r, c', h')" "thread_moves (Oracle h)" "coordinated_ok c (Service h)"
  shows "coordinated_ok c' (Service h')"
proof (cases "m_activeJobId c")
  case None
  then show ?thesis using assms by (simp add: CancelActiveScan_def)
next
  case (Some j)
  have ok: "jobs_ok (Service h)" using assms(3) by (simp add: coordinated_ok_def)
  obtain r1 h1 where g: "CancelInpxScanJob j h = (r1, h1)" by (cases "CancelInpxScanJob j h")
  note m = cancel_call [OF g assms(2) ok]
  have c1: "coordinated_ok c (Service h1)" using m assms(3) by (simp add: coordinated_ok_def split: option.splits)
  obtain r2 c2 h2 where p: "PollProgressLocked c h1 = (r2, c2, h2)" by (cases "PollProgressLocked c h1")
  have q: "polled r2 c2 h2" using PollProgressLocked_polled [OF p _ c1] m by blast
  then have "polled r2 c2 h2 \<and> (\<forall>pr. r2 = Inr pr \<longrightarrow> c2\<lparr>m_lastProgress := pr\<rparr> = c2)" by (auto simp: polled_def)
  then show ?thesis using assms(1) Some g p c1
    by (cases r1; cases r2) (auto simp: CancelActiveScan_def polled_def Let_def split: if_splits)
qed

lemma coordinated_ok_step:
  "coordinator_step w v \<Longrightarrow> coordinated_ok (Coordinator w) (Registry w) \<Longrightarrow> coordinated_ok (Coordinator v) (Registry v)"
proof (induction rule: coordinator_step.induct)
  case (thread w s)
  then show ?case using thread_steps_moved [OF r_into_rtranclp [of thread_step]] by (simp add: coordinated_ok_def moved_def split: option.splits)
next
  case (start events w r c h)
  then show ?case using StartScan_ok [OF start(2)] by simp
next
  case (poll events w r c h)
  then show ?case using PollProgressLocked_polled [OF poll(2) [unfolded PollProgress_def]] by (simp add: polled_def)
next
  case (cancel events w r' c h)
  then show ?case using CancelActiveScan_ok [OF cancel(2)] by simp
qed

interpretation coordination: state_machine coordinated_init coordinator_step "\<lambda>w. coordinated_ok (Coordinator w) (Registry w)"
  by unfold_locales
    (simp add: coordinated_init_def coordinated_ok_def new_coordinator_def new_service_def jobs_ok_def progress_final_def no_progress_def,
     rule coordinated_ok_step)

section \<open>What the coordinator guarantees\<close>

text \<open>C12: No job leaks. In every reachable state, after any interleaving of requests, scan threads and failing backend
  calls, every job in the registry is the one the coordinator tracks; and when it tracks none, the progress it
  reports is none at all or the terminal snapshot of the last scan together with the result that holds this snapshot.\<close>

theorem coordinator_tracks_every_job:
  assumes "coordinator_step\<^sup>*\<^sup>* \<lparr>Coordinator = new_coordinator, Registry = new_service\<rparr> w"
  shows "dom (m_jobs (Registry w)) \<subseteq> set_option (m_activeJobId (Coordinator w))
    \<and> (m_activeJobId (Coordinator w) = None \<longrightarrow> progress_final (m_lastProgress (Coordinator w)))"
  using coordination.reachable_inv [OF _ assms] by (auto simp: coordinated_init_def coordinated_ok_def split: option.splits)

lemma host_call_calm [simp]:
  "host_call f \<lparr>Service = s, Oracle = []\<rparr> = (case f calm_event s of (r, s') \<Rightarrow> (r, \<lparr>Service = s', Oracle = []\<rparr>))"
  by (simp add: host_call_def calm_event_def)

lemmas calm_calls = StartInpxScan_def GetInpxScanJobSnapshot_def GetInpxScanJobResult_def RemoveInpxScanJob_def

lemma start_job_calm:
  assumes "dom (m_jobs s) = {}" "start_job c \<lparr>Service = s, Oracle = []\<rparr> = (r, c', h)"
  shows "\<exists>p. r = Inr (m_nextJobId s, p)" "dom (m_jobs (Service h)) = {m_nextJobId s}" "any_active (Service h)"
proof -
  let ?j = "m_nextJobId s"
  let ?s = "start_thread ?j (s\<lparr>m_nextJobId := ?j + 1, m_jobs := (m_jobs s)(?j \<mapsto> new_record ?j)\<rparr>)"
  have "\<not> any_active s" using assms(1) by (auto simp: any_active_def)
  then have st: "Start None True s = (Inr ?j, ?s)" by (simp add: Start_def start_register_def Let_def)
  have rec: "m_jobs ?s = (m_jobs s)(?j \<mapsto> (new_record ?j)\<lparr>Thread := Scanning False\<rparr>)" by (simp add: start_thread_def update_job_def)
  have nt: "\<not> IsTerminal (initial_snapshot ?j)" by (simp add: IsTerminal_def initial_snapshot_def)
  have "(\<exists>p. r = Inr (?j, p)) \<and> Service h = ?s"
    using assms(2) st rec nt
    by (auto simp: start_job_def calm_calls calm_event_def PollProgressLocked_def TryGetSnapshot_def new_record_def Let_def)
  then show "\<exists>p. r = Inr (m_nextJobId s, p)" "dom (m_jobs (Service h)) = {m_nextJobId s}" "any_active (Service h)"
    using assms(1) rec nt by (auto simp: any_active_def job_active_def new_record_def)
qed

lemma poll_calm_idle:
  assumes ok: "coordinated_ok c s" and idle: "\<not> any_active s" and id: "m_activeJobId c = Some j"
  shows "\<exists>p c1 t. PollProgressLocked c \<lparr>Service = s, Oracle = []\<rparr> = (Inr p, c1, \<lparr>Service = t, Oracle = []\<rparr>)
    \<and> m_activeJobId c1 = None \<and> dom (m_jobs t) = {} \<and> m_nextJobId t = m_nextJobId s"
proof (cases "m_jobs s j")
  case None
  then have "dom (m_jobs s) = {}" using ok id by (auto simp: coordinated_ok_def)
  then show ?thesis using None id by (simp add: PollProgressLocked_def calm_calls TryGetSnapshot_def)
next
  case (Some q)
  have d: "jobs_ok s" "dom (m_jobs s) \<subseteq> {j}" using ok id by (auto simp: coordinated_ok_def)
  moreover from this Some idle have "IsTerminal (Snapshot q)" "Result q \<noteq> None"
    using record_ok_active [of j q] jobs_ok_record [of s j q] by (auto simp: any_active_def job_active_def)
  moreover have "(m_jobs s)(j := None) = Map.empty" using d(2) by (auto simp: fun_eq_iff dom_def)
  ultimately show ?thesis using Some id
    by (auto simp: PollProgressLocked_def finish_job_def calm_calls TryGetSnapshot_def TryGetResult_def Remove_def erase_job_def Let_def)
qed

text \<open>A start is decided by the registry: when no scan is active there, a start whose backend calls succeed gets a new job,
  whatever the coordinator still remembers; while one is active and stays so, it is refused with a conflict and the
  registry keeps its job.\<close>

theorem start_scan_decided_by_registry:
  assumes "coordinator_step\<^sup>*\<^sup>* \<lparr>Coordinator = new_coordinator, Registry = new_service\<rparr> w"
    and "StartScan (Coordinator w) \<lparr>Service = Registry w, Oracle = []\<rparr> = (r, c, h)"
  shows "(\<not> any_active (Registry w) \<longrightarrow> (\<exists>j p. r = Inr (j, p) \<and> m_jobs (Registry w) j = None \<and> dom (m_jobs (Service h)) = {j} \<and> any_active (Service h)))
    \<and> (any_active (Registry w) \<longrightarrow> r = Inl (Conflict ''An INPX scan is already running.'') \<and> Service h = Registry w)"
proof (intro conjI impI)
  let ?s = "Registry w" and ?c = "Coordinator w"
  have ok: "coordinated_ok ?c ?s" using coordination.reachable_inv [OF _ assms(1)] by (simp add: coordinated_init_def)
  show "r = Inl (Conflict ''An INPX scan is already running.'')" if act: "any_active ?s"
  proof -
    from act obtain j q where "m_jobs ?s j = Some q" "job_active q" by (auto simp: any_active_def)
    moreover from this ok have "m_activeJobId ?c = Some j" by (auto simp: coordinated_ok_def)
    ultimately show ?thesis using assms(2)
      by (simp add: StartScan_def PollProgressLocked_def calm_calls TryGetSnapshot_def job_active_def Let_def HasActiveScanLocked_def)
  qed
  show "Service h = ?s" if act: "any_active ?s"
  proof -
    from act obtain j q where "m_jobs ?s j = Some q" "job_active q" by (auto simp: any_active_def)
    moreover from this ok have "m_activeJobId ?c = Some j" by (auto simp: coordinated_ok_def)
    ultimately show ?thesis using assms(2)
      by (auto simp: StartScan_def PollProgressLocked_def calm_calls TryGetSnapshot_def job_active_def Let_def HasActiveScanLocked_def)
  qed
  assume idle: "\<not> any_active ?s"
  have fresh: "m_jobs ?s (m_nextJobId ?s) = None" using ok jobs_ok_fresh by (simp add: coordinated_ok_def)
  show "\<exists>j p. r = Inr (j, p) \<and> m_jobs ?s j = None \<and> dom (m_jobs (Service h)) = {j} \<and> any_active (Service h)"
  proof (cases "m_activeJobId ?c")
    case None
    then have "dom (m_jobs ?s) = {}" using ok by (simp add: coordinated_ok_def)
    then show ?thesis using start_job_calm [of ?s ?c r c h] assms(2) None fresh by (auto simp: StartScan_def)
  next
    case (Some j)
    obtain p c1 t where p: "PollProgressLocked ?c \<lparr>Service = ?s, Oracle = []\<rparr> = (Inr p, c1, \<lparr>Service = t, Oracle = []\<rparr>)"
      "m_activeJobId c1 = None" "dom (m_jobs t) = {}" "m_nextJobId t = m_nextJobId ?s"
      using poll_calm_idle [OF ok idle Some] by blast
    then have "start_job (c1\<lparr>m_lastProgress := p\<rparr>) \<lparr>Service = t, Oracle = []\<rparr> = (r, c, h)"
      using assms(2) Some by (simp add: StartScan_def HasActiveScanLocked_def)
    from start_job_calm [OF p(3) this] show ?thesis using p(4) fresh by auto
  qed
qed

theorem coordinator_tracks_every_job_witness:
  "case StartScan new_coordinator \<lparr>Service = new_service, Oracle = []\<rparr> of
     (r, c, h) \<Rightarrow> m_activeJobId c = Some 1 \<and> dom (m_jobs (Service h)) \<subseteq> {1}"
proof -
  obtain r c h where s: "StartScan new_coordinator \<lparr>Service = new_service, Oracle = []\<rparr> = (r, c, h)"
    by (cases "StartScan new_coordinator \<lparr>Service = new_service, Oracle = []\<rparr>")
  have "coordinator_step \<lparr>Coordinator = new_coordinator, Registry = new_service\<rparr> \<lparr>Coordinator = c, Registry = Service h\<rparr>"
    by (rule coordinator_step.start [where events = "[]"]) (simp_all add: thread_moves_def s)
  from coordinator_tracks_every_job [OF r_into_rtranclp [of coordinator_step, OF this]]
  have "dom (m_jobs (Service h)) \<subseteq> set_option (m_activeJobId c)" by simp
  moreover have "m_activeJobId c = Some 1"
    using s by (simp add: StartScan_def start_job_def calm_calls calm_event_def PollProgressLocked_def demo_service_defs Start_def
        new_coordinator_def split: if_splits) (auto simp: new_coordinator_def)
  ultimately show ?thesis using s by simp
qed

theorem start_scan_decided_by_registry_witness:
  "\<exists>p c h. StartScan new_coordinator \<lparr>Service = new_service, Oracle = []\<rparr> = (Inr (1, p), c, h) \<and> any_active (Service h)"
proof -
  obtain r c h where s: "StartScan new_coordinator \<lparr>Service = new_service, Oracle = []\<rparr> = (r, c, h)"
    by (cases "StartScan new_coordinator \<lparr>Service = new_service, Oracle = []\<rparr>")
  have "\<not> any_active new_service" by (simp add: any_active_def new_service_def)
  with start_scan_decided_by_registry [of "\<lparr>Coordinator = new_coordinator, Registry = new_service\<rparr>" r c h] s
  obtain j p where r: "r = Inr (j, p)" "dom (m_jobs (Service h)) = {j}" "any_active (Service h)" by auto
  have "start_job new_coordinator \<lparr>Service = new_service, Oracle = []\<rparr> = (r, c, h)"
    using s by (simp add: StartScan_def new_coordinator_def)
  from start_job_calm(1) [OF _ this] have "j = 1" using r(1) by (simp add: new_service_def)
  then show ?thesis using s r by auto
qed

end
