(* ===== verification/Book_Relations.thy ===== *)
theory Book_Relations
  imports Catalog_Search
begin

text \<open>
  The authors, tags and genres of a book: \<open>ResolveEntityId\<close> of \<open>libs/Database/SqliteEntityHelpers.cpp\<close>,
  \<open>InsertAuthors\<close>, \<open>InsertTags\<close> and \<open>ReplaceBookRelations\<close> of \<open>libs/App/InpxScanJobService.cpp\<close>,
  \<open>InsertGenres\<close> of \<open>SqliteGenreHelpers.cpp\<close>, and the reads of \<open>ReadStoredMetadata\<close>.

  The statements are written out on the rows of their tables (\<open>libs/Database/DatabaseSchema.cpp\<close>): a table of
  entities with a unique normalised name, and a table of links to books. How SQLite chooses the key of a
  new row (\<open>rowid\<close>) and how it orders text without regard to case (\<open>nocase\<close>) are parameters. The order of an author
  is kept as a number: an author list is shorter than \<open>2^31\<close>.
\<close>

section \<open>Entities\<close>

record entity_row =
  EntityId :: int
  NormalizedName :: string
  DisplayName :: string

type_synonym rowids = "int list \<Rightarrow> int"

definition new_rowids :: "rowids \<Rightarrow> bool" where
  "new_rowids rowid \<longleftrightarrow> (\<forall>ids. rowid ids \<notin> set ids)"

text \<open>\<open>INSERT ... ON CONFLICT(normalized_name) DO NOTHING\<close>, then the lookup by name.\<close>

definition insert_entity :: "rowids \<Rightarrow> string \<Rightarrow> string \<Rightarrow> entity_row list \<Rightarrow> entity_row list" where
  "insert_entity rowid normalizedName displayName es =
    (if normalizedName \<in> set (map NormalizedName es) then es
     else es @ [\<lparr>EntityId = rowid (map EntityId es), NormalizedName = normalizedName, DisplayName = displayName\<rparr>])"

definition ResolveEntityId :: "rowids \<Rightarrow> string \<Rightarrow> string \<Rightarrow> string \<Rightarrow> entity_row list \<Rightarrow> session_error + int \<times> entity_row list" where
  "ResolveEntityId rowid tableName normalizedName displayName es =
    (let es' = insert_entity rowid normalizedName displayName es in
     case find (\<lambda>e. NormalizedName e = normalizedName) es' of
       None \<Rightarrow> Inl (SessionRuntimeError (''Failed to resolve entity id after insert in table '' @ [CHR 0x27] @ tableName @ [CHR 0x27] @ ''.''))
     | Some e \<Rightarrow> Inr (EntityId e, es'))"

section \<open>Links\<close>

text \<open>A link row is a book, an entity and, for authors, the order.\<close>

record 'x relation =
  Entities :: "entity_row list"
  Links :: "(int \<times> int \<times> 'x) list"

text \<open>A link with the primary key of another one: an error, or nothing with \<open>INSERT OR IGNORE\<close>.\<close>

definition insert_link :: "bool \<Rightarrow> int \<Rightarrow> int \<Rightarrow> 'x \<Rightarrow> (int \<times> int \<times> 'x) list \<Rightarrow> session_error + (int \<times> int \<times> 'x) list" where
  "insert_link orIgnore bookId entityId x links =
    (if list_ex (\<lambda>(b, e, _). b = bookId \<and> e = entityId) links then
       (if orIgnore then Inr links else Inl (SessionRuntimeError (failure_message (StepFailure ''UNIQUE constraint failed''))))
     else Inr (links @ [(bookId, entityId, x)]))"

text \<open>The loop that the three inserts share: names without a normalised form and names whose form has been inserted
  are skipped; \<open>index\<close> counts all names.\<close>

fun relate_loop ::
  "rowids \<Rightarrow> string \<Rightarrow> bool \<Rightarrow> (nat \<Rightarrow> 'x) \<Rightarrow> int \<Rightarrow> nat \<Rightarrow> string list \<Rightarrow> string list \<Rightarrow> 'x relation \<Rightarrow> session_error + 'x relation" where
  "relate_loop rowid tableName orIgnore column bookId index inserted [] r = Inr r"
| "relate_loop rowid tableName orIgnore column bookId index inserted (name # names) r =
    (let normalized = NormalizeText name in
     if normalized = [] \<or> normalized \<in> set inserted
     then relate_loop rowid tableName orIgnore column bookId (Suc index) inserted names r
     else and_then (ResolveEntityId rowid tableName normalized name (Entities r)) (\<lambda>(entityId, entities).
       and_then (insert_link orIgnore bookId entityId (column index) (Links r)) (\<lambda>links.
         relate_loop rowid tableName orIgnore column bookId (Suc index) (normalized # inserted) names
           \<lparr>Entities = entities, Links = links\<rparr>)))"

definition InsertAuthors :: "rowids \<Rightarrow> int \<Rightarrow> string list \<Rightarrow> nat relation \<Rightarrow> session_error + nat relation" where
  "InsertAuthors rowid bookId authors = relate_loop rowid ''authors'' False (\<lambda>index. index) bookId 0 [] authors"

definition InsertTags :: "rowids \<Rightarrow> int \<Rightarrow> string list \<Rightarrow> unit relation \<Rightarrow> session_error + unit relation" where
  "InsertTags rowid bookId tags = relate_loop rowid ''tags'' False (\<lambda>_. ()) bookId 0 [] tags"

definition InsertGenres :: "rowids \<Rightarrow> int \<Rightarrow> string list \<Rightarrow> unit relation \<Rightarrow> session_error + unit relation" where
  "InsertGenres rowid bookId genres = relate_loop rowid ''genres'' True (\<lambda>_. ()) bookId 0 [] genres"

definition delete_links :: "int \<Rightarrow> 'x relation \<Rightarrow> 'x relation" where
  "delete_links bookId r = r\<lparr>Links := filter (\<lambda>(b, _). b \<noteq> bookId) (Links r)\<rparr>"

record book_relations =
  BookAuthors :: "nat relation"
  BookTags :: "unit relation"
  BookGenres :: "unit relation"

definition ReplaceBookRelations :: "rowids \<Rightarrow> int \<Rightarrow> SBookMetadata \<Rightarrow> book_relations \<Rightarrow> session_error + book_relations" where
  "ReplaceBookRelations rowid bookId metadata r =
    and_then (InsertAuthors rowid bookId (MetaAuthorsUtf8 metadata) (delete_links bookId (BookAuthors r))) (\<lambda>authors.
    and_then (InsertTags rowid bookId (MetaTagsUtf8 metadata) (delete_links bookId (BookTags r))) (\<lambda>tags.
    and_then (InsertGenres rowid bookId (MetaGenresUtf8 metadata) (delete_links bookId (BookGenres r))) (\<lambda>genres.
      Inr \<lparr>BookAuthors = authors, BookTags = tags, BookGenres = genres\<rparr>)))"

section \<open>Reading them back\<close>

definition book_links :: "int \<Rightarrow> 'x relation \<Rightarrow> (int \<times> int \<times> 'x) list" where
  "book_links bookId r = filter (\<lambda>(b, _). b = bookId) (Links r)"

text \<open>The inner join of link rows with the entities, and a column of it.\<close>

definition join_entities :: "(entity_row \<Rightarrow> string) \<Rightarrow> entity_row list \<Rightarrow> (int \<times> int \<times> 'x) list \<Rightarrow> string list" where
  "join_entities column es links = concat (map (\<lambda>(_, i, _). map column (filter (\<lambda>e. EntityId e = i) es)) links)"

definition stored_authors :: "int \<Rightarrow> nat relation \<Rightarrow> string list" where
  "stored_authors bookId r = join_entities DisplayName (Entities r) (List.sort_key (\<lambda>(_, _, x). x) (book_links bookId r))"

definition stored_names :: "(string list \<Rightarrow> string list) \<Rightarrow> int \<Rightarrow> unit relation \<Rightarrow> string list" where
  "stored_names nocase bookId r = nocase (join_entities DisplayName (Entities r) (book_links bookId r))"

section \<open>The names that are kept\<close>

text \<open>The normalised names, the first of each, after those in \<open>seen\<close>.\<close>

fun fresh_names :: "string list \<Rightarrow> string list \<Rightarrow> string list" where
  "fresh_names seen [] = []"
| "fresh_names seen (name # names) =
    (let n = NormalizeText name in
     if n = [] \<or> n \<in> set seen then fresh_names seen names else n # fresh_names (n # seen) names)"

definition entities_ok :: "entity_row list \<Rightarrow> bool" where
  "entities_ok es \<longleftrightarrow> distinct (map EntityId es) \<and> distinct (map NormalizedName es)
    \<and> list_all (\<lambda>e. NormalizeText (DisplayName e) = NormalizedName e) es"

definition links_ok :: "'x relation \<Rightarrow> bool" where
  "links_ok r \<longleftrightarrow> list_all (\<lambda>(_, i, _). i \<in> EntityId ` set (Entities r)) (Links r)"

definition relation_ok :: "'x relation \<Rightarrow> bool" where
  "relation_ok r \<longleftrightarrow> entities_ok (Entities r) \<and> links_ok r"

lemma filter_entity: "distinct (map EntityId es) \<Longrightarrow> e \<in> set es \<Longrightarrow> filter (\<lambda>e'. EntityId e' = EntityId e) es = [e]"
  by (induction es) (auto simp: filter_empty_conv image_iff)

lemma find_new_entity: "n \<notin> NormalizedName ` set es \<Longrightarrow> NormalizedName e = n \<Longrightarrow> find (\<lambda>e. NormalizedName e = n) (es @ [e]) = Some e"
  by (induction es) auto

lemma join_entities_simps [simp]:
  "join_entities c es [] = []"
  "join_entities c es (l # ls) = map c (filter (\<lambda>e. EntityId e = fst (snd l)) es) @ join_entities c es ls"
  "join_entities c es (ks @ ls) = join_entities c es ks @ join_entities c es ls"
  by (auto simp: join_entities_def split: prod.splits)

lemma join_entities_mem: "l \<in> set links \<Longrightarrow> e \<in> set es \<Longrightarrow> EntityId e = fst (snd l) \<Longrightarrow> c e \<in> set (join_entities c es links)"
  by (induction links) auto

lemma join_normalized:
  "entities_ok es \<Longrightarrow> map NormalizeText (join_entities DisplayName es links) = join_entities NormalizedName es links"
  by (induction links) (auto simp: entities_ok_def list_all_iff)

text \<open>New entities do not change the join of old links.\<close>

lemma join_more:
  assumes "distinct (map EntityId (es @ ext))" "list_all (\<lambda>(_, i, _). i \<in> EntityId ` set es) links"
  shows "join_entities c (es @ ext) links = join_entities c es links"
  using assms(2)
proof (induction links)
  case (Cons l links)
  then obtain e where "e \<in> set es" "EntityId e = fst (snd l)" by (cases l) auto
  then have "filter (\<lambda>e. EntityId e = fst (snd l)) ext = []"
    using assms(1) by (auto simp: filter_empty_conv) (metis disjoint_iff image_eqI)
  with Cons show ?case by simp
qed simp

lemma insert_entity_ok:
  assumes "entities_ok es" "new_rowids rowid" "NormalizeText d = n"
  shows "\<exists>ext e. insert_entity rowid n d es = es @ ext \<and> entities_ok (es @ ext) \<and> e \<in> set (es @ ext) \<and> NormalizedName e = n
    \<and> find (\<lambda>e. NormalizedName e = n) (es @ ext) = Some e"
proof (cases "n \<in> set (map NormalizedName es)")
  case True
  then obtain e where e: "find (\<lambda>e. NormalizedName e = n) es = Some e"
    by (cases "find (\<lambda>e. NormalizedName e = n) es") (auto simp: find_None_iff)
  then have "e \<in> set es" "NormalizedName e = n" by (auto simp: find_Some_iff)
  with True e assms(1) show ?thesis by (intro exI [of _ "[]"] exI [of _ e]) (simp add: insert_entity_def)
next
  case False
  let ?e = "\<lparr>EntityId = rowid (map EntityId es), NormalizedName = n, DisplayName = d\<rparr>"
  have "find (\<lambda>e. NormalizedName e = n) (es @ [?e]) = Some ?e"
    using False by (intro find_new_entity) simp_all
  moreover have "entities_ok (es @ [?e])"
    using assms False spec [of "\<lambda>ids. rowid ids \<notin> set ids" "map EntityId es"] by (auto simp: entities_ok_def new_rowids_def)
  ultimately show ?thesis using False by (intro exI [of _ "[?e]"] exI [of _ ?e]) (simp add: insert_entity_def)
qed

section \<open>What the loop does\<close>

lemma relate_loop_ok:
  assumes "relation_ok r" "new_rowids rowid" "join_entities NormalizedName (Entities r) (book_links b r) = rev seen"
  shows "\<exists>r' ext new. relate_loop rowid t g c b k seen names r = Inr r' \<and> relation_ok r' \<and> Entities r' = Entities r @ ext
    \<and> Links r' = Links r @ new \<and> list_all (\<lambda>(b', _). b' = b) new
    \<and> join_entities NormalizedName (Entities r') new = fresh_names seen names
    \<and> (\<exists>js. map (\<lambda>(_, _, x). x) new = map c js \<and> sorted js \<and> list_all (\<lambda>j. k \<le> j) js)"
  using assms
proof (induction names arbitrary: k seen r)
  case Nil
  show ?case by (rule exI [of _ r], rule exI [of _ "[]"], rule exI [of _ "[]"]) (use Nil in simp)
next
  case (Cons name names)
  let ?n = "NormalizeText name"
  show ?case
  proof (cases "?n = [] \<or> ?n \<in> set seen")
    case True
    from Cons.IH [OF Cons.prems, of "Suc k"] obtain r' ext new js where
      ih: "relate_loop rowid t g c b (Suc k) seen names r = Inr r'" "relation_ok r'" "Entities r' = Entities r @ ext"
      "Links r' = Links r @ new" "list_all (\<lambda>(b', _). b' = b) new"
      "join_entities NormalizedName (Entities r') new = fresh_names seen names"
      "map (\<lambda>(_, _, x). x) new = map c js" "sorted js" "list_all (\<lambda>j. Suc k \<le> j) js"
      by (elim exE conjE)
    have "list_all (\<lambda>j. k \<le> j) js" using ih(9) by (auto simp: list_all_iff)
    moreover have "relate_loop rowid t g c b k seen (name # names) r = Inr r'"
      "join_entities NormalizedName (Entities r') new = fresh_names seen (name # names)"
      using True ih(1,6) by (simp_all add: Let_def)
    ultimately show ?thesis using ih(2-5,7,8) by (intro exI conjI)
  next
    case False
    obtain ext1 e where e: "insert_entity rowid ?n name (Entities r) = Entities r @ ext1" "entities_ok (Entities r @ ext1)"
      "e \<in> set (Entities r @ ext1)" "NormalizedName e = ?n" "find (\<lambda>e. NormalizedName e = ?n) (Entities r @ ext1) = Some e"
      using insert_entity_ok [of "Entities r" rowid name ?n] Cons.prems(1,2) unfolding relation_ok_def by blast
    let ?es = "Entities r @ ext1"
    let ?r = "\<lparr>Entities = ?es, Links = Links r @ [(b, EntityId e, c k)]\<rparr>"
    have dist: "distinct (map EntityId ?es)" using e(2) unfolding entities_ok_def by blast
    have lk: "list_all (\<lambda>(_, i, _). i \<in> EntityId ` set (Entities r)) (Links r)"
      using Cons.prems(1) by (simp add: relation_ok_def links_ok_def)
    then have lb: "list_all (\<lambda>(_, i, _). i \<in> EntityId ` set (Entities r)) (book_links b r)"
      by (auto simp: book_links_def list_all_iff)
    have old: "join_entities NormalizedName ?es (book_links b r) = rev seen"
      using join_more [OF dist lb] Cons.prems(3) by simp
    have here: "map NormalizedName (filter (\<lambda>e'. EntityId e' = EntityId e) ?es) = [?n]"
      using filter_entity [OF dist e(3)] e(4) by simp
    have "\<not> list_ex (\<lambda>(b', i, _). b' = b \<and> i = EntityId e) (Links r)"
    proof
      assume "list_ex (\<lambda>(b', i, _). b' = b \<and> i = EntityId e) (Links r)"
      then obtain x where "(b, EntityId e, x) \<in> set (book_links b r)" by (auto simp: list_ex_iff book_links_def)
      then have "?n \<in> set (join_entities NormalizedName ?es (book_links b r))"
        using join_entities_mem [of _ "book_links b r" e ?es NormalizedName] e(3,4) by fastforce
      then show False using old False by simp
    qed
    then have link: "insert_link g b (EntityId e) (c k) (Links r) = Inr (Links ?r)" by (simp add: insert_link_def)
    have res: "ResolveEntityId rowid t ?n name (Entities r) = Inr (EntityId e, ?es)"
      using e(1,5) by (simp add: ResolveEntityId_def)
    have ok: "relation_ok ?r" using e(2,3) lk by (auto simp: relation_ok_def links_ok_def list_all_iff)
    have "join_entities NormalizedName (Entities ?r) (book_links b ?r) = rev (?n # seen)"
      using old here by (simp add: book_links_def)
    from Cons.IH [OF ok Cons.prems(2) this, of "Suc k"] obtain r' ext new js where
      ih: "relate_loop rowid t g c b (Suc k) (?n # seen) names ?r = Inr r'" "relation_ok r'" "Entities r' = ?es @ ext"
      "Links r' = Links ?r @ new" "list_all (\<lambda>(b', _). b' = b) new"
      "join_entities NormalizedName (Entities r') new = fresh_names (?n # seen) names"
      "map (\<lambda>(_, _, x). x) new = map c js" "sorted js" "list_all (\<lambda>j. Suc k \<le> j) js"
      by (elim exE conjE) (simp only: relation.simps)
    have "distinct (map EntityId (Entities r'))" using ih(2) by (simp add: relation_ok_def entities_ok_def)
    moreover have "e \<in> set (Entities r')" unfolding ih(3) using e(3) by auto
    ultimately have "map NormalizedName (filter (\<lambda>e'. EntityId e' = EntityId e) (Entities r')) = [?n]"
      by (simp only: filter_entity list.map e(4))
    moreover have "list_all (\<lambda>j. k \<le> j) js" "sorted (k # js)" using ih(8,9) by (auto simp: list_all_iff)
    moreover have "relate_loop rowid t g c b k seen (name # names) r = Inr r'"
      using False res link ih(1) by (simp add: Let_def)
    moreover have "map (\<lambda>(_, _, x). x) ((b, EntityId e, c k) # new) = map c (k # js)" "list_all (\<lambda>j. k \<le> j) (k # js)"
      using calculation(2) ih(7) by simp_all
    moreover have "Links r' = Links r @ (b, EntityId e, c k) # new" "list_all (\<lambda>(b', _). b' = b) ((b, EntityId e, c k) # new)"
      using ih(4,5) by simp_all
    moreover have "join_entities NormalizedName (Entities r') ((b, EntityId e, c k) # new) = fresh_names seen (name # names)"
      using calculation(1) False ih(6) by (simp add: Let_def)
    ultimately show ?thesis using ih(2) ih(3) [unfolded append_assoc] by (intro exI conjI)
  qed
qed

lemma relation_ok_delete: "relation_ok r \<Longrightarrow> relation_ok (delete_links b r)"
  by (auto simp: relation_ok_def links_ok_def delete_links_def list_all_iff)

lemma book_links_deleted [simp]: "book_links b (delete_links b r) = []"
  "c \<noteq> b \<Longrightarrow> book_links c (delete_links b r) = book_links c r"
  by (auto simp: book_links_def delete_links_def filter_empty_conv intro!: filter_cong)

text \<open>The links of one book are replaced: they name the fresh names in order, and every other book keeps its own.\<close>

definition replaced :: "int \<Rightarrow> string list \<Rightarrow> 'x relation \<Rightarrow> 'x relation \<Rightarrow> bool" where
  "replaced b names r r' \<longleftrightarrow> relation_ok r' \<and> join_entities NormalizedName (Entities r') (book_links b r') = fresh_names [] names
    \<and> (\<forall>c. c \<noteq> b \<longrightarrow> book_links c r' = book_links c r
         \<and> (\<forall>column links. set links \<subseteq> set (book_links c r) \<longrightarrow> join_entities column (Entities r') links = join_entities column (Entities r) links))"

lemma relate_loop_replaced:
  assumes ok: "relation_ok r" and new: "new_rowids rowid"
  obtains r' js where "relate_loop rowid t g c b 0 [] names (delete_links b r) = Inr r'" "replaced b names r r'"
    "map (\<lambda>(_, _, x). x) (book_links b r') = map c js" "sorted js"
proof -
  let ?r = "delete_links b r"
  have "join_entities NormalizedName (Entities ?r) (book_links b ?r) = rev []" by simp
  from relate_loop_ok [OF relation_ok_delete [OF ok] new this, of t g c 0 names] obtain r' ext ls js where
    p: "relate_loop rowid t g c b 0 [] names ?r = Inr r'" "relation_ok r'" "Entities r' = Entities ?r @ ext"
    "Links r' = Links ?r @ ls" "list_all (\<lambda>(b', _). b' = b) ls" "join_entities NormalizedName (Entities r') ls = fresh_names [] names"
    "map (\<lambda>(_, _, x). x) ls = map c js" "sorted js"
    by (elim exE conjE)
  have es: "Entities r' = Entities r @ ext" using p(3) by (simp add: delete_links_def)
  have b: "book_links b r' = ls" using p(4,5) by (auto simp: book_links_def delete_links_def list_all_iff filter_empty_conv intro!: filter_True)
  have c: "book_links d r' = book_links d r" if "d \<noteq> b" for d
  proof -
    have "filter (\<lambda>(b, _). b = d) ls = []" using p(5) that by (auto simp: filter_empty_conv list_all_iff)
    then show ?thesis using book_links_deleted(2) [OF that, of r] p(4) by (simp add: book_links_def)
  qed
  have "join_entities column (Entities r') links = join_entities column (Entities r) links"
    if "set links \<subseteq> set (book_links d r)" for column links and d :: int
  proof -
    have "set links \<subseteq> set (Links r)" using that by (auto simp: book_links_def)
    then have "list_all (\<lambda>(_, i, _). i \<in> EntityId ` set (Entities r)) links"
      using ok by (auto simp: relation_ok_def links_ok_def list_all_iff)
    moreover have "distinct (map EntityId (Entities r @ ext))" using p(2) es by (simp add: relation_ok_def entities_ok_def)
    ultimately show ?thesis using join_more es by metis
  qed
  then have "replaced b names r r'" using p(2,6) b c by (simp add: replaced_def)
  moreover have "map (\<lambda>(_, _, x). x) (book_links b r') = map c js" unfolding b by (rule p(7))
  ultimately show ?thesis using that p(1,8) by blast
qed

lemma sorted_author_links: "sorted (map (\<lambda>(_, _, x). x) links) \<Longrightarrow> List.sort_key (\<lambda>(_, _, x). x) links = links"
  by (simp add: sort_key_id_if_sorted)

end
