(* ===== verification/Search_Documents.thy ===== *)
theory Search_Documents
  imports Book_Relations Inpx_Records Language_Normalization Transition_Systems "HOL-Library.Multiset"
begin

text \<open>
  What a scan stores of a book: \<open>BuildStoredMetadata\<close>, \<open>InsertInpxBook\<close> and \<open>UpdateInpxBook\<close> of
  \<open>libs/App/InpxScanJobService.cpp\<close>, with the full-text documents of \<open>libs/Database/SearchIndexMaintenance.cpp\<close>.

  The full-text table is contentless: it is known by the commands it gets, and to delete a document the
  command has to repeat it. So the table is modelled as the list of its commands.
\<close>

section \<open>The stored metadata\<close>

definition GUnicodeReplacementCharacterUtf8 :: string where
  "GUnicodeReplacementCharacterUtf8 = [CHR 0xEF, CHR 0xBF, CHR 0xBD]"

definition GAnonymousAuthorFallbackUtf8 :: string where
  "GAnonymousAuthorFallbackUtf8 =
    [CHR 0xD0, CHR 0x90, CHR 0xD0, CHR 0xBD, CHR 0xD0, CHR 0xBE, CHR 0xD0, CHR 0xBD, CHR 0xD0, CHR 0xB8, CHR 0xD0, CHR 0xBC]"

definition ContainsUnicodeReplacementCharacter :: "string \<Rightarrow> bool" where
  "ContainsUnicodeReplacementCharacter value = list_ex (prefix GUnicodeReplacementCharacterUtf8) (suffixes value)"

definition IsAnonymousAuthorFallback :: "string list \<Rightarrow> bool" where
  "IsAnonymousAuthorFallback authors \<longleftrightarrow> authors = [GAnonymousAuthorFallbackUtf8]"

definition BuildCleanInpxAuthorDisplayNames :: "SInpxRecord \<Rightarrow> string list" where
  "BuildCleanInpxAuthorDisplayNames inpxRecord =
    filter (\<lambda>name. name \<noteq> [] \<and> \<not> ContainsUnicodeReplacementCharacter name) (map DisplayNameUtf8 (Authors inpxRecord))"

record SInpxMetadataFallbackCounters =
  TitleFallbacks :: nat
  AuthorFallbacks :: nat
  LanguageFallbacks :: nat

definition FallbackTotal :: "SInpxMetadataFallbackCounters \<Rightarrow> nat" where
  "FallbackTotal c = TitleFallbacks c + AuthorFallbacks c + LanguageFallbacks c"

definition recover_title :: "SInpxRecord \<Rightarrow> SBookMetadata \<Rightarrow> SBookMetadata \<times> nat" where
  "recover_title inpxRecord metadata =
    (if ContainsUnicodeReplacementCharacter (MetaTitleUtf8 metadata) \<and> TitleUtf8 inpxRecord \<noteq> []
        \<and> \<not> ContainsUnicodeReplacementCharacter (TitleUtf8 inpxRecord)
     then (metadata\<lparr>MetaTitleUtf8 := TitleUtf8 inpxRecord\<rparr>, 1) else (metadata, 0))"

definition recover_authors :: "SInpxRecord \<Rightarrow> SBookMetadata \<Rightarrow> SBookMetadata \<times> nat" where
  "recover_authors inpxRecord metadata =
    (let inpxAuthors = BuildCleanInpxAuthorDisplayNames inpxRecord in
     if inpxAuthors \<noteq> [] \<and> (MetaAuthorsUtf8 metadata = [] \<or> list_ex ContainsUnicodeReplacementCharacter (MetaAuthorsUtf8 metadata)
        \<or> IsAnonymousAuthorFallback (MetaAuthorsUtf8 metadata))
     then (metadata\<lparr>MetaAuthorsUtf8 := inpxAuthors\<rparr>, 1) else (metadata, 0))"

definition recover_identifier :: "SInpxRecord \<Rightarrow> SBookMetadata \<Rightarrow> SBookMetadata" where
  "recover_identifier inpxRecord metadata =
    (if MetaIdentifier metadata = None \<or> MetaIdentifier metadata = Some []
     then metadata\<lparr>MetaIdentifier := Some (LibId inpxRecord)\<rparr> else metadata)"

definition recover_language :: "SInpxRecord \<Rightarrow> SBookMetadata \<Rightarrow> SBookMetadata \<times> nat" where
  "recover_language inpxRecord metadata =
    (if MetaLanguage metadata = [] \<and> LanguageUtf8 inpxRecord \<noteq> []
     then (metadata\<lparr>MetaLanguage := LanguageUtf8 inpxRecord\<rparr>, 1) else (metadata, 0))"

definition BuildStoredMetadata :: "SInpxRecord \<Rightarrow> SBookMetadata \<Rightarrow> SBookMetadata \<times> SInpxMetadataFallbackCounters" where
  "BuildStoredMetadata inpxRecord parsedBook =
    (case recover_title inpxRecord parsedBook of (m1, t) \<Rightarrow>
     case recover_authors inpxRecord m1 of (m2, a) \<Rightarrow>
     case recover_language inpxRecord (recover_identifier inpxRecord m2) of (m3, l) \<Rightarrow>
       (m3\<lparr>MetaLanguage := NormalizeLanguage (MetaLanguage m3)\<rparr>,
        \<lparr>TitleFallbacks = t, AuthorFallbacks = a, LanguageFallbacks = l\<rparr>))"

section \<open>The full-text document\<close>

record SNormalizedSearchDocument =
  DocTitle :: string
  DocAuthors :: string
  DocTags :: string
  DocGenres :: string
  DocDescription :: string

definition normalized_values :: "string list \<Rightarrow> string list" where
  "normalized_values values = filter (\<lambda>n. n \<noteq> []) (map NormalizeText values)"

definition join_words :: "string list \<Rightarrow> string" where
  "join_words = foldl (\<lambda>joined normalized. (if joined \<noteq> [] then joined @ '' '' else joined) @ normalized) []"

definition JoinNormalizedText :: "string list \<Rightarrow> bool \<Rightarrow> string" where
  "JoinNormalizedText values sortValues =
    join_words (if sortValues then sort (normalized_values values) else normalized_values values)"

definition BuildNormalizedDescription :: "string option \<Rightarrow> string" where
  "BuildNormalizedDescription description = (case description of None \<Rightarrow> [] | Some d \<Rightarrow> NormalizeText d)"

definition BuildNormalizedSearchDocument :: "SBookMetadata \<Rightarrow> SNormalizedSearchDocument" where
  "BuildNormalizedSearchDocument metadata =
    \<lparr>DocTitle = NormalizeText (MetaTitleUtf8 metadata),
     DocAuthors = JoinNormalizedText (MetaAuthorsUtf8 metadata) False,
     DocTags = JoinNormalizedText (MetaTagsUtf8 metadata) True,
     DocGenres = JoinNormalizedText (MetaGenresUtf8 metadata) True,
     DocDescription = BuildNormalizedDescription (MetaDescriptionUtf8 metadata)\<rparr>"

datatype index_command = IndexInsert int SNormalizedSearchDocument | IndexDelete int SNormalizedSearchDocument

fun command_book :: "index_command \<Rightarrow> int" where
  "command_book (IndexInsert b _) = b"
| "command_book (IndexDelete b _) = b"

definition InsertBook :: "int \<Rightarrow> SBookMetadata \<Rightarrow> index_command list \<Rightarrow> index_command list" where
  "InsertBook bookId metadata index = index @ [IndexInsert bookId (BuildNormalizedSearchDocument metadata)]"

definition RemoveBook :: "int \<Rightarrow> SBookMetadata \<Rightarrow> index_command list \<Rightarrow> index_command list" where
  "RemoveBook bookId metadata index = index @ [IndexDelete bookId (BuildNormalizedSearchDocument metadata)]"

section \<open>Books\<close>

text \<open>A row of \<open>inpx_books\<close>: the columns of the metadata (authors, tags and genres have tables of their own).\<close>

record SInpxBookRow =
  RowMetadata :: SBookMetadata
  RowNormalizedTitle :: string
  RowCoverPath :: "string option"
  RowAddedAtUtc :: string

record catalog =
  CatBooks :: "(int \<times> SInpxBookRow) list"
  CatRelations :: book_relations
  CatIndex :: "index_command list"

text \<open>SQLite stores the bits of a double, but not a number as null and the negative zero as zero.\<close>

definition is_nan :: "float64 \<Rightarrow> bool" where
  "is_nan d \<longleftrightarrow> d mod 2 ^ 63 > 0x7FF * 2 ^ 52"

definition stored_double :: "float64 \<Rightarrow> float64 option" where
  "stored_double d = (if is_nan d then None else if d = 2 ^ 63 then Some 0 else Some d)"

definition stored_columns :: "SBookMetadata \<Rightarrow> SBookMetadata" where
  "stored_columns metadata =
    metadata\<lparr>MetaAuthorsUtf8 := [], MetaTagsUtf8 := [], MetaGenresUtf8 := [], MetaIsbn := NormalizeIsbn (MetaIsbn metadata),
      MetaSeriesIndex := Option.bind (MetaSeriesIndex metadata) stored_double\<rparr>"

definition BindStoredBookMetadata :: "SBookMetadata \<Rightarrow> SInpxBookRow \<Rightarrow> SInpxBookRow" where
  "BindStoredBookMetadata metadata row =
    row\<lparr>RowMetadata := stored_columns metadata, RowNormalizedTitle := NormalizeText (MetaTitleUtf8 metadata)\<rparr>"

definition ReadStoredMetadata :: "(string list \<Rightarrow> string list) \<Rightarrow> int \<Rightarrow> catalog \<Rightarrow> SBookMetadata option" where
  "ReadStoredMetadata nocase bookId cat =
    (case map_of (CatBooks cat) bookId of
       None \<Rightarrow> None
     | Some row \<Rightarrow> Some ((RowMetadata row)\<lparr>
         MetaAuthorsUtf8 := stored_authors bookId (BookAuthors (CatRelations cat)),
         MetaTagsUtf8 := stored_names nocase bookId (BookTags (CatRelations cat)),
         MetaGenresUtf8 := stored_names nocase bookId (BookGenres (CatRelations cat))\<rparr>))"

definition InsertInpxBook ::
  "rowids \<Rightarrow> SInpxRecord \<Rightarrow> SBookMetadata \<Rightarrow> int \<Rightarrow> catalog \<Rightarrow> session_error + int \<times> SInpxMetadataFallbackCounters \<times> catalog" where
  "InsertInpxBook rowid inpxRecord parsedBook addedAtUtc cat =
    (case BuildStoredMetadata inpxRecord parsedBook of (metadata, fallbacks) \<Rightarrow>
       let row = BindStoredBookMetadata metadata \<lparr>RowMetadata = metadata, RowNormalizedTitle = [], RowCoverPath = None,
             RowAddedAtUtc = SerializeTimePoint addedAtUtc\<rparr>;
           bookId = rowid (map fst (CatBooks cat)) in
       and_then (ReplaceBookRelations rowid bookId metadata (CatRelations cat)) (\<lambda>relations.
         Inr (bookId, fallbacks, \<lparr>CatBooks = CatBooks cat @ [(bookId, row)], CatRelations = relations,
           CatIndex = InsertBook bookId metadata (CatIndex cat)\<rparr>)))"

definition update_rows :: "int \<Rightarrow> (SInpxBookRow \<Rightarrow> SInpxBookRow) \<Rightarrow> (int \<times> SInpxBookRow) list \<Rightarrow> (int \<times> SInpxBookRow) list" where
  "update_rows bookId f = map (\<lambda>(i, row). (i, if i = bookId then f row else row))"

definition UpdateInpxBook ::
  "rowids \<Rightarrow> (string list \<Rightarrow> string list) \<Rightarrow> int \<Rightarrow> SInpxRecord \<Rightarrow> SBookMetadata \<Rightarrow> catalog \<Rightarrow>
   session_error + SInpxMetadataFallbackCounters \<times> catalog" where
  "UpdateInpxBook rowid nocase bookId inpxRecord parsedBook cat =
    (case ReadStoredMetadata nocase bookId cat of
       None \<Rightarrow> Inl (SessionRuntimeError ''INPX book row is missing during update.'')
     | Some oldMetadata \<Rightarrow>
         (case BuildStoredMetadata inpxRecord parsedBook of (metadata, fallbacks) \<Rightarrow>
            and_then (ReplaceBookRelations rowid bookId metadata (CatRelations cat)) (\<lambda>relations.
              Inr (fallbacks, \<lparr>CatBooks = update_rows bookId (BindStoredBookMetadata metadata) (CatBooks cat),
                CatRelations = relations,
                CatIndex = InsertBook bookId metadata (RemoveBook bookId oldMetadata (CatIndex cat))\<rparr>))))"

definition UpdateBookCoverPath :: "int \<Rightarrow> string option \<Rightarrow> catalog \<Rightarrow> catalog" where
  "UpdateBookCoverPath bookId coverPathUtf8 cat =
    cat\<lparr>CatBooks := update_rows bookId (\<lambda>row. row\<lparr>RowCoverPath := coverPathUtf8\<rparr>) (CatBooks cat)\<rparr>"

end
