(* ===== verification/Catalog_Statistics.thy ===== *)
theory Catalog_Statistics
  imports Path_Safety Search_Documents
begin

text \<open>
  The incrementally maintained statistics, \<open>libs/Database/CatalogStatisticsMaintenance.cpp\<close>: one row of counts, and
  a table of the cover files with their reference counts and sizes. The files below the cache root are a parameter.
  The times of the updates are left out, and the sums stay within 64 bits.
\<close>

section \<open>Cover paths\<close>

fun split_slash :: "string \<Rightarrow> string \<Rightarrow> string list" where
  "split_slash part [] = [part]"
| "split_slash part (c # s) = (if c = CHR ''/'' then part # split_slash [] s else split_slash (part @ [c]) s)"

definition PathFromUtf8 :: "string \<Rightarrow> path" where
  "PathFromUtf8 s = \<lparr>Absolute = s \<noteq> [] \<and> hd s = CHR ''/'', Parts = filter (\<lambda>p. p \<noteq> []) (split_slash [] s)\<rparr>"

fun join_slash :: "string list \<Rightarrow> string" where
  "join_slash [] = []"
| "join_slash [p] = p"
| "join_slash (p # ps) = p @ ''/'' @ join_slash ps"

definition PathToUtf8 :: "path \<Rightarrow> string" where
  "PathToUtf8 p = (if Absolute p then ''/'' else []) @ join_slash (Parts p)"

fun skip_common :: "string list \<Rightarrow> string list \<Rightarrow> string list \<times> string list" where
  "skip_common (p # ps) (b # bs) = (if p = b then skip_common ps bs else (p # ps, b # bs))"
| "skip_common ps bs = (ps, bs)"

text \<open>\<open>lexically_relative\<close> gives the empty path when there is none, here None.\<close>

definition lexically_relative :: "path \<Rightarrow> path \<Rightarrow> path option" where
  "lexically_relative p base =
    (if Absolute p \<noteq> Absolute base then None
     else case skip_common (Parts p) (Parts base) of (ps, bs) \<Rightarrow>
       let up = int (length (filter (\<lambda>b. b \<noteq> ''..'' \<and> b \<noteq> ''.'') bs)) - int (length (filter (\<lambda>b. b = ''..'') bs)) in
       if up < 0 then None
       else if up = 0 \<and> ps = [] then Some (relative [''.''])
       else Some (relative (replicate (nat up) ''..'' @ ps)))"

definition CoversDirectory :: "path \<Rightarrow> path" where
  "CoversDirectory cacheRoot = path_join cacheRoot (relative [''Covers''])"

record SNormalizedCoverPath =
  StoredPathUtf8 :: string
  RelativeToCovers :: path

definition NormalizeCoverPath :: "string \<Rightarrow> session_error + SNormalizedCoverPath" where
  "NormalizeCoverPath storedPathUtf8 =
    (let storedPath = lexically_normal (PathFromUtf8 storedPathUtf8) in
     if \<not> IsSafeRelativePath storedPath then Inl (SessionRuntimeError ''Stored cover path is not a safe relative cache path.'')
     else let coversPrefix = CoversDirectory (relative []) in
       case lexically_relative storedPath coversPrefix of
         None \<Rightarrow> Inl (SessionRuntimeError ''Stored cover path must reference a file under the Covers directory.'')
       | Some relativeCoverPath \<Rightarrow>
           if relativeCoverPath = relative [''.''] \<or> \<not> IsSafeRelativePath relativeCoverPath
           then Inl (SessionRuntimeError ''Stored cover path must reference a file under the Covers directory.'')
           else Inr \<lparr>StoredPathUtf8 = PathToUtf8 (path_join coversPrefix relativeCoverPath), RelativeToCovers = relativeCoverPath\<rparr>)"

definition TryNormalizeCoverPath :: "string \<Rightarrow> string option" where
  "TryNormalizeCoverPath storedPathUtf8 =
    (case NormalizeCoverPath storedPathUtf8 of Inl _ \<Rightarrow> None | Inr p \<Rightarrow> Some (StoredPathUtf8 p))"

section \<open>The files of the covers\<close>

record cover_files =
  CacheFiles :: filesystem
  CacheFileSize :: "path \<Rightarrow> nat option"
  CacheRoot :: path

definition GetFileSizeOrZero :: "cover_files \<Rightarrow> path \<Rightarrow> nat" where
  "GetFileSizeOrZero files p = (case CacheFileSize files p of None \<Rightarrow> 0 | Some n \<Rightarrow> n)"

definition GetCoverSize :: "cover_files \<Rightarrow> string \<Rightarrow> nat option \<Rightarrow> nat option" where
  "GetCoverSize files normalizedCoverPathUtf8 knownSizeBytes =
    (case NormalizeCoverPath normalizedCoverPathUtf8 of
       Inl _ \<Rightarrow> None
     | Inr normalizedCoverPath \<Rightarrow>
         (case TryResolvePathWithinRoot (CacheFiles files) (CoversDirectory (CacheRoot files)) (RelativeToCovers normalizedCoverPath)
             ''Stored cover path must stay under the Covers directory.'' ''Stored cover path could not be canonicalized.'' of
            Inr (Some coverPath) \<Rightarrow>
              if is_regular_file (CacheFiles files) coverPath = Some True
              then (if knownSizeBytes \<noteq> None then knownSizeBytes else Some (GetFileSizeOrZero files coverPath))
              else None
          | _ \<Rightarrow> None))"

section \<open>The tables\<close>

record statistics_row =
  BookCount :: int
  UnavailableBookCount :: int
  CoverCacheSizeBytes :: int
  InpxSourceSizeBytes :: int

record cover_row =
  CoverPath :: string
  ReferenceCount :: int
  SizeBytes :: int

record statistics =
  StatRow :: "statistics_row option"
  CoverRows :: "cover_row list"

definition check_failed :: session_error where
  "check_failed = SessionRuntimeError (failure_message (StepFailure ''CHECK constraint failed''))"

definition ToSqliteInt64 :: "nat \<Rightarrow> session_error + int" where
  "ToSqliteInt64 n =
    (if n > int64_max then Inl (SessionRuntimeError ''Catalog statistics value exceeds SQLite int64 range.'') else Inr (int n))"

definition EnsureStatisticsRow :: "statistics \<Rightarrow> statistics_row" where
  "EnsureStatisticsRow t =
    (case StatRow t of
       None \<Rightarrow> \<lparr>BookCount = 0, UnavailableBookCount = 0, CoverCacheSizeBytes = 0, InpxSourceSizeBytes = 0\<rparr>
     | Some row \<Rightarrow> row)"

definition statistics_check :: "statistics_row \<Rightarrow> bool" where
  "statistics_check row \<longleftrightarrow> 0 \<le> BookCount row \<and> 0 \<le> UnavailableBookCount row \<and> 0 \<le> CoverCacheSizeBytes row
    \<and> 0 \<le> InpxSourceSizeBytes row"

definition set_row :: "statistics_row \<Rightarrow> statistics \<Rightarrow> session_error + statistics" where
  "set_row row t = (if statistics_check row then Inr (t\<lparr>StatRow := Some row\<rparr>) else Inl check_failed)"

definition AddStatisticsDelta :: "int \<Rightarrow> int \<Rightarrow> int \<Rightarrow> int \<Rightarrow> statistics \<Rightarrow> session_error + statistics" where
  "AddStatisticsDelta books unavailable cover source t =
    (let row = EnsureStatisticsRow t in
     set_row \<lparr>BookCount = BookCount row + books, UnavailableBookCount = UnavailableBookCount row + unavailable,
       CoverCacheSizeBytes = CoverCacheSizeBytes row + cover, InpxSourceSizeBytes = InpxSourceSizeBytes row + source\<rparr> t)"

definition SetInpxSourceSize :: "nat \<Rightarrow> statistics \<Rightarrow> session_error + statistics" where
  "SetInpxSourceSize sizeBytes t =
    and_then (ToSqliteInt64 sizeBytes) (\<lambda>n. set_row ((EnsureStatisticsRow t)\<lparr>InpxSourceSizeBytes := n\<rparr>) t)"

definition find_cover :: "string \<Rightarrow> statistics \<Rightarrow> cover_row option" where
  "find_cover p t = find (\<lambda>r. CoverPath r = p) (CoverRows t)"

definition update_cover :: "string \<Rightarrow> (cover_row \<Rightarrow> cover_row) \<Rightarrow> statistics \<Rightarrow> statistics" where
  "update_cover p f t = t\<lparr>CoverRows := map (\<lambda>r. if CoverPath r = p then f r else r) (CoverRows t)\<rparr>"

definition insert_cover :: "string \<Rightarrow> int \<Rightarrow> int \<Rightarrow> statistics \<Rightarrow> session_error + statistics" where
  "insert_cover p references bytes t =
    (if references \<le> 0 \<or> bytes < 0 then Inl check_failed
     else AddStatisticsDelta 0 0 bytes 0
       (t\<lparr>CoverRows := CoverRows t @ [\<lparr>CoverPath = p, ReferenceCount = references, SizeBytes = bytes\<rparr>]\<rparr>))"

text \<open>An empty path and one that is not below the covers directory are ignored.\<close>

definition normalized_cover :: "string option \<Rightarrow> string option" where
  "normalized_cover coverPathUtf8 =
    (case coverPathUtf8 of None \<Rightarrow> None | Some p \<Rightarrow> if p = [] then None else TryNormalizeCoverPath p)"

definition IncrementCoverReference :: "cover_files \<Rightarrow> string option \<Rightarrow> nat option \<Rightarrow> statistics \<Rightarrow> session_error + statistics" where
  "IncrementCoverReference files coverPathUtf8 knownSizeBytes t =
    (case normalized_cover coverPathUtf8 of
       None \<Rightarrow> Inr t
     | Some p \<Rightarrow>
         if find_cover p t \<noteq> None then Inr (update_cover p (\<lambda>r. r\<lparr>ReferenceCount := ReferenceCount r + 1\<rparr>) t)
         else case GetCoverSize files p knownSizeBytes of
           None \<Rightarrow> Inr t
         | Some coverSize \<Rightarrow> and_then (ToSqliteInt64 coverSize) (\<lambda>n. insert_cover p 1 n t))"

definition CountStoredCoverReferences :: "(int \<times> SInpxBookRow) list \<Rightarrow> string \<Rightarrow> nat" where
  "CountStoredCoverReferences books p = length (filter (\<lambda>(_, row). RowCoverPath row = Some p) books)"

definition RefreshCoverReferenceSize ::
  "cover_files \<Rightarrow> (int \<times> SInpxBookRow) list \<Rightarrow> string option \<Rightarrow> nat option \<Rightarrow> statistics \<Rightarrow> session_error + statistics" where
  "RefreshCoverReferenceSize files books coverPathUtf8 knownSizeBytes t =
    (case normalized_cover coverPathUtf8 of
       None \<Rightarrow> Inr t
     | Some p \<Rightarrow>
         (case GetCoverSize files p knownSizeBytes of
            None \<Rightarrow> Inr t
          | Some coverSize \<Rightarrow>
              (case find_cover p t of
                 Some row \<Rightarrow> and_then (ToSqliteInt64 coverSize) (\<lambda>newSizeBytes.
                   if SizeBytes row = newSizeBytes then Inr t
                   else AddStatisticsDelta 0 0 (newSizeBytes - SizeBytes row) 0
                          (update_cover p (\<lambda>r. r\<lparr>SizeBytes := newSizeBytes\<rparr>) t))
               | None \<Rightarrow>
                   let referenceCount = CountStoredCoverReferences books p in
                   if referenceCount = 0 then Inr t
                   else and_then (ToSqliteInt64 referenceCount) (\<lambda>references.
                        and_then (ToSqliteInt64 coverSize) (\<lambda>n. insert_cover p references n t)))))"

definition DecrementCoverReference :: "string option \<Rightarrow> statistics \<Rightarrow> session_error + statistics" where
  "DecrementCoverReference coverPathUtf8 t =
    (case normalized_cover coverPathUtf8 of
       None \<Rightarrow> Inr t
     | Some p \<Rightarrow>
         (case find_cover p t of
            None \<Rightarrow> Inr t
          | Some row \<Rightarrow>
              if ReferenceCount row > 1 then Inr (update_cover p (\<lambda>r. r\<lparr>ReferenceCount := ReferenceCount r - 1\<rparr>) t)
              else AddStatisticsDelta 0 0 (- SizeBytes row) 0
                     (t\<lparr>CoverRows := filter (\<lambda>r. CoverPath r \<noteq> p) (CoverRows t)\<rparr>)))"

section \<open>What the scan records\<close>

definition IsUnavailable :: "string \<Rightarrow> bool" where
  "IsUnavailable availabilityUtf8 \<longleftrightarrow> availabilityUtf8 \<noteq> [] \<and> \<not> IsInpxBookAvailable availabilityUtf8"

definition RecordInpxBookInserted :: "cover_files \<Rightarrow> string option \<Rightarrow> nat option \<Rightarrow> statistics \<Rightarrow> session_error + statistics" where
  "RecordInpxBookInserted files coverPathUtf8 knownCoverSizeBytes t =
    and_then (AddStatisticsDelta 1 0 0 0 t) (IncrementCoverReference files coverPathUtf8 knownCoverSizeBytes)"

definition RecordCoverPathChanged ::
  "cover_files \<Rightarrow> (int \<times> SInpxBookRow) list \<Rightarrow> string option \<Rightarrow> string option \<Rightarrow> nat option \<Rightarrow> statistics \<Rightarrow> session_error + statistics" where
  "RecordCoverPathChanged files books oldCoverPathUtf8 newCoverPathUtf8 knownNewCoverSizeBytes t =
    (let old = (case oldCoverPathUtf8 of None \<Rightarrow> None | Some p \<Rightarrow> TryNormalizeCoverPath p);
         new = (case newCoverPathUtf8 of None \<Rightarrow> None | Some p \<Rightarrow> TryNormalizeCoverPath p) in
     if old = new then RefreshCoverReferenceSize files books new knownNewCoverSizeBytes t
     else and_then (DecrementCoverReference old t) (IncrementCoverReference files new knownNewCoverSizeBytes))"

definition RecordInpxBookAvailabilityChanged :: "string \<Rightarrow> string \<Rightarrow> statistics \<Rightarrow> session_error + statistics" where
  "RecordInpxBookAvailabilityChanged oldAvailabilityUtf8 newAvailabilityUtf8 t =
    (if IsUnavailable oldAvailabilityUtf8 = IsUnavailable newAvailabilityUtf8 then Inr t
     else AddStatisticsDelta 0 (if IsUnavailable newAvailabilityUtf8 then 1 else -1) 0 0 t)"

definition AddUnavailableBooks :: "nat \<Rightarrow> statistics \<Rightarrow> session_error + statistics" where
  "AddUnavailableBooks references t =
    (if references = 0 then Inr t else and_then (ToSqliteInt64 references) (\<lambda>n. AddStatisticsDelta 0 n 0 0 t))"

definition RemoveUnavailableBooks :: "nat \<Rightarrow> statistics \<Rightarrow> session_error + statistics" where
  "RemoveUnavailableBooks references t =
    (if references = 0 then Inr t else and_then (ToSqliteInt64 references) (\<lambda>n. AddStatisticsDelta 0 (- n) 0 0 t))"

end
