(* ===== verification/Scan_Writer.thy ===== *)
theory Scan_Writer
  imports Catalog_Statistics
begin

text \<open>
  The writer of a scan, \<open>CInpxCatalogStreamWriter\<close> of \<open>libs/App/InpxScanJobService.cpp\<close>: the rows of the segments
  with their deletions, of the locations of the books, and of the source, and the statements that a scan runs on
  them. There is one source (\<open>CHECK(id = 1)\<close>), so the conditions on \<open>source_id\<close> hold of every row and the column is left
  out. The scan runs in one transaction: an error leaves the tables as they were before the scan.
\<close>

section \<open>Plans\<close>

datatype EInpxSegmentChange = SegmentUnchanged | SegmentAdded | SegmentChanged | SegmentRemoved

record SInpxArchiveFileState =
  StateFileSizeBytes :: nat
  StateMtimeTicks :: int

record SInpxSegmentPlan =
  Change :: EInpxSegmentChange
  Payload :: SInpxSegmentPayload
  PlanSummary :: SInpxParseSummary
  PlanRecords :: "SInpxRecord list"
  PlanWarnings :: "SInpxWarning list"
  DeletedLibIds :: "string list"
  SegmentOrder :: nat
  RequiresArchive :: bool
  ResolvedArchivePathUtf8 :: string
  ArchiveFileState :: SInpxArchiveFileState
  ArchiveManifestFingerprintUtf8 :: string
  ExistingId :: "int option"
  ArchiveOpened :: bool

section \<open>Tables\<close>

record segment_row =
  SegmentId :: int
  RowInpEntryName :: string
  RowArchiveName :: string
  RowFingerprint :: string
  RowOrder :: int
  RecordCount :: int
  ActiveRecordCount :: int
  DeletedRecordCount :: int
  RowAvailability :: string
  RowRequiresArchive :: bool
  RowResolvedPath :: "string option"
  RowArchiveSize :: int
  RowArchiveMtime :: int
  RowManifest :: "string option"
  RowScan :: "string option"

record location_row =
  LocBookId :: int
  LocSegmentId :: int
  LocLibId :: string
  LocArchiveName :: string
  LocEntryName :: string
  LocAvailability :: string
  LocPresent :: bool
  LocFileSize :: int
  LocFormat :: string
  LocScan :: "string option"

record source_row =
  SourceDisplayName :: string
  SourceFingerprint :: string
  LastScanStarted :: "string option"
  LastScanCompleted :: "string option"
  LastSeenSnapshot :: "string option"

record scan_tables =
  Catalog :: catalog
  Source :: source_row
  Segments :: "segment_row list"
  Deletions :: "(int \<times> string) list"
  Locations :: "location_row list"
  Statistics :: statistics

definition unique_failed :: session_error where
  "unique_failed = SessionRuntimeError (failure_message (StepFailure ''UNIQUE constraint failed''))"

definition MarkInpxSourceScanStarted :: "string \<Rightarrow> source_row \<Rightarrow> source_row" where
  "MarkInpxSourceScanStarted startedAtUtc row = row\<lparr>LastScanStarted := Some startedAtUtc, LastScanCompleted := None\<rparr>"

definition UpdateInpxSourceRow :: "string \<Rightarrow> string \<Rightarrow> string \<Rightarrow> string \<Rightarrow> string \<Rightarrow> source_row \<Rightarrow> source_row" where
  "UpdateInpxSourceRow displayName sourceFingerprintUtf8 startedAtUtc completedAtUtc scanId row =
    \<lparr>SourceDisplayName = displayName, SourceFingerprint = sourceFingerprintUtf8, LastScanStarted = Some startedAtUtc,
     LastScanCompleted = Some completedAtUtc, LastSeenSnapshot = Some scanId\<rparr>"

section \<open>Segments\<close>

definition null_if_empty :: "string \<Rightarrow> string option" where
  "null_if_empty s = (if s = [] then None else Some s)"

definition planned_row :: "string \<Rightarrow> SInpxSegmentPlan \<Rightarrow> segment_row" where
  "planned_row scanId plan =
    \<lparr>SegmentId = 0, RowInpEntryName = SegInpEntryNameUtf8 (Payload plan), RowArchiveName = SegArchiveNameUtf8 (Payload plan),
     RowFingerprint = SegFingerprintUtf8 (Payload plan), RowOrder = int (SegmentOrder plan),
     RecordCount = int (TotalRecords (PlanSummary plan)),
     ActiveRecordCount = int (ParsedRecords (PlanSummary plan)) - int (DeletedRecords (PlanSummary plan)),
     DeletedRecordCount = int (DeletedRecords (PlanSummary plan)),
     RowAvailability = availability_ToString (if Change plan = SegmentRemoved then MissingFromIndex else Available),
     RowRequiresArchive = RequiresArchive plan, RowResolvedPath = null_if_empty (ResolvedArchivePathUtf8 plan),
     RowArchiveSize = int (StateFileSizeBytes (ArchiveFileState plan)), RowArchiveMtime = StateMtimeTicks (ArchiveFileState plan),
     RowManifest = null_if_empty (ArchiveManifestFingerprintUtf8 plan), RowScan = Some scanId\<rparr>"

text \<open>The \<open>CHECK\<close> constraints of \<open>inpx_segments\<close>.\<close>

definition segment_check :: "segment_row \<Rightarrow> bool" where
  "segment_check r \<longleftrightarrow> 0 \<le> RowOrder r \<and> 0 \<le> RecordCount r \<and> 0 \<le> ActiveRecordCount r \<and> 0 \<le> DeletedRecordCount r
    \<and> RowAvailability r \<in> set (map availability_ToString [Available, MissingFromIndex]) \<and> 0 \<le> RowArchiveSize r
    \<and> RecordCount r = ActiveRecordCount r + DeletedRecordCount r
    \<and> (if RowRequiresArchive r then RowResolvedPath r \<noteq> None \<and> RowManifest r \<noteq> None
       else RowResolvedPath r = None \<and> RowManifest r = None)"

text \<open>\<open>INSERT ... ON CONFLICT(source_id, inp_entry_name) DO UPDATE\<close>: a row of that name keeps its id.\<close>

definition upsert_row :: "rowids \<Rightarrow> segment_row \<Rightarrow> segment_row list \<Rightarrow> segment_row list" where
  "upsert_row rowid row rows =
    (if RowInpEntryName row \<in> set (map RowInpEntryName rows)
     then map (\<lambda>r. if RowInpEntryName r = RowInpEntryName row then row\<lparr>SegmentId := SegmentId r\<rparr> else r) rows
     else rows @ [row\<lparr>SegmentId := rowid (map SegmentId rows)\<rparr>])"

fun insert_deletions :: "int \<Rightarrow> string list \<Rightarrow> (int \<times> string) list \<Rightarrow> session_error + (int \<times> string) list" where
  "insert_deletions segmentId [] dels = Inr dels"
| "insert_deletions segmentId (libId # libIds) dels =
    (if (segmentId, libId) \<in> set dels then Inl unique_failed else insert_deletions segmentId libIds (dels @ [(segmentId, libId)]))"

definition UpsertSegment :: "rowids \<Rightarrow> string \<Rightarrow> SInpxSegmentPlan \<Rightarrow> scan_tables \<Rightarrow> session_error + int \<times> scan_tables" where
  "UpsertSegment rowid scanId plan db =
    (let row = planned_row scanId plan in
     if \<not> segment_check row then Inl check_failed
     else
       let rows = upsert_row rowid row (Segments db);
           db1 = db\<lparr>Segments := rows\<rparr> in
       case find (\<lambda>r. RowInpEntryName r = RowInpEntryName row) rows of
         None \<Rightarrow> Inl (SessionRuntimeError ''INPX segment row is missing after upsert.'')
       | Some r \<Rightarrow>
           let segmentId = SegmentId r in
           if Change plan = SegmentUnchanged then Inr (segmentId, db1)
           else
             let dels = filter (\<lambda>(s, _). s \<noteq> segmentId) (Deletions db1) in
             if Change plan = SegmentRemoved then Inr (segmentId, db1\<lparr>Deletions := dels\<rparr>)
             else and_then (insert_deletions segmentId (DeletedLibIds plan) dels) (\<lambda>dels'.
               Inr (segmentId, db1\<lparr>Deletions := dels'\<rparr>)))"

fun upsert_all :: "rowids \<Rightarrow> string \<Rightarrow> SInpxSegmentPlan list \<Rightarrow> scan_tables \<Rightarrow> session_error + int list \<times> scan_tables" where
  "upsert_all rowid scanId [] db = Inr ([], db)"
| "upsert_all rowid scanId (plan # plans) db =
    and_then (UpsertSegment rowid scanId plan db) (\<lambda>(segmentId, db1).
    and_then (upsert_all rowid scanId plans db1) (\<lambda>(segmentIds, db2). Inr (segmentId # segmentIds, db2)))"

section \<open>Books and their locations\<close>

record SExistingInpxBook =
  ExistingBookId :: int
  ExistingCoverPathUtf8 :: "string option"
  ExistingAvailabilityUtf8 :: string
  ExistingArchiveNameUtf8 :: string
  ExistingEntryNameUtf8 :: string
  ExistingFileSizeBytes :: int
  ExistingFormatUtf8 :: string

definition ReadExistingInpxBook :: "string \<Rightarrow> scan_tables \<Rightarrow> SExistingInpxBook option" where
  "ReadExistingInpxBook libId db =
    (case find (\<lambda>l. LocLibId l = libId \<and> map_of (CatBooks (Catalog db)) (LocBookId l) \<noteq> None) (Locations db) of
       None \<Rightarrow> None
     | Some l \<Rightarrow> (case map_of (CatBooks (Catalog db)) (LocBookId l) of
         None \<Rightarrow> None
       | Some book \<Rightarrow> Some
           \<lparr>ExistingBookId = LocBookId l,
            ExistingCoverPathUtf8 = (if RowCoverPath book = Some [] then None else RowCoverPath book),
            ExistingAvailabilityUtf8 = LocAvailability l, ExistingArchiveNameUtf8 = LocArchiveName l,
            ExistingEntryNameUtf8 = LocEntryName l, ExistingFileSizeBytes = LocFileSize l, ExistingFormatUtf8 = LocFormat l\<rparr>))"

text \<open>\<open>INSERT ... ON CONFLICT(book_id) DO UPDATE\<close>; another book with this identifier violates the unique index.\<close>

definition UpsertInpxLocation ::
  "int \<Rightarrow> int \<Rightarrow> SInpxRecord \<Rightarrow> EInpxBookAvailability \<Rightarrow> string \<Rightarrow> location_row list \<Rightarrow> session_error + location_row list" where
  "UpsertInpxLocation segmentId bookId inpxRecord availability scanId locations =
    (let row = \<lparr>LocBookId = bookId, LocSegmentId = segmentId, LocLibId = LibId inpxRecord,
           LocArchiveName = ArchiveNameUtf8 inpxRecord, LocEntryName = EntryNameUtf8 inpxRecord,
           LocAvailability = availability_ToString availability, LocPresent = True, LocFileSize = FileSizeBytes inpxRecord,
           LocFormat = ToLowerAscii (FileExtensionUtf8 inpxRecord), LocScan = Some scanId\<rparr> in
     if list_ex (\<lambda>l. LocLibId l = LibId inpxRecord \<and> LocBookId l \<noteq> bookId) locations then Inl unique_failed
     else if bookId \<in> set (map LocBookId locations)
     then Inr (map (\<lambda>l. if LocBookId l = bookId then row else l) locations)
     else Inr (locations @ [row]))"

definition ValidateCoverCacheBudget :: "nat \<Rightarrow> statistics \<Rightarrow> session_error + unit" where
  "ValidateCoverCacheBudget maxCoverCacheBytes t =
    (case StatRow t of
       None \<Rightarrow> Inl (SessionRuntimeError ''Catalog statistics singleton is missing during INPX scan.'')
     | Some row \<Rightarrow>
         if CoverCacheSizeBytes row < 0 \<or> nat (CoverCacheSizeBytes row) > maxCoverCacheBytes
         then Inl (SessionRuntimeError (''INPX cover cache budget exceeded: projected referenced covers require ''
           @ (if CoverCacheSizeBytes row < 0 then ''-'' else []) @ to_string (nat \<bar>CoverCacheSizeBytes row\<bar>)
           @ '' bytes, limit is '' @ to_string maxCoverCacheBytes @ '' bytes.''))
         else Inr ())"

record SInpxCachedCoverResult =
  RelativePathUtf8 :: "string option"
  CoverBytes :: nat
  CoverResultWarnings :: nat

record SInpxRecordWriteResult =
  WriteAdded :: bool
  WriteUpdated :: bool
  CachedCover :: bool
  CachedCoverBytes :: nat
  WriteParserWarningCount :: nat
  WriteCoverWarningCount :: nat
  WriteFallbacks :: SInpxMetadataFallbackCounters

text \<open>A payload that is ready to be written, with what \<open>CacheInpxCover\<close> does with its cover.\<close>

record parsed_record =
  ForSegment :: int
  ForRecord :: SInpxRecord
  ParsedMetadata :: SBookMetadata
  ParsedWarnings :: nat
  PreparedCoverWarnings :: nat
  CoverOutcome :: "session_error + SInpxCachedCoverResult"
  WrittenAtUtc :: int

record writer_env =
  RowIds :: rowids
  Nocase :: "string list \<Rightarrow> string list"
  CoverStore :: cover_files
  ScanId :: string
  MaxCoverCacheBytes :: nat

definition known_cover_size :: "SInpxCachedCoverResult \<Rightarrow> nat option" where
  "known_cover_size cover = (if RelativePathUtf8 cover \<noteq> None then Some (CoverBytes cover) else None)"

definition write_result :: "bool \<Rightarrow> parsed_record \<Rightarrow> SInpxCachedCoverResult \<Rightarrow> SInpxMetadataFallbackCounters \<Rightarrow> SInpxRecordWriteResult" where
  "write_result added p cover fallbacks =
    \<lparr>WriteAdded = added, WriteUpdated = \<not> added, CachedCover = RelativePathUtf8 cover \<noteq> None, CachedCoverBytes = CoverBytes cover,
     WriteParserWarningCount = ParsedWarnings p, WriteCoverWarningCount = PreparedCoverWarnings p + CoverResultWarnings cover,
     WriteFallbacks = fallbacks\<rparr>"

definition write_new :: "writer_env \<Rightarrow> parsed_record \<Rightarrow> scan_tables \<Rightarrow> session_error + SInpxRecordWriteResult \<times> scan_tables" where
  "write_new env p db =
    and_then (InsertInpxBook (RowIds env) (ForRecord p) (ParsedMetadata p) (WrittenAtUtc p) (Catalog db)) (\<lambda>(bookId, fallbacks, cat).
    and_then (CoverOutcome p) (\<lambda>cover.
      let cat1 = UpdateBookCoverPath bookId (RelativePathUtf8 cover) cat in
      and_then (UpsertInpxLocation (ForSegment p) bookId (ForRecord p) Available (ScanId env) (Locations db)) (\<lambda>locations.
      and_then (RecordInpxBookInserted (CoverStore env) (RelativePathUtf8 cover) (known_cover_size cover) (Statistics db)) (\<lambda>stats.
      and_then (ValidateCoverCacheBudget (MaxCoverCacheBytes env) stats) (\<lambda>_.
        Inr (write_result True p cover fallbacks, db\<lparr>Catalog := cat1, Locations := locations, Statistics := stats\<rparr>))))))"

definition write_existing :: "writer_env \<Rightarrow> SExistingInpxBook \<Rightarrow> parsed_record \<Rightarrow> scan_tables \<Rightarrow> session_error + SInpxRecordWriteResult \<times> scan_tables" where
  "write_existing env existing p db =
    and_then (UpdateInpxBook (RowIds env) (Nocase env) (ExistingBookId existing) (ForRecord p) (ParsedMetadata p) (Catalog db)) (\<lambda>(fallbacks, cat).
    and_then (CoverOutcome p) (\<lambda>cover.
      let cat1 = UpdateBookCoverPath (ExistingBookId existing) (RelativePathUtf8 cover) cat in
      and_then (UpsertInpxLocation (ForSegment p) (ExistingBookId existing) (ForRecord p) Available (ScanId env) (Locations db)) (\<lambda>locations.
      and_then (RecordCoverPathChanged (CoverStore env) (CatBooks cat1) (ExistingCoverPathUtf8 existing) (RelativePathUtf8 cover)
        (known_cover_size cover) (Statistics db)) (\<lambda>stats1.
      and_then (RecordInpxBookAvailabilityChanged (ExistingAvailabilityUtf8 existing) (availability_ToString Available) stats1) (\<lambda>stats2.
      and_then (ValidateCoverCacheBudget (MaxCoverCacheBytes env) stats2) (\<lambda>_.
        Inr (write_result False p cover fallbacks, db\<lparr>Catalog := cat1, Locations := locations, Statistics := stats2\<rparr>)))))))"

definition WriteParsedRecord :: "writer_env \<Rightarrow> parsed_record \<Rightarrow> scan_tables \<Rightarrow> session_error + SInpxRecordWriteResult \<times> scan_tables" where
  "WriteParsedRecord env p db =
    (case ReadExistingInpxBook (LibId (ForRecord p)) db of
       None \<Rightarrow> write_new env p db
     | Some existing \<Rightarrow> write_existing env existing p db)"

fun write_all :: "writer_env \<Rightarrow> parsed_record list \<Rightarrow> scan_tables \<Rightarrow> session_error + SInpxRecordWriteResult list \<times> scan_tables" where
  "write_all env [] db = Inr ([], db)"
| "write_all env (p # ps) db =
    and_then (WriteParsedRecord env p db) (\<lambda>(result, db1).
    and_then (write_all env ps db1) (\<lambda>(results, db2). Inr (result # results, db2)))"

section \<open>Finishing a scan\<close>

definition mark_absent :: "string \<Rightarrow> int \<Rightarrow> location_row list \<Rightarrow> location_row list" where
  "mark_absent scanId segmentId = map (\<lambda>l.
    if LocSegmentId l = segmentId \<and> LocPresent l \<and> LocScan l \<noteq> Some scanId
    then l\<lparr>LocPresent := False, LocScan := Some scanId\<rparr> else l)"

text \<open>\<open>EXISTS\<close> an available segment of this id, and \<open>EXISTS\<close> a deletion of the book by a later available segment.\<close>

definition in_available_segment :: "scan_tables \<Rightarrow> location_row \<Rightarrow> bool" where
  "in_available_segment db l = list_ex (\<lambda>s. SegmentId s = LocSegmentId l \<and> RowAvailability s = availability_ToString Available) (Segments db)"

definition deleted_later :: "scan_tables \<Rightarrow> location_row \<Rightarrow> bool" where
  "deleted_later db l =
    list_ex (\<lambda>(segment, libId). libId = LocLibId l \<and>
      list_ex (\<lambda>d. SegmentId d = segment \<and> RowAvailability d = availability_ToString Available \<and>
        list_ex (\<lambda>a. SegmentId a = LocSegmentId l \<and> RowOrder d > RowOrder a) (Segments db)) (Segments db)) (Deletions db)"

definition marked_unavailable :: "scan_tables \<Rightarrow> location_row \<Rightarrow> bool" where
  "marked_unavailable db l \<longleftrightarrow> LocAvailability l = availability_ToString Available
    \<and> (\<not> LocPresent l \<or> \<not> in_available_segment db l \<or> deleted_later db l)"

definition restored_available :: "scan_tables \<Rightarrow> location_row \<Rightarrow> bool" where
  "restored_available db l \<longleftrightarrow> LocAvailability l = availability_ToString MissingFromIndex
    \<and> LocPresent l \<and> in_available_segment db l \<and> \<not> deleted_later db l"

text \<open>An update of the availability of the rows that satisfy a condition, with the number of changed rows.\<close>

definition set_availability ::
  "(scan_tables \<Rightarrow> location_row \<Rightarrow> bool) \<Rightarrow> EInpxBookAvailability \<Rightarrow> string \<Rightarrow> scan_tables \<Rightarrow> nat \<times> scan_tables" where
  "set_availability condition availability scanId db =
    (length (filter (condition db) (Locations db)),
     db\<lparr>Locations := map (\<lambda>l. if condition db l
       then l\<lparr>LocAvailability := availability_ToString availability, LocScan := Some scanId\<rparr> else l) (Locations db)\<rparr>)"

record finish_input =
  FinishDisplayName :: string
  FinishFingerprint :: string
  FinishStartedAt :: string
  FinishCompletedAt :: string
  FinishSourceSize :: nat

text \<open>\<open>Finish\<close> up to the validation of the archives, which decides whether the transaction is committed.\<close>

definition finish_tables :: "string \<Rightarrow> finish_input \<Rightarrow> int list \<Rightarrow> scan_tables \<Rightarrow> session_error + nat \<times> scan_tables" where
  "finish_tables scanId input changedSegmentIds db =
    (let db1 = db\<lparr>Locations := foldl (\<lambda>locations segmentId. mark_absent scanId segmentId locations) (Locations db) changedSegmentIds\<rparr> in
     case set_availability marked_unavailable MissingFromIndex scanId db1 of (markedUnavailable, db2) \<Rightarrow>
     case set_availability restored_available Available scanId db2 of (restoredAvailable, db3) \<Rightarrow>
     and_then (AddUnavailableBooks markedUnavailable (Statistics db3)) (\<lambda>stats1.
     and_then (RemoveUnavailableBooks restoredAvailable stats1) (\<lambda>stats2.
     and_then (SetInpxSourceSize (FinishSourceSize input) stats2) (\<lambda>stats3.
       Inr (markedUnavailable, db3\<lparr>Statistics := stats3,
         Source := UpdateInpxSourceRow (FinishDisplayName input) (FinishFingerprint input) (FinishStartedAt input)
           (FinishCompletedAt input) scanId (Source db3)\<rparr>)))))"

definition needs_scan :: "SInpxSegmentPlan \<Rightarrow> bool" where
  "needs_scan plan \<longleftrightarrow> Change plan = SegmentAdded \<or> Change plan = SegmentChanged"

definition changed_ids :: "SInpxSegmentPlan list \<Rightarrow> int list \<Rightarrow> int list" where
  "changed_ids plans segmentIds = map snd (filter (\<lambda>(plan, _). needs_scan plan) (zip plans segmentIds))"

end
