(* ===== verification/Stored_Books.thy ===== *)
theory Stored_Books
  imports Search_Documents
begin

text \<open>
  What the catalog keeps of the books it is given: every sequence of inserts and updates leaves each book with the
  names of its last metadata, each once, and the full-text table with one document per book.
\<close>

section \<open>Replacing the relations of a book\<close>

definition relations_ok :: "book_relations \<Rightarrow> bool" where
  "relations_ok r \<longleftrightarrow> relation_ok (BookAuthors r) \<and> relation_ok (BookTags r) \<and> relation_ok (BookGenres r)"

definition names_kept :: "int \<Rightarrow> string list \<Rightarrow> 'x relation \<Rightarrow> bool" where
  "names_kept b names r \<longleftrightarrow> join_entities NormalizedName (Entities r) (book_links b r) = fresh_names [] names"

definition authors_ordered :: "int \<Rightarrow> nat relation \<Rightarrow> bool" where
  "authors_ordered b r \<longleftrightarrow> sorted (map (\<lambda>(_, _, x). x) (book_links b r))"

definition relations_describe :: "SBookMetadata \<Rightarrow> int \<Rightarrow> book_relations \<Rightarrow> bool" where
  "relations_describe m b r \<longleftrightarrow> names_kept b (MetaAuthorsUtf8 m) (BookAuthors r) \<and> authors_ordered b (BookAuthors r)
    \<and> names_kept b (MetaTagsUtf8 m) (BookTags r) \<and> names_kept b (MetaGenresUtf8 m) (BookGenres r)"

text \<open>What the reads of a book see of a relation.\<close>

definition same_book :: "int \<Rightarrow> 'x relation \<Rightarrow> 'x relation \<Rightarrow> bool" where
  "same_book c r r' \<longleftrightarrow> book_links c r' = book_links c r
    \<and> (\<forall>column links. set links \<subseteq> set (book_links c r) \<longrightarrow> join_entities column (Entities r') links = join_entities column (Entities r) links)"

definition same_relations :: "int \<Rightarrow> book_relations \<Rightarrow> book_relations \<Rightarrow> bool" where
  "same_relations c r r' \<longleftrightarrow> same_book c (BookAuthors r) (BookAuthors r') \<and> same_book c (BookTags r) (BookTags r')
    \<and> same_book c (BookGenres r) (BookGenres r')"

lemma replaced_parts:
  "replaced b names r r' \<Longrightarrow> relation_ok r' \<and> names_kept b names r' \<and> (\<forall>c. c \<noteq> b \<longrightarrow> same_book c r r')"
  by (auto simp: replaced_def names_kept_def same_book_def)

lemma ReplaceBookRelations_ok:
  assumes "relations_ok r" "new_rowids rowid"
  obtains r' where "ReplaceBookRelations rowid b m r = Inr r'" "relations_ok r'" "relations_describe m b r'"
    "\<And>c. c \<noteq> b \<Longrightarrow> same_relations c r r'"
proof -
  have ok: "relation_ok (BookAuthors r)" "relation_ok (BookTags r)" "relation_ok (BookGenres r)"
    using assms(1) by (simp_all add: relations_ok_def)
  obtain a js where a: "InsertAuthors rowid b (MetaAuthorsUtf8 m) (delete_links b (BookAuthors r)) = Inr a"
    "replaced b (MetaAuthorsUtf8 m) (BookAuthors r) a" "map (\<lambda>(_, _, x). x) (book_links b a) = map (\<lambda>x. x) js" "sorted js"
    unfolding InsertAuthors_def by (rule relate_loop_replaced [OF ok(1) assms(2)])
  obtain t where t: "InsertTags rowid b (MetaTagsUtf8 m) (delete_links b (BookTags r)) = Inr t" "replaced b (MetaTagsUtf8 m) (BookTags r) t"
    unfolding InsertTags_def by (rule relate_loop_replaced [OF ok(2) assms(2)])
  obtain g where g: "InsertGenres rowid b (MetaGenresUtf8 m) (delete_links b (BookGenres r)) = Inr g" "replaced b (MetaGenresUtf8 m) (BookGenres r) g"
    unfolding InsertGenres_def by (rule relate_loop_replaced [OF ok(3) assms(2)])
  let ?r = "\<lparr>BookAuthors = a, BookTags = t, BookGenres = g\<rparr>"
  note parts = replaced_parts [OF a(2)] replaced_parts [OF t(2)] replaced_parts [OF g(2)]
  show ?thesis
  proof
    show "ReplaceBookRelations rowid b m r = Inr ?r" by (simp add: ReplaceBookRelations_def a(1) t(1) g(1))
    show "relations_ok ?r" using parts by (simp add: relations_ok_def)
    show "relations_describe m b ?r" using parts a(3,4) by (simp add: relations_describe_def authors_ordered_def)
    show "same_relations c r ?r" if "c \<noteq> b" for c using parts that by (simp add: same_relations_def)
  qed
qed

lemma stored_authors_describe:
  assumes "relations_ok r" "relations_describe m b r"
  shows "map NormalizeText (stored_authors b (BookAuthors r)) = fresh_names [] (MetaAuthorsUtf8 m)"
  using assms
  by (simp add: stored_authors_def relations_ok_def relation_ok_def relations_describe_def names_kept_def authors_ordered_def
      sorted_author_links join_normalized)

definition permutes :: "(string list \<Rightarrow> string list) \<Rightarrow> bool" where
  "permutes nocase \<longleftrightarrow> (\<forall>xs. mset (nocase xs) = mset xs)"

lemma stored_names_describe:
  assumes "relation_ok r" "names_kept b names r" "permutes nocase"
  shows "mset (map NormalizeText (stored_names nocase b r)) = mset (fresh_names [] names)"
proof -
  have "map NormalizeText (join_entities DisplayName (Entities r) (book_links b r)) = fresh_names [] names"
    using assms(1,2) by (simp add: relation_ok_def names_kept_def join_normalized)
  then show ?thesis using assms(3) unfolding permutes_def stored_names_def by (metis mset_map)
qed

lemma same_relations_reads:
  assumes "same_relations c r r'"
  shows "stored_authors c (BookAuthors r') = stored_authors c (BookAuthors r)"
    and "stored_names nocase c (BookTags r') = stored_names nocase c (BookTags r)"
    and "stored_names nocase c (BookGenres r') = stored_names nocase c (BookGenres r)"
    and "relations_describe m c r' = relations_describe m c r"
  using assms
  by (simp_all add: same_relations_def same_book_def stored_authors_def stored_names_def relations_describe_def names_kept_def
      authors_ordered_def)

section \<open>The documents\<close>

text \<open>The length of a joined text tells how many characters its parts have, so dropping a part changes it.\<close>

definition weight :: "string list \<Rightarrow> nat" where
  "weight ns = sum_list (map (\<lambda>n. length n + 1) ns)"

lemma join_words_from:
  "joined \<noteq> [] \<Longrightarrow> [] \<notin> set ns \<Longrightarrow>
   length (foldl (\<lambda>joined n. (if joined \<noteq> [] then joined @ '' '' else joined) @ n) joined ns) = length joined + weight ns"
  by (induction ns arbitrary: joined) (auto simp: weight_def)

lemma length_join_words: "[] \<notin> set ns \<Longrightarrow> length (join_words ns) = weight ns - 1"
  by (cases ns) (auto simp: join_words_def join_words_from weight_def)

lemma weight_pos: "[] \<notin> set ns \<Longrightarrow> weight ns = 0 \<or> 2 \<le> weight ns"
  by (cases ns) (auto simp: weight_def Suc_le_eq)

lemma join_words_weight: "[] \<notin> set ms \<Longrightarrow> [] \<notin> set ns \<Longrightarrow> join_words ms = join_words ns \<Longrightarrow> weight ms = weight ns"
  using length_join_words [of ms] length_join_words [of ns] weight_pos [of ms] weight_pos [of ns] by auto

lemma weight_mset: "mset ms = mset ns \<Longrightarrow> weight ms = weight ns"
  unfolding weight_def sum_mset_sum_list [symmetric] mset_map by simp

fun keep_new :: "string list \<Rightarrow> string list \<Rightarrow> string list" where
  "keep_new seen [] = []"
| "keep_new seen (n # ns) = (if n \<in> set seen then keep_new seen ns else n # keep_new (n # seen) ns)"

lemma fresh_names_keep_new: "fresh_names seen names = keep_new seen (normalized_values names)"
  by (induction names arbitrary: seen) (auto simp: normalized_values_def Let_def)

lemma keep_new_le: "weight (keep_new seen ns) \<le> weight ns"
proof (induction ns arbitrary: seen)
  case (Cons n ns)
  show ?case using Cons.IH [of seen] Cons.IH [of "n # seen"] by (simp add: weight_def)
qed simp

lemma keep_new_all: "distinct ns \<Longrightarrow> set ns \<inter> set seen = {} \<Longrightarrow> keep_new seen ns = ns"
  by (induction ns arbitrary: seen) auto

lemma keep_new_less: "weight (keep_new seen ns) = weight ns \<Longrightarrow> distinct ns \<and> set ns \<inter> set seen = {}"
proof (induction ns arbitrary: seen)
  case (Cons n ns)
  show ?case
  proof (cases "n \<in> set seen")
    case True
    then show ?thesis using Cons.prems keep_new_le [of seen ns] by (simp add: weight_def)
  next
    case False
    then have "weight (keep_new (n # seen) ns) = weight ns" using Cons.prems by (simp add: weight_def)
    then show ?thesis using Cons.IH [of "n # seen"] False by auto
  qed
qed simp

lemma fresh_names_nonempty: "[] \<notin> set (fresh_names seen names)"
  by (induction seen names rule: fresh_names.induct) (auto simp: Let_def)

lemma fresh_names_filter: "mset (map NormalizeText stored) = mset (fresh_names [] names) \<Longrightarrow> mset (normalized_values stored) = mset (fresh_names [] names)"
proof -
  assume m: "mset (map NormalizeText stored) = mset (fresh_names [] names)"
  then have "[] \<notin> set (map NormalizeText stored)" using fresh_names_nonempty mset_eq_setD by metis
  then have "normalized_values stored = map NormalizeText stored" by (auto simp: normalized_values_def filter_id_conv image_iff)
  with m show ?thesis by simp
qed

lemma join_values_equal:
  assumes "mset (map NormalizeText stored) = mset (fresh_names [] names)"
    and "\<not> sortValues \<longrightarrow> map NormalizeText stored = fresh_names [] names"
  shows "JoinNormalizedText stored sortValues = JoinNormalizedText names sortValues \<longleftrightarrow> distinct (normalized_values names)"
proof -
  note m = fresh_names_filter [OF assms(1)]
  have ne: "[] \<notin> set (normalized_values ns)" for ns by (simp add: normalized_values_def)
  show ?thesis
  proof
    assume "distinct (normalized_values names)"
    then have f: "fresh_names [] names = normalized_values names" by (simp add: fresh_names_keep_new keep_new_all)
    show "JoinNormalizedText stored sortValues = JoinNormalizedText names sortValues"
    proof (cases sortValues)
      case True
      then show ?thesis using m f by (simp add: JoinNormalizedText_def) (metis sorted_list_of_multiset_mset)
    next
      case False
      then have "map NormalizeText stored = normalized_values names" using assms(2) f by simp
      then have "normalized_values stored = normalized_values names" using ne [of names] by (simp add: normalized_values_def filter_id_conv)
      then show ?thesis by (simp add: JoinNormalizedText_def)
    qed
  next
    assume j: "JoinNormalizedText stored sortValues = JoinNormalizedText names sortValues"
    have "weight (normalized_values stored) = weight (normalized_values names)"
    proof (cases sortValues)
      case True
      then have "weight (sort (normalized_values stored)) = weight (sort (normalized_values names))"
        using j ne by (intro join_words_weight) (simp_all add: JoinNormalizedText_def)
      then show ?thesis using weight_mset [of "sort (normalized_values stored)"] weight_mset [of "sort (normalized_values names)"] by simp
    next
      case False
      then show ?thesis using j ne by (intro join_words_weight) (simp_all add: JoinNormalizedText_def)
    qed
    then show "distinct (normalized_values names)" 
      using weight_mset [OF m] keep_new_less [of "[]" "normalized_values names"] by (simp add: fresh_names_keep_new)
  qed
qed

section \<open>Every history of a catalog\<close>

definition describes :: "SBookMetadata \<Rightarrow> int \<Rightarrow> catalog \<Rightarrow> bool" where
  "describes m b cat \<longleftrightarrow> relations_describe m b (CatRelations cat)
    \<and> (case map_of (CatBooks cat) b of
         None \<Rightarrow> False
       | Some row \<Rightarrow> RowMetadata row = stored_columns m \<and> RowNormalizedTitle row = NormalizeText (MetaTitleUtf8 m))"

definition last_command :: "int \<Rightarrow> catalog \<Rightarrow> index_command option" where
  "last_command b cat = find (\<lambda>c. command_book c = b) (rev (CatIndex cat))"

definition indexed_as :: "SBookMetadata \<Rightarrow> int \<Rightarrow> catalog \<Rightarrow> bool" where
  "indexed_as m b cat \<longleftrightarrow> last_command b cat = Some (IndexInsert b (BuildNormalizedSearchDocument m))"

definition catalog_ok :: "catalog \<Rightarrow> bool" where
  "catalog_ok cat \<longleftrightarrow> relations_ok (CatRelations cat)
    \<and> (\<forall>b \<in> set (map fst (CatBooks cat)). \<exists>m. describes m b cat \<and> indexed_as m b cat)"

definition new_catalog :: catalog where
  "new_catalog = \<lparr>CatBooks = [],
     CatRelations = \<lparr>BookAuthors = \<lparr>Entities = [], Links = []\<rparr>, BookTags = \<lparr>Entities = [], Links = []\<rparr>,
       BookGenres = \<lparr>Entities = [], Links = []\<rparr>\<rparr>, CatIndex = []\<rparr>"

inductive catalog_step :: "rowids \<Rightarrow> (string list \<Rightarrow> string list) \<Rightarrow> catalog \<Rightarrow> catalog \<Rightarrow> bool" for rowid nocase where
  insert: "InsertInpxBook rowid inpxRecord parsedBook addedAtUtc cat = Inr (b, fallbacks, cat') \<Longrightarrow> catalog_step rowid nocase cat cat'"
| update: "UpdateInpxBook rowid nocase b inpxRecord parsedBook cat = Inr (fallbacks, cat') \<Longrightarrow> catalog_step rowid nocase cat cat'"
| cover: "catalog_step rowid nocase cat (UpdateBookCoverPath b cover cat)"

lemma map_of_update_rows:
  "map_of (update_rows b f rows) c = (if c = b then map_option f (map_of rows b) else map_of rows c)"
  by (induction rows) (auto simp: update_rows_def)

lemma fst_update_rows [simp]: "map fst (update_rows b f rows) = map fst rows"
  by (induction rows) (auto simp: update_rows_def)

lemma last_command_simps:
  "last_command c \<lparr>CatBooks = bs, CatRelations = rs, CatIndex = InsertBook b m index\<rparr> =
    (if c = b then Some (IndexInsert b (BuildNormalizedSearchDocument m)) else last_command c \<lparr>CatBooks = bs, CatRelations = rs, CatIndex = index\<rparr>)"
  "c \<noteq> b \<Longrightarrow> last_command c \<lparr>CatBooks = bs, CatRelations = rs, CatIndex = RemoveBook b m index\<rparr> =
     last_command c \<lparr>CatBooks = bs, CatRelations = rs, CatIndex = index\<rparr>"
  by (simp_all add: last_command_def InsertBook_def RemoveBook_def)

text \<open>Both operations, seen from a book.\<close>

definition stores :: "SBookMetadata \<Rightarrow> int \<Rightarrow> catalog \<Rightarrow> catalog \<Rightarrow> bool" where
  "stores m b cat cat' \<longleftrightarrow> relations_ok (CatRelations cat') \<and> describes m b cat' \<and> indexed_as m b cat'
    \<and> set (map fst (CatBooks cat')) = insert b (set (map fst (CatBooks cat)))
    \<and> (\<forall>c. c \<noteq> b \<longrightarrow> same_relations c (CatRelations cat) (CatRelations cat') \<and> map_of (CatBooks cat') c = map_of (CatBooks cat) c
         \<and> last_command c cat' = last_command c cat)"

lemma insert_stores:
  assumes "relations_ok (CatRelations cat)" "new_rowids rowid"
  obtains b cat' where "InsertInpxBook rowid i p t cat = Inr (b, snd (BuildStoredMetadata i p), cat')"
    "b \<notin> set (map fst (CatBooks cat))" "stores (fst (BuildStoredMetadata i p)) b cat cat'"
proof -
  obtain m f where m: "BuildStoredMetadata i p = (m, f)" by (cases "BuildStoredMetadata i p")
  let ?b = "rowid (map fst (CatBooks cat))"
  have b: "?b \<notin> set (map fst (CatBooks cat))" using assms(2) unfolding new_rowids_def by blast
  obtain r where r: "ReplaceBookRelations rowid ?b m (CatRelations cat) = Inr r" "relations_ok r" "relations_describe m ?b r"
    "\<And>c. c \<noteq> ?b \<Longrightarrow> same_relations c (CatRelations cat) r"
    by (rule ReplaceBookRelations_ok [OF assms, of ?b m]) blast
  let ?row = "BindStoredBookMetadata m \<lparr>RowMetadata = m, RowNormalizedTitle = [], RowCoverPath = None, RowAddedAtUtc = SerializeTimePoint t\<rparr>"
  let ?cat = "\<lparr>CatBooks = CatBooks cat @ [(?b, ?row)], CatRelations = r, CatIndex = InsertBook ?b m (CatIndex cat)\<rparr>"
  have none: "map_of (CatBooks cat) ?b = None" using b by (simp add: map_of_eq_None_iff)
  have "InsertInpxBook rowid i p t cat = Inr (?b, f, ?cat)" by (simp add: InsertInpxBook_def m r(1) Let_def)
  moreover have "describes m ?b ?cat" using r(3) none by (simp add: describes_def map_add_def BindStoredBookMetadata_def)
  moreover have "indexed_as m ?b ?cat" by (simp add: indexed_as_def last_command_simps)
  moreover have "last_command c ?cat = last_command c cat" if "c \<noteq> ?b" for c
    using that by (simp add: last_command_simps) (simp add: last_command_def)
  moreover have "map_of (CatBooks ?cat) c = map_of (CatBooks cat) c" if "c \<noteq> ?b" for c
    using that by (simp add: map_add_def split: option.split)
  ultimately have "stores m ?b cat ?cat" using r(2,4) by (simp add: stores_def)
  then show ?thesis using that [of ?b ?cat] b m by (simp add: InsertInpxBook_def r(1) Let_def)
qed

lemma update_stores:
  assumes "relations_ok (CatRelations cat)" "new_rowids rowid" "ReadStoredMetadata nocase b cat = Some old"
  obtains cat' where "UpdateInpxBook rowid nocase b i p cat = Inr (snd (BuildStoredMetadata i p), cat')"
    "stores (fst (BuildStoredMetadata i p)) b cat cat'"
    "CatIndex cat' = CatIndex cat @ [IndexDelete b (BuildNormalizedSearchDocument old),
       IndexInsert b (BuildNormalizedSearchDocument (fst (BuildStoredMetadata i p)))]"
proof -
  obtain m f where m: "BuildStoredMetadata i p = (m, f)" by (cases "BuildStoredMetadata i p")
  obtain r where r: "ReplaceBookRelations rowid b m (CatRelations cat) = Inr r" "relations_ok r" "relations_describe m b r"
    "\<And>c. c \<noteq> b \<Longrightarrow> same_relations c (CatRelations cat) r"
    by (rule ReplaceBookRelations_ok [OF assms(1,2), of b m]) blast
  let ?cat = "\<lparr>CatBooks = update_rows b (BindStoredBookMetadata m) (CatBooks cat), CatRelations = r,
    CatIndex = InsertBook b m (RemoveBook b old (CatIndex cat))\<rparr>"
  obtain row where row: "map_of (CatBooks cat) b = Some row" using assms(3) by (auto simp: ReadStoredMetadata_def split: option.splits)
  then have mem: "b \<in> set (map fst (CatBooks cat))" by (force dest: map_of_SomeD)
  have "describes m b ?cat" using r(3) row by (simp add: describes_def map_of_update_rows BindStoredBookMetadata_def)
  moreover have "indexed_as m b ?cat" by (simp add: indexed_as_def last_command_simps)
  moreover have "last_command c ?cat = last_command c cat" if "c \<noteq> b" for c
    using that by (simp add: last_command_simps) (simp add: last_command_def)
  moreover have "set (map fst (CatBooks ?cat)) = insert b (set (map fst (CatBooks cat)))" using mem by (auto simp del: set_map)
  ultimately have "stores m b cat ?cat" using r(2,4) by (simp add: stores_def map_of_update_rows del: set_map)
  then show ?thesis
    using that [of ?cat] m by (simp add: UpdateInpxBook_def assms(3) r(1) InsertBook_def RemoveBook_def)
qed

lemma stores_ok:
  assumes "stores m b cat cat'" "catalog_ok cat"
  shows "catalog_ok cat'"
proof -
  have "\<exists>m'. describes m' c cat' \<and> indexed_as m' c cat'" if c: "c \<in> set (map fst (CatBooks cat'))" for c
  proof (cases "c = b")
    case True
    then show ?thesis using assms(1) unfolding stores_def by blast
  next
    case False
    then have "c \<in> set (map fst (CatBooks cat))" using c assms(1) unfolding stores_def by blast
    then obtain m' where m': "describes m' c cat" "indexed_as m' c cat" using assms(2) unfolding catalog_ok_def by blast
    have "same_relations c (CatRelations cat) (CatRelations cat')" "map_of (CatBooks cat') c = map_of (CatBooks cat) c"
      "last_command c cat' = last_command c cat" using assms(1) False unfolding stores_def by blast+
    then have "describes m' c cat'" "indexed_as m' c cat'"
      using m' by (simp_all add: describes_def indexed_as_def same_relations_reads(4))
    then show ?thesis by blast
  qed
  then show ?thesis using assms(1) unfolding catalog_ok_def stores_def by blast
qed

lemma catalog_ok_cover: "catalog_ok cat \<Longrightarrow> catalog_ok (UpdateBookCoverPath b cover cat)"
proof -
  assume ok: "catalog_ok cat"
  have "describes m c (UpdateBookCoverPath b cover cat) = describes m c cat"
    "indexed_as m c (UpdateBookCoverPath b cover cat) = indexed_as m c cat" for m c
    by (simp_all add: describes_def indexed_as_def last_command_def UpdateBookCoverPath_def map_of_update_rows split: option.split)
  then show ?thesis using ok by (simp add: catalog_ok_def UpdateBookCoverPath_def del: set_map)
qed

lemma catalog_ok_step: "catalog_step rowid nocase cat cat' \<Longrightarrow> new_rowids rowid \<Longrightarrow> catalog_ok cat \<Longrightarrow> catalog_ok cat'"
proof (induction rule: catalog_step.induct)
  case (insert i p t cat b f cat')
  have rel: "relations_ok (CatRelations cat)" using insert.prems(2) by (simp add: catalog_ok_def)
  obtain c cat2 where "InsertInpxBook rowid i p t cat = Inr (c, snd (BuildStoredMetadata i p), cat2)"
    "stores (fst (BuildStoredMetadata i p)) c cat cat2"
    by (rule insert_stores [OF rel insert.prems(1)]) blast
  then show ?case using insert.hyps stores_ok insert.prems(2) by simp
next
  case (update b i p cat f cat')
  have rel: "relations_ok (CatRelations cat)" using update.prems(2) by (simp add: catalog_ok_def)
  obtain old where old: "ReadStoredMetadata nocase b cat = Some old"
    using update.hyps by (cases "ReadStoredMetadata nocase b cat") (simp_all add: UpdateInpxBook_def)
  obtain cat2 where "UpdateInpxBook rowid nocase b i p cat = Inr (snd (BuildStoredMetadata i p), cat2)"
    "stores (fst (BuildStoredMetadata i p)) b cat cat2"
    by (rule update_stores [OF rel update.prems(1) old]) blast
  then show ?case using update.hyps stores_ok update.prems(2) by simp
next
  case (cover cat b c)
  then show ?case by (intro catalog_ok_cover)
qed

interpretation stored_books: state_machine "\<lambda>cat. cat = new_catalog" "\<lambda>s t. new_rowids rowid \<and> catalog_step rowid nocase s t" catalog_ok
  for rowid nocase
  by unfold_locales
    (simp add: new_catalog_def catalog_ok_def relations_ok_def relation_ok_def entities_ok_def links_ok_def, blast intro: catalog_ok_step)

lemma reachable_catalog_ok:
  assumes "new_rowids rowid" "(catalog_step rowid nocase)\<^sup>*\<^sup>* new_catalog cat"
  shows "catalog_ok cat"
proof -
  have "(\<lambda>s t. new_rowids rowid \<and> catalog_step rowid nocase s t) = catalog_step rowid nocase" using assms(1) by (simp add: fun_eq_iff)
  then show ?thesis using stored_books.reachable_inv [OF refl, of rowid nocase cat] assms(2) by simp
qed

lemma store_stores:
  assumes "relations_ok (CatRelations cat)" "new_rowids rowid" "BuildStoredMetadata i p = (m, f')"
    and "InsertInpxBook rowid i p t cat = Inr (b, f, cat') \<or> UpdateInpxBook rowid nocase b i p cat = Inr (f, cat')"
  shows "stores m b cat cat'"
proof (cases "InsertInpxBook rowid i p t cat = Inr (b, f, cat')")
  case True
  then show ?thesis using assms(3) by (auto intro: insert_stores [OF assms(1,2), of i p t])
next
  case False
  then have u: "UpdateInpxBook rowid nocase b i p cat = Inr (f, cat')" using assms(4) by blast
  then obtain old where "ReadStoredMetadata nocase b cat = Some old"
    by (cases "ReadStoredMetadata nocase b cat") (simp_all add: UpdateInpxBook_def)
  then show ?thesis using u assms(3) by (auto intro: update_stores [OF assms(1,2), of nocase b old i p])
qed

text \<open>C16: Adding or replacing a book in any catalog that the scan has built stores what it was given and nothing else changes:
  reading the book back gives the columns of its metadata, the ISBN in its canonical form and the series index unless it is not a
  number (SQLite has no such value, and one zero), the authors in order and the tags and genres in some order, each name once
  under its search key and none without one; every other book reads as before.\<close>

theorem stored_book_reads_back:
  assumes rowid: "new_rowids rowid" and nocase: "permutes nocase" and reach: "(catalog_step rowid nocase)\<^sup>*\<^sup>* new_catalog cat"
    and step: "InsertInpxBook rowid i p t cat = Inr (b, f, cat') \<or> UpdateInpxBook rowid nocase b i p cat = Inr (f, cat')"
    and m: "BuildStoredMetadata i p = (m, f')"
  shows "(case ReadStoredMetadata nocase b cat' of
      None \<Rightarrow> False
    | Some old \<Rightarrow> [MetaTitleUtf8 old, MetaLanguage old] = [MetaTitleUtf8 m, MetaLanguage m]
        \<and> [MetaSeriesUtf8 old, MetaPublisherUtf8 old, MetaDescriptionUtf8 old, MetaIdentifier old]
            = [MetaSeriesUtf8 m, MetaPublisherUtf8 m, MetaDescriptionUtf8 m, MetaIdentifier m]
        \<and> MetaYear old = MetaYear m \<and> MetaIsbn old = NormalizeIsbn (MetaIsbn m)
        \<and> MetaSeriesIndex old = (case MetaSeriesIndex m of
             None \<Rightarrow> None | Some d \<Rightarrow> if is_nan d then None else Some (if d = 2 ^ 63 then 0 else d))
        \<and> map NormalizeText (MetaAuthorsUtf8 old) = fresh_names [] (MetaAuthorsUtf8 m)
        \<and> mset (map NormalizeText (MetaTagsUtf8 old)) = mset (fresh_names [] (MetaTagsUtf8 m))
        \<and> mset (map NormalizeText (MetaGenresUtf8 old)) = mset (fresh_names [] (MetaGenresUtf8 m)))
    \<and> (\<forall>c. c \<noteq> b \<longrightarrow> ReadStoredMetadata nocase c cat' = ReadStoredMetadata nocase c cat)"
proof -
  have rel: "relations_ok (CatRelations cat)" using reachable_catalog_ok [OF rowid reach] by (simp add: catalog_ok_def)
  have st: "stores m b cat cat'" using store_stores [OF rel rowid m step] .
  then have ok: "relations_ok (CatRelations cat')" and d: "describes m b cat'"
    and other: "\<And>c. c \<noteq> b \<Longrightarrow> same_relations c (CatRelations cat) (CatRelations cat') \<and> map_of (CatBooks cat') c = map_of (CatBooks cat) c"
    unfolding stores_def by blast+
  have "ReadStoredMetadata nocase c cat' = ReadStoredMetadata nocase c cat" if "c \<noteq> b" for c
    using other [OF that] same_relations_reads [OF conjunct1 [OF other [OF that]]]
    by (simp add: ReadStoredMetadata_def split: option.split)
  moreover obtain row where row: "map_of (CatBooks cat') b = Some row" "RowMetadata row = stored_columns m"
    using d by (auto simp: describes_def split: option.splits)
  moreover have rd: "relations_describe m b (CatRelations cat')" using d by (simp add: describes_def)
  ultimately show ?thesis
    using stored_authors_describe [OF ok rd] stored_names_describe [OF _ _ nocase] ok
    by (simp add: ReadStoredMetadata_def relations_ok_def relations_describe_def stored_columns_def stored_double_def split: option.split)
qed

text \<open>The document of a book as it is read back.\<close>

lemma stored_document_parts:
  assumes rel: "relations_ok (CatRelations cat)" and d: "describes m b cat" and nocase: "permutes nocase"
    and old: "ReadStoredMetadata nocase b cat = Some old"
  shows "DocTitle (BuildNormalizedSearchDocument old) = NormalizeText (MetaTitleUtf8 m)"
    and "DocDescription (BuildNormalizedSearchDocument old) = BuildNormalizedDescription (MetaDescriptionUtf8 m)"
    and "DocAuthors (BuildNormalizedSearchDocument old) = join_words (fresh_names [] (MetaAuthorsUtf8 m))"
    and "DocTags (BuildNormalizedSearchDocument old) = join_words (sort (fresh_names [] (MetaTagsUtf8 m)))"
    and "DocGenres (BuildNormalizedSearchDocument old) = join_words (sort (fresh_names [] (MetaGenresUtf8 m)))"
    and "BuildNormalizedSearchDocument old = BuildNormalizedSearchDocument m \<longleftrightarrow>
      list_all (\<lambda>names. distinct (normalized_values names)) [MetaAuthorsUtf8 m, MetaTagsUtf8 m, MetaGenresUtf8 m]"
proof -
  obtain row where row: "map_of (CatBooks cat) b = Some row" using old by (auto simp: ReadStoredMetadata_def split: option.splits)
  then have rd: "relations_describe m b (CatRelations cat)" and c: "RowMetadata row = stored_columns m"
    using d by (simp_all add: describes_def)
  note a = stored_authors_describe [OF rel rd]
  have t: "mset (map NormalizeText (MetaTagsUtf8 old)) = mset (fresh_names [] (MetaTagsUtf8 m))"
    and g: "mset (map NormalizeText (MetaGenresUtf8 old)) = mset (fresh_names [] (MetaGenresUtf8 m))"
    and au: "map NormalizeText (MetaAuthorsUtf8 old) = fresh_names [] (MetaAuthorsUtf8 m)"
    and td: "MetaTitleUtf8 old = MetaTitleUtf8 m" "MetaDescriptionUtf8 old = MetaDescriptionUtf8 m"
    using old row c a stored_names_describe [OF _ _ nocase] rel rd
    by (auto simp: ReadStoredMetadata_def relations_ok_def relations_describe_def stored_columns_def)
  show "BuildNormalizedSearchDocument old = BuildNormalizedSearchDocument m \<longleftrightarrow>
      list_all (\<lambda>names. distinct (normalized_values names)) [MetaAuthorsUtf8 m, MetaTagsUtf8 m, MetaGenresUtf8 m]"
    using join_values_equal [of "MetaAuthorsUtf8 old" "MetaAuthorsUtf8 m" False] join_values_equal [OF t, of True]
      join_values_equal [OF g, of True] au td by (simp add: BuildNormalizedSearchDocument_def)
  have "sort (normalized_values (MetaTagsUtf8 old)) = sort (fresh_names [] (MetaTagsUtf8 m))"
    "sort (normalized_values (MetaGenresUtf8 old)) = sort (fresh_names [] (MetaGenresUtf8 m))"
    using fresh_names_filter [OF t] fresh_names_filter [OF g] by (metis sorted_list_of_multiset_mset)+
  moreover have "[] \<notin> set (map NormalizeText (MetaAuthorsUtf8 old))" unfolding au by (rule fresh_names_nonempty)
  then have "normalized_values (MetaAuthorsUtf8 old) = fresh_names [] (MetaAuthorsUtf8 m)"
    unfolding au [symmetric] by (auto simp: normalized_values_def filter_id_conv image_iff)
  ultimately show "DocTitle (BuildNormalizedSearchDocument old) = NormalizeText (MetaTitleUtf8 m)"
    "DocDescription (BuildNormalizedSearchDocument old) = BuildNormalizedDescription (MetaDescriptionUtf8 m)"
    "DocAuthors (BuildNormalizedSearchDocument old) = join_words (fresh_names [] (MetaAuthorsUtf8 m))"
    "DocTags (BuildNormalizedSearchDocument old) = join_words (sort (fresh_names [] (MetaTagsUtf8 m)))"
    "DocGenres (BuildNormalizedSearchDocument old) = join_words (sort (fresh_names [] (MetaGenresUtf8 m)))"
    using td by (simp_all add: BuildNormalizedSearchDocument_def JoinNormalizedText_def)
qed

text \<open>Steps of a scan on the other books.\<close>

inductive other_step :: "rowids \<Rightarrow> (string list \<Rightarrow> string list) \<Rightarrow> int \<Rightarrow> catalog \<Rightarrow> catalog \<Rightarrow> bool" for rowid nocase b where
  insert: "InsertInpxBook rowid inpxRecord parsedBook addedAtUtc cat = Inr (c, fallbacks, cat') \<Longrightarrow> c \<noteq> b \<Longrightarrow> other_step rowid nocase b cat cat'"
| update: "UpdateInpxBook rowid nocase c inpxRecord parsedBook cat = Inr (fallbacks, cat') \<Longrightarrow> c \<noteq> b \<Longrightarrow> other_step rowid nocase b cat cat'"
| cover: "other_step rowid nocase b cat (UpdateBookCoverPath c cover cat)"

lemma describes_cover:
  "describes m c (UpdateBookCoverPath b cover cat) = describes m c cat"
  "indexed_as m c (UpdateBookCoverPath b cover cat) = indexed_as m c cat"
  by (simp_all add: describes_def indexed_as_def last_command_def UpdateBookCoverPath_def map_of_update_rows split: option.split)

lemma stores_other:
  assumes "stores m' c cat cat'" "c \<noteq> b" "describes m b cat" "indexed_as m b cat"
  shows "relations_ok (CatRelations cat') \<and> describes m b cat' \<and> indexed_as m b cat'"
proof -
  have "same_relations b (CatRelations cat) (CatRelations cat')" "map_of (CatBooks cat') b = map_of (CatBooks cat) b"
    "last_command b cat' = last_command b cat" "relations_ok (CatRelations cat')"
    using assms(1) assms(2) [symmetric] unfolding stores_def by blast+
  then show ?thesis using assms(3,4) by (simp add: describes_def indexed_as_def same_relations_reads(4))
qed

lemma other_steps_keep:
  assumes "(other_step rowid nocase b)\<^sup>*\<^sup>* cat cat'" "new_rowids rowid"
    and "relations_ok (CatRelations cat) \<and> describes m b cat \<and> indexed_as m b cat"
  shows "relations_ok (CatRelations cat') \<and> describes m b cat' \<and> indexed_as m b cat'"
  using assms(1,3)
proof (induction rule: rtranclp_induct)
  case (step x y)
  from step.hyps(2) step.IH [OF step.prems] show ?case
  proof cases
    case (insert i p t c f)
    then show ?thesis using stores_other [OF store_stores [OF _ assms(2) prod.collapse [symmetric] disjI1]] step.IH [OF step.prems] by blast
  next
    case (update c i p f)
    then show ?thesis using stores_other [OF store_stores [OF _ assms(2) prod.collapse [symmetric] disjI2]] step.IH [OF step.prems] by blast
  next
    case (cover c d)
    then show ?thesis using step.IH [OF step.prems] describes_cover by (simp add: UpdateBookCoverPath_def)
  qed
qed

text \<open>C17: When a scan replaces a book, the full-text document that it deletes is the one it had inserted exactly if no two
  authors, no two tags and no two genres of the book had the same search key: the deleted document names each once, the inserted
  one as often as the metadata did. Whatever happens to other books in between does not matter.\<close>

theorem index_delete_matches_insert:
  assumes rowid: "new_rowids rowid" and nocase: "permutes nocase" and reach: "(catalog_step rowid nocase)\<^sup>*\<^sup>* new_catalog cat"
    and stored: "InsertInpxBook rowid i p t cat = Inr (b, f, cat1) \<or> UpdateInpxBook rowid nocase b i p cat = Inr (f, cat1)"
    and m: "BuildStoredMetadata i p = (m, f')"
    and others: "(other_step rowid nocase b)\<^sup>*\<^sup>* cat1 cat2"
    and step: "UpdateInpxBook rowid nocase b i2 p2 cat2 = Inr (f2, cat3)"
  shows "\<exists>deleted. last_command b cat2 = Some (IndexInsert b (BuildNormalizedSearchDocument m))
    \<and> CatIndex cat3 = CatIndex cat2 @ [IndexDelete b deleted, IndexInsert b (BuildNormalizedSearchDocument (fst (BuildStoredMetadata i2 p2)))]
    \<and> DocTitle deleted = NormalizeText (MetaTitleUtf8 m) \<and> DocDescription deleted = BuildNormalizedDescription (MetaDescriptionUtf8 m)
    \<and> DocAuthors deleted = join_words (fresh_names [] (MetaAuthorsUtf8 m))
    \<and> DocTags deleted = join_words (sort (fresh_names [] (MetaTagsUtf8 m)))
    \<and> DocGenres deleted = join_words (sort (fresh_names [] (MetaGenresUtf8 m)))
    \<and> (deleted = BuildNormalizedSearchDocument m \<longleftrightarrow>
         list_all (\<lambda>names. distinct (normalized_values names)) [MetaAuthorsUtf8 m, MetaTagsUtf8 m, MetaGenresUtf8 m])"
proof -
  have "relations_ok (CatRelations cat)" using reachable_catalog_ok [OF rowid reach] by (simp add: catalog_ok_def)
  from store_stores [OF this rowid m stored] have "relations_ok (CatRelations cat1) \<and> describes m b cat1 \<and> indexed_as m b cat1"
    unfolding stores_def by blast
  from other_steps_keep [OF others rowid this]
  have rel: "relations_ok (CatRelations cat2)" and d: "describes m b cat2" "indexed_as m b cat2" by blast+
  obtain old where old: "ReadStoredMetadata nocase b cat2 = Some old"
    using step by (cases "ReadStoredMetadata nocase b cat2") (simp_all add: UpdateInpxBook_def)
  have index: "CatIndex cat3 = CatIndex cat2 @ [IndexDelete b (BuildNormalizedSearchDocument old),
      IndexInsert b (BuildNormalizedSearchDocument (fst (BuildStoredMetadata i2 p2)))]"
    using step by (auto intro: update_stores [OF rel rowid old, of i2 p2])
  note parts = stored_document_parts [OF rel d(1) nocase old]
  then show ?thesis
    using d(2) index by (intro exI [of _ "BuildNormalizedSearchDocument old"]) (simp add: indexed_as_def)
qed

text \<open>A book with an author named twice, added and then replaced.\<close>

definition demo_rowid :: rowids where
  "demo_rowid ids = Max (set (0 # ids)) + 1"

definition demo_inpx_record :: SInpxRecord where
  "demo_inpx_record = \<lparr>Authors = [], GenresUtf8 = [], KeywordsUtf8 = [], TitleUtf8 = [], SeriesUtf8 = None, SeriesNumber = None,
    FileNameUtf8 = ''1'', FileSizeBytes = 1, LibId = ''1'', Deleted = False, FileExtensionUtf8 = ''fb2'', DateAddedUtf8 = None,
    LanguageUtf8 = ''en'', InpEntryNameUtf8 = ''a.inp'', ArchiveNameUtf8 = ''a.zip'', EntryNameUtf8 = ''1.fb2''\<rparr>"

definition demo_metadata :: SBookMetadata where
  "demo_metadata = \<lparr>MetaTitleUtf8 = ''t'', MetaAuthorsUtf8 = [''ann'', ''ann''], MetaLanguage = ''en'', MetaSeriesUtf8 = None,
    MetaSeriesIndex = None, MetaPublisherUtf8 = None, MetaYear = None, MetaIsbn = None, MetaTagsUtf8 = [], MetaGenresUtf8 = [],
    MetaDescriptionUtf8 = None, MetaIdentifier = None\<rparr>"

definition demo_added :: catalog where
  "demo_added = snd (snd (projr (InsertInpxBook demo_rowid demo_inpx_record demo_metadata 0 new_catalog)))"

lemma demo_rowid_new: "new_rowids demo_rowid"
  unfolding new_rowids_def demo_rowid_def by (metis List.finite_set Max_ge list.set_intros(2) not_le zless_add1_eq)

lemma normalize_ann: "NormalizeText ''ann'' = ''ann''"
proof -
  have "utf8 [97, 110, 110] = ''ann''" by (simp add: enc_ascii) code_simp
  then have "TryNormalizeUtf8WhitespaceAndCaseFold ''ann'' = Some ''ann''"
    using TryNormalize_normal [of "[97, 110, 110]"] by (simp add: strip_space_def fold1_def CaseFoldCodePoint_def tolower_ascii_def IsUnicodeWhitespace_def scalar_def)
  then show ?thesis by (simp add: NormalizeText_def EscapeValidTextForNormalizationKey_def InvalidUtf8Sentinel_def)
qed

lemma demo_added_eq: "InsertInpxBook demo_rowid demo_inpx_record demo_metadata 0 new_catalog =
  Inr (1, snd (BuildStoredMetadata demo_inpx_record demo_metadata), demo_added)"
proof -
  have "relations_ok (CatRelations new_catalog)"
    by (simp add: new_catalog_def relations_ok_def relation_ok_def entities_ok_def links_ok_def)
  from insert_stores [OF this demo_rowid_new, of demo_inpx_record demo_metadata 0] obtain b cat' where
    i: "InsertInpxBook demo_rowid demo_inpx_record demo_metadata 0 new_catalog = Inr (b, snd (BuildStoredMetadata demo_inpx_record demo_metadata), cat')"
    by blast
  have "b = 1" using i
    by (auto simp: InsertInpxBook_def and_then_Inr Let_def new_catalog_def demo_rowid_def split: prod.splits)
  with i show ?thesis by (simp add: demo_added_def)
qed

lemma demo_added_parts: "\<exists>row r. demo_added = \<lparr>CatBooks = [(1, row)], CatRelations = r,
    CatIndex = InsertBook 1 (fst (BuildStoredMetadata demo_inpx_record demo_metadata)) []\<rparr>"
proof -
  obtain m f where m: "BuildStoredMetadata demo_inpx_record demo_metadata = (m, f)" by fastforce
  then obtain r where "ReplaceBookRelations demo_rowid 1 m (CatRelations new_catalog) = Inr r"
    using demo_added_eq by (auto simp: InsertInpxBook_def and_then_Inr Let_def new_catalog_def demo_rowid_def)
  with m have "InsertInpxBook demo_rowid demo_inpx_record demo_metadata 0 new_catalog = Inr (1, f,
      \<lparr>CatBooks = [(1, BindStoredBookMetadata m \<lparr>RowMetadata = m, RowNormalizedTitle = [], RowCoverPath = None,
        RowAddedAtUtc = SerializeTimePoint 0\<rparr>)], CatRelations = r, CatIndex = InsertBook 1 m []\<rparr>)"
    by (simp add: InsertInpxBook_def Let_def new_catalog_def demo_rowid_def)
  then show ?thesis by (simp add: demo_added_def m)
qed

lemma demo_reach: "(catalog_step demo_rowid id)\<^sup>*\<^sup>* new_catalog demo_added"
  by (rule r_into_rtranclp) (rule catalog_step.insert [OF demo_added_eq])

lemma demo_authors: "MetaAuthorsUtf8 (fst (BuildStoredMetadata demo_inpx_record demo_metadata)) = [''ann'', ''ann'']"
  by (simp add: BuildStoredMetadata_def recover_title_def recover_authors_def recover_identifier_def recover_language_def
      BuildCleanInpxAuthorDisplayNames_def demo_inpx_record_def demo_metadata_def)

theorem stored_book_reads_back_witness:
  "case ReadStoredMetadata id 1 demo_added of None \<Rightarrow> False | Some old \<Rightarrow> map NormalizeText (MetaAuthorsUtf8 old) = [''ann'']"
proof -
  have "permutes id" by (simp add: permutes_def)
  from stored_book_reads_back [OF demo_rowid_new this rtranclp.rtrancl_refl disjI1 [OF demo_added_eq] prod.collapse [symmetric]]
  show ?thesis by (simp add: demo_authors normalize_ann Let_def split: option.splits)
qed

theorem index_delete_matches_insert_witness:
  "\<exists>cat' deleted. UpdateInpxBook demo_rowid id 1 demo_inpx_record demo_metadata demo_added
      = Inr (snd (BuildStoredMetadata demo_inpx_record demo_metadata), cat')
    \<and> IndexInsert 1 (BuildNormalizedSearchDocument (fst (BuildStoredMetadata demo_inpx_record demo_metadata))) \<in> set (CatIndex demo_added)
    \<and> IndexDelete 1 deleted \<in> set (CatIndex cat')
    \<and> deleted \<noteq> BuildNormalizedSearchDocument (fst (BuildStoredMetadata demo_inpx_record demo_metadata))"
proof -
  have rel: "relations_ok (CatRelations demo_added)"
    using reachable_catalog_ok [OF demo_rowid_new demo_reach] by (simp add: catalog_ok_def)
  obtain row r where p: "demo_added = \<lparr>CatBooks = [(1, row)], CatRelations = r,
    CatIndex = InsertBook 1 (fst (BuildStoredMetadata demo_inpx_record demo_metadata)) []\<rparr>" using demo_added_parts by blast
  obtain old where old: "ReadStoredMetadata id 1 demo_added = Some old"
    by (rule that) (simp add: ReadStoredMetadata_def p)
  obtain cat' where u: "UpdateInpxBook demo_rowid id 1 demo_inpx_record demo_metadata demo_added
      = Inr (snd (BuildStoredMetadata demo_inpx_record demo_metadata), cat')"
    by (rule update_stores [OF rel demo_rowid_new old, of demo_inpx_record demo_metadata]) blast
  have "permutes id" by (simp add: permutes_def)
  from index_delete_matches_insert [OF demo_rowid_new this rtranclp.rtrancl_refl disjI1 [OF demo_added_eq] prod.collapse [symmetric]
      rtranclp.rtrancl_refl u]
  obtain deleted where "IndexDelete 1 deleted \<in> set (CatIndex cat')"
    "deleted \<noteq> BuildNormalizedSearchDocument (fst (BuildStoredMetadata demo_inpx_record demo_metadata))"
    by (elim exE conjE) (rule that; simp add: demo_authors normalized_values_def normalize_ann)
  then show ?thesis using u by (intro exI [of _ cat'] exI [of _ deleted]) (simp add: p InsertBook_def)
qed

end
