(* ===== verification/Catalog_Statistics_Properties.thy ===== *)
theory Catalog_Statistics_Properties
  imports Scan_Writer Stored_Books
begin

text \<open>
  The statistics stay true: no operation drives a counter below zero, the size of the cover cache is the sum of the
  sizes of the cover files, and the count of unavailable books is the count of the locations marked so.
\<close>

section \<open>Covers\<close>

definition cover_total :: "cover_row list \<Rightarrow> int" where
  "cover_total rows = sum_list (map SizeBytes rows)"

definition covers_ok :: "statistics \<Rightarrow> bool" where
  "covers_ok t \<longleftrightarrow> distinct (map CoverPath (CoverRows t)) \<and> list_all (\<lambda>r. 0 < ReferenceCount r \<and> 0 \<le> SizeBytes r) (CoverRows t)
    \<and> CoverCacheSizeBytes (EnsureStatisticsRow t) = cover_total (CoverRows t) \<and> statistics_check (EnsureStatisticsRow t)"

text \<open>The other counters of the row are kept.\<close>

definition same_counts :: "statistics \<Rightarrow> statistics \<Rightarrow> bool" where
  "same_counts s t \<longleftrightarrow> BookCount (EnsureStatisticsRow t) = BookCount (EnsureStatisticsRow s)
    \<and> UnavailableBookCount (EnsureStatisticsRow t) = UnavailableBookCount (EnsureStatisticsRow s)"

lemma EnsureStatisticsRow_set [simp]: "EnsureStatisticsRow (t\<lparr>StatRow := Some row\<rparr>) = row"
  by (simp add: EnsureStatisticsRow_def)

lemma EnsureStatisticsRow_covers [simp]: "EnsureStatisticsRow (t\<lparr>CoverRows := rows\<rparr>) = EnsureStatisticsRow t"
  by (simp add: EnsureStatisticsRow_def)

lemma EnsureStatisticsRow_update_cover [simp]: "EnsureStatisticsRow (update_cover p f t) = EnsureStatisticsRow t"
  by (simp add: update_cover_def)

text \<open>A delta leaves the sum of the row and the change, and fails exactly if a counter would be negative.\<close>

lemma AddStatisticsDelta_row:
  "AddStatisticsDelta b u c s t = Inr t' \<Longrightarrow> EnsureStatisticsRow t' =
    \<lparr>BookCount = BookCount (EnsureStatisticsRow t) + b, UnavailableBookCount = UnavailableBookCount (EnsureStatisticsRow t) + u,
     CoverCacheSizeBytes = CoverCacheSizeBytes (EnsureStatisticsRow t) + c, InpxSourceSizeBytes = InpxSourceSizeBytes (EnsureStatisticsRow t) + s\<rparr>
    \<and> CoverRows t' = CoverRows t \<and> statistics_check (EnsureStatisticsRow t')"
  by (auto simp: AddStatisticsDelta_def set_row_def Let_def split: if_splits)

lemma AddStatisticsDelta_Inr:
  "statistics_check (EnsureStatisticsRow t) \<Longrightarrow> 0 \<le> BookCount (EnsureStatisticsRow t) + b \<Longrightarrow>
    0 \<le> UnavailableBookCount (EnsureStatisticsRow t) + u \<Longrightarrow> 0 \<le> CoverCacheSizeBytes (EnsureStatisticsRow t) + c \<Longrightarrow>
    0 \<le> InpxSourceSizeBytes (EnsureStatisticsRow t) + s \<Longrightarrow> \<exists>t'. AddStatisticsDelta b u c s t = Inr t'"
  by (simp add: AddStatisticsDelta_def set_row_def Let_def statistics_check_def)

lemma find_cover_Some: "find_cover p t = Some r \<Longrightarrow> r \<in> set (CoverRows t) \<and> CoverPath r = p"
  by (auto simp: find_cover_def find_Some_iff)

lemma find_cover_None: "find_cover p t = None \<longleftrightarrow> p \<notin> set (map CoverPath (CoverRows t))"
  by (auto simp: find_cover_def find_None_iff)

lemma cover_total_update:
  "distinct (map CoverPath rows) \<Longrightarrow> r \<in> set rows \<Longrightarrow> CoverPath r = p \<Longrightarrow>
    cover_total (map (\<lambda>r. if CoverPath r = p then f r else r) rows) = cover_total rows - SizeBytes r + SizeBytes (f r)"
proof (induction rows)
  case (Cons q rows)
  show ?case
  proof (cases "r = q")
    case True
    then have "map (\<lambda>r. if CoverPath r = p then f r else r) rows = rows"
      using Cons.prems by (intro map_idI) (auto simp: image_iff)
    then show ?thesis using True Cons.prems by (simp add: cover_total_def)
  next
    case False
    then have "r \<in> set rows" "CoverPath q \<noteq> p" using Cons.prems by auto
    then show ?thesis using Cons.IH Cons.prems by (simp add: cover_total_def)
  qed
qed simp

lemma cover_total_filter:
  "distinct (map CoverPath rows) \<Longrightarrow> r \<in> set rows \<Longrightarrow> CoverPath r = p \<Longrightarrow>
    cover_total (filter (\<lambda>r. CoverPath r \<noteq> p) rows) = cover_total rows - SizeBytes r"
proof (induction rows)
  case (Cons q rows)
  show ?case
  proof (cases "r = q")
    case True
    then have "filter (\<lambda>r. CoverPath r \<noteq> p) rows = rows" using Cons.prems by (intro filter_True) (auto simp: image_iff)
    then show ?thesis using True Cons.prems by (simp add: cover_total_def)
  next
    case False
    then have "r \<in> set rows" "CoverPath q \<noteq> p" using Cons.prems by auto
    then show ?thesis using Cons.IH Cons.prems by (simp add: cover_total_def)
  qed
qed simp

lemma cover_total_member: "list_all (\<lambda>r. 0 \<le> SizeBytes r) rows \<Longrightarrow> r \<in> set rows \<Longrightarrow> SizeBytes r \<le> cover_total rows"
proof (induction rows)
  case (Cons q rows)
  have "0 \<le> cover_total rows" using Cons.prems(1) by (induction rows) (auto simp: cover_total_def)
  then show ?case using Cons by (auto simp: cover_total_def)
qed simp

lemma map_cover_paths:
  "(\<And>r. CoverPath (f r) = CoverPath r) \<Longrightarrow> map CoverPath (map (\<lambda>r. if CoverPath r = p then f r else r) rows) = map CoverPath rows"
  by (induction rows) auto

text \<open>Changing a row without its size.\<close>

lemma covers_ok_update_cover:
  assumes ok: "covers_ok t" and row: "find_cover p t = Some r"
    and f: "\<And>r. CoverPath (f r) = CoverPath r" "\<And>r. SizeBytes (f r) = SizeBytes r" "0 < ReferenceCount (f r)"
  shows "covers_ok (update_cover p f t)"
proof -
  have r: "r \<in> set (CoverRows t)" "CoverPath r = p" using find_cover_Some [OF row] by auto
  have d: "distinct (map CoverPath (CoverRows t))" using ok by (simp add: covers_ok_def)
  have "q = r" if "q \<in> set (CoverRows t)" "CoverPath q = p" for q using d r that by (auto simp: distinct_map inj_on_def)
  then have "list_all (\<lambda>r. 0 < ReferenceCount r \<and> 0 \<le> SizeBytes r) (CoverRows (update_cover p f t))"
    using ok f(2,3) by (auto simp: covers_ok_def update_cover_def list_all_iff)
  moreover have "cover_total (CoverRows (update_cover p f t)) = cover_total (CoverRows t)"
    using cover_total_update [OF d r, of f] f(2) by (simp add: update_cover_def)
  moreover have "map CoverPath (CoverRows (update_cover p f t)) = map CoverPath (CoverRows t)"
    using map_cover_paths [of f, OF f(1)] by (simp add: update_cover_def del: map_map)
  ultimately show ?thesis using ok by (simp add: covers_ok_def)
qed

lemma insert_cover_ok:
  assumes ok: "covers_ok t" and new: "find_cover p t = None" and pos: "0 < c" "0 \<le> n"
  shows "\<exists>t'. insert_cover p c n t = Inr t' \<and> covers_ok t' \<and> same_counts t t'"
proof -
  let ?t = "t\<lparr>CoverRows := CoverRows t @ [\<lparr>CoverPath = p, ReferenceCount = c, SizeBytes = n\<rparr>]\<rparr>"
  have "statistics_check (EnsureStatisticsRow ?t)" using ok by (simp add: covers_ok_def)
  then obtain t' where t': "AddStatisticsDelta 0 0 n 0 ?t = Inr t'"
    using AddStatisticsDelta_Inr [of ?t 0 0 n 0] pos by (auto simp: statistics_check_def)
  have "covers_ok t'" "same_counts t t'"
    using AddStatisticsDelta_row [OF t'] ok new pos
    by (auto simp: covers_ok_def cover_total_def find_cover_None same_counts_def)
  then show ?thesis using t' pos by (simp add: insert_cover_def)
qed

section \<open>The operations on covers\<close>

text \<open>What an operation on covers does: it keeps the sums true, or the size of a file does not fit SQLite's integers.\<close>

definition cover_step :: "statistics \<Rightarrow> (session_error + statistics) \<Rightarrow> bool" where
  "cover_step t result \<longleftrightarrow>
    (case result of
       Inr t' \<Rightarrow> covers_ok t' \<and> same_counts t t'
     | Inl e \<Rightarrow> e = SessionRuntimeError ''Catalog statistics value exceeds SQLite int64 range.'')"

lemma cover_step_same: "covers_ok t \<Longrightarrow> cover_step t (Inr t)"
  by (simp add: cover_step_def same_counts_def)

lemma ToSqliteInt64_cases:
  "(ToSqliteInt64 n = Inr (int n)) \<or> ToSqliteInt64 n = Inl (SessionRuntimeError ''Catalog statistics value exceeds SQLite int64 range.'')"
  by (simp add: ToSqliteInt64_def)

lemma cover_step_insert:
  assumes "covers_ok t" "find_cover p t = None" "0 < c"
  shows "cover_step t (and_then (ToSqliteInt64 n) (\<lambda>m. insert_cover p c m t))"
  using ToSqliteInt64_cases [of n] insert_cover_ok [OF assms, of "int n"] by (auto simp: cover_step_def)

lemma IncrementCoverReference_ok: "covers_ok t \<Longrightarrow> cover_step t (IncrementCoverReference files p n t)"
proof -
  assume ok: "covers_ok t"
  have up: "cover_step t (Inr (update_cover q (\<lambda>r. r\<lparr>ReferenceCount := ReferenceCount r + 1\<rparr>) t))" if "find_cover q t = Some row" for q row
  proof -
    have "0 < ReferenceCount row" using find_cover_Some [OF that] ok by (auto simp: covers_ok_def list_all_iff)
    then show ?thesis
      using covers_ok_update_cover [OF ok that, of "\<lambda>r. r\<lparr>ReferenceCount := ReferenceCount r + 1\<rparr>"] by (simp add: cover_step_def same_counts_def)
  qed
  show ?thesis
    using cover_step_same [OF ok] cover_step_insert [OF ok] up
    by (auto simp: IncrementCoverReference_def split: option.split)
qed

lemma RefreshCoverReferenceSize_ok: "covers_ok t \<Longrightarrow> cover_step t (RefreshCoverReferenceSize files books p n t)"
proof -
  assume ok: "covers_ok t"
  have up: "cover_step t (AddStatisticsDelta 0 0 (int k - SizeBytes row) 0 (update_cover q (\<lambda>r. r\<lparr>SizeBytes := int k\<rparr>) t))"
    if q: "find_cover q t = Some row" for q row k
  proof -
    let ?f = "\<lambda>r. r\<lparr>SizeBytes := int k\<rparr>"
    let ?t = "update_cover q ?f t"
    have r: "row \<in> set (CoverRows t)" "CoverPath row = q" using find_cover_Some [OF q] by auto
    have d: "distinct (map CoverPath (CoverRows t))" using ok by (simp add: covers_ok_def)
    have ch: "statistics_check (EnsureStatisticsRow ?t)" using ok by (simp add: covers_ok_def)
    have "SizeBytes row \<le> cover_total (CoverRows t)"
      using cover_total_member [of "CoverRows t" row] r(1) ok by (auto simp: covers_ok_def list_all_iff)
    then obtain t' where t': "AddStatisticsDelta 0 0 (int k - SizeBytes row) 0 ?t = Inr t'"
      using AddStatisticsDelta_Inr [OF ch, of 0 0 "int k - SizeBytes row" 0] ch ok by (auto simp: statistics_check_def covers_ok_def)
    have paths: "map CoverPath (CoverRows ?t) = map CoverPath (CoverRows t)"
      using map_cover_paths [of ?f] by (simp add: update_cover_def del: map_map)
    have "cover_total (CoverRows ?t) = cover_total (CoverRows t) - SizeBytes row + int k"
      using cover_total_update [OF d r, of ?f] by (simp add: update_cover_def)
    moreover have "list_all (\<lambda>r. 0 < ReferenceCount r \<and> 0 \<le> SizeBytes r) (CoverRows ?t)"
      using ok by (auto simp: covers_ok_def update_cover_def list_all_iff)
    ultimately have "covers_ok t'" "same_counts t t'"
      using AddStatisticsDelta_row [OF t'] ok paths by (auto simp: covers_ok_def same_counts_def)
    then show ?thesis using t' by (simp add: cover_step_def)
  qed
  have sized: "cover_step t (and_then (ToSqliteInt64 k) (\<lambda>m. if SizeBytes row = m then Inr t
      else AddStatisticsDelta 0 0 (m - SizeBytes row) 0 (update_cover q (\<lambda>r. r\<lparr>SizeBytes := m\<rparr>) t)))"
    if "find_cover q t = Some row" for q row k
    using ToSqliteInt64_cases [of k] up [OF that, of k] cover_step_same [OF ok] by (auto simp: cover_step_def)
  have new: "cover_step t (and_then (ToSqliteInt64 c) (\<lambda>c. and_then (ToSqliteInt64 k) (\<lambda>m. insert_cover q c m t)))"
    if "find_cover q t = None" "c \<noteq> 0" for q c k
    using ToSqliteInt64_cases [of c] cover_step_insert [OF ok that(1), of "int c" k] that(2) by (auto simp: cover_step_def)
  show ?thesis
    using cover_step_same [OF ok] sized new
    by (auto simp: RefreshCoverReferenceSize_def Let_def split: option.split)
qed

lemma DecrementCoverReference_ok: "covers_ok t \<Longrightarrow> cover_step t (DecrementCoverReference p t)"
proof -
  assume ok: "covers_ok t"
  have up: "cover_step t (Inr (update_cover q (\<lambda>r. r\<lparr>ReferenceCount := ReferenceCount r - 1\<rparr>) t))"
    if "find_cover q t = Some row" "1 < ReferenceCount row" for q row
    using covers_ok_update_cover [OF ok that(1), of "\<lambda>r. r\<lparr>ReferenceCount := ReferenceCount r - 1\<rparr>"] that(2)
    by (simp add: cover_step_def same_counts_def)
  have del: "cover_step t (AddStatisticsDelta 0 0 (- SizeBytes row) 0 (t\<lparr>CoverRows := filter (\<lambda>r. CoverPath r \<noteq> q) (CoverRows t)\<rparr>))"
    if q: "find_cover q t = Some row" for q row
  proof -
    let ?t = "t\<lparr>CoverRows := filter (\<lambda>r. CoverPath r \<noteq> q) (CoverRows t)\<rparr>"
    have r: "row \<in> set (CoverRows t)" "CoverPath row = q" using find_cover_Some [OF q] by auto
    have d: "distinct (map CoverPath (CoverRows t))" using ok by (simp add: covers_ok_def)
    have ch: "statistics_check (EnsureStatisticsRow ?t)" using ok by (simp add: covers_ok_def)
    have "SizeBytes row \<le> cover_total (CoverRows t)"
      using cover_total_member [of "CoverRows t" row] r(1) ok by (auto simp: covers_ok_def list_all_iff)
    then obtain t' where t': "AddStatisticsDelta 0 0 (- SizeBytes row) 0 ?t = Inr t'"
      using AddStatisticsDelta_Inr [OF ch, of 0 0 "- SizeBytes row" 0] ch ok by (auto simp: statistics_check_def covers_ok_def)
    have "covers_ok t'" "same_counts t t'"
      using AddStatisticsDelta_row [OF t'] ok cover_total_filter [OF d r]
      by (auto simp: covers_ok_def same_counts_def list_all_iff intro: distinct_map_filter)
    then show ?thesis using t' by (simp add: cover_step_def)
  qed
  show ?thesis using cover_step_same [OF ok] up del
    by (auto simp: DecrementCoverReference_def split: option.split)
qed

end
