(* ===== verification/Scan_Tables.thy ===== *)
theory Scan_Tables
  imports Catalog_Statistics_Properties
begin

text \<open>
  The tables of a scan seen through their keys: the segment of a name, the location of a library identifier; and
  what each statement of the writer does to them.
\<close>

section \<open>Segments by name\<close>

definition seg_of :: "string \<Rightarrow> segment_row list \<Rightarrow> segment_row option" where
  "seg_of name rows = find (\<lambda>r. RowInpEntryName r = name) rows"

definition segments_ok :: "segment_row list \<Rightarrow> bool" where
  "segments_ok rows \<longleftrightarrow> distinct (map SegmentId rows) \<and> distinct (map RowInpEntryName rows)"

lemma seg_of_Some: "seg_of name rows = Some r \<Longrightarrow> r \<in> set rows \<and> RowInpEntryName r = name"
  by (auto simp: seg_of_def find_Some_iff)

lemma seg_of_None: "seg_of name rows = None \<longleftrightarrow> name \<notin> set (map RowInpEntryName rows)"
  by (auto simp: seg_of_def find_None_iff)

lemma seg_of_member: "distinct (map RowInpEntryName rows) \<Longrightarrow> r \<in> set rows \<Longrightarrow> seg_of (RowInpEntryName r) rows = Some r"
  by (induction rows) (auto simp: seg_of_def image_iff)

lemma seg_of_id:
  assumes "segments_ok rows" "seg_of n rows = Some r" "seg_of m rows = Some q" "SegmentId r = SegmentId q"
  shows "n = m"
proof -
  have "r \<in> set rows" "q \<in> set rows" "RowInpEntryName r = n" "RowInpEntryName q = m"
    using seg_of_Some assms(2,3) by blast+
  moreover from this assms(1,4) have "r = q" by (auto simp: segments_ok_def distinct_map inj_on_def)
  ultimately show ?thesis by simp
qed

lemma seg_of_simps:
  "seg_of n [] = None"
  "seg_of n (r # rows) = (if RowInpEntryName r = n then Some r else seg_of n rows)"
  by (simp_all add: seg_of_def)

lemma seg_of_append: "seg_of n (xs @ ys) = (case seg_of n xs of None \<Rightarrow> seg_of n ys | Some r \<Rightarrow> Some r)"
  by (induction xs) (simp_all add: seg_of_simps)

lemma seg_of_map_upsert:
  "seg_of n (map (\<lambda>r. if RowInpEntryName r = RowInpEntryName row then row\<lparr>SegmentId := SegmentId r\<rparr> else r) rows) =
    (case seg_of n rows of None \<Rightarrow> None | Some r \<Rightarrow> Some (if n = RowInpEntryName row then row\<lparr>SegmentId := SegmentId r\<rparr> else r))"
  by (induction rows) (auto simp: seg_of_simps)

definition row_id :: "rowids \<Rightarrow> string \<Rightarrow> segment_row list \<Rightarrow> int" where
  "row_id rowid name rows = (case seg_of name rows of None \<Rightarrow> rowid (map SegmentId rows) | Some r \<Rightarrow> SegmentId r)"

lemma seg_of_upsert:
  "seg_of n (upsert_row rowid row rows) =
    (if n = RowInpEntryName row then Some (row\<lparr>SegmentId := row_id rowid n rows\<rparr>) else seg_of n rows)"
proof (cases "seg_of (RowInpEntryName row) rows")
  case None
  have "RowInpEntryName row \<notin> set (map RowInpEntryName rows)" using None seg_of_None by blast
  then show ?thesis using None by (auto simp: upsert_row_def seg_of_append seg_of_simps row_id_def split: option.split)
next
  case (Some r)
  then have "RowInpEntryName row \<in> set (map RowInpEntryName rows)" using seg_of_None [of "RowInpEntryName row" rows] by auto
  then show ?thesis using Some by (auto simp: upsert_row_def seg_of_map_upsert row_id_def split: option.split)
qed

lemma upsert_row_columns:
  "map SegmentId (upsert_row rowid row rows) =
    map SegmentId rows @ (if RowInpEntryName row \<in> set (map RowInpEntryName rows) then [] else [rowid (map SegmentId rows)])"
  "map RowInpEntryName (upsert_row rowid row rows) =
    map RowInpEntryName rows @ (if RowInpEntryName row \<in> set (map RowInpEntryName rows) then [] else [RowInpEntryName row])"
proof -
  have "map SegmentId (map (\<lambda>r. if RowInpEntryName r = RowInpEntryName row then row\<lparr>SegmentId := SegmentId r\<rparr> else r) rows) = map SegmentId rows"
    "map RowInpEntryName (map (\<lambda>r. if RowInpEntryName r = RowInpEntryName row then row\<lparr>SegmentId := SegmentId r\<rparr> else r) rows) = map RowInpEntryName rows"
    by (induction rows) auto
  then show
    "map SegmentId (upsert_row rowid row rows) =
      map SegmentId rows @ (if RowInpEntryName row \<in> set (map RowInpEntryName rows) then [] else [rowid (map SegmentId rows)])"
    "map RowInpEntryName (upsert_row rowid row rows) =
      map RowInpEntryName rows @ (if RowInpEntryName row \<in> set (map RowInpEntryName rows) then [] else [RowInpEntryName row])"
    by (simp_all add: upsert_row_def del: map_map)
qed

lemma segments_ok_upsert: "segments_ok rows \<Longrightarrow> new_rowids rowid \<Longrightarrow> segments_ok (upsert_row rowid row rows)"
  using spec [of "\<lambda>ids. rowid ids \<notin> set ids" "map SegmentId rows"]
  by (simp add: segments_ok_def upsert_row_columns new_rowids_def del: set_map)

section \<open>One segment\<close>

definition plan_name :: "SInpxSegmentPlan \<Rightarrow> string" where
  "plan_name plan = SegInpEntryNameUtf8 (Payload plan)"

text \<open>The deletions that a plan leaves for its segment, whose identifier had those in \<open>old\<close>.\<close>

definition planned_deletions :: "SInpxSegmentPlan \<Rightarrow> string set \<Rightarrow> string set" where
  "planned_deletions plan old =
    (case Change plan of SegmentUnchanged \<Rightarrow> old | SegmentRemoved \<Rightarrow> {} | _ \<Rightarrow> set (DeletedLibIds plan))"

definition deletions_of :: "int \<Rightarrow> (int \<times> string) list \<Rightarrow> string set" where
  "deletions_of segmentId dels = {libId. (segmentId, libId) \<in> set dels}"

lemma insert_deletions_set:
  "insert_deletions s ids dels = Inr dels' \<Longrightarrow> set dels' = set dels \<union> {s} \<times> set ids"
  by (induction s ids dels rule: insert_deletions.induct) (auto split: if_splits)

lemma planned_row_simps [simp]:
  "RowInpEntryName (planned_row scanId plan) = plan_name plan"
  "RowOrder (planned_row scanId plan) = int (SegmentOrder plan)"
  "RowFingerprint (planned_row scanId plan) = SegFingerprintUtf8 (Payload plan)"
  "RowAvailability (planned_row scanId plan) = availability_ToString (if Change plan = SegmentRemoved then MissingFromIndex else Available)"
  by (simp_all add: planned_row_def plan_name_def)

lemma UpsertSegment_effect:
  assumes "UpsertSegment rowid scanId plan db = Inr (i, db')"
  shows "i = row_id rowid (plan_name plan) (Segments db)"
    and "db' = db\<lparr>Segments := upsert_row rowid (planned_row scanId plan) (Segments db), Deletions := Deletions db'\<rparr>"
    and "deletions_of s (Deletions db') = (if s = i then planned_deletions plan (deletions_of i (Deletions db)) else deletions_of s (Deletions db))"
proof -
  let ?rows = "upsert_row rowid (planned_row scanId plan) (Segments db)"
  have f: "find (\<lambda>r. RowInpEntryName r = plan_name plan) ?rows
      = Some ((planned_row scanId plan)\<lparr>SegmentId := row_id rowid (plan_name plan) (Segments db)\<rparr>)"
    using seg_of_upsert [of "plan_name plan" rowid "planned_row scanId plan" "Segments db"] by (simp add: seg_of_def)
  show i: "i = row_id rowid (plan_name plan) (Segments db)"
    using assms f by (auto simp: UpsertSegment_def Let_def and_then_Inr split: if_splits)
  show "db' = db\<lparr>Segments := ?rows, Deletions := Deletions db'\<rparr>"
    using assms f by (auto simp: UpsertSegment_def Let_def and_then_Inr split: if_splits)
  have "(Change plan = SegmentUnchanged \<longrightarrow> Deletions db' = Deletions db)
    \<and> (Change plan = SegmentRemoved \<longrightarrow> Deletions db' = filter (\<lambda>(s, _). s \<noteq> i) (Deletions db))
    \<and> (needs_scan plan \<longrightarrow> insert_deletions i (DeletedLibIds plan) (filter (\<lambda>(s, _). s \<noteq> i) (Deletions db)) = Inr (Deletions db'))"
    using assms f i by (auto simp: UpsertSegment_def Let_def and_then_Inr needs_scan_def split: if_splits)
  then show "deletions_of s (Deletions db') = (if s = i then planned_deletions plan (deletions_of i (Deletions db)) else deletions_of s (Deletions db))"
    by (cases "Change plan") (auto simp: needs_scan_def planned_deletions_def deletions_of_def dest: insert_deletions_set)
qed

section \<open>All segments\<close>

text \<open>What the upserts of a list of plans leave: one row per plan with the identifiers that are returned.\<close>

lemma upsert_all_effect:
  assumes "upsert_all rowid scanId plans db = Inr (ids, db')" "new_rowids rowid" "segments_ok (Segments db)"
    and "distinct (map plan_name plans)"
  shows "segments_ok (Segments db') \<and> length ids = length plans
    \<and> db' = db\<lparr>Segments := Segments db', Deletions := Deletions db'\<rparr>
    \<and> (\<forall>k < length plans. seg_of (plan_name (plans ! k)) (Segments db') = Some ((planned_row scanId (plans ! k))\<lparr>SegmentId := ids ! k\<rparr>))
    \<and> (\<forall>n. n \<notin> set (map plan_name plans) \<longrightarrow> seg_of n (Segments db') = seg_of n (Segments db))
    \<and> (\<forall>k < length plans. case seg_of (plan_name (plans ! k)) (Segments db) of
          None \<Rightarrow> ids ! k \<notin> set (map SegmentId (Segments db)) | Some r \<Rightarrow> ids ! k = SegmentId r)
    \<and> (\<forall>k < length plans. deletions_of (ids ! k) (Deletions db') = planned_deletions (plans ! k) (deletions_of (ids ! k) (Deletions db)))
    \<and> (\<forall>s. s \<notin> set ids \<longrightarrow> deletions_of s (Deletions db') = deletions_of s (Deletions db))"
  using assms(1,3,4)
proof (induction plans arbitrary: db ids)
  case Nil
  then show ?case by simp
next
  case (Cons plan plans)
  obtain i db1 ids1 where u: "UpsertSegment rowid scanId plan db = Inr (i, db1)" and
    rest: "upsert_all rowid scanId plans db1 = Inr (ids1, db')" and ids: "ids = i # ids1"
    using Cons.prems(1) by (auto simp: and_then_Inr)
  note e = UpsertSegment_effect [OF u]
  have segs: "Segments db1 = upsert_row rowid (planned_row scanId plan) (Segments db)" using e(2) by (cases db1) (cases db, simp)
  have ok1: "segments_ok (Segments db1)" unfolding segs by (rule segments_ok_upsert [OF Cons.prems(2) assms(2)])
  have d: "distinct (map plan_name plans)" "plan_name plan \<notin> set (map plan_name plans)" using Cons.prems(3) by simp_all
  note ih = Cons.IH [OF rest ok1 d(1)]
  have seg1: "seg_of n (Segments db1) = (if n = plan_name plan then Some ((planned_row scanId plan)\<lparr>SegmentId := i\<rparr>) else seg_of n (Segments db))" for n
    unfolding segs seg_of_upsert e(1) by simp
  have mem1: "r \<in> set (Segments db) \<Longrightarrow> SegmentId r \<in> set (map SegmentId (Segments db1))" for r
    unfolding segs upsert_row_columns by simp
  have i1: "case seg_of (plan_name plan) (Segments db) of None \<Rightarrow> i \<notin> set (map SegmentId (Segments db)) | Some r \<Rightarrow> i = SegmentId r"
    using e(1) assms(2) spec [of "\<lambda>ids. rowid ids \<notin> set ids" "map SegmentId (Segments db)"]
    by (auto simp: row_id_def new_rowids_def split: option.splits)
  have other: "case seg_of (plan_name (plans ! k)) (Segments db) of
      None \<Rightarrow> ids1 ! k \<notin> set (map SegmentId (Segments db)) | Some r \<Rightarrow> ids1 ! k = SegmentId r" if k: "k < length plans" for k
  proof -
    have ne: "plan_name (plans ! k) \<noteq> plan_name plan" using d(2) nth_mem [OF k] by (metis image_eqI set_map)
    have "case seg_of (plan_name (plans ! k)) (Segments db1) of
      None \<Rightarrow> ids1 ! k \<notin> set (map SegmentId (Segments db1)) | Some r \<Rightarrow> ids1 ! k = SegmentId r" using ih k by blast
    then show ?thesis using mem1 seg1 [of "plan_name (plans ! k)"] ne by (auto split: option.splits)
  qed
  have ids_ne: "i \<noteq> ids1 ! k" if k: "k < length plans" for k
  proof
    assume eq: "i = ids1 ! k"
    have "seg_of (plan_name (plans ! k)) (Segments db') = Some ((planned_row scanId (plans ! k))\<lparr>SegmentId := ids1 ! k\<rparr>)"
      "seg_of (plan_name plan) (Segments db') = Some ((planned_row scanId plan)\<lparr>SegmentId := i\<rparr>)"
      using ih k d(2) seg1 [of "plan_name plan"] by auto
    from seg_of_id [OF conjunct1 [OF ih] this] eq have "plan_name (plans ! k) = plan_name plan" by simp
    then show False using d(2) k nth_mem [OF k] by (metis image_eqI set_map)
  qed
  have i_notin: "i \<notin> set ids1" using ids_ne ih by (metis in_set_conv_nth)
  have del1: "deletions_of s (Deletions db1) = (if s = i then planned_deletions plan (deletions_of i (Deletions db)) else deletions_of s (Deletions db))" for s
    by (rule e(3))
  have rest_eq: "db' = db\<lparr>Segments := Segments db', Deletions := Deletions db'\<rparr>"
  proof -
    have "db' = db1\<lparr>Segments := Segments db', Deletions := Deletions db'\<rparr>" using ih by blast
    also have "\<dots> = db\<lparr>Segments := Segments db', Deletions := Deletions db'\<rparr>" by (subst (1) e(2)) simp
    finally show ?thesis .
  qed
  show ?case
  proof (intro conjI allI impI)
    show "segments_ok (Segments db')" "length ids = length (plan # plans)" using ih ids by simp_all
    show "db' = db\<lparr>Segments := Segments db', Deletions := Deletions db'\<rparr>" by (rule rest_eq)
    show "seg_of (plan_name ((plan # plans) ! k)) (Segments db') = Some ((planned_row scanId ((plan # plans) ! k))\<lparr>SegmentId := ids ! k\<rparr>)"
      if "k < length (plan # plans)" for k
      using that ih ids seg1 [of "plan_name plan"] d(2) by (cases k) simp_all
    show "seg_of n (Segments db') = seg_of n (Segments db)" if "n \<notin> set (map plan_name (plan # plans))" for n
      using that ih seg1 [of n] by simp
    show "case seg_of (plan_name ((plan # plans) ! k)) (Segments db) of
        None \<Rightarrow> ids ! k \<notin> set (map SegmentId (Segments db)) | Some r \<Rightarrow> ids ! k = SegmentId r"
      if k: "k < length (plan # plans)" for k
    proof (cases k)
      case 0
      show ?thesis unfolding 0 ids nth_Cons_0 by (rule i1)
    next
      case (Suc n)
      show ?thesis unfolding Suc ids nth_Cons_Suc by (rule other) (use k Suc in simp)
    qed
    show "deletions_of (ids ! k) (Deletions db') = planned_deletions ((plan # plans) ! k) (deletions_of (ids ! k) (Deletions db))"
      if "k < length (plan # plans)" for k
      using that ih ids ids_ne i_notin del1 by (cases k) (auto simp del: set_map)
    show "deletions_of s (Deletions db') = deletions_of s (Deletions db)" if "s \<notin> set ids" for s
      using that ih ids del1 [of s] by auto
  qed
qed

section \<open>Locations by library identifier\<close>

definition loc_of :: "string \<Rightarrow> location_row list \<Rightarrow> location_row option" where
  "loc_of libId locations = find (\<lambda>l. LocLibId l = libId) locations"

lemma loc_of_simps [simp]:
  "loc_of i [] = None"
  "loc_of i (l # ls) = (if LocLibId l = i then Some l else loc_of i ls)"
  by (simp_all add: loc_of_def)

lemma loc_of_Some: "loc_of i ls = Some l \<Longrightarrow> l \<in> set ls \<and> LocLibId l = i"
  by (auto simp: loc_of_def find_Some_iff)

lemma loc_of_None: "loc_of i ls = None \<longleftrightarrow> i \<notin> set (map LocLibId ls)"
  by (auto simp: loc_of_def find_None_iff)

lemma loc_of_member: "distinct (map LocLibId ls) \<Longrightarrow> l \<in> set ls \<Longrightarrow> loc_of (LocLibId l) ls = Some l"
  by (induction ls) (auto simp: image_iff)

lemma loc_of_append: "loc_of i (ks @ ls) = (case loc_of i ks of None \<Rightarrow> loc_of i ls | Some l \<Rightarrow> Some l)"
  by (induction ks) simp_all

lemma loc_of_map: "(\<And>l. LocLibId (f l) = LocLibId l) \<Longrightarrow> loc_of i (map f ls) = map_option f (loc_of i ls)"
  by (induction ls) simp_all

definition locations_ok :: "scan_tables \<Rightarrow> bool" where
  "locations_ok db \<longleftrightarrow> distinct (map LocBookId (Locations db)) \<and> distinct (map LocLibId (Locations db))
    \<and> set (map LocBookId (Locations db)) = set (map fst (CatBooks (Catalog db))) \<and> distinct (map fst (CatBooks (Catalog db)))
    \<and> list_all (\<lambda>l. LocAvailability l \<in> set (map availability_ToString [Available, MissingFromIndex])) (Locations db)
    \<and> relations_ok (CatRelations (Catalog db))"

definition unavailable_count :: "location_row list \<Rightarrow> nat" where
  "unavailable_count ls = length (filter (\<lambda>l. LocAvailability l \<noteq> availability_ToString Available) ls)"

definition statistics_ok :: "scan_tables \<Rightarrow> bool" where
  "statistics_ok db \<longleftrightarrow> covers_ok (Statistics db) \<and> BookCount (EnsureStatisticsRow (Statistics db)) = int (length (CatBooks (Catalog db)))
    \<and> UnavailableBookCount (EnsureStatisticsRow (Statistics db)) = int (unavailable_count (Locations db))"

definition tables_ok :: "scan_tables \<Rightarrow> bool" where
  "tables_ok db \<longleftrightarrow> locations_ok db \<and> statistics_ok db"

definition written_row :: "writer_env \<Rightarrow> parsed_record \<Rightarrow> int \<Rightarrow> location_row" where
  "written_row env p bookId =
    \<lparr>LocBookId = bookId, LocSegmentId = ForSegment p, LocLibId = LibId (ForRecord p),
     LocArchiveName = ArchiveNameUtf8 (ForRecord p), LocEntryName = EntryNameUtf8 (ForRecord p),
     LocAvailability = availability_ToString Available, LocPresent = True, LocFileSize = FileSizeBytes (ForRecord p),
     LocFormat = ToLowerAscii (FileExtensionUtf8 (ForRecord p)), LocScan = Some (ScanId env)\<rparr>"

lemma written_row_simps [simp]:
  "LocBookId (written_row env p b) = b" "LocSegmentId (written_row env p b) = ForSegment p"
  "LocLibId (written_row env p b) = LibId (ForRecord p)" "LocAvailability (written_row env p b) = availability_ToString Available"
  "LocPresent (written_row env p b)" "LocScan (written_row env p b) = Some (ScanId env)"
  by (simp_all add: written_row_def)

section \<open>One book\<close>

lemma counts_delta:
  assumes "AddStatisticsDelta b u 0 0 t = Inr t'" "covers_ok t"
  shows "covers_ok t'" "BookCount (EnsureStatisticsRow t') = BookCount (EnsureStatisticsRow t) + b"
    "UnavailableBookCount (EnsureStatisticsRow t') = UnavailableBookCount (EnsureStatisticsRow t) + u"
  using AddStatisticsDelta_row [OF assms(1)] assms(2) by (auto simp: covers_ok_def)

lemma RecordInpxBookInserted_ok:
  assumes "RecordInpxBookInserted files p n t = Inr t'" "covers_ok t"
  shows "covers_ok t'" "BookCount (EnsureStatisticsRow t') = BookCount (EnsureStatisticsRow t) + 1"
    "UnavailableBookCount (EnsureStatisticsRow t') = UnavailableBookCount (EnsureStatisticsRow t)"
proof -
  obtain t1 where t1: "AddStatisticsDelta 1 0 0 0 t = Inr t1" "IncrementCoverReference files p n t1 = Inr t'"
    using assms(1) by (auto simp: RecordInpxBookInserted_def and_then_Inr)
  note c = counts_delta [OF t1(1) assms(2)]
  from IncrementCoverReference_ok [OF c(1), of files p n] t1(2) have "covers_ok t' \<and> same_counts t1 t'" by (simp add: cover_step_def)
  with c show "covers_ok t'" "BookCount (EnsureStatisticsRow t') = BookCount (EnsureStatisticsRow t) + 1"
    "UnavailableBookCount (EnsureStatisticsRow t') = UnavailableBookCount (EnsureStatisticsRow t)" by (simp_all add: same_counts_def)
qed

lemma cover_step_trans:
  assumes "cover_step t r" "\<And>t'. r = Inr t' \<Longrightarrow> covers_ok t' \<Longrightarrow> cover_step t' (f t')"
  shows "cover_step t (and_then r f)"
proof (cases r)
  case (Inr t')
  then have "covers_ok t'" "same_counts t t'" using assms(1) by (simp_all add: cover_step_def)
  moreover from assms(2) [OF Inr this(1)] have "cover_step t' (f t')" .
  ultimately show ?thesis using Inr by (auto simp: cover_step_def same_counts_def split: sum.split)
qed (use assms(1) in \<open>simp add: cover_step_def\<close>)

lemma RecordCoverPathChanged_ok: "covers_ok t \<Longrightarrow> cover_step t (RecordCoverPathChanged files books p q n t)"
  unfolding RecordCoverPathChanged_def Let_def
  by (simp add: RefreshCoverReferenceSize_ok DecrementCoverReference_ok IncrementCoverReference_ok cover_step_trans)

lemma available_strings [simp]: "availability_ToString MissingFromIndex \<noteq> availability_ToString Available"
  "\<not> IsUnavailable (availability_ToString Available)" "IsUnavailable (availability_ToString MissingFromIndex)"
  by (simp_all add: availability_ToString_def IsUnavailable_def IsInpxBookAvailable_def)

lemma RecordAvailability_ok:
  assumes "RecordInpxBookAvailabilityChanged old (availability_ToString Available) t = Inr t'" "covers_ok t"
  shows "covers_ok t'" "BookCount (EnsureStatisticsRow t') = BookCount (EnsureStatisticsRow t)"
    "UnavailableBookCount (EnsureStatisticsRow t') = UnavailableBookCount (EnsureStatisticsRow t) - (if IsUnavailable old then 1 else 0)"
proof -
  consider (same) "\<not> IsUnavailable old" "t' = t" | (restored) "IsUnavailable old" "AddStatisticsDelta 0 (-1) 0 0 t = Inr t'"
    using assms(1) by (auto simp: RecordInpxBookAvailabilityChanged_def split: if_splits)
  then have "covers_ok t' \<and> BookCount (EnsureStatisticsRow t') = BookCount (EnsureStatisticsRow t)
    \<and> UnavailableBookCount (EnsureStatisticsRow t') = UnavailableBookCount (EnsureStatisticsRow t) - (if IsUnavailable old then 1 else 0)"
    using counts_delta [of 0 "-1" t t'] assms(2) by cases simp_all
  then show "covers_ok t'" "BookCount (EnsureStatisticsRow t') = BookCount (EnsureStatisticsRow t)"
    "UnavailableBookCount (EnsureStatisticsRow t') = UnavailableBookCount (EnsureStatisticsRow t) - (if IsUnavailable old then 1 else 0)"
    by blast+
qed

text \<open>What a written payload leaves: its location is the one of its library identifier, and nothing else moves.\<close>

definition writes :: "writer_env \<Rightarrow> parsed_record \<Rightarrow> scan_tables \<Rightarrow> scan_tables \<Rightarrow> bool" where
  "writes env p db db' \<longleftrightarrow> tables_ok db' \<and> Segments db' = Segments db \<and> Deletions db' = Deletions db \<and> Source db' = Source db
    \<and> (\<exists>b. loc_of (LibId (ForRecord p)) (Locations db') = Some (written_row env p b))
    \<and> (\<forall>i. i \<noteq> LibId (ForRecord p) \<longrightarrow> loc_of i (Locations db') = loc_of i (Locations db))"

lemma ReadExisting_None:
  assumes "locations_ok db" "ReadExistingInpxBook i db = None"
  shows "i \<notin> set (map LocLibId (Locations db))"
proof
  assume "i \<in> set (map LocLibId (Locations db))"
  then obtain l where l: "l \<in> set (Locations db)" "LocLibId l = i" by auto
  then have "LocBookId l \<in> set (map fst (CatBooks (Catalog db)))" using assms(1) unfolding locations_ok_def by (metis image_eqI set_map)
  then have "map_of (CatBooks (Catalog db)) (LocBookId l) \<noteq> None" by (simp add: map_of_eq_None_iff)
  with l have "find (\<lambda>l. LocLibId l = i \<and> map_of (CatBooks (Catalog db)) (LocBookId l) \<noteq> None) (Locations db) \<noteq> None"
    by (auto simp: find_None_iff)
  then obtain k where "find (\<lambda>l. LocLibId l = i \<and> map_of (CatBooks (Catalog db)) (LocBookId l) \<noteq> None) (Locations db) = Some k" by blast
  moreover from this have "map_of (CatBooks (Catalog db)) (LocBookId k) \<noteq> None" by (auto simp: find_Some_iff)
  ultimately show False using assms(2) by (auto simp: ReadExistingInpxBook_def)
qed

lemma write_new_writes:
  assumes ok: "tables_ok db" and rowid: "new_rowids (RowIds env)" and new: "LibId (ForRecord p) \<notin> set (map LocLibId (Locations db))"
    and w: "write_new env p db = Inr (res, db')"
  shows "writes env p db db'"
proof -
  have lok: "locations_ok db" and sok: "statistics_ok db" using ok by (simp_all add: tables_ok_def)
  then have rel: "relations_ok (CatRelations (Catalog db))" by (simp add: locations_ok_def)
  obtain b f cat cover locs stats where
    i: "InsertInpxBook (RowIds env) (ForRecord p) (ParsedMetadata p) (WrittenAtUtc p) (Catalog db) = Inr (b, f, cat)" and
    l: "UpsertInpxLocation (ForSegment p) b (ForRecord p) Available (ScanId env) (Locations db) = Inr locs" and
    s: "RecordInpxBookInserted (CoverStore env) (RelativePathUtf8 cover) (known_cover_size cover) (Statistics db) = Inr stats" and
    db': "db' = db\<lparr>Catalog := UpdateBookCoverPath b (RelativePathUtf8 cover) cat, Locations := locs, Statistics := stats\<rparr>"
    using w by (auto simp: write_new_def and_then_Inr Let_def)
  obtain b2 cat2 where "InsertInpxBook (RowIds env) (ForRecord p) (ParsedMetadata p) (WrittenAtUtc p) (Catalog db)
      = Inr (b2, snd (BuildStoredMetadata (ForRecord p) (ParsedMetadata p)), cat2)"
    "b2 \<notin> set (map fst (CatBooks (Catalog db)))" "stores (fst (BuildStoredMetadata (ForRecord p) (ParsedMetadata p))) b2 (Catalog db) cat2"
    by (rule insert_stores [OF rel rowid])
  then have b: "b \<notin> set (map fst (CatBooks (Catalog db)))" and rel': "relations_ok (CatRelations cat)"
    using i by (simp_all add: stores_def)
  have keys: "map fst (CatBooks cat) = map fst (CatBooks (Catalog db)) @ [b]"
    using i by (auto simp: InsertInpxBook_def and_then_Inr Let_def split: prod.splits)
  have nb: "b \<notin> set (map LocBookId (Locations db))" using b lok unfolding locations_ok_def by blast
  then have locs: "locs = Locations db @ [written_row env p b]"
    using l by (simp add: UpsertInpxLocation_def Let_def written_row_def del: set_map split: if_splits)
  note r = RecordInpxBookInserted_ok [OF s]
  have "locations_ok db'"
    using lok keys b nb new rel' by (auto simp: locations_ok_def db' locs UpdateBookCoverPath_def simp del: set_map)
  moreover have "statistics_ok db'"
    using sok r keys [THEN arg_cong [of _ _ length]]
    by (simp add: statistics_ok_def db' locs unavailable_count_def UpdateBookCoverPath_def update_rows_def)
  ultimately show ?thesis
    using new loc_of_None [of "LibId (ForRecord p)" "Locations db"]
    by (auto simp: writes_def tables_ok_def db' locs loc_of_append split: option.split)
qed

lemma ReadExisting_Some:
  assumes "locations_ok db" "ReadExistingInpxBook i db = Some x"
  obtains l where "loc_of i (Locations db) = Some l" "ExistingBookId x = LocBookId l" "ExistingAvailabilityUtf8 x = LocAvailability l"
proof -
  obtain l where l: "find (\<lambda>l. LocLibId l = i \<and> map_of (CatBooks (Catalog db)) (LocBookId l) \<noteq> None) (Locations db) = Some l"
    and x: "ExistingBookId x = LocBookId l" "ExistingAvailabilityUtf8 x = LocAvailability l"
    using assms(2) by (auto simp: ReadExistingInpxBook_def split: option.splits)
  then have "l \<in> set (Locations db)" "LocLibId l = i" by (auto simp: find_Some_iff)
  then have "loc_of i (Locations db) = Some l" using assms(1) loc_of_member unfolding locations_ok_def by blast
  then show ?thesis using that x by blast
qed

lemma map_replace_columns:
  assumes "distinct (map LocBookId ls)" "distinct (map LocLibId ls)" "l \<in> set ls" "LocBookId row = LocBookId l" "LocLibId row = LocLibId l"
  shows "map LocBookId (map (\<lambda>k. if LocBookId k = LocBookId l then row else k) ls) = map LocBookId ls"
    and "map LocLibId (map (\<lambda>k. if LocBookId k = LocBookId l then row else k) ls) = map LocLibId ls"
    and "loc_of i (map (\<lambda>k. if LocBookId k = LocBookId l then row else k) ls) = (if i = LocLibId l then Some row else loc_of i ls)"
proof -
  have same: "k = l" if "k \<in> set ls" "LocBookId k = LocBookId l" for k
    using assms(1,3) that by (auto simp: distinct_map inj_on_def)
  then show "map LocBookId (map (\<lambda>k. if LocBookId k = LocBookId l then row else k) ls) = map LocBookId ls"
    "map LocLibId (map (\<lambda>k. if LocBookId k = LocBookId l then row else k) ls) = map LocLibId ls"
    using assms(4,5) by auto
  show "loc_of i (map (\<lambda>k. if LocBookId k = LocBookId l then row else k) ls) = (if i = LocLibId l then Some row else loc_of i ls)"
    using assms
  proof (induction ls)
    case (Cons k ls)
    show ?case
    proof (cases "k = l")
      case True
      then have "map (\<lambda>k. if LocBookId k = LocBookId l then row else k) ls = ls"
        using Cons.prems(1) by (intro map_idI) (auto simp: image_iff)
      then show ?thesis using True Cons.prems(5) by auto
    next
      case False
      then have "l \<in> set ls" "LocBookId k \<noteq> LocBookId l" "LocLibId k \<noteq> LocLibId l" using Cons.prems(1-3) by auto
      then show ?thesis using Cons by auto
    qed
  qed simp
qed

lemma unavailable_replace:
  assumes "distinct (map LocBookId ls)" "l \<in> set ls" "LocAvailability row = availability_ToString Available"
  shows "int (unavailable_count (map (\<lambda>k. if LocBookId k = LocBookId l then row else k) ls)) =
    int (unavailable_count ls) - (if LocAvailability l \<noteq> availability_ToString Available then 1 else 0)"
  using assms(1,2)
proof (induction ls)
  case (Cons k ls)
  show ?case
  proof (cases "k = l")
    case True
    then have "map (\<lambda>k. if LocBookId k = LocBookId l then row else k) ls = ls"
      using Cons.prems(1) by (intro map_idI) (auto simp: image_iff)
    then show ?thesis using True assms(3) by (simp add: unavailable_count_def)
  next
    case False
    then have "l \<in> set ls" "LocBookId k \<noteq> LocBookId l" using Cons.prems by auto
    then show ?thesis using Cons by (auto simp: unavailable_count_def)
  qed
qed simp

lemma IsUnavailable_known:
  "a \<in> set (map availability_ToString [Available, MissingFromIndex]) \<Longrightarrow> IsUnavailable a \<longleftrightarrow> a \<noteq> availability_ToString Available"
  by auto

lemma write_existing_writes:
  assumes ok: "tables_ok db" and rowid: "new_rowids (RowIds env)" and old: "ReadExistingInpxBook (LibId (ForRecord p)) db = Some x"
    and w: "write_existing env x p db = Inr (res, db')"
  shows "writes env p db db'"
proof -
  have lok: "locations_ok db" and sok: "statistics_ok db" using ok by (simp_all add: tables_ok_def)
  then have rel: "relations_ok (CatRelations (Catalog db))" by (simp add: locations_ok_def)
  obtain l where l: "loc_of (LibId (ForRecord p)) (Locations db) = Some l" "ExistingBookId x = LocBookId l" "ExistingAvailabilityUtf8 x = LocAvailability l"
    by (rule ReadExisting_Some [OF lok old])
  note ll = loc_of_Some [OF l(1)]
  obtain f cat cover locs stats1 stats2 where
    u: "UpdateInpxBook (RowIds env) (Nocase env) (LocBookId l) (ForRecord p) (ParsedMetadata p) (Catalog db) = Inr (f, cat)" and
    loc: "UpsertInpxLocation (ForSegment p) (LocBookId l) (ForRecord p) Available (ScanId env) (Locations db) = Inr locs" and
    s1: "RecordCoverPathChanged (CoverStore env) (CatBooks (UpdateBookCoverPath (LocBookId l) (RelativePathUtf8 cover) cat))
        (ExistingCoverPathUtf8 x) (RelativePathUtf8 cover) (known_cover_size cover) (Statistics db) = Inr stats1" and
    s2: "RecordInpxBookAvailabilityChanged (LocAvailability l) (availability_ToString Available) stats1 = Inr stats2" and
    db': "db' = db\<lparr>Catalog := UpdateBookCoverPath (LocBookId l) (RelativePathUtf8 cover) cat, Locations := locs, Statistics := stats2\<rparr>"
    using w l(2,3) by (auto simp: write_existing_def and_then_Inr Let_def)
  obtain oldm where oldm: "ReadStoredMetadata (Nocase env) (LocBookId l) (Catalog db) = Some oldm"
    using u by (cases "ReadStoredMetadata (Nocase env) (LocBookId l) (Catalog db)") (simp_all add: UpdateInpxBook_def)
  obtain cat2 where "UpdateInpxBook (RowIds env) (Nocase env) (LocBookId l) (ForRecord p) (ParsedMetadata p) (Catalog db)
      = Inr (snd (BuildStoredMetadata (ForRecord p) (ParsedMetadata p)), cat2)"
    "stores (fst (BuildStoredMetadata (ForRecord p) (ParsedMetadata p))) (LocBookId l) (Catalog db) cat2"
    by (rule update_stores [OF rel rowid oldm, of "ForRecord p" "ParsedMetadata p"])
  then have rel': "relations_ok (CatRelations cat)" using u by (simp add: stores_def)
  have keys: "map fst (CatBooks cat) = map fst (CatBooks (Catalog db))"
    using u oldm by (auto simp: UpdateInpxBook_def and_then_Inr split: prod.splits)
  have locs: "locs = map (\<lambda>k. if LocBookId k = LocBookId l then written_row env p (LocBookId l) else k) (Locations db)"
    using loc ll by (auto simp: UpsertInpxLocation_def Let_def written_row_def split: if_splits)
  have d: "distinct (map LocBookId (Locations db))" "distinct (map LocLibId (Locations db))" using lok by (simp_all add: locations_ok_def)
  have lib: "LocLibId (written_row env p (LocBookId l)) = LocLibId l" using ll by simp
  note cols = map_replace_columns [OF d conjunct1 [OF ll], of "written_row env p (LocBookId l)", simplified written_row_simps(1) lib, OF refl refl]
  note cols = cols [folded locs]
  have "list_all (\<lambda>l. LocAvailability l \<in> set (map availability_ToString [Available, MissingFromIndex])) locs"
    using lok unfolding locs locations_ok_def list_all_iff by auto
  then have "locations_ok db'"
    using lok keys rel' cols(1,2) by (simp add: locations_ok_def db' UpdateBookCoverPath_def del: set_map)
  moreover have "statistics_ok db'"
  proof -
    have "cover_step (Statistics db) (Inr stats1)"
      unfolding s1 [symmetric] by (rule RecordCoverPathChanged_ok) (use sok in \<open>simp add: statistics_ok_def\<close>)
    then have "covers_ok stats1 \<and> same_counts (Statistics db) stats1" by (simp add: cover_step_def)
    moreover from this have "covers_ok stats1" by blast
    note r = RecordAvailability_ok [OF s2 this]
    moreover have "LocAvailability l \<in> set (map availability_ToString [Available, MissingFromIndex])"
      using lok ll unfolding locations_ok_def list_all_iff by blast
    note un = IsUnavailable_known [OF this]
    moreover have "int (unavailable_count locs) = int (unavailable_count (Locations db)) - (if LocAvailability l \<noteq> availability_ToString Available then 1 else 0)"
      unfolding locs by (rule unavailable_replace [OF d(1) conjunct1 [OF ll]]) simp
    moreover have "length (CatBooks cat) = length (CatBooks (Catalog db))" using keys by (metis length_map)
    ultimately show ?thesis
      using sok by (simp add: statistics_ok_def db' UpdateBookCoverPath_def update_rows_def same_counts_def)
  qed
  ultimately show ?thesis
    using ll cols(3) by (auto simp: writes_def tables_ok_def db')
qed

lemma WriteParsedRecord_writes:
  assumes "tables_ok db" "new_rowids (RowIds env)" "WriteParsedRecord env p db = Inr (res, db')"
  shows "writes env p db db'"
proof (cases "ReadExistingInpxBook (LibId (ForRecord p)) db")
  case None
  then have "LibId (ForRecord p) \<notin> set (map LocLibId (Locations db))" using ReadExisting_None assms(1) unfolding tables_ok_def by blast
  then show ?thesis using write_new_writes [OF assms(1,2)] assms(3) None by (simp add: WriteParsedRecord_def)
next
  case (Some x)
  then show ?thesis using write_existing_writes [OF assms(1,2) Some] assms(3) by (simp add: WriteParsedRecord_def)
qed

end
