(* ===== verification/Scan_Transaction.thy ===== *)
theory Scan_Transaction
  imports Scan_Tables
begin

text \<open>
  What the transaction of a scan does to the tables as a whole: the payloads are written, absent books are marked,
  and the availability of every book is decided by the segments and their deletions.
\<close>

section \<open>All payloads\<close>

lemma write_all_effect:
  assumes "write_all env ps db = Inr (res, db')" "tables_ok db" "new_rowids (RowIds env)" "distinct (map (\<lambda>p. LibId (ForRecord p)) ps)"
  shows "tables_ok db' \<and> Segments db' = Segments db \<and> Deletions db' = Deletions db \<and> Source db' = Source db
    \<and> (\<forall>p \<in> set ps. \<exists>b. loc_of (LibId (ForRecord p)) (Locations db') = Some (written_row env p b))
    \<and> (\<forall>i. i \<notin> (\<lambda>p. LibId (ForRecord p)) ` set ps \<longrightarrow> loc_of i (Locations db') = loc_of i (Locations db))"
  using assms(1,2,4)
proof (induction ps arbitrary: db res)
  case Nil
  then show ?case by simp
next
  case (Cons p ps)
  obtain r db1 rs where w: "WriteParsedRecord env p db = Inr (r, db1)" and rest: "write_all env ps db1 = Inr (rs, db')"
    using Cons.prems(1) by (auto simp: and_then_Inr)
  have 1: "writes env p db db1" using WriteParsedRecord_writes [OF Cons.prems(2) assms(3) w] .
  then have ok1: "tables_ok db1" and b: "\<exists>b. loc_of (LibId (ForRecord p)) (Locations db1) = Some (written_row env p b)"
    and o: "\<And>i. i \<noteq> LibId (ForRecord p) \<Longrightarrow> loc_of i (Locations db1) = loc_of i (Locations db)"
    and same: "Segments db1 = Segments db" "Deletions db1 = Deletions db" "Source db1 = Source db"
    unfolding writes_def by blast+
  have d: "distinct (map (\<lambda>p. LibId (ForRecord p)) ps)" and new: "LibId (ForRecord p) \<notin> (\<lambda>p. LibId (ForRecord p)) ` set ps"
    using Cons.prems(3) by simp_all
  note ih = Cons.IH [OF rest ok1 d]
  have "loc_of (LibId (ForRecord p)) (Locations db') = loc_of (LibId (ForRecord p)) (Locations db1)" using ih new by blast
  moreover have "loc_of i (Locations db') = loc_of i (Locations db)" if "i \<notin> (\<lambda>p. LibId (ForRecord p)) ` set (p # ps)" for i
    using that ih o [of i] by simp
  ultimately show ?case using ih b same by simp
qed

section \<open>Availability\<close>

text \<open>A book is available if it is in the last scan of its segment, that segment is there, and no later one deletes it.\<close>

definition offered :: "scan_tables \<Rightarrow> location_row \<Rightarrow> bool" where
  "offered db l \<longleftrightarrow> LocPresent l \<and> in_available_segment db l \<and> \<not> deleted_later db l"

definition finish_row :: "string \<Rightarrow> int list \<Rightarrow> scan_tables \<Rightarrow> location_row \<Rightarrow> location_row" where
  "finish_row scanId changed db l =
    (let l1 = (if LocSegmentId l \<in> set changed \<and> LocPresent l \<and> LocScan l \<noteq> Some scanId
               then l\<lparr>LocPresent := False, LocScan := Some scanId\<rparr> else l);
         l2 = (if marked_unavailable db l1 then l1\<lparr>LocAvailability := availability_ToString MissingFromIndex, LocScan := Some scanId\<rparr> else l1) in
     if restored_available db l2 then l2\<lparr>LocAvailability := availability_ToString Available, LocScan := Some scanId\<rparr> else l2)"

lemma mark_absent_fold:
  "foldl (\<lambda>ls s. mark_absent scanId s ls) ls changed =
    map (\<lambda>l. if LocSegmentId l \<in> set changed \<and> LocPresent l \<and> LocScan l \<noteq> Some scanId
      then l\<lparr>LocPresent := False, LocScan := Some scanId\<rparr> else l) ls"
proof (induction changed arbitrary: ls)
  case Nil
  then show ?case by (induction ls) simp_all
next
  case (Cons s changed)
  show ?case unfolding foldl_Cons Cons.IH [of "mark_absent scanId s ls"] unfolding mark_absent_def map_map
    by (rule map_cong [OF refl]) auto
qed

lemma segment_conditions [simp]:
  "in_available_segment (db\<lparr>Locations := ls\<rparr>) = in_available_segment db" "deleted_later (db\<lparr>Locations := ls\<rparr>) = deleted_later db"
  "marked_unavailable (db\<lparr>Locations := ls\<rparr>) = marked_unavailable db" "restored_available (db\<lparr>Locations := ls\<rparr>) = restored_available db"
  by (simp_all add: fun_eq_iff in_available_segment_def deleted_later_def marked_unavailable_def restored_available_def)

lemma segment_conditions_row [simp]:
  "in_available_segment db (l\<lparr>LocAvailability := a\<rparr>) = in_available_segment db l" "in_available_segment db (l\<lparr>LocScan := s\<rparr>) = in_available_segment db l"
  "in_available_segment db (l\<lparr>LocPresent := b\<rparr>) = in_available_segment db l"
  "deleted_later db (l\<lparr>LocAvailability := a\<rparr>) = deleted_later db l" "deleted_later db (l\<lparr>LocScan := s\<rparr>) = deleted_later db l"
  "deleted_later db (l\<lparr>LocPresent := b\<rparr>) = deleted_later db l"
  by (simp_all add: in_available_segment_def deleted_later_def)

lemma finish_row_key [simp]: "LocLibId (finish_row scanId changed db l) = LocLibId l" "LocBookId (finish_row scanId changed db l) = LocBookId l"
  "LocSegmentId (finish_row scanId changed db l) = LocSegmentId l"
  by (simp_all add: finish_row_def Let_def)

lemma finish_row_present: "LocPresent (finish_row scanId changed db l) \<longleftrightarrow>
    LocPresent l \<and> (LocSegmentId l \<in> set changed \<longrightarrow> LocScan l = Some scanId)"
  by (auto simp: finish_row_def Let_def)

lemma offered_row [simp]: "offered db (l\<lparr>LocAvailability := a\<rparr>) = offered db l" "offered db (l\<lparr>LocScan := s\<rparr>) = offered db l"
  by (simp_all add: offered_def)

lemma finish_row_available:
  assumes "LocAvailability l \<in> set (map availability_ToString [Available, MissingFromIndex])"
  shows "LocAvailability (finish_row scanId changed db l) = availability_ToString (if offered db (finish_row scanId changed db l) then Available else MissingFromIndex)"
proof -
  let ?l1 = "if LocSegmentId l \<in> set changed \<and> LocPresent l \<and> LocScan l \<noteq> Some scanId then l\<lparr>LocPresent := False, LocScan := Some scanId\<rparr> else l"
  have a: "LocAvailability ?l1 = availability_ToString Available \<or> LocAvailability ?l1 = availability_ToString MissingFromIndex"
    using assms by auto
  have e: "finish_row scanId changed db l =
    (let l2 = (if marked_unavailable db ?l1 then ?l1\<lparr>LocAvailability := availability_ToString MissingFromIndex, LocScan := Some scanId\<rparr> else ?l1) in
     if restored_available db l2 then l2\<lparr>LocAvailability := availability_ToString Available, LocScan := Some scanId\<rparr> else l2)"
    by (simp only: finish_row_def Let_def)
  show ?thesis
    unfolding e using a
    by (cases "offered db ?l1") (auto simp: Let_def marked_unavailable_def restored_available_def offered_def simp del: if_split_asm)
qed

text \<open>The tables after \<open>Finish\<close>.\<close>

lemma finish_tables_effect:
  assumes f: "finish_tables scanId input changed db = Inr (n, db')"
  shows "Locations db' = map (finish_row scanId changed db) (Locations db)"
    and "Segments db' = Segments db" "Deletions db' = Deletions db" "Catalog db' = Catalog db"
    and "finish_row scanId changed db' = finish_row scanId changed db" "offered db' = offered db"
proof -
  show segs: "Segments db' = Segments db" "Deletions db' = Deletions db" "Catalog db' = Catalog db"
    using f by (auto simp: finish_tables_def Let_def set_availability_def and_then_Inr)
  show "Locations db' = map (finish_row scanId changed db) (Locations db)"
    using f by (auto simp: finish_tables_def Let_def set_availability_def and_then_Inr mark_absent_fold finish_row_def)
  have "in_available_segment db' = in_available_segment db" "deleted_later db' = deleted_later db"
    using segs by (simp_all add: fun_eq_iff in_available_segment_def deleted_later_def)
  then show "finish_row scanId changed db' = finish_row scanId changed db" "offered db' = offered db"
    by (simp_all add: fun_eq_iff finish_row_def Let_def marked_unavailable_def restored_available_def offered_def)
qed

end
