(* ===== verification/Rescan.thy ===== *)
theory Rescan
  imports Scan_Transaction
begin

text \<open>
  What a scan means. An INPX snapshot is a sequence of segments, and the library it describes is the replay of that
  sequence: a segment first takes away the books it marks as deleted, then adds its own. A scan works on what the
  previous one left and writes only the segments that are new or changed; here it is shown to refine the replay.
\<close>

section \<open>The abstract specification\<close>

definition is_supported :: "SInpxRecord \<Rightarrow> bool" where
  "is_supported r \<longleftrightarrow> ToLowerAscii (FileExtensionUtf8 r) = ''fb2''"

definition active_ids :: "SInpxRecord list \<Rightarrow> string set" where
  "active_ids records = LibId ` set (filter (\<lambda>r. \<not> Deleted r \<and> is_supported r) records)"

definition deleted_ids :: "SInpxRecord list \<Rightarrow> string set" where
  "deleted_ids records = LibId ` set (filter Deleted records)"

text \<open>A snapshot gives the names and fingerprints of its segments; \<open>content\<close> is what a fingerprint stands for.\<close>

type_synonym snapshot = "(string \<times> string) list"

definition replay_segment :: "(string \<Rightarrow> SInpxRecord list) \<Rightarrow> string set \<Rightarrow> string \<times> string \<Rightarrow> string set" where
  "replay_segment content books segment = (books - deleted_ids (content (snd segment))) \<union> active_ids (content (snd segment))"

definition replay :: "(string \<Rightarrow> SInpxRecord list) \<Rightarrow> snapshot \<Rightarrow> string set" where
  "replay content cur = foldl (replay_segment content) {} cur"

lemma replay_snoc: "replay content (cur @ [s]) = replay_segment content (replay content cur) s"
  by (simp add: replay_def)

lemma in_replay:
  "i \<in> replay content cur \<longleftrightarrow>
    (\<exists>k < length cur. i \<in> active_ids (content (snd (cur ! k))) \<and>
      (\<forall>j. k < j \<and> j < length cur \<longrightarrow> i \<notin> deleted_ids (content (snd (cur ! j)))))"
proof (induction cur rule: rev_induct)
  case Nil
  then show ?case by (simp add: replay_def)
next
  case (snoc s cur)
  let ?A = "\<lambda>k. i \<in> active_ids (content (snd ((cur @ [s]) ! k)))" and ?D = "\<lambda>k. i \<in> deleted_ids (content (snd ((cur @ [s]) ! k)))"
  have "i \<in> replay content (cur @ [s]) \<longleftrightarrow> ?A (length cur) \<or> (i \<in> replay content cur \<and> \<not> ?D (length cur))"
    by (auto simp: replay_snoc replay_segment_def)
  also have "i \<in> replay content cur \<longleftrightarrow> (\<exists>k < length cur. ?A k \<and> (\<forall>j. k < j \<and> j < length cur \<longrightarrow> \<not> ?D j))"
    unfolding snoc.IH by (auto simp: nth_append)
  also have "?A (length cur) \<or> (\<exists>k < length cur. ?A k \<and> (\<forall>j. k < j \<and> j < length cur \<longrightarrow> \<not> ?D j)) \<and> \<not> ?D (length cur)
    \<longleftrightarrow> (\<exists>k < Suc (length cur). ?A k \<and> (\<forall>j. k < j \<and> j < Suc (length cur) \<longrightarrow> \<not> ?D j))"
    by (auto simp: less_Suc_eq)
  finally show ?case by simp
qed

section \<open>The tables of a scanned snapshot\<close>

definition present_ids :: "int \<Rightarrow> location_row list \<Rightarrow> string set" where
  "present_ids segmentId locations = LocLibId ` set (filter (\<lambda>l. LocSegmentId l = segmentId \<and> LocPresent l) locations)"

definition available_ids :: "scan_tables \<Rightarrow> string set" where
  "available_ids db = LocLibId ` set (filter (\<lambda>l. LocAvailability l = availability_ToString Available) (Locations db))"

definition row_available :: "segment_row \<Rightarrow> bool" where
  "row_available r \<longleftrightarrow> RowAvailability r = availability_ToString Available"

lemma in_present_ids: "i \<in> present_ids s ls \<longleftrightarrow> (\<exists>l \<in> set ls. LocLibId l = i \<and> LocSegmentId l = s \<and> LocPresent l)"
  by (auto simp: present_ids_def)

lemma in_available_ids: "i \<in> available_ids db \<longleftrightarrow> (\<exists>l \<in> set (Locations db). LocLibId l = i \<and> LocAvailability l = availability_ToString Available)"
  by (auto simp: available_ids_def)

text \<open>Every available segment holds what its fingerprint stands for: what a rescan relies on when it skips one.\<close>

definition faithful_row :: "(string \<Rightarrow> SInpxRecord list) \<Rightarrow> scan_tables \<Rightarrow> segment_row \<Rightarrow> bool" where
  "faithful_row content db r \<longleftrightarrow>
    present_ids (SegmentId r) (Locations db) = active_ids (content (RowFingerprint r))
    \<and> deletions_of (SegmentId r) (Deletions db) = deleted_ids (content (RowFingerprint r))"

definition faithful :: "(string \<Rightarrow> SInpxRecord list) \<Rightarrow> scan_tables \<Rightarrow> bool" where
  "faithful content db \<longleftrightarrow> segments_ok (Segments db) \<and> tables_ok db
    \<and> list_all (\<lambda>r. row_available r \<longrightarrow> faithful_row content db r) (Segments db)"

definition reflects :: "(string \<Rightarrow> SInpxRecord list) \<Rightarrow> snapshot \<Rightarrow> scan_tables \<Rightarrow> bool" where
  "reflects content cur db \<longleftrightarrow> faithful content db \<and> distinct (map fst cur)
    \<and> (\<forall>k < length cur. \<exists>r. seg_of (fst (cur ! k)) (Segments db) = Some r \<and> row_available r
         \<and> RowOrder r = int k \<and> RowFingerprint r = snd (cur ! k))
    \<and> (\<forall>r \<in> set (Segments db). row_available r \<longrightarrow> RowInpEntryName r \<in> set (map fst cur))
    \<and> (\<forall>l \<in> set (Locations db). LocAvailability l = availability_ToString Available \<longleftrightarrow> offered db l)"

text \<open>The available row of a position, and back.\<close>

lemma reflects_row:
  assumes "reflects content cur db" "k < length cur"
  obtains r where "r \<in> set (Segments db)" "row_available r" "RowInpEntryName r = fst (cur ! k)" "RowOrder r = int k"
    "present_ids (SegmentId r) (Locations db) = active_ids (content (snd (cur ! k)))"
    "deletions_of (SegmentId r) (Deletions db) = deleted_ids (content (snd (cur ! k)))"
proof -
  obtain r where r: "seg_of (fst (cur ! k)) (Segments db) = Some r" "row_available r" "RowOrder r = int k" "RowFingerprint r = snd (cur ! k)"
    using assms unfolding reflects_def by blast
  then have m: "r \<in> set (Segments db)" "RowInpEntryName r = fst (cur ! k)" using seg_of_Some by blast+
  then have "faithful_row content db r" using assms(1) r(2) by (auto simp: reflects_def faithful_def list_all_iff)
  then show ?thesis using that m r by (simp add: faithful_row_def)
qed

lemma reflects_index:
  assumes "reflects content cur db" "r \<in> set (Segments db)" "row_available r"
  obtains k where "k < length cur" "RowInpEntryName r = fst (cur ! k)" "RowOrder r = int k"
    "present_ids (SegmentId r) (Locations db) = active_ids (content (snd (cur ! k)))"
    "deletions_of (SegmentId r) (Deletions db) = deleted_ids (content (snd (cur ! k)))"
proof -
  have "RowInpEntryName r \<in> set (map fst cur)" using assms unfolding reflects_def by blast
  then obtain k where k: "k < length cur" "RowInpEntryName r = fst (cur ! k)" by (auto simp: in_set_conv_nth)
  obtain q where q: "q \<in> set (Segments db)" "RowInpEntryName q = fst (cur ! k)" "RowOrder q = int k"
    "present_ids (SegmentId q) (Locations db) = active_ids (content (snd (cur ! k)))"
    "deletions_of (SegmentId q) (Deletions db) = deleted_ids (content (snd (cur ! k)))" by (rule reflects_row [OF assms(1) k(1)])
  have "distinct (map RowInpEntryName (Segments db))" using assms(1) by (simp add: reflects_def faithful_def segments_ok_def)
  then have "r = q" using assms(2) q(1,2) k(2) by (auto simp: distinct_map inj_on_def)
  then show ?thesis using that k q by simp
qed

lemma segment_id_eq:
  assumes "segments_ok rows" "r \<in> set rows" "q \<in> set rows" "SegmentId r = SegmentId q"
  shows "r = q"
  using assms by (auto simp: segments_ok_def distinct_map inj_on_def)

lemma deleted_later_iff:
  "deleted_later db l \<longleftrightarrow> (\<exists>d \<in> set (Segments db). row_available d \<and> LocLibId l \<in> deletions_of (SegmentId d) (Deletions db)
    \<and> (\<exists>a \<in> set (Segments db). SegmentId a = LocSegmentId l \<and> RowOrder d > RowOrder a))"
    (is "_ \<longleftrightarrow> (\<exists>d \<in> _. _ \<and> _ \<and> ?P d)")
proof -
  have "deleted_later db l \<longleftrightarrow> (\<exists>e \<in> set (Deletions db). snd e = LocLibId l \<and> (\<exists>d \<in> set (Segments db). SegmentId d = fst e \<and> row_available d \<and> ?P d))"
    by (simp add: deleted_later_def list_ex_iff row_available_def case_prod_beta)
  also have "\<dots> \<longleftrightarrow> (\<exists>d \<in> set (Segments db). \<exists>e \<in> set (Deletions db). snd e = LocLibId l \<and> SegmentId d = fst e \<and> row_available d \<and> ?P d)"
    by blast
  also have "\<dots> \<longleftrightarrow> (\<exists>d \<in> set (Segments db). row_available d \<and> LocLibId l \<in> deletions_of (SegmentId d) (Deletions db) \<and> ?P d)"
  proof (rule bex_cong [OF refl])
    fix d
    show "(\<exists>e \<in> set (Deletions db). snd e = LocLibId l \<and> SegmentId d = fst e \<and> row_available d \<and> ?P d) \<longleftrightarrow>
      row_available d \<and> LocLibId l \<in> deletions_of (SegmentId d) (Deletions db) \<and> ?P d"
      by (cases "?P d") (auto simp: deletions_of_def intro: bexI [of _ "(SegmentId d, LocLibId l)"])
  qed
  finally show ?thesis .
qed

lemma in_available_segment_iff:
  "in_available_segment db l \<longleftrightarrow> (\<exists>s \<in> set (Segments db). SegmentId s = LocSegmentId l \<and> row_available s)"
  by (auto simp: in_available_segment_def list_ex_iff row_available_def)

text \<open>The offered books are the replay.\<close>

lemma offered_in_replay:
  assumes r: "reflects content cur db" and l: "l \<in> set (Locations db)" and o: "offered db l"
  shows "LocLibId l \<in> replay content cur"
proof -
  obtain s where s: "s \<in> set (Segments db)" "SegmentId s = LocSegmentId l" "row_available s" and pres: "LocPresent l"
    and nd: "\<not> deleted_later db l" using o by (auto simp: offered_def in_available_segment_iff)
  obtain k where k: "k < length cur" "RowOrder s = int k"
    "present_ids (SegmentId s) (Locations db) = active_ids (content (snd (cur ! k)))" by (rule reflects_index [OF r s(1,3)])
  have "LocLibId l \<in> active_ids (content (snd (cur ! k)))"
    unfolding k(3) [symmetric] in_present_ids using l pres s(2) by (intro bexI [of _ l]) simp_all
  moreover have "LocLibId l \<notin> deleted_ids (content (snd (cur ! j)))" if j: "k < j" "j < length cur" for j
  proof
    assume "LocLibId l \<in> deleted_ids (content (snd (cur ! j)))"
    moreover obtain d where "d \<in> set (Segments db)" "row_available d" "RowOrder d = int j"
      "deletions_of (SegmentId d) (Deletions db) = deleted_ids (content (snd (cur ! j)))" by (rule reflects_row [OF r j(2)])
    ultimately have "deleted_later db l" unfolding deleted_later_iff using s k(2) j(1)
      by (intro bexI [of _ d] conjI bexI [of _ s]) simp_all
    with nd show False ..
  qed
  ultimately show ?thesis unfolding in_replay using k(1) by blast
qed

lemma replay_in_offered:
  assumes r: "reflects content cur db" and i: "i \<in> replay content cur"
  obtains l where "l \<in> set (Locations db)" "LocLibId l = i" "offered db l"
proof -
  obtain k where k: "k < length cur" "i \<in> active_ids (content (snd (cur ! k)))"
    and nd: "\<And>j. k < j \<Longrightarrow> j < length cur \<Longrightarrow> i \<notin> deleted_ids (content (snd (cur ! j)))" using i unfolding in_replay by blast
  obtain s where s: "s \<in> set (Segments db)" "row_available s" "RowOrder s = int k"
    "present_ids (SegmentId s) (Locations db) = active_ids (content (snd (cur ! k)))" by (rule reflects_row [OF r k(1)])
  then obtain l where l: "l \<in> set (Locations db)" "LocLibId l = i" "LocSegmentId l = SegmentId s" "LocPresent l"
    using k(2) unfolding s(4) [symmetric] in_present_ids by blast
  have ok: "segments_ok (Segments db)" using r by (simp add: reflects_def faithful_def)
  have "\<not> deleted_later db l"
  proof
    assume "deleted_later db l"
    then obtain d a where d: "d \<in> set (Segments db)" "row_available d" "i \<in> deletions_of (SegmentId d) (Deletions db)"
      and a: "a \<in> set (Segments db)" "SegmentId a = SegmentId s" "RowOrder d > RowOrder a" unfolding deleted_later_iff using l by auto
    have "a = s" by (rule segment_id_eq [OF ok a(1) s(1) a(2)])
    obtain j where "j < length cur" "RowOrder d = int j"
      "deletions_of (SegmentId d) (Deletions db) = deleted_ids (content (snd (cur ! j)))" by (rule reflects_index [OF r d(1,2)])
    then show False using nd [of j] d(3) a(3) s(3) \<open>a = s\<close> by simp
  qed
  then have "offered db l" using l s by (auto simp: offered_def in_available_segment_iff)
  then show ?thesis using that l by blast
qed

lemma reflects_replay:
  assumes "reflects content cur db"
  shows "available_ids db = replay content cur"
proof -
  have a: "LocAvailability l = availability_ToString Available \<longleftrightarrow> offered db l" if "l \<in> set (Locations db)" for l
    using assms that unfolding reflects_def by blast
  show ?thesis
  proof (rule set_eqI)
    fix i
    show "i \<in> available_ids db \<longleftrightarrow> i \<in> replay content cur"
      unfolding in_available_ids using a offered_in_replay [OF assms] replay_in_offered [OF assms, of i] by metis
  qed
qed

end
