(* ===== verification/Scan_Refinement.thy ===== *)
theory Scan_Refinement
  imports Rescan
begin

text \<open>
  The transaction of a scan refines the replay of its snapshot, under the contracts of the planner (\<open>plans_for\<close>) and of
  the reader of the payloads (\<open>writes_for\<close>), and it keeps the tables and their statistics consistent.
\<close>

section \<open>The statistics after a scan\<close>

lemma unavailable_count_simps [simp]:
  "unavailable_count [] = 0"
  "unavailable_count (l # ls) = (if LocAvailability l = availability_ToString Available then 0 else 1) + unavailable_count ls"
  by (simp_all add: unavailable_count_def)

lemma unavailable_count_mark:
  assumes "\<And>l. P l \<Longrightarrow> LocAvailability l = availability_ToString Available"
  shows "unavailable_count (map (\<lambda>l. if P l then l\<lparr>LocAvailability := availability_ToString MissingFromIndex, LocScan := s\<rparr> else l) ls)
    = unavailable_count ls + length (filter P ls)"
  by (induction ls) (simp_all add: assms)

lemma unavailable_count_restore:
  assumes "\<And>l. P l \<Longrightarrow> LocAvailability l = availability_ToString MissingFromIndex"
  shows "unavailable_count (map (\<lambda>l. if P l then l\<lparr>LocAvailability := availability_ToString Available, LocScan := s\<rparr> else l) ls) + length (filter P ls)
    = unavailable_count ls"
  by (induction ls) (simp_all add: assms)

lemma unavailable_count_absent: "unavailable_count (mark_absent scanId s ls) = unavailable_count ls"
  by (induction ls) (simp_all add: mark_absent_def)

lemma unavailable_count_absent_all:
  "unavailable_count (foldl (\<lambda>ls s. mark_absent scanId s ls) ls changed) = unavailable_count ls"
  by (induction changed arbitrary: ls) (simp_all add: unavailable_count_absent)

lemma AddUnavailableBooks_ok:
  assumes "AddUnavailableBooks n t = Inr t'" "covers_ok t"
  shows "covers_ok t' \<and> BookCount (EnsureStatisticsRow t') = BookCount (EnsureStatisticsRow t)
    \<and> UnavailableBookCount (EnsureStatisticsRow t') = UnavailableBookCount (EnsureStatisticsRow t) + int n"
proof (cases "n = 0")
  case True
  then show ?thesis using assms by (simp add: AddUnavailableBooks_def)
next
  case False
  then have "AddStatisticsDelta 0 (int n) 0 0 t = Inr t'"
    using assms(1) by (auto simp: AddUnavailableBooks_def ToSqliteInt64_def split: if_splits)
  from counts_delta [OF this assms(2)] show ?thesis by simp
qed

lemma RemoveUnavailableBooks_ok:
  assumes "RemoveUnavailableBooks n t = Inr t'" "covers_ok t"
  shows "covers_ok t' \<and> BookCount (EnsureStatisticsRow t') = BookCount (EnsureStatisticsRow t)
    \<and> UnavailableBookCount (EnsureStatisticsRow t') = UnavailableBookCount (EnsureStatisticsRow t) - int n"
proof (cases "n = 0")
  case True
  then show ?thesis using assms by (simp add: RemoveUnavailableBooks_def)
next
  case False
  then have "AddStatisticsDelta 0 (- int n) 0 0 t = Inr t'"
    using assms(1) by (auto simp: RemoveUnavailableBooks_def ToSqliteInt64_def split: if_splits)
  from counts_delta [OF this assms(2)] show ?thesis by simp
qed

lemma SetInpxSourceSize_ok:
  assumes "SetInpxSourceSize n t = Inr t'" "covers_ok t"
  shows "covers_ok t' \<and> BookCount (EnsureStatisticsRow t') = BookCount (EnsureStatisticsRow t)
    \<and> UnavailableBookCount (EnsureStatisticsRow t') = UnavailableBookCount (EnsureStatisticsRow t)"
  using assms by (auto simp: SetInpxSourceSize_def ToSqliteInt64_def set_row_def covers_ok_def statistics_check_def split: if_splits)

lemma finish_tables_ok:
  assumes f: "finish_tables scanId input changed db = Inr (n, db')" and ok: "tables_ok db"
  shows "tables_ok db'"
proof -
  note e = finish_tables_effect [OF f]
  have lok: "locations_ok db" and sok: "statistics_ok db" using ok by (simp_all add: tables_ok_def)
  have "LocAvailability (finish_row scanId changed db l) \<in> set (map availability_ToString [Available, MissingFromIndex])"
    if "l \<in> set (Locations db)" for l
    using lok finish_row_available [of l scanId changed db] that unfolding locations_ok_def list_all_iff by simp
  then have "list_all (\<lambda>l. LocAvailability l \<in> set (map availability_ToString [Available, MissingFromIndex])) (Locations db')"
    unfolding e(1) list_all_iff by (simp del: list.map)
  then have l': "locations_ok db'"
    using lok by (simp add: locations_ok_def e(1,4) comp_def del: set_map)
  let ?ls1 = "foldl (\<lambda>ls s. mark_absent scanId s ls) (Locations db) changed"
  let ?n1 = "length (filter (marked_unavailable db) ?ls1)"
  let ?ls2 = "map (\<lambda>l. if marked_unavailable db l then l\<lparr>LocAvailability := availability_ToString MissingFromIndex, LocScan := Some scanId\<rparr> else l) ?ls1"
  let ?n2 = "length (filter (restored_available db) ?ls2)"
  let ?ls3 = "map (\<lambda>l. if restored_available db l then l\<lparr>LocAvailability := availability_ToString Available, LocScan := Some scanId\<rparr> else l) ?ls2"
  obtain t1 t2 t3 where t: "AddUnavailableBooks ?n1 (Statistics db) = Inr t1" "RemoveUnavailableBooks ?n2 t1 = Inr t2"
    "SetInpxSourceSize (FinishSourceSize input) t2 = Inr t3" and db': "Locations db' = ?ls3" "Statistics db' = t3"
    using f by (auto simp: finish_tables_def Let_def set_availability_def and_then_Inr)
  have c: "covers_ok (Statistics db)" using sok by (simp add: statistics_ok_def)
  note a1 = AddUnavailableBooks_ok [OF t(1) c]
  note a2 = RemoveUnavailableBooks_ok [OF t(2) conjunct1 [OF a1]]
  note a3 = SetInpxSourceSize_ok [OF t(3) conjunct1 [OF a2]]
  have "unavailable_count ?ls2 = unavailable_count (Locations db) + ?n1"
    using unavailable_count_mark [of "marked_unavailable db" "Some scanId" ?ls1] by (simp add: marked_unavailable_def unavailable_count_absent_all)
  moreover have "unavailable_count ?ls3 + ?n2 = unavailable_count ?ls2"
    using unavailable_count_restore [of "restored_available db" "Some scanId" ?ls2] by (simp add: restored_available_def del: map_map)
  ultimately have "int (unavailable_count (Locations db')) = int (unavailable_count (Locations db)) + int ?n1 - int ?n2"
    unfolding db'(1) by linarith
  then have "statistics_ok db'" using sok a1 a2 a3 e(4) db'(2) by (simp add: statistics_ok_def)
  with l' show ?thesis by (simp add: tables_ok_def)
qed

section \<open>The contracts\<close>

text \<open>What the planner owes: a plan per segment in order, reusing only an available row of the same fingerprint, then
  one for every row that has gone.\<close>

definition plan_for :: "(string \<Rightarrow> SInpxRecord list) \<Rightarrow> scan_tables \<Rightarrow> nat \<Rightarrow> string \<times> string \<Rightarrow> SInpxSegmentPlan \<Rightarrow> bool" where
  "plan_for content db k segment plan \<longleftrightarrow>
    plan_name plan = fst segment \<and> SegFingerprintUtf8 (Payload plan) = snd segment \<and> SegmentOrder plan = k \<and> Change plan \<noteq> SegmentRemoved
    \<and> (Change plan = SegmentUnchanged \<longrightarrow>
        (case seg_of (fst segment) (Segments db) of None \<Rightarrow> False | Some r \<Rightarrow> row_available r \<and> RowFingerprint r = snd segment))
    \<and> (needs_scan plan \<longrightarrow> set (DeletedLibIds plan) = deleted_ids (content (snd segment)))"

definition plans_for :: "(string \<Rightarrow> SInpxRecord list) \<Rightarrow> snapshot \<Rightarrow> scan_tables \<Rightarrow> SInpxSegmentPlan list \<Rightarrow> bool" where
  "plans_for content cur db plans \<longleftrightarrow> length cur \<le> length plans \<and> distinct (map plan_name plans)
    \<and> (\<forall>k < length cur. plan_for content db k (cur ! k) (plans ! k))
    \<and> (\<forall>k < length plans. length cur \<le> k \<longrightarrow> Change (plans ! k) = SegmentRemoved)
    \<and> set (map RowInpEntryName (Segments db)) \<subseteq> set (map plan_name plans)"

definition written_ids :: "int \<Rightarrow> parsed_record list \<Rightarrow> string set" where
  "written_ids segmentId ws = (\<lambda>p. LibId (ForRecord p)) ` set (filter (\<lambda>p. ForSegment p = segmentId) ws)"

text \<open>What the reader owes: the active records of the segments to scan, each once, and none of a segment that is reused.\<close>

definition writes_for :: "(string \<Rightarrow> SInpxRecord list) \<Rightarrow> snapshot \<Rightarrow> SInpxSegmentPlan list \<Rightarrow> int list \<Rightarrow> parsed_record list \<Rightarrow> bool" where
  "writes_for content cur plans ids ws \<longleftrightarrow> distinct (map (\<lambda>p. LibId (ForRecord p)) ws)
    \<and> (\<forall>p \<in> set ws. \<exists>k < length cur. needs_scan (plans ! k) \<and> ForSegment p = ids ! k)
    \<and> (\<forall>k < length cur. if needs_scan (plans ! k) then written_ids (ids ! k) ws = active_ids (content (snd (cur ! k)))
         else active_ids (content (snd (cur ! k))) \<inter> (\<lambda>p. LibId (ForRecord p)) ` set ws = {})"

section \<open>The proof\<close>

lemma set_changed_ids:
  "length ids = length plans \<Longrightarrow> set (changed_ids plans ids) = {ids ! k | k. k < length plans \<and> needs_scan (plans ! k)}"
  by (auto simp: changed_ids_def in_set_zip image_iff) (metis fst_conv in_set_zip snd_conv)

lemma needs_scan_iff: "needs_scan plan \<longleftrightarrow> Change plan \<noteq> SegmentUnchanged \<and> Change plan \<noteq> SegmentRemoved"
  by (cases "Change plan") (simp_all add: needs_scan_def)

lemma in_present_ids_loc:
  "distinct (map LocLibId ls) \<Longrightarrow> i \<in> present_ids s ls \<longleftrightarrow> (\<exists>l. loc_of i ls = Some l \<and> LocSegmentId l = s \<and> LocPresent l)"
  unfolding in_present_ids using loc_of_member loc_of_Some by metis

lemma loc_of_map_finish: "loc_of i (map (finish_row scanId changed db) ls) = map_option (finish_row scanId changed db) (loc_of i ls)"
  by (rule loc_of_map) simp

text \<open>Who is present in a segment after the scan.\<close>

lemma present_after:
  assumes "distinct (map LocLibId ls)"
  shows "i \<in> present_ids s (map (finish_row scanId changed db) ls) \<longleftrightarrow>
    (\<exists>l. loc_of i ls = Some l \<and> LocSegmentId l = s \<and> LocPresent l \<and> (s \<in> set changed \<longrightarrow> LocScan l = Some scanId))"
proof -
  have "distinct (map LocLibId (map (finish_row scanId changed db) ls))" using assms by (simp add: comp_def)
  from in_present_ids_loc [OF this] show ?thesis by (auto simp: loc_of_map_finish finish_row_present)
qed

text \<open>The state after the upserts, as far as it matters.\<close>

definition planned_tables :: "writer_env \<Rightarrow> SInpxSegmentPlan list \<Rightarrow> scan_tables \<Rightarrow> int list \<Rightarrow> scan_tables \<Rightarrow> bool" where
  "planned_tables env plans db ids db1 \<longleftrightarrow> segments_ok (Segments db1) \<and> length ids = length plans
    \<and> Locations db1 = Locations db \<and> Catalog db1 = Catalog db \<and> Statistics db1 = Statistics db
    \<and> (\<forall>k < length plans. seg_of (plan_name (plans ! k)) (Segments db1) = Some ((planned_row (ScanId env) (plans ! k))\<lparr>SegmentId := ids ! k\<rparr>))
    \<and> (\<forall>n. n \<notin> set (map plan_name plans) \<longrightarrow> seg_of n (Segments db1) = seg_of n (Segments db))
    \<and> (\<forall>k < length plans. \<forall>r. seg_of (plan_name (plans ! k)) (Segments db) = Some r \<longrightarrow> ids ! k = SegmentId r)
    \<and> (\<forall>k < length plans. deletions_of (ids ! k) (Deletions db1) = planned_deletions (plans ! k) (deletions_of (ids ! k) (Deletions db)))"

lemma upserts_plan:
  assumes u: "upsert_all (RowIds env) (ScanId env) plans (db\<lparr>Source := src\<rparr>) = Inr (ids, db1)"
    and new: "new_rowids (RowIds env)" and ok: "segments_ok (Segments db)" and d: "distinct (map plan_name plans)"
  shows "planned_tables env plans db ids db1"
proof -
  have "segments_ok (Segments (db\<lparr>Source := src\<rparr>))" using ok by simp
  note e = upsert_all_effect [OF u new this d]
  have eq: "db1 = db\<lparr>Source := src, Segments := Segments db1, Deletions := Deletions db1\<rparr>" using e by blast
  have same: "Locations db1 = Locations db" "Catalog db1 = Catalog db" "Statistics db1 = Statistics db" by (subst eq, simp)+
  have id: "ids ! k = SegmentId r" if "k < length plans" "seg_of (plan_name (plans ! k)) (Segments db) = Some r" for k r
  proof -
    have "case seg_of (plan_name (plans ! k)) (Segments (db\<lparr>Source := src\<rparr>)) of
        None \<Rightarrow> ids ! k \<notin> set (map SegmentId (Segments (db\<lparr>Source := src\<rparr>))) | Some r \<Rightarrow> ids ! k = SegmentId r"
      using e that(1) by blast
    then show ?thesis using that(2) by simp
  qed
  show ?thesis
    unfolding planned_tables_def using e same id by simp
qed

lemma planned_ids_inject:
  assumes "planned_tables env plans db ids db1" "distinct (map plan_name plans)" "j < length plans" "k < length plans" "ids ! j = ids ! k"
  shows "j = k"
proof -
  have "seg_of (plan_name (plans ! j)) (Segments db1) = Some ((planned_row (ScanId env) (plans ! j))\<lparr>SegmentId := ids ! j\<rparr>)"
    "seg_of (plan_name (plans ! k)) (Segments db1) = Some ((planned_row (ScanId env) (plans ! k))\<lparr>SegmentId := ids ! k\<rparr>)"
    and ok: "segments_ok (Segments db1)"
    using assms unfolding planned_tables_def by blast+
  from seg_of_id [OF ok this(1,2)] assms(5) have "plan_name (plans ! j) = plan_name (plans ! k)" by simp
  then show ?thesis using assms(2-4) by (simp add: nth_eq_iff_index_eq [of "map plan_name plans", symmetric])
qed

text \<open>An available row is the row of a current segment.\<close>

lemma planned_available:
  assumes p: "planned_tables env plans db ids db1" and pl: "plans_for content cur db plans"
    and r: "r \<in> set (Segments db1)" "row_available r"
  obtains k where "k < length cur" "r = (planned_row (ScanId env) (plans ! k))\<lparr>SegmentId := ids ! k\<rparr>"
proof -
  have ok: "distinct (map RowInpEntryName (Segments db1))" using p by (simp add: planned_tables_def segments_ok_def)
  then have s: "seg_of (RowInpEntryName r) (Segments db1) = Some r" using seg_of_member r(1) by blast
  have "RowInpEntryName r \<in> set (map plan_name plans)"
  proof (rule ccontr)
    assume a: "RowInpEntryName r \<notin> set (map plan_name plans)"
    have "seg_of n (Segments db1) = seg_of n (Segments db)" if "n \<notin> set (map plan_name plans)" for n
      using p that unfolding planned_tables_def by blast
    from this [OF a] have "seg_of (RowInpEntryName r) (Segments db) = Some r" using s by simp
    then have "RowInpEntryName r \<in> set (map RowInpEntryName (Segments db))" using seg_of_None [of "RowInpEntryName r" "Segments db"] by auto
    with a pl show False unfolding plans_for_def by blast
  qed
  then obtain k where k: "k < length plans" "RowInpEntryName r = plan_name (plans ! k)" by (auto simp: in_set_conv_nth)
  have "seg_of (plan_name (plans ! k)) (Segments db1) = Some ((planned_row (ScanId env) (plans ! k))\<lparr>SegmentId := ids ! k\<rparr>)"
    using p k(1) unfolding planned_tables_def by blast
  then have e: "r = (planned_row (ScanId env) (plans ! k))\<lparr>SegmentId := ids ! k\<rparr>" using s k(2) by simp
  have "k < length cur"
  proof (rule ccontr)
    assume "\<not> k < length cur"
    then have "Change (plans ! k) = SegmentRemoved" using pl k(1) unfolding plans_for_def by simp
    then show False using e r(2) by (simp add: row_available_def)
  qed
  then show ?thesis using that e by blast
qed

lemma written_after:
  assumes w: "write_all env ws db1 = Inr (res, db2)" and ok: "tables_ok db1" and new: "new_rowids (RowIds env)"
    and d: "distinct (map (\<lambda>p. LibId (ForRecord p)) ws)"
  shows "p \<in> set ws \<Longrightarrow> LibId (ForRecord p) = i \<Longrightarrow> \<exists>b. loc_of i (Locations db2) = Some (written_row env p b)"
    and "i \<notin> (\<lambda>p. LibId (ForRecord p)) ` set ws \<Longrightarrow> loc_of i (Locations db2) = loc_of i (Locations db1)"
  using write_all_effect [OF w ok new d] by blast+

text \<open>The locations of a segment that is scanned, and of one that is reused.\<close>

lemma present_scanned:
  assumes w: "write_all env ws db1 = Inr (res, db2)" and ok: "tables_ok db1" and new: "new_rowids (RowIds env)"
    and d: "distinct (map (\<lambda>p. LibId (ForRecord p)) ws)" and fresh: "Some (ScanId env) \<notin> set (map LocScan (Locations db1))"
    and s: "s \<in> set changed"
  shows "present_ids s (map (finish_row (ScanId env) changed db) (Locations db2)) = written_ids s ws"
proof (rule set_eqI)
  fix i
  have d2: "distinct (map LocLibId (Locations db2))" using write_all_effect [OF w ok new d] by (simp add: tables_ok_def locations_ok_def)
  show "i \<in> present_ids s (map (finish_row (ScanId env) changed db) (Locations db2)) \<longleftrightarrow> i \<in> written_ids s ws"
  proof (cases "i \<in> (\<lambda>p. LibId (ForRecord p)) ` set ws")
    case True
    then obtain p where p: "p \<in> set ws" "LibId (ForRecord p) = i" by blast
    then obtain b where b: "loc_of i (Locations db2) = Some (written_row env p b)" using written_after(1) [OF w ok new d] by blast
    have inj: "inj_on (\<lambda>p. LibId (ForRecord p)) (set ws)" using d by (simp add: distinct_map)
    have uniq: "q = p" if "q \<in> set ws" "LibId (ForRecord q) = i" for q using inj_onD [OF inj _ that(1) p(1)] that(2) p(2) by simp
    have "i \<in> written_ids s ws \<longleftrightarrow> (\<exists>q \<in> set ws. ForSegment q = s \<and> LibId (ForRecord q) = i)" by (auto simp: written_ids_def)
    also have "\<dots> \<longleftrightarrow> ForSegment p = s" using p uniq by metis
    finally show ?thesis unfolding present_after [OF d2] using b by simp
  next
    case False
    then have e: "loc_of i (Locations db2) = loc_of i (Locations db1)" by (rule written_after(2) [OF w ok new d])
    have "LocScan l \<noteq> Some (ScanId env)" if "loc_of i (Locations db1) = Some l" for l
      using imageI [OF conjunct1 [OF loc_of_Some [OF that]], of LocScan] fresh by auto
    moreover have "i \<notin> written_ids s ws" using False by (auto simp: written_ids_def)
    ultimately show ?thesis unfolding present_after [OF d2] e using s by simp
  qed
qed

lemma present_reused:
  assumes w: "write_all env ws db1 = Inr (res, db2)" and ok: "tables_ok db1" and new: "new_rowids (RowIds env)"
    and d: "distinct (map (\<lambda>p. LibId (ForRecord p)) ws)" and s: "s \<notin> set changed"
    and other: "\<And>p. p \<in> set ws \<Longrightarrow> ForSegment p \<noteq> s"
    and disj: "present_ids s (Locations db1) \<inter> (\<lambda>p. LibId (ForRecord p)) ` set ws = {}"
  shows "present_ids s (map (finish_row (ScanId env) changed db) (Locations db2)) = present_ids s (Locations db1)"
proof (rule set_eqI)
  fix i
  have d2: "distinct (map LocLibId (Locations db2))" using write_all_effect [OF w ok new d] by (simp add: tables_ok_def locations_ok_def)
  have d1: "distinct (map LocLibId (Locations db1))" using ok by (simp add: tables_ok_def locations_ok_def)
  show "i \<in> present_ids s (map (finish_row (ScanId env) changed db) (Locations db2)) \<longleftrightarrow> i \<in> present_ids s (Locations db1)"
  proof (cases "i \<in> (\<lambda>p. LibId (ForRecord p)) ` set ws")
    case True
    then obtain p where p: "p \<in> set ws" "LibId (ForRecord p) = i" by blast
    then obtain b where "loc_of i (Locations db2) = Some (written_row env p b)" using written_after(1) [OF w ok new d] by blast
    moreover have "i \<notin> present_ids s (Locations db1)" using disj True by blast
    ultimately show ?thesis unfolding present_after [OF d2] using other [OF p(1)] by simp
  next
    case False
    then have e: "loc_of i (Locations db2) = loc_of i (Locations db1)" by (rule written_after(2) [OF w ok new d])
    show ?thesis unfolding present_after [OF d2] e in_present_ids_loc [OF d1] using s by simp
  qed
qed

text \<open>Every current segment after the scan, scanned or reused.\<close>

lemma faithful_segment:
  assumes w: "write_all env ws db1 = Inr (res, db2)" and ok1: "tables_ok db1" and new: "new_rowids (RowIds env)"
    and pt: "planned_tables env plans db ids db1" and pl: "plans_for content cur db plans" and wf: "writes_for content cur plans ids ws"
    and f: "faithful content db" and fresh: "Some (ScanId env) \<notin> set (map LocScan (Locations db))" and k: "k < length cur"
  shows "present_ids (ids ! k) (map (finish_row (ScanId env) (changed_ids plans ids) db3) (Locations db2)) = active_ids (content (snd (cur ! k)))
    \<and> deletions_of (ids ! k) (Deletions db1) = deleted_ids (content (snd (cur ! k)))"
proof -
  have k': "k < length plans" and dn: "distinct (map plan_name plans)" and pf: "plan_for content db k (cur ! k) (plans ! k)"
    using pl k unfolding plans_for_def by auto
  have len: "length ids = length plans" and same: "Locations db1 = Locations db"
    and del: "deletions_of (ids ! k) (Deletions db1) = planned_deletions (plans ! k) (deletions_of (ids ! k) (Deletions db))"
    using pt k' unfolding planned_tables_def by blast+
  have d: "distinct (map (\<lambda>p. LibId (ForRecord p)) ws)" and seg: "\<And>p. p \<in> set ws \<Longrightarrow> \<exists>j < length cur. needs_scan (plans ! j) \<and> ForSegment p = ids ! j"
    using wf unfolding writes_for_def by blast+
  have wk: "if needs_scan (plans ! k) then written_ids (ids ! k) ws = active_ids (content (snd (cur ! k)))
      else active_ids (content (snd (cur ! k))) \<inter> (\<lambda>p. LibId (ForRecord p)) ` set ws = {}" using wf k unfolding writes_for_def by blast
  show ?thesis
  proof (cases "needs_scan (plans ! k)")
    case True
    then have "ids ! k \<in> set (changed_ids plans ids)" unfolding set_changed_ids [OF len] using k' by blast
    from present_scanned [OF w ok1 new d _ this] fresh same wk True
    have "present_ids (ids ! k) (map (finish_row (ScanId env) (changed_ids plans ids) db3) (Locations db2)) = active_ids (content (snd (cur ! k)))"
      by simp
    moreover have "planned_deletions (plans ! k) (deletions_of (ids ! k) (Deletions db)) = set (DeletedLibIds (plans ! k))"
      using True by (cases "Change (plans ! k)") (simp_all add: planned_deletions_def needs_scan_def)
    ultimately show ?thesis using del pf True by (simp add: plan_for_def)
  next
    case False
    have ch: "Change (plans ! k) = SegmentUnchanged" using False pf by (auto simp: needs_scan_iff plan_for_def)
    then obtain r where r: "seg_of (fst (cur ! k)) (Segments db) = Some r" "row_available r" "RowFingerprint r = snd (cur ! k)"
      using pf by (auto simp: plan_for_def split: option.splits)
    have nm: "plan_name (plans ! k) = fst (cur ! k)" using pf by (simp add: plan_for_def)
    then have id: "ids ! k = SegmentId r" using pt k' r(1) unfolding planned_tables_def by metis
    have "faithful_row content db r" using f seg_of_Some [OF r(1)] r(2) by (simp add: faithful_def list_all_iff)
    then have old: "present_ids (ids ! k) (Locations db) = active_ids (content (snd (cur ! k)))"
      "deletions_of (ids ! k) (Deletions db) = deleted_ids (content (snd (cur ! k)))"
      by (simp_all add: faithful_row_def id r(3))
    have ne: "ids ! j \<noteq> ids ! k" if "j < length plans" "needs_scan (plans ! j)" for j
      using planned_ids_inject [OF pt dn that(1) k'] that(2) False by blast
    have nc: "ids ! k \<notin> set (changed_ids plans ids)" unfolding set_changed_ids [OF len] mem_Collect_eq using ne by metis
    have other: "ForSegment p \<noteq> ids ! k" if p: "p \<in> set ws" for p
    proof -
      obtain j where "j < length cur" "needs_scan (plans ! j)" "ForSegment p = ids ! j" using seg [OF p] by blast
      moreover have "length cur \<le> length plans" using pl unfolding plans_for_def by blast
      ultimately show ?thesis using ne [of j] by simp
    qed
    have "present_ids (ids ! k) (Locations db1) \<inter> (\<lambda>p. LibId (ForRecord p)) ` set ws = {}" using wk False old(1) same by simp
    from present_reused [OF w ok1 new d nc other this]
    have "present_ids (ids ! k) (map (finish_row (ScanId env) (changed_ids plans ids) db3) (Locations db2)) = active_ids (content (snd (cur ! k)))"
      using same old(1) by simp
    moreover have "planned_deletions (plans ! k) (deletions_of (ids ! k) (Deletions db)) = deleted_ids (content (snd (cur ! k)))"
      using ch old(2) by (simp add: planned_deletions_def)
    ultimately show ?thesis using del by simp
  qed
qed

lemma scan_reflects:
  assumes u: "upsert_all (RowIds env) (ScanId env) plans (db\<lparr>Source := src\<rparr>) = Inr (ids, db1)"
    and w: "write_all env ws db1 = Inr (res, db2)"
    and fin: "finish_tables (ScanId env) input (changed_ids plans ids) db2 = Inr (n, db')"
    and f: "faithful content db" and new: "new_rowids (RowIds env)" and pl: "plans_for content cur db plans"
    and fresh: "Some (ScanId env) \<notin> set (map LocScan (Locations db))"
    and wf: "length ids = length plans \<Longrightarrow> distinct ids \<Longrightarrow> writes_for content cur plans ids ws"
  shows "reflects content cur db'"
proof -
  have dn: "distinct (map plan_name plans)" and le: "length cur \<le> length plans" using pl unfolding plans_for_def by blast+
  have sok: "segments_ok (Segments db)" and tok: "tables_ok db" using f by (simp_all add: faithful_def)
  have pt: "planned_tables env plans db ids db1" by (rule upserts_plan [OF u new sok dn])
  then have same: "Locations db1 = Locations db" "Catalog db1 = Catalog db" "Statistics db1 = Statistics db"
    and len: "length ids = length plans" and sok1: "segments_ok (Segments db1)" unfolding planned_tables_def by blast+
  have ok1: "tables_ok db1" using tok same by (simp add: tables_ok_def locations_ok_def statistics_ok_def)
  have di: "distinct ids" using planned_ids_inject [OF pt dn] len by (auto simp: distinct_conv_nth)
  have wf': "writes_for content cur plans ids ws" by (rule wf [OF len di])
  then have d: "distinct (map (\<lambda>p. LibId (ForRecord p)) ws)" unfolding writes_for_def by blast
  note we = write_all_effect [OF w ok1 new d]
  have ok2: "tables_ok db2" and segs2: "Segments db2 = Segments db1" "Deletions db2 = Deletions db1" using we by blast+
  note fe = finish_tables_effect [OF fin]
  have ok': "tables_ok db'" by (rule finish_tables_ok [OF fin ok2])
  have row: "\<exists>r. seg_of (fst (cur ! k)) (Segments db') = Some r \<and> row_available r \<and> RowOrder r = int k \<and> RowFingerprint r = snd (cur ! k)"
    if k: "k < length cur" for k
  proof -
    have p: "plan_for content db k (cur ! k) (plans ! k)" using pl k unfolding plans_for_def by blast
    moreover have "seg_of (plan_name (plans ! k)) (Segments db1) = Some ((planned_row (ScanId env) (plans ! k))\<lparr>SegmentId := ids ! k\<rparr>)"
      using pt k le unfolding planned_tables_def by simp
    ultimately show ?thesis by (simp add: fe(2) segs2 plan_for_def row_available_def)
  qed
  have av: "\<exists>k < length cur. r = (planned_row (ScanId env) (plans ! k))\<lparr>SegmentId := ids ! k\<rparr>"
    if "r \<in> set (Segments db')" "row_available r" for r
    using planned_available [OF pt pl] that unfolding fe(2) segs2 by metis
  have fr: "faithful_row content db' r" if r: "r \<in> set (Segments db')" "row_available r" for r
  proof -
    obtain k where k: "k < length cur" "r = (planned_row (ScanId env) (plans ! k))\<lparr>SegmentId := ids ! k\<rparr>" using av [OF r] by blast
    have "plan_for content db k (cur ! k) (plans ! k)" using pl k unfolding plans_for_def by blast
    then have "RowFingerprint r = snd (cur ! k)" "SegmentId r = ids ! k" using k(2) by (simp_all add: plan_for_def)
    then show ?thesis
      unfolding faithful_row_def fe(1,3) segs2 using faithful_segment [OF w ok1 new pt pl wf' f fresh k(1), of db2] by simp
  qed
  have nm: "map fst cur = map plan_name (take (length cur) plans)"
    using pl by (intro nth_equalityI) (simp_all add: plans_for_def plan_for_def)
  have dc: "distinct (map fst cur)" unfolding nm take_map [symmetric] using dn by (rule distinct_take)
  have in_cur: "RowInpEntryName r \<in> set (map fst cur)" if r: "r \<in> set (Segments db')" "row_available r" for r
  proof -
    obtain k where k: "k < length cur" "r = (planned_row (ScanId env) (plans ! k))\<lparr>SegmentId := ids ! k\<rparr>" using av [OF r] by blast
    have "plan_for content db k (cur ! k) (plans ! k)" using pl k unfolding plans_for_def by blast
    then show ?thesis using k by (simp add: plan_for_def)
  qed
  have offer: "LocAvailability l = availability_ToString Available \<longleftrightarrow> offered db' l" if l: "l \<in> set (Locations db')" for l
  proof -
    obtain l2 where l2: "l2 \<in> set (Locations db2)" "l = finish_row (ScanId env) (changed_ids plans ids) db2 l2" using l unfolding fe(1) by auto
    have "LocAvailability l2 \<in> set (map availability_ToString [Available, MissingFromIndex])"
      using ok2 l2(1) unfolding tables_ok_def locations_ok_def list_all_iff by blast
    from finish_row_available [OF this, of "ScanId env" "changed_ids plans ids" db2] show ?thesis
      unfolding fe(6) l2(2) by simp
  qed
  have "faithful content db'" using ok' fr sok1 by (simp add: faithful_def fe(2) segs2 list_all_iff)
  with dc row in_cur offer show ?thesis unfolding reflects_def by blast
qed

end
