(* ===== verification/Scan_Budgets.thy ===== *)
theory Scan_Budgets
  imports Inpx_Archive Sql_Query Scan_Jobs
begin

text \<open>
  The limits of a scan, from \<open>libs/App/InpxScanJobService.cpp\<close> and \<open>libs/ScanSupport/ScanConcurrency.hpp\<close>: how many
  payloads are parsed at a time, and how the memory budget of the process is shared out. \<open>std::uint64_t\<close> values are
  numbers below 2^64; a subtraction of two of them wraps.
\<close>

section \<open>Workers\<close>

datatype EScanWorkerPolicy = LeaveOneThreadFree | UseAllAvailable

definition GMaxScanWorkerCount :: nat where "GMaxScanWorkerCount = 8"

definition ResolveScanWorkerCountForHardware :: "nat \<Rightarrow> EScanWorkerPolicy \<Rightarrow> nat \<Rightarrow> nat" where
  "ResolveScanWorkerCountForHardware hardwareConcurrency policy fallbackWorkerCount =
    (let observedWorkerCount = (if hardwareConcurrency = 0 then fallbackWorkerCount else hardwareConcurrency);
         usableWorkerCount = (if policy = LeaveOneThreadFree \<and> observedWorkerCount > 1 then observedWorkerCount - 1
                              else observedWorkerCount) in
     max 1 (min GMaxScanWorkerCount usableWorkerCount))"

definition ResolveInpxPayloadWorkerWindow :: "nat \<Rightarrow> nat \<Rightarrow> nat" where
  "ResolveInpxPayloadWorkerWindow hardwareConcurrency maxWorkerCount =
    (if maxWorkerCount > 0 then min maxWorkerCount GMaxScanWorkerCount
     else ResolveScanWorkerCountForHardware hardwareConcurrency UseAllAvailable 2)"

section \<open>Shares of the memory budget\<close>

definition ResolveInFlightPayloadBudget :: "nat \<Rightarrow> nat" where
  "ResolveInFlightPayloadBudget maxSteadyStateMemoryBytes = max 1 (maxSteadyStateMemoryBytes div 16)"

definition ResolveArchiveManifestBudget :: "nat \<Rightarrow> nat" where
  "ResolveArchiveManifestBudget maxSteadyStateMemoryBytes =
    min (maxSteadyStateMemoryBytes div 2) (max 1 (maxSteadyStateMemoryBytes div 16))"

definition ResolvePlanningStateBudget :: "nat \<Rightarrow> nat" where
  "ResolvePlanningStateBudget maxSteadyStateMemoryBytes =
    u64_sub (maxSteadyStateMemoryBytes div 2) (ResolveArchiveManifestBudget maxSteadyStateMemoryBytes)"

record SScanPlanningLimits =
  MaxInpSourceBytes :: nat
  MaxRecords :: nat
  MaxSegments :: nat
  MaxFilesystemEntries :: nat

definition ResolveCoarseCountLimit :: "nat \<Rightarrow> nat \<Rightarrow> nat \<Rightarrow> nat" where
  "ResolveCoarseCountLimit budgetBytes allowanceBytes absoluteMaximum = min (max 1 (budgetBytes div allowanceBytes)) absoluteMaximum"

definition ResolveScanPlanningLimits :: "nat \<Rightarrow> SScanPlanningLimits" where
  "ResolveScanPlanningLimits planningBudgetBytes =
    \<lparr>MaxInpSourceBytes = max 1 (planningBudgetBytes div 2),
     MaxRecords = ResolveCoarseCountLimit planningBudgetBytes 512 u64_max,
     MaxSegments = ResolveCoarseCountLimit planningBudgetBytes 4096 u64_max,
     MaxFilesystemEntries = ResolveCoarseCountLimit planningBudgetBytes 256 1000000\<rparr>"

definition ResolveCoverDecodeBudget :: "nat \<Rightarrow> nat \<Rightarrow> nat" where
  "ResolveCoverDecodeBudget maxSteadyStateMemoryBytes maxConcurrentCoverDecodes =
    (let workerCount = max 1 maxConcurrentCoverDecodes;
         aggregateCoverBudget = u64_sub (u64_sub maxSteadyStateMemoryBytes (maxSteadyStateMemoryBytes div 2))
           (ResolveInFlightPayloadBudget maxSteadyStateMemoryBytes) in
     min (64 * 1024 * 1024) (aggregateCoverBudget div workerCount))"

section \<open>Room in the collections of the planner\<close>

definition collection_limit_message :: "string \<Rightarrow> nat \<Rightarrow> string" where
  "collection_limit_message collectionLabel maxSize =
    ''INPX '' @ collectionLabel @ '' exceeds the configured scan limit of '' @ to_string maxSize @ '' entries.''"

definition RequireCollectionRoom :: "nat \<Rightarrow> nat \<Rightarrow> string \<Rightarrow> text_error + unit" where
  "RequireCollectionRoom currentSize maxSize collectionLabel =
    (if currentSize \<ge> maxSize then Inl (TextRuntimeError (collection_limit_message collectionLabel maxSize)) else Inr ())"

text \<open>A \<open>std::set\<close> of strings is the list of its elements; the result says whether the value was new.\<close>

definition InsertOwnedString :: "string list \<Rightarrow> string \<Rightarrow> bool \<times> string list" where
  "InsertOwnedString values' v = (if v \<in> set values' then (False, values') else (True, values' @ [v]))"

definition InsertActiveLibId :: "string list \<Rightarrow> string \<Rightarrow> nat \<Rightarrow> text_error + bool \<times> string list" where
  "InsertActiveLibId values' v maxRecords =
    (if v \<in> set values' then Inr (False, values')
     else and_then (RequireCollectionRoom (length values') maxRecords ''active LibId index'') (\<lambda>_. Inr (True, values' @ [v])))"

section \<open>Labels\<close>

definition BuildModeLabel :: "EInpxScanMode \<Rightarrow> string" where
  "BuildModeLabel mode = (if mode = InitialScan then ''initial scan'' else ''rescan'')"

text \<open>\<open>static_cast<int>\<close> keeps the low 32 bits.\<close>

definition to_int32 :: "nat \<Rightarrow> int" where
  "to_int32 n = (if n mod 2 ^ 32 < 2 ^ 31 then int (n mod 2 ^ 32) else int (n mod 2 ^ 32) - 2 ^ 32)"

definition ComputePercent :: "nat \<Rightarrow> nat \<Rightarrow> int" where
  "ComputePercent scannedRecords totalRecords =
    (if totalRecords = 0 then 0 else min 99 (to_int32 ((scannedRecords * 100 mod 2 ^ 64) div totalRecords)))"

definition BuildWarningMessage :: "string option \<Rightarrow> string option \<Rightarrow> string \<Rightarrow> string" where
  "BuildWarningMessage archiveNameUtf8 entryNameUtf8 messageUtf8 =
    (case entryNameUtf8 of Some e \<Rightarrow> e @ '': '' @ messageUtf8
     | None \<Rightarrow> (case archiveNameUtf8 of Some a \<Rightarrow> a @ '': '' @ messageUtf8 | None \<Rightarrow> messageUtf8))"

definition BuildInpxSourceLabel :: "SInpxRecord \<Rightarrow> string" where
  "BuildInpxSourceLabel inpxRecord = ArchiveNameUtf8 inpxRecord @ ''!'' @ EntryNameUtf8 inpxRecord"

section \<open>The shares fit\<close>

lemma window_bounds: "1 \<le> ResolveInpxPayloadWorkerWindow hw n \<and> ResolveInpxPayloadWorkerWindow hw n \<le> 8"
  by (simp add: ResolveInpxPayloadWorkerWindow_def ResolveScanWorkerCountForHardware_def GMaxScanWorkerCount_def Let_def)

lemma planning_share: "m < 2 ^ 64 \<Longrightarrow> ResolvePlanningStateBudget m + ResolveArchiveManifestBudget m = m div 2"
  using u64_sub_eq [of "ResolveArchiveManifestBudget m" "m div 2"]
  by (simp add: ResolvePlanningStateBudget_def ResolveArchiveManifestBudget_def)

lemma cover_share:
  assumes "0 < m" "m < 2 ^ 64"
  shows "ResolveCoverDecodeBudget m n * max 1 n + ResolveInFlightPayloadBudget m \<le> m - m div 2"
proof -
  let ?b = "m - m div 2 - ResolveInFlightPayloadBudget m"
  have inflight: "ResolveInFlightPayloadBudget m \<le> m - m div 2" 
  proof (cases "m < 16")
    case True
    then show ?thesis using assms(1) by (simp add: ResolveInFlightPayloadBudget_def max_def)
  next
    case False
    have "m div 16 \<le> m div 2" by (rule div_le_mono2) simp_all
    moreover have "m div 2 \<le> m - m div 2" by linarith
    moreover have "1 \<le> m - m div 2" using False by linarith
    ultimately show ?thesis by (simp add: ResolveInFlightPayloadBudget_def)
  qed
  have "u64_sub (u64_sub m (m div 2)) (ResolveInFlightPayloadBudget m) = ?b"
    using u64_sub_eq [of "m div 2" m] u64_sub_eq [OF inflight] assms(2) by simp
  then have "ResolveCoverDecodeBudget m n \<le> ?b div max 1 n" by (simp add: ResolveCoverDecodeBudget_def Let_def)
  then have "ResolveCoverDecodeBudget m n * max 1 n \<le> ?b div max 1 n * max 1 n" by (rule mult_right_mono) simp
  also have "\<dots> \<le> ?b" by (rule div_times_less_eq_dividend)
  finally show ?thesis using inflight by linarith
qed

end
