(* ===== verification/Scan_Planning.thy ===== *)
theory Scan_Planning
  imports Scan_Refinement Scan_Budgets
begin

text \<open>
  The planner of a scan, the first half of \<open>RunScan\<close> in \<open>libs/App/InpxScanJobService.cpp\<close>: every segment of the INPX
  snapshot gets a plan (reuse what the catalog holds, or parse it), every row whose segment has gone gets a plan that
  removes it, and every archive that was looked at gets a guard, which \<open>ValidateArchiveGuards\<close> checks before the
  commit. The archives are a parameter: what resolving a name, reading the state of a file and reading a manifest
  give at the time of planning. A cancelled scan stops at a checkpoint like one that fails; it is not modelled.
\<close>

section \<open>What the catalog holds\<close>

record SExistingInpxSegment =
  ExSegmentId :: int
  ExInpEntryName :: string
  ExArchiveName :: string
  ExFingerprint :: string
  ExOrder :: int
  ExSummary :: SInpxParseSummary
  ExAvailability :: string
  ExRequiresArchive :: bool
  ExResolvedPath :: "string option"
  ExFileState :: SInpxArchiveFileState
  ExManifest :: "string option"

definition to_u64 :: "int \<Rightarrow> nat" where
  "to_u64 i = nat (i mod 2 ^ 64)"

definition existing_segment :: "segment_row \<Rightarrow> SExistingInpxSegment" where
  "existing_segment r =
    \<lparr>ExSegmentId = SegmentId r, ExInpEntryName = RowInpEntryName r, ExArchiveName = RowArchiveName r,
     ExFingerprint = RowFingerprint r, ExOrder = RowOrder r,
     ExSummary = empty_summary\<lparr>InpEntryCount := 1, TotalRecords := to_u64 (RecordCount r),
       ParsedRecords := (to_u64 (ActiveRecordCount r) + to_u64 (DeletedRecordCount r)) mod 2 ^ 64,
       DeletedRecords := to_u64 (DeletedRecordCount r)\<rparr>,
     ExAvailability = RowAvailability r, ExRequiresArchive = RowRequiresArchive r, ExResolvedPath = RowResolvedPath r,
     ExFileState = \<lparr>StateFileSizeBytes = to_u64 (RowArchiveSize r), StateMtimeTicks = RowArchiveMtime r\<rparr>,
     ExManifest = RowManifest r\<rparr>"

fun read_existing :: "nat \<Rightarrow> segment_row list \<Rightarrow> SExistingInpxSegment list \<Rightarrow> text_error + SExistingInpxSegment list" where
  "read_existing maxSegments [] found = Inr found"
| "read_existing maxSegments (r # rows) found =
    and_then (RequireCollectionRoom (length found) maxSegments ''segment count'') (\<lambda>_.
      if RowInpEntryName r \<in> set (map ExInpEntryName found)
      then Inl (TextRuntimeError ''Duplicate persisted INPX segment name.'')
      else read_existing maxSegments rows (found @ [existing_segment r]))"

definition ReadExistingInpxSegments :: "nat \<Rightarrow> segment_row list \<Rightarrow> text_error + SExistingInpxSegment list" where
  "ReadExistingInpxSegments maxSegments rows = read_existing maxSegments rows []"

section \<open>Archives\<close>

text \<open>An exception of an archive operation is its message.\<close>

record archive_world =
  ResolvePortableInpxArchivePath :: "string \<Rightarrow> string + string"
  ReadInpxArchiveFileState :: "string \<Rightarrow> string + SInpxArchiveFileState"
  ComputeManifestFingerprint :: "string \<Rightarrow> string + string"
  ReadValidatedManifest :: "string \<Rightarrow> string + string \<times> nat"

datatype EInpxArchiveGuardPhase = FileStateRead | ManifestRead | PayloadsValidated

record SInpxArchiveScanGuard =
  GuardArchiveName :: string
  GuardPath :: string
  GuardFileState :: SInpxArchiveFileState
  GuardManifest :: string
  GuardPhase :: EInpxArchiveGuardPhase

type_synonym guards = "(string \<times> SInpxArchiveScanGuard) list"

definition update_guard :: "string \<Rightarrow> (SInpxArchiveScanGuard \<Rightarrow> SInpxArchiveScanGuard) \<Rightarrow> guards \<Rightarrow> guards" where
  "update_guard path f guards = map (\<lambda>(p, g). if p = path then (p, f g) else (p, g)) guards"

record planner =
  Plans :: "SInpxSegmentPlan list"
  Guards :: guards
  PlannedRecordCount :: nat
  RetainedWarningCount :: nat
  PayloadBytesValidated :: nat

record planning_env =
  PlanConvert :: convert
  PlanWorld :: archive_world
  PlanLimits :: SScanPlanningLimits
  PlanMode :: EInpxScanMode
  PlanExisting :: "SExistingInpxSegment list"

definition quoted :: "string \<Rightarrow> string" where
  "quoted s = [CHR 0x27] @ s @ [CHR 0x27]"

definition archive_failure :: "string \<Rightarrow> SInpxSegmentPlan \<Rightarrow> string \<Rightarrow> text_error + 'a" where
  "archive_failure problem plan what =
    Inl (TextRuntimeError (''INPX archive '' @ quoted (SegArchiveNameUtf8 (Payload plan)) @ '' is '' @ problem @ '': '' @ what))"

fun text_what :: "text_error \<Rightarrow> string" where
  "text_what (CTextConversionError m) = m"
| "text_what (TextRuntimeError m) = m"

definition readArchiveState :: "planning_env \<Rightarrow> SInpxSegmentPlan \<Rightarrow> planner \<Rightarrow> text_error + SInpxSegmentPlan \<times> planner" where
  "readArchiveState env plan st =
    (case ResolvePortableInpxArchivePath (PlanWorld env) (SegArchiveNameUtf8 (Payload plan)) of
       Inl what \<Rightarrow> archive_failure ''missing or inaccessible'' plan what
     | Inr path \<Rightarrow>
         (case map_of (Guards st) path of
            Some guard \<Rightarrow> Inr (plan\<lparr>ResolvedArchivePathUtf8 := path, ArchiveFileState := GuardFileState guard\<rparr>, st)
          | None \<Rightarrow>
              (case RequireCollectionRoom (length (Guards st)) (MaxSegments (PlanLimits env)) ''archive guard count'' of
                 Inl e \<Rightarrow> archive_failure ''missing or inaccessible'' plan (text_what e)
               | Inr _ \<Rightarrow>
                   (case ReadInpxArchiveFileState (PlanWorld env) path of
                      Inl what \<Rightarrow> archive_failure ''missing or inaccessible'' plan what
                    | Inr fileState \<Rightarrow>
                        Inr (plan\<lparr>ResolvedArchivePathUtf8 := path, ArchiveFileState := fileState\<rparr>,
                          st\<lparr>Guards := Guards st @ [(path, \<lparr>GuardArchiveName = SegArchiveNameUtf8 (Payload plan), GuardPath = path,
                            GuardFileState = fileState, GuardManifest = [], GuardPhase = FileStateRead\<rparr>)]\<rparr>)))))"

definition readArchiveManifest :: "planning_env \<Rightarrow> SInpxSegmentPlan \<Rightarrow> planner \<Rightarrow> text_error + SInpxSegmentPlan \<times> planner" where
  "readArchiveManifest env plan st =
    (case map_of (Guards st) (ResolvedArchivePathUtf8 plan) of
       None \<Rightarrow> archive_failure ''unavailable or damaged'' plan ''map::at''
     | Some guard \<Rightarrow>
         if GuardPhase guard = FileStateRead
         then (case ComputeManifestFingerprint (PlanWorld env) (ResolvedArchivePathUtf8 plan) of
                 Inl what \<Rightarrow> archive_failure ''unavailable or damaged'' plan what
               | Inr manifest \<Rightarrow>
                   Inr (plan\<lparr>ArchiveOpened := True, ArchiveManifestFingerprintUtf8 := manifest\<rparr>,
                     st\<lparr>Guards := update_guard (ResolvedArchivePathUtf8 plan)
                       (\<lambda>g. g\<lparr>GuardManifest := manifest, GuardPhase := ManifestRead\<rparr>) (Guards st)\<rparr>))
         else Inr (plan\<lparr>ArchiveManifestFingerprintUtf8 := GuardManifest guard\<rparr>, st))"

definition validateArchivePayloads :: "planning_env \<Rightarrow> SInpxSegmentPlan \<Rightarrow> planner \<Rightarrow> text_error + planner" where
  "validateArchivePayloads env plan st =
    (case map_of (Guards st) (ResolvedArchivePathUtf8 plan) of
       None \<Rightarrow> archive_failure ''unavailable or damaged'' plan ''map::at''
     | Some guard \<Rightarrow>
         if GuardPhase guard = PayloadsValidated then Inr st
         else if GuardPhase guard \<noteq> ManifestRead
         then archive_failure ''unavailable or damaged'' plan ''archive manifest was not read before payload validation''
         else (case ReadValidatedManifest (PlanWorld env) (ResolvedArchivePathUtf8 plan) of
                 Inl what \<Rightarrow> archive_failure ''unavailable or damaged'' plan what
               | Inr (manifest, payloadBytes) \<Rightarrow>
                   if manifest \<noteq> GuardManifest guard
                   then archive_failure ''unavailable or damaged'' plan ''archive manifest changed while its payloads were being validated''
                   else Inr (st\<lparr>PayloadBytesValidated := PayloadBytesValidated st + payloadBytes,
                     Guards := update_guard (ResolvedArchivePathUtf8 plan) (\<lambda>g. g\<lparr>GuardPhase := PayloadsValidated\<rparr>) (Guards st)\<rparr>)))"

section \<open>Parsing a segment\<close>

text \<open>
  The callbacks that the planner gives to \<open>ParseSegment\<close>: a line reports at most one warning and then at most one
  record; a warning that skips its record ends the scan, and a record needs room.
\<close>

definition invalid_record_message :: "SInpxWarning \<Rightarrow> string" where
  "invalid_record_message w =
    ''Invalid INPX record in '' @ quoted (WarnInpEntryNameUtf8 w) @ '' at line '' @ to_string (LineNumber w) @ '': '' @ MessageUtf8 w"

definition plan_line :: "nat \<Rightarrow> nat \<Rightarrow> SInpxSegmentPayload \<Rightarrow> nat \<Rightarrow> string \<Rightarrow> parse_state \<Rightarrow> text_error + parse_state" where
  "plan_line maxRecords planned segment lineNumber rawLine st =
    and_then (segment_line segment lineNumber rawLine st) (\<lambda>st'.
      if length (Warnings st) < length (Warnings st') \<and> RecordSkipped (last (Warnings st'))
      then Inl (TextRuntimeError (invalid_record_message (last (Warnings st'))))
      else if length (Records st) < length (Records st')
      then and_then (RequireCollectionRoom (planned + length (Records st)) maxRecords ''retained record count'') (\<lambda>_. Inr st')
      else Inr st')"

function plan_loop :: "nat \<Rightarrow> nat \<Rightarrow> SInpxSegmentPayload \<Rightarrow> string \<Rightarrow> nat \<Rightarrow> nat \<Rightarrow> parse_state \<Rightarrow> text_error + parse_state" where
  "plan_loop maxRecords planned segment text' start lineNumber st =
    (if start \<le> length text' then
       case FindByteWithCheckpoints text' (CHR 0x0A) start of
         None \<Rightarrow> plan_line maxRecords planned segment (lineNumber + 1) (drop start text') st
       | Some end' \<Rightarrow>
           (case plan_line maxRecords planned segment (lineNumber + 1) (substr text' start (end' - start)) st of
              Inl e \<Rightarrow> Inl e
            | Inr st' \<Rightarrow> plan_loop maxRecords planned segment text' (end' + 1) (lineNumber + 1) st')
     else Inr st)"
  by pat_completeness auto
termination
  by (relation "measure (\<lambda>(_, _, _, t, i, _, _). Suc (length t) - i)") (auto dest: FindByte_ge)

declare plan_loop.simps [simp del]

definition plan_records :: "planning_env \<Rightarrow> nat \<Rightarrow> SInpxSegmentPayload \<Rightarrow> text_error + parse_state" where
  "plan_records env planned segment =
    and_then (DecodeInpPayloadToUtf8 (PlanConvert env) (SegBytes segment)) (\<lambda>decodedText.
      plan_loop (MaxRecords (PlanLimits env)) planned segment decodedText 0 0
        \<lparr>Summary = empty_summary\<lparr>InpEntryCount := 1\<rparr>, Records = [], Warnings = []\<rparr>)"

definition GMaxRetainedPlanningWarnings :: nat where "GMaxRetainedPlanningWarnings = 1000"

definition parseSegment :: "planning_env \<Rightarrow> SInpxSegmentPlan \<Rightarrow> planner \<Rightarrow> text_error + SInpxSegmentPlan \<times> planner" where
  "parseSegment env plan st =
    and_then (plan_records env (PlannedRecordCount st) (Payload plan)) (\<lambda>parsed.
      let retained = take (GMaxRetainedPlanningWarnings - RetainedWarningCount st) (Warnings parsed) in
      Inr (plan\<lparr>PlanSummary := Summary parsed, PlanRecords := Records parsed, PlanWarnings := retained,
             DeletedLibIds := remdups_adj (sort (map LibId (filter Deleted (Records parsed)))),
             RequiresArchive := RequiresArchive plan \<or> list_ex (\<lambda>r. \<not> Deleted r \<and> is_supported r) (Records parsed)\<rparr>,
           st\<lparr>PlannedRecordCount := PlannedRecordCount st + length (Records parsed),
              RetainedWarningCount := RetainedWarningCount st + length retained\<rparr>))"

section \<open>The plan of a segment\<close>

definition new_plan :: "SInpxSegmentPayload \<Rightarrow> nat \<Rightarrow> int option \<Rightarrow> SInpxSegmentPlan" where
  "new_plan payload order existingId =
    \<lparr>Change = SegmentAdded, Payload = payload, PlanSummary = empty_summary, PlanRecords = [], PlanWarnings = [], DeletedLibIds = [],
     SegmentOrder = order, RequiresArchive = False, ResolvedArchivePathUtf8 = [],
     ArchiveFileState = \<lparr>StateFileSizeBytes = 0, StateMtimeTicks = 0\<rparr>, ArchiveManifestFingerprintUtf8 = [],
     ExistingId = existingId, ArchiveOpened = False\<rparr>"

definition canReuseExisting :: "planning_env \<Rightarrow> SInpxSegmentPayload \<Rightarrow> SExistingInpxSegment \<Rightarrow> bool" where
  "canReuseExisting env payload existing \<longleftrightarrow> PlanMode env = Rescan
    \<and> ExFingerprint existing = SegFingerprintUtf8 payload \<and> IsInpxBookAvailable (ExAvailability existing)"

text \<open>A segment whose books are in an archive is reused if the archive looks the same or, when it does not, if its
  manifest is the same and its payloads are intact.\<close>

definition plan_with_archive ::
  "planning_env \<Rightarrow> SExistingInpxSegment \<Rightarrow> SInpxSegmentPlan \<Rightarrow> planner \<Rightarrow> text_error + SInpxSegmentPlan \<times> planner" where
  "plan_with_archive env existing plan st =
    (case (ExResolvedPath existing, ExManifest existing) of
       (Some existingPath, Some existingManifest) \<Rightarrow>
         and_then (readArchiveState env (plan\<lparr>RequiresArchive := True\<rparr>) st) (\<lambda>(plan1, st1).
           if existingPath = ResolvedArchivePathUtf8 plan1 \<and> ExFileState existing = ArchiveFileState plan1
           then Inr (plan1\<lparr>Change := SegmentUnchanged, PlanSummary := ExSummary existing,
                  ArchiveManifestFingerprintUtf8 := existingManifest\<rparr>, st1)
           else and_then (readArchiveManifest env plan1 st1) (\<lambda>(plan2, st2).
             if existingManifest = ArchiveManifestFingerprintUtf8 plan2
             then and_then (validateArchivePayloads env plan2 st2) (\<lambda>st3.
               Inr (plan2\<lparr>Change := SegmentUnchanged, PlanSummary := ExSummary existing\<rparr>, st3))
             else parseSegment env (plan2\<lparr>Change := SegmentChanged\<rparr>) st2))
     | _ \<Rightarrow> Inl (TextRuntimeError (''Cached archive guard is missing for INP segment ''
              @ quoted (SegInpEntryNameUtf8 (Payload plan)) @ ''.'')))"

definition plan_parsed :: "planning_env \<Rightarrow> EInpxSegmentChange \<Rightarrow> SInpxSegmentPlan \<Rightarrow> planner \<Rightarrow> text_error + SInpxSegmentPlan \<times> planner" where
  "plan_parsed env change plan st =
    and_then (parseSegment env (plan\<lparr>Change := change\<rparr>) st) (\<lambda>(plan1, st1).
      if RequiresArchive plan1
      then and_then (readArchiveState env plan1 st1) (\<lambda>(plan2, st2). readArchiveManifest env plan2 st2)
      else Inr (plan1, st1))"

definition plan_change :: "planning_env \<Rightarrow> SInpxSegmentPlan \<Rightarrow> planner \<Rightarrow> text_error + SInpxSegmentPlan \<times> planner" where
  "plan_change env plan st =
    (case find (\<lambda>e. ExInpEntryName e = plan_name plan) (PlanExisting env) of
       None \<Rightarrow> plan_parsed env SegmentAdded plan st
     | Some existing \<Rightarrow>
         if canReuseExisting env (Payload plan) existing \<and> \<not> ExRequiresArchive existing
         then Inr (plan\<lparr>Change := SegmentUnchanged, PlanSummary := ExSummary existing\<rparr>, st)
         else if canReuseExisting env (Payload plan) existing then plan_with_archive env existing plan st
         else plan_parsed env SegmentChanged plan st)"

text \<open>The callback of \<open>ReadSegments\<close>.\<close>

definition plan_segment :: "planning_env \<Rightarrow> SInpxSegmentPayload \<Rightarrow> planner \<Rightarrow> text_error + planner" where
  "plan_segment env payload st =
    and_then (RequireCollectionRoom (length (Plans st)) (MaxSegments (PlanLimits env)) ''segment count'') (\<lambda>_.
      if SegInpEntryNameUtf8 payload \<in> set (map plan_name (Plans st))
      then Inl (TextRuntimeError (''Duplicate INP entry name '' @ quoted (SegInpEntryNameUtf8 payload)
        @ '' makes the INPX snapshot ambiguous.''))
      else
        let existing = find (\<lambda>e. ExInpEntryName e = SegInpEntryNameUtf8 payload) (PlanExisting env) in
        and_then (plan_change env (new_plan payload (length (Plans st)) (map_option ExSegmentId existing)) st) (\<lambda>(plan, st').
          Inr (st'\<lparr>Plans := Plans st' @ [plan\<lparr>Payload := (Payload plan)\<lparr>SegBytes := []\<rparr>\<rparr>]\<rparr>)))"

section \<open>The plans of a scan\<close>

definition removed_plan :: "SExistingInpxSegment \<Rightarrow> SInpxSegmentPlan" where
  "removed_plan existing =
    \<lparr>Change = SegmentRemoved,
     Payload = \<lparr>SegInpEntryNameUtf8 = ExInpEntryName existing, SegArchiveNameUtf8 = ExArchiveName existing,
       SegFingerprintUtf8 = ExFingerprint existing, SegBytes = []\<rparr>,
     PlanSummary = ExSummary existing, PlanRecords = [], PlanWarnings = [], DeletedLibIds = [],
     SegmentOrder = nat (ExOrder existing), RequiresArchive = ExRequiresArchive existing,
     ResolvedArchivePathUtf8 = (case ExResolvedPath existing of None \<Rightarrow> [] | Some p \<Rightarrow> p),
     ArchiveFileState = ExFileState existing,
     ArchiveManifestFingerprintUtf8 = (case ExManifest existing of None \<Rightarrow> [] | Some f \<Rightarrow> f),
     ExistingId = Some (ExSegmentId existing), ArchiveOpened = False\<rparr>"

fun add_removed :: "nat \<Rightarrow> string list \<Rightarrow> SExistingInpxSegment list \<Rightarrow> SInpxSegmentPlan list \<Rightarrow> text_error + SInpxSegmentPlan list" where
  "add_removed maxSegments currentNames [] plans = Inr plans"
| "add_removed maxSegments currentNames (existing # rest) plans =
    (if ExInpEntryName existing \<in> set currentNames then add_removed maxSegments currentNames rest plans
     else and_then (RequireCollectionRoom (length plans) maxSegments ''segment count'') (\<lambda>_.
       add_removed maxSegments currentNames rest (plans @ [removed_plan existing])))"

fun count_records :: "nat \<Rightarrow> SInpxSegmentPlan list \<Rightarrow> nat \<Rightarrow> nat \<Rightarrow> text_error + nat \<times> nat" where
  "count_records maxRecords [] totalRecords deletedRecords = Inr (totalRecords, deletedRecords)"
| "count_records maxRecords (plan # plans) totalRecords deletedRecords =
    (if Change plan = SegmentRemoved then count_records maxRecords plans totalRecords deletedRecords
     else if TotalRecords (PlanSummary plan) > u64_sub maxRecords totalRecords
     then Inl (TextRuntimeError (''INPX record count exceeds the configured scan limit of '' @ to_string maxRecords @ '' records.''))
     else count_records maxRecords plans (totalRecords + TotalRecords (PlanSummary plan)) (deletedRecords + DeletedRecords (PlanSummary plan)))"

record scan_plan =
  AllPlans :: "SInpxSegmentPlan list"
  ScanGuards :: guards
  PlannedTotal :: nat
  PlannedDeleted :: nat
  PlanningBytes :: nat

definition empty_planner :: planner where
  "empty_planner = \<lparr>Plans = [], Guards = [], PlannedRecordCount = 0, RetainedWarningCount = 0, PayloadBytesValidated = 0\<rparr>"

definition plan_scan :: "planning_env \<Rightarrow> 'c evp \<Rightarrow> libzip \<Rightarrow> text_error + scan_plan" where
  "plan_scan env evp z =
    and_then (ReadSegments evp z (plan_segment env) (MaxInpSourceBytes (PlanLimits env)) empty_planner) (\<lambda>(currentSegmentCount, st).
      if currentSegmentCount = 0 then Inl (TextRuntimeError ''INPX snapshot does not contain any .inp segments.'')
      else
        and_then (add_removed (MaxSegments (PlanLimits env)) (map plan_name (Plans st))
          (List.sort_key ExInpEntryName (PlanExisting env)) (Plans st)) (\<lambda>plans.
        and_then (count_records (MaxRecords (PlanLimits env)) plans 0 0) (\<lambda>(totalRecords, deletedRecords).
          Inr \<lparr>AllPlans = plans, ScanGuards = Guards st, PlannedTotal = totalRecords, PlannedDeleted = deletedRecords,
            PlanningBytes = PayloadBytesValidated st\<rparr>)))"

text \<open>What the plans tell the observers of the job.\<close>

definition publish_plan :: "SInpxSegmentPlan \<Rightarrow> SInpxScanJobSnapshot \<Rightarrow> SInpxScanJobSnapshot" where
  "publish_plan plan snapshot =
    (let s = (if ArchiveOpened plan then snapshot\<lparr>ArchivesOpened := ArchivesOpened snapshot + 1\<rparr> else snapshot) in
     case Change plan of
       SegmentUnchanged \<Rightarrow> s\<lparr>SegmentsUnchanged := SegmentsUnchanged s + 1,
         ArchivesSkipped := ArchivesSkipped s + (if RequiresArchive plan then 1 else 0),
         ScannedRecords := ScannedRecords s + TotalRecords (PlanSummary plan),
         ReusedRecords := ReusedRecords s + TotalRecords (PlanSummary plan)\<rparr>
     | SegmentAdded \<Rightarrow> s\<lparr>SegmentsAdded := SegmentsAdded s + 1\<rparr>
     | SegmentChanged \<Rightarrow> s\<lparr>SegmentsChanged := SegmentsChanged s + 1\<rparr>
     | SegmentRemoved \<Rightarrow> s\<lparr>SegmentsRemoved := SegmentsRemoved s + 1\<rparr>)"

definition publish_plans :: "EInpxScanMode \<Rightarrow> scan_plan \<Rightarrow> SInpxScanJobSnapshot \<Rightarrow> SInpxScanJobSnapshot" where
  "publish_plans mode plan snapshot =
    (let s = fold publish_plan (AllPlans plan)
           (snapshot\<lparr>SnapTotalRecords := PlannedTotal plan, SegmentsTotal := length (AllPlans plan)\<rparr>) in
     s\<lparr>Percent := nat (ComputePercent (ScannedRecords s) (SnapTotalRecords s)),
       SnapMessage := ''Scanning changed INPX segments for '' @ BuildModeLabel mode @ ''.''\<rparr>)"

section \<open>The guards at the end of a scan\<close>

fun check_plan_guards :: "SInpxSegmentPlan list \<Rightarrow> guards \<Rightarrow> (string \<times> string) list \<Rightarrow> text_error + unit" where
  "check_plan_guards [] guards expected = Inr ()"
| "check_plan_guards (plan # plans) guards expected =
    (if Change plan = SegmentRemoved \<or> \<not> RequiresArchive plan then check_plan_guards plans guards expected
     else case map_of guards (ResolvedArchivePathUtf8 plan) of
       None \<Rightarrow> Inl (TextRuntimeError (''INPX archive guard is missing for segment ''
                 @ quoted (SegInpEntryNameUtf8 (Payload plan)) @ ''.''))
     | Some guard \<Rightarrow>
         if ArchiveFileState plan \<noteq> GuardFileState guard \<or> ArchiveManifestFingerprintUtf8 plan = []
         then Inl (TextRuntimeError (''Conflicting cached archive guard for INP segment ''
                @ quoted (SegInpEntryNameUtf8 (Payload plan)) @ ''.''))
         else if GuardPhase guard \<noteq> FileStateRead
         then if ArchiveManifestFingerprintUtf8 plan \<noteq> GuardManifest guard
              then Inl (TextRuntimeError (''Conflicting cached archive manifest for INP segment ''
                     @ quoted (SegInpEntryNameUtf8 (Payload plan)) @ ''.''))
              else check_plan_guards plans guards expected
         else (case map_of expected (ResolvedArchivePathUtf8 plan) of
                 None \<Rightarrow> check_plan_guards plans guards
                   ((ResolvedArchivePathUtf8 plan, ArchiveManifestFingerprintUtf8 plan) # expected)
               | Some manifest \<Rightarrow>
                   if manifest \<noteq> ArchiveManifestFingerprintUtf8 plan
                   then Inl (TextRuntimeError (''Conflicting cached archive manifests for resolved archive ''
                          @ quoted (ResolvedArchivePathUtf8 plan) @ ''.''))
                   else check_plan_guards plans guards expected))"

definition archive_changed :: "SInpxArchiveScanGuard \<Rightarrow> text_error + 'a" where
  "archive_changed guard =
    Inl (TextRuntimeError (''INPX archive '' @ quoted (GuardArchiveName guard) @ '' changed while it was being scanned; retry the scan.''))"

definition check_archive :: "archive_world \<Rightarrow> string \<Rightarrow> SInpxArchiveScanGuard \<Rightarrow> text_error + unit" where
  "check_archive now path guard =
    (case ReadInpxArchiveFileState now path of
       Inl what \<Rightarrow> Inl (TextRuntimeError what)
     | Inr currentState \<Rightarrow>
         if currentState \<noteq> GuardFileState guard then archive_changed guard
         else if GuardPhase guard = FileStateRead then Inr ()
         else (case ComputeManifestFingerprint now path of
                 Inl what \<Rightarrow> Inl (TextRuntimeError what)
               | Inr manifest \<Rightarrow> if manifest \<noteq> GuardManifest guard then archive_changed guard else Inr ()))"

fun check_archives :: "archive_world \<Rightarrow> guards \<Rightarrow> text_error + unit" where
  "check_archives now [] = Inr ()"
| "check_archives now ((path, guard) # guards) = and_then (check_archive now path guard) (\<lambda>_. check_archives now guards)"

definition ValidateArchiveGuards :: "archive_world \<Rightarrow> SInpxSegmentPlan list \<Rightarrow> guards \<Rightarrow> text_error + unit" where
  "ValidateArchiveGuards now plans guards =
    and_then (check_plan_guards plans guards []) (\<lambda>_. check_archives now (List.sort_key fst guards))"

end
