(* ===== verification/Scan_Planning_Properties.thy ===== *)
theory Scan_Planning_Properties
  imports Scan_Planning
begin

text \<open>The planner keeps its contract \<open>plans_for\<close>: for the segments that are read from the snapshot and the rows of the catalog.\<close>

section \<open>Reading the snapshot\<close>

fun run_callback :: "('a \<Rightarrow> 's \<Rightarrow> 'e + 's) \<Rightarrow> 'a list \<Rightarrow> 's \<Rightarrow> 'e + 's" where
  "run_callback f [] s = Inr s"
| "run_callback f (x # xs) s = and_then (f x s) (run_callback f xs)"

text \<open>The segments of a snapshot.\<close>

definition segments_of :: "'c evp \<Rightarrow> libzip \<Rightarrow> nat \<Rightarrow> SInpxSegmentPayload list" where
  "segments_of evp z maxTotal = (case ReadSegments evp z collect maxTotal [] of Inl _ \<Rightarrow> [] | Inr (_, payloads) \<Rightarrow> payloads)"

definition snapshot_of :: "SInpxSegmentPayload list \<Rightarrow> snapshot" where
  "snapshot_of payloads = map (\<lambda>p. (SegInpEntryNameUtf8 p, SegFingerprintUtf8 p)) payloads"

lemma read_segments_loop_runs:
  "read_segments_loop evp z m f idx c t s = Inr (n, s') \<Longrightarrow>
    \<exists>ps. (\<forall>acc. read_segments_loop evp z m collect idx c t acc = Inr (n, acc @ ps)) \<and> run_callback f ps s = Inr s' \<and> n = c + length ps"
proof (induction idx arbitrary: c t s)
  case Nil
  then show ?case by (intro exI [of _ "[]"]) simp
next
  case (Cons i idx)
  obtain name where name: "EntryName z i = Inr name" using Cons.prems by (cases "EntryName z i") simp_all
  show ?case
  proof (cases "EndsWithAsciiInsensitive name ''.inp''")
    case False
    then have "read_segments_loop evp z m f idx c t s = Inr (n, s')" using Cons.prems name by simp
    from Cons.IH [OF this] show ?thesis using name False by simp
  next
    case True
    obtain p t' s1 where r: "read_segment evp z m i name t = Inr (p, t')" "f p s = Inr s1"
      "read_segments_loop evp z m f idx (c + 1) t' s1 = Inr (n, s')"
      using Cons.prems name True by (auto split: sum.splits)
    obtain ps where ps: "\<And>acc. read_segments_loop evp z m collect idx (c + 1) t' acc = Inr (n, acc @ ps)"
      "run_callback f ps s1 = Inr s'" "n = c + 1 + length ps" using Cons.IH [OF r(3)] by blast
    show ?thesis
      by (intro exI [of _ "p # ps"]) (use ps r name True in \<open>simp add: and_then_def\<close>)
  qed
qed

lemma ReadSegments_runs:
  assumes "ReadSegments evp z f m s = Inr (n, s')"
  shows "run_callback f (segments_of evp z m) s = Inr s' \<and> n = length (segments_of evp z m)"
proof -
  obtain u count where o: "open_archive z = Inr u" "EntryCount z = Inr count" "read_segments_loop evp z m f [0..<count] 0 0 s = Inr (n, s')"
    using assms by (auto simp: ReadSegments_def split: sum.splits)
  obtain ps where ps: "\<And>acc. read_segments_loop evp z m collect [0..<count] 0 0 acc = Inr (n, acc @ ps)"
    "run_callback f ps s = Inr s'" "n = 0 + length ps" using read_segments_loop_runs [OF o(3)] by blast
  have "segments_of evp z m = ps" using o ps(1) [of "[]"] by (simp add: segments_of_def ReadSegments_def)
  then show ?thesis using ps by simp
qed

section \<open>Parsing with the callbacks of the planner\<close>

lemma plan_line_Inr: "plan_line m p seg n l st = Inr st' \<Longrightarrow> segment_line seg n l st = Inr st'"
  by (auto simp: plan_line_def and_then_Inr split: if_splits)

lemma plan_loop_Inr: "plan_loop m p seg t start n st = Inr st' \<Longrightarrow> segment_loop seg t start n st = Inr st'"
proof (induction m p seg t start n st rule: plan_loop.induct)
  case (1 m p seg t start n st)
  show ?case
  proof (cases "start \<le> length t")
    case True
    show ?thesis
    proof (cases "FindByteWithCheckpoints t (CHR 0x0A) start")
      case None
      then show ?thesis using "1.prems" True
        by (simp add: plan_loop.simps [of m p seg t start] segment_loop.simps [of seg t start] plan_line_Inr)
    next
      case (Some e)
      obtain st1 where l: "plan_line m p seg (n + 1) (substr t start (e - start)) st = Inr st1"
        and rest: "plan_loop m p seg t (e + 1) (n + 1) st1 = Inr st'"
        using "1.prems" True Some by (auto simp: plan_loop.simps [of m p seg t start] split: sum.splits)
      show ?thesis using "1.IH" [OF True Some l rest] plan_line_Inr [OF l] True Some by (simp add: segment_loop.simps [of seg t start])
    qed
  next
    case False
    then show ?thesis using "1.prems" by (simp add: plan_loop.simps [of m p seg t start] segment_loop.simps [of seg t start])
  qed
qed

lemma plan_records_Inr: "plan_records env n seg = Inr st \<Longrightarrow> ParseSegment (PlanConvert env) seg [] [] = Inr st"
  by (auto simp: plan_records_def ParseSegment_def and_then_Inr dest: plan_loop_Inr)

section \<open>One plan\<close>

text \<open>The part of a plan that the archives do not touch.\<close>

definition same_core :: "SInpxSegmentPlan \<Rightarrow> SInpxSegmentPlan \<Rightarrow> bool" where
  "same_core p q \<longleftrightarrow> Change q = Change p \<and> Payload q = Payload p \<and> PlanRecords q = PlanRecords p
    \<and> DeletedLibIds q = DeletedLibIds p \<and> SegmentOrder q = SegmentOrder p"

lemma readArchiveState_core: "readArchiveState env plan st = Inr (plan', st') \<Longrightarrow> same_core plan plan' \<and> Plans st' = Plans st"
  by (auto simp: readArchiveState_def archive_failure_def same_core_def split: sum.splits option.splits)

lemma readArchiveManifest_core: "readArchiveManifest env plan st = Inr (plan', st') \<Longrightarrow> same_core plan plan' \<and> Plans st' = Plans st"
  by (auto simp: readArchiveManifest_def archive_failure_def same_core_def split: sum.splits option.splits if_splits)

lemma validateArchivePayloads_core: "validateArchivePayloads env plan st = Inr st' \<Longrightarrow> Plans st' = Plans st"
  by (auto simp: validateArchivePayloads_def archive_failure_def split: sum.splits option.splits if_splits)

definition parsed_plan :: "planning_env \<Rightarrow> SInpxSegmentPayload \<Rightarrow> SInpxSegmentPlan \<Rightarrow> bool" where
  "parsed_plan env payload plan \<longleftrightarrow> needs_scan plan \<and> (\<exists>parsed. ParseSegment (PlanConvert env) payload [] [] = Inr parsed
    \<and> PlanRecords plan = Records parsed \<and> set (DeletedLibIds plan) = deleted_ids (Records parsed))"

lemma parsed_plan_core: "parsed_plan env payload p \<Longrightarrow> same_core p q \<Longrightarrow> parsed_plan env payload q"
  by (simp add: parsed_plan_def same_core_def needs_scan_def)

lemma parseSegment_core:
  assumes "parseSegment env plan st = Inr (plan', st')" "needs_scan plan"
  shows "parsed_plan env (Payload plan) plan' \<and> Payload plan' = Payload plan \<and> SegmentOrder plan' = SegmentOrder plan \<and> Plans st' = Plans st"
proof -
  obtain parsed where "plan_records env (PlannedRecordCount st) (Payload plan) = Inr parsed"
    "plan' = plan\<lparr>PlanSummary := Summary parsed, PlanRecords := Records parsed,
       PlanWarnings := take (GMaxRetainedPlanningWarnings - RetainedWarningCount st) (Warnings parsed),
       DeletedLibIds := remdups_adj (sort (map LibId (filter Deleted (Records parsed)))),
       RequiresArchive := RequiresArchive plan \<or> list_ex (\<lambda>r. \<not> Deleted r \<and> is_supported r) (Records parsed)\<rparr>" "Plans st' = Plans st"
    using assms(1) by (auto simp: parseSegment_def and_then_Inr Let_def)
  then show ?thesis using assms(2) plan_records_Inr [of env "PlannedRecordCount st" "Payload plan" parsed]
    by (simp add: parsed_plan_def needs_scan_def deleted_ids_def)
qed

text \<open>What \<open>plan_change\<close> decides.\<close>

definition decided :: "planning_env \<Rightarrow> SInpxSegmentPlan \<Rightarrow> SInpxSegmentPlan \<Rightarrow> bool" where
  "decided env plan plan' \<longleftrightarrow> Payload plan' = Payload plan \<and> SegmentOrder plan' = SegmentOrder plan \<and>
    (parsed_plan env (Payload plan) plan' \<or>
     (Change plan' = SegmentUnchanged \<and> PlanRecords plan' = PlanRecords plan \<and> (case find (\<lambda>e. ExInpEntryName e = plan_name plan) (PlanExisting env) of
        None \<Rightarrow> False | Some e \<Rightarrow> canReuseExisting env (Payload plan) e)))"

lemma plan_parsed_decided:
  assumes "plan_parsed env c plan st = Inr (plan', st')" "c = SegmentAdded \<or> c = SegmentChanged"
  shows "decided env plan plan' \<and> Plans st' = Plans st"
proof -
  obtain p1 s1 where p1: "parseSegment env (plan\<lparr>Change := c\<rparr>) st = Inr (p1, s1)"
    and r: "(if RequiresArchive p1 then and_then (readArchiveState env p1 s1) (\<lambda>(p2, s2). readArchiveManifest env p2 s2) else Inr (p1, s1)) = Inr (plan', st')"
    using assms(1) by (auto simp: plan_parsed_def and_then_Inr)
  have core: "parsed_plan env (Payload plan) p1 \<and> Payload p1 = Payload plan \<and> SegmentOrder p1 = SegmentOrder plan \<and> Plans s1 = Plans st"
    using parseSegment_core [OF p1] assms(2) by (auto simp: needs_scan_def)
  have "same_core p1 plan' \<and> Plans st' = Plans s1"
  proof (cases "RequiresArchive p1")
    case True
    then obtain p2 s2 where "readArchiveState env p1 s1 = Inr (p2, s2)" "readArchiveManifest env p2 s2 = Inr (plan', st')"
      using r by (auto simp: and_then_Inr)
    then show ?thesis using readArchiveState_core [of env p1 s1 p2 s2] readArchiveManifest_core [of env p2 s2 plan' st']
      by (simp add: same_core_def)
  qed (use r in \<open>simp add: same_core_def\<close>)
  then show ?thesis using core parsed_plan_core [of env "Payload plan" p1 plan'] by (simp add: decided_def same_core_def)
qed

lemma plan_with_archive_decided:
  assumes "plan_with_archive env e plan st = Inr (plan', st')" "find (\<lambda>e. ExInpEntryName e = plan_name plan) (PlanExisting env) = Some e"
    "canReuseExisting env (Payload plan) e"
  shows "decided env plan plan' \<and> Plans st' = Plans st"
proof -
  obtain path manifest where ex: "ExResolvedPath e = Some path" "ExManifest e = Some manifest"
    using assms(1) by (auto simp: plan_with_archive_def split: option.splits)
  obtain p1 s1 where r1: "readArchiveState env (plan\<lparr>RequiresArchive := True\<rparr>) st = Inr (p1, s1)" and
    c: "(if path = ResolvedArchivePathUtf8 p1 \<and> ExFileState e = ArchiveFileState p1
         then Inr (p1\<lparr>Change := SegmentUnchanged, PlanSummary := ExSummary e, ArchiveManifestFingerprintUtf8 := manifest\<rparr>, s1)
         else and_then (readArchiveManifest env p1 s1) (\<lambda>(p2, s2).
           if manifest = ArchiveManifestFingerprintUtf8 p2
           then and_then (validateArchivePayloads env p2 s2) (\<lambda>s3. Inr (p2\<lparr>Change := SegmentUnchanged, PlanSummary := ExSummary e\<rparr>, s3))
           else parseSegment env (p2\<lparr>Change := SegmentChanged\<rparr>) s2)) = Inr (plan', st')"
    using assms(1) ex by (auto simp: plan_with_archive_def and_then_Inr)
  have core1: "same_core plan p1" "Plans s1 = Plans st" using readArchiveState_core [OF r1] by (simp_all add: same_core_def)
  show ?thesis
  proof (cases "path = ResolvedArchivePathUtf8 p1 \<and> ExFileState e = ArchiveFileState p1")
    case True
    then show ?thesis using c core1 assms(2,3) by (auto simp: decided_def same_core_def plan_name_def)
  next
    case False
    then obtain p2 s2 where r2: "readArchiveManifest env p1 s1 = Inr (p2, s2)" and
      c2: "(if manifest = ArchiveManifestFingerprintUtf8 p2
           then and_then (validateArchivePayloads env p2 s2) (\<lambda>s3. Inr (p2\<lparr>Change := SegmentUnchanged, PlanSummary := ExSummary e\<rparr>, s3))
           else parseSegment env (p2\<lparr>Change := SegmentChanged\<rparr>) s2) = Inr (plan', st')"
      using c by (auto simp: and_then_Inr)
    have core2: "same_core plan p2" "Plans s2 = Plans st" using readArchiveManifest_core [OF r2] core1 by (simp_all add: same_core_def)
    show ?thesis
    proof (cases "manifest = ArchiveManifestFingerprintUtf8 p2")
      case True
      then obtain s3 where s3: "validateArchivePayloads env p2 s2 = Inr s3"
        "plan' = p2\<lparr>Change := SegmentUnchanged, PlanSummary := ExSummary e\<rparr>" "st' = s3" using c2 by (auto simp: and_then_Inr)
      then have "Plans st' = Plans st" using validateArchivePayloads_core [OF s3(1)] core2 by simp
      then show ?thesis using s3(2) core2 assms(2,3) by (simp add: decided_def same_core_def)
    next
      case False
      then have "parseSegment env (p2\<lparr>Change := SegmentChanged\<rparr>) s2 = Inr (plan', st')" using c2 by simp
      from parseSegment_core [OF this] core2 show ?thesis by (simp add: decided_def same_core_def needs_scan_def)
    qed
  qed
qed

lemma plan_change_decided:
  assumes "plan_change env plan st = Inr (plan', st')"
  shows "decided env plan plan' \<and> Plans st' = Plans st"
proof (cases "find (\<lambda>e. ExInpEntryName e = plan_name plan) (PlanExisting env)")
  case None
  then show ?thesis using assms plan_parsed_decided [of env SegmentAdded plan st plan' st'] by (simp add: plan_change_def)
next
  case (Some e)
  show ?thesis
  proof (cases "canReuseExisting env (Payload plan) e")
    case True
    then show ?thesis using assms Some plan_with_archive_decided [of env e plan st plan' st']
      by (auto simp: plan_change_def decided_def split: if_splits)
  next
    case False
    then show ?thesis using assms Some plan_parsed_decided [of env SegmentChanged plan st plan' st'] by (simp add: plan_change_def)
  qed
qed

section \<open>All plans\<close>

definition planned_as :: "planning_env \<Rightarrow> nat \<Rightarrow> SInpxSegmentPayload \<Rightarrow> SInpxSegmentPlan \<Rightarrow> bool" where
  "planned_as env k payload plan \<longleftrightarrow>
    (\<exists>x plan0. decided env (new_plan payload k x) plan0 \<and> plan = plan0\<lparr>Payload := (Payload plan0)\<lparr>SegBytes := []\<rparr>\<rparr>)"

lemma planned_as_name: "planned_as env k payload plan \<Longrightarrow> plan_name plan = SegInpEntryNameUtf8 payload"
  by (auto simp: planned_as_def decided_def new_plan_def plan_name_def)

lemma plan_segment_Inr:
  assumes "plan_segment env payload st = Inr st'"
  shows "\<exists>plan. Plans st' = Plans st @ [plan] \<and> planned_as env (length (Plans st)) payload plan
    \<and> SegInpEntryNameUtf8 payload \<notin> set (map plan_name (Plans st))"
proof -
  obtain x plan0 s1 where new: "SegInpEntryNameUtf8 payload \<notin> set (map plan_name (Plans st))"
    and c: "plan_change env (new_plan payload (length (Plans st)) x) st = Inr (plan0, s1)"
    and st': "st' = s1\<lparr>Plans := Plans s1 @ [plan0\<lparr>Payload := (Payload plan0)\<lparr>SegBytes := []\<rparr>\<rparr>]\<rparr>"
    using assms by (auto simp: plan_segment_def and_then_Inr Let_def split: if_splits)
  from plan_change_decided [OF c] have "decided env (new_plan payload (length (Plans st)) x) plan0" "Plans s1 = Plans st" by blast+
  with new st' show ?thesis unfolding planned_as_def by auto
qed

lemma plan_segments_Inr:
  assumes "run_callback (plan_segment env) payloads st = Inr st'" "distinct (map plan_name (Plans st))"
  shows "\<exists>new. Plans st' = Plans st @ new \<and> length new = length payloads \<and> distinct (map plan_name (Plans st'))
    \<and> (\<forall>k < length payloads. planned_as env (length (Plans st) + k) (payloads ! k) (new ! k))"
  using assms
proof (induction payloads arbitrary: st)
  case Nil
  then show ?case by simp
next
  case (Cons payload payloads)
  obtain s1 where s1: "plan_segment env payload st = Inr s1" "run_callback (plan_segment env) payloads s1 = Inr st'"
    using Cons.prems(1) by (auto simp: and_then_Inr)
  obtain plan where p: "Plans s1 = Plans st @ [plan]" "planned_as env (length (Plans st)) payload plan"
    "SegInpEntryNameUtf8 payload \<notin> set (map plan_name (Plans st))" using plan_segment_Inr [OF s1(1)] by blast
  then have "distinct (map plan_name (Plans s1))" using Cons.prems(2) planned_as_name [OF p(2)] by simp
  from Cons.IH [OF s1(2) this] obtain new where new: "Plans st' = Plans s1 @ new" "length new = length payloads"
    "distinct (map plan_name (Plans st'))" "\<And>k. k < length payloads \<Longrightarrow> planned_as env (length (Plans s1) + k) (payloads ! k) (new ! k)" by blast
  have "planned_as env (length (Plans st) + k) ((payload # payloads) ! k) ((plan # new) ! k)" if "k < length (payload # payloads)" for k
    using that p(1,2) new(4) [of "k - 1"] by (cases k) simp_all
  then show ?case using new p(1) by (intro exI [of _ "plan # new"]) simp
qed

lemma add_removed_Inr:
  "add_removed m names ex plans = Inr plans' \<Longrightarrow>
    plans' = plans @ map removed_plan (filter (\<lambda>e. ExInpEntryName e \<notin> set names) ex)"
  by (induction m names ex plans rule: add_removed.induct) (auto simp: and_then_Inr split: if_splits)

lemma read_existing_Inr: "read_existing m rows found = Inr ex \<Longrightarrow> ex = found @ map existing_segment rows"
  by (induction m rows found rule: read_existing.induct) (auto simp: and_then_Inr split: if_splits)

lemma find_existing: "find (\<lambda>e. ExInpEntryName e = n) (map existing_segment rows) = map_option existing_segment (seg_of n rows)"
  by (induction rows) (simp_all add: seg_of_simps existing_segment_def)

text \<open>A fingerprint stands for the records of the payload that has it.\<close>

definition identifies :: "(string \<Rightarrow> SInpxRecord list) \<Rightarrow> convert \<Rightarrow> SInpxSegmentPayload list \<Rightarrow> bool" where
  "identifies content convert_text payloads \<longleftrightarrow>
    (\<forall>p \<in> set payloads. \<forall>st. ParseSegment convert_text p [] [] = Inr st \<longrightarrow> Records st = content (SegFingerprintUtf8 p))"

definition plan_content :: "(string \<Rightarrow> SInpxRecord list) \<Rightarrow> string \<times> string \<Rightarrow> SInpxSegmentPlan \<Rightarrow> bool" where
  "plan_content content segment plan \<longleftrightarrow> (needs_scan plan \<longrightarrow> PlanRecords plan = content (snd segment))"

lemma planned_as_plan_for:
  assumes p: "planned_as env k payload plan" and ex: "PlanExisting env = map existing_segment (Segments db)"
    and c: "\<And>st. ParseSegment (PlanConvert env) payload [] [] = Inr st \<Longrightarrow> Records st = content (SegFingerprintUtf8 payload)"
  shows "plan_for content db k (SegInpEntryNameUtf8 payload, SegFingerprintUtf8 payload) plan
    \<and> plan_content content (SegInpEntryNameUtf8 payload, SegFingerprintUtf8 payload) plan"
proof -
  obtain x plan0 where d: "decided env (new_plan payload k x) plan0" and plan: "plan = plan0\<lparr>Payload := (Payload plan0)\<lparr>SegBytes := []\<rparr>\<rparr>"
    using p unfolding planned_as_def by blast
  have core: "Payload plan0 = payload" "SegmentOrder plan0 = k" "plan_name (new_plan payload k x) = SegInpEntryNameUtf8 payload"
    "Payload (new_plan payload k x) = payload" using d by (simp_all add: decided_def new_plan_def plan_name_def)
  consider (parsed) "parsed_plan env payload plan0" |
    (reused) "Change plan0 = SegmentUnchanged" "case find (\<lambda>e. ExInpEntryName e = SegInpEntryNameUtf8 payload) (PlanExisting env) of
        None \<Rightarrow> False | Some e \<Rightarrow> canReuseExisting env payload e"
    using d unfolding decided_def core by blast
  then show ?thesis
  proof cases
    case parsed
    then obtain parsed where "needs_scan plan0" "ParseSegment (PlanConvert env) payload [] [] = Inr parsed"
      "PlanRecords plan0 = Records parsed" "set (DeletedLibIds plan0) = deleted_ids (Records parsed)" unfolding parsed_plan_def by blast
    then show ?thesis using c [of parsed] core plan
      by (auto simp: plan_for_def plan_content_def plan_name_def needs_scan_def)
  next
    case reused
    then obtain r where "seg_of (SegInpEntryNameUtf8 payload) (Segments db) = Some r" "canReuseExisting env payload (existing_segment r)"
      unfolding ex find_existing by (cases "seg_of (SegInpEntryNameUtf8 payload) (Segments db)") auto
    then show ?thesis using reused(1) core plan
      by (simp add: plan_for_def plan_content_def plan_name_def needs_scan_def row_available_def canReuseExisting_def existing_segment_def IsInpxBookAvailable_def)
  qed
qed

text \<open>The contract of the planner.\<close>

lemma plan_scan_plans_for:
  assumes plan: "plan_scan env evp z = Inr sp"
    and ex: "ReadExistingInpxSegments m (Segments db) = Inr (PlanExisting env)" and ok: "segments_ok (Segments db)"
    and content: "identifies content (PlanConvert env) (segments_of evp z (MaxInpSourceBytes (PlanLimits env)))"
  shows "plans_for content (snapshot_of (segments_of evp z (MaxInpSourceBytes (PlanLimits env)))) db (AllPlans sp)
    \<and> (\<forall>k < length (segments_of evp z (MaxInpSourceBytes (PlanLimits env))).
        plan_content content (snapshot_of (segments_of evp z (MaxInpSourceBytes (PlanLimits env))) ! k) (AllPlans sp ! k))"
proof -
  let ?ps = "segments_of evp z (MaxInpSourceBytes (PlanLimits env))"
  have ex': "PlanExisting env = map existing_segment (Segments db)"
    using ex read_existing_Inr [of m "Segments db" "[]" "PlanExisting env"] by (simp add: ReadExistingInpxSegments_def)
  obtain n st plans where r: "ReadSegments evp z (plan_segment env) (MaxInpSourceBytes (PlanLimits env)) empty_planner = Inr (n, st)"
    and a: "add_removed (MaxSegments (PlanLimits env)) (map plan_name (Plans st)) (List.sort_key ExInpEntryName (PlanExisting env)) (Plans st) = Inr plans"
    and sp: "AllPlans sp = plans"
    using plan by (auto simp: plan_scan_def and_then_Inr split: if_splits)
  have e0: "distinct (map plan_name (Plans empty_planner))" by (simp add: empty_planner_def)
  from plan_segments_Inr [OF conjunct1 [OF ReadSegments_runs [OF r]] e0]
  have cur: "length (Plans st) = length ?ps" "distinct (map plan_name (Plans st))"
    "\<And>k. k < length ?ps \<Longrightarrow> planned_as env k (?ps ! k) (Plans st ! k)" by (auto simp: empty_planner_def)
  let ?gone = "filter (\<lambda>e. ExInpEntryName e \<notin> set (map plan_name (Plans st))) (List.sort_key ExInpEntryName (PlanExisting env))"
  have plans: "plans = Plans st @ map removed_plan ?gone" by (rule add_removed_Inr [OF a])
  have names_ex: "map ExInpEntryName (PlanExisting env) = map RowInpEntryName (Segments db)" by (simp add: ex' existing_segment_def comp_def)
  have gone_name: "plan_name (removed_plan e) = ExInpEntryName e" for e by (simp add: removed_plan_def plan_name_def)
  have "distinct (map ExInpEntryName (PlanExisting env))" using ok by (simp add: names_ex segments_ok_def)
  then have "distinct (map ExInpEntryName (List.sort_key ExInpEntryName (PlanExisting env)))" by (simp add: distinct_map)
  then have dg: "distinct (map plan_name (map removed_plan ?gone))" by (simp add: comp_def gone_name distinct_map_filter)
  have "set (map plan_name (Plans st)) \<inter> set (map plan_name (map removed_plan ?gone)) = {}"
  proof -
    have "map plan_name (map removed_plan ?gone) = map ExInpEntryName ?gone" by (simp add: gone_name comp_def)
    moreover have "A \<inter> set (map ExInpEntryName (filter (\<lambda>e. ExInpEntryName e \<notin> A) xs)) = {}" for A xs by auto
    ultimately show ?thesis by (simp only:)
  qed
  then have "distinct (map plan_name plans)" using cur(2) dg unfolding plans map_append distinct_append by blast
  moreover have "set (map RowInpEntryName (Segments db)) \<subseteq> set (map plan_name plans)"
    unfolding names_ex [symmetric] plans by (auto simp: gone_name image_iff)
  moreover have pf: "plan_for content db k (snapshot_of ?ps ! k) (plans ! k) \<and> plan_content content (snapshot_of ?ps ! k) (plans ! k)" if k: "k < length ?ps" for k
  proof -
    have "plans ! k = Plans st ! k" using k cur(1) by (simp add: plans nth_append)
    moreover have "snapshot_of ?ps ! k = (SegInpEntryNameUtf8 (?ps ! k), SegFingerprintUtf8 (?ps ! k))" using k by (simp add: snapshot_of_def)
    moreover have "Records s = content (SegFingerprintUtf8 (?ps ! k))" if "ParseSegment (PlanConvert env) (?ps ! k) [] [] = Inr s" for s
      using content that nth_mem [OF k] unfolding identifies_def by blast
    ultimately show ?thesis using planned_as_plan_for [OF cur(3) [OF k] ex', of content] by simp
  qed
  moreover have "Change (plans ! k) = SegmentRemoved" if "k < length plans" "length ?ps \<le> k" for k
    using that cur(1) by (simp add: plans nth_append removed_plan_def)
  moreover have "length ?ps \<le> length plans" by (simp add: plans cur(1))
  ultimately show ?thesis by (simp add: plans_for_def sp snapshot_of_def)
qed

end
