(* ===== verification/Scan_Execution.thy ===== *)
theory Scan_Execution
  imports Scan_Planning_Properties
begin

text \<open>
  The second half of \<open>RunScan\<close> in \<open>libs/App/InpxScanJobService.cpp\<close>: the payloads of the planned segments are read
  from their archives, parsed by a pool of workers and written to the catalog, with a window of payloads in flight and
  a budget of their bytes. Which of the payloads in flight is ready first is up to the workers (\<open>ReadyAt\<close>); the archive
  reader, the parser and the cover cache are parameters.
\<close>

section \<open>Data\<close>

record SInpxScanWarningRecord =
  WarningCode :: string
  WarningArchive :: "string option"
  WarningEntry :: "string option"
  WarningMessage :: string

record SPreparedInpxPayload =
  PreparedMetadata :: SBookMetadata
  PreparedParserWarnings :: nat
  PreparedCoverWarningCount :: nat
  PreparedCover :: "session_error + SInpxCachedCoverResult"
  PreparedAt :: int

record SInFlightParsedRecord =
  TaskSegment :: int
  TaskRecord :: SInpxRecord
  TaskPayload :: string
  ReservedPayloadBytes :: nat

record exec_env =
  MaxInFlightPayloads :: nat
  MaxInFlightPayloadBytes :: nat
  MaxActiveRecords :: nat
  ExecManifest :: "string \<Rightarrow> string + string"
  ReadEntrySize :: "string \<Rightarrow> string \<Rightarrow> string + nat"
  ReadEntryBytes :: "string \<Rightarrow> string \<Rightarrow> string + string"
  ParseInpxPayloadBytes :: "SInpxRecord \<Rightarrow> string \<Rightarrow> string + SPreparedInpxPayload"
  ReadyAt :: "nat \<Rightarrow> nat"
  ExecWriter :: writer_env

text \<open>\<open>Written\<close> records the payloads in the order in which they were written; the code has no use for it.\<close>

record exec_state =
  ProcessedActiveIds :: "string list"
  InFlight :: "SInFlightParsedRecord list"
  InFlightPayloadBytes :: nat
  CurrentArchivePath :: string
  Takes :: nat
  ExecTables :: scan_tables
  ExecWarnings :: "SInpxScanWarningRecord list"
  ExecScanned :: nat
  ExecSkipped :: nat
  Results :: "SInpxRecordWriteResult list"
  Written :: "parsed_record list"

fun session_what :: "session_error \<Rightarrow> string" where
  "session_what (CDomainException _ m) = m"
| "session_what (SessionRuntimeError m) = m"
| "session_what (SessionLogicError m) = m"
| "session_what (SessionInvalidArgument m) = m"
| "session_what Terminated = []"

definition lift_error :: "text_error + 'a \<Rightarrow> session_error + 'a" where
  "lift_error r = (case r of Inl e \<Rightarrow> Inl (SessionRuntimeError (text_what e)) | Inr x \<Rightarrow> Inr x)"

definition publishWarning :: "SInpxScanWarningRecord \<Rightarrow> bool \<Rightarrow> exec_state \<Rightarrow> exec_state" where
  "publishWarning warning countAsSkipped st =
    st\<lparr>ExecWarnings := ExecWarnings st @ [warning], ExecSkipped := ExecSkipped st + (if countAsSkipped then 1 else 0)\<rparr>"

section \<open>The payloads of the segments that are reused\<close>

fun read_active :: "nat \<Rightarrow> string list \<Rightarrow> segment_row list \<Rightarrow> location_row list \<Rightarrow> string list \<Rightarrow> text_error + string list" where
  "read_active maxRecords names rows [] found = Inr found"
| "read_active maxRecords names rows (l # ls) found =
    (if LocPresent l \<and> list_ex (\<lambda>s. SegmentId s = LocSegmentId l \<and> RowInpEntryName s \<in> set names) rows
     then and_then (InsertActiveLibId found (LocLibId l) maxRecords) (\<lambda>(_, found'). read_active maxRecords names rows ls found')
     else read_active maxRecords names rows ls found)"

definition ReadActiveInpxIdsForSegments :: "string list \<Rightarrow> nat \<Rightarrow> scan_tables \<Rightarrow> text_error + string list" where
  "ReadActiveInpxIdsForSegments names maxRecords db =
    (if names = [] then Inr [] else read_active maxRecords names (Segments db) (Locations db) [])"

section \<open>Draining\<close>

definition takeParsedRecord :: "exec_env \<Rightarrow> exec_state \<Rightarrow> SInFlightParsedRecord \<times> SInFlightParsedRecord list" where
  "takeParsedRecord env st =
    (let i = (if ReadyAt env (Takes st) < length (InFlight st) then ReadyAt env (Takes st) else 0) in
     (InFlight st ! i, take i (InFlight st) @ drop (Suc i) (InFlight st)))"

definition parsed_of :: "SInFlightParsedRecord \<Rightarrow> SPreparedInpxPayload \<Rightarrow> parsed_record" where
  "parsed_of task prepared =
    \<lparr>ForSegment = TaskSegment task, ForRecord = TaskRecord task, ParsedMetadata = PreparedMetadata prepared,
     ParsedWarnings = PreparedParserWarnings prepared, PreparedCoverWarnings = PreparedCoverWarningCount prepared,
     CoverOutcome = PreparedCover prepared, WrittenAtUtc = PreparedAt prepared\<rparr>"

definition not_indexed :: "SInpxRecord \<Rightarrow> string \<Rightarrow> session_error + 'a" where
  "not_indexed inpxRecord what = Inl (SessionRuntimeError
    (''INPX payload '' @ quoted (BuildInpxSourceLabel inpxRecord) @ '' could not be indexed atomically: '' @ what))"

definition drainParsedRecord :: "exec_env \<Rightarrow> exec_state \<Rightarrow> session_error + exec_state" where
  "drainParsedRecord env st =
    (case takeParsedRecord env st of (task, rest) \<Rightarrow>
     case ParseInpxPayloadBytes env (TaskRecord task) (TaskPayload task) of
       Inl what \<Rightarrow> not_indexed (TaskRecord task) what
     | Inr prepared \<Rightarrow>
         (case WriteParsedRecord (ExecWriter env) (parsed_of task prepared) (ExecTables st) of
            Inl e \<Rightarrow> not_indexed (TaskRecord task) (session_what e)
          | Inr (writeResult, tables) \<Rightarrow>
              Inr (st\<lparr>InFlight := rest, Takes := Takes st + 1, ExecTables := tables, Results := Results st @ [writeResult],
                Written := Written st @ [parsed_of task prepared],
                InFlightPayloadBytes := (if ReservedPayloadBytes task \<le> InFlightPayloadBytes st
                  then InFlightPayloadBytes st - ReservedPayloadBytes task else 0)\<rparr>)))"

lemma take_length: "InFlight st \<noteq> [] \<Longrightarrow> length (snd (takeParsedRecord env st)) < length (InFlight st)"
  by (cases "InFlight st") (auto simp: takeParsedRecord_def Let_def)

lemma drain_length: "drainParsedRecord env st = Inr st' \<Longrightarrow> InFlight st \<noteq> [] \<Longrightarrow> length (InFlight st') < length (InFlight st)"
  using take_length [of st env] by (auto simp: drainParsedRecord_def not_indexed_def split: prod.splits sum.splits)

text \<open>\<open>while\<close> there is something in flight and the condition holds: every round takes one payload away.\<close>

function drain_while :: "exec_env \<Rightarrow> (exec_state \<Rightarrow> bool) \<Rightarrow> exec_state \<Rightarrow> session_error + exec_state" where
  "drain_while env condition st =
    (if InFlight st \<noteq> [] \<and> condition st
     then (case drainParsedRecord env st of Inl e \<Rightarrow> Inl e | Inr st' \<Rightarrow> drain_while env condition st')
     else Inr st)"
  by pat_completeness auto
termination
  by (relation "measure (\<lambda>(_, _, st). length (InFlight st))") (auto dest: drain_length)

declare drain_while.simps [simp del]

section \<open>One record\<close>

definition switch_archive :: "exec_env \<Rightarrow> SInpxSegmentPlan \<Rightarrow> exec_state \<Rightarrow> session_error + exec_state" where
  "switch_archive env plan st =
    (if CurrentArchivePath st = ResolvedArchivePathUtf8 plan then Inr st
     else and_then (drain_while env (\<lambda>_. True) st) (\<lambda>st1.
       case ExecManifest env (ResolvedArchivePathUtf8 plan) of
         Inl what \<Rightarrow> Inl (SessionRuntimeError what)
       | Inr manifest \<Rightarrow>
           if manifest \<noteq> ArchiveManifestFingerprintUtf8 plan
           then Inl (SessionRuntimeError (''INPX archive '' @ quoted (SegArchiveNameUtf8 (Payload plan))
                  @ '' changed before its payloads were read; retry the scan.''))
           else Inr (st1\<lparr>CurrentArchivePath := ResolvedArchivePathUtf8 plan\<rparr>)))"

definition size_mismatch :: "SInpxRecord \<Rightarrow> nat \<Rightarrow> session_error" where
  "size_mismatch inpxRecord actualSizeBytes = SessionRuntimeError (''INPX payload size mismatch for ''
    @ quoted (BuildInpxSourceLabel inpxRecord) @ '': INPX declares '' @ int_to_string (FileSizeBytes inpxRecord)
    @ '' bytes but ZIP contains '' @ to_string actualSizeBytes @ '' bytes.'')"

definition payload_too_large :: "exec_env \<Rightarrow> SInpxRecord \<Rightarrow> nat \<Rightarrow> session_error" where
  "payload_too_large env inpxRecord actualSizeBytes = SessionRuntimeError (''INPX payload ''
    @ quoted (BuildInpxSourceLabel inpxRecord) @ '' requires '' @ to_string actualSizeBytes
    @ '' raw bytes, exceeding the configured in-flight payload limit of '' @ to_string (MaxInFlightPayloadBytes env) @ '' bytes.'')"

text \<open>Reading the payload of a record from the open archive and handing it to the workers.\<close>

definition submit_payload :: "exec_env \<Rightarrow> int \<Rightarrow> SInpxRecord \<Rightarrow> exec_state \<Rightarrow> session_error + exec_state" where
  "submit_payload env segmentId inpxRecord st =
    (case ReadEntrySize env (CurrentArchivePath st) (EntryNameUtf8 inpxRecord) of
       Inl what \<Rightarrow> Inl (SessionRuntimeError what)
     | Inr actualSizeBytes \<Rightarrow>
         if FileSizeBytes inpxRecord \<noteq> 0 \<and> int actualSizeBytes \<noteq> FileSizeBytes inpxRecord
         then Inl (size_mismatch inpxRecord actualSizeBytes)
         else if actualSizeBytes > MaxInFlightPayloadBytes env then Inl (payload_too_large env inpxRecord actualSizeBytes)
         else and_then (drain_while env (\<lambda>s. InFlightPayloadBytes s > MaxInFlightPayloadBytes env - actualSizeBytes) st) (\<lambda>st1.
           case ReadEntryBytes env (CurrentArchivePath st1) (EntryNameUtf8 inpxRecord) of
             Inl what \<Rightarrow> Inl (SessionRuntimeError what)
           | Inr payloadBytes \<Rightarrow>
               Inr (st1\<lparr>InFlight := InFlight st1 @ [\<lparr>TaskSegment = segmentId,
                     TaskRecord = inpxRecord\<lparr>FileSizeBytes := int actualSizeBytes\<rparr>, TaskPayload = payloadBytes,
                     ReservedPayloadBytes = actualSizeBytes\<rparr>],
                   InFlightPayloadBytes := InFlightPayloadBytes st1 + actualSizeBytes\<rparr>)))"

definition exec_record :: "exec_env \<Rightarrow> SInpxSegmentPlan \<Rightarrow> int \<Rightarrow> SInpxRecord \<Rightarrow> exec_state \<Rightarrow> session_error + exec_state" where
  "exec_record env plan segmentId inpxRecord st0 =
    (let st = st0\<lparr>ExecScanned := ExecScanned st0 + 1\<rparr> in
     if Deleted inpxRecord then Inr st
     else if \<not> is_supported inpxRecord
     then Inr (publishWarning \<lparr>WarningCode = ''unsupported-format'', WarningArchive = Some (ArchiveNameUtf8 inpxRecord),
            WarningEntry = Some (EntryNameUtf8 inpxRecord),
            WarningMessage = ''Unsupported INPX payload format '' @ quoted (FileExtensionUtf8 inpxRecord) @ ''.''\<rparr> True st)
     else and_then (lift_error (InsertActiveLibId (ProcessedActiveIds st) (LibId inpxRecord) (MaxActiveRecords env))) (\<lambda>(inserted, ids).
       if \<not> inserted
       then Inl (SessionRuntimeError (''Duplicate active LibId '' @ quoted (LibId inpxRecord) @ '' makes the INPX snapshot ambiguous.''))
       else and_then (drain_while env (\<lambda>s. length (InFlight s) \<ge> MaxInFlightPayloads env) (st\<lparr>ProcessedActiveIds := ids\<rparr>)) (\<lambda>st1.
         and_then (switch_archive env plan st1) (submit_payload env segmentId inpxRecord))))"

fun exec_records :: "exec_env \<Rightarrow> SInpxSegmentPlan \<Rightarrow> int \<Rightarrow> SInpxRecord list \<Rightarrow> exec_state \<Rightarrow> session_error + exec_state" where
  "exec_records env plan segmentId [] st = Inr st"
| "exec_records env plan segmentId (r # rs) st = and_then (exec_record env plan segmentId r st) (exec_records env plan segmentId rs)"

section \<open>All segments\<close>

text \<open>The plans to execute, in the order of their archives: \<open>std::ranges::sort\<close> by the path, then by the index.\<close>

definition execution_order :: "SInpxSegmentPlan list \<Rightarrow> nat list" where
  "execution_order plans =
    List.sort_key (\<lambda>k. ResolvedArchivePathUtf8 (plans ! k)) (filter (\<lambda>k. needs_scan (plans ! k)) [0..<length plans])"

fun exec_plans :: "exec_env \<Rightarrow> SInpxSegmentPlan list \<Rightarrow> int list \<Rightarrow> nat list \<Rightarrow> exec_state \<Rightarrow> session_error + exec_state" where
  "exec_plans env plans ids [] st = Inr st"
| "exec_plans env plans ids (k # ks) st =
    and_then (exec_records env (plans ! k) (ids ! k) (PlanRecords (plans ! k)) st) (exec_plans env plans ids ks)"

definition parse_warnings :: "SInpxSegmentPlan list \<Rightarrow> SInpxScanWarningRecord list" where
  "parse_warnings plans = concat (map (\<lambda>plan. map (\<lambda>w. \<lparr>WarningCode = ''inpx-parse-warning'',
     WarningArchive = Some (WarnInpEntryNameUtf8 w), WarningEntry = None, WarningMessage = MessageUtf8 w\<rparr>) (PlanWarnings plan)) plans)"

definition start_execution :: "SInpxSegmentPlan list \<Rightarrow> string list \<Rightarrow> scan_tables \<Rightarrow> exec_state" where
  "start_execution plans activeIds db =
    \<lparr>ProcessedActiveIds = activeIds, InFlight = [], InFlightPayloadBytes = 0, CurrentArchivePath = [], Takes = 0, ExecTables = db,
     ExecWarnings = parse_warnings plans, ExecScanned = 0, ExecSkipped = 0, Results = [], Written = []\<rparr>"

definition execute :: "exec_env \<Rightarrow> SInpxSegmentPlan list \<Rightarrow> int list \<Rightarrow> string list \<Rightarrow> scan_tables \<Rightarrow> session_error + exec_state" where
  "execute env plans ids activeIds db =
    and_then (exec_plans env plans ids (execution_order plans) (start_execution plans activeIds db)) (drain_while env (\<lambda>_. True))"

end
