(* ===== verification/Scan_Execution_Properties.thy ===== *)
theory Scan_Execution_Properties
  imports Scan_Execution
begin

text \<open>
  Whatever the order in which the workers finish, the execution of the plans writes every active record of the scanned
  segments exactly once, and never has more payloads or payload bytes in flight than it may.
\<close>

section \<open>Writing in sequence\<close>

lemma write_all_snoc:
  "write_all env ps db = Inr (res, db1) \<Longrightarrow> WriteParsedRecord env p db1 = Inr (r, db2) \<Longrightarrow>
    write_all env (ps @ [p]) db = Inr (res @ [r], db2)"
  by (induction ps arbitrary: db res) (auto simp: and_then_Inr)

section \<open>The invariant\<close>

type_synonym enqueued = "(int \<times> string) list"

definition active_pairs :: "int \<Rightarrow> SInpxRecord list \<Rightarrow> enqueued" where
  "active_pairs segmentId rs = map (\<lambda>r. (segmentId, LibId r)) (filter (\<lambda>r. \<not> Deleted r \<and> is_supported r) rs)"

definition written_pairs :: "parsed_record list \<Rightarrow> enqueued" where
  "written_pairs ws = map (\<lambda>p. (ForSegment p, LibId (ForRecord p))) ws"

definition flight_pairs :: "SInFlightParsedRecord list \<Rightarrow> enqueued" where
  "flight_pairs ts = map (\<lambda>t. (TaskSegment t, LibId (TaskRecord t))) ts"

definition reserved :: "SInFlightParsedRecord list \<Rightarrow> nat" where
  "reserved ts = sum_list (map ReservedPayloadBytes ts)"

text \<open>What has been written leads from the first tables to the present ones.\<close>

definition writes_reach :: "exec_env \<Rightarrow> scan_tables \<Rightarrow> exec_state \<Rightarrow> bool" where
  "writes_reach env db st \<longleftrightarrow> write_all (ExecWriter env) (Written st) db = Inr (Results st, ExecTables st)"

text \<open>Nothing that was handed over is lost or doubled, wherever it is now.\<close>

definition accounted :: "enqueued \<Rightarrow> exec_state \<Rightarrow> bool" where
  "accounted E st \<longleftrightarrow> mset (written_pairs (Written st)) + mset (flight_pairs (InFlight st)) = mset E"

definition bounded :: "exec_env \<Rightarrow> exec_state \<Rightarrow> bool" where
  "bounded env st \<longleftrightarrow> length (InFlight st) \<le> MaxInFlightPayloads env \<and> InFlightPayloadBytes st = reserved (InFlight st)
    \<and> reserved (InFlight st) \<le> MaxInFlightPayloadBytes env"

definition exec_ok :: "exec_env \<Rightarrow> scan_tables \<Rightarrow> enqueued \<Rightarrow> exec_state \<Rightarrow> bool" where
  "exec_ok env db E st \<longleftrightarrow> writes_reach env db st \<and> accounted E st \<and> bounded env st"

section \<open>Draining keeps it\<close>

lemma take_parts:
  assumes "InFlight st \<noteq> []" "takeParsedRecord env st = (task, rest)"
  obtains xs ys where "InFlight st = xs @ task # ys" "rest = xs @ ys"
proof -
  define i where "i = (if ReadyAt env (Takes st) < length (InFlight st) then ReadyAt env (Takes st) else 0)"
  then have i: "i < length (InFlight st)" "task = InFlight st ! i" "rest = take i (InFlight st) @ drop (Suc i) (InFlight st)"
    using assms by (auto simp: takeParsedRecord_def Let_def)
  from id_take_nth_drop [OF i(1)] have "InFlight st = take i (InFlight st) @ task # drop (Suc i) (InFlight st)" using i(2) by simp
  with i(3) show ?thesis using that by blast
qed

lemma drain_ok:
  assumes ok: "exec_ok env db E st" and d: "drainParsedRecord env st = Inr st'" and ne: "InFlight st \<noteq> []"
  shows "exec_ok env db E st' \<and> ProcessedActiveIds st' = ProcessedActiveIds st \<and> CurrentArchivePath st' = CurrentArchivePath st"
proof -
  obtain task rest where t: "takeParsedRecord env st = (task, rest)" by fastforce
  obtain xs ys where f: "InFlight st = xs @ task # ys" "rest = xs @ ys" by (rule take_parts [OF ne t])
  obtain prepared r tables where w: "WriteParsedRecord (ExecWriter env) (parsed_of task prepared) (ExecTables st) = Inr (r, tables)"
    and st': "st' = st\<lparr>InFlight := rest, Takes := Takes st + 1, ExecTables := tables, Results := Results st @ [r],
                Written := Written st @ [parsed_of task prepared],
                InFlightPayloadBytes := (if ReservedPayloadBytes task \<le> InFlightPayloadBytes st
                  then InFlightPayloadBytes st - ReservedPayloadBytes task else 0)\<rparr>"
    using d t by (auto simp: drainParsedRecord_def not_indexed_def split: sum.splits)
  have "writes_reach env db st'" using ok write_all_snoc [OF _ w, of "Written st" db "Results st"]
    by (simp add: exec_ok_def writes_reach_def st')
  moreover have "accounted E st'" using ok by (simp add: exec_ok_def accounted_def st' f written_pairs_def flight_pairs_def parsed_of_def)
  moreover have "bounded env st'" using ok by (simp add: exec_ok_def bounded_def st' f reserved_def)
  ultimately show ?thesis by (simp add: exec_ok_def st')
qed

lemma drain_while_ok:
  "exec_ok env db E st \<Longrightarrow> drain_while env c st = Inr st' \<Longrightarrow>
    exec_ok env db E st' \<and> ProcessedActiveIds st' = ProcessedActiveIds st \<and> CurrentArchivePath st' = CurrentArchivePath st
    \<and> (InFlight st' = [] \<or> \<not> c st')"
proof (induction env c st rule: drain_while.induct)
  case (1 env c st)
  show ?case
  proof (cases "InFlight st \<noteq> [] \<and> c st")
    case True
    then obtain s1 where s1: "drainParsedRecord env st = Inr s1" "drain_while env c s1 = Inr st'"
      using "1.prems"(2) by (auto simp: drain_while.simps [of env c st] split: sum.splits)
    have "exec_ok env db E s1 \<and> ProcessedActiveIds s1 = ProcessedActiveIds st \<and> CurrentArchivePath s1 = CurrentArchivePath st"
      using drain_ok [OF "1.prems"(1) s1(1)] True by blast
    with "1.IH" [OF True s1(1) _ s1(2)] show ?thesis by simp
  next
    case False
    then show ?thesis using "1.prems" by (auto simp: drain_while.simps [of env c st])
  qed
qed

lemma drain_while_length: "drain_while env c st = Inr st' \<Longrightarrow> length (InFlight st') \<le> length (InFlight st)"
proof (induction env c st rule: drain_while.induct)
  case (1 env c st)
  show ?case
  proof (cases "InFlight st \<noteq> [] \<and> c st")
    case True
    then obtain s1 where s1: "drainParsedRecord env st = Inr s1" "drain_while env c s1 = Inr st'"
      using "1.prems" by (auto simp: drain_while.simps [of env c st] split: sum.splits)
    from "1.IH" [OF True s1] drain_length [OF s1(1)] True show ?thesis by simp
  qed (use "1.prems" in \<open>auto simp: drain_while.simps [of env c st]\<close>)
qed

lemma reserved_empty [simp]: "reserved [] = 0"
  by (simp add: reserved_def)

section \<open>One record\<close>

lemma switch_ok:
  assumes "exec_ok env db E st" "switch_archive env plan st = Inr st'"
  shows "exec_ok env db E st' \<and> ProcessedActiveIds st' = ProcessedActiveIds st \<and> length (InFlight st') \<le> length (InFlight st)"
proof (cases "CurrentArchivePath st = ResolvedArchivePathUtf8 plan")
  case True
  then show ?thesis using assms by (simp add: switch_archive_def)
next
  case False
  obtain m where m: "ExecManifest env (ResolvedArchivePathUtf8 plan) = Inr m"
    using assms(2) False by (cases "ExecManifest env (ResolvedArchivePathUtf8 plan)") (simp_all add: switch_archive_def and_then_Inr)
  obtain s1 where s1: "drain_while env (\<lambda>_. True) st = Inr s1" "st' = s1\<lparr>CurrentArchivePath := ResolvedArchivePathUtf8 plan\<rparr>"
    using assms(2) False m by (auto simp: switch_archive_def and_then_Inr split: if_splits)
  from drain_while_ok [OF assms(1) s1(1)] show ?thesis
    by (auto simp: s1(2) exec_ok_def writes_reach_def accounted_def bounded_def)
qed

lemma submit_parts:
  assumes "submit_payload env segmentId r st = Inr st'"
  obtains n s1 bytes where "n \<le> MaxInFlightPayloadBytes env"
    "drain_while env (\<lambda>s. InFlightPayloadBytes s > MaxInFlightPayloadBytes env - n) st = Inr s1"
    "st' = s1\<lparr>InFlight := InFlight s1 @ [\<lparr>TaskSegment = segmentId, TaskRecord = r\<lparr>FileSizeBytes := int n\<rparr>, TaskPayload = bytes,
        ReservedPayloadBytes = n\<rparr>], InFlightPayloadBytes := InFlightPayloadBytes s1 + n\<rparr>"
proof -
  obtain n where n: "ReadEntrySize env (CurrentArchivePath st) (EntryNameUtf8 r) = Inr n"
    using assms by (cases "ReadEntrySize env (CurrentArchivePath st) (EntryNameUtf8 r)") (simp_all add: submit_payload_def)
  then obtain s1 where le: "n \<le> MaxInFlightPayloadBytes env" and
    d: "drain_while env (\<lambda>s. InFlightPayloadBytes s > MaxInFlightPayloadBytes env - n) st = Inr s1" and
    r: "(case ReadEntryBytes env (CurrentArchivePath s1) (EntryNameUtf8 r) of Inl what \<Rightarrow> Inl (SessionRuntimeError what)
      | Inr payloadBytes \<Rightarrow> Inr (s1\<lparr>InFlight := InFlight s1 @ [\<lparr>TaskSegment = segmentId, TaskRecord = r\<lparr>FileSizeBytes := int n\<rparr>,
          TaskPayload = payloadBytes, ReservedPayloadBytes = n\<rparr>], InFlightPayloadBytes := InFlightPayloadBytes s1 + n\<rparr>)) = Inr st'"
    using assms by (auto simp: submit_payload_def and_then_Inr split: if_splits)
  obtain bytes where "ReadEntryBytes env (CurrentArchivePath s1) (EntryNameUtf8 r) = Inr bytes"
    using r by (cases "ReadEntryBytes env (CurrentArchivePath s1) (EntryNameUtf8 r)") simp_all
  then have "st' = s1\<lparr>InFlight := InFlight s1 @ [\<lparr>TaskSegment = segmentId, TaskRecord = r\<lparr>FileSizeBytes := int n\<rparr>, TaskPayload = bytes,
        ReservedPayloadBytes = n\<rparr>], InFlightPayloadBytes := InFlightPayloadBytes s1 + n\<rparr>" using r by simp
  from that [OF le d this] show ?thesis .
qed

lemma submit_ok:
  assumes ok: "exec_ok env db E st" and room: "length (InFlight st) < MaxInFlightPayloads env"
    and s: "submit_payload env segmentId r st = Inr st'"
  shows "exec_ok env db (E @ [(segmentId, LibId r)]) st' \<and> ProcessedActiveIds st' = ProcessedActiveIds st"
proof -
  obtain n s1 bytes where n: "n \<le> MaxInFlightPayloadBytes env" and
    d: "drain_while env (\<lambda>s. InFlightPayloadBytes s > MaxInFlightPayloadBytes env - n) st = Inr s1" and
    st': "st' = s1\<lparr>InFlight := InFlight s1 @ [\<lparr>TaskSegment = segmentId, TaskRecord = r\<lparr>FileSizeBytes := int n\<rparr>, TaskPayload = bytes,
        ReservedPayloadBytes = n\<rparr>], InFlightPayloadBytes := InFlightPayloadBytes s1 + n\<rparr>"
    by (rule submit_parts [OF s])
  note k = drain_while_ok [OF ok d]
  have len: "length (InFlight s1) \<le> length (InFlight st)" using drain_while_length [OF d] .
  show ?thesis using k n len room
    by (auto simp: st' exec_ok_def writes_reach_def accounted_def bounded_def flight_pairs_def reserved_def)
qed

text \<open>A record hands over its pair, or nothing.\<close>

lemma lift_error_Inr: "lift_error r = Inr x \<longleftrightarrow> r = Inr x"
  by (cases r) (simp_all add: lift_error_def)

lemma InsertActiveLibId_Inr: "InsertActiveLibId ids i m = Inr (True, ids') \<Longrightarrow> i \<notin> set ids \<and> ids' = ids @ [i]"
  by (auto simp: InsertActiveLibId_def and_then_Inr split: if_splits)

definition ids_ok :: "string list \<Rightarrow> enqueued \<Rightarrow> exec_state \<Rightarrow> bool" where
  "ids_ok activeIds E st \<longleftrightarrow> set (ProcessedActiveIds st) = set activeIds \<union> snd ` set E \<and> distinct (map snd E)
    \<and> snd ` set E \<inter> set activeIds = {}"

lemma exec_record_ok:
  assumes ok: "exec_ok env db E st" and ids: "ids_ok A E st" and w: "0 < MaxInFlightPayloads env"
    and e: "exec_record env plan s r st = Inr st'"
  shows "exec_ok env db (E @ active_pairs s [r]) st' \<and> ids_ok A (E @ active_pairs s [r]) st'"
proof (cases "Deleted r \<or> \<not> is_supported r")
  case True
  then have "ProcessedActiveIds st' = ProcessedActiveIds st \<and> InFlight st' = InFlight st \<and> InFlightPayloadBytes st' = InFlightPayloadBytes st
    \<and> ExecTables st' = ExecTables st \<and> Results st' = Results st \<and> Written st' = Written st"
    using e by (cases "Deleted r") (simp_all add: exec_record_def Let_def publishWarning_def, auto)
  then show ?thesis using ok ids True by (auto simp: exec_ok_def writes_reach_def accounted_def bounded_def ids_ok_def active_pairs_def)
next
  case False
  let ?st = "st\<lparr>ExecScanned := ExecScanned st + 1\<rparr>"
  obtain ids' s1 s2 where i: "InsertActiveLibId (ProcessedActiveIds st) (LibId r) (MaxActiveRecords env) = Inr (True, ids')"
    and d: "drain_while env (\<lambda>s. length (InFlight s) \<ge> MaxInFlightPayloads env) (?st\<lparr>ProcessedActiveIds := ids'\<rparr>) = Inr s1"
    and sw: "switch_archive env plan s1 = Inr s2" and su: "submit_payload env s r s2 = Inr st'"
    using e False by (auto simp: exec_record_def Let_def and_then_Inr lift_error_Inr split: if_splits)
  note new = InsertActiveLibId_Inr [OF i]
  have ok0: "exec_ok env db E (?st\<lparr>ProcessedActiveIds := ids'\<rparr>)"
    using ok by (simp add: exec_ok_def writes_reach_def accounted_def bounded_def)
  note k1 = drain_while_ok [OF ok0 d]
  note k2 = switch_ok [OF conjunct1 [OF k1] sw]
  have room: "length (InFlight s2) < MaxInFlightPayloads env" using k1 k2 w by auto
  note k3 = submit_ok [OF conjunct1 [OF k2] room su]
  have p: "active_pairs s [r] = [(s, LibId r)]" using False by (simp add: active_pairs_def)
  have "ProcessedActiveIds st' = ids'" using k1 k2 k3 by simp
  then show ?thesis using k3 new ids unfolding p by (auto simp: ids_ok_def)
qed

lemma exec_records_ok:
  "exec_ok env db E st \<Longrightarrow> ids_ok A E st \<Longrightarrow> 0 < MaxInFlightPayloads env \<Longrightarrow> exec_records env plan s rs st = Inr st' \<Longrightarrow>
    exec_ok env db (E @ active_pairs s rs) st' \<and> ids_ok A (E @ active_pairs s rs) st'"
proof (induction rs arbitrary: st E)
  case Nil
  then show ?case by (simp add: active_pairs_def)
next
  case (Cons r rs)
  obtain s1 where s1: "exec_record env plan s r st = Inr s1" "exec_records env plan s rs s1 = Inr st'"
    using Cons.prems(4) by (auto simp: and_then_Inr)
  note k = exec_record_ok [OF Cons.prems(1-3) s1(1)]
  have "active_pairs s (r # rs) = active_pairs s [r] @ active_pairs s rs" by (simp add: active_pairs_def)
  then show ?case using Cons.IH [OF conjunct1 [OF k] conjunct2 [OF k] Cons.prems(3) s1(2)] by simp
qed

definition planned_pairs :: "SInpxSegmentPlan list \<Rightarrow> int list \<Rightarrow> nat list \<Rightarrow> enqueued" where
  "planned_pairs plans ids ks = concat (map (\<lambda>k. active_pairs (ids ! k) (PlanRecords (plans ! k))) ks)"

lemma exec_plans_ok:
  "exec_ok env db E st \<Longrightarrow> ids_ok A E st \<Longrightarrow> 0 < MaxInFlightPayloads env \<Longrightarrow> exec_plans env plans ids ks st = Inr st' \<Longrightarrow>
    exec_ok env db (E @ planned_pairs plans ids ks) st' \<and> ids_ok A (E @ planned_pairs plans ids ks) st'"
proof (induction ks arbitrary: st E)
  case Nil
  then show ?case by (simp add: planned_pairs_def)
next
  case (Cons k ks)
  obtain s1 where s1: "exec_records env (plans ! k) (ids ! k) (PlanRecords (plans ! k)) st = Inr s1" "exec_plans env plans ids ks s1 = Inr st'"
    using Cons.prems(4) by (auto simp: and_then_Inr)
  note h = exec_records_ok [OF Cons.prems(1-3) s1(1)]
  have "planned_pairs plans ids (k # ks) = active_pairs (ids ! k) (PlanRecords (plans ! k)) @ planned_pairs plans ids ks" by (simp add: planned_pairs_def)
  then show ?case using Cons.IH [OF conjunct1 [OF h] conjunct2 [OF h] Cons.prems(3) s1(2)] by simp
qed

section \<open>The whole execution\<close>

lemma start_ok: "exec_ok env db [] (start_execution plans A db) \<and> ids_ok A [] (start_execution plans A db)"
  by (simp add: start_execution_def exec_ok_def writes_reach_def accounted_def bounded_def ids_ok_def written_pairs_def flight_pairs_def)

lemma execute_writes:
  assumes w: "0 < MaxInFlightPayloads env" and e: "execute env plans ids A db = Inr st"
  shows "write_all (ExecWriter env) (Written st) db = Inr (Results st, ExecTables st)
    \<and> mset (written_pairs (Written st)) = mset (planned_pairs plans ids (execution_order plans))
    \<and> distinct (map snd (written_pairs (Written st))) \<and> snd ` set (written_pairs (Written st)) \<inter> set A = {}"
proof -
  let ?E = "planned_pairs plans ids (execution_order plans)"
  obtain s1 where s1: "exec_plans env plans ids (execution_order plans) (start_execution plans A db) = Inr s1"
    "drain_while env (\<lambda>_. True) s1 = Inr st" using e by (auto simp: execute_def and_then_Inr)
  from exec_plans_ok [OF conjunct1 [OF start_ok] conjunct2 [OF start_ok] w s1(1)]
  have k: "exec_ok env db ?E s1" "ids_ok A ?E s1" by simp_all
  note f = drain_while_ok [OF k(1) s1(2)]
  then have m: "mset (written_pairs (Written st)) = mset ?E" by (auto simp: exec_ok_def accounted_def flight_pairs_def)
  have "mset (map snd (written_pairs (Written st))) = mset (map snd ?E)" using m by (metis mset_map)
  then have "distinct (map snd (written_pairs (Written st)))" using k(2) mset_eq_imp_distinct_iff unfolding ids_ok_def by blast
  moreover have "set (written_pairs (Written st)) = set ?E" using m by (rule mset_eq_setD)
  ultimately show ?thesis using f m k(2) by (simp add: exec_ok_def writes_reach_def ids_ok_def)
qed

end
