(* ===== verification/Scan_Run.thy ===== *)
theory Scan_Run
  imports Scan_Execution_Properties
begin

text \<open>
  A whole scan, \<open>RunScan\<close> of \<open>libs/App/InpxScanJobService.cpp\<close> with a catalog to write to: plan, write in one
  transaction, validate and commit. The theorem that matters: whatever was scanned before, a scan that commits leaves
  the books of the replay of its snapshot on offer; in a history of scans the books on offer are those of the snapshot
  that was committed last.
\<close>

section \<open>The code\<close>

record scan_config =
  ScanMode :: EInpxScanMode
  MaxSteadyStateMemoryBytes :: nat
  MaxWorkerCount :: nat
  HardwareConcurrency :: nat
  TextConvert :: convert
  ArchivesAtPlanning :: archive_world
  ArchiveManifests :: "string \<Rightarrow> string + string"
  EntrySizes :: "string \<Rightarrow> string \<Rightarrow> string + nat"
  EntryBytes :: "string \<Rightarrow> string \<Rightarrow> string + string"
  ParsePayload :: "SInpxRecord \<Rightarrow> string \<Rightarrow> string + SPreparedInpxPayload"
  Ready :: "nat \<Rightarrow> nat"
  CatalogWriter :: writer_env
  ArchivesAtCommit :: archive_world
  ExpectedFingerprint :: "string option"
  SourceFingerprintAtStart :: "session_error + string"
  SnapshotFingerprint :: "session_error + string"
  SourceFingerprintAtCommit :: "session_error + string"
  DisplayName :: string
  StartedAt :: string
  CompletedAt :: string
  SourceSizeBytes :: nat

definition scan_limits :: "scan_config \<Rightarrow> SScanPlanningLimits" where
  "scan_limits cfg = ResolveScanPlanningLimits (ResolvePlanningStateBudget (MaxSteadyStateMemoryBytes cfg))"

definition planning_of :: "scan_config \<Rightarrow> SExistingInpxSegment list \<Rightarrow> planning_env" where
  "planning_of cfg existing =
    \<lparr>PlanConvert = TextConvert cfg, PlanWorld = ArchivesAtPlanning cfg, PlanLimits = scan_limits cfg, PlanMode = ScanMode cfg,
     PlanExisting = existing\<rparr>"

definition execution_of :: "scan_config \<Rightarrow> exec_env" where
  "execution_of cfg =
    \<lparr>MaxInFlightPayloads = ResolveInpxPayloadWorkerWindow (HardwareConcurrency cfg) (MaxWorkerCount cfg),
     MaxInFlightPayloadBytes = ResolveInFlightPayloadBudget (MaxSteadyStateMemoryBytes cfg), MaxActiveRecords = MaxRecords (scan_limits cfg),
     ExecManifest = ArchiveManifests cfg, ReadEntrySize = EntrySizes cfg, ReadEntryBytes = EntryBytes cfg,
     ParseInpxPayloadBytes = ParsePayload cfg, ReadyAt = Ready cfg, ExecWriter = CatalogWriter cfg\<rparr>"

definition finish_of :: "scan_config \<Rightarrow> string \<Rightarrow> finish_input" where
  "finish_of cfg sourceFingerprintUtf8 =
    \<lparr>FinishDisplayName = DisplayName cfg, FinishFingerprint = sourceFingerprintUtf8, FinishStartedAt = StartedAt cfg,
     FinishCompletedAt = CompletedAt cfg, FinishSourceSize = SourceSizeBytes cfg\<rparr>"

text \<open>The fingerprint of the source, once its copy has been checked.\<close>

definition stable_snapshot :: "scan_config \<Rightarrow> session_error + string" where
  "stable_snapshot cfg =
    and_then (case ExpectedFingerprint cfg of Some f \<Rightarrow> Inr f | None \<Rightarrow> SourceFingerprintAtStart cfg) (\<lambda>sourceFingerprintUtf8.
    and_then (SnapshotFingerprint cfg) (\<lambda>snapshotFingerprint.
      if snapshotFingerprint \<noteq> sourceFingerprintUtf8
      then Inl (SessionRuntimeError ''INPX source changed while its scan snapshot was being created; retry the scan.'')
      else Inr sourceFingerprintUtf8))"

definition unchanged_names :: "SInpxSegmentPlan list \<Rightarrow> string list" where
  "unchanged_names plans = map plan_name (filter (\<lambda>plan. Change plan = SegmentUnchanged) plans)"

text \<open>The transaction of the writer: from its begin to \<open>Commit\<close>.\<close>

definition write_scan :: "scan_config \<Rightarrow> string \<Rightarrow> scan_plan \<Rightarrow> scan_tables \<Rightarrow> session_error + nat \<times> scan_tables" where
  "write_scan cfg sourceFingerprintUtf8 planned db =
    (let plans = AllPlans planned; writer = CatalogWriter cfg; scanId = ScanId writer in
     and_then (upsert_all (RowIds writer) scanId plans (db\<lparr>Source := MarkInpxSourceScanStarted (StartedAt cfg) (Source db)\<rparr>)) (\<lambda>(segmentIds, db1).
     and_then (lift_error (ReadActiveInpxIdsForSegments (unchanged_names plans) (MaxRecords (scan_limits cfg)) db)) (\<lambda>activeIds.
     and_then (execute (execution_of cfg) plans segmentIds activeIds db1) (\<lambda>st.
     and_then (finish_tables scanId (finish_of cfg sourceFingerprintUtf8) (changed_ids plans segmentIds) (ExecTables st)) (\<lambda>(markedUnavailable, db2).
     and_then (lift_error (ValidateArchiveGuards (ArchivesAtCommit cfg) plans (ScanGuards planned))) (\<lambda>_.
     and_then (SourceFingerprintAtCommit cfg) (\<lambda>fingerprintAtCommit.
       if fingerprintAtCommit \<noteq> sourceFingerprintUtf8
       then Inl (SessionRuntimeError ''INPX source changed while it was being scanned; retry the scan.'')
       else Inr (markedUnavailable, db2))))))))"

definition RunScan :: "scan_config \<Rightarrow> 'c evp \<Rightarrow> libzip \<Rightarrow> scan_tables \<Rightarrow> session_error + nat \<times> scan_tables" where
  "RunScan cfg evp z db =
    and_then (stable_snapshot cfg) (\<lambda>sourceFingerprintUtf8.
    and_then (lift_error (ReadExistingInpxSegments (MaxSegments (scan_limits cfg)) (Segments db))) (\<lambda>existing.
    and_then (lift_error (plan_scan (planning_of cfg existing) evp z)) (\<lambda>planned.
      write_scan cfg sourceFingerprintUtf8 planned db)))"

definition scanned_segments :: "scan_config \<Rightarrow> 'c evp \<Rightarrow> libzip \<Rightarrow> SInpxSegmentPayload list" where
  "scanned_segments cfg evp z = segments_of evp z (MaxInpSourceBytes (scan_limits cfg))"

section \<open>The reader keeps its contract\<close>

lemma read_active_set:
  "read_active m names rows ls found = Inr ids \<Longrightarrow>
    set ids = set found \<union> LocLibId ` {l \<in> set ls. LocPresent l \<and> (\<exists>s \<in> set rows. SegmentId s = LocSegmentId l \<and> RowInpEntryName s \<in> set names)}"
proof (induction m names rows ls found rule: read_active.induct)
  case (2 m names rows l ls found)
  show ?case
  proof (cases "LocPresent l \<and> list_ex (\<lambda>s. SegmentId s = LocSegmentId l \<and> RowInpEntryName s \<in> set names) rows")
    case True
    then obtain b ids' where i: "InsertActiveLibId found (LocLibId l) m = Inr (b, ids')" "read_active m names rows ls ids' = Inr ids"
      using "2.prems" by (auto simp: and_then_Inr)
    have "set ids' = insert (LocLibId l) (set found)"
      using i(1) by (auto simp: InsertActiveLibId_def and_then_Inr split: if_splits)
    with "2.IH"(1) [OF True i(2)] True show ?thesis by (auto simp: list_ex_iff)
  next
    case False
    then have "read_active m names rows ls found = Inr ids" using "2.prems" by (simp only: read_active.simps if_False)
    from "2.IH"(2) [OF False this] False show ?thesis by (auto simp: list_ex_iff)
  qed
qed simp

lemma in_active_ids: "i \<in> active_ids rs \<longleftrightarrow> (s, i) \<in> set (active_pairs s rs)"
  by (auto simp: active_ids_def active_pairs_def)

lemma in_written_ids: "i \<in> written_ids s ws \<longleftrightarrow> (s, i) \<in> set (written_pairs ws)"
  by (auto simp: written_ids_def written_pairs_def)

lemma set_planned_pairs:
  "set (planned_pairs plans ids (execution_order plans)) =
    {(ids ! k, i) | k i. k < length plans \<and> needs_scan (plans ! k) \<and> i \<in> active_ids (PlanRecords (plans ! k))}"
  by (auto simp: planned_pairs_def execution_order_def active_pairs_def active_ids_def)

lemma reused_ids_active:
  assumes f: "faithful content db" and p: "plan_for content db k segment plan" and u: "Change plan = SegmentUnchanged"
    and a: "ReadActiveInpxIdsForSegments names m db = Inr A" and n: "plan_name plan \<in> set names"
  shows "active_ids (content (snd segment)) \<subseteq> set A"
proof -
  obtain r where r: "seg_of (fst segment) (Segments db) = Some r" "row_available r" "RowFingerprint r = snd segment" "plan_name plan = fst segment"
    using p u by (auto simp: plan_for_def split: option.splits)
  then have m: "r \<in> set (Segments db)" "RowInpEntryName r = plan_name plan" using seg_of_Some [OF r(1)] by simp_all
  then have "faithful_row content db r" using f r(2) by (simp add: faithful_def list_all_iff)
  then have act: "active_ids (content (snd segment)) = present_ids (SegmentId r) (Locations db)" by (simp add: faithful_row_def r(3))
  have "names \<noteq> []" using n by auto
  then have A: "set A = LocLibId ` {l \<in> set (Locations db). LocPresent l \<and> (\<exists>s \<in> set (Segments db). SegmentId s = LocSegmentId l \<and> RowInpEntryName s \<in> set names)}"
    using a read_active_set [of m names "Segments db" "Locations db" "[]" A] by (simp add: ReadActiveInpxIdsForSegments_def)
  show ?thesis
  proof
    fix i assume "i \<in> active_ids (content (snd segment))"
    then obtain l where l: "l \<in> set (Locations db)" "LocLibId l = i" "LocSegmentId l = SegmentId r" "LocPresent l"
      unfolding act in_present_ids by blast
    have "\<exists>s \<in> set (Segments db). SegmentId s = LocSegmentId l \<and> RowInpEntryName s \<in> set names" using m n l(3) by (intro bexI [of _ r]) simp_all
    with l show "i \<in> set A" unfolding A by blast
  qed
qed

lemma execution_writes_for:
  assumes pl: "plans_for content cur db plans" and ct: "\<And>k. k < length cur \<Longrightarrow> plan_content content (cur ! k) (plans ! k)"
    and f: "faithful content db" and len: "length ids = length plans" and di: "distinct ids"
    and a: "ReadActiveInpxIdsForSegments (unchanged_names plans) m db = Inr A"
    and e: "execute env plans ids A db1 = Inr st" and w: "0 < MaxInFlightPayloads env"
  shows "writes_for content cur plans ids (Written st)"
proof -
  note k = execute_writes [OF w e]
  have le: "length cur \<le> length plans" and removed: "\<And>j. j < length plans \<Longrightarrow> length cur \<le> j \<Longrightarrow> Change (plans ! j) = SegmentRemoved"
    using pl unfolding plans_for_def by blast+
  have cur: "j < length cur" if "j < length plans" "needs_scan (plans ! j)" for j
    using removed [OF that(1)] that(2) by (cases "length cur \<le> j") (auto simp: needs_scan_def)
  have "set (written_pairs (Written st)) = set (planned_pairs plans ids (execution_order plans))" using k by (intro mset_eq_setD) blast
  then have W: "set (written_pairs (Written st)) =
      {(ids ! j, i) | j i. j < length plans \<and> needs_scan (plans ! j) \<and> i \<in> active_ids (PlanRecords (plans ! j))}"
    unfolding set_planned_pairs .
  have inj: "j = l" if "ids ! j = ids ! l" "j < length plans" "l < length plans" for j l
    using di that len by (simp add: nth_eq_iff_index_eq)
  have lib: "snd ` set (written_pairs (Written st)) = (\<lambda>p. LibId (ForRecord p)) ` set (Written st)" by (simp add: written_pairs_def image_image)
  have d: "distinct (map (\<lambda>p. LibId (ForRecord p)) (Written st))" using k by (simp add: written_pairs_def comp_def)
  have seg: "\<exists>j < length cur. needs_scan (plans ! j) \<and> ForSegment p = ids ! j" if p: "p \<in> set (Written st)" for p
  proof -
    have "(ForSegment p, LibId (ForRecord p)) \<in> set (written_pairs (Written st))" using p by (simp add: written_pairs_def image_iff) blast
    then obtain j where "j < length plans" "needs_scan (plans ! j)" "ForSegment p = ids ! j" unfolding W by blast
    with cur show ?thesis by blast
  qed
  have each: "if needs_scan (plans ! j) then written_ids (ids ! j) (Written st) = active_ids (content (snd (cur ! j)))
      else active_ids (content (snd (cur ! j))) \<inter> (\<lambda>p. LibId (ForRecord p)) ` set (Written st) = {}" if j: "j < length cur" for j
  proof (cases "needs_scan (plans ! j)")
    case True
    have jp: "j < length plans" using j le by simp
    have "i \<in> written_ids (ids ! j) (Written st) \<longleftrightarrow> i \<in> active_ids (PlanRecords (plans ! j))" for i
      unfolding in_written_ids W using inj True jp by blast
    then show ?thesis using True ct [OF j] by (auto simp: plan_content_def)
  next
    case False
    have pf: "plan_for content db j (cur ! j) (plans ! j)" using pl j unfolding plans_for_def by blast
    then have u: "Change (plans ! j) = SegmentUnchanged" using False by (auto simp: plan_for_def needs_scan_iff)
    then have "plan_name (plans ! j) \<in> set (unchanged_names plans)" using j le by (auto simp: unchanged_names_def)
    from reused_ids_active [OF f pf u a this] have "active_ids (content (snd (cur ! j))) \<subseteq> set A" .
    then show ?thesis using k False unfolding lib by auto
  qed
  show ?thesis unfolding writes_for_def using d seg each by blast
qed

section \<open>Refinement\<close>

lemma lift_error_Inr_iff [simp]: "lift_error r = Inr x \<longleftrightarrow> r = Inr x"
  by (rule lift_error_Inr)

text \<open>What a scan relies on: fresh identifiers, and fingerprints that stand for the records of their segments.\<close>

definition scan_assumptions :: "(string \<Rightarrow> SInpxRecord list) \<Rightarrow> scan_config \<Rightarrow> SInpxSegmentPayload list \<Rightarrow> scan_tables \<Rightarrow> bool" where
  "scan_assumptions content cfg segments db \<longleftrightarrow> new_rowids (RowIds (CatalogWriter cfg))
    \<and> Some (ScanId (CatalogWriter cfg)) \<notin> set (map LocScan (Locations db)) \<and> identifies content (TextConvert cfg) segments"

lemma RunScan_reflects:
  assumes r: "RunScan cfg evp z db = Inr (n, db')" and f: "faithful content db"
    and a: "scan_assumptions content cfg (scanned_segments cfg evp z) db"
  shows "reflects content (snapshot_of (scanned_segments cfg evp z)) db'"
proof -
  obtain fp existing planned where
    ex: "ReadExistingInpxSegments (MaxSegments (scan_limits cfg)) (Segments db) = Inr existing" and
    pl: "plan_scan (planning_of cfg existing) evp z = Inr planned" and
    wr: "write_scan cfg fp planned db = Inr (n, db')" using r by (auto simp: RunScan_def and_then_Inr)
  let ?w = "CatalogWriter cfg" and ?plans = "AllPlans planned" and ?cur = "snapshot_of (scanned_segments cfg evp z)"
  obtain ids db1 A st where
    u: "upsert_all (RowIds ?w) (ScanId ?w) ?plans (db\<lparr>Source := MarkInpxSourceScanStarted (StartedAt cfg) (Source db)\<rparr>) = Inr (ids, db1)" and
    act: "ReadActiveInpxIdsForSegments (unchanged_names ?plans) (MaxRecords (scan_limits cfg)) db = Inr A" and
    e: "execute (execution_of cfg) ?plans ids A db1 = Inr st" and
    fin: "finish_tables (ScanId ?w) (finish_of cfg fp) (changed_ids ?plans ids) (ExecTables st) = Inr (n, db')"
    using wr by (auto simp: write_scan_def Let_def and_then_Inr split: if_splits)
  have lim: "MaxInpSourceBytes (PlanLimits (planning_of cfg existing)) = MaxInpSourceBytes (scan_limits cfg)"
    "PlanConvert (planning_of cfg existing) = TextConvert cfg" "PlanExisting (planning_of cfg existing) = existing" by (simp_all add: planning_of_def)
  have ok: "segments_ok (Segments db)" using f by (simp add: faithful_def)
  have as: "new_rowids (RowIds ?w)" "Some (ScanId ?w) \<notin> set (map LocScan (Locations db))"
    "identifies content (TextConvert cfg) (scanned_segments cfg evp z)" using a unfolding scan_assumptions_def by blast+
  have "plans_for content ?cur db ?plans \<and> (\<forall>k < length (scanned_segments cfg evp z). plan_content content (?cur ! k) (?plans ! k))"
    using plan_scan_plans_for [OF pl, of _ db content] ex ok as(3) by (simp add: lim scanned_segments_def)
  then have pf: "plans_for content ?cur db ?plans" and ct: "\<And>k. k < length ?cur \<Longrightarrow> plan_content content (?cur ! k) (?plans ! k)"
    by (simp_all add: snapshot_of_def)
  have win: "0 < MaxInFlightPayloads (execution_of cfg)" using window_bounds by (simp add: execution_of_def Suc_le_eq)
  have wa: "write_all ?w (Written st) db1 = Inr (Results st, ExecTables st)" using execute_writes [OF win e] by (simp add: execution_of_def)
  show ?thesis
    by (rule scan_reflects [OF u wa fin f as(1) pf as(2)]) (rule execution_writes_for [OF pf ct f _ _ act e win])
qed

text \<open>The catalog before the first scan.\<close>

definition new_tables :: "source_row \<Rightarrow> scan_tables" where
  "new_tables source = \<lparr>Catalog = new_catalog, Source = source, Segments = [], Deletions = [], Locations = [],
     Statistics = \<lparr>StatRow = None, CoverRows = []\<rparr>\<rparr>"

lemma new_tables_faithful: "faithful content (new_tables source)"
  by (simp add: faithful_def new_tables_def segments_ok_def tables_ok_def locations_ok_def statistics_ok_def covers_ok_def
      new_catalog_def relations_ok_def relation_ok_def entities_ok_def links_ok_def EnsureStatisticsRow_def cover_total_def
      statistics_check_def unavailable_count_def)

text \<open>A history of scans, with the snapshot that was committed last: a scan that fails rolls its transaction back.\<close>

definition books_of :: "(string \<Rightarrow> SInpxRecord list) \<Rightarrow> snapshot option \<Rightarrow> string set" where
  "books_of content latest = (case latest of None \<Rightarrow> {} | Some cur \<Rightarrow> replay content cur)"

definition recorded :: "(string \<Rightarrow> SInpxRecord list) \<Rightarrow> scan_tables \<Rightarrow> snapshot option \<Rightarrow> bool" where
  "recorded content db latest \<longleftrightarrow> faithful content db \<and> available_ids db = books_of content latest"

inductive scan_step :: "(string \<Rightarrow> SInpxRecord list) \<Rightarrow> scan_tables \<times> snapshot option \<Rightarrow> scan_tables \<times> snapshot option \<Rightarrow> bool" for content where
  committed: "RunScan cfg (evp :: string evp) z db = Inr (n, db') \<Longrightarrow> scan_assumptions content cfg (scanned_segments cfg evp z) db
    \<Longrightarrow> scan_step content (db, latest) (db', Some (snapshot_of (scanned_segments cfg evp z)))"
| failed: "RunScan cfg (evp :: string evp) z db = Inl e \<Longrightarrow> scan_step content (db, latest) (db, latest)"

lemma new_tables_recorded: "recorded content (new_tables source) None"
  using new_tables_faithful by (auto simp: recorded_def books_of_def available_ids_def new_tables_def)

lemma scan_step_recorded:
  assumes "scan_step content (db, latest) (db', latest')" "recorded content db latest"
  shows "recorded content db' latest'"
  using assms(1)
proof cases
  case (committed cfg evp z n)
  have "reflects content (snapshot_of (scanned_segments cfg evp z)) db'"
    using RunScan_reflects [OF committed(2) _ committed(3)] assms(2) by (simp add: recorded_def)
  then show ?thesis using reflects_replay committed(1) by (simp add: recorded_def books_of_def reflects_def)
qed (use assms(2) in simp)

interpretation scans: state_machine "\<lambda>(db, latest). (\<exists>source. db = new_tables source) \<and> latest = None" "scan_step content"
    "\<lambda>(db, latest). recorded content db latest"
  by unfold_locales (auto simp: new_tables_recorded dest: scan_step_recorded)

end
