(* ===== verification/Scan_Demo.thy ===== *)
theory Scan_Demo
  imports Scan_Run Inpx_Properties
begin

text \<open>
  A small catalog and a scan of it, on which the hypotheses of the properties of scans hold: the segment \<open>a.inp\<close> with
  one book is unchanged, and the segment \<open>old.inp\<close> with another has gone.
\<close>

definition demo_line :: string where
  "demo_line = render_record sample_record"

definition demo_fingerprint :: string where
  "demo_fingerprint = projr (ComputeFingerprintWithCheckpoints sample_evp demo_line)"

definition demo_payload :: SInpxSegmentPayload where
  "demo_payload = \<lparr>SegInpEntryNameUtf8 = ''a.inp'', SegArchiveNameUtf8 = ''a'', SegFingerprintUtf8 = demo_fingerprint, SegBytes = demo_line\<rparr>"

definition demo_old_record :: SInpxRecord where
  "demo_old_record = sample_record\<lparr>LibId := ''13''\<rparr>"

definition demo_content :: "string \<Rightarrow> SInpxRecord list" where
  "demo_content f = (if f = demo_fingerprint then [sample_record] else [demo_old_record])"

definition demo_segment :: "int \<Rightarrow> string \<Rightarrow> string \<Rightarrow> segment_row" where
  "demo_segment i entry fingerprint =
    \<lparr>SegmentId = i, RowInpEntryName = entry, RowArchiveName = ''a'', RowFingerprint = fingerprint, RowOrder = 0, RecordCount = 1,
     ActiveRecordCount = 1, DeletedRecordCount = 0, RowAvailability = availability_ToString Available, RowRequiresArchive = True,
     RowResolvedPath = Some ''a.zip'', RowArchiveSize = 0, RowArchiveMtime = 0, RowManifest = Some ''m'', RowScan = None\<rparr>"

definition demo_location :: "int \<Rightarrow> int \<Rightarrow> string \<Rightarrow> location_row" where
  "demo_location b s i =
    \<lparr>LocBookId = b, LocSegmentId = s, LocLibId = i, LocArchiveName = ''a'', LocEntryName = ''12.fb2'',
     LocAvailability = availability_ToString Available, LocPresent = True, LocFileSize = 345, LocFormat = ''fb2'', LocScan = None\<rparr>"

definition demo_row :: SInpxBookRow where
  "demo_row = \<lparr>RowMetadata = demo_metadata, RowNormalizedTitle = ''t'', RowCoverPath = None, RowAddedAtUtc = []\<rparr>"

definition demo_source :: source_row where
  "demo_source = \<lparr>SourceDisplayName = [], SourceFingerprint = [], LastScanStarted = None, LastScanCompleted = None, LastSeenSnapshot = None\<rparr>"

definition demo_tables :: scan_tables where
  "demo_tables = \<lparr>Catalog = new_catalog\<lparr>CatBooks := [(1, demo_row), (2, demo_row)]\<rparr>, Source = demo_source,
     Segments = [demo_segment 1 ''a.inp'' demo_fingerprint, demo_segment 2 ''old.inp'' (CHR ''x'' # demo_fingerprint)], Deletions = [],
     Locations = [demo_location 1 1 ''12'', demo_location 2 2 ''13''],
     Statistics = \<lparr>StatRow = Some \<lparr>BookCount = 2, UnavailableBookCount = 0, CoverCacheSizeBytes = 0, InpxSourceSizeBytes = 0\<rparr>, CoverRows = []\<rparr>\<rparr>"

definition demo_archives :: archive_world where
  "demo_archives = \<lparr>ResolvePortableInpxArchivePath = (\<lambda>_. Inr ''a.zip''),
     ReadInpxArchiveFileState = (\<lambda>_. Inr \<lparr>StateFileSizeBytes = 0, StateMtimeTicks = 0\<rparr>),
     ComputeManifestFingerprint = (\<lambda>_. Inr ''m''), ReadValidatedManifest = (\<lambda>_. Inr (''m'', 0))\<rparr>"

definition demo_covers :: cover_files where
  "demo_covers = \<lparr>CacheFiles = \<lparr>weakly_canonical = Some, exists_path = (\<lambda>_. Some False), is_regular_file = (\<lambda>_. Some False)\<rparr>,
     CacheFileSize = (\<lambda>_. None), CacheRoot = \<lparr>Absolute = True, Parts = []\<rparr>\<rparr>"

definition demo_config :: scan_config where
  "demo_config = \<lparr>ScanMode = EInpxScanMode.Rescan, MaxSteadyStateMemoryBytes = 2 ^ 30, MaxWorkerCount = 2, HardwareConcurrency = 2, TextConvert = no_convert,
     ArchivesAtPlanning = demo_archives, ArchiveManifests = (\<lambda>_. Inr ''m''), EntrySizes = (\<lambda>_ _. Inr 0), EntryBytes = (\<lambda>_ _. Inr []),
     ParsePayload = (\<lambda>_ _. Inl []), Ready = (\<lambda>_. 0),
     CatalogWriter = \<lparr>RowIds = demo_rowid, Nocase = id, CoverStore = demo_covers, ScanId = ''s'', MaxCoverCacheBytes = 0\<rparr>,
     ArchivesAtCommit = demo_archives, ExpectedFingerprint = Some ''f'', SourceFingerprintAtStart = Inr ''f'', SnapshotFingerprint = Inr ''f'',
     SourceFingerprintAtCommit = Inr ''f'', DisplayName = [], StartedAt = [], CompletedAt = [], SourceSizeBytes = 7\<rparr>"

section \<open>What the scan reads\<close>

lemma demo_line_ascii: "list_all (\<lambda>c. byte_of c < 128 \<and> c \<noteq> CHR 0x0A \<and> c \<noteq> CHR 0x0D) demo_line"
  by code_simp

lemma demo_length: "length demo_line < 1000"
  by code_simp

lemma demo_decode: "DecodeInpPayloadToUtf8 no_convert demo_line = Inr demo_line"
proof -
  have "IsValidUtf8 demo_line" by (rule valid_ascii) (use demo_line_ascii in \<open>auto simp: list_all_iff\<close>)
  moreover have "byte_of (demo_line ! 0) = (66 :: nat)" by code_simp
  ultimately show ?thesis by (simp add: DecodeInpPayloadToUtf8_def)
qed

lemma demo_ends: "demo_line \<noteq> [] \<and> last demo_line \<noteq> CHR 0x0D"
  by code_simp

lemma demo_parse: "ParseSegment no_convert demo_payload [] [] = Inr st \<Longrightarrow> Records st = [sample_record]"
proof -
  assume p: "ParseSegment no_convert demo_payload [] [] = Inr st"
  have "CHR 0x0A \<notin> set demo_line" using demo_line_ascii by (auto simp: list_all_iff)
  then have sp: "split_on (CHR 0x0A) demo_line = [demo_line]" by (rule split_on_no_sep)
  have r: "ParseRecordLine on ''a'' ''a.inp'' n demo_line s = (True, on sample_record s)" for on n s
    using ParseRecordLine_render [OF sample_printable, of on n s] by (simp add: demo_line_def sample_record_def)
  have l: "\<not> GMaxInpRecordLineBytes < length demo_line" using demo_length by (simp add: GMaxInpRecordLineBytes_def)
  have "segment_line demo_payload 1 demo_line s =
      Inr (segment_onRecord sample_record (s\<lparr>Summary := (Summary s)\<lparr>TotalRecords := TotalRecords (Summary s) + 1\<rparr>\<rparr>))" for s
    using demo_ends l by (simp add: segment_line_def r demo_payload_def)
  then show ?thesis
    using p by (auto simp: ParseSegment_def demo_payload_def demo_decode segment_loop_eq sp segment_onRecord_def)
qed

lemma demo_fingerprint: "ComputeFingerprintWithCheckpoints sample_evp demo_line = Inr demo_fingerprint"
proof -
  obtain fp where "ComputeFingerprintWithCheckpoints sample_evp demo_line = Inr fp"
    using Fingerprint_eq [OF sample_evp_streams, of demo_line] demo_ends
    by (simp add: ComputeBytes_def CreateContext_def sha_Update_def sha_Finalize_def sample_evp_def)
  then show ?thesis by (simp add: demo_fingerprint_def)
qed

lemma demo_read:
  assumes "length demo_line \<le> m" "m < 2 ^ 64"
  shows "ReadSegments sample_evp (sample_zip demo_line) f m s = (case f demo_payload s of Inl e \<Rightarrow> Inl e | Inr s' \<Rightarrow> Inr (1, s'))"
proof -
  have r: "ReadTextEntry (sample_zip demo_line) 0 (length demo_line) = Inr demo_line"
    using ReadTextEntry_serves [OF sample_zip_serves, of demo_line "length demo_line"] by simp
  have u: "u64_sub m 0 = m" using assms(2) by (simp add: u64_sub_def)
  have b: "BuildArchiveName ''a.inp'' = ''a''" by code_simp
  have e: "EndsWithAsciiInsensitive ''a.inp'' ''.inp''" by code_simp
  have rs: "read_segment sample_evp (sample_zip demo_line) m 0 ''a.inp'' 0 = Inr (demo_payload, length demo_line)"
    using assms(1) demo_length
    by (simp add: read_segment_def EntrySize_def IsInpEntryPayloadSizeAllowed_def GMaxInpEntryPayloadBytes_def u r b demo_fingerprint demo_payload_def)
  show ?thesis
    by (simp add: ReadSegments_def open_archive_def EntryCount_def EntryName_def rs e split: sum.split)
qed

section \<open>The scan\<close>

lemma demo_limits: "scan_limits demo_config =
    \<lparr>MaxInpSourceBytes = 234881024, MaxRecords = 917504, MaxSegments = 114688, MaxFilesystemEntries = 1000000\<rparr>"
  by (simp add: scan_limits_def demo_config_def ResolveScanPlanningLimits_def ResolvePlanningStateBudget_def ResolveArchiveManifestBudget_def
      u64_sub_def ResolveCoarseCountLimit_def u64_max_def)

lemma demo_segments: "scanned_segments demo_config sample_evp (sample_zip demo_line) = [demo_payload]"
  using demo_length by (simp add: scanned_segments_def segments_of_def demo_limits demo_read)

lemma demo_existing: "ReadExistingInpxSegments 114688 (Segments demo_tables) = Inr (map existing_segment (Segments demo_tables))"
  by (simp add: ReadExistingInpxSegments_def demo_tables_def RequireCollectionRoom_def and_then_def demo_segment_def existing_segment_def)

definition demo_env :: planning_env where
  "demo_env = planning_of demo_config (map existing_segment (Segments demo_tables))"

lemma demo_env_simps [simp]: "PlanLimits demo_env = scan_limits demo_config" "PlanMode demo_env = EInpxScanMode.Rescan"
  "PlanWorld demo_env = demo_archives" "PlanExisting demo_env = map existing_segment (Segments demo_tables)"
  by (simp_all add: demo_env_def planning_of_def demo_config_def)

definition demo_plan :: SInpxSegmentPlan where
  "demo_plan = (new_plan (demo_payload\<lparr>SegBytes := []\<rparr>) 0 (Some 1))\<lparr>Change := SegmentUnchanged, RequiresArchive := True,
     ResolvedArchivePathUtf8 := ''a.zip'', PlanSummary := ExSummary (existing_segment (demo_segment 1 ''a.inp'' demo_fingerprint)),
     ArchiveManifestFingerprintUtf8 := ''m''\<rparr>"

definition demo_removed :: SInpxSegmentPlan where
  "demo_removed = removed_plan (existing_segment (demo_segment 2 ''old.inp'' (CHR ''x'' # demo_fingerprint)))"

definition demo_guards :: guards where
  "demo_guards = [(''a.zip'', \<lparr>GuardArchiveName = ''a'', GuardPath = ''a.zip'', GuardFileState = \<lparr>StateFileSizeBytes = 0, StateMtimeTicks = 0\<rparr>,
     GuardManifest = [], GuardPhase = FileStateRead\<rparr>)]"

lemma demo_plan_segment: "plan_segment demo_env demo_payload empty_planner = Inr (empty_planner\<lparr>Plans := [demo_plan], Guards := demo_guards\<rparr>)"
  by (simp add: plan_segment_def demo_limits RequireCollectionRoom_def and_then_def empty_planner_def
      plan_change_def plan_name_def new_plan_def demo_payload_def demo_tables_def demo_segment_def existing_segment_def
      canReuseExisting_def IsInpxBookAvailable_def plan_with_archive_def readArchiveState_def demo_archives_def to_u64_def
      demo_plan_def demo_guards_def)

lemma demo_planned: "plan_scan demo_env sample_evp (sample_zip demo_line) =
    Inr \<lparr>AllPlans = [demo_plan, demo_removed], ScanGuards = demo_guards, PlannedTotal = 1, PlannedDeleted = 0, PlanningBytes = 0\<rparr>"
proof -
  have r: "ReadSegments sample_evp (sample_zip demo_line) (plan_segment demo_env) 234881024 empty_planner
      = Inr (1, empty_planner\<lparr>Plans := [demo_plan], Guards := demo_guards\<rparr>)"
    using demo_length by (simp add: demo_read demo_plan_segment)
  have n: "plan_name demo_plan = ''a.inp''" by (simp add: demo_plan_def plan_name_def new_plan_def demo_payload_def)
  have ex: "List.sort_key ExInpEntryName (PlanExisting demo_env) = PlanExisting demo_env" by (simp add: demo_tables_def demo_segment_def existing_segment_def)
  show ?thesis
    by (simp add: plan_scan_def demo_limits r and_then_def ex n del: demo_env_simps(4))
      (simp add: demo_tables_def demo_removed_def RequireCollectionRoom_def and_then_def empty_planner_def
        existing_segment_def demo_segment_def removed_plan_def demo_plan_def new_plan_def to_u64_def u64_sub_def empty_summary_def)
qed

definition demo_planned_rows :: "segment_row list" where
  "demo_planned_rows = [(planned_row ''s'' demo_plan)\<lparr>SegmentId := 1\<rparr>, (planned_row ''s'' demo_removed)\<lparr>SegmentId := 2\<rparr>]"

definition demo_upserted :: scan_tables where
  "demo_upserted = demo_tables\<lparr>Source := MarkInpxSourceScanStarted [] demo_source, Segments := demo_planned_rows\<rparr>"

lemma demo_plan_rows:
  "planned_row ''s'' demo_plan = (demo_segment 0 ''a.inp'' demo_fingerprint)\<lparr>RowScan := Some ''s''\<rparr>"
  "planned_row ''s'' demo_removed = (demo_segment 0 ''old.inp'' (CHR ''x'' # demo_fingerprint))\<lparr>RowAvailability := availability_ToString MissingFromIndex,
     RowScan := Some ''s''\<rparr>"
  by (simp_all add: planned_row_def demo_plan_def demo_removed_def removed_plan_def new_plan_def demo_payload_def existing_segment_def demo_segment_def
      to_u64_def null_if_empty_def empty_summary_def)

lemma demo_checks: "segment_check (planned_row ''s'' demo_plan)" "segment_check (planned_row ''s'' demo_removed)"
  by (simp_all add: demo_plan_rows segment_check_def demo_segment_def)

lemma demo_changes [simp]: "Change demo_plan = SegmentUnchanged" "Change demo_removed = SegmentRemoved"
  by (simp_all add: demo_plan_def demo_removed_def removed_plan_def)

lemma scan_demo_names [simp]: "plan_name demo_plan = ''a.inp''" "plan_name demo_removed = ''old.inp''"
  by (simp_all add: plan_name_def demo_plan_def new_plan_def demo_payload_def demo_removed_def removed_plan_def existing_segment_def demo_segment_def)

lemma demo_upsert: "upsert_all demo_rowid ''s'' [demo_plan, demo_removed] (demo_tables\<lparr>Source := MarkInpxSourceScanStarted [] demo_source\<rparr>)
    = Inr ([1, 2], demo_upserted)"
  by (simp add: UpsertSegment_def Let_def demo_checks and_then_def)
    (simp add: demo_plan_rows upsert_row_def demo_tables_def demo_segment_def demo_upserted_def demo_planned_rows_def)

lemma demo_config_simps [simp]: "CatalogWriter demo_config = \<lparr>RowIds = demo_rowid, Nocase = id, CoverStore = demo_covers, ScanId = ''s'', MaxCoverCacheBytes = 0\<rparr>"
  "StartedAt demo_config = []" "ArchivesAtCommit demo_config = demo_archives" "SourceFingerprintAtCommit demo_config = Inr ''f''"
  by (simp_all add: demo_config_def)

lemma demo_active: "ReadActiveInpxIdsForSegments [''a.inp''] 917504 demo_tables = Inr [''12'']"
  by (simp add: ReadActiveInpxIdsForSegments_def demo_tables_def demo_location_def demo_segment_def InsertActiveLibId_def RequireCollectionRoom_def and_then_def)

lemma demo_execute: "execute env [demo_plan, demo_removed] [1, 2] [''12''] demo_upserted = Inr (start_execution [demo_plan, demo_removed] [''12''] demo_upserted)"
  by (simp add: execute_def execution_order_def needs_scan_def and_then_def drain_while.simps start_execution_def)

definition demo_finished :: scan_tables where
  "demo_finished = demo_upserted\<lparr>
     Locations := [demo_location 1 1 ''12'', (demo_location 2 2 ''13'')\<lparr>LocAvailability := availability_ToString MissingFromIndex, LocScan := Some ''s''\<rparr>],
     Statistics := \<lparr>StatRow = Some \<lparr>BookCount = 2, UnavailableBookCount = 1, CoverCacheSizeBytes = 0, InpxSourceSizeBytes = 7\<rparr>, CoverRows = []\<rparr>,
     Source := UpdateInpxSourceRow [] ''f'' [] [] ''s'' demo_source\<rparr>"

lemma demo_finish: "finish_tables ''s'' (finish_of demo_config ''f'') [] demo_upserted = Inr (1, demo_finished)"
proof -
  have u: "demo_upserted = demo_tables\<lparr>Source := MarkInpxSourceScanStarted [] demo_source, Segments := demo_planned_rows\<rparr>" by (simp add: demo_upserted_def)
  have d: "Deletions demo_upserted = []" by (simp add: u demo_tables_def)
  have l: "Locations demo_upserted = [demo_location 1 1 ''12'', demo_location 2 2 ''13'']" by (simp add: u demo_tables_def)
  have s: "Segments demo_upserted = [(demo_segment 1 ''a.inp'' demo_fingerprint)\<lparr>RowScan := Some ''s''\<rparr>,
      (demo_segment 2 ''old.inp'' (CHR ''x'' # demo_fingerprint))\<lparr>RowAvailability := availability_ToString MissingFromIndex, RowScan := Some ''s''\<rparr>]"
    by (simp add: u demo_planned_rows_def demo_plan_rows demo_segment_def)
  have t: "Statistics demo_upserted = \<lparr>StatRow = Some \<lparr>BookCount = 2, UnavailableBookCount = 0, CoverCacheSizeBytes = 0, InpxSourceSizeBytes = 0\<rparr>, CoverRows = []\<rparr>"
    by (simp add: u demo_tables_def)
  show ?thesis
    by (simp add: finish_tables_def Let_def set_availability_def marked_unavailable_def restored_available_def in_available_segment_def
        deleted_later_def d l s t demo_location_def demo_segment_def AddUnavailableBooks_def RemoveUnavailableBooks_def SetInpxSourceSize_def ToSqliteInt64_def
        int64_max_def and_then_def AddStatisticsDelta_def set_row_def statistics_check_def EnsureStatisticsRow_def finish_of_def demo_config_def demo_finished_def UpdateInpxSourceRow_def
        not_sym [OF available_strings(1)])
qed

lemma demo_guards_ok: "ValidateArchiveGuards demo_archives [demo_plan, demo_removed] demo_guards = Inr ()"
  by (simp add: ValidateArchiveGuards_def demo_guards_def demo_plan_def new_plan_def demo_removed_def removed_plan_def and_then_def check_archive_def demo_archives_def)

lemma demo_write: "write_scan demo_config ''f'' \<lparr>AllPlans = [demo_plan, demo_removed], ScanGuards = demo_guards, PlannedTotal = 1, PlannedDeleted = 0, PlanningBytes = 0\<rparr> demo_tables
    = Inr (1, demo_finished)"
proof -
  have n: "unchanged_names [demo_plan, demo_removed] = [''a.inp'']" by (simp add: unchanged_names_def)
  have c: "changed_ids [demo_plan, demo_removed] [1, 2] = []" by (simp add: changed_ids_def needs_scan_def)
  have so: "Source demo_tables = demo_source" by (simp add: demo_tables_def)
  have x: "ExecTables (start_execution plans A db) = db" for plans A db by (simp add: start_execution_def)
  show ?thesis
    by (simp add: write_scan_def Let_def so demo_upsert n demo_limits demo_active demo_execute c x demo_finish demo_guards_ok and_then_def lift_error_def
        del: upsert_all.simps One_nat_def)
qed

lemma demo_scan: "RunScan demo_config sample_evp (sample_zip demo_line) demo_tables = Inr (1, demo_finished)"
proof -
  have f: "stable_snapshot demo_config = Inr ''f''" by (simp add: stable_snapshot_def demo_config_def and_then_def)
  show ?thesis
    by (simp add: RunScan_def f demo_limits demo_existing demo_planned demo_write and_then_def lift_error_def flip: demo_env_def del: One_nat_def)
qed

section \<open>Its assumptions\<close>

lemma scan_demo_ids: "active_ids [sample_record] = {''12''}" "deleted_ids [sample_record] = {}"
  "active_ids [demo_old_record] = {''13''}" "deleted_ids [demo_old_record] = {}"
proof -
  have "is_supported sample_record" unfolding is_supported_def by code_simp
  moreover have "is_supported demo_old_record" unfolding is_supported_def by code_simp
  ultimately show "active_ids [sample_record] = {''12''}" "deleted_ids [sample_record] = {}"
    "active_ids [demo_old_record] = {''13''}" "deleted_ids [demo_old_record] = {}"
    by (simp_all add: active_ids_def deleted_ids_def demo_old_record_def sample_record_def)
qed

lemma demo_faithful: "faithful demo_content demo_tables"
proof -
  have "segments_ok (Segments demo_tables)" by (simp add: segments_ok_def demo_tables_def demo_segment_def)
  moreover have "relations_ok (CatRelations new_catalog)" using new_tables_faithful [of "\<lambda>_. []" demo_source]
    by (simp add: faithful_def tables_ok_def locations_ok_def new_tables_def)
  then have "locations_ok demo_tables" by (simp add: locations_ok_def demo_tables_def demo_location_def)
  moreover have "statistics_ok demo_tables"
    by (simp add: statistics_ok_def demo_tables_def demo_location_def covers_ok_def EnsureStatisticsRow_def cover_total_def statistics_check_def)
  moreover have "list_all (\<lambda>r. row_available r \<longrightarrow> faithful_row demo_content demo_tables r) (Segments demo_tables)"
    by (simp add: demo_tables_def demo_segment_def faithful_row_def demo_content_def scan_demo_ids present_ids_def deletions_of_def demo_location_def)
  ultimately show ?thesis by (simp add: faithful_def tables_ok_def)
qed

lemma demo_assumptions: "scan_assumptions demo_content demo_config [demo_payload] demo_tables"
proof -
  have "identifies demo_content (TextConvert demo_config) [demo_payload]"
    using demo_parse by (auto simp: identifies_def demo_config_def demo_content_def) (simp add: demo_payload_def)
  then show ?thesis by (simp add: scan_assumptions_def demo_rowid_new demo_tables_def demo_location_def)
qed

lemma demo_finished_ids: "available_ids demo_finished = {''12''}"
  by (auto simp: available_ids_def demo_finished_def demo_location_def)

section \<open>An execution that writes a book\<close>

definition demo_prepared :: SPreparedInpxPayload where
  "demo_prepared = \<lparr>PreparedMetadata = demo_metadata, PreparedParserWarnings = 0, PreparedCoverWarningCount = 0,
     PreparedCover = Inr \<lparr>RelativePathUtf8 = None, CoverBytes = 0, CoverResultWarnings = 0\<rparr>, PreparedAt = 0\<rparr>"

definition demo_exec :: exec_env where
  "demo_exec = \<lparr>MaxInFlightPayloads = 1, MaxInFlightPayloadBytes = 1000, MaxActiveRecords = 10, ExecManifest = (\<lambda>_. Inr ''m''),
     ReadEntrySize = (\<lambda>_ _. Inr 345), ReadEntryBytes = (\<lambda>_ _. Inr []), ParseInpxPayloadBytes = (\<lambda>_ _. Inr demo_prepared), ReadyAt = (\<lambda>_. 0),
     ExecWriter = \<lparr>RowIds = demo_rowid, Nocase = id, CoverStore = demo_covers, ScanId = ''s'', MaxCoverCacheBytes = 0\<rparr>\<rparr>"

definition demo_added_plan :: SInpxSegmentPlan where
  "demo_added_plan = (new_plan demo_payload 0 None)\<lparr>PlanRecords := [sample_record], RequiresArchive := True, ResolvedArchivePathUtf8 := ''a.zip'',
     ArchiveManifestFingerprintUtf8 := ''m''\<rparr>"

definition demo_task :: SInFlightParsedRecord where
  "demo_task = \<lparr>TaskSegment = 1, TaskRecord = sample_record, TaskPayload = [], ReservedPayloadBytes = 345\<rparr>"

definition demo_in_flight :: exec_state where
  "demo_in_flight = (start_execution [demo_added_plan] [] (new_tables demo_source))\<lparr>ProcessedActiveIds := [''12''], InFlight := [demo_task],
     InFlightPayloadBytes := 345, CurrentArchivePath := ''a.zip'', ExecScanned := 1\<rparr>"

lemma demo_order: "execution_order [demo_added_plan] = [0]"
  by (simp add: execution_order_def demo_added_plan_def new_plan_def needs_scan_def)

lemma demo_plans_run: "exec_plans demo_exec [demo_added_plan] [1] [0] (start_execution [demo_added_plan] [] (new_tables demo_source)) = Inr demo_in_flight"
proof -
  have r: "\<not> Deleted sample_record" "LibId sample_record = ''12''" "FileSizeBytes sample_record = 345" by (simp_all add: sample_record_def)
  have s: "is_supported sample_record" unfolding is_supported_def by code_simp
  have p: "PlanRecords demo_added_plan = [sample_record]" "ResolvedArchivePathUtf8 demo_added_plan = ''a.zip''"
    "ArchiveManifestFingerprintUtf8 demo_added_plan = ''m''" by (simp_all add: demo_added_plan_def)
  have e: "sample_record\<lparr>FileSizeBytes := 345\<rparr> = sample_record" by (simp add: sample_record_def)
  show ?thesis
    by (simp add: p exec_record_def Let_def r s start_execution_def InsertActiveLibId_def RequireCollectionRoom_def demo_exec_def and_then_def
        lift_error_def drain_while.simps switch_archive_def submit_payload_def e demo_in_flight_def demo_task_def)
qed

lemma demo_book_written: "\<exists>r db. WriteParsedRecord (ExecWriter demo_exec) (parsed_of demo_task demo_prepared) (new_tables demo_source) = Inr (r, db)"
proof -
  have rel: "relations_ok (CatRelations new_catalog)" using new_tables_faithful [of "\<lambda>_. []" demo_source]
    by (simp add: faithful_def tables_ok_def locations_ok_def new_tables_def)
  obtain b f cat where "InsertInpxBook demo_rowid sample_record demo_metadata 0 new_catalog = Inr (b, f, cat)"
    by (rule insert_stores [OF rel demo_rowid_new, of sample_record demo_metadata 0])
  then show ?thesis
    by (simp add: WriteParsedRecord_def ReadExistingInpxBook_def new_tables_def write_new_def demo_exec_def parsed_of_def demo_task_def demo_prepared_def
        and_then_def Let_def UpsertInpxLocation_def RecordInpxBookInserted_def AddStatisticsDelta_def EnsureStatisticsRow_def set_row_def
        statistics_check_def IncrementCoverReference_def normalized_cover_def ValidateCoverCacheBudget_def)
qed

lemma demo_executed: "\<exists>st. execute demo_exec [demo_added_plan] [1] [] (new_tables demo_source) = Inr st \<and> length (Written st) = 1"
proof -
  obtain r db where w: "WriteParsedRecord (ExecWriter demo_exec) (parsed_of demo_task demo_prepared) (new_tables demo_source) = Inr (r, db)"
    using demo_book_written by blast
  have f: "InFlight demo_in_flight = [demo_task]" "ExecTables demo_in_flight = new_tables demo_source" "Written demo_in_flight = []"
    by (simp_all add: demo_in_flight_def start_execution_def)
  have p: "ParseInpxPayloadBytes demo_exec x y = Inr demo_prepared" "ReadyAt demo_exec n = 0" for x y n by (simp_all add: demo_exec_def)
  obtain st where "drainParsedRecord demo_exec demo_in_flight = Inr st" "InFlight st = []" "length (Written st) = 1"
    by (simp add: drainParsedRecord_def takeParsedRecord_def Let_def f p w)
  then have "drain_while demo_exec (\<lambda>_. True) demo_in_flight = Inr st"
    using f by (simp add: drain_while.simps [of demo_exec "\<lambda>_. True" demo_in_flight] drain_while.simps [of demo_exec "\<lambda>_. True" st])
  then show ?thesis using \<open>length (Written st) = 1\<close> by (simp add: execute_def demo_order demo_plans_run and_then_def del: exec_plans.simps)
qed

end
