(* ===== verification/Scan_Properties.thy ===== *)
theory Scan_Properties
  imports Scan_Demo
begin

text \<open>The properties of a scan of the INPX source.\<close>

section \<open>Refinement\<close>

text \<open>C1: a scan refines the replay of its snapshot: whatever was scanned before, after a scan that commits exactly those
  books are available that remain when the segments are played in their order, each first taking away what it marks
  as deleted and then adding its own, although the scan reads only what has changed since.\<close>

theorem scan_refines_replay:
  assumes "RunScan cfg evp z db = Inr (n, db')" "faithful content db"
    and "scan_assumptions content cfg (scanned_segments cfg evp z) db"
  shows "available_ids db' = replay content (snapshot_of (scanned_segments cfg evp z)) \<and> faithful content db'"
  using RunScan_reflects [OF assms] reflects_replay by (simp add: reflects_def)

theorem scan_refines_replay_witness:
  "RunScan demo_config sample_evp (sample_zip demo_line) demo_tables = Inr (1, demo_finished)
    \<and> available_ids demo_tables = {''12'', ''13''} \<and> available_ids demo_finished = {''12''}
    \<and> replay demo_content [(''a.inp'', demo_fingerprint)] = {''12''}"
proof -
  have "scan_assumptions demo_content demo_config (scanned_segments demo_config sample_evp (sample_zip demo_line)) demo_tables"
    by (simp only: demo_segments demo_assumptions)
  from scan_refines_replay [OF demo_scan demo_faithful this]
  have "available_ids demo_finished = replay demo_content [(''a.inp'', demo_fingerprint)]"
    by (simp add: demo_segments snapshot_of_def demo_payload_def)
  moreover have "available_ids demo_tables = {''12'', ''13''}" by (auto simp: available_ids_def demo_tables_def demo_location_def)
  ultimately show ?thesis using demo_scan demo_finished_ids by blast
qed

text \<open>C2: after any history of scans, each committed or failed, of a new catalog or of one whose last committed snapshot is
  known, the available books are those of the replay of the snapshot that was committed last (none before the first), and
  the catalog is one that the next scan may rely on.\<close>

theorem scan_history_refines_replays:
  assumes "(scan_step content)\<^sup>*\<^sup>* (db0, latest0) (db, latest)"
    and "db0 = new_tables source \<and> latest0 = None \<or> recorded content db0 latest0"
  shows "available_ids db = (case latest of None \<Rightarrow> {} | Some cur \<Rightarrow> replay content cur) \<and> faithful content db"
proof -
  have "recorded content db0 latest0" using assms(2) new_tables_recorded by blast
  with scans.steps_inv [OF assms(1)] show ?thesis by (simp add: recorded_def books_of_def)
qed

text \<open>A catalog of two segments, a scan that commits without one of them, and a scan that fails.\<close>

definition demo_before :: snapshot where
  "demo_before = [(''a.inp'', demo_fingerprint), (''old.inp'', CHR ''x'' # demo_fingerprint)]"

lemma demo_recorded: "recorded demo_content demo_tables (Some demo_before)"
proof -
  have "active_ids [sample_record] = {''12''}" "deleted_ids [sample_record] = {}" "active_ids [demo_old_record] = {''13''}" "deleted_ids [demo_old_record] = {}"
    unfolding active_ids_def deleted_ids_def is_supported_def demo_old_record_def by code_simp+
  then have "replay demo_content demo_before = {''12'', ''13''}"
    by (auto simp: replay_def replay_segment_def demo_before_def demo_content_def)
  moreover have "available_ids demo_tables = {''12'', ''13''}" by (auto simp: available_ids_def demo_tables_def demo_location_def)
  ultimately show ?thesis using demo_faithful by (simp add: recorded_def books_of_def)
qed

theorem scan_history_refines_replays_witness:
  "scan_step demo_content (demo_tables, Some demo_before) (demo_finished, Some [(''a.inp'', demo_fingerprint)])
    \<and> scan_step demo_content (demo_finished, Some [(''a.inp'', demo_fingerprint)]) (demo_finished, Some [(''a.inp'', demo_fingerprint)])
    \<and> available_ids demo_finished = replay demo_content [(''a.inp'', demo_fingerprint)] \<and> ''13'' \<in> available_ids demo_tables"
proof -
  have "scan_assumptions demo_content demo_config (scanned_segments demo_config sample_evp (sample_zip demo_line)) demo_tables"
    by (simp only: demo_segments demo_assumptions)
  from scan_step.committed [OF demo_scan this, of "Some demo_before"]
  have committed: "scan_step demo_content (demo_tables, Some demo_before) (demo_finished, Some [(''a.inp'', demo_fingerprint)])"
    by (simp add: demo_segments snapshot_of_def demo_payload_def)
  have "stable_snapshot (demo_config\<lparr>SnapshotFingerprint := Inr ''g''\<rparr>) =
      Inl (SessionRuntimeError ''INPX source changed while its scan snapshot was being created; retry the scan.'')"
    by (simp add: stable_snapshot_def demo_config_def and_then_def)
  then have "RunScan (demo_config\<lparr>SnapshotFingerprint := Inr ''g''\<rparr>) sample_evp (sample_zip demo_line) demo_finished =
      Inl (SessionRuntimeError ''INPX source changed while its scan snapshot was being created; retry the scan.'')"
    by (simp add: RunScan_def and_then_def)
  note failed = scan_step.failed [OF this, of demo_content "Some [(''a.inp'', demo_fingerprint)]"]
  have history: "(scan_step demo_content)\<^sup>*\<^sup>* (demo_tables, Some demo_before) (demo_finished, Some [(''a.inp'', demo_fingerprint)])"
    using committed failed by (rule converse_rtranclp_into_rtranclp [OF _ r_into_rtranclp])
  from scan_history_refines_replays [OF history disjI2 [OF demo_recorded]] committed failed
  show ?thesis by (auto simp: available_ids_def demo_tables_def demo_location_def)
qed

section \<open>Statistics\<close>

text \<open>C7: after a scan the statistics count the catalog: the books, the books that are not available, and the bytes of the
  covers, each cover with at least one reference; every book has one location and every library identifier one book.\<close>

theorem statistics_count_the_catalog:
  assumes "RunScan cfg evp z db = Inr (n, db')" "faithful content db"
    and "scan_assumptions content cfg (scanned_segments cfg evp z) db"
  shows "let row = EnsureStatisticsRow (Statistics db'); covers = CoverRows (Statistics db') in
      BookCount row = int (length (CatBooks (Catalog db')))
    \<and> UnavailableBookCount row = int (length (filter (\<lambda>l. LocAvailability l \<noteq> availability_ToString Available) (Locations db')))
    \<and> CoverCacheSizeBytes row = sum_list (map SizeBytes covers) \<and> list_all (\<lambda>c. 0 < ReferenceCount c \<and> 0 \<le> SizeBytes c) covers
    \<and> distinct (map LocLibId (Locations db')) \<and> distinct (map LocBookId (Locations db'))
    \<and> set (map LocBookId (Locations db')) = set (map fst (CatBooks (Catalog db')))"
proof -
  have "tables_ok db'" using RunScan_reflects [OF assms] by (simp add: reflects_def faithful_def)
  then show ?thesis
    by (simp add: tables_ok_def statistics_ok_def locations_ok_def covers_ok_def cover_total_def unavailable_count_def Let_def)
qed

theorem statistics_count_the_catalog_witness:
  "BookCount (EnsureStatisticsRow (Statistics demo_finished)) = 2 \<and> length (CatBooks (Catalog demo_finished)) = 2
    \<and> UnavailableBookCount (EnsureStatisticsRow (Statistics demo_finished)) = 1"
proof -
  have "scan_assumptions demo_content demo_config (scanned_segments demo_config sample_evp (sample_zip demo_line)) demo_tables"
    by (simp only: demo_segments demo_assumptions)
  from statistics_count_the_catalog [OF demo_scan demo_faithful this]
  have "BookCount (EnsureStatisticsRow (Statistics demo_finished)) = int (length (CatBooks (Catalog demo_finished)))"
    "UnavailableBookCount (EnsureStatisticsRow (Statistics demo_finished)) =
       int (length (filter (\<lambda>l. LocAvailability l \<noteq> availability_ToString Available) (Locations demo_finished)))"
    unfolding Let_def by blast+
  then show ?thesis by (simp add: demo_finished_def demo_upserted_def demo_tables_def demo_location_def)
qed

section \<open>Execution\<close>



text \<open>C9: at no record has an execution more payloads in flight than workers, or more payload bytes than its budget, and
  the bytes it has reserved are those of the payloads in flight.\<close>

theorem payloads_in_flight_bounded:
  assumes "exec_plans env plans ids order (start_execution plans activeIds db) = Inr st" "0 < MaxInFlightPayloads env"
  shows "length (InFlight st) \<le> MaxInFlightPayloads env \<and> InFlightPayloadBytes st \<le> MaxInFlightPayloadBytes env
    \<and> InFlightPayloadBytes st = sum_list (map ReservedPayloadBytes (InFlight st))"
  using exec_plans_ok [OF conjunct1 [OF start_ok] conjunct2 [OF start_ok] assms(2,1)]
  by (simp add: exec_ok_def bounded_def reserved_def)

theorem payloads_in_flight_bounded_witness:
  "exec_plans demo_exec [demo_added_plan] [1] [0] (start_execution [demo_added_plan] [] (new_tables demo_source)) = Inr demo_in_flight
    \<and> length (InFlight demo_in_flight) = 1 \<and> InFlightPayloadBytes demo_in_flight = 345 \<and> length (InFlight demo_in_flight) \<le> MaxInFlightPayloads demo_exec"
proof -
  have "0 < MaxInFlightPayloads demo_exec" by (simp add: demo_exec_def)
  from payloads_in_flight_bounded [OF demo_plans_run this] show ?thesis
    using demo_plans_run by (simp add: demo_in_flight_def demo_task_def del: exec_plans.simps)
qed

section \<open>Memory\<close>

text \<open>the shares of the memory budget that planning, archive manifests, payloads in flight and cover decoding may use
  fit into the budget together, and there are between one and eight workers.\<close>

theorem memory_shares_fit:
  assumes "0 < m" "m < 2 ^ 64"
  shows "ResolvePlanningStateBudget m + ResolveArchiveManifestBudget m + ResolveInFlightPayloadBudget m
      + ResolveInpxPayloadWorkerWindow hw n * ResolveCoverDecodeBudget m (ResolveInpxPayloadWorkerWindow hw n) \<le> m
    \<and> 1 \<le> ResolveInpxPayloadWorkerWindow hw n \<and> ResolveInpxPayloadWorkerWindow hw n \<le> GMaxScanWorkerCount"
proof -
  let ?w = "ResolveInpxPayloadWorkerWindow hw n"
  have w: "1 \<le> ?w" "?w \<le> 8" using window_bounds by blast+
  have "?w * ResolveCoverDecodeBudget m ?w + ResolveInFlightPayloadBudget m \<le> m - m div 2"
    using cover_share [OF assms, of ?w] w(1) by (simp add: mult.commute max_def)
  then show ?thesis using planning_share [OF assms(2)] w by (simp add: GMaxScanWorkerCount_def)
qed

theorem memory_shares_fit_witness:
  "ResolvePlanningStateBudget 1073741824 + ResolveArchiveManifestBudget 1073741824 + ResolveInFlightPayloadBudget 1073741824
      + ResolveInpxPayloadWorkerWindow 4 0 * ResolveCoverDecodeBudget 1073741824 (ResolveInpxPayloadWorkerWindow 4 0) \<le> 1073741824"
  using memory_shares_fit [of 1073741824 4 0] by simp

section \<open>Archives\<close>






end
