(* ===== verification/Scan_Warnings.thy ===== *)
theory Scan_Warnings
  imports Scan_Properties
begin

text \<open>
  The warnings of a scan in the catalog: \<open>WriteWarning\<close> and \<open>PrunePersistedWarnings\<close> of
  \<open>libs/App/InpxScanJobService.cpp\<close>. A scan keeps its first thousand warnings and the catalog those of ten scans. The
  id of a new row is one more than the largest in use, as SQLite documents for an \<open>INTEGER PRIMARY KEY\<close>.
\<close>

section \<open>The code\<close>

record warning_row =
  WarningRowId :: nat
  WarningScanId :: string
  WarningOf :: SInpxScanWarningRecord
  WarningCreatedAt :: string

record warning_writer =
  WarningRows :: "warning_row list"
  PersistedWarningCount :: nat

definition next_warning_id :: "warning_row list \<Rightarrow> nat" where
  "next_warning_id rows = Max (set (0 # map WarningRowId rows)) + 1"

definition InsertPersistedWarning :: "string \<Rightarrow> string \<Rightarrow> SInpxScanWarningRecord \<Rightarrow> warning_row list \<Rightarrow> warning_row list" where
  "InsertPersistedWarning scanId createdAtUtc warning rows =
    rows @ [\<lparr>WarningRowId = next_warning_id rows, WarningScanId = scanId, WarningOf = warning, WarningCreatedAt = createdAtUtc\<rparr>]"

definition GMaxPersistedWarningsPerScan :: nat where "GMaxPersistedWarningsPerScan = 1000"

definition WriteWarning :: "string \<Rightarrow> SInpxScanWarningRecord \<times> string \<Rightarrow> warning_writer \<Rightarrow> warning_writer" where
  "WriteWarning scanId w writer =
    (if PersistedWarningCount writer \<ge> GMaxPersistedWarningsPerScan then writer
     else writer\<lparr>WarningRows := InsertPersistedWarning scanId (snd w) (fst w) (WarningRows writer),
       PersistedWarningCount := PersistedWarningCount writer + 1\<rparr>)"

text \<open>\<open>GROUP BY scan_id ORDER BY MAX(id) DESC LIMIT 10\<close>.\<close>

definition newest_id :: "warning_row list \<Rightarrow> string \<Rightarrow> nat" where
  "newest_id rows scanId = Max (set (0 # map WarningRowId (filter (\<lambda>r. WarningScanId r = scanId) rows)))"

definition newest_scans :: "warning_row list \<Rightarrow> string list" where
  "newest_scans rows = take 10 (rev (List.sort_key (newest_id rows) (remdups (map WarningScanId rows))))"

definition PrunePersistedWarnings :: "warning_row list \<Rightarrow> warning_row list" where
  "PrunePersistedWarnings rows = filter (\<lambda>r. WarningScanId r \<in> set (newest_scans rows)) rows"

text \<open>The warnings of a committed scan, each with the time of its insertion.\<close>

definition persist_warnings :: "string \<Rightarrow> (SInpxScanWarningRecord \<times> string) list \<Rightarrow> warning_row list \<Rightarrow> warning_row list" where
  "persist_warnings scanId ws rows =
    PrunePersistedWarnings (WarningRows (fold (WriteWarning scanId) ws \<lparr>WarningRows = rows, PersistedWarningCount = 0\<rparr>))"

section \<open>What is written\<close>

abbreviation of_scan :: "string \<Rightarrow> warning_row list \<Rightarrow> warning_row list" where
  "of_scan scanId rows \<equiv> filter (\<lambda>r. WarningScanId r = scanId) rows"

lemma write_warnings:
  assumes "PersistedWarningCount w = k" "k \<le> 1000"
  shows "\<exists>new. WarningRows (fold (WriteWarning scanId) ws w) = WarningRows w @ new
    \<and> map (\<lambda>r. (WarningOf r, WarningCreatedAt r)) new = take (1000 - k) ws \<and> list_all (\<lambda>r. WarningScanId r = scanId) new
    \<and> list_all (\<lambda>r. \<forall>q \<in> set (WarningRows w). WarningRowId q < WarningRowId r) new"
  using assms
proof (induction ws arbitrary: w k)
  case Nil
  then show ?case by simp
next
  case (Cons x ws)
  show ?case
  proof (cases "k = 1000")
    case True
    then have "fold (WriteWarning scanId) (x # ws) w = fold (WriteWarning scanId) ws w"
      using Cons.prems by (simp add: WriteWarning_def GMaxPersistedWarningsPerScan_def)
    with Cons.IH [OF Cons.prems] True show ?thesis by simp
  next
    case False
    let ?r = "\<lparr>WarningRowId = next_warning_id (WarningRows w), WarningScanId = scanId, WarningOf = fst x, WarningCreatedAt = snd x\<rparr>"
    let ?w = "w\<lparr>WarningRows := WarningRows w @ [?r], PersistedWarningCount := k + 1\<rparr>"
    have e: "fold (WriteWarning scanId) (x # ws) w = fold (WriteWarning scanId) ws ?w"
      using False Cons.prems by (simp add: WriteWarning_def GMaxPersistedWarningsPerScan_def InsertPersistedWarning_def)
    have "PersistedWarningCount ?w = k + 1" "k + 1 \<le> 1000" using False Cons.prems by simp_all
    from Cons.IH [OF this] obtain new where new: "WarningRows (fold (WriteWarning scanId) ws ?w) = WarningRows ?w @ new"
      "map (\<lambda>r. (WarningOf r, WarningCreatedAt r)) new = take (1000 - (k + 1)) ws" "list_all (\<lambda>r. WarningScanId r = scanId) new"
      "list_all (\<lambda>r. \<forall>q \<in> set (WarningRows ?w). WarningRowId q < WarningRowId r) new" by blast
    have t: "take (1000 - k) (x # ws) = x # take (1000 - (k + 1)) ws" 
    proof -
      have "1000 - k = Suc (1000 - (k + 1))" using False Cons.prems(2) by linarith
      then show ?thesis by simp
    qed
    have "WarningRowId q < next_warning_id (WarningRows w)" if "q \<in> set (WarningRows w)" for q
      unfolding next_warning_id_def by (rule le_imp_less_Suc [THEN ord_less_eq_trans]) (use that in \<open>auto intro: Max_ge\<close>)
    with new t show ?thesis unfolding e by (intro exI [of _ "?r # new"]) (auto simp: list_all_iff)
  qed
qed

section \<open>What is kept\<close>

lemma length_by_key:
  "distinct ss \<Longrightarrow> set (map f xs) \<subseteq> set ss \<Longrightarrow> length xs = sum_list (map (\<lambda>s. length (filter (\<lambda>x. f x = s) xs)) ss)"
proof (induction xs)
  case (Cons x xs)
  have "sum_list (map (\<lambda>s. length (filter (\<lambda>y. f y = s) (x # xs))) ss)
      = sum_list (map (\<lambda>s. (if s = f x then 1 else 0) + length (filter (\<lambda>y. f y = s) xs)) ss)"
    by (rule arg_cong [where f = sum_list], rule map_cong) auto
  also have "\<dots> = sum_list (map (\<lambda>s. if s = f x then 1 else 0) ss) + length xs"
    using Cons by (simp add: sum_list_addf)
  also have "sum_list (map (\<lambda>s. if s = f x then 1 else 0 :: nat) ss) = 1"
  proof -
    have "f x \<in> set ss" using Cons.prems(2) by simp
    with Cons.prems(1) show ?thesis
    proof (induction ss)
      case (Cons s ss)
      then show ?case by (cases "s = f x") (auto simp: sum_list_eq_0_iff)
    qed simp
  qed
  finally show ?case by simp
qed (simp add: sum_list_0)

lemma newest_last:
  assumes "x \<in> set xs" "distinct xs" "\<And>y. y \<in> set xs \<Longrightarrow> y \<noteq> x \<Longrightarrow> key y < (key x :: nat)"
  shows "xs \<noteq> [] \<and> last (List.sort_key key xs) = x"
proof -
  let ?ys = "List.sort_key key xs"
  have ne: "?ys \<noteq> []" using assms(1) by (metis empty_iff empty_set set_sort)
  have s: "sorted (map key ?ys)" by simp
  have "key x \<le> key (last ?ys)"
  proof -
    obtain i where i: "i < length ?ys" "?ys ! i = x" using assms(1) by (metis in_set_conv_nth set_sort)
    have "map key ?ys ! i \<le> map key ?ys ! (length ?ys - 1)" by (rule sorted_nth_mono [OF s]) (use i(1) in auto)
    then show ?thesis using i ne by (simp add: last_conv_nth)
  qed
  moreover have "last ?ys \<in> set xs" using last_in_set [OF ne] by simp
  ultimately have "last ?ys = x" using assms(3) [of "last ?ys"] by fastforce
  then show ?thesis using assms(1) by auto
qed

lemma newest_is_kept:
  assumes "r \<in> set rows" "\<And>q. q \<in> set rows \<Longrightarrow> WarningScanId q \<noteq> WarningScanId r \<Longrightarrow> WarningRowId q < WarningRowId r"
  shows "WarningScanId r \<in> set (newest_scans rows)"
proof -
  let ?ss = "remdups (map WarningScanId rows)"
  have "newest_id rows s < newest_id rows (WarningScanId r)" if s: "s \<in> set ?ss" "s \<noteq> WarningScanId r" for s
  proof -
    have "newest_id rows s \<in> set (0 # map WarningRowId (of_scan s rows))" unfolding newest_id_def by (rule Max_in) simp_all
    moreover obtain q where "q \<in> set rows" "WarningScanId q = s" using s(1) by auto
    then have "0 < WarningRowId r" using assms(2) s(2) by fastforce
    ultimately have "newest_id rows s < WarningRowId r" using assms(2) s(2) by auto
    also have "WarningRowId r \<le> newest_id rows (WarningScanId r)" unfolding newest_id_def using assms(1) by (intro Max_ge) auto
    finally show ?thesis .
  qed
  then have l: "?ss \<noteq> [] \<and> last (List.sort_key (newest_id rows) ?ss) = WarningScanId r"
    using assms(1) by (intro newest_last) auto
  then have ne: "List.sort_key (newest_id rows) ?ss \<noteq> []" by (metis set_empty set_sort)
  have "take 10 (rev ys) = last ys # take 9 (rev (butlast ys))" if "ys \<noteq> []" for ys :: "string list"
    using that by (cases ys rule: rev_cases) simp_all
  from this [OF ne] l show ?thesis unfolding newest_scans_def by simp
qed

definition warnings_ok :: "warning_row list \<Rightarrow> bool" where
  "warnings_ok rows \<longleftrightarrow> list_all (\<lambda>r. length (of_scan (WarningScanId r) rows) \<le> 1000) rows"

lemma pruned_of_scan: "s \<in> set (newest_scans rows) \<Longrightarrow> of_scan s (PrunePersistedWarnings rows) = of_scan s rows"
  unfolding PrunePersistedWarnings_def filter_filter by (rule filter_cong) auto

lemma pruned_length: "warnings_ok rows \<Longrightarrow> length (PrunePersistedWarnings rows) \<le> 10000"
proof -
  assume ok: "warnings_ok rows"
  let ?ss = "newest_scans rows"
  have sub: "set ?ss \<subseteq> WarningScanId ` set rows" unfolding newest_scans_def using set_take_subset by fastforce
  have d: "distinct ?ss" by (simp add: newest_scans_def)
  have "length (of_scan s (PrunePersistedWarnings rows)) \<le> 1000" if "s \<in> set ?ss" for s
  proof -
    obtain r where "r \<in> set rows" "WarningScanId r = s" using sub \<open>s \<in> set ?ss\<close> by auto
    then have "length (of_scan s rows) \<le> 1000" using ok by (auto simp: warnings_ok_def list_all_iff)
    moreover have "of_scan s (PrunePersistedWarnings rows) = of_scan s rows"
      using \<open>s \<in> set ?ss\<close> by (rule pruned_of_scan)
    ultimately show ?thesis by simp
  qed
  then have "sum_list (map (\<lambda>s. length (of_scan s (PrunePersistedWarnings rows))) ?ss) \<le> sum_list (map (\<lambda>_. 1000) ?ss)"
    by (rule sum_list_mono)
  also have "\<dots> \<le> 10 * 1000" by (simp add: sum_list_triv newest_scans_def)
  finally have "sum_list (map (\<lambda>s. length (of_scan s (PrunePersistedWarnings rows))) ?ss) \<le> 10000" by simp
  moreover have "set (map WarningScanId (PrunePersistedWarnings rows)) \<subseteq> set ?ss" by (auto simp: PrunePersistedWarnings_def)
  from length_by_key [OF d this] have "length (PrunePersistedWarnings rows) =
    sum_list (map (\<lambda>s. length (of_scan s (PrunePersistedWarnings rows))) ?ss)" .
  ultimately show ?thesis by simp
qed

lemma pruned_ok: "warnings_ok rows \<Longrightarrow> warnings_ok (PrunePersistedWarnings rows)"
proof (unfold warnings_ok_def list_all_iff, intro ballI)
  fix r assume ok: "\<forall>r \<in> set rows. length (of_scan (WarningScanId r) rows) \<le> 1000" and r: "r \<in> set (PrunePersistedWarnings rows)"
  have "length (of_scan (WarningScanId r) (PrunePersistedWarnings rows)) \<le> length (of_scan (WarningScanId r) rows)"
    by (simp add: PrunePersistedWarnings_def filter_filter conj_commute) (simp add: length_filter_le flip: filter_filter)
  moreover have "r \<in> set rows" using r by (simp add: PrunePersistedWarnings_def)
  ultimately show "length (of_scan (WarningScanId r) (PrunePersistedWarnings rows)) \<le> 1000" using ok by (meson le_trans)
qed

text \<open>C18: the catalog keeps the warnings of at most ten scans, at most ten thousand in all; a scan that commits finds its own
  first thousand there, in their order.\<close>

theorem persisted_warnings_bounded:
  assumes "warnings_ok rows" "scanId \<notin> set (map WarningScanId rows)"
  shows "map (\<lambda>r. (WarningOf r, WarningCreatedAt r)) (of_scan scanId (persist_warnings scanId ws rows)) = take 1000 ws
    \<and> length (persist_warnings scanId ws rows) \<le> 10000 \<and> card (set (map WarningScanId (persist_warnings scanId ws rows))) \<le> 10
    \<and> warnings_ok (persist_warnings scanId ws rows)"
proof -
  let ?w = "\<lparr>WarningRows = rows, PersistedWarningCount = 0\<rparr>"
  obtain new where new: "WarningRows (fold (WriteWarning scanId) ws ?w) = rows @ new"
    "map (\<lambda>r. (WarningOf r, WarningCreatedAt r)) new = take 1000 ws" "list_all (\<lambda>r. WarningScanId r = scanId) new"
    "list_all (\<lambda>r. \<forall>q \<in> set rows. WarningRowId q < WarningRowId r) new"
    using write_warnings [of ?w 0 scanId ws] by auto
  let ?all = "rows @ new"
  have e: "persist_warnings scanId ws rows = PrunePersistedWarnings ?all" by (simp add: persist_warnings_def new(1))
  have own: "of_scan scanId ?all = new"
  proof -
    have "of_scan scanId rows = []" using assms(2) by (auto simp: filter_empty_conv)
    moreover have "of_scan scanId new = new" using new(3) by (simp add: list_all_iff filter_id_conv)
    ultimately show ?thesis by simp
  qed
  have "length new = length (take 1000 ws)" using new(2) by (metis length_map)
  then have ln: "length new \<le> 1000" by simp
  have ok: "warnings_ok ?all"
    unfolding warnings_ok_def list_all_iff
  proof (intro ballI)
    fix r assume r: "r \<in> set ?all"
    show "length (of_scan (WarningScanId r) ?all) \<le> 1000"
    proof (cases "WarningScanId r = scanId")
      case True
      then show ?thesis using own ln by simp
    next
      case False
      then have "of_scan (WarningScanId r) new = []" "r \<in> set rows" using new(3) r by (auto simp: list_all_iff filter_empty_conv)
      then show ?thesis using assms(1) by (auto simp: warnings_ok_def list_all_iff)
    qed
  qed
  have "of_scan scanId (PrunePersistedWarnings ?all) = new"
  proof (cases new)
    case Nil
    then show ?thesis using own by (auto simp: PrunePersistedWarnings_def filter_empty_conv)
  next
    case (Cons r rs)
    have "WarningRowId q < WarningRowId r" if "q \<in> set ?all" "WarningScanId q \<noteq> WarningScanId r" for q
      using that new(3,4) Cons by (auto simp: list_all_iff)
    then have "WarningScanId r \<in> set (newest_scans ?all)" using Cons by (intro newest_is_kept) auto
    moreover have "WarningScanId r = scanId" using new(3) Cons by simp
    ultimately have "of_scan scanId (PrunePersistedWarnings ?all) = of_scan scanId ?all" by (intro pruned_of_scan) simp
    then show ?thesis using own by simp
  qed
  moreover have "set (map WarningScanId (PrunePersistedWarnings ?all)) \<subseteq> set (newest_scans ?all)" by (auto simp: PrunePersistedWarnings_def)
  then have "card (set (map WarningScanId (PrunePersistedWarnings ?all))) \<le> card (set (newest_scans ?all))" by (intro card_mono) simp_all
  then have "card (set (map WarningScanId (PrunePersistedWarnings ?all))) \<le> 10"
    using card_length [of "newest_scans ?all"] by (simp add: newest_scans_def)
  ultimately show ?thesis unfolding e using new(2) pruned_length [OF ok] pruned_ok [OF ok] by simp
qed

theorem persisted_warnings_bounded_witness:
  "let w = \<lparr>WarningCode = ''c'', WarningArchive = None, WarningEntry = None, WarningMessage = ''m''\<rparr> in
    map WarningOf (of_scan ''s'' (persist_warnings ''s'' [(w, ''t''), (w, ''u'')] [])) = [w, w]"
proof -
  let ?w = "\<lparr>WarningCode = ''c'', WarningArchive = None, WarningEntry = None, WarningMessage = ''m''\<rparr>"
  have "warnings_ok []" "''s'' \<notin> set (map WarningScanId [])" by (simp_all add: warnings_ok_def)
  from persisted_warnings_bounded [OF this, of "[(?w, ''t''), (?w, ''u'')]"]
  have "map (\<lambda>r. (WarningOf r, WarningCreatedAt r)) (of_scan ''s'' (persist_warnings ''s'' [(?w, ''t''), (?w, ''u'')] []))
    = [(?w, ''t''), (?w, ''u'')]" by simp
  from arg_cong [OF this, of "map fst"] show ?thesis by (simp add: comp_def Let_def)
qed

end
