(* ===== verification/Fb2_Text.thy ===== *)
theory Fb2_Text
  imports Legacy_Cyrillic Inpx_Split Unicode_Trim Base64_Url
begin

text \<open>
  The text half of \<open>libs/Parsing/Fb2Parser.cpp\<close>: the encoding declaration of an XML file, decoding the bytes of a book
  to UTF-8, the previews of diagnostics, and base64 with the checks on its padding. The checkpoints of a cancellation
  are left out; \<open>iconv\<close> is the argument \<open>convert_text\<close>, as in \<open>Legacy_Cyrillic\<close>.
\<close>

section \<open>The encoding declaration\<close>

definition isspace :: "char \<Rightarrow> bool" where
  "isspace c \<longleftrightarrow> byte_of c = 32 \<or> 9 \<le> byte_of c \<and> byte_of c \<le> 13"

datatype EDeclaredXmlEncoding = EncodingUnknown | EncodingUtf8 | EncodingWindows1251 | EncodingCp866
  | EncodingUtf16LittleEndian | EncodingUtf16BigEndian | EncodingUtf16

record SXmlEncodingDeclaration =
  DeclaredEncoding :: EDeclaredXmlEncoding
  ValueOffset :: nat
  ValueLength :: nat

definition encoding_aliases :: "(string \<times> EDeclaredXmlEncoding) list" where
  "encoding_aliases =
    [(''utf-8'', EncodingUtf8), (''windows-1251'', EncodingWindows1251), (''cp1251'', EncodingWindows1251),
     (''cp866'', EncodingCp866), (''ibm866'', EncodingCp866), (''utf-16le'', EncodingUtf16LittleEndian),
     (''utf-16be'', EncodingUtf16BigEndian), (''utf-16'', EncodingUtf16)]"

definition ParseEncodingName :: "string \<Rightarrow> EDeclaredXmlEncoding" where
  "ParseEncodingName s = (case map_of encoding_aliases s of None \<Rightarrow> EncodingUnknown | Some encoding \<Rightarrow> encoding)"

text \<open>\<open>find\<close> of a text from a position on, and of a character.\<close>

fun find_rest :: "string \<Rightarrow> string \<Rightarrow> nat \<Rightarrow> nat option" where
  "find_rest needle [] i = (if needle = [] then Some i else None)"
| "find_rest needle (c # s) i = (if take (length needle) (c # s) = needle then Some i else find_rest needle s (Suc i))"

definition find_from :: "string \<Rightarrow> string \<Rightarrow> nat \<Rightarrow> nat option" where
  "find_from text needle start = (if start > length text then None else find_rest needle (drop start text) start)"

definition skip_whitespace :: "string \<Rightarrow> nat \<Rightarrow> nat" where
  "skip_whitespace s offset = offset + length (takeWhile isspace (drop offset s))"

definition TryParseEncodingDeclaration :: "string \<Rightarrow> SXmlEncodingDeclaration option" where
  "TryParseEncodingDeclaration text =
    (case find_from text ''?>'' 0 of None \<Rightarrow> None | Some declarationEnd \<Rightarrow>
     let lower = ToLowerAscii (take declarationEnd text) in
     case find_from lower ''encoding'' 0 of None \<Rightarrow> None | Some found \<Rightarrow>
     let position = skip_whitespace lower (found + 8) in
     if position \<ge> declarationEnd \<or> lower ! position \<noteq> CHR ''='' then None
     else let position2 = skip_whitespace lower (position + 1) in
     if position2 \<ge> declarationEnd \<or> lower ! position2 \<noteq> CHR 0x27 \<and> lower ! position2 \<noteq> CHR 0x22 then None
     else case find_from lower [lower ! position2] (position2 + 1) of None \<Rightarrow> None | Some valueEnd \<Rightarrow>
     if valueEnd > declarationEnd then None
     else Some \<lparr>DeclaredEncoding = ParseEncodingName (substr lower (position2 + 1) (valueEnd - (position2 + 1))),
                ValueOffset = position2 + 1, ValueLength = valueEnd - (position2 + 1)\<rparr>)"

definition ReplaceEncodingDeclaration :: "string \<Rightarrow> string" where
  "ReplaceEncodingDeclaration text =
    (case TryParseEncodingDeclaration text of
       Some declaration \<Rightarrow>
         if DeclaredEncoding declaration \<noteq> EncodingUnknown
         then take (ValueOffset declaration) text @ ''utf-8'' @ drop (ValueOffset declaration + ValueLength declaration) text
         else text
     | None \<Rightarrow> text)"

section \<open>Decoding a book\<close>

text \<open>The result is the text and the number of parser warnings.\<close>

definition decode_windows1251 :: "convert \<Rightarrow> string \<Rightarrow> nat \<Rightarrow> string \<times> nat" where
  "decode_windows1251 convert_text rawBytes warnings =
    (case CodePageToUtf8 convert_text rawBytes 1251 ''Failed to decode FB2 file from windows-1251.'' of
       Inr text \<Rightarrow> (ReplaceEncodingDeclaration text, warnings)
     | Inl _ \<Rightarrow> (ReplaceEncodingDeclaration (Windows1251ToUtf8Lossy rawBytes), warnings + 1))"

definition decode_undeclared :: "convert \<Rightarrow> string \<Rightarrow> nat \<Rightarrow> text_error + string \<times> nat" where
  "decode_undeclared convert_text rawBytes warnings =
    (if IsValidUtf8 rawBytes then Inr (rawBytes, warnings)
     else case TryTrimTrailingIncompleteUtf8 rawBytes of
       Some trimmedText \<Rightarrow> Inr (trimmedText, warnings + 1)
     | None \<Rightarrow>
         (case DecodeLegacyCyrillicToUtf8 convert_text rawBytes ''Failed to decode misdeclared FB2 file from CP1251 or CP866.'' of
            Inl e \<Rightarrow> Inl e
          | Inr text \<Rightarrow> Inr (ReplaceEncodingDeclaration text, warnings + 1)))"

definition strip_bom :: "string \<Rightarrow> string" where
  "strip_bom rawBytes =
    (if length rawBytes \<ge> 3 \<and> byte_of (rawBytes ! 0) = 0xEF \<and> byte_of (rawBytes ! 1) = 0xBB \<and> byte_of (rawBytes ! 2) = 0xBF
     then drop 3 rawBytes else rawBytes)"

definition starts_with_bytes :: "string \<Rightarrow> nat \<Rightarrow> nat \<Rightarrow> bool" where
  "starts_with_bytes s a b \<longleftrightarrow> length s \<ge> 2 \<and> byte_of (s ! 0) = a \<and> byte_of (s ! 1) = b"

definition replaced :: "nat \<Rightarrow> text_error + string \<Rightarrow> text_error + string \<times> nat" where
  "replaced warnings r = (case r of Inl e \<Rightarrow> Inl e | Inr text \<Rightarrow> Inr (ReplaceEncodingDeclaration text, warnings))"

definition DecodeFb2Text :: "convert \<Rightarrow> string \<Rightarrow> nat \<Rightarrow> text_error + string \<times> nat" where
  "DecodeFb2Text convert_text original warnings =
    (let rawBytes = strip_bom original in
     if starts_with_bytes rawBytes 0xFF 0xFE then replaced warnings (Utf16LeToUtf8 convert_text rawBytes)
     else if starts_with_bytes rawBytes 0xFE 0xFF then replaced warnings (Utf16BeToUtf8 convert_text rawBytes)
     else case map_option DeclaredEncoding (TryParseEncodingDeclaration (take (min (length rawBytes) 512) rawBytes)) of
       Some EncodingWindows1251 \<Rightarrow> Inr (decode_windows1251 convert_text rawBytes warnings)
     | Some EncodingCp866 \<Rightarrow> replaced warnings (CodePageToUtf8 convert_text rawBytes 866 ''Failed to decode FB2 file from CP866.'')
     | _ \<Rightarrow> decode_undeclared convert_text rawBytes warnings)"

section \<open>Previews\<close>

definition GDiagnosticPreviewMaxBytes :: nat where "GDiagnosticPreviewMaxBytes = 320"

definition sequence_length :: "nat \<Rightarrow> nat option" where
  "sequence_length lead =
    (if lead AND 0x80 = 0 then Some 1 else if lead AND 0xE0 = 0xC0 then Some 2
     else if lead AND 0xF0 = 0xE0 then Some 3 else if lead AND 0xF8 = 0xF0 then Some 4 else None)"

lemma sequence_length_pos: "sequence_length b = Some n \<Longrightarrow> 0 < n \<and> n \<le> 4"
  by (auto simp: sequence_length_def split: if_splits)

function truncate_loop :: "string \<Rightarrow> nat \<Rightarrow> nat \<Rightarrow> nat" where
  "truncate_loop s maxBytes i =
    (if i < length s \<and> i < maxBytes then
       (case sequence_length (byte_of (s ! i)) of
          None \<Rightarrow> i
        | Some n \<Rightarrow>
            if i + n > length s \<or> i + n > maxBytes then i
            else if \<not> list_all (\<lambda>offset. byte_of (s ! (i + offset)) AND 0xC0 = 0x80) [1..<n] then i
            else truncate_loop s maxBytes (i + n))
     else i)"
  by pat_completeness auto
termination
  by (relation "measure (\<lambda>(s, _, i). length s - i)") (auto dest!: sequence_length_pos)

declare truncate_loop.simps [simp del]

text \<open>\<open>lastValidEnd\<close> is always the index of the loop.\<close>

definition TruncateUtf8 :: "string \<Rightarrow> nat \<Rightarrow> string" where
  "TruncateUtf8 s maxBytes = (if length s \<le> maxBytes then s else take (truncate_loop s maxBytes 0) s)"

text \<open>\<open>CCompactPreviewBuilder\<close>: the text and whether white space is pending; \<open>Append\<close> stops where the text is too long.\<close>

fun preview_append :: "string \<Rightarrow> string \<Rightarrow> bool \<Rightarrow> string" where
  "preview_append [] text pending = text"
| "preview_append (c # rest) text pending =
    (if isspace c then preview_append rest text (text \<noteq> [])
     else let text1 = (if pending then text @ '' '' else text) in
       if pending \<and> length text1 > GDiagnosticPreviewMaxBytes then text1
       else if length (text1 @ [c]) > GDiagnosticPreviewMaxBytes then text1 @ [c]
       else preview_append rest (text1 @ [c]) False)"

definition preview_finish :: "string \<Rightarrow> string" where
  "preview_finish text =
    (if text = [] then ''<empty>'' else if length text \<le> GDiagnosticPreviewMaxBytes then text
     else TruncateUtf8 text GDiagnosticPreviewMaxBytes @ ''...'')"

definition CompactPreview :: "string \<Rightarrow> string" where
  "CompactPreview text = preview_finish (preview_append text [] False)"

section \<open>Base64\<close>

definition DecodeBase64Character :: "char \<Rightarrow> nat option" where
  "DecodeBase64Character c =
    (let b = byte_of c in
     if 65 \<le> b \<and> b \<le> 90 then Some (b - 65)
     else if 97 \<le> b \<and> b \<le> 122 then Some (b - 97 + 26)
     else if 48 \<le> b \<and> b \<le> 57 then Some (b - 48 + 52)
     else if c = CHR ''+'' then Some 62
     else if c = CHR ''/'' then Some 63
     else None)"

definition base64_error :: "string \<Rightarrow> text_error + 'a" where
  "base64_error what = Inl (TextRuntimeError (''Invalid base64 '' @ what @ '' in FB2 binary data.''))"

definition padded_character :: "char \<Rightarrow> nat option" where
  "padded_character c = (if c = CHR ''='' then Some 0 else DecodeBase64Character c)"

text \<open>The size is a multiple of four when the loop is entered, so the last equation is never used.\<close>

fun decode_blocks :: "string \<Rightarrow> string \<Rightarrow> text_error + string" where
  "decode_blocks [] bytes = Inr bytes"
| "decode_blocks (a # b # c # d # rest) bytes =
    (case (DecodeBase64Character a, DecodeBase64Character b, padded_character c, padded_character d) of
       (Some aValue, Some bValue, Some cValue, Some dValue) \<Rightarrow>
         if c = CHR ''='' \<and> bValue AND 0x0F \<noteq> 0 \<or> d = CHR ''='' \<and> c \<noteq> CHR ''='' \<and> cValue AND 0x03 \<noteq> 0
         then base64_error ''padding bits''
         else let block = push_bit 18 aValue OR push_bit 12 bValue OR push_bit 6 cValue OR dValue in
           decode_blocks rest (bytes @ [chr_of (drop_bit 16 block AND 0xFF)]
             @ (if c \<noteq> CHR ''='' then [chr_of (drop_bit 8 block AND 0xFF)] else [])
             @ (if d \<noteq> CHR ''='' then [chr_of (block AND 0xFF)] else []))
     | _ \<Rightarrow> base64_error ''character'')"
| "decode_blocks _ bytes = Inr bytes"

definition padding_count :: "string \<Rightarrow> nat" where
  "padding_count s =
    (if last s = CHR ''='' then (if s ! (length s - 2) = CHR ''='' then 2 else 1) else 0)"

definition DecodeBase64 :: "string \<Rightarrow> text_error + string" where
  "DecodeBase64 encodedValue =
    (let sanitized = filter (\<lambda>c. \<not> isspace c) encodedValue in
     if sanitized = [] then Inr []
     else if length sanitized mod 4 \<noteq> 0 then base64_error ''length''
     else case find_char CHR ''='' sanitized of
       Some firstPadding \<Rightarrow>
         if firstPadding \<noteq> length sanitized - padding_count sanitized then base64_error ''padding''
         else decode_blocks sanitized []
     | None \<Rightarrow> decode_blocks sanitized [])"

end
