(* ===== verification/Fb2_Scanner.thy ===== *)
theory Fb2_Scanner
  imports Fb2_Text
begin

text \<open>
  The scanner of \<open>libs/Parsing/Fb2Parser.cpp\<close>: it finds the tags of an XML text by their local names, skipping comments,
  CDATA sections, processing instructions and declarations, cuts out the metadata of a book (the root tag and the
  description), and measures it before it is given to the XML library. \<open>npos\<close> is \<open>None\<close>.
\<close>

section \<open>Ends\<close>

definition MatchesLocalName :: "string \<Rightarrow> string \<Rightarrow> bool" where
  "MatchesLocalName qualifiedName localName \<longleftrightarrow>
    (case find_char CHR '':'' qualifiedName of None \<Rightarrow> qualifiedName | Some i \<Rightarrow> drop (Suc i) qualifiedName) = localName"

definition IsXmlNameChar :: "char \<Rightarrow> bool" where
  "IsXmlNameChar c \<longleftrightarrow>
    (let b = byte_of c in 48 \<le> b \<and> b \<le> 57 \<or> 65 \<le> b \<and> b \<le> 90 \<or> 97 \<le> b \<and> b \<le> 122)
    \<or> c = CHR ''_'' \<or> c = CHR ''-'' \<or> c = CHR ''.'' \<or> c = CHR '':''"

definition FindText :: "string \<Rightarrow> string \<Rightarrow> nat \<Rightarrow> nat option" where
  "FindText text needle startOffset =
    (if needle = [] then Some (min startOffset (length text))
     else if startOffset > length text \<or> length needle > length text - startOffset then None
     else find_rest needle (drop startOffset text) startOffset)"

text \<open>The loops over the characters from \<open>index\<close> on: whether a single or a double quoted value is open, and the depth
  of brackets.\<close>

fun declaration_end_loop :: "string \<Rightarrow> nat \<Rightarrow> bool \<Rightarrow> bool \<Rightarrow> nat \<Rightarrow> nat option" where
  "declaration_end_loop [] i single double depth = None"
| "declaration_end_loop (c # s) i single double depth =
    (if c = CHR 0x27 \<and> \<not> double then declaration_end_loop s (Suc i) (\<not> single) double depth
     else if c = CHR 0x22 \<and> \<not> single then declaration_end_loop s (Suc i) single (\<not> double) depth
     else if single \<or> double then declaration_end_loop s (Suc i) single double depth
     else if c = CHR ''['' then declaration_end_loop s (Suc i) single double (depth + 1)
     else if c = CHR '']'' \<and> depth > 0 then declaration_end_loop s (Suc i) single double (depth - 1)
     else if c = CHR ''>'' \<and> depth = 0 then Some (i + 1)
     else declaration_end_loop s (Suc i) single double depth)"

definition FindXmlDeclarationEnd :: "string \<Rightarrow> nat \<Rightarrow> nat option" where
  "FindXmlDeclarationEnd text startOffset = declaration_end_loop (drop startOffset text) startOffset False False 0"

fun tag_end_loop :: "string \<Rightarrow> nat \<Rightarrow> bool \<Rightarrow> bool \<Rightarrow> nat option" where
  "tag_end_loop [] i single double = None"
| "tag_end_loop (c # s) i single double =
    (if c = CHR 0x27 \<and> \<not> double then tag_end_loop s (Suc i) (\<not> single) double
     else if c = CHR 0x22 \<and> \<not> single then tag_end_loop s (Suc i) single (\<not> double)
     else if c = CHR ''>'' \<and> \<not> single \<and> \<not> double then Some i
     else tag_end_loop s (Suc i) single double)"

definition FindXmlTagEnd :: "string \<Rightarrow> nat \<Rightarrow> nat option" where
  "FindXmlTagEnd text startOffset = tag_end_loop (drop startOffset text) startOffset False False"

section \<open>Tags\<close>

record SXmlTagRange =
  TagStart :: nat
  NameStart :: nat
  NameEnd :: nat
  TagEnd :: nat

text \<open>What is skipped at a \<open><\<close> that starts no tag: a piece of markup up to its end, nothing, or a piece without an end.\<close>

datatype markup = SkipTo nat | NotMarkup | Unterminated

definition skip_past :: "nat option \<Rightarrow> nat \<Rightarrow> markup" where
  "skip_past found n = (case found of None \<Rightarrow> Unterminated | Some i \<Rightarrow> SkipTo (i + n))"

definition skip_markup :: "string \<Rightarrow> nat \<Rightarrow> markup" where
  "skip_markup text tagStart =
    (if substr text tagStart 4 = ''<!--'' then skip_past (FindText text ''-->'' (tagStart + 4)) 3
     else if substr text tagStart 9 = ''<![CDATA['' then skip_past (FindText text '']]>'' (tagStart + 9)) 3
     else if substr text tagStart 2 = ''<?'' then skip_past (FindText text ''?>'' (tagStart + 2)) 2
     else if substr text tagStart 2 = ''<!'' then skip_past (FindXmlDeclarationEnd text (tagStart + 2)) 0
     else NotMarkup)"

definition name_end :: "string \<Rightarrow> nat \<Rightarrow> nat" where
  "name_end text nameStart = nameStart + length (takeWhile IsXmlNameChar (drop nameStart text))"

definition wrong_name :: "string option \<Rightarrow> string \<Rightarrow> bool" where
  "wrong_name localName qualifiedName =
    (case localName of None \<Rightarrow> False | Some n \<Rightarrow> \<not> MatchesLocalName qualifiedName n)"

definition wrong_marker :: "bool \<Rightarrow> char \<Rightarrow> bool" where
  "wrong_marker closingTag marker \<longleftrightarrow>
    \<not> closingTag \<and> (marker = CHR ''/'' \<or> marker = CHR ''?'' \<or> marker = CHR ''!'') \<or> closingTag \<and> marker \<noteq> CHR ''/''"

text \<open>The tag at a \<open><\<close>: None where it has no name or another one, \<open>Some None\<close> where it does not end.\<close>

definition tag_at :: "string \<Rightarrow> bool \<Rightarrow> string option \<Rightarrow> nat \<Rightarrow> SXmlTagRange option option" where
  "tag_at text closingTag localName tagStart =
    (let nameStart = tagStart + (if closingTag then 2 else 1); nameEnd = name_end text nameStart in
     if nameEnd = nameStart then None
     else if wrong_name localName (substr text nameStart (nameEnd - nameStart)) then None
     else Some (map_option (\<lambda>tagEnd. \<lparr>TagStart = tagStart, NameStart = nameStart, NameEnd = nameEnd, TagEnd = tagEnd\<rparr>)
       (FindXmlTagEnd text nameEnd)))"

lemma FindText_Some:
  "FindText text needle start = Some i \<Longrightarrow> needle \<noteq> [] \<Longrightarrow> start \<le> i \<and> i < length text"
proof -
  have r: "find_rest n s j = Some i \<Longrightarrow> n \<noteq> [] \<Longrightarrow> j \<le> i \<and> i < j + length s" for n s j
    by (induction n s j rule: find_rest.induct) (auto split: if_splits)
  show "FindText text needle start = Some i \<Longrightarrow> needle \<noteq> [] \<Longrightarrow> ?thesis"
    using r [of needle "drop start text" start] by (auto simp: FindText_def split: if_splits)
qed

lemma FindText_lt: "FindText text ''<'' start = Some i \<Longrightarrow> start \<le> i \<and> i < length text \<and> text ! i = CHR ''<''"
proof -
  have r: "find_rest ''<'' s j = Some i \<Longrightarrow> j \<le> i \<and> i < j + length s \<and> s ! (i - j) = CHR ''<''" for s j
  proof (induction "''<''" s j rule: find_rest.induct)
    case (2 c s j)
    have n: "Suc j \<le> i \<Longrightarrow> (c # s) ! (i - j) = s ! (i - Suc j)" by (simp add: nth_Cons' Suc_diff_le diff_Suc split: nat.splits)
    show ?case using 2 n by (auto split: if_splits)
  qed simp
  assume f: "FindText text ''<'' start = Some i"
  then have "start \<le> length text" "find_rest ''<'' (drop start text) start = Some i" by (auto simp: FindText_def split: if_splits)
  from r [OF this(2)] this(1) show ?thesis by auto
qed

lemma declaration_end_loop_Some: "declaration_end_loop s i single double depth = Some e \<Longrightarrow> i < e \<and> e \<le> i + length s"
  by (induction s i single double depth rule: declaration_end_loop.induct) (auto split: if_splits)

lemma tag_end_loop_Some: "tag_end_loop s i single double = Some e \<Longrightarrow> i \<le> e \<and> e < i + length s \<and> s ! (e - i) = CHR ''>''"
proof (induction s i single double rule: tag_end_loop.induct)
  case (2 c s i single double)
  have n: "Suc i \<le> e \<Longrightarrow> (c # s) ! (e - i) = s ! (e - Suc i)" by (simp add: nth_Cons' Suc_diff_le diff_Suc split: nat.splits)
  show ?case using 2 n by (auto split: if_splits)
qed simp

lemma skip_markup_SkipTo: "skip_markup text i = SkipTo j \<Longrightarrow> i < j"
proof -
  assume a: "skip_markup text i = SkipTo j"
  have t: "FindText text needle k = Some m \<Longrightarrow> needle \<noteq> [] \<Longrightarrow> k \<le> m" for needle k m using FindText_Some by blast
  have d: "FindXmlDeclarationEnd text k = Some m \<Longrightarrow> k < m" for k m
    using declaration_end_loop_Some by (auto simp: FindXmlDeclarationEnd_def)
  show ?thesis
    using a t [of "''-->''" "i + 4"] t [of "'']]>''" "i + 9"] t [of "''?>''" "i + 2"] d [of "i + 2"]
    by (auto simp: skip_markup_def skip_past_def split: if_splits option.splits)
qed

function tag_loop :: "string \<Rightarrow> bool \<Rightarrow> string option \<Rightarrow> nat \<Rightarrow> SXmlTagRange option" where
  "tag_loop text closingTag localName current =
    (if current < length text then
       (case FindText text ''<'' current of
          None \<Rightarrow> None
        | Some tagStart \<Rightarrow>
            if tagStart + 1 \<ge> length text then None
            else (case skip_markup text tagStart of
              Unterminated \<Rightarrow> None
            | SkipTo next \<Rightarrow> tag_loop text closingTag localName next
            | NotMarkup \<Rightarrow>
                if wrong_marker closingTag (text ! (tagStart + 1)) then tag_loop text closingTag localName (tagStart + 1)
                else (case tag_at text closingTag localName tagStart of
                    None \<Rightarrow> tag_loop text closingTag localName (tagStart + 1)
                  | Some found \<Rightarrow> found)))
     else None)"
  by pat_completeness auto
termination
  by (relation "measure (\<lambda>(text, _, _, current). length text - current)")
    (auto dest!: FindText_lt skip_markup_SkipTo)

declare tag_loop.simps [simp del]

definition FindNextTagRange :: "string \<Rightarrow> nat \<Rightarrow> bool \<Rightarrow> string option \<Rightarrow> SXmlTagRange option" where
  "FindNextTagRange text startOffset closingTag localName = tag_loop text closingTag localName startOffset"

section \<open>The description of a book\<close>

record SDescriptionRange =
  RootOpenTag :: SXmlTagRange
  DescriptionOpenTag :: SXmlTagRange
  DescriptionCloseTag :: SXmlTagRange

definition FindDescriptionRange :: "string \<Rightarrow> SDescriptionRange option" where
  "FindDescriptionRange text =
    (case FindNextTagRange text 0 False (Some ''FictionBook'') of None \<Rightarrow> None | Some rootOpenTag \<Rightarrow>
     case FindNextTagRange text (TagEnd rootOpenTag + 1) False (Some ''description'') of None \<Rightarrow> None | Some descOpenTag \<Rightarrow>
     case FindNextTagRange text (TagEnd descOpenTag + 1) True (Some ''description'') of None \<Rightarrow> None | Some descCloseTag \<Rightarrow>
       Some \<lparr>RootOpenTag = rootOpenTag, DescriptionOpenTag = descOpenTag, DescriptionCloseTag = descCloseTag\<rparr>)"

definition root_open_text :: "string \<Rightarrow> SDescriptionRange \<Rightarrow> string" where
  "root_open_text text tags =
    substr text (TagStart (RootOpenTag tags)) (TagEnd (RootOpenTag tags) - TagStart (RootOpenTag tags) + 1)"

definition description_text :: "string \<Rightarrow> SDescriptionRange \<Rightarrow> string" where
  "description_text text tags = substr text (TagStart (DescriptionOpenTag tags))
    (TagEnd (DescriptionCloseTag tags) - TagStart (DescriptionOpenTag tags) + 1)"

definition BuildDescriptionXml :: "string \<Rightarrow> SDescriptionRange \<Rightarrow> string" where
  "BuildDescriptionXml text tags =
    root_open_text text tags @ description_text text tags @ ''</''
    @ substr text (NameStart (RootOpenTag tags)) (NameEnd (RootOpenTag tags) - NameStart (RootOpenTag tags)) @ ''>''"

section \<open>The shape of the metadata\<close>

record SMetadataXmlShape =
  ShapeBytes :: nat
  ShapeNodes :: nat
  ShapeAttributes :: nat

definition GMaxFb2MetadataXmlBytes :: nat where "GMaxFb2MetadataXmlBytes = 8 * 1024 * 1024"
definition GMaxFb2MetadataXmlNodes :: nat where "GMaxFb2MetadataXmlNodes = 100000"
definition GMaxFb2MetadataXmlAttributes :: nat where "GMaxFb2MetadataXmlAttributes = 200000"

fun shape_loop :: "string \<Rightarrow> bool \<Rightarrow> char option \<Rightarrow> SMetadataXmlShape \<Rightarrow> SMetadataXmlShape" where
  "shape_loop [] insideTag quote shape = shape"
| "shape_loop (c # s) insideTag quote shape =
    (if \<not> insideTag then
       (if c = CHR ''<'' then shape_loop s True quote (shape\<lparr>ShapeNodes := ShapeNodes shape + 1\<rparr>)
        else shape_loop s insideTag quote shape)
     else case quote of
       Some q \<Rightarrow> shape_loop s insideTag (if c = q then None else quote) shape
     | None \<Rightarrow>
         if c = CHR 0x27 \<or> c = CHR 0x22 then shape_loop s insideTag (Some c) shape
         else if c = CHR ''='' then shape_loop s insideTag quote (shape\<lparr>ShapeAttributes := ShapeAttributes shape + 1\<rparr>)
         else shape_loop s (c \<noteq> CHR ''>'') quote shape)"

definition AddXmlFragmentShape :: "string \<Rightarrow> SMetadataXmlShape \<Rightarrow> SMetadataXmlShape" where
  "AddXmlFragmentShape fragment shape =
    shape_loop fragment False None (shape\<lparr>ShapeBytes := ShapeBytes shape + length fragment\<rparr>)"

definition empty_shape :: SMetadataXmlShape where
  "empty_shape = \<lparr>ShapeBytes = 0, ShapeNodes = 0, ShapeAttributes = 0\<rparr>"

definition AnalyzeCatalogXml :: "string \<Rightarrow> SMetadataXmlShape \<times> SDescriptionRange option" where
  "AnalyzeCatalogXml text =
    (case FindDescriptionRange text of
       None \<Rightarrow> (AddXmlFragmentShape text empty_shape, None)
     | Some tags \<Rightarrow>
         let shape = AddXmlFragmentShape (description_text text tags) (AddXmlFragmentShape (root_open_text text tags) empty_shape);
             rootNameBytes = NameEnd (RootOpenTag tags) - NameStart (RootOpenTag tags) in
         (shape\<lparr>ShapeBytes := ShapeBytes shape + (rootNameBytes + 3), ShapeNodes := ShapeNodes shape + 1\<rparr>, Some tags))"

definition shape_error :: "string \<Rightarrow> string \<Rightarrow> text_error + unit" where
  "shape_error sourceLabel what =
    Inl (TextRuntimeError (''FB2 metadata XML from '' @ (if sourceLabel = [] then ''<memory>'' else sourceLabel) @ what))"

definition ValidateMetadataXmlShape :: "SMetadataXmlShape \<Rightarrow> string \<Rightarrow> text_error + unit" where
  "ValidateMetadataXmlShape shape sourceLabel =
    (if ShapeBytes shape > GMaxFb2MetadataXmlBytes
     then shape_error sourceLabel ('' requires '' @ to_string (ShapeBytes shape) @ '' bytes, exceeding the ''
       @ to_string GMaxFb2MetadataXmlBytes @ '' byte metadata limit.'')
     else if ShapeNodes shape > GMaxFb2MetadataXmlNodes
     then shape_error sourceLabel ('' has '' @ to_string (ShapeNodes shape) @ '' structural nodes, exceeding the ''
       @ to_string GMaxFb2MetadataXmlNodes @ '' node limit.'')
     else if ShapeAttributes shape > GMaxFb2MetadataXmlAttributes
     then shape_error sourceLabel ('' has '' @ to_string (ShapeAttributes shape) @ '' attributes, exceeding the ''
       @ to_string GMaxFb2MetadataXmlAttributes @ '' attribute limit.'')
     else Inr ())"

section \<open>Ranges\<close>

text \<open>A tag that is found lies behind the start, within the text, between its brackets, and has a name that matches.\<close>

definition tag_ok :: "string \<Rightarrow> nat \<Rightarrow> string option \<Rightarrow> SXmlTagRange \<Rightarrow> bool" where
  "tag_ok text start localName r \<longleftrightarrow>
    start \<le> TagStart r \<and> TagStart r < NameStart r \<and> NameStart r < NameEnd r \<and> NameEnd r \<le> TagEnd r \<and> TagEnd r < length text
    \<and> text ! TagStart r = CHR ''<'' \<and> text ! TagEnd r = CHR ''>''
    \<and> \<not> wrong_name localName (substr text (NameStart r) (NameEnd r - NameStart r))"

lemma FindXmlTagEnd_Some:
  assumes "FindXmlTagEnd text start = Some e" shows "start \<le> e \<and> e < length text \<and> text ! e = CHR ''>''"
proof -
  have "tag_end_loop (drop start text) start False False = Some e" using assms by (simp add: FindXmlTagEnd_def)
  from tag_end_loop_Some [OF this] have "start \<le> e" "e < start + length (drop start text)" "drop start text ! (e - start) = CHR ''>''"
    by blast+
  then show ?thesis by (cases "start \<le> length text") auto
qed

lemma tag_loop_ok: "tag_loop t closing n start = Some r \<Longrightarrow> tag_ok t start n r"
proof (induction t closing n start rule: tag_loop.induct)
  case (1 t closing n start)
  note rec = "1.prems" [unfolded tag_loop.simps [of t closing n start]]
  obtain i where i: "FindText t ''<'' start = Some i" "start < length t" "i + 1 < length t"
    using rec by (auto split: if_splits option.splits)
  note f = FindText_lt [OF i(1)]
  have up: "tag_ok t j n r \<Longrightarrow> start \<le> j \<Longrightarrow> ?case" for j by (auto simp: tag_ok_def)
  show ?case
  proof (cases "skip_markup t i")
    case (SkipTo j)
    then have "tag_loop t closing n j = Some r" using rec i by simp
    then have "tag_ok t j n r" using "1.IH"(1) [OF i(2,1) _ SkipTo] i(3) by simp
    then show ?thesis using up skip_markup_SkipTo [OF SkipTo] f by (meson le_trans less_imp_le_nat)
  next
    case Unterminated
    then show ?thesis using rec i by simp
  next
    case NotMarkup
    show ?thesis
    proof (cases "wrong_marker closing (t ! (i + 1)) \<or> tag_at t closing n i = None")
      case True
      then have "tag_loop t closing n (i + 1) = Some r" using rec i NotMarkup by (auto split: if_splits)
      moreover have "tag_loop t closing n (i + 1) = Some r \<Longrightarrow> tag_ok t (i + 1) n r"
        using "1.IH"(2,3) [OF i(2,1) _ NotMarkup] i(3) True by auto
      ultimately show ?thesis using up f by (meson le_add1 le_trans)
    next
      case False
      then have "tag_at t closing n i = Some (Some r)" using rec i NotMarkup by auto
      then obtain e s where e: "FindXmlTagEnd t (name_end t s) = Some e" "i < s" "name_end t s \<noteq> s"
        "\<not> wrong_name n (substr t s (name_end t s - s))"
        "r = \<lparr>TagStart = i, NameStart = s, NameEnd = name_end t s, TagEnd = e\<rparr>"
        unfolding tag_at_def Let_def by (cases closing) (auto split: if_splits)
      have "s \<le> name_end t s" by (simp add: name_end_def)
      then show ?thesis using e FindXmlTagEnd_Some [OF e(1)] f by (auto simp: tag_ok_def)
    qed
  qed
qed

lemma FindNextTagRange_ok: "FindNextTagRange text start closing n = Some r \<Longrightarrow> tag_ok text start n r"
  by (simp add: FindNextTagRange_def tag_loop_ok)

lemma FindDescriptionRange_ok:
  assumes "FindDescriptionRange text = Some tags"
  shows "tag_ok text 0 (Some ''FictionBook'') (RootOpenTag tags)
    \<and> tag_ok text (TagEnd (RootOpenTag tags) + 1) (Some ''description'') (DescriptionOpenTag tags)
    \<and> tag_ok text (TagEnd (DescriptionOpenTag tags) + 1) (Some ''description'') (DescriptionCloseTag tags)"
  using assms by (auto simp: FindDescriptionRange_def split: option.splits dest!: FindNextTagRange_ok)

text \<open>The bytes that are measured are the bytes of the XML that is built.\<close>

lemma shape_loop_bytes: "ShapeBytes (shape_loop s inside q shape) = ShapeBytes shape"
  by (induction s arbitrary: inside q shape) (simp_all split: option.split)

lemma AddXmlFragmentShape_bytes: "ShapeBytes (AddXmlFragmentShape s shape) = ShapeBytes shape + length s"
  by (simp add: AddXmlFragmentShape_def shape_loop_bytes)

lemma analysis_measures_xml:
  assumes "AnalyzeCatalogXml text = (shape, tags)"
  shows "ShapeBytes shape = (case tags of None \<Rightarrow> length text | Some r \<Rightarrow> length (BuildDescriptionXml text r))"
proof (cases "FindDescriptionRange text")
  case None
  then show ?thesis using assms by (auto simp: AnalyzeCatalogXml_def AddXmlFragmentShape_bytes empty_shape_def)
next
  case (Some r)
  note ok = FindDescriptionRange_ok [OF Some]
  have "NameEnd (RootOpenTag r) \<le> length text" using ok by (auto simp: tag_ok_def)
  then have "length (substr text (NameStart (RootOpenTag r)) (NameEnd (RootOpenTag r) - NameStart (RootOpenTag r)))
      = NameEnd (RootOpenTag r) - NameStart (RootOpenTag r)" by (simp add: substr_def)
  then show ?thesis using assms
    by (auto simp: Some AnalyzeCatalogXml_def AddXmlFragmentShape_bytes empty_shape_def BuildDescriptionXml_def Let_def)
qed

end
