(* ===== verification/Fb2_Text_Properties.thy ===== *)
theory Fb2_Text_Properties
  imports Fb2_Text
begin

text \<open>
  The text half of the FB2 parser is right: base64 is decoded exactly where it is the canonical encoding of something,
  a decoded book is valid UTF-8, and a preview is a bounded piece of the text.
\<close>

section \<open>Base64\<close>

definition base64_alphabet :: string where
  "base64_alphabet = ''ABCDEFGHIJKLMNOPQRSTUVWXYZabcdefghijklmnopqrstuvwxyz0123456789+/''"

definition base64_padding :: "nat \<Rightarrow> string" where
  "base64_padding n = replicate ((4 - n mod 4) mod 4) CHR ''=''"

text \<open>The canonical encoding, by groups of three bytes.\<close>

definition EncodeBase64 :: "string \<Rightarrow> string" where
  "EncodeBase64 bytes =
    (let vs = sextets (map byte_of bytes) in map (\<lambda>v. base64_alphabet ! v) vs @ base64_padding (length vs))"

definition base64_values :: "string \<Rightarrow> nat list \<Rightarrow> bool" where
  "base64_values cs vs \<longleftrightarrow> map DecodeBase64Character cs = map Some vs"

lemma base64_mark_chars: "CHR ''+'' = chr_of (43::nat)" "CHR ''/'' = chr_of (47::nat)" "CHR ''='' = chr_of (61::nat)"
  using char_of_char [of "CHR ''+''", where 'a = nat] char_of_char [of "CHR ''/''", where 'a = nat]
    char_of_char [of "CHR ''=''", where 'a = nat] by (simp_all del: char_of_char)

lemma base64_alphabet_nth:
  "v < 26 \<Longrightarrow> base64_alphabet ! v = chr_of (65 + v)" "26 \<le> v \<Longrightarrow> v < 52 \<Longrightarrow> base64_alphabet ! v = chr_of (71 + v)"
  "d < 10 \<Longrightarrow> base64_alphabet ! (52 + d) = chr_of (48 + d)"
  "base64_alphabet ! 62 = chr_of 43" "base64_alphabet ! 63 = chr_of 47"
proof -
  have t: "take 62 base64_alphabet = take 62 GBase64UrlAlphabet"
    by (simp add: base64_alphabet_def GBase64UrlAlphabet_def)
  have n: "base64_alphabet ! v = GBase64UrlAlphabet ! v" if "v < 62" for v using that t by (metis nth_take)
  show "v < 26 \<Longrightarrow> base64_alphabet ! v = chr_of (65 + v)" by (simp add: n alphabet_nth)
  show "26 \<le> v \<Longrightarrow> v < 52 \<Longrightarrow> base64_alphabet ! v = chr_of (71 + v)" by (simp add: n alphabet_nth)
  show "d < 10 \<Longrightarrow> base64_alphabet ! (52 + d) = chr_of (48 + d)" by (simp add: n alphabet_nth)
  show "base64_alphabet ! 62 = chr_of 43" "base64_alphabet ! 63 = chr_of 47"
    by (simp_all add: base64_alphabet_def flip: base64_mark_chars)
qed

lemma base64_alphabet_value:
  assumes "v < 64" shows "DecodeBase64Character (base64_alphabet ! v) = Some v"
proof -
  consider "v < 26" | "26 \<le> v" "v < 52" | "52 \<le> v" "v < 62" | "v = 62" | "v = 63" using assms by linarith
  then show ?thesis
  proof cases
    case 3
    then obtain d where d: "v = 52 + d" using le_Suc_ex by blast
    then have "d < 10" using 3(2) by simp
    with d show ?thesis by (simp add: base64_alphabet_nth DecodeBase64Character_def byte_of_chr_of Let_def base64_mark_chars)
  qed (simp_all add: base64_alphabet_nth DecodeBase64Character_def byte_of_chr_of Let_def base64_mark_chars)
qed

lemma base64_character_Some:
  assumes "DecodeBase64Character c = Some v"
  shows "v < 64 \<and> base64_alphabet ! v = c \<and> c \<noteq> CHR ''='' \<and> \<not> isspace c"
proof -
  let ?c = "byte_of c :: nat"
  consider "65 \<le> ?c" "?c \<le> 90" "v = ?c - 65" | "97 \<le> ?c" "?c \<le> 122" "v = ?c - 71" | "48 \<le> ?c" "?c \<le> 57" "v = 52 + (?c - 48)"
    | "c = chr_of 43" "v = 62" | "c = chr_of 47" "v = 63"
    using assms unfolding DecodeBase64Character_def Let_def base64_mark_chars by (auto split: if_splits)
  moreover have e: "byte_of (CHR ''='') = (61::nat)" by simp
  ultimately show ?thesis
  proof cases
    case 3
    then have "base64_alphabet ! (52 + (?c - 48)) = chr_of (48 + (?c - 48))" by (intro base64_alphabet_nth) linarith
    then show ?thesis using 3 e by (auto simp: isspace_def)
  qed (use e in \<open>auto simp: base64_alphabet_nth isspace_def byte_of_chr_of base64_mark_chars chr_of_eq_iff\<close>)
qed

lemma base64_bytes:
  assumes "(u::nat) < 64" "v < 64" "w < 64" "x < 64"
  defines "block \<equiv> push_bit 18 u OR push_bit 12 v OR push_bit 6 w OR x"
  shows "drop_bit 16 block AND 0xFF = u * 4 + v div 16"
    and "drop_bit 8 block AND 0xFF = v mod 16 * 16 + w div 4"
    and "block AND 0xFF = w mod 4 * 64 + x"
proof -
  have b: "block = u * 2 ^ 18 + v * 2 ^ 12 + w * 2 ^ 6 + x"
  proof -
    have "push_bit 6 w OR x = w * 2 ^ 6 + x" using or_shift_nat [of x 6 w] assms(4) by simp
    moreover have "push_bit 12 v OR (w * 2 ^ 6 + x) = v * 2 ^ 12 + (w * 2 ^ 6 + x)" using or_shift_nat [of _ 12 v] assms by simp
    moreover have "push_bit 18 u OR (v * 2 ^ 12 + (w * 2 ^ 6 + x)) = u * 2 ^ 18 + (v * 2 ^ 12 + (w * 2 ^ 6 + x))"
      using or_shift_nat [of _ 18 u] assms by simp
    ultimately show ?thesis by (simp add: block_def or.assoc)
  qed
  have vd: "v div 16 < 4" "w div 4 < 16" using assms by (simp_all add: less_mult_imp_div_less)
  have e1: "block = (u * 4 + v div 16) * 65536 + (v mod 16 * 4096 + w * 64 + x)"
  proof -
    have split: "x = q * 16 + r \<Longrightarrow> x * 4096 = q * 65536 + r * 4096" for x q r :: nat by simp
    from split [of v "v div 16" "v mod 16"] have "v * 4096 = v div 16 * 65536 + v mod 16 * 4096" by simp
    then show ?thesis unfolding b by simp
  qed
  have s1: "v mod 16 * 4096 + w * 64 + x < 65536" using mod_less_divisor [of 16 v] assms by simp
  have d1: "block div 65536 = u * 4 + v div 16" unfolding e1 using s1 by simp
  have e2: "block = ((u * 4 + v div 16) * 256 + (v mod 16 * 16 + w div 4)) * 256 + (w mod 4 * 64 + x)"
  proof -
    have split: "x = q * 4 + r \<Longrightarrow> x * 64 = q * 256 + r * 64" for x q r :: nat by simp
    from split [of w "w div 4" "w mod 4"] have "w * 64 = w div 4 * 256 + w mod 4 * 64" by simp
    then show ?thesis unfolding e1 by simp
  qed
  have s2: "w mod 4 * 64 + x < 256" using mod_less_divisor [of 4 w] assms by simp
  have d2: "block div 256 = (u * 4 + v div 16) * 256 + (v mod 16 * 16 + w div 4)" unfolding e2 using s2 by simp
  have s3: "v mod 16 * 16 + w div 4 < 256" using mod_less_divisor [of 16 v] vd by simp
  show "drop_bit 16 block AND 0xFF = u * 4 + v div 16" using d1 vd assms by (simp add: drop_bit_eq_div and_0xFF)
  show "drop_bit 8 block AND 0xFF = v mod 16 * 16 + w div 4"
  proof -
    have rest: "q = a * 256 + b \<Longrightarrow> b < 256 \<Longrightarrow> q mod 256 = b" for a b q :: nat by simp
    show ?thesis using rest [OF d2 s3] by (simp add: drop_bit_eq_div and_0xFF)
  qed
  have rest: "q = a * 256 + b \<Longrightarrow> b < 256 \<Longrightarrow> q mod 256 = b" for a b q :: nat by simp
  show "block AND 0xFF = w mod 4 * 64 + x" using rest [OF e2 s2] by (simp add: and_0xFF)
qed

lemma decode_blocks_groups:
  "base64_values cs vs \<Longrightarrow> length vs mod 4 \<noteq> 1 \<Longrightarrow>
    decode_blocks (cs @ base64_padding (length vs)) r =
      (case octets vs of Some bs \<Rightarrow> Inr (r @ map chr_of bs) | None \<Rightarrow> base64_error ''padding bits'')"
proof (induction vs arbitrary: cs r rule: octets.induct)
  case 1
  then show ?case by (simp add: base64_values_def base64_padding_def)
next
  case (2 u)
  then show ?case by simp
next
  case (3 u v)
  then obtain c d where s: "cs = [c, d]" "DecodeBase64Character c = Some u" "DecodeBase64Character d = Some v"
    by (auto simp: base64_values_def map_eq_Cons_conv)
  note small = base64_character_Some [OF s(2)] base64_character_Some [OF s(3)]
  have "base64_padding (Suc (Suc 0)) = ''==''" by (simp add: base64_padding_def numeral_2_eq_2)
  then show ?case using s small base64_bytes [of u v 0 0]
    by (simp add: padded_character_def and_0x0F Let_def)
next
  case (4 u v w)
  then obtain c d e where s: "cs = [c, d, e]" "DecodeBase64Character c = Some u" "DecodeBase64Character d = Some v"
      "DecodeBase64Character e = Some w" by (auto simp: base64_values_def map_eq_Cons_conv)
  note small = base64_character_Some [OF s(2)] base64_character_Some [OF s(3)] base64_character_Some [OF s(4)]
  have "y AND 3 = y mod 4" for y :: nat using and_low_nat [of y 2] by (simp add: mask_eq_exp_minus_1)
  moreover have "base64_padding (Suc (Suc (Suc 0))) = ''=''" by (simp add: base64_padding_def)
  ultimately show ?case using s small base64_bytes [of u v w 0]
    by (simp add: padded_character_def Let_def numeral_3_eq_3)
next
  case (5 u v w y rest)
  then obtain c d e f cs' where s: "cs = c # d # e # f # cs'" "DecodeBase64Character c = Some u" "DecodeBase64Character d = Some v"
      "DecodeBase64Character e = Some w" "DecodeBase64Character f = Some y" and r: "base64_values cs' rest"
    by (auto simp: base64_values_def map_eq_Cons_conv)
  note small = base64_character_Some [OF s(2)] base64_character_Some [OF s(3)] base64_character_Some [OF s(4)] base64_character_Some [OF s(5)]
  have "length rest mod 4 \<noteq> 1" using 5(3) by (simp add: mod_Suc split: if_splits)
  moreover have "base64_padding (length (u # v # w # y # rest)) = base64_padding (length rest)"
    by (simp add: base64_padding_def mod_Suc)
  ultimately show ?case using 5(1) [OF r] s small base64_bytes [of u v w y]
    by (simp add: padded_character_def Let_def split: option.splits)
qed

lemma decode_blocks_characters:
  "decode_blocks s r = Inr bytes \<Longrightarrow> length s mod 4 = 0 \<Longrightarrow> c \<in> set s \<Longrightarrow> c \<noteq> CHR ''='' \<Longrightarrow> DecodeBase64Character c \<noteq> None"
proof (induction s r rule: decode_blocks.induct)
  case (2 a b c1 d rest r)
  then show ?case
    by (auto simp: base64_error_def Let_def padded_character_def split: option.splits if_splits)
qed simp_all

lemma decode_blocks_values:
  assumes "decode_blocks (cs @ replicate n CHR ''='') r = Inr bytes" "(length cs + n) mod 4 = 0" "CHR ''='' \<notin> set cs"
  obtains vs where "base64_values cs vs"
proof -
  have "\<forall>c \<in> set cs. \<exists>v. DecodeBase64Character c = Some v"
    using decode_blocks_characters [OF assms(1)] assms(2,3) by fastforce
  then have "\<exists>vs. map DecodeBase64Character cs = map Some vs"
    by (induction cs) (auto intro: exI [of _ "_ # _"])
  then show ?thesis using that by (auto simp: base64_values_def)
qed

lemma find_char_behind: "c \<notin> set xs \<Longrightarrow> find_char c (xs @ ys) = map_option (\<lambda>k. length xs + k) (find_char c ys)"
  by (simp add: find_char_append find_char_None [THEN iffD2])

lemma find_char_found: "find_char c xs = Some k \<Longrightarrow> k < length xs \<and> c \<notin> set (take k xs)"
  by (simp add: find_char_Some)

lemma padding_cases: "m mod 4 \<noteq> 1 \<Longrightarrow> base64_padding m = replicate (if m mod 4 = 0 then 0 else if m mod 4 = 3 then 1 else 2) CHR ''=''"
proof -
  assume "m mod 4 \<noteq> 1"
  then consider "m mod 4 = 0" | "m mod 4 = 2" | "m mod 4 = 3" by linarith
  then show ?thesis by cases (simp_all add: base64_padding_def)
qed

text \<open>What the checks before the loop accept.\<close>

lemma padding_count_replicate:
  assumes "CHR ''='' \<notin> set cs" "n \<le> 2" "2 \<le> length cs"
  shows "padding_count (cs @ replicate n CHR ''='') = n"
proof -
  have l1: "cs \<noteq> []" using assms(3) by auto
  have l: "cs \<noteq> []" "last cs \<noteq> CHR ''=''" using last_in_set [OF l1] assms(1) l1 by metis+
  consider "n = 0" | "n = 1" | "n = 2" using assms(2) by linarith
  then show ?thesis
    by cases (use l assms(3) in \<open>auto simp: padding_count_def numeral_2_eq_2 nth_append last_conv_nth\<close>)
qed

lemma padded_split:
  assumes "2 \<le> length s" "find_char CHR ''='' s = None \<or> find_char CHR ''='' s = Some (length s - padding_count s)"
  obtains cs n where "s = cs @ replicate n CHR ''=''" "CHR ''='' \<notin> set cs" "n \<le> 2"
proof -
  obtain xs c d where s: "s = xs @ [c, d]"
  proof -
    obtain d c ys where "rev s = d # c # ys" using assms(1) by (cases "rev s"; cases "tl (rev s)") auto
    then have "s = rev ys @ [c, d]" by (metis append.assoc append_Cons append_Nil rev.simps(2) rev_rev_ident)
    then show ?thesis by (rule that)
  qed
  show ?thesis
  proof (cases "d = CHR ''=''")
    case False
    then have "padding_count s = 0" by (simp add: padding_count_def s)
    then have "CHR ''='' \<notin> set s" using assms(2) find_char_found [of _ s "length s"] by (auto simp: find_char_None)
    then show ?thesis using that [of s 0] by simp
  next
    case d: True
    have f: "find_char CHR ''='' s \<noteq> None" using d s by (simp add: find_char_None)
    show ?thesis
    proof (cases "c = CHR ''=''")
      case True
      then have "padding_count s = 2" using d by (simp add: padding_count_def s nth_append)
      then have "CHR ''='' \<notin> set (take (length xs) s)" using assms(2) f find_char_found [of _ s "length xs"] s by auto
      then show ?thesis using that [of xs 2] d True s by (simp add: numeral_2_eq_2)
    next
      case False
      then have "padding_count s = 1" using d by (simp add: padding_count_def s nth_append)
      then have "CHR ''='' \<notin> set (take (Suc (length xs)) s)" using assms(2) f find_char_found [of _ s "Suc (length xs)"] s by auto
      then show ?thesis using that [of "xs @ [c]" 1] d s by simp
    qed
  qed
qed

lemma base64_values_small: "base64_values cs vs \<Longrightarrow> list_all (\<lambda>v. v < 64) vs \<and> map (\<lambda>v. base64_alphabet ! v) vs = cs"
  by (induction vs arbitrary: cs) (auto simp: base64_values_def Cons_eq_map_conv dest: base64_character_Some)

lemma base64_values_length: "base64_values cs vs \<Longrightarrow> length vs = length cs"
  unfolding base64_values_def by (metis length_map)

lemma decoded_is_canonical:
  assumes vs: "base64_values cs vs" and m: "(length cs + n) mod 4 = 0" and n: "n \<le> 2"
    and dec: "decode_blocks (cs @ replicate n CHR ''='') [] = Inr bytes"
  shows "cs @ replicate n CHR ''='' = EncodeBase64 bytes"
proof -
  have m4: "length vs mod 4 = (if n = 0 then 0 else if n = 1 then 3 else 2)"
  proof -
    consider "n = 0" | "n = 1" | "n = 2" using n by linarith
    then show ?thesis unfolding base64_values_length [OF vs] by cases (use m in \<open>simp_all, presburger+\<close>)
  qed
  have pad: "base64_padding (length vs) = replicate n CHR ''=''"
    using padding_cases [of "length vs"] m4 n by (cases "n = 2") (auto split: if_splits)
  have "length vs mod 4 \<noteq> 1" using m4 by simp
  from decode_blocks_groups [OF vs this, of "[]"] dec obtain bs where bs: "octets vs = Some bs" "bytes = map chr_of bs"
    unfolding pad by (auto simp: base64_error_def split: option.splits)
  note small = base64_values_small [OF vs]
  from sextets_octets [OF bs(1)] small have b: "sextets bs = vs" "list_all (\<lambda>b. b < 256) bs" by simp_all
  then have "map byte_of bytes = bs" using bs(2) by (auto simp: list_all_iff byte_of_chr_of intro: map_idI)
  then show ?thesis using b(1) small pad by (simp add: EncodeBase64_def Let_def)
qed

lemma base64_decoded:
  assumes d: "DecodeBase64 s = Inr bytes"
  shows "filter (\<lambda>c. \<not> isspace c) s = EncodeBase64 bytes"
proof (cases "filter (\<lambda>c. \<not> isspace c) s = []")
  case True
  then show ?thesis using d by (simp add: DecodeBase64_def Let_def EncodeBase64_def base64_padding_def)
next
  case False
  define t where "t = filter (\<lambda>c. \<not> isspace c) s"
  have m: "length t mod 4 = 0" and dec: "decode_blocks t [] = Inr bytes"
    and f: "find_char CHR ''='' t = None \<or> find_char CHR ''='' t = Some (length t - padding_count t)"
    using d False unfolding DecodeBase64_def Let_def t_def [symmetric] base64_error_def by (auto split: if_splits option.splits)
  have l: "2 \<le> length t"
  proof (rule ccontr)
    assume "\<not> 2 \<le> length t"
    moreover have "length t \<noteq> 0" using False by (simp add: t_def)
    ultimately have "length t = 1" by linarith
    then show False using m by simp
  qed
  obtain cs n where cs: "t = cs @ replicate n CHR ''=''" "CHR ''='' \<notin> set cs" "n \<le> 2" by (rule padded_split [OF l f])
  have m2: "(length cs + n) mod 4 = 0" using m unfolding cs(1) by simp
  obtain vs where "base64_values cs vs" by (rule decode_blocks_values [OF dec [unfolded cs(1)] m2 cs(2)])
  from decoded_is_canonical [OF this m2 cs(3) dec [unfolded cs(1)]] show ?thesis using cs(1) t_def by simp
qed

lemma base64_encoded:
  assumes s: "filter (\<lambda>c. \<not> isspace c) s = EncodeBase64 bytes"
  shows "DecodeBase64 s = Inr bytes"
proof (cases "bytes = []")
  case True
  then show ?thesis using s by (simp add: DecodeBase64_def Let_def EncodeBase64_def base64_padding_def)
next
  case False
  define vs where "vs = sextets (map byte_of bytes)"
  define cs where "cs = map (\<lambda>v. base64_alphabet ! v) vs"
  define n :: nat where "n = (if length vs mod 4 = 0 then 0 else if length vs mod 4 = 3 then 1 else 2)"
  have b: "list_all (\<lambda>b. b < 256) (map byte_of bytes)" by (simp add: list_all_iff)
  have small: "list_all (\<lambda>v. v < 64) vs" unfolding vs_def by (rule sextets_small [OF b])
  have vals: "base64_values cs vs" using small by (simp add: base64_values_def cs_def list_all_iff base64_alphabet_value)
  have m: "length vs mod 4 \<noteq> 1" unfolding vs_def using length_sextets by blast
  have ne: "CHR ''='' \<notin> set cs"
    using small base64_character_Some [OF base64_alphabet_value] by (fastforce simp: list_all_iff cs_def)
  have e: "EncodeBase64 bytes = cs @ replicate n CHR ''=''"
    using padding_cases [OF m] by (simp add: EncodeBase64_def Let_def cs_def n_def vs_def)
  have dec: "decode_blocks (EncodeBase64 bytes) [] = Inr bytes"
    using decode_blocks_groups [OF vals m, of "[]"] octets_sextets [OF b] padding_cases [OF m]
    by (simp add: e n_def vs_def comp_def)
  have l2: "2 \<le> length cs" using length_sextets [of "map byte_of bytes"] False by (cases bytes) (auto simp: cs_def vs_def)
  have lc: "length cs = length vs" by (simp add: cs_def)
  consider "length vs mod 4 = 0" | "length vs mod 4 = 3" | "length vs mod 4 = 2" using m by linarith
  then have "(length cs + n) mod 4 = 0" unfolding lc n_def by cases (simp_all, presburger+)
  then have m4: "length (EncodeBase64 bytes) mod 4 = 0" by (simp add: e)
  have pc: "padding_count (EncodeBase64 bytes) = n"
    unfolding e by (rule padding_count_replicate [OF ne _ l2]) (simp add: n_def)
  have f: "find_char CHR ''='' (EncodeBase64 bytes) = (if n = 0 then None else Some (length (EncodeBase64 bytes) - n))"
    unfolding e find_char_behind [OF ne] by (auto simp: n_def numeral_2_eq_2)
  have "EncodeBase64 bytes \<noteq> []" using l2 e by auto
  then show ?thesis unfolding DecodeBase64_def Let_def s using m4 pc dec f by simp
qed

lemma base64_exact:
  "DecodeBase64 s = Inr bytes \<longleftrightarrow> filter (\<lambda>c. \<not> isspace c) s = EncodeBase64 bytes"
  using base64_decoded base64_encoded by blast

section \<open>Valid text\<close>

lemma valid_split_ascii:
  assumes "IsValidUtf8 (p @ c # q)" "byte_of c < 128"
  shows "IsValidUtf8 p \<and> IsValidUtf8 q"
proof -
  obtain ns where "list_all scalar ns" "p @ c # q = utf8 ns" using assms(1) by (auto simp: IsValidUtf8_iff)
  then show ?thesis
  proof (induction ns arbitrary: p)
    case (Cons n ns)
    then have e: "p @ c # q = enc n @ utf8 ns" "scalar n" "list_all scalar ns" by simp_all
    show ?case
    proof (cases "length (enc n) \<le> length p")
      case True
      then have "take (length (enc n)) p = enc n" using arg_cong [OF e(1), of "take (length (enc n))"] by simp
      then obtain p' where p: "p = enc n @ p'" by (metis append_take_drop_id)
      then have "IsValidUtf8 p' \<and> IsValidUtf8 q" using e by (intro Cons.IH) simp_all
      moreover have "IsValidUtf8 (enc n)" using IsValidUtf8_utf8 [of "[n]"] e(2) by simp
      ultimately show ?thesis by (auto simp: p)
    next
      case False
      then obtain ys where "p @ c # ys = enc n" using e(1) by (auto simp: append_eq_append_conv2 Cons_eq_append_conv)
      moreover have "c \<in> set (p @ c # ys)" by simp
      ultimately have "c \<in> set (enc n)" by simp
      then have "n < 128" using enc_bytes [of c n] assms(2) by (meson not_le)
      then have "length (enc n) = 1" by (simp add: enc_ascii)
      then have "p = []" using False by (cases p) auto
      then have "q = utf8 ns" using e(1) \<open>length (enc n) = 1\<close> by (cases "enc n") auto
      then show ?thesis using e(3) \<open>p = []\<close> by simp
    qed
  qed simp
qed

lemma valid_replace_between:
  assumes "IsValidUtf8 t" "i < j" "j < length t" "byte_of (t ! i) < 128" "byte_of (t ! j) < 128" "IsValidUtf8 m"
  shows "IsValidUtf8 (take (Suc i) t @ m @ drop j t)"
proof -
  have "t = take i t @ t ! i # drop (Suc i) t" using assms(2,3) by (simp add: id_take_nth_drop)
  then have p: "IsValidUtf8 (take i t)" using assms(1,4) valid_split_ascii [of "take i t" "t ! i"] by metis
  have "t = take j t @ t ! j # drop (Suc j) t" using assms(3) by (simp add: id_take_nth_drop)
  then have q: "IsValidUtf8 (drop (Suc j) t)" using assms(1,5) valid_split_ascii [of "take j t" "t ! j"] by metis
  have "IsValidUtf8 [t ! i]" using assms(4) by (intro valid_ascii) simp
  then have "IsValidUtf8 (take (Suc i) t)" using p assms(2,3) by (simp add: take_Suc_conv_app_nth valid_append)
  moreover have "IsValidUtf8 (drop j t)" using q assms(3,5) valid_after_ascii by (metis Cons_nth_drop_Suc)
  ultimately show ?thesis using assms(6) by (intro valid_append)
qed

lemma find_rest_Some:
  "find_rest needle s i = Some k \<Longrightarrow> i \<le> k \<and> k + length needle \<le> i + length s \<and> take (length needle) (drop (k - i) s) = needle"
proof (induction needle s i rule: find_rest.induct)
  case (2 needle c s i)
  show ?case
  proof (cases "take (length needle) (c # s) = needle")
    case True
    then have "length needle \<le> length (c # s)" by (metis length_take min.cobounded1)
    then show ?thesis using True 2(2) by auto
  next
    case False
    then have "Suc i \<le> k \<and> k + length needle \<le> Suc i + length s \<and> take (length needle) (drop (k - Suc i) s) = needle"
      using 2 by auto
    moreover have "drop (k - i) (c # s) = drop (k - Suc i) s" if "Suc i \<le> k" using that by (simp add: drop_Cons' Suc_diff_le)
    ultimately show ?thesis by auto
  qed
qed (auto split: if_splits)

lemma find_from_Some:
  assumes "find_from text needle start = Some k"
  shows "start \<le> k \<and> k + length needle \<le> length text \<and> take (length needle) (drop k text) = needle"
proof -
  have "start \<le> length text" "find_rest needle (drop start text) start = Some k"
    using assms by (auto simp: find_from_def split: if_splits)
  then show ?thesis using find_rest_Some [of needle "drop start text" start k] by auto
qed

lemma lower_ascii: "byte_of (ToLowerAsciiCharacter c) < 128 \<Longrightarrow> byte_of c < 128"
  by (auto simp: ToLowerAsciiCharacter_def byte_of_chr_of split: if_splits)

lemma declaration_between_quotes:
  assumes "TryParseEncodingDeclaration text = Some d"
  shows "\<exists>i j. ValueOffset d = Suc i \<and> ValueOffset d + ValueLength d = j \<and> i < j \<and> j < length text
    \<and> byte_of (text ! i) < 128 \<and> byte_of (text ! j) < 128"
proof -
  define lower where "lower e = ToLowerAscii (take e text)" for e
  obtain e where e1: "find_from text ''?>'' 0 = Some e"
    using assms by (cases "find_from text ''?>'' 0") (auto simp: TryParseEncodingDeclaration_def)
  obtain found where e2: "find_from (lower e) ''encoding'' 0 = Some found"
    using assms e1 by (cases "find_from (lower e) ''encoding'' 0") (auto simp: TryParseEncodingDeclaration_def lower_def Let_def)
  define i where "i = skip_whitespace (lower e) (skip_whitespace (lower e) (found + 8) + 1)"
  have d: "(if skip_whitespace (lower e) (found + 8) \<ge> e \<or> lower e ! skip_whitespace (lower e) (found + 8) \<noteq> CHR ''='' then None
     else if i \<ge> e \<or> lower e ! i \<noteq> CHR 0x27 \<and> lower e ! i \<noteq> CHR 0x22 then None
     else case find_from (lower e) [lower e ! i] (i + 1) of None \<Rightarrow> None | Some valueEnd \<Rightarrow>
     if valueEnd > e then None
     else Some \<lparr>DeclaredEncoding = ParseEncodingName (substr (lower e) (i + 1) (valueEnd - (i + 1))),
                ValueOffset = i + 1, ValueLength = valueEnd - (i + 1)\<rparr>) = Some d"
    using assms e1 e2 unfolding TryParseEncodingDeclaration_def lower_def i_def Let_def by (simp only: option.case)
  obtain j where f: "find_from text ''?>'' 0 = Some e" "i < e" "lower e ! i = CHR 0x27 \<or> lower e ! i = CHR 0x22"
    "find_from (lower e) [lower e ! i] (i + 1) = Some j" "ValueOffset d = i + 1" "ValueLength d = j - (i + 1)"
  proof (cases "find_from (lower e) [lower e ! i] (i + 1)")
    case None
    then show ?thesis using d by (simp split: if_splits)
  next
    case (Some j)
    then show ?thesis using that [of j] d e1 by (auto split: if_splits)
  qed
  have e: "e \<le> length text" using find_from_Some [OF f(1)] by simp
  then have l: "length (lower e) = e" by (simp add: lower_def)
  have j: "i + 1 \<le> j" "j < e" "lower e ! j = lower e ! i"
    using find_from_Some [OF f(4)] l by (auto simp: take_Suc_conv_app_nth hd_drop_conv_nth take_Suc)
  have n: "lower e ! k = ToLowerAsciiCharacter (text ! k)" if "k < e" for k
    using that e by (simp add: lower_def ToLowerAscii_def)
  have q: "byte_of (lower e ! i) < 128" using f(3) by auto
  have "byte_of (text ! i) < 128" "byte_of (text ! j) < 128"
    using lower_ascii q n [OF f(2)] n [OF j(2)] j(3) by metis+
  then show ?thesis using f(5,6) j e by (intro exI [of _ i] exI [of _ j]) auto
qed

lemma Replace_valid: "IsValidUtf8 text \<Longrightarrow> IsValidUtf8 (ReplaceEncodingDeclaration text)"
proof (cases "TryParseEncodingDeclaration text")
  case (Some d)
  assume v: "IsValidUtf8 text"
  obtain i j where ij: "ValueOffset d = Suc i" "ValueOffset d + ValueLength d = j" "i < j" "j < length text"
      "byte_of (text ! i) < 128" "byte_of (text ! j) < 128"
    using declaration_between_quotes [OF Some] by blast
  have "IsValidUtf8 ''utf-8''" by (rule valid_ascii) auto
  from valid_replace_between [OF v ij(3-6) this] show ?thesis
    using Some v ij(1,2) by (simp add: ReplaceEncodingDeclaration_def)
qed (simp add: ReplaceEncodingDeclaration_def)

text \<open>C34: The text of a book that reaches the XML library is valid UTF-8, whatever encoding its payload declares or has, as long
  as the converter of the platform gives valid UTF-8; the encoding costs at most one warning.\<close>

theorem decoded_book_is_utf8:
  assumes converter: "\<And>v encoding u. convert_text v encoding = Some u \<Longrightarrow> IsValidUtf8 u"
    and decoded: "DecodeFb2Text convert_text rawBytes warnings = Inr (text, n)"
  shows "IsValidUtf8 text \<and> warnings \<le> n \<and> n \<le> warnings + 1"
proof -
  have first: "first_conversion convert_text v es = Some u \<Longrightarrow> IsValidUtf8 u" for v es u
    by (induction es) (auto split: option.splits dest: converter)
  have page: "CodePageToUtf8 convert_text v p m = Inr u \<Longrightarrow> IsValidUtf8 u" for v p m u
    by (auto simp: CodePageToUtf8_def split: option.splits dest: first)
  have u16: "Utf16LeToUtf8 convert_text v = Inr u \<Longrightarrow> IsValidUtf8 u" "Utf16BeToUtf8 convert_text v = Inr u \<Longrightarrow> IsValidUtf8 u" for v u
    by (auto simp: Utf16LeToUtf8_def Utf16BeToUtf8_def Let_def split: option.splits if_splits dest: converter)
  have r: "replaced warnings x = Inr (text, n) \<Longrightarrow> (\<And>u. x = Inr u \<Longrightarrow> IsValidUtf8 u) \<Longrightarrow> ?thesis" for x
    by (auto simp: replaced_def split: sum.splits intro: Replace_valid)
  have w: "decode_windows1251 convert_text v warnings = (text, n) \<Longrightarrow> ?thesis" for v
    by (auto simp: decode_windows1251_def split: sum.splits intro: Replace_valid Windows1251_valid page)
  have u: "decode_undeclared convert_text v warnings = Inr (text, n) \<Longrightarrow> ?thesis" for v
    by (auto simp: decode_undeclared_def split: if_splits option.splits sum.splits
        dest: TryTrim_valid intro: Replace_valid DecodeLegacy_valid [OF converter])
  show ?thesis
    using decoded unfolding DecodeFb2Text_def Let_def
    by (auto split: if_splits option.splits EDeclaredXmlEncoding.splits dest: r [OF _ u16(1)] r [OF _ u16(2)] r [OF _ page] w u)
qed

theorem decoded_book_is_utf8_witness: "IsValidUtf8 ''utf-8 text'' \<and> (2::nat) \<le> 2 \<and> (2::nat) \<le> 2 + 1"
proof (rule decoded_book_is_utf8 [of "\<lambda>_ _. Some ''utf-8 text''" "map chr_of [0xFF, 0xFE, 65, 0]" 2])
  show "IsValidUtf8 u" if "(Some ''utf-8 text'' :: string option) = Some u" for u
  proof -
    have "IsValidUtf8 ''utf-8 text''" by (rule valid_ascii) auto
    then show ?thesis using that by simp
  qed
  show "DecodeFb2Text (\<lambda>_ _. Some ''utf-8 text'') (map chr_of [0xFF, 0xFE, 65, 0]) 2 = Inr (''utf-8 text'', 2)"
    by code_simp
qed

section \<open>Previews\<close>

lemma truncate_loop_bounds: "i \<le> length s \<Longrightarrow> i \<le> m \<Longrightarrow> truncate_loop s m i \<le> m \<and> truncate_loop s m i \<le> length s"
  by (induction s m i rule: truncate_loop.induct) (subst (1 2) truncate_loop.simps, auto split: option.splits)

lemma TruncateUtf8_bounds: "length (TruncateUtf8 s m) \<le> m \<and> prefix (TruncateUtf8 s m) s"
  using truncate_loop_bounds [of 0 s m] by (auto simp: TruncateUtf8_def take_is_prefix)

lemma CompactPreview_bounds: "length (CompactPreview s) \<le> 323"
  using TruncateUtf8_bounds [of "preview_append s [] False" 320]
  by (auto simp: CompactPreview_def preview_finish_def GDiagnosticPreviewMaxBytes_def)

end
