(* ===== verification/Genre_Table.thy ===== *)
theory Genre_Table
  imports Prelude
begin

text \<open>
  The genre codes of FB2 and their English names, \<open>GGenreNames\<close> of \<open>libs/Parsing/Fb2GenreMapper.cpp\<close>: the entries of the
  initialiser in its order, with the constants of the names written out. Strings are UTF-8 bytes.
\<close>

definition genre_names_1 :: "(string \<times> string) list" where
  "genre_names_1 =
   [(''19_vek'', ''19th Century Literature''), (''20_vek'', ''20th Century Literature''),
    (''prose_abs'', ''Absurdist Prose''), (''accounting'', ''Accounting''), (''biz_accounting'', ''Accounting''),
    ([CHR 0xD0, CHR 0x91, CHR 0xD0, CHR 0xBE, CHR 0xD0, CHR 0xB5, CHR 0xD0, CHR 0xB2, CHR 0xD0, CHR 0xB0, CHR 0xD1, CHR 0x8F] @ '' '' @ [CHR 0xD1, CHR 0x84, CHR 0xD0, CHR 0xB0, CHR 0xD0, CHR 0xBD, CHR 0xD1, CHR 0x82, CHR 0xD0, CHR 0xB0, CHR 0xD1, CHR 0x81, CHR 0xD1, CHR 0x82, CHR 0xD0, CHR 0xB8, CHR 0xD0, CHR 0xBA, CHR 0xD0, CHR 0xB0], ''Action Fantasy''),
    ([CHR 0xD0, CHR 0x91, CHR 0xD0, CHR 0xBE, CHR 0xD0, CHR 0xB5, CHR 0xD0, CHR 0xB2, CHR 0xD0, CHR 0xBE, CHR 0xD0, CHR 0xB5] @ '' '' @ [CHR 0xD1, CHR 0x84, CHR 0xD1, CHR 0x8D, CHR 0xD0, CHR 0xBD, CHR 0xD1, CHR 0x82, CHR 0xD0, CHR 0xB5, CHR 0xD0, CHR 0xB7, CHR 0xD0, CHR 0xB8], ''Action Fantasy''),
    (''fantasy_action'', ''Action Fantasy''), (''fantasy_fight'', ''Action Fantasy''),
    ([CHR 0xD0, CHR 0xAD, CHR 0xD0, CHR 0xBA, CHR 0xD1, CHR 0x88, CHR 0xD0, CHR 0xBD] @ '' (action)'', ''Action Fiction''),
    (''Action'', ''Action Fiction''), (''action'', ''Action Fiction''), (''boevaya_fantastika'', ''Action SF''),
    (''sf_action'', ''Action SF''), (''adult'', ''Adult Fiction''),
    ([CHR 0xD0, CHR 0x9F, CHR 0xD1, CHR 0x80, CHR 0xD0, CHR 0xB8, CHR 0xD0, CHR 0xBA, CHR 0xD0, CHR 0xBB, CHR 0xD1, CHR 0x8E, CHR 0xD1, CHR 0x87, CHR 0xD0, CHR 0xB5, CHR 0xD0, CHR 0xBD, CHR 0xD0, CHR 0xB8, CHR 0xD1, CHR 0x8F], ''Adventure''),
    (''adv_all'', ''Adventure''), (''adventure'', ''Adventure''), (''Adventure'', ''Adventure''),
    (''foreign_adventure'', ''Adventure''), (''historical_adventure'', ''Adventure''),
    (''priklucheniya'', ''Adventure''), (''priklucheniya_knigi'', ''Adventure''),
    ([CHR 0xD0, CHR 0x9F, CHR 0xD1, CHR 0x80, CHR 0xD0, CHR 0xB8, CHR 0xD0, CHR 0xBA, CHR 0xD0, CHR 0xBB, CHR 0xD1, CHR 0x8E, CHR 0xD1, CHR 0x87, CHR 0xD0, CHR 0xB5, CHR 0xD0, CHR 0xBD, CHR 0xD1, CHR 0x87, CHR 0xD0, CHR 0xB5, CHR 0xD1, CHR 0x81, CHR 0xD0, CHR 0xBA, CHR 0xD0, CHR 0xBE, CHR 0xD0, CHR 0xB5] @ '' '' @ [CHR 0xD1, CHR 0x84, CHR 0xD1, CHR 0x8D, CHR 0xD0, CHR 0xBD, CHR 0xD1, CHR 0x82, CHR 0xD0, CHR 0xB5, CHR 0xD0, CHR 0xB7, CHR 0xD0, CHR 0xB8], ''Adventure Fantasy''),
    (''adventure_fantasy'', ''Adventure Fantasy''), (''klassika_priklyuchenij'', ''Adventure Literature''),
    (''literature_adv'', ''Adventure Literature''), (''literature_men_advent'', ''Adventure Literature''),
    (''adv_story'', ''Adventure Stories''),
    ([CHR 0xD1, CHR 0x81, CHR 0xD0, CHR 0xB5, CHR 0xD0, CHR 0xBB, CHR 0xD1, CHR 0x8C, CHR 0xD1, CHR 0x81, CHR 0xD0, CHR 0xBA, CHR 0xD0, CHR 0xBE, CHR 0xD0, CHR 0xB5] @ '' '' @ [CHR 0xD1, CHR 0x85, CHR 0xD0, CHR 0xBE, CHR 0xD0, CHR 0xB7, CHR 0xD1, CHR 0x8F, CHR 0xD0, CHR 0xB9, CHR 0xD1, CHR 0x81, CHR 0xD1, CHR 0x82, CHR 0xD0, CHR 0xB2, CHR 0xD0, CHR 0xBE], ''Agriculture''),
    (''adv_history_avant'', ''Alternative History''), (''back_to_ussr'', ''Alternative History''),
    (''sf_history'', ''Alternative History''), (''sf_history_avant'', ''Alternative History''),
    (''fantasy_alt_hist'', ''Alternative History Fantasy''),
    ([CHR 0xD0, CHR 0x90, CHR 0xD0, CHR 0xBB, CHR 0xD1, CHR 0x8C, CHR 0xD1, CHR 0x82, CHR 0xD0, CHR 0xB5, CHR 0xD1, CHR 0x80, CHR 0xD0, CHR 0xBD, CHR 0xD0, CHR 0xB0, CHR 0xD1, CHR 0x82, CHR 0xD0, CHR 0xB8, CHR 0xD0, CHR 0xB2, CHR 0xD0, CHR 0xBD, CHR 0xD0, CHR 0xB0, CHR 0xD1, CHR 0x8F] @ '' '' @ [CHR 0xD0, CHR 0xBC, CHR 0xD0, CHR 0xB5, CHR 0xD0, CHR 0xB4, CHR 0xD0, CHR 0xB8, CHR 0xD1, CHR 0x86, CHR 0xD0, CHR 0xB8, CHR 0xD0, CHR 0xBD, CHR 0xD0, CHR 0xB0], ''Alternative Medicine''),
    (''health_alt_medicine'', ''Alternative Medicine''), (''sci_medicine_alternative'', ''Alternative Medicine''),
    (''American First Novelists'', ''American Literature''), (''literature_usa'', ''American Literature''),
    (''history_ancient'', ''Ancient History''), (''humor_anecdote'', ''Anecdotes''),
    (''child_adv_animal'', ''Animal Adventure''), (''child_det_animal_detectives'', ''Animal Detectives''),
    (''boyar_anime'', ''Anime-style Fiction''), (''compilation'', ''Anthology''),
    (''literature_antology'', ''Anthology''), (''evoljuciya_i_antropologiya'', ''Anthropology''),
    (''antique_ant'', ''Antique''), (''antichnaya'', ''Antique Literature''), (''antique'', ''Antique Literature''),
    (''foreign_antique'', ''Antique Literature''), (''aphorism_quote'', ''Aphorisms''), (''aphorisms'', ''Aphorisms''),
    (''sci_archeology'', ''Archaeology''), (''science_archaeology'', ''Archaeology''),
    (''architecture'', ''Architecture''), (''architecture_book'', ''Architecture''), (''art'', ''Art''),
    (''design'', ''Art & Design''), (''art_criticism'', ''Art Criticism''), (''asian_fantasy'', ''Asian Fantasy''),
    (''astrology'', ''Astrology''), (''kosmos_i_vselennaya'', ''Astronomy & Cosmology''),
    (''sci_cosmos'', ''Astronomy & Cosmology''), (''auto_regulations'', ''Automotive Regulations''),
    (''sci_biochem'', ''Biochemistry''), (''biography'', ''Biography''), (''Biography'', ''Biography''),
    ([CHR 0xD0, CHR 0x91, CHR 0xD0, CHR 0xB8, CHR 0xD0, CHR 0xBE, CHR 0xD0, CHR 0xB3, CHR 0xD1, CHR 0x80, CHR 0xD0, CHR 0xB0, CHR 0xD1, CHR 0x84, CHR 0xD0, CHR 0xB8, CHR 0xD0, CHR 0xB8] @ '' '' @ [CHR 0xD0, CHR 0xB8] @ '' '' @ [CHR 0xD0, CHR 0xBC, CHR 0xD0, CHR 0xB5, CHR 0xD0, CHR 0xBC, CHR 0xD1, CHR 0x83, CHR 0xD0, CHR 0xB0, CHR 0xD1, CHR 0x80, CHR 0xD1, CHR 0x8B], ''Biography & Memoirs''),
    (''Autobiografia'', ''Biography & Memoirs''), (''biogr_arts'', ''Biography & Memoirs''),
    (''biogr_historical'', ''Biography & Memoirs''), (''biogr_leaders'', ''Biography & Memoirs''),
    (''biogr_professionals'', ''Biography & Memoirs''), (''biogr_sports'', ''Biography & Memoirs''),
    (''biogr_travel'', ''Biography & Memoirs''), (''biografii_i_memuary'', ''Biography & Memoirs''),
    (''Biography & Autobiography'', ''Biography & Memoirs''), (''biz_beogr'', ''Biography & Memoirs''),
    (''nonf_biography'', ''Biography & Memoirs''), (''nonf_biography_celebrities'', ''Biography & Memoirs''),
    (''nonf_biography_historical'', ''Biography & Memoirs''),
    (''nonf_biography_military_figures'', ''Biography & Memoirs''), (''sci_biology'', ''Biology''),
    (''science_biolog'', ''Biology''), (''sci_biophys'', ''Biophysics''), (''sci_botany'', ''Botany''),
    (''literature_british'', ''British Literature''), (''rel_boddizm'', ''Buddhism''),
    (''religion_budda'', ''Buddhism''), (''religion_buddhism'', ''Buddhism''), (''auto_business'', ''Business''),
    (''business'', ''Business''), (''sci_business'', ''Business''), (''trade'', ''Business'')]"

definition genre_names_2 :: "(string \<times> string) list" where
  "genre_names_2 =
   [(''biz_life'', ''Business & Lifestyle''), (''biz_management'', ''Business Management''),
    (''job_hunting'', ''Career & Job Search''), (''religion_catholicism'', ''Catholicism''),
    (''sci_chem'', ''Chemistry''), (''sci_orgchem'', ''Chemistry''), (''sci_physchem'', ''Chemistry''),
    (''psy_childs'', ''Child Psychology''),
    ([CHR 0xD0, CHR 0x94, CHR 0xD0, CHR 0xB5, CHR 0xD1, CHR 0x82, CHR 0xD1, CHR 0x81, CHR 0xD0, CHR 0xBA, CHR 0xD0, CHR 0xB0, CHR 0xD1, CHR 0x8F] @ '' '' @ [CHR 0xD0, CHR 0xBB, CHR 0xD0, CHR 0xB8, CHR 0xD1, CHR 0x82, CHR 0xD0, CHR 0xB5, CHR 0xD1, CHR 0x80, CHR 0xD0, CHR 0xB0, CHR 0xD1, CHR 0x82, CHR 0xD1, CHR 0x83, CHR 0xD1, CHR 0x80, CHR 0xD0, CHR 0xB0], ''Children'' @ [CHR 0x27] @ ''s''),
    (''child_4'', ''Children'' @ [CHR 0x27] @ ''s''), (''child_9'', ''Children'' @ [CHR 0x27] @ ''s''),
    (''child_all'', ''Children'' @ [CHR 0x27] @ ''s''), (''child_people'', ''Children'' @ [CHR 0x27] @ ''s''),
    (''children'', ''Children'' @ [CHR 0x27] @ ''s''), (''foreign_children'', ''Children'' @ [CHR 0x27] @ ''s''),
    (''child_adv'', ''Children'' @ [CHR 0x27] @ ''s Adventures''),
    (''child_characters'', ''Children'' @ [CHR 0x27] @ ''s Characters''),
    (''child_classical'', ''Children'' @ [CHR 0x27] @ ''s Classics''),
    (''child_det'', ''Children'' @ [CHR 0x27] @ ''s Detectives''),
    (''child_det_children'', ''Children'' @ [CHR 0x27] @ ''s Detectives''),
    (''child_det_children_detectives'', ''Children'' @ [CHR 0x27] @ ''s Detectives''),
    (''child_det_other'', ''Children'' @ [CHR 0x27] @ ''s Detectives''),
    (''detskie_detektivy'', ''Children'' @ [CHR 0x27] @ ''s Detectives''),
    (''child_sf_fantasy'', ''Children'' @ [CHR 0x27] @ ''s Fantasy''),
    (''child_folklore'', ''Children'' @ [CHR 0x27] @ ''s Folklore''),
    (''child_prose_history'', ''Children'' @ [CHR 0x27] @ ''s Historical Prose''),
    (''child_history'', ''Children'' @ [CHR 0x27] @ ''s History''),
    (''teens_history'', ''Children'' @ [CHR 0x27] @ ''s History''),
    (''child_prose_humor'', ''Children'' @ [CHR 0x27] @ ''s Humor''),
    (''child_prose'', ''Children'' @ [CHR 0x27] @ ''s Prose''),
    (''child_prose_romantic'', ''Children'' @ [CHR 0x27] @ ''s Prose''),
    (''detakaya_proza'', ''Children'' @ [CHR 0x27] @ ''s Prose''),
    (''child_sf'', ''Children'' @ [CHR 0x27] @ ''s Science Fiction''),
    (''child_sf_horror'', ''Children'' @ [CHR 0x27] @ ''s Science Fiction''),
    (''child_sf_space'', ''Children'' @ [CHR 0x27] @ ''s Science Fiction''),
    (''child_verse'', ''Children'' @ [CHR 0x27] @ ''s Verses''), (''chris_edu'', ''Christian Education''),
    (''chris_fiction'', ''Christian Fiction''),
    ([CHR 0xD0, CHR 0xA5, CHR 0xD1, CHR 0x80, CHR 0xD0, CHR 0xB8, CHR 0xD1, CHR 0x81, CHR 0xD1, CHR 0x82, CHR 0xD0, CHR 0xB8, CHR 0xD0, CHR 0xB0, CHR 0xD0, CHR 0xBD, CHR 0xD1, CHR 0x81, CHR 0xD1, CHR 0x82, CHR 0xD0, CHR 0xB2, CHR 0xD0, CHR 0xBE], ''Christianity''),
    (''religion_christianity'', ''Christianity''), (''cine'', ''Cinema''), (''cinema_theatre'', ''Cinema & Theatre''),
    (''kinematograf_teatr'', ''Cinema & Theatre''), (''klassicheskie'', ''Classic Literature''),
    (''literature_classics'', ''Classic Literature''),
    ([CHR 0xD0, CHR 0x9A, CHR 0xD0, CHR 0xBB, CHR 0xD0, CHR 0xB0, CHR 0xD1, CHR 0x81, CHR 0xD1, CHR 0x81, CHR 0xD0, CHR 0xB8, CHR 0xD1, CHR 0x87, CHR 0xD0, CHR 0xB5, CHR 0xD1, CHR 0x81, CHR 0xD0, CHR 0xBA, CHR 0xD0, CHR 0xB0, CHR 0xD1, CHR 0x8F] @ '' '' @ [CHR 0xD0, CHR 0xBF, CHR 0xD1, CHR 0x80, CHR 0xD0, CHR 0xBE, CHR 0xD0, CHR 0xB7, CHR 0xD0, CHR 0xB0], ''Classic Prose''),
    (''prose_classic'', ''Classic Prose''), (''det_classic'', ''Classical Detectives''),
    (''poetry_classical'', ''Classical Poetry''), (''poetry_for_classical'', ''Classical Poetry''),
    (''home_collecting'', ''Collecting''), (''collection'', ''Collection''),
    ([CHR 0xD0, CHR 0x9A, CHR 0xD0, CHR 0xBE, CHR 0xD0, CHR 0xBC, CHR 0xD0, CHR 0xB5, CHR 0xD0, CHR 0xB4, CHR 0xD0, CHR 0xB8, CHR 0xD1, CHR 0x8F], ''Comedy''),
    (''Comedy'', ''Comedy''), (''comedy'', ''Comedy''), (''comics'', ''Comics & Graphic Novels''),
    (''tbg_computers'', ''Computer Education''), (''comp_all'', ''Computers & Internet''),
    (''computer_translation'', ''Computers & Internet''), (''computers'', ''Computers & Internet''),
    (''outdoors_conservation'', ''Conservation''), (''sci_build'', ''Construction & Architecture''),
    (''sovremennye'', ''Contemporary Fiction''), (''sovremennyye'', ''Contemporary Fiction''),
    (''foreign_contemporary'', ''Contemporary Foreign Fiction''),
    (''knigi_sovremennaya_proza_zarubezhnaya'', ''Contemporary Foreign Fiction''),
    ([CHR 0xD0, CHR 0xA1, CHR 0xD0, CHR 0xBE, CHR 0xD0, CHR 0xB2, CHR 0xD1, CHR 0x80, CHR 0xD0, CHR 0xB5, CHR 0xD0, CHR 0xBC, CHR 0xD0, CHR 0xB5, CHR 0xD0, CHR 0xBD, CHR 0xD0, CHR 0xBD, CHR 0xD0, CHR 0xB0, CHR 0xD1, CHR 0x8F] @ '' '' @ [CHR 0xD0, CHR 0x9F, CHR 0xD1, CHR 0x80, CHR 0xD0, CHR 0xBE, CHR 0xD0, CHR 0xB7, CHR 0xD0, CHR 0xB0], ''Contemporary Prose''),
    ([CHR 0xD0, CHR 0xA1, CHR 0xD0, CHR 0xBE, CHR 0xD0, CHR 0xB2, CHR 0xD1, CHR 0x80, CHR 0xD0, CHR 0xB5, CHR 0xD0, CHR 0xBC, CHR 0xD0, CHR 0xB5, CHR 0xD0, CHR 0xBD, CHR 0xD0, CHR 0xBD, CHR 0xD0, CHR 0xB0, CHR 0xD1, CHR 0x8F] @ '' '' @ [CHR 0xD0, CHR 0xBF, CHR 0xD1, CHR 0x80, CHR 0xD0, CHR 0xBE, CHR 0xD0, CHR 0xB7, CHR 0xD0, CHR 0xB0], ''Contemporary Prose''),
    ([CHR 0xD1, CHR 0x81, CHR 0xD0, CHR 0xBE, CHR 0xD0, CHR 0xB2, CHR 0xD1, CHR 0x80, CHR 0xD0, CHR 0xB5, CHR 0xD0, CHR 0xBC, CHR 0xD0, CHR 0xB5, CHR 0xD0, CHR 0xBD, CHR 0xD0, CHR 0xBD, CHR 0xD0, CHR 0xB0, CHR 0xD1, CHR 0x8F] @ '' '' @ [CHR 0xD0, CHR 0xBF, CHR 0xD1, CHR 0x80, CHR 0xD0, CHR 0xBE, CHR 0xD0, CHR 0xB7, CHR 0xD0, CHR 0xB0], ''Contemporary Prose''),
    (''prose_contemporary'', ''Contemporary Prose''), (''love_contemporary'', ''Contemporary Romance''),
    (''romance_contemporary'', ''Contemporary Romance''), (''russian_contemporary'', ''Contemporary Russian Fiction''),
    (''cooking'', ''Cooking''), (''home_cooking'', ''Cooking''), (''prose_counter'', ''Counterculture''),
    (''det_cozy'', ''Cozy Mysteries''), (''Assassins'', ''Crime''), (''det_crime'', ''Crime''),
    (''Murder'', ''Crime''), (''Murder - General'', ''Crime''), (''Organized Crime'', ''Crime''),
    (''Murder - England - Wiltshire - History - 19th century'', ''Crime Non-Fiction''),
    (''nonfiction_crime'', ''Crime Non-Fiction''), (''True Crime'', ''Crime Non-Fiction''),
    (''kriminologiya'', ''Criminology''), (''nonf_criticism'', ''Criticism''),
    (''kulturologiya'', ''Cultural Studies''), (''sci_culture'', ''Cultural Studies''), (''cyberpunk'', ''Cyberpunk'')]"

definition genre_names_3 :: "(string \<times> string) list" where
  "genre_names_3 =
   [(''sf_cyber_punk'', ''Cyberpunk''), (''sf_cyberpunk'', ''Cyberpunk''), (''music_dancing'', ''Dance''),
    ([CHR 0xD1, CHR 0x82, CHR 0xD0, CHR 0xB5, CHR 0xD0, CHR 0xBC, CHR 0xD0, CHR 0xBD, CHR 0xD0, CHR 0xB0, CHR 0xD1, CHR 0x8F] @ '' '' @ [CHR 0xD1, CHR 0x84, CHR 0xD0, CHR 0xB0, CHR 0xD0, CHR 0xBD, CHR 0xD1, CHR 0x82, CHR 0xD0, CHR 0xB0, CHR 0xD1, CHR 0x81, CHR 0xD1, CHR 0x82, CHR 0xD0, CHR 0xB8, CHR 0xD0, CHR 0xBA, CHR 0xD0, CHR 0xB0], ''Dark Fantasy''),
    (''dark_fantasy'', ''Dark Fantasy''), (''fantasy_dark'', ''Dark Fantasy''), (''comp_db'', ''Databases''),
    (''detective_science_fiction'', ''Detective''), (''sf_detective'', ''Detective''),
    (''det_action'', ''Detective Action''), (''love_detective'', ''Detective Romance''),
    ([CHR 0xD0, CHR 0x94, CHR 0xD0, CHR 0xB5, CHR 0xD1, CHR 0x82, CHR 0xD0, CHR 0xB5, CHR 0xD0, CHR 0xBA, CHR 0xD1, CHR 0x82, CHR 0xD0, CHR 0xB8, CHR 0xD0, CHR 0xB2], ''Detectives''),
    (''det_all'', ''Detectives''), (''det_lady'', ''Detectives''), (''det_rus'', ''Detectives''),
    (''detective'', ''Detectives''), (''Detective'', ''Detectives''), (''Detectives'', ''Detectives''),
    (''Detectives - England - London'', ''Detectives''), (''detektive'', ''Detectives''),
    (''Maigret'', ''Detectives''), (''Mystery & Detective'', ''Detectives''),
    (''Mystery & Detective Fiction'', ''Detectives''), (''ref_dict'', ''Dictionaries''),
    (''dissident'', ''Dissident Literature''), (''home_diy'', ''Do It Yourself''),
    (''dragon_fantasy'', ''Dragon Fantasy''), (''drakony'', ''Dragon Fantasy''),
    ([CHR 0xD0, CHR 0x94, CHR 0xD1, CHR 0x80, CHR 0xD0, CHR 0xB0, CHR 0xD0, CHR 0xBC, CHR 0xD0, CHR 0xB0], ''Drama''),
    (''dorama'', ''Drama''), (''drama'', ''Drama''), (''Drama'', ''Drama''), (''literature_drama'', ''Drama''),
    (''dramaturgy'', ''Dramaturgy''), (''dramaturgy_all'', ''Dramaturgy''),
    ([CHR 0xD0, CHR 0x90, CHR 0xD0, CHR 0xBD, CHR 0xD1, CHR 0x82, CHR 0xD0, CHR 0xB8, CHR 0xD1, CHR 0x83, CHR 0xD1, CHR 0x82, CHR 0xD0, CHR 0xBE, CHR 0xD0, CHR 0xBF, CHR 0xD0, CHR 0xB8, CHR 0xD1, CHR 0x8F], ''Dystopian''),
    (''dystopia'', ''Dystopian''), (''Dystopian'', ''Dystopian''), (''dystopian'', ''Dystopian''),
    (''science_earth'', ''Earth Sciences''), (''poetry_east'', ''Eastern Poetry''),
    (''religion_east'', ''Eastern Religions''),
    ([CHR 0xD1, CHR 0x83, CHR 0xD1, CHR 0x81, CHR 0xD1, CHR 0x82, CHR 0xD0, CHR 0xBE, CHR 0xD0, CHR 0xB9, CHR 0xD1, CHR 0x87, CHR 0xD0, CHR 0xB8, CHR 0xD0, CHR 0xB2, CHR 0xD0, CHR 0xBE, CHR 0xD0, CHR 0xB5] @ '' '' @ [CHR 0xD1, CHR 0x80, CHR 0xD0, CHR 0xB0, CHR 0xD0, CHR 0xB7, CHR 0xD0, CHR 0xB2, CHR 0xD0, CHR 0xB8, CHR 0xD1, CHR 0x82, CHR 0xD0, CHR 0xB8, CHR 0xD0, CHR 0xB5], ''Ecology''),
    ([CHR 0xD1, CHR 0x8D, CHR 0xD0, CHR 0xBA, CHR 0xD0, CHR 0xBE, CHR 0xD0, CHR 0xBB, CHR 0xD0, CHR 0xBE, CHR 0xD0, CHR 0xB3, CHR 0xD0, CHR 0xB8, CHR 0xD1, CHR 0x8F], ''Ecology''),
    (''sci_ecology'', ''Ecology''),
    ([CHR 0xD0, CHR 0xAD, CHR 0xD0, CHR 0xBA, CHR 0xD0, CHR 0xBE, CHR 0xD0, CHR 0xBD, CHR 0xD0, CHR 0xBE, CHR 0xD0, CHR 0xBC, CHR 0xD0, CHR 0xB8, CHR 0xD0, CHR 0xBA, CHR 0xD0, CHR 0xB0], ''Economics''),
    ([CHR 0xD1, CHR 0x8D, CHR 0xD0, CHR 0xBA, CHR 0xD0, CHR 0xBE, CHR 0xD0, CHR 0xBD, CHR 0xD0, CHR 0xBE, CHR 0xD0, CHR 0xBC, CHR 0xD0, CHR 0xB8, CHR 0xD0, CHR 0xBA, CHR 0xD0, CHR 0xB0] @ '' '' @ [CHR 0xD0, CHR 0xB4, CHR 0xD0, CHR 0xB0, CHR 0xD1, CHR 0x80, CHR 0xD0, CHR 0xB0], ''Economics''),
    (''biz_economics'', ''Economics''), (''economics'', ''Economics''), (''Economics'', ''Economics''),
    (''economics_ref'', ''Economics''), (''global_economy'', ''Economics''), (''sci_economy'', ''Economics''),
    (''foreign_edu'', ''Education''), (''nonfiction_edu'', ''Education''),
    (''zarubezhnaya_obrazovatelnaya_literatura'', ''Education''), (''child_education'', ''Educational''),
    (''detskaya_pazvivayushaya_literatura'', ''Educational''), (''ref_encyc'', ''Encyclopedias''),
    (''home_entertain'', ''Entertaining''), (''entert_humor'', ''Entertainment & Humor''), (''epic'', ''Epic''),
    (''prose_epic'', ''Epic''), (''sf_epic'', ''Epic''), (''epic_fantasy'', ''Epic Fantasy''),
    (''fantasy_epic'', ''Epic Fantasy''), (''epic_poetry'', ''Epic Poetry''),
    (''epistolary_fiction'', ''Epistolary Fiction''),
    ([CHR 0xD0, CHR 0xAD, CHR 0xD1, CHR 0x80, CHR 0xD0, CHR 0xBE, CHR 0xD1, CHR 0x82, CHR 0xD0, CHR 0xB8, CHR 0xD1, CHR 0x87, CHR 0xD0, CHR 0xB5, CHR 0xD1, CHR 0x81, CHR 0xD0, CHR 0xBA, CHR 0xD0, CHR 0xBE, CHR 0xD0, CHR 0xB5] @ '' '' @ [CHR 0xD1, CHR 0x84, CHR 0xD1, CHR 0x8D, CHR 0xD0, CHR 0xBD, CHR 0xD1, CHR 0x82, CHR 0xD0, CHR 0xB5, CHR 0xD0, CHR 0xB7, CHR 0xD0, CHR 0xB8], ''Erotic Fantasy''),
    (''erotic_fantasy'', ''Erotic Fantasy''), (''fantasy_erotika'', ''Erotic Fantasy''),
    (''love_hard'', ''Erotic Romance''), (''literature_erotica'', ''Erotica''), (''love_erotica'', ''Erotica''),
    (''health_sex'', ''Erotica & Sex''), (''home_sex'', ''Erotica & Sex''), (''sexual_perversion'', ''Erotica & Sex''),
    ([CHR 0xD0, CHR 0xAD, CHR 0xD0, CHR 0xB7, CHR 0xD0, CHR 0xBE, CHR 0xD1, CHR 0x82, CHR 0xD0, CHR 0xB5, CHR 0xD1, CHR 0x80, CHR 0xD0, CHR 0xB8, CHR 0xD0, CHR 0xBA, CHR 0xD0, CHR 0xB0], ''Esoterics''),
    (''palmistry'', ''Esoterics''), (''religion_esoterics'', ''Esoterics''),
    ([CHR 0xD0, CHR 0xA8, CHR 0xD0, CHR 0xBF, CHR 0xD0, CHR 0xB8, CHR 0xD0, CHR 0xBE, CHR 0xD0, CHR 0xBD, CHR 0xD1, CHR 0x81, CHR 0xD0, CHR 0xBA, CHR 0xD0, CHR 0xB8, CHR 0xD0, CHR 0xB9] @ '' '' @ [CHR 0xD0, CHR 0x94, CHR 0xD0, CHR 0xB5, CHR 0xD1, CHR 0x82, CHR 0xD0, CHR 0xB5, CHR 0xD0, CHR 0xBA, CHR 0xD1, CHR 0x82, CHR 0xD0, CHR 0xB8, CHR 0xD0, CHR 0xB2], ''Espionage''),
    (''det_espionage'', ''Espionage''), (''Espionage'', ''Espionage''), (''Fiction - Espionage'', ''Espionage''),
    (''essay'', ''Essays''), (''essays'', ''Essays''), (''literature_essay'', ''Essays''),
    (''antique_european'', ''European Antique''), (''everyday_fantasy'', ''Everyday Fantasy''),
    ([CHR 0xD0, CHR 0xAD, CHR 0xD0, CHR 0xBA, CHR 0xD1, CHR 0x81, CHR 0xD0, CHR 0xBF, CHR 0xD0, CHR 0xB5, CHR 0xD1, CHR 0x80, CHR 0xD0, CHR 0xB8, CHR 0xD0, CHR 0xBC, CHR 0xD0, CHR 0xB5, CHR 0xD0, CHR 0xBD, CHR 0xD1, CHR 0x82], ''Experimental Fiction''),
    (''experimental_poetry'', ''Experimental Poetry''), (''prose_neformatny'', ''Experimental Prose''),
    (''extravaganza'', ''Extravaganza''), (''fable'', ''Fables''),
    ([CHR 0xD0, CHR 0x9A, CHR 0xD0, CHR 0xB0, CHR 0xD0, CHR 0xB7, CHR 0xD0, CHR 0xBA, CHR 0xD0, CHR 0xB8], ''Fairy Tales''),
    ([CHR 0xD0, CHR 0xA1, CHR 0xD0, CHR 0xBA, CHR 0xD0, CHR 0xB0, CHR 0xD0, CHR 0xB7, CHR 0xD0, CHR 0xBA, CHR 0xD0, CHR 0xB0], ''Fairy Tales''),
    (''child_tale'', ''Fairy Tales'')]"

definition genre_names_4 :: "(string \<times> string) list" where
  "genre_names_4 =
   [(''fairy_tale'', ''Fairy Tales''), (''literature_fairy'', ''Fairy Tales''), (''skazki'', ''Fairy Tales''),
    (''family'', ''Family''), (''family_relations'', ''Family''), (''family_health'', ''Family Health''),
    (''fan_translation'', ''Fan Translation''),
    ([CHR 0xD0, CHR 0x90, CHR 0xD0, CHR 0xBD, CHR 0xD0, CHR 0xB3, CHR 0xD1, CHR 0x81, CHR 0xD1, CHR 0x82], ''Fanfiction''),
    ([CHR 0xD0, CHR 0x94, CHR 0xD0, CHR 0xB0, CHR 0xD1, CHR 0x80, CHR 0xD0, CHR 0xBA, CHR 0xD1, CHR 0x84, CHR 0xD0, CHR 0xB8, CHR 0xD0, CHR 0xBA], ''Fanfiction''),
    ([CHR 0xD0, CHR 0x94, CHR 0xD0, CHR 0xB6, CHR 0xD0, CHR 0xB5, CHR 0xD0, CHR 0xBD], ''Fanfiction''),
    ([CHR 0xD0, CHR 0x9F, CHR 0xD0, CHR 0xB5, CHR 0xD1, CHR 0x80, CHR 0xD0, CHR 0xB2, CHR 0xD1, CHR 0x8B, CHR 0xD0, CHR 0xB9] @ '' '' @ [CHR 0xD1, CHR 0x80, CHR 0xD0, CHR 0xB0, CHR 0xD0, CHR 0xB7], ''Fanfiction''),
    ([CHR 0xD0, CHR 0x9F, CHR 0xD1, CHR 0x80, CHR 0xD0, CHR 0xBE, CHR 0xD0, CHR 0xBF, CHR 0xD1, CHR 0x83, CHR 0xD1, CHR 0x89, CHR 0xD0, CHR 0xB5, CHR 0xD0, CHR 0xBD, CHR 0xD0, CHR 0xBD, CHR 0xD0, CHR 0xB0, CHR 0xD1, CHR 0x8F] @ '' '' @ [CHR 0xD1, CHR 0x81, CHR 0xD1, CHR 0x86, CHR 0xD0, CHR 0xB5, CHR 0xD0, CHR 0xBD, CHR 0xD0, CHR 0xB0], ''Fanfiction''),
    ([CHR 0xD1, CHR 0x84, CHR 0xD0, CHR 0xB0, CHR 0xD0, CHR 0xBD, CHR 0xD1, CHR 0x84, CHR 0xD0, CHR 0xB8, CHR 0xD0, CHR 0xBA], ''Fanfiction''),
    ([CHR 0xD0, CHR 0xA4, CHR 0xD0, CHR 0xB0, CHR 0xD0, CHR 0xBD, CHR 0xD1, CHR 0x84, CHR 0xD0, CHR 0xB8, CHR 0xD0, CHR 0xBA], ''Fanfiction''),
    ([CHR 0xD0, CHR 0xA4, CHR 0xD0, CHR 0xBB, CHR 0xD0, CHR 0xB0, CHR 0xD1, CHR 0x84, CHR 0xD1, CHR 0x84], ''Fanfiction''),
    (''Angst'', ''Fanfiction''), (''AU'', ''Fanfiction''), (''Crossover'', ''Fanfiction''),
    (''Darkfic'', ''Fanfiction''), (''fanficion'', ''Fanfiction''), (''fanfiction'', ''Fanfiction''),
    (''femslash'', ''Fanfiction''), (''Hurt/comfort'', ''Fanfiction''), (''POV'', ''Fanfiction''),
    (''PWP'', ''Fanfiction''), (''slash'', ''Fanfiction''), (''Songfic'', ''Fanfiction''),
    ([CHR 0xD1, CHR 0x84, CHR 0xD0, CHR 0xB0, CHR 0xD0, CHR 0xBD, CHR 0xD1, CHR 0x82, CHR 0xD0, CHR 0xB0, CHR 0xD1, CHR 0x81, CHR 0xD1, CHR 0x82, CHR 0xD0, CHR 0xB8, CHR 0xD1, CHR 0x87, CHR 0xD0, CHR 0xB5, CHR 0xD1, CHR 0x81, CHR 0xD0, CHR 0xBA, CHR 0xD0, CHR 0xB8, CHR 0xD0, CHR 0xB9] @ '' '' @ [CHR 0xD0, CHR 0xBC, CHR 0xD0, CHR 0xB8, CHR 0xD1, CHR 0x80], ''Fantasy''),
    ([CHR 0xD0, CHR 0xA4, CHR 0xD0, CHR 0xB5, CHR 0xD0, CHR 0xBD, CHR 0xD1, CHR 0x82, CHR 0xD0, CHR 0xB5, CHR 0xD0, CHR 0xB7, CHR 0xD0, CHR 0xB8], ''Fantasy''),
    ([CHR 0xD0, CHR 0xA4, CHR 0xD0, CHR 0xB5, CHR 0xD0, CHR 0xBD, CHR 0xD1, CHR 0x82, CHR 0xD1, CHR 0x8A, CHR 0xD0, CHR 0xB7, CHR 0xD0, CHR 0xB8], ''Fantasy''),
    ([CHR 0xD0, CHR 0xA4, CHR 0xD1, CHR 0x8D, CHR 0xD0, CHR 0xBD, CHR 0xD1, CHR 0x82, CHR 0xD0, CHR 0xB5, CHR 0xD0, CHR 0xB7, CHR 0xD0, CHR 0xB8], ''Fantasy''),
    ([CHR 0xD1, CHR 0x84, CHR 0xD1, CHR 0x8D, CHR 0xD0, CHR 0xBD, CHR 0xD1, CHR 0x82, CHR 0xD0, CHR 0xB5, CHR 0xD0, CHR 0xB7, CHR 0xD0, CHR 0xB8], ''Fantasy''),
    (''f_fantasy'', ''Fantasy''), (''fairy_fantasy'', ''Fantasy''), (''fantasy'', ''Fantasy''),
    (''Fantasy'', ''Fantasy''), (''popadancy'', ''Fantasy''), (''popadanec'', ''Fantasy''),
    (''prose_magic'', ''Fantasy''), (''sf_fantasy'', ''Fantasy''),
    ([CHR 0xD0, CHR 0xA4, CHR 0xD1, CHR 0x8D, CHR 0xD0, CHR 0xBD, CHR 0xD1, CHR 0x82, CHR 0xD0, CHR 0xB5, CHR 0xD0, CHR 0xB7, CHR 0xD0, CHR 0xB8] @ '' '' @ [CHR 0xD0, CHR 0xAE, CHR 0xD0, CHR 0xBC, CHR 0xD0, CHR 0xBE, CHR 0xD1, CHR 0x80], ''Fantasy & Humor''),
    (''detective_fentezi'', ''Fantasy Detective''), (''fantasy_det'', ''Fantasy Detective''),
    ([CHR 0xD0, CHR 0x9B, CHR 0xD1, CHR 0x8E, CHR 0xD0, CHR 0xB1, CHR 0xD0, CHR 0xBE, CHR 0xD0, CHR 0xB2, CHR 0xD0, CHR 0xBD, CHR 0xD0, CHR 0xBE, CHR 0xD0, CHR 0xB5] @ '' '' @ [CHR 0xD1, CHR 0x84, CHR 0xD1, CHR 0x8D, CHR 0xD0, CHR 0xBD, CHR 0xD1, CHR 0x82, CHR 0xD0, CHR 0xB5, CHR 0xD0, CHR 0xB7, CHR 0xD0, CHR 0xB8], ''Fantasy Romance''),
    (''love_fantasy'', ''Fantasy Romance''), (''romance_fantasy'', ''Fantasy Romance''), (''Boys & Men'', ''Fiction''),
    (''Fiction'', ''Fiction''), (''fiction'', ''Fiction''), (''Fiction - General'', ''Fiction''),
    (''women_single'', ''Fiction''), (''banking'', ''Finance & Banking''), (''stock'', ''Finance & Investing''),
    (''folk_songs'', ''Folk Songs''), (''folk_tale'', ''Folk Tales''), (''folklor'', ''Folklore''),
    (''folklore'', ''Folklore''), (''folklore_all'', ''Folklore''), (''nonfiction_folklor'', ''Folklore''),
    (''foreign_action'', ''Foreign Action Fiction''), (''foreign_business'', ''Foreign Business''),
    (''detskie_knigi_zarubezhnye'', ''Foreign Children'' @ [CHR 0x27] @ ''s Books''),
    (''zarubezhnaya_klassika'', ''Foreign Classics''), (''zarubezhnaya_starinnaya'', ''Foreign Classics''),
    (''foreign_comp'', ''Foreign Computers''), (''foreign_detective'', ''Foreign Detectives''),
    (''knigi_detektivy_zarubezhnye'', ''Foreign Detectives''), (''foreign_dramaturgy'', ''Foreign Drama''),
    (''foreign_desc'', ''Foreign Essays''), (''child_tale_foreign_writers'', ''Foreign Fairy Tales''),
    (''foreign_fantasy'', ''Foreign Fantasy''), (''knigi_fentezi_zarubezhnye'', ''Foreign Fantasy''),
    (''foreign_humor'', ''Foreign Humor''), (''zarubezhnyy_umor'', ''Foreign Humor''),
    (''foreign_language'', ''Foreign Languages''), (''nemetckij_yazyk'', ''Foreign Languages''),
    (''zarubezhnaya'', ''Foreign Literature''), (''zarubezhnye'', ''Foreign Literature''),
    (''zarubezhnyye'', ''Foreign Literature''), (''foreign_poetry'', ''Foreign Poetry''),
    (''foreign_novel'', ''Foreign Prose''), (''foreign_prose'', ''Foreign Prose''),
    (''foreign_story'', ''Foreign Prose''), (''foreign_love'', ''Foreign Romance''),
    (''foreign_sf'', ''Foreign Science Fiction''), (''vers_libre'', ''Free Verse''),
    ([CHR 0xD0, CHR 0x94, CHR 0xD1, CHR 0x80, CHR 0xD1, CHR 0x83, CHR 0xD0, CHR 0xB6, CHR 0xD0, CHR 0xB1, CHR 0xD0, CHR 0xB0], ''Friendship''),
    (''prose_game'', ''Game-Inspired Prose''), (''home_garden'', ''Garden''), (''General'', ''General''),
    (''geography_book'', ''Geography''), (''sci_geo'', ''Geography''), (''gothic_novel'', ''Gothic Fiction''),
    (''ref_guide'', ''Guidebooks''), (''det_hard'', ''Hard-Boiled''), (''comp_hard'', ''Hardware''),
    (''health'', ''Health''), (''health_men'', ''Health'')]"

definition genre_names_5 :: "(string \<times> string) list" where
  "genre_names_5 =
   [(''health_rel'', ''Health''), (''health_women'', ''Health''), (''home_health'', ''Health''),
    (''teens_health'', ''Health''), (''health_psy'', ''Health Psychology''), (''sf_heroic'', ''Heroic''),
    (''fantasy_heroic'', ''Heroic Fantasy''), (''geroicheskoe_fentezi'', ''Heroic Fantasy''),
    (''heroic_fantasy'', ''Heroic Fantasy''), (''tbg_higher'', ''Higher Education''),
    (''religion_hinduism'', ''Hinduism''),
    ([CHR 0xD0, CHR 0xB8, CHR 0xD1, CHR 0x81, CHR 0xD1, CHR 0x82, CHR 0xD0, CHR 0xBE, CHR 0xD1, CHR 0x80, CHR 0xD0, CHR 0xB8, CHR 0xD1, CHR 0x87, CHR 0xD0, CHR 0xB5, CHR 0xD1, CHR 0x81, CHR 0xD0, CHR 0xBA, CHR 0xD0, CHR 0xB8, CHR 0xD0, CHR 0xB9] @ '' '' @ [CHR 0xD0, CHR 0xB4, CHR 0xD0, CHR 0xB5, CHR 0xD1, CHR 0x82, CHR 0xD0, CHR 0xB5, CHR 0xD0, CHR 0xBA, CHR 0xD1, CHR 0x82, CHR 0xD0, CHR 0xB8, CHR 0xD0, CHR 0xB2], ''Historical Detectives''),
    (''det_history'', ''Historical Detectives''), (''knigi_detektivy_istoricheskie'', ''Historical Detectives''),
    (''historical_fantasy'', ''Historical Fantasy''), (''historical_fiction'', ''Historical Fiction''),
    (''istoricheskaya'', ''Historical Fiction''), (''istoricheskaya_literatura'', ''Historical Fiction''),
    (''literature_history'', ''Historical Fiction''),
    ([CHR 0xD0, CHR 0x98, CHR 0xD1, CHR 0x81, CHR 0xD1, CHR 0x82, CHR 0xD0, CHR 0xBE, CHR 0xD1, CHR 0x80, CHR 0xD0, CHR 0xB8, CHR 0xD1, CHR 0x87, CHR 0xD0, CHR 0xB5, CHR 0xD1, CHR 0x81, CHR 0xD0, CHR 0xBA, CHR 0xD0, CHR 0xB0, CHR 0xD1, CHR 0x8F] @ '' '' @ [CHR 0xD0, CHR 0xBF, CHR 0xD1, CHR 0x80, CHR 0xD0, CHR 0xBE, CHR 0xD0, CHR 0xB7, CHR 0xD0, CHR 0xB0], ''Historical Prose''),
    (''prose_history'', ''Historical Prose''),
    ([CHR 0xD0, CHR 0x98, CHR 0xD1, CHR 0x81, CHR 0xD1, CHR 0x82, CHR 0xD0, CHR 0xBE, CHR 0xD1, CHR 0x80, CHR 0xD0, CHR 0xB8, CHR 0xD1, CHR 0x87, CHR 0xD0, CHR 0xB5, CHR 0xD1, CHR 0x81, CHR 0xD0, CHR 0xBA, CHR 0xD0, CHR 0xB8, CHR 0xD0, CHR 0xB5] @ '' '' @ [CHR 0xD0, CHR 0xBB, CHR 0xD1, CHR 0x8E, CHR 0xD0, CHR 0xB1, CHR 0xD0, CHR 0xBE, CHR 0xD0, CHR 0xB2, CHR 0xD0, CHR 0xBD, CHR 0xD1, CHR 0x8B, CHR 0xD0, CHR 0xB5] @ '' '' @ [CHR 0xD1, CHR 0x80, CHR 0xD0, CHR 0xBE, CHR 0xD0, CHR 0xBC, CHR 0xD0, CHR 0xB0, CHR 0xD0, CHR 0xBD, CHR 0xD1, CHR 0x8B], ''Historical Romance''),
    (''love_history'', ''Historical Romance''), (''romance_historical'', ''Historical Romance''),
    (''19th century'', ''History''),
    ([CHR 0xD0, CHR 0x98, CHR 0xD1, CHR 0x81, CHR 0xD1, CHR 0x82, CHR 0xD0, CHR 0xBE, CHR 0xD1, CHR 0x80, CHR 0xD0, CHR 0xB8, CHR 0xD1, CHR 0x87, CHR 0xD0, CHR 0xB5, CHR 0xD1, CHR 0x81, CHR 0xD0, CHR 0xBA, CHR 0xD0, CHR 0xB8, CHR 0xD0, CHR 0xB5] @ '' '' @ [CHR 0xD1, CHR 0x8D, CHR 0xD0, CHR 0xBF, CHR 0xD0, CHR 0xBE, CHR 0xD1, CHR 0x85, CHR 0xD0, CHR 0xB8], ''History''),
    ([CHR 0xD0, CHR 0xB8, CHR 0xD1, CHR 0x81, CHR 0xD1, CHR 0x82, CHR 0xD0, CHR 0xBE, CHR 0xD1, CHR 0x80, CHR 0xD0, CHR 0xB8, CHR 0xD1, CHR 0x8F], ''History''),
    ([CHR 0xD0, CHR 0x98, CHR 0xD1, CHR 0x81, CHR 0xD1, CHR 0x82, CHR 0xD0, CHR 0xBE, CHR 0xD1, CHR 0x80, CHR 0xD0, CHR 0xB8, CHR 0xD1, CHR 0x8F], ''History''),
    ([CHR 0xD0, CHR 0x86, CHR 0xD1, CHR 0x81, CHR 0xD1, CHR 0x82, CHR 0xD0, CHR 0xBE, CHR 0xD1, CHR 0x80, CHR 0xD1, CHR 0x96, CHR 0xD1, CHR 0x8F], ''History''),
    (''adv_history'', ''History''), (''ci_history'', ''History''), (''equ_history'', ''History''),
    (''History'', ''History''), (''history_asia'', ''History''), (''history_australia'', ''History''),
    (''history_europe'', ''History''), (''history_middle_east'', ''History''), (''history_russia'', ''History''),
    (''history_usa'', ''History''), (''history_world'', ''History''), (''History: World'', ''History''),
    (''populyarnaya_istoriya'', ''History''), (''sci_history'', ''History''), (''sci_history_20'', ''History''),
    (''sci_history_21'', ''History''), (''science_history_philosophy'', ''History & Philosophy of Science''),
    (''home_crafts'', ''Hobbies & Crafts''), (''foreign_home'', ''Home & Family''), (''home'', ''Home & Family''),
    (''home_all'', ''Home & Family''), (''horror'', ''Horror''), (''horror_fantasy'', ''Horror''),
    (''horror_usa'', ''Horror''), (''horror_vampires'', ''Horror''), (''vampire_book'', ''Horror''),
    (''sf_horror'', ''Horror & Mystic''),
    ([CHR 0xD0, CHR 0xAE, CHR 0xD0, CHR 0xBC, CHR 0xD0, CHR 0xBE, CHR 0xD1, CHR 0x80], ''Humor''),
    (''humor'', ''Humor''), (''Humor'', ''Humor''), (''humor_all'', ''Humor''), (''humor_fantasy'', ''Humor''),
    (''sf_humor'', ''Humor''), (''ironical_fantasy'', ''Humorous Fantasy''),
    (''sf_fantasy_irony'', ''Humorous Fantasy''),
    ([CHR 0xD1, CHR 0x8E, CHR 0xD0, CHR 0xBC, CHR 0xD0, CHR 0xBE, CHR 0xD1, CHR 0x80, CHR 0xD0, CHR 0xB8, CHR 0xD1, CHR 0x81, CHR 0xD1, CHR 0x82, CHR 0xD0, CHR 0xB8, CHR 0xD1, CHR 0x87, CHR 0xD0, CHR 0xB5, CHR 0xD1, CHR 0x81, CHR 0xD0, CHR 0xBA, CHR 0xD0, CHR 0xB0, CHR 0xD1, CHR 0x8F] @ '' '' @ [CHR 0xD0, CHR 0xBF, CHR 0xD1, CHR 0x80, CHR 0xD0, CHR 0xBE, CHR 0xD0, CHR 0xB7, CHR 0xD0, CHR 0xB0], ''Humorous Prose''),
    (''humor_prose'', ''Humorous Prose''), (''umoristicheskaya_proza'', ''Humorous Prose''),
    ([CHR 0xD1, CHR 0x8E, CHR 0xD0, CHR 0xBC, CHR 0xD0, CHR 0xBE, CHR 0xD1, CHR 0x80, CHR 0xD0, CHR 0xB8, CHR 0xD1, CHR 0x81, CHR 0xD1, CHR 0x82, CHR 0xD0, CHR 0xB8, CHR 0xD1, CHR 0x87, CHR 0xD0, CHR 0xB5, CHR 0xD1, CHR 0x81, CHR 0xD0, CHR 0xBA, CHR 0xD0, CHR 0xB0, CHR 0xD1, CHR 0x8F] @ '' '' @ [CHR 0xD1, CHR 0x84, CHR 0xD0, CHR 0xB0, CHR 0xD0, CHR 0xBD, CHR 0xD1, CHR 0x82, CHR 0xD0, CHR 0xB0, CHR 0xD1, CHR 0x81, CHR 0xD1, CHR 0x82, CHR 0xD0, CHR 0xB8, CHR 0xD0, CHR 0xBA, CHR 0xD0, CHR 0xB0], ''Humorous SF''),
    (''sf_humory'', ''Humorous SF''), (''sf_irony'', ''Humorous SF''), (''humor_verse'', ''Humorous Verses''),
    (''outdoors_hunt_fish'', ''Hunting & Fishing''), (''adv_indian'', ''Indians''), (''industries'', ''Industries''),
    ([CHR 0xD0, CHR 0x98, CHR 0xD0, CHR 0xBD, CHR 0xD1, CHR 0x82, CHR 0xD0, CHR 0xB5, CHR 0xD1, CHR 0x80, CHR 0xD0, CHR 0xBD, CHR 0xD0, CHR 0xB5, CHR 0xD1, CHR 0x82], ''Internet''),
    (''comp_www'', ''Internet''),
    ([CHR 0xD0, CHR 0x98, CHR 0xD1, CHR 0x80, CHR 0xD0, CHR 0xBE, CHR 0xD0, CHR 0xBD, CHR 0xD0, CHR 0xB8, CHR 0xD1, CHR 0x87, CHR 0xD0, CHR 0xB5, CHR 0xD1, CHR 0x81, CHR 0xD0, CHR 0xBA, CHR 0xD0, CHR 0xB8, CHR 0xD0, CHR 0xB9] @ '' '' @ [CHR 0xD0, CHR 0xB4, CHR 0xD0, CHR 0xB5, CHR 0xD1, CHR 0x82, CHR 0xD0, CHR 0xB5, CHR 0xD0, CHR 0xBA, CHR 0xD1, CHR 0x82, CHR 0xD0, CHR 0xB8, CHR 0xD0, CHR 0xB2], ''Ironical Detectives''),
    (''det_irony'', ''Ironical Detectives''), (''ironicheskie'', ''Ironical Detectives''),
    ([CHR 0xD0, CHR 0xBF, CHR 0xD0, CHR 0xBE, CHR 0xD0, CHR 0xBF, CHR 0xD0, CHR 0xB0, CHR 0xD0, CHR 0xB4, CHR 0xD0, CHR 0xB0, CHR 0xD0, CHR 0xBD, CHR 0xD0, CHR 0xB5, CHR 0xD1, CHR 0x86], ''Isekai / Portal Fantasy''),
    ([CHR 0xD0, CHR 0x9F, CHR 0xD0, CHR 0xBE, CHR 0xD0, CHR 0xBF, CHR 0xD0, CHR 0xB0, CHR 0xD0, CHR 0xB4, CHR 0xD0, CHR 0xB0, CHR 0xD0, CHR 0xBD, CHR 0xD1, CHR 0x86, CHR 0xD1, CHR 0x8B], ''Isekai / Portal Fantasy''),
    (''religion_islam'', ''Islam''), (''religion_judaism'', ''Judaism''),
    ([CHR 0xD0, CHR 0x9D, CHR 0xD0, CHR 0xB0, CHR 0xD1, CHR 0x83, CHR 0xD0, CHR 0xBA, CHR 0xD0, CHR 0xBE, CHR 0xD0, CHR 0xB2, CHR 0xD0, CHR 0xBE] @ ''- '' @ [CHR 0xD0, CHR 0xBF, CHR 0xD1, CHR 0x80, CHR 0xD0, CHR 0xB0, CHR 0xD0, CHR 0xBA, CHR 0xD1, CHR 0x82, CHR 0xD0, CHR 0xB8, CHR 0xD1, CHR 0x87, CHR 0xD0, CHR 0xBD, CHR 0xD0, CHR 0xB8, CHR 0xD0, CHR 0xB9] @ '' '' @ [CHR 0xD0, CHR 0xBA, CHR 0xD0, CHR 0xBE, CHR 0xD0, CHR 0xBC, CHR 0xD0, CHR 0xB5, CHR 0xD0, CHR 0xBD, CHR 0xD1, CHR 0x82, CHR 0xD0, CHR 0xB0, CHR 0xD1, CHR 0x80], ''Jurisprudence''),
    (''nonfiction_law'', ''Jurisprudence''), (''professional_law'', ''Jurisprudence''),
    (''sci_juris'', ''Jurisprudence''), (''thriller_legal'', ''Legal Thrillers''),
    (''legkaya_proza'', ''Light Fiction''), (''limerick'', ''Limericks''),
    ([CHR 0xD1, CHR 0x8F, CHR 0xD0, CHR 0xB7, CHR 0xD1, CHR 0x8B, CHR 0xD0, CHR 0xBA, CHR 0xD0, CHR 0xBE, CHR 0xD0, CHR 0xB7, CHR 0xD0, CHR 0xBD, CHR 0xD0, CHR 0xB0, CHR 0xD0, CHR 0xBD, CHR 0xD0, CHR 0xB8, CHR 0xD0, CHR 0xB5], ''Linguistics''),
    (''sci_linguistic'', ''Linguistics''), (''Literary Criticism'', ''Literary Criticism''),
    (''literature_critic'', ''Literary Criticism''), (''literature'', ''Literature''),
    (''literature_18'', ''Literature''), (''literature_19'', ''Literature''), (''literature_20'', ''Literature''),
    (''literature_books'', ''Literature''),
    ([CHR 0xD0, CHR 0x9B, CHR 0xD0, CHR 0xB8, CHR 0xD1, CHR 0x82, CHR 0xD0, CHR 0xA0, CHR 0xD0, CHR 0x9F, CHR 0xD0, CHR 0x93], ''LitRPG''),
    ([CHR 0xD0, CHR 0xA0, CHR 0xD0, CHR 0xB5, CHR 0xD0, CHR 0xB0, CHR 0xD0, CHR 0xBB, CHR 0xD0, CHR 0xA0, CHR 0xD0, CHR 0x9F, CHR 0xD0, CHR 0x93], ''LitRPG''),
    (''litrpg'', ''LitRPG''), (''LitRpg'', ''LitRPG'')]"

definition genre_names_6 :: "(string \<times> string) list" where
  "genre_names_6 =
   [(''realrpg'', ''LitRPG''), (''sf_litrp'', ''LitRPG''), (''sf_litrpg'', ''LitRPG''), (''sf_litRPG'', ''LitRPG''),
    (''sf_realrpg'', ''LitRPG''), (''magician_book'', ''Magic''), (''magic_school'', ''Magic School''),
    (''management'', ''Management''), (''det_maniac'', ''Maniacs''), (''adv_maritime'', ''Maritime Fiction''),
    (''literature_sea'', ''Maritime Fiction''), (''marketing'', ''Marketing''), (''military_arts'', ''Martial Arts''),
    ([CHR 0xD0, CHR 0x9C, CHR 0xD0, CHR 0xB0, CHR 0xD1, CHR 0x82, CHR 0xD0, CHR 0xB5, CHR 0xD0, CHR 0xBC, CHR 0xD0, CHR 0xB0, CHR 0xD1, CHR 0x82, CHR 0xD0, CHR 0xB8, CHR 0xD0, CHR 0xBA, CHR 0xD0, CHR 0xB0], ''Mathematics''),
    (''sci_math'', ''Mathematics''), (''thriller_medical'', ''Medical Thrillers''), (''Medical'', ''Medicine''),
    (''medicine'', ''Medicine''), (''Physicians'', ''Medicine''), (''sci_medicine'', ''Medicine''),
    (''science_medicine'', ''Medicine''), (''military'', ''Military''), (''military_all'', ''Military''),
    (''military_special'', ''Military''), (''voennoe_delo_specsluzhby'', ''Military''),
    (''War & Military'', ''Military''), (''adv_military'', ''Military Adventure''),
    (''histor_military'', ''Military History''), (''history_military_science'', ''Military History''),
    (''military_history'', ''Military History''), (''nonf_military'', ''Military Non-Fiction''),
    (''prose_military'', ''Military Prose''), (''military_weapon'', ''Military Technology''),
    (''adv_modern'', ''Modern Adventure''), (''modern_tale'', ''Modern Fairy Tales''),
    (''poetry_for_modern'', ''Modern Poetry''), (''poetry_modern'', ''Modern Poetry''),
    (''poetry_rus_modern'', ''Modern Russian Poetry''), (''muzei_kollektsii'', ''Museums & Collections''),
    (''about_musicians'', ''Music''), (''music'', ''Music''), (''mystery'', ''Mystery''),
    (''American Mystery & Suspense Fiction'', ''Mystery Thriller''), (''Mysteries & Thrillers'', ''Mystery Thriller''),
    (''thriller_mystery'', ''Mystery Thriller''),
    ([CHR 0xD0, CHR 0x9C, CHR 0xD0, CHR 0xB8, CHR 0xD1, CHR 0x81, CHR 0xD1, CHR 0x82, CHR 0xD0, CHR 0xB8, CHR 0xD0, CHR 0xBA, CHR 0xD0, CHR 0xB0], ''Mystic & Supernatural''),
    (''mistika'', ''Mystic & Supernatural''), (''sf_mystic'', ''Mystic SF''),
    ([CHR 0xD0, CHR 0x9C, CHR 0xD0, CHR 0xB8, CHR 0xD1, CHR 0x84, CHR 0xD0, CHR 0xB8, CHR 0xD1, CHR 0x87, CHR 0xD0, CHR 0xB5, CHR 0xD1, CHR 0x81, CHR 0xD0, CHR 0xBA, CHR 0xD0, CHR 0xB8, CHR 0xD0, CHR 0xB5] @ '' '' @ [CHR 0xD1, CHR 0x81, CHR 0xD1, CHR 0x83, CHR 0xD1, CHR 0x89, CHR 0xD0, CHR 0xB5, CHR 0xD1, CHR 0x81, CHR 0xD1, CHR 0x82, CHR 0xD0, CHR 0xB2, CHR 0xD0, CHR 0xB0], ''Mythical Creatures''),
    ([CHR 0xD1, CHR 0x84, CHR 0xD0, CHR 0xB0, CHR 0xD0, CHR 0xBD, CHR 0xD1, CHR 0x82, CHR 0xD0, CHR 0xB0, CHR 0xD1, CHR 0x81, CHR 0xD1, CHR 0x82, CHR 0xD0, CHR 0xB8, CHR 0xD1, CHR 0x87, CHR 0xD0, CHR 0xB5, CHR 0xD1, CHR 0x81, CHR 0xD0, CHR 0xBA, CHR 0xD0, CHR 0xB8, CHR 0xD0, CHR 0xB5] @ '' '' @ [CHR 0xD1, CHR 0x81, CHR 0xD1, CHR 0x83, CHR 0xD1, CHR 0x89, CHR 0xD0, CHR 0xB5, CHR 0xD1, CHR 0x81, CHR 0xD1, CHR 0x82, CHR 0xD0, CHR 0xB2, CHR 0xD0, CHR 0xB0], ''Mythical Creatures''),
    (''antique_myths'', ''Myths, Legends & Epics''), (''mify_legendy_epos'', ''Myths, Legends & Epics''),
    (''adv_animal'', ''Nature & Animals''), (''child_animals'', ''Nature & Animals''),
    (''child_nature'', ''Nature & Animals''), (''outdoors_fauna'', ''Nature & Wildlife''),
    (''outdoors_nature_writing'', ''Nature & Wildlife''), (''network_literature'', ''Network Literature''),
    (''snetwork_literature'', ''Network Literature''), (''nejrobiologiya'', ''Neurobiology''),
    (''beginning_authors'', ''New Authors''), (''Case studies'', ''Non-Fiction''),
    (''dokumentalnaya_literatura'', ''Non-Fiction''), (''interview'', ''Non-Fiction''),
    (''nonf_all'', ''Non-Fiction''), (''nonfiction'', ''Non-Fiction''), (''nonfiction_spec_group'', ''Non-Fiction''),
    (''nonfiction_true_accounts'', ''Non-Fiction''), (''zarubezhnaya_prikladnaya_literatura'', ''Non-Fiction''),
    (''notes'', ''Notes & Essays''),
    ([CHR 0xD0, CHR 0xA0, CHR 0xD0, CHR 0xBE, CHR 0xD0, CHR 0xBC, CHR 0xD0, CHR 0xB0, CHR 0xD0, CHR 0xBD, CHR 0xD1, CHR 0x8B], ''Novel''),
    (''long_story'', ''Novel''), (''novel'', ''Novel''), (''roman'', ''Novel''), (''great_story'', ''Novella''),
    (''greate_story'', ''Novella''), (''health_nutrition'', ''Nutrition & Health''), (''religion_occult'', ''Occult''),
    (''horror_occult'', ''Occult Horror''), (''paper_work'', ''Office & Administration''),
    (''antique_east'', ''Old Eastern''), (''drevnevostochnaya'', ''Old Eastern''),
    (''antique_russian'', ''Old Russian''), (''org_behavior'', ''Organizational Behavior''),
    (''sci_oriental'', ''Oriental Studies''),
    ([CHR 0xD0, CHR 0x9F, CHR 0xD1, CHR 0x80, CHR 0xD0, CHR 0xB0, CHR 0xD0, CHR 0xB2, CHR 0xD0, CHR 0xBE, CHR 0xD1, CHR 0x81, CHR 0xD0, CHR 0xBB, CHR 0xD0, CHR 0xB0, CHR 0xD0, CHR 0xB2, CHR 0xD0, CHR 0xB8, CHR 0xD0, CHR 0xB5], ''Orthodox Christianity''),
    (''chris_orthodoxy'', ''Orthodox Christianity''), (''chris_pravoslavie'', ''Orthodox Christianity''),
    (''religion_orthodoxy'', ''Orthodox Christianity''), (''comp_osnet'', ''OS & Networking''), (''?'', ''Other''),
    (''105'', ''Other'')]"

definition genre_names_7 :: "(string \<times> string) list" where
  "genre_names_7 =
   [(''1979'', ''Other''), ([CHR 0xD1, CHR 0x8E], ''Other''), (''England'', ''Other''), (''f'', ''Other''),
    (''Lang:fr'', ''Other''), (''London'', ''Other''), (''other'', ''Other''), (''other_all'', ''Other''),
    (''unrecognised'', ''Other''), (''Whicher; Jonathan'', ''Other''), (''Wiltshire'', ''Other''),
    (''religion_paganism'', ''Paganism''), (''painting'', ''Painting & Visual Arts''),
    (''paranormal'', ''Paranormal Fiction''), (''family_parenting'', ''Parenting''),
    (''upbringing_book'', ''Parenting & Upbringing''),
    ([CHR 0xD0, CHR 0x9F, CHR 0xD0, CHR 0xB0, CHR 0xD1, CHR 0x80, CHR 0xD0, CHR 0xBE, CHR 0xD0, CHR 0xB4, CHR 0xD0, CHR 0xB8, CHR 0xD1, CHR 0x8F], ''Parody & Satire''),
    ([CHR 0xD0, CHR 0xA1, CHR 0xD1, CHR 0x82, CHR 0xD1, CHR 0x91, CHR 0xD0, CHR 0xB1], ''Parody & Satire''),
    (''Parody'', ''Parody & Satire''), (''pedagogy_book'', ''Pedagogy''), (''sci_pedagogy'', ''Pedagogy''),
    (''people'', ''People & Society''), (''performance'', ''Performing Arts''),
    ([CHR 0xD0, CHR 0x96, CHR 0xD1, CHR 0x83, CHR 0xD1, CHR 0x80, CHR 0xD0, CHR 0xBD, CHR 0xD0, CHR 0xB0, CHR 0xD0, CHR 0xBB, CHR 0xD1, CHR 0x8B], ''Periodicals''),
    (''newspapers'', ''Periodicals''), (''periodic'', ''Periodicals''), (''personal_finance'', ''Personal Finance''),
    (''domashnie_zhivotnye'', ''Pets''), (''home_pets'', ''Pets''), (''sci_philology'', ''Philology''),
    ([CHR 0xD0, CHR 0xA4, CHR 0xD0, CHR 0xB8, CHR 0xD0, CHR 0xBB, CHR 0xD0, CHR 0xBE, CHR 0xD1, CHR 0x81, CHR 0xD0, CHR 0xBE, CHR 0xD1, CHR 0x84, CHR 0xD0, CHR 0xB8, CHR 0xD1, CHR 0x8F], ''Philosophy''),
    (''nonfiction_philosophy'', ''Philosophy''), (''sci_philosophy'', ''Philosophy''), (''Physicists'', ''Physics''),
    (''Physics'', ''Physics''), (''Relativity'', ''Physics''), (''Relativity (Physics)'', ''Physics''),
    (''sci_phys'', ''Physics''), (''Unified Field Theories'', ''Physics''),
    ([CHR 0xD0, CHR 0xBF, CHR 0xD0, CHR 0xBE, CHR 0xD0, CHR 0xB5, CHR 0xD0, CHR 0xB7, CHR 0xD1, CHR 0x96, CHR 0xD1, CHR 0x8F], ''Poetry''),
    ([CHR 0xD0, CHR 0xBF, CHR 0xD0, CHR 0xBE, CHR 0xD1, CHR 0x8D, CHR 0xD0, CHR 0xB7, CHR 0xD0, CHR 0xB8, CHR 0xD1, CHR 0x8F], ''Poetry''),
    (''in_verse'', ''Poetry''), (''literature_poetry'', ''Poetry''), (''poem'', ''Poetry''), (''poetry'', ''Poetry''),
    (''poetry_all'', ''Poetry''), (''poeziya'', ''Poetry''), (''det_police'', ''Police Stories''),
    (''Law Enforcement'', ''Police Stories''), (''Policier'', ''Police Stories''),
    (''thriller_police'', ''Police Thrillers''), (''det_political'', ''Political Detectives''),
    (''literature_political'', ''Political Fiction''), (''sci_state'', ''Political Science''),
    (''Political'', ''Politics''), (''sci_politics'', ''Politics''),
    ([CHR 0xD0, CHR 0xB0, CHR 0xD0, CHR 0xBD, CHR 0xD0, CHR 0xB0, CHR 0xD1, CHR 0x80, CHR 0xD1, CHR 0x85, CHR 0xD0, CHR 0xB8, CHR 0xD0, CHR 0xB7, CHR 0xD0, CHR 0xBC], ''Politics & Society''),
    ([CHR 0xD0, CHR 0xB0, CHR 0xD0, CHR 0xBD, CHR 0xD0, CHR 0xB0, CHR 0xD1, CHR 0x80, CHR 0xD1, CHR 0x85, CHR 0xD0, CHR 0xB8, CHR 0xD1, CHR 0x8F], ''Politics & Society''),
    ([CHR 0xD0, CHR 0xB3, CHR 0xD0, CHR 0xB5, CHR 0xD0, CHR 0xBE, CHR 0xD0, CHR 0xBF, CHR 0xD0, CHR 0xBE, CHR 0xD0, CHR 0xBB, CHR 0xD0, CHR 0xB8, CHR 0xD1, CHR 0x82, CHR 0xD0, CHR 0xB8, CHR 0xD0, CHR 0xBA, CHR 0xD0, CHR 0xB0], ''Politics & Society''),
    (''nonfiction_politics'', ''Politics & Society''), (''popular_business'', ''Popular Business''),
    (''sci_psychology_popular'', ''Popular Psychology''), (''nauchno_populyarnaya_literatura'', ''Popular Science''),
    (''sci_popular'', ''Popular Science''), (''popadantsy'', ''Portal Fantasy''),
    (''popadantsy_v_magicheskie_miry'', ''Portal Fantasy''),
    ([CHR 0xD0, CHR 0x9F, CHR 0xD0, CHR 0xBE, CHR 0xD1, CHR 0x81, CHR 0xD1, CHR 0x82, CHR 0xD0, CHR 0xB0, CHR 0xD0, CHR 0xBF, CHR 0xD0, CHR 0xBE, CHR 0xD0, CHR 0xBA, CHR 0xD0, CHR 0xB0, CHR 0xD0, CHR 0xBB, CHR 0xD0, CHR 0xB8, CHR 0xD0, CHR 0xBF, CHR 0xD1, CHR 0x82, CHR 0xD0, CHR 0xB8, CHR 0xD0, CHR 0xBA, CHR 0xD0, CHR 0xB0], ''Post-Apocalyptic''),
    (''postapocalyptic'', ''Post-Apocalyptic''), (''sf_postapocalyptic'', ''Post-Apocalyptic''),
    (''family_pregnancy'', ''Pregnancy & Parenting''), (''comp_programming'', ''Programming''),
    ([CHR 0xD0, CHR 0x9F, CHR 0xD1, CHR 0x80, CHR 0xD0, CHR 0xBE, CHR 0xD0, CHR 0xB7, CHR 0xD0, CHR 0xB0], ''Prose''),
    (''narrative'', ''Prose''), (''proce'', ''Prose''), (''prose'', ''Prose''), (''Prose'', ''Prose''),
    (''prose_all'', ''Prose''), (''prose_root'', ''Prose''), (''religion_protestantism'', ''Protestantism''),
    (''proverbs'', ''Proverbs''), (''thriller_psychology'', ''Psychological Thriller''),
    ([CHR 0xD0, CHR 0x9F, CHR 0xD1, CHR 0x81, CHR 0xD0, CHR 0xB8, CHR 0xD1, CHR 0x85, CHR 0xD0, CHR 0xBE, CHR 0xD0, CHR 0xBB, CHR 0xD0, CHR 0xBE, CHR 0xD0, CHR 0xB3, CHR 0xD0, CHR 0xB8, CHR 0xD1, CHR 0x8F], ''Psychology''),
    ([CHR 0xD0, CHR 0xBF, CHR 0xD1, CHR 0x81, CHR 0xD0, CHR 0xB8, CHR 0xD1, CHR 0x85, CHR 0xD0, CHR 0xBE, CHR 0xD0, CHR 0xBB, CHR 0xD0, CHR 0xBE, CHR 0xD0, CHR 0xB3, CHR 0xD0, CHR 0xB8, CHR 0xD1, CHR 0x8F], ''Psychology''),
    (''foreign_psychology'', ''Psychology''), (''obschaya_psihologiya'', ''Psychology''),
    (''psy_alassic'', ''Psychology''), (''psy_generic'', ''Psychology''), (''psy_personal'', ''Psychology''),
    (''psy_sex_and_family'', ''Psychology''), (''psy_theraphy'', ''Psychology''), (''sci_psychology'', ''Psychology''),
    (''science_psy'', ''Psychology''), (''oratorskoye_iskusstvo'', ''Public Speaking''),
    ([CHR 0xD0, CHR 0xBF, CHR 0xD1, CHR 0x83, CHR 0xD0, CHR 0xB1, CHR 0xD0, CHR 0xBB, CHR 0xD0, CHR 0xB8, CHR 0xD1, CHR 0x86, CHR 0xD0, CHR 0xB8, CHR 0xD1, CHR 0x81, CHR 0xD1, CHR 0x82, CHR 0xD0, CHR 0xB8, CHR 0xD0, CHR 0xBA, CHR 0xD0, CHR 0xB0], ''Publicism''),
    ([CHR 0xD0, CHR 0x9F, CHR 0xD1, CHR 0x83, CHR 0xD0, CHR 0xB1, CHR 0xD0, CHR 0xBB, CHR 0xD0, CHR 0xB8, CHR 0xD1, CHR 0x86, CHR 0xD0, CHR 0xB8, CHR 0xD1, CHR 0x81, CHR 0xD1, CHR 0x82, CHR 0xD0, CHR 0xB8, CHR 0xD0, CHR 0xBA, CHR 0xD0, CHR 0xB0], ''Publicism''),
    ([CHR 0xD0, CHR 0x9F, CHR 0xD1, CHR 0x83, CHR 0xD0, CHR 0xB1, CHR 0xD0, CHR 0xBB, CHR 0xD0, CHR 0xB8, CHR 0xD1, CHR 0x86, CHR 0xD0, CHR 0xB8, CHR 0xD1, CHR 0x81, CHR 0xD1, CHR 0x82, CHR 0xD0, CHR 0xB8, CHR 0xD0, CHR 0xBA, CHR 0xD0, CHR 0xB0] @ '': '' @ [CHR 0xD0, CHR 0xBF, CHR 0xD1, CHR 0x80, CHR 0xD0, CHR 0xBE, CHR 0xD1, CHR 0x87, CHR 0xD0, CHR 0xB5, CHR 0xD0, CHR 0xB5], ''Publicism''),
    (''foreign_publicism'', ''Publicism''), (''nonf_publicism'', ''Publicism''),
    (''sci_radio'', ''Radio & Electronics''),
    ([CHR 0xD0, CHR 0x9D, CHR 0xD0, CHR 0xB5, CHR 0xD0, CHR 0xB4, CHR 0xD0, CHR 0xB2, CHR 0xD0, CHR 0xB8, CHR 0xD0, CHR 0xB6, CHR 0xD0, CHR 0xB8, CHR 0xD0, CHR 0xBC, CHR 0xD0, CHR 0xBE, CHR 0xD1, CHR 0x81, CHR 0xD1, CHR 0x82, CHR 0xD1, CHR 0x8C], ''Real Estate''),
    (''real_estate'', ''Real Estate'')]"

definition genre_names_8 :: "(string \<times> string) list" where
  "genre_names_8 =
   [(''hand_book'', ''Reference''), (''ref_all'', ''Reference''), (''ref_books'', ''Reference''),
    (''ref_ref'', ''Reference''), (''reference'', ''Reference''),
    ([CHR 0xD0, CHR 0xA0, CHR 0xD0, CHR 0xB5, CHR 0xD0, CHR 0xBB, CHR 0xD0, CHR 0xB8, CHR 0xD0, CHR 0xB3, CHR 0xD0, CHR 0xB8, CHR 0xD1, CHR 0x8F], ''Religion''),
    (''foreign_religion'', ''Religion''), (''religion'', ''Religion''), (''religion_all'', ''Religion''),
    (''religion_rel'', ''Religion''), (''literature_religion'', ''Religious Fiction''),
    ([CHR 0xD1, CHR 0x80, CHR 0xD0, CHR 0xB5, CHR 0xD0, CHR 0xBB, CHR 0xD0, CHR 0xB8, CHR 0xD0, CHR 0xB3, CHR 0xD0, CHR 0xB8, CHR 0xD0, CHR 0xBE, CHR 0xD0, CHR 0xB7, CHR 0xD0, CHR 0xBD, CHR 0xD0, CHR 0xB0, CHR 0xD1, CHR 0x8F] @ '' '' @ [CHR 0xD0, CHR 0xBB, CHR 0xD0, CHR 0xB8, CHR 0xD1, CHR 0x82, CHR 0xD0, CHR 0xB5, CHR 0xD1, CHR 0x80, CHR 0xD0, CHR 0xB0, CHR 0xD1, CHR 0x82, CHR 0xD1, CHR 0x83, CHR 0xD1, CHR 0x80, CHR 0xD0, CHR 0xB0], ''Religious Literature''),
    (''sci_religion'', ''Religious Studies''), (''riddles'', ''Riddles''),
    ([CHR 0xD0, CHR 0x9B, CHR 0xD1, CHR 0x8E, CHR 0xD0, CHR 0xB1, CHR 0xD0, CHR 0xBE, CHR 0xD0, CHR 0xB2, CHR 0xD1, CHR 0x8C] @ ''/'' @ [CHR 0xD0, CHR 0x9D, CHR 0xD0, CHR 0xB5, CHR 0xD0, CHR 0xBD, CHR 0xD0, CHR 0xB0, CHR 0xD0, CHR 0xB2, CHR 0xD0, CHR 0xB8, CHR 0xD1, CHR 0x81, CHR 0xD1, CHR 0x82, CHR 0xD1, CHR 0x8C], ''Romance''),
    ([CHR 0xD0, CHR 0xA0, CHR 0xD0, CHR 0xBE, CHR 0xD0, CHR 0xBC, CHR 0xD0, CHR 0xB0, CHR 0xD0, CHR 0xBD, CHR 0xD1, CHR 0x82, CHR 0xD0, CHR 0xB8, CHR 0xD0, CHR 0xBA, CHR 0xD0, CHR 0xB0], ''Romance''),
    ([CHR 0xD1, CHR 0x80, CHR 0xD0, CHR 0xBE, CHR 0xD0, CHR 0xBC, CHR 0xD0, CHR 0xB0, CHR 0xD0, CHR 0xBD, CHR 0xD1, CHR 0x82, CHR 0xD0, CHR 0xB8, CHR 0xD0, CHR 0xBA, CHR 0xD0, CHR 0xB0], ''Romance''),
    (''love'', ''Romance''), (''love_all'', ''Romance''), (''lubov'', ''Romance''), (''romance'', ''Romance''),
    (''Romance'', ''Romance''), (''romance_multicultural'', ''Romance''), (''love_sf'', ''Romance Science Fiction''),
    (''sf_love'', ''Romance Science Fiction''), (''romance_romantic_suspense'', ''Romantic Suspense''),
    (''klassicheskaya_literatura_russkaya'', ''Russian Classic Literature''),
    (''literature_rus_classsic'', ''Russian Classic Literature''), (''prose_rus_classic'', ''Russian Classic Prose''),
    (''prose_rus_classics'', ''Russian Classic Prose''), (''poetry_rus_classical'', ''Russian Classical Poetry''),
    (''child_tale_rus'', ''Russian Fairy Tales''), (''child_tale_russian_writers'', ''Russian Fairy Tales''),
    (''fantasy_rus'', ''Russian Fantasy''), (''russian_fantasy'', ''Russian Fantasy''),
    (''russian'', ''Russian Literature''), (''russkaya_literatura'', ''Russian Literature''),
    (''russkaya_poeziya'', ''Russian Poetry''), (''sf_rus'', ''Russian Science Fiction''), (''saga'', ''Sagas''),
    (''sagas'', ''Sagas''), (''samizdat'', ''Samizdat''), (''Black Humor (Literature)'', ''Satire & Humor''),
    (''humor_satire'', ''Satire & Humor''), (''umori_i_satira'', ''Satire & Humor''), (''scenarios'', ''Scenarios''),
    (''tbg_school'', ''School Education''),
    ([CHR 0xD0, CHR 0xA3, CHR 0xD1, CHR 0x87, CHR 0xD0, CHR 0xB5, CHR 0xD0, CHR 0xB1, CHR 0xD0, CHR 0xBD, CHR 0xD1, CHR 0x8B, CHR 0xD0, CHR 0xB5] @ '' '' @ [CHR 0xD0, CHR 0xB7, CHR 0xD0, CHR 0xB0, CHR 0xD0, CHR 0xB2, CHR 0xD0, CHR 0xB5, CHR 0xD0, CHR 0xB4, CHR 0xD0, CHR 0xB5, CHR 0xD0, CHR 0xBD, CHR 0xD0, CHR 0xB8, CHR 0xD1, CHR 0x8F], ''School Stories''),
    (''biologiya_i_himiya'', ''Science''), (''nauchnaya'', ''Science''), (''sci_abstract'', ''Science''),
    (''science'', ''Science''), (''Science'', ''Science''), (''Science & Technology'', ''Science''),
    (''this is science'', ''Science''), (''sf_technofantasy'', ''Science Fantasy''),
    ([CHR 0xD0, CHR 0xBC, CHR 0xD0, CHR 0xB8, CHR 0xD1, CHR 0x80, CHR 0xD1, CHR 0x8B] @ '' eve'', ''Science Fiction''),
    ([CHR 0xD0, CHR 0xBD, CHR 0xD0, CHR 0xB0, CHR 0xD1, CHR 0x83, CHR 0xD1, CHR 0x87, CHR 0xD0, CHR 0xBD, CHR 0xD0, CHR 0xB0, CHR 0xD1, CHR 0x8F] @ '' '' @ [CHR 0xD1, CHR 0x84, CHR 0xD0, CHR 0xB0, CHR 0xD0, CHR 0xBD, CHR 0xD1, CHR 0x82, CHR 0xD0, CHR 0xB0, CHR 0xD1, CHR 0x81, CHR 0xD1, CHR 0x82, CHR 0xD0, CHR 0xB8, CHR 0xD0, CHR 0xBA, CHR 0xD0, CHR 0xB0], ''Science Fiction''),
    ([CHR 0xD0, CHR 0x9D, CHR 0xD0, CHR 0xA4], ''Science Fiction''),
    ([CHR 0xD1, CHR 0x81, CHR 0xD0, CHR 0xBE, CHR 0xD0, CHR 0xB2, CHR 0xD1, CHR 0x80, CHR 0xD0, CHR 0xB5, CHR 0xD0, CHR 0xBC, CHR 0xD0, CHR 0xB5, CHR 0xD0, CHR 0xBD, CHR 0xD0, CHR 0xBD, CHR 0xD0, CHR 0xB0, CHR 0xD1, CHR 0x8F] @ '' '' @ [CHR 0xD1, CHR 0x84, CHR 0xD0, CHR 0xB0, CHR 0xD0, CHR 0xBD, CHR 0xD1, CHR 0x82, CHR 0xD0, CHR 0xB0, CHR 0xD1, CHR 0x81, CHR 0xD1, CHR 0x82, CHR 0xD0, CHR 0xB8, CHR 0xD0, CHR 0xBA, CHR 0xD0, CHR 0xB0], ''Science Fiction''),
    ([CHR 0xD0, CHR 0xA4, CHR 0xD0, CHR 0xB0, CHR 0xD0, CHR 0xBD, CHR 0xD1, CHR 0x82, CHR 0xD0, CHR 0xB0, CHR 0xD1, CHR 0x81, CHR 0xD1, CHR 0x82, CHR 0xD0, CHR 0xB8, CHR 0xD0, CHR 0xBA, CHR 0xD0, CHR 0xB0], ''Science Fiction''),
    (''klassika_fantastiki'', ''Science Fiction''), (''nsf'', ''Science Fiction''), (''sci-fi'', ''Science Fiction''),
    (''Science Fiction'', ''Science Fiction''), (''science_fiction'', ''Science Fiction''),
    (''sf'', ''Science Fiction''), (''SF'', ''Science Fiction''), (''sf_all'', ''Science Fiction''),
    (''sf_etc'', ''Science Fiction''), (''sf_paleontological'', ''Science Fiction''),
    (''romance_sf'', ''Science Fiction Romance''), (''sci_theories'', ''Scientific Theories''),
    (''screenplays'', ''Screenplays''), (''tbg_secondary'', ''Secondary Education''),
    (''health_self_help'', ''Self-Help & Health''),
    ([CHR 0xD0, CHR 0xA1, CHR 0xD0, CHR 0xB0, CHR 0xD0, CHR 0xBC, CHR 0xD0, CHR 0xBE, CHR 0xD1, CHR 0x81, CHR 0xD0, CHR 0xBE, CHR 0xD0, CHR 0xB2, CHR 0xD0, CHR 0xB5, CHR 0xD1, CHR 0x80, CHR 0xD1, CHR 0x88, CHR 0xD0, CHR 0xB5, CHR 0xD0, CHR 0xBD, CHR 0xD1, CHR 0x81, CHR 0xD1, CHR 0x82, CHR 0xD0, CHR 0xB2, CHR 0xD0, CHR 0xBE, CHR 0xD0, CHR 0xB2, CHR 0xD0, CHR 0xB0, CHR 0xD0, CHR 0xBD, CHR 0xD0, CHR 0xB8, CHR 0xD0, CHR 0xB5], ''Self-Improvement''),
    (''religion_self'', ''Self-Improvement''), (''samorazvitiye_lichnostny_rost'', ''Self-Improvement''),
    (''prose_sentimental'', ''Sentimental Prose''), (''love_short'', ''Short Romance''),
    (''literature_short'', ''Short Stories''), (''short_story'', ''Short Stories''), (''story'', ''Short Stories''),
    (''sketch'', ''Sketches''), (''slavic_fantasy'', ''Slavic Fantasy''),
    ([CHR 0xD0, CHR 0x9F, CHR 0xD0, CHR 0xBE, CHR 0xD0, CHR 0xB2, CHR 0xD1, CHR 0x81, CHR 0xD0, CHR 0xB5, CHR 0xD0, CHR 0xB4, CHR 0xD0, CHR 0xBD, CHR 0xD0, CHR 0xB5, CHR 0xD0, CHR 0xB2, CHR 0xD0, CHR 0xBD, CHR 0xD0, CHR 0xBE, CHR 0xD1, CHR 0x81, CHR 0xD1, CHR 0x82, CHR 0xD1, CHR 0x8C], ''Slice of Life''),
    (''istorii_iz_zhizni'', ''Slice of Life''), (''small_business'', ''Small Business''),
    (''psy_social'', ''Social Psychology''), (''nonfiction_social_sci'', ''Social Studies''),
    (''sci_social_studies'', ''Social Studies''), (''nonfiction_social_work'', ''Social Work''),
    (''sf_social'', ''Social-Philosophical''), (''nonfiction_sociology'', ''Sociology''),
    (''sociology_book'', ''Sociology'')]"

definition genre_names_9 :: "(string \<times> string) list" where
  "genre_names_9 =
   [(''comp_soft'', ''Software''), (''lyrics'', ''Song Lyrics & Poetry''), (''song_poetry'', ''Song Poetry''),
    (''prose_su_classic'', ''Soviet Classic Prose''), (''prose_su_classics'', ''Soviet Classic Prose''),
    (''literature_su_classics'', ''Soviet Literature''), (''su_publication'', ''Soviet Literature''),
    (''det_su'', ''Soviet-Era Detectives''), (''sf_space'', ''Space''),
    ([CHR 0xD0, CHR 0x9A, CHR 0xD0, CHR 0xBE, CHR 0xD1, CHR 0x81, CHR 0xD0, CHR 0xBC, CHR 0xD0, CHR 0xB8, CHR 0xD1, CHR 0x87, CHR 0xD0, CHR 0xB5, CHR 0xD1, CHR 0x81, CHR 0xD0, CHR 0xBA, CHR 0xD0, CHR 0xB0, CHR 0xD1, CHR 0x8F] @ '' '' @ [CHR 0xD1, CHR 0x84, CHR 0xD0, CHR 0xB0, CHR 0xD0, CHR 0xBD, CHR 0xD1, CHR 0x82, CHR 0xD0, CHR 0xB0, CHR 0xD1, CHR 0x81, CHR 0xD1, CHR 0x82, CHR 0xD0, CHR 0xB8, CHR 0xD0, CHR 0xBA, CHR 0xD0, CHR 0xB0], ''Space Fiction''),
    (''kosmicheskaya'', ''Space Fiction''), (''sf_space_opera'', ''Space Opera''),
    (''religion_spirituality'', ''Spirituality''), (''home_sport'', ''Sports''), (''sport'', ''Sports''),
    (''sf_stimpank'', ''Steampunk''), (''steampunk'', ''Steampunk''), (''sci_crib'', ''Study Guides''),
    ([CHR 0xD0, CHR 0xB0, CHR 0xD0, CHR 0xBB, CHR 0xD1, CHR 0x8C, CHR 0xD1, CHR 0x82, CHR 0xD0, CHR 0xB5, CHR 0xD1, CHR 0x80, CHR 0xD0, CHR 0xBD, CHR 0xD0, CHR 0xB0, CHR 0xD1, CHR 0x82, CHR 0xD0, CHR 0xB8, CHR 0xD0, CHR 0xB2, CHR 0xD0, CHR 0xBD, CHR 0xD0, CHR 0xB0, CHR 0xD1, CHR 0x8F] @ '' '' @ [CHR 0xD1, CHR 0x8D, CHR 0xD0, CHR 0xBD, CHR 0xD0, CHR 0xB5, CHR 0xD1, CHR 0x80, CHR 0xD0, CHR 0xB3, CHR 0xD0, CHR 0xB5, CHR 0xD1, CHR 0x82, CHR 0xD0, CHR 0xB8, CHR 0xD0, CHR 0xBA, CHR 0xD0, CHR 0xB0], ''Technical''),
    (''sci_metal'', ''Technical''), (''sci_tech'', ''Technical''), (''tech_all'', ''Technical''),
    (''thriller_techno'', ''Techno-Thriller''), (''teens_social'', ''Teen Fiction''),
    (''dlya_podrostkov'', ''Teen Literature''), (''Juvenile Fiction'', ''Teen Literature''),
    (''prose_teen'', ''Teen Literature''), (''teens_literature'', ''Teen Literature''),
    (''teens_sf'', ''Teen Science Fiction''), (''sci_textbook'', ''Textbooks''), (''theatre'', ''Theatre''),
    (''ostrosyuzhetnyye'', ''Thrillers''), (''Suspense'', ''Thrillers''), (''Suspense Fiction'', ''Thrillers''),
    (''thriller'', ''Thrillers''), (''Thriller'', ''Thrillers''), (''Thrillers'', ''Thrillers''),
    (''trillery'', ''Thrillers''), (''popadantsy_vo_vremeni'', ''Time-Travel Fantasy''),
    (''child_sf_hronoopera'', ''Time-Travel Fiction''), (''hronoopera'', ''Time-Travel Fiction''),
    (''tragedy'', ''Tragedy''), (''sci_transport'', ''Transportation & Technology''), (''Europe'', ''Travel''),
    (''Europe - Great Britain - General'', ''Travel''), (''Great Britain'', ''Travel''),
    (''outdoors_travel'', ''Travel''), (''puteshestviyah'', ''Travel''), (''travel'', ''Travel''),
    (''travel_africa'', ''Travel''), (''travel_asia'', ''Travel''), (''travel_europe'', ''Travel''),
    (''travel_ex_ussr'', ''Travel''), (''travel_lat_am'', ''Travel''), (''travel_polar'', ''Travel''),
    (''travel_spec'', ''Travel''), (''adv_geo'', ''Travel & Geography''),
    (''Expeditions & Discoveries'', ''Travel & Geography''),
    ([CHR 0xD0, CHR 0x9F, CHR 0xD1, CHR 0x83, CHR 0xD1, CHR 0x82, CHR 0xD0, CHR 0xB5, CHR 0xD0, CHR 0xB2, CHR 0xD0, CHR 0xBE, CHR 0xD0, CHR 0xB4, CHR 0xD0, CHR 0xB8, CHR 0xD1, CHR 0x82, CHR 0xD0, CHR 0xB5, CHR 0xD0, CHR 0xBB, CHR 0xD0, CHR 0xB8], ''Travel Guides''),
    (''geo_guide'', ''Travel Guides''), (''geo_guides'', ''Travel Guides''),
    (''travel_guidebook_series'', ''Travel Guides''), (''travel_notes'', ''Travel Notes''),
    (''unfinished'', ''Unfinished Works''), (''city_fantasy'', ''Urban Fantasy''),
    (''sf_fantasy_city'', ''Urban Fantasy''), (''urban_fantasy'', ''Urban Fantasy''),
    ([CHR 0xD1, CHR 0x83, CHR 0xD1, CHR 0x82, CHR 0xD0, CHR 0xBE, CHR 0xD0, CHR 0xBF, CHR 0xD0, CHR 0xB8, CHR 0xD1, CHR 0x8F], ''Utopian Fiction''),
    (''vaudeville'', ''Vaudeville''), (''sci_veterinary'', ''Veterinary Medicine''),
    (''visual_arts'', ''Visual Arts''), (''visual_poetry'', ''Visual Poetry''),
    (''knigi_o_voyne'', ''War Literature''), (''literature_war'', ''War Literature''), (''adv_western'', ''Western''),
    (''literature_western'', ''Western''), (''literature_women'', ''Women'' @ [CHR 0x27] @ ''s Fiction''),
    (''palindromes'', ''Wordplay''), (''art_world_culture'', ''World Arts & Culture''),
    (''zarubezhnaya_kultura_iskusstvo'', ''World Arts & Culture''), (''literature_world'', ''World Literature''),
    (''nonf_biography_writers'', ''Writers'' @ [CHR 0x27] @ '' Biographies''), (''sf_writing'', ''Writing''),
    (''fantasy_wuxia'', ''Wuxia''), (''wuxia'', ''Wuxia''), (''ya'', ''Young Adult''),
    (''young_adult'', ''Young Adult''), (''sci_zoo'', ''Zoology''), (''zoologiya'', ''Zoology'')]"

definition GGenreNames :: "(string \<times> string) list" where
  "GGenreNames =
    genre_names_1 @ genre_names_2 @ genre_names_3 @ genre_names_4 @ genre_names_5 @ genre_names_6 @ genre_names_7 @ genre_names_8 @ genre_names_9"

end
