(* ===== verification/Fb2_Genres.thy ===== *)
theory Fb2_Genres
  imports Genre_Table Fb2_Text "HOL-Library.List_Lexorder" "HOL-Library.Char_ord"
begin

text \<open>
  The genre of a code, \<open>libs/Parsing/Fb2GenreMapper.cpp\<close>: the table is asked for the code and then for what is left of it
  when blanks, stray punctuation, hyphens, a second word or a non-ASCII tail are taken away.
\<close>

section \<open>The code\<close>

record SGenreResolution =
  GenreDisplayName :: string
  GenreIsKnown :: bool

text \<open>\<open>find_first_not_of\<close> and \<open>find_last_not_of\<close> of the six blanks, which are those of \<open>isspace\<close>.\<close>

definition trim_blanks :: "string \<Rightarrow> string" where
  "trim_blanks s = rev (dropWhile isspace (rev (dropWhile isspace s)))"

function trim_front_noise :: "string \<Rightarrow> string" where
  "trim_front_noise s =
    (if s \<noteq> [] \<and> (hd s = CHR ''/'' \<or> hd s = CHR ''('') then trim_front_noise (trim_blanks (tl s)) else s)"
  by pat_completeness auto

lemma trim_blanks_length: "length (trim_blanks s) \<le> length s"
  unfolding trim_blanks_def by (metis length_dropWhile_le length_rev order_trans)

termination trim_front_noise
  by (relation "measure length") (auto simp: neq_Nil_conv intro: le_less_trans [OF trim_blanks_length])

function trim_back_noise :: "string \<Rightarrow> string" where
  "trim_back_noise s = (if s \<noteq> [] \<and> last s = CHR '')'' then trim_back_noise (trim_blanks (butlast s)) else s)"
  by pat_completeness auto
termination
  by (relation "measure length") (auto simp: neq_Nil_conv intro!: le_less_trans [OF trim_blanks_length])

declare trim_front_noise.simps [simp del] trim_back_noise.simps [simp del]

definition TrimBoundaryNoise :: "string \<Rightarrow> string" where
  "TrimBoundaryNoise s = trim_back_noise (trim_front_noise (trim_blanks s))"

definition LookupGenreName :: "string \<Rightarrow> string" where
  "LookupGenreName code = (case map_of GGenreNames code of Some displayName \<Rightarrow> displayName | None \<Rightarrow> [])"

text \<open>The part before the first blank, where there is one.\<close>

definition first_word :: "string \<Rightarrow> string option" where
  "first_word s = (if list_ex isspace s then Some (takeWhile (\<lambda>c. \<not> isspace c) s) else None)"

text \<open>The codes that are looked up after the code itself, in their order.\<close>

definition genre_candidates :: "string \<Rightarrow> string list" where
  "genre_candidates fb2Code =
    (let trimmed = trim_blanks fb2Code;
         boundaryTrimmed = TrimBoundaryNoise trimmed;
         normalized = (if boundaryTrimmed = [] then trimmed else boundaryTrimmed);
         ascii = takeWhile (\<lambda>c. byte_of c < 0x80) normalized;
         asciiPrefix = trim_blanks ascii in
     (if length trimmed \<noteq> length fb2Code then [trimmed] else [])
     @ (if boundaryTrimmed \<noteq> trimmed then [boundaryTrimmed] else [])
     @ (if CHR ''-'' \<in> set normalized then [map (\<lambda>c. if c = CHR ''-'' then CHR ''_'' else c) normalized] else [])
     @ (case first_word normalized of Some word \<Rightarrow> if word \<noteq> [] then [word] else [] | None \<Rightarrow> [])
     @ (if ascii \<noteq> [] \<and> length ascii < length normalized
        then (if asciiPrefix \<noteq> [] then [asciiPrefix] else []) @ (case first_word asciiPrefix of Some word \<Rightarrow> [word] | None \<Rightarrow> [])
        else [])
     @ (if normalized \<noteq> trimmed then [normalized] else []))"

fun first_known :: "string list \<Rightarrow> string option" where
  "first_known [] = None"
| "first_known (code # codes) = (if LookupGenreName code \<noteq> [] then Some (LookupGenreName code) else first_known codes)"

definition ResolveGenre :: "string \<Rightarrow> SGenreResolution" where
  "ResolveGenre fb2Code =
    (if LookupGenreName fb2Code \<noteq> [] then \<lparr>GenreDisplayName = LookupGenreName fb2Code, GenreIsKnown = True\<rparr>
     else if trim_blanks fb2Code = [] then \<lparr>GenreDisplayName = [], GenreIsKnown = True\<rparr>
     else case first_known (genre_candidates fb2Code) of
       Some displayName \<Rightarrow> \<lparr>GenreDisplayName = displayName, GenreIsKnown = True\<rparr>
     | None \<Rightarrow> \<lparr>GenreDisplayName = fb2Code, GenreIsKnown = False\<rparr>)"

definition KnownGenreNames :: "string list" where
  "KnownGenreNames = remdups_adj (sort (map snd GGenreNames))"

section \<open>Its results\<close>

lemma LookupGenreName_known: "LookupGenreName code \<noteq> [] \<Longrightarrow> LookupGenreName code \<in> set KnownGenreNames"
  by (auto simp: LookupGenreName_def KnownGenreNames_def split: option.splits dest!: map_of_SomeD intro: rev_image_eqI)

lemma first_known_known: "first_known codes = Some n \<Longrightarrow> n \<in> set KnownGenreNames \<and> n \<noteq> []"
  by (induction codes) (auto split: if_splits intro: LookupGenreName_known)

lemma ResolveGenre_result:
  "GenreIsKnown (ResolveGenre code) \<and> (GenreDisplayName (ResolveGenre code) = [] \<or> GenreDisplayName (ResolveGenre code) \<in> set KnownGenreNames)
   \<or> \<not> GenreIsKnown (ResolveGenre code) \<and> GenreDisplayName (ResolveGenre code) = code"
  using LookupGenreName_known [of code] first_known_known [of "genre_candidates code"]
  by (auto simp: ResolveGenre_def split: option.splits)

lemma ResolveGenre_nonempty: "trim_blanks code \<noteq> [] \<Longrightarrow> GenreDisplayName (ResolveGenre code) \<noteq> []"
  using first_known_known [of "genre_candidates code"]
  by (auto simp: ResolveGenre_def trim_blanks_def split: option.splits)

text \<open>The table: no code has blanks around it, and no name is empty.\<close>

definition tidy_entry :: "string \<times> string \<Rightarrow> bool" where
  "tidy_entry e \<longleftrightarrow> fst e \<noteq> [] \<and> \<not> isspace (hd (fst e)) \<and> \<not> isspace (last (fst e)) \<and> snd e \<noteq> []"

lemma tidy_parts:
  "list_all tidy_entry genre_names_1" "list_all tidy_entry genre_names_2" "list_all tidy_entry genre_names_3"
  "list_all tidy_entry genre_names_4" "list_all tidy_entry genre_names_5" "list_all tidy_entry genre_names_6"
  "list_all tidy_entry genre_names_7" "list_all tidy_entry genre_names_8" "list_all tidy_entry genre_names_9"
  unfolding genre_names_1_def genre_names_2_def genre_names_3_def genre_names_4_def genre_names_5_def genre_names_6_def
    genre_names_7_def genre_names_8_def genre_names_9_def
  by (simp_all add: tidy_entry_def isspace_def)

lemma tidy_table: "list_all tidy_entry GGenreNames"
  by (simp add: GGenreNames_def tidy_parts)

lemma trim_blanks_padded:
  assumes "list_all isspace pre" "list_all isspace post" "s \<noteq> []" "\<not> isspace (hd s)" "\<not> isspace (last s)"
  shows "trim_blanks (pre @ s @ post) = s"
proof -
  have "dropWhile isspace (pre @ s @ post) = s @ post"
    using assms(1,3,4) by (cases s) (auto simp: list_all_iff dropWhile_append)
  moreover have "dropWhile isspace (rev post @ rev s) = rev s"
    using assms(2,3,5) by (cases "rev s") (auto simp: list_all_iff dropWhile_append hd_rev [symmetric] simp del: hd_rev)
  ultimately show ?thesis by (simp add: trim_blanks_def)
qed

lemma padded_genre_is_known:
  assumes "map_of GGenreNames code = Some displayName" "list_all isspace pre" "list_all isspace post"
  shows "ResolveGenre (pre @ code @ post) = \<lparr>GenreDisplayName = displayName, GenreIsKnown = True\<rparr>"
proof -
  have t: "tidy_entry (code, displayName)" using map_of_SomeD [OF assms(1)] tidy_table by (simp add: list_all_iff)
  then have trim: "trim_blanks (pre @ code @ post) = code"
    using trim_blanks_padded [OF assms(2,3), of code] by (simp add: tidy_entry_def)
  have l: "LookupGenreName code = displayName" "displayName \<noteq> []" using assms(1) t by (simp_all add: LookupGenreName_def tidy_entry_def)
  show ?thesis
  proof (cases "pre = [] \<and> post = []")
    case True
    then show ?thesis using l by (simp add: ResolveGenre_def)
  next
    case False
    have "LookupGenreName (pre @ code @ post) = []"
    proof (rule ccontr)
      assume "LookupGenreName (pre @ code @ post) \<noteq> []"
      then obtain n where "(pre @ code @ post, n) \<in> set GGenreNames"
        by (auto simp: LookupGenreName_def split: option.splits dest: map_of_SomeD)
      then have "tidy_entry (pre @ code @ post, n)" using tidy_table by (simp add: list_all_iff)
      then show False using False assms(2,3) by (cases pre; cases post rule: rev_cases) (auto simp: tidy_entry_def)
    qed
    moreover have "length code \<noteq> length (pre @ code @ post)" using False by auto
    ultimately show ?thesis using l t trim by (simp add: ResolveGenre_def genre_candidates_def Let_def tidy_entry_def)
  qed
qed

end
