(* ===== verification/Fb2_Parser.thy ===== *)
theory Fb2_Parser
  imports Fb2_Scanner Fb2_Text_Properties Fb2_Genres Path_Safety Search_Documents
begin

text \<open>
  \<open>CFb2Parser::ParseBytes\<close> of \<open>libs/Parsing/Fb2Parser.cpp\<close>: the metadata and the cover of a book. The XML library
  (pugixml) is the parameter \<open>load_buffer\<close>, which gives the children of the document, or the description of an error; a
  node is an element or a text (PCDATA or CDATA; the other kinds are not kept by its default options), and a null
  node is \<open>None\<close>. Cancellation and the previews of log messages are left out.
\<close>

section \<open>The XML library\<close>

datatype xml_node = XmlElement string "(string \<times> string) list" "xml_node list" | XmlText string

record fb2_env =
  load_buffer :: "string \<Rightarrow> string + xml_node list"
  Fb2Convert :: convert
  parse_double :: "string \<Rightarrow> float64 option"

fun node_name :: "xml_node \<Rightarrow> string" where
  "node_name (XmlElement n _ _) = n"
| "node_name (XmlText _) = []"

fun children :: "xml_node option \<Rightarrow> xml_node list" where
  "children (Some (XmlElement _ _ cs)) = cs"
| "children _ = []"

fun attributes :: "xml_node option \<Rightarrow> (string \<times> string) list" where
  "attributes (Some (XmlElement _ attrs _)) = attrs"
| "attributes _ = []"

text \<open>\<open>text().as_string()\<close>: a text node itself, or the first text among the children, else the empty string.\<close>

fun first_text :: "xml_node list \<Rightarrow> string" where
  "first_text [] = []"
| "first_text (XmlText s # cs) = s"
| "first_text (XmlElement _ _ _ # cs) = first_text cs"

fun node_text :: "xml_node option \<Rightarrow> string" where
  "node_text None = []"
| "node_text (Some (XmlText s)) = s"
| "node_text (Some (XmlElement _ _ cs)) = first_text cs"

definition attribute_value :: "string \<Rightarrow> xml_node option \<Rightarrow> string" where
  "attribute_value n node = (case map_of (attributes node) n of None \<Rightarrow> [] | Some v \<Rightarrow> v)"

section \<open>Reading nodes\<close>

text \<open>\<open>Trim\<close>: the two loops over the ends.\<close>

definition Fb2_Trim :: "string \<Rightarrow> string" where
  "Fb2_Trim s = rev (dropWhile isspace (rev (dropWhile isspace s)))"

definition find_child :: "xml_node list \<Rightarrow> string \<Rightarrow> xml_node option" where
  "find_child cs localName = find (\<lambda>c. MatchesLocalName (node_name c) localName) cs"

definition FindFirstChildByLocalName :: "xml_node option \<Rightarrow> string \<Rightarrow> xml_node option" where
  "FindFirstChildByLocalName parent localName = find_child (children parent) localName"

definition JoinAuthorName :: "xml_node \<Rightarrow> string" where
  "JoinAuthorName authorNode =
    (let parts = filter (\<lambda>v. v \<noteq> []) (map (\<lambda>part. Fb2_Trim (node_text (FindFirstChildByLocalName (Some authorNode) part)))
       [''first-name'', ''middle-name'', ''last-name'', ''nickname'']) in
     foldl (\<lambda>author (index, part). (if index > 0 then author @ '' '' else author) @ part) [] (zip [0..<length parts] parts))"

definition TryReadNodeText :: "xml_node option \<Rightarrow> string option" where
  "TryReadNodeText node = (let v = Fb2_Trim (node_text node) in if v = [] then None else Some v)"

definition TryReadTextChild :: "xml_node option \<Rightarrow> string \<Rightarrow> string option" where
  "TryReadTextChild parent childName = TryReadNodeText (FindFirstChildByLocalName parent childName)"

fun is_element :: "xml_node \<Rightarrow> bool" where
  "is_element (XmlElement _ _ _) = True"
| "is_element (XmlText _) = False"

definition ReadAnnotationText :: "xml_node option \<Rightarrow> string" where
  "ReadAnnotationText annotationNode =
    foldl (\<lambda>description childNode.
      let t = Fb2_Trim (node_text (Some childNode)) in
      if \<not> is_element childNode \<or> t = [] then description
      else (if description \<noteq> [] then description @ [chr_of 10] else description) @ t) [] (children annotationNode)"

definition Fb2_NormalizeExtension :: "string \<Rightarrow> string" where
  "Fb2_NormalizeExtension extension =
    ToLowerAscii (if extension \<noteq> [] \<and> hd extension = CHR ''.'' then tl extension else extension)"

definition ExtensionFromBinaryId :: "string \<Rightarrow> string" where
  "ExtensionFromBinaryId binaryId =
    (case find_last CHR ''.'' binaryId of
       None \<Rightarrow> []
     | Some dot \<Rightarrow> if dot = 0 \<or> dot + 1 \<ge> length binaryId then [] else Fb2_NormalizeExtension (drop (dot + 1) binaryId))"

definition MimeTypeToExtension :: "string \<Rightarrow> string" where
  "MimeTypeToExtension mimeType =
    (if mimeType = ''image/jpeg'' \<or> mimeType = ''image/jpg'' then ''jpg''
     else if mimeType = ''image/png'' then ''png''
     else if mimeType = ''image/gif'' then ''gif''
     else [])"

section \<open>The metadata document\<close>

definition parse_failure :: "string \<Rightarrow> string \<Rightarrow> string \<Rightarrow> string \<Rightarrow> string \<Rightarrow> text_error + 'a" where
  "parse_failure what sourceLabel description original parsed =
    Inl (TextRuntimeError (''Failed to parse '' @ what @ '' from '' @ sourceLabel @ '': '' @ description
      @ '' [size_bytes='' @ to_string (length original) @ '', xml_preview='' @ [CHR 0x22] @ CompactPreview parsed @ [CHR 0x22] @ '']''))"

text \<open>The children of the document, and the offset at which the binaries are searched. A document without a child is an
  error with the description of success.\<close>

definition ParseCatalogXml :: "fb2_env \<Rightarrow> string \<Rightarrow> string \<Rightarrow> text_error + xml_node list \<times> nat" where
  "ParseCatalogXml env text sourceLabel =
    (case AnalyzeCatalogXml text of (shape, descriptionRange) \<Rightarrow>
     case ValidateMetadataXmlShape shape sourceLabel of
       Inl e \<Rightarrow> Inl e
     | Inr _ \<Rightarrow>
     (case descriptionRange of
       Some tags \<Rightarrow>
         let descXml = BuildDescriptionXml text tags in
         (case load_buffer env descXml of
            Inl description \<Rightarrow> parse_failure ''FB2 metadata XML'' sourceLabel description text descXml
          | Inr [] \<Rightarrow> parse_failure ''FB2 metadata XML'' sourceLabel ''No error'' text descXml
          | Inr document \<Rightarrow> Inr (document, TagEnd (DescriptionCloseTag tags) + 1))
     | None \<Rightarrow>
         (case load_buffer env text of
            Inl description \<Rightarrow> parse_failure ''FB2 XML'' sourceLabel description text text
          | Inr [] \<Rightarrow> parse_failure ''FB2 XML'' sourceLabel ''No error'' text text
          | Inr document \<Rightarrow> Inr (document, 0))))"

section \<open>Binaries\<close>

definition IsSelfClosingTag :: "string \<Rightarrow> bool" where
  "IsSelfClosingTag openTag =
    (case dropWhile (\<lambda>c. isspace c \<or> c = CHR ''>'') (rev openTag) of [] \<Rightarrow> False | c # _ \<Rightarrow> c = CHR ''/'')"

definition GMaxXmlOpenTagBytes :: nat where "GMaxXmlOpenTagBytes = 64 * 1024"

definition probe_tag :: "string \<Rightarrow> nat \<Rightarrow> string" where
  "probe_tag openTag tagEnd =
    (let nameEnd = 1 + length (takeWhile IsXmlNameChar (substr openTag 1 (tagEnd - 1)));
         trimmed = Fb2_Trim (substr openTag nameEnd (tagEnd - nameEnd)) in
     ''<probe''
     @ (if nameEnd < tagEnd then '' '' @ (if trimmed \<noteq> [] \<and> last trimmed = CHR ''/'' then butlast trimmed else trimmed) else [])
     @ ''/>'')"

definition TryReadOpenTagAttribute :: "fb2_env \<Rightarrow> string \<Rightarrow> string \<Rightarrow> text_error + string option" where
  "TryReadOpenTagAttribute env openTag localName =
    (case find_last CHR ''>'' openTag of
       None \<Rightarrow> Inr None
     | Some tagEnd \<Rightarrow>
         if openTag = [] \<or> hd openTag \<noteq> CHR ''<'' then Inr None
         else if length openTag > GMaxXmlOpenTagBytes
         then Inl (TextRuntimeError ''FB2 XML open tag exceeds the 65536 byte structural limit.'')
         else (case load_buffer env (probe_tag openTag tagEnd) of
                 Inl _ \<Rightarrow> Inr None
               | Inr document \<Rightarrow>
                   let probeNode = (case document of [] \<Rightarrow> None | n # _ \<Rightarrow> Some n) in
                   Inr (map_option snd (find (\<lambda>(n, _). MatchesLocalName n localName) (attributes probeNode)))))"

record SBinaryPayload =
  BinaryId :: string
  BinaryContentType :: string
  BinaryContent :: string

definition found_binary :: "string option \<Rightarrow> string \<Rightarrow> string option \<Rightarrow> string \<Rightarrow> SBinaryPayload option" where
  "found_binary binaryId wanted contentType content =
    (if binaryId = Some wanted
     then Some \<lparr>BinaryId = wanted, BinaryContentType = (case contentType of None \<Rightarrow> [] | Some t \<Rightarrow> t), BinaryContent = content\<rparr>
     else None)"

text \<open>One round at an open tag: the payload, or the offset at which the search goes on, or neither.\<close>

definition binary_step :: "fb2_env \<Rightarrow> string \<Rightarrow> string \<Rightarrow> SXmlTagRange \<Rightarrow> text_error + SBinaryPayload option \<times> nat option" where
  "binary_step env text wanted binaryOpenTag =
    (let openTag = substr text (TagStart binaryOpenTag) (TagEnd binaryOpenTag - TagStart binaryOpenTag + 1) in
     and_then (TryReadOpenTagAttribute env openTag ''id'') (\<lambda>binaryId.
     and_then (TryReadOpenTagAttribute env openTag ''content-type'') (\<lambda>contentType.
       if IsSelfClosingTag openTag
       then Inr (found_binary binaryId wanted contentType [], Some (TagEnd binaryOpenTag + 1))
       else (case FindNextTagRange text (TagEnd binaryOpenTag + 1) True (Some ''binary'') of
         None \<Rightarrow> Inr (None, None)
       | Some binaryCloseTag \<Rightarrow>
           Inr (found_binary binaryId wanted contentType
                  (substr text (TagEnd binaryOpenTag + 1) (TagStart binaryCloseTag - TagEnd binaryOpenTag - 1)),
                Some (TagEnd binaryCloseTag + 1))))))"

lemma binary_step_next:
  "binary_step env t wanted r = Inr (p, Some n) \<Longrightarrow> TagEnd r < n"
  by (auto simp: binary_step_def Let_def and_then_def tag_ok_def split: sum.splits if_splits option.splits
      dest!: FindNextTagRange_ok)

function binary_loop :: "fb2_env \<Rightarrow> string \<Rightarrow> string \<Rightarrow> nat \<Rightarrow> text_error + SBinaryPayload option" where
  "binary_loop env text wanted currentOffset =
    (case FindNextTagRange text currentOffset False (Some ''binary'') of
       None \<Rightarrow> Inr None
     | Some binaryOpenTag \<Rightarrow>
         (case binary_step env text wanted binaryOpenTag of
            Inl e \<Rightarrow> Inl e
          | Inr (Some payload, _) \<Rightarrow> Inr (Some payload)
          | Inr (None, None) \<Rightarrow> Inr None
          | Inr (None, Some next) \<Rightarrow> binary_loop env text wanted next))"
  by pat_completeness auto
termination
  by (relation "measure (\<lambda>(_, text, _, current). Suc (length text) - current)")
    (auto dest!: FindNextTagRange_ok binary_step_next simp: tag_ok_def)

declare binary_loop.simps [simp del]

definition FindBinaryPayloadById :: "fb2_env \<Rightarrow> string \<Rightarrow> nat \<Rightarrow> string \<Rightarrow> text_error + SBinaryPayload option" where
  "FindBinaryPayloadById env text startOffset wanted = binary_loop env text wanted startOffset"

end
