(* ===== verification/Payload_Limits.thy ===== *)
theory Payload_Limits
  imports Main
begin

text \<open>\<open>libs/Foundation/BookPayloadLimits.hpp\<close>: how large the payload of a book may be.\<close>

definition GMaxBookPayloadBytes :: nat where "GMaxBookPayloadBytes = 250 * 1024 * 1024"

definition IsBookPayloadSizeAllowed :: "nat \<Rightarrow> bool" where
  "IsBookPayloadSizeAllowed sizeBytes \<longleftrightarrow> sizeBytes \<le> GMaxBookPayloadBytes"

end
