(* ===== verification/Fb2_Book.thy ===== *)
theory Fb2_Book
  imports Fb2_Parser Payload_Limits
begin

text \<open>
  \<open>ParseDecodedFb2Text\<close> and \<open>ParseBytes\<close> of \<open>libs/Parsing/Fb2Parser.cpp\<close>: a book out of its nodes, field by field in the
  order of the code. Each step takes the book so far; warnings are counted.
\<close>

record SParsedBook =
  ParsedBookMetadata :: SBookMetadata
  CoverExtension :: "string option"
  CoverBytes :: string
  CoverDiagnosticMessage :: "string option"
  ParserWarningCount :: nat

definition HasCover :: "SParsedBook \<Rightarrow> bool" where
  "HasCover book \<longleftrightarrow> CoverExtension book \<noteq> None \<and> CoverExtension book \<noteq> Some [] \<and> CoverBytes book \<noteq> []"

record SBookParseOptions =
  ExtractCover :: bool
  MissingTitleFallbackUtf8 :: "string option"
  MissingLanguageMayBeRecoveredByCaller :: bool

definition empty_metadata :: SBookMetadata where
  "empty_metadata = \<lparr>MetaTitleUtf8 = [], MetaAuthorsUtf8 = [], MetaLanguage = [], MetaSeriesUtf8 = None, MetaSeriesIndex = None,
     MetaPublisherUtf8 = None, MetaYear = None, MetaIsbn = None, MetaTagsUtf8 = [], MetaGenresUtf8 = [],
     MetaDescriptionUtf8 = None, MetaIdentifier = None\<rparr>"

definition new_book :: "nat \<Rightarrow> SParsedBook" where
  "new_book warnings = \<lparr>ParsedBookMetadata = empty_metadata, CoverExtension = None, CoverBytes = [], CoverDiagnosticMessage = None,
     ParserWarningCount = warnings\<rparr>"

definition with_metadata :: "(SBookMetadata \<Rightarrow> SBookMetadata) \<Rightarrow> SParsedBook \<Rightarrow> SParsedBook" where
  "with_metadata f book = book\<lparr>ParsedBookMetadata := f (ParsedBookMetadata book)\<rparr>"

definition warn :: "SParsedBook \<Rightarrow> SParsedBook" where
  "warn book = book\<lparr>ParserWarningCount := ParserWarningCount book + 1\<rparr>"

section \<open>Fields\<close>

definition read_title :: "SBookParseOptions \<Rightarrow> xml_node option \<Rightarrow> SParsedBook \<Rightarrow> text_error + SParsedBook" where
  "read_title options titleInfoNode book =
    (case TryReadNodeText (FindFirstChildByLocalName titleInfoNode ''book-title'') of
       Some title \<Rightarrow> Inr (with_metadata (\<lambda>m. m\<lparr>MetaTitleUtf8 := title\<rparr>) book)
     | None \<Rightarrow>
         (case MissingTitleFallbackUtf8 options of
            Some fallback \<Rightarrow>
              if fallback \<noteq> [] then Inr (warn (with_metadata (\<lambda>m. m\<lparr>MetaTitleUtf8 := fallback\<rparr>) book))
              else Inl (TextRuntimeError ''Missing required FB2 node: book-title'')
          | None \<Rightarrow> Inl (TextRuntimeError ''Missing required FB2 node: book-title'')))"

definition read_language :: "SBookParseOptions \<Rightarrow> xml_node option \<Rightarrow> SParsedBook \<Rightarrow> SParsedBook" where
  "read_language options titleInfoNode book =
    (case TryReadTextChild titleInfoNode ''lang'' of
       Some language \<Rightarrow> with_metadata (\<lambda>m. m\<lparr>MetaLanguage := language\<rparr>) book
     | None \<Rightarrow> with_metadata (\<lambda>m. m\<lparr>MetaLanguage := []\<rparr>)
         (if MissingLanguageMayBeRecoveredByCaller options then book else warn book))"

definition anonymous_author :: string where
  "anonymous_author = [CHR 0xD0, CHR 0x90, CHR 0xD0, CHR 0xBD, CHR 0xD0, CHR 0xBE, CHR 0xD0, CHR 0xBD, CHR 0xD0, CHR 0xB8, CHR 0xD0, CHR 0xBC]"

definition read_authors :: "xml_node option \<Rightarrow> SParsedBook \<Rightarrow> SParsedBook" where
  "read_authors titleInfoNode book =
    (let authors = filter (\<lambda>a. a \<noteq> []) (map JoinAuthorName
           (filter (\<lambda>c. MatchesLocalName (node_name c) ''author'') (children titleInfoNode))) in
     if authors = [] then warn (with_metadata (\<lambda>m. m\<lparr>MetaAuthorsUtf8 := [anonymous_author]\<rparr>) book)
     else with_metadata (\<lambda>m. m\<lparr>MetaAuthorsUtf8 := authors\<rparr>) book)"

definition add_genre :: "string \<Rightarrow> SParsedBook \<Rightarrow> SParsedBook" where
  "add_genre token book =
    (let resolved = ResolveGenre token in
     with_metadata (\<lambda>m. m\<lparr>MetaGenresUtf8 := MetaGenresUtf8 m @ [GenreDisplayName resolved]\<rparr>)
       (if GenreIsKnown resolved then book else warn book))"

text \<open>The loop over the codes of one node, which are separated by commas.\<close>

function genre_loop :: "string \<Rightarrow> SParsedBook \<Rightarrow> SParsedBook" where
  "genre_loop remaining book =
    (if remaining = [] then book
     else let part = takeWhile (\<lambda>c. c \<noteq> CHR '','') remaining; token = trim_blanks part;
              book1 = (if token \<noteq> [] then add_genre token book else book) in
       if CHR '','' \<notin> set remaining then book1 else genre_loop (drop (Suc (length part)) remaining) book1)"
  by pat_completeness auto
termination
  by (relation "measure (\<lambda>(remaining, _). length remaining)") auto

declare genre_loop.simps [simp del]

definition read_genres :: "xml_node option \<Rightarrow> SParsedBook \<Rightarrow> SParsedBook" where
  "read_genres titleInfoNode book =
    foldl (\<lambda>book childNode.
      if MatchesLocalName (node_name childNode) ''genre''
      then (case TryReadNodeText (Some childNode) of None \<Rightarrow> book | Some rawCode \<Rightarrow> genre_loop rawCode book)
      else book) book (children titleInfoNode)"

text \<open>\<open>child("sequence")\<close> compares the whole name.\<close>

definition read_series_name :: "xml_node option \<Rightarrow> SParsedBook \<Rightarrow> SParsedBook" where
  "read_series_name titleInfoNode book =
    (case TryReadTextChild (find (\<lambda>c. node_name c = ''sequence'') (children titleInfoNode)) ''name'' of
       Some sequenceName \<Rightarrow> with_metadata (\<lambda>m. m\<lparr>MetaSeriesUtf8 := Some sequenceName\<rparr>) book
     | None \<Rightarrow>
         (let sequenceValue = attribute_value ''name'' (FindFirstChildByLocalName titleInfoNode ''sequence'') in
          if sequenceValue \<noteq> [] then with_metadata (\<lambda>m. m\<lparr>MetaSeriesUtf8 := Some sequenceValue\<rparr>) book else book))"

definition read_series_number :: "fb2_env \<Rightarrow> xml_node option \<Rightarrow> SParsedBook \<Rightarrow> SParsedBook" where
  "read_series_number env titleInfoNode book =
    (let sequenceNumber = attribute_value ''number'' (FindFirstChildByLocalName titleInfoNode ''sequence'') in
     if sequenceNumber = [] then book
     else case parse_double env sequenceNumber of
       Some v \<Rightarrow> with_metadata (\<lambda>m. m\<lparr>MetaSeriesIndex := Some v\<rparr>) book
     | None \<Rightarrow> warn book)"

definition read_annotation :: "xml_node option \<Rightarrow> SParsedBook \<Rightarrow> SParsedBook" where
  "read_annotation titleInfoNode book =
    (let description = ReadAnnotationText (FindFirstChildByLocalName titleInfoNode ''annotation'') in
     if description \<noteq> [] then with_metadata (\<lambda>m. m\<lparr>MetaDescriptionUtf8 := Some description\<rparr>) book else book)"

definition TryParseInt :: "string \<Rightarrow> int option" where
  "TryParseInt s = (case from_chars (- (2 ^ 31)) (2 ^ 31 - 1) s of Some (n, []) \<Rightarrow> Some n | _ \<Rightarrow> None)"

text \<open>A missing \<open>publish-info\<close> or \<open>document-info\<close> has no children, so its fields are not there either.\<close>

definition set_some :: "('v option \<Rightarrow> SBookMetadata \<Rightarrow> SBookMetadata) \<Rightarrow> 'v option \<Rightarrow> SParsedBook \<Rightarrow> SParsedBook" where
  "set_some f v book = (if v = None then book else with_metadata (f v) book)"

definition read_year :: "xml_node option \<Rightarrow> SParsedBook \<Rightarrow> SParsedBook" where
  "read_year publishInfoNode book =
    (case TryReadTextChild publishInfoNode ''year'' of
       None \<Rightarrow> book
     | Some year \<Rightarrow>
         (case TryParseInt year of
            Some n \<Rightarrow> with_metadata (\<lambda>m. m\<lparr>MetaYear := Some n\<rparr>) book
          | None \<Rightarrow> warn book))"

definition read_publication :: "xml_node option \<Rightarrow> SParsedBook \<Rightarrow> SParsedBook" where
  "read_publication descriptionNode book =
    (let publishInfoNode = FindFirstChildByLocalName descriptionNode ''publish-info'' in
     read_year publishInfoNode
       (set_some (\<lambda>v m. m\<lparr>MetaPublisherUtf8 := v\<rparr>) (TryReadTextChild publishInfoNode ''publisher'')
         (set_some (\<lambda>v m. m\<lparr>MetaIsbn := v\<rparr>) (TryReadTextChild publishInfoNode ''isbn'') book)))"

definition read_identifier :: "xml_node option \<Rightarrow> SParsedBook \<Rightarrow> SParsedBook" where
  "read_identifier descriptionNode book =
    set_some (\<lambda>v m. m\<lparr>MetaIdentifier := v\<rparr>)
      (TryReadTextChild (FindFirstChildByLocalName descriptionNode ''document-info'') ''id'') book"

section \<open>The cover\<close>

fun cover_reference :: "(string \<times> string) list \<Rightarrow> string option" where
  "cover_reference [] = None"
| "cover_reference ((n, v) # attrs) =
    (let target = (if v \<noteq> [] \<and> hd v = CHR ''#'' then tl v else v) in
     if MatchesLocalName n ''href'' \<and> target \<noteq> [] then Some target else cover_reference attrs)"

definition cover_image :: "xml_node option \<Rightarrow> xml_node option" where
  "cover_image titleInfoNode = FindFirstChildByLocalName (FindFirstChildByLocalName titleInfoNode ''coverpage'') ''image''"

definition TryGetCoverBinaryId :: "xml_node option \<Rightarrow> string option" where
  "TryGetCoverBinaryId titleInfoNode = cover_reference (attributes (cover_image titleInfoNode))"

definition cover_extension :: "SBinaryPayload \<Rightarrow> string" where
  "cover_extension payload =
    (let extension = MimeTypeToExtension (BinaryContentType payload) in
     if extension = [] then ExtensionFromBinaryId (BinaryId payload) else extension)"

definition take_cover :: "SBinaryPayload \<Rightarrow> SParsedBook \<Rightarrow> SParsedBook" where
  "take_cover payload book =
    (case DecodeBase64 (BinaryContent payload) of
       Inl _ \<Rightarrow> book\<lparr>CoverDiagnosticMessage := Some ''base64-decode-failed''\<rparr>
     | Inr bytes \<Rightarrow>
         let extension = cover_extension payload in
         if bytes = [] then book\<lparr>CoverDiagnosticMessage := Some ''decoded-cover-empty''\<rparr>
         else if extension = [] then book\<lparr>CoverBytes := bytes, CoverDiagnosticMessage := Some ''decoded-cover-missing-extension''\<rparr>
         else book\<lparr>CoverBytes := bytes, CoverExtension := Some extension\<rparr>)"

definition read_cover :: "fb2_env \<Rightarrow> string \<Rightarrow> nat \<Rightarrow> xml_node option \<Rightarrow> SParsedBook \<Rightarrow> text_error + SParsedBook" where
  "read_cover env text searchOffset titleInfoNode book =
    (case TryGetCoverBinaryId titleInfoNode of
       Some coverBinaryId \<Rightarrow>
         and_then (FindBinaryPayloadById env text searchOffset coverBinaryId) (\<lambda>found. case found of
           Some payload \<Rightarrow> Inr (take_cover payload book)
         | None \<Rightarrow> Inr (book\<lparr>CoverDiagnosticMessage := Some ''referenced-binary-not-found''\<rparr>))
     | None \<Rightarrow>
         if cover_image titleInfoNode \<noteq> None
         then Inr (book\<lparr>CoverDiagnosticMessage := Some ''cover-reference-missing-binary-id''\<rparr>)
         else Inr book)"

section \<open>The book\<close>

definition read_fields :: "fb2_env \<Rightarrow> SBookParseOptions \<Rightarrow> xml_node option \<Rightarrow> xml_node option \<Rightarrow> SParsedBook \<Rightarrow> SParsedBook" where
  "read_fields env options descriptionNode titleInfoNode book =
    read_identifier descriptionNode (read_publication descriptionNode (read_annotation titleInfoNode
      (read_series_number env titleInfoNode (read_series_name titleInfoNode (read_genres titleInfoNode
        (read_authors titleInfoNode (read_language options titleInfoNode book)))))))"

definition ParseDecodedFb2Text :: "fb2_env \<Rightarrow> string \<Rightarrow> string \<Rightarrow> SBookParseOptions \<Rightarrow> nat \<Rightarrow> text_error + SParsedBook" where
  "ParseDecodedFb2Text env text sourceLabel options parserWarningCount =
    and_then (ParseCatalogXml env text sourceLabel) (\<lambda>(document, searchOffset).
      let rootNode = find_child document ''FictionBook'';
          descriptionNode = FindFirstChildByLocalName rootNode ''description'';
          titleInfoNode = FindFirstChildByLocalName descriptionNode ''title-info'' in
      if rootNode = None \<or> titleInfoNode = None
      then Inl (TextRuntimeError ''FB2 document is missing required description/title-info nodes.'')
      else and_then (read_title options titleInfoNode (new_book parserWarningCount)) (\<lambda>book.
        let book1 = read_fields env options descriptionNode titleInfoNode book in
        if \<not> ExtractCover options then Inr book1 else read_cover env text searchOffset titleInfoNode book1))"

definition ParseBytes :: "fb2_env \<Rightarrow> string \<Rightarrow> string \<Rightarrow> SBookParseOptions \<Rightarrow> text_error + SParsedBook" where
  "ParseBytes env rawBytes logicalSourceLabel options =
    (let sourceLabel = (if logicalSourceLabel = [] then ''<memory>'' else logicalSourceLabel) in
     if \<not> IsBookPayloadSizeAllowed (length rawBytes)
     then Inl (TextRuntimeError (''FB2 payload is too large: '' @ sourceLabel @ '' ('' @ to_string (length rawBytes)
       @ '' bytes exceeds '' @ to_string GMaxBookPayloadBytes @ '' byte limit)''))
     else and_then (DecodeFb2Text (Fb2Convert env) rawBytes 0) (\<lambda>(text, warnings).
       ParseDecodedFb2Text env text sourceLabel options warnings))"

end
