(* ===== verification/Fb2_Properties.thy ===== *)
theory Fb2_Properties
  imports Fb2_Book
begin

text \<open>
  What the FB2 parser promises: covers are decoded from canonical base64 only, the text given to the XML library is valid
  UTF-8 and bounded, and a book that is returned is complete. The XML library and the charset converter are
  arbitrary throughout.
\<close>

section \<open>The invariant of a book\<close>

definition nonempty_option :: "string option \<Rightarrow> bool" where
  "nonempty_option v \<longleftrightarrow> v \<noteq> Some []"

definition metadata_ok :: "SBookMetadata \<Rightarrow> bool" where
  "metadata_ok m \<longleftrightarrow> list_all (\<lambda>g. g \<noteq> []) (MetaGenresUtf8 m) \<and> nonempty_option (MetaSeriesUtf8 m)
    \<and> nonempty_option (MetaPublisherUtf8 m) \<and> nonempty_option (MetaIsbn m) \<and> nonempty_option (MetaDescriptionUtf8 m)
    \<and> nonempty_option (MetaIdentifier m)
    \<and> (case MetaYear m of None \<Rightarrow> True | Some y \<Rightarrow> - (2 ^ 31) \<le> y \<and> y < 2 ^ 31)"

definition authors_ok :: "string list \<Rightarrow> bool" where
  "authors_ok authors \<longleftrightarrow> authors \<noteq> [] \<and> list_all (\<lambda>a. a \<noteq> []) authors"

text \<open>A cover has an extension and bytes and no complaint; bytes alone come with one.\<close>

definition cover_ok :: "SParsedBook \<Rightarrow> bool" where
  "cover_ok book \<longleftrightarrow>
    (if HasCover book then CoverDiagnosticMessage book = None
     else CoverExtension book = None
       \<and> (CoverBytes book \<noteq> [] \<longrightarrow> CoverDiagnosticMessage book = Some ''decoded-cover-missing-extension''))"

lemma metadata_with_metadata [simp]: "ParsedBookMetadata (with_metadata f book) = f (ParsedBookMetadata book)"
  by (simp add: with_metadata_def)

lemma metadata_warn [simp]: "ParsedBookMetadata (warn book) = ParsedBookMetadata book"
  by (simp add: warn_def)

lemma cover_with_metadata [simp]: "CoverExtension (with_metadata f book) = CoverExtension book"
  "CoverBytes (with_metadata f book) = CoverBytes book" "CoverDiagnosticMessage (with_metadata f book) = CoverDiagnosticMessage book"
  "ParserWarningCount (with_metadata f book) = ParserWarningCount book"
  by (simp_all add: with_metadata_def)

lemma cover_warn [simp]: "CoverExtension (warn book) = CoverExtension book" "CoverBytes (warn book) = CoverBytes book"
  "CoverDiagnosticMessage (warn book) = CoverDiagnosticMessage book"
  by (simp_all add: warn_def)

text \<open>What a step keeps: title and authors once read, the invariant of the other fields, and the cover.\<close>

definition kept :: "SParsedBook \<Rightarrow> SParsedBook \<Rightarrow> bool" where
  "kept book book' \<longleftrightarrow>
    MetaTitleUtf8 (ParsedBookMetadata book') = MetaTitleUtf8 (ParsedBookMetadata book)
    \<and> MetaAuthorsUtf8 (ParsedBookMetadata book') = MetaAuthorsUtf8 (ParsedBookMetadata book)
    \<and> (metadata_ok (ParsedBookMetadata book) \<longrightarrow> metadata_ok (ParsedBookMetadata book'))
    \<and> CoverExtension book' = CoverExtension book \<and> CoverBytes book' = CoverBytes book
    \<and> CoverDiagnosticMessage book' = CoverDiagnosticMessage book"

lemma kept_refl [simp]: "kept book book" by (simp add: kept_def)

lemma kept_trans: "kept a b \<Longrightarrow> kept b c \<Longrightarrow> kept a c" by (simp add: kept_def)

lemma TryReadNodeText_nonempty: "TryReadNodeText n = Some v \<Longrightarrow> v \<noteq> []"
  by (auto simp: TryReadNodeText_def Let_def split: if_splits)

lemma TryReadTextChild_nonempty: "TryReadTextChild n c = Some v \<Longrightarrow> v \<noteq> []"
  by (auto simp: TryReadTextChild_def dest: TryReadNodeText_nonempty)

lemma read_language_kept: "kept book (read_language options node book)"
  by (auto simp: read_language_def kept_def metadata_ok_def split: option.splits)

lemma add_genre_kept: "trim_blanks token \<noteq> [] \<Longrightarrow> kept book (add_genre token book)"
  using ResolveGenre_nonempty [of token] by (simp add: add_genre_def kept_def metadata_ok_def Let_def)

lemma trim_blanks_idem: "trim_blanks (trim_blanks s) = trim_blanks s"
proof -
  have "dropWhile isspace (rev (dropWhile isspace (rev t))) = rev (dropWhile isspace (rev t))"
    if "dropWhile isspace t = t" for t
  proof (cases "rev (dropWhile isspace (rev t))")
    case (Cons c w)
    obtain p where "rev t = p @ dropWhile isspace (rev t)" by (metis takeWhile_dropWhile_id)
    then have "t = rev (dropWhile isspace (rev t)) @ rev p" by (metis rev_append rev_rev_ident)
    then have "t = (c # w) @ rev p" using Cons by simp
    then have "\<not> isspace c" using that
      by (metis append_Cons dropWhile.simps(2) dropWhile_eq_Cons_conv)
    then show ?thesis using Cons by simp
  next
    case Nil
    then show ?thesis by (simp only: dropWhile.simps)
  qed
  then show ?thesis by (simp add: trim_blanks_def)
qed

lemma genre_loop_kept: "kept book (genre_loop remaining book)"
proof (induction remaining book rule: genre_loop.induct)
  case (1 remaining book)
  define part where "part = takeWhile (\<lambda>c. c \<noteq> CHR '','') remaining"
  define book1 where "book1 = (if trim_blanks part \<noteq> [] then add_genre (trim_blanks part) book else book)"
  have k: "kept book book1" using add_genre_kept [of "trim_blanks part"] trim_blanks_idem [of part] by (simp add: book1_def)
  have l: "genre_loop remaining book = (if remaining = [] then book else
      if CHR '','' \<notin> set remaining then book1 else genre_loop (drop (Suc (length part)) remaining) book1)"
    by (simp add: genre_loop.simps [of remaining] Let_def part_def book1_def)
  show ?case
  proof (cases "remaining = [] \<or> CHR '','' \<notin> set remaining")
    case False
    then have "kept book1 (genre_loop (drop (Suc (length part)) remaining) book1)"
      using "1.IH" [OF _ part_def refl book1_def] by simp
    then show ?thesis using False k kept_trans unfolding l by simp
  qed (use k l in auto)
qed

lemma read_genres_kept: "kept book (read_genres node book)"
proof -
  have "kept b (foldl (\<lambda>book childNode. if MatchesLocalName (node_name childNode) ''genre''
      then (case TryReadNodeText (Some childNode) of None \<Rightarrow> book | Some rawCode \<Rightarrow> genre_loop rawCode book) else book) b cs)" for b cs
    by (induction cs arbitrary: b) (auto split: option.split intro: kept_trans [OF genre_loop_kept])
  then show ?thesis by (simp add: read_genres_def)
qed

lemma read_series_name_kept: "kept book (read_series_name node book)"
  by (auto simp: read_series_name_def kept_def metadata_ok_def nonempty_option_def Let_def split: option.splits
      dest: TryReadTextChild_nonempty)

lemma read_series_number_kept: "kept book (read_series_number env node book)"
  by (auto simp: read_series_number_def kept_def metadata_ok_def Let_def split: option.splits)

lemma read_annotation_kept: "kept book (read_annotation node book)"
  by (auto simp: read_annotation_def kept_def metadata_ok_def nonempty_option_def Let_def)

lemma from_chars_range: "from_chars lo hi s = Some (n, r) \<Longrightarrow> lo \<le> n \<and> n \<le> hi"
  by (auto simp: from_chars_def Let_def split: if_splits)

lemma TryParseInt_range: "TryParseInt s = Some n \<Longrightarrow> - (2 ^ 31) \<le> n \<and> n < 2 ^ 31"
  by (auto simp: TryParseInt_def split: option.splits list.splits dest!: from_chars_range)

lemma read_year_kept: "kept book (read_year node book)"
proof (cases "TryReadTextChild node ''year''")
  case (Some year)
  then show ?thesis using TryParseInt_range [of year]
    by (auto simp: read_year_def kept_def metadata_ok_def split: option.splits)
qed (simp add: read_year_def)

lemma read_publication_kept: "kept book (read_publication node book)"
proof -
  have k: "kept b (set_some (\<lambda>v m. m\<lparr>MetaPublisherUtf8 := v\<rparr>) (TryReadTextChild n c) b)"
    "kept b (set_some (\<lambda>v m. m\<lparr>MetaIsbn := v\<rparr>) (TryReadTextChild n c) b)" for b n c
    using TryReadTextChild_nonempty by (auto simp: set_some_def kept_def metadata_ok_def nonempty_option_def)
  show ?thesis unfolding read_publication_def Let_def by (rule kept_trans [OF k(2) kept_trans [OF k(1) read_year_kept]])
qed

lemma read_identifier_kept: "kept book (read_identifier node book)"
  using TryReadTextChild_nonempty
  by (auto simp: read_identifier_def set_some_def kept_def metadata_ok_def nonempty_option_def)

lemma read_authors_result:
  "authors_ok (MetaAuthorsUtf8 (ParsedBookMetadata (read_authors node book)))
   \<and> MetaTitleUtf8 (ParsedBookMetadata (read_authors node book)) = MetaTitleUtf8 (ParsedBookMetadata book)
   \<and> (metadata_ok (ParsedBookMetadata book) \<longrightarrow> metadata_ok (ParsedBookMetadata (read_authors node book)))
   \<and> CoverExtension (read_authors node book) = CoverExtension book \<and> CoverBytes (read_authors node book) = CoverBytes book
   \<and> CoverDiagnosticMessage (read_authors node book) = CoverDiagnosticMessage book"
  by (auto simp: read_authors_def metadata_ok_def authors_ok_def anonymous_author_def Let_def list_all_iff)

lemma read_fields_result:
  assumes "metadata_ok (ParsedBookMetadata book)" "MetaTitleUtf8 (ParsedBookMetadata book) \<noteq> []"
  shows "authors_ok (MetaAuthorsUtf8 (ParsedBookMetadata (read_fields env options d t book)))
    \<and> MetaTitleUtf8 (ParsedBookMetadata (read_fields env options d t book)) \<noteq> []
    \<and> metadata_ok (ParsedBookMetadata (read_fields env options d t book))
    \<and> CoverExtension (read_fields env options d t book) = CoverExtension book
    \<and> CoverBytes (read_fields env options d t book) = CoverBytes book
    \<and> CoverDiagnosticMessage (read_fields env options d t book) = CoverDiagnosticMessage book"
proof -
  define b where "b = read_authors t (read_language options t book)"
  have "authors_ok (MetaAuthorsUtf8 (ParsedBookMetadata b)) \<and> MetaTitleUtf8 (ParsedBookMetadata b) \<noteq> []
    \<and> metadata_ok (ParsedBookMetadata b) \<and> CoverExtension b = CoverExtension book \<and> CoverBytes b = CoverBytes book
    \<and> CoverDiagnosticMessage b = CoverDiagnosticMessage book"
    using assms read_language_kept [of book options t] read_authors_result [of t "read_language options t book"]
    by (simp add: b_def kept_def)
  moreover have "kept b (read_fields env options d t book)"
    unfolding read_fields_def b_def [symmetric]
    by (rule kept_trans [OF read_genres_kept kept_trans [OF read_series_name_kept kept_trans [OF read_series_number_kept
      kept_trans [OF read_annotation_kept kept_trans [OF read_publication_kept read_identifier_kept]]]]])
  ultimately show ?thesis by (simp add: kept_def)
qed

lemma read_title_result:
  assumes "read_title options t (new_book n) = Inr book"
  shows "MetaTitleUtf8 (ParsedBookMetadata book) \<noteq> [] \<and> metadata_ok (ParsedBookMetadata book)
    \<and> CoverExtension book = None \<and> CoverBytes book = [] \<and> CoverDiagnosticMessage book = None"
  using assms TryReadNodeText_nonempty
  by (auto simp: read_title_def new_book_def empty_metadata_def metadata_ok_def nonempty_option_def split: option.splits if_splits)

lemma take_cover_result:
  "CoverExtension book = None \<Longrightarrow> CoverBytes book = [] \<Longrightarrow> CoverDiagnosticMessage book = None \<Longrightarrow>
   ParsedBookMetadata (take_cover p book) = ParsedBookMetadata book \<and> cover_ok (take_cover p book)"
  by (auto simp: take_cover_def cover_ok_def HasCover_def Let_def split: sum.splits)

lemma read_cover_result:
  assumes "CoverExtension book = None" "CoverBytes book = []" "CoverDiagnosticMessage book = None"
    and "read_cover env content offset node book = Inr book'"
  shows "ParsedBookMetadata book' = ParsedBookMetadata book \<and> cover_ok book'"
proof (cases "TryGetCoverBinaryId node")
  case None
  then show ?thesis using assms by (auto simp: read_cover_def cover_ok_def HasCover_def split: if_splits)
next
  case (Some wanted)
  then obtain found where found: "FindBinaryPayloadById env content offset wanted = Inr found"
    using assms(4) by (auto simp: read_cover_def and_then_def split: sum.splits)
  show ?thesis
  proof (cases found)
    case None
    then show ?thesis using assms Some found by (auto simp: read_cover_def cover_ok_def HasCover_def)
  next
    case (Some payload)
    then have "book' = take_cover payload book" using assms(4) \<open>TryGetCoverBinaryId node = Some wanted\<close> found by (simp add: read_cover_def)
    then show ?thesis using take_cover_result [OF assms(1-3)] by simp
  qed
qed

section \<open>A sample book\<close>

definition sample_fb2 :: string where
  "sample_fb2 = ''<FictionBook><description><title-info><lang>ru</lang></title-info></description><binary id='' @ [CHR 0x22] @ ''c'' @ [CHR 0x22]
     @ ''>QQ==</binary></FictionBook>''"

definition sample_info :: xml_node where
  "sample_info = XmlElement ''title-info'' [] [XmlElement ''book-title'' [] [XmlText '' Demo ''], XmlElement ''lang'' [] [XmlText ''ru''],
     XmlElement ''coverpage'' [] [XmlElement ''image'' [(''l:href'', ''#c'')] []]]"

definition sample_tree :: "xml_node list" where
  "sample_tree = [XmlElement ''FictionBook'' [] [XmlElement ''description'' [] [sample_info]]]"

definition sample_env :: fb2_env where
  "sample_env = \<lparr>load_buffer = (\<lambda>s. if substr s 0 6 = ''<probe''
       then Inr [XmlElement ''probe'' [(''id'', ''c''), (''content-type'', ''image/png'')] []]
       else if length s > 200 then Inl ''too long'' else Inr sample_tree),
     Fb2Convert = (\<lambda>_ _. None), parse_double = (\<lambda>_. None)\<rparr>"

definition sample_options :: SBookParseOptions where
  "sample_options = \<lparr>ExtractCover = True, MissingTitleFallbackUtf8 = None, MissingLanguageMayBeRecoveredByCaller = False\<rparr>"

definition sample_book :: SParsedBook where
  "sample_book = \<lparr>ParsedBookMetadata = empty_metadata\<lparr>MetaTitleUtf8 := ''Demo'', MetaLanguage := ''ru'',
       MetaAuthorsUtf8 := [anonymous_author]\<rparr>,
     CoverExtension = Some ''png'', CoverBytes = ''A'', CoverDiagnosticMessage = None, ParserWarningCount = 1\<rparr>"

definition sample_range :: SDescriptionRange where
  "sample_range = \<lparr>RootOpenTag = \<lparr>TagStart = 0, NameStart = 1, NameEnd = 12, TagEnd = 12\<rparr>,
     DescriptionOpenTag = \<lparr>TagStart = 13, NameStart = 14, NameEnd = 25, TagEnd = 25\<rparr>,
     DescriptionCloseTag = \<lparr>TagStart = 66, NameStart = 68, NameEnd = 79, TagEnd = 79\<rparr>\<rparr>"

lemma sample_decoded: "DecodeFb2Text (Fb2Convert sample_env) sample_fb2 0 = Inr (sample_fb2, 0)"
  by code_simp

lemma sample_ranges: "FindDescriptionRange sample_fb2 = Some sample_range"
  by code_simp

lemma sample_shape: "fst (AnalyzeCatalogXml sample_fb2) = \<lparr>ShapeBytes = 94, ShapeNodes = 8, ShapeAttributes = 0\<rparr>"
  by code_simp

lemma sample_xml: "load_buffer sample_env (BuildDescriptionXml sample_fb2 sample_range) = Inr sample_tree"
  by code_simp

lemma sample_binary_tag: "FindNextTagRange sample_fb2 80 False (Some ''binary'')
    = Some \<lparr>TagStart = 80, NameStart = 81, NameEnd = 87, TagEnd = 94\<rparr>"
  by code_simp

lemma sample_binary_end: "FindNextTagRange sample_fb2 95 True (Some ''binary'')
    = Some \<lparr>TagStart = 99, NameStart = 101, NameEnd = 107, TagEnd = 107\<rparr>"
  by code_simp

lemma sample_attributes:
  "TryReadOpenTagAttribute sample_env (substr sample_fb2 80 15) ''id'' = Inr (Some ''c'')"
  "TryReadOpenTagAttribute sample_env (substr sample_fb2 80 15) ''content-type'' = Inr (Some ''image/png'')"
proof -
  have f: "find_last CHR ''>'' (substr sample_fb2 80 15) = Some 14" "hd (substr sample_fb2 80 15) = CHR ''<''"
    "load_buffer sample_env (probe_tag (substr sample_fb2 80 15) 14)
      = Inr [XmlElement ''probe'' [(''id'', ''c''), (''content-type'', ''image/png'')] []]"
    by code_simp+
  have l: "length (substr sample_fb2 80 15) \<le> 15" "substr sample_fb2 80 15 \<noteq> []" by (simp_all add: substr_def sample_fb2_def)
  show "TryReadOpenTagAttribute sample_env (substr sample_fb2 80 15) ''id'' = Inr (Some ''c'')"
    "TryReadOpenTagAttribute sample_env (substr sample_fb2 80 15) ''content-type'' = Inr (Some ''image/png'')"
    using f l by (simp_all add: TryReadOpenTagAttribute_def GMaxXmlOpenTagBytes_def MatchesLocalName_def)
qed

lemma sample_payload: "FindBinaryPayloadById sample_env sample_fb2 80 ''c''
    = Inr (Some \<lparr>BinaryId = ''c'', BinaryContentType = ''image/png'', BinaryContent = ''QQ==''\<rparr>)"
proof -
  have "\<not> IsSelfClosingTag (substr sample_fb2 80 15)" "substr sample_fb2 95 4 = ''QQ==''" by code_simp+
  then show ?thesis
    by (simp add: FindBinaryPayloadById_def binary_loop.simps sample_binary_tag binary_step_def sample_attributes sample_binary_end
        found_binary_def Let_def)
qed

definition sample_description :: xml_node where
  "sample_description = XmlElement ''description'' [] [sample_info]"

lemma sample_found:
  "find_child sample_tree ''FictionBook'' = Some (hd sample_tree)"
  "FindFirstChildByLocalName (Some (hd sample_tree)) ''description'' = Some sample_description"
  "FindFirstChildByLocalName (Some sample_description) ''title-info'' = Some sample_info"
  "TryGetCoverBinaryId (Some sample_info) = Some ''c''"
  by code_simp+

lemma sample_missing:
  "FindFirstChildByLocalName (Some sample_info) ''sequence'' = None"
  "FindFirstChildByLocalName (Some sample_info) ''annotation'' = None"
  "find (\<lambda>c. node_name c = ''sequence'') (children (Some sample_info)) = None"
  "FindFirstChildByLocalName (Some sample_description) ''publish-info'' = None"
  "FindFirstChildByLocalName (Some sample_description) ''document-info'' = None"
  "filter (\<lambda>c. MatchesLocalName (node_name c) ''author'') (children (Some sample_info)) = []"
  by code_simp+

lemma null_node:
  "TryReadTextChild None c = None" "attribute_value c None = []" "ReadAnnotationText None = []"
  by (simp_all add: TryReadTextChild_def TryReadNodeText_def FindFirstChildByLocalName_def find_child_def attribute_value_def
      ReadAnnotationText_def Fb2_Trim_def)

lemma sample_texts:
  "TryReadNodeText (FindFirstChildByLocalName (Some sample_info) ''book-title'') = Some ''Demo''"
  "TryReadTextChild (Some sample_info) ''lang'' = Some ''ru''"
  by code_simp+

lemma sample_no_genre: "read_genres (Some sample_info) b = b"
proof -
  have "\<not> MatchesLocalName ''book-title'' ''genre''" "\<not> MatchesLocalName ''lang'' ''genre''" "\<not> MatchesLocalName ''coverpage'' ''genre''"
    by code_simp+
  then show ?thesis by (simp add: read_genres_def sample_info_def)
qed

lemma sample_fields:
  "read_title sample_options (Some sample_info) (new_book 0)
    = Inr (with_metadata (\<lambda>m. m\<lparr>MetaTitleUtf8 := ''Demo''\<rparr>) (new_book 0))"
  "read_fields sample_env sample_options (Some sample_description) (Some sample_info)
     (with_metadata (\<lambda>m. m\<lparr>MetaTitleUtf8 := ''Demo''\<rparr>) (new_book 0))
   = sample_book\<lparr>CoverExtension := None, CoverBytes := []\<rparr>"
  by (simp_all add: read_title_def sample_texts read_fields_def read_language_def read_authors_def sample_no_genre sample_missing
      read_series_name_def read_series_number_def read_annotation_def read_publication_def read_year_def read_identifier_def
      null_node set_some_def with_metadata_def warn_def new_book_def empty_metadata_def sample_book_def sample_options_def)

lemma sample_cover:
  "take_cover \<lparr>BinaryId = ''c'', BinaryContentType = ''image/png'', BinaryContent = ''QQ==''\<rparr>
     (sample_book\<lparr>CoverExtension := None, CoverBytes := []\<rparr>) = sample_book"
proof -
  have "filter (\<lambda>c. \<not> isspace c) ''QQ=='' = EncodeBase64 ''A''" by code_simp
  then have "DecodeBase64 ''QQ=='' = Inr ''A''" by (simp only: base64_exact)
  then show ?thesis by (simp add: take_cover_def cover_extension_def MimeTypeToExtension_def sample_book_def)
qed

lemma sample_parsed: "ParseBytes sample_env sample_fb2 [] sample_options = Inr sample_book"
proof -
  have size: "IsBookPayloadSizeAllowed (length sample_fb2)"
    by (simp add: IsBookPayloadSizeAllowed_def GMaxBookPayloadBytes_def sample_fb2_def)
  obtain shape where a: "AnalyzeCatalogXml sample_fb2 = (shape, Some sample_range)"
    by (simp add: AnalyzeCatalogXml_def sample_ranges Let_def)
  have v: "ValidateMetadataXmlShape shape l = Inr ()" for l
    using a sample_shape by (simp add: ValidateMetadataXmlShape_def GMaxFb2MetadataXmlBytes_def GMaxFb2MetadataXmlNodes_def
        GMaxFb2MetadataXmlAttributes_def)
  have x: "ParseCatalogXml sample_env sample_fb2 l = Inr (sample_tree, 80)" for l
    by (simp add: ParseCatalogXml_def a v sample_xml sample_range_def [symmetric] Let_def)
      (simp add: sample_tree_def sample_range_def)
  show ?thesis
    using size
    by (simp add: ParseBytes_def sample_decoded ParseDecodedFb2Text_def x sample_found sample_fields read_cover_def sample_payload
        sample_cover Let_def) (simp add: sample_options_def)
qed

section \<open>What the XML library is given\<close>

text \<open>Another XML library that answers the same on every text within the limit of the metadata.\<close>

definition same_within_limit :: "fb2_env \<Rightarrow> (string \<Rightarrow> string + xml_node list) \<Rightarrow> bool" where
  "same_within_limit env other \<longleftrightarrow> (\<forall>s. length s \<le> GMaxFb2MetadataXmlBytes \<longrightarrow> other s = load_buffer env s)"

lemma valid_shape_bytes: "ValidateMetadataXmlShape shape l = Inr u \<Longrightarrow> ShapeBytes shape \<le> GMaxFb2MetadataXmlBytes"
  by (auto simp: ValidateMetadataXmlShape_def shape_error_def split: if_splits)

lemma ParseCatalogXml_same:
  assumes "same_within_limit env other"
  shows "ParseCatalogXml (env\<lparr>load_buffer := other\<rparr>) content label = ParseCatalogXml env content label"
proof -
  obtain shape r where a: "AnalyzeCatalogXml content = (shape, r)" by (cases "AnalyzeCatalogXml content")
  note b = analysis_measures_xml [OF a]
  have same: "length s \<le> GMaxFb2MetadataXmlBytes \<Longrightarrow> other s = load_buffer env s" for s
    using assms by (simp add: same_within_limit_def)
  show ?thesis
  proof (cases "ValidateMetadataXmlShape shape label")
    case (Inr u)
    show ?thesis using valid_shape_bytes [OF Inr] b same
      by (cases r) (simp_all add: ParseCatalogXml_def a Inr Let_def)
  qed (simp add: ParseCatalogXml_def a)
qed

lemma dropWhile_trim_length: "length (Fb2_Trim s) \<le> length s"
  unfolding Fb2_Trim_def by (metis length_dropWhile_le length_rev order_trans)

lemma probe_tag_length: "length (probe_tag tag e) \<le> length tag + 9"
proof -
  define n where "n = 1 + length (takeWhile IsXmlNameChar (substr tag 1 (e - 1)))"
  have "length (Fb2_Trim (substr tag n (e - n))) \<le> length tag"
    by (rule order_trans [OF dropWhile_trim_length]) (simp add: substr_def)
  then show ?thesis unfolding probe_tag_def Let_def n_def [symmetric] by (cases "n < e") auto
qed

lemma TryReadOpenTagAttribute_same:
  assumes "same_within_limit env other"
  shows "TryReadOpenTagAttribute (env\<lparr>load_buffer := other\<rparr>) tag n = TryReadOpenTagAttribute env tag n"
proof (cases "length tag > GMaxXmlOpenTagBytes")
  case True
  then show ?thesis by (simp add: TryReadOpenTagAttribute_def split: option.split)
next
  case False
  have "length (probe_tag tag e) \<le> GMaxFb2MetadataXmlBytes" for e
    using probe_tag_length [of tag e] False by (simp add: GMaxXmlOpenTagBytes_def GMaxFb2MetadataXmlBytes_def)
  then have "other (probe_tag tag e) = load_buffer env (probe_tag tag e)" for e
    using assms by (simp add: same_within_limit_def)
  then show ?thesis by (cases "find_last CHR ''>'' tag") (simp_all add: TryReadOpenTagAttribute_def)
qed

lemma FindBinaryPayloadById_same:
  assumes "same_within_limit env other"
  shows "FindBinaryPayloadById (env\<lparr>load_buffer := other\<rparr>) content start wanted = FindBinaryPayloadById env content start wanted"
proof -
  have "binary_loop (env\<lparr>load_buffer := other\<rparr>) content wanted start = binary_loop env content wanted start"
    using assms
  proof (induction env content wanted start rule: binary_loop.induct)
    case (1 env content wanted start)
    have step: "binary_step (env\<lparr>load_buffer := other\<rparr>) content wanted tag = binary_step env content wanted tag" for tag
      by (simp add: binary_step_def TryReadOpenTagAttribute_same [OF 1(2)])
    show ?case
      by (subst (1 2) binary_loop.simps) (auto simp: step 1 split: option.split sum.split)
  qed
  then show ?thesis by (simp add: FindBinaryPayloadById_def)
qed

section \<open>The properties\<close>

text \<open>C32: A book that the FB2 parser returns is complete, whatever the XML library and the converter answer. Its payload is
  within the limit; it has a title and at least one author, none of them empty; genres and optional texts are not
  empty, and a year fits a 32-bit integer. A cover has bytes, an extension and no complaint; a cover that could not
  be taken has none of the first two together, and without the option no cover is looked at.\<close>

theorem parsed_book_complete:
  assumes parsed: "ParseBytes env rawBytes sourceLabel options = Inr book"
  shows "length rawBytes \<le> GMaxBookPayloadBytes
    \<and> MetaTitleUtf8 (ParsedBookMetadata book) \<noteq> [] \<and> authors_ok (MetaAuthorsUtf8 (ParsedBookMetadata book))
    \<and> metadata_ok (ParsedBookMetadata book) \<and> cover_ok book
    \<and> (\<not> ExtractCover options \<longrightarrow> CoverBytes book = [] \<and> CoverDiagnosticMessage book = None)"
proof -
  define label where "label = (if sourceLabel = [] then ''<memory>'' else sourceLabel)"
  have small: "IsBookPayloadSizeAllowed (length rawBytes)"
    using parsed by (auto simp: ParseBytes_def Let_def split: if_splits)
  obtain content n where "ParseDecodedFb2Text env content label options n = Inr book"
    using parsed small by (auto simp: ParseBytes_def and_then_def label_def split: sum.splits)
  then obtain d t offset b where b: "read_title options t (new_book n) = Inr b"
    and r: "(if \<not> ExtractCover options then Inr (read_fields env options d t b)
      else read_cover env content offset t (read_fields env options d t b)) = Inr book"
    by (auto simp: ParseDecodedFb2Text_def and_then_def Let_def split: sum.splits if_splits)
  note f = read_fields_result [of b env options d t] read_title_result [OF b]
  show ?thesis
  proof (cases "ExtractCover options")
    case True
    then show ?thesis using r f read_cover_result [of "read_fields env options d t b" env content offset t book] small
      by (simp add: IsBookPayloadSizeAllowed_def)
  next
    case False
    then show ?thesis using r f small by (auto simp: IsBookPayloadSizeAllowed_def cover_ok_def HasCover_def)
  qed
qed

theorem parsed_book_complete_witness:
  "length sample_fb2 \<le> GMaxBookPayloadBytes \<and> MetaTitleUtf8 (ParsedBookMetadata sample_book) \<noteq> []
   \<and> authors_ok (MetaAuthorsUtf8 (ParsedBookMetadata sample_book)) \<and> cover_ok sample_book"
  using parsed_book_complete [OF sample_parsed] by simp

text \<open>C33: The XML library is only ever given text within the metadata limit of eight mebibytes: a library that differs from it
  on longer texts only makes no difference to any payload, of whatever size, with covers or without. So neither a
  book of the largest size nor a giant tag of a cover reaches the tree builder.\<close>

theorem xml_library_input_bounded:
  assumes "same_within_limit env other"
  shows "ParseBytes (env\<lparr>load_buffer := other\<rparr>) rawBytes sourceLabel options = ParseBytes env rawBytes sourceLabel options"
proof -
  have "read_cover (env\<lparr>load_buffer := other\<rparr>) content start node book = read_cover env content start node book" for content start node book
    by (cases "TryGetCoverBinaryId node") (simp_all add: read_cover_def FindBinaryPayloadById_same [OF assms])
  moreover have "read_fields (env\<lparr>load_buffer := other\<rparr>) options d t book = read_fields env options d t book" for d t book
  proof -
    have "parse_double (env\<lparr>load_buffer := other\<rparr>) = parse_double env" by simp
    then have "read_series_number (env\<lparr>load_buffer := other\<rparr>) = read_series_number env"
      unfolding read_series_number_def by (simp only:)
    then show ?thesis by (simp only: read_fields_def)
  qed
  ultimately have "ParseDecodedFb2Text (env\<lparr>load_buffer := other\<rparr>) content label options n
      = ParseDecodedFb2Text env content label options n" for content label n
    by (simp only: ParseDecodedFb2Text_def ParseCatalogXml_same [OF assms])
  moreover have "Fb2Convert (env\<lparr>load_buffer := other\<rparr>) = Fb2Convert env" by simp
  ultimately show ?thesis by (simp only: ParseBytes_def)
qed

theorem xml_library_input_bounded_witness:
  "ParseBytes (sample_env\<lparr>load_buffer := \<lambda>s. if length s > GMaxFb2MetadataXmlBytes then Inr [] else load_buffer sample_env s\<rparr>)
     sample_fb2 [] sample_options = Inr sample_book"
  using xml_library_input_bounded
    [of sample_env "\<lambda>s. if length s > GMaxFb2MetadataXmlBytes then Inr [] else load_buffer sample_env s" sample_fb2 "[]" sample_options]
  by (simp add: sample_parsed same_within_limit_def)

text \<open>C35: The base64 text of a cover is decoded exactly where it is, blanks apart, the canonical encoding of its bytes: no other
  alphabet, no missing or stray padding, and no bits left over in the last group.\<close>

theorem cover_base64_exact: "(DecodeBase64 s = Inr bytes) = (filter (\<lambda>c. \<not> isspace c) s = EncodeBase64 bytes)"
  by (rule base64_exact)

text \<open>The author that the parser makes up is the one that searches treat as anonymous.\<close>

lemma anonymous_author_is_fallback: "IsAnonymousAuthorFallback [anonymous_author]"
  by (simp add: IsAnonymousAuthorFallback_def GAnonymousAuthorFallbackUtf8_def anonymous_author_def)

end
