(* ===== verification/File_Replacement.thy ===== *)
theory File_Replacement
  imports Path_Safety Inpx_Roundtrip
begin

text \<open>
  \<open>ReplaceDestinationWithPreparedFile\<close> of \<open>libs/App/FileReplacement.cpp\<close>: a prepared file takes the place of a
  destination, whose old content waits in a backup until the published file has been validated. The state is the
  contents of the regular files, and a list that says of each call of the file system whether it fails: a call that
  fails changes nothing, and a call behind the end of the list does not fail. Log messages are left out, and so are
  the hooks, which only stand in for the same calls in tests.
\<close>

section \<open>The file system\<close>

record fs_world =
  Files :: "path \<Rightarrow> string option"
  Faults :: "bool list"
  Ticks :: "int list"
  GTemporaryPathSequence :: nat

datatype 'e replace_error = FilesystemError | CallbackError 'e | RestoreError path path

definition take_fault :: "'a fs_world_scheme \<Rightarrow> bool \<times> 'a fs_world_scheme" where
  "take_fault w = (case Faults w of [] \<Rightarrow> (False, w) | f # fs \<Rightarrow> (f, w\<lparr>Faults := fs\<rparr>))"

definition PathExists :: "path \<Rightarrow> 'a fs_world_scheme \<Rightarrow> ('e replace_error + bool) \<times> 'a fs_world_scheme" where
  "PathExists p w = (case take_fault w of
     (True, w') \<Rightarrow> (Inl FilesystemError, w')
   | (False, w') \<Rightarrow> (Inr (Files w' p \<noteq> None), w'))"

text \<open>\<open>rename\<close>: the error code, and the state.\<close>

definition RenamePathNoThrow :: "path \<Rightarrow> path \<Rightarrow> 'a fs_world_scheme \<Rightarrow> bool \<times> 'a fs_world_scheme" where
  "RenamePathNoThrow sourcePath destinationPath w = (case take_fault w of
     (True, w') \<Rightarrow> (True, w')
   | (False, w') \<Rightarrow>
       if Files w' sourcePath = None then (True, w')
       else if sourcePath = destinationPath then (False, w')
       else (False, w'\<lparr>Files := (Files w')(sourcePath := None, destinationPath := Files w' sourcePath)\<rparr>))"

definition RenamePath :: "path \<Rightarrow> path \<Rightarrow> 'a fs_world_scheme \<Rightarrow> ('e replace_error + unit) \<times> 'a fs_world_scheme" where
  "RenamePath sourcePath destinationPath w = (case RenamePathNoThrow sourcePath destinationPath w of
     (True, w') \<Rightarrow> (Inl FilesystemError, w')
   | (False, w') \<Rightarrow> (Inr (), w'))"

definition RemovePathNoThrow :: "path \<Rightarrow> 'a fs_world_scheme \<Rightarrow> bool \<times> 'a fs_world_scheme" where
  "RemovePathNoThrow p w = (case take_fault w of
     (True, w') \<Rightarrow> (True, w')
   | (False, w') \<Rightarrow> (False, w'\<lparr>Files := (Files w')(p := None)\<rparr>))"

section \<open>Names\<close>

text \<open>\<open>path += suffix\<close> appends to the text of the path.\<close>

definition path_concat :: "path \<Rightarrow> string \<Rightarrow> path" where
  "path_concat p s = (if Parts p = [] then p\<lparr>Parts := [s]\<rparr> else p\<lparr>Parts := butlast (Parts p) @ [last (Parts p) @ s]\<rparr>)"

definition path_filename :: "path \<Rightarrow> string" where
  "path_filename p = (if Parts p = [] then [] else last (Parts p))"

definition temporary_file_name :: "path \<Rightarrow> int \<Rightarrow> nat \<Rightarrow> string" where
  "temporary_file_name p clockValue sequence =
    (let extension = path_extension p;
         stem = take (length (path_filename p) - length extension) (path_filename p) in
     stem @ ''.inpx-web-reader-tmp-'' @ int_to_string clockValue @ ''-'' @ to_string sequence @ extension)"

definition BuildSiblingTemporaryPath :: "path \<Rightarrow> 'a fs_world_scheme \<Rightarrow> path \<times> 'a fs_world_scheme" where
  "BuildSiblingTemporaryPath destinationPath w =
    (let clockValue = (case Ticks w of [] \<Rightarrow> 0 | t # _ \<Rightarrow> t) in
     (destinationPath\<lparr>Parts := butlast (Parts destinationPath)
        @ [temporary_file_name destinationPath clockValue (GTemporaryPathSequence w)]\<rparr>,
      w\<lparr>Ticks := tl (Ticks w), GTemporaryPathSequence := (GTemporaryPathSequence w + 1) mod 2 ^ 64\<rparr>))"

definition backup_path :: "path \<Rightarrow> 'a fs_world_scheme \<Rightarrow> path \<times> 'a fs_world_scheme" where
  "backup_path destinationPath w =
    (case BuildSiblingTemporaryPath destinationPath w of (p, w') \<Rightarrow> (path_concat p ''.inpx-web-reader-backup'', w'))"

section \<open>Rollback\<close>

definition RestoreBackupOrThrow :: "path \<Rightarrow> path \<Rightarrow> 'e replace_error \<Rightarrow> 'a fs_world_scheme \<Rightarrow> 'e replace_error \<times> 'a fs_world_scheme" where
  "RestoreBackupOrThrow backupPath destinationPath replaceError w =
    (case PathExists backupPath w of
       (Inl e, w1) \<Rightarrow> (e, w1)
     | (Inr False, w1) \<Rightarrow> (replaceError, w1)
     | (Inr True, w1) \<Rightarrow>
    (case PathExists destinationPath w1 of
       (Inl e, w2) \<Rightarrow> (e, w2)
     | (Inr True, w2) \<Rightarrow> (replaceError, w2)
     | (Inr False, w2) \<Rightarrow>
    (case RenamePathNoThrow backupPath destinationPath w2 of
       (True, w3) \<Rightarrow> (RestoreError backupPath destinationPath, w3)
     | (False, w3) \<Rightarrow> (replaceError, w3))))"

definition RollbackPublishedFileOrThrow ::
    "path \<Rightarrow> path \<Rightarrow> bool \<Rightarrow> bool \<Rightarrow> 'e replace_error \<Rightarrow> 'a fs_world_scheme \<Rightarrow> ('e replace_error + unit) \<times> 'a fs_world_scheme" where
  "RollbackPublishedFileOrThrow backupPath destinationPath destinationWasBackedUp preparedFileWasPublished replaceError w =
    (case (if preparedFileWasPublished then RemovePathNoThrow destinationPath w else (False, w)) of
       (True, w1) \<Rightarrow> (Inl (RestoreError backupPath destinationPath), w1)
     | (False, w1) \<Rightarrow>
         if destinationWasBackedUp
         then (case RestoreBackupOrThrow backupPath destinationPath replaceError w1 of (e, w2) \<Rightarrow> (Inl e, w2))
         else (Inl replaceError, w1))"

section \<open>Replacement\<close>

type_synonym ('a, 'e) validator = "('a fs_world_scheme \<Rightarrow> ('e + unit) \<times> 'a fs_world_scheme) option"

definition run_validation :: "('a, 'e) validator \<Rightarrow> 'a fs_world_scheme \<Rightarrow> ('e replace_error + unit) \<times> 'a fs_world_scheme" where
  "run_validation validatePublishedFile w = (case validatePublishedFile of
     None \<Rightarrow> (Inr (), w)
   | Some v \<Rightarrow> (case v w of (Inl e, w') \<Rightarrow> (Inl (CallbackError e), w') | (Inr u, w') \<Rightarrow> (Inr u, w')))"

definition publish_prepared ::
    "path \<Rightarrow> path \<Rightarrow> path \<Rightarrow> bool \<Rightarrow> ('a, 'e) validator \<Rightarrow> 'a fs_world_scheme \<Rightarrow> ('e replace_error + unit) \<times> 'a fs_world_scheme" where
  "publish_prepared preparedPath destinationPath backupPath destinationWasBackedUp validatePublishedFile w =
    (case RenamePath preparedPath destinationPath w of
       (Inl e, w1) \<Rightarrow> RollbackPublishedFileOrThrow backupPath destinationPath destinationWasBackedUp False e w1
     | (Inr _, w1) \<Rightarrow>
    (case run_validation validatePublishedFile w1 of
       (Inl e, w2) \<Rightarrow> RollbackPublishedFileOrThrow backupPath destinationPath destinationWasBackedUp True e w2
     | (Inr _, w2) \<Rightarrow> (Inr (), if destinationWasBackedUp then snd (RemovePathNoThrow backupPath w2) else w2)))"

definition ReplaceDestinationWithPreparedFile ::
    "path \<Rightarrow> path \<Rightarrow> ('a, 'e) validator \<Rightarrow> 'a fs_world_scheme \<Rightarrow> ('e replace_error + unit) \<times> 'a fs_world_scheme" where
  "ReplaceDestinationWithPreparedFile preparedPath destinationPath validatePublishedFile w =
    (if preparedPath = destinationPath then run_validation validatePublishedFile w
     else case PathExists destinationPath w of
       (Inl e, w1) \<Rightarrow> (Inl e, w1)
     | (Inr False, w1) \<Rightarrow> publish_prepared preparedPath destinationPath (relative []) False validatePublishedFile w1
     | (Inr True, w1) \<Rightarrow>
    (case backup_path destinationPath w1 of (backupPath, w2) \<Rightarrow>
    (case RenamePath destinationPath backupPath w2 of
       (Inl e, w3) \<Rightarrow> RollbackPublishedFileOrThrow backupPath destinationPath False False e w3
     | (Inr _, w3) \<Rightarrow> publish_prepared preparedPath destinationPath backupPath True validatePublishedFile w3)))"

section \<open>Each call\<close>

lemma take_fault_keeps: "take_fault w = (f, w') \<Longrightarrow> Files w' = Files w \<and> Ticks w' = Ticks w \<and> GTemporaryPathSequence w' = GTemporaryPathSequence w
   \<and> (Faults w = [] \<longrightarrow> \<not> f \<and> w' = w)"
  by (auto simp: take_fault_def split: list.splits)

lemma PathExists_result:
  "PathExists p w = (r, w') \<Longrightarrow> Files w' = Files w \<and> Ticks w' = Ticks w \<and> GTemporaryPathSequence w' = GTemporaryPathSequence w
   \<and> (r = Inr (Files w p \<noteq> None) \<or> r = Inl FilesystemError) \<and> (Faults w = [] \<longrightarrow> r = Inr (Files w p \<noteq> None) \<and> w' = w)"
  by (auto simp: PathExists_def split: prod.splits bool.splits dest!: take_fault_keeps)

lemma RenamePathNoThrow_result:
  assumes "RenamePathNoThrow p q w = (e, w')" "p \<noteq> q"
  shows "if e then Files w' = Files w \<and> (Faults w = [] \<longrightarrow> Files w p = None \<and> w' = w)
     else Files w p \<noteq> None \<and> Files w' = (Files w)(p := None, q := Files w p) \<and> (Faults w = [] \<longrightarrow> Faults w' = [])"
  using assms by (auto simp: RenamePathNoThrow_def split: prod.splits bool.splits if_splits dest!: take_fault_keeps)

lemma RenamePath_result:
  assumes "RenamePath p q w = (r, w')" "p \<noteq> q"
  shows "r = Inl FilesystemError \<and> Files w' = Files w \<and> (Faults w = [] \<longrightarrow> Files w p = None \<and> w' = w)
    \<or> r = Inr () \<and> Files w p \<noteq> None \<and> Files w' = (Files w)(p := None, q := Files w p) \<and> (Faults w = [] \<longrightarrow> Faults w' = [])"
proof -
  obtain e w1 where "RenamePathNoThrow p q w = (e, w1)" by (cases "RenamePathNoThrow p q w")
  then show ?thesis using RenamePathNoThrow_result [of p q w e w1] assms by (cases e) (auto simp: RenamePath_def)
qed

lemma RemovePathNoThrow_result:
  "RemovePathNoThrow p w = (e, w') \<Longrightarrow> (if e then Files w' = Files w \<and> Faults w \<noteq> [] else Files w' = (Files w)(p := None))
    \<and> (Faults w = [] \<longrightarrow> Faults w' = [])"
  by (auto simp: RemovePathNoThrow_def split: prod.splits bool.splits dest!: take_fault_keeps)

text \<open>The names are new to their directory: longer than the name of the destination.\<close>

lemma backup_path_result: "backup_path p w = (b, w') \<Longrightarrow> Files w' = Files w \<and> Faults w' = Faults w"
  by (auto simp: backup_path_def BuildSiblingTemporaryPath_def Let_def)

lemma backup_path_differs: "backup_path p w = (b, w') \<Longrightarrow> b \<noteq> p"
proof -
  assume b: "backup_path p w = (b, w')"
  have l: "length (temporary_file_name p c n) \<ge> length (path_filename p)" for c n
    by (simp add: temporary_file_name_def Let_def)
  obtain c where c: "b = path_concat (p\<lparr>Parts := butlast (Parts p) @ [temporary_file_name p c (GTemporaryPathSequence w)]\<rparr>) ''.inpx-web-reader-backup''"
    using b by (auto simp: backup_path_def BuildSiblingTemporaryPath_def Let_def)
  then have "length (path_filename b) > length (path_filename p)"
    using l [of c "GTemporaryPathSequence w"] by (simp add: path_concat_def path_filename_def)
  then show "b \<noteq> p" by auto
qed

end
