(* ===== verification/Archive_Access.thy ===== *)
theory Archive_Access
  imports Payload_Limits Inpx_Archive Scan_Writer File_Replacement "HOL-Library.List_Lexorder" "HOL-Library.Char_ord"
begin

text \<open>
  The archives of the books, \<open>CZipArchive\<close> of \<open>libs/App/InpxArchiveAccess.cpp\<close>: reading and extracting an entry, and
  the manifest that a scan stores and a download compares. libzip is an argument: for one opened archive the results of its
  calls, and of the calls that open the descriptor. The checkpoints of cancellation are left out here.
\<close>

section \<open>Opening\<close>

record archive_file = libzip +
  DescriptorOpens :: bool
  DescriptorStatus :: "nat option"
  DescriptorMtime :: "int option"
  zip_name_locate :: "string \<Rightarrow> int"
  zip_stat_manifest :: "nat \<Rightarrow> (string option \<times> nat option \<times> nat option) option"

definition ReadArchiveFileStateFromDescriptor :: "archive_file \<Rightarrow> text_error + SInpxArchiveFileState" where
  "ReadArchiveFileStateFromDescriptor z =
    (case DescriptorStatus z of
       None \<Rightarrow> Inl (TextRuntimeError ''INPX archive descriptor is not a regular file.'')
     | Some fileSize \<Rightarrow>
    (case DescriptorMtime z of
       None \<Rightarrow> Inl (TextRuntimeError ''Failed to read INPX archive descriptor modification time.'')
     | Some modifiedTime \<Rightarrow> Inr \<lparr>StateFileSizeBytes = fileSize, StateMtimeTicks = modifiedTime\<rparr>))"

definition CZipArchive :: "archive_file \<Rightarrow> text_error + SInpxArchiveFileState" where
  "CZipArchive z =
    (if \<not> DescriptorOpens z then Inl (TextRuntimeError ''Failed to open INPX archive safely.'')
     else and_then (ReadArchiveFileStateFromDescriptor z) (\<lambda>fileState.
       case zip_open_error z of
         Some message \<Rightarrow> Inl (TextRuntimeError (''Failed to open INPX archive: '' @ message))
       | None \<Rightarrow> Inr fileState))"

section \<open>Entries\<close>

record SLocatedEntry =
  LocatedIndex :: nat
  LocatedSize :: nat

definition payload_too_large_message :: "nat \<Rightarrow> string" where
  "payload_too_large_message sizeBytes = ''INPX archive entry payload too large: '' @ to_string sizeBytes
    @ '' bytes exceeds '' @ to_string GMaxBookPayloadBytes @ '' byte limit.''"

text \<open>The name is given to libzip as a C string.\<close>

definition LocateEntry :: "archive_file \<Rightarrow> string \<Rightarrow> text_error + SLocatedEntry" where
  "LocateEntry z entryNameUtf8 =
    (let index = zip_name_locate z (takeWhile (\<lambda>c. byte_of c \<noteq> 0) entryNameUtf8) in
     if index < 0 then Inl (TextRuntimeError (''INPX archive entry is missing: '' @ entryNameUtf8))
     else case zip_stat_index z (nat index) of
       None \<Rightarrow> Inl (TextRuntimeError ''Failed to stat INPX archive entry.'')
     | Some (_, sizeBytes) \<Rightarrow>
         if \<not> IsBookPayloadSizeAllowed sizeBytes then Inl (TextRuntimeError (payload_too_large_message sizeBytes))
         else Inr \<lparr>LocatedIndex = nat index, LocatedSize = sizeBytes\<rparr>)"

definition OpenEntry :: "archive_file \<Rightarrow> nat \<Rightarrow> text_error + unit" where
  "OpenEntry z index = (if zip_fopen_index z index then Inr () else Inl (TextRuntimeError ''Failed to open INPX archive entry.''))"

definition ValidateEntryEndOfStream :: "archive_file \<Rightarrow> nat \<Rightarrow> nat \<Rightarrow> text_error + unit" where
  "ValidateEntryEndOfStream z index consumed =
    (if fst (zip_fread z index consumed 1) \<noteq> 0
     then Inl (TextRuntimeError ''Failed to validate INPX archive entry payload checksum and size.'') else Inr ())"

definition CloseEntry :: "archive_file \<Rightarrow> nat \<Rightarrow> text_error + unit" where
  "CloseEntry z index =
    (if zip_fclose z index \<noteq> 0 then Inl (TextRuntimeError ''Failed to close INPX archive entry after reading.'') else Inr ())"

definition GZipStreamChunkBytes :: nat where "GZipStreamChunkBytes = 64 * 1024"

text \<open>One \<open>zip_fread\<close> of a loop: the bytes it gave, or nothing where its count is out of range.\<close>

definition read_chunk :: "archive_file \<Rightarrow> nat \<Rightarrow> nat \<Rightarrow> nat \<Rightarrow> string option" where
  "read_chunk z index consumed remainingBytes =
    (let bytesToRead = min GZipStreamChunkBytes remainingBytes;
         readCount = fst (zip_fread z index consumed bytesToRead);
         buffer = snd (zip_fread z index consumed bytesToRead) in
     if readCount \<le> 0 \<or> nat readCount > bytesToRead \<or> length buffer < nat readCount then None
     else Some (take (nat readCount) buffer))"

lemma read_chunk_Some: "read_chunk z i c n = Some chunk \<Longrightarrow> 0 < length chunk \<and> length chunk \<le> n \<and> length chunk \<le> GZipStreamChunkBytes"
  by (auto simp: read_chunk_def Let_def split: if_splits)

text \<open>The loop of \<open>ReadBytes\<close>, and that of the validation of a manifest, which keeps nothing.\<close>

function read_bytes_loop :: "archive_file \<Rightarrow> nat \<Rightarrow> string \<Rightarrow> nat \<Rightarrow> string \<Rightarrow> text_error + string" where
  "read_bytes_loop z index message remainingBytes payload =
    (if remainingBytes > 0 then
       (case read_chunk z index (length payload) remainingBytes of
          None \<Rightarrow> Inl (TextRuntimeError message)
        | Some chunk \<Rightarrow> read_bytes_loop z index message (remainingBytes - length chunk) (payload @ chunk))
     else Inr payload)"
  by pat_completeness auto
termination
  by (relation "measure (\<lambda>(_, _, _, r, _). r)") (auto dest: read_chunk_Some)

declare read_bytes_loop.simps [simp del]

definition read_whole_entry :: "archive_file \<Rightarrow> nat \<Rightarrow> string \<Rightarrow> nat \<Rightarrow> text_error + string" where
  "read_whole_entry z index message sizeBytes =
    and_then (OpenEntry z index) (\<lambda>_.
    and_then (read_bytes_loop z index message sizeBytes []) (\<lambda>payload.
    and_then (ValidateEntryEndOfStream z index (length payload)) (\<lambda>_.
    and_then (CloseEntry z index) (\<lambda>_. Inr payload))))"

definition ReadBytes :: "archive_file \<Rightarrow> string \<Rightarrow> text_error + string" where
  "ReadBytes z entryNameUtf8 =
    and_then (LocateEntry z entryNameUtf8) (\<lambda>entry.
      read_whole_entry z (LocatedIndex entry) ''Failed to read INPX archive entry payload.'' (LocatedSize entry))"

definition ReadSize :: "archive_file \<Rightarrow> string \<Rightarrow> text_error + nat" where
  "ReadSize z entryNameUtf8 = and_then (LocateEntry z entryNameUtf8) (\<lambda>entry. Inr (LocatedSize entry))"

section \<open>Extraction\<close>

text \<open>Creating a file, and appending to it: a failure of either leaves what was there.\<close>

definition write_file :: "path \<Rightarrow> string \<Rightarrow> 'a fs_world_scheme \<Rightarrow> bool \<times> 'a fs_world_scheme" where
  "write_file p content w = (case take_fault w of
     (True, w') \<Rightarrow> (False, w')
   | (False, w') \<Rightarrow> (True, w'\<lparr>Files := (Files w')(p := Some content)\<rparr>))"

function extract_loop ::
    "archive_file \<Rightarrow> nat \<Rightarrow> path \<Rightarrow> nat \<Rightarrow> string \<Rightarrow> 'a fs_world_scheme \<Rightarrow> (text_error + string) \<times> 'a fs_world_scheme" where
  "extract_loop z index preparedPath remainingBytes written w =
    (if remainingBytes > 0 then
       (case read_chunk z index (length written) remainingBytes of
          None \<Rightarrow> (Inl (TextRuntimeError ''Failed to read INPX archive entry payload.''), w)
        | Some chunk \<Rightarrow>
       (case write_file preparedPath (written @ chunk) w of
          (False, w') \<Rightarrow> (Inl (TextRuntimeError ''Failed to write extracted INPX payload file.''), w')
        | (True, w') \<Rightarrow> extract_loop z index preparedPath (remainingBytes - length chunk) (written @ chunk) w'))
     else (Inr written, w))"
  by pat_completeness auto
termination
  by (relation "measure (\<lambda>(_, _, _, r, _, _). r)") (auto dest: read_chunk_Some)

declare extract_loop.simps [simp del]

definition replace_exception :: "text_error replace_error \<Rightarrow> text_error" where
  "replace_exception e = (case e of
     FilesystemError \<Rightarrow> TextRuntimeError ''filesystem error''
   | CallbackError t \<Rightarrow> t
   | RestoreError _ _ \<Rightarrow> TextRuntimeError ''failed to roll back a destination replacement'')"

text \<open>What happens while the prepared file exists; \<open>CScopedPathCleanup\<close> removes it behind every failure.\<close>

definition extract_prepared ::
    "archive_file \<Rightarrow> SLocatedEntry \<Rightarrow> path \<Rightarrow> path \<Rightarrow> 'a fs_world_scheme \<Rightarrow> (text_error + unit) \<times> 'a fs_world_scheme" where
  "extract_prepared z entry preparedPath destinationPath w =
    (case write_file preparedPath [] w of
       (False, w1) \<Rightarrow> (Inl (TextRuntimeError ''Failed to create extracted INPX payload file.''), w1)
     | (True, w1) \<Rightarrow>
    (case extract_loop z (LocatedIndex entry) preparedPath (LocatedSize entry) [] w1 of
       (Inl e, w2) \<Rightarrow> (Inl e, w2)
     | (Inr payload, w2) \<Rightarrow>
    (case and_then (ValidateEntryEndOfStream z (LocatedIndex entry) (length payload)) (\<lambda>_. CloseEntry z (LocatedIndex entry)) of
       Inl e \<Rightarrow> (Inl e, w2)
     | Inr _ \<Rightarrow>
    (case take_fault w2 of
       (True, w3) \<Rightarrow> (Inl (TextRuntimeError ''Failed to finalize extracted INPX payload file.''), w3)
     | (False, w3) \<Rightarrow>
    (case ReplaceDestinationWithPreparedFile preparedPath destinationPath None w3 of
       (Inl e, w4) \<Rightarrow> (Inl (replace_exception e), w4)
     | (Inr _, w4) \<Rightarrow> (Inr (), w4))))))"

text \<open>\<open>create_directories\<close> of the parent, where there is one.\<close>

definition create_parent :: "path \<Rightarrow> 'a fs_world_scheme \<Rightarrow> bool \<times> 'a fs_world_scheme" where
  "create_parent p w = (if \<not> Absolute p \<and> length (Parts p) \<le> 1 then (False, w) else take_fault w)"

definition Extract :: "archive_file \<Rightarrow> string \<Rightarrow> path \<Rightarrow> 'a fs_world_scheme \<Rightarrow> (text_error + unit) \<times> 'a fs_world_scheme" where
  "Extract z entryNameUtf8 destinationPath w =
    (case LocateEntry z entryNameUtf8 of
       Inl e \<Rightarrow> (Inl e, w)
     | Inr entry \<Rightarrow>
    (case OpenEntry z (LocatedIndex entry) of
       Inl e \<Rightarrow> (Inl e, w)
     | Inr _ \<Rightarrow>
    (case BuildSiblingTemporaryPath destinationPath w of (preparedPath, w1) \<Rightarrow>
    (case create_parent preparedPath w1 of
       (True, w2) \<Rightarrow> (Inl (TextRuntimeError ''filesystem error''), snd (RemovePathNoThrow preparedPath w2))
     | (False, w2) \<Rightarrow>
    (case extract_prepared z entry preparedPath destinationPath w2 of
       (Inl e, w3) \<Rightarrow> (Inl e, snd (RemovePathNoThrow preparedPath w3))
     | (Inr _, w3) \<Rightarrow> (Inr (), w3))))))"

section \<open>The manifest\<close>

record SManifestEntry =
  ManName :: string
  ManSize :: nat
  ManCrc :: nat

record SInpxArchiveManifest =
  ManifestFingerprintUtf8 :: string
  PayloadBytesValidated :: nat

definition GApproximateManifestEntryBytes :: nat where "GApproximateManifestEntryBytes = 256"

definition manifest_budget_exceeded :: "nat \<Rightarrow> text_error" where
  "manifest_budget_exceeded maxManifestMemoryBytes =
    TextRuntimeError (''INPX archive manifest metadata exceeds the configured memory budget of ''
      @ to_string maxManifestMemoryBytes @ '' bytes.'')"

definition readManifestStat :: "archive_file \<Rightarrow> nat \<Rightarrow> text_error + SManifestEntry" where
  "readManifestStat z index =
    (case zip_stat_manifest z index of
       Some (Some n, Some sizeBytes, Some crc) \<Rightarrow> Inr \<lparr>ManName = n, ManSize = sizeBytes, ManCrc = crc\<rparr>
     | _ \<Rightarrow> Inl (TextRuntimeError ''Failed to stat INPX archive manifest entry.''))"

fun name_bytes_loop :: "archive_file \<Rightarrow> nat \<Rightarrow> nat list \<Rightarrow> nat \<Rightarrow> text_error + nat" where
  "name_bytes_loop z maxManifestMemoryBytes [] requestedNameBytes = Inr requestedNameBytes"
| "name_bytes_loop z maxManifestMemoryBytes (index # rest) requestedNameBytes =
    (case readManifestStat z index of
       Inl e \<Rightarrow> Inl e
     | Inr stat \<Rightarrow>
         if length (ManName stat) > maxManifestMemoryBytes div 2 - requestedNameBytes
         then Inl (manifest_budget_exceeded maxManifestMemoryBytes)
         else name_bytes_loop z maxManifestMemoryBytes rest (requestedNameBytes + length (ManName stat)))"

definition validate_payload :: "archive_file \<Rightarrow> nat \<Rightarrow> nat \<Rightarrow> nat \<Rightarrow> text_error + nat" where
  "validate_payload z index sizeBytes payloadBytesValidated =
    (if \<not> IsBookPayloadSizeAllowed sizeBytes then Inl (TextRuntimeError (payload_too_large_message sizeBytes))
     else if sizeBytes > u64_max - payloadBytesValidated
     then Inl (TextRuntimeError ''INPX archive manifest payload size overflow.'')
     else and_then (read_whole_entry z index ''Failed to validate INPX archive entry payload.'' sizeBytes)
            (\<lambda>_. Inr (payloadBytesValidated + sizeBytes)))"

fun manifest_loop :: "archive_file \<Rightarrow> bool \<Rightarrow> nat list \<Rightarrow> nat \<Rightarrow> SManifestEntry list \<Rightarrow> text_error + nat \<times> SManifestEntry list" where
  "manifest_loop z validatePayloads [] payloadBytesValidated entries = Inr (payloadBytesValidated, entries)"
| "manifest_loop z validatePayloads (index # rest) payloadBytesValidated entries =
    (case readManifestStat z index of
       Inl e \<Rightarrow> Inl e
     | Inr stat \<Rightarrow>
    (case (if validatePayloads then validate_payload z index (ManSize stat) payloadBytesValidated else Inr payloadBytesValidated) of
       Inl e \<Rightarrow> Inl e
     | Inr validated \<Rightarrow> manifest_loop z validatePayloads rest validated (entries @ [stat])))"

fun has_duplicate_names :: "SManifestEntry list \<Rightarrow> bool" where
  "has_duplicate_names (a # b # rest) = (ManName a = ManName b \<or> has_duplicate_names (b # rest))"
| "has_duplicate_names _ = False"

text \<open>The pieces of text that the fingerprint is updated with.\<close>

definition manifest_pieces :: "SManifestEntry \<Rightarrow> string list" where
  "manifest_pieces e = [to_string (length (ManName e)), '':'', ManName e, '':'', to_string (ManSize e), '':'', to_string (ManCrc e), [chr_of 10]]"

fun update_pieces :: "'c evp \<Rightarrow> 'c builder \<Rightarrow> string list \<Rightarrow> sha_error + 'c builder" where
  "update_pieces evp b [] = Inr b"
| "update_pieces evp b (piece # pieces) =
    (case builder_Update evp b piece of Inl e \<Rightarrow> Inl e | Inr b' \<Rightarrow> update_pieces evp b' pieces)"

definition manifest_fingerprint :: "'c evp \<Rightarrow> SManifestEntry list \<Rightarrow> sha_error + string" where
  "manifest_fingerprint evp entries =
    (case builder_new evp of
       Inl e \<Rightarrow> Inl e
     | Inr b \<Rightarrow>
    (case update_pieces evp b (concat (map manifest_pieces entries)) of
       Inl e \<Rightarrow> Inl e
     | Inr b' \<Rightarrow> fst (builder_Finalize evp b')))"

text \<open>Entries with one name may be sorted either way; then the manifest is refused.\<close>

definition finish_manifest :: "'c evp \<Rightarrow> nat \<times> SManifestEntry list \<Rightarrow> text_error + SInpxArchiveManifest" where
  "finish_manifest evp collected =
    (case collected of (payloadBytesValidated, entries) \<Rightarrow>
     let ordered = linorder_class.sort_key ManName entries in
     if has_duplicate_names ordered then Inl (TextRuntimeError ''INPX archive contains duplicate entry names.'')
     else case manifest_fingerprint evp ordered of
       Inl e \<Rightarrow> Inl (sha_exception e)
     | Inr fingerprint \<Rightarrow> Inr \<lparr>ManifestFingerprintUtf8 = fingerprint, PayloadBytesValidated = payloadBytesValidated\<rparr>)"

definition ReadManifest :: "'c evp \<Rightarrow> archive_file \<Rightarrow> bool \<Rightarrow> nat \<Rightarrow> text_error + SInpxArchiveManifest" where
  "ReadManifest evp z validatePayloads maxManifestMemoryBytes =
    (if zip_num_entries z < 0 then Inl (TextRuntimeError ''Failed to read INPX archive entry count.'')
     else let count = nat (zip_num_entries z) in
     if count > maxManifestMemoryBytes div 2 div GApproximateManifestEntryBytes
     then Inl (manifest_budget_exceeded maxManifestMemoryBytes)
     else and_then (name_bytes_loop z maxManifestMemoryBytes [0..<count] 0) (\<lambda>_.
       and_then (manifest_loop z validatePayloads [0..<count] 0 []) (finish_manifest evp)))"

definition ReadValidatedManifest :: "'c evp \<Rightarrow> archive_file \<Rightarrow> nat \<Rightarrow> text_error + SInpxArchiveManifest" where
  "ReadValidatedManifest evp z maxManifestMemoryBytes = ReadManifest evp z True maxManifestMemoryBytes"

definition ArchiveManifestFingerprint :: "'c evp \<Rightarrow> archive_file \<Rightarrow> nat \<Rightarrow> text_error + string" where
  "ArchiveManifestFingerprint evp z maxManifestMemoryBytes =
    and_then (ReadManifest evp z False maxManifestMemoryBytes) (\<lambda>m. Inr (ManifestFingerprintUtf8 m))"

end
