(* ===== verification/File_Replacement_Properties.thy ===== *)
theory File_Replacement_Properties
  imports File_Replacement
begin

text \<open>
  The contract of the replacement: whatever calls of the file system fail and whatever the validation says, the old content
  of the destination is at the destination or in the backup, and nothing else is touched.
\<close>

section \<open>The contract\<close>

definition keeps_files :: "('a, 'e) validator \<Rightarrow> bool" where
  "keeps_files validate \<longleftrightarrow> (case validate of None \<Rightarrow> True | Some v \<Rightarrow> (\<forall>w. Files (snd (v w)) = Files w))"

definition replacement_backup :: "path \<Rightarrow> 'a fs_world_scheme \<Rightarrow> path" where
  "replacement_backup destination w = fst (backup_path destination w)"

text \<open>What a caller provides: three different paths, and a backup name that is not taken.\<close>

definition replacement_ready :: "path \<Rightarrow> path \<Rightarrow> 'a fs_world_scheme \<Rightarrow> bool" where
  "replacement_ready prepared destination w \<longleftrightarrow> prepared \<noteq> destination
    \<and> prepared \<noteq> replacement_backup destination w \<and> Files w (replacement_backup destination w) = None"

text \<open>The files before and after, given the result.\<close>

definition replacement_outcome ::
    "path \<Rightarrow> path \<Rightarrow> path \<Rightarrow> (path \<Rightarrow> string option) \<Rightarrow> 'e replace_error + unit \<Rightarrow> (path \<Rightarrow> string option) \<Rightarrow> bool" where
  "replacement_outcome prepared destination backup before r after \<longleftrightarrow>
    (\<forall>p. p \<notin> {prepared, destination, backup} \<longrightarrow> after p = before p)
    \<and> (case r of
         Inr _ \<Rightarrow> before prepared \<noteq> None \<and> after destination = before prepared \<and> after prepared = None
           \<and> (after backup = None \<or> after backup = before destination)
       | Inl e \<Rightarrow>
           (if e = RestoreError backup destination \<and> before destination \<noteq> None then after backup = before destination
            else e = RestoreError (relative []) destination \<and> before destination = None
              \<or> after destination = before destination \<and> after backup = None
              \<or> e = FilesystemError \<and> before destination \<noteq> None \<and> after destination = None
                \<and> after backup = before destination))"

lemma run_validation_result:
  assumes "run_validation validate w = (r, w')" "keeps_files validate"
  shows "Files w' = Files w \<and> (r = Inr () \<or> (\<exists>e. r = Inl (CallbackError e)))"
  using assms by (auto simp: run_validation_def keeps_files_def split: option.splits prod.splits sum.splits) (metis snd_conv)+

lemma RestoreBackupOrThrow_result:
  fixes e :: "'e replace_error"
  assumes "RestoreBackupOrThrow b d e w = (e', w')" "b \<noteq> d" "Files w b \<noteq> None" "Files w d = None"
  shows "e' = e \<and> Files w' = (Files w)(b := None, d := Files w b)
    \<or> (e' = RestoreError b d \<or> e' = FilesystemError) \<and> Files w' = Files w \<and> Faults w \<noteq> []"
proof -
  obtain r1 :: "'e replace_error + bool" and w1 where p1: "PathExists b w = (r1, w1)" by fastforce
  obtain r2 :: "'e replace_error + bool" and w2 where p2: "PathExists d w1 = (r2, w2)" by fastforce
  obtain r3 w3 where p3: "RenamePathNoThrow b d w2 = (r3, w3)" by (cases "RenamePathNoThrow b d w2")
  note results = PathExists_result [OF p1] PathExists_result [OF p2] RenamePathNoThrow_result [OF p3 assms(2)]
  show ?thesis
    using assms results p1 p2 p3 by (auto simp: RestoreBackupOrThrow_def split: if_splits sum.splits bool.splits)
qed

lemma rollback_unpublished:
  assumes "RollbackPublishedFileOrThrow b d False False e w = (r, w')"
  shows "r = Inl e \<and> w' = w"
  using assms by (simp add: RollbackPublishedFileOrThrow_def)

lemma rollback_backed_up:
  assumes "RollbackPublishedFileOrThrow b d True published e w = (r, w')" "b \<noteq> d" "Files w b \<noteq> None" "published = (Files w d \<noteq> None)"
  shows "r = Inl e \<and> Files w' = (Files w)(b := None, d := Files w b)
    \<or> (r = Inl (RestoreError b d) \<and> (Files w' = Files w \<or> Files w' = (Files w)(d := None))
       \<or> r = Inl FilesystemError \<and> Files w' = (Files w)(d := None)) \<and> Faults w \<noteq> []"
proof -
  obtain f w1 where f: "(if published then RemovePathNoThrow d w else (False, w)) = (f, w1)"
    by (cases "if published then RemovePathNoThrow d w else (False, w)")
  show ?thesis
  proof (cases f)
    case True
    then have "RemovePathNoThrow d w = (True, w1)" using f by (auto split: if_splits)
    from RemovePathNoThrow_result [OF this] show ?thesis using assms f True by (auto simp: RollbackPublishedFileOrThrow_def)
  next
    case False
    have w1: "Files w1 = (Files w)(d := None) \<and> (Faults w = [] \<longrightarrow> Faults w1 = [])"
      using f False assms(4) RemovePathNoThrow_result [of d w False w1] by (cases published) (auto simp: fun_upd_idem)
    obtain e' w2 where r: "RestoreBackupOrThrow b d e w1 = (e', w2)" by (cases "RestoreBackupOrThrow b d e w1")
    have "r = Inl e'" "w' = w2" using assms(1) f False r by (auto simp: RollbackPublishedFileOrThrow_def)
    then show ?thesis using RestoreBackupOrThrow_result [OF r assms(2)] w1 assms(2,3) by auto
  qed
qed

text \<open>Publishing stops at the rename, at the validation, or succeeds.\<close>

lemma publish_cases:
  fixes r :: "'e replace_error + unit"
  assumes publish: "publish_prepared p d b backed validate w = (r, w')" and keeps: "keeps_files validate" and differ: "p \<noteq> d"
  shows "(\<exists>w1. Files w1 = Files w \<and> (Faults w = [] \<longrightarrow> Files w p = None)
      \<and> RollbackPublishedFileOrThrow b d backed False FilesystemError w1 = (r, w'))
    \<or> Files w p \<noteq> None
      \<and> ((\<exists>w1 e. Files w1 = (Files w)(p := None, d := Files w p)
          \<and> RollbackPublishedFileOrThrow b d backed True (CallbackError e) w1 = (r, w'))
        \<or> (\<exists>w1. Files w1 = (Files w)(p := None, d := Files w p) \<and> r = Inr ()
          \<and> w' = (if backed then snd (RemovePathNoThrow b w1) else w1)))"
proof -
  obtain r1 :: "'e replace_error + unit" and w1 where p1: "RenamePath p d w = (r1, w1)" by fastforce
  show ?thesis
  proof (cases r1)
    case (Inl e)
    then show ?thesis using RenamePath_result [OF p1 differ] publish p1 by (auto simp: publish_prepared_def)
  next
    case (Inr u)
    then have w1: "Files w p \<noteq> None" "Files w1 = (Files w)(p := None, d := Files w p)"
      using RenamePath_result [OF p1 differ] by auto
    obtain r2 w2 where p2: "run_validation validate w1 = (r2, w2)" by fastforce
    note v = run_validation_result [OF p2 keeps]
    show ?thesis
    proof (cases r2)
      case Inl
      with v obtain e where "r2 = Inl (CallbackError e)" by auto
      then have "RollbackPublishedFileOrThrow b d backed True (CallbackError e) w2 = (r, w')"
        using publish p1 p2 Inr by (simp add: publish_prepared_def)
      then show ?thesis using v w1 by metis
    next
      case r2: Inr
      then have "r = Inr ()" "w' = (if backed then snd (RemovePathNoThrow b w2) else w2)"
        using publish p1 p2 Inr by (simp_all add: publish_prepared_def)
      then show ?thesis using v w1 by metis
    qed
  qed
qed

lemma rollback_new:
  assumes "RollbackPublishedFileOrThrow b d False True e w = (r, w')"
  shows "r = Inl e \<and> Files w' = (Files w)(d := None) \<or> r = Inl (RestoreError b d) \<and> Files w' = Files w \<and> Faults w \<noteq> []"
proof -
  obtain f w1 where f: "RemovePathNoThrow d w = (f, w1)" by fastforce
  then show ?thesis using RemovePathNoThrow_result [OF f] assms
    by (cases f) (auto simp: RollbackPublishedFileOrThrow_def)
qed

lemma publish_new:
  assumes "publish_prepared p d b False validate w = (r, w')" "keeps_files validate" "p \<noteq> d" "Files w d = None"
  shows "r = Inr () \<and> Files w p \<noteq> None \<and> Files w' = (Files w)(p := None, d := Files w p)
    \<or> (\<exists>e. r = Inl (CallbackError e) \<and> Files w' = (Files w)(p := None))
    \<or> r = Inl FilesystemError \<and> Files w' = Files w
    \<or> r = Inl (RestoreError b d) \<and> Files w' = (Files w)(p := None, d := Files w p)"
proof -
  have u: "(Files w)(p := None, d := None) = (Files w)(p := None)" using assms(3,4) by auto
  show ?thesis
    using publish_cases [OF assms(1-3)]
  proof (elim disjE exE conjE)
    fix w1 assume "Files w1 = Files w" "RollbackPublishedFileOrThrow b d False False FilesystemError w1 = (r, w')"
    then show ?thesis using rollback_unpublished by metis
  next
    fix w1 e assume "Files w1 = (Files w)(p := None, d := Files w p)"
      "RollbackPublishedFileOrThrow b d False True (CallbackError e) w1 = (r, w')"
    then show ?thesis using rollback_new [of b d "CallbackError e" w1 r w'] u by auto
  qed auto
qed

lemma publish_over:
  assumes "publish_prepared p d b True validate w = (r, w')" "keeps_files validate" "distinct [p, d, b]" "Files w d = None" "Files w b = Some old"
  shows "r = Inr () \<and> Files w p \<noteq> None \<and> (Files w' = (Files w)(p := None, d := Files w p) \<or> Files w' = (Files w)(p := None, d := Files w p, b := None))
    \<or> (\<exists>e. r = Inl (CallbackError e) \<and> Files w' = (Files w)(p := None, b := None, d := Some old))
    \<or> r = Inl FilesystemError \<and> Files w' = (Files w)(b := None, d := Some old)
    \<or> r = Inl (RestoreError b d) \<and> (\<forall>x. x \<notin> {p, d} \<longrightarrow> Files w' x = Files w x)
    \<or> r = Inl FilesystemError \<and> (\<forall>x. x \<noteq> p \<longrightarrow> Files w' x = Files w x)"
proof -
  have pd: "p \<noteq> d" "b \<noteq> d" "b \<noteq> p" using assms(3) by auto
  show ?thesis
    using publish_cases [OF assms(1,2) pd(1)]
  proof (elim disjE exE conjE)
    fix w1 assume w1: "Files w1 = Files w" and r: "RollbackPublishedFileOrThrow b d True False FilesystemError w1 = (r, w')"
    have "Files w1 b \<noteq> None" "False = (Files w1 d \<noteq> None)" using w1 assms(4,5) by auto
    from rollback_backed_up [OF r pd(2) this] show ?thesis using w1 assms(4,5) by (auto simp: fun_upd_idem)
  next
    fix w1 e assume some: "Files w p \<noteq> None" and w1: "Files w1 = (Files w)(p := None, d := Files w p)"
      and r: "RollbackPublishedFileOrThrow b d True True (CallbackError e) w1 = (r, w')"
    have "Files w1 b \<noteq> None" "True = (Files w1 d \<noteq> None)" using w1 some assms(5) pd by auto
    from rollback_backed_up [OF r pd(2) this] show ?thesis using w1 assms(4,5) pd by (auto simp: fun_upd_twist split: if_splits)
  next
    fix w1 assume w1: "Files w1 = (Files w)(p := None, d := Files w p)" and w': "w' = (if True then snd (RemovePathNoThrow b w1) else w1)"
      and r: "r = Inr ()" and some: "Files w p \<noteq> None"
    obtain f w2 where f: "RemovePathNoThrow b w1 = (f, w2)" by fastforce
    show ?thesis using RemovePathNoThrow_result [OF f] f w1 w' r some by (cases f) auto
  qed
qed

section \<open>The property\<close>

lemma replacement_result:
  fixes r :: "'e replace_error + unit"
  assumes ready: "replacement_ready prepared destination w" and keeps: "keeps_files validate"
    and replaced: "ReplaceDestinationWithPreparedFile prepared destination validate w = (r, w')"
  shows "replacement_outcome prepared destination (replacement_backup destination w) (Files w) r (Files w')"
proof -
  define b where "b = replacement_backup destination w"
  have pd: "prepared \<noteq> destination" and fresh: "Files w b = None" and pb: "prepared \<noteq> b"
    using ready by (auto simp: replacement_ready_def b_def)
  obtain r1 :: "'e replace_error + bool" and w1 where p1: "PathExists destination w = (r1, w1)" by fastforce
  note w1 = PathExists_result [OF p1]
  obtain b2 w2 where p2: "backup_path destination w1 = (b2, w2)" by fastforce
  have b2: "b2 = b" using p2 w1 by (auto simp: b_def replacement_backup_def backup_path_def BuildSiblingTemporaryPath_def Let_def)
  have bd: "destination \<noteq> b" using backup_path_differs [OF p2] b2 by auto
  obtain r3 :: "'e replace_error + unit" and w3 where p3: "RenamePath destination b w2 = (r3, w3)" by fastforce
  note w3 = RenamePath_result [OF p3 bd] backup_path_result [OF p2]
  consider (error) "r1 = Inl FilesystemError" | (new) "r1 = Inr False" "Files w destination = None"
    | (over) "r1 = Inr True" "Files w destination \<noteq> None" using w1 by auto
  then have "replacement_outcome prepared destination b (Files w) r (Files w')"
  proof cases
    case error
    then have "r = Inl FilesystemError \<and> w' = w1" using replaced p1 pd by (simp add: ReplaceDestinationWithPreparedFile_def)
    then show ?thesis using w1 fresh by (auto simp: replacement_outcome_def)
  next
    case new
    then have "publish_prepared prepared destination (relative []) False validate w1 = (r, w')"
      using replaced p1 pd by (simp add: ReplaceDestinationWithPreparedFile_def)
    from publish_new [OF this keeps pd] show ?thesis using w1 new fresh bd pb pd by (auto simp: replacement_outcome_def)
  next
    case over
    show ?thesis
    proof (cases r3)
      case (Inl e)
      then have "r = Inl e \<and> Files w' = Files w"
        using replaced p1 p2 p3 pd over b2 w1 w3 rollback_unpublished
        by (fastforce simp: ReplaceDestinationWithPreparedFile_def)
      then show ?thesis using Inl w3 fresh by (auto simp: replacement_outcome_def)
    next
      case (Inr u)
      then have "publish_prepared prepared destination b True validate w3 = (r, w')"
        using replaced p1 p2 p3 pd over b2 by (simp add: ReplaceDestinationWithPreparedFile_def)
      moreover have f3: "Files w3 = (Files w)(destination := None, b := Files w destination)" using w3 w1 Inr by auto
      moreover obtain old where "Files w destination = Some old" using over by auto
      ultimately show ?thesis using publish_over [of prepared destination b validate w3 r w' old, OF _ keeps] pd bd pb fresh
        by (auto simp: replacement_outcome_def)
    qed
  qed
  then show ?thesis by (simp add: b_def)
qed

text \<open>C21: A replacement never loses the old content of the destination, whichever calls of the file system fail and whatever
  the validation of the published file says. On success the destination has the prepared content; a restore error
  names the backup that still has the old content; any other failure leaves the destination as it was, or, where the
  rollback itself could not look at the files, the old content in the backup. No other file is touched.\<close>

theorem replacement_keeps_content:
  assumes "replacement_ready prepared destination w" "keeps_files validate"
    and "ReplaceDestinationWithPreparedFile prepared destination validate w = (r, w')"
  shows "replacement_outcome prepared destination (replacement_backup destination w) (Files w) r (Files w')"
  using assms by (rule replacement_result)

text \<open>A destination \<open>/d/b.fb2\<close>, a prepared file, and a validation that refuses what was published.\<close>

definition sample_destination :: path where
  "sample_destination = \<lparr>Absolute = True, Parts = [''d'', ''b.fb2'']\<rparr>"

definition sample_prepared :: path where
  "sample_prepared = \<lparr>Absolute = True, Parts = [''d'', ''w'', ''b.fb2'']\<rparr>"

definition sample_backup :: path where
  "sample_backup = \<lparr>Absolute = True, Parts = [''d'', ''b.inpx-web-reader-tmp-7-0.fb2.inpx-web-reader-backup'']\<rparr>"

definition sample_files :: "bool list \<Rightarrow> fs_world" where
  "sample_files faults = \<lparr>Files = [sample_destination \<mapsto> ''old'', sample_prepared \<mapsto> ''new''], Faults = faults, Ticks = [7],
     GTemporaryPathSequence = 0\<rparr>"

definition refuse :: "(unit, string) validator" where
  "refuse = Some (\<lambda>w. (Inl ''changed'', w))"

lemma sample_paths_differ [simp]: "sample_destination \<noteq> sample_prepared" "sample_backup \<noteq> sample_destination"
  "sample_backup \<noteq> sample_prepared" "sample_prepared \<noteq> sample_destination"
  "sample_destination \<noteq> sample_backup" "sample_prepared \<noteq> sample_backup"
  by (simp_all add: sample_destination_def sample_prepared_def sample_backup_def)

lemma sample_backup_path: "backup_path sample_destination w = (b, w') \<Longrightarrow> Ticks w = [7] \<Longrightarrow> GTemporaryPathSequence w = 0 \<Longrightarrow> b = sample_backup"
proof -
  have e: "path_extension (sample_destination) = ''.fb2''" by code_simp
  have i: "int_to_string 7 = ''7''" "to_string 0 = ''0''" by code_simp+
  show "backup_path sample_destination w = (b, w') \<Longrightarrow> Ticks w = [7] \<Longrightarrow> GTemporaryPathSequence w = 0 \<Longrightarrow> b = sample_backup"
    by (simp add: backup_path_def BuildSiblingTemporaryPath_def temporary_file_name_def e i path_filename_def path_concat_def Let_def)
      (auto simp: sample_destination_def sample_backup_def)
qed

lemma sample_new_backup: "replacement_backup sample_destination (sample_files faults) = sample_backup"
proof -
  obtain b w' where b: "backup_path sample_destination (sample_files faults) = (b, w')" by fastforce
  have "b = sample_backup" by (rule sample_backup_path [OF b]) (simp_all add: sample_files_def)
  then show ?thesis using b by (simp add: replacement_backup_def)
qed

theorem replacement_keeps_content_witness:
  "replacement_outcome sample_prepared sample_destination sample_backup (Files (sample_files [False, True]))
     (fst (ReplaceDestinationWithPreparedFile sample_prepared sample_destination refuse (sample_files [False, True])))
     (Files (snd (ReplaceDestinationWithPreparedFile sample_prepared sample_destination refuse (sample_files [False, True]))))"
  using replacement_keeps_content [of sample_prepared sample_destination "sample_files [False, True]" refuse, OF _ _ prod.collapse [symmetric]]
  by (simp add: replacement_ready_def sample_new_backup keeps_files_def refuse_def) (simp add: sample_files_def)

section \<open>A rollback that cannot look\<close>

text \<open>\<open>RestoreBackupOrThrow\<close> calls the throwing \<open>exists\<close>: where it fails, the exception that leaves the replacement is its
  own, not the restore error that names the backup, although the destination is gone.\<close>

lemma failed_exists_hides_backup:
  "fst (ReplaceDestinationWithPreparedFile sample_prepared sample_destination refuse (sample_files [False, False, True, True]))
     = Inl FilesystemError
   \<and> Files (snd (ReplaceDestinationWithPreparedFile sample_prepared sample_destination refuse (sample_files [False, False, True, True])))
     sample_destination = None"
proof -
  obtain b w' where b: "backup_path sample_destination (sample_files [False, True, True]) = (b, w')" by fastforce
  have f: "b = sample_backup" "Files w' = Files (sample_files [])" "Faults w' = [False, True, True]"
    using sample_backup_path [OF b] backup_path_result [OF b] by (simp_all add: sample_files_def)
  have w: "sample_files [False, True, True] = sample_files [False, False, True, True]\<lparr>Faults := [False, True, True]\<rparr>"
    by (simp add: sample_files_def)
  show ?thesis using b f
    by (simp add: ReplaceDestinationWithPreparedFile_def PathExists_def take_fault_def w RenamePath_def RenamePathNoThrow_def
        publish_prepared_def RollbackPublishedFileOrThrow_def RestoreBackupOrThrow_def sample_files_def)
qed

end
