(* ===== verification/Archive_Access_Properties.thy ===== *)
theory Archive_Access_Properties
  imports Archive_Access File_Replacement_Properties
begin

text \<open>
  Archives of books: an entry is read exactly, extraction keeps what was at its destination, and the text behind the
  fingerprint of a manifest is the same exactly for archives with the same entries.
\<close>

section \<open>Reading\<close>

lemma read_chunk_serves:
  assumes "zip_serves (libzip.truncate z) i content" "pos \<le> length content" "0 < n"
  shows "read_chunk z i pos n = (if pos = length content then None
    else Some (take (nat (fst (zip_fread z i pos (min GZipStreamChunkBytes n)))) (drop pos content)))"
proof -
  define m where "m = min GZipStreamChunkBytes n"
  have m: "0 < m" using assms(3) by (simp add: m_def GZipStreamChunkBytes_def)
  define k where "k = fst (zip_fread z i pos m)"
  have same: "zip_fread (libzip.truncate z) = zip_fread z" by (simp add: libzip.truncate_def)
  note s = zip_servesD [OF assms(1,2) m, unfolded same k_def [symmetric]]
  have l: "pos < length content \<Longrightarrow> nat k \<le> length (snd (zip_fread z i pos m))"
    using arg_cong [OF s(5), of length] s(4) by simp
  show ?thesis unfolding read_chunk_def Let_def m_def [symmetric] k_def [symmetric] using s l assms(2) by auto
qed

lemma read_bytes_loop_serves:
  "zip_serves (libzip.truncate z) i content \<Longrightarrow> length payload \<le> length content \<Longrightarrow> payload = take (length payload) content \<Longrightarrow>
    read_bytes_loop z i message n payload =
      (if length payload + n \<le> length content then Inr (take (length payload + n) content) else Inl (TextRuntimeError message))"
proof (induction z i message n payload rule: read_bytes_loop.induct)
  case (1 z i message n payload)
  note loop = read_bytes_loop.simps [of z i message n payload]
  show ?case
  proof (cases "n = 0")
    case True
    then show ?thesis using 1(3,4) loop by simp
  next
    case False
    then have n: "0 < n" by simp
    define k where "k = nat (fst (zip_fread z i (length payload) (min GZipStreamChunkBytes n)))"
    note r = read_chunk_serves [OF 1(2,3) n, folded k_def]
    show ?thesis
    proof (cases "length payload = length content")
      case True
      then show ?thesis using n r by (simp add: loop)
    next
      case False
      define chunk where "chunk = take k (drop (length payload) content)"
      have c: "read_chunk z i (length payload) n = Some chunk" using r False by (simp add: chunk_def)
      note b = read_chunk_Some [OF c]
      have p: "payload @ chunk = take (length payload + k) content" using 1(4) by (metis chunk_def take_add)
      have l: "length payload + length chunk \<le> length content" using 1(3) by (simp add: chunk_def)
      have "payload @ chunk = take (length (payload @ chunk)) content" using p l by (metis length_take min_def take_all_iff nle_le take_take)
      from "1.IH" [OF n c 1(2) _ this] l have
        "read_bytes_loop z i message (n - length chunk) (payload @ chunk)
          = (if length (payload @ chunk) + (n - length chunk) \<le> length content
             then Inr (take (length (payload @ chunk) + (n - length chunk)) content) else Inl (TextRuntimeError message))" by simp
      then show ?thesis using b n by (simp add: loop c)
    qed
  qed
qed

lemma read_whole_entry_serves:
  assumes "zip_serves (libzip.truncate z) i content" "zip_fopen_index z i" "zip_fclose z i = 0"
  shows "read_whole_entry z i message n =
    (if n = length content then Inr content
     else Inl (TextRuntimeError (if n < length content then ''Failed to validate INPX archive entry payload checksum and size.'' else message)))"
proof -
  have same: "zip_fread (libzip.truncate z) = zip_fread z" by (simp add: libzip.truncate_def)
  have r: "read_bytes_loop z i message n [] = (if n \<le> length content then Inr (take n content) else Inl (TextRuntimeError message))"
    using read_bytes_loop_serves [OF assms(1), of "[]"] by simp
  show ?thesis
  proof (cases "n \<le> length content")
    case True
    have "fst (zip_fread z i n 1) = 0 \<longleftrightarrow> n = length content" using zip_servesD(3) [OF assms(1) True, of 1] by (simp add: same)
    then show ?thesis using r True assms(2,3)
      by (auto simp: read_whole_entry_def OpenEntry_def ValidateEntryEndOfStream_def CloseEntry_def)
  next
    case False
    then show ?thesis using r assms(2) by (simp add: read_whole_entry_def OpenEntry_def)
  qed
qed

section \<open>The text of a manifest\<close>

definition manifest_text :: "SManifestEntry list \<Rightarrow> string" where
  "manifest_text entries = concat (concat (map manifest_pieces (linorder_class.sort_key ManName entries)))"

lemma to_string_inj: "to_string m = to_string n \<Longrightarrow> m = n"
  by (metis decimal_to_string of_nat_eq_iff)

lemma to_string_mark: "\<not> digit_char c \<Longrightarrow> c \<notin> set (to_string n)"
  using to_string_digits by blast

lemma number_prefix:
  assumes "to_string m @ c # xs = to_string n @ c # ys" "\<not> digit_char c"
  shows "m = n \<and> xs = ys"
  using append_mark_cancel [OF assms(1) to_string_mark [OF assms(2)] to_string_mark [OF assms(2)]] to_string_inj by blast

lemma marks_not_digits: "\<not> digit_char CHR '':''" "\<not> digit_char (chr_of 10)"
  by (simp_all add: digit_char_def)

lemma manifest_entry_prefix:
  assumes "concat (manifest_pieces e) @ xs = concat (manifest_pieces e') @ ys"
  shows "e = e' \<and> xs = ys"
proof -
  have shape: "concat (manifest_pieces d) @ zs = to_string (length (ManName d)) @ CHR '':'' # ManName d @ CHR '':'' #
      to_string (ManSize d) @ CHR '':'' # to_string (ManCrc d) @ chr_of 10 # zs" for d :: SManifestEntry and zs
    by (simp add: manifest_pieces_def)
  have "to_string (length (ManName e)) @ CHR '':'' # ManName e @ CHR '':'' # to_string (ManSize e) @ CHR '':'' # to_string (ManCrc e) @ chr_of 10 # xs
    = to_string (length (ManName e')) @ CHR '':'' # ManName e' @ CHR '':'' # to_string (ManSize e') @ CHR '':'' # to_string (ManCrc e') @ chr_of 10 # ys"
    using assms unfolding shape .
  from number_prefix [OF this marks_not_digits(1)] have l: "length (ManName e) = length (ManName e')"
    and t: "ManName e @ CHR '':'' # to_string (ManSize e) @ CHR '':'' # to_string (ManCrc e) @ chr_of 10 # xs
      = ManName e' @ CHR '':'' # to_string (ManSize e') @ CHR '':'' # to_string (ManCrc e') @ chr_of 10 # ys" by simp_all
  have n: "ManName e = ManName e'" and u: "to_string (ManSize e) @ CHR '':'' # to_string (ManCrc e) @ chr_of 10 # xs
      = to_string (ManSize e') @ CHR '':'' # to_string (ManCrc e') @ chr_of 10 # ys"
    using t l by (simp_all add: append_eq_append_conv)
  from number_prefix [OF u marks_not_digits(1)] have "ManSize e = ManSize e'"
    and v: "to_string (ManCrc e) @ chr_of 10 # xs = to_string (ManCrc e') @ chr_of 10 # ys" by simp_all
  with n number_prefix [OF v marks_not_digits(2)] show ?thesis by simp
qed

lemma manifest_pieces_inj:
  "concat (concat (map manifest_pieces es)) = concat (concat (map manifest_pieces es')) \<Longrightarrow> es = es'"
proof (induction es arbitrary: es')
  case Nil
  then show ?case by (cases es') (simp_all add: manifest_pieces_def)
next
  case (Cons e es)
  show ?case
  proof (cases es')
    case Nil
    then show ?thesis using Cons.prems by (simp add: manifest_pieces_def)
  next
    case (Cons e' rest)
    then show ?thesis using manifest_entry_prefix [of e "concat (concat (map manifest_pieces es))" e' "concat (concat (map manifest_pieces rest))"]
        Cons.prems Cons.IH by simp
  qed
qed

section \<open>Manifests\<close>

text \<open>The entries of an archive, in the order of its directory.\<close>

definition archive_entries :: "archive_file \<Rightarrow> SManifestEntry list" where
  "archive_entries z =
    concat (map (\<lambda>i. case readManifestStat z i of Inl _ \<Rightarrow> [] | Inr e \<Rightarrow> [e]) [0..<nat (zip_num_entries z)])"

lemma not_isl_Inr: "\<not> isl x \<Longrightarrow> \<exists>y. x = Inr y"
  by (cases x) auto

lemma read_bytes_loop_length: "read_bytes_loop z i message n payload = Inr content \<Longrightarrow> length content = length payload + n"
proof (induction z i message n payload rule: read_bytes_loop.induct)
  case (1 z i message n payload)
  show ?case
  proof (cases "n > 0")
    case True
    then obtain chunk where c: "read_chunk z i (length payload) n = Some chunk"
      and rec: "read_bytes_loop z i message (n - length chunk) (payload @ chunk) = Inr content"
      using "1.prems" by (auto simp: read_bytes_loop.simps [of z i message n] split: option.splits)
    from "1.IH" [OF True c rec] show ?thesis using read_chunk_Some [OF c] by simp
  next
    case False
    then show ?thesis using "1.prems" read_bytes_loop.simps [of z i message n payload] by simp
  qed
qed

text \<open>An entry that the reader accepts with the size in the directory.\<close>

definition entry_readable :: "archive_file \<Rightarrow> nat \<Rightarrow> bool" where
  "entry_readable z i \<longleftrightarrow>
    (case readManifestStat z i of
       Inl _ \<Rightarrow> False
     | Inr e \<Rightarrow> ManSize e \<le> GMaxBookPayloadBytes
         \<and> \<not> isl (read_whole_entry z i ''Failed to validate INPX archive entry payload.'' (ManSize e)))"

lemma update_pieces_eq:
  assumes "evp_streams evp"
  shows "update_pieces evp (Some \<lparr>Context = c, Finalized = False\<rparr>) pieces =
    (case sha_Update evp c (concat pieces) of Inl e \<Rightarrow> Inl e | Inr c' \<Rightarrow> Inr (Some \<lparr>Context = c', Finalized = False\<rparr>))"
proof (induction pieces arbitrary: c)
  case Nil
  then show ?case by (simp add: sha_Update_def)
next
  case (Cons piece pieces)
  show ?case using Cons.IH update_append [OF assms, where c = c and a = piece and b = "concat pieces", symmetric]
    by (cases "sha_Update evp c piece") (simp_all add: builder_Update_def)
qed

lemma manifest_fingerprint_eq:
  "evp_streams evp \<Longrightarrow> manifest_fingerprint evp entries = ComputeBytes evp (concat (concat (map manifest_pieces entries)))"
  by (simp add: manifest_fingerprint_def ComputeBytes_def builder_new_def update_pieces_eq builder_Finalize_def split: sum.split)

lemma manifest_loop_result:
  "manifest_loop z v is n es = Inr (n', es') \<Longrightarrow>
    \<exists>new. es' = es @ new \<and> concat (map (\<lambda>i. case readManifestStat z i of Inl _ \<Rightarrow> [] | Inr e \<Rightarrow> [e]) is) = new
      \<and> n' = (if v then n + sum_list (map ManSize new) else n) \<and> (v \<longrightarrow> list_all (entry_readable z) is \<and> (n \<le> u64_max \<longrightarrow> n' \<le> u64_max))"
proof (induction "is" arbitrary: n es)
  case (Cons i "is")
  then obtain e where e: "readManifestStat z i = Inr e" by (auto split: sum.splits)
  obtain m where m: "(if v then validate_payload z i (ManSize e) n else Inr n) = Inr m"
    and loop: "manifest_loop z v is m (es @ [e]) = Inr (n', es')" using Cons.prems e by (auto split: sum.splits)
  have readable: "v \<Longrightarrow> entry_readable z i" and step: "m = (if v then n + ManSize e else n)" "n \<le> u64_max \<longrightarrow> m \<le> u64_max"
    using m by (auto simp: validate_payload_def entry_readable_def e IsBookPayloadSizeAllowed_def and_then_def split: if_splits sum.splits)
  from Cons.IH [OF loop] show ?case using readable step e by auto
qed simp

lemma duplicate_names: "sorted (map ManName es) \<Longrightarrow> has_duplicate_names es = (\<not> distinct (map ManName es))"
proof (induction es rule: has_duplicate_names.induct)
  case (1 a b rest)
  have "ManName a \<noteq> ManName b \<Longrightarrow> ManName a \<notin> ManName ` set (b # rest)"
    using 1(2) by (fastforce intro: antisym)
  then show ?case using 1 by auto
qed simp_all

lemma sorted_entries_unique:
  assumes "distinct (map ManName xs)" "distinct (map ManName ys)" "set xs = set ys"
  shows "linorder_class.sort_key ManName xs = linorder_class.sort_key ManName ys"
proof -
  have d: "distinct (map ManName (linorder_class.sort_key ManName zs)) = distinct (map ManName zs)" for zs
    by (metis distinct_map distinct_sort set_sort)
  have "map ManName (linorder_class.sort_key ManName xs) = map ManName (linorder_class.sort_key ManName ys)"
    by (rule sorted_distinct_set_unique) (simp_all add: d assms)
  moreover have "inj_on ManName (set xs)" using assms(1) by (simp add: distinct_map)
  ultimately show ?thesis using assms(3) by (intro map_inj_on [of ManName]) simp_all
qed

lemma finish_manifest_result:
  assumes "finish_manifest evp (n, es) = Inr r" "evp_streams evp"
  shows "distinct (map ManName es) \<and> ComputeBytes evp (manifest_text es) = Inr (ManifestFingerprintUtf8 r) \<and> PayloadBytesValidated r = n"
proof -
  let ?s = "linorder_class.sort_key ManName es"
  have nd: "\<not> has_duplicate_names ?s" and fp: "manifest_fingerprint evp ?s = Inr (ManifestFingerprintUtf8 r)" "PayloadBytesValidated r = n"
    using assms(1) by (auto simp: finish_manifest_def Let_def split: if_splits sum.splits)
  have "distinct (map ManName ?s)" using nd duplicate_names [of ?s] by simp
  then have "distinct (map ManName es)" by (metis distinct_map distinct_sort set_sort)
  then show ?thesis using fp manifest_fingerprint_eq [OF assms(2), of ?s] by (simp add: manifest_text_def)
qed

lemma ReadManifest_result:
  assumes "ReadManifest evp z v m = Inr r" "evp_streams evp"
  shows "distinct (map ManName (archive_entries z)) \<and> ComputeBytes evp (manifest_text (archive_entries z)) = Inr (ManifestFingerprintUtf8 r)"
proof -
  obtain n es where loop: "manifest_loop z v [0..<nat (zip_num_entries z)] 0 [] = Inr (n, es)" and f: "finish_manifest evp (n, es) = Inr r"
    using assms(1) by (auto simp: ReadManifest_def and_then_def Let_def split: if_splits sum.splits)
  have "es = archive_entries z" using manifest_loop_result [OF loop] by (auto simp: archive_entries_def)
  then show ?thesis using finish_manifest_result [OF f assms(2)] by simp
qed

text \<open>C23: The manifest identifies the entries of an archive. Whatever order their directories have, the texts behind the
  fingerprints of two archives are the same exactly if the archives have the same entries, each with its name, its size and
  its checksum; no two entries of an archive whose manifest is accepted share a name.\<close>

theorem manifest_identifies_entries:
  assumes "evp_streams evp" "ReadManifest evp z v m = Inr r" "ReadManifest evp z' v' m' = Inr r'"
  shows "ComputeBytes evp (manifest_text (archive_entries z)) = Inr (ManifestFingerprintUtf8 r)
    \<and> distinct (map ManName (archive_entries z))
    \<and> (manifest_text (archive_entries z) = manifest_text (archive_entries z') \<longleftrightarrow> set (archive_entries z) = set (archive_entries z'))"
proof -
  note r = ReadManifest_result [OF assms(2,1)] ReadManifest_result [OF assms(3,1)]
  have "manifest_text es = manifest_text es' \<Longrightarrow> set es = set es'" for es es'
    using manifest_pieces_inj [of "linorder_class.sort_key ManName es" "linorder_class.sort_key ManName es'"]
    by (metis manifest_text_def set_sort)
  moreover have "set (archive_entries z) = set (archive_entries z') \<Longrightarrow> manifest_text (archive_entries z) = manifest_text (archive_entries z')"
    using sorted_entries_unique r by (metis manifest_text_def)
  ultimately show ?thesis using r by blast
qed

definition sample_archive :: "(string \<times> string) list \<Rightarrow> archive_file" where
  "sample_archive entries = \<lparr>zip_open_error = None, zip_num_entries = int (length entries),
     zip_stat_index = (\<lambda>i. if i < length entries then Some (Some (fst (entries ! i)), length (snd (entries ! i))) else None),
     zip_fopen_index = (\<lambda>i. i < length entries),
     zip_fread = (\<lambda>i pos n. (int (length (take n (drop pos (snd (entries ! i))))), take n (drop pos (snd (entries ! i))))),
     zip_fclose = (\<lambda>_. 0), DescriptorOpens = True, DescriptorStatus = Some 100, DescriptorMtime = Some 5,
     zip_name_locate = (\<lambda>n. if entries \<noteq> [] \<and> fst (hd entries) = n then 0 else -1),
     zip_stat_manifest = (\<lambda>i. if i < length entries
       then Some (Some (fst (entries ! i)), Some (length (snd (entries ! i))), Some 7) else None)\<rparr>"

definition joining_evp :: "string evp" where
  "joining_evp = \<lparr>evp_new = Some [], evp_update = (\<lambda>c b. Some (c @ b)),
     evp_final = (\<lambda>c. Some (take 32 (c @ replicate 32 CHR 0x00), 32)), evp_size = 32\<rparr>"

lemma joining_evp_streams: "evp_streams joining_evp"
  by (simp add: evp_streams_def joining_evp_def)

lemma sample_archive_read:
  "\<not> isl (ReadManifest joining_evp (sample_archive [(''a.fb2'', ''xy''), (''b.fb2'', ''z'')]) False 1024)"
  "\<not> isl (ReadManifest joining_evp (sample_archive [(''b.fb2'', ''z''), (''a.fb2'', ''xy'')]) False 1024)"
  by code_simp+

theorem manifest_identifies_entries_witness:
  "manifest_text (archive_entries (sample_archive [(''a.fb2'', ''xy''), (''b.fb2'', ''z'')]))
    = manifest_text (archive_entries (sample_archive [(''b.fb2'', ''z''), (''a.fb2'', ''xy'')]))"
proof -
  obtain r r' where r: "ReadManifest joining_evp (sample_archive [(''a.fb2'', ''xy''), (''b.fb2'', ''z'')]) False 1024 = Inr r"
    "ReadManifest joining_evp (sample_archive [(''b.fb2'', ''z''), (''a.fb2'', ''xy'')]) False 1024 = Inr r'"
    using sample_archive_read not_isl_Inr by blast
  have "set (archive_entries (sample_archive [(''a.fb2'', ''xy''), (''b.fb2'', ''z'')]))
      = set (archive_entries (sample_archive [(''b.fb2'', ''z''), (''a.fb2'', ''xy'')]))"
    by (auto simp: archive_entries_def sample_archive_def readManifestStat_def upt_rec)
  then show ?thesis using manifest_identifies_entries [OF joining_evp_streams r] by simp
qed

lemma name_bytes_loop_bounds:
  "name_bytes_loop z m is n = Inr n' \<Longrightarrow> n \<le> m div 2 \<Longrightarrow>
    n' \<le> m div 2 \<and> n' = n + sum_list (map (\<lambda>i. case readManifestStat z i of Inl _ \<Rightarrow> 0 | Inr e \<Rightarrow> length (ManName e)) is)"
proof (induction z m "is" n rule: name_bytes_loop.induct)
  case (2 z m i "is" n)
  then obtain e where e: "readManifestStat z i = Inr e" "\<not> length (ManName e) > m div 2 - n"
    "name_bytes_loop z m is (n + length (ManName e)) = Inr n'" by (auto split: sum.splits if_splits)
  have "n + length (ManName e) \<le> m div 2" using e(2) 2(3) by (simp add: not_less le_diff_conv2)
  from 2(1) [OF e(1,2,3) this] e show ?case by simp
qed simp

lemma archive_name_bytes:
  "sum_list (map (\<lambda>i. case readManifestStat z i of Inl _ \<Rightarrow> 0 | Inr e \<Rightarrow> length (ManName e)) is)
    = sum_list (map (\<lambda>e. length (ManName e)) (concat (map (\<lambda>i. case readManifestStat z i of Inl _ \<Rightarrow> [] | Inr e \<Rightarrow> [e]) is)))"
  by (induction "is") (simp_all split: sum.split)

text \<open>The entries that the library lets be opened, delivers completely with the size in the directory (there is nothing behind
  the last byte, and no content of another length is what it delivers), and closes without an error of its checksum.\<close>

definition entry_verified :: "archive_file \<Rightarrow> nat \<Rightarrow> bool" where
  "entry_verified z i \<longleftrightarrow>
    (case readManifestStat z i of
       Inl _ \<Rightarrow> False
     | Inr e \<Rightarrow> ManSize e \<le> 262144000 \<and> zip_fopen_index z i \<and> zip_fclose z i = 0 \<and> fst (zip_fread z i (ManSize e) 1) = 0
         \<and> (\<forall>content. zip_serves (libzip.truncate z) i content \<longrightarrow> length content = ManSize e))"

lemma readable_verified: "entry_readable z i \<Longrightarrow> entry_verified z i"
proof -
  assume r: "entry_readable z i"
  then obtain e payload where e: "readManifestStat z i = Inr e" "ManSize e \<le> GMaxBookPayloadBytes"
    and w: "read_whole_entry z i ''Failed to validate INPX archive entry payload.'' (ManSize e) = Inr payload"
    by (auto simp: entry_readable_def split: sum.splits dest!: not_isl_Inr)
  then have parts: "zip_fopen_index z i" "zip_fclose z i = 0" "fst (zip_fread z i (length payload) 1) = 0"
    and loop: "read_bytes_loop z i ''Failed to validate INPX archive entry payload.'' (ManSize e) [] = Inr payload"
    by (auto simp: read_whole_entry_def OpenEntry_def ValidateEntryEndOfStream_def CloseEntry_def and_then_def split: sum.splits if_splits)
  have l: "length payload = ManSize e" using read_bytes_loop_length [OF loop] by simp
  have "length content = ManSize e" if "zip_serves (libzip.truncate z) i content" for content
    using read_whole_entry_serves [OF that parts(1,2), of "''Failed to validate INPX archive entry payload.''" "ManSize e"] w
    by (simp split: if_splits)
  then show "entry_verified z i" using e parts l by (simp add: entry_verified_def GMaxBookPayloadBytes_def)
qed

text \<open>C24: A validated manifest is within its memory budget, and every entry of the archive was opened, delivered with exactly the
  size in the directory up to its end, and closed without an error; no entry is larger than 250 MiB, and the sizes add up to
  the bytes that the manifest reports, without wrapping around.\<close>

theorem validated_manifest_reads_every_entry:
  assumes "evp_streams evp" "ReadValidatedManifest evp z m = Inr r"
  shows "512 * nat (zip_num_entries z) \<le> m \<and> 2 * sum_list (map (\<lambda>e. length (ManName e)) (archive_entries z)) \<le> m
    \<and> list_all (entry_verified z) [0..<nat (zip_num_entries z)]
    \<and> PayloadBytesValidated r = sum_list (map ManSize (archive_entries z)) \<and> PayloadBytesValidated r < 2 ^ 64"
proof -
  let ?is = "[0..<nat (zip_num_entries z)]"
  obtain k n es where names: "name_bytes_loop z m ?is 0 = Inr k" and loop: "manifest_loop z True ?is 0 [] = Inr (n, es)"
    and f: "finish_manifest evp (n, es) = Inr r" and count: "\<not> nat (zip_num_entries z) > m div 2 div 256"
    using assms(2) by (auto simp: ReadValidatedManifest_def ReadManifest_def GApproximateManifestEntryBytes_def and_then_def Let_def
        split: if_splits sum.splits)
  have es: "es = archive_entries z" "n = sum_list (map ManSize es)" "list_all (entry_verified z) ?is" "n \<le> u64_max"
    using manifest_loop_result [OF loop] by (auto simp: archive_entries_def list_all_iff readable_verified)
  have "2 * sum_list (map (\<lambda>e. length (ManName e)) (archive_entries z)) \<le> m"
  proof -
    have "2 * k \<le> m" "k = sum_list (map (\<lambda>e. length (ManName e)) (archive_entries z))"
      using name_bytes_loop_bounds [OF names] archive_name_bytes [of z ?is] by (presburger, simp add: archive_entries_def)
    then show ?thesis by simp
  qed
  moreover have "512 * nat (zip_num_entries z) \<le> m" using count by simp
  ultimately show ?thesis using es finish_manifest_result [OF f assms(1)] by (simp add: u64_max_def)
qed

lemma sample_archive_serves: "zip_serves (libzip.truncate (sample_archive entries)) i (snd (entries ! i))"
  by (auto simp: zip_serves_def libzip.truncate_def sample_archive_def min_def)

lemma sample_archive_entry:
  "i < length entries \<Longrightarrow> read_whole_entry (sample_archive entries) i message (length (snd (entries ! i))) = Inr (snd (entries ! i))"
  using read_whole_entry_serves [OF sample_archive_serves] by (simp add: sample_archive_def)

theorem validated_manifest_reads_every_entry_witness:
  "list_all (entry_verified (sample_archive [(''a.fb2'', ''xy''), (''b.fb2'', ''z'')])) [0..<2]"
proof -
  let ?z = "sample_archive [(''a.fb2'', ''xy''), (''b.fb2'', ''z'')]"
  have v: "read_whole_entry ?z 0 t 2 = Inr ''xy''" "read_whole_entry ?z 1 t 1 = Inr ''z''" for t
    using sample_archive_entry [of 0 "[(''a.fb2'', ''xy''), (''b.fb2'', ''z'')]"] sample_archive_entry [of 1 "[(''a.fb2'', ''xy''), (''b.fb2'', ''z'')]"]
    by (simp_all add: numeral_2_eq_2)
  have s: "readManifestStat ?z 0 = Inr \<lparr>ManName = ''a.fb2'', ManSize = 2, ManCrc = 7\<rparr>"
    "readManifestStat ?z 1 = Inr \<lparr>ManName = ''b.fb2'', ManSize = 1, ManCrc = 7\<rparr>" "zip_num_entries ?z = 2"
    by (simp_all add: readManifestStat_def sample_archive_def)
  have u: "[0..<2] = [0, 1 :: nat]" by (simp add: upt_rec)
  have f: "\<not> isl (finish_manifest joining_evp (3, [\<lparr>ManName = ''a.fb2'', ManSize = 2, ManCrc = 7\<rparr>, \<lparr>ManName = ''b.fb2'', ManSize = 1, ManCrc = 7\<rparr>]))"
    by code_simp
  have "\<not> isl (ReadValidatedManifest joining_evp ?z 1024)"
    using f by (simp add: ReadValidatedManifest_def ReadManifest_def s u validate_payload_def v IsBookPayloadSizeAllowed_def
        GMaxBookPayloadBytes_def u64_max_def GApproximateManifestEntryBytes_def del: One_nat_def)
  then obtain r where "ReadValidatedManifest joining_evp (sample_archive [(''a.fb2'', ''xy''), (''b.fb2'', ''z'')]) 1024 = Inr r"
    using not_isl_Inr by blast
  from validated_manifest_reads_every_entry [OF joining_evp_streams this] show ?thesis
    by (simp add: sample_archive_def numeral_2_eq_2)
qed

section \<open>Extraction\<close>

lemma write_file_result:
  "write_file p c w = (ok, w') \<Longrightarrow> Ticks w' = Ticks w \<and> GTemporaryPathSequence w' = GTemporaryPathSequence w
    \<and> Files w' = (if ok then (Files w)(p := Some c) else Files w)"
  by (auto simp: write_file_def split: prod.splits bool.splits dest!: take_fault_keeps)

lemma extract_loop_frame:
  "extract_loop z i p n written w = (r, w') \<Longrightarrow> Files w p \<noteq> None \<Longrightarrow>
    Ticks w' = Ticks w \<and> GTemporaryPathSequence w' = GTemporaryPathSequence w
    \<and> Files w' p \<noteq> None \<and> (\<forall>q. q \<noteq> p \<longrightarrow> Files w' q = Files w q)
    \<and> (\<forall>payload. r = Inr payload \<longrightarrow> Files w p = Some written \<longrightarrow> Files w' p = Some payload)"
proof (induction z i p n written w arbitrary: r w' rule: extract_loop.induct)
  case (1 z i p n written w)
  note loop = "1.prems"(1) [unfolded extract_loop.simps [of z i p n written w]]
  show ?case
  proof (cases "n > 0 \<and> read_chunk z i (length written) n \<noteq> None")
    case True
    then obtain chunk where n: "n > 0" and c: "read_chunk z i (length written) n = Some chunk" by auto
    obtain ok w1 where w1: "write_file p (written @ chunk) w = (ok, w1)" by fastforce
    note f = write_file_result [OF w1]
    show ?thesis
    proof (cases ok)
      case True
      then have rec: "extract_loop z i p (n - length chunk) (written @ chunk) w1 = (r, w')" using loop n c w1 by simp
      have "Files w1 p \<noteq> None" using f True by simp
      from "1.IH" [OF n c w1 [symmetric] _ rec this] True show ?thesis using f by auto
    next
      case False
      then show ?thesis using loop n c w1 f "1.prems"(2) by auto
    qed
  next
    case False
    then show ?thesis using loop "1.prems"(2) by (auto split: if_splits)
  qed
qed

lemma extract_loop_bytes:
  "extract_loop z i p n written w = (Inr payload, w') \<Longrightarrow> read_bytes_loop z i message n written = Inr payload"
proof (induction z i p n written w arbitrary: w' rule: extract_loop.induct)
  case (1 z i p n written w)
  note loop = "1.prems" [unfolded extract_loop.simps [of z i p n written w]]
  show ?case
  proof (cases "n > 0")
    case True
    then obtain chunk where c: "read_chunk z i (length written) n = Some chunk" using loop by (auto split: option.splits)
    obtain w1 where w1: "write_file p (written @ chunk) w = (True, w1)"
      and rec: "extract_loop z i p (n - length chunk) (written @ chunk) w1 = (Inr payload, w')"
      using loop True c by (auto split: prod.splits bool.splits)
    from "1.IH" [OF True c w1 [symmetric] _ rec] True c show ?thesis by (simp add: read_bytes_loop.simps [of z i message n])
  next
    case False
    then show ?thesis using loop read_bytes_loop.simps [of z i message n written] by simp
  qed
qed

text \<open>The names that an extraction makes up are not taken.\<close>

definition extraction_paths :: "path \<Rightarrow> 'a fs_world_scheme \<Rightarrow> path \<times> path" where
  "extraction_paths destination w =
    (case BuildSiblingTemporaryPath destination w of (prepared, w1) \<Rightarrow> (prepared, replacement_backup destination w1))"

definition extraction_ready :: "path \<Rightarrow> 'a fs_world_scheme \<Rightarrow> bool" where
  "extraction_ready destination w \<longleftrightarrow>
    (case extraction_paths destination w of (prepared, backup) \<Rightarrow>
      distinct [destination, prepared, backup] \<and> Files w prepared = None \<and> Files w backup = None)"

text \<open>The old content of a file is where it was, or in the backup.\<close>

definition content_kept :: "path \<Rightarrow> path \<Rightarrow> (path \<Rightarrow> string option) \<Rightarrow> (path \<Rightarrow> string option) \<Rightarrow> bool" where
  "content_kept destination backup before after \<longleftrightarrow>
    (case before destination of None \<Rightarrow> True | Some old \<Rightarrow> after destination = Some old \<or> after backup = Some old)"

lemma replacement_backup_same:
  "Ticks w = Ticks w' \<Longrightarrow> GTemporaryPathSequence w = GTemporaryPathSequence w' \<Longrightarrow> replacement_backup d w = replacement_backup d w'"
  by (simp add: replacement_backup_def backup_path_def BuildSiblingTemporaryPath_def Let_def)

lemma outcome_kept:
  "replacement_outcome p d b before (Inl e) after \<Longrightarrow> content_kept d b before after \<and> (\<forall>q. q \<notin> {p, d, b} \<longrightarrow> after q = before q)"
  by (auto simp: replacement_outcome_def content_kept_def split: if_splits option.splits)

lemma extract_prepared_result:
  assumes run: "extract_prepared z entry p d w = (r, w')" and paths: "distinct [d, p, b]"
    and backup: "replacement_backup d w = b" "Files w b = None"
  shows "(\<forall>q. q \<notin> {d, p, b} \<longrightarrow> Files w' q = Files w q) \<and> (isl r \<longrightarrow> content_kept d b (Files w) (Files w'))
    \<and> (r = Inr () \<longrightarrow> (\<exists>payload. Files w' d = Some payload
        \<and> read_bytes_loop z (LocatedIndex entry) t (LocatedSize entry) [] = Inr payload
        \<and> ValidateEntryEndOfStream z (LocatedIndex entry) (length payload) = Inr ()))"
proof -
  obtain ok w1 where w1: "write_file p [] w = (ok, w1)" by fastforce
  note f1 = write_file_result [OF w1]
  obtain r2 w2 where w2: "extract_loop z (LocatedIndex entry) p (LocatedSize entry) [] w1 = (r2, w2)" by fastforce
  obtain f w3 where w3: "take_fault w2 = (f, w3)" by fastforce
  note f3 = take_fault_keeps [OF w3]
  have same: "\<forall>q. q \<notin> {d, p, b} \<longrightarrow> Files x q = Files w q" "content_kept d b (Files w) (Files x)"
    if "\<forall>q. q \<noteq> p \<longrightarrow> Files x q = Files w q" for x :: "'a fs_world_scheme"
    using that paths by (auto simp: content_kept_def split: option.splits)
  show ?thesis
  proof (cases ok)
    case False
    then show ?thesis using run w1 f1 same [of w'] by (auto simp: extract_prepared_def)
  next
    case True
    then have p1: "Files w1 p = Some []" using f1 by simp
    note f2 = extract_loop_frame [OF w2]
    have keep: "\<forall>q. q \<noteq> p \<longrightarrow> Files w2 q = Files w q" using f1 f2 p1 True by auto
    show ?thesis
    proof (cases r2)
      case (Inl e)
      then show ?thesis using run w1 w2 True keep same [of w'] by (auto simp: extract_prepared_def)
    next
      case (Inr payload)
      then have p2: "Files w2 p = Some payload" using f2 p1 by auto
      show ?thesis
      proof (cases "and_then (ValidateEntryEndOfStream z (LocatedIndex entry) (length payload)) (\<lambda>_. CloseEntry z (LocatedIndex entry))")
        case (Inl e)
        then show ?thesis using run w1 w2 True \<open>r2 = Inr payload\<close> keep same [of w'] by (auto simp: extract_prepared_def)
      next
        case valid: (Inr u)
        show ?thesis
        proof (cases f)
          case True
          then show ?thesis using run w1 w2 w3 \<open>ok\<close> Inr valid keep f3 same [of w'] by (auto simp: extract_prepared_def)
        next
          case False
          obtain r4 :: "text_error replace_error + unit" and w4 where
            w4: "ReplaceDestinationWithPreparedFile p d None w3 = (r4, w4)" by fastforce
          have b3: "replacement_backup d w3 = b"
            using replacement_backup_same [of w3 w d] f1 f2 f3 p1 True backup by auto
          have "replacement_ready p d w3" using b3 p2 f3 keep paths backup by (auto simp: replacement_ready_def)
          from replacement_result [OF this _ w4] b3
          have out: "replacement_outcome p d b (Files w3) r4 (Files w4)" by (simp add: keeps_files_def)
          have w': "w' = w4" "r = (case r4 of Inl e \<Rightarrow> Inl (replace_exception e) | Inr _ \<Rightarrow> Inr ())"
            using run w1 w2 w3 w4 \<open>ok\<close> Inr valid False by (auto simp: extract_prepared_def split: sum.splits)
          have d3: "Files w3 d = Files w d" "\<forall>q. q \<notin> {d, p, b} \<longrightarrow> Files w3 q = Files w q" using keep f3 paths by auto
          show ?thesis
          proof (cases r4)
            case (Inl e)
            then show ?thesis using outcome_kept [of p d b "Files w3" e "Files w4"] out w' d3 by (auto simp: content_kept_def)
          next
            case ok4: Inr
            then have "Files w4 d = Some payload" "\<forall>q. q \<notin> {d, p, b} \<longrightarrow> Files w4 q = Files w q"
              using out p2 f3 d3 by (auto simp: replacement_outcome_def)
            moreover have "read_bytes_loop z (LocatedIndex entry) t (LocatedSize entry) [] = Inr payload"
              using extract_loop_bytes w2 Inr by blast
            ultimately show ?thesis using w' ok4 valid by (auto simp: and_then_def split: sum.splits)
          qed
        qed
      qed
    qed
  qed
qed

lemma create_parent_keeps:
  "create_parent p w = (f, w') \<Longrightarrow> Files w' = Files w \<and> Ticks w' = Ticks w \<and> GTemporaryPathSequence w' = GTemporaryPathSequence w"
  by (auto simp: create_parent_def split: if_splits dest!: take_fault_keeps)

lemma whole_payload:
  assumes s: "zip_serves (libzip.truncate z) i content" and loop: "read_bytes_loop z i message n [] = Inr payload"
    and at_end: "ValidateEntryEndOfStream z i (length payload) = Inr ()"
  shows "payload = content \<and> n = length content"
proof -
  have "payload = take n content" "n \<le> length content"
    using read_bytes_loop_serves [OF s, of "[]" message n] loop by (auto split: if_splits)
  moreover from this have "n = length content"
    using at_end zip_servesD(3) [OF s, of "length payload" 1] by (auto simp: ValidateEntryEndOfStream_def libzip.truncate_def split: if_splits)
  ultimately show ?thesis by simp
qed

text \<open>C22: Extracting an entry of an archive gives its exact content or leaves the destination alone. When it succeeds,
  the destination has all the bytes of the entry, as many as the directory says; when anything fails, the library, the
  file system or the size, the old content of the destination is still there or in the backup. No other file is touched.\<close>

theorem extraction_exact:
  assumes ready: "extraction_ready destination w" and paths: "extraction_paths destination w = (prepared, backup)"
    and serves: "\<And>entry. LocateEntry z entryName = Inr entry \<Longrightarrow> zip_serves (libzip.truncate z) (LocatedIndex entry) content"
    and run: "Extract z entryName destination w = (r, w')"
  shows "(\<forall>q. q \<notin> {destination, prepared, backup} \<longrightarrow> Files w' q = Files w q)
    \<and> (isl r \<longrightarrow> content_kept destination backup (Files w) (Files w'))
    \<and> (r = Inr () \<longrightarrow> Files w' destination = Some content \<and> ReadSize z entryName = Inr (length content))"
proof (cases "\<exists>entry. LocateEntry z entryName = Inr entry \<and> OpenEntry z (LocatedIndex entry) = Inr ()")
  case False
  have "w' = w \<and> isl r"
  proof (cases "LocateEntry z entryName")
    case (Inr entry)
    then obtain e where "OpenEntry z (LocatedIndex entry) = Inl e" using False by (cases "OpenEntry z (LocatedIndex entry)") auto
    then have "Extract z entryName destination w = (Inl e, w)" using Inr by (simp add: Extract_def)
    then show ?thesis using run by (metis prod.inject sum.disc(1))
  qed (use run in \<open>auto simp: Extract_def\<close>)
  then show ?thesis by (auto simp: content_kept_def split: option.splits)
next
  case True
  then obtain entry where entry: "LocateEntry z entryName = Inr entry" "OpenEntry z (LocatedIndex entry) = Inr ()" by auto
  obtain w1 where w1: "BuildSiblingTemporaryPath destination w = (prepared, w1)" and b: "replacement_backup destination w1 = backup"
    using paths by (auto simp: extraction_paths_def split: prod.splits)
  have f1: "Files w1 = Files w" using w1 by (auto simp: BuildSiblingTemporaryPath_def Let_def)
  have d: "distinct [destination, prepared, backup]" "Files w1 backup = None" using ready paths f1 by (auto simp: extraction_ready_def)
  obtain f w2 where w2: "create_parent prepared w1 = (f, w2)" by fastforce
  note f2 = create_parent_keeps [OF w2]
  have d2: "replacement_backup destination w2 = backup" "Files w2 backup = None"
    using f2 b d(2) replacement_backup_same [of w2 w1 destination] by simp_all
  have removed: "(\<forall>q. q \<notin> {destination, prepared, backup} \<longrightarrow> Files (snd (RemovePathNoThrow prepared v)) q = Files w q)
      \<and> content_kept destination backup (Files w) (Files (snd (RemovePathNoThrow prepared v)))"
    if "\<forall>q. q \<notin> {destination, prepared, backup} \<longrightarrow> Files v q = Files w q" "content_kept destination backup (Files w) (Files v)" for v
    using that RemovePathNoThrow_result [OF prod.collapse [symmetric], of prepared v] d(1)
    by (auto simp: content_kept_def split: option.splits if_splits)
  show ?thesis
  proof (cases f)
    case True
    then have "r = Inl (TextRuntimeError ''filesystem error'')" "w' = snd (RemovePathNoThrow prepared w2)"
      using run entry w1 w2 by (simp_all add: Extract_def)
    then show ?thesis using removed [of w2] f1 f2 by (auto simp: content_kept_def split: option.splits)
  next
    case False
    obtain r3 w3 where w3: "extract_prepared z entry prepared destination w2 = (r3, w3)" by fastforce
    note e = extract_prepared_result [OF w3 d(1) d2, of "[]"]
    show ?thesis
    proof (cases r3)
      case (Inl err)
      then have "r = Inl err" "w' = snd (RemovePathNoThrow prepared w3)" using run entry w1 w2 w3 False by (simp_all add: Extract_def)
      then show ?thesis using removed [of w3] e Inl f1 f2 by simp
    next
      case (Inr u)
      then have w': "r = Inr ()" "w' = w3" using run entry w1 w2 w3 False by (simp_all add: Extract_def)
      obtain payload where p: "Files w3 destination = Some payload"
        "read_bytes_loop z (LocatedIndex entry) [] (LocatedSize entry) [] = Inr payload"
        "ValidateEntryEndOfStream z (LocatedIndex entry) (length payload) = Inr ()" using e Inr by auto
      have "payload = content" "LocatedSize entry = length content"
        using whole_payload [OF serves [OF entry(1)] p(2,3)] by simp_all
      then show ?thesis using w' p(1) e f1 f2 entry(1) by (auto simp: ReadSize_def)
    qed
  qed
qed

definition sample_target :: path where
  "sample_target = \<lparr>Absolute = True, Parts = [''w'', ''source.fb2'']\<rparr>"

definition empty_files :: fs_world where
  "empty_files = \<lparr>Files = Map.empty, Faults = [False, False, True], Ticks = [1, 2], GTemporaryPathSequence = 0\<rparr>"

lemma empty_files_ready: "extraction_ready sample_target empty_files"
proof -
  obtain p w1 where p: "BuildSiblingTemporaryPath sample_target empty_files = (p, w1)" by fastforce
  obtain b w2 where b: "backup_path sample_target w1 = (b, w2)" by fastforce
  have e: "path_extension sample_target = ''.fb2''" by code_simp
  have i: "int_to_string 1 = ''1''" "int_to_string 2 = ''2''" "to_string 0 = ''0''" "to_string 1 = ''1''" by code_simp+
  have "p = \<lparr>Absolute = True, Parts = [''w'', ''source.inpx-web-reader-tmp-1-0.fb2'']\<rparr>"
    and w1: "Ticks w1 = [2]" "GTemporaryPathSequence w1 = 1"
    using p by (auto simp: BuildSiblingTemporaryPath_def temporary_file_name_def e i path_filename_def empty_files_def Let_def)
      (simp_all add: sample_target_def)
  moreover have "b = \<lparr>Absolute = True, Parts = [''w'', ''source.inpx-web-reader-tmp-2-1.fb2.inpx-web-reader-backup'']\<rparr>"
    using b by (auto simp: backup_path_def BuildSiblingTemporaryPath_def temporary_file_name_def e i [unfolded One_nat_def] path_filename_def
        path_concat_def w1 Let_def) (simp_all add: sample_target_def)
  ultimately show ?thesis using p b
    by (simp add: extraction_ready_def extraction_paths_def replacement_backup_def) (simp add: sample_target_def empty_files_def)
qed

theorem extraction_exact_witness:
  "isl (fst (Extract (sample_archive [(''a.fb2'', ''xy'')]) ''a.fb2'' sample_target empty_files))
   \<or> Files (snd (Extract (sample_archive [(''a.fb2'', ''xy'')]) ''a.fb2'' sample_target empty_files)) sample_target = Some ''xy''"
proof -
  have s: "zip_serves (libzip.truncate (sample_archive [(''a.fb2'', ''xy'')])) (LocatedIndex entry) ''xy''"
    if "LocateEntry (sample_archive [(''a.fb2'', ''xy'')]) ''a.fb2'' = Inr entry" for entry
  proof -
    have "LocatedIndex entry = 0"
      using that by (auto simp: LocateEntry_def Let_def split: if_splits option.splits) (simp_all add: sample_archive_def split: if_splits)
    then show ?thesis using sample_archive_serves [of "[(''a.fb2'', ''xy'')]" 0] by simp
  qed
  from extraction_exact [OF empty_files_ready prod.collapse [symmetric] s prod.collapse [symmetric]]
  show ?thesis by (cases "fst (Extract (sample_archive [(''a.fb2'', ''xy'')]) ''a.fb2'' sample_target empty_files)") simp_all
qed

end
