(* ===== verification/Download_Facade.thy ===== *)
theory Download_Facade
  imports Archive_Access Scan_Planning
begin

text \<open>
  Downloads, \<open>libs/App/BookDownloadFacade.cpp\<close>: the locator of a book is read from the catalog, the source is compared with
  it, the entry is extracted into a workspace, converted or moved beside the destination, and published there with a
  replacement that is validated once more. The state is the files of \<open>File_Replacement\<close> with the source as it is seen:
  between any two looks the INPX file and the archives may change, so each look takes the next view. The stop token is a list
  of its answers, looked at once for each call that gets it as a checkpoint. Hooks of tests and log messages are left out.
\<close>

section \<open>The world\<close>

record source_view =
  ViewInpxFile :: "(string list \<times> bool) option"
  ViewFs :: filesystem
  ViewArchive :: "path \<Rightarrow> archive_file"

record download_world = fs_world +
  CurrentView :: source_view
  Views :: "source_view list"
  Stops :: "bool list"
  Collisions :: "bool list"
  GUniqueDirectorySequence :: nat

datatype download_error =
  DownloadDomain EDomainErrorCode string | DownloadRuntime string | DownloadArgument string | DownloadRestore path path

type_synonym 'a download_step = "download_world \<Rightarrow> (download_error + 'a) \<times> download_world"

text \<open>Steps in sequence: an exception leaves the rest out.\<close>

definition and_next :: "'a download_step \<Rightarrow> ('a \<Rightarrow> 'b download_step) \<Rightarrow> 'b download_step" where
  "and_next step f w = (case step w of (Inl e, w') \<Rightarrow> (Inl e, w') | (Inr x, w') \<Rightarrow> f x w')"

definition take_view :: "download_world \<Rightarrow> source_view \<times> download_world" where
  "take_view w = (case Views w of [] \<Rightarrow> (CurrentView w, w) | v # vs \<Rightarrow> (v, w\<lparr>CurrentView := v, Views := vs\<rparr>))"

definition ThrowIfCancelled :: "unit download_step" where
  "ThrowIfCancelled w = (case Stops w of
     True # stops \<Rightarrow> (Inl (DownloadDomain Cancellation ''Download preparation was cancelled.''), w\<lparr>Stops := stops\<rparr>)
   | False # stops \<Rightarrow> (Inr (), w\<lparr>Stops := stops\<rparr>)
   | [] \<Rightarrow> (Inr (), w))"

section \<open>The locator\<close>

record SInpxDownloadSource =
  DlEntryNameUtf8 :: string
  DlAvailability :: string
  DlFormat :: EBookFormat
  DlResolvedArchivePathUtf8 :: string
  DlEntrySizeBytes :: nat
  DlArchiveFileState :: SInpxArchiveFileState
  DlArchiveManifestFingerprintUtf8 :: string
  DlSourceFingerprintUtf8 :: string

record SBookDownloadSnapshot =
  SnapTitleUtf8 :: string
  SnapAuthorsUtf8 :: "string list"
  SnapSource :: SInpxDownloadSource

text \<open>The eleven columns of the query; null is \<open>None\<close>, which the getters read as the empty text and as zero.\<close>

record download_row =
  ColTitle :: string
  ColAuthor :: "string option"
  ColEntryName :: "string option"
  ColAvailability :: "string option"
  ColFormat :: "string option"
  ColFileSize :: "int option"
  ColArchivePath :: "string option"
  ColArchiveSize :: "int option"
  ColArchiveMtime :: "int option"
  ColManifest :: "string option"
  ColSourceFingerprint :: "string option"

definition col_int :: "int option \<Rightarrow> int" where
  "col_int v = (case v of None \<Rightarrow> 0 | Some n \<Rightarrow> n)"

definition col_text :: "string option \<Rightarrow> string" where
  "col_text v = (case v of None \<Rightarrow> [] | Some s \<Rightarrow> s)"

definition download_locator :: "download_row \<Rightarrow> EBookFormat \<Rightarrow> SInpxDownloadSource" where
  "download_locator row format =
    \<lparr>DlEntryNameUtf8 = col_text (ColEntryName row), DlAvailability = col_text (ColAvailability row), DlFormat = format,
     DlResolvedArchivePathUtf8 = col_text (ColArchivePath row), DlEntrySizeBytes = nat (col_int (ColFileSize row)),
     DlArchiveFileState = \<lparr>StateFileSizeBytes = nat (col_int (ColArchiveSize row)), StateMtimeTicks = col_int (ColArchiveMtime row)\<rparr>,
     DlArchiveManifestFingerprintUtf8 = col_text (ColManifest row), DlSourceFingerprintUtf8 = col_text (ColSourceFingerprint row)\<rparr>"

definition LoadDownloadSnapshot :: "download_row list \<Rightarrow> download_error + SBookDownloadSnapshot option" where
  "LoadDownloadSnapshot rows =
    (case rows of
       [] \<Rightarrow> Inr None
     | row # _ \<Rightarrow>
         if ColEntryName row = None \<or> ColAvailability row = None \<or> ColFormat row = None
         then Inl (DownloadDomain IntegrityIssue ''Book does not have an INPX source locator.'')
         else case TryParseBookFormat (col_text (ColFormat row)) of
           None \<Rightarrow> Inl (DownloadDomain IntegrityIssue ''INPX book locator contains an unsupported format.'')
         | Some format \<Rightarrow>
             if ColArchivePath row = None \<or> ColManifest row = None \<or> ColSourceFingerprint row = None
               \<or> col_int (ColFileSize row) < 0 \<or> col_int (ColArchiveSize row) < 0
             then Inl (DownloadDomain IntegrityIssue ''INPX book locator is missing its persisted source guards.'')
             else Inr (Some \<lparr>SnapTitleUtf8 = ColTitle row, SnapAuthorsUtf8 = List.map_filter ColAuthor rows,
                             SnapSource = download_locator row format\<rparr>))"

section \<open>The source against the locator\<close>

definition source_mismatch :: "string \<Rightarrow> download_error" where
  "source_mismatch detail =
    DownloadDomain IntegrityIssue (''The INPX source no longer matches the scanned download snapshot: '' @ detail)"

record SBookDownloadSource =
  DlInpxPath :: string
  DlArchiveRoot :: path

text \<open>Exceptions of the libraries become a mismatch of the source; domain exceptions stay.\<close>

definition mismatch_of :: "text_error + 'a \<Rightarrow> download_error + 'a" where
  "mismatch_of r = (case r of Inl e \<Rightarrow> Inl (source_mismatch (text_what e)) | Inr x \<Rightarrow> Inr x)"

definition fingerprint_matches :: "'c evp \<Rightarrow> SBookDownloadSource \<Rightarrow> SInpxDownloadSource \<Rightarrow> source_view \<Rightarrow> download_error + unit" where
  "fingerprint_matches evp source locator view =
    (case ComputeFile evp (DlInpxPath source) (ViewInpxFile view) of
       Inl e \<Rightarrow> Inl (source_mismatch (text_what (sha_exception e)))
     | Inr fingerprint \<Rightarrow>
         if fingerprint \<noteq> DlSourceFingerprintUtf8 locator
         then Inl (source_mismatch ''the INPX file changed; rescan is required.'') else Inr ())"

definition ValidateInpxSourceFingerprint :: "'c evp \<Rightarrow> SBookDownloadSource \<Rightarrow> SInpxDownloadSource \<Rightarrow> unit download_step" where
  "ValidateInpxSourceFingerprint evp source locator =
    and_next ThrowIfCancelled (\<lambda>_ w. case take_view w of (view, w') \<Rightarrow> (fingerprint_matches evp source locator view, w'))"

definition ResolvePersistedInpxArchivePath :: "filesystem \<Rightarrow> path \<Rightarrow> string \<Rightarrow> text_error + path" where
  "ResolvePersistedInpxArchivePath fs archiveRoot relativeArchivePathUtf8 =
    (let relativePath = lexically_normal (PathFromUtf8 relativeArchivePathUtf8) in
     if \<not> IsSafeRelativePath relativePath then Inl (TextRuntimeError ''Persisted INPX archive path is unsafe.'')
     else case TryResolvePathWithinRoot fs archiveRoot relativePath ''Persisted INPX archive path is unsafe.''
                 ''INPX archive root could not be canonicalized.'' of
       Inl message \<Rightarrow> Inl (TextRuntimeError message)
     | Inr None \<Rightarrow> Inl (TextRuntimeError ''Persisted INPX archive is missing.'')
     | Inr (Some resolved) \<Rightarrow>
         if is_regular_file fs resolved \<noteq> Some True
         then Inl (TextRuntimeError ''Persisted INPX archive path is not a regular file.'') else Inr resolved)"

definition open_matching_archive ::
    "'c evp \<Rightarrow> nat \<Rightarrow> SBookDownloadSource \<Rightarrow> SInpxDownloadSource \<Rightarrow> source_view \<Rightarrow> download_error + archive_file" where
  "open_matching_archive evp maxManifestMemoryBytes source locator view =
    and_then (mismatch_of (ResolvePersistedInpxArchivePath (ViewFs view) (DlArchiveRoot source) (DlResolvedArchivePathUtf8 locator))) (\<lambda>archivePath.
    let reader = ViewArchive view archivePath in
    and_then (mismatch_of (CZipArchive reader)) (\<lambda>currentState.
    if currentState \<noteq> DlArchiveFileState locator
    then Inl (source_mismatch ''the selected archive changed; rescan is required.'')
    else and_then (mismatch_of (ArchiveManifestFingerprint evp reader maxManifestMemoryBytes)) (\<lambda>manifest.
    if manifest \<noteq> DlArchiveManifestFingerprintUtf8 locator
    then Inl (source_mismatch ''the selected archive manifest changed; rescan is required.'')
    else and_then (mismatch_of (ReadSize reader (DlEntryNameUtf8 locator))) (\<lambda>entrySize.
    if entrySize \<noteq> DlEntrySizeBytes locator
    then Inl (source_mismatch ''the selected archive entry size changed; rescan is required.'')
    else Inr reader))))"

definition OpenValidatedArchiveSnapshot ::
    "'c evp \<Rightarrow> nat \<Rightarrow> SBookDownloadSource \<Rightarrow> SInpxDownloadSource \<Rightarrow> archive_file download_step" where
  "OpenValidatedArchiveSnapshot evp maxManifestMemoryBytes source locator =
    and_next ThrowIfCancelled (\<lambda>_ w. case take_view w of (view, w') \<Rightarrow>
      (open_matching_archive evp maxManifestMemoryBytes source locator view, w'))"

definition ValidateDownloadSnapshot :: "'c evp \<Rightarrow> nat \<Rightarrow> SBookDownloadSource \<Rightarrow> SInpxDownloadSource \<Rightarrow> unit download_step" where
  "ValidateDownloadSnapshot evp maxManifestMemoryBytes source locator =
    and_next (ValidateInpxSourceFingerprint evp source locator) (\<lambda>_.
    and_next (OpenValidatedArchiveSnapshot evp maxManifestMemoryBytes source locator) (\<lambda>_ w. (Inr (), w)))"

section \<open>Directories and files\<close>

text \<open>Lifting the calls of \<open>File_Replacement\<close>; a call that can fail with an error of the file system.\<close>

definition fs_call :: "(download_world \<Rightarrow> bool \<times> download_world) \<Rightarrow> download_error \<Rightarrow> unit download_step" where
  "fs_call call error w = (case call w of (True, w') \<Rightarrow> (Inl error, w') | (False, w') \<Rightarrow> (Inr (), w'))"

definition filesystem_error :: download_error where
  "filesystem_error = DownloadRuntime ''filesystem error''"

text \<open>\<open>CreateUniqueDirectory\<close>: a name that is taken is one of the collisions, and the next one is tried. Its arguments are checked
  first; the two callers give a constant prefix and a parent that is not empty.\<close>

definition unique_name :: "string \<Rightarrow> download_world \<Rightarrow> string" where
  "unique_name directoryNamePrefix w =
    directoryNamePrefix @ int_to_string (case Ticks w of [] \<Rightarrow> 0 | t # _ \<Rightarrow> t) @ ''-'' @ to_string (GUniqueDirectorySequence w)"

definition next_name :: "download_world \<Rightarrow> download_world" where
  "next_name w = w\<lparr>Ticks := tl (Ticks w), GUniqueDirectorySequence := (GUniqueDirectorySequence w + 1) mod 2 ^ 64\<rparr>"

lemma take_fault_collisions: "take_fault w = (f, w') \<Longrightarrow> Collisions w' = Collisions (w :: download_world)"
  by (auto simp: take_fault_def split: list.splits)

function unique_directory_loop :: "path \<Rightarrow> string \<Rightarrow> path download_step" where
  "unique_directory_loop parentDirectory directoryNamePrefix w =
    (let candidate = path_join parentDirectory (relative [unique_name directoryNamePrefix w]) in
     case take_fault (next_name w) of
       (True, w') \<Rightarrow> (Inl (DownloadRuntime (''Failed to create unique directory: '' @ PathToUtf8 candidate)), w')
     | (False, w') \<Rightarrow>
         (case Collisions w' of
            True # rest \<Rightarrow> unique_directory_loop parentDirectory directoryNamePrefix (w'\<lparr>Collisions := rest\<rparr>)
          | False # rest \<Rightarrow> (Inr candidate, w'\<lparr>Collisions := rest\<rparr>)
          | [] \<Rightarrow> (Inr candidate, w')))"
  by pat_completeness auto

termination
  by (relation "measure (\<lambda>(_, _, w). length (Collisions w))") (auto simp: next_name_def dest: sym [THEN take_fault_collisions])

declare unique_directory_loop.simps [simp del]

definition CreateUniqueDirectory :: "path \<Rightarrow> string \<Rightarrow> path download_step" where
  "CreateUniqueDirectory parentDirectory directoryNamePrefix =
    and_next (fs_call take_fault (DownloadRuntime (''Failed to create directory: '' @ PathToUtf8 parentDirectory))) (\<lambda>_.
      unique_directory_loop parentDirectory directoryNamePrefix)"

text \<open>\<open>remove_all\<close> of a directory of the download, by the destructor of \<open>CScopedDirectoryCleanup\<close> on every way out; where it fails the
  files stay.\<close>

definition below :: "path \<Rightarrow> path \<Rightarrow> bool" where
  "below directory p \<longleftrightarrow> Absolute p = Absolute directory \<and> prefix (Parts directory) (Parts p)"

definition remove_all :: "path \<Rightarrow> download_world \<Rightarrow> download_world" where
  "remove_all directory w = (case take_fault w of
     (True, w') \<Rightarrow> w'
   | (False, w') \<Rightarrow> w'\<lparr>Files := (\<lambda>p. if below directory p then None else Files w' p)\<rparr>)"

definition with_directory :: "path download_step \<Rightarrow> (path \<Rightarrow> 'a download_step) \<Rightarrow> 'a download_step" where
  "with_directory create body =
    and_next create (\<lambda>directory w. case body directory w of (r, w') \<Rightarrow> (r, remove_all directory w'))"

text \<open>A copy that fails leaves no file at the new place, which lies in a directory that is removed on the way out.\<close>

definition MoveFileWithCopyFallback :: "path \<Rightarrow> path \<Rightarrow> unit download_step" where
  "MoveFileWithCopyFallback sourcePath destinationPath w =
    (case RenamePathNoThrow sourcePath destinationPath w of
       (False, w1) \<Rightarrow> (Inr (), w1)
     | (True, w1) \<Rightarrow>
         and_next (fs_call take_fault (DownloadRuntime ''Failed to create directory'')) (\<lambda>_ w2.
           case take_fault w2 of (f, w3) \<Rightarrow>
           if f \<or> Files w3 sourcePath = None
           then (Inl (DownloadRuntime ''Failed to move file: rename failed, copy fallback also failed''), w3)
           else (Inr (), snd (RemovePathNoThrow sourcePath (w3\<lparr>Files := (Files w3)(destinationPath := Files w3 sourcePath)\<rparr>)))) w1)"

definition replace_download_error :: "download_error replace_error \<Rightarrow> download_error" where
  "replace_download_error e = (case e of
     FilesystemError \<Rightarrow> filesystem_error
   | CallbackError c \<Rightarrow> c
   | RestoreError backup destination \<Rightarrow> DownloadRestore backup destination)"

definition publish_download :: "path \<Rightarrow> path \<Rightarrow> unit download_step \<Rightarrow> unit download_step" where
  "publish_download preparedPath destinationPath validate w =
    (case ReplaceDestinationWithPreparedFile preparedPath destinationPath (Some validate) w of
       (Inl e, w') \<Rightarrow> (Inl (replace_download_error e), w')
     | (Inr u, w') \<Rightarrow> (Inr u, w'))"

section \<open>Conversion\<close>

datatype EConversionStatus = ConversionFailed | Succeeded | ConversionCancelled | TimedOut

record SConversionResult =
  ConversionStatus :: EConversionStatus
  OutputPath :: path
  ConversionWarnings :: "string list"

text \<open>A converter: whether it converts FB2 to EPUB, and for the content of a source the result and the content of the file it
  leaves at the destination, if any.\<close>

record converter =
  CanConvert :: bool
  Convert :: "string option \<Rightarrow> path \<Rightarrow> SConversionResult \<times> string option"

definition conversion_error :: "SConversionResult \<Rightarrow> path \<Rightarrow> download_error option" where
  "conversion_error result preparedDestinationPath =
    (if ConversionStatus result = ConversionCancelled then Some (DownloadDomain Cancellation ''Download conversion was cancelled.'')
     else if ConversionStatus result = TimedOut then Some (DownloadDomain ConverterTimeout ''Download conversion timed out.'')
     else if ConversionStatus result \<noteq> Succeeded
     then Some (DownloadDomain ConverterFailed (case ConversionWarnings result of [] \<Rightarrow> ''Download conversion failed.'' | v # _ \<Rightarrow> v))
     else if OutputPath result \<noteq> relative [] \<and> lexically_normal (OutputPath result) \<noteq> lexically_normal preparedDestinationPath
     then Some (DownloadDomain IntegrityIssue ''Converter returned output outside the prepared download path.'')
     else None)"

definition run_converter :: "converter \<Rightarrow> path \<Rightarrow> path \<Rightarrow> SConversionResult download_step" where
  "run_converter c sourcePath preparedDestinationPath w =
    (case Convert c (Files w sourcePath) preparedDestinationPath of (result, output) \<Rightarrow>
      (case conversion_error result preparedDestinationPath of
         Some e \<Rightarrow> (Inl e, w\<lparr>Files := (Files w)(preparedDestinationPath := output)\<rparr>)
       | None \<Rightarrow> (Inr result, w\<lparr>Files := (Files w)(preparedDestinationPath := output)\<rparr>)))"

text \<open>An output path that is accepted names the prepared file.\<close>

definition PrepareConvertedDownload ::
    "converter option \<Rightarrow> EBookFormat \<Rightarrow> path \<Rightarrow> path \<Rightarrow> path \<Rightarrow> unit download_step \<Rightarrow> unit download_step" where
  "PrepareConvertedDownload converter sourceFormat sourcePath preparedDestinationPath destinationPath validateSourceSnapshot =
    (case converter of
       Some c \<Rightarrow>
         if sourceFormat = Fb2 \<and> CanConvert c
         then and_next (run_converter c sourcePath preparedDestinationPath) (\<lambda>_.
           and_next ThrowIfCancelled (\<lambda>_.
           and_next validateSourceSnapshot (\<lambda>_.
           publish_download preparedDestinationPath destinationPath
             (and_next ThrowIfCancelled (\<lambda>_. validateSourceSnapshot)))))
         else (\<lambda>w. (Inl (DownloadDomain ConverterUnavailable ''Configured FB2 to EPUB converter is unavailable.''), w))
     | None \<Rightarrow> (\<lambda>w. (Inl (DownloadDomain ConverterUnavailable ''Configured FB2 to EPUB converter is unavailable.''), w)))"

section \<open>The download\<close>

record SBookDownloadRequest =
  DlBookId :: int
  DlDestinationPath :: path
  DlRequestedFormat :: "EBookFormat option"

record SPreparedBookDownload =
  PreparedPath :: path
  PreparedTitleUtf8 :: string
  PreparedAuthorsUtf8 :: "string list"
  PreparedFormat :: EBookFormat

record 'c download_env =
  DlEvp :: "'c evp"
  DlFs :: filesystem
  DlIsDirectory :: "path \<Rightarrow> bool"
  DlCacheRoot :: path
  DlSource :: "SBookDownloadSource option"
  DlConverter :: "converter option"
  DlRuntimeWorkspaceRoot :: path
  DlRows :: "int \<Rightarrow> download_row list"
  MaxArchiveManifestMemoryBytes :: nat

text \<open>A path without a last component has no file name.\<close>

definition CanonicalizeForComparison :: "filesystem \<Rightarrow> path \<Rightarrow> download_error + path" where
  "CanonicalizeForComparison fs p =
    (let base = (if Parts p \<noteq> [] then p\<lparr>Parts := butlast (Parts p)\<rparr> else p) in
     case weakly_canonical fs base of
       None \<Rightarrow> Inl (DownloadRuntime ''Download destination path could not be canonicalized.'')
     | Some canonicalBase \<Rightarrow>
         Inr (lexically_normal (if Parts p \<noteq> [] then path_join canonicalBase (relative [last (Parts p)]) else canonicalBase)))"

definition check_request :: "'c download_env \<Rightarrow> SBookDownloadRequest \<Rightarrow> download_error + unit" where
  "check_request env request =
    (if DlBookId request \<le> 0 then Inl (DownloadArgument ''Download request must use a valid book id.'')
     else if \<not> Absolute (DlDestinationPath request) then Inl (DownloadArgument ''Download destination path must be absolute.'')
     else if DlIsDirectory env (DlDestinationPath request) then Inl (DownloadArgument ''Download destination path must point to a file.'')
     else and_then (CanonicalizeForComparison (DlFs env) (DlCacheRoot env)) (\<lambda>root.
       and_then (CanonicalizeForComparison (DlFs env) (DlDestinationPath request)) (\<lambda>destination.
       if IsPathWithinRoot root destination
       then Inl (DownloadArgument ''Download destination path must be outside the INPX cache root.'') else Inr ())))"

definition DownloadSourceDirectory :: "path \<Rightarrow> path" where
  "DownloadSourceDirectory runtimeWorkspaceRoot = path_join runtimeWorkspaceRoot (relative [''Downloads''])"

definition parent_path :: "path \<Rightarrow> path" where
  "parent_path p = p\<lparr>Parts := butlast (Parts p)\<rparr>"

definition validate_source :: "'c download_env \<Rightarrow> SBookDownloadSource \<Rightarrow> SInpxDownloadSource \<Rightarrow> unit download_step" where
  "validate_source env source locator = ValidateDownloadSnapshot (DlEvp env) (MaxArchiveManifestMemoryBytes env) source locator"

text \<open>From the opened archive to the staged entry.\<close>

definition extract_step :: "archive_file \<Rightarrow> string \<Rightarrow> path \<Rightarrow> unit download_step" where
  "extract_step reader entryNameUtf8 p w = (case Extract reader entryNameUtf8 p w of
     (Inl e, w') \<Rightarrow> (Inl (DownloadRuntime (text_what e)), w')
   | (Inr u, w') \<Rightarrow> (Inr u, w'))"

definition check_staged_size :: "path \<Rightarrow> nat \<Rightarrow> unit download_step" where
  "check_staged_size p sizeBytes w = (case take_fault w of
     (True, w') \<Rightarrow> (Inl filesystem_error, w')
   | (False, w') \<Rightarrow>
       if map_option length (Files w' p) = None then (Inl filesystem_error, w')
       else if map_option length (Files w' p) \<noteq> Some sizeBytes
       then (Inl (source_mismatch ''the staged archive entry size is inconsistent.''), w')
       else (Inr (), w'))"

definition stage_source :: "'c download_env \<Rightarrow> SBookDownloadSource \<Rightarrow> SInpxDownloadSource \<Rightarrow> path \<Rightarrow> unit download_step" where
  "stage_source env source locator temporarySourcePath =
    and_next (OpenValidatedArchiveSnapshot (DlEvp env) (MaxArchiveManifestMemoryBytes env) source locator) (\<lambda>archiveReader.
    and_next ThrowIfCancelled (\<lambda>_.
    and_next ThrowIfCancelled (\<lambda>_.
    and_next (extract_step archiveReader (DlEntryNameUtf8 locator) temporarySourcePath) (\<lambda>_.
    and_next (check_staged_size temporarySourcePath (DlEntrySizeBytes locator)) (\<lambda>_.
    and_next ThrowIfCancelled (\<lambda>_.
    validate_source env source locator))))))"

definition publish_source ::
    "'c download_env \<Rightarrow> SBookDownloadSource \<Rightarrow> SInpxDownloadSource \<Rightarrow> SBookDownloadRequest \<Rightarrow> path \<Rightarrow> path \<Rightarrow> unit download_step" where
  "publish_source env source locator request temporarySourcePath publicationWorkspace =
    (let preparedDestinationPath = path_join publicationWorkspace (relative [path_filename (DlDestinationPath request)]) in
     if DlRequestedFormat request \<noteq> None \<and> DlRequestedFormat request \<noteq> Some (DlFormat locator)
     then PrepareConvertedDownload (DlConverter env) (DlFormat locator) temporarySourcePath preparedDestinationPath
       (DlDestinationPath request) (validate_source env source locator)
     else and_next (MoveFileWithCopyFallback temporarySourcePath preparedDestinationPath) (\<lambda>_.
       and_next ThrowIfCancelled (\<lambda>_.
       and_next (validate_source env source locator) (\<lambda>_.
       publish_download preparedDestinationPath (DlDestinationPath request)
         (and_next ThrowIfCancelled (\<lambda>_. validate_source env source locator))))))"

definition prepare_files :: "'c download_env \<Rightarrow> SBookDownloadSource \<Rightarrow> SInpxDownloadSource \<Rightarrow> SBookDownloadRequest \<Rightarrow> unit download_step" where
  "prepare_files env source locator request =
    and_next ThrowIfCancelled (\<lambda>_.
    and_next (validate_source env source locator) (\<lambda>_.
    and_next (fs_call take_fault filesystem_error) (\<lambda>_.
    with_directory (CreateUniqueDirectory (DownloadSourceDirectory (DlRuntimeWorkspaceRoot env)) ''download-'') (\<lambda>sourceWorkspace.
      let temporarySourcePath = path_join sourceWorkspace (relative [''source.'' @ book_format_ToString (DlFormat locator)]) in
      and_next (stage_source env source locator temporarySourcePath) (\<lambda>_.
      with_directory (CreateUniqueDirectory (parent_path (DlDestinationPath request)) ''.inpx-web-reader-download-'')
        (publish_source env source locator request temporarySourcePath))))))"

definition PrepareDownload :: "'c download_env \<Rightarrow> SBookDownloadRequest \<Rightarrow> SPreparedBookDownload option download_step" where
  "PrepareDownload env request w =
    (case check_request env request of Inl e \<Rightarrow> (Inl e, w) | Inr _ \<Rightarrow>
    (case DlSource env of None \<Rightarrow> (Inl (DownloadDomain Validation ''INPX source is not configured.''), w) | Some source \<Rightarrow>
    (case LoadDownloadSnapshot (DlRows env (DlBookId request)) of Inl e \<Rightarrow> (Inl e, w) | Inr None \<Rightarrow> (Inr None, w) | Inr (Some snapshot) \<Rightarrow>
     if \<not> IsInpxBookAvailable (DlAvailability (SnapSource snapshot))
     then (Inl (DownloadDomain NotFound ''Book is unavailable in the current INPX source.''), w)
     else and_next (prepare_files env source (SnapSource snapshot) request) (\<lambda>_ w'.
       (Inr (Some \<lparr>PreparedPath = DlDestinationPath request, PreparedTitleUtf8 = SnapTitleUtf8 snapshot,
                   PreparedAuthorsUtf8 = SnapAuthorsUtf8 snapshot,
                   PreparedFormat = (case DlRequestedFormat request of None \<Rightarrow> DlFormat (SnapSource snapshot) | Some f \<Rightarrow> f)\<rparr>), w')) w)))"

end
