(* ===== verification/Download_Frames.thy ===== *)
theory Download_Frames
  imports Download_Facade Archive_Access_Properties
begin

text \<open>
  Which files a download touches: for each step of \<open>Download_Facade\<close> the paths that may change, composed along
  the sequence of the steps.
\<close>

section \<open>Which files a step touches\<close>

definition touches :: "path set \<Rightarrow> ('a fs_world_scheme \<Rightarrow> 'r \<times> 'a fs_world_scheme) \<Rightarrow> bool" where
  "touches A f \<longleftrightarrow> (\<forall>w p. p \<notin> A \<longrightarrow> Files (snd (f w)) p = Files w p)"

lemma touchesI: "(\<And>w r w' p. f w = (r, w') \<Longrightarrow> p \<notin> A \<Longrightarrow> Files w' p = Files w p) \<Longrightarrow> touches A f"
  unfolding touches_def by (metis prod.collapse)

lemma touchesD: "touches A f \<Longrightarrow> f w = (r, w') \<Longrightarrow> p \<notin> A \<Longrightarrow> Files w' p = Files w p"
  unfolding touches_def by (metis snd_conv)

lemma touches_mono: "touches A f \<Longrightarrow> A \<subseteq> B \<Longrightarrow> touches B f"
  by (auto simp: touches_def)

lemma touches_and_next:
  assumes "touches A step" "\<And>x. touches A (f x)"
  shows "touches A (and_next step f)"
proof (rule touchesI)
  fix w r w' p assume run: "and_next step f w = (r, w')" and p: "p \<notin> A"
  obtain r1 w1 where w1: "step w = (r1, w1)" by fastforce
  note t = touchesD [OF assms(1) w1 p] touchesD [OF assms(2) _ p]
  show "Files w' p = Files w p" using run w1 t by (cases r1) (auto simp: and_next_def)
qed

lemma touches_const [intro]: "touches A (\<lambda>w. (r, w))"
  by (simp add: touches_def)

lemma touches_cancel [intro]: "touches A ThrowIfCancelled"
  by (auto simp: touches_def ThrowIfCancelled_def split: list.split bool.split)

lemma touches_view: "touches A (\<lambda>w. case take_view w of (v, w') \<Rightarrow> (f v, w'))"
  by (auto simp: touches_def take_view_def split: list.split)

lemma touches_fault [intro]: "touches A (fs_call take_fault e)"
  by (auto simp: touches_def fs_call_def take_fault_def split: list.split bool.split prod.split)

lemma touches_open [intro]: "touches A (OpenValidatedArchiveSnapshot evp m source locator)"
  unfolding OpenValidatedArchiveSnapshot_def by (intro touches_and_next touches_cancel touches_view)

lemma touches_validate [intro]: "touches A (ValidateDownloadSnapshot evp m source locator)"
  unfolding ValidateDownloadSnapshot_def ValidateInpxSourceFingerprint_def
  by (intro touches_and_next touches_cancel touches_view touches_open touches_const)

lemma touches_validate_source [intro]: "touches A (validate_source env source locator)"
  by (simp add: validate_source_def touches_validate)

text \<open>The calls of the replacement, as facts of what they leave.\<close>

lemma rename_frame: "RenamePathNoThrow p q w = (r, w') \<Longrightarrow> \<forall>x. x \<noteq> p \<and> x \<noteq> q \<longrightarrow> Files w' x = Files w x"
  by (auto simp: RenamePathNoThrow_def split: prod.splits bool.splits if_splits dest!: take_fault_keeps)

lemma rename_throw_frame: "RenamePath p q w = (r, w') \<Longrightarrow> \<forall>x. x \<noteq> p \<and> x \<noteq> q \<longrightarrow> Files w' x = Files w x"
  by (auto simp: RenamePath_def split: prod.splits bool.splits dest!: rename_frame)

lemma remove_frame: "RemovePathNoThrow p w = (r, w') \<Longrightarrow> \<forall>x. x \<noteq> p \<longrightarrow> Files w' x = Files w x"
  by (auto simp: RemovePathNoThrow_def split: prod.splits bool.splits dest!: take_fault_keeps)

lemma exists_frame: "PathExists p w = (r, w') \<Longrightarrow> Files w' = Files w"
  by (auto simp: PathExists_def split: prod.splits bool.splits dest!: take_fault_keeps)

lemma restore_frame: "RestoreBackupOrThrow b d e w = (e', w') \<Longrightarrow> \<forall>x. x \<noteq> b \<and> x \<noteq> d \<longrightarrow> Files w' x = Files w x"
  by (auto simp: RestoreBackupOrThrow_def split: prod.splits sum.splits bool.splits dest!: rename_frame exists_frame)

lemma rollback_frame:
  "RollbackPublishedFileOrThrow b d backed published e w = (r, w') \<Longrightarrow>
    \<forall>x. (backed \<longrightarrow> x \<noteq> b) \<and> x \<noteq> d \<longrightarrow> Files w' x = Files w x"
  by (auto simp: RollbackPublishedFileOrThrow_def split: prod.splits bool.splits if_splits dest!: restore_frame remove_frame)

lemma validation_frame: "run_validation validate w = (r, w') \<Longrightarrow> keeps_files validate \<Longrightarrow> Files w' = Files w"
  using run_validation_result by blast

lemma publish_frame:
  fixes w w' :: "'a fs_world_scheme"
  assumes "publish_prepared p d b backed validate w = (r, w')" "keeps_files validate"
  shows "\<forall>x. x \<noteq> p \<and> x \<noteq> d \<and> (backed \<longrightarrow> x \<noteq> b) \<longrightarrow> Files w' x = Files w x"
proof -
  have r: "\<forall>x. x \<noteq> b \<longrightarrow> Files (snd (RemovePathNoThrow b v)) x = Files v x" for v :: "'a fs_world_scheme"
    using remove_frame [of b v, OF prod.collapse [symmetric]] by simp
  show ?thesis using assms
    by (auto simp: publish_prepared_def r split: prod.splits sum.splits if_splits
        dest!: rename_throw_frame rollback_frame validation_frame)
qed

lemma replace_frame:
  fixes r :: "'e replace_error + unit"
  assumes run: "ReplaceDestinationWithPreparedFile p d validate w = (r, w')" and keeps: "keeps_files validate"
  shows "\<forall>x. x \<noteq> p \<and> x \<noteq> d \<and> x \<noteq> replacement_backup d w \<longrightarrow> Files w' x = Files w x"
proof (cases "p = d")
  case True
  then show ?thesis using run validation_frame [OF _ keeps] by (auto simp: ReplaceDestinationWithPreparedFile_def)
next
  case False
  obtain r1 :: "'e replace_error + bool" and w1 where w1: "PathExists d w = (r1, w1)" by fastforce
  obtain b w2 where w2: "backup_path d w1 = (b, w2)" by fastforce
  obtain r3 :: "'e replace_error + unit" and w3 where w3: "RenamePath d b w2 = (r3, w3)" by fastforce
  have b: "b = replacement_backup d w"
    using w2 PathExists_result [OF w1] by (auto simp: replacement_backup_def backup_path_def BuildSiblingTemporaryPath_def Let_def)
  note f = exists_frame [OF w1] backup_path_result [OF w2] rename_throw_frame [OF w3]
  show ?thesis
    using run False w1 w2 w3 f b
    by (auto simp: ReplaceDestinationWithPreparedFile_def split: sum.splits bool.splits
        dest!: publish_frame [OF _ keeps] rollback_frame)
qed

section \<open>Where a download writes\<close>

definition is_backup_of :: "path \<Rightarrow> path \<Rightarrow> bool" where
  "is_backup_of d p \<longleftrightarrow> Absolute p = Absolute d \<and> parent_path p = parent_path d \<and> suffix ''.inpx-web-reader-backup'' (path_filename p)"

text \<open>The paths that may be touched: below the workspace of the sources, below a publication workspace beside the
  destination, the destination and its backups.\<close>

definition in_publication :: "path \<Rightarrow> path \<Rightarrow> bool" where
  "in_publication d p \<longleftrightarrow> Absolute p = Absolute d \<and> length (Parts (parent_path d)) < length (Parts p)
    \<and> prefix (Parts (parent_path d)) (Parts p)
    \<and> prefix ''.inpx-web-reader-download-'' (Parts p ! length (Parts (parent_path d)))"

definition download_paths :: "'c download_env \<Rightarrow> SBookDownloadRequest \<Rightarrow> path set" where
  "download_paths env request =
    {p. below (DownloadSourceDirectory (DlRuntimeWorkspaceRoot env)) p \<or> in_publication (DlDestinationPath request) p
       \<or> p = DlDestinationPath request \<or> is_backup_of (DlDestinationPath request) p}"

lemma backup_is_backup: "backup_path d w = (b, w') \<Longrightarrow> is_backup_of d b"
  by (auto simp: backup_path_def BuildSiblingTemporaryPath_def Let_def path_concat_def is_backup_of_def parent_path_def path_filename_def
      suffix_def)

lemma replacement_backup_is_backup: "is_backup_of d (replacement_backup d w)"
  using backup_is_backup [OF prod.collapse [symmetric]] by (simp add: replacement_backup_def)

text \<open>Siblings of a file of a directory lie in the directory.\<close>

lemma sibling_below: "below directory p \<Longrightarrow> p \<noteq> directory \<Longrightarrow> Absolute q = Absolute p \<Longrightarrow> parent_path q = parent_path p \<Longrightarrow> below directory q"
proof -
  assume a: "below directory p" "p \<noteq> directory" "Absolute q = Absolute p" "parent_path q = parent_path p"
  have parts: "butlast (Parts q) = butlast (Parts p)" using arg_cong [OF a(4), of Parts] by (simp add: parent_path_def)
  have ne: "Parts directory \<noteq> Parts p" using a(1,2) by (auto simp: below_def)
  have "prefix (Parts directory) (butlast (Parts p))"
  proof -
    obtain zs where zs: "Parts p = Parts directory @ zs" using a(1) by (auto simp: below_def prefix_def)
    then have "zs \<noteq> []" using ne by auto
    then show ?thesis using zs by (simp add: butlast_append)
  qed
  also have "prefix (butlast (Parts p)) (Parts q)" by (metis parts prefixeq_butlast)
  finally show ?thesis using a by (simp add: below_def)
qed

lemma extract_loop_touches: "extract_loop z i p n written w = (r, w') \<Longrightarrow> \<forall>x. x \<noteq> p \<longrightarrow> Files w' x = Files w x"
proof (induction z i p n written w arbitrary: r w' rule: extract_loop.induct)
  case (1 z i p n written w)
  note loop = "1.prems" [unfolded extract_loop.simps [of z i p n written w]]
  show ?case
  proof (cases "n > 0 \<and> read_chunk z i (length written) n \<noteq> None")
    case True
    then obtain chunk where c: "n > 0" "read_chunk z i (length written) n = Some chunk" by auto
    obtain ok w1 where w1: "write_file p (written @ chunk) w = (ok, w1)" by fastforce
    note f = write_file_result [OF w1]
    show ?thesis
    proof (cases ok)
      case True
      then have rec: "extract_loop z i p (n - length chunk) (written @ chunk) w1 = (r, w')" using loop c w1 by simp
      from "1.IH" [OF c w1 [symmetric] _ rec] True show ?thesis using f by auto
    next
      case False
      then show ?thesis using loop c w1 f by auto
    qed
  next
    case False
    then show ?thesis using loop by (auto split: if_splits)
  qed
qed

lemma extract_step_touches:
  assumes "below directory p" "p \<noteq> directory" "Parts directory \<noteq> []"
  shows "touches {q. below directory q} (extract_step z n p)"
proof -
  have sib: "Absolute q = Absolute p \<Longrightarrow> parent_path q = parent_path p \<Longrightarrow> below directory q" for q
    using sibling_below [OF assms(1,2)] by blast
  have temp: "BuildSiblingTemporaryPath p w = (q, w') \<Longrightarrow> below directory q \<and> Files w' = Files w" for w w' :: download_world and q
    by (auto simp: BuildSiblingTemporaryPath_def Let_def parent_path_def intro!: sib)
  have bak: "below directory (replacement_backup p w)" for w :: download_world
    using replacement_backup_is_backup [of p w] sib by (auto simp: is_backup_of_def)
  have repl: "\<forall>x. \<not> below directory x \<longrightarrow> Files w' x = Files w x"
    if "ReplaceDestinationWithPreparedFile q p None w = (r, w')" "below directory q"
    for q and w w' :: download_world and r :: "text_error replace_error + unit"
    using replace_frame [OF that(1)] that(2) bak [of w] assms(1) by (auto simp: keeps_files_def)
  have rem: "below directory q \<Longrightarrow> \<not> below directory x \<Longrightarrow> Files (snd (RemovePathNoThrow q v)) x = Files v x" for q x and v :: download_world
    using remove_frame [of q v, OF prod.collapse [symmetric]] by auto
  have make: "create_parent q w = (f, w') \<Longrightarrow> Files w' = Files w" for q f and w w' :: download_world
    using create_parent_keeps by blast
  have prep: "\<forall>x. \<not> below directory x \<longrightarrow> Files w' x = Files w x"
    if "extract_prepared z entry q p w = (r, w')" "below directory q" for entry q r and w w' :: download_world
    using that
    by (auto simp: extract_prepared_def split: prod.splits bool.splits sum.splits
        dest!: write_file_result extract_loop_touches take_fault_keeps repl)
  show ?thesis
    by (rule touchesI) (auto simp: extract_step_def Extract_def rem split: prod.splits sum.splits bool.splits dest!: temp prep make)
qed

section \<open>The directories\<close>

definition is_unique_directory :: "path \<Rightarrow> string \<Rightarrow> path \<Rightarrow> bool" where
  "is_unique_directory parent directoryNamePrefix directory \<longleftrightarrow>
    (\<exists>number. number \<noteq> [] \<and> digit_char (last number)
      \<and> directory = path_join parent (relative [directoryNamePrefix @ number]))"

lemma unique_name_shape: "\<exists>number. number \<noteq> [] \<and> digit_char (last number) \<and> unique_name pre w = pre @ number"
  by (rule exI [of _ "int_to_string (case Ticks w of [] \<Rightarrow> 0 | t # _ \<Rightarrow> t) @ ''-'' @ to_string (GUniqueDirectorySequence w)"])
    (simp add: unique_name_def to_string_digits [OF last_in_set])

lemma unique_directory_result:
  "unique_directory_loop parent pre w = (r, w') \<Longrightarrow> Files w' = Files w \<and> (\<forall>directory. r = Inr directory \<longrightarrow> is_unique_directory parent pre directory)"
proof (induction parent pre w arbitrary: r w' rule: unique_directory_loop.induct)
  case (1 parent pre w)
  note loop = "1.prems" [unfolded unique_directory_loop.simps [of parent pre w] Let_def]
  have here: "is_unique_directory parent pre (path_join parent (relative [unique_name pre w]))"
    using unique_name_shape [of pre w] by (auto simp: is_unique_directory_def)
  obtain f w1 where w1: "take_fault (next_name w) = (f, w1)" by fastforce
  have files: "Files w1 = Files w" using take_fault_keeps [OF w1] by (simp add: next_name_def)
  show ?case
  proof (cases "\<not> f \<and> (\<exists>rest. Collisions w1 = True # rest)")
    case True
    then obtain rest where rest: "Collisions w1 = True # rest" "f = False" by auto
    then have "unique_directory_loop parent pre (w1\<lparr>Collisions := rest\<rparr>) = (r, w')" using loop w1 by simp
    from "1.IH" [OF refl w1 [symmetric] rest(2) rest(1) _ this] show ?thesis using files by simp
  next
    case False
    then show ?thesis using loop w1 files here by (auto split: list.splits bool.splits)
  qed
qed

lemma CreateUniqueDirectory_result:
  assumes "CreateUniqueDirectory parent pre w = (r, w')"
  shows "Files w' = Files w \<and> (\<forall>directory. r = Inr directory \<longrightarrow> is_unique_directory parent pre directory)"
proof -
  obtain r1 w1 where w1: "fs_call take_fault (DownloadRuntime (''Failed to create directory: '' @ PathToUtf8 parent)) w = (r1, w1)" by fastforce
  have "Files w1 = Files w" using touchesD [OF touches_fault [of "{}"] w1] by auto
  then show ?thesis using assms w1 by (cases r1) (auto simp: CreateUniqueDirectory_def and_next_def dest: unique_directory_result)
qed

lemma with_directory_run:
  assumes "with_directory create body w = (r, w')"
  obtains (create) e where "create w = (Inl e, w')" "r = Inl e"
  | (body) directory w1 w2 where "create w = (Inr directory, w1)" "body directory w1 = (r, w2)" "w' = remove_all directory w2"
  using assms by (auto simp: with_directory_def and_next_def split: prod.splits sum.splits)

lemma remove_all_frame: "\<not> below directory p \<Longrightarrow> Files (remove_all directory w) p = Files w p"
  by (auto simp: remove_all_def split: prod.split bool.split dest!: take_fault_keeps)

lemma touches_with_directory:
  assumes create: "touches A create"
    and body: "\<And>directory w w1. create w = (Inr directory, w1) \<Longrightarrow> touches A (body directory) \<and> (\<forall>p. below directory p \<longrightarrow> p \<in> A)"
  shows "touches A (with_directory create body)"
proof (rule touchesI)
  fix w r w' p assume run: "with_directory create body w = (r, w')" and p: "p \<notin> A"
  from run show "Files w' p = Files w p"
  proof (cases rule: with_directory_run)
    case create
    then show ?thesis using touchesD [OF assms(1) _ p] by simp
  next
    case (body directory w1 w2)
    have b: "touches A (body directory)" "\<not> below directory p" using assms(2) [OF body(1)] p by auto
    have "Files w2 p = Files w p" using touchesD [OF assms(1) body(1) p] touchesD [OF b(1) body(2) p] by simp
    then show ?thesis using remove_all_frame [OF b(2)] body(3) by simp
  qed
qed

lemma touches_create [intro]: "touches A (CreateUniqueDirectory parent pre)"
  by (rule touchesI) (auto dest!: CreateUniqueDirectory_result)

section \<open>The whole download\<close>

lemma touches_check_size [intro]: "touches A (check_staged_size p n)"
  by (rule touchesI) (auto simp: check_staged_size_def split: prod.splits bool.splits if_splits dest!: take_fault_keeps)

lemma fs_call_fault: "fs_call take_fault e w = (r, w') \<Longrightarrow> Files w' = Files w"
  using touchesD [OF touches_fault [of "{}"]] by blast

lemma touches_move: "p \<in> A \<Longrightarrow> q \<in> A \<Longrightarrow> touches A (MoveFileWithCopyFallback p q)"
proof (rule touchesI)
  fix w r w' x assume pq: "p \<in> A" "q \<in> A" and run: "MoveFileWithCopyFallback p q w = (r, w')" and x: "x \<notin> A"
  have d: "x \<noteq> p" "x \<noteq> q" using pq x by auto
  have rem: "Files (snd (RemovePathNoThrow p v)) x = Files v x" for v :: download_world
    using remove_frame [of p v, OF prod.collapse [symmetric]] d by auto
  show "Files w' x = Files w x"
    using run d by (auto simp: MoveFileWithCopyFallback_def and_next_def rem split: prod.splits bool.splits sum.splits if_splits
        dest!: take_fault_keeps rename_frame fs_call_fault)
qed

lemma keeps_files_step: "(\<And>A. touches A f) \<Longrightarrow> keeps_files (Some f)"
  by (auto simp: keeps_files_def touches_def)

lemma touches_publish:
  assumes "p \<in> A" "d \<in> A" "\<And>b. is_backup_of d b \<Longrightarrow> b \<in> A" "keeps_files (Some validate)"
  shows "touches A (publish_download p d validate)"
proof (rule touchesI)
  fix w r w' x assume run: "publish_download p d validate w = (r, w')" and x: "x \<notin> A"
  obtain r1 :: "download_error replace_error + unit" and w1 where w1: "ReplaceDestinationWithPreparedFile p d (Some validate) w = (r1, w1)" by fastforce
  have "w' = w1" using run w1 by (cases r1) (auto simp: publish_download_def)
  moreover have "x \<noteq> p \<and> x \<noteq> d \<and> x \<noteq> replacement_backup d w" using x assms(1-3) replacement_backup_is_backup [of d w] by blast
  ultimately show "Files w' x = Files w x" using replace_frame [OF w1 assms(4)] by simp
qed

lemma keeps_revalidation: "keeps_files (Some (and_next ThrowIfCancelled (\<lambda>_. validate_source env source locator)))"
  by (intro keeps_files_step touches_and_next touches_cancel touches_validate_source)

lemma touches_converter: "q \<in> A \<Longrightarrow> touches A (run_converter c p q)"
  by (auto intro!: touchesI simp: run_converter_def split: prod.splits option.splits)

lemma touches_convert:
  assumes "q \<in> A" "d \<in> A" "\<And>b. is_backup_of d b \<Longrightarrow> b \<in> A"
  shows "touches A (PrepareConvertedDownload c f p q d (validate_source env source locator))"
  by (auto simp: PrepareConvertedDownload_def split: option.split
      intro!: touches_and_next touches_converter touches_publish assms keeps_revalidation)

lemma touches_publish_source:
  assumes "temporarySourcePath \<in> A" "path_join workspace (relative [path_filename (DlDestinationPath request)]) \<in> A"
    and "DlDestinationPath request \<in> A" "\<And>b. is_backup_of (DlDestinationPath request) b \<Longrightarrow> b \<in> A"
  shows "touches A (publish_source env source locator request temporarySourcePath workspace)"
  unfolding publish_source_def Let_def
  by (auto intro!: touches_and_next touches_move touches_convert touches_publish keeps_revalidation assms)

lemma touches_stage_source:
  assumes "below directory p" "p \<noteq> directory" "Parts directory \<noteq> []" "{q. below directory q} \<subseteq> A"
  shows "touches A (stage_source env source locator p)"
  unfolding stage_source_def
  by (intro touches_and_next touches_open touches_cancel touches_check_size touches_validate_source
      touches_mono [OF extract_step_touches [OF assms(1-3)] assms(4)])

lemma unique_directory_parts:
  "is_unique_directory parent pre directory \<Longrightarrow>
    \<exists>number. number \<noteq> [] \<and> digit_char (last number) \<and> directory = parent\<lparr>Parts := Parts parent @ [pre @ number]\<rparr>"
  by (auto simp: is_unique_directory_def path_join_def relative_def)

lemma unique_directory_below: "is_unique_directory parent pre directory \<Longrightarrow> below directory p \<Longrightarrow> below parent p"
  by (auto dest!: unique_directory_parts simp: below_def prefix_def)

lemma file_in_directory:
  "below directory (path_join directory (relative [n]))" "path_join directory (relative [n]) \<noteq> directory"
  by (auto simp: path_join_def relative_def below_def dest: arg_cong [where f = Parts])

lemma below_publication:
  assumes "is_unique_directory (parent_path d) ''.inpx-web-reader-download-'' directory" "below directory p"
  shows "in_publication d p"
proof -
  define pre where "pre = ''.inpx-web-reader-download-''"
  obtain number where n: "directory = (parent_path d)\<lparr>Parts := Parts (parent_path d) @ [pre @ number]\<rparr>"
    using unique_directory_parts [OF assms(1)] by (auto simp: pre_def)
  then obtain zs where z: "Parts p = Parts (parent_path d) @ (pre @ number) # zs" and a: "Absolute p = Absolute d"
    using assms(2) by (auto simp: below_def prefix_def parent_path_def)
  have "Parts p ! length (Parts (parent_path d)) = pre @ number" by (simp add: z)
  then show ?thesis unfolding in_publication_def pre_def [symmetric] using z a by simp
qed

lemma prepare_files_touches: "touches (download_paths env request) (prepare_files env source locator request)"
  unfolding prepare_files_def Let_def
proof (intro touches_and_next touches_cancel touches_validate_source touches_fault touches_with_directory touches_create, safe)
  define A where "A = download_paths env request"
  fix workspace w w1
  assume "CreateUniqueDirectory (DownloadSourceDirectory (DlRuntimeWorkspaceRoot env)) ''download-'' w = (Inr workspace, w1)"
  then have u: "is_unique_directory (DownloadSourceDirectory (DlRuntimeWorkspaceRoot env)) ''download-'' workspace"
    by (auto dest: CreateUniqueDirectory_result)
  have sub: "{q. below workspace q} \<subseteq> A"
    using unique_directory_below [OF u] by (auto simp: A_def download_paths_def)
  then show "below workspace p \<Longrightarrow> p \<in> download_paths env request" for p by (auto simp: A_def)
  have ne: "Parts workspace \<noteq> []" using unique_directory_parts [OF u] by auto
  let ?source = "path_join workspace (relative [''source.'' @ book_format_ToString (DlFormat locator)])"
  show "touches (download_paths env request) (and_next (stage_source env source locator ?source) (\<lambda>_.
      with_directory (CreateUniqueDirectory (parent_path (DlDestinationPath request)) ''.inpx-web-reader-download-'')
        (publish_source env source locator request ?source)))"
  proof (fold A_def, intro touches_and_next touches_with_directory touches_create touches_stage_source [OF file_in_directory ne sub], safe)
    fix directory v v1
    assume "CreateUniqueDirectory (parent_path (DlDestinationPath request)) ''.inpx-web-reader-download-'' v = (Inr directory, v1)"
    then have d: "is_unique_directory (parent_path (DlDestinationPath request)) ''.inpx-web-reader-download-'' directory"
      by (auto dest: CreateUniqueDirectory_result)
    show "below directory p \<Longrightarrow> p \<in> A" for p
      using below_publication [OF d] by (auto simp: A_def download_paths_def)
    then show "touches A (publish_source env source locator request ?source directory)"
      using sub file_in_directory by (intro touches_publish_source) (auto simp: A_def download_paths_def)
  qed
qed

end
