(* ===== verification/Download_Contract.thy ===== *)
theory Download_Contract
  imports Download_Frames
begin

text \<open>
  A download that fails keeps the content of its destination: the contract is composed along the steps, of which only
  the publication may change the destination or its backups.
\<close>

section \<open>The contract\<close>

definition guarded :: "path \<Rightarrow> path set" where
  "guarded d = {p. p = d \<or> is_backup_of d p}"

definition no_backups :: "path \<Rightarrow> 'a fs_world_scheme \<Rightarrow> bool" where
  "no_backups d w \<longleftrightarrow> (\<forall>b. is_backup_of d b \<longrightarrow> Files w b = None)"

definition content_safe :: "path \<Rightarrow> (path \<Rightarrow> string option) \<Rightarrow> (path \<Rightarrow> string option) \<Rightarrow> bool" where
  "content_safe d before after \<longleftrightarrow>
    (case before d of None \<Rightarrow> True | Some old \<Rightarrow> after d = Some old \<or> (\<exists>b. is_backup_of d b \<and> after b = Some old))"

definition careful :: "path \<Rightarrow> ('a fs_world_scheme \<Rightarrow> ('e + 'r) \<times> 'a fs_world_scheme) \<Rightarrow> bool" where
  "careful d f \<longleftrightarrow> (\<forall>w r w'. f w = (r, w') \<longrightarrow> no_backups d w \<longrightarrow> isl r \<longrightarrow> content_safe d (Files w) (Files w'))"

lemma carefulD: "careful d f \<Longrightarrow> f w = (r, w') \<Longrightarrow> no_backups d w \<Longrightarrow> isl r \<Longrightarrow> content_safe d (Files w) (Files w')"
  unfolding careful_def by blast

lemma content_safe_cong:
  assumes "\<And>p. p \<in> guarded d \<Longrightarrow> f p = f' p" "\<And>p. p \<in> guarded d \<Longrightarrow> g p = g' p"
  shows "content_safe d f g = content_safe d f' g'"
  using assms by (auto simp: content_safe_def guarded_def split: option.splits)

lemma content_safe_same: "(\<And>p. p \<in> guarded d \<Longrightarrow> g p = f p) \<Longrightarrow> content_safe d f g"
  by (auto simp: content_safe_def guarded_def split: option.splits)

lemma touchesD_guarded: "touches (- guarded d) f \<Longrightarrow> f w = (r, w') \<Longrightarrow> p \<in> guarded d \<Longrightarrow> Files w' p = Files w p"
  by (erule (1) touchesD) simp

lemma no_backups_step: "touches (- guarded d) f \<Longrightarrow> f w = (r, w') \<Longrightarrow> no_backups d w \<Longrightarrow> no_backups d w'"
  using touchesD_guarded [of d f w r w'] by (simp add: no_backups_def guarded_def)

lemma careful_quiet: "touches (- guarded d) f \<Longrightarrow> careful d f"
  by (auto simp: careful_def intro!: content_safe_same dest: touchesD_guarded)

lemma careful_and_next:
  assumes step: "touches (- guarded d) step" and rest: "\<And>x. careful d (f x)"
  shows "careful d (and_next step f)"
  unfolding careful_def
proof (intro allI impI)
  fix w r w' assume run: "and_next step f w = (r, w')" and nb: "no_backups d w" and bad: "isl r"
  obtain r1 w1 where w1: "step w = (r1, w1)" by fastforce
  note same = touchesD_guarded [OF step w1]
  show "content_safe d (Files w) (Files w')"
  proof (cases r1)
    case (Inl e)
    then show ?thesis using run w1 same by (auto simp: and_next_def intro: content_safe_same)
  next
    case (Inr x)
    then have "f x w1 = (r, w')" using run w1 by (simp add: and_next_def)
    from carefulD [OF rest this no_backups_step [OF step w1 nb] bad] show ?thesis
      using content_safe_cong [of d "Files w1" "Files w" "Files w'" "Files w'"] same by simp
  qed
qed

lemma careful_with_directory:
  assumes create: "touches (- guarded d) create"
    and body: "\<And>directory w w1. create w = (Inr directory, w1) \<Longrightarrow> careful d (body directory) \<and> (\<forall>p. p \<in> guarded d \<longrightarrow> \<not> below directory p)"
  shows "careful d (with_directory create body)"
  unfolding careful_def
proof (intro allI impI)
  fix w r w' assume run: "with_directory create body w = (r, w')" and nb: "no_backups d w" and bad: "isl r"
  from run show "content_safe d (Files w) (Files w')"
  proof (cases rule: with_directory_run)
    case create
    then show ?thesis using touchesD_guarded [OF assms(1)] by (blast intro: content_safe_same)
  next
    case (body directory w1 w2)
    note same = touchesD_guarded [OF create body(1)] and b = assms(2) [OF body(1)]
    have "careful d (body directory)" using b by blast
    from carefulD [OF this body(2) no_backups_step [OF create body(1) nb] bad] show ?thesis
      using content_safe_cong [of d "Files w1" "Files w" "Files w2" "Files w'"] same b body(3) by (simp add: remove_all_frame)
  qed
qed

lemma careful_publish:
  assumes "p \<noteq> d" "\<not> is_backup_of d p" "keeps_files (Some validate)"
  shows "careful d (publish_download p d validate)"
  unfolding careful_def
proof (intro allI impI)
  fix w r w' assume run: "publish_download p d validate w = (r, w')" and nb: "no_backups d w" and bad: "isl r"
  obtain r1 :: "download_error replace_error + unit" and w1 where
    w1: "ReplaceDestinationWithPreparedFile p d (Some validate) w = (r1, w1)" by fastforce
  note backup = replacement_backup_is_backup [of d w]
  have ready: "replacement_ready p d w" using assms nb backup by (auto simp: replacement_ready_def no_backups_def)
  obtain e where e: "r1 = Inl e" "w' = w1" using run w1 bad by (cases r1) (auto simp: publish_download_def)
  have "content_kept d (replacement_backup d w) (Files w) (Files w')"
    using replacement_result [OF ready assms(3) w1] outcome_kept e by blast
  then show "content_safe d (Files w) (Files w')"
    using backup by (auto simp: content_kept_def content_safe_def split: option.splits)
qed

section \<open>Where the destination lies\<close>

text \<open>The server prepares its files in a directory of its own, and no file there has the name of a workspace.\<close>

definition proper_destination :: "'c download_env \<Rightarrow> path \<Rightarrow> bool" where
  "proper_destination env d \<longleftrightarrow> \<not> below (DownloadSourceDirectory (DlRuntimeWorkspaceRoot env)) d
    \<and> \<not> prefix ''.inpx-web-reader-download-'' (path_filename d)"

lemma backup_last: "is_backup_of d b \<Longrightarrow> Parts b \<noteq> [] \<and> last (path_filename b) = CHR ''p''"
  by (auto simp: is_backup_of_def path_filename_def suffix_def split: if_splits)

lemma guarded_not_in_sources:
  assumes "proper_destination env d" "p \<in> guarded d"
  shows "\<not> below (DownloadSourceDirectory (DlRuntimeWorkspaceRoot env)) p"
proof
  define D where "D = DownloadSourceDirectory (DlRuntimeWorkspaceRoot env)"
  assume "below (DownloadSourceDirectory (DlRuntimeWorkspaceRoot env)) p"
  then have b: "below D p" by (simp add: D_def)
  have n: "\<not> below D d" using assms(1) by (simp add: proper_destination_def D_def)
  then have p: "is_backup_of d p" using assms(2) b by (auto simp: guarded_def)
  have "path_filename D = ''Downloads''"
    by (simp add: D_def DownloadSourceDirectory_def path_join_def relative_def path_filename_def)
  then have "p \<noteq> D" using backup_last [OF p] by auto
  then show False using sibling_below [OF b] p n by (auto simp: is_backup_of_def)
qed

lemma guarded_not_in_publication:
  assumes "proper_destination env d" "p \<in> guarded d" "is_unique_directory (parent_path d) ''.inpx-web-reader-download-'' directory"
  shows "\<not> below directory p"
proof
  define pre where "pre = ''.inpx-web-reader-download-''"
  assume b: "below directory p"
  obtain number where n: "number \<noteq> []" "digit_char (last number)" and
    dir: "Parts directory = butlast (Parts d) @ [pre @ number]"
    using unique_directory_parts [OF assms(3)] by (auto simp: pre_def parent_path_def)
  have parent: "butlast (Parts p) = butlast (Parts d)"
    using assms(2) by (auto simp: guarded_def is_backup_of_def parent_path_def dest: arg_cong [where f = Parts])
  from b obtain zs where z: "Parts p = butlast (Parts d) @ (pre @ number) # zs" by (auto simp: below_def dir prefix_def)
  then have "zs = []" using arg_cong [OF parent, of length] by (cases zs rule: rev_cases) (auto simp: butlast_append)
  then have f: "path_filename p = pre @ number" using z by (simp add: path_filename_def)
  show False
  proof (cases "p = d")
    case True
    then show ?thesis using f assms(1) by (simp add: proper_destination_def pre_def [symmetric])
  next
    case False
    then have "is_backup_of d p" using assms(2) by (simp add: guarded_def)
    then have "last number = CHR ''p''" using backup_last f n by fastforce
    then show ?thesis using n(2) by (simp add: digit_char_def)
  qed
qed

lemma prepared_is_apart:
  assumes "is_unique_directory (parent_path d) pre directory"
  shows "path_join directory (relative [n]) \<notin> guarded d"
proof -
  obtain number where "directory = (parent_path d)\<lparr>Parts := Parts (parent_path d) @ [pre @ number]\<rparr>"
    using unique_directory_parts [OF assms] by blast
  then have p: "Parts (path_join directory (relative [n])) = butlast (Parts d) @ [pre @ number, n]"
    by (simp add: path_join_def relative_def parent_path_def)
  have "butlast (Parts (path_join directory (relative [n]))) \<noteq> butlast (Parts d)"
    unfolding p using arg_cong [where f = length] by (auto simp: butlast_append)
  then show ?thesis by (auto simp: guarded_def is_backup_of_def parent_path_def dest: arg_cong [where f = Parts])
qed

section \<open>The download\<close>

lemma careful_publish_source:
  assumes workspace: "is_unique_directory (parent_path d) pre directory" and d: "d = DlDestinationPath request"
    and source: "temporarySourcePath \<notin> guarded d"
  shows "careful d (publish_source env source locator request temporarySourcePath directory)"
proof -
  define p where "p = path_join directory (relative [path_filename d])"
  have p: "p \<notin> guarded d" by (simp add: p_def prepared_is_apart [OF workspace])
  then have publish: "careful d (publish_download p d (and_next ThrowIfCancelled (\<lambda>_. validate_source env source locator)))"
    by (intro careful_publish keeps_revalidation) (auto simp: guarded_def)
  have convert: "touches (- guarded d) (run_converter c temporarySourcePath p)" for c
    using p by (intro touches_converter) simp
  have move: "touches (- guarded d) (MoveFileWithCopyFallback temporarySourcePath p)"
    using source p by (intro touches_move) simp_all
  have unavailable: "careful d (\<lambda>w. (Inl e, w))" for e :: download_error
    by (intro careful_quiet touches_const)
  show ?thesis
    unfolding publish_source_def Let_def d [symmetric] p_def [symmetric]
    by (auto simp: PrepareConvertedDownload_def split: option.split
        intro!: careful_and_next convert publish unavailable touches_cancel touches_validate_source move)
qed

lemma prepare_files_careful:
  assumes proper: "proper_destination env d" and d: "d = DlDestinationPath request"
  shows "careful d (prepare_files env source locator request)"
  unfolding prepare_files_def Let_def d [symmetric]
proof (intro careful_and_next careful_with_directory touches_cancel touches_validate_source touches_fault touches_create)
  fix workspace w w1
  assume "CreateUniqueDirectory (DownloadSourceDirectory (DlRuntimeWorkspaceRoot env)) ''download-'' w = (Inr workspace, w1)"
  then have u: "is_unique_directory (DownloadSourceDirectory (DlRuntimeWorkspaceRoot env)) ''download-'' workspace"
    by (auto dest: CreateUniqueDirectory_result)
  have apart: "q \<notin> guarded d" if "below workspace q" for q
    using unique_directory_below [OF u that] guarded_not_in_sources [OF proper] by blast
  have ne: "Parts workspace \<noteq> []" using unique_directory_parts [OF u] by auto
  let ?source = "path_join workspace (relative [''source.'' @ book_format_ToString (DlFormat locator)])"
  show "careful d (and_next (stage_source env source locator ?source) (\<lambda>_.
      with_directory (CreateUniqueDirectory (parent_path d) ''.inpx-web-reader-download-'')
        (publish_source env source locator request ?source)))
    \<and> (\<forall>p. p \<in> guarded d \<longrightarrow> \<not> below workspace p)"
  proof (intro conjI allI impI careful_and_next careful_with_directory touches_create touches_stage_source [OF file_in_directory ne])
    show "{q. below workspace q} \<subseteq> - guarded d" and "p \<in> guarded d \<Longrightarrow> \<not> below workspace p" for p using apart by auto
    fix directory v v1
    assume "CreateUniqueDirectory (parent_path d) ''.inpx-web-reader-download-'' v = (Inr directory, v1)"
    then have w: "is_unique_directory (parent_path d) ''.inpx-web-reader-download-'' directory" by (auto dest: CreateUniqueDirectory_result)
    show "careful d (publish_source env source locator request ?source directory)"
      by (rule careful_publish_source [OF w d apart [OF file_in_directory(1)]])
    show "p \<in> guarded d \<Longrightarrow> \<not> below directory p" for p by (rule guarded_not_in_publication [OF proper _ w])
  qed
qed

end
