(* ===== verification/Download_Results.thy ===== *)
theory Download_Results
  imports Download_Contract
begin

text \<open>
  What a successful step means: the replacement put the prepared content in place behind a validation that succeeded, the
  extraction read the whole entry, and the archive came from one of the views of the source.
\<close>

section \<open>Results of the replacement\<close>

lemma rollback_fails: "RollbackPublishedFileOrThrow b d backed published e w = (r, w') \<Longrightarrow> isl r"
  by (auto simp: RollbackPublishedFileOrThrow_def split: prod.splits bool.splits if_splits)

text \<open>The calls of the file system leave the rest of the state alone.\<close>

lemma take_fault_more: "take_fault w = (f, w') \<Longrightarrow> fs_world.more w' = fs_world.more w"
  by (auto simp: take_fault_def split: list.splits)

lemma remove_more: "fs_world.more (snd (RemovePathNoThrow p w)) = fs_world.more w"
  by (simp add: RemovePathNoThrow_def take_fault_def split: list.split bool.split prod.split)

lemma rename_more: "RenamePath p q w = (r, w') \<Longrightarrow> fs_world.more w' = fs_world.more w"
  by (auto simp: RenamePath_def RenamePathNoThrow_def split: prod.splits bool.splits if_splits dest!: take_fault_more)

lemma rename_code_more: "RenamePathNoThrow p q w = (r, w') \<Longrightarrow> fs_world.more w' = fs_world.more w"
  by (auto simp: RenamePathNoThrow_def split: prod.splits bool.splits if_splits dest!: take_fault_more)

lemma exists_more: "PathExists p w = (r, w') \<Longrightarrow> fs_world.more w' = fs_world.more w"
  by (auto simp: PathExists_def split: prod.splits bool.splits dest!: take_fault_more)

lemma backup_more: "backup_path p w = (b, w') \<Longrightarrow> fs_world.more w' = fs_world.more w"
  by (auto simp: backup_path_def BuildSiblingTemporaryPath_def Let_def)

lemma write_more: "write_file p c w = (ok, w') \<Longrightarrow> fs_world.more w' = fs_world.more w"
  by (auto simp: write_file_def split: prod.splits bool.splits dest!: take_fault_more)

lemma create_parent_more: "create_parent p w = (f, w') \<Longrightarrow> fs_world.more w' = fs_world.more w"
  by (auto simp: create_parent_def split: if_splits dest!: take_fault_more)

lemma publish_success:
  fixes w w' :: "'a fs_world_scheme" and v :: "('a, 'e) validator"
  assumes run: "publish_prepared p d b backed v w = (Inr u, w')" and keeps: "keeps_files v"
    and differ: "p \<noteq> d" "backed \<longrightarrow> b \<noteq> d"
  shows "Files w p \<noteq> None \<and> Files w' d = Files w p
    \<and> (\<exists>w1 w2. run_validation v w1 = (Inr () :: 'e replace_error + unit, w2) \<and> fs_world.more w1 = fs_world.more w
      \<and> fs_world.more w' = fs_world.more w2)"
proof -
  obtain r1 :: "'e replace_error + unit" and w1 where w1: "RenamePath p d w = (r1, w1)" by fastforce
  obtain r2 :: "'e replace_error + unit" and w2 where w2: "run_validation v w1 = (r2, w2)" by fastforce
  have r1: "r1 = Inr ()" using run w1 by (cases r1) (auto simp: publish_prepared_def dest: rollback_fails)
  have r2: "r2 = Inr ()" using run w1 w2 r1 by (cases r2) (auto simp: publish_prepared_def dest: rollback_fails)
  have w': "w' = (if backed then snd (RemovePathNoThrow b w2) else w2)" using run w1 w2 r1 r2 by (simp add: publish_prepared_def)
  have f1: "Files w p \<noteq> None" "Files w1 = (Files w)(p := None, d := Files w p)" using RenamePath_result [OF w1 differ(1)] r1 by auto
  have f2: "Files w2 = Files w1" using run_validation_result [OF w2 keeps] by simp
  have "Files w' d = Files w2 d" using w' differ(2) remove_frame [of b w2, OF prod.collapse [symmetric]] by auto
  then have "Files w' d = Files w p" using f1 f2 by simp
  moreover have "fs_world.more w' = fs_world.more w2" using w' by (simp add: remove_more)
  ultimately show ?thesis using f1 w2 r2 rename_more [OF w1] by blast
qed

lemma replace_success:
  fixes w w' :: "'a fs_world_scheme" and v :: "('a, 'e) validator"
  assumes run: "ReplaceDestinationWithPreparedFile p d v w = (Inr u, w')" and keeps: "keeps_files v"
    and differ: "p \<noteq> d" "p \<noteq> replacement_backup d w"
  shows "Files w p \<noteq> None \<and> Files w' d = Files w p
    \<and> (\<exists>w1 w2. run_validation v w1 = (Inr () :: 'e replace_error + unit, w2) \<and> fs_world.more w1 = fs_world.more w
      \<and> fs_world.more w' = fs_world.more w2)"
proof -
  obtain r1 :: "'e replace_error + bool" and w1 where w1: "PathExists d w = (r1, w1)" by fastforce
  obtain b w2 where w2: "backup_path d w1 = (b, w2)" by fastforce
  obtain r3 :: "'e replace_error + unit" and w3 where w3: "RenamePath d b w2 = (r3, w3)" by fastforce
  have b: "b = replacement_backup d w" "b \<noteq> d"
    using w2 PathExists_result [OF w1] backup_path_differs [OF w2]
    by (auto simp: replacement_backup_def backup_path_def BuildSiblingTemporaryPath_def Let_def)
  have f: "Files w1 = Files w" "Files w2 = Files w" using PathExists_result [OF w1] backup_path_result [OF w2] by auto
  have f3: "Files w3 p = Files w p" using rename_throw_frame [OF w3] f differ b by auto
  have m: "fs_world.more w1 = fs_world.more w" "fs_world.more w3 = fs_world.more w"
    using exists_more [OF w1] backup_more [OF w2] rename_more [OF w3] by simp_all
  consider "r1 = Inr False" | "r1 = Inr True" "r3 = Inr ()"
  proof (cases r1)
    case (Inl e)
    then show ?thesis using run w1 differ(1) by (simp add: ReplaceDestinationWithPreparedFile_def)
  next
    case (Inr e)
    then show ?thesis using that run w1 w2 w3 differ(1)
      by (cases e; cases r3) (auto simp: ReplaceDestinationWithPreparedFile_def dest: rollback_fails)
  qed
  then show ?thesis
  proof cases
    case 1
    then have "publish_prepared p d (relative []) False v w1 = (Inr u, w')"
      using run w1 differ(1) by (simp add: ReplaceDestinationWithPreparedFile_def)
    from publish_success [OF this keeps differ(1)] show ?thesis using f m by simp
  next
    case 2
    then have "publish_prepared p d b True v w3 = (Inr u, w')"
      using run w1 w2 w3 differ(1) by (simp add: ReplaceDestinationWithPreparedFile_def)
    from publish_success [OF this keeps differ(1)] show ?thesis using f3 b m by simp
  qed
qed

section \<open>Names beside a file\<close>

lemma temporary_name_longer: "length (path_filename p) < length (temporary_file_name p c n)"
  by (simp add: temporary_file_name_def Let_def)

lemma temporary_differs: "BuildSiblingTemporaryPath d w = (p, w') \<Longrightarrow> p \<noteq> d"
proof -
  assume "BuildSiblingTemporaryPath d w = (p, w')"
  then obtain c n where "path_filename p = temporary_file_name d c n"
    by (auto simp: BuildSiblingTemporaryPath_def Let_def path_filename_def)
  then show "p \<noteq> d" using temporary_name_longer [of d c n] by auto
qed

lemma staged_extension: "path_extension (path_join directory (relative [''source.'' @ book_format_ToString f])) = ''.'' @ book_format_ToString f"
  by (cases f) (simp_all add: path_extension_def path_join_def relative_def book_format_ToString_def find_last_def)

lemma temporary_no_backup:
  assumes "BuildSiblingTemporaryPath d w = (p, w')" "d = path_join directory (relative [''source.'' @ book_format_ToString f])"
  shows "\<not> is_backup_of d p"
proof
  assume b: "is_backup_of d p"
  obtain xs where "path_filename p = xs @ ''.'' @ book_format_ToString f"
    using assms(1) staged_extension [of directory f, folded assms(2)]
    by (auto simp: BuildSiblingTemporaryPath_def Let_def path_filename_def temporary_file_name_def)
  then show False using backup_last [OF b] by (cases f) (simp_all add: book_format_ToString_def)
qed

section \<open>Looks at the source\<close>

text \<open>What the look with a number shows, from 1 on; where no more changes are listed the source stays as it is.\<close>

definition look :: "nat \<Rightarrow> download_world \<Rightarrow> source_view" where
  "look n w = (CurrentView w # Views w) ! min n (length (Views w))"

definition looked :: "nat \<Rightarrow> download_world \<Rightarrow> download_world \<Rightarrow> bool" where
  "looked n w w' \<longleftrightarrow> CurrentView w' = look n w \<and> Views w' = drop n (Views w)"

lemma look_0 [simp]: "look 0 w = CurrentView w"
  by (simp add: look_def)

lemma look_later: "looked m w w1 \<Longrightarrow> look n w1 = look (m + n) w"
  by (cases "length (Views w) \<le> m"; cases n) (auto simp: looked_def look_def min_def nth_Cons' not_le)

lemma looked_trans: "looked m w w1 \<Longrightarrow> looked n w1 w2 \<Longrightarrow> looked (m + n) w w2"
  using look_later [of m w w1 n] by (simp add: looked_def add.commute)

lemma looked_0: "CurrentView w' = CurrentView w \<Longrightarrow> Views w' = Views w \<Longrightarrow> looked 0 w w'"
  by (simp add: looked_def)

lemma more_fields:
  "fs_world.more w' = fs_world.more w \<Longrightarrow> CurrentView w' = CurrentView w \<and> Views w' = Views w \<and> Stops w' = Stops w \<and> Collisions w' = Collisions w"
  by (cases w'; cases w) simp

lemma more_looked: "fs_world.more w' = fs_world.more w \<Longrightarrow> looked 0 w w'"
  using more_fields [of w' w] by (simp add: looked_0)

lemma take_view_looked: "take_view w = (v, w') \<Longrightarrow> v = look 1 w \<and> looked 1 w w'"
  by (auto simp: take_view_def look_def looked_def split: list.splits)

lemma cancel_looked: "ThrowIfCancelled w = (r, w') \<Longrightarrow> looked 0 w w'"
  by (auto simp: ThrowIfCancelled_def looked_def split: list.splits bool.splits)

lemma fault_looked: "fs_call take_fault e w = (r, w') \<Longrightarrow> looked 0 w w'"
  by (auto simp: fs_call_def split: prod.splits bool.splits dest!: take_fault_more more_looked)

lemma remove_all_looked: "looked 0 w (remove_all directory w)"
  by (auto simp: remove_all_def looked_def split: prod.split bool.split dest!: take_fault_more more_fields)

lemma unique_directory_views: "unique_directory_loop parent pre w = (r, w') \<Longrightarrow> CurrentView w' = CurrentView w \<and> Views w' = Views w"
proof (induction parent pre w arbitrary: r w' rule: unique_directory_loop.induct)
  case (1 parent pre w)
  note loop = "1.prems" [unfolded unique_directory_loop.simps [of parent pre w] Let_def]
  obtain f w1 where w1: "take_fault (next_name w) = (f, w1)" by fastforce
  have s: "CurrentView w1 = CurrentView w \<and> Views w1 = Views w"
    using more_fields [OF take_fault_more [OF w1]] by (simp add: next_name_def)
  show ?case
  proof (cases "\<not> f \<and> (\<exists>rest. Collisions w1 = True # rest)")
    case True
    then obtain rest where rest: "Collisions w1 = True # rest" "f = False" by auto
    then have "unique_directory_loop parent pre (w1\<lparr>Collisions := rest\<rparr>) = (r, w')" using loop w1 by simp
    from "1.IH" [OF refl w1 [symmetric] rest(2) rest(1) _ this] show ?thesis using s by simp
  next
    case False
    then show ?thesis using loop w1 s by (auto split: list.splits bool.splits)
  qed
qed

lemma create_looked: "CreateUniqueDirectory parent pre w = (r, w') \<Longrightarrow> looked 0 w w'"
  using looked_trans [of 0 w _ 0]
  by (auto simp: CreateUniqueDirectory_def and_next_def looked_0 split: prod.splits sum.splits dest!: fault_looked unique_directory_views)

lemma extract_loop_more: "extract_loop z i p n written w = (r, w') \<Longrightarrow> fs_world.more w' = fs_world.more w"
proof (induction z i p n written w arbitrary: r w' rule: extract_loop.induct)
  case (1 z i p n written w)
  note loop = "1.prems" [unfolded extract_loop.simps [of z i p n written w]]
  show ?case
  proof (cases "n > 0 \<and> read_chunk z i (length written) n \<noteq> None")
    case True
    then obtain chunk where c: "n > 0" "read_chunk z i (length written) n = Some chunk" by auto
    obtain ok w1 where w1: "write_file p (written @ chunk) w = (ok, w1)" by fastforce
    show ?thesis
    proof (cases ok)
      case True
      then have rec: "extract_loop z i p (n - length chunk) (written @ chunk) w1 = (r, w')" using loop c w1 by simp
      from "1.IH" [OF c w1 [symmetric] _ rec] True show ?thesis using write_more [OF w1] by auto
    next
      case False
      then show ?thesis using loop c w1 write_more [OF w1] by auto
    qed
  next
    case False
    then show ?thesis using loop by (auto split: if_splits)
  qed
qed

section \<open>What success means\<close>

lemma and_next_Inr:
  assumes "and_next step f w = (Inr y, w')"
  obtains x w1 where "step w = (Inr x, w1)" "f x w1 = (Inr y, w')"
  using assms by (auto simp: and_next_def split: prod.splits sum.splits)

lemma opened_from_view:
  assumes "OpenValidatedArchiveSnapshot evp m source locator w = (Inr reader, w')"
  shows "looked 1 w w' \<and> open_matching_archive evp m source locator (look 1 w) = Inr reader"
proof -
  from assms [unfolded OpenValidatedArchiveSnapshot_def] obtain u w1 where c: "ThrowIfCancelled w = (Inr u, w1)"
    and o: "(case take_view w1 of (v, w') \<Rightarrow> (open_matching_archive evp m source locator v, w')) = (Inr reader, w')"
    by (rule and_next_Inr)
  obtain v w2 where v: "take_view w1 = (v, w2)" by fastforce
  show ?thesis
    using take_view_looked [OF v] look_later [OF cancel_looked [OF c], of 1] looked_trans [OF cancel_looked [OF c], of 1 w2] o v by simp
qed

lemma validated_views:
  assumes "validate_source env source locator w = (Inr u, w')"
  shows "looked 2 w w' \<and> fingerprint_matches (DlEvp env) source locator (look 1 w) = Inr ()
    \<and> \<not> isl (open_matching_archive (DlEvp env) (MaxArchiveManifestMemoryBytes env) source locator (look 2 w))"
proof -
  from assms [unfolded validate_source_def ValidateDownloadSnapshot_def] obtain x w1 y w2
    where f: "ValidateInpxSourceFingerprint (DlEvp env) source locator w = (Inr x, w1)"
    and o: "OpenValidatedArchiveSnapshot (DlEvp env) (MaxArchiveManifestMemoryBytes env) source locator w1 = (Inr y, w2)" and w': "w' = w2"
    by (elim and_next_Inr) simp
  from f [unfolded ValidateInpxSourceFingerprint_def] obtain z w0 where c: "ThrowIfCancelled w = (Inr z, w0)"
    and t: "(case take_view w0 of (v, w') \<Rightarrow> (fingerprint_matches (DlEvp env) source locator v, w')) = (Inr x, w1)" by (rule and_next_Inr)
  obtain v wv where v: "take_view w0 = (v, wv)" by fastforce
  have 1: "looked 1 w w1" "fingerprint_matches (DlEvp env) source locator (look 1 w) = Inr ()"
    using take_view_looked [OF v] look_later [OF cancel_looked [OF c], of 1] looked_trans [OF cancel_looked [OF c], of 1 wv] t v by simp_all
  show ?thesis
    using opened_from_view [OF o] look_later [OF 1(1), of 1] looked_trans [OF 1(1), of 1 w2] 1(2) w' by (simp add: numeral_2_eq_2)
qed

lemma extract_success:
  assumes run: "Extract z n d w = (Inr u, w')" and temporary: "\<not> is_backup_of d (fst (BuildSiblingTemporaryPath d w))"
  shows "\<exists>content. ReadBytes z n = Inr content \<and> Files w' d = Some content \<and> fs_world.more w' = fs_world.more w"
proof -
  obtain entry where entry: "LocateEntry z n = Inr entry" using run by (auto simp: Extract_def split: sum.splits)
  have opens: "OpenEntry z (LocatedIndex entry) = Inr ()" using run entry by (auto simp: Extract_def split: sum.splits)
  obtain p w1 where p: "BuildSiblingTemporaryPath d w = (p, w1)" by fastforce
  obtain f w1' where f: "create_parent p w1 = (f, w1')" by fastforce
  have "extract_prepared z entry p d w1' = (Inr (), w')"
    using run entry opens p f by (cases f) (auto simp: Extract_def split: sum.splits prod.splits)
  then obtain w2 payload w3 w4 r5 where w2: "write_file p [] w1' = (True, w2)"
    and w3: "extract_loop z (LocatedIndex entry) p (LocatedSize entry) [] w2 = (Inr payload, w3)"
    and valid: "and_then (ValidateEntryEndOfStream z (LocatedIndex entry) (length payload)) (\<lambda>_. CloseEntry z (LocatedIndex entry)) = Inr ()"
    and w4: "take_fault w3 = (False, w4)"
    and w5: "ReplaceDestinationWithPreparedFile p d None w4 = (Inr r5 :: text_error replace_error + unit, w')"
    by (auto simp: extract_prepared_def split: prod.splits sum.splits bool.splits)
  have p2: "Files w2 p = Some []" using write_file_result [OF w2] by simp
  then have "Files w4 p = Some payload" using extract_loop_frame [OF w3] take_fault_keeps [OF w4] by simp
  moreover have "p \<noteq> d" "p \<noteq> replacement_backup d w4"
    using temporary_differs [OF p] temporary p replacement_backup_is_backup [of d w4] by auto
  ultimately have r: "Files w' d = Some payload" "fs_world.more w' = fs_world.more w4"
    using replace_success [OF w5] by (auto simp: keeps_files_def run_validation_def)
  have "fs_world.more w1 = fs_world.more w" using p by (auto simp: BuildSiblingTemporaryPath_def Let_def)
  then have "fs_world.more w' = fs_world.more w"
    using r(2) create_parent_more [OF f] write_more [OF w2] extract_loop_more [OF w3] take_fault_more [OF w4] by simp
  moreover have "ReadBytes z n = Inr payload"
    using extract_loop_bytes [OF w3, of "''Failed to read INPX archive entry payload.''"] valid entry opens
    by (auto simp: ReadBytes_def read_whole_entry_def and_then_def split: sum.splits)
  ultimately show ?thesis using r(1) by blast
qed

lemma staged_entry:
  assumes run: "stage_source env source locator p w = (Inr u, w')"
    and p: "p = path_join directory (relative [''source.'' @ book_format_ToString f])"
  shows "\<exists>reader content.
      open_matching_archive (DlEvp env) (MaxArchiveManifestMemoryBytes env) source locator (look 1 w) = Inr reader
      \<and> ReadBytes reader (DlEntryNameUtf8 locator) = Inr content \<and> length content = DlEntrySizeBytes locator \<and> Files w' p = Some content
      \<and> looked 3 w w' \<and> fingerprint_matches (DlEvp env) source locator (look 2 w) = Inr ()
      \<and> \<not> isl (open_matching_archive (DlEvp env) (MaxArchiveManifestMemoryBytes env) source locator (look 3 w))"
proof -
  from run [unfolded stage_source_def] obtain reader w1 w2 w3 w4 w5 w6 where
    o: "OpenValidatedArchiveSnapshot (DlEvp env) (MaxArchiveManifestMemoryBytes env) source locator w = (Inr reader, w1)"
    and w2: "ThrowIfCancelled w1 = (Inr (), w2)" and w3: "ThrowIfCancelled w2 = (Inr (), w3)"
    and w4: "extract_step reader (DlEntryNameUtf8 locator) p w3 = (Inr (), w4)"
    and w5: "check_staged_size p (DlEntrySizeBytes locator) w4 = (Inr (), w5)"
    and w6: "ThrowIfCancelled w5 = (Inr (), w6)" and w': "validate_source env source locator w6 = (Inr u, w')"
    by (elim and_next_Inr) simp
  have "Extract reader (DlEntryNameUtf8 locator) p w3 = (Inr (), w4)"
    using w4 by (auto simp: extract_step_def split: prod.splits sum.splits)
  moreover have "\<not> is_backup_of p (fst (BuildSiblingTemporaryPath p w3))"
    using temporary_no_backup [OF prod.collapse [symmetric] p] .
  ultimately obtain content where c: "ReadBytes reader (DlEntryNameUtf8 locator) = Inr content" "Files w4 p = Some content" "fs_world.more w4 = fs_world.more w3"
    using extract_success by blast
  have size: "length content = DlEntrySizeBytes locator \<and> Files w5 p = Some content" and m5: "fs_world.more w5 = fs_world.more w4"
    using w5 c by (auto simp: check_staged_size_def split: prod.splits bool.splits if_splits dest: take_fault_keeps take_fault_more)
  have f: "Files w' p = Files w5 p"
    using touchesD [OF touches_cancel w6, of p "{}"] touchesD [OF touches_validate_source w', of p "{}"] by simp
  note first = opened_from_view [OF o] and again = validated_views [OF w']
  have "looked 0 w1 w6"
    using looked_trans [OF looked_trans [OF cancel_looked [OF w2] cancel_looked [OF w3]] more_looked, of w5] c(3) m5
      looked_trans [OF _ cancel_looked [OF w6], of 0 w1] by simp
  then have l: "looked 1 w w6" using looked_trans [OF conjunct1 [OF first], of 0 w6] by simp
  show ?thesis
    using first again c size f looked_trans [OF l, of 2 w'] look_later [OF l, of 1] look_later [OF l, of 2]
    by (simp add: numeral_eq_Suc)
qed

end
