(* ===== verification/Download_Undisturbed.thy ===== *)
theory Download_Undisturbed
  imports Download_Results
begin

text \<open>
  The steps of a download that nothing disturbs: no call of the file system fails, nobody asks to stop, and the source stays
  as it is. Each of them succeeds.
\<close>

section \<open>The file system without faults\<close>

definition steady :: "'a fs_world_scheme \<Rightarrow> 'a fs_world_scheme \<Rightarrow> bool" where
  "steady w w' \<longleftrightarrow> Faults w' = [] \<and> fs_world.more w' = fs_world.more w"

lemma steady_refl: "Faults w = [] \<Longrightarrow> steady w w"
  by (simp add: steady_def)

lemma steady_trans: "steady u v \<Longrightarrow> steady v w \<Longrightarrow> steady u w"
  by (simp add: steady_def)

lemma take_fault_none [simp]: "Faults w = [] \<Longrightarrow> take_fault w = (False, w)"
  by (simp add: take_fault_def)

lemma remove_quiet: "Faults w = [] \<Longrightarrow> steady w (snd (RemovePathNoThrow p w))"
  by (simp add: RemovePathNoThrow_def steady_def)

lemma rename_quiet:
  "Faults w = [] \<Longrightarrow> Files w p \<noteq> None \<Longrightarrow> p \<noteq> q \<Longrightarrow>
    RenamePathNoThrow p q w = (False, w\<lparr>Files := (Files w)(p := None, q := Files w p)\<rparr>)"
  by (simp add: RenamePathNoThrow_def)

lemma publish_quiet:
  fixes v :: "('a, 'e) validator"
  assumes w: "Faults w = []" "Files w p = Some content" "p \<noteq> d"
    and v: "\<And>x. steady w x \<Longrightarrow> run_validation v x = (Inr () :: 'e replace_error + unit, x)"
  shows "\<exists>w'. publish_prepared p d b backed v w = (Inr () :: 'e replace_error + unit, w') \<and> steady w w'"
proof -
  let ?x = "w\<lparr>Files := (Files w)(p := None, d := Files w p)\<rparr>"
  have x: "steady w ?x" using w by (simp add: steady_def)
  have r: "RenamePath p d w = (Inr () :: 'e replace_error + unit, ?x)" using w by (simp add: RenamePath_def rename_quiet)
  have "publish_prepared p d b backed v w = (Inr (), if backed then snd (RemovePathNoThrow b ?x) else ?x)"
    by (simp add: publish_prepared_def r v [OF x])
  moreover have "steady w (snd (RemovePathNoThrow b ?x))" using steady_trans [OF x remove_quiet] w by simp
  ultimately show ?thesis using x by auto
qed

lemma replace_quiet:
  fixes v :: "('a, 'e) validator"
  assumes w: "Faults w = []" "Files w p = Some content" "p \<noteq> d" "p \<noteq> replacement_backup d w"
    and v: "\<And>x. steady w x \<Longrightarrow> run_validation v x = (Inr () :: 'e replace_error + unit, x)"
  shows "\<exists>w'. ReplaceDestinationWithPreparedFile p d v w = (Inr () :: 'e replace_error + unit, w') \<and> steady w w'"
proof (cases "Files w d = None")
  case True
  then show ?thesis using publish_quiet [OF w(1-3) v] w by (simp add: ReplaceDestinationWithPreparedFile_def PathExists_def)
next
  case False
  obtain b w2 where b: "backup_path d w = (b, w2)" by fastforce
  have w2: "Files w2 = Files w" "steady w w2"
    using b w(1) by (auto simp: backup_path_def BuildSiblingTemporaryPath_def Let_def steady_def)
  have db: "b \<noteq> d" "b \<noteq> p" using backup_path_differs [OF b] b w(4) by (auto simp: replacement_backup_def)
  let ?x = "w2\<lparr>Files := (Files w2)(d := None, b := Files w2 d)\<rparr>"
  have x: "steady w ?x" using w2(2) by (simp add: steady_def)
  have r: "RenamePath d b w2 = (Inr () :: 'e replace_error + unit, ?x)"
    using w2 db False by (simp add: RenamePath_def rename_quiet steady_def)
  have "\<exists>w'. publish_prepared p d b True v ?x = (Inr () :: 'e replace_error + unit, w') \<and> steady ?x w'"
    by (rule publish_quiet) (use w w2 db x steady_trans [OF x] v in \<open>auto simp: steady_def\<close>)
  then show ?thesis using False w b r steady_trans [OF x] by (auto simp: ReplaceDestinationWithPreparedFile_def PathExists_def)
qed

lemma extract_loop_quiet:
  "Faults w = [] \<Longrightarrow> read_bytes_loop z i message n written = Inr payload \<Longrightarrow> \<exists>w'. extract_loop z i p n written w = (Inr payload, w') \<and> steady w w'"
proof (induction z i p n written w rule: extract_loop.induct)
  case (1 z i p n written w)
  note loop = "1.prems"(2)
  show ?case
  proof (cases "n > 0")
    case True
    then obtain chunk where c: "read_chunk z i (length written) n = Some chunk"
      and rec: "read_bytes_loop z i message (n - length chunk) (written @ chunk) = Inr payload"
      using loop by (auto simp: read_bytes_loop.simps [of z i message n] split: option.splits)
    let ?x = "w\<lparr>Files := (Files w)(p := Some (written @ chunk))\<rparr>"
    have x: "write_file p (written @ chunk) w = (True, ?x)" using "1.prems"(1) by (simp add: write_file_def)
    obtain w' where "extract_loop z i p (n - length chunk) (written @ chunk) ?x = (Inr payload, w')" "steady ?x w'"
      using "1.IH" [OF True c x [symmetric] _ _ rec] "1.prems"(1) by auto
    then show ?thesis using True c x extract_loop.simps [of z i p n written w] by (auto simp: steady_def)
  next
    case False
    then show ?thesis
      using loop "1.prems"(1) read_bytes_loop.simps [of z i message n written] extract_loop.simps [of z i p n written w]
      by (simp add: steady_def)
  qed
qed

lemma extract_quiet:
  assumes w: "Faults w = []" and read: "ReadBytes z n = Inr content"
    and temporary: "\<not> is_backup_of d (fst (BuildSiblingTemporaryPath d w))"
  shows "\<exists>w'. Extract z n d w = (Inr (), w') \<and> steady w w'"
proof -
  obtain entry where entry: "LocateEntry z n = Inr entry" "OpenEntry z (LocatedIndex entry) = Inr ()"
    and loop: "read_bytes_loop z (LocatedIndex entry) ''Failed to read INPX archive entry payload.'' (LocatedSize entry) [] = Inr content"
    and valid: "and_then (ValidateEntryEndOfStream z (LocatedIndex entry) (length content)) (\<lambda>_. CloseEntry z (LocatedIndex entry)) = Inr ()"
    using read by (auto simp: ReadBytes_def read_whole_entry_def and_then_def split: sum.splits)
  obtain p w1 where p: "BuildSiblingTemporaryPath d w = (p, w1)" by fastforce
  have w1: "steady w w1" using p w by (auto simp: BuildSiblingTemporaryPath_def Let_def steady_def)
  have parent: "create_parent p w1 = (False, w1)" using w1 by (simp add: create_parent_def steady_def)
  let ?x = "w1\<lparr>Files := (Files w1)(p := Some [])\<rparr>"
  have x: "write_file p [] w1 = (True, ?x)" using w1 by (simp add: write_file_def steady_def)
  obtain w2 where w2: "extract_loop z (LocatedIndex entry) p (LocatedSize entry) [] ?x = (Inr content, w2)" "steady ?x w2"
    using extract_loop_quiet [OF _ loop, of ?x] w1 by (auto simp: steady_def)
  have sw2: "steady w w2" using w1 w2(2) by (simp add: steady_def)
  have p2: "Files w2 p = Some content" using extract_loop_frame [OF w2(1)] by auto
  have "p \<noteq> d" "p \<noteq> replacement_backup d w2"
    using temporary_differs [OF p] temporary p replacement_backup_is_backup [of d w2] by auto
  then obtain w3 where w3: "ReplaceDestinationWithPreparedFile p d None w2 = (Inr () :: text_error replace_error + unit, w3)" "steady w2 w3"
    using replace_quiet [of w2 p content d None] sw2 p2 by (auto simp: steady_def run_validation_def)
  have "extract_prepared z entry p d w1 = (Inr (), w3)"
    using x w2(1) valid sw2 w3(1) by (simp add: extract_prepared_def steady_def)
  then have "Extract z n d w = (Inr (), w3)" using entry p parent by (simp add: Extract_def)
  then show ?thesis using steady_trans [OF sw2 w3(2)] by blast
qed

section \<open>The steps\<close>

definition quiet :: "download_world \<Rightarrow> bool" where
  "quiet w \<longleftrightarrow> Faults w = [] \<and> Stops w = [] \<and> Views w = [] \<and> Collisions w = []"

definition calm :: "download_world \<Rightarrow> download_world \<Rightarrow> bool" where
  "calm w w' \<longleftrightarrow> quiet w' \<and> CurrentView w' = CurrentView w"

lemma calm_refl: "quiet w \<Longrightarrow> calm w w"
  by (simp add: calm_def)

lemma calm_trans: "calm u v \<Longrightarrow> calm v w \<Longrightarrow> calm u w"
  by (simp add: calm_def)

lemma calm_quiet: "calm w w' \<Longrightarrow> quiet w'"
  by (simp add: calm_def)

lemma steady_calm: "quiet w \<Longrightarrow> steady w w' \<Longrightarrow> calm w w'"
  using more_fields [of w' w] by (simp add: steady_def quiet_def calm_def)

lemma and_next_run: "step w = (Inr x, w1) \<Longrightarrow> and_next step f w = f x w1"
  by (simp add: and_next_def)

lemma cancel_quiet: "quiet w \<Longrightarrow> ThrowIfCancelled w = (Inr (), w)"
  by (simp add: ThrowIfCancelled_def quiet_def)

lemma fault_quiet: "quiet w \<Longrightarrow> fs_call take_fault e w = (Inr (), w)"
  by (simp add: fs_call_def quiet_def)

text \<open>The source as the catalog knows it.\<close>

definition source_matches :: "'c download_env \<Rightarrow> SBookDownloadSource \<Rightarrow> SInpxDownloadSource \<Rightarrow> source_view \<Rightarrow> bool" where
  "source_matches env source locator view \<longleftrightarrow> fingerprint_matches (DlEvp env) source locator view = Inr ()
    \<and> \<not> isl (open_matching_archive (DlEvp env) (MaxArchiveManifestMemoryBytes env) source locator view)"

lemma open_quiet:
  "quiet w \<Longrightarrow> OpenValidatedArchiveSnapshot evp m source locator w = (open_matching_archive evp m source locator (CurrentView w), w)"
  by (simp add: OpenValidatedArchiveSnapshot_def and_next_run [OF cancel_quiet] take_view_def) (simp add: quiet_def)

lemma validate_quiet:
  assumes "quiet w" "source_matches env source locator (CurrentView w)"
  shows "validate_source env source locator w = (Inr (), w)"
proof -
  obtain reader where o: "open_matching_archive (DlEvp env) (MaxArchiveManifestMemoryBytes env) source locator (CurrentView w) = Inr reader"
    using assms(2) not_isl_Inr by (auto simp: source_matches_def)
  have "ValidateInpxSourceFingerprint (DlEvp env) source locator w = (Inr (), w)"
    using assms by (simp add: ValidateInpxSourceFingerprint_def and_next_run [OF cancel_quiet] take_view_def source_matches_def quiet_def)
  then show ?thesis
    by (simp add: validate_source_def ValidateDownloadSnapshot_def and_next_run open_quiet [OF assms(1)] o)
qed

lemma create_quiet:
  assumes "quiet w"
  shows "\<exists>directory w'. CreateUniqueDirectory parent pre w = (Inr directory, w') \<and> calm w w' \<and> Files w' = Files w
    \<and> is_unique_directory parent pre directory"
proof -
  have "CreateUniqueDirectory parent pre w = (Inr (path_join parent (relative [unique_name pre w])), next_name w)"
    using assms
    by (simp add: CreateUniqueDirectory_def and_next_run [OF fault_quiet] unique_directory_loop.simps [of parent pre w] Let_def)
      (simp add: next_name_def quiet_def)
  moreover have "calm w (next_name w)" using assms by (simp add: calm_def quiet_def next_name_def)
  ultimately show ?thesis using CreateUniqueDirectory_result by blast
qed

lemma move_quiet:
  assumes "quiet w" "Files w p = Some content" "p \<noteq> q"
  shows "\<exists>w'. MoveFileWithCopyFallback p q w = (Inr (), w') \<and> calm w w'"
  using assms by (simp add: MoveFileWithCopyFallback_def rename_quiet quiet_def calm_def)

lemma publish_download_quiet:
  assumes w: "quiet w" "Files w p = Some content" "p \<notin> guarded d"
    and v: "\<And>x. calm w x \<Longrightarrow> validate x = (Inr (), x)"
  shows "\<exists>w'. publish_download p d validate w = (Inr (), w') \<and> calm w w'"
proof -
  have "p \<noteq> d" "p \<noteq> replacement_backup d w" using w(3) replacement_backup_is_backup [of d w] by (auto simp: guarded_def)
  moreover have "run_validation (Some validate) x = (Inr () :: download_error replace_error + unit, x)" if "steady w x" for x
    using v [OF steady_calm [OF w(1) that]] by (simp add: run_validation_def)
  ultimately obtain w' where "ReplaceDestinationWithPreparedFile p d (Some validate) w = (Inr () :: download_error replace_error + unit, w')" "steady w w'"
    using replace_quiet [of w p content d "Some validate"] w by (auto simp: quiet_def)
  then show ?thesis using steady_calm [OF w(1)] by (auto simp: publish_download_def)
qed

lemma remove_all_quiet: "quiet w \<Longrightarrow> calm w (remove_all directory w)"
  by (simp add: remove_all_def quiet_def calm_def)

end
