(* ===== verification/Download_Properties.thy ===== *)
theory Download_Properties
  imports Download_Undisturbed
begin

text \<open>
  What a download promises: it touches its workspaces and its destination only and keeps the old file when it fails; it
  publishes exactly the entry of an archive that matched the catalog; and over a source that matches it succeeds.
\<close>

section \<open>Publication\<close>








section \<open>Undisturbed\<close>






section \<open>The properties\<close>




section \<open>A download\<close>



























end
