(* ===== verification/Spec2Isabelle.thy ===== *)
theory Spec2Isabelle
  imports Text_Properties Domain_Types Inpx_Properties Search_Page_Properties Http_Properties Http_Task_Queue Download_Gate Scan_Coordinator
    Scan_Warnings Fb2_Properties Archive_Access_Properties Download_Properties
begin

text \<open>
  A verification development for INPX Web Reader, the C++20 server in \<open>src/libs\<close> that serves the catalog of an INPX
  library (an index of books that lie in zip archives) from an SQLite cache.

  \<^bold>\<open>How the program works.\<close> A scan reads the INPX file (\<open>Inpx\<close>), compares its segments with the cache, opens the archives of the
  segments that are new or have changed (\<open>App/InpxArchiveAccess\<close>), parses each book (\<open>Parsing\<close>) and writes rows, index and
  statistics in one transaction (\<open>App/InpxScanJobService\<close>, \<open>Database\<close>). Clients search the catalog over HTTP (\<open>Server\<close>):
  requests are parsed and checked, run by one backend thread, and answered in pages whose cursors are kept in memory
  (\<open>Database/SqliteBookQueryRepository\<close>). A download extracts an entry of an archive and puts it at its place with a
  replacement that can be rolled back (\<open>App/FileReplacement\<close>).

  \<^bold>\<open>The theories,\<close> from the bottom, with the sources they model. A theory \<open>X_Properties\<close> holds what is proved of \<open>X\<close>.

  \<^item> \<open>Prelude\<close>, \<open>Transition_Systems\<close>: bytes and bit operations; a locale of invariants of transition systems that is interpreted
    for the cursor sessions, the executor, the queue of requests, the download gate, the registry of jobs, the coordinator and the
    history of scans.
  \<^item> \<open>Unicode\<close>, \<open>Unicode_Text\<close>, \<open>Unicode_Ascii\<close>, \<open>Unicode_Trim\<close>, \<open>Legacy_Cyrillic\<close>, \<open>String_Utils\<close>, \<open>Text_Properties\<close>
    (\<open>Foundation/UnicodeConversion.cpp\<close>, \<open>StringUtils.cpp\<close>, \<open>FilenamePolicy.cpp\<close>): UTF-8 decoding, validation and repair, case
    folding, legacy code pages. \<open>Sha256\<close> (\<open>Foundation/Sha256Fingerprint.cpp\<close>), \<open>Time_Point\<close> (\<open>Database/SqliteTimePoint.cpp\<close>).
  \<^item> \<open>Language_Normalization\<close>, \<open>Metadata_Normalization\<close>, \<open>Domain_Types\<close> (\<open>Domain\<close>): language tags, search keys, ISBNs, enums.
  \<^item> \<open>Inpx_Text\<close>, \<open>Inpx_Split\<close>, \<open>Inpx_Records\<close>, \<open>Inpx_Archive\<close>, with \<open>Inpx_Correctness\<close>, \<open>Inpx_Roundtrip\<close>, \<open>Inpx_Properties\<close>
    (\<open>Inpx/InpxParser.cpp\<close>): fields, lines, segments and the archive of the index.
  \<^item> \<open>Genre_Table\<close>, \<open>Fb2_Text\<close>, \<open>Fb2_Scanner\<close>, \<open>Fb2_Genres\<close>, \<open>Fb2_Parser\<close>, \<open>Fb2_Book\<close> (\<open>Parsing/Fb2Parser.cpp\<close>,
    \<open>Fb2GenreMapper.cpp\<close>): the decoding of a book, the cut of its metadata, base64, genres, and the record that comes out.
  \<^item> \<open>Sql_Query\<close>, \<open>Search_Documents\<close>, \<open>Book_Relations\<close>, \<open>Stored_Books\<close>, \<open>Catalog_Statistics\<close> (\<open>Database\<close>): statements as texts with
    parameters, the full-text index, the rows of books, the counters.
  \<^item> \<open>Search_Sessions\<close>, \<open>Search_Session_System\<close>, \<open>Search_Session_Invariants\<close>, \<open>Search_Paging\<close>, \<open>Catalog_Search\<close>,
    \<open>Search_Page_Properties\<close> (\<open>Database/SqliteBookQueryRepository.cpp\<close>): cursor sessions, reservations, pages of a search.
  \<^item> \<open>Base64_Url\<close>, \<open>Book_List_Cursor\<close>, \<open>Http_Requests\<close>, \<open>Path_Safety\<close>, \<open>Http_Task_Queue\<close>, \<open>Download_Gate\<close>, \<open>Backend_Executor\<close>
    (\<open>Server/BookListCursor.cpp\<close>, \<open>HttpServer.cpp\<close>, \<open>BackendExecutor.cpp\<close>, \<open>Storage/PathSafety.cpp\<close>): parsing and
    answering of requests and the concurrency around the backend.
  \<^item> \<open>Scan_Budgets\<close>, \<open>Scan_Writer\<close>, \<open>Scan_Tables\<close>, \<open>Scan_Transaction\<close>, \<open>Scan_Planning\<close>, \<open>Scan_Execution\<close>, \<open>Scan_Run\<close>,
    \<open>Scan_Warnings\<close> (\<open>App/InpxScanJobService.cpp\<close>): the scan, with \<open>Scan_Refinement\<close> and \<open>Rescan\<close>, the replay of a snapshot that
    it refines, and \<open>Scan_Demo\<close>, the scan that the witnesses run. \<open>Scan_Jobs\<close>, \<open>Scan_Coordinator\<close>
    (\<open>Server/ServerScanCoordinator.cpp\<close>): jobs and who may start them.
  \<^item> \<open>Payload_Limits\<close>, \<open>File_Replacement\<close>, \<open>Archive_Access\<close> (\<open>App/FileReplacement.cpp\<close>, \<open>App/InpxArchiveAccess.cpp\<close>): files that
    are replaced under failures, entries and manifests of archives.
  \<^item> \<open>Download_Facade\<close> (\<open>App/BookDownloadFacade.cpp\<close>): the preparation of a download from the request to the published file, with
    \<open>Download_Frames\<close> (what its steps touch), \<open>Download_Contract\<close> (the old file is kept), \<open>Download_Results\<close> (what is staged and at
    which look at the source), \<open>Download_Undisturbed\<close> (runs without failures) and \<open>Download_Properties\<close>. The source may change
    between any two looks: each look takes the next of a list of views.

  \<^bold>\<open>How the code is modelled.\<close> A \<open>std::string\<close> is a list of bytes; structs are records with their fields, enums are datatypes. An
  exception is the left side of a sum whose type has a constructor per C++ exception type. Unsigned integers are natural
  numbers with the wrap-around written out where it can happen, signed ones are integers with the bounds of their parsers.
  Threads are steps of a transition system, one per critical section. The state of the database is the rows of its tables; a
  statement that the code builds is a text with parameters, and what SQLite answers to a search is a parameter. What is not in
  the repository is an argument: libzip, OpenSSL, pugixml, the converter of character sets, SQLite, the clock, the random
  generator, and the answers of the file system. Hypotheses on them (\<open>evp_streams\<close>, \<open>zip_serves\<close>, the laws of the database) state
  what their documentation says, and each property that has one is applied to a concrete instance by its witness. A double is its
  bits; where a column keeps one, a value that is not a number is null and the negative zero is zero, as SQLite documents.

  \<^bold>\<open>What is proved,\<close> by groups: the scan refines the replay of its snapshot, and any history of scans that of the last one committed; it counts what it stores, writes each record once
  whatever the threads do and commits only over unchanged archives (\<open>Scan_Properties\<close>); sessions stay within their capacity, do
  not leak reservations, and their pages put together are the result (\<open>Search_Session_Properties\<close>, \<open>Search_Paging\<close>,
  \<open>Search_Page_Properties\<close>); jobs, executor, queue and gate keep their invariants under every interleaving; texts, records,
  cursors and base64 round trip; requests, cursors, paths and headers from outside are bounded and safe; a parsed book is
  complete and the XML library sees bounded text only; files are replaced or restored;
  a download publishes exactly the entry that was scanned, or keeps the old file (\<open>Download_Properties\<close>).

  \<^bold>\<open>Loops and fuel.\<close> Every loop is a recursive function that is proved to terminate, structurally or by a measure on the bytes,
  entries or work that is left; no definition has fuel. The loop that hashes and copies in chunks is shown to be the plain
  function.

  \<^bold>\<open>Not modelled.\<close> The sockets and routes of cpp-httplib, threads as such (only their critical sections), SQLite itself and its
  schema migrations (\<open>SchemaInitializer.cpp\<close> is SQL text and calls), external converter processes and their probes, image
  decoding (\<open>StbCoverImageProcessor.cpp\<close>), configuration files and command lines (third-party JSON), logging and performance
  counters, and JSON output. The cancellation checkpoints inside a parser or an archive only abort it with an exception; they are
  left out of these components and kept in the jobs. Collections that are only measured or logged are left out too.
\<close>

end
